(* ===== verification/Prelude.thy ===== *)
theory Prelude
  imports Complex_Main
begin

text \<open>
  Shared vocabulary of the development: the JSON values of \<^verbatim>\<open>src/src/db/types.ts\<close>, the
  JavaScript list and object operations the source uses, SQL statements over tables kept as lists of
  rows, database operations as state transformers whose errors are values
  (\<^verbatim>\<open>src/src/db/errors.ts\<close>, \<^verbatim>\<open>src/src/db/sql.ts\<close>), and the generic lemmas the component theories
  rely on.  A table is the list of its rows in insertion order; \<^verbatim>\<open>ORDER BY\<close> is a stable sort, so
  rows that tie on the key come out in insertion order.
\<close>

named_theorems sql_simps "statements over tables"
named_theorems op_simps "sequencing of database operations"

section \<open>JSON values and JavaScript containers\<close>

text \<open>A finite JSON number is a rational; an object is the list of its entries in insertion order.\<close>

datatype json =
    JNull
  | JBool bool
  | JNum rat
  | JStr string
  | JArr "json list"
  | JObj "(string \<times> json) list"

type_synonym json_object = "(string \<times> json) list"

text \<open>Assigning a property of a JavaScript object: an existing key keeps its place.\<close>

fun obj_set :: "string \<Rightarrow> 'v \<Rightarrow> (string \<times> 'v) list \<Rightarrow> (string \<times> 'v) list" where
  "obj_set k v [] = [(k, v)]"
| "obj_set k v ((k', v') # xs) = (if k' = k then (k, v) # xs else (k', v') # obj_set k v xs)"

text \<open>\<^verbatim>\<open>indexOf\<close>: the first index of a value, or -1.\<close>

fun indexOf_from :: "int \<Rightarrow> 'a list \<Rightarrow> 'a \<Rightarrow> int" where
  "indexOf_from i [] x = -1"
| "indexOf_from i (y # ys) x = (if y = x then i else indexOf_from (i + 1) ys x)"

definition indexOf :: "'a list \<Rightarrow> 'a \<Rightarrow> int" where
  "indexOf xs x = indexOf_from 0 xs x"

text \<open>\<^verbatim>\<open>String.prototype.trim\<close> on the ASCII white space and line terminators.\<close>

definition js_space :: "char \<Rightarrow> bool" where
  "js_space c \<longleftrightarrow> c \<in> {CHR '' '', CHR 0x09, CHR 0x0A, CHR 0x0B, CHR 0x0C, CHR 0x0D}"

definition js_trim :: "string \<Rightarrow> string" where
  "js_trim s = rev (dropWhile js_space (rev (dropWhile js_space s)))"

text \<open>\<^verbatim>\<open>Array.prototype.join\<close>.\<close>

fun js_join :: "string \<Rightarrow> string list \<Rightarrow> string" where
  "js_join sep [] = []"
| "js_join sep [x] = x"
| "js_join sep (x # y # zs) = x @ sep @ js_join sep (y # zs)"

text \<open>The em dash of a source literal: texts are their UTF-8 bytes.\<close>

definition em_dash :: string where "em_dash = [CHR 0xE2, CHR 0x80, CHR 0x94]"

text \<open>The member of a closed vocabulary a string names: what \<^verbatim>\<open>z.enum(VALUES).safeParse\<close> decides.\<close>

definition parse_enum :: "('a \<Rightarrow> string) \<Rightarrow> 'a list \<Rightarrow> string \<Rightarrow> 'a option" where
  "parse_enum name values s = find (\<lambda>x. name x = s) values"

section \<open>Operations with errors over a state\<close>

text \<open>
  An operation takes the state and yields an error or a result, together with the state it leaves
  behind; the effects of the statements that ran before an error persist unless a transaction rolls
  them back.
\<close>

type_synonym ('s, 'e, 'a) op = "'s \<Rightarrow> ('e + 'a) \<times> 's"

definition op_return :: "'a \<Rightarrow> ('s, 'e, 'a) op" where
  "op_return a s = (Inr a, s)"

definition op_throw :: "'e \<Rightarrow> ('s, 'e, 'a) op" where
  "op_throw e s = (Inl e, s)"

definition op_bind :: "('s, 'e, 'a) op \<Rightarrow> ('a \<Rightarrow> ('s, 'e, 'b) op) \<Rightarrow> ('s, 'e, 'b) op" where
  "op_bind m f s = (case m s of (Inl e, s') \<Rightarrow> (Inl e, s') | (Inr a, s') \<Rightarrow> f a s')"

text \<open>\<^verbatim>\<open>withTransaction\<close> / \<^verbatim>\<open>withClientTransaction\<close>: COMMIT on a result, ROLLBACK and rethrow on any error.\<close>

definition withTransaction :: "('s, 'e, 'a) op \<Rightarrow> ('s, 'e, 'a) op" where
  "withTransaction fn s = (case fn s of (Inl e, s') \<Rightarrow> (Inl e, s) | (Inr a, s') \<Rightarrow> (Inr a, s'))"

section \<open>SQL over lists of rows\<close>

definition sql_select :: "('r \<Rightarrow> bool) \<Rightarrow> 'r list \<Rightarrow> 'r list" where
  "sql_select p t = filter p t"

definition sql_update :: "('r \<Rightarrow> bool) \<Rightarrow> ('r \<Rightarrow> 'r) \<Rightarrow> 'r list \<Rightarrow> 'r list" where
  "sql_update p f t = map (\<lambda>r. if p r then f r else r) t"

text \<open>The rows an \<^verbatim>\<open>UPDATE ... RETURNING *\<close> gives back.\<close>

definition sql_updated :: "('r \<Rightarrow> bool) \<Rightarrow> ('r \<Rightarrow> 'r) \<Rightarrow> 'r list \<Rightarrow> 'r list" where
  "sql_updated p f t = map f (filter p t)"

definition sql_delete :: "('r \<Rightarrow> bool) \<Rightarrow> 'r list \<Rightarrow> 'r list" where
  "sql_delete p t = filter (\<lambda>r. \<not> p r) t"

definition sql_exists :: "('r \<Rightarrow> bool) \<Rightarrow> 'r list \<Rightarrow> bool" where
  "sql_exists p t = list_ex p t"

definition first_row :: "'r list \<Rightarrow> 'r option" where
  "first_row t = (case t of [] \<Rightarrow> None | r # _ \<Rightarrow> Some r)"

text \<open>What a query can raise: the codes of \<^verbatim>\<open>DalErrorCode\<close>, or another Postgres error.\<close>

datatype dal_code =
    DAL_VALIDATION_FAILED
  | DAL_STALE_STAGE
  | DAL_QUERY_FAILED
  | DAL_RESTRICTED_ACCESS_DENIED
  | DAL_COST_ADJUST_REJECTED
  | DAL_REVIEW_INVARIANT

section \<open>Generic lemmas\<close>

lemma obj_set_lookup [simp]: "map_of (obj_set k v xs) = (map_of xs)(k \<mapsto> v)"
  by (induction xs) (auto simp: fun_eq_iff)

lemma obj_set_keys: "fst ` set (obj_set k v xs) = insert k (fst ` set xs)"
  by (induction k v xs rule: obj_set.induct) (auto simp: image_iff)

lemma obj_set_distinct: "distinct (map fst xs) \<Longrightarrow> distinct (map fst (obj_set k v xs))"
proof (induction k v xs rule: obj_set.induct)
  case (2 k v k' v' xs)
  have "k' \<noteq> k \<Longrightarrow> k' \<notin> fst ` set (obj_set k v xs)"
    using "2.prems" by (simp add: obj_set_keys)
  with 2 show ?case by auto
qed simp

lemma indexOf_from_bounds:
  "indexOf_from i xs x = -1 \<or> (i \<le> indexOf_from i xs x \<and> indexOf_from i xs x < i + int (length xs))"
  by (induction i xs x rule: indexOf_from.induct) auto

lemma indexOf_from_nth:
  "distinct xs \<Longrightarrow> k < length xs \<Longrightarrow> indexOf_from i xs (xs ! k) = i + int k"
proof (induction xs arbitrary: i k)
  case (Cons y ys)
  show ?case
  proof (cases k)
    case 0
    then show ?thesis by simp
  next
    case (Suc j)
    with Cons.prems have "y \<noteq> ys ! j" by (metis distinct.simps(2) nth_Cons_Suc nth_mem length_Cons Suc_less_eq)
    with Cons.IH [of j "i + 1"] Cons.prems Suc show ?thesis by simp
  qed
qed simp

lemma indexOf_from_neg: "0 \<le> i \<Longrightarrow> indexOf_from i xs x = -1 \<longleftrightarrow> x \<notin> set xs"
  by (induction i xs x rule: indexOf_from.induct) auto

lemma indexOf_from_value:
  "0 \<le> i \<Longrightarrow> indexOf_from i xs x = j \<Longrightarrow> j \<noteq> -1 \<Longrightarrow> xs ! nat (j - i) = x \<and> i \<le> j \<and> nat (j - i) < length xs"
proof (induction i xs x rule: indexOf_from.induct)
  case (2 i y ys x)
  show ?case
  proof (cases "y = x")
    case True
    with 2 show ?thesis by auto
  next
    case False
    with 2 have IH: "ys ! nat (j - (i + 1)) = x \<and> i + 1 \<le> j \<and> nat (j - (i + 1)) < length ys" by simp
    then have "nat (j - i) = Suc (nat (j - (i + 1)))" by linarith
    with IH show ?thesis by auto
  qed
qed simp

lemma indexOf_neg: "indexOf xs x = -1 \<longleftrightarrow> x \<notin> set xs"
  by (simp add: indexOf_def indexOf_from_neg)

lemma indexOf_less: "indexOf xs x < int (length xs)"
  using indexOf_from_bounds [of 0 xs x] by (auto simp: indexOf_def)

lemma indexOf_ge: "-1 \<le> indexOf xs x"
  using indexOf_from_bounds [of 0 xs x] by (auto simp: indexOf_def)

lemma indexOf_nth: "distinct xs \<Longrightarrow> k < length xs \<Longrightarrow> indexOf xs (xs ! k) = int k"
  using indexOf_from_nth [of xs k 0] by (simp add: indexOf_def)

lemma indexOf_value: "indexOf xs x = j \<Longrightarrow> 0 \<le> j \<Longrightarrow> xs ! nat j = x"
  using indexOf_from_value [of 0 xs x j] by (auto simp: indexOf_def)

lemma js_trim_idem [simp]: "js_trim (js_trim s) = js_trim s"
proof -
  have last: "t = [] \<or> \<not> p (last t)" if "t = rev (dropWhile p (rev u))" for t u and p :: "char \<Rightarrow> bool"
    using that by (metis hd_dropWhile hd_rev last_rev rev.simps(1) rev_rev_ident)
  have hd: "hd t = hd u \<or> t = []" if "t = rev (dropWhile p (rev u))" for t u :: string and p
    using that by (metis (no_types, lifting) dropWhile_eq_drop hd_append2 rev_rev_ident rev_append
        append_take_drop_id rev_is_Nil_conv)
  define d where "d = dropWhile js_space s"
  define t where "t = js_trim s"
  have t: "t = rev (dropWhile js_space (rev d))" by (simp add: t_def d_def js_trim_def)
  have "t = [] \<or> \<not> js_space (hd t)"
    using hd [OF t] t by (metis d_def dropWhile.simps(1) hd_dropWhile rev.simps(1))
  then have "dropWhile js_space t = t" by (metis dropWhile_eq_self_iff)
  moreover have "dropWhile js_space (rev t) = rev t"
    using last [OF t] by (metis dropWhile_eq_self_iff hd_rev rev_is_Nil_conv)
  ultimately have "js_trim t = t" by (simp add: js_trim_def)
  then show ?thesis by (simp add: t_def)
qed

lemma parse_enum_Some: "parse_enum name values s = Some x \<Longrightarrow> name x = s \<and> x \<in> set values"
  by (auto simp: parse_enum_def find_Some_iff)

lemma parse_enum_None: "parse_enum name values s = None \<longleftrightarrow> s \<notin> name ` set values"
  by (auto simp: parse_enum_def find_None_iff)

lemma op_bind_return [op_simps]: "op_bind (op_return a) f = f a"
  by (simp add: op_bind_def op_return_def fun_eq_iff)

lemma op_bind_throw [op_simps]: "op_bind (op_throw e) f = op_throw e"
  by (simp add: op_bind_def op_throw_def fun_eq_iff)

lemma op_bind_Inr [op_simps]: "m s = (Inr a, s') \<Longrightarrow> op_bind m f s = f a s'"
  by (simp add: op_bind_def)

lemma op_bind_Inl [op_simps]: "m s = (Inl e, s') \<Longrightarrow> op_bind m f s = (Inl e, s')"
  by (simp add: op_bind_def)

lemma op_bind_eq_Inr:
  "op_bind m f s = (Inr b, s'') \<longleftrightarrow> (\<exists>a s'. m s = (Inr a, s') \<and> f a s' = (Inr b, s''))"
  by (auto simp: op_bind_def split: prod.splits sum.splits)

lemma withTransaction_rollback: "withTransaction fn s = (Inl e, s') \<Longrightarrow> s' = s"
  by (auto simp: withTransaction_def split: prod.splits sum.splits)

lemma withTransaction_commit: "withTransaction fn s = (Inr a, s') \<longleftrightarrow> fn s = (Inr a, s')"
  by (auto simp: withTransaction_def split: prod.splits sum.splits)

lemma withTransaction_Inl: "withTransaction fn s = (Inl e, s') \<longleftrightarrow> s' = s \<and> (\<exists>s''. fn s = (Inl e, s''))"
  by (auto simp: withTransaction_def split: prod.splits sum.splits)

lemma set_sql_update: "set (sql_update p f t) = {r \<in> set t. \<not> p r} \<union> f ` {r \<in> set t. p r}"
  by (auto simp: sql_update_def)

lemma length_sql_update [simp]: "length (sql_update p f t) = length t"
  by (simp add: sql_update_def)

lemma map_sql_update [sql_simps]:
  "(\<And>r. g (f r) = g r) \<Longrightarrow> map g (sql_update p f t) = map g t"
  by (simp add: sql_update_def)

lemma sql_update_id [sql_simps]: "(\<And>r. r \<in> set t \<Longrightarrow> \<not> p r) \<Longrightarrow> sql_update p f t = t"
  by (simp add: sql_update_def map_idI)

lemma sql_updated_Nil: "sql_updated p f t = [] \<longleftrightarrow> (\<forall>r \<in> set t. \<not> p r)"
  by (auto simp: sql_updated_def filter_empty_conv)

lemma sql_exists_iff [sql_simps]: "sql_exists p t \<longleftrightarrow> (\<exists>r \<in> set t. p r)"
  by (simp add: sql_exists_def list_ex_iff)

lemma first_row_None [simp]: "first_row t = None \<longleftrightarrow> t = []"
  by (cases t) (simp_all add: first_row_def)

lemma first_row_Some: "first_row t = Some r \<Longrightarrow> r \<in> set t"
  by (cases t) (simp_all add: first_row_def)

lemma first_row_Nil [simp]: "first_row [] = None"
  by (simp add: first_row_def)

lemma first_row_Cons [simp]: "first_row (r # t) = Some r"
  by (simp add: first_row_def)

lemma first_row_update:
  assumes "\<And>r. k (f r) = k r"
  shows "first_row (sql_select (\<lambda>r. k r = x) (sql_update p f t)) =
         map_option (\<lambda>r. if p r then f r else r) (first_row (sql_select (\<lambda>r. k r = x) t))"
  using assms by (induction t) (auto simp: sql_select_def sql_update_def)

text \<open>A filter picks at most one row of a table whose key is unique.\<close>

lemma filter_key_at_most_one:
  "distinct (map k t) \<Longrightarrow> (\<And>r. p r \<Longrightarrow> k r = x) \<Longrightarrow> length (filter p t) \<le> 1"
proof (induction t)
  case (Cons r t)
  show ?case
  proof (cases "p r")
    case True
    have "\<not> p r'" if "r' \<in> set t" for r'
      using that Cons.prems True by (metis distinct.simps(2) image_eqI list.map(2) list.set_map)
    then have "filter p t = []" by (simp add: filter_empty_conv)
    with True show ?thesis by simp
  next
    case False
    with Cons show ?thesis by simp
  qed
qed simp

lemma filter_key_unique:
  assumes "distinct (map k t)" "r \<in> set t" "p r" "\<And>r'. p r' \<Longrightarrow> k r' = k r"
  shows "filter p t = [r]"
proof -
  have "length (filter p t) \<le> 1" using filter_key_at_most_one [OF assms(1), of p "k r"] assms(4) by blast
  moreover have "r \<in> set (filter p t)" using assms by simp
  ultimately show ?thesis by (cases "filter p t") auto
qed

end
