(* ===== verification/Vocabulary.thy ===== *)
theory Vocabulary
  imports Prelude
begin

text \<open>
  The closed vocabularies of the system: the enumerations of \<^verbatim>\<open>src/src/db/enums.ts\<close>, the pipeline
  stages and the call-state statuses of \<^verbatim>\<open>src/src/pipeline/stages.ts\<close>, and the failure taxonomy of
  \<^verbatim>\<open>src/src/failure-model/categories.ts\<close>.  A vocabulary is a datatype with one constructor per
  value, the text each value is stored as, and the tuple in the order the source declares it.  The
  locale \<open>vocabulary\<close> states what a vocabulary promises: every value is listed and no two values
  share a text, so reading a stored text back is unambiguous.
\<close>

locale vocabulary =
  fixes name :: "'a \<Rightarrow> string" and vals :: "'a list"
  assumes complete: "x \<in> set vals"
    and names_distinct: "distinct (map name vals)"
begin

lemma name_inj [simp]: "name x = name y \<longleftrightarrow> x = y"
  using names_distinct complete by (auto simp: distinct_map dest: inj_onD)

lemma parse_name [simp]: "parse_enum name vals (name x) = Some x"
proof -
  have "parse_enum name vals (name x) \<noteq> None"
    using complete by (auto simp: parse_enum_None)
  then obtain y where "parse_enum name vals (name x) = Some y" by blast
  then show ?thesis using parse_enum_Some [of name vals "name x" y] by simp
qed

lemma parse_iff: "parse_enum name vals s = Some x \<longleftrightarrow> s = name x"
  by (auto dest: parse_enum_Some)

lemma values_distinct: "distinct vals"
  using names_distinct by (simp add: distinct_map)

lemma index_of_value: "k < length vals \<Longrightarrow> indexOf (map name vals) (name (vals ! k)) = int k"
  using indexOf_nth [of "map name vals" k] names_distinct by simp

lemma text_known: "s \<in> set (map name vals) \<longleftrightarrow> (\<exists>x. s = name x)"
  using complete by auto

end

section \<open>Enumerations\<close>

text \<open>\<^verbatim>\<open>SEVERITY\<close> of \<^verbatim>\<open>src/src/db/enums.ts\<close>.\<close>

datatype severity =
    SEV_critical | SEV_high | SEV_medium | SEV_low

primrec severity_name :: "severity \<Rightarrow> string" where
  "severity_name SEV_critical = ''critical''"
| "severity_name SEV_high = ''high''"
| "severity_name SEV_medium = ''medium''"
| "severity_name SEV_low = ''low''"

definition SEVERITY :: "severity list" where
  "SEVERITY =
    [SEV_critical, SEV_high, SEV_medium, SEV_low]"

text \<open>\<^verbatim>\<open>HELD_REASON\<close> of \<^verbatim>\<open>src/src/db/enums.ts\<close>.\<close>

datatype held_reason =
    HR_redaction_failed | HR_residual_pii_detected | HR_classifier_uncertain
    | HR_malformed_model_output | HR_schema_invalid | HR_emergency_review | HR_missing_transcript
    | HR_cost_cap_held | HR_weak_servicetitan_match | HR_classified_spam

primrec held_reason_name :: "held_reason \<Rightarrow> string" where
  "held_reason_name HR_redaction_failed = ''redaction_failed''"
| "held_reason_name HR_residual_pii_detected = ''residual_pii_detected''"
| "held_reason_name HR_classifier_uncertain = ''classifier_uncertain''"
| "held_reason_name HR_malformed_model_output = ''malformed_model_output''"
| "held_reason_name HR_schema_invalid = ''schema_invalid''"
| "held_reason_name HR_emergency_review = ''emergency_review''"
| "held_reason_name HR_missing_transcript = ''missing_transcript''"
| "held_reason_name HR_cost_cap_held = ''cost_cap_held''"
| "held_reason_name HR_weak_servicetitan_match = ''weak_servicetitan_match''"
| "held_reason_name HR_classified_spam = ''classified_spam''"

definition HELD_REASON :: "held_reason list" where
  "HELD_REASON =
    [HR_redaction_failed, HR_residual_pii_detected, HR_classifier_uncertain
     , HR_malformed_model_output, HR_schema_invalid, HR_emergency_review, HR_missing_transcript
     , HR_cost_cap_held, HR_weak_servicetitan_match, HR_classified_spam]"

text \<open>\<^verbatim>\<open>DROP_REASONS\<close> of \<^verbatim>\<open>src/src/db/enums.ts\<close>.\<close>

datatype drop_reason =
    DR_zero_duration | DR_non_conversation_call_state | DR_outbound_no_customer_conversation
    | DR_internal_transfer_non_operator_leg | DR_classified_non_customer | DR_duplicate_call_leg
    | DR_below_minimum_duration

primrec drop_reason_name :: "drop_reason \<Rightarrow> string" where
  "drop_reason_name DR_zero_duration = ''zero_duration''"
| "drop_reason_name DR_non_conversation_call_state = ''non_conversation_call_state''"
| "drop_reason_name DR_outbound_no_customer_conversation = ''outbound_no_customer_conversation''"
| "drop_reason_name DR_internal_transfer_non_operator_leg = ''internal_transfer_non_operator_leg''"
| "drop_reason_name DR_classified_non_customer = ''classified_non_customer''"
| "drop_reason_name DR_duplicate_call_leg = ''duplicate_call_leg''"
| "drop_reason_name DR_below_minimum_duration = ''below_minimum_duration''"

definition DROP_REASONS :: "drop_reason list" where
  "DROP_REASONS =
    [DR_zero_duration, DR_non_conversation_call_state, DR_outbound_no_customer_conversation
     , DR_internal_transfer_non_operator_leg, DR_classified_non_customer, DR_duplicate_call_leg
     , DR_below_minimum_duration]"

text \<open>\<^verbatim>\<open>REVIEW_STATUS\<close> of \<^verbatim>\<open>src/src/db/enums.ts\<close>.\<close>

datatype review_status =
    RS_open | RS_in_review | RS_resolved | RS_unresolvable

primrec review_status_name :: "review_status \<Rightarrow> string" where
  "review_status_name RS_open = ''open''"
| "review_status_name RS_in_review = ''in_review''"
| "review_status_name RS_resolved = ''resolved''"
| "review_status_name RS_unresolvable = ''unresolvable''"

definition REVIEW_STATUS :: "review_status list" where
  "REVIEW_STATUS =
    [RS_open, RS_in_review, RS_resolved, RS_unresolvable]"

text \<open>\<^verbatim>\<open>OPERATOR_ACTION\<close> of \<^verbatim>\<open>src/src/db/enums.ts\<close>.\<close>

datatype operator_action =
    OA_approve | OA_reject | OA_reprocess | OA_mark_non_customer | OA_mark_spam
    | OA_correct_extraction | OA_mark_unresolvable | OA_reveal_raw

primrec operator_action_name :: "operator_action \<Rightarrow> string" where
  "operator_action_name OA_approve = ''approve''"
| "operator_action_name OA_reject = ''reject''"
| "operator_action_name OA_reprocess = ''reprocess''"
| "operator_action_name OA_mark_non_customer = ''mark_non_customer''"
| "operator_action_name OA_mark_spam = ''mark_spam''"
| "operator_action_name OA_correct_extraction = ''correct_extraction''"
| "operator_action_name OA_mark_unresolvable = ''mark_unresolvable''"
| "operator_action_name OA_reveal_raw = ''reveal_raw''"

definition OPERATOR_ACTION :: "operator_action list" where
  "OPERATOR_ACTION =
    [OA_approve, OA_reject, OA_reprocess, OA_mark_non_customer, OA_mark_spam
     , OA_correct_extraction, OA_mark_unresolvable, OA_reveal_raw]"

text \<open>\<^verbatim>\<open>KEY_VERSION_STATUS\<close> of \<^verbatim>\<open>src/src/db/enums.ts\<close>.\<close>

datatype key_version_status =
    KV_active | KV_rotating | KV_retired | KV_destroyed

primrec key_version_status_name :: "key_version_status \<Rightarrow> string" where
  "key_version_status_name KV_active = ''active''"
| "key_version_status_name KV_rotating = ''rotating''"
| "key_version_status_name KV_retired = ''retired''"
| "key_version_status_name KV_destroyed = ''destroyed''"

definition KEY_VERSION_STATUS :: "key_version_status list" where
  "KEY_VERSION_STATUS =
    [KV_active, KV_rotating, KV_retired, KV_destroyed]"

text \<open>\<^verbatim>\<open>CALL_INTENT\<close> of \<^verbatim>\<open>src/src/db/enums.ts\<close>.\<close>

datatype call_intent =
    CI_new_booking | CI_existing_job | CI_quote | CI_emergency | CI_billing | CI_general

primrec call_intent_name :: "call_intent \<Rightarrow> string" where
  "call_intent_name CI_new_booking = ''new_booking''"
| "call_intent_name CI_existing_job = ''existing_job''"
| "call_intent_name CI_quote = ''quote''"
| "call_intent_name CI_emergency = ''emergency''"
| "call_intent_name CI_billing = ''billing''"
| "call_intent_name CI_general = ''general''"

definition CALL_INTENT :: "call_intent list" where
  "CALL_INTENT =
    [CI_new_booking, CI_existing_job, CI_quote, CI_emergency, CI_billing, CI_general]"

text \<open>\<^verbatim>\<open>URGENCY\<close> of \<^verbatim>\<open>src/src/db/enums.ts\<close>.\<close>

datatype urgency =
    UR_emergency | UR_urgent | UR_routine

primrec urgency_name :: "urgency \<Rightarrow> string" where
  "urgency_name UR_emergency = ''emergency''"
| "urgency_name UR_urgent = ''urgent''"
| "urgency_name UR_routine = ''routine''"

definition URGENCY :: "urgency list" where
  "URGENCY =
    [UR_emergency, UR_urgent, UR_routine]"

text \<open>\<^verbatim>\<open>SERVICE_CATEGORIES\<close> of \<^verbatim>\<open>src/src/db/enums.ts\<close>.\<close>

datatype service_category =
    SC_water_heater | SC_drain_blockage | SC_leak_detection_or_repair | SC_sewer_or_septic
    | SC_toilet | SC_faucet_sink_or_fixture | SC_shower_or_tub | SC_gas_line
    | SC_sump_pump_or_drainage | SC_water_quality_or_treatment | SC_repipe_or_pipe_repair
    | SC_appliance_install_or_hookup | SC_inspection_or_maintenance | SC_grinder_pump | SC_other

primrec service_category_name :: "service_category \<Rightarrow> string" where
  "service_category_name SC_water_heater = ''water_heater''"
| "service_category_name SC_drain_blockage = ''drain_blockage''"
| "service_category_name SC_leak_detection_or_repair = ''leak_detection_or_repair''"
| "service_category_name SC_sewer_or_septic = ''sewer_or_septic''"
| "service_category_name SC_toilet = ''toilet''"
| "service_category_name SC_faucet_sink_or_fixture = ''faucet_sink_or_fixture''"
| "service_category_name SC_shower_or_tub = ''shower_or_tub''"
| "service_category_name SC_gas_line = ''gas_line''"
| "service_category_name SC_sump_pump_or_drainage = ''sump_pump_or_drainage''"
| "service_category_name SC_water_quality_or_treatment = ''water_quality_or_treatment''"
| "service_category_name SC_repipe_or_pipe_repair = ''repipe_or_pipe_repair''"
| "service_category_name SC_appliance_install_or_hookup = ''appliance_install_or_hookup''"
| "service_category_name SC_inspection_or_maintenance = ''inspection_or_maintenance''"
| "service_category_name SC_grinder_pump = ''grinder_pump''"
| "service_category_name SC_other = ''other''"

definition SERVICE_CATEGORIES :: "service_category list" where
  "SERVICE_CATEGORIES =
    [SC_water_heater, SC_drain_blockage, SC_leak_detection_or_repair, SC_sewer_or_septic
     , SC_toilet, SC_faucet_sink_or_fixture, SC_shower_or_tub, SC_gas_line
     , SC_sump_pump_or_drainage, SC_water_quality_or_treatment, SC_repipe_or_pipe_repair
     , SC_appliance_install_or_hookup, SC_inspection_or_maintenance, SC_grinder_pump, SC_other]"

text \<open>\<^verbatim>\<open>SENTIMENTS\<close> of \<^verbatim>\<open>src/src/db/enums.ts\<close>.\<close>

datatype sentiment =
    SE_positive | SE_neutral | SE_negative | SE_frustrated

primrec sentiment_name :: "sentiment \<Rightarrow> string" where
  "sentiment_name SE_positive = ''positive''"
| "sentiment_name SE_neutral = ''neutral''"
| "sentiment_name SE_negative = ''negative''"
| "sentiment_name SE_frustrated = ''frustrated''"

definition SENTIMENTS :: "sentiment list" where
  "SENTIMENTS =
    [SE_positive, SE_neutral, SE_negative, SE_frustrated]"

text \<open>\<^verbatim>\<open>PII_SCAN_STATUSES\<close> of \<^verbatim>\<open>src/src/db/enums.ts\<close>.\<close>

datatype pii_scan_status =
    PS_pending | PS_passed | PS_failed

primrec pii_scan_status_name :: "pii_scan_status \<Rightarrow> string" where
  "pii_scan_status_name PS_pending = ''pending''"
| "pii_scan_status_name PS_passed = ''passed''"
| "pii_scan_status_name PS_failed = ''failed''"

definition PII_SCAN_STATUSES :: "pii_scan_status list" where
  "PII_SCAN_STATUSES =
    [PS_pending, PS_passed, PS_failed]"

text \<open>\<^verbatim>\<open>PII_SCAN_FAILURE_KINDS\<close> of \<^verbatim>\<open>src/src/db/enums.ts\<close>.\<close>

datatype pii_scan_failure_kind =
    PK_residual_pii | PK_tokened_phrase | PK_verbatim_mismatch

primrec pii_scan_failure_kind_name :: "pii_scan_failure_kind \<Rightarrow> string" where
  "pii_scan_failure_kind_name PK_residual_pii = ''residual_pii''"
| "pii_scan_failure_kind_name PK_tokened_phrase = ''tokened_phrase''"
| "pii_scan_failure_kind_name PK_verbatim_mismatch = ''verbatim_mismatch''"

definition PII_SCAN_FAILURE_KINDS :: "pii_scan_failure_kind list" where
  "PII_SCAN_FAILURE_KINDS =
    [PK_residual_pii, PK_tokened_phrase, PK_verbatim_mismatch]"

text \<open>\<^verbatim>\<open>REPROCESS_REQUEST_STATUSES\<close> of \<^verbatim>\<open>src/src/db/enums.ts\<close>.\<close>

datatype reprocess_request_status =
    RR_pending | RR_sent | RR_superseded

primrec reprocess_request_status_name :: "reprocess_request_status \<Rightarrow> string" where
  "reprocess_request_status_name RR_pending = ''pending''"
| "reprocess_request_status_name RR_sent = ''sent''"
| "reprocess_request_status_name RR_superseded = ''superseded''"

definition REPROCESS_REQUEST_STATUSES :: "reprocess_request_status list" where
  "REPROCESS_REQUEST_STATUSES =
    [RR_pending, RR_sent, RR_superseded]"

text \<open>\<^verbatim>\<open>DELIVERY_STATES\<close> of \<^verbatim>\<open>src/src/db/schemas/alert-events.ts\<close>.\<close>

datatype delivery_state =
    DS_pending | DS_delivered | DS_failed

primrec delivery_state_name :: "delivery_state \<Rightarrow> string" where
  "delivery_state_name DS_pending = ''pending''"
| "delivery_state_name DS_delivered = ''delivered''"
| "delivery_state_name DS_failed = ''failed''"

definition DELIVERY_STATES :: "delivery_state list" where
  "DELIVERY_STATES =
    [DS_pending, DS_delivered, DS_failed]"

datatype signature_status = SG_valid | SG_invalid | SG_missing

primrec signature_status_name :: "signature_status \<Rightarrow> string" where
  "signature_status_name SG_valid = ''valid''"
| "signature_status_name SG_invalid = ''invalid''"
| "signature_status_name SG_missing = ''missing''"

definition SIGNATURE_STATUS :: "signature_status list" where
  "SIGNATURE_STATUS = [SG_valid, SG_invalid, SG_missing]"

text \<open>\<^verbatim>\<open>PIPELINE_STAGES\<close> of \<^verbatim>\<open>src/src/pipeline/stages.ts\<close>.\<close>

datatype pipeline_stage =
    ST_metadata_pre_filter | ST_fetch_transcript | ST_transcript_availability | ST_redact
    | ST_classify | ST_extract | ST_verbatim_pii_scan | ST_store | ST_mark_retention_eligible

primrec pipeline_stage_name :: "pipeline_stage \<Rightarrow> string" where
  "pipeline_stage_name ST_metadata_pre_filter = ''metadata-pre-filter''"
| "pipeline_stage_name ST_fetch_transcript = ''fetch-transcript''"
| "pipeline_stage_name ST_transcript_availability = ''transcript-availability''"
| "pipeline_stage_name ST_redact = ''redact''"
| "pipeline_stage_name ST_classify = ''classify''"
| "pipeline_stage_name ST_extract = ''extract''"
| "pipeline_stage_name ST_verbatim_pii_scan = ''verbatim-pii-scan''"
| "pipeline_stage_name ST_store = ''store''"
| "pipeline_stage_name ST_mark_retention_eligible = ''mark-retention-eligible''"

definition PIPELINE_STAGES :: "pipeline_stage list" where
  "PIPELINE_STAGES =
    [ST_metadata_pre_filter, ST_fetch_transcript, ST_transcript_availability, ST_redact
     , ST_classify, ST_extract, ST_verbatim_pii_scan, ST_store, ST_mark_retention_eligible]"

text \<open>\<^verbatim>\<open>ROOT_CAUSE_CATEGORIES\<close> of \<^verbatim>\<open>src/src/failure-model/categories.ts\<close>.\<close>

datatype error_code =
    CONFIG_MISSING_OR_INVALID | DATABASE_UNAVAILABLE | REDIS_UNAVAILABLE | MIGRATION_FAILED
    | DIALPAD_AUTH_FAILED | DIALPAD_RATE_LIMITED | DIALPAD_API_CHANGED
    | DIALPAD_TRANSCRIPT_MISSING | WEBHOOK_SIGNATURE_INVALID | WEBHOOK_REPLAY_DETECTED
    | REDACTION_RECALL_REGRESSION | REDACTION_LOW_CONFIDENCE | MODEL_AUTH_FAILED
    | MODEL_RATE_LIMITED | MODEL_MALFORMED_RESPONSE | MODEL_COST_CAP_EXCEEDED
    | MODEL_COST_WARNING_THRESHOLD_EXCEEDED | QUEUE_RETRY_EXHAUSTED | DEAD_LETTER_CREATED
    | RETENTION_PURGE_FAILED | BACKFILL_CHECKPOINT_FAILED | REVIEW_QUEUE_STALLED
    | SERVICETITAN_AUTH_FAILED | SERVICETITAN_MATCH_WEAK | SERVICETITAN_WRITE_FAILED
    | REQUEST_BODY_TOO_LARGE | REQUEST_MALFORMED | UNSUPPORTED_MEDIA_TYPE | RATE_LIMIT_EXCEEDED
    | AUTH_REQUIRED | CSRF_TOKEN_INVALID | WEBHOOK_TIMESTAMP_INVALID | INTERNAL_ERROR
    | AUTH_FORBIDDEN | VERBATIM_PII_DETECTED | KEY_ROTATION_FAILED | KEY_REVOCATION_FAILED
    | TECHNICIAN_NOTE_RUN_DEGRADED

primrec error_code_name :: "error_code \<Rightarrow> string" where
  "error_code_name CONFIG_MISSING_OR_INVALID = ''CONFIG_MISSING_OR_INVALID''"
| "error_code_name DATABASE_UNAVAILABLE = ''DATABASE_UNAVAILABLE''"
| "error_code_name REDIS_UNAVAILABLE = ''REDIS_UNAVAILABLE''"
| "error_code_name MIGRATION_FAILED = ''MIGRATION_FAILED''"
| "error_code_name DIALPAD_AUTH_FAILED = ''DIALPAD_AUTH_FAILED''"
| "error_code_name DIALPAD_RATE_LIMITED = ''DIALPAD_RATE_LIMITED''"
| "error_code_name DIALPAD_API_CHANGED = ''DIALPAD_API_CHANGED''"
| "error_code_name DIALPAD_TRANSCRIPT_MISSING = ''DIALPAD_TRANSCRIPT_MISSING''"
| "error_code_name WEBHOOK_SIGNATURE_INVALID = ''WEBHOOK_SIGNATURE_INVALID''"
| "error_code_name WEBHOOK_REPLAY_DETECTED = ''WEBHOOK_REPLAY_DETECTED''"
| "error_code_name REDACTION_RECALL_REGRESSION = ''REDACTION_RECALL_REGRESSION''"
| "error_code_name REDACTION_LOW_CONFIDENCE = ''REDACTION_LOW_CONFIDENCE''"
| "error_code_name MODEL_AUTH_FAILED = ''MODEL_AUTH_FAILED''"
| "error_code_name MODEL_RATE_LIMITED = ''MODEL_RATE_LIMITED''"
| "error_code_name MODEL_MALFORMED_RESPONSE = ''MODEL_MALFORMED_RESPONSE''"
| "error_code_name MODEL_COST_CAP_EXCEEDED = ''MODEL_COST_CAP_EXCEEDED''"
| "error_code_name MODEL_COST_WARNING_THRESHOLD_EXCEEDED = ''MODEL_COST_WARNING_THRESHOLD_EXCEEDED''"
| "error_code_name QUEUE_RETRY_EXHAUSTED = ''QUEUE_RETRY_EXHAUSTED''"
| "error_code_name DEAD_LETTER_CREATED = ''DEAD_LETTER_CREATED''"
| "error_code_name RETENTION_PURGE_FAILED = ''RETENTION_PURGE_FAILED''"
| "error_code_name BACKFILL_CHECKPOINT_FAILED = ''BACKFILL_CHECKPOINT_FAILED''"
| "error_code_name REVIEW_QUEUE_STALLED = ''REVIEW_QUEUE_STALLED''"
| "error_code_name SERVICETITAN_AUTH_FAILED = ''SERVICETITAN_AUTH_FAILED''"
| "error_code_name SERVICETITAN_MATCH_WEAK = ''SERVICETITAN_MATCH_WEAK''"
| "error_code_name SERVICETITAN_WRITE_FAILED = ''SERVICETITAN_WRITE_FAILED''"
| "error_code_name REQUEST_BODY_TOO_LARGE = ''REQUEST_BODY_TOO_LARGE''"
| "error_code_name REQUEST_MALFORMED = ''REQUEST_MALFORMED''"
| "error_code_name UNSUPPORTED_MEDIA_TYPE = ''UNSUPPORTED_MEDIA_TYPE''"
| "error_code_name RATE_LIMIT_EXCEEDED = ''RATE_LIMIT_EXCEEDED''"
| "error_code_name AUTH_REQUIRED = ''AUTH_REQUIRED''"
| "error_code_name CSRF_TOKEN_INVALID = ''CSRF_TOKEN_INVALID''"
| "error_code_name WEBHOOK_TIMESTAMP_INVALID = ''WEBHOOK_TIMESTAMP_INVALID''"
| "error_code_name INTERNAL_ERROR = ''INTERNAL_ERROR''"
| "error_code_name AUTH_FORBIDDEN = ''AUTH_FORBIDDEN''"
| "error_code_name VERBATIM_PII_DETECTED = ''VERBATIM_PII_DETECTED''"
| "error_code_name KEY_ROTATION_FAILED = ''KEY_ROTATION_FAILED''"
| "error_code_name KEY_REVOCATION_FAILED = ''KEY_REVOCATION_FAILED''"
| "error_code_name TECHNICIAN_NOTE_RUN_DEGRADED = ''TECHNICIAN_NOTE_RUN_DEGRADED''"

definition ROOT_CAUSE_CATEGORIES :: "error_code list" where
  "ROOT_CAUSE_CATEGORIES =
    [CONFIG_MISSING_OR_INVALID, DATABASE_UNAVAILABLE, REDIS_UNAVAILABLE, MIGRATION_FAILED
     , DIALPAD_AUTH_FAILED, DIALPAD_RATE_LIMITED, DIALPAD_API_CHANGED, DIALPAD_TRANSCRIPT_MISSING
     , WEBHOOK_SIGNATURE_INVALID, WEBHOOK_REPLAY_DETECTED, REDACTION_RECALL_REGRESSION
     , REDACTION_LOW_CONFIDENCE, MODEL_AUTH_FAILED, MODEL_RATE_LIMITED, MODEL_MALFORMED_RESPONSE
     , MODEL_COST_CAP_EXCEEDED, MODEL_COST_WARNING_THRESHOLD_EXCEEDED, QUEUE_RETRY_EXHAUSTED
     , DEAD_LETTER_CREATED, RETENTION_PURGE_FAILED, BACKFILL_CHECKPOINT_FAILED
     , REVIEW_QUEUE_STALLED, SERVICETITAN_AUTH_FAILED, SERVICETITAN_MATCH_WEAK
     , SERVICETITAN_WRITE_FAILED, REQUEST_BODY_TOO_LARGE, REQUEST_MALFORMED
     , UNSUPPORTED_MEDIA_TYPE, RATE_LIMIT_EXCEEDED, AUTH_REQUIRED, CSRF_TOKEN_INVALID
     , WEBHOOK_TIMESTAMP_INVALID, INTERNAL_ERROR, AUTH_FORBIDDEN, VERBATIM_PII_DETECTED
     , KEY_ROTATION_FAILED, KEY_REVOCATION_FAILED, TECHNICIAN_NOTE_RUN_DEGRADED]"

text \<open>\<^verbatim>\<open>PROCESSING_STATE\<close> of \<^verbatim>\<open>src/src/failure-model/categories.ts\<close>.\<close>

datatype processing_state =
    PST_paused | PST_degraded | PST_continuing

primrec processing_state_name :: "processing_state \<Rightarrow> string" where
  "processing_state_name PST_paused = ''paused''"
| "processing_state_name PST_degraded = ''degraded''"
| "processing_state_name PST_continuing = ''continuing''"

definition PROCESSING_STATE :: "processing_state list" where
  "PROCESSING_STATE =
    [PST_paused, PST_degraded, PST_continuing]"

text \<open>\<^verbatim>\<open>CALLS_STATE\<close> of \<^verbatim>\<open>src/src/failure-model/categories.ts\<close>.\<close>

datatype calls_state =
    CAS_held | CAS_retried | CAS_dropped | CAS_none

primrec calls_state_name :: "calls_state \<Rightarrow> string" where
  "calls_state_name CAS_held = ''held''"
| "calls_state_name CAS_retried = ''retried''"
| "calls_state_name CAS_dropped = ''dropped''"
| "calls_state_name CAS_none = ''none''"

definition CALLS_STATE :: "calls_state list" where
  "CALLS_STATE =
    [CAS_held, CAS_retried, CAS_dropped, CAS_none]"

text \<open>\<^verbatim>\<open>COMPONENT\<close> of \<^verbatim>\<open>src/src/failure-model/categories.ts\<close>.\<close>

datatype component =
    CO_webhook_receiver | CO_worker | CO_reconciliation_cron | CO_retention_cron | CO_backfill
    | CO_review_surface | CO_status_surface | CO_knowledge_base_surface | CO_evaluation_cron
    | CO_technician_notes

primrec component_name :: "component \<Rightarrow> string" where
  "component_name CO_webhook_receiver = ''webhook-receiver''"
| "component_name CO_worker = ''worker''"
| "component_name CO_reconciliation_cron = ''reconciliation-cron''"
| "component_name CO_retention_cron = ''retention-cron''"
| "component_name CO_backfill = ''backfill''"
| "component_name CO_review_surface = ''review-surface''"
| "component_name CO_status_surface = ''status-surface''"
| "component_name CO_knowledge_base_surface = ''knowledge-base-surface''"
| "component_name CO_evaluation_cron = ''evaluation-cron''"
| "component_name CO_technician_notes = ''technician-notes''"

definition COMPONENT :: "component list" where
  "COMPONENT =
    [CO_webhook_receiver, CO_worker, CO_reconciliation_cron, CO_retention_cron, CO_backfill
     , CO_review_surface, CO_status_surface, CO_knowledge_base_surface, CO_evaluation_cron
     , CO_technician_notes]"

section \<open>Statuses of a call\<close>

text \<open>
  \<^verbatim>\<open>call_state.status\<close> is a free text column; the pipeline owns the values below
  (\<^verbatim>\<open>CALL_STATE_STATUSES\<close> and the \<^verbatim>\<open>STATUS_*\<close> aliases).
\<close>

definition STATUS_PROCESSING :: string where "STATUS_PROCESSING = ''processing''"
definition STATUS_COMPLETED :: string where "STATUS_COMPLETED = ''completed''"
definition STATUS_SKIPPED :: string where "STATUS_SKIPPED = ''skipped''"
definition STATUS_HELD :: string where "STATUS_HELD = ''held''"
definition STATUS_REVIEW_CLOSED :: string where "STATUS_REVIEW_CLOSED = ''review_closed''"

definition CALL_STATE_STATUSES :: "string list" where
  "CALL_STATE_STATUSES = [''processing'', ''completed'', ''skipped'', ''held'', ''review_closed'']"

definition UPSERT_PROTECTED_CALL_STATE_STATUSES :: "string list" where
  "UPSERT_PROTECTED_CALL_STATE_STATUSES = [''completed'', ''skipped'', ''held'', ''review_closed'']"

lemmas status_defs = STATUS_PROCESSING_def STATUS_COMPLETED_def STATUS_SKIPPED_def STATUS_HELD_def
  STATUS_REVIEW_CLOSED_def

section \<open>Stages\<close>

definition FINAL_STAGE :: pipeline_stage where "FINAL_STAGE = ST_mark_retention_eligible"

definition SKIP_STAGES :: "pipeline_stage list" where
  "SKIP_STAGES = [ST_metadata_pre_filter, ST_fetch_transcript, ST_classify]"

definition isPipelineStage :: "string \<Rightarrow> bool" where
  "isPipelineStage s \<longleftrightarrow> s \<in> set (map pipeline_stage_name PIPELINE_STAGES)"

definition isValidComponent :: "string \<Rightarrow> bool" where
  "isValidComponent s \<longleftrightarrow> s \<in> set (map component_name COMPONENT)"

text \<open>The version the extract stage and a reviewer's correction stamp on a candidate.\<close>

definition EXTRACT_SCHEMA_VERSION :: int where "EXTRACT_SCHEMA_VERSION = 1"

section \<open>Every enumeration is a vocabulary\<close>

interpretation severity_v: vocabulary severity_name SEVERITY
proof
  show "x \<in> set SEVERITY" for x by (cases x) (simp_all add: SEVERITY_def)
  show "distinct (map severity_name SEVERITY)" by code_simp
qed

interpretation held_reason_v: vocabulary held_reason_name HELD_REASON
proof
  show "x \<in> set HELD_REASON" for x by (cases x) (simp_all add: HELD_REASON_def)
  show "distinct (map held_reason_name HELD_REASON)" by code_simp
qed

interpretation drop_reason_v: vocabulary drop_reason_name DROP_REASONS
proof
  show "x \<in> set DROP_REASONS" for x by (cases x) (simp_all add: DROP_REASONS_def)
  show "distinct (map drop_reason_name DROP_REASONS)" by code_simp
qed

interpretation review_status_v: vocabulary review_status_name REVIEW_STATUS
proof
  show "x \<in> set REVIEW_STATUS" for x by (cases x) (simp_all add: REVIEW_STATUS_def)
  show "distinct (map review_status_name REVIEW_STATUS)" by code_simp
qed

interpretation operator_action_v: vocabulary operator_action_name OPERATOR_ACTION
proof
  show "x \<in> set OPERATOR_ACTION" for x by (cases x) (simp_all add: OPERATOR_ACTION_def)
  show "distinct (map operator_action_name OPERATOR_ACTION)" by code_simp
qed

interpretation key_version_status_v: vocabulary key_version_status_name KEY_VERSION_STATUS
proof
  show "x \<in> set KEY_VERSION_STATUS" for x by (cases x) (simp_all add: KEY_VERSION_STATUS_def)
  show "distinct (map key_version_status_name KEY_VERSION_STATUS)" by code_simp
qed

interpretation call_intent_v: vocabulary call_intent_name CALL_INTENT
proof
  show "x \<in> set CALL_INTENT" for x by (cases x) (simp_all add: CALL_INTENT_def)
  show "distinct (map call_intent_name CALL_INTENT)" by code_simp
qed

interpretation urgency_v: vocabulary urgency_name URGENCY
proof
  show "x \<in> set URGENCY" for x by (cases x) (simp_all add: URGENCY_def)
  show "distinct (map urgency_name URGENCY)" by code_simp
qed

interpretation service_category_v: vocabulary service_category_name SERVICE_CATEGORIES
proof
  show "x \<in> set SERVICE_CATEGORIES" for x by (cases x) (simp_all add: SERVICE_CATEGORIES_def)
  show "distinct (map service_category_name SERVICE_CATEGORIES)" by code_simp
qed

interpretation sentiment_v: vocabulary sentiment_name SENTIMENTS
proof
  show "x \<in> set SENTIMENTS" for x by (cases x) (simp_all add: SENTIMENTS_def)
  show "distinct (map sentiment_name SENTIMENTS)" by code_simp
qed

interpretation pii_scan_status_v: vocabulary pii_scan_status_name PII_SCAN_STATUSES
proof
  show "x \<in> set PII_SCAN_STATUSES" for x by (cases x) (simp_all add: PII_SCAN_STATUSES_def)
  show "distinct (map pii_scan_status_name PII_SCAN_STATUSES)" by code_simp
qed

interpretation pii_scan_failure_kind_v: vocabulary pii_scan_failure_kind_name PII_SCAN_FAILURE_KINDS
proof
  show "x \<in> set PII_SCAN_FAILURE_KINDS" for x by (cases x) (simp_all add: PII_SCAN_FAILURE_KINDS_def)
  show "distinct (map pii_scan_failure_kind_name PII_SCAN_FAILURE_KINDS)" by code_simp
qed

interpretation reprocess_request_status_v: vocabulary reprocess_request_status_name REPROCESS_REQUEST_STATUSES
proof
  show "x \<in> set REPROCESS_REQUEST_STATUSES" for x by (cases x) (simp_all add: REPROCESS_REQUEST_STATUSES_def)
  show "distinct (map reprocess_request_status_name REPROCESS_REQUEST_STATUSES)" by code_simp
qed

interpretation delivery_state_v: vocabulary delivery_state_name DELIVERY_STATES
proof
  show "x \<in> set DELIVERY_STATES" for x by (cases x) (simp_all add: DELIVERY_STATES_def)
  show "distinct (map delivery_state_name DELIVERY_STATES)" by code_simp
qed

interpretation pipeline_stage_v: vocabulary pipeline_stage_name PIPELINE_STAGES
proof
  show "x \<in> set PIPELINE_STAGES" for x by (cases x) (simp_all add: PIPELINE_STAGES_def)
  show "distinct (map pipeline_stage_name PIPELINE_STAGES)" by code_simp
qed

interpretation error_code_v: vocabulary error_code_name ROOT_CAUSE_CATEGORIES
proof
  show "x \<in> set ROOT_CAUSE_CATEGORIES" for x by (cases x) (simp_all add: ROOT_CAUSE_CATEGORIES_def)
  show "distinct (map error_code_name ROOT_CAUSE_CATEGORIES)" by code_simp
qed

interpretation signature_status_v: vocabulary signature_status_name SIGNATURE_STATUS
proof
  show "x \<in> set SIGNATURE_STATUS" for x by (cases x) (simp_all add: SIGNATURE_STATUS_def)
  show "distinct (map signature_status_name SIGNATURE_STATUS)" by code_simp
qed

interpretation processing_state_v: vocabulary processing_state_name PROCESSING_STATE
proof
  show "x \<in> set PROCESSING_STATE" for x by (cases x) (simp_all add: PROCESSING_STATE_def)
  show "distinct (map processing_state_name PROCESSING_STATE)" by code_simp
qed

interpretation calls_state_v: vocabulary calls_state_name CALLS_STATE
proof
  show "x \<in> set CALLS_STATE" for x by (cases x) (simp_all add: CALLS_STATE_def)
  show "distinct (map calls_state_name CALLS_STATE)" by code_simp
qed

interpretation component_v: vocabulary component_name COMPONENT
proof
  show "x \<in> set COMPONENT" for x by (cases x) (simp_all add: COMPONENT_def)
  show "distinct (map component_name COMPONENT)" by code_simp
qed

lemma length_PIPELINE_STAGES [simp]: "length PIPELINE_STAGES = 9"
  by (simp add: PIPELINE_STAGES_def)

lemma isPipelineStage_iff: "isPipelineStage s \<longleftrightarrow> (\<exists>st. s = pipeline_stage_name st)"
  unfolding isPipelineStage_def by (rule pipeline_stage_v.text_known)

lemma protected_iff:
  "s \<in> set UPSERT_PROTECTED_CALL_STATE_STATUSES \<longleftrightarrow> s \<in> set CALL_STATE_STATUSES \<and> s \<noteq> STATUS_PROCESSING"
  by (auto simp: UPSERT_PROTECTED_CALL_STATE_STATUSES_def CALL_STATE_STATUSES_def STATUS_PROCESSING_def)

end
