(* ===== verification/Failure_Catalog.thy ===== *)
theory Failure_Catalog
  imports Vocabulary
begin

text \<open>
  The static half of the failure model: \<^verbatim>\<open>src/src/failure-model/catalog.ts\<close> (one definition per
  catalog entry) and \<^verbatim>\<open>src/src/failure-model/severity.ts\<close>.  Texts are UTF-8 byte strings: the em dash
  of the source is its three bytes.
\<close>

definition quote_mark :: string where "quote_mark = [CHR 0x27]"

definition SAME_AS_IMMEDIATE :: string where "SAME_AS_IMMEDIATE = ''same as immediate''"
definition OVIO :: string where "OVIO = ''OVIO on-call''"
definition PLATFORM :: string where "PLATFORM = ''platform''"

record catalog_entry =
  ce_rootCauseCategory :: error_code
  ce_whatBroke :: string
  ce_likelyCause :: string
  ce_impact :: string
  ce_remediationNow :: string
  ce_remediationFix :: string
  ce_dataSafe :: bool
  ce_callsState :: calls_state
  ce_owner :: string
  ce_runbookRef :: string

definition catalog_CONFIG_MISSING_OR_INVALID :: catalog_entry where
  "catalog_CONFIG_MISSING_OR_INVALID =
     \<lparr>ce_rootCauseCategory = CONFIG_MISSING_OR_INVALID,
      ce_whatBroke = ''A service refused to start because its configuration check failed.'',
      ce_likelyCause =
        ''A required setting is missing or has an invalid value in that service'' @ quote_mark @ ''s environment.'',
      ce_impact =
        ''A service cannot start because required configuration is missing or invalid; that component is down until it is fixed.'',
      ce_remediationNow =
        ''Set a valid value for the named environment variable in the failing service and redeploy.'',
      ce_remediationFix = SAME_AS_IMMEDIATE,
      ce_dataSafe = True,
      ce_callsState = CAS_none,
      ce_owner = PLATFORM,
      ce_runbookRef = ''runbook#config-missing-or-invalid''\<rparr>"

definition catalog_DATABASE_UNAVAILABLE :: catalog_entry where
  "catalog_DATABASE_UNAVAILABLE =
     \<lparr>ce_rootCauseCategory = DATABASE_UNAVAILABLE,
      ce_whatBroke = ''The system could not reach its main database.'',
      ce_likelyCause =
        ''The database is down, unreachable over the network, or refusing credentials.'',
      ce_impact =
        ''Postgres is unreachable; processing is paused and jobs wait in the queue '' @ em_dash @ '' no calls are lost.'',
      ce_remediationNow =
        ''Check Postgres health, credentials, and network reachability, then restore the connection.'',
      ce_remediationFix =
        ''Add connection-pool health checks and a failover path if outages recur.'',
      ce_dataSafe = True,
      ce_callsState = CAS_retried,
      ce_owner = PLATFORM,
      ce_runbookRef = ''runbook#database-unavailable''\<rparr>"

definition catalog_REDIS_UNAVAILABLE :: catalog_entry where
  "catalog_REDIS_UNAVAILABLE =
     \<lparr>ce_rootCauseCategory = REDIS_UNAVAILABLE,
      ce_whatBroke = ''The system could not reach its job queue.'',
      ce_likelyCause = ''Redis is down, unreachable over the network, or out of memory.'',
      ce_impact =
        ''Redis (the job queue) is unreachable; events cannot be enqueued or consumed and processing is paused. The reconciliation cron backfills any missed calls.'',
      ce_remediationNow = ''Restore Redis connectivity; verify credentials and memory limits.'',
      ce_remediationFix = ''Add Redis health checks and alert on memory pressure.'',
      ce_dataSafe = True,
      ce_callsState = CAS_retried,
      ce_owner = PLATFORM,
      ce_runbookRef = ''runbook#redis-unavailable''\<rparr>"

definition catalog_MIGRATION_FAILED :: catalog_entry where
  "catalog_MIGRATION_FAILED =
     \<lparr>ce_rootCauseCategory = MIGRATION_FAILED,
      ce_whatBroke = ''A database schema update failed partway through.'',
      ce_likelyCause =
        ''The migration hit an error or unexpected existing state while applying.'',
      ce_impact =
        ''A database migration failed; the schema may be partially applied and the affected service will not start.'',
      ce_remediationNow =
        ''Review the migration error, roll back with its down migration, then re-run after fixing.'',
      ce_remediationFix = SAME_AS_IMMEDIATE,
      ce_dataSafe = True,
      ce_callsState = CAS_none,
      ce_owner = PLATFORM,
      ce_runbookRef = ''runbook#migration-failed''\<rparr>"

definition catalog_DIALPAD_AUTH_FAILED :: catalog_entry where
  "catalog_DIALPAD_AUTH_FAILED =
     \<lparr>ce_rootCauseCategory = DIALPAD_AUTH_FAILED,
      ce_whatBroke = ''Dialpad rejected our sign-in when fetching call data.'',
      ce_likelyCause =
        ''The Dialpad API key is expired, revoked, or missing a required permission.'',
      ce_impact =
        ''Dialpad API authentication failed; transcripts and call lists cannot be fetched '' @ em_dash @ '' affected calls are held, not lost.'',
      ce_remediationNow =
        ''Rotate or refresh the Dialpad API credentials and confirm the required scopes.'',
      ce_remediationFix = ''Automate token refresh and alert before credentials expire.'',
      ce_dataSafe = True,
      ce_callsState = CAS_held,
      ce_owner = OVIO,
      ce_runbookRef = ''runbook#dialpad-auth-failed''\<rparr>"

definition catalog_DIALPAD_RATE_LIMITED :: catalog_entry where
  "catalog_DIALPAD_RATE_LIMITED =
     \<lparr>ce_rootCauseCategory = DIALPAD_RATE_LIMITED,
      ce_whatBroke =
        ''Dialpad is temporarily refusing our requests because we sent too many.'',
      ce_likelyCause = ''Request volume exceeded Dialpad'' @ quote_mark @ ''s rate limits.'',
      ce_impact =
        ''Dialpad is rate-limiting requests; transcript fetches are delayed and retried '' @ em_dash @ '' no calls are lost.'',
      ce_remediationNow =
        ''Back off and retry within the documented limits; reduce fetch concurrency if it persists.'',
      ce_remediationFix =
        ''Add adaptive rate limiting and request budgeting for the Dialpad client.'',
      ce_dataSafe = True,
      ce_callsState = CAS_retried,
      ce_owner = PLATFORM,
      ce_runbookRef = ''runbook#dialpad-rate-limited''\<rparr>"

definition catalog_DIALPAD_API_CHANGED :: catalog_entry where
  "catalog_DIALPAD_API_CHANGED =
     \<lparr>ce_rootCauseCategory = DIALPAD_API_CHANGED,
      ce_whatBroke =
        ''Dialpad answered a request in a format the system did not recognise.'',
      ce_likelyCause =
        ''Dialpad changed its response format, or sent a rare variant our client does not handle yet.'',
      ce_impact =
        ''The Dialpad API response shape changed; fetching or parsing is failing and affected calls are held for review.'',
      ce_remediationNow =
        ''Compare responses against the Dialpad contract, update the client, and reprocess held calls.'',
      ce_remediationFix =
        ''Add contract tests against Dialpad so shape changes are caught early.'',
      ce_dataSafe = True,
      ce_callsState = CAS_held,
      ce_owner = PLATFORM,
      ce_runbookRef = ''runbook#dialpad-api-changed''\<rparr>"

definition catalog_DIALPAD_TRANSCRIPT_MISSING :: catalog_entry where
  "catalog_DIALPAD_TRANSCRIPT_MISSING =
     \<lparr>ce_rootCauseCategory = DIALPAD_TRANSCRIPT_MISSING,
      ce_whatBroke =
        ''A call'' @ quote_mark @ ''s transcript never became available from Dialpad.'',
      ce_likelyCause =
        ''Dialpad did not produce a transcript for this call within the waiting window.'',
      ce_impact =
        ''A transcript did not become available within the retry window; the call is held for review rather than guessed or dropped.'',
      ce_remediationNow =
        ''Review the held missing-transcript call and confirm whether Dialpad has the transcript or it should be marked unresolvable.'',
      ce_remediationFix = SAME_AS_IMMEDIATE,
      ce_dataSafe = True,
      ce_callsState = CAS_held,
      ce_owner = OVIO,
      ce_runbookRef = ''runbook#dialpad-transcript-missing''\<rparr>"

definition catalog_WEBHOOK_SIGNATURE_INVALID :: catalog_entry where
  "catalog_WEBHOOK_SIGNATURE_INVALID =
     \<lparr>ce_rootCauseCategory = WEBHOOK_SIGNATURE_INVALID,
      ce_whatBroke =
        ''An incoming webhook failed its authenticity check and was turned away.'',
      ce_likelyCause =
        ''A mismatched signing secret, or someone other than Dialpad sending requests.'',
      ce_impact =
        ''A webhook request failed signature verification and was rejected; nothing was ingested from it. Legitimate calls are still recovered by the reconciliation cron.'',
      ce_remediationNow =
        ''Confirm the shared signing secret matches Dialpad'' @ quote_mark @ ''s, and investigate possible spoofing.'',
      ce_remediationFix = ''Rotate the signing secret and monitor rejection rates.'',
      ce_dataSafe = True,
      ce_callsState = CAS_none,
      ce_owner = OVIO,
      ce_runbookRef = ''runbook#webhook-signature-invalid''\<rparr>"

definition catalog_WEBHOOK_REPLAY_DETECTED :: catalog_entry where
  "catalog_WEBHOOK_REPLAY_DETECTED =
     \<lparr>ce_rootCauseCategory = WEBHOOK_REPLAY_DETECTED,
      ce_whatBroke =
        ''An already-processed webhook arrived a second time and was ignored.'',
      ce_likelyCause =
        ''A network retry re-delivered the event, or someone replayed it deliberately.'',
      ce_impact =
        ''A replayed webhook was detected and ignored; the original event was already processed, so there is no duplication.'',
      ce_remediationNow =
        ''No action for a single event; investigate if replay volume is high (a possible attack).'',
      ce_remediationFix = SAME_AS_IMMEDIATE,
      ce_dataSafe = True,
      ce_callsState = CAS_none,
      ce_owner = OVIO,
      ce_runbookRef = ''runbook#webhook-replay-detected''\<rparr>"

definition catalog_REDACTION_RECALL_REGRESSION :: catalog_entry where
  "catalog_REDACTION_RECALL_REGRESSION =
     \<lparr>ce_rootCauseCategory = REDACTION_RECALL_REGRESSION,
      ce_whatBroke =
        ''The privacy step that hides personal details started missing more than the allowed amount.'',
      ce_likelyCause =
        ''A recent change to the redaction rules or model weakened detection.'',
      ce_impact =
        ''Redaction corpus recall dropped below threshold; to protect privacy, affected calls are held and nothing is sent to the model.'',
      ce_remediationNow =
        ''Do not disable redaction. Review the recall regression and the redaction rules before releasing any held call.'',
      ce_remediationFix =
        ''Expand the adversarial redaction corpus and gate releases on recall.'',
      ce_dataSafe = True,
      ce_callsState = CAS_held,
      ce_owner = PLATFORM,
      ce_runbookRef = ''runbook#redaction-recall-regression''\<rparr>"

definition catalog_REDACTION_LOW_CONFIDENCE :: catalog_entry where
  "catalog_REDACTION_LOW_CONFIDENCE =
     \<lparr>ce_rootCauseCategory = REDACTION_LOW_CONFIDENCE,
      ce_whatBroke =
        ''The system was not confident it found every personal detail in a call.'',
      ce_likelyCause =
        ''The transcript contains phrasing the redaction layers could not confidently classify.'',
      ce_impact =
        ''Redaction confidence for a call was too low; it is held (fail-closed) and never sent to the model.'',
      ce_remediationNow = ''Route the held call to human review; do not override the hold.'',
      ce_remediationFix = SAME_AS_IMMEDIATE,
      ce_dataSafe = True,
      ce_callsState = CAS_held,
      ce_owner = OVIO,
      ce_runbookRef = ''runbook#redaction-low-confidence''\<rparr>"

definition catalog_MODEL_AUTH_FAILED :: catalog_entry where
  "catalog_MODEL_AUTH_FAILED =
     \<lparr>ce_rootCauseCategory = MODEL_AUTH_FAILED,
      ce_whatBroke = ''The AI service rejected our sign-in.'',
      ce_likelyCause = ''The model API key is expired, revoked, or misconfigured.'',
      ce_impact =
        ''Authentication to the model API failed; classification and extraction are paused and calls are held, not lost.'',
      ce_remediationNow =
        ''Refresh or rotate the model API key and verify the configured model IDs.'',
      ce_remediationFix = ''Automate key rotation and add pre-expiry alerts.'',
      ce_dataSafe = True,
      ce_callsState = CAS_held,
      ce_owner = PLATFORM,
      ce_runbookRef = ''runbook#model-auth-failed''\<rparr>"

definition catalog_MODEL_RATE_LIMITED :: catalog_entry where
  "catalog_MODEL_RATE_LIMITED =
     \<lparr>ce_rootCauseCategory = MODEL_RATE_LIMITED,
      ce_whatBroke =
        ''The AI service is temporarily refusing our requests because we sent too many.'',
      ce_likelyCause =
        ''Request volume exceeded the model provider'' @ quote_mark @ ''s rate limits.'',
      ce_impact =
        ''The model API is rate-limiting; classification and extraction are delayed and retried '' @ em_dash @ '' no calls are lost.'',
      ce_remediationNow = ''Back off and retry; lower concurrency if it persists.'',
      ce_remediationFix = ''Add adaptive concurrency and a token budget for model calls.'',
      ce_dataSafe = True,
      ce_callsState = CAS_retried,
      ce_owner = PLATFORM,
      ce_runbookRef = ''runbook#model-rate-limited''\<rparr>"

definition catalog_MODEL_MALFORMED_RESPONSE :: catalog_entry where
  "catalog_MODEL_MALFORMED_RESPONSE =
     \<lparr>ce_rootCauseCategory = MODEL_MALFORMED_RESPONSE,
      ce_whatBroke =
        ''The AI returned an answer in the wrong format, so it was not stored.'',
      ce_likelyCause = ''The model deviated from the required output format for this call.'',
      ce_impact =
        ''The model returned output that failed the schema-validation gate; the record is held rather than storing malformed data.'',
      ce_remediationNow =
        ''Inspect the prompt and prompt version and the held record, then reprocess after fixing.'',
      ce_remediationFix = ''Tighten the output schema and add golden-fixture coverage.'',
      ce_dataSafe = True,
      ce_callsState = CAS_held,
      ce_owner = PLATFORM,
      ce_runbookRef = ''runbook#model-malformed-response''\<rparr>"

definition catalog_MODEL_COST_CAP_EXCEEDED :: catalog_entry where
  "catalog_MODEL_COST_CAP_EXCEEDED =
     \<lparr>ce_rootCauseCategory = MODEL_COST_CAP_EXCEEDED,
      ce_whatBroke =
        ''Today'' @ quote_mark @ ''s AI spending limit was reached, so AI steps are paused for the day.'',
      ce_likelyCause =
        ''Higher-than-usual call volume or unusually long calls used up the daily budget.'',
      ce_impact =
        ''The daily model cost cap was reached; new model calls are paused to prevent overspend and queued calls wait.'',
      ce_remediationNow =
        ''Review daily cost usage, then raise the cap deliberately or wait for the next window.'',
      ce_remediationFix = ''Add cost forecasting and staged alerts before the cap is hit.'',
      ce_dataSafe = True,
      ce_callsState = CAS_held,
      ce_owner = OVIO,
      ce_runbookRef = ''runbook#model-cost-cap-exceeded''\<rparr>"

definition catalog_MODEL_COST_WARNING_THRESHOLD_EXCEEDED :: catalog_entry where
  "catalog_MODEL_COST_WARNING_THRESHOLD_EXCEEDED =
     \<lparr>ce_rootCauseCategory = MODEL_COST_WARNING_THRESHOLD_EXCEEDED,
      ce_whatBroke =
        ''Today'' @ quote_mark @ ''s AI spending is approaching its daily limit '' @ em_dash @ '' an advance warning, nothing is paused yet.'',
      ce_likelyCause = ''Call volume or call length is running higher than usual today.'',
      ce_impact =
        ''Daily model spend crossed the warning threshold; processing continues, but the daily hard cap is approaching and will start holding calls if spend reaches it.'',
      ce_remediationNow =
        ''Review daily cost usage against the cap, then raise the cap deliberately or reduce model volume before the hard cap is reached.'',
      ce_remediationFix =
        ''Add cost forecasting and volume controls so spend is managed before the cap.'',
      ce_dataSafe = True,
      ce_callsState = CAS_none,
      ce_owner = OVIO,
      ce_runbookRef = ''runbook#model-cost-warning-threshold-exceeded''\<rparr>"

definition catalog_QUEUE_RETRY_EXHAUSTED :: catalog_entry where
  "catalog_QUEUE_RETRY_EXHAUSTED =
     \<lparr>ce_rootCauseCategory = QUEUE_RETRY_EXHAUSTED,
      ce_whatBroke =
        ''A call'' @ quote_mark @ ''s processing job kept failing and used up all of its retries.'',
      ce_likelyCause =
        ''A persistent error in one processing step '' @ em_dash @ '' the stored failure detail names the step and error.'',
      ce_impact =
        ''A job exhausted its capped retries and stopped; the affected call is not processed until it is requeued.'',
      ce_remediationNow =
        ''Inspect the job'' @ quote_mark @ ''s failure, fix the root cause, and requeue the call.'',
      ce_remediationFix = ''Tune retry and backoff, and add a dead-letter review workflow.'',
      ce_dataSafe = True,
      ce_callsState = CAS_held,
      ce_owner = OVIO,
      ce_runbookRef = ''runbook#queue-retry-exhausted''\<rparr>"

definition catalog_DEAD_LETTER_CREATED :: catalog_entry where
  "catalog_DEAD_LETTER_CREATED =
     \<lparr>ce_rootCauseCategory = DEAD_LETTER_CREATED,
      ce_whatBroke =
        ''A call was set aside for manual attention after its job failed every retry.'',
      ce_likelyCause =
        ''A persistent error in one processing step; the parked row records which step and what failed.'',
      ce_impact =
        ''A job was moved to the dead-letter queue after exhausting retries; that call is parked and needs manual attention.'',
      ce_remediationNow =
        ''Triage the dead-letter row'' @ quote_mark @ ''s sanitized root cause, then requeue or resolve it.'',
      ce_remediationFix = ''Add dead-letter dashboards and periodic triage.'',
      ce_dataSafe = True,
      ce_callsState = CAS_held,
      ce_owner = OVIO,
      ce_runbookRef = ''runbook#dead-letter-created''\<rparr>"

definition catalog_RETENTION_PURGE_FAILED :: catalog_entry where
  "catalog_RETENTION_PURGE_FAILED =
     \<lparr>ce_rootCauseCategory = RETENTION_PURGE_FAILED,
      ce_whatBroke = ''The scheduled data-deletion job did not complete.'',
      ce_likelyCause = ''A database error or lock stopped the purge run.'',
      ce_impact =
        ''The retention purge job failed; data past its window may persist longer than intended '' @ em_dash @ '' a compliance risk, not data loss.'',
      ce_remediationNow =
        ''Investigate the purge failure and re-run the retention job (with a dry-run first).'',
      ce_remediationFix = ''Add purge-success monitoring and alert on overdue rows.'',
      ce_dataSafe = True,
      ce_callsState = CAS_none,
      ce_owner = PLATFORM,
      ce_runbookRef = ''runbook#retention-purge-failed''\<rparr>"

definition catalog_KEY_ROTATION_FAILED :: catalog_entry where
  "catalog_KEY_ROTATION_FAILED =
     \<lparr>ce_rootCauseCategory = KEY_ROTATION_FAILED,
      ce_whatBroke = ''A scheduled encryption-key change stopped partway through.'',
      ce_likelyCause =
        ''An error during re-encryption or key storage aborted the rotation before it finished.'',
      ce_impact =
        ''A key rotation aborted before old ciphertext was re-encrypted and the old key destroyed. Data is safe and readable; the crypto-shred promise for the old key is not yet met.'',
      ce_remediationNow =
        ''Check key_lifecycle_events for the failed run, confirm the queue resumed, and re-run rotation (dry-run/verify first). Do NOT destroy the old key until re-encryption + verify succeed.'',
      ce_remediationFix =
        ''Add rotation-success monitoring and alert on any rotating/pending-destroy version older than its expected window.'',
      ce_dataSafe = True,
      ce_callsState = CAS_none,
      ce_owner = PLATFORM,
      ce_runbookRef = ''runbook#key-rotation-failed''\<rparr>"

definition catalog_KEY_REVOCATION_FAILED :: catalog_entry where
  "catalog_KEY_REVOCATION_FAILED =
     \<lparr>ce_rootCauseCategory = KEY_REVOCATION_FAILED,
      ce_whatBroke = ''An emergency destruction of an encryption key did not complete.'',
      ce_likelyCause =
        ''The key store could not confirm the old key material is unrecoverable.'',
      ce_impact =
        ''An emergency DEK/KEK revocation aborted before the external material was confirmed unrecoverable. Rows under the target key may still be readable in the live DB and in backups.'',
      ce_remediationNow =
        ''Investigate the revocation failure, re-run the finalizer (confirm-destruction), and verify recoverability is false for every affected version before declaring the shred complete.'',
      ce_remediationFix =
        ''Add revocation-completion monitoring keyed off store.recoverability, not the DB flag.'',
      ce_dataSafe = True,
      ce_callsState = CAS_none,
      ce_owner = PLATFORM,
      ce_runbookRef = ''runbook#key-revocation-failed''\<rparr>"

definition catalog_BACKFILL_CHECKPOINT_FAILED :: catalog_entry where
  "catalog_BACKFILL_CHECKPOINT_FAILED =
     \<lparr>ce_rootCauseCategory = BACKFILL_CHECKPOINT_FAILED,
      ce_whatBroke = ''A historical-import batch failed to save its progress marker.'',
      ce_likelyCause = ''A database or queue error interrupted the batch mid-run.'',
      ce_impact =
        ''A backfill batch failed to checkpoint; the backfill may stall or repeat from the last good checkpoint '' @ em_dash @ '' no data is lost.'',
      ce_remediationNow = ''Inspect the backfill run and resume from the last checkpoint.'',
      ce_remediationFix = ''Make checkpoints transactional and resumable.'',
      ce_dataSafe = True,
      ce_callsState = CAS_retried,
      ce_owner = PLATFORM,
      ce_runbookRef = ''runbook#backfill-checkpoint-failed''\<rparr>"

definition catalog_REVIEW_QUEUE_STALLED :: catalog_entry where
  "catalog_REVIEW_QUEUE_STALLED =
     \<lparr>ce_rootCauseCategory = REVIEW_QUEUE_STALLED,
      ce_whatBroke =
        ''Held calls have been waiting for human review longer than the agreed time.'',
      ce_likelyCause = ''No reviewer has picked up the oldest held calls in time.'',
      ce_impact =
        ''Held calls in the review queue are breaching their SLA; customer follow-up may be delayed.'',
      ce_remediationNow = ''Assign reviewers to the oldest held calls and clear the backlog.'',
      ce_remediationFix = ''Add SLA alerting and reviewer capacity planning.'',
      ce_dataSafe = True,
      ce_callsState = CAS_held,
      ce_owner = OVIO,
      ce_runbookRef = ''runbook#review-queue-stalled''\<rparr>"

definition catalog_SERVICETITAN_AUTH_FAILED :: catalog_entry where
  "catalog_SERVICETITAN_AUTH_FAILED =
     \<lparr>ce_rootCauseCategory = SERVICETITAN_AUTH_FAILED,
      ce_whatBroke = ''ServiceTitan rejected our sign-in.'',
      ce_likelyCause =
        ''The ServiceTitan credentials are expired, revoked, or missing a required permission.'',
      ce_impact =
        ''ServiceTitan authentication failed; job matching and write-back are paused. Call processing itself is unaffected.'',
      ce_remediationNow = ''Refresh ServiceTitan credentials and verify the required scopes.'',
      ce_remediationFix = ''Automate token refresh and alert before credentials expire.'',
      ce_dataSafe = True,
      ce_callsState = CAS_none,
      ce_owner = PLATFORM,
      ce_runbookRef = ''runbook#servicetitan-auth-failed''\<rparr>"

definition catalog_SERVICETITAN_MATCH_WEAK :: catalog_entry where
  "catalog_SERVICETITAN_MATCH_WEAK =
     \<lparr>ce_rootCauseCategory = SERVICETITAN_MATCH_WEAK,
      ce_whatBroke = ''A call could not be confidently matched to a ServiceTitan job.'',
      ce_likelyCause =
        ''The phone number or name did not line up strongly enough with any ServiceTitan record.'',
      ce_impact =
        ''A ServiceTitan match was too weak to trust; the call is held for review and nothing is written back rather than guessed.'',
      ce_remediationNow =
        ''Review the held weak-match call manually and confirm or reject it before any write-back.'',
      ce_remediationFix = ''Tune match thresholds and add more match keys.'',
      ce_dataSafe = True,
      ce_callsState = CAS_held,
      ce_owner = OVIO,
      ce_runbookRef = ''runbook#servicetitan-match-weak''\<rparr>"

definition catalog_SERVICETITAN_WRITE_FAILED :: catalog_entry where
  "catalog_SERVICETITAN_WRITE_FAILED =
     \<lparr>ce_rootCauseCategory = SERVICETITAN_WRITE_FAILED,
      ce_whatBroke = ''Saving a record into ServiceTitan failed.'',
      ce_likelyCause = ''ServiceTitan was unavailable or rejected the write.'',
      ce_impact =
        ''A ServiceTitan write-back failed; the structured record is safe in our store but not yet reflected in ServiceTitan.'',
      ce_remediationNow =
        ''Retry the write-back after checking ServiceTitan availability; the write carries an idempotency key.'',
      ce_remediationFix = ''Add write-back retry with backoff and periodic reconciliation.'',
      ce_dataSafe = True,
      ce_callsState = CAS_none,
      ce_owner = PLATFORM,
      ce_runbookRef = ''runbook#servicetitan-write-failed''\<rparr>"

definition catalog_REQUEST_BODY_TOO_LARGE :: catalog_entry where
  "catalog_REQUEST_BODY_TOO_LARGE =
     \<lparr>ce_rootCauseCategory = REQUEST_BODY_TOO_LARGE,
      ce_whatBroke = ''An incoming request was bigger than allowed and was turned away.'',
      ce_likelyCause =
        ''A caller sent an oversized payload '' @ em_dash @ '' a misconfigured sender or an abuse attempt.'',
      ce_impact =
        ''A request body exceeded the configured size limit and was rejected before parsing; nothing was ingested from it.'',
      ce_remediationNow =
        ''No action for a single request; if legitimate large payloads are expected, raise HTTP_MAX_BODY_BYTES for that surface.'',
      ce_remediationFix = SAME_AS_IMMEDIATE,
      ce_dataSafe = True,
      ce_callsState = CAS_none,
      ce_owner = PLATFORM,
      ce_runbookRef = ''runbook#request-body-too-large''\<rparr>"

definition catalog_REQUEST_MALFORMED :: catalog_entry where
  "catalog_REQUEST_MALFORMED =
     \<lparr>ce_rootCauseCategory = REQUEST_MALFORMED,
      ce_whatBroke = ''An incoming request could not be read and was turned away.'',
      ce_likelyCause = ''The caller sent a body that is not valid JSON.'',
      ce_impact =
        ''A request body could not be parsed (malformed JSON) and was rejected; nothing was ingested from it.'',
      ce_remediationNow =
        ''No action for a single request; if a caller keeps sending malformed bodies, share the expected request format.'',
      ce_remediationFix = SAME_AS_IMMEDIATE,
      ce_dataSafe = True,
      ce_callsState = CAS_none,
      ce_owner = PLATFORM,
      ce_runbookRef = ''runbook#request-malformed''\<rparr>"

definition catalog_UNSUPPORTED_MEDIA_TYPE :: catalog_entry where
  "catalog_UNSUPPORTED_MEDIA_TYPE =
     \<lparr>ce_rootCauseCategory = UNSUPPORTED_MEDIA_TYPE,
      ce_whatBroke =
        ''An incoming request used a content format we do not accept and was turned away.'',
      ce_likelyCause = ''The caller sent the wrong Content-Type header.'',
      ce_impact =
        ''A request used an unsupported content type and was rejected; only the documented content types are accepted.'',
      ce_remediationNow =
        ''No action for a single request; confirm callers send the documented Content-Type header.'',
      ce_remediationFix = SAME_AS_IMMEDIATE,
      ce_dataSafe = True,
      ce_callsState = CAS_none,
      ce_owner = PLATFORM,
      ce_runbookRef = ''runbook#unsupported-media-type''\<rparr>"

definition catalog_RATE_LIMIT_EXCEEDED :: catalog_entry where
  "catalog_RATE_LIMIT_EXCEEDED =
     \<lparr>ce_rootCauseCategory = RATE_LIMIT_EXCEEDED,
      ce_whatBroke =
        ''One caller sent requests faster than allowed and is being slowed down.'',
      ce_likelyCause =
        ''A burst from a single source '' @ em_dash @ '' a misbehaving client or an abuse attempt.'',
      ce_impact =
        ''A source exceeded the request-rate limit and is being throttled; its requests are rejected until the window resets. No data is lost.'',
      ce_remediationNow =
        ''No action for expected bursts; if a legitimate source is being throttled, adjust its rate-limit threshold.'',
      ce_remediationFix =
        ''Add per-source rate-limit tuning and alert on sustained throttling.'',
      ce_dataSafe = True,
      ce_callsState = CAS_none,
      ce_owner = PLATFORM,
      ce_runbookRef = ''runbook#rate-limit-exceeded''\<rparr>"

definition catalog_AUTH_REQUIRED :: catalog_entry where
  "catalog_AUTH_REQUIRED =
     \<lparr>ce_rootCauseCategory = AUTH_REQUIRED,
      ce_whatBroke =
        ''A request without a valid login tried to reach an internal page and was refused.'',
      ce_likelyCause =
        ''A signed-out visitor, an expired session, or a misconfigured login flow.'',
      ce_impact =
        ''An unauthenticated request to an internal surface was refused; no protected data was exposed.'',
      ce_remediationNow =
        ''Sign in through the configured identity provider; if valid sessions are being rejected, check the OIDC and session configuration.'',
      ce_remediationFix = SAME_AS_IMMEDIATE,
      ce_dataSafe = True,
      ce_callsState = CAS_none,
      ce_owner = PLATFORM,
      ce_runbookRef = ''runbook#auth-required''\<rparr>"

definition catalog_AUTH_FORBIDDEN :: catalog_entry where
  "catalog_AUTH_FORBIDDEN =
     \<lparr>ce_rootCauseCategory = AUTH_FORBIDDEN,
      ce_whatBroke =
        ''A signed-in user tried an action their role does not allow and was refused.'',
      ce_likelyCause = ''The session lacks the elevated role this action requires.'',
      ce_impact =
        ''An authenticated request was refused because the session lacked the required elevated role; no protected data was exposed.'',
      ce_remediationNow =
        ''Grant the reviewer the required elevated role, or confirm the action legitimately needs elevation; if valid elevated sessions are being rejected, check the role configuration.'',
      ce_remediationFix = SAME_AS_IMMEDIATE,
      ce_dataSafe = True,
      ce_callsState = CAS_none,
      ce_owner = PLATFORM,
      ce_runbookRef = ''runbook#auth-forbidden''\<rparr>"

definition catalog_CSRF_TOKEN_INVALID :: catalog_entry where
  "catalog_CSRF_TOKEN_INVALID =
     \<lparr>ce_rootCauseCategory = CSRF_TOKEN_INVALID,
      ce_whatBroke =
        ''A change request from an internal page failed its forgery check and was refused.'',
      ce_likelyCause =
        ''A stale page or expired token '' @ em_dash @ '' or a forged cross-site request.'',
      ce_impact =
        ''A state-changing internal request was refused because its CSRF token was missing or invalid; no change was made.'',
      ce_remediationNow =
        ''Reload the surface to obtain a fresh CSRF token and retry; if valid tokens are being rejected, check the session configuration.'',
      ce_remediationFix = SAME_AS_IMMEDIATE,
      ce_dataSafe = True,
      ce_callsState = CAS_none,
      ce_owner = PLATFORM,
      ce_runbookRef = ''runbook#csrf-token-invalid''\<rparr>"

definition catalog_WEBHOOK_TIMESTAMP_INVALID :: catalog_entry where
  "catalog_WEBHOOK_TIMESTAMP_INVALID =
     \<lparr>ce_rootCauseCategory = WEBHOOK_TIMESTAMP_INVALID,
      ce_whatBroke =
        ''An incoming webhook was dated too far in the past or future and was turned away.'',
      ce_likelyCause = ''Clock drift at the sender, a late delivery, or a replayed request.'',
      ce_impact =
        ''A webhook was rejected because its timestamp was outside the allowed freshness window (stale or future); nothing was ingested. Legitimate calls are still recovered by the reconciliation cron.'',
      ce_remediationNow =
        ''Confirm the sender and server clocks are in sync; investigate if stale-timestamp volume is high (a possible replay attack).'',
      ce_remediationFix =
        ''Monitor rejection rates and widen the skew window only if a clock-sync issue is confirmed.'',
      ce_dataSafe = True,
      ce_callsState = CAS_none,
      ce_owner = PLATFORM,
      ce_runbookRef = ''runbook#webhook-timestamp-invalid''\<rparr>"

definition catalog_INTERNAL_ERROR :: catalog_entry where
  "catalog_INTERNAL_ERROR =
     \<lparr>ce_rootCauseCategory = INTERNAL_ERROR,
      ce_whatBroke = ''A web request hit an unexpected error and could not be completed.'',
      ce_likelyCause =
        ''An unhandled error inside the service '' @ em_dash @ '' the logs carry the detail.'',
      ce_impact =
        ''An HTTP surface hit an unexpected error and returned a generic failure; the request did not complete. The error detail is in the logs, never in the response.'',
      ce_remediationNow =
        ''Check the service logs for the correlated request id and address the underlying error.'',
      ce_remediationFix = SAME_AS_IMMEDIATE,
      ce_dataSafe = True,
      ce_callsState = CAS_none,
      ce_owner = PLATFORM,
      ce_runbookRef = ''runbook#internal-error''\<rparr>"

definition catalog_VERBATIM_PII_DETECTED :: catalog_entry where
  "catalog_VERBATIM_PII_DETECTED =
     \<lparr>ce_rootCauseCategory = VERBATIM_PII_DETECTED,
      ce_whatBroke =
        ''A personal detail may have slipped into a quote the AI pulled from a call; the quote was stopped before being stored.'',
      ce_likelyCause =
        ''The earlier privacy step likely missed the detail, or the AI chose a risky quote.'',
      ce_impact =
        ''Possible residual PII was detected in an extracted verbatim marketing phrase; the phrase is held and scrubbed rather than stored in structured_knowledge or exported, and the call needs review '' @ em_dash @ '' likely a redaction recall gap or the extractor selecting risky text.'',
      ce_remediationNow =
        ''Review the held call, discard or correct the flagged phrase, and check whether the redacted transcript sent to Anthropic contained the same value.'',
      ce_remediationFix =
        ''Update the deny list, the redaction corpus, or the extractor prompt as the review indicates.'',
      ce_dataSafe = False,
      ce_callsState = CAS_held,
      ce_owner = OVIO,
      ce_runbookRef = ''runbook#verbatim-pii-detected''\<rparr>"

definition catalog_TECHNICIAN_NOTE_RUN_DEGRADED :: catalog_entry where
  "catalog_TECHNICIAN_NOTE_RUN_DEGRADED =
     \<lparr>ce_rootCauseCategory = TECHNICIAN_NOTE_RUN_DEGRADED,
      ce_whatBroke =
        ''A batch run produced technician notes for fewer calls than expected.'',
      ce_likelyCause =
        ''The AI returned output that did not fit the note format, or the AI service was rejecting or throttling requests during the run.'',
      ce_impact =
        ''Some calls have no technician note for this run. Call processing, the redaction boundary, and the stored structured records are all unaffected '' @ em_dash @ '' nothing is held, retried, or dropped, and the missing notes are regenerated by simply re-running the job.'',
      ce_remediationNow =
        ''Re-run the note job; if the failure rate stays high, check the AI service status and the note prompt version before changing anything else.'',
      ce_remediationFix =
        ''Fix the note prompt or schema so the model output validates, then regenerate the affected calls under a new prompt version.'',
      ce_dataSafe = True,
      ce_callsState = CAS_none,
      ce_owner = OVIO,
      ce_runbookRef = ''runbook#technician-note-run-degraded''\<rparr>"

primrec REMEDIATION_CATALOG :: "error_code \<Rightarrow> catalog_entry" where
  "REMEDIATION_CATALOG CONFIG_MISSING_OR_INVALID = catalog_CONFIG_MISSING_OR_INVALID"
| "REMEDIATION_CATALOG DATABASE_UNAVAILABLE = catalog_DATABASE_UNAVAILABLE"
| "REMEDIATION_CATALOG REDIS_UNAVAILABLE = catalog_REDIS_UNAVAILABLE"
| "REMEDIATION_CATALOG MIGRATION_FAILED = catalog_MIGRATION_FAILED"
| "REMEDIATION_CATALOG DIALPAD_AUTH_FAILED = catalog_DIALPAD_AUTH_FAILED"
| "REMEDIATION_CATALOG DIALPAD_RATE_LIMITED = catalog_DIALPAD_RATE_LIMITED"
| "REMEDIATION_CATALOG DIALPAD_API_CHANGED = catalog_DIALPAD_API_CHANGED"
| "REMEDIATION_CATALOG DIALPAD_TRANSCRIPT_MISSING = catalog_DIALPAD_TRANSCRIPT_MISSING"
| "REMEDIATION_CATALOG WEBHOOK_SIGNATURE_INVALID = catalog_WEBHOOK_SIGNATURE_INVALID"
| "REMEDIATION_CATALOG WEBHOOK_REPLAY_DETECTED = catalog_WEBHOOK_REPLAY_DETECTED"
| "REMEDIATION_CATALOG REDACTION_RECALL_REGRESSION = catalog_REDACTION_RECALL_REGRESSION"
| "REMEDIATION_CATALOG REDACTION_LOW_CONFIDENCE = catalog_REDACTION_LOW_CONFIDENCE"
| "REMEDIATION_CATALOG MODEL_AUTH_FAILED = catalog_MODEL_AUTH_FAILED"
| "REMEDIATION_CATALOG MODEL_RATE_LIMITED = catalog_MODEL_RATE_LIMITED"
| "REMEDIATION_CATALOG MODEL_MALFORMED_RESPONSE = catalog_MODEL_MALFORMED_RESPONSE"
| "REMEDIATION_CATALOG MODEL_COST_CAP_EXCEEDED = catalog_MODEL_COST_CAP_EXCEEDED"
| "REMEDIATION_CATALOG MODEL_COST_WARNING_THRESHOLD_EXCEEDED = catalog_MODEL_COST_WARNING_THRESHOLD_EXCEEDED"
| "REMEDIATION_CATALOG QUEUE_RETRY_EXHAUSTED = catalog_QUEUE_RETRY_EXHAUSTED"
| "REMEDIATION_CATALOG DEAD_LETTER_CREATED = catalog_DEAD_LETTER_CREATED"
| "REMEDIATION_CATALOG RETENTION_PURGE_FAILED = catalog_RETENTION_PURGE_FAILED"
| "REMEDIATION_CATALOG KEY_ROTATION_FAILED = catalog_KEY_ROTATION_FAILED"
| "REMEDIATION_CATALOG KEY_REVOCATION_FAILED = catalog_KEY_REVOCATION_FAILED"
| "REMEDIATION_CATALOG BACKFILL_CHECKPOINT_FAILED = catalog_BACKFILL_CHECKPOINT_FAILED"
| "REMEDIATION_CATALOG REVIEW_QUEUE_STALLED = catalog_REVIEW_QUEUE_STALLED"
| "REMEDIATION_CATALOG SERVICETITAN_AUTH_FAILED = catalog_SERVICETITAN_AUTH_FAILED"
| "REMEDIATION_CATALOG SERVICETITAN_MATCH_WEAK = catalog_SERVICETITAN_MATCH_WEAK"
| "REMEDIATION_CATALOG SERVICETITAN_WRITE_FAILED = catalog_SERVICETITAN_WRITE_FAILED"
| "REMEDIATION_CATALOG REQUEST_BODY_TOO_LARGE = catalog_REQUEST_BODY_TOO_LARGE"
| "REMEDIATION_CATALOG REQUEST_MALFORMED = catalog_REQUEST_MALFORMED"
| "REMEDIATION_CATALOG UNSUPPORTED_MEDIA_TYPE = catalog_UNSUPPORTED_MEDIA_TYPE"
| "REMEDIATION_CATALOG RATE_LIMIT_EXCEEDED = catalog_RATE_LIMIT_EXCEEDED"
| "REMEDIATION_CATALOG AUTH_REQUIRED = catalog_AUTH_REQUIRED"
| "REMEDIATION_CATALOG AUTH_FORBIDDEN = catalog_AUTH_FORBIDDEN"
| "REMEDIATION_CATALOG CSRF_TOKEN_INVALID = catalog_CSRF_TOKEN_INVALID"
| "REMEDIATION_CATALOG WEBHOOK_TIMESTAMP_INVALID = catalog_WEBHOOK_TIMESTAMP_INVALID"
| "REMEDIATION_CATALOG INTERNAL_ERROR = catalog_INTERNAL_ERROR"
| "REMEDIATION_CATALOG VERBATIM_PII_DETECTED = catalog_VERBATIM_PII_DETECTED"
| "REMEDIATION_CATALOG TECHNICIAN_NOTE_RUN_DEGRADED = catalog_TECHNICIAN_NOTE_RUN_DEGRADED"

text \<open>\<^verbatim>\<open>catalogFor\<close> and \<^verbatim>\<open>severityFor\<close> throw only on a code outside the taxonomy, which the type excludes.\<close>

definition catalogFor :: "error_code \<Rightarrow> catalog_entry" where
  "catalogFor code = REMEDIATION_CATALOG code"

primrec DEFAULT_SEVERITY :: "error_code \<Rightarrow> severity" where
  "DEFAULT_SEVERITY CONFIG_MISSING_OR_INVALID = SEV_high"
| "DEFAULT_SEVERITY DATABASE_UNAVAILABLE = SEV_critical"
| "DEFAULT_SEVERITY REDIS_UNAVAILABLE = SEV_critical"
| "DEFAULT_SEVERITY MIGRATION_FAILED = SEV_high"
| "DEFAULT_SEVERITY DIALPAD_AUTH_FAILED = SEV_high"
| "DEFAULT_SEVERITY DIALPAD_RATE_LIMITED = SEV_medium"
| "DEFAULT_SEVERITY DIALPAD_API_CHANGED = SEV_high"
| "DEFAULT_SEVERITY DIALPAD_TRANSCRIPT_MISSING = SEV_low"
| "DEFAULT_SEVERITY WEBHOOK_SIGNATURE_INVALID = SEV_medium"
| "DEFAULT_SEVERITY WEBHOOK_REPLAY_DETECTED = SEV_low"
| "DEFAULT_SEVERITY REDACTION_RECALL_REGRESSION = SEV_critical"
| "DEFAULT_SEVERITY REDACTION_LOW_CONFIDENCE = SEV_medium"
| "DEFAULT_SEVERITY MODEL_AUTH_FAILED = SEV_high"
| "DEFAULT_SEVERITY MODEL_RATE_LIMITED = SEV_medium"
| "DEFAULT_SEVERITY MODEL_MALFORMED_RESPONSE = SEV_medium"
| "DEFAULT_SEVERITY MODEL_COST_CAP_EXCEEDED = SEV_high"
| "DEFAULT_SEVERITY MODEL_COST_WARNING_THRESHOLD_EXCEEDED = SEV_medium"
| "DEFAULT_SEVERITY QUEUE_RETRY_EXHAUSTED = SEV_high"
| "DEFAULT_SEVERITY DEAD_LETTER_CREATED = SEV_high"
| "DEFAULT_SEVERITY RETENTION_PURGE_FAILED = SEV_high"
| "DEFAULT_SEVERITY BACKFILL_CHECKPOINT_FAILED = SEV_medium"
| "DEFAULT_SEVERITY REVIEW_QUEUE_STALLED = SEV_medium"
| "DEFAULT_SEVERITY SERVICETITAN_AUTH_FAILED = SEV_high"
| "DEFAULT_SEVERITY SERVICETITAN_MATCH_WEAK = SEV_low"
| "DEFAULT_SEVERITY SERVICETITAN_WRITE_FAILED = SEV_medium"
| "DEFAULT_SEVERITY REQUEST_BODY_TOO_LARGE = SEV_low"
| "DEFAULT_SEVERITY REQUEST_MALFORMED = SEV_low"
| "DEFAULT_SEVERITY UNSUPPORTED_MEDIA_TYPE = SEV_low"
| "DEFAULT_SEVERITY RATE_LIMIT_EXCEEDED = SEV_low"
| "DEFAULT_SEVERITY AUTH_REQUIRED = SEV_low"
| "DEFAULT_SEVERITY AUTH_FORBIDDEN = SEV_low"
| "DEFAULT_SEVERITY CSRF_TOKEN_INVALID = SEV_low"
| "DEFAULT_SEVERITY WEBHOOK_TIMESTAMP_INVALID = SEV_low"
| "DEFAULT_SEVERITY INTERNAL_ERROR = SEV_high"
| "DEFAULT_SEVERITY VERBATIM_PII_DETECTED = SEV_high"
| "DEFAULT_SEVERITY KEY_ROTATION_FAILED = SEV_critical"
| "DEFAULT_SEVERITY KEY_REVOCATION_FAILED = SEV_critical"
| "DEFAULT_SEVERITY TECHNICIAN_NOTE_RUN_DEGRADED = SEV_medium"

definition severityFor :: "error_code \<Rightarrow> severity" where
  "severityFor code = DEFAULT_SEVERITY code"

text \<open>Every entry is keyed by its own category and no text of it is empty.\<close>

definition entry_ok :: "error_code \<Rightarrow> catalog_entry \<Rightarrow> bool" where
  "entry_ok code e \<longleftrightarrow>
     ce_rootCauseCategory e = code \<and> ce_whatBroke e \<noteq> [] \<and> ce_likelyCause e \<noteq> [] \<and> ce_impact e \<noteq> []
     \<and> ce_remediationNow e \<noteq> [] \<and> ce_remediationFix e \<noteq> [] \<and> ce_owner e \<noteq> [] \<and> ce_runbookRef e \<noteq> []"

lemmas catalog_defs = catalog_CONFIG_MISSING_OR_INVALID_def catalog_DATABASE_UNAVAILABLE_def
  catalog_REDIS_UNAVAILABLE_def catalog_MIGRATION_FAILED_def catalog_DIALPAD_AUTH_FAILED_def
  catalog_DIALPAD_RATE_LIMITED_def catalog_DIALPAD_API_CHANGED_def
  catalog_DIALPAD_TRANSCRIPT_MISSING_def catalog_WEBHOOK_SIGNATURE_INVALID_def
  catalog_WEBHOOK_REPLAY_DETECTED_def catalog_REDACTION_RECALL_REGRESSION_def
  catalog_REDACTION_LOW_CONFIDENCE_def catalog_MODEL_AUTH_FAILED_def
  catalog_MODEL_RATE_LIMITED_def catalog_MODEL_MALFORMED_RESPONSE_def
  catalog_MODEL_COST_CAP_EXCEEDED_def catalog_MODEL_COST_WARNING_THRESHOLD_EXCEEDED_def
  catalog_QUEUE_RETRY_EXHAUSTED_def catalog_DEAD_LETTER_CREATED_def
  catalog_RETENTION_PURGE_FAILED_def catalog_KEY_ROTATION_FAILED_def
  catalog_KEY_REVOCATION_FAILED_def catalog_BACKFILL_CHECKPOINT_FAILED_def
  catalog_REVIEW_QUEUE_STALLED_def catalog_SERVICETITAN_AUTH_FAILED_def
  catalog_SERVICETITAN_MATCH_WEAK_def catalog_SERVICETITAN_WRITE_FAILED_def
  catalog_REQUEST_BODY_TOO_LARGE_def catalog_REQUEST_MALFORMED_def
  catalog_UNSUPPORTED_MEDIA_TYPE_def catalog_RATE_LIMIT_EXCEEDED_def catalog_AUTH_REQUIRED_def
  catalog_AUTH_FORBIDDEN_def catalog_CSRF_TOKEN_INVALID_def
  catalog_WEBHOOK_TIMESTAMP_INVALID_def catalog_INTERNAL_ERROR_def
  catalog_VERBATIM_PII_DETECTED_def catalog_TECHNICIAN_NOTE_RUN_DEGRADED_def

lemma catalog_entry_ok: "entry_ok code (catalogFor code)"
  by (cases code) (simp_all add: catalogFor_def entry_ok_def catalog_defs SAME_AS_IMMEDIATE_def OVIO_def PLATFORM_def)

end
