(* ===== verification/Tables.thy ===== *)
theory Tables
  imports Vocabulary
begin

text \<open>
  The tables of the main database, one record per row type with the columns of the row schemas under
  \<^verbatim>\<open>src/src/db/schemas\<close>, and the append-only repositories \<^verbatim>\<open>processing-log-repo.ts\<close>,
  \<^verbatim>\<open>operator-actions-repo.ts\<close>, \<^verbatim>\<open>dead-letter-repo.ts\<close> and \<^verbatim>\<open>reprocess-requests-repo.ts\<close>.
  Instants are milliseconds.  A uuid is a number drawn from \<open>next_uuid\<close>, which stands for
  \<^verbatim>\<open>gen_random_uuid()\<close>: every draw is fresh.  What Postgres itself supplies to a statement is the
  record \<open>pg\<close>: the transaction clock \<^verbatim>\<open>now()\<close> and the text output of a jsonb value that is not a string
  (the operator \<^verbatim>\<open>->>\<close>).
\<close>

type_synonym uuid = nat

record pg =
  pg_now :: int
  pg_text :: "json \<Rightarrow> string"

section \<open>Rows\<close>

record call_state_row =
  cs_call_id :: string
  cs_source :: string
  cs_source_metadata :: json
  cs_current_stage :: string
  cs_status :: string
  cs_drop_reason :: "string option"
  cs_transcript_wait_started_at :: "int option"
  cs_created_at :: int
  cs_updated_at :: int

record review_queue_row =
  rq_id :: uuid
  rq_call_id :: string
  rq_held_reason :: held_reason
  rq_status :: review_status
  rq_assignee :: "string option"
  rq_sla_due_at :: "int option"
  rq_escalated_at :: "int option"
  rq_raw_purged_at :: "int option"
  rq_created_at :: int
  rq_resolved_at :: "int option"

record processing_log_row =
  pl_id :: uuid
  pl_call_id :: "string option"
  pl_stage :: string
  pl_outcome :: string
  pl_error_code :: "string option"
  pl_detail :: "json option"
  pl_created_at :: int
  pl_failure_snapshot :: "json option"

record alert_event_row =
  ae_id :: uuid
  ae_error_code :: string
  ae_root_cause_category :: string
  ae_severity :: severity
  ae_dedup_key :: string
  ae_acknowledged_at :: "int option"
  ae_created_at :: int
  ae_failure_snapshot :: json
  ae_delivery_state :: delivery_state
  ae_delivery_attempts :: nat
  ae_next_attempt_at :: int
  ae_delivered_at :: "int option"
  ae_last_delivery_error :: "string option"

record operator_action_row =
  oa_id :: uuid
  oa_review_queue_id :: uuid
  oa_actor :: string
  oa_action :: operator_action
  oa_before :: "json option"
  oa_after :: "json option"
  oa_created_at :: int

record reprocess_request_row =
  rr_id :: uuid
  rr_operator_action_id :: uuid
  rr_call_id :: string
  rr_review_queue_id :: uuid
  rr_target_stage :: string
  rr_requested_by :: string
  rr_status :: reprocess_request_status
  rr_prior_stage :: "string option"
  rr_prior_status :: "string option"
  rr_prior_drop_reason :: "string option"
  rr_attempt_count :: nat
  rr_last_error_code :: "string option"
  rr_last_attempted_at :: "int option"
  rr_created_at :: int
  rr_sent_at :: "int option"

record dead_letter_row =
  dl_id :: uuid
  dl_call_id :: "string option"
  dl_job_payload :: json
  dl_error_code :: string
  dl_root_cause_category :: string
  dl_last_error :: "string option"
  dl_failed_at :: int
  dl_failure_snapshot :: json

record clean_transcript_row =
  ct_call_id :: string
  ct_redacted_text :: string
  ct_redaction_risk_score :: rat
  ct_redaction_reasons :: "string list"
  ct_created_at :: int
  ct_retention_eligible_at :: "int option"
  ct_soft_deleted_at :: "int option"
  ct_hard_deleted_at :: "int option"

record knowledge_payload =
  kp_call_intent :: call_intent
  kp_service_category :: service_category
  kp_problem_statement :: "string option"
  kp_symptoms :: "string list"
  kp_customer_language :: "string list"
  kp_location_in_home :: "string option"
  kp_access_or_scheduling_notes :: "string option"
  kp_prior_attempts :: "string option"
  kp_urgency :: urgency
  kp_concerns :: "string list"
  kp_sentiment :: sentiment
  kp_acquisition_source :: "string option"
  kp_competitor_mentions :: "string list"
  kp_schema_version :: int
  kp_prompt_version :: string
  kp_model_id :: string

record extraction_candidate_row =
  ec_call_id :: string
  ec_payload :: knowledge_payload
  ec_pii_scan_status :: pii_scan_status
  ec_pii_scan_failure_kind :: "pii_scan_failure_kind option"
  ec_pii_scan_failed_at :: "int option"
  ec_pii_scan_counts :: "(string \<times> nat) list option"
  ec_created_at :: int
  ec_retention_eligible_at :: "int option"
  ec_soft_deleted_at :: "int option"
  ec_hard_deleted_at :: "int option"

record structured_knowledge_row =
  sk_call_id :: string
  sk_payload :: knowledge_payload
  sk_created_at :: int
  sk_superseded_by_call_id :: "string option"

record raw_transcript_row =
  rt_call_id :: string
  rt_ciphertext :: string
  rt_key_version :: nat
  rt_fetched_at :: int
  rt_retention_eligible_at :: "int option"
  rt_soft_deleted_at :: "int option"
  rt_hard_deleted_at :: "int option"

record token_vault_row =
  tv_call_id :: string
  tv_token :: string
  tv_ciphertext :: string
  tv_key_version :: nat
  tv_retention_eligible_at :: "int option"
  tv_soft_deleted_at :: "int option"
  tv_hard_deleted_at :: "int option"

record redaction_finding_row =
  rf_id :: uuid
  rf_call_id :: string
  rf_entity_type :: string
  rf_token_ref :: "string option"
  rf_value_hash :: "string option"
  rf_residual_scan_result :: json
  rf_created_at :: int
  rf_retention_eligible_at :: "int option"
  rf_soft_deleted_at :: "int option"
  rf_hard_deleted_at :: "int option"

record daily_cost_row =
  dc_day :: string
  dc_input_tokens :: nat
  dc_output_tokens :: nat
  dc_estimated_cost :: rat
  dc_updated_at :: int

record model_invocation_row =
  mi_id :: uuid
  mi_call_id :: string
  mi_stage :: string
  mi_model_id :: string
  mi_prompt_version :: string
  mi_input_tokens :: nat
  mi_output_tokens :: nat
  mi_outcome :: string
  mi_created_at :: int

record raw_webhook_event_row =
  wh_id :: uuid
  wh_received_at :: int
  wh_source :: string
  wh_payload :: json
  wh_signature_status :: signature_status
  wh_retention_eligible_at :: "int option"
  wh_soft_deleted_at :: "int option"
  wh_hard_deleted_at :: "int option"

record match_key_row =
  mk_id :: uuid
  mk_call_id :: string
  mk_phone_hmac :: "string option"
  mk_name_hmac :: "string option"
  mk_key_version :: nat
  mk_created_at :: int
  mk_retention_eligible_at :: "int option"
  mk_soft_deleted_at :: "int option"
  mk_hard_deleted_at :: "int option"

text \<open>A job handed to the pipeline queue: its id, its payload and its delay in milliseconds.\<close>

record pipeline_job =
  jb_id :: string
  jb_callId :: string
  jb_delay :: int

text \<open>The shared state: the tables of the main database, those of the raw store
  (\<open>raw_transcripts\<close>, \<open>token_vault\<close>, \<open>raw_purge_tombstone\<close>) and the jobs added to the queue so far.\<close>

record db =
  next_uuid :: uuid
  call_state :: "call_state_row list"
  review_queue :: "review_queue_row list"
  processing_log :: "processing_log_row list"
  alert_events :: "alert_event_row list"
  operator_actions :: "operator_action_row list"
  reprocess_requests :: "reprocess_request_row list"
  dead_letter :: "dead_letter_row list"
  clean_transcripts :: "clean_transcript_row list"
  extraction_candidates :: "extraction_candidate_row list"
  structured_knowledge :: "structured_knowledge_row list"
  redaction_findings :: "redaction_finding_row list"
  daily_cost_usage :: "daily_cost_row list"
  model_invocations :: "model_invocation_row list"
  raw_webhook_events :: "raw_webhook_event_row list"
  match_keys :: "match_key_row list"
  raw_transcripts :: "raw_transcript_row list"
  token_vault :: "token_vault_row list"
  raw_purge_tombstone :: "string list"
  job_queue :: "pipeline_job list"

definition empty_db :: db where
  "empty_db =
     \<lparr>next_uuid = 0, call_state = [], review_queue = [], processing_log = [], alert_events = [],
      operator_actions = [], reprocess_requests = [], dead_letter = [], clean_transcripts = [],
      extraction_candidates = [], structured_knowledge = [], redaction_findings = [], daily_cost_usage = [], model_invocations = [],
      raw_webhook_events = [], match_keys = [], raw_transcripts = [], token_vault = [], raw_purge_tombstone = [], job_queue = []\<rparr>"

datatype db_error = DalError dal_code

type_synonym 'a dbop = "(db, db_error, 'a) op"

section \<open>jsonb operators\<close>

text \<open>\<^verbatim>\<open>j -> k\<close> (None is SQL NULL) and \<^verbatim>\<open>j ->> k\<close>.\<close>

definition json_get :: "json \<Rightarrow> string \<Rightarrow> json option" where
  "json_get j k = (case j of JObj kvs \<Rightarrow> map_of kvs k | _ \<Rightarrow> None)"

definition json_text :: "pg \<Rightarrow> json \<Rightarrow> string option" where
  "json_text pg j = (case j of JNull \<Rightarrow> None | JStr s \<Rightarrow> Some s | _ \<Rightarrow> Some (pg_text pg j))"

definition json_get_text :: "pg \<Rightarrow> json \<Rightarrow> string \<Rightarrow> string option" where
  "json_get_text pg j k = Option.bind (json_get j k) (json_text pg)"

text \<open>\<^verbatim>\<open>toJsonParam\<close>: \<^verbatim>\<open>null\<close> and \<^verbatim>\<open>undefined\<close> become SQL NULL.\<close>

definition toJsonParam :: "json option \<Rightarrow> json option" where
  "toJsonParam v = (case v of Some JNull \<Rightarrow> None | _ \<Rightarrow> v)"

text \<open>\<^verbatim>\<open>id::text\<close> of a generated id: a text of its own for every id.\<close>

fun uuid_text :: "uuid \<Rightarrow> string" where
  "uuid_text n = (if n < 10 then [char_of (48 + n)] else uuid_text (n div 10) @ [char_of (48 + n mod 10)])"

declare uuid_text.simps [simp del]

section \<open>processing\_log\<close>

record log_entry =
  le_callId :: "string option"
  le_stage :: string
  le_outcome :: string
  le_errorCode :: "string option"
  le_detail :: "json option"
  le_failureSnapshot :: "json option"

definition appendLog :: "pg \<Rightarrow> log_entry \<Rightarrow> processing_log_row dbop" where
  "appendLog pg v db =
     (if le_stage v = [] \<or> le_outcome v = [] then (Inl (DalError DAL_VALIDATION_FAILED), db)
      else
        let row = \<lparr>pl_id = next_uuid db, pl_call_id = le_callId v, pl_stage = le_stage v,
                   pl_outcome = le_outcome v, pl_error_code = le_errorCode v,
                   pl_detail = toJsonParam (le_detail v), pl_created_at = pg_now pg,
                   pl_failure_snapshot = toJsonParam (le_failureSnapshot v)\<rparr>
        in (Inr row, db\<lparr>next_uuid := Suc (next_uuid db), processing_log := processing_log db @ [row]\<rparr>))"

definition listByCall :: "string \<Rightarrow> db \<Rightarrow> processing_log_row list" where
  "listByCall callId db =
     sort_key pl_created_at (sql_select (\<lambda>r. pl_call_id r = Some callId) (processing_log db))"

definition countByStageOutcome :: "string \<Rightarrow> string \<Rightarrow> db \<Rightarrow> nat" where
  "countByStageOutcome stage outcome db =
     length (sql_select (\<lambda>r. pl_stage r = stage \<and> pl_outcome r = outcome) (processing_log db))"

section \<open>operator\_actions\<close>

definition recordOperatorAction ::
    "pg \<Rightarrow> uuid \<Rightarrow> string \<Rightarrow> operator_action \<Rightarrow> json option \<Rightarrow> json option \<Rightarrow> operator_action_row dbop" where
  "recordOperatorAction pg reviewQueueId actor action before after db =
     (if actor = [] then (Inl (DalError DAL_VALIDATION_FAILED), db)
      else
        let row = \<lparr>oa_id = next_uuid db, oa_review_queue_id = reviewQueueId, oa_actor = actor,
                   oa_action = action, oa_before = toJsonParam before, oa_after = toJsonParam after,
                   oa_created_at = pg_now pg\<rparr>
        in (Inr row, db\<lparr>next_uuid := Suc (next_uuid db), operator_actions := operator_actions db @ [row]\<rparr>))"

definition listByReview :: "uuid \<Rightarrow> db \<Rightarrow> operator_action_row list" where
  "listByReview reviewQueueId db =
     sort_key oa_created_at (sql_select (\<lambda>r. oa_review_queue_id r = reviewQueueId) (operator_actions db))"

section \<open>dead\_letter\<close>

record dead_letter_insert =
  di_callId :: "string option"
  di_jobPayload :: "json option"
  di_errorCode :: string
  di_rootCauseCategory :: string
  di_lastError :: "string option"
  di_failureSnapshot :: "json option"

definition recordDeadLetter :: "pg \<Rightarrow> dead_letter_insert \<Rightarrow> dead_letter_row dbop" where
  "recordDeadLetter pg v db =
     (if di_errorCode v = [] \<or> di_rootCauseCategory v = [] then (Inl (DalError DAL_VALIDATION_FAILED), db)
      else
        let row = \<lparr>dl_id = next_uuid db, dl_call_id = di_callId v,
                   dl_job_payload = (case toJsonParam (di_jobPayload v) of None \<Rightarrow> JObj [] | Some j \<Rightarrow> j),
                   dl_error_code = di_errorCode v, dl_root_cause_category = di_rootCauseCategory v,
                   dl_last_error = di_lastError v, dl_failed_at = pg_now pg,
                   dl_failure_snapshot =
                     (case toJsonParam (di_failureSnapshot v) of None \<Rightarrow> JObj [] | Some j \<Rightarrow> j)\<rparr>
        in (Inr row, db\<lparr>next_uuid := Suc (next_uuid db), dead_letter := dead_letter db @ [row]\<rparr>))"

definition hasDeadLetter :: "string \<Rightarrow> db \<Rightarrow> bool" where
  "hasDeadLetter callId db = sql_exists (\<lambda>r. dl_call_id r = Some callId) (dead_letter db)"

section \<open>reprocess\_requests\<close>

record reprocess_insert =
  ri_operatorActionId :: uuid
  ri_callId :: string
  ri_reviewQueueId :: uuid
  ri_targetStage :: string
  ri_requestedBy :: string
  ri_priorStage :: "string option"
  ri_priorStatus :: "string option"
  ri_priorDropReason :: "string option"

definition insertReprocessRequest :: "pg \<Rightarrow> reprocess_insert \<Rightarrow> reprocess_request_row dbop" where
  "insertReprocessRequest pg v db =
     (if ri_callId v = [] \<or> ri_targetStage v = [] \<or> ri_requestedBy v = []
      then (Inl (DalError DAL_VALIDATION_FAILED), db)
      else
        let row = \<lparr>rr_id = next_uuid db, rr_operator_action_id = ri_operatorActionId v,
                   rr_call_id = ri_callId v, rr_review_queue_id = ri_reviewQueueId v,
                   rr_target_stage = ri_targetStage v, rr_requested_by = ri_requestedBy v,
                   rr_status = RR_pending, rr_prior_stage = ri_priorStage v,
                   rr_prior_status = ri_priorStatus v, rr_prior_drop_reason = ri_priorDropReason v,
                   rr_attempt_count = 0, rr_last_error_code = None, rr_last_attempted_at = None,
                   rr_created_at = pg_now pg, rr_sent_at = None\<rparr>
        in (Inr row, db\<lparr>next_uuid := Suc (next_uuid db), reprocess_requests := reprocess_requests db @ [row]\<rparr>))"

definition listPendingReprocessRequestIds :: "uuid list \<Rightarrow> nat \<Rightarrow> db \<Rightarrow> uuid list" where
  "listPendingReprocessRequestIds excluded limit db =
     map rr_id (take limit (sort_key rr_created_at
       (sql_select (\<lambda>r. rr_status r = RR_pending \<and> rr_id r \<notin> set excluded) (reprocess_requests db))))"

definition lockPendingReprocessRequest :: "uuid \<Rightarrow> db \<Rightarrow> reprocess_request_row option" where
  "lockPendingReprocessRequest i db =
     first_row (sql_select (\<lambda>r. rr_id r = i \<and> rr_status r = RR_pending) (reprocess_requests db))"

definition markReprocessSent :: "uuid \<Rightarrow> int \<Rightarrow> db \<Rightarrow> db" where
  "markReprocessSent i now db =
     db\<lparr>reprocess_requests := sql_update (\<lambda>r. rr_id r = i \<and> rr_status r = RR_pending)
          (\<lambda>r. r\<lparr>rr_status := RR_sent, rr_sent_at := Some now\<rparr>) (reprocess_requests db)\<rparr>"

definition markReprocessSuperseded :: "uuid \<Rightarrow> db \<Rightarrow> db" where
  "markReprocessSuperseded i db =
     db\<lparr>reprocess_requests := sql_update (\<lambda>r. rr_id r = i \<and> rr_status r = RR_pending)
          (\<lambda>r. r\<lparr>rr_status := RR_superseded\<rparr>) (reprocess_requests db)\<rparr>"

definition recordReprocessAttemptFailure :: "uuid \<Rightarrow> string \<Rightarrow> int \<Rightarrow> db \<Rightarrow> db" where
  "recordReprocessAttemptFailure i errorCode now db =
     db\<lparr>reprocess_requests := sql_update (\<lambda>r. rr_id r = i \<and> rr_status r = RR_pending)
          (\<lambda>r. r\<lparr>rr_attempt_count := rr_attempt_count r + 1, rr_last_error_code := Some errorCode,
                 rr_last_attempted_at := Some now\<rparr>) (reprocess_requests db)\<rparr>"

section \<open>Partial unique indexes\<close>

text \<open>
  A partial unique index \<^verbatim>\<open>UNIQUE (key) WHERE live\<close> admits no two live rows with one key.  An
  UPDATE that keeps the key and never makes a dead row live again preserves it; an insert guarded by
  \<^verbatim>\<open>ON CONFLICT DO NOTHING\<close> does too.
\<close>

definition unique_live :: "('r \<Rightarrow> 'k) \<Rightarrow> ('r \<Rightarrow> bool) \<Rightarrow> 'r list \<Rightarrow> bool" where
  "unique_live key live t \<longleftrightarrow> distinct (map key (filter live t))"

locale narrowing_update =
  fixes key :: "'r \<Rightarrow> 'k" and live :: "'r \<Rightarrow> bool" and upd :: "'r \<Rightarrow> 'r"
  assumes keeps_key: "key (upd r) = key r"
    and never_revives: "live (upd r) \<Longrightarrow> live r"
begin

lemma live_keys_subset: "set (map key (filter live (sql_update p upd t))) \<subseteq> set (map key (filter live t))"
  using keeps_key never_revives by (fastforce simp: sql_update_def)

lemma update_unique_live: "unique_live key live t \<Longrightarrow> unique_live key live (sql_update p upd t)"
proof (induction t)
  case Nil
  then show ?case by (simp add: unique_live_def sql_update_def)
next
  case (Cons r t)
  let ?r = "if p r then upd r else r"
  have split: "sql_update p upd (r # t) = ?r # sql_update p upd t" by (simp add: sql_update_def)
  have IH: "unique_live key live (sql_update p upd t)"
    using Cons by (auto simp: unique_live_def split: if_splits)
  show ?case
  proof (cases "live ?r")
    case True
    then have "live r" using never_revives by (simp split: if_splits)
    then have "key r \<notin> set (map key (filter live t))" using Cons.prems by (simp add: unique_live_def)
    moreover have "key ?r = key r" using keeps_key by simp
    ultimately have "key ?r \<notin> set (map key (filter live (sql_update p upd t)))"
      using live_keys_subset [of p t] by auto
    with True IH show ?thesis by (simp add: split unique_live_def)
  next
    case False
    with IH show ?thesis by (simp add: split unique_live_def)
  qed
qed

end

lemma unique_live_insert:
  "unique_live key live t \<Longrightarrow> \<not> sql_exists (\<lambda>x. key x = key r \<and> live x) t \<Longrightarrow> unique_live key live (t @ [r])"
  by (auto simp: unique_live_def sql_exists_iff)

lemma unique_live_eq:
  assumes "unique_live key live t" "r \<in> set t" "r' \<in> set t" "live r" "live r'" "key r = key r'"
  shows "r = r'"
  using assms by (auto simp: unique_live_def distinct_map inj_on_def)

lemma unique_live_select:
  assumes "unique_live key live t" "r \<in> set t" "live r"
  shows "sql_select (\<lambda>x. key x = key r \<and> live x) t = [r]"
  using assms
proof (induction t)
  case (Cons x t)
  have rest: "sql_select (\<lambda>x. key x = key r \<and> live x) t = []" if "x = r"
  proof -
    have "key r \<notin> set (map key (filter live t))"
      using that Cons.prems by (simp add: unique_live_def)
    then show ?thesis by (auto simp: sql_select_def filter_empty_conv image_iff)
  qed
  show ?case
  proof (cases "x = r")
    case True
    with rest Cons.prems show ?thesis by (simp add: sql_select_def)
  next
    case False
    then have r: "r \<in> set t" using Cons.prems by simp
    have "\<not> (key x = key r \<and> live x)"
      using unique_live_eq [OF Cons.prems(1), of x r] False r Cons.prems(3) by auto
    moreover have "unique_live key live t"
      using Cons.prems(1) by (auto simp: unique_live_def split: if_splits)
    ultimately show ?thesis using Cons.IH r Cons.prems(3) by (auto simp: sql_select_def)
  qed
qed simp

section \<open>Lemmas\<close>

lemma uuid_text_ne [simp]: "uuid_text n \<noteq> []"
  by (subst uuid_text.simps) simp

lemma uuid_text_length_small: "length (uuid_text n) = 1 \<longleftrightarrow> n < 10"
  by (subst uuid_text.simps) auto

lemma uuid_digit_inj: "a < 10 \<Longrightarrow> b < 10 \<Longrightarrow> (char_of (48 + a) :: char) = char_of (48 + b) \<Longrightarrow> a = (b :: nat)"
proof -
  assume a: "a < 10" and b: "b < 10" and eq: "(char_of (48 + a) :: char) = char_of (48 + b)"
  have "of_char (char_of (48 + a) :: char) = (48 + a :: nat)" using a by (simp add: of_char_of)
  moreover have "of_char (char_of (48 + b) :: char) = (48 + b :: nat)" using b by (simp add: of_char_of)
  ultimately show ?thesis using eq by simp
qed

lemma uuid_text_inj: "uuid_text m = uuid_text n \<Longrightarrow> m = n"
proof (induction m arbitrary: n rule: uuid_text.induct)
  case (1 m)
  have small: "m < 10 \<longleftrightarrow> n < 10" using "1.prems" uuid_text_length_small by metis
  show ?case
  proof (cases "m < 10")
    case True
    with small "1.prems" show ?thesis
      by (auto simp: uuid_text.simps [of m] uuid_text.simps [of n] intro: uuid_digit_inj)
  next
    case False
    with small "1.prems" have "uuid_text (m div 10) = uuid_text (n div 10)"
      and d: "(char_of (48 + m mod 10) :: char) = char_of (48 + n mod 10)"
      by (auto simp: uuid_text.simps [of m] uuid_text.simps [of n])
    then have "m div 10 = n div 10" using "1.IH" False by blast
    moreover have "m mod 10 = n mod 10" by (rule uuid_digit_inj [OF _ _ d]) simp_all
    ultimately show ?thesis by (metis div_mult_mod_eq)
  qed
qed

lemma appendLog_Inr:
  "le_stage v \<noteq> [] \<Longrightarrow> le_outcome v \<noteq> [] \<Longrightarrow>
   \<exists>row. appendLog pg v db =
     (Inr row, db\<lparr>next_uuid := Suc (next_uuid db), processing_log := processing_log db @ [row]\<rparr>)
     \<and> pl_call_id row = le_callId v \<and> pl_stage row = le_stage v \<and> pl_outcome row = le_outcome v"
  by (simp add: appendLog_def Let_def)

end
