(* ===== verification/Alert_Repo.thy ===== *)
theory Alert_Repo
  imports Tables
begin

text \<open>
  \<^verbatim>\<open>src/src/db/repositories/alert-events-repo.ts\<close>: alerts deduplicated while unacknowledged, their
  acknowledgement, and the claim / delivered / failed bookkeeping of delivery.  The partial unique
  index on \<^verbatim>\<open>dedup_key WHERE acknowledged_at IS NULL\<close> is the invariant \<open>alerts_deduped\<close>.
\<close>

record alert_insert =
  ai_errorCode :: string
  ai_rootCauseCategory :: string
  ai_severity :: severity
  ai_dedupKey :: string
  ai_failureSnapshot :: "json option"

definition unacknowledged :: "alert_event_row \<Rightarrow> bool" where
  "unacknowledged r \<longleftrightarrow> ae_acknowledged_at r = None"

definition new_alert :: "pg \<Rightarrow> uuid \<Rightarrow> alert_insert \<Rightarrow> alert_event_row" where
  "new_alert pg i v =
     \<lparr>ae_id = i, ae_error_code = ai_errorCode v, ae_root_cause_category = ai_rootCauseCategory v,
      ae_severity = ai_severity v, ae_dedup_key = ai_dedupKey v, ae_acknowledged_at = None,
      ae_created_at = pg_now pg,
      ae_failure_snapshot =
        (case toJsonParam (ai_failureSnapshot v) of None \<Rightarrow> JObj [] | Some j \<Rightarrow> j),
      ae_delivery_state = DS_pending, ae_delivery_attempts = 0, ae_next_attempt_at = pg_now pg,
      ae_delivered_at = None, ae_last_delivery_error = None\<rparr>"

definition recordAlertWithInsertStatus :: "pg \<Rightarrow> alert_insert \<Rightarrow> (alert_event_row \<times> bool) dbop" where
  "recordAlertWithInsertStatus pg v db =
     (if ai_errorCode v = [] \<or> ai_rootCauseCategory v = [] \<or> ai_dedupKey v = []
      then (Inl (DalError DAL_VALIDATION_FAILED), db)
      else if sql_exists (\<lambda>r. ae_dedup_key r = ai_dedupKey v \<and> unacknowledged r) (alert_events db)
      then (case first_row (sql_select (\<lambda>r. ae_dedup_key r = ai_dedupKey v \<and> unacknowledged r)
                 (alert_events db)) of
              Some row \<Rightarrow> (Inr (row, False), db)
            | None \<Rightarrow> (Inl (DalError DAL_VALIDATION_FAILED), db))
      else
        let row = new_alert pg (next_uuid db) v
        in (Inr (row, True), db\<lparr>next_uuid := Suc (next_uuid db), alert_events := alert_events db @ [row]\<rparr>))"

definition recordAlert :: "pg \<Rightarrow> alert_insert \<Rightarrow> alert_event_row dbop" where
  "recordAlert pg v = op_bind (recordAlertWithInsertStatus pg v) (\<lambda>(row, _). op_return row)"

text \<open>The acknowledging UPDATEs; each returns the number of rows it acknowledged.\<close>

definition ack_alert :: "pg \<Rightarrow> alert_event_row \<Rightarrow> alert_event_row" where
  "ack_alert pg r = r\<lparr>ae_acknowledged_at := Some (pg_now pg)\<rparr>"

definition acknowledge_where :: "pg \<Rightarrow> (alert_event_row \<Rightarrow> bool) \<Rightarrow> nat dbop" where
  "acknowledge_where pg p db =
     (Inr (length (sql_updated p (ack_alert pg) (alert_events db))),
      db\<lparr>alert_events := sql_update p (ack_alert pg) (alert_events db)\<rparr>)"

definition acknowledgeAlert :: "pg \<Rightarrow> string \<Rightarrow> nat dbop" where
  "acknowledgeAlert pg dedupKey =
     acknowledge_where pg (\<lambda>r. ae_dedup_key r = dedupKey \<and> unacknowledged r)"

definition alert_call_id :: "pg \<Rightarrow> alert_event_row \<Rightarrow> string option" where
  "alert_call_id pg r =
     Option.bind (json_get (ae_failure_snapshot r) ''context'') (\<lambda>c. json_get_text pg c ''call_id'')"

definition acknowledgeAlertsForCall :: "pg \<Rightarrow> string \<Rightarrow> nat dbop" where
  "acknowledgeAlertsForCall pg callId =
     acknowledge_where pg (\<lambda>r. unacknowledged r \<and> alert_call_id pg r = Some callId)"

definition stalled_terminal :: "db \<Rightarrow> alert_event_row \<Rightarrow> bool" where
  "stalled_terminal db a \<longleftrightarrow>
     ae_error_code a = ''REVIEW_QUEUE_STALLED'' \<and> unacknowledged a
     \<and> sql_exists (\<lambda>r. ae_dedup_key a = ''REVIEW_QUEUE_STALLED:review_queue:'' @ uuid_text (rq_id r)
          \<and> rq_status r \<in> {RS_resolved, RS_unresolvable}) (review_queue db)"

definition acknowledgeStalledAlertsForTerminalReviews :: "pg \<Rightarrow> nat dbop" where
  "acknowledgeStalledAlertsForTerminalReviews pg db = acknowledge_where pg (stalled_terminal db) db"

definition open_for_completed :: "pg \<Rightarrow> db \<Rightarrow> alert_event_row \<Rightarrow> bool" where
  "open_for_completed pg db a \<longleftrightarrow>
     unacknowledged a
     \<and> sql_exists (\<lambda>cs. alert_call_id pg a = Some (cs_call_id cs) \<and> cs_status cs = ''completed'') (call_state db)"

definition acknowledgeAlertsForCompletedCalls :: "pg \<Rightarrow> nat dbop" where
  "acknowledgeAlertsForCompletedCalls pg db = acknowledge_where pg (open_for_completed pg db) db"

text \<open>The dry-run counts join the alert with the call or review row: one result row per pair.\<close>

definition countAlertsForCompletedCallsOpen :: "pg \<Rightarrow> db \<Rightarrow> nat" where
  "countAlertsForCompletedCallsOpen pg db =
     length [(a, cs) \<leftarrow> List.product (alert_events db) (call_state db).
       alert_call_id pg a = Some (cs_call_id cs) \<and> unacknowledged a \<and> cs_status cs = ''completed'']"

definition countTerminalReviewStalledOpen :: "db \<Rightarrow> nat" where
  "countTerminalReviewStalledOpen db =
     length [(a, r) \<leftarrow> List.product (alert_events db) (review_queue db).
       ae_dedup_key a = ''REVIEW_QUEUE_STALLED:review_queue:'' @ uuid_text (rq_id r)
       \<and> ae_error_code a = ''REVIEW_QUEUE_STALLED'' \<and> unacknowledged a
       \<and> rq_status r \<in> {RS_resolved, RS_unresolvable}]"

definition listActive :: "db \<Rightarrow> alert_event_row list" where
  "listActive db = sort_key ae_created_at (sql_select unacknowledged (alert_events db))"

definition recentUnacknowledged :: "nat \<Rightarrow> db \<Rightarrow> alert_event_row list" where
  "recentUnacknowledged limit db =
     take limit (sort_key (\<lambda>r. - ae_created_at r) (sql_select unacknowledged (alert_events db)))"

definition latestActive :: "db \<Rightarrow> alert_event_row option" where
  "latestActive db = first_row (recentUnacknowledged 1 db)"

text \<open>Delivery.\<close>

definition delivery_owed :: "alert_event_row \<Rightarrow> bool" where
  "delivery_owed r \<longleftrightarrow> ae_delivery_state r \<in> {DS_pending, DS_failed}"

definition listRetryable :: "int \<Rightarrow> nat \<Rightarrow> db \<Rightarrow> alert_event_row list" where
  "listRetryable now maxAttempts db =
     sort_key ae_created_at (sql_select
       (\<lambda>r. delivery_owed r \<and> ae_next_attempt_at r \<le> now \<and> ae_delivery_attempts r < maxAttempts)
       (alert_events db))"

definition claimable :: "uuid \<Rightarrow> nat \<Rightarrow> nat \<Rightarrow> alert_event_row \<Rightarrow> bool" where
  "claimable i expectedAttempts maxAttempts r \<longleftrightarrow>
     ae_id r = i \<and> delivery_owed r \<and> ae_delivery_attempts r = expectedAttempts
     \<and> ae_delivery_attempts r < maxAttempts"

definition claim_alert :: "int \<Rightarrow> alert_event_row \<Rightarrow> alert_event_row" where
  "claim_alert leaseUntil r =
     r\<lparr>ae_delivery_attempts := ae_delivery_attempts r + 1, ae_next_attempt_at := leaseUntil\<rparr>"

definition claimAlertForDelivery ::
    "uuid \<Rightarrow> nat \<Rightarrow> nat \<Rightarrow> int \<Rightarrow> alert_event_row list \<Rightarrow> alert_event_row option \<times> alert_event_row list" where
  "claimAlertForDelivery i expectedAttempts maxAttempts leaseUntil t =
     (let p = claimable i expectedAttempts maxAttempts in
      (first_row (sql_updated p (claim_alert leaseUntil) t), sql_update p (claim_alert leaseUntil) t))"

definition markDelivered ::
    "pg \<Rightarrow> uuid \<Rightarrow> alert_event_row list \<Rightarrow> alert_event_row option \<times> alert_event_row list" where
  "markDelivered pg i t =
     (let p = (\<lambda>r. ae_id r = i \<and> ae_delivery_state r \<noteq> DS_delivered);
          f = (\<lambda>r. r\<lparr>ae_delivery_state := DS_delivered, ae_delivered_at := Some (pg_now pg),
                     ae_last_delivery_error := None\<rparr>)
      in (first_row (sql_updated p f t), sql_update p f t))"

definition markFailed ::
    "uuid \<Rightarrow> int \<Rightarrow> string \<Rightarrow> alert_event_row list \<Rightarrow> alert_event_row option \<times> alert_event_row list" where
  "markFailed i nextAttemptAt error t =
     (let p = (\<lambda>r. ae_id r = i \<and> ae_delivery_state r \<noteq> DS_delivered);
          f = (\<lambda>r. r\<lparr>ae_delivery_state := DS_failed, ae_next_attempt_at := nextAttemptAt,
                     ae_last_delivery_error := Some error\<rparr>)
      in (first_row (sql_updated p f t), sql_update p f t))"

section \<open>The deduplication index\<close>

definition alerts_deduped :: "db \<Rightarrow> bool" where
  "alerts_deduped db \<longleftrightarrow> unique_live ae_dedup_key unacknowledged (alert_events db)"

interpretation ack_narrows: narrowing_update ae_dedup_key unacknowledged "ack_alert pg" for pg
  by unfold_locales (simp_all add: ack_alert_def unacknowledged_def)

interpretation claim_narrows: narrowing_update ae_dedup_key unacknowledged "claim_alert t" for t
  by unfold_locales (simp_all add: claim_alert_def unacknowledged_def)

lemma acknowledge_where_deduped:
  "alerts_deduped db \<Longrightarrow> acknowledge_where pg p db = (r, db') \<Longrightarrow> alerts_deduped db'"
  by (auto simp: alerts_deduped_def acknowledge_where_def intro: ack_narrows.update_unique_live)

lemma acknowledge_where_clears:
  "acknowledge_where pg p db = (r, db') \<Longrightarrow> a \<in> set (alert_events db') \<Longrightarrow> unacknowledged a \<Longrightarrow>
   a \<in> set (alert_events db) \<and> \<not> p a"
  by (auto simp: acknowledge_where_def set_sql_update ack_alert_def unacknowledged_def)

lemma recordAlert_deduped:
  assumes "alerts_deduped db" "recordAlertWithInsertStatus pg v db = (r, db')"
  shows "alerts_deduped db'"
proof (cases "sql_exists (\<lambda>r. ae_dedup_key r = ai_dedupKey v \<and> unacknowledged r) (alert_events db)")
  case True
  with assms show ?thesis
    by (auto simp: recordAlertWithInsertStatus_def split: if_splits option.splits)
next
  case False
  have "unique_live ae_dedup_key unacknowledged (alert_events db @ [new_alert pg (next_uuid db) v])"
    using assms(1) False by (intro unique_live_insert) (auto simp: alerts_deduped_def new_alert_def)
  with assms False show ?thesis
    by (auto simp: recordAlertWithInsertStatus_def alerts_deduped_def Let_def split: if_splits)
qed

text \<open>A repeat of a still-open incident adds nothing and returns the live row.\<close>

lemma recordAlert_repeat:
  assumes "recordAlertWithInsertStatus pg v db = (Inr (row, b), db')"
    and "ai_dedupKey v' = ai_dedupKey v" "ai_errorCode v' \<noteq> []" "ai_rootCauseCategory v' \<noteq> []"
    and "alerts_deduped db"
  shows "recordAlertWithInsertStatus pg' v' db' = (Inr (row, False), db')"
proof -
  let ?p = "\<lambda>r. ae_dedup_key r = ai_dedupKey v \<and> unacknowledged r"
  have key: "ai_dedupKey v \<noteq> []" using assms(1) by (auto simp: recordAlertWithInsertStatus_def)
  have row: "row \<in> set (alert_events db') \<and> ?p row"
  proof (cases "sql_exists ?p (alert_events db)")
    case True
    with assms(1) have "first_row (sql_select ?p (alert_events db)) = Some row" and "db' = db"
      by (auto simp: recordAlertWithInsertStatus_def split: if_splits option.splits)
    then show ?thesis by (auto dest!: first_row_Some simp: sql_select_def)
  next
    case False
    with assms(1) show ?thesis
      by (auto simp: recordAlertWithInsertStatus_def Let_def new_alert_def unacknowledged_def split: if_splits)
  qed
  have "alerts_deduped db'" using recordAlert_deduped [OF assms(5,1)] .
  then have "sql_select ?p (alert_events db') = [row]"
    using unique_live_select [of ae_dedup_key unacknowledged "alert_events db'" row] row
    by (auto simp: alerts_deduped_def)
  moreover have "sql_exists ?p (alert_events db')" using row by (auto simp: sql_exists_iff)
  ultimately show ?thesis using assms(2-4) key by (simp add: recordAlertWithInsertStatus_def)
qed

section \<open>Claims are exclusive\<close>

lemma claim_alert_simps [simp]:
  "ae_id (claim_alert l r) = ae_id r"
  "ae_delivery_attempts (claim_alert l r) = Suc (ae_delivery_attempts r)"
  "ae_delivery_state (claim_alert l r) = ae_delivery_state r"
  by (simp_all add: claim_alert_def)

lemma claim_Some:
  "claimAlertForDelivery i e m l t = (Some r, t') \<Longrightarrow>
   \<exists>r0 \<in> set t. claimable i e m r0 \<and> r = claim_alert l r0"
  by (auto simp: claimAlertForDelivery_def Let_def sql_updated_def dest!: first_row_Some)

lemma claim_None: "claimAlertForDelivery i e m l t = (None, t') \<Longrightarrow> t' = t"
  by (auto simp: claimAlertForDelivery_def Let_def sql_updated_Nil intro: sql_update_id)

text \<open>The row claimed at an attempt count cannot be claimed at that count again.\<close>

lemma claim_once:
  assumes "claimAlertForDelivery i e m l t = (Some r, t')"
  shows "fst (claimAlertForDelivery i e m' l' t') = None"
proof -
  have em: "e < m" using claim_Some [OF assms] by (auto simp: claimable_def)
  have t': "t' = sql_update (claimable i e m) (claim_alert l) t"
    using assms by (simp add: claimAlertForDelivery_def Let_def)
  have "\<not> claimable i e m' x" if "x \<in> set t'" for x
  proof -
    consider "\<not> claimable i e m x" | y where "claimable i e m y" "x = claim_alert l y"
      using \<open>x \<in> set t'\<close> unfolding t' set_sql_update by blast
    then show ?thesis
    proof cases
      case 1
      with em show ?thesis by (auto simp: claimable_def)
    next
      case 2
      then have "ae_delivery_attempts x = Suc e" by (simp add: claimable_def)
      then show ?thesis by (simp add: claimable_def)
    qed
  qed
  then show ?thesis by (simp add: claimAlertForDelivery_def Let_def sql_updated_Nil)
qed

end
