(* ===== verification/Js_Date.thy ===== *)
theory Js_Date
  imports Tables
begin

text \<open>
  \<^verbatim>\<open>Date.prototype.toISOString\<close> of the JavaScript standard library on an instant in milliseconds:
  the proleptic Gregorian date of the day number, then the time of day.
\<close>

definition civil_from_days :: "int \<Rightarrow> int \<times> int \<times> int" where
  "civil_from_days days =
     (let z = days + 719468; era = z div 146097; doe = z mod 146097;
          yoe = (doe - doe div 1460 + doe div 36524 - doe div 146096) div 365;
          doy = doe - (365 * yoe + yoe div 4 - yoe div 100);
          mp = (5 * doy + 2) div 153;
          d = doy - (153 * mp + 2) div 5 + 1;
          m = (if mp < 10 then mp + 3 else mp - 9)
      in (yoe + era * 400 + (if m \<le> 2 then 1 else 0), m, d))"

definition pad_int :: "nat \<Rightarrow> int \<Rightarrow> string" where
  "pad_int w n = (let s = uuid_text (nat n) in replicate (w - length s) CHR ''0'' @ s)"

definition iso_year :: "int \<Rightarrow> string" where
  "iso_year y = (if 0 \<le> y \<and> y \<le> 9999 then pad_int 4 y
                 else if 0 \<le> y then ''+'' @ pad_int 6 y else ''-'' @ pad_int 6 (- y))"

definition toISODate :: "int \<Rightarrow> string" where
  "toISODate ms =
     (case civil_from_days (ms div 86400000) of (y, m, d) \<Rightarrow>
        iso_year y @ ''-'' @ pad_int 2 m @ ''-'' @ pad_int 2 d)"

definition toISOString :: "int \<Rightarrow> string" where
  "toISOString ms =
     (let t = ms mod 86400000 in
      toISODate ms @ ''T'' @ pad_int 2 (t div 3600000) @ '':'' @ pad_int 2 (t div 60000 mod 60) @ '':''
        @ pad_int 2 (t div 1000 mod 60) @ ''.'' @ pad_int 3 (t mod 1000) @ ''Z'')"

lemma toISOString_epoch: "toISOString 0 = ''1970-01-01T00:00:00.000Z''"
  by code_simp

lemma toISOString_sample: "toISOString 1792281600123 = ''2026-10-18T00:00:00.123Z''"
  by code_simp

end
