(* ===== verification/Failure_Model.thy ===== *)
theory Failure_Model
  imports Failure_Catalog Alert_Repo Js_Date
begin

text \<open>
  The dynamic half of the failure model: context sanitisation and the validated failure object
  (\<^verbatim>\<open>error.ts\<close>), the dedup key (\<^verbatim>\<open>dedup.ts\<close>), the persisted snapshot (\<^verbatim>\<open>snapshot.ts\<close>), the alert text
  (\<^verbatim>\<open>alert.ts\<close>, \<^verbatim>\<open>render-row.ts\<close>) and escalation (\<^verbatim>\<open>escalation.ts\<close>), all under
  \<^verbatim>\<open>src/src/failure-model\<close>, with the content-field guard of \<^verbatim>\<open>src/src/logging/redaction.ts\<close>.  The
  datetime check of the schema library is the parameter \<open>zod_datetime\<close>.
\<close>

section \<open>Content fields\<close>

definition js_lower_char :: "char \<Rightarrow> char" where
  "js_lower_char c = (let n = of_char c :: nat in if 65 \<le> n \<and> n \<le> 90 then char_of (n + 32) else c)"

definition toLowerCase :: "string \<Rightarrow> string" where
  "toLowerCase s = map js_lower_char s"

definition CONTENT_FIELDS :: "string list" where
  "CONTENT_FIELDS =
     [''transcript'', ''transcript_text'', ''transcriptText'', ''content'', ''text'', ''body'', ''message'',
      ''audio'', ''recording'', ''recording_url'', ''recordingUrl'',
      ''pii'', ''name'', ''customer_name'', ''customer_email'', ''customer_phone'', ''email'', ''phone'',
      ''address'', ''ssn'',
      ''token'', ''secret'', ''password'', ''api_key'', ''apiKey'', ''dek'', ''kek'']"

definition isContentField :: "string \<Rightarrow> bool" where
  "isContentField key \<longleftrightarrow> toLowerCase key \<in> set (map toLowerCase CONTENT_FIELDS)"

text \<open>\<^verbatim>\<open>assertNoContentFields\<close> on a JSON value: the first content key found, if any.  JSON values are
  trees, so the cycle guard of the source has no work to do.\<close>

fun first_content_field :: "json \<Rightarrow> string option"
  and first_content_item :: "json list \<Rightarrow> string option"
  and first_content_entry :: "(string \<times> json) list \<Rightarrow> string option" where
  "first_content_field (JArr xs) = first_content_item xs"
| "first_content_field (JObj kvs) = first_content_entry kvs"
| "first_content_field _ = None"
| "first_content_item [] = None"
| "first_content_item (x # xs) =
     (case first_content_field x of Some f \<Rightarrow> Some f | None \<Rightarrow> first_content_item xs)"
| "first_content_entry [] = None"
| "first_content_entry ((k, v) # kvs) =
     (if isContentField k then Some k
      else case first_content_field v of Some f \<Rightarrow> Some f | None \<Rightarrow> first_content_entry kvs)"

definition assertNoContentFields :: "json \<Rightarrow> string + unit" where
  "assertNoContentFields v = (case first_content_field v of None \<Rightarrow> Inr () | Some f \<Rightarrow> Inl f)"

section \<open>The failure object\<close>

type_synonym fail_context = "(string \<times> string) list"

definition MAX_CONTEXT_VALUE_LENGTH :: nat where "MAX_CONTEXT_VALUE_LENGTH = 256"

definition CONTEXT_KEYS :: "string list" where
  "CONTEXT_KEYS = [''call_id'', ''job_id'', ''environment'', ''stage'', ''component'']"

definition NODE_ENVS :: "string list" where
  "NODE_ENVS = [''development'', ''test'', ''staging'', ''production'']"

definition sanitize_entry :: "string \<times> string \<Rightarrow> fail_context \<Rightarrow> fail_context" where
  "sanitize_entry kv out =
     (let (key, value) = kv in
      if isContentField key then out
      else if key \<notin> set CONTEXT_KEYS then out
      else if key = ''call_id'' \<or> key = ''job_id'' then
        (let trimmed = js_trim value in
         if length trimmed = 0 \<or> length trimmed > MAX_CONTEXT_VALUE_LENGTH then out
         else obj_set key trimmed out)
      else if key = ''environment'' then (if value \<in> set NODE_ENVS then obj_set key value out else out)
      else if key = ''stage'' then (if isPipelineStage value then obj_set key value out else out)
      else if key = ''component'' then (if isValidComponent value then obj_set key value out else out)
      else out)"

definition sanitizeContext :: "fail_context \<Rightarrow> fail_context" where
  "sanitizeContext raw = fold sanitize_entry raw []"

record failure_fields =
  ff_error_code :: error_code
  ff_root_cause_category :: error_code
  ff_severity :: severity
  ff_impact :: string
  ff_processing_state :: processing_state
  ff_remediation_now :: string
  ff_remediation_fix :: string
  ff_data_safe :: bool
  ff_calls_state :: calls_state
  ff_owner :: string
  ff_runbook_ref :: string
  ff_context :: fail_context

text \<open>The refinement of \<^verbatim>\<open>failureFieldsSchema\<close>: the catalog-derived fields agree with the catalog.\<close>

definition matches_catalog :: "failure_fields \<Rightarrow> bool" where
  "matches_catalog f \<longleftrightarrow>
     (let e = REMEDIATION_CATALOG (ff_error_code f) in
      ff_root_cause_category f = ce_rootCauseCategory e \<and> ff_impact f = ce_impact e
      \<and> ff_remediation_now f = ce_remediationNow e \<and> ff_remediation_fix f = ce_remediationFix e
      \<and> ff_data_safe f = ce_dataSafe e \<and> ff_calls_state f = ce_callsState e
      \<and> ff_owner f = ce_owner e \<and> ff_runbook_ref f = ce_runbookRef e)"

definition failureFields_parse :: "failure_fields \<Rightarrow> failure_fields option" where
  "failureFields_parse f =
     (if ff_impact f = [] \<or> ff_remediation_now f = [] \<or> ff_remediation_fix f = [] \<or> ff_owner f = []
         \<or> ff_runbook_ref f = [] then None
      else let g = f\<lparr>ff_context := sanitizeContext (ff_context f)\<rparr> in
           if matches_catalog g then Some g else None)"

definition createFailure ::
    "error_code \<Rightarrow> processing_state \<Rightarrow> fail_context option \<Rightarrow> severity option \<Rightarrow> failure_fields option" where
  "createFailure code processingState ctx severity =
     (let entry = catalogFor code in
      failureFields_parse
        \<lparr>ff_error_code = code, ff_root_cause_category = ce_rootCauseCategory entry,
         ff_severity = (case severity of None \<Rightarrow> severityFor code | Some s \<Rightarrow> s),
         ff_impact = ce_impact entry, ff_processing_state = processingState,
         ff_remediation_now = ce_remediationNow entry, ff_remediation_fix = ce_remediationFix entry,
         ff_data_safe = ce_dataSafe entry, ff_calls_state = ce_callsState entry,
         ff_owner = ce_owner entry, ff_runbook_ref = ce_runbookRef entry,
         ff_context = (case ctx of None \<Rightarrow> [] | Some c \<Rightarrow> c)\<rparr>)"

section \<open>Dedup key and snapshot\<close>

definition DEDUP_SCOPE_PRIORITY :: "string list" where
  "DEDUP_SCOPE_PRIORITY = [''call_id'', ''job_id'', ''component'', ''stage'', ''environment'']"

fun first_scope :: "fail_context \<Rightarrow> string list \<Rightarrow> (string \<times> string) option" where
  "first_scope ctx [] = None"
| "first_scope ctx (k # ks) = (case map_of ctx k of Some v \<Rightarrow> Some (k, v) | None \<Rightarrow> first_scope ctx ks)"

definition dedupKey :: "failure_fields \<Rightarrow> string" where
  "dedupKey f =
     (let code = error_code_name (ff_error_code f); ctx = sanitizeContext (ff_context f) in
      case first_scope ctx DEDUP_SCOPE_PRIORITY of
        Some (key, value) \<Rightarrow> code @ '':'' @ key @ '':'' @ value
      | None \<Rightarrow> code @ '':global'')"

definition failureSnapshot :: "failure_fields \<Rightarrow> json" where
  "failureSnapshot f = JObj
     [(''error_code'', JStr (error_code_name (ff_error_code f))),
      (''root_cause_category'', JStr (error_code_name (ff_root_cause_category f))),
      (''severity'', JStr (severity_name (ff_severity f))),
      (''impact'', JStr (ff_impact f)),
      (''processing_state'', JStr (processing_state_name (ff_processing_state f))),
      (''remediation_now'', JStr (ff_remediation_now f)),
      (''remediation_fix'', JStr (ff_remediation_fix f)),
      (''data_safe'', JBool (ff_data_safe f)),
      (''calls_state'', JStr (calls_state_name (ff_calls_state f))),
      (''owner'', JStr (ff_owner f)),
      (''runbook_ref'', JStr (ff_runbook_ref f)),
      (''context'', JObj (map (\<lambda>(k, v). (k, JStr v)) (ff_context f)))]"

section \<open>Alert text\<close>

record formatted_alert =
  fa_errorCode :: error_code
  fa_severity :: severity
  fa_whatBroke :: string
  fa_likelyRootCause :: string
  fa_impact :: string
  fa_immediateRemediation :: string
  fa_longerTermFix :: string
  fa_dataSafe :: bool
  fa_callsState :: calls_state
  fa_runbookRef :: string
  fa_timestamp :: string
  fa_environment :: string
  fa_affectedScope :: "string list"

definition SAME_AS_IMMEDIATE_TEXT :: string where
  "SAME_AS_IMMEDIATE_TEXT = ''Same as the immediate step.''"

definition formatted_json :: "formatted_alert \<Rightarrow> json" where
  "formatted_json a = JObj
     [(''errorCode'', JStr (error_code_name (fa_errorCode a))), (''severity'', JStr (severity_name (fa_severity a))),
      (''whatBroke'', JStr (fa_whatBroke a)), (''likelyRootCause'', JStr (fa_likelyRootCause a)),
      (''impact'', JStr (fa_impact a)), (''immediateRemediation'', JStr (fa_immediateRemediation a)),
      (''longerTermFix'', JStr (fa_longerTermFix a)), (''dataSafe'', JBool (fa_dataSafe a)),
      (''callsState'', JStr (calls_state_name (fa_callsState a))), (''runbookRef'', JStr (fa_runbookRef a)),
      (''timestamp'', JStr (fa_timestamp a)), (''environment'', JStr (fa_environment a)),
      (''affectedScope'', JArr (map JStr (fa_affectedScope a)))]"

definition formatAlert ::
    "(string \<Rightarrow> bool) \<Rightarrow> failure_fields \<Rightarrow> string \<Rightarrow> string \<Rightarrow> formatted_alert option" where
  "formatAlert zod_datetime error environment timestamp =
     (case failureFields_parse error of
        None \<Rightarrow> None
      | Some parsed \<Rightarrow>
          if environment \<notin> set NODE_ENVS \<or> \<not> zod_datetime timestamp then None
          else
            let catalog = catalogFor (ff_error_code parsed);
                formatted =
                  \<lparr>fa_errorCode = ff_error_code parsed, fa_severity = ff_severity parsed,
                   fa_whatBroke = ce_whatBroke catalog, fa_likelyRootCause = ce_likelyCause catalog,
                   fa_impact = ff_impact parsed, fa_immediateRemediation = ff_remediation_now parsed,
                   fa_longerTermFix =
                     (if ff_remediation_fix parsed = SAME_AS_IMMEDIATE then SAME_AS_IMMEDIATE_TEXT
                      else ff_remediation_fix parsed),
                   fa_dataSafe = ff_data_safe parsed, fa_callsState = ff_calls_state parsed,
                   fa_runbookRef = ff_runbook_ref parsed, fa_timestamp = timestamp,
                   fa_environment = environment,
                   fa_affectedScope =
                     filter (\<lambda>key. map_of (ff_context parsed) key \<noteq> None \<and> \<not> isContentField key)
                       DEDUP_SCOPE_PRIORITY\<rparr>
            in case assertNoContentFields (formatted_json formatted) of Inl _ \<Rightarrow> None | Inr _ \<Rightarrow> Some formatted)"

definition renderFormatted :: "formatted_alert \<Rightarrow> string" where
  "renderFormatted a = js_join [CHR 0x0A]
     [''['' @ severity_name (fa_severity a) @ ''] '' @ error_code_name (fa_errorCode a) @ '' in ''
        @ fa_environment a @ '' at '' @ fa_timestamp a,
      ''What broke: '' @ fa_whatBroke a,
      ''Likely root cause: '' @ fa_likelyRootCause a,
      ''Impact: '' @ fa_impact a,
      ''Immediate remediation: '' @ fa_immediateRemediation a,
      ''Longer-term fix: '' @ fa_longerTermFix a,
      ''Customer data safe: '' @ (if fa_dataSafe a then ''yes'' else ''no''),
      ''Calls: '' @ calls_state_name (fa_callsState a),
      ''Affected: '' @ (if length (fa_affectedScope a) > 0 then js_join '', '' (fa_affectedScope a) else ''none''),
      ''Runbook: '' @ fa_runbookRef a]"

definition renderAlertText ::
    "(string \<Rightarrow> bool) \<Rightarrow> failure_fields \<Rightarrow> string \<Rightarrow> string \<Rightarrow> string option" where
  "renderAlertText zod_datetime error environment timestamp =
     map_option renderFormatted (formatAlert zod_datetime error environment timestamp)"

section \<open>Rendering a persisted row\<close>

definition asObject :: "json \<Rightarrow> json_object" where
  "asObject v = (case v of JObj kvs \<Rightarrow> kvs | _ \<Rightarrow> [])"

definition json_str :: "json_object \<Rightarrow> string \<Rightarrow> string option" where
  "json_str ob k = (case map_of ob k of Some (JStr s) \<Rightarrow> Some s | _ \<Rightarrow> None)"

text \<open>\<^verbatim>\<open>z.record(z.string(), z.string())\<close>.\<close>

definition parse_context :: "json \<Rightarrow> fail_context option" where
  "parse_context j =
     (case j of
        JObj kvs \<Rightarrow>
          if list_all (\<lambda>(k, v). case v of JStr _ \<Rightarrow> True | _ \<Rightarrow> False) kvs
          then Some (map (\<lambda>(k, v). (k, case v of JStr s \<Rightarrow> s | _ \<Rightarrow> [])) kvs) else None
      | _ \<Rightarrow> None)"

text \<open>\<^verbatim>\<open>failureFieldsSchema.safeParse\<close> on a JSON object.\<close>

definition failureFields_safeParse :: "json_object \<Rightarrow> failure_fields option" where
  "failureFields_safeParse ob =
     (case (Option.bind (json_str ob ''error_code'') (parse_enum error_code_name ROOT_CAUSE_CATEGORIES),
            Option.bind (json_str ob ''root_cause_category'') (parse_enum error_code_name ROOT_CAUSE_CATEGORIES),
            Option.bind (json_str ob ''severity'') (parse_enum severity_name SEVERITY),
            Option.bind (json_str ob ''processing_state'') (parse_enum processing_state_name PROCESSING_STATE),
            Option.bind (json_str ob ''calls_state'') (parse_enum calls_state_name CALLS_STATE),
            (case map_of ob ''data_safe'' of Some (JBool b) \<Rightarrow> Some b | _ \<Rightarrow> None),
            (json_str ob ''impact'', json_str ob ''remediation_now'', json_str ob ''remediation_fix'',
             json_str ob ''owner'', json_str ob ''runbook_ref''),
            Option.bind (map_of ob ''context'') parse_context) of
        (Some code, Some category, Some severity, Some state, Some calls, Some safe,
         (Some impact, Some now, Some fix_text, Some owner, Some runbook), Some ctx) \<Rightarrow>
          failureFields_parse
            \<lparr>ff_error_code = code, ff_root_cause_category = category, ff_severity = severity,
             ff_impact = impact, ff_processing_state = state, ff_remediation_now = now,
             ff_remediation_fix = fix_text, ff_data_safe = safe, ff_calls_state = calls, ff_owner = owner,
             ff_runbook_ref = runbook, ff_context = ctx\<rparr>
      | _ \<Rightarrow> None)"

definition renderAlertEventText ::
    "(string \<Rightarrow> bool) \<Rightarrow> alert_event_row \<Rightarrow> string \<Rightarrow> int \<Rightarrow> string option" where
  "renderAlertEventText zod_datetime row environment now =
     (let timestamp = toISOString now; snapshot = asObject (ae_failure_snapshot row) in
      case failureFields_safeParse snapshot of
        Some direct \<Rightarrow> renderAlertText zod_datetime direct environment timestamp
      | None \<Rightarrow>
          (case parse_enum error_code_name ROOT_CAUSE_CATEGORIES (ae_error_code row) of
             None \<Rightarrow> None
           | Some code \<Rightarrow>
               let entry = catalogFor code;
                   state = Option.bind (json_str snapshot ''processing_state'')
                             (parse_enum processing_state_name PROCESSING_STATE);
                   ctx = parse_context (JObj (asObject (case map_of snapshot ''context'' of None \<Rightarrow> JNull | Some c \<Rightarrow> c)))
               in case ctx of
                    None \<Rightarrow> None
                  | Some c \<Rightarrow>
                      (case failureFields_parse
                         \<lparr>ff_error_code = code, ff_root_cause_category = ce_rootCauseCategory entry,
                          ff_severity = ae_severity row, ff_impact = ce_impact entry,
                          ff_processing_state = (case state of None \<Rightarrow> PST_degraded | Some s \<Rightarrow> s),
                          ff_remediation_now = ce_remediationNow entry,
                          ff_remediation_fix = ce_remediationFix entry, ff_data_safe = ce_dataSafe entry,
                          ff_calls_state = ce_callsState entry, ff_owner = ce_owner entry,
                          ff_runbook_ref = ce_runbookRef entry, ff_context = c\<rparr> of
                         None \<Rightarrow> None
                       | Some reconstructed \<Rightarrow>
                           renderAlertText zod_datetime reconstructed environment timestamp)))"

section \<open>Escalation\<close>

definition ESCALATION_PREFIX :: string where "ESCALATION_PREFIX = ''escalation:''"

text \<open>\<open>None\<close> is the throw on a window that is not positive (an integer window is finite).\<close>

definition shouldEscalate :: "alert_event_row \<Rightarrow> int \<Rightarrow> int \<Rightarrow> bool option" where
  "shouldEscalate alert now windowMs =
     (if windowMs \<le> 0 then None
      else Some (ae_severity alert = SEV_critical \<and> ae_acknowledged_at alert = None
                 \<and> now - ae_created_at alert \<ge> windowMs
                 \<and> \<not> (take (length ESCALATION_PREFIX) (ae_dedup_key alert) = ESCALATION_PREFIX)))"

definition escalation_insert :: "alert_event_row \<Rightarrow> alert_insert" where
  "escalation_insert row =
     \<lparr>ai_errorCode = ae_error_code row, ai_rootCauseCategory = ae_root_cause_category row,
      ai_severity = SEV_critical, ai_dedupKey = ESCALATION_PREFIX @ ae_dedup_key row,
      ai_failureSnapshot = Some (JObj
        [(''escalated_from'', JStr (ae_dedup_key row)),
         (''original_created_at'', JStr (toISOString (ae_created_at row)))])\<rparr>"

fun record_escalations :: "pg \<Rightarrow> alert_event_row list \<Rightarrow> (alert_event_row \<times> bool) list dbop" where
  "record_escalations pg [] = op_return []"
| "record_escalations pg (row # rows) =
     op_bind (recordAlertWithInsertStatus pg (escalation_insert row))
       (\<lambda>r. op_bind (record_escalations pg rows) (\<lambda>rs. op_return (r # rs)))"

datatype escalation_error = WindowNotPositive | EscalationDb db_error

definition escalateStaleAlertsWithInsertStatus ::
    "pg \<Rightarrow> int \<Rightarrow> int \<Rightarrow> db \<Rightarrow> (escalation_error + (alert_event_row \<times> bool) list) \<times> db" where
  "escalateStaleAlertsWithInsertStatus pg now windowMs db =
     (let active = listActive db in
      if active \<noteq> [] \<and> windowMs \<le> 0 then (Inl WindowNotPositive, db)
      else
        let stale = filter (\<lambda>a. shouldEscalate a now windowMs = Some True) active in
        case record_escalations pg stale db of
          (Inl e, db') \<Rightarrow> (Inl (EscalationDb e), db')
        | (Inr rs, db') \<Rightarrow> (Inr rs, db'))"

section \<open>Sanitised context\<close>

text \<open>An entry the sanitiser keeps as it is.\<close>

definition clean_entry :: "string \<times> string \<Rightarrow> bool" where
  "clean_entry kv \<longleftrightarrow>
     (let (k, v) = kv in
      k \<in> set CONTEXT_KEYS
      \<and> (k \<in> {''call_id'', ''job_id''} \<longrightarrow> js_trim v = v \<and> v \<noteq> [] \<and> length v \<le> MAX_CONTEXT_VALUE_LENGTH)
      \<and> (k = ''environment'' \<longrightarrow> v \<in> set NODE_ENVS)
      \<and> (k = ''stage'' \<longrightarrow> isPipelineStage v)
      \<and> (k = ''component'' \<longrightarrow> isValidComponent v))"

definition clean_context :: "fail_context \<Rightarrow> bool" where
  "clean_context c \<longleftrightarrow> distinct (map fst c) \<and> list_all clean_entry c"

lemma context_keys_not_content: "k \<in> set CONTEXT_KEYS \<Longrightarrow> \<not> isContentField k"
proof -
  have "list_all (\<lambda>k. \<not> isContentField k) CONTEXT_KEYS" by code_simp
  then show "k \<in> set CONTEXT_KEYS \<Longrightarrow> \<not> isContentField k" by (simp add: list_all_iff)
qed

lemma obj_set_all: "list_all P c \<Longrightarrow> P (k, v) \<Longrightarrow> list_all P (obj_set k v c)"
  by (induction k v c rule: obj_set.induct) auto

lemma obj_set_fresh: "k \<notin> fst ` set c \<Longrightarrow> obj_set k v c = c @ [(k, v)]"
  by (induction k v c rule: obj_set.induct) auto

lemma context_key_cases:
  assumes "k \<in> set CONTEXT_KEYS"
  obtains "k = ''call_id''" | "k = ''job_id''" | "k = ''environment''" | "k = ''stage''" | "k = ''component''"
  using assms unfolding CONTEXT_KEYS_def list.set insert_iff empty_iff by metis

lemma sanitize_entry_cases:
  "sanitize_entry kv out = out \<or> (\<exists>k v. clean_entry (k, v) \<and> sanitize_entry kv out = obj_set k v out)"
proof (cases kv)
  case (Pair key val)
  show ?thesis
  proof (cases "key \<in> set CONTEXT_KEYS")
    case True
    then have nc: "\<not> isContentField key" by (rule context_keys_not_content)
    have val: "sanitize_entry (key, val) out =
        (if key = ''call_id'' \<or> key = ''job_id'' then
           (if js_trim val = [] \<or> length (js_trim val) > MAX_CONTEXT_VALUE_LENGTH then out
            else obj_set key (js_trim val) out)
         else if key = ''environment'' then (if val \<in> set NODE_ENVS then obj_set key val out else out)
         else if key = ''stage'' then (if isPipelineStage val then obj_set key val out else out)
         else if key = ''component'' then (if isValidComponent val then obj_set key val out else out)
         else out)"
      using nc True by (simp add: sanitize_entry_def Let_def)
    have "clean_entry (key, if key = ''call_id'' \<or> key = ''job_id'' then js_trim val else val)
        \<or> sanitize_entry (key, val) out = out"
      unfolding val by (rule context_key_cases [OF True]) (simp_all add: clean_entry_def CONTEXT_KEYS_def)
    moreover have "sanitize_entry (key, val) out = out
        \<or> sanitize_entry (key, val) out = obj_set key (if key = ''call_id'' \<or> key = ''job_id'' then js_trim val else val) out"
      unfolding val by (rule context_key_cases [OF True]) simp_all
    ultimately show ?thesis using Pair by metis
  next
    case False
    then show ?thesis by (simp add: Pair sanitize_entry_def)
  qed
qed

lemma sanitize_entry_clean_context: "clean_context out \<Longrightarrow> clean_context (sanitize_entry kv out)"
  using sanitize_entry_cases [of kv out] by (auto simp: clean_context_def obj_set_distinct intro: obj_set_all)

lemma fold_sanitize_clean: "clean_context out \<Longrightarrow> clean_context (fold sanitize_entry raw out)"
  by (induction raw arbitrary: out) (auto intro: sanitize_entry_clean_context)

lemma sanitizeContext_clean: "clean_context (sanitizeContext raw)"
  unfolding sanitizeContext_def by (rule fold_sanitize_clean) (simp add: clean_context_def)

lemma sanitize_entry_keeps: "clean_entry (k, v) \<Longrightarrow> sanitize_entry (k, v) out = obj_set k v out"
proof -
  assume clean: "clean_entry (k, v)"
  then have k: "k \<in> set CONTEXT_KEYS" by (simp add: clean_entry_def)
  then have "\<not> isContentField k" by (rule context_keys_not_content)
  with clean k show ?thesis
    by (rule_tac context_key_cases [OF k]) (simp_all add: sanitize_entry_def clean_entry_def Let_def)
qed

lemma fold_sanitize_keeps:
  "clean_context c \<Longrightarrow> distinct (map fst (out @ c)) \<Longrightarrow> fold sanitize_entry c out = out @ c"
proof (induction c arbitrary: out)
  case (Cons kv c)
  obtain k v where kv: "kv = (k, v)" by force
  have "sanitize_entry kv out = out @ [(k, v)]"
    using Cons.prems by (simp add: kv clean_context_def sanitize_entry_keeps obj_set_fresh)
  with Cons kv show ?case by (simp add: clean_context_def)
qed simp

lemma sanitizeContext_fixed: "clean_context c \<Longrightarrow> sanitizeContext c = c"
  using fold_sanitize_keeps [of c "[]"] by (simp add: sanitizeContext_def clean_context_def)

lemma sanitizeContext_idem [simp]: "sanitizeContext (sanitizeContext raw) = sanitizeContext raw"
  by (simp add: sanitizeContext_fixed sanitizeContext_clean)

section \<open>Created failures\<close>

text \<open>The shape of every failure object that exists: what its constructor's schema accepts.\<close>

definition valid_failure :: "failure_fields \<Rightarrow> bool" where
  "valid_failure f \<longleftrightarrow> failureFields_parse f = Some f"

lemma matches_catalog_context [simp]: "matches_catalog (f\<lparr>ff_context := c\<rparr>) = matches_catalog f"
  by (simp add: matches_catalog_def Let_def)

lemma parse_valid: "failureFields_parse f = Some g \<Longrightarrow> valid_failure g"
  by (auto simp: valid_failure_def failureFields_parse_def Let_def split: if_splits)

lemma valid_failure_clean: "valid_failure f \<Longrightarrow> clean_context (ff_context f)"
proof -
  assume "valid_failure f"
  then have "f\<lparr>ff_context := sanitizeContext (ff_context f)\<rparr> = f"
    by (auto simp: valid_failure_def failureFields_parse_def Let_def split: if_splits)
  then have "ff_context f = sanitizeContext (ff_context f)"
    by (metis failure_fields.ext_inject failure_fields.surjective failure_fields.update_convs(12))
  then show ?thesis by (metis sanitizeContext_clean)
qed

lemma valid_failure_sanitized [simp]: "valid_failure f \<Longrightarrow> sanitizeContext (ff_context f) = ff_context f"
  by (simp add: sanitizeContext_fixed valid_failure_clean)

lemma createFailure_total:
  "\<exists>f. createFailure code st ctx sev = Some f \<and> valid_failure f \<and> ff_error_code f = code
     \<and> ff_processing_state f = st \<and> ff_severity f = (case sev of None \<Rightarrow> severityFor code | Some s \<Rightarrow> s)
     \<and> ff_context f = sanitizeContext (case ctx of None \<Rightarrow> [] | Some c \<Rightarrow> c)"
  using catalog_entry_ok [of code]
  by (simp add: createFailure_def Let_def failureFields_parse_def valid_failure_def matches_catalog_def
        entry_ok_def catalogFor_def)

section \<open>Snapshots parse back\<close>

lemma parse_context_strings: "parse_context (JObj (map (\<lambda>(k, v). (k, JStr v)) c)) = Some c"
proof -
  have "list_all (\<lambda>(k, v). case v of JStr _ \<Rightarrow> True | _ \<Rightarrow> False) (map (\<lambda>(k, v). (k, JStr v)) c)"
    by (simp add: list_all_iff case_prod_beta)
  moreover have "map (\<lambda>(k, v). (k, case v of JStr s \<Rightarrow> s | _ \<Rightarrow> [])) (map (\<lambda>(k, v). (k, JStr v)) c) = c"
    by (simp add: map_idI case_prod_beta)
  ultimately show ?thesis by (simp add: parse_context_def)
qed

lemma snapshot_lookup:
  "map_of (asObject (failureSnapshot f)) ''data_safe'' = Some (JBool (ff_data_safe f))"
  "map_of (asObject (failureSnapshot f)) ''context'' = Some (JObj (map (\<lambda>(k, v). (k, JStr v)) (ff_context f)))"
  "json_str (asObject (failureSnapshot f)) ''error_code'' = Some (error_code_name (ff_error_code f))"
  "json_str (asObject (failureSnapshot f)) ''root_cause_category'' = Some (error_code_name (ff_root_cause_category f))"
  "json_str (asObject (failureSnapshot f)) ''severity'' = Some (severity_name (ff_severity f))"
  "json_str (asObject (failureSnapshot f)) ''processing_state'' = Some (processing_state_name (ff_processing_state f))"
  "json_str (asObject (failureSnapshot f)) ''calls_state'' = Some (calls_state_name (ff_calls_state f))"
  "json_str (asObject (failureSnapshot f)) ''impact'' = Some (ff_impact f)"
  "json_str (asObject (failureSnapshot f)) ''remediation_now'' = Some (ff_remediation_now f)"
  "json_str (asObject (failureSnapshot f)) ''remediation_fix'' = Some (ff_remediation_fix f)"
  "json_str (asObject (failureSnapshot f)) ''owner'' = Some (ff_owner f)"
  "json_str (asObject (failureSnapshot f)) ''runbook_ref'' = Some (ff_runbook_ref f)"
  by (simp_all add: failureSnapshot_def asObject_def json_str_def)

lemma failureSnapshot_parse: "failureFields_safeParse (asObject (failureSnapshot f)) = failureFields_parse f"
  by (cases f) (simp add: failureFields_safeParse_def snapshot_lookup parse_context_strings error_code_v.parse_name
        severity_v.parse_name processing_state_v.parse_name calls_state_v.parse_name)

section \<open>Alert text\<close>

lemma formatted_no_content: "assertNoContentFields (formatted_json a) = Inr ()"
proof -
  have keys: "list_all (\<lambda>k. \<not> isContentField k)
      [''errorCode'', ''severity'', ''whatBroke'', ''likelyRootCause'', ''impact'', ''immediateRemediation'',
       ''longerTermFix'', ''dataSafe'', ''callsState'', ''runbookRef'', ''timestamp'', ''environment'',
       ''affectedScope'']"
    by code_simp
  have strs: "first_content_item (map JStr xs) = None" for xs by (induction xs) auto
  from keys strs show ?thesis by (simp add: assertNoContentFields_def formatted_json_def)
qed

text \<open>A valid failure always renders.\<close>

lemma renderAlertText_total:
  "valid_failure f \<Longrightarrow> environment \<in> set NODE_ENVS \<Longrightarrow> zod timestamp \<Longrightarrow>
   \<exists>t. renderAlertText zod f environment timestamp = Some t"
  by (simp add: renderAlertText_def formatAlert_def valid_failure_def Let_def formatted_no_content)

text \<open>The text depends on the context through the names of its keys only.\<close>

lemma renderAlertText_scope_only:
  assumes "\<And>k. map_of (sanitizeContext (ff_context f)) k = None \<longleftrightarrow> map_of (sanitizeContext c) k = None"
  shows "renderAlertText zod (f\<lparr>ff_context := c\<rparr>) environment timestamp = renderAlertText zod f environment timestamp"
  using assms
  by (simp add: renderAlertText_def formatAlert_def failureFields_parse_def Let_def matches_catalog_def
        formatted_no_content del: not_None_eq)

section \<open>Escalation\<close>

lemma record_escalations_deduped:
  "alerts_deduped db \<Longrightarrow> record_escalations pg rows db = (r, db') \<Longrightarrow> alerts_deduped db'"
proof (induction rows arbitrary: db r db')
  case (Cons row rows)
  obtain x db1 where first: "recordAlertWithInsertStatus pg (escalation_insert row) db = (x, db1)" by force
  with Cons.prems have ok1: "alerts_deduped db1" by (meson recordAlert_deduped)
  show ?case
  proof (cases x)
    case (Inl e)
    with first Cons.prems ok1 show ?thesis by (simp add: op_bind_def)
  next
    case (Inr y)
    obtain z db2 where rest: "record_escalations pg rows db1 = (z, db2)" by force
    with Cons.IH ok1 have "alerts_deduped db2" by blast
    with first rest Inr Cons.prems show ?thesis by (auto simp: op_bind_def op_return_def split: sum.splits)
  qed
qed (simp add: op_return_def)

definition open_key :: "string \<Rightarrow> db \<Rightarrow> bool" where
  "open_key k db \<longleftrightarrow> sql_exists (\<lambda>r. ae_dedup_key r = k \<and> unacknowledged r) (alert_events db)"

lemma recordAlert_effect:
  assumes "recordAlertWithInsertStatus pg v db = (Inr x, db')"
  shows "open_key (ai_dedupKey v) db' \<and> (\<exists>new. alert_events db' = alert_events db @ new
           \<and> (\<forall>a \<in> set new. ae_dedup_key a = ai_dedupKey v))
         \<and> (open_key (ai_dedupKey v) db \<longrightarrow> db' = db \<and> \<not> snd x)
         \<and> ai_errorCode v \<noteq> [] \<and> ai_rootCauseCategory v \<noteq> [] \<and> ai_dedupKey v \<noteq> []"
  using assms
  by (auto simp: recordAlertWithInsertStatus_def open_key_def Let_def new_alert_def unacknowledged_def
        sql_exists_iff split: if_splits option.splits)

lemma recordAlert_open:
  "open_key (ai_dedupKey v) db \<Longrightarrow> ai_errorCode v \<noteq> [] \<Longrightarrow> ai_rootCauseCategory v \<noteq> [] \<Longrightarrow> ai_dedupKey v \<noteq> [] \<Longrightarrow>
   \<exists>row. recordAlertWithInsertStatus pg v db = (Inr (row, False), db)"
  by (auto simp: recordAlertWithInsertStatus_def open_key_def sql_exists_iff sql_select_def filter_empty_conv
        split: option.splits)

lemma open_key_append: "alert_events db' = alert_events db @ new \<Longrightarrow> open_key k db \<Longrightarrow> open_key k db'"
  by (auto simp: open_key_def sql_exists_iff)

lemma record_escalations_effect:
  "record_escalations pg rows db = (Inr rs, db') \<Longrightarrow>
     (\<forall>row \<in> set rows. open_key (ESCALATION_PREFIX @ ae_dedup_key row) db'
        \<and> ae_error_code row \<noteq> [] \<and> ae_root_cause_category row \<noteq> [])
     \<and> (\<exists>new. alert_events db' = alert_events db @ new
          \<and> (\<forall>a \<in> set new. \<exists>k. ae_dedup_key a = ESCALATION_PREFIX @ k))"
proof (induction rows arbitrary: db rs)
  case (Cons row rows)
  then obtain x db1 rs1 where first: "recordAlertWithInsertStatus pg (escalation_insert row) db = (Inr x, db1)"
    and rest: "record_escalations pg rows db1 = (Inr rs1, db')"
    by (auto simp: op_bind_eq_Inr op_return_def)
  from recordAlert_effect [OF first] obtain new1 where
    k: "open_key (ESCALATION_PREFIX @ ae_dedup_key row) db1" "ae_error_code row \<noteq> []" "ae_root_cause_category row \<noteq> []"
    and n1: "alert_events db1 = alert_events db @ new1" "\<forall>a \<in> set new1. ae_dedup_key a = ESCALATION_PREFIX @ ae_dedup_key row"
    by (auto simp: escalation_insert_def)
  from Cons.IH [OF rest] obtain new2 where
    r: "\<forall>row \<in> set rows. open_key (ESCALATION_PREFIX @ ae_dedup_key row) db' \<and> ae_error_code row \<noteq> [] \<and> ae_root_cause_category row \<noteq> []"
    and n2: "alert_events db' = alert_events db1 @ new2" "\<forall>a \<in> set new2. \<exists>k. ae_dedup_key a = ESCALATION_PREFIX @ k"
    by blast
  have "open_key (ESCALATION_PREFIX @ ae_dedup_key row) db'" using open_key_append [OF n2(1)] k(1) by blast
  moreover have "\<forall>a \<in> set (new1 @ new2). \<exists>k. ae_dedup_key a = ESCALATION_PREFIX @ k" using n1(2) n2(2) by auto
  moreover have "alert_events db' = alert_events db @ (new1 @ new2)" using n1(1) n2(1) by simp
  ultimately show ?case using r k by (metis set_ConsD)
qed (simp add: op_return_def)

lemma record_escalations_repeat:
  assumes "\<forall>row \<in> set rows. open_key (ESCALATION_PREFIX @ ae_dedup_key row) db
             \<and> ae_error_code row \<noteq> [] \<and> ae_root_cause_category row \<noteq> []"
  shows "\<exists>rs. record_escalations pg rows db = (Inr rs, db) \<and> list_all (\<lambda>r. \<not> snd r) rs"
  using assms
proof (induction rows)
  case (Cons row rows)
  then obtain rs where rs: "record_escalations pg rows db = (Inr rs, db)" "list_all (\<lambda>r. \<not> snd r) rs" by auto
  obtain x where "recordAlertWithInsertStatus pg (escalation_insert row) db = (Inr (x, False), db)"
    using recordAlert_open [of "escalation_insert row" db pg] Cons.prems
    by (auto simp: escalation_insert_def ESCALATION_PREFIX_def)
  with rs show ?case by (simp add: op_bind_def op_return_def)
qed (simp add: op_return_def)

text \<open>A second run of the escalation at the same instant records nothing new.\<close>

lemma escalate_again:
  assumes run: "escalateStaleAlertsWithInsertStatus pg now w db = (Inr rs, db')"
  shows "\<exists>rs'. escalateStaleAlertsWithInsertStatus pg' now w db' = (Inr rs', db') \<and> list_all (\<lambda>r. \<not> snd r) rs'"
proof -
  let ?stale = "\<lambda>db. filter (\<lambda>a. shouldEscalate a now w = Some True) (listActive db)"
  have rec: "record_escalations pg (?stale db) db = (Inr rs, db')"
    using run by (auto simp: escalateStaleAlertsWithInsertStatus_def Let_def split: if_splits prod.splits sum.splits)
  from record_escalations_effect [OF rec] obtain new where
    keys: "\<forall>row \<in> set (?stale db). open_key (ESCALATION_PREFIX @ ae_dedup_key row) db'
        \<and> ae_error_code row \<noteq> [] \<and> ae_root_cause_category row \<noteq> []"
    and new: "alert_events db' = alert_events db @ new" "\<forall>a \<in> set new. \<exists>k. ae_dedup_key a = ESCALATION_PREFIX @ k"
    by blast
  have sub: "set (?stale db') \<subseteq> set (?stale db)"
    using new by (auto simp: listActive_def sql_select_def shouldEscalate_def split: if_splits)
  then have "\<exists>rs'. record_escalations pg' (?stale db') db' = (Inr rs', db') \<and> list_all (\<lambda>r. \<not> snd r) rs'"
    using keys by (intro record_escalations_repeat) blast
  moreover have "listActive db' = [] \<or> 0 < w"
  proof (cases "listActive db = []")
    case True
    then have "?stale db = []" by simp
    with rec have "db' = db" by (simp add: op_return_def)
    with True show ?thesis by simp
  next
    case False
    with run show ?thesis
      by (auto simp: escalateStaleAlertsWithInsertStatus_def Let_def not_le split: if_splits)
  qed
  ultimately show ?thesis by (auto simp: escalateStaleAlertsWithInsertStatus_def Let_def)
qed

end
