(* ===== verification/Alerting.thy ===== *)
theory Alerting
  imports Failure_Model
begin

text \<open>
  Alert delivery: \<^verbatim>\<open>src/src/alerting/webhook.ts\<close>, \<^verbatim>\<open>deliver.ts\<close>, \<^verbatim>\<open>emit.ts\<close> and \<^verbatim>\<open>sweep.ts\<close>.  The HTTP request
  itself is the parameter \<open>post\<close>, which sees the url, the text and the posts made before; every call
  of it is recorded in \<open>aw_posts\<close>, so the number of requests an alert causes can be counted.  The second
  half is the step relation of concurrent deliverers: claims, posts and bookkeeping of any number of
  processes interleave freely.
\<close>

section \<open>Transport errors\<close>

datatype webhook_error = AlertWebhookError string | OtherThrown string

definition sanitizeWebhookError :: "webhook_error \<Rightarrow> string" where
  "sanitizeWebhookError err =
     (case err of AlertWebhookError m \<Rightarrow> m | OtherThrown name \<Rightarrow> ''delivery error ('' @ name @ '')'')"

datatype fetch_outcome = FetchStatus nat | FetchThrew bool string

text \<open>\<^verbatim>\<open>httpPostAlert\<close> around the \<^verbatim>\<open>fetch\<close> it awaits: a status, or a throw with whether the timer aborted it.\<close>

definition httpPostAlert :: "(string \<Rightarrow> string \<Rightarrow> int \<Rightarrow> fetch_outcome) \<Rightarrow> string \<Rightarrow> string \<Rightarrow> int \<Rightarrow> webhook_error + unit" where
  "httpPostAlert fetch url text timeoutMs =
     (case fetch url text timeoutMs of
        FetchStatus s \<Rightarrow>
          if 200 \<le> s \<and> s \<le> 299 then Inr ()
          else Inl (AlertWebhookError (''alert webhook returned status '' @ uuid_text s))
      | FetchThrew aborted name \<Rightarrow>
          Inl (AlertWebhookError (''alert webhook unreachable ('' @ (if aborted then ''timeout'' else name) @ '')'')))"

section \<open>Delivery of one row\<close>

datatype delivery_outcome = Delivered | Failed | Skipped

record alert_config =
  ALERT_WEBHOOK_URL :: "string option"
  ALERT_WEBHOOK_TIMEOUT_MS :: int
  ALERT_DELIVERY_BACKOFF_MS :: int
  ALERT_DELIVERY_MAX_ATTEMPTS :: nat
  NODE_ENV :: string

record alert_world =
  aw_db :: db
  aw_posts :: "(uuid \<times> string) list"

text \<open>What delivery is handed: the schema library's datetime check, Postgres and the transport.\<close>

record deliver_deps =
  dd_zod_datetime :: "string \<Rightarrow> bool"
  dd_pg :: pg
  dd_now :: int
  dd_post :: "string \<Rightarrow> string \<Rightarrow> int \<Rightarrow> (uuid \<times> string) list \<Rightarrow> webhook_error + unit"

definition nextAttemptAt :: "alert_config \<Rightarrow> int \<Rightarrow> nat \<Rightarrow> int" where
  "nextAttemptAt config now attemptsSoFar = now + ALERT_DELIVERY_BACKOFF_MS config * 2 ^ min attemptsSoFar 20"

definition webhook_url :: "alert_config \<Rightarrow> string option" where
  "webhook_url config = (case ALERT_WEBHOOK_URL config of Some u \<Rightarrow> if u = [] then None else Some u | None \<Rightarrow> None)"

definition deliverAlertRow ::
    "alert_config \<Rightarrow> deliver_deps \<Rightarrow> alert_event_row \<Rightarrow> alert_world \<Rightarrow> delivery_outcome \<times> alert_world" where
  "deliverAlertRow config deps row w =
     (case webhook_url config of
        None \<Rightarrow> (Skipped, w)
      | Some url \<Rightarrow>
          let nextRetryAt = nextAttemptAt config (dd_now deps) (ae_delivery_attempts row);
              db = aw_db w;
              (claimed, t1) = claimAlertForDelivery (ae_id row) (ae_delivery_attempts row)
                                (ALERT_DELIVERY_MAX_ATTEMPTS config) nextRetryAt (alert_events db)
          in case claimed of
               None \<Rightarrow> (Skipped, w\<lparr>aw_db := db\<lparr>alert_events := t1\<rparr>\<rparr>)
             | Some c \<Rightarrow>
                 (case renderAlertEventText (dd_zod_datetime deps) c (NODE_ENV config) (dd_now deps) of
                    None \<Rightarrow>
                      (Failed, w\<lparr>aw_db := db\<lparr>alert_events :=
                         snd (markFailed (ae_id c) nextRetryAt ''unrenderable alert (ZodError)'' t1)\<rparr>\<rparr>)
                  | Some text \<Rightarrow>
                      let posts = aw_posts w @ [(ae_id c, text)] in
                      (case dd_post deps url text (ALERT_WEBHOOK_TIMEOUT_MS config) (aw_posts w) of
                         Inr _ \<Rightarrow>
                           (Delivered, \<lparr>aw_db = db\<lparr>alert_events := snd (markDelivered (dd_pg deps) (ae_id c) t1)\<rparr>,
                                        aw_posts = posts\<rparr>)
                       | Inl err \<Rightarrow>
                           (Failed, \<lparr>aw_db = db\<lparr>alert_events :=
                              snd (markFailed (ae_id c) nextRetryAt (sanitizeWebhookError err) t1)\<rparr>,
                                     aw_posts = posts\<rparr>))))"

section \<open>Emitting, retrying, escalating\<close>

definition MONITORED_ENVS :: "string list" where "MONITORED_ENVS = [''staging'', ''production'']"

text \<open>\<open>False\<close> is the thrown \<^verbatim>\<open>ConfigError\<close>.\<close>

definition requireAlertWebhookUrl :: "alert_config \<Rightarrow> bool" where
  "requireAlertWebhookUrl config \<longleftrightarrow> \<not> (NODE_ENV config \<in> set MONITORED_ENVS \<and> webhook_url config = None)"

record emit_alert_input =
  em_code :: error_code
  em_processingState :: processing_state
  em_context :: "fail_context option"
  em_severity :: "severity option"

record emit_alert_result =
  er_recorded :: bool
  er_inserted :: bool
  er_delivery :: "delivery_outcome option"

definition emit_insert :: "failure_fields \<Rightarrow> alert_insert" where
  "emit_insert failure =
     \<lparr>ai_errorCode = error_code_name (ff_error_code failure),
      ai_rootCauseCategory = error_code_name (ff_root_cause_category failure),
      ai_severity = ff_severity failure, ai_dedupKey = dedupKey failure,
      ai_failureSnapshot = Some (failureSnapshot failure)\<rparr>"

definition emitAlert ::
    "alert_config \<Rightarrow> deliver_deps \<Rightarrow> emit_alert_input \<Rightarrow> alert_world \<Rightarrow> emit_alert_result \<times> alert_world" where
  "emitAlert config deps input w =
     (let failed = \<lparr>er_recorded = False, er_inserted = False, er_delivery = None\<rparr> in
      case createFailure (em_code input) (em_processingState input) (em_context input) (em_severity input) of
        None \<Rightarrow> (failed, w)
      | Some failure \<Rightarrow>
          (case recordAlertWithInsertStatus (dd_pg deps) (emit_insert failure) (aw_db w) of
             (Inl _, db') \<Rightarrow> (failed, w\<lparr>aw_db := db'\<rparr>)
           | (Inr (row, inserted), db') \<Rightarrow>
               if \<not> inserted
               then (\<lparr>er_recorded = True, er_inserted = False, er_delivery = None\<rparr>, w\<lparr>aw_db := db'\<rparr>)
               else let (delivery, w') = deliverAlertRow config deps row (w\<lparr>aw_db := db'\<rparr>)
                    in (\<lparr>er_recorded = True, er_inserted = True, er_delivery = Some delivery\<rparr>, w')))"

record sweep_result =
  sw_attempted :: nat
  sw_delivered :: nat
  sw_failed :: nat
  sw_skipped :: nat

definition sweep_count :: "delivery_outcome \<Rightarrow> sweep_result \<Rightarrow> sweep_result" where
  "sweep_count outcome r =
     (let r1 = r\<lparr>sw_attempted := sw_attempted r + 1\<rparr> in
      case outcome of
        Delivered \<Rightarrow> r1\<lparr>sw_delivered := sw_delivered r1 + 1\<rparr>
      | Failed \<Rightarrow> r1\<lparr>sw_failed := sw_failed r1 + 1\<rparr>
      | Skipped \<Rightarrow> r1\<lparr>sw_skipped := sw_skipped r1 + 1\<rparr>)"

fun deliver_all ::
    "alert_config \<Rightarrow> deliver_deps \<Rightarrow> alert_event_row list \<Rightarrow> sweep_result \<times> alert_world \<Rightarrow> sweep_result \<times> alert_world" where
  "deliver_all config deps [] acc = acc"
| "deliver_all config deps (row # rows) (r, w) =
     (let (outcome, w') = deliverAlertRow config deps row w
      in deliver_all config deps rows (sweep_count outcome r, w'))"

definition retryPendingDeliveries ::
    "alert_config \<Rightarrow> deliver_deps \<Rightarrow> alert_world \<Rightarrow> sweep_result \<times> alert_world" where
  "retryPendingDeliveries config deps w =
     (let zero = \<lparr>sw_attempted = 0, sw_delivered = 0, sw_failed = 0, sw_skipped = 0\<rparr> in
      if webhook_url config = None then (zero, w)
      else deliver_all config deps
             (listRetryable (dd_now deps) (ALERT_DELIVERY_MAX_ATTEMPTS config) (aw_db w)) (zero, w))"

fun deliver_inserted ::
    "alert_config \<Rightarrow> deliver_deps \<Rightarrow> (alert_event_row \<times> bool) list \<Rightarrow> alert_world \<Rightarrow> alert_world" where
  "deliver_inserted config deps [] w = w"
| "deliver_inserted config deps ((row, inserted) # rs) w =
     deliver_inserted config deps rs (if inserted then snd (deliverAlertRow config deps row w) else w)"

definition escalateAndDeliver ::
    "alert_config \<Rightarrow> deliver_deps \<Rightarrow> int \<Rightarrow> alert_world \<Rightarrow> (escalation_error + alert_event_row list) \<times> alert_world" where
  "escalateAndDeliver config deps windowMs w =
     (case escalateStaleAlertsWithInsertStatus (dd_pg deps) (dd_now deps) windowMs (aw_db w) of
        (Inl e, db') \<Rightarrow> (Inl e, w\<lparr>aw_db := db'\<rparr>)
      | (Inr escalated, db') \<Rightarrow>
          (Inr (map fst escalated), deliver_inserted config deps escalated (w\<lparr>aw_db := db'\<rparr>)))"

section \<open>Interleaved deliverers\<close>

text \<open>
  The shared alert table, the posts made so far, and the claims whose holders have not posted yet.  A
  deliverer claims from any snapshot of a row it read before, however old; it may crash after its
  claim (the claim then stays open for ever); bookkeeping writes arrive in any order.
\<close>

record delivery_state_sys =
  ds_alerts :: "alert_event_row list"
  ds_posts :: "uuid list"
  ds_claims :: "uuid list"

inductive dstep :: "nat \<Rightarrow> delivery_state_sys \<Rightarrow> delivery_state_sys \<Rightarrow> bool" for maxAttempts :: nat where
  record_alert: "ae_delivery_attempts row = 0 \<Longrightarrow> ae_id row \<notin> ae_id ` set (ds_alerts s) \<Longrightarrow>
     dstep maxAttempts s (s\<lparr>ds_alerts := ds_alerts s @ [row]\<rparr>)"
| acknowledge: "dstep maxAttempts s (s\<lparr>ds_alerts := sql_update p (ack_alert pg) (ds_alerts s)\<rparr>)"
| claim: "claimAlertForDelivery i e maxAttempts lease (ds_alerts s) = (Some c, t) \<Longrightarrow>
     dstep maxAttempts s (s\<lparr>ds_alerts := t, ds_claims := i # ds_claims s\<rparr>)"
| lose: "claimAlertForDelivery i e maxAttempts lease (ds_alerts s) = (None, t) \<Longrightarrow>
     dstep maxAttempts s (s\<lparr>ds_alerts := t\<rparr>)"
| post: "i \<in> set (ds_claims s) \<Longrightarrow>
     dstep maxAttempts s (s\<lparr>ds_posts := i # ds_posts s, ds_claims := remove1 i (ds_claims s)\<rparr>)"
| delivered: "dstep maxAttempts s (s\<lparr>ds_alerts := snd (markDelivered pg i (ds_alerts s))\<rparr>)"
| failed: "dstep maxAttempts s (s\<lparr>ds_alerts := snd (markFailed i retryAt err (ds_alerts s))\<rparr>)"

definition attempts_of :: "uuid \<Rightarrow> alert_event_row list \<Rightarrow> nat" where
  "attempts_of i t = (case first_row (filter (\<lambda>r. ae_id r = i) t) of None \<Rightarrow> 0 | Some r \<Rightarrow> ae_delivery_attempts r)"

definition posts_bounded :: "nat \<Rightarrow> delivery_state_sys \<Rightarrow> bool" where
  "posts_bounded m s \<longleftrightarrow>
     distinct (map ae_id (ds_alerts s)) \<and> (\<forall>r \<in> set (ds_alerts s). ae_delivery_attempts r \<le> m)
     \<and> (\<forall>i. count_list (ds_posts s) i + count_list (ds_claims s) i \<le> attempts_of i (ds_alerts s))"

lemma attempts_of_update:
  assumes "\<And>r. ae_id (f r) = ae_id r"
  shows "attempts_of i (sql_update p f t) =
    (case first_row (filter (\<lambda>r. ae_id r = i) t) of None \<Rightarrow> 0
     | Some r \<Rightarrow> ae_delivery_attempts (if p r then f r else r))"
  using assms first_row_update [of ae_id f i p t]
  by (simp add: attempts_of_def sql_select_def split: option.splits)

lemma attempts_of_absent: "i \<notin> ae_id ` set t \<Longrightarrow> attempts_of i t = 0"
  by (auto simp: attempts_of_def filter_empty_conv split: option.splits dest!: first_row_Some)

lemma attempts_of_append: "ae_delivery_attempts row = 0 \<Longrightarrow> ae_id row \<notin> ae_id ` set t \<Longrightarrow>
    attempts_of i (t @ [row]) = attempts_of i t"
  by (cases "filter (\<lambda>r. ae_id r = i) t") (auto simp: attempts_of_def first_row_def)

lemma attempts_of_member:
  assumes "distinct (map ae_id t)" "r \<in> set t"
  shows "attempts_of (ae_id r) t = ae_delivery_attempts r"
proof -
  have "filter (\<lambda>x. ae_id x = ae_id r) t = [r]"
    using assms by (intro filter_key_unique [of ae_id]) auto
  then show ?thesis by (simp add: attempts_of_def)
qed

text \<open>Updates that keep ids and attempt counts keep the bound.\<close>

lemma posts_bounded_keep:
  assumes "posts_bounded m s" "\<And>r. ae_id (f r) = ae_id r" "\<And>r. ae_delivery_attempts (f r) = ae_delivery_attempts r"
  shows "posts_bounded m (s\<lparr>ds_alerts := sql_update p f (ds_alerts s)\<rparr>)"
proof -
  have "attempts_of i (sql_update p f (ds_alerts s)) = attempts_of i (ds_alerts s)" for i
    using assms(2,3) by (simp add: attempts_of_update) (simp add: attempts_of_def split: option.splits)
  with assms show ?thesis by (auto simp: posts_bounded_def map_sql_update set_sql_update)
qed

lemma claim_attempts:
  assumes "claimAlertForDelivery i e m l t = (Some c, t')" "distinct (map ae_id t)"
  shows "attempts_of i t' = Suc (attempts_of i t)" and "j \<noteq> i \<Longrightarrow> attempts_of j t' = attempts_of j t"
    and "map ae_id t' = map ae_id t"
    and "\<forall>r \<in> set t. ae_delivery_attempts r \<le> m \<Longrightarrow> \<forall>r \<in> set t'. ae_delivery_attempts r \<le> m"
proof -
  have t': "t' = sql_update (claimable i e m) (claim_alert l) t"
    using assms(1) by (simp add: claimAlertForDelivery_def Let_def)
  obtain r where r: "r \<in> set t" "claimable i e m r" using claim_Some [OF assms(1)] by blast
  have sel: "filter (\<lambda>x. ae_id x = i) t = [r]"
    using r assms(2) by (intro filter_key_unique [of ae_id]) (auto simp: claimable_def)
  show "attempts_of i t' = Suc (attempts_of i t)"
    unfolding t' using r sel by (subst attempts_of_update) (simp_all add: attempts_of_def)
  show "j \<noteq> i \<Longrightarrow> attempts_of j t' = attempts_of j t"
    unfolding t' by (subst attempts_of_update)
      (auto simp: attempts_of_def claimable_def split: option.splits dest!: first_row_Some)
  show "map ae_id t' = map ae_id t" unfolding t' by (simp add: map_sql_update)
  show "\<forall>r \<in> set t. ae_delivery_attempts r \<le> m \<Longrightarrow> \<forall>r \<in> set t'. ae_delivery_attempts r \<le> m"
    unfolding t' by (auto simp: set_sql_update claimable_def)
qed

lemma count_list_remove1: "i \<in> set xs \<Longrightarrow> count_list (remove1 i xs) j = count_list xs j - (if j = i then 1 else 0)"
  by (induction xs) auto

lemma dstep_bounded:
  assumes "dstep m s s'" "posts_bounded m s"
  shows "posts_bounded m s'"
  using assms
proof (cases rule: dstep.cases)
  case (record_alert row)
  then have "posts_bounded m s \<Longrightarrow> ?thesis" by (auto simp: posts_bounded_def attempts_of_append)
  with assms show ?thesis by blast
next
  case (acknowledge p pg)
  with assms show ?thesis by (auto simp: ack_alert_def intro: posts_bounded_keep)
next
  case (claim i e lease c t)
  have d: "distinct (map ae_id (ds_alerts s))" using assms(2) by (simp add: posts_bounded_def)
  have "claimAlertForDelivery i e m lease (ds_alerts s) = (Some c, t)" using claim by simp
  note c = claim_attempts [OF this d]
  have "count_list (ds_posts s) j + count_list (i # ds_claims s) j \<le> attempts_of j t" for j
    using assms(2) c(1) c(2) [of j] by (cases "j = i") (auto simp: posts_bounded_def)
  with claim c(3,4) assms(2) show ?thesis by (simp add: posts_bounded_def del: count_list.simps)
next
  case (lose i e lease t)
  then have "t = ds_alerts s" by (metis claim_None)
  with lose assms show ?thesis by simp
next
  case (post i)
  have "count_list (ds_claims s) i > 0" using post by (metis count_list_0_iff gr0I)
  with post assms(2) show ?thesis
    by (auto simp: posts_bounded_def count_list_remove1)
next
  case (delivered pg i)
  with assms show ?thesis by (auto simp: markDelivered_def Let_def intro: posts_bounded_keep)
next
  case (failed i retryAt err)
  with assms show ?thesis by (auto simp: markFailed_def Let_def intro: posts_bounded_keep)
qed

lemma dsteps_bounded: "(dstep m)\<^sup>*\<^sup>* s s' \<Longrightarrow> posts_bounded m s \<Longrightarrow> posts_bounded m s'"
  by (induction rule: rtranclp_induct) (auto intro: dstep_bounded)

lemma attempts_of_le: "posts_bounded m s \<Longrightarrow> attempts_of i (ds_alerts s) \<le> m"
  by (auto simp: attempts_of_def posts_bounded_def split: option.splits dest!: first_row_Some)

text \<open>No process claims a delivered alert again.\<close>

definition delivered_row :: "uuid \<Rightarrow> alert_event_row list \<Rightarrow> bool" where
  "delivered_row i t \<longleftrightarrow> i \<in> ae_id ` set t \<and> (\<forall>r \<in> set t. ae_id r = i \<longrightarrow> ae_delivery_state r = DS_delivered)"

lemma delivered_row_update:
  assumes "delivered_row i t" "\<And>r. ae_id (f r) = ae_id r"
    and "\<And>r. p r \<Longrightarrow> ae_delivery_state r = DS_delivered \<Longrightarrow> ae_delivery_state (f r) = DS_delivered"
  shows "delivered_row i (sql_update p f t)"
proof -
  have "ae_id ` set (sql_update p f t) = ae_id ` set t"
    using map_sql_update [of ae_id f p t] assms(2) by (metis list.set_map)
  then show ?thesis using assms by (auto simp: delivered_row_def set_sql_update)
qed

lemma delivered_unclaimable:
  "delivered_row i t \<Longrightarrow> fst (claimAlertForDelivery i e m l t) = None"
  by (auto simp: claimAlertForDelivery_def Let_def sql_updated_Nil claimable_def delivered_row_def delivery_owed_def)

lemma dstep_delivered:
  assumes "dstep m s s'" "delivered_row i (ds_alerts s)"
  shows "delivered_row i (ds_alerts s') \<and> count_list (ds_claims s') i \<le> count_list (ds_claims s) i"
  using assms
proof (cases rule: dstep.cases)
  case (record_alert row)
  with assms(2) show ?thesis by (auto simp: delivered_row_def image_iff)
next
  case (acknowledge p pg)
  with assms(2) show ?thesis by (auto simp: ack_alert_def intro: delivered_row_update)
next
  case (claim j e lease c t)
  then have "t = sql_update (claimable j e m) (claim_alert lease) (ds_alerts s)"
    by (simp add: claimAlertForDelivery_def Let_def)
  then have "delivered_row i t" using assms(2) by (auto intro: delivered_row_update)
  moreover have "j \<noteq> i" using claim(2) delivered_unclaimable [OF assms(2), of e m lease] by auto
  ultimately show ?thesis using claim by simp
next
  case (lose j e lease t)
  then have "t = ds_alerts s" by (metis claim_None)
  with lose assms(2) show ?thesis by simp
next
  case (post j)
  with assms(2) show ?thesis by (simp add: count_list_remove1)
next
  case (delivered pg j)
  with assms(2) show ?thesis by (auto simp: markDelivered_def Let_def intro: delivered_row_update)
next
  case (failed j retryAt err)
  with assms(2) show ?thesis by (auto simp: markFailed_def Let_def intro: delivered_row_update)
qed

text \<open>Delivery of one row is a run of the step relation.\<close>

definition delivery_sys :: "alert_world \<Rightarrow> uuid list \<Rightarrow> delivery_state_sys" where
  "delivery_sys w claims = \<lparr>ds_alerts = alert_events (aw_db w), ds_posts = rev (map fst (aw_posts w)), ds_claims = claims\<rparr>"

lemma deliverAlertRow_steps:
  assumes "deliverAlertRow config deps row w = (outcome, w')"
  shows "\<exists>claims'. (dstep (ALERT_DELIVERY_MAX_ATTEMPTS config))\<^sup>*\<^sup>* (delivery_sys w claims) (delivery_sys w' claims')"
proof (cases "webhook_url config")
  case None
  with assms show ?thesis by (auto simp: deliverAlertRow_def)
next
  case (Some url)
  let ?m = "ALERT_DELIVERY_MAX_ATTEMPTS config" and ?n = "nextAttemptAt config (dd_now deps) (ae_delivery_attempts row)"
  let ?t = "alert_events (aw_db w)" and ?P = "rev (map fst (aw_posts w))"
  obtain claimed t1 where cl: "claimAlertForDelivery (ae_id row) (ae_delivery_attempts row) ?m ?n ?t = (claimed, t1)" by force
  show ?thesis
  proof (cases claimed)
    case None
    then have "dstep ?m (delivery_sys w claims) (delivery_sys w' claims)"
      using dstep.lose [of "ae_id row" "ae_delivery_attempts row" ?m ?n "delivery_sys w claims" t1] cl assms Some
      by (auto simp: deliverAlertRow_def delivery_sys_def)
    then show ?thesis by blast
  next
    case (Some c)
    have idc: "ae_id c = ae_id row" using claim_Some [OF cl [unfolded Some]] by (auto simp: claimable_def)
    let ?s1 = "\<lparr>ds_alerts = t1, ds_posts = ?P, ds_claims = ae_id row # claims\<rparr>"
    have s1: "dstep ?m (delivery_sys w claims) ?s1"
      using dstep.claim [of "ae_id row" "ae_delivery_attempts row" ?m ?n "delivery_sys w claims" c t1] cl Some
      by (simp add: delivery_sys_def)
    let ?s2 = "\<lparr>ds_alerts = t1, ds_posts = ae_id row # ?P, ds_claims = claims\<rparr>"
    have s2: "dstep ?m ?s1 ?s2" using dstep.post [of "ae_id row" ?s1 ?m] by simp
    show ?thesis
    proof (cases "renderAlertEventText (dd_zod_datetime deps) c (NODE_ENV config) (dd_now deps)")
      case None
      have "dstep ?m ?s1 (delivery_sys w' (ae_id row # claims))"
        using dstep.failed [of ?m ?s1 "ae_id c" ?n "''unrenderable alert (ZodError)''"] assms Some None cl \<open>webhook_url config = Some url\<close>
        by (auto simp: deliverAlertRow_def delivery_sys_def)
      with s1 show ?thesis by (meson converse_rtranclp_into_rtranclp r_into_rtranclp)
    next
      case rendered: (Some body)
      have "\<exists>t'. dstep ?m ?s2 (delivery_sys w' claims)"
        using dstep.failed [of ?m ?s2 "ae_id c" ?n] dstep.delivered [of ?m ?s2 "dd_pg deps" "ae_id c"]
          assms Some rendered cl idc \<open>webhook_url config = Some url\<close>
        by (auto simp: deliverAlertRow_def delivery_sys_def Let_def split: sum.splits)
      with s1 s2 show ?thesis by (meson converse_rtranclp_into_rtranclp r_into_rtranclp)
    qed
  qed
qed

text \<open>A whole sweep is one too, and every row it looks at is counted once.\<close>

lemma deliver_all_steps:
  "deliver_all config deps rows (r, w) = (r', w') \<Longrightarrow>
   \<exists>claims'. (dstep (ALERT_DELIVERY_MAX_ATTEMPTS config))\<^sup>*\<^sup>* (delivery_sys w claims) (delivery_sys w' claims')"
proof (induction rows arbitrary: r w claims)
  case (Cons row rows)
  obtain o1 w1 where d: "deliverAlertRow config deps row w = (o1, w1)" by force
  obtain claims1 where c1: "(dstep (ALERT_DELIVERY_MAX_ATTEMPTS config))\<^sup>*\<^sup>* (delivery_sys w claims) (delivery_sys w1 claims1)"
    using deliverAlertRow_steps [OF d] by blast
  have "deliver_all config deps rows (sweep_count o1 r, w1) = (r', w')" using Cons.prems d by simp
  from Cons.IH [OF this, of claims1] c1 show ?case by (meson rtranclp_trans)
qed auto

lemma deliver_all_counts:
  "deliver_all config deps rows (r, w) = (r', w') \<Longrightarrow>
   sw_attempted r' = sw_attempted r + length rows
   \<and> sw_delivered r' + sw_failed r' + sw_skipped r' = sw_delivered r + sw_failed r + sw_skipped r + length rows"
proof (induction rows arbitrary: r w)
  case (Cons row rows)
  obtain o1 w1 where d: "deliverAlertRow config deps row w = (o1, w1)" by force
  have "deliver_all config deps rows (sweep_count o1 r, w1) = (r', w')" using Cons.prems d by simp
  from Cons.IH [OF this] show ?case by (cases o1) (auto simp: sweep_count_def Let_def)
qed auto

section \<open>Emission\<close>

text \<open>Delivery bookkeeping neither acknowledges an alert nor changes its key.\<close>

lemma open_key_update:
  assumes "\<And>r. ae_dedup_key (f r) = ae_dedup_key r" "\<And>r. ae_acknowledged_at (f r) = ae_acknowledged_at r"
  shows "open_key k (db\<lparr>alert_events := sql_update p f t\<rparr>) = open_key k (db\<lparr>alert_events := t\<rparr>)"
  using assms by (induction t) (auto simp: open_key_def sql_exists_def sql_update_def unacknowledged_def)

lemma deliverAlertRow_open_key:
  "open_key k (aw_db (snd (deliverAlertRow config deps row w))) = open_key k (aw_db w)"
proof (cases "webhook_url config")
  case (Some url)
  have marks: "open_key k (db\<lparr>alert_events := snd (markDelivered pg i t)\<rparr>) = open_key k (db\<lparr>alert_events := t\<rparr>)"
    "open_key k (db\<lparr>alert_events := snd (markFailed i n err t)\<rparr>) = open_key k (db\<lparr>alert_events := t\<rparr>)"
    for db :: db and i t pg n err
    by (simp_all add: markDelivered_def markFailed_def Let_def open_key_update)
  obtain c t1 where c: "claimAlertForDelivery (ae_id row) (ae_delivery_attempts row) (ALERT_DELIVERY_MAX_ATTEMPTS config)
      (nextAttemptAt config (dd_now deps) (ae_delivery_attempts row)) (alert_events (aw_db w)) = (c, t1)" by force
  then have t1: "open_key k ((aw_db w)\<lparr>alert_events := t1\<rparr>) = open_key k (aw_db w)"
    by (auto simp: claimAlertForDelivery_def Let_def open_key_update claim_alert_def)
  show ?thesis
    using Some c t1 marks by (auto simp: deliverAlertRow_def Let_def split: option.split sum.split)
qed (simp add: deliverAlertRow_def)

lemma error_code_name_nonempty: "error_code_name c \<noteq> []"
  by (cases c) simp_all

lemma emit_insert_nonempty:
  "ai_errorCode (emit_insert f) \<noteq> []" "ai_rootCauseCategory (emit_insert f) \<noteq> []" "ai_dedupKey (emit_insert f) \<noteq> []"
  by (auto simp: emit_insert_def dedupKey_def Let_def error_code_name_nonempty split: option.split)

text \<open>Emission always records: afterwards an unacknowledged alert has the failure's key.\<close>

lemma emit_open:
  assumes f: "createFailure (em_code input) (em_processingState input) (em_context input) (em_severity input) = Some f"
  shows "er_recorded (fst (emitAlert config deps input w)) \<and> open_key (ai_dedupKey (emit_insert f)) (aw_db (snd (emitAlert config deps input w)))"
proof -
  obtain x db1 where rec: "recordAlertWithInsertStatus (dd_pg deps) (emit_insert f) (aw_db w) = (Inr x, db1)"
    and key: "open_key (ai_dedupKey (emit_insert f)) db1"
  proof (cases "open_key (ai_dedupKey (emit_insert f)) (aw_db w)")
    case True
    with recordAlert_open [OF this emit_insert_nonempty] that show thesis by blast
  next
    case False
    then have "recordAlertWithInsertStatus (dd_pg deps) (emit_insert f) (aw_db w) =
        (Inr (new_alert (dd_pg deps) (next_uuid (aw_db w)) (emit_insert f), True),
         (aw_db w)\<lparr>next_uuid := Suc (next_uuid (aw_db w)),
           alert_events := alert_events (aw_db w) @ [new_alert (dd_pg deps) (next_uuid (aw_db w)) (emit_insert f)]\<rparr>)"
      by (simp add: recordAlertWithInsertStatus_def emit_insert_nonempty open_key_def Let_def)
    with recordAlert_effect that show thesis by blast
  qed
  obtain row b where x: "x = (row, b)" by force
  show ?thesis
    using f rec key x
    by (auto simp: emitAlert_def Let_def split: prod.split)
       (metis (no_types, lifting) alert_world.select_convs(1) alert_world.surjective alert_world.update_convs(1)
         deliverAlertRow_open_key snd_conv)
qed

section \<open>Properties\<close>

text \<open>an alert is emitted once per open incident.  Emission always records; emitting the same input again,
  under any configuration, clock and transport, changes nothing and posts nothing while the first alert
  is unacknowledged.\<close>

lemma emit_alert_once:
  "\<exists>r w'. emitAlert config deps input w = (r, w') \<and> er_recorded r
     \<and> (\<forall>config' deps'. \<exists>r'. emitAlert config' deps' input w' = (r', w') \<and> er_recorded r' \<and> \<not> er_inserted r')"
proof -
  obtain f where f: "createFailure (em_code input) (em_processingState input) (em_context input) (em_severity input) = Some f"
    using createFailure_total by blast
  let ?out = "emitAlert config deps input w"
  note out = emit_open [OF f, of config deps w]
  have "\<exists>r'. emitAlert config' deps' input (snd ?out) = (r', snd ?out) \<and> er_recorded r' \<and> \<not> er_inserted r'" for config' deps'
    using recordAlert_open [OF conjunct2 [OF out] emit_insert_nonempty, of "dd_pg deps'"] f
    by (auto simp: emitAlert_def Let_def)
  with out show ?thesis by (intro exI [of _ "fst ?out"] exI [of _ "snd ?out"]) auto
qed

text \<open>a sweep is a run of the concurrent delivery system, and its result counts every retryable row once,
  as delivered, failed or skipped.\<close>

lemma sweep_refines_delivery:
  "case retryPendingDeliveries config deps w of (r, w') \<Rightarrow>
     (\<exists>claims'. (dstep (ALERT_DELIVERY_MAX_ATTEMPTS config))\<^sup>*\<^sup>* (delivery_sys w claims) (delivery_sys w' claims'))
     \<and> sw_delivered r + sw_failed r + sw_skipped r = sw_attempted r
     \<and> sw_attempted r = (if webhook_url config = None then 0
          else length (listRetryable (dd_now deps) (ALERT_DELIVERY_MAX_ATTEMPTS config) (aw_db w)))"
proof (cases "webhook_url config = None")
  case True
  then show ?thesis by (auto simp: retryPendingDeliveries_def)
next
  case False
  obtain r w' where run: "retryPendingDeliveries config deps w = (r, w')" by force
  with False [THEN not_None_eq [THEN iffD1]] have "deliver_all config deps (listRetryable (dd_now deps) (ALERT_DELIVERY_MAX_ATTEMPTS config) (aw_db w))
      (\<lparr>sw_attempted = 0, sw_delivered = 0, sw_failed = 0, sw_skipped = 0\<rparr>, w) = (r, w')"
    by (auto simp: retryPendingDeliveries_def Let_def)
  from deliver_all_steps [OF this] deliver_all_counts [OF this] run False show ?thesis by auto
qed

text \<open>C31: however deliverers interleave, crash and repeat stale claims, an alert is posted at most
  \<^verbatim>\<open>ALERT_DELIVERY_MAX_ATTEMPTS\<close> times.\<close>

theorem alert_posts_bounded:
  assumes "(dstep maxAttempts)\<^sup>*\<^sup>* \<lparr>ds_alerts = [], ds_posts = [], ds_claims = []\<rparr> s"
  shows "count_list (ds_posts s) i + count_list (ds_claims s) i \<le> maxAttempts"
proof -
  have "posts_bounded maxAttempts \<lparr>ds_alerts = [], ds_posts = [], ds_claims = []\<rparr>"
    by (simp add: posts_bounded_def)
  from dsteps_bounded [OF assms this] have "posts_bounded maxAttempts s" .
  with attempts_of_le [OF this, of i] show ?thesis unfolding posts_bounded_def by (meson le_trans)
qed

definition sample_alert :: alert_event_row where
  "sample_alert = new_alert \<lparr>pg_now = 0, pg_text = (\<lambda>_. [])\<rparr> 7
     \<lparr>ai_errorCode = ''E'', ai_rootCauseCategory = ''E'', ai_severity = SEV_critical, ai_dedupKey = ''k'', ai_failureSnapshot = None\<rparr>"

lemma sample_alert_claim:
  "claimAlertForDelivery 7 0 3 60 [sample_alert] = (Some (claim_alert 60 sample_alert), [claim_alert 60 sample_alert])"
  by (simp add: claimAlertForDelivery_def Let_def sql_updated_def sql_update_def first_row_def claimable_def delivery_owed_def
      sample_alert_def new_alert_def)

lemma sample_delivery_run:
  "(dstep 3)\<^sup>*\<^sup>* \<lparr>ds_alerts = [], ds_posts = [], ds_claims = []\<rparr>
     \<lparr>ds_alerts = [claim_alert 60 sample_alert], ds_posts = [7], ds_claims = []\<rparr>"
proof -
  have "dstep 3 \<lparr>ds_alerts = [], ds_posts = [], ds_claims = []\<rparr> \<lparr>ds_alerts = [sample_alert], ds_posts = [], ds_claims = []\<rparr>"
    using dstep.record_alert [of sample_alert "\<lparr>ds_alerts = [], ds_posts = [], ds_claims = []\<rparr>" 3]
    by (simp add: sample_alert_def new_alert_def)
  moreover have "dstep 3 \<lparr>ds_alerts = [sample_alert], ds_posts = [], ds_claims = []\<rparr>
      \<lparr>ds_alerts = [claim_alert 60 sample_alert], ds_posts = [], ds_claims = [7]\<rparr>"
    using dstep.claim [of 7 0 3 60 "\<lparr>ds_alerts = [sample_alert], ds_posts = [], ds_claims = []\<rparr>"] sample_alert_claim by simp
  moreover have "dstep 3 \<lparr>ds_alerts = [claim_alert 60 sample_alert], ds_posts = [], ds_claims = [7]\<rparr>
      \<lparr>ds_alerts = [claim_alert 60 sample_alert], ds_posts = [7], ds_claims = []\<rparr>"
    using dstep.post [of 7 "\<lparr>ds_alerts = [claim_alert 60 sample_alert], ds_posts = [], ds_claims = [7]\<rparr>" 3] by simp
  ultimately show ?thesis by (meson converse_rtranclp_into_rtranclp rtranclp.rtrancl_refl)
qed

theorem alert_posts_bounded_witness:
  "count_list (ds_posts \<lparr>ds_alerts = [claim_alert 60 sample_alert], ds_posts = [7::nat], ds_claims = []\<rparr>) 7 \<le> 3"
  using alert_posts_bounded [OF sample_delivery_run, of 7] by simp

text \<open>a delivered alert is never claimed again, by any deliverer at any later moment, and stays delivered.\<close>

lemma delivered_never_reclaimed:
  assumes "(dstep m)\<^sup>*\<^sup>* s s'" "delivered_row i (ds_alerts s)"
  shows "fst (claimAlertForDelivery i e maxAttempts lease (ds_alerts s')) = None
    \<and> delivered_row i (ds_alerts s') \<and> count_list (ds_claims s') i \<le> count_list (ds_claims s) i"
  using assms
proof (induction rule: rtranclp_induct)
  case base
  then show ?case by (simp add: delivered_unclaimable)
next
  case (step y z)
  then have "delivered_row i (ds_alerts z) \<and> count_list (ds_claims z) i \<le> count_list (ds_claims y) i"
    using dstep_delivered by blast
  with step show ?case by (auto simp: delivered_unclaimable)
qed

text \<open>an alert row renders from its snapshot alone to the text its failure had when it was raised, and it
  always renders: nothing emission persists is unrenderable.\<close>

lemma emitted_row_renders:
  assumes "environment \<in> set NODE_ENVS" "zod_datetime (toISOString now)"
  shows "\<exists>f alert_text. createFailure code st ctx sev = Some f
    \<and> renderAlertEventText zod_datetime (new_alert pg i (emit_insert f)) environment now = Some alert_text
    \<and> renderAlertText zod_datetime f environment (toISOString now) = Some alert_text"
proof -
  obtain f where f: "createFailure code st ctx sev = Some f" "valid_failure f" using createFailure_total by blast
  obtain s where s: "renderAlertText zod_datetime f environment (toISOString now) = Some s"
    using renderAlertText_total [where zod = zod_datetime and timestamp = "toISOString now", OF f(2) assms] by blast
  have "toJsonParam (Some (failureSnapshot f)) = Some (failureSnapshot f)" by (simp add: toJsonParam_def failureSnapshot_def)
  then have "renderAlertEventText zod_datetime (new_alert pg i (emit_insert f)) environment now = Some s"
    using s f(2) by (simp add: renderAlertEventText_def new_alert_def emit_insert_def failureSnapshot_parse valid_failure_def Let_def)
  with f(1) s show ?thesis by blast
qed

text \<open>the alert text is the same for any two contexts with the same keys: no identifier, stage or other
  context value reaches the webhook.\<close>

lemma alert_text_hides_context:
  assumes "\<forall>k. map_of (sanitizeContext c) k = None \<longleftrightarrow> map_of (sanitizeContext d) k = None"
    and "createFailure code st (Some c) sev = Some f" "createFailure code st (Some d) sev = Some g"
  shows "renderAlertText zod_datetime f environment timestamp = renderAlertText zod_datetime g environment timestamp"
proof -
  have f: "f\<lparr>ff_context := sanitizeContext d\<rparr> = g" "ff_context f = sanitizeContext c"
    using assms(2,3) by (auto simp: createFailure_def failureFields_parse_def Let_def split: if_splits)
  have "renderAlertText zod_datetime (f\<lparr>ff_context := sanitizeContext d\<rparr>) environment timestamp =
      renderAlertText zod_datetime f environment timestamp"
    by (rule renderAlertText_scope_only) (use assms(1) f(2) in simp)
  with f(1) show ?thesis by simp
qed

text \<open>escalation is idempotent: a second pass at the same instant records no alert.\<close>

lemma escalation_idempotent:
  assumes "escalateStaleAlertsWithInsertStatus pg now windowMs db = (Inr rs, db')"
  shows "\<exists>rs'. escalateStaleAlertsWithInsertStatus pg' now windowMs db' = (Inr rs', db') \<and> list_all (\<lambda>r. \<not> snd r) rs'"
  using assms by (rule escalate_again)

end
