(* ===== verification/Call_State_Repo.thy ===== *)
theory Call_State_Repo
  imports Alert_Repo
begin

text \<open>
  \<^verbatim>\<open>src/src/db/repositories/call-state-repo.ts\<close>: the per-call spine.  Every writer is one statement or
  one transaction; the guards on \<^verbatim>\<open>current_stage\<close> and \<^verbatim>\<open>status\<close> are the predicates of the UPDATEs.
\<close>

section \<open>Seeding\<close>

record call_state_insert =
  ci_callId :: string
  ci_source :: string
  ci_sourceMetadata :: "json option"
  ci_currentStage :: string
  ci_status :: string

definition call_state_insert_ok :: "call_state_insert \<Rightarrow> bool" where
  "call_state_insert_ok v \<longleftrightarrow>
     ci_callId v \<noteq> [] \<and> ci_source v \<noteq> [] \<and> ci_currentStage v \<noteq> [] \<and> ci_status v \<noteq> []"

definition new_call_state :: "pg \<Rightarrow> call_state_insert \<Rightarrow> call_state_row" where
  "new_call_state pg v =
     \<lparr>cs_call_id = ci_callId v, cs_source = ci_source v,
      cs_source_metadata = (case toJsonParam (ci_sourceMetadata v) of None \<Rightarrow> JObj [] | Some j \<Rightarrow> j),
      cs_current_stage = ci_currentStage v, cs_status = ci_status v, cs_drop_reason = None,
      cs_transcript_wait_started_at = None, cs_created_at = pg_now pg, cs_updated_at = pg_now pg\<rparr>"

definition reseed_call_state :: "pg \<Rightarrow> call_state_insert \<Rightarrow> call_state_row \<Rightarrow> call_state_row" where
  "reseed_call_state pg v r =
     (if cs_status r \<in> set UPSERT_PROTECTED_CALL_STATE_STATUSES
      then r\<lparr>cs_updated_at := pg_now pg\<rparr>
      else r\<lparr>cs_source := ci_source v, cs_source_metadata := cs_source_metadata (new_call_state pg v),
             cs_current_stage := ci_currentStage v, cs_status := ci_status v,
             cs_updated_at := pg_now pg\<rparr>)"

definition upsertCallState :: "pg \<Rightarrow> call_state_insert \<Rightarrow> call_state_row dbop" where
  "upsertCallState pg v db =
     (if \<not> call_state_insert_ok v then (Inl (DalError DAL_VALIDATION_FAILED), db)
      else
        let p = (\<lambda>r. cs_call_id r = ci_callId v); f = reseed_call_state pg v in
        case sql_updated p f (call_state db) of
          [] \<Rightarrow> (Inr (new_call_state pg v), db\<lparr>call_state := call_state db @ [new_call_state pg v]\<rparr>)
        | r # _ \<Rightarrow> (Inr r, db\<lparr>call_state := sql_update p f (call_state db)\<rparr>))"

definition seedCallStateIfAbsent :: "pg \<Rightarrow> call_state_insert \<Rightarrow> bool dbop" where
  "seedCallStateIfAbsent pg v db =
     (if \<not> call_state_insert_ok v then (Inl (DalError DAL_VALIDATION_FAILED), db)
      else if sql_exists (\<lambda>r. cs_call_id r = ci_callId v) (call_state db) then (Inr False, db)
      else (Inr True, db\<lparr>call_state := call_state db @ [new_call_state pg v]\<rparr>))"

definition getCallState :: "string \<Rightarrow> db \<Rightarrow> call_state_row option" where
  "getCallState callId db = first_row (sql_select (\<lambda>r. cs_call_id r = callId) (call_state db))"

section \<open>Call length\<close>

text \<open>A finite, non-negative JSON number; every other value reads as unknown.\<close>

definition callDurationMsFromMetadata :: "json option \<Rightarrow> rat option" where
  "callDurationMsFromMetadata v = (case v of Some (JNum n) \<Rightarrow> if n \<ge> 0 then Some n else None | _ \<Rightarrow> None)"

definition getCallDurationsMs :: "string list \<Rightarrow> db \<Rightarrow> (string \<times> rat) list" where
  "getCallDurationsMs callIds db =
     fold (\<lambda>r out. case callDurationMsFromMetadata (json_get (cs_source_metadata r) ''duration'') of
              None \<Rightarrow> out | Some ms \<Rightarrow> obj_set (cs_call_id r) ms out)
       (sql_select (\<lambda>r. cs_call_id r \<in> set callIds) (call_state db)) []"

section \<open>advanceStage\<close>

record advance_stage_input =
  as_callId :: string
  as_fromStage :: "string option"
  as_toStage :: string
  as_status :: "string option"
  as_logStage :: string
  as_logOutcome :: string
  as_logErrorCode :: "string option"
  as_logDetail :: "json option"
  as_logFailureSnapshot :: "json option"

definition advance_input_ok :: "advance_stage_input \<Rightarrow> bool" where
  "advance_input_ok v \<longleftrightarrow>
     as_callId v \<noteq> [] \<and> as_fromStage v \<noteq> Some [] \<and> as_toStage v \<noteq> [] \<and> as_status v \<noteq> Some []
     \<and> as_logStage v \<noteq> [] \<and> as_logOutcome v \<noteq> []"

definition advance_guard :: "advance_stage_input \<Rightarrow> call_state_row \<Rightarrow> bool" where
  "advance_guard v r \<longleftrightarrow>
     cs_call_id r = as_callId v
     \<and> (case as_fromStage v of None \<Rightarrow> True | Some from \<Rightarrow> cs_current_stage r = from)"

definition advance_row :: "pg \<Rightarrow> advance_stage_input \<Rightarrow> call_state_row \<Rightarrow> call_state_row" where
  "advance_row pg v r =
     r\<lparr>cs_current_stage := as_toStage v,
       cs_status := (case as_status v of None \<Rightarrow> cs_status r | Some s \<Rightarrow> s),
       cs_updated_at := pg_now pg\<rparr>"

definition advanceStage :: "pg \<Rightarrow> advance_stage_input \<Rightarrow> call_state_row dbop" where
  "advanceStage pg v =
     (if \<not> advance_input_ok v then op_throw (DalError DAL_VALIDATION_FAILED)
      else withTransaction (\<lambda>db.
        let rows = sql_updated (advance_guard v) (advance_row pg v) (call_state db);
            db1 = db\<lparr>call_state := sql_update (advance_guard v) (advance_row pg v) (call_state db)\<rparr>
        in case rows of
             [] \<Rightarrow> (Inl (DalError DAL_STALE_STAGE), db1)
           | row # _ \<Rightarrow>
               op_bind (appendLog pg \<lparr>le_callId = Some (as_callId v), le_stage = as_logStage v,
                          le_outcome = as_logOutcome v, le_errorCode = as_logErrorCode v,
                          le_detail = as_logDetail v, le_failureSnapshot = as_logFailureSnapshot v\<rparr>)
                 (\<lambda>_. op_bind
                    (if as_status v = Some ''completed'' then acknowledgeAlertsForCall pg (as_callId v)
                     else op_return 0)
                    (\<lambda>_. op_return row)) db1))"

section \<open>Waiting for a transcript\<close>

definition wait_row :: "pg \<Rightarrow> call_state_row \<Rightarrow> call_state_row" where
  "wait_row pg r =
     r\<lparr>cs_transcript_wait_started_at :=
         (case cs_transcript_wait_started_at r of None \<Rightarrow> Some (pg_now pg) | Some t \<Rightarrow> Some t),
       cs_updated_at := pg_now pg\<rparr>"

definition markTranscriptWaitStarted :: "pg \<Rightarrow> string \<Rightarrow> db \<Rightarrow> int option \<times> db" where
  "markTranscriptWaitStarted pg callId db =
     (let p = (\<lambda>r. cs_call_id r = callId) in
      (Option.bind (first_row (sql_updated p (wait_row pg) (call_state db))) cs_transcript_wait_started_at,
       db\<lparr>call_state := sql_update p (wait_row pg) (call_state db)\<rparr>))"

section \<open>skipCall\<close>

record skip_call_input =
  sk_callId :: string
  sk_atStage :: string
  sk_dropReason :: drop_reason
  sk_logDetail :: "json_object option"

definition processing_at :: "string \<Rightarrow> string \<Rightarrow> call_state_row \<Rightarrow> bool" where
  "processing_at callId stage r \<longleftrightarrow>
     cs_call_id r = callId \<and> cs_current_stage r = stage \<and> cs_status r = ''processing''"

definition skip_row :: "pg \<Rightarrow> drop_reason \<Rightarrow> call_state_row \<Rightarrow> call_state_row" where
  "skip_row pg reason r =
     r\<lparr>cs_status := ''skipped'', cs_drop_reason := Some (drop_reason_name reason),
       cs_updated_at := pg_now pg\<rparr>"

definition skipCall :: "pg \<Rightarrow> skip_call_input \<Rightarrow> call_state_row dbop" where
  "skipCall pg v =
     (if sk_callId v = [] \<or> sk_atStage v = [] then op_throw (DalError DAL_VALIDATION_FAILED)
      else withTransaction (\<lambda>db.
        let p = processing_at (sk_callId v) (sk_atStage v); f = skip_row pg (sk_dropReason v);
            rows = sql_updated p f (call_state db);
            db1 = db\<lparr>call_state := sql_update p f (call_state db)\<rparr>
        in case rows of
             [] \<Rightarrow> (Inl (DalError DAL_STALE_STAGE), db1)
           | row # _ \<Rightarrow>
               op_bind (appendLog pg \<lparr>le_callId = Some (sk_callId v), le_stage = sk_atStage v,
                          le_outcome = ''skipped'', le_errorCode = None,
                          le_detail = Some (JObj (obj_set ''drop_reason''
                            (JStr (drop_reason_name (sk_dropReason v)))
                            (case sk_logDetail v of None \<Rightarrow> [] | Some d \<Rightarrow> d))),
                          le_failureSnapshot = None\<rparr>)
                 (\<lambda>_. op_return row) db1))"

section \<open>holdCall\<close>

record hold_call_input =
  hc_callId :: string
  hc_atStage :: string
  hc_heldReason :: held_reason
  hc_slaMinutes :: int
  hc_errorCode :: "string option"
  hc_logDetail :: "json_object option"
  hc_failureSnapshot :: "json option"

definition active_review :: "review_queue_row \<Rightarrow> bool" where
  "active_review r \<longleftrightarrow> rq_status r \<in> {RS_open, RS_in_review}"

definition new_review :: "pg \<Rightarrow> uuid \<Rightarrow> string \<Rightarrow> held_reason \<Rightarrow> int \<Rightarrow> string option \<Rightarrow> review_queue_row" where
  "new_review pg i callId reason slaDueAt assignee =
     \<lparr>rq_id = i, rq_call_id = callId, rq_held_reason = reason, rq_status = RS_open,
      rq_assignee = assignee, rq_sla_due_at = Some slaDueAt, rq_escalated_at = None,
      rq_raw_purged_at = None, rq_created_at = pg_now pg, rq_resolved_at = None\<rparr>"

text \<open>The INSERT guarded by the partial unique index: the inserted row, or None on a conflict.\<close>

definition insert_review ::
    "pg \<Rightarrow> string \<Rightarrow> held_reason \<Rightarrow> int \<Rightarrow> string option \<Rightarrow> db \<Rightarrow> review_queue_row option \<times> db" where
  "insert_review pg callId reason slaDueAt assignee db =
     (if sql_exists (\<lambda>r. rq_call_id r = callId \<and> active_review r) (review_queue db) then (None, db)
      else
        let row = new_review pg (next_uuid db) callId reason slaDueAt assignee
        in (Some row, db\<lparr>next_uuid := Suc (next_uuid db), review_queue := review_queue db @ [row]\<rparr>))"

definition hold_row :: "pg \<Rightarrow> call_state_row \<Rightarrow> call_state_row" where
  "hold_row pg r = r\<lparr>cs_status := ''held'', cs_updated_at := pg_now pg\<rparr>"

definition holdCall :: "pg \<Rightarrow> hold_call_input \<Rightarrow> call_state_row dbop" where
  "holdCall pg v =
     (if hc_callId v = [] \<or> hc_atStage v = [] \<or> hc_slaMinutes v \<le> 0 \<or> hc_errorCode v = Some []
      then op_throw (DalError DAL_VALIDATION_FAILED)
      else withTransaction (\<lambda>db.
        let p = processing_at (hc_callId v) (hc_atStage v);
            rows = sql_updated p (hold_row pg) (call_state db);
            db1 = db\<lparr>call_state := sql_update p (hold_row pg) (call_state db)\<rparr>
        in case rows of
             [] \<Rightarrow> (Inl (DalError DAL_STALE_STAGE), db1)
           | row # _ \<Rightarrow>
               (let (inserted, db2) = insert_review pg (hc_callId v) (hc_heldReason v)
                      (pg_now pg + hc_slaMinutes v * 60000) None db1;
                    effective = (case inserted of
                        Some r \<Rightarrow> Some (rq_held_reason r)
                      | None \<Rightarrow> map_option rq_held_reason (first_row (sql_select
                          (\<lambda>r. rq_call_id r = hc_callId v \<and> active_review r) (review_queue db2))))
                in case effective of
                     None \<Rightarrow> (Inl (DalError DAL_REVIEW_INVARIANT), db2)
                   | Some effectiveReason \<Rightarrow>
                       if effectiveReason \<noteq> hc_heldReason v then (Inl (DalError DAL_REVIEW_INVARIANT), db2)
                       else op_bind (appendLog pg \<lparr>le_callId = Some (hc_callId v), le_stage = hc_atStage v,
                                le_outcome = ''held'', le_errorCode = hc_errorCode v,
                                le_detail = Some (JObj (obj_set ''held_reason''
                                  (JStr (held_reason_name (hc_heldReason v)))
                                  (case hc_logDetail v of None \<Rightarrow> [] | Some d \<Rightarrow> d))),
                                le_failureSnapshot = hc_failureSnapshot v\<rparr>)
                              (\<lambda>_. op_return row) db2)))"

section \<open>Counts\<close>

definition countByProcessingStage :: "db \<Rightarrow> (string \<times> nat) list" where
  "countByProcessingStage db =
     (let rows = sql_select (\<lambda>r. cs_status r = ''processing'') (call_state db) in
      map (\<lambda>st. (st, length (filter (\<lambda>r. cs_current_stage r = st) rows)))
        (remdups (map cs_current_stage rows)))"

definition countAllCalls :: "db \<Rightarrow> nat" where
  "countAllCalls db = length (call_state db)"

definition countCompletedBetween :: "int \<Rightarrow> int \<Rightarrow> db \<Rightarrow> nat" where
  "countCompletedBetween from to db =
     length (sql_select (\<lambda>r. cs_status r = ''completed'' \<and> from \<le> cs_updated_at r \<and> cs_updated_at r < to)
       (call_state db))"

section \<open>Well-formed states\<close>

text \<open>The primary keys and the partial unique indexes of the schema.\<close>

definition db_ok :: "db \<Rightarrow> bool" where
  "db_ok db \<longleftrightarrow>
     distinct (map cs_call_id (call_state db))
     \<and> distinct (map rq_id (review_queue db)) \<and> (\<forall>r \<in> set (review_queue db). rq_id r < next_uuid db)
     \<and> unique_live rq_call_id active_review (review_queue db)
     \<and> alerts_deduped db"

definition has_active_review :: "string \<Rightarrow> db \<Rightarrow> bool" where
  "has_active_review callId db \<longleftrightarrow> sql_exists (\<lambda>r. rq_call_id r = callId \<and> active_review r) (review_queue db)"

text \<open>No held call is without an active review: what the runner's held guard checks.\<close>

definition held_ok :: "db \<Rightarrow> bool" where
  "held_ok db \<longleftrightarrow>
     (\<forall>r \<in> set (call_state db). cs_status r = ''held'' \<longrightarrow> has_active_review (cs_call_id r) db)"

lemmas row_update_simps = advance_row_def skip_row_def hold_row_def wait_row_def

lemma cs_call_id_updates [simp]:
  "cs_call_id (advance_row pg v r) = cs_call_id r"
  "cs_call_id (skip_row pg d r) = cs_call_id r"
  "cs_call_id (hold_row pg r) = cs_call_id r"
  "cs_call_id (wait_row pg r) = cs_call_id r"
  "cs_call_id (reseed_call_state pg i r) = cs_call_id r"
  by (simp_all add: row_update_simps reseed_call_state_def)

lemma getCallState_Some: "getCallState callId db = Some r \<Longrightarrow> r \<in> set (call_state db) \<and> cs_call_id r = callId"
  by (auto simp: getCallState_def sql_select_def dest!: first_row_Some)

lemma getCallState_iff:
  "distinct (map cs_call_id (call_state db)) \<Longrightarrow>
   getCallState callId db = Some r \<longleftrightarrow> r \<in> set (call_state db) \<and> cs_call_id r = callId"
proof
  assume d: "distinct (map cs_call_id (call_state db))" and r: "r \<in> set (call_state db) \<and> cs_call_id r = callId"
  then have "filter (\<lambda>r. cs_call_id r = callId) (call_state db) = [r]"
    by (intro filter_key_unique [of cs_call_id]) auto
  then show "getCallState callId db = Some r" by (simp add: getCallState_def sql_select_def)
qed (rule getCallState_Some)

lemma getCallState_None: "getCallState callId db = None \<longleftrightarrow> callId \<notin> cs_call_id ` set (call_state db)"
  by (auto simp: getCallState_def sql_select_def filter_empty_conv)

text \<open>Reading a call back after an UPDATE that keeps the key.\<close>

lemma getCallState_update:
  "(\<And>r. cs_call_id (f r) = cs_call_id r) \<Longrightarrow>
   getCallState callId (db\<lparr>call_state := sql_update p f (call_state db)\<rparr>) =
   map_option (\<lambda>r. if p r then f r else r) (getCallState callId db)"
  by (simp add: getCallState_def first_row_update)

lemma getCallState_cong: "call_state db = call_state db' \<Longrightarrow> getCallState callId db = getCallState callId db'"
  by (simp add: getCallState_def)

section \<open>What a successful write did\<close>

lemma appendLog_InrD:
  "appendLog pg v db = (Inr row, db') \<Longrightarrow>
   db' = db\<lparr>next_uuid := Suc (next_uuid db), processing_log := processing_log db @ [row]\<rparr>
   \<and> pl_call_id row = le_callId v \<and> pl_stage row = le_stage v \<and> pl_outcome row = le_outcome v
   \<and> pl_error_code row = le_errorCode v \<and> pl_detail row = toJsonParam (le_detail v)
   \<and> pl_failure_snapshot row = toJsonParam (le_failureSnapshot v)"
  by (auto simp: appendLog_def Let_def split: if_splits)

lemma advanceStage_Inr:
  assumes "advanceStage pg v db = (Inr row, db')"
  obtains r0 log where
    "r0 \<in> set (call_state db)" "advance_guard v r0" "row = advance_row pg v r0"
    "call_state db' = sql_update (advance_guard v) (advance_row pg v) (call_state db)"
    "review_queue db' = review_queue db" "next_uuid db' = Suc (next_uuid db)"
    "processing_log db' = processing_log db @ [log]"
    "pl_call_id log = Some (as_callId v)" "pl_stage log = as_logStage v" "pl_outcome log = as_logOutcome v"
    "pl_detail log = toJsonParam (as_logDetail v)"
    "alerts_deduped db \<Longrightarrow> alerts_deduped db'" "advance_input_ok v"
proof -
  have ok: "advance_input_ok v" using assms by (auto simp: advanceStage_def op_throw_def split: if_splits)
  let ?t = "call_state db"
  obtain r1 rest where rows: "sql_updated (advance_guard v) (advance_row pg v) ?t = r1 # rest"
    using assms ok by (auto simp: advanceStage_def withTransaction_def Let_def split: list.splits prod.splits sum.splits)
  have "r1 \<in> advance_row pg v ` {r \<in> set ?t. advance_guard v r}"
    using rows by (metis (no_types) list.set_intros(1) list.set_map set_filter sql_updated_def)
  then obtain r0 where r0: "r0 \<in> set ?t" "advance_guard v r0" "r1 = advance_row pg v r0" by blast
  from assms ok rows that [OF r0(1,2)] show thesis
    by (fastforce simp: advanceStage_def withTransaction_commit Let_def op_bind_eq_Inr op_return_def r0(3)
          acknowledgeAlertsForCall_def alerts_deduped_def acknowledge_where_def
          intro: ack_narrows.update_unique_live dest!: appendLog_InrD split: if_splits)
qed

lemma advanceStage_Inl:
  "advanceStage pg v db = (Inl e, db') \<Longrightarrow>
   db' = db \<and> (e = DalError DAL_VALIDATION_FAILED \<and> \<not> advance_input_ok v
              \<or> e = DalError DAL_STALE_STAGE \<and> (\<forall>r \<in> set (call_state db). \<not> advance_guard v r))"
  by (auto simp: advanceStage_def op_throw_def withTransaction_Inl Let_def appendLog_def op_bind_def
        op_return_def acknowledgeAlertsForCall_def acknowledge_where_def advance_input_ok_def
        sql_updated_Nil split: if_splits list.splits)

lemma skipCall_Inr:
  assumes "skipCall pg v db = (Inr row, db')"
  obtains r0 log where
    "r0 \<in> set (call_state db)" "processing_at (sk_callId v) (sk_atStage v) r0"
    "row = skip_row pg (sk_dropReason v) r0"
    "call_state db' = sql_update (processing_at (sk_callId v) (sk_atStage v))
                   (skip_row pg (sk_dropReason v)) (call_state db)"
    "review_queue db' = review_queue db" "alert_events db' = alert_events db"
    "next_uuid db' = Suc (next_uuid db)" "processing_log db' = processing_log db @ [log]"
    "pl_call_id log = Some (sk_callId v)" "pl_stage log = sk_atStage v" "pl_outcome log = ''skipped''"
    "pl_error_code log = None" "pl_failure_snapshot log = None"
    "\<exists>d. pl_detail log = Some (JObj d) \<and> map_of d ''drop_reason'' = Some (JStr (drop_reason_name (sk_dropReason v)))"
proof -
  let ?p = "processing_at (sk_callId v) (sk_atStage v)" and ?f = "skip_row pg (sk_dropReason v)"
  have ok: "\<not> (sk_callId v = [] \<or> sk_atStage v = [])"
    using assms by (auto simp: skipCall_def op_throw_def split: if_splits)
  obtain r1 rest where rows: "sql_updated ?p ?f (call_state db) = r1 # rest"
    using assms ok by (auto simp: skipCall_def withTransaction_def Let_def split: list.splits prod.splits sum.splits)
  have "r1 \<in> ?f ` {r \<in> set (call_state db). ?p r}"
    using rows by (metis (no_types) list.set_intros(1) list.set_map set_filter sql_updated_def)
  then obtain r0 where r0: "r0 \<in> set (call_state db)" "?p r0" "r1 = ?f r0" by blast
  from assms ok rows that [OF r0(1,2)] show thesis
    by (fastforce simp: skipCall_def withTransaction_commit Let_def op_bind_eq_Inr op_return_def r0(3)
          toJsonParam_def dest!: appendLog_InrD split: if_splits)
qed

lemma skipCall_Inl:
  "skipCall pg v db = (Inl e, db') \<Longrightarrow>
   db' = db \<and> (e = DalError DAL_VALIDATION_FAILED \<and> (sk_callId v = [] \<or> sk_atStage v = [])
      \<or> e = DalError DAL_STALE_STAGE \<and> (\<forall>r \<in> set (call_state db). \<not> processing_at (sk_callId v) (sk_atStage v) r))"
  by (auto simp: skipCall_def op_throw_def withTransaction_Inl Let_def appendLog_def op_bind_def
        op_return_def sql_updated_Nil split: if_splits list.splits)

text \<open>How a hold leaves the review queue: a fresh open row when the call had no active review, the same
  queue when it already had one under the same reason.\<close>

definition hold_review :: "pg \<Rightarrow> hold_call_input \<Rightarrow> db \<Rightarrow> db \<Rightarrow> bool" where
  "hold_review pg v db db' \<longleftrightarrow>
     (if has_active_review (hc_callId v) db
      then review_queue db' = review_queue db \<and> next_uuid db' = Suc (next_uuid db)
           \<and> (\<exists>r \<in> set (review_queue db). rq_call_id r = hc_callId v \<and> active_review r \<and> rq_held_reason r = hc_heldReason v)
      else review_queue db' = review_queue db @ [new_review pg (next_uuid db) (hc_callId v) (hc_heldReason v)
             (pg_now pg + hc_slaMinutes v * 60000) None] \<and> next_uuid db' = Suc (Suc (next_uuid db)))"

lemma holdCall_Inr:
  assumes "holdCall pg v db = (Inr row, db')"
  obtains r0 log where
    "r0 \<in> set (call_state db)" "processing_at (hc_callId v) (hc_atStage v) r0" "row = hold_row pg r0"
    "call_state db' = sql_update (processing_at (hc_callId v) (hc_atStage v)) (hold_row pg) (call_state db)"
    "hold_review pg v db db'" "alert_events db' = alert_events db"
    "processing_log db' = processing_log db @ [log]"
    "pl_call_id log = Some (hc_callId v)" "pl_stage log = hc_atStage v" "pl_outcome log = ''held''"
    "pl_error_code log = hc_errorCode v" "pl_failure_snapshot log = toJsonParam (hc_failureSnapshot v)"
    "\<exists>d. pl_detail log = Some (JObj d) \<and> map_of d ''held_reason'' = Some (JStr (held_reason_name (hc_heldReason v)))"
    "0 < hc_slaMinutes v"
proof -
  let ?p = "processing_at (hc_callId v) (hc_atStage v)"
  have ok: "\<not> (hc_callId v = [] \<or> hc_atStage v = [] \<or> hc_slaMinutes v \<le> 0 \<or> hc_errorCode v = Some [])"
    using assms by (auto simp: holdCall_def op_throw_def split: if_splits)
  obtain r1 rest where rows: "sql_updated ?p (hold_row pg) (call_state db) = r1 # rest"
    using assms ok by (auto simp: holdCall_def withTransaction_def Let_def split: list.splits prod.splits sum.splits)
  have "r1 \<in> hold_row pg ` {r \<in> set (call_state db). ?p r}"
    using rows by (metis (no_types) list.set_intros(1) list.set_map set_filter sql_updated_def)
  then obtain r0 where r0: "r0 \<in> set (call_state db)" "?p r0" "r1 = hold_row pg r0" by blast
  show thesis
  proof (cases "has_active_review (hc_callId v) db")
    case True
    let ?q = "\<lambda>r. rq_call_id r = hc_callId v \<and> active_review r"
    have ex: "sql_exists ?q (review_queue db)" using True by (simp add: has_active_review_def)
    then obtain a where a: "first_row (sql_select ?q (review_queue db)) = Some a"
      by (cases "first_row (sql_select ?q (review_queue db))")
         (auto simp: sql_exists_iff sql_select_def filter_empty_conv)
    then have "a \<in> set (review_queue db) \<and> ?q a" by (auto dest!: first_row_Some simp: sql_select_def)
    with assms ok rows ex a that [OF r0(1,2)] True show thesis
      by (fastforce simp: holdCall_def withTransaction_commit Let_def op_bind_eq_Inr op_return_def r0(3)
            insert_review_def toJsonParam_def hold_review_def dest!: appendLog_InrD split: if_splits)
  next
    case False
    then have ex: "\<not> sql_exists (\<lambda>r. rq_call_id r = hc_callId v \<and> active_review r) (review_queue db)"
      by (simp add: has_active_review_def)
    with assms ok rows that [OF r0(1,2)] False show thesis
      by (fastforce simp: holdCall_def withTransaction_commit Let_def op_bind_eq_Inr op_return_def r0(3)
            insert_review_def new_review_def toJsonParam_def hold_review_def dest!: appendLog_InrD split: if_splits)
  qed
qed

lemma holdCall_Inl:
  assumes "holdCall pg v db = (Inl e, db')"
  shows "db' = db \<and> e \<in> DalError ` {DAL_VALIDATION_FAILED, DAL_STALE_STAGE, DAL_REVIEW_INVARIANT}
    \<and> (e = DalError DAL_STALE_STAGE \<longrightarrow>
         (\<forall>r \<in> set (call_state db). \<not> processing_at (hc_callId v) (hc_atStage v) r))"
  using assms
  by (auto simp: holdCall_def op_throw_def withTransaction_Inl Let_def appendLog_def op_bind_def
        op_return_def sql_updated_Nil split: if_splits list.splits option.splits prod.splits)

section \<open>Preservation\<close>

lemma db_ok_call_update:
  assumes "db_ok db" "\<And>r. cs_call_id (f r) = cs_call_id r"
    and "call_state db' = sql_update p f (call_state db)" "review_queue db' = review_queue db"
    and "next_uuid db \<le> next_uuid db'" "alerts_deduped db'"
  shows "db_ok db'"
  using assms by (fastforce simp: db_ok_def map_sql_update)

lemma held_ok_call_update:
  assumes "held_ok db" "\<And>r. cs_call_id (f r) = cs_call_id r" "\<And>r. p r \<Longrightarrow> cs_status (f r) = ''held'' \<Longrightarrow> cs_status r = ''held''"
    and "call_state db' = sql_update p f (call_state db)" "review_queue db' = review_queue db"
  shows "held_ok db'"
  using assms by (auto simp: held_ok_def has_active_review_def set_sql_update)

lemma advanceStage_db_ok: "db_ok db \<Longrightarrow> advanceStage pg v db = (Inr row, db') \<Longrightarrow> db_ok db'"
  by (erule advanceStage_Inr) (rule db_ok_call_update, auto simp: db_ok_def)

lemma advanceStage_held_ok:
  "held_ok db \<Longrightarrow> advanceStage pg v db = (Inr row, db') \<Longrightarrow> as_status v \<noteq> Some ''held'' \<Longrightarrow> held_ok db'"
  by (erule advanceStage_Inr) (rule held_ok_call_update, auto simp: advance_row_def split: option.splits)

lemma skipCall_db_ok: "db_ok db \<Longrightarrow> skipCall pg v db = (Inr row, db') \<Longrightarrow> db_ok db'"
  by (erule skipCall_Inr) (rule db_ok_call_update, auto simp: db_ok_def alerts_deduped_def)

lemma skipCall_held_ok: "held_ok db \<Longrightarrow> skipCall pg v db = (Inr row, db') \<Longrightarrow> held_ok db'"
  by (erule skipCall_Inr) (rule held_ok_call_update, auto simp: skip_row_def)

lemma hold_review_active: "hold_review pg v db db' \<Longrightarrow> has_active_review (hc_callId v) db'"
  by (auto simp: hold_review_def has_active_review_def sql_exists_iff new_review_def active_review_def
        split: if_splits)

lemma hold_review_keeps: "hold_review pg v db db' \<Longrightarrow> has_active_review c db \<Longrightarrow> has_active_review c db'"
  by (auto simp: hold_review_def has_active_review_def sql_exists_iff split: if_splits)

lemma holdCall_db_ok:
  assumes "db_ok db" "holdCall pg v db = (Inr row, db')"
  shows "db_ok db'"
proof (rule holdCall_Inr [OF assms(2)])
  assume cs: "call_state db' = sql_update (processing_at (hc_callId v) (hc_atStage v)) (hold_row pg) (call_state db)"
    and hr: "hold_review pg v db db'" and al: "alert_events db' = alert_events db"
  have "unique_live rq_call_id active_review (review_queue db @ [r])"
    if "\<not> has_active_review (hc_callId v) db" "rq_call_id r = hc_callId v" for r
    using assms(1) that by (intro unique_live_insert) (auto simp: db_ok_def has_active_review_def)
  with assms(1) cs hr al show ?thesis
    by (auto simp: db_ok_def hold_review_def map_sql_update alerts_deduped_def new_review_def less_Suc_eq
          split: if_splits)
qed

lemma holdCall_held_ok:
  assumes "held_ok db" "holdCall pg v db = (Inr row, db')"
  shows "held_ok db'"
proof (rule holdCall_Inr [OF assms(2)])
  assume "call_state db' = sql_update (processing_at (hc_callId v) (hc_atStage v)) (hold_row pg) (call_state db)"
    and "hold_review pg v db db'"
  then show ?thesis using assms(1)
    by (auto simp: held_ok_def set_sql_update processing_at_def intro: hold_review_active hold_review_keeps)
qed

text \<open>Seeding and reseeding.\<close>

lemma upsertCallState_cases:
  assumes "upsertCallState pg v db = (Inr row, db')"
  obtains (insert) "ci_callId v \<notin> cs_call_id ` set (call_state db)" "row = new_call_state pg v"
      "db' = db\<lparr>call_state := call_state db @ [new_call_state pg v]\<rparr>"
  | (conflict) r where "r \<in> set (call_state db)" "cs_call_id r = ci_callId v" "row = reseed_call_state pg v r"
      "db' = db\<lparr>call_state := sql_update (\<lambda>r. cs_call_id r = ci_callId v) (reseed_call_state pg v) (call_state db)\<rparr>"
proof (cases "sql_updated (\<lambda>r. cs_call_id r = ci_callId v) (reseed_call_state pg v) (call_state db)")
  case Nil
  then have "ci_callId v \<notin> cs_call_id ` set (call_state db)" by (auto simp: sql_updated_Nil)
  then show thesis
    using assms Nil by (intro insert) (auto simp: upsertCallState_def Let_def split: if_splits)
next
  case (Cons r1 rest)
  then have "r1 \<in> reseed_call_state pg v ` {r \<in> set (call_state db). cs_call_id r = ci_callId v}"
    by (metis (no_types) list.set_intros(1) list.set_map set_filter sql_updated_def)
  then obtain r where "r \<in> set (call_state db)" "cs_call_id r = ci_callId v" "r1 = reseed_call_state pg v r" by blast
  with assms Cons show thesis
    by (intro conflict) (auto simp: upsertCallState_def Let_def split: if_splits)
qed

lemma upsertCallState_db_ok: "db_ok db \<Longrightarrow> upsertCallState pg v db = (Inr row, db') \<Longrightarrow> db_ok db'"
  by (erule upsertCallState_cases)
     (auto simp: db_ok_def alerts_deduped_def new_call_state_def map_sql_update)

lemma upsertCallState_held_ok:
  assumes "held_ok db" "upsertCallState pg v db = (Inr row, db')" "ci_status v \<noteq> ''held''"
  shows "held_ok db'"
  using assms(2)
proof (cases rule: upsertCallState_cases)
  case insert
  with assms show ?thesis by (auto simp: held_ok_def has_active_review_def new_call_state_def)
next
  case (conflict r)
  show ?thesis
    by (rule held_ok_call_update [OF assms(1), where f = "reseed_call_state pg v"
          and p = "\<lambda>r. cs_call_id r = ci_callId v"])
       (use conflict assms(3) in \<open>auto simp: reseed_call_state_def split: if_splits\<close>)
qed

text \<open>A row in a protected status survives a duplicate ingestion unchanged but for its timestamp.\<close>

lemma upsertCallState_protected:
  assumes "upsertCallState pg v db = (Inr row, db')" "r \<in> set (call_state db)"
    and "cs_call_id r = ci_callId v" "cs_status r \<in> set UPSERT_PROTECTED_CALL_STATE_STATUSES" "db_ok db"
  shows "row = r\<lparr>cs_updated_at := pg_now pg\<rparr>"
  using assms(1)
proof (cases rule: upsertCallState_cases)
  case insert
  with assms(2,3) show ?thesis by force
next
  case (conflict r')
  have "r' = r"
    using assms conflict unfolding db_ok_def distinct_map inj_on_def by metis
  with conflict assms(4) show ?thesis by (simp add: reseed_call_state_def)
qed

lemma seedCallStateIfAbsent_db_ok: "db_ok db \<Longrightarrow> seedCallStateIfAbsent pg v db = (Inr b, db') \<Longrightarrow> db_ok db'"
  by (fastforce simp: seedCallStateIfAbsent_def db_ok_def alerts_deduped_def new_call_state_def sql_exists_iff
        split: if_splits)

lemma markTranscriptWaitStarted_db_ok: "db_ok db \<Longrightarrow> markTranscriptWaitStarted pg c db = (t, db') \<Longrightarrow> db_ok db'"
  by (auto simp: markTranscriptWaitStarted_def Let_def db_ok_def alerts_deduped_def map_sql_update)

end
