(* ===== verification/Artifact_Repo.thy ===== *)
theory Artifact_Repo
  imports Call_State_Repo
begin

text \<open>
  The per-call artifacts: \<^verbatim>\<open>extraction-candidates-repo.ts\<close>, \<^verbatim>\<open>clean-transcripts-repo.ts\<close>,
  \<^verbatim>\<open>raw-transcripts-repo.ts\<close>, \<^verbatim>\<open>raw-purge-tombstone-repo.ts\<close>, the retention stamp and the writes of
  \<^verbatim>\<open>token-vault-repo.ts\<close>, the upsert of \<^verbatim>\<open>structured-knowledge-repo.ts\<close>, \<^verbatim>\<open>redaction-findings-repo.ts\<close> and \<^verbatim>\<open>model-invocations-repo.ts\<close>.
  Encryption is the parameter \<open>encrypt\<close>: the ciphertext and key version of a text bound to a call id.
  Three laws hold across them: the PII verdict of a candidate is a one-way latch, a hard delete is
  final, and a retention stamp is monotonic.
\<close>

section \<open>Extraction candidates\<close>

definition RESIDUAL_SCAN_CATEGORIES :: "string list" where
  "RESIDUAL_SCAN_CATEGORIES =
     [''vault_value_reintroduced'', ''digit_run'', ''spelled_out_digits'', ''email_like'', ''address_like'',
      ''name_like_after_greeting'', ''deny_list_term'']"

definition payload_ok :: "string \<Rightarrow> knowledge_payload \<Rightarrow> bool" where
  "payload_ok callId v \<longleftrightarrow>
     callId \<noteq> [] \<and> kp_schema_version v > 0 \<and> kp_prompt_version v \<noteq> [] \<and> kp_model_id v \<noteq> []"

definition new_candidate :: "pg \<Rightarrow> string \<Rightarrow> knowledge_payload \<Rightarrow> extraction_candidate_row" where
  "new_candidate pg callId v =
     \<lparr>ec_call_id = callId, ec_payload = v, ec_pii_scan_status = PS_pending, ec_pii_scan_failure_kind = None,
      ec_pii_scan_failed_at = None, ec_pii_scan_counts = None, ec_created_at = pg_now pg,
      ec_retention_eligible_at = None, ec_soft_deleted_at = None, ec_hard_deleted_at = None\<rparr>"

definition replace_candidate :: "knowledge_payload \<Rightarrow> extraction_candidate_row \<Rightarrow> extraction_candidate_row" where
  "replace_candidate v r =
     r\<lparr>ec_payload := v, ec_pii_scan_status := PS_pending, ec_pii_scan_failure_kind := None,
       ec_pii_scan_failed_at := None, ec_pii_scan_counts := None, ec_retention_eligible_at := None,
       ec_soft_deleted_at := None\<rparr>"

definition upsertExtractionCandidate ::
    "pg \<Rightarrow> string \<Rightarrow> knowledge_payload \<Rightarrow> extraction_candidate_row dbop" where
  "upsertExtractionCandidate pg callId v db =
     (if \<not> payload_ok callId v then (Inl (DalError DAL_VALIDATION_FAILED), db)
      else if \<not> sql_exists (\<lambda>r. ec_call_id r = callId) (extraction_candidates db)
      then (Inr (new_candidate pg callId v),
            db\<lparr>extraction_candidates := extraction_candidates db @ [new_candidate pg callId v]\<rparr>)
      else
        let p = (\<lambda>r. ec_call_id r = callId \<and> ec_hard_deleted_at r = None) in
        case first_row (sql_updated p (replace_candidate v) (extraction_candidates db)) of
          None \<Rightarrow> (Inl (DalError DAL_QUERY_FAILED), db)
        | Some r \<Rightarrow>
            (Inr r, db\<lparr>extraction_candidates := sql_update p (replace_candidate v) (extraction_candidates db)\<rparr>))"

definition markExtractionCandidateRetentionEligible :: "pg \<Rightarrow> string \<Rightarrow> db \<Rightarrow> db" where
  "markExtractionCandidateRetentionEligible pg callId db =
     db\<lparr>extraction_candidates := sql_update
          (\<lambda>r. ec_call_id r = callId \<and> ec_retention_eligible_at r = None \<and> ec_hard_deleted_at r = None)
          (\<lambda>r. r\<lparr>ec_retention_eligible_at := Some (pg_now pg)\<rparr>) (extraction_candidates db)\<rparr>"

definition live_candidate :: "string \<Rightarrow> extraction_candidate_row \<Rightarrow> bool" where
  "live_candidate callId r \<longleftrightarrow> ec_call_id r = callId \<and> ec_soft_deleted_at r = None \<and> ec_hard_deleted_at r = None"

definition getExtractionCandidate :: "string \<Rightarrow> db \<Rightarrow> extraction_candidate_row option" where
  "getExtractionCandidate callId db = first_row (sql_select (live_candidate callId) (extraction_candidates db))"

datatype pii_scan_failure =
    ResidualPii "(string \<times> nat) list"
  | TokenedPhrase nat
  | VerbatimMismatch nat nat

definition pii_scan_failure_ok :: "pii_scan_failure \<Rightarrow> bool" where
  "pii_scan_failure_ok f =
     (case f of ResidualPii counts \<Rightarrow> counts \<noteq> [] \<and> list_all (\<lambda>(k, _). k \<in> set RESIDUAL_SCAN_CATEGORIES) counts
      | _ \<Rightarrow> True)"

definition failure_kind :: "pii_scan_failure \<Rightarrow> pii_scan_failure_kind" where
  "failure_kind f = (case f of ResidualPii _ \<Rightarrow> PK_residual_pii | TokenedPhrase _ \<Rightarrow> PK_tokened_phrase
     | VerbatimMismatch _ _ \<Rightarrow> PK_verbatim_mismatch)"

definition failure_metadata :: "pii_scan_failure \<Rightarrow> (string \<times> nat) list" where
  "failure_metadata f = (case f of ResidualPii counts \<Rightarrow> counts | TokenedPhrase n \<Rightarrow> [(''dropped_count'', n)]
     | VerbatimMismatch m n \<Rightarrow> [(''mismatch_count'', m), (''phrase_count'', n)])"

definition fail_candidate :: "pg \<Rightarrow> pii_scan_failure \<Rightarrow> extraction_candidate_row \<Rightarrow> extraction_candidate_row" where
  "fail_candidate pg f r =
     r\<lparr>ec_payload := (ec_payload r)\<lparr>kp_customer_language := []\<rparr>, ec_pii_scan_status := PS_failed,
       ec_pii_scan_failed_at := Some (pg_now pg), ec_pii_scan_failure_kind := Some (failure_kind f),
       ec_pii_scan_counts := Some (failure_metadata f)\<rparr>"

definition markPiiScanFailed :: "pg \<Rightarrow> string \<Rightarrow> pii_scan_failure \<Rightarrow> extraction_candidate_row dbop" where
  "markPiiScanFailed pg callId failure db =
     (if \<not> pii_scan_failure_ok failure then (Inl (DalError DAL_VALIDATION_FAILED), db)
      else case first_row (sql_updated (live_candidate callId) (fail_candidate pg failure) (extraction_candidates db)) of
          None \<Rightarrow> (Inl (DalError DAL_QUERY_FAILED), db)
        | Some r \<Rightarrow>
            (Inr r, db\<lparr>extraction_candidates :=
               sql_update (live_candidate callId) (fail_candidate pg failure) (extraction_candidates db)\<rparr>))"

definition markPiiScanPassed :: "string \<Rightarrow> db \<Rightarrow> extraction_candidate_row option \<times> db" where
  "markPiiScanPassed callId db =
     (let p = (\<lambda>r. live_candidate callId r \<and> ec_pii_scan_status r = PS_pending);
          f = (\<lambda>r. r\<lparr>ec_pii_scan_status := PS_passed\<rparr>)
      in (first_row (sql_updated p f (extraction_candidates db)),
          db\<lparr>extraction_candidates := sql_update p f (extraction_candidates db)\<rparr>))"

definition softDeleteExtractionCandidate :: "pg \<Rightarrow> string \<Rightarrow> db \<Rightarrow> db" where
  "softDeleteExtractionCandidate pg callId db =
     db\<lparr>extraction_candidates := sql_update (live_candidate callId)
          (\<lambda>r. r\<lparr>ec_soft_deleted_at := Some (pg_now pg)\<rparr>) (extraction_candidates db)\<rparr>"

definition hasHardDeletedExtractionCandidate :: "string \<Rightarrow> db \<Rightarrow> bool" where
  "hasHardDeletedExtractionCandidate callId db =
     sql_exists (\<lambda>r. ec_call_id r = callId \<and> ec_hard_deleted_at r \<noteq> None) (extraction_candidates db)"

section \<open>Clean transcripts\<close>

definition live_clean :: "string \<Rightarrow> clean_transcript_row \<Rightarrow> bool" where
  "live_clean callId r \<longleftrightarrow> ct_call_id r = callId \<and> ct_soft_deleted_at r = None \<and> ct_hard_deleted_at r = None"

definition replace_clean :: "pg \<Rightarrow> string \<Rightarrow> rat \<Rightarrow> string list \<Rightarrow> clean_transcript_row \<Rightarrow> clean_transcript_row" where
  "replace_clean pg redactedText score reasons r =
     r\<lparr>ct_redacted_text := redactedText, ct_redaction_risk_score := score, ct_redaction_reasons := reasons,
       ct_retention_eligible_at :=
         (case ct_retention_eligible_at r of None \<Rightarrow> Some (pg_now pg) | Some t \<Rightarrow> Some t),
       ct_soft_deleted_at := None\<rparr>"

definition upsertCleanTranscript ::
    "pg \<Rightarrow> string \<Rightarrow> string \<Rightarrow> rat \<Rightarrow> string list \<Rightarrow> clean_transcript_row dbop" where
  "upsertCleanTranscript pg callId redactedText score reasons db =
     (if callId = [] \<or> score < 0 \<or> score > 1 then (Inl (DalError DAL_VALIDATION_FAILED), db)
      else if \<not> sql_exists (\<lambda>r. ct_call_id r = callId) (clean_transcripts db) then
        (let row = \<lparr>ct_call_id = callId, ct_redacted_text = redactedText, ct_redaction_risk_score = score,
                    ct_redaction_reasons = reasons, ct_created_at = pg_now pg,
                    ct_retention_eligible_at = Some (pg_now pg), ct_soft_deleted_at = None,
                    ct_hard_deleted_at = None\<rparr>
         in (Inr row, db\<lparr>clean_transcripts := clean_transcripts db @ [row]\<rparr>))
      else
        let p = (\<lambda>r. ct_call_id r = callId \<and> ct_hard_deleted_at r = None);
            f = replace_clean pg redactedText score reasons in
        case first_row (sql_updated p f (clean_transcripts db)) of
          None \<Rightarrow> (Inl (DalError DAL_QUERY_FAILED), db)
        | Some r \<Rightarrow> (Inr r, db\<lparr>clean_transcripts := sql_update p f (clean_transcripts db)\<rparr>))"

definition softDeleteCleanTranscript :: "pg \<Rightarrow> string \<Rightarrow> db \<Rightarrow> db" where
  "softDeleteCleanTranscript pg callId db =
     db\<lparr>clean_transcripts := sql_update (live_clean callId)
          (\<lambda>r. r\<lparr>ct_soft_deleted_at := Some (pg_now pg)\<rparr>) (clean_transcripts db)\<rparr>"

definition hasHardDeletedCleanTranscript :: "string \<Rightarrow> db \<Rightarrow> bool" where
  "hasHardDeletedCleanTranscript callId db =
     sql_exists (\<lambda>r. ct_call_id r = callId \<and> ct_hard_deleted_at r \<noteq> None) (clean_transcripts db)"

definition getCleanTranscript :: "string \<Rightarrow> db \<Rightarrow> clean_transcript_row option" where
  "getCleanTranscript callId db = first_row (sql_select (live_clean callId) (clean_transcripts db))"

section \<open>Raw transcripts, tombstones and the vault\<close>

definition live_raw :: "string \<Rightarrow> raw_transcript_row \<Rightarrow> bool" where
  "live_raw callId r \<longleftrightarrow> rt_call_id r = callId \<and> rt_soft_deleted_at r = None \<and> rt_hard_deleted_at r = None"

definition isRawPurged :: "string \<Rightarrow> db \<Rightarrow> bool" where
  "isRawPurged callId db \<longleftrightarrow> callId \<in> set (raw_purge_tombstone db)"

definition insertRawTombstone :: "string \<Rightarrow> db \<Rightarrow> db" where
  "insertRawTombstone callId db =
     (if isRawPurged callId db then db
      else db\<lparr>raw_purge_tombstone := raw_purge_tombstone db @ [callId]\<rparr>)"

definition putTranscript :: "pg \<Rightarrow> (string \<Rightarrow> string \<Rightarrow> string \<times> nat) \<Rightarrow> string \<Rightarrow> string \<Rightarrow> unit dbop" where
  "putTranscript pg encrypt callId transcript db =
     (if callId = [] then (Inl (DalError DAL_VALIDATION_FAILED), db)
      else
        let (ciphertext, keyVersion) = encrypt callId transcript;
            p = (\<lambda>r. rt_call_id r = callId \<and> rt_hard_deleted_at r = None);
            f = (\<lambda>r. r\<lparr>rt_ciphertext := ciphertext, rt_key_version := keyVersion, rt_fetched_at := pg_now pg\<rparr>)
        in if isRawPurged callId db then (Inl (DalError DAL_QUERY_FAILED), db)
           else if \<not> sql_exists (\<lambda>r. rt_call_id r = callId) (raw_transcripts db)
           then (Inr (), db\<lparr>raw_transcripts := raw_transcripts db @
                   [\<lparr>rt_call_id = callId, rt_ciphertext = ciphertext, rt_key_version = keyVersion,
                     rt_fetched_at = pg_now pg, rt_retention_eligible_at = None, rt_soft_deleted_at = None,
                     rt_hard_deleted_at = None\<rparr>]\<rparr>)
           else if \<not> sql_exists p (raw_transcripts db) then (Inl (DalError DAL_QUERY_FAILED), db)
           else (Inr (), db\<lparr>raw_transcripts := sql_update p f (raw_transcripts db)\<rparr>))"

definition transcriptExists :: "string \<Rightarrow> db \<Rightarrow> bool" where
  "transcriptExists callId db = sql_exists (live_raw callId) (raw_transcripts db)"

definition markTranscriptRetentionEligible :: "pg \<Rightarrow> string \<Rightarrow> db \<Rightarrow> db" where
  "markTranscriptRetentionEligible pg callId db =
     db\<lparr>raw_transcripts := sql_update
          (\<lambda>r. rt_call_id r = callId \<and> rt_retention_eligible_at r = None \<and> rt_hard_deleted_at r = None)
          (\<lambda>r. r\<lparr>rt_retention_eligible_at := Some (pg_now pg)\<rparr>) (raw_transcripts db)\<rparr>"

definition getTranscript :: "(string \<Rightarrow> string \<Rightarrow> nat \<Rightarrow> string) \<Rightarrow> string \<Rightarrow> db \<Rightarrow> string option" where
  "getTranscript decrypt callId db =
     map_option (\<lambda>r. decrypt callId (rt_ciphertext r) (rt_key_version r))
       (first_row (sql_select (live_raw callId) (raw_transcripts db)))"

definition putToken :: "(string \<Rightarrow> string \<Rightarrow> string \<times> nat) \<Rightarrow> string \<Rightarrow> string \<Rightarrow> string \<Rightarrow> unit dbop" where
  "putToken encrypt callId token plaintext db =
     (if callId = [] \<or> token = [] then (Inl (DalError DAL_VALIDATION_FAILED), db)
      else
        let (ciphertext, keyVersion) = encrypt callId plaintext;
            k = (\<lambda>r. tv_call_id r = callId \<and> tv_token r = token);
            p = (\<lambda>r. k r \<and> tv_hard_deleted_at r = None);
            f = (\<lambda>r. r\<lparr>tv_ciphertext := ciphertext, tv_key_version := keyVersion, tv_soft_deleted_at := None\<rparr>)
        in if isRawPurged callId db then (Inl (DalError DAL_QUERY_FAILED), db)
           else if \<not> sql_exists k (token_vault db)
           then (Inr (), db\<lparr>token_vault := token_vault db @
                   [\<lparr>tv_call_id = callId, tv_token = token, tv_ciphertext = ciphertext,
                     tv_key_version = keyVersion, tv_retention_eligible_at = None, tv_soft_deleted_at = None,
                     tv_hard_deleted_at = None\<rparr>]\<rparr>)
           else if \<not> sql_exists p (token_vault db) then (Inl (DalError DAL_QUERY_FAILED), db)
           else (Inr (), db\<lparr>token_vault := sql_update p f (token_vault db)\<rparr>))"

definition markTokensRetentionEligible :: "pg \<Rightarrow> string \<Rightarrow> db \<Rightarrow> db" where
  "markTokensRetentionEligible pg callId db =
     db\<lparr>token_vault := sql_update
          (\<lambda>r. tv_call_id r = callId \<and> tv_retention_eligible_at r = None \<and> tv_hard_deleted_at r = None)
          (\<lambda>r. r\<lparr>tv_retention_eligible_at := Some (pg_now pg)\<rparr>) (token_vault db)\<rparr>"

definition tokenExistsForCall :: "string \<Rightarrow> string \<Rightarrow> db \<Rightarrow> bool" where
  "tokenExistsForCall callId token db =
     sql_exists (\<lambda>r. tv_call_id r = callId \<and> tv_token r = token \<and> tv_soft_deleted_at r = None
                     \<and> tv_hard_deleted_at r = None) (token_vault db)"

section \<open>Structured knowledge and model invocations\<close>

definition upsertStructuredKnowledge ::
    "pg \<Rightarrow> string \<Rightarrow> knowledge_payload \<Rightarrow> structured_knowledge_row dbop" where
  "upsertStructuredKnowledge pg callId v db =
     (if \<not> payload_ok callId v then (Inl (DalError DAL_VALIDATION_FAILED), db)
      else
        let p = (\<lambda>r. sk_call_id r = callId); f = (\<lambda>r. r\<lparr>sk_payload := v\<rparr>);
            row = \<lparr>sk_call_id = callId, sk_payload = v, sk_created_at = pg_now pg,
                   sk_superseded_by_call_id = None\<rparr>
        in case first_row (sql_updated p f (structured_knowledge db)) of
             None \<Rightarrow> (Inr row, db\<lparr>structured_knowledge := structured_knowledge db @ [row]\<rparr>)
           | Some r \<Rightarrow> (Inr r, db\<lparr>structured_knowledge := sql_update p f (structured_knowledge db)\<rparr>))"

definition getStructuredKnowledge :: "string \<Rightarrow> db \<Rightarrow> structured_knowledge_row option" where
  "getStructuredKnowledge callId db =
     first_row (sql_select (\<lambda>r. sk_call_id r = callId) (structured_knowledge db))"

definition setStructuredKnowledgeSuperseded :: "string \<Rightarrow> string \<Rightarrow> nat dbop" where
  "setStructuredKnowledgeSuperseded callId canonicalCallId db =
     (let p = (\<lambda>r. sk_call_id r = callId \<and> sk_call_id r \<noteq> canonicalCallId \<and> sk_superseded_by_call_id r = None);
          f = (\<lambda>r. r\<lparr>sk_superseded_by_call_id := Some canonicalCallId\<rparr>)
      in (Inr (length (sql_updated p f (structured_knowledge db))),
          db\<lparr>structured_knowledge := sql_update p f (structured_knowledge db)\<rparr>))"

record model_invocation_input =
  mv_callId :: string
  mv_stage :: string
  mv_modelId :: string
  mv_promptVersion :: string
  mv_inputTokens :: nat
  mv_outputTokens :: nat
  mv_outcome :: string

definition recordModelInvocation :: "pg \<Rightarrow> model_invocation_input \<Rightarrow> model_invocation_row dbop" where
  "recordModelInvocation pg v db =
     (if mv_callId v = [] \<or> mv_stage v = [] \<or> mv_modelId v = [] \<or> mv_promptVersion v = [] \<or> mv_outcome v = []
      then (Inl (DalError DAL_VALIDATION_FAILED), db)
      else
        let row = \<lparr>mi_id = next_uuid db, mi_call_id = mv_callId v, mi_stage = mv_stage v,
                   mi_model_id = mv_modelId v, mi_prompt_version = mv_promptVersion v,
                   mi_input_tokens = mv_inputTokens v, mi_output_tokens = mv_outputTokens v,
                   mi_outcome = mv_outcome v, mi_created_at = pg_now pg\<rparr>
        in (Inr row, db\<lparr>next_uuid := Suc (next_uuid db), model_invocations := model_invocations db @ [row]\<rparr>))"

section \<open>Redaction findings\<close>

record redaction_finding_insert =
  fi_entityType :: string
  fi_tokenRef :: "string option"
  fi_valueHash :: "string option"
  fi_residualScanResult :: "json option"

text \<open>\<^verbatim>\<open>min(retention_eligible_at)\<close> over the rows of a call: NULL when no row has a stamp.\<close>

definition min_eligible :: "string \<Rightarrow> db \<Rightarrow> int option" where
  "min_eligible callId db =
     (case List.map_filter rf_retention_eligible_at (sql_select (\<lambda>r. rf_call_id r = callId) (redaction_findings db)) of
        [] \<Rightarrow> None | t # ts \<Rightarrow> Some (fold min ts t))"

fun new_findings :: "pg \<Rightarrow> string \<Rightarrow> int option \<Rightarrow> uuid \<Rightarrow> redaction_finding_insert list \<Rightarrow> redaction_finding_row list" where
  "new_findings pg callId inherited i [] = []"
| "new_findings pg callId inherited i (f # fs) =
     \<lparr>rf_id = i, rf_call_id = callId, rf_entity_type = fi_entityType f, rf_token_ref = fi_tokenRef f,
      rf_value_hash = fi_valueHash f,
      rf_residual_scan_result = (case toJsonParam (fi_residualScanResult f) of None \<Rightarrow> JObj [] | Some j \<Rightarrow> j),
      rf_created_at = pg_now pg,
      rf_retention_eligible_at = (case inherited of None \<Rightarrow> Some (pg_now pg) | Some t \<Rightarrow> Some t),
      rf_soft_deleted_at = None, rf_hard_deleted_at = None\<rparr> # new_findings pg callId inherited (Suc i) fs"

definition replaceFindings :: "pg \<Rightarrow> string \<Rightarrow> redaction_finding_insert list \<Rightarrow> unit dbop" where
  "replaceFindings pg callId findings db =
     (if list_ex (\<lambda>f. fi_entityType f = []) findings then (Inl (DalError DAL_VALIDATION_FAILED), db)
      else if sql_exists (\<lambda>r. ct_call_id r = callId \<and> ct_hard_deleted_at r \<noteq> None) (clean_transcripts db)
              \<or> sql_exists (\<lambda>r. rf_call_id r = callId \<and> rf_hard_deleted_at r \<noteq> None) (redaction_findings db)
      then (Inl (DalError DAL_QUERY_FAILED), db)
      else
        (Inr (), db\<lparr>next_uuid := next_uuid db + length findings,
           redaction_findings :=
             sql_update (\<lambda>r. rf_call_id r = callId \<and> rf_soft_deleted_at r = None)
               (\<lambda>r. r\<lparr>rf_soft_deleted_at := Some (pg_now pg)\<rparr>) (redaction_findings db)
             @ new_findings pg callId (min_eligible callId db) (next_uuid db) findings\<rparr>))"

definition getFindings :: "string \<Rightarrow> db \<Rightarrow> redaction_finding_row list" where
  "getFindings callId db =
     sort_key rf_created_at (sql_select (\<lambda>r. rf_call_id r = callId \<and> rf_soft_deleted_at r = None
        \<and> rf_hard_deleted_at r = None) (redaction_findings db))"

section \<open>Laws\<close>

text \<open>One candidate per call; a failed candidate carries its kind and no verbatim phrase.\<close>

definition candidate_ok :: "extraction_candidate_row \<Rightarrow> bool" where
  "candidate_ok r \<longleftrightarrow> (ec_pii_scan_status r = PS_failed \<longrightarrow>
     kp_customer_language (ec_payload r) = [] \<and> ec_pii_scan_failure_kind r \<noteq> None)"

definition candidates_ok :: "db \<Rightarrow> bool" where
  "candidates_ok db \<longleftrightarrow>
     distinct (map ec_call_id (extraction_candidates db)) \<and> list_all candidate_ok (extraction_candidates db)"

lemma candidates_okI:
  "distinct (map ec_call_id t) \<Longrightarrow> list_all candidate_ok t \<Longrightarrow> candidates_ok (db\<lparr>extraction_candidates := t\<rparr>)"
  unfolding candidates_ok_def by simp

lemma candidates_ok_update:
  assumes "candidates_ok db" "\<And>r. ec_call_id (f r) = ec_call_id r" "\<And>r. p r \<Longrightarrow> candidate_ok r \<Longrightarrow> candidate_ok (f r)"
  shows "candidates_ok (db\<lparr>extraction_candidates := sql_update p f (extraction_candidates db)\<rparr>)"
proof -
  have "list_all candidate_ok (sql_update p f (extraction_candidates db))"
    using assms(1,3) by (auto simp: candidates_ok_def list_all_iff set_sql_update)
  moreover have "distinct (map ec_call_id (sql_update p f (extraction_candidates db)))"
    unfolding map_sql_update [of ec_call_id f p, OF assms(2)] using assms(1) unfolding candidates_ok_def by simp
  ultimately show ?thesis by (intro candidates_okI)
qed

lemma upsertExtractionCandidate_ok:
  assumes "candidates_ok db" "upsertExtractionCandidate pg c v db = (r, db')"
  shows "candidates_ok db'"
proof -
  let ?upd = "\<lambda>db. db\<lparr>extraction_candidates :=
      sql_update (\<lambda>r. ec_call_id r = c \<and> ec_hard_deleted_at r = None) (replace_candidate v) (extraction_candidates db)\<rparr>"
  have repl: "candidates_ok (?upd db)"
    using assms(1) by (rule candidates_ok_update) (simp_all add: replace_candidate_def candidate_ok_def)
  have new: "candidates_ok (db\<lparr>extraction_candidates := extraction_candidates db @ [new_candidate pg c v]\<rparr>)"
    if "\<not> sql_exists (\<lambda>r. ec_call_id r = c) (extraction_candidates db)"
    using assms(1) that
    by (intro candidates_okI) (auto simp: candidates_ok_def candidate_ok_def new_candidate_def sql_exists_iff)
  show ?thesis
    using assms repl new
    by (auto simp: upsertExtractionCandidate_def Let_def split: if_splits option.splits)
qed

lemma markPiiScanFailed_ok: "candidates_ok db \<Longrightarrow> markPiiScanFailed pg c f db = (r, db') \<Longrightarrow> candidates_ok db'"
  by (auto simp: markPiiScanFailed_def fail_candidate_def candidate_ok_def split: if_splits option.splits intro!: candidates_ok_update)

lemma markPiiScanPassed_ok: "candidates_ok db \<Longrightarrow> markPiiScanPassed c db = (r, db') \<Longrightarrow> candidates_ok db'"
  by (auto simp: markPiiScanPassed_def Let_def candidate_ok_def intro!: candidates_ok_update)

text \<open>The latch: a pass leaves every failed candidate failed.\<close>

lemma markPiiScanPassed_keeps_failed:
  assumes "markPiiScanPassed c db = (r, db')" "x \<in> set (extraction_candidates db)" "ec_pii_scan_status x = PS_failed"
  shows "x \<in> set (extraction_candidates db')"
  using assms by (auto simp: markPiiScanPassed_def Let_def set_sql_update)

lemma getExtractionCandidate_Some:
  "getExtractionCandidate c db = Some r \<Longrightarrow> r \<in> set (extraction_candidates db) \<and> live_candidate c r"
  by (auto simp: getExtractionCandidate_def sql_select_def dest!: first_row_Some)

lemma getCleanTranscript_Some:
  "getCleanTranscript c db = Some r \<Longrightarrow> r \<in> set (clean_transcripts db) \<and> live_clean c r"
  by (auto simp: getCleanTranscript_def sql_select_def dest!: first_row_Some)

text \<open>A tombstone is final: neither a transcript nor a token can be written for the call again.\<close>

lemma tombstone_final:
  assumes "isRawPurged c db"
  shows "\<exists>e. putTranscript pg encrypt c t db = (Inl e, db)" and "\<exists>e. putToken encrypt c k t db = (Inl e, db)"
  using assms by (auto simp: putTranscript_def putToken_def case_prod_beta Let_def)

lemma insertRawTombstone_purged: "isRawPurged c (insertRawTombstone c db)"
  by (simp add: insertRawTombstone_def isRawPurged_def)

text \<open>What these writes leave alone: the part of the state the pipeline state machine owns.\<close>

definition same_spine :: "db \<Rightarrow> db \<Rightarrow> bool" where
  "same_spine db db' \<longleftrightarrow>
     call_state db' = call_state db \<and> review_queue db' = review_queue db \<and> processing_log db' = processing_log db
     \<and> next_uuid db \<le> next_uuid db' \<and> (alerts_deduped db \<longrightarrow> alerts_deduped db')"

lemma same_spine_refl [simp]: "same_spine db db"
  by (simp add: same_spine_def)

lemma same_spine_trans: "same_spine a b \<Longrightarrow> same_spine b c \<Longrightarrow> same_spine a c"
  by (simp add: same_spine_def)

lemma same_spine_db_ok: "same_spine db db' \<Longrightarrow> db_ok db \<Longrightarrow> db_ok db'"
  by (fastforce simp: same_spine_def db_ok_def)

lemma same_spine_artifacts [simp]:
  "same_spine db (db\<lparr>extraction_candidates := a\<rparr>)" "same_spine db (db\<lparr>clean_transcripts := b\<rparr>)"
  "same_spine db (db\<lparr>raw_transcripts := rt\<rparr>)" "same_spine db (db\<lparr>token_vault := d\<rparr>)"
  "same_spine db (db\<lparr>structured_knowledge := e\<rparr>)" "same_spine db (db\<lparr>daily_cost_usage := f\<rparr>)"
  "same_spine db (db\<lparr>next_uuid := Suc (next_uuid db), model_invocations := g\<rparr>)"
  "same_spine db (db\<lparr>job_queue := j\<rparr>)" "same_spine db (db\<lparr>redaction_findings := k\<rparr>)"
  by (simp_all add: same_spine_def alerts_deduped_def)

lemma upsertExtractionCandidate_spine: "upsertExtractionCandidate pg c v db = (r, db') \<Longrightarrow> same_spine db db'"
  by (auto simp: upsertExtractionCandidate_def Let_def split: if_splits option.splits)

lemma markPiiScanFailed_spine: "markPiiScanFailed pg c f db = (r, db') \<Longrightarrow> same_spine db db'"
  by (auto simp: markPiiScanFailed_def split: if_splits option.splits)

lemma markPiiScanPassed_spine: "markPiiScanPassed c db = (r, db') \<Longrightarrow> same_spine db db'"
  by (auto simp: markPiiScanPassed_def Let_def)

lemma putTranscript_spine: "putTranscript pg e c t db = (r, db') \<Longrightarrow> same_spine db db'"
  by (auto simp: putTranscript_def Let_def case_prod_beta split: if_splits)

lemma upsertStructuredKnowledge_spine: "upsertStructuredKnowledge pg c v db = (r, db') \<Longrightarrow> same_spine db db'"
  by (auto simp: upsertStructuredKnowledge_def Let_def split: if_splits option.splits)

lemma recordModelInvocation_spine: "recordModelInvocation pg v db = (r, db') \<Longrightarrow> same_spine db db'"
  by (auto simp: recordModelInvocation_def Let_def split: if_splits)

lemma recordAlert_spine: "recordAlertWithInsertStatus pg v db = (r, db') \<Longrightarrow> same_spine db db'"
  using recordAlert_deduped [of db pg v r db']
  by (auto simp: same_spine_def recordAlertWithInsertStatus_def Let_def split: if_splits option.splits)

lemma putToken_spine: "putToken e c k t db = (r, db') \<Longrightarrow> same_spine db db'"
  by (auto simp: putToken_def Let_def case_prod_beta split: if_splits)

lemma upsertCleanTranscript_spine: "upsertCleanTranscript pg c t s rs db = (r, db') \<Longrightarrow> same_spine db db'"
  by (auto simp: upsertCleanTranscript_def Let_def split: if_splits option.splits)

lemma replaceFindings_spine: "replaceFindings pg c fs db = (r, db') \<Longrightarrow> same_spine db db'"
  by (auto simp: replaceFindings_def same_spine_def alerts_deduped_def split: if_splits)

end
