(* ===== verification/Model_Cost.thy ===== *)
theory Model_Cost
  imports Artifact_Repo Js_Date
begin

text \<open>
  The daily model-cost guardrail: \<^verbatim>\<open>src/src/model/cost.ts\<close> over
  \<^verbatim>\<open>src/src/db/repositories/daily-cost-usage-repo.ts\<close>.  Dollar amounts are rationals (the arithmetic of
  the source on doubles is taken as exact); \<^verbatim>\<open>toFixed(6)\<close> rounds what is written to six decimals.  A
  reservation is one transaction under an advisory lock on the day, so reservations of concurrent
  workers are a sequence.
\<close>

section \<open>The day's row\<close>

text \<open>\<^verbatim>\<open>Number.prototype.toFixed(6)\<close>: the nearest multiple of a millionth; the magnitude is rounded, ties away from zero.\<close>

definition toFixed6 :: "rat \<Rightarrow> rat" where
  "toFixed6 x =
     (if x < 0 then - (of_int \<lfloor>- x * 1000000 + 1 / 2\<rfloor> / 1000000)
      else of_int \<lfloor>x * 1000000 + 1 / 2\<rfloor> / 1000000)"

definition getDay :: "string \<Rightarrow> db \<Rightarrow> daily_cost_row option" where
  "getDay day db = first_row (sql_select (\<lambda>r. dc_day r = day) (daily_cost_usage db))"

text \<open>The pattern \<^verbatim>\<open>YYYY-MM-DD\<close> of the input schema.\<close>

definition day_ok :: "string \<Rightarrow> bool" where
  "day_ok day \<longleftrightarrow> length day = 10
     \<and> list_all (\<lambda>(i, c). if i = 4 \<or> i = 7 then c = CHR ''-'' else let n = of_char c :: nat in 48 \<le> n \<and> n \<le> 57)
         (zip [0..<10] day)"

definition upsertDailyCost :: "pg \<Rightarrow> string \<Rightarrow> nat \<Rightarrow> nat \<Rightarrow> rat \<Rightarrow> daily_cost_row dbop" where
  "upsertDailyCost pg day inputTokens outputTokens estimatedCost db =
     (if \<not> day_ok day \<or> estimatedCost < 0 then (Inl (DalError DAL_VALIDATION_FAILED), db)
      else
        let cost = toFixed6 estimatedCost;
            p = (\<lambda>r. dc_day r = day);
            f = (\<lambda>r. r\<lparr>dc_input_tokens := dc_input_tokens r + inputTokens,
                       dc_output_tokens := dc_output_tokens r + outputTokens,
                       dc_estimated_cost := dc_estimated_cost r + cost, dc_updated_at := pg_now pg\<rparr>);
            row = \<lparr>dc_day = day, dc_input_tokens = inputTokens, dc_output_tokens = outputTokens,
                   dc_estimated_cost = cost, dc_updated_at = pg_now pg\<rparr>
        in case first_row (sql_updated p f (daily_cost_usage db)) of
             None \<Rightarrow> (Inr row, db\<lparr>daily_cost_usage := daily_cost_usage db @ [row]\<rparr>)
           | Some r \<Rightarrow> (Inr r, db\<lparr>daily_cost_usage := sql_update p f (daily_cost_usage db)\<rparr>))"

definition adjustDailyCost :: "pg \<Rightarrow> string \<Rightarrow> nat \<Rightarrow> nat \<Rightarrow> rat \<Rightarrow> daily_cost_row dbop" where
  "adjustDailyCost pg day inputTokensDelta outputTokensDelta estimatedCostDelta db =
     (if \<not> day_ok day then (Inl (DalError DAL_VALIDATION_FAILED), db)
      else
        let delta = toFixed6 estimatedCostDelta;
            p = (\<lambda>r. dc_day r = day \<and> dc_estimated_cost r + delta \<ge> 0);
            f = (\<lambda>r. r\<lparr>dc_input_tokens := dc_input_tokens r + inputTokensDelta,
                       dc_output_tokens := dc_output_tokens r + outputTokensDelta,
                       dc_estimated_cost := dc_estimated_cost r + delta, dc_updated_at := pg_now pg\<rparr>)
        in case first_row (sql_updated p f (daily_cost_usage db)) of
             None \<Rightarrow> (Inl (DalError DAL_COST_ADJUST_REJECTED), db)
           | Some r \<Rightarrow> (Inr r, db\<lparr>daily_cost_usage := sql_update p f (daily_cost_usage db)\<rparr>))"

section \<open>Reserve, settle, release\<close>

record model_rates =
  inputUsdPerMtok :: rat
  outputUsdPerMtok :: rat

record cost_config =
  DAILY_MODEL_COST_CAP_USD :: rat
  DAILY_MODEL_COST_WARNING_THRESHOLD_RATIO :: rat

definition estimateCostUsd :: "nat \<Rightarrow> nat \<Rightarrow> model_rates \<Rightarrow> rat" where
  "estimateCostUsd inputTokens outputTokens rates =
     (of_nat inputTokens * inputUsdPerMtok rates + of_nat outputTokens * outputUsdPerMtok rates) / 1000000"

definition estimatePayloadTokens :: "string \<Rightarrow> string \<Rightarrow> string \<Rightarrow> nat \<Rightarrow> nat" where
  "estimatePayloadTokens system userText outputFormatJson overheadTokens =
     length (system @ userText @ outputFormatJson) + overheadTokens"

definition utcDay :: "int \<Rightarrow> string" where
  "utcDay now = take 10 (toISOString now)"

record budget_reservation =
  br_day :: string
  br_reservedUsd :: rat
  br_warningThresholdReached :: bool

definition reserveModelBudget :: "pg \<Rightarrow> cost_config \<Rightarrow> int \<Rightarrow> rat \<Rightarrow> budget_reservation option dbop" where
  "reserveModelBudget pg config now requestCostUsd =
     (let day = utcDay now in withTransaction (\<lambda>db.
        let spentUsd = (case getDay day db of None \<Rightarrow> 0 | Some row \<Rightarrow> dc_estimated_cost row) in
        if spentUsd + requestCostUsd > DAILY_MODEL_COST_CAP_USD config then (Inr None, db)
        else op_bind (upsertDailyCost pg day 0 0 requestCostUsd)
          (\<lambda>_. op_return (Some
             \<lparr>br_day = day, br_reservedUsd = requestCostUsd,
              br_warningThresholdReached =
                (spentUsd + requestCostUsd
                  \<ge> DAILY_MODEL_COST_CAP_USD config * DAILY_MODEL_COST_WARNING_THRESHOLD_RATIO config)\<rparr>)) db))"

definition settleModelUsage :: "pg \<Rightarrow> budget_reservation \<Rightarrow> nat \<Rightarrow> nat \<Rightarrow> model_rates \<Rightarrow> unit dbop" where
  "settleModelUsage pg r inputTokens outputTokens rates =
     op_bind (adjustDailyCost pg (br_day r) inputTokens outputTokens
                (estimateCostUsd inputTokens outputTokens rates - br_reservedUsd r)) (\<lambda>_. op_return ())"

definition releaseModelReservation :: "pg \<Rightarrow> budget_reservation \<Rightarrow> unit dbop" where
  "releaseModelReservation pg r = op_bind (adjustDailyCost pg (br_day r) 0 0 (- br_reservedUsd r)) (\<lambda>_. op_return ())"

section \<open>The cap\<close>

definition spent :: "string \<Rightarrow> db \<Rightarrow> rat" where
  "spent day db = (case getDay day db of None \<Rightarrow> 0 | Some r \<Rightarrow> dc_estimated_cost r)"

lemma round_bounds: "x - 1 / 2000000 \<le> of_int \<lfloor>x * 1000000 + 1 / 2\<rfloor> / 1000000" "of_int \<lfloor>x * 1000000 + 1 / 2\<rfloor> / 1000000 \<le> x + 1 / 2000000"
  for x :: rat
proof -
  let ?n = "\<lfloor>x * 1000000 + 1 / 2\<rfloor>"
  have "of_int ?n \<le> x * 1000000 + 1 / 2" "x * 1000000 + 1 / 2 < of_int ?n + 1" by linarith+
  then show "x - 1 / 2000000 \<le> of_int ?n / 1000000" "of_int ?n / 1000000 \<le> x + 1 / 2000000" by (simp_all add: field_simps)
qed

lemma toFixed6_bounds: "x - 1 / 2000000 \<le> toFixed6 x" "toFixed6 x \<le> x + 1 / 2000000"
proof -
  define n m where "n = of_int \<lfloor>x * 1000000 + 1 / 2\<rfloor> / (1000000 :: rat)" and "m = of_int \<lfloor>- x * 1000000 + 1 / 2\<rfloor> / (1000000 :: rat)"
  have "toFixed6 x = (if x < 0 then - m else n)" by (simp add: toFixed6_def n_def m_def)
  moreover have "x - 1 / 2000000 \<le> n" "n \<le> x + 1 / 2000000" "- x - 1 / 2000000 \<le> m" "m \<le> - x + 1 / 2000000"
    using round_bounds [of x] round_bounds [of "- x"] unfolding n_def m_def by blast+
  ultimately show "x - 1 / 2000000 \<le> toFixed6 x" "toFixed6 x \<le> x + 1 / 2000000" by auto
qed

lemma toFixed6_nonpos: "x \<le> 0 \<Longrightarrow> toFixed6 x \<le> 0"
proof -
  assume "x \<le> 0"
  then have "0 \<le> \<lfloor>- x * 1000000 + 1 / 2\<rfloor>" by (simp add: zero_le_floor)
  then show ?thesis using \<open>x \<le> 0\<close> by (cases "x = 0") (auto simp: toFixed6_def floor_eq_iff)
qed

lemma upsertDailyCost_spent:
  assumes "upsertDailyCost pg day a b cost db = (Inr row, db')"
  shows "spent day db' = spent day db + toFixed6 cost" and "d \<noteq> day \<Longrightarrow> spent d db' = spent d db"
proof -
  let ?f = "\<lambda>r. r\<lparr>dc_input_tokens := dc_input_tokens r + a, dc_output_tokens := dc_output_tokens r + b,
      dc_estimated_cost := dc_estimated_cost r + toFixed6 cost, dc_updated_at := pg_now pg\<rparr>"
  let ?p = "\<lambda>r. dc_day r = day" and ?t = "daily_cost_usage db"
  have upd: "first_row (sql_select (\<lambda>r. dc_day r = x) (sql_update ?p ?f ?t)) =
      map_option (\<lambda>r. if ?p r then ?f r else r) (first_row (sql_select (\<lambda>r. dc_day r = x) ?t))" for x
    by (rule first_row_update) simp
  have key: "dc_day r = x" if "first_row (sql_select (\<lambda>r. dc_day r = x) ?t) = Some r" for x r
    using that by (auto simp: sql_select_def dest!: first_row_Some)
  have valid: "\<not> (\<not> day_ok day \<or> cost < 0)"
    using assms by (auto simp: upsertDailyCost_def split: if_splits)
  have "spent day db' = spent day db + toFixed6 cost \<and> (d \<noteq> day \<longrightarrow> spent d db' = spent d db)"
  proof (cases "filter ?p ?t")
    case Nil
    with assms valid have "daily_cost_usage db' = ?t @ [row]" "dc_day row = day" "dc_estimated_cost row = toFixed6 cost"
      by (auto simp: upsertDailyCost_def Let_def sql_updated_def)
    with Nil show ?thesis by (simp add: spent_def getDay_def sql_select_def)
  next
    case (Cons x xs)
    with assms valid have db': "daily_cost_usage db' = sql_update ?p ?f ?t"
      by (auto simp: upsertDailyCost_def Let_def sql_updated_def)
    have x: "first_row (sql_select ?p ?t) = Some x" using Cons by (simp add: sql_select_def)
    have "spent day db' = spent day db + toFixed6 cost"
    proof -
      have "getDay day db' = Some (?f x)" unfolding getDay_def db' upd x using key [OF x] by simp
      moreover have "getDay day db = Some x" unfolding getDay_def x ..
      ultimately show ?thesis by (simp add: spent_def)
    qed
    moreover have "spent d db' = spent d db" if "d \<noteq> day"
    proof (cases "first_row (sql_select (\<lambda>r. dc_day r = d) ?t)")
      case None
      then show ?thesis by (simp add: spent_def getDay_def db' upd)
    next
      case (Some r)
      with key [OF Some] that show ?thesis by (simp add: spent_def getDay_def db' upd)
    qed
    ultimately show ?thesis by blast
  qed
  then show "spent day db' = spent day db + toFixed6 cost" and "d \<noteq> day \<Longrightarrow> spent d db' = spent d db" by blast+
qed

lemma adjustDailyCost_spent:
  assumes "adjustDailyCost pg day a b delta db = (Inr row, db')" "distinct (map dc_day (daily_cost_usage db))"
  shows "spent day db' = spent day db + toFixed6 delta" and "0 \<le> spent day db'" and "d \<noteq> day \<Longrightarrow> spent d db' = spent d db"
    and "map dc_day (daily_cost_usage db') = map dc_day (daily_cost_usage db)"
proof -
  let ?f = "\<lambda>r. r\<lparr>dc_input_tokens := dc_input_tokens r + a, dc_output_tokens := dc_output_tokens r + b,
      dc_estimated_cost := dc_estimated_cost r + toFixed6 delta, dc_updated_at := pg_now pg\<rparr>"
  let ?p = "\<lambda>r. dc_day r = day \<and> dc_estimated_cost r + toFixed6 delta \<ge> 0" and ?t = "daily_cost_usage db"
  have db': "db' = db\<lparr>daily_cost_usage := sql_update ?p ?f ?t\<rparr>" and ex: "sql_updated ?p ?f ?t \<noteq> []"
    using assms(1) by (auto simp: adjustDailyCost_def Let_def split: if_splits option.splits)
  then obtain r where r: "r \<in> set ?t" "?p r" by (auto simp: sql_updated_Nil)
  have sel: "sql_select (\<lambda>x. dc_day x = day) ?t = [r]"
    unfolding sql_select_def using r assms(2) by (intro filter_key_unique [of dc_day]) auto
  have upd: "first_row (sql_select (\<lambda>r. dc_day r = x) (sql_update ?p ?f ?t)) =
      map_option (\<lambda>r. if ?p r then ?f r else r) (first_row (sql_select (\<lambda>r. dc_day r = x) ?t))" for x
    by (rule first_row_update) simp
  show "spent day db' = spent day db + toFixed6 delta" and "0 \<le> spent day db'"
    using upd [of day] sel r(2) by (simp_all add: spent_def getDay_def db')
  show "d \<noteq> day \<Longrightarrow> spent d db' = spent d db"
    using upd [of d] by (auto simp: spent_def getDay_def db' sql_select_def split: option.splits dest!: first_row_Some)
  show "map dc_day (daily_cost_usage db') = map dc_day ?t" by (simp add: db' map_sql_update)
qed

lemma upsertDailyCost_days:
  assumes "upsertDailyCost pg day a b cost db = (Inr row, db')" "distinct (map dc_day (daily_cost_usage db))"
  shows "distinct (map dc_day (daily_cost_usage db'))"
  using assms
  by (auto simp: upsertDailyCost_def Let_def map_sql_update sql_updated_Nil
        split: if_splits option.splits)

text \<open>
  Any interleaving of the workers' reservations, settlements and releases.  A worker settles or releases a reservation it was given and holds; it may also drop
  one (a crash, or a failure that may have been billed), which stays booked.  The source does not check the actual cost of a settlement against the
  reservation, so the state notes per day by how much settlements overran theirs, as booked.
\<close>

record budget_state =
  bs_db :: db
  bs_open :: "budget_reservation list"
  bs_overrun :: "string \<Rightarrow> rat"

definition overran :: "budget_reservation \<Rightarrow> nat \<Rightarrow> nat \<Rightarrow> model_rates \<Rightarrow> rat" where
  "overran r inputTokens outputTokens rates = max 0 (toFixed6 (estimateCostUsd inputTokens outputTokens rates - br_reservedUsd r))"

inductive cost_step :: "cost_config \<Rightarrow> budget_state \<Rightarrow> budget_state \<Rightarrow> bool" for config :: cost_config where
  refuse: "reserveModelBudget pg config now cost (bs_db s) = (Inr None, db') \<Longrightarrow> cost_step config s (s\<lparr>bs_db := db'\<rparr>)"
| reserve: "reserveModelBudget pg config now cost (bs_db s) = (Inr (Some r), db') \<Longrightarrow> cost_step config s (s\<lparr>bs_db := db', bs_open := r # bs_open s\<rparr>)"
| settle: "r \<in> set (bs_open s) \<Longrightarrow> settleModelUsage pg r i out rates (bs_db s) = (Inr u, db') \<Longrightarrow>
     cost_step config s (s\<lparr>bs_db := db', bs_open := remove1 r (bs_open s), bs_overrun := (bs_overrun s)(br_day r := bs_overrun s (br_day r) + overran r i out rates)\<rparr>)"
| release: "r \<in> set (bs_open s) \<Longrightarrow> releaseModelReservation pg r (bs_db s) = (Inr u, db') \<Longrightarrow>
     cost_step config s (s\<lparr>bs_db := db', bs_open := remove1 r (bs_open s)\<rparr>)"
| drop: "r \<in> set (bs_open s) \<Longrightarrow> cost_step config s (s\<lparr>bs_open := remove1 r (bs_open s)\<rparr>)"

definition budget_start :: "db \<Rightarrow> budget_state" where
  "budget_start db = \<lparr>bs_db = db, bs_open = [], bs_overrun = (\<lambda>_. 0)\<rparr>"

definition within_cap :: "cost_config \<Rightarrow> budget_state \<Rightarrow> bool" where
  "within_cap config s \<longleftrightarrow> distinct (map dc_day (daily_cost_usage (bs_db s)))
     \<and> (\<forall>day. 0 \<le> bs_overrun s day \<and> spent day (bs_db s) \<le> DAILY_MODEL_COST_CAP_USD config + bs_overrun s day + 1 / 2000000)
     \<and> (\<forall>r \<in> set (bs_open s). 0 \<le> br_reservedUsd r)"

lemma reserve_refused: "reserveModelBudget pg config now cost db = (Inr None, db') \<Longrightarrow> db' = db"
  by (auto simp: reserveModelBudget_def withTransaction_def Let_def op_bind_def op_return_def split: if_splits option.splits sum.splits prod.splits)

lemma reserve_taken:
  assumes "reserveModelBudget pg config now cost db = (Inr (Some r), db')"
  obtains row where "upsertDailyCost pg (utcDay now) 0 0 cost db = (Inr row, db')" "spent (utcDay now) db + cost \<le> DAILY_MODEL_COST_CAP_USD config"
    "0 \<le> cost" "br_reservedUsd r = cost"
proof -
  have le: "spent (utcDay now) db + cost \<le> DAILY_MODEL_COST_CAP_USD config"
    using assms by (auto simp: reserveModelBudget_def withTransaction_def Let_def spent_def split: if_splits)
  then have le': "\<not> (case getDay (utcDay now) db of None \<Rightarrow> 0 | Some row \<Rightarrow> dc_estimated_cost row) + cost > DAILY_MODEL_COST_CAP_USD config"
    by (simp add: spent_def)
  from assms obtain row where row: "upsertDailyCost pg (utcDay now) 0 0 cost db = (Inr row, db')" and "br_reservedUsd r = cost"
    unfolding reserveModelBudget_def Let_def withTransaction_commit if_not_P [OF le'] by (auto simp: op_bind_eq_Inr op_return_def)
  moreover from row have "0 \<le> cost" by (auto simp: upsertDailyCost_def split: if_splits)
  ultimately show thesis using that le by blast
qed

lemma adjust_within:
  assumes "adjustDailyCost pg day a b delta (bs_db s) = (Inr row, db')" "within_cap config s" "max 0 (toFixed6 delta) \<le> extra"
    and "set open' \<subseteq> set (bs_open s)"
  shows "within_cap config (s\<lparr>bs_db := db', bs_open := open', bs_overrun := (bs_overrun s)(day := bs_overrun s day + extra)\<rparr>)"
proof -
  have d: "distinct (map dc_day (daily_cost_usage (bs_db s)))" using assms(2) by (simp add: within_cap_def)
  note a = adjustDailyCost_spent [OF assms(1) d]
  have old: "0 \<le> bs_overrun s x" "spent x (bs_db s) \<le> DAILY_MODEL_COST_CAP_USD config + bs_overrun s x + 1 / 2000000" for x
    using assms(2) unfolding within_cap_def by blast+
  have "spent x db' \<le> DAILY_MODEL_COST_CAP_USD config + ((bs_overrun s)(day := bs_overrun s day + extra)) x + 1 / 2000000" for x
    using a(1) a(3) [of x] old(2) [of x] assms(3) by (cases "x = day") auto
  moreover have "0 \<le> ((bs_overrun s)(day := bs_overrun s day + extra)) x" for x using old(1) [of x] assms(3) by auto
  moreover have "\<forall>r \<in> set open'. 0 \<le> br_reservedUsd r" using assms(2,4) unfolding within_cap_def by blast
  ultimately show ?thesis using a(4) d unfolding within_cap_def by (simp del: fun_upd_apply)
qed

lemma reserve_within:
  assumes "reserveModelBudget pg config now cost (bs_db s) = (Inr (Some r), db')" "within_cap config s"
  shows "within_cap config (s\<lparr>bs_db := db', bs_open := r # bs_open s\<rparr>)"
proof -
  obtain row where up: "upsertDailyCost pg (utcDay now) 0 0 cost (bs_db s) = (Inr row, db')" and le: "spent (utcDay now) (bs_db s) + cost \<le> DAILY_MODEL_COST_CAP_USD config"
    and nonneg: "0 \<le> cost" "br_reservedUsd r = cost" by (rule reserve_taken [OF assms(1)])
  have d: "distinct (map dc_day (daily_cost_usage (bs_db s)))" and old: "\<And>x. 0 \<le> bs_overrun s x"
    "\<And>x. spent x (bs_db s) \<le> DAILY_MODEL_COST_CAP_USD config + bs_overrun s x + 1 / 2000000" "\<forall>r \<in> set (bs_open s). 0 \<le> br_reservedUsd r"
    using assms(2) unfolding within_cap_def by blast+
  have "spent x db' \<le> DAILY_MODEL_COST_CAP_USD config + bs_overrun s x + 1 / 2000000" for x
  proof (cases "x = utcDay now")
    case True
    then have "spent x db' = spent (utcDay now) (bs_db s) + toFixed6 cost" using upsertDailyCost_spent(1) [OF up] by simp
    then show ?thesis using toFixed6_bounds(2) [of cost] le old(1) [of x] by linarith
  next
    case False
    then show ?thesis using upsertDailyCost_spent(2) [OF up] old(2) by simp
  qed
  then show ?thesis using upsertDailyCost_days [OF up d] old(1,3) nonneg unfolding within_cap_def by simp
qed

lemma cost_step_within: "cost_step config s s' \<Longrightarrow> within_cap config s \<Longrightarrow> within_cap config s'"
proof (induction rule: cost_step.induct)
  case (refuse pg now cost s db')
  from reserve_refused [OF refuse(1)] have "s\<lparr>bs_db := db'\<rparr> = s" by simp
  then show ?case using refuse(2) by simp
next
  case (reserve pg now cost s r db')
  then show ?case by (rule reserve_within)
next
  case (settle r s pg i out rates u db')
  obtain row where "adjustDailyCost pg (br_day r) i out (estimateCostUsd i out rates - br_reservedUsd r) (bs_db s) = (Inr row, db')"
    using settle(2) by (auto simp: settleModelUsage_def op_bind_eq_Inr op_return_def)
  from adjust_within [OF this settle(3), of "overran r i out rates" "remove1 r (bs_open s)"] show ?case by (simp add: overran_def set_remove1_subset)
next
  case (release r s pg u db')
  obtain row where adj: "adjustDailyCost pg (br_day r) 0 0 (- br_reservedUsd r) (bs_db s) = (Inr row, db')"
    using release(2) by (auto simp: releaseModelReservation_def op_bind_eq_Inr op_return_def)
  have "toFixed6 (- br_reservedUsd r) \<le> 0" using release(1,3) toFixed6_nonpos unfolding within_cap_def by simp
  then show ?case using adjust_within [OF adj release(3), of 0 "remove1 r (bs_open s)"] by (simp add: set_remove1_subset)
next
  case (drop r s)
  then show ?case using set_remove1_subset [of r "bs_open s"] unfolding within_cap_def by auto
qed

lemma cost_steps_within: "(cost_step config)\<^sup>*\<^sup>* s s' \<Longrightarrow> within_cap config s \<Longrightarrow> within_cap config s'"
  by (induction rule: rtranclp_induct) (auto intro: cost_step_within)

lemma reserveModelBudget_spine: "reserveModelBudget pg config now cost db = (r, db') \<Longrightarrow> same_spine db db'"
  by (auto simp: reserveModelBudget_def Let_def withTransaction_def upsertDailyCost_def op_bind_def op_return_def
        split: if_splits option.splits prod.splits sum.splits)

lemma adjustDailyCost_spine: "adjustDailyCost pg day a b delta db = (r, db') \<Longrightarrow> same_spine db db'"
  by (auto simp: adjustDailyCost_def Let_def split: if_splits option.splits)

lemma settleModelUsage_spine: "settleModelUsage pg r i out rates db = (x, db') \<Longrightarrow> same_spine db db'"
  by (auto simp: settleModelUsage_def op_bind_def op_return_def split: prod.splits sum.splits dest: adjustDailyCost_spine)

lemma releaseModelReservation_spine: "releaseModelReservation pg r db = (x, db') \<Longrightarrow> same_spine db db'"
  by (auto simp: releaseModelReservation_def op_bind_def op_return_def split: prod.splits sum.splits dest: adjustDailyCost_spine)

end
