(* ===== verification/Review_Repo.thy ===== *)
theory Review_Repo
  imports Call_State_Repo
begin

text \<open>
  \<^verbatim>\<open>src/src/db/repositories/review-queue-repo.ts\<close>: the review queue, its terminal transitions and the
  predicates the retention purge reads.
\<close>

section \<open>Operations\<close>

record enqueue_review_input =
  er_callId :: string
  er_heldReason :: held_reason
  er_slaDueAt :: int
  er_assignee :: "string option"

definition enqueueReview :: "pg \<Rightarrow> enqueue_review_input \<Rightarrow> review_queue_row dbop" where
  "enqueueReview pg v db =
     (if er_callId v = [] then (Inl (DalError DAL_VALIDATION_FAILED), db)
      else case insert_review pg (er_callId v) (er_heldReason v) (er_slaDueAt v) (er_assignee v) db of
          (Some row, db1) \<Rightarrow> (Inr row, db1)
        | (None, db1) \<Rightarrow>
            (case first_row (sort_key rq_created_at
                    (sql_select (\<lambda>r. rq_call_id r = er_callId v \<and> active_review r) (review_queue db1))) of
               Some row \<Rightarrow> (Inr row, db1)
             | None \<Rightarrow> (Inl (DalError DAL_REVIEW_INVARIANT), db1)))"

definition hasActiveReviewForCall :: "string \<Rightarrow> db \<Rightarrow> bool" where
  "hasActiveReviewForCall callId db =
     sql_exists (\<lambda>r. rq_call_id r = callId \<and> rq_status r \<in> {RS_open, RS_in_review}) (review_queue db)"

definition hasTerminalReviewForCall :: "string \<Rightarrow> db \<Rightarrow> bool" where
  "hasTerminalReviewForCall callId db =
     sql_exists (\<lambda>r. rq_call_id r = callId \<and> rq_status r \<in> {RS_resolved, RS_unresolvable}) (review_queue db)"

definition close_call_row :: "pg \<Rightarrow> call_state_row \<Rightarrow> call_state_row" where
  "close_call_row pg r = r\<lparr>cs_status := ''review_closed'', cs_updated_at := pg_now pg\<rparr>"

definition held_call :: "string \<Rightarrow> call_state_row \<Rightarrow> bool" where
  "held_call callId r \<longleftrightarrow> cs_call_id r = callId \<and> cs_status r = ''held''"

definition review_audit :: "string \<Rightarrow> string \<Rightarrow> json_object" where
  "review_audit reviewStatus callStatus =
     [(''review_status'', JStr reviewStatus), (''call_state_status'', JStr callStatus)]"

definition unresolvable_row :: "pg \<Rightarrow> review_queue_row \<Rightarrow> review_queue_row" where
  "unresolvable_row pg r = r\<lparr>rq_status := RS_unresolvable, rq_resolved_at := Some (pg_now pg)\<rparr>"

definition markUnresolvable :: "pg \<Rightarrow> string \<Rightarrow> string \<Rightarrow> unit dbop" where
  "markUnresolvable pg callId actor =
     (if js_trim actor = [] then op_throw (DalError DAL_VALIDATION_FAILED)
      else withTransaction (\<lambda>db.
        case sql_select (\<lambda>r. rq_call_id r = callId \<and> active_review r) (review_queue db) of
          [review] \<Rightarrow>
            (let db1 = db\<lparr>review_queue := sql_update (\<lambda>r. rq_id r = rq_id review) (unresolvable_row pg)
                             (review_queue db)\<rparr>;
                 moved = sql_updated (held_call callId) (close_call_row pg) (call_state db1);
                 db2 = db1\<lparr>call_state := sql_update (held_call callId) (close_call_row pg) (call_state db1)\<rparr>
             in if length moved \<noteq> 1 then (Inl (DalError DAL_REVIEW_INVARIANT), db2)
                else op_bind (recordOperatorAction pg (rq_id review) (js_trim actor) OA_mark_unresolvable
                        (Some (JObj (review_audit (review_status_name (rq_status review)) ''held'')))
                        (Some (JObj (review_audit ''unresolvable'' ''review_closed''))))
                       (\<lambda>_. op_return ()) db2)
        | _ \<Rightarrow> (Inl (DalError DAL_REVIEW_INVARIANT), db)))"

record review_transition =
  rt_reviewQueueId :: uuid
  rt_callId :: string
  rt_before :: json_object
  rt_after :: json_object

definition close_row :: "pg \<Rightarrow> review_status \<Rightarrow> string \<Rightarrow> review_queue_row \<Rightarrow> review_queue_row" where
  "close_row pg status actor r =
     r\<lparr>rq_status := status, rq_resolved_at := Some (pg_now pg),
       rq_assignee := (case rq_assignee r of None \<Rightarrow> Some actor | Some a \<Rightarrow> Some a)\<rparr>"

text \<open>Enlisted in the caller's transaction, so it has none of its own.\<close>

definition markUnresolvableByReviewId :: "pg \<Rightarrow> uuid \<Rightarrow> string \<Rightarrow> review_transition dbop" where
  "markUnresolvableByReviewId pg reviewQueueId actor db =
     (case first_row (sql_select (\<lambda>r. rq_id r = reviewQueueId) (review_queue db)) of
        None \<Rightarrow> (Inl (DalError DAL_REVIEW_INVARIANT), db)
      | Some review \<Rightarrow>
          if rq_status review \<noteq> RS_open \<and> rq_status review \<noteq> RS_in_review
          then (Inl (DalError DAL_REVIEW_INVARIANT), db)
          else
            let db1 = db\<lparr>review_queue := sql_update (\<lambda>r. rq_id r = reviewQueueId)
                             (close_row pg RS_unresolvable actor) (review_queue db)\<rparr>;
                moved = sql_updated (held_call (rq_call_id review)) (close_call_row pg) (call_state db1);
                db2 = db1\<lparr>call_state := sql_update (held_call (rq_call_id review)) (close_call_row pg)
                             (call_state db1)\<rparr>
            in if length moved \<noteq> 1 then (Inl (DalError DAL_REVIEW_INVARIANT), db2)
               else (Inr \<lparr>rt_reviewQueueId = reviewQueueId, rt_callId = rq_call_id review,
                          rt_before = review_audit (review_status_name (rq_status review)) ''held'',
                          rt_after = review_audit ''unresolvable'' ''review_closed''\<rparr>, db2))"

definition getReview :: "uuid \<Rightarrow> db \<Rightarrow> review_queue_row option" where
  "getReview i db = first_row (sql_select (\<lambda>r. rq_id r = i) (review_queue db))"

definition listOpen :: "db \<Rightarrow> review_queue_row list" where
  "listOpen db = sort_key rq_created_at (sql_select active_review (review_queue db))"

text \<open>\<^verbatim>\<open>ORDER BY held_reason\<close> sorts by the enum's own order, the order of \<open>HELD_REASON\<close>.\<close>

definition countOpenByReason :: "db \<Rightarrow> (string \<times> nat) list" where
  "countOpenByReason db =
     (let rows = sql_select active_review (review_queue db) in
      map (\<lambda>h. (held_reason_name h, length (filter (\<lambda>r. rq_held_reason r = h) rows)))
        (filter (\<lambda>h. h \<in> rq_held_reason ` set rows) HELD_REASON))"

definition setStatus :: "pg \<Rightarrow> uuid \<Rightarrow> review_status \<Rightarrow> string option \<Rightarrow> db \<Rightarrow> review_queue_row option \<times> db" where
  "setStatus pg i status assignee db =
     (let resolved = (status = RS_resolved \<or> status = RS_unresolvable);
          p = (\<lambda>r. rq_id r = i);
          f = (\<lambda>r. r\<lparr>rq_status := status,
                     rq_assignee := (case assignee of None \<Rightarrow> rq_assignee r | Some a \<Rightarrow> Some a),
                     rq_resolved_at := (if resolved then Some (pg_now pg) else rq_resolved_at r)\<rparr>)
      in (first_row (sql_updated p f (review_queue db)),
          db\<lparr>review_queue := sql_update p f (review_queue db)\<rparr>))"

section \<open>Predicates of the retention purge\<close>

definition raw_purge_eligible :: "int \<Rightarrow> int \<Rightarrow> review_queue_row \<Rightarrow> bool" where
  "raw_purge_eligible capHours now r \<longleftrightarrow>
     rq_status r \<in> {RS_open, RS_in_review, RS_unresolvable} \<and> rq_raw_purged_at r = None
     \<and> rq_created_at r + capHours * 3600000 < now"

definition listRawPurgeEligible :: "int \<Rightarrow> int \<Rightarrow> nat option \<Rightarrow> db \<Rightarrow> review_queue_row list" where
  "listRawPurgeEligible capHours now limit db =
     (let rows = sort_key rq_created_at (sql_select (raw_purge_eligible capHours now) (review_queue db)) in
      case limit of None \<Rightarrow> rows | Some n \<Rightarrow> take n rows)"

definition countRawPurgeEligible :: "int \<Rightarrow> int \<Rightarrow> db \<Rightarrow> nat" where
  "countRawPurgeEligible capHours now db = length (sql_select (raw_purge_eligible capHours now) (review_queue db))"

definition hasBlockingReviewForRawPurge :: "string \<Rightarrow> db \<Rightarrow> bool" where
  "hasBlockingReviewForRawPurge callId db =
     sql_exists (\<lambda>r. rq_call_id r = callId \<and> rq_status r \<in> {RS_open, RS_in_review, RS_unresolvable}
                     \<and> rq_raw_purged_at r = None) (review_queue db)"

definition hasRawPurgedReview :: "string \<Rightarrow> db \<Rightarrow> bool" where
  "hasRawPurgedReview callId db =
     sql_exists (\<lambda>r. rq_call_id r = callId \<and> rq_raw_purged_at r \<noteq> None) (review_queue db)"

definition hasBlockingReviewForCleanTranscript :: "string \<Rightarrow> db \<Rightarrow> bool" where
  "hasBlockingReviewForCleanTranscript callId db =
     sql_exists (\<lambda>r. rq_call_id r = callId \<and> rq_status r \<in> {RS_open, RS_in_review, RS_unresolvable})
       (review_queue db)"

definition purged_row :: "int \<Rightarrow> review_queue_row \<Rightarrow> review_queue_row" where
  "purged_row now r = r\<lparr>rq_raw_purged_at := Some now\<rparr>"

definition markRawPurged :: "uuid \<Rightarrow> int \<Rightarrow> db \<Rightarrow> uuid option \<times> db" where
  "markRawPurged i now db =
     (let p = (\<lambda>r. rq_id r = i \<and> rq_raw_purged_at r = None) in
      (map_option rq_id (first_row (sql_updated p (purged_row now) (review_queue db))),
       db\<lparr>review_queue := sql_update p (purged_row now) (review_queue db)\<rparr>))"

section \<open>The index on active reviews\<close>

interpretation unresolvable_narrows: narrowing_update rq_call_id active_review "unresolvable_row pg" for pg
  by unfold_locales (simp_all add: unresolvable_row_def active_review_def)

interpretation resolve_narrows: narrowing_update rq_call_id active_review "close_row pg RS_resolved a" for pg a
  by unfold_locales (simp_all add: close_row_def active_review_def)

interpretation give_up_narrows: narrowing_update rq_call_id active_review "close_row pg RS_unresolvable a" for pg a
  by unfold_locales (simp_all add: close_row_def active_review_def)

interpretation purge_narrows: narrowing_update rq_call_id active_review "purged_row now" for now
  by unfold_locales (simp_all add: purged_row_def active_review_def)

lemma hasActiveReviewForCall_eq: "hasActiveReviewForCall callId db = has_active_review callId db"
  by (simp add: hasActiveReviewForCall_def has_active_review_def active_review_def)

lemma rq_key_updates [simp]:
  "rq_id (unresolvable_row pg r) = rq_id r" "rq_call_id (unresolvable_row pg r) = rq_call_id r"
  "rq_id (close_row pg s a r) = rq_id r" "rq_call_id (close_row pg s a r) = rq_call_id r"
  "rq_id (purged_row now r) = rq_id r" "rq_call_id (purged_row now r) = rq_call_id r"
  by (simp_all add: unresolvable_row_def close_row_def purged_row_def)

lemma close_call_row_id [simp]: "cs_call_id (close_call_row pg r) = cs_call_id r"
  by (simp add: close_call_row_def)

lemma db_ok_review_update:
  assumes "db_ok db" "\<And>r. rq_id (f r) = rq_id r" "\<And>t. unique_live rq_call_id active_review t \<Longrightarrow>
      unique_live rq_call_id active_review (sql_update p f t)"
  shows "db_ok (db\<lparr>review_queue := sql_update p f (review_queue db)\<rparr>)"
  using assms by (fastforce simp: db_ok_def map_sql_update set_sql_update alerts_deduped_def)

lemma db_ok_call_row_update:
  assumes "db_ok db" "\<And>r. cs_call_id (f r) = cs_call_id r"
  shows "db_ok (db\<lparr>call_state := sql_update p f (call_state db)\<rparr>)"
  using assms by (simp add: db_ok_def map_sql_update alerts_deduped_def)

lemma enqueueReview_db_ok:
  assumes "db_ok db" "enqueueReview pg v db = (r, db')"
  shows "db_ok db'"
proof (cases "has_active_review (er_callId v) db")
  case True
  with assms show ?thesis
    by (auto simp: enqueueReview_def insert_review_def has_active_review_def split: if_splits option.splits)
next
  case False
  let ?row = "new_review pg (next_uuid db) (er_callId v) (er_heldReason v) (er_slaDueAt v) (er_assignee v)"
  have "unique_live rq_call_id active_review (review_queue db @ [?row])"
    using assms(1) False by (intro unique_live_insert) (auto simp: db_ok_def has_active_review_def new_review_def)
  with assms False show ?thesis
    by (auto simp: enqueueReview_def insert_review_def has_active_review_def db_ok_def alerts_deduped_def
          Let_def new_review_def less_Suc_eq split: if_splits) (metis less_irrefl)
qed

text \<open>Two enqueues for one call return the same row.\<close>

lemma enqueueReview_idempotent:
  assumes "db_ok db" "enqueueReview pg v db = (Inr row, db')" "er_callId w = er_callId v"
  shows "enqueueReview pg' w db' = (Inr row, db')"
proof -
  let ?q = "\<lambda>r. rq_call_id r = er_callId v \<and> active_review r"
  have ok': "db_ok db'" using enqueueReview_db_ok assms(1,2) by blast
  have ne: "er_callId v \<noteq> []" using assms(2) by (auto simp: enqueueReview_def)
  have row: "row \<in> set (review_queue db') \<and> ?q row"
  proof (cases "has_active_review (er_callId v) db")
    case True
    with assms(2) ne have "db' = db" "first_row (sort_key rq_created_at (sql_select ?q (review_queue db))) = Some row"
      by (auto simp: enqueueReview_def insert_review_def has_active_review_def split: option.splits)
    then show ?thesis using first_row_Some by (fastforce simp: sql_select_def)
  next
    case False
    with assms(2) ne show ?thesis
      by (auto simp: enqueueReview_def insert_review_def has_active_review_def Let_def new_review_def active_review_def)
  qed
  then have sel: "sql_select ?q (review_queue db') = [row]"
    using unique_live_select [of rq_call_id active_review "review_queue db'" row] ok' by (auto simp: db_ok_def)
  have ex: "sql_exists ?q (review_queue db')" using row by (auto simp: sql_exists_iff)
  show ?thesis using sel ex ne assms(3) by (simp add: enqueueReview_def insert_review_def)
qed

section \<open>markUnresolvable\<close>

lemma markUnresolvable_Inr:
  assumes "markUnresolvable pg callId actor db = (Inr u, db')"
  obtains review audit where
    "sql_select (\<lambda>r. rq_call_id r = callId \<and> active_review r) (review_queue db) = [review]"
    "review_queue db' = sql_update (\<lambda>r. rq_id r = rq_id review) (unresolvable_row pg) (review_queue db)"
    "call_state db' = sql_update (held_call callId) (close_call_row pg) (call_state db)"
    "\<exists>r \<in> set (call_state db). held_call callId r"
    "operator_actions db' = operator_actions db @ [audit]"
    "oa_action audit = OA_mark_unresolvable" "oa_review_queue_id audit = rq_id review"
    "oa_actor audit = js_trim actor" "alert_events db' = alert_events db" "next_uuid db \<le> next_uuid db'"
proof -
  let ?sel = "sql_select (\<lambda>r. rq_call_id r = callId \<and> active_review r) (review_queue db)"
  have ok: "js_trim actor \<noteq> []"
    using assms by (auto simp: markUnresolvable_def op_throw_def split: if_splits)
  obtain review where sel: "?sel = [review]"
    using assms ok by (auto simp: markUnresolvable_def withTransaction_def split: list.splits prod.splits sum.splits)
  let ?moved = "sql_updated (held_call callId) (close_call_row pg) (call_state db)"
  have moved: "length ?moved = 1"
    using assms ok sel by (auto simp: markUnresolvable_def withTransaction_commit Let_def split: if_splits)
  then have ex: "\<exists>r \<in> set (call_state db). held_call callId r"
    using sql_updated_Nil [of "held_call callId" "close_call_row pg" "call_state db"] by force
  from assms ok sel moved that [OF sel] ex show thesis
    by (auto simp: markUnresolvable_def withTransaction_commit Let_def op_bind_eq_Inr op_return_def
          recordOperatorAction_def split: if_splits)
qed

lemma markUnresolvable_rollback: "markUnresolvable pg callId actor db = (Inl e, db') \<Longrightarrow> db' = db"
  by (auto simp: markUnresolvable_def op_throw_def withTransaction_Inl split: if_splits)

lemma markUnresolvable_db_ok:
  assumes "db_ok db" "markUnresolvable pg callId actor db = (Inr u, db')"
  shows "db_ok db'"
proof (rule markUnresolvable_Inr [OF assms(2)])
  fix review
  assume rq: "review_queue db' = sql_update (\<lambda>r. rq_id r = rq_id review) (unresolvable_row pg) (review_queue db)"
    and cs: "call_state db' = sql_update (held_call callId) (close_call_row pg) (call_state db)"
    and al: "alert_events db' = alert_events db" and u: "next_uuid db \<le> next_uuid db'"
  have "unique_live rq_call_id active_review (review_queue db')"
    unfolding rq using assms(1) by (intro unresolvable_narrows.update_unique_live) (simp add: db_ok_def)
  with assms(1) rq cs al u show ?thesis
    by (fastforce simp: db_ok_def map_sql_update set_sql_update alerts_deduped_def)
qed

end
