(* ===== verification/Pipeline_Queue.thy ===== *)
theory Pipeline_Queue
  imports Tables
begin

text \<open>
  \<^verbatim>\<open>src/src/queue/pipeline-queue.ts\<close>.  The queue is the list of jobs handed to it, in order; whether it
  accepts an \<^verbatim>\<open>add\<close> is the caller's parameter.  The base64url SHA-256 of a call id is the parameter
  \<open>digest\<close>; what the job ids rely on is its fixed length and that the
  calls in question do not collide.
\<close>

definition jobIdForCall :: "(string \<Rightarrow> string) \<Rightarrow> string \<Rightarrow> string" where
  "jobIdForCall digest callId = ''call-'' @ digest callId"

definition reprocessJobId :: "(string \<Rightarrow> string) \<Rightarrow> string \<Rightarrow> string \<Rightarrow> string" where
  "reprocessJobId digest callId reviewQueueId = jobIdForCall digest callId @ ''-reprocess-'' @ reviewQueueId"

definition reextractJobId :: "(string \<Rightarrow> string) \<Rightarrow> string \<Rightarrow> string \<Rightarrow> string" where
  "reextractJobId digest callId runId = jobIdForCall digest callId @ ''-reextract-'' @ runId"

text \<open>A poll slot is a whole number, negative when the clock lies before the start of the wait.\<close>

definition int_text :: "int \<Rightarrow> string" where
  "int_text i = (if i < 0 then ''-'' @ uuid_text (nat (- i)) else uuid_text (nat i))"

definition waitJobId :: "(string \<Rightarrow> string) \<Rightarrow> string \<Rightarrow> int \<Rightarrow> string" where
  "waitJobId digest callId slot = jobIdForCall digest callId @ ''-wait-'' @ int_text slot"

definition queue_add :: "string \<Rightarrow> string \<Rightarrow> int \<Rightarrow> db \<Rightarrow> db" where
  "queue_add jobId callId delay db =
     db\<lparr>job_queue := job_queue db @ [\<lparr>jb_id = jobId, jb_callId = callId, jb_delay = delay\<rparr>]\<rparr>"

definition enqueueCall :: "(string \<Rightarrow> string) \<Rightarrow> string \<Rightarrow> db \<Rightarrow> db" where
  "enqueueCall digest callId = queue_add (jobIdForCall digest callId) callId 0"

definition enqueueReprocess :: "(string \<Rightarrow> string) \<Rightarrow> string \<Rightarrow> string \<Rightarrow> db \<Rightarrow> db" where
  "enqueueReprocess digest callId reviewQueueId = queue_add (reprocessJobId digest callId reviewQueueId) callId 0"

definition enqueueReextract :: "(string \<Rightarrow> string) \<Rightarrow> string \<Rightarrow> string \<Rightarrow> db \<Rightarrow> db" where
  "enqueueReextract digest callId runId = queue_add (reextractJobId digest callId runId) callId 0"

definition enqueueTranscriptRetry :: "(string \<Rightarrow> string) \<Rightarrow> string \<Rightarrow> int \<Rightarrow> int \<Rightarrow> db \<Rightarrow> db" where
  "enqueueTranscriptRetry digest callId delayMs slot = queue_add (waitJobId digest callId slot) callId delayMs"

lemma uuid_text_digit: "hd (uuid_text n) \<noteq> CHR ''-''"
proof (induction n rule: uuid_text.induct)
  case (1 n)
  show ?case
  proof (cases "n < 10")
    case True
    then have "of_char (char_of (48 + n) :: char) = (48 + n :: nat)" by simp
    then have "char_of (48 + n) \<noteq> CHR ''-''" using True by (auto dest: arg_cong [where f = "of_char :: char \<Rightarrow> nat"])
    with True show ?thesis by (simp add: uuid_text.simps [of n])
  next
    case False
    with 1 show ?thesis by (simp add: uuid_text.simps [of n])
  qed
qed

lemma int_text_inj: "int_text i = int_text j \<Longrightarrow> i = j"
proof -
  have sign: "uuid_text a \<noteq> CHR ''-'' # uuid_text b" for a b
    using uuid_text_digit [of a] by (metis list.sel(1))
  assume "int_text i = int_text j"
  then show ?thesis
    by (auto simp: int_text_def sign sign [symmetric] split: if_splits dest!: uuid_text_inj)
qed

text \<open>
  Job ids never collide across calls or kinds: the base id, the reprocess ids and the wait ids of any
  calls whose digests differ are pairwise different, because a digest has a fixed length.
\<close>

lemma job_ids_distinct:
  assumes len: "\<And>x. length (digest x) = 43" and inj: "digest a = digest b \<Longrightarrow> a = b"
  shows "jobIdForCall digest a = jobIdForCall digest b \<longleftrightarrow> a = b"
    and "jobIdForCall digest a \<noteq> reprocessJobId digest b r"
    and "reprocessJobId digest a r = reprocessJobId digest b s \<longleftrightarrow> a = b \<and> r = s"
    and "waitJobId digest a m = waitJobId digest b n \<longleftrightarrow> a = b \<and> m = n"
    and "reprocessJobId digest a r \<noteq> waitJobId digest b n"
    and "reextractJobId digest a r \<noteq> reprocessJobId digest b s"
proof -
  have eqlen: "length (digest a) = length (digest b)" using len by simp
  have inj': "digest a = digest b \<longleftrightarrow> a = b" using inj by blast
  show "jobIdForCall digest a = jobIdForCall digest b \<longleftrightarrow> a = b"
    and "reprocessJobId digest a r = reprocessJobId digest b s \<longleftrightarrow> a = b \<and> r = s"
    and "waitJobId digest a m = waitJobId digest b n \<longleftrightarrow> a = b \<and> m = n"
    and "reprocessJobId digest a r \<noteq> waitJobId digest b n"
    and "reextractJobId digest a r \<noteq> reprocessJobId digest b s"
    using eqlen inj' int_text_inj [of m n]
    by (auto simp: jobIdForCall_def reprocessJobId_def waitJobId_def reextractJobId_def append_eq_append_conv)
  show "jobIdForCall digest a \<noteq> reprocessJobId digest b r"
    using eqlen by (auto simp: jobIdForCall_def reprocessJobId_def dest: arg_cong [where f = length])
qed

end
