(* ===== verification/Review_Actions.thy ===== *)
theory Review_Actions
  imports Review_Repo Artifact_Repo Pipeline_Queue "HOL-Library.List_Lexorder" "HOL-Library.Char_ord"
begin

text \<open>
  The review surface: \<^verbatim>\<open>action-matrix.ts\<close>, \<^verbatim>\<open>raw-access.ts\<close>, \<^verbatim>\<open>reviewer-classification.ts\<close>,
  \<^verbatim>\<open>correction-constants.ts\<close>, \<^verbatim>\<open>actions.ts\<close> and \<^verbatim>\<open>reveal.ts\<close> under \<^verbatim>\<open>src/src/review\<close>, with
  \<^verbatim>\<open>reviewStalledDedupKey\<close> of \<^verbatim>\<open>src/src/review-queue/sla.ts\<close>.  An action is one transaction followed by
  an optimistic enqueue; every thrown error is a value and rolls the transaction back.
\<close>

section \<open>The action matrix\<close>

datatype review_action =
    RA_approve | RA_reject | RA_mark_non_customer | RA_mark_spam | RA_correct_extraction | RA_reprocess
  | RA_mark_unresolvable

definition REVIEW_ACTIONS :: "review_action list" where
  "REVIEW_ACTIONS = [RA_approve, RA_reject, RA_mark_non_customer, RA_mark_spam, RA_correct_extraction,
     RA_reprocess, RA_mark_unresolvable]"

primrec action_op :: "review_action \<Rightarrow> operator_action" where
  "action_op RA_approve = OA_approve"
| "action_op RA_reject = OA_reject"
| "action_op RA_mark_non_customer = OA_mark_non_customer"
| "action_op RA_mark_spam = OA_mark_spam"
| "action_op RA_correct_extraction = OA_correct_extraction"
| "action_op RA_reprocess = OA_reprocess"
| "action_op RA_mark_unresolvable = OA_mark_unresolvable"

primrec REPROCESS_STAGES :: "held_reason \<Rightarrow> pipeline_stage list" where
  "REPROCESS_STAGES HR_classifier_uncertain = [ST_classify, ST_extract]"
| "REPROCESS_STAGES HR_classified_spam = [ST_classify]"
| "REPROCESS_STAGES HR_malformed_model_output = [ST_classify]"
| "REPROCESS_STAGES HR_schema_invalid = [ST_extract]"
| "REPROCESS_STAGES HR_redaction_failed = [ST_redact]"
| "REPROCESS_STAGES HR_residual_pii_detected = [ST_redact]"
| "REPROCESS_STAGES HR_missing_transcript = [ST_fetch_transcript, ST_transcript_availability]"
| "REPROCESS_STAGES HR_cost_cap_held = [ST_classify, ST_extract]"
| "REPROCESS_STAGES HR_weak_servicetitan_match = []"
| "REPROCESS_STAGES HR_emergency_review = [ST_verbatim_pii_scan]"

definition APPROVE_FORWARD_STAGE :: "held_reason \<Rightarrow> pipeline_stage option" where
  "APPROVE_FORWARD_STAGE reason =
     (case reason of HR_classifier_uncertain \<Rightarrow> Some ST_extract
      | HR_emergency_review \<Rightarrow> Some ST_verbatim_pii_scan | _ \<Rightarrow> None)"

primrec ORIGIN_STAGES :: "held_reason \<Rightarrow> pipeline_stage list" where
  "ORIGIN_STAGES HR_classifier_uncertain = [ST_classify]"
| "ORIGIN_STAGES HR_classified_spam = [ST_classify]"
| "ORIGIN_STAGES HR_malformed_model_output = [ST_classify]"
| "ORIGIN_STAGES HR_schema_invalid = [ST_extract]"
| "ORIGIN_STAGES HR_redaction_failed = [ST_redact]"
| "ORIGIN_STAGES HR_residual_pii_detected = [ST_redact, ST_extract, ST_verbatim_pii_scan]"
| "ORIGIN_STAGES HR_missing_transcript = [ST_fetch_transcript, ST_transcript_availability]"
| "ORIGIN_STAGES HR_cost_cap_held = [ST_classify, ST_extract]"
| "ORIGIN_STAGES HR_weak_servicetitan_match = []"
| "ORIGIN_STAGES HR_emergency_review = [ST_extract]"

definition buildAllowedActions :: "held_reason \<Rightarrow> review_action list" where
  "buildAllowedActions reason =
     [RA_reject, RA_mark_unresolvable]
     @ (if length (REPROCESS_STAGES reason) > 0 then [RA_reprocess] else [])
     @ (if APPROVE_FORWARD_STAGE reason \<noteq> None then [RA_approve] else [])
     @ (if reason = HR_schema_invalid then [RA_correct_extraction] else [])
     @ (if reason \<noteq> HR_weak_servicetitan_match then [RA_mark_non_customer] else [])
     @ (if reason \<noteq> HR_missing_transcript \<and> reason \<noteq> HR_weak_servicetitan_match then [RA_mark_spam] else [])"

definition isActionAllowed :: "held_reason \<Rightarrow> review_action \<Rightarrow> bool" where
  "isActionAllowed reason action \<longleftrightarrow> action \<in> set (buildAllowedActions reason)"

definition REPROCESS_STAGE_VALUES :: "pipeline_stage list" where
  "REPROCESS_STAGE_VALUES = [ST_fetch_transcript, ST_transcript_availability, ST_redact, ST_classify,
     ST_extract, ST_verbatim_pii_scan]"

section \<open>Raw access\<close>

definition rawRetentionWindowOpen :: "int \<Rightarrow> int \<Rightarrow> review_queue_row \<Rightarrow> bool" where
  "rawRetentionWindowOpen capHours now review \<longleftrightarrow>
     rq_raw_purged_at review = None \<and> now < rq_created_at review + capHours * 3600000"

definition rawTranscriptRevealAllowed :: "int \<Rightarrow> int \<Rightarrow> review_queue_row \<Rightarrow> bool \<Rightarrow> bool" where
  "rawTranscriptRevealAllowed capHours now review transcriptPresent \<longleftrightarrow>
     rawRetentionWindowOpen capHours now review \<and> transcriptPresent"

section \<open>Actions\<close>

datatype review_error = ReviewNotFound | ReviewConflict | RequestMalformed | ReviewDb db_error

type_synonym 'a rop = "(db, review_error, 'a) op"

definition lift_db :: "'a dbop \<Rightarrow> 'a rop" where
  "lift_db m db = (case m db of (Inl e, db') \<Rightarrow> (Inl (ReviewDb e), db') | (Inr a, db') \<Rightarrow> (Inr a, db'))"

datatype review_body =
    BodyReprocess pipeline_stage
  | BodyCorrect call_intent service_category urgency sentiment
  | BodyEmpty

record review_deps =
  rd_pg :: pg
  rd_now :: int
  rd_cap_hours :: int
  rd_digest :: "string \<Rightarrow> string"
  rd_queue_accepts :: bool

text \<open>\<^verbatim>\<open>canonical\<close>: JSON up to the order of object keys.\<close>

fun canonical :: "json \<Rightarrow> json" where
  "canonical (JArr xs) = JArr (map canonical xs)"
| "canonical (JObj kvs) = JObj (sort_key fst (map (\<lambda>(k, v). (k, canonical v)) kvs))"
| "canonical v = v"

definition fingerprintFor :: "review_action \<Rightarrow> held_reason \<Rightarrow> review_body \<Rightarrow> json_object" where
  "fingerprintFor action reason body =
     (case action of
        RA_reprocess \<Rightarrow>
          [(''target_stage'', case body of BodyReprocess s \<Rightarrow> JStr (pipeline_stage_name s) | _ \<Rightarrow> JNull)]
      | RA_approve \<Rightarrow>
          [(''target_stage'', case APPROVE_FORWARD_STAGE reason of Some s \<Rightarrow> JStr (pipeline_stage_name s) | None \<Rightarrow> JNull),
           (''reviewer_classification_written'', JBool (reason = HR_classifier_uncertain))]
      | RA_correct_extraction \<Rightarrow>
          (case body of
             BodyCorrect i c u s \<Rightarrow>
               [(''call_intent'', JStr (call_intent_name i)), (''service_category'', JStr (service_category_name c)),
                (''urgency'', JStr (urgency_name u)), (''sentiment'', JStr (sentiment_name s)),
                (''target_stage'', JStr ''verbatim-pii-scan'')]
           | _ \<Rightarrow> [(''target_stage'', JStr ''verbatim-pii-scan'')])
      | _ \<Rightarrow> [])"

definition cleanTranscriptLive :: "string \<Rightarrow> db \<Rightarrow> bool" where
  "cleanTranscriptLive callId db = sql_exists (live_clean callId) (clean_transcripts db)"

definition candidateLive :: "string \<Rightarrow> db \<Rightarrow> bool" where
  "candidateLive callId db = sql_exists (live_candidate callId) (extraction_candidates db)"

definition preflight ::
    "review_deps \<Rightarrow> review_action \<Rightarrow> pipeline_stage \<Rightarrow> review_queue_row \<Rightarrow> db \<Rightarrow> bool" where
  "preflight deps action targetStage review db =
     (let callId = rq_call_id review in
      case targetStage of
        ST_fetch_transcript \<Rightarrow> rawRetentionWindowOpen (rd_cap_hours deps) (rd_now deps) review
      | ST_transcript_availability \<Rightarrow>
          rawTranscriptRevealAllowed (rd_cap_hours deps) (rd_now deps) review (transcriptExists callId db)
      | ST_redact \<Rightarrow>
          rawTranscriptRevealAllowed (rd_cap_hours deps) (rd_now deps) review (transcriptExists callId db)
      | ST_classify \<Rightarrow> cleanTranscriptLive callId db
      | ST_extract \<Rightarrow> cleanTranscriptLive callId db
      | ST_verbatim_pii_scan \<Rightarrow>
          cleanTranscriptLive callId db \<and> (action = RA_correct_extraction \<or> candidateLive callId db)
      | _ \<Rightarrow> False)"

definition resolveReview :: "pg \<Rightarrow> uuid \<Rightarrow> string \<Rightarrow> unit rop" where
  "resolveReview pg reviewId actor db =
     (Inr (), db\<lparr>review_queue := sql_update (\<lambda>r. rq_id r = reviewId) (close_row pg RS_resolved actor)
        (review_queue db)\<rparr>)"

definition move_row :: "pg \<Rightarrow> string \<Rightarrow> pipeline_stage option \<Rightarrow> drop_reason option \<Rightarrow> call_state_row \<Rightarrow> call_state_row" where
  "move_row pg status currentStage dropReason r =
     r\<lparr>cs_status := status,
       cs_current_stage := (case currentStage of None \<Rightarrow> cs_current_stage r | Some s \<Rightarrow> pipeline_stage_name s),
       cs_drop_reason := map_option drop_reason_name dropReason,
       cs_updated_at := pg_now pg\<rparr>"

definition moveCallState ::
    "pg \<Rightarrow> string \<Rightarrow> string \<Rightarrow> pipeline_stage option \<Rightarrow> drop_reason option \<Rightarrow> unit rop" where
  "moveCallState pg callId status currentStage dropReason db =
     (let f = move_row pg status currentStage dropReason;
          moved = sql_updated (held_call callId) f (call_state db);
          db1 = db\<lparr>call_state := sql_update (held_call callId) f (call_state db)\<rparr>
      in if length moved \<noteq> 1 then (Inl ReviewConflict, db1) else (Inr (), db1))"

definition REVIEWER_CLASSIFICATION_SOURCE :: string where
  "REVIEWER_CLASSIFICATION_SOURCE = ''reviewer_approved''"

definition recordReviewerClassification :: "pg \<Rightarrow> string \<Rightarrow> unit rop" where
  "recordReviewerClassification pg callId =
     op_bind (lift_db (appendLog pg
        \<lparr>le_callId = Some callId, le_stage = ''classify'', le_outcome = ''completed'', le_errorCode = None,
         le_detail = Some (JObj [(''bucket'', JStr ''customer''), (''source'', JStr REVIEWER_CLASSIFICATION_SOURCE)]),
         le_failureSnapshot = None\<rparr>)) (\<lambda>_. op_return ())"

definition HUMAN_REVIEW_PROBLEM_STATEMENT :: string where
  "HUMAN_REVIEW_PROBLEM_STATEMENT = ''Human-reviewed extraction correction''"
definition HUMAN_REVIEW_PROMPT_VERSION :: string where
  "HUMAN_REVIEW_PROMPT_VERSION = ''human-review-correction-v1''"
definition HUMAN_REVIEW_MODEL_ID :: string where "HUMAN_REVIEW_MODEL_ID = ''human-review''"

definition correction_payload :: "call_intent \<Rightarrow> service_category \<Rightarrow> urgency \<Rightarrow> sentiment \<Rightarrow> knowledge_payload" where
  "correction_payload i c u s =
     \<lparr>kp_call_intent = i, kp_service_category = c, kp_problem_statement = Some HUMAN_REVIEW_PROBLEM_STATEMENT,
      kp_symptoms = [], kp_customer_language = [], kp_location_in_home = None,
      kp_access_or_scheduling_notes = None, kp_prior_attempts = None, kp_urgency = u, kp_concerns = [],
      kp_sentiment = s, kp_acquisition_source = None, kp_competitor_mentions = [],
      kp_schema_version = EXTRACT_SCHEMA_VERSION, kp_prompt_version = HUMAN_REVIEW_PROMPT_VERSION,
      kp_model_id = HUMAN_REVIEW_MODEL_ID\<rparr>"

definition writeCorrectionCandidate :: "pg \<Rightarrow> string \<Rightarrow> review_body \<Rightarrow> unit rop" where
  "writeCorrectionCandidate pg callId body =
     (case body of
        BodyCorrect i c u s \<Rightarrow>
          op_bind (lift_db (upsertExtractionCandidate pg callId (correction_payload i c u s))) (\<lambda>_. op_return ())
      | _ \<Rightarrow> op_throw ReviewConflict)"

definition assertReprocessStage :: "held_reason \<Rightarrow> review_body \<Rightarrow> review_error + pipeline_stage" where
  "assertReprocessStage reason body =
     (case body of
        BodyReprocess s \<Rightarrow> if s \<in> set (REPROCESS_STAGES reason) then Inr s else Inl RequestMalformed
      | _ \<Rightarrow> Inl RequestMalformed)"

definition requireApproveStage :: "held_reason \<Rightarrow> review_error + pipeline_stage" where
  "requireApproveStage reason = (case APPROVE_FORWARD_STAGE reason of None \<Rightarrow> Inl ReviewConflict | Some s \<Rightarrow> Inr s)"

definition reviewStalledDedupKey :: "uuid \<Rightarrow> string" where
  "reviewStalledDedupKey reviewId = ''REVIEW_QUEUE_STALLED:review_queue:'' @ uuid_text reviewId"

definition after_json :: "string \<Rightarrow> string \<Rightarrow> json_object \<Rightarrow> json" where
  "after_json reviewStatus callStatus params =
     JObj (review_audit reviewStatus callStatus @ [(''action_params'', JObj params)])"

text \<open>The transition of an allowed action: the audit's \<^verbatim>\<open>after\<close> and the outbox target.\<close>

definition reprocess_transition ::
    "review_deps \<Rightarrow> review_action \<Rightarrow> review_body \<Rightarrow> string \<Rightarrow> review_queue_row \<Rightarrow> pipeline_stage
       \<Rightarrow> (json \<times> pipeline_stage option) rop" where
  "reprocess_transition deps action body actor review targetStage =
     (let pg = rd_pg deps; callId = rq_call_id review; reason = rq_held_reason review in
      op_bind (\<lambda>db. if preflight deps action targetStage review db then (Inr (), db) else (Inl ReviewConflict, db))
      (\<lambda>_. op_bind (if action = RA_approve \<and> reason = HR_classifier_uncertain
                    then recordReviewerClassification pg callId else op_return ())
      (\<lambda>_. op_bind (if action = RA_correct_extraction then writeCorrectionCandidate pg callId body else op_return ())
      (\<lambda>_. op_bind (moveCallState pg callId ''processing'' (Some targetStage) None)
      (\<lambda>_. op_bind (resolveReview pg (rq_id review) actor)
      (\<lambda>_. op_return (after_json ''resolved'' ''processing'' (fingerprintFor action reason body), Some targetStage)))))))"

definition action_transition ::
    "review_deps \<Rightarrow> review_action \<Rightarrow> review_body \<Rightarrow> string \<Rightarrow> review_queue_row \<Rightarrow> (json \<times> pipeline_stage option) rop" where
  "action_transition deps action body actor review =
     (let pg = rd_pg deps; callId = rq_call_id review; reason = rq_held_reason review;
          close = (\<lambda>status stage reason' after.
            op_bind (moveCallState pg callId status stage reason')
              (\<lambda>_. op_bind (resolveReview pg (rq_id review) actor) (\<lambda>_. op_return (after, None))))
      in case action of
           RA_reject \<Rightarrow> close ''review_closed'' None None (after_json ''resolved'' ''review_closed'' [])
         | RA_mark_spam \<Rightarrow> close ''review_closed'' None None (after_json ''resolved'' ''review_closed'' [])
         | RA_mark_non_customer \<Rightarrow>
             close ''skipped'' (Some ST_classify) (Some DR_classified_non_customer)
               (after_json ''resolved'' ''skipped'' [])
         | RA_mark_unresolvable \<Rightarrow>
             op_bind (lift_db (markUnresolvableByReviewId pg (rq_id review) actor))
               (\<lambda>t. op_return (JObj (rt_after t @ [(''action_params'', JObj [])]), None))
         | RA_reprocess \<Rightarrow>
             (case assertReprocessStage reason body of Inl e \<Rightarrow> op_throw e
              | Inr s \<Rightarrow> reprocess_transition deps action body actor review s)
         | RA_approve \<Rightarrow>
             (case requireApproveStage reason of Inl e \<Rightarrow> op_throw e
              | Inr s \<Rightarrow> reprocess_transition deps action body actor review s)
         | RA_correct_extraction \<Rightarrow> reprocess_transition deps action body actor review ST_verbatim_pii_scan)"

datatype action_outcome = OutcomeOk | OutcomeNoop

record enqueue_request =
  eq_callId :: string
  eq_reviewId :: uuid
  eq_outboxActionId :: uuid

text \<open>A terminal review: the same action with the same parameters is a no-op, any other a conflict.\<close>

definition matches_prior :: "review_action \<Rightarrow> json_object \<Rightarrow> operator_action_row \<Rightarrow> bool" where
  "matches_prior action fp row \<longleftrightarrow>
     oa_action row = action_op action
     \<and> canonical (case oa_after row of
          Some (JObj kvs) \<Rightarrow> (case map_of kvs ''action_params'' of None \<Rightarrow> JObj [] | Some JNull \<Rightarrow> JObj [] | Some p \<Rightarrow> p)
        | _ \<Rightarrow> JObj []) = canonical (JObj fp)"

definition guard_call_state :: "review_queue_row \<Rightarrow> db \<Rightarrow> call_state_row option" where
  "guard_call_state review db =
     (case getCallState (rq_call_id review) db of
        None \<Rightarrow> None
      | Some cs \<Rightarrow>
          let origins = map pipeline_stage_name (ORIGIN_STAGES (rq_held_reason review)) in
          if cs_status cs \<noteq> ''held'' \<or> cs_drop_reason cs \<noteq> None then None
          else if length origins > 0 \<and> cs_current_stage cs \<notin> set origins then None
          else Some cs)"

definition review_tx ::
    "review_deps \<Rightarrow> uuid \<Rightarrow> review_action \<Rightarrow> review_body \<Rightarrow> string \<Rightarrow> (action_outcome \<times> enqueue_request option) rop" where
  "review_tx deps reviewId action body actor db =
     (case getReview reviewId db of
        None \<Rightarrow> (Inl ReviewNotFound, db)
      | Some review \<Rightarrow>
          let reason = rq_held_reason review in
          if rq_status review = RS_resolved \<or> rq_status review = RS_unresolvable then
            (if list_ex (matches_prior action (fingerprintFor action reason body)) (listByReview reviewId db)
             then (Inr (OutcomeNoop, None), db) else (Inl ReviewConflict, db))
          else if rq_status review \<noteq> RS_open \<and> rq_status review \<noteq> RS_in_review then (Inl ReviewConflict, db)
          else if \<not> isActionAllowed reason action then (Inl ReviewConflict, db)
          else case guard_call_state review db of
              None \<Rightarrow> (Inl ReviewConflict, db)
            | Some cs \<Rightarrow>
                op_bind (action_transition deps action body actor review)
                (\<lambda>(after, outbox). op_bind (lift_db (acknowledgeAlert (rd_pg deps) (reviewStalledDedupKey reviewId)))
                (\<lambda>_. op_bind (lift_db (recordOperatorAction (rd_pg deps) reviewId actor (action_op action)
                        (Some (JObj (review_audit (review_status_name (rq_status review)) ''held''))) (Some after)))
                (\<lambda>auditRow.
                   case outbox of
                     None \<Rightarrow> op_return (OutcomeOk, None)
                   | Some targetStage \<Rightarrow>
                       op_bind (lift_db (insertReprocessRequest (rd_pg deps)
                         \<lparr>ri_operatorActionId = oa_id auditRow, ri_callId = rq_call_id review,
                          ri_reviewQueueId = reviewId, ri_targetStage = pipeline_stage_name targetStage,
                          ri_requestedBy = actor, ri_priorStage = Some (cs_current_stage cs),
                          ri_priorStatus = Some (cs_status cs), ri_priorDropReason = cs_drop_reason cs\<rparr>))
                       (\<lambda>_. op_return (OutcomeOk, Some \<lparr>eq_callId = rq_call_id review, eq_reviewId = reviewId,
                              eq_outboxActionId = oa_id auditRow\<rparr>))))) db)"

definition markReprocessSentByAction :: "uuid \<Rightarrow> int \<Rightarrow> db \<Rightarrow> db" where
  "markReprocessSentByAction operatorActionId now db =
     db\<lparr>reprocess_requests := sql_update
          (\<lambda>r. rr_operator_action_id r = operatorActionId \<and> rr_status r = RR_pending)
          (\<lambda>r. r\<lparr>rr_status := RR_sent, rr_sent_at := Some now\<rparr>) (reprocess_requests db)\<rparr>"

definition performReviewAction ::
    "review_deps \<Rightarrow> uuid \<Rightarrow> review_action \<Rightarrow> review_body \<Rightarrow> string \<Rightarrow> action_outcome rop" where
  "performReviewAction deps reviewId action body actor db =
     (case withTransaction (review_tx deps reviewId action body actor) db of
        (Inl e, db') \<Rightarrow> (Inl e, db')
      | (Inr (outcome, None), db') \<Rightarrow> (Inr outcome, db')
      | (Inr (outcome, Some rq), db') \<Rightarrow>
          (Inr outcome,
           if rd_queue_accepts deps
           then markReprocessSentByAction (eq_outboxActionId rq) (rd_now deps)
                  (enqueueReprocess (rd_digest deps) (eq_callId rq) (uuid_text (eq_reviewId rq)) db')
           else db'))"

section \<open>Reveal\<close>

datatype reveal_result = RawUnavailable | Revealed string "string option"

definition getToken :: "(string \<Rightarrow> string \<Rightarrow> nat \<Rightarrow> string) \<Rightarrow> string \<Rightarrow> string \<Rightarrow> db \<Rightarrow> string option" where
  "getToken decrypt callId token db =
     map_option (\<lambda>r. decrypt callId (tv_ciphertext r) (tv_key_version r))
       (first_row (sql_select (\<lambda>r. tv_call_id r = callId \<and> tv_token r = token \<and> tv_soft_deleted_at r = None
          \<and> tv_hard_deleted_at r = None) (token_vault db)))"

definition reveal_after :: "string \<Rightarrow> string option \<Rightarrow> json" where
  "reveal_after callId token =
     (case token of
        Some t \<Rightarrow> JObj [(''revealed'', JArr [JStr ''transcript'', JStr ''vault_value'']),
                        (''call_id'', JStr callId), (''vault_token_ref'', JStr t)]
      | None \<Rightarrow> JObj [(''revealed'', JArr [JStr ''transcript'']), (''call_id'', JStr callId)])"

definition performReveal ::
    "(string \<Rightarrow> string \<Rightarrow> nat \<Rightarrow> string) \<Rightarrow> review_deps \<Rightarrow> uuid \<Rightarrow> string option \<Rightarrow> string \<Rightarrow> reveal_result rop" where
  "performReveal decrypt deps reviewId token actor = withTransaction (\<lambda>db.
     case getReview reviewId db of
       None \<Rightarrow> (Inl ReviewNotFound, db)
     | Some review \<Rightarrow>
         if rq_status review \<noteq> RS_open \<and> rq_status review \<noteq> RS_in_review then (Inl ReviewConflict, db)
         else
           let callId = rq_call_id review;
               audit = (\<lambda>result. op_bind (lift_db (recordOperatorAction (rd_pg deps) reviewId actor OA_reveal_raw
                          None (Some (reveal_after callId token)))) (\<lambda>_. op_return result))
           in if \<not> rawTranscriptRevealAllowed (rd_cap_hours deps) (rd_now deps) review (transcriptExists callId db)
              then (Inr RawUnavailable, db)
              else case getTranscript decrypt callId db of
                     None \<Rightarrow> (Inr RawUnavailable, db)
                   | Some transcript \<Rightarrow>
                       (case token of
                          None \<Rightarrow> audit (Revealed transcript None) db
                        | Some t \<Rightarrow>
                            if \<not> tokenExistsForCall callId t db then (Inl ReviewConflict, db)
                            else (case getToken decrypt callId t db of
                                    None \<Rightarrow> (Inl ReviewConflict, db)
                                  | Some v \<Rightarrow> audit (Revealed transcript (Some v)) db)))"

end
