(* ===== verification/Runner.thy ===== *)
theory Runner
  imports Failure_Model Review_Repo
begin

text \<open>
  The pipeline runner: \<^verbatim>\<open>src/src/pipeline/errors.ts\<close>, the stage results of
  \<^verbatim>\<open>src/src/pipeline/stages.ts\<close> and \<^verbatim>\<open>runPipeline\<close> of \<^verbatim>\<open>src/src/pipeline/state-machine.ts\<close>.  A stage
  handler maps the database to a thrown error or a stage result, and the database it leaves behind;
  what other processes commit while a handler is awaited is part of that effect.  The log lines of
  \<^verbatim>\<open>logStageStart\<close> and its siblings carry no state and are left out.  The loop is a \<open>function\<close> over the
  stage index with its termination proof.
\<close>

section \<open>Stage failures\<close>

text \<open>An unknown throwable: whether it is an \<^verbatim>\<open>Error\<close>, its name, its code when that is a string, and its message.\<close>

record js_error =
  je_is_error :: bool
  je_name :: string
  je_code :: "string option"
  je_message :: string

definition is_letter :: "char \<Rightarrow> bool" where
  "is_letter c = (let n = of_char c :: nat in 65 \<le> n \<and> n \<le> 90 \<or> 97 \<le> n \<and> n \<le> 122)"

definition is_digit :: "char \<Rightarrow> bool" where
  "is_digit c = (let n = of_char c :: nat in 48 \<le> n \<and> n \<le> 57)"

text \<open>The pattern \<^verbatim>\<open>SAFE_TOKEN\<close>.\<close>

definition SAFE_TOKEN :: "string \<Rightarrow> bool" where
  "SAFE_TOKEN s =
     (case s of [] \<Rightarrow> False
      | c # cs \<Rightarrow> is_letter c \<and> length cs \<le> 63
          \<and> list_all (\<lambda>x. is_letter x \<or> is_digit x \<or> x = CHR ''_'') cs)"

definition safeErrorName :: "js_error \<Rightarrow> string" where
  "safeErrorName err = (let name = (if je_is_error err then je_name err else []) in if SAFE_TOKEN name then name else ''Error'')"

definition safeErrorCode :: "js_error \<Rightarrow> string option" where
  "safeErrorCode err = (case je_code err of Some code \<Rightarrow> if SAFE_TOKEN code then Some code else None | None \<Rightarrow> None)"

record pipeline_stage_error =
  pse_message :: string
  pse_stage :: pipeline_stage
  pse_callId :: string
  pse_causeName :: string
  pse_causeCode :: "string option"

definition PipelineStageError :: "pipeline_stage \<Rightarrow> string \<Rightarrow> js_error \<Rightarrow> pipeline_stage_error" where
  "PipelineStageError stage callId cause =
     \<lparr>pse_message = ''Stage '' @ pipeline_stage_name stage @ '' failed: '' @ safeErrorName cause,
      pse_stage = stage, pse_callId = callId, pse_causeName = safeErrorName cause,
      pse_causeCode = safeErrorCode cause\<rparr>"

section \<open>Stage results\<close>

datatype stage_result =
    SContinue "json_object option"
  | SDrop drop_reason "json_object option"
  | SDefer
  | SHold held_reason "error_code option" "json_object option" "json option"

text \<open>\<open>None\<close> is a handler that returns \<^verbatim>\<open>void\<close>.\<close>

type_synonym stage_handlers = "string \<Rightarrow> pipeline_stage \<Rightarrow> db \<Rightarrow> (js_error + stage_result option) \<times> db"

definition defaultStageHandlers :: stage_handlers where
  "defaultStageHandlers callId stage db = (Inr None, db)"

section \<open>The loop body\<close>

datatype run_error =
    NotSeeded
  | Inconsistent string string
  | UnknownStage string
  | Vanished
  | StageFailed pipeline_stage_error
  | RunDb db_error

definition LAST_INDEX :: nat where "LAST_INDEX = length PIPELINE_STAGES - 1"

definition isStaleStageError :: "db_error \<Rightarrow> bool" where
  "isStaleStageError e \<longleftrightarrow> e = DalError DAL_STALE_STAGE"

definition dbStageIndex :: "string \<Rightarrow> int" where
  "dbStageIndex currentStage = indexOf (map pipeline_stage_name PIPELINE_STAGES) currentStage"

datatype stale_resolution = StaleComplete | StaleResume nat

definition resolveStale :: "string \<Rightarrow> nat \<Rightarrow> db \<Rightarrow> run_error + stale_resolution" where
  "resolveStale callId targetIndex db =
     (case getCallState callId db of
        None \<Rightarrow> Inl Vanished
      | Some state \<Rightarrow>
          let dbIndex = dbStageIndex (cs_current_stage state) in
          if cs_status state = STATUS_COMPLETED then
            (if dbIndex \<ge> int targetIndex then Inr StaleComplete
             else Inl (Inconsistent (cs_status state) (cs_current_stage state)))
          else if cs_status state = STATUS_PROCESSING then
            (if dbIndex \<noteq> -1 \<and> dbIndex \<ge> int targetIndex then Inr (StaleResume (nat dbIndex))
             else Inl (Inconsistent (cs_status state) (cs_current_stage state)))
          else Inl (Inconsistent (cs_status state) (cs_current_stage state)))"

text \<open>A write that lost its race: a terminal status found by the re-read is a no-op, anything else an
  inconsistency.\<close>

definition raced_write :: "string list \<Rightarrow> string \<Rightarrow> db \<Rightarrow> (run_error + nat option) \<times> db" where
  "raced_write terminal callId db =
     (case getCallState callId db of
        None \<Rightarrow> (Inl Vanished, db)
      | Some raced \<Rightarrow>
          if cs_status raced \<in> set terminal then (Inr None, db)
          else (Inl (Inconsistent (cs_status raced) (cs_current_stage raced)), db))"

definition run_drop ::
    "pg \<Rightarrow> string \<Rightarrow> pipeline_stage \<Rightarrow> drop_reason \<Rightarrow> json_object option \<Rightarrow> db \<Rightarrow> (run_error + nat option) \<times> db" where
  "run_drop pg callId stage reason detail db =
     (case skipCall pg \<lparr>sk_callId = callId, sk_atStage = pipeline_stage_name stage,
              sk_dropReason = reason, sk_logDetail = detail\<rparr> db of
        (Inr _, db') \<Rightarrow> (Inr None, db')
      | (Inl e, db') \<Rightarrow>
          if \<not> isStaleStageError e then (Inl (RunDb e), db')
          else raced_write [STATUS_SKIPPED, STATUS_COMPLETED] callId db')"

definition holdSnapshot :: "string \<Rightarrow> pipeline_stage \<Rightarrow> error_code option \<Rightarrow> json option \<Rightarrow> json option" where
  "holdSnapshot callId stage errorCode snapshot =
     (case snapshot of
        Some s \<Rightarrow> Some s
      | None \<Rightarrow>
          (case errorCode of
             None \<Rightarrow> None
           | Some code \<Rightarrow> map_option failureSnapshot (createFailure code PST_continuing
               (Some [(''call_id'', callId), (''stage'', pipeline_stage_name stage)]) None)))"

definition run_hold ::
    "pg \<Rightarrow> (held_reason \<Rightarrow> int) \<Rightarrow> string \<Rightarrow> pipeline_stage \<Rightarrow> held_reason \<Rightarrow> error_code option
       \<Rightarrow> json_object option \<Rightarrow> json option \<Rightarrow> db \<Rightarrow> (run_error + nat option) \<times> db" where
  "run_hold pg slaMinutesFor callId stage reason errorCode detail snapshot db =
     (case holdCall pg \<lparr>hc_callId = callId, hc_atStage = pipeline_stage_name stage, hc_heldReason = reason,
              hc_slaMinutes = slaMinutesFor reason, hc_errorCode = map_option error_code_name errorCode,
              hc_logDetail = detail, hc_failureSnapshot = holdSnapshot callId stage errorCode snapshot\<rparr> db of
        (Inr _, db') \<Rightarrow> (Inr None, db')
      | (Inl e, db') \<Rightarrow>
          if \<not> isStaleStageError e then (Inl (RunDb e), db')
          else raced_write [STATUS_HELD, STATUS_SKIPPED, STATUS_COMPLETED] callId db')"

definition advance_input :: "string \<Rightarrow> nat \<Rightarrow> json_object option \<Rightarrow> advance_stage_input" where
  "advance_input callId index continueDetail =
     (let stage = PIPELINE_STAGES ! index;
          isFinal = (index = LAST_INDEX);
          toStage = (if isFinal then FINAL_STAGE else PIPELINE_STAGES ! (index + 1))
      in \<lparr>as_callId = callId, as_fromStage = Some (pipeline_stage_name stage),
          as_toStage = pipeline_stage_name toStage,
          as_status = (if isFinal then Some STATUS_COMPLETED else None),
          as_logStage = pipeline_stage_name stage, as_logOutcome = ''completed'',
          as_logErrorCode = None, as_logDetail = map_option JObj continueDetail,
          as_logFailureSnapshot = None\<rparr>)"

definition run_advance ::
    "pg \<Rightarrow> string \<Rightarrow> nat \<Rightarrow> json_object option \<Rightarrow> db \<Rightarrow> (run_error + nat option) \<times> db" where
  "run_advance pg callId index continueDetail db =
     (let isFinal = (index = LAST_INDEX);
          targetIndex = (if isFinal then LAST_INDEX else index + 1)
      in case advanceStage pg (advance_input callId index continueDetail) db of
           (Inr _, db') \<Rightarrow> (Inr (if isFinal then None else Some (index + 1)), db')
         | (Inl e, db') \<Rightarrow>
             if \<not> isStaleStageError e then (Inl (RunDb e), db')
             else (case resolveStale callId targetIndex db' of
                     Inl err \<Rightarrow> (Inl err, db')
                   | Inr StaleComplete \<Rightarrow> (Inr None, db')
                   | Inr (StaleResume i) \<Rightarrow> (Inr (Some i), db')))"

text \<open>One round of the loop: the next index, or \<open>None\<close> when \<^verbatim>\<open>runPipeline\<close> returns.\<close>

definition run_stage ::
    "pg \<Rightarrow> (held_reason \<Rightarrow> int) \<Rightarrow> stage_handlers \<Rightarrow> string \<Rightarrow> nat \<Rightarrow> db \<Rightarrow> (run_error + nat option) \<times> db" where
  "run_stage pg slaMinutesFor handlers callId index db =
     (let stage = PIPELINE_STAGES ! index in
      case handlers callId stage db of
        (Inl cause, db1) \<Rightarrow> (Inl (StageFailed (PipelineStageError stage callId cause)), db1)
      | (Inr (Some (SDrop reason detail)), db1) \<Rightarrow> run_drop pg callId stage reason detail db1
      | (Inr (Some SDefer), db1) \<Rightarrow> (Inr None, db1)
      | (Inr (Some (SHold reason errorCode detail snapshot)), db1) \<Rightarrow>
          run_hold pg slaMinutesFor callId stage reason errorCode detail snapshot db1
      | (Inr (Some (SContinue detail)), db1) \<Rightarrow> run_advance pg callId index detail db1
      | (Inr None, db1) \<Rightarrow> run_advance pg callId index None db1)"

section \<open>The loop\<close>

lemma LAST_INDEX_eq [simp]: "LAST_INDEX = 8"
  by (simp add: LAST_INDEX_def)

lemma dbStageIndex_less: "dbStageIndex s < 9"
  using indexOf_less [of "map pipeline_stage_name PIPELINE_STAGES" s] by (simp add: dbStageIndex_def)

lemma dbStageIndex_nth: "i \<le> 8 \<Longrightarrow> dbStageIndex (pipeline_stage_name (PIPELINE_STAGES ! i)) = int i"
  using pipeline_stage_v.index_of_value [of i] by (simp add: dbStageIndex_def)

lemma dbStageIndex_value:
  assumes "dbStageIndex s = j" "0 \<le> j"
  shows "s = pipeline_stage_name (PIPELINE_STAGES ! nat j)"
proof -
  have "j < 9" using assms dbStageIndex_less [of s] by simp
  then have "map pipeline_stage_name PIPELINE_STAGES ! nat j = pipeline_stage_name (PIPELINE_STAGES ! nat j)"
    using assms(2) by simp
  with indexOf_value [of _ s j] assms show ?thesis by (simp add: dbStageIndex_def)
qed

lemma last_stage: "PIPELINE_STAGES ! 8 = FINAL_STAGE"
  by code_simp

lemma advance_input_simps [simp]:
  "as_callId (advance_input c i d) = c"
  "as_fromStage (advance_input c i d) = Some (pipeline_stage_name (PIPELINE_STAGES ! i))"
  "as_status (advance_input c i d) = (if i = 8 then Some STATUS_COMPLETED else None)"
  "as_toStage (advance_input c i d) =
     pipeline_stage_name (if i = 8 then FINAL_STAGE else PIPELINE_STAGES ! (i + 1))"
  "as_logStage (advance_input c i d) = pipeline_stage_name (PIPELINE_STAGES ! i)"
  "as_logOutcome (advance_input c i d) = ''completed''"
  "as_logDetail (advance_input c i d) = map_option JObj d"
  by (simp_all add: advance_input_def Let_def)

lemma advance_guard_input:
  "advance_guard (advance_input c i d) r \<longleftrightarrow>
     cs_call_id r = c \<and> cs_current_stage r = pipeline_stage_name (PIPELINE_STAGES ! i)"
  by (simp add: advance_guard_def)

lemma resolveStale_resume:
  "resolveStale c t db = Inr (StaleResume i) \<Longrightarrow>
   \<exists>r. getCallState c db = Some r \<and> cs_current_stage r = pipeline_stage_name (PIPELINE_STAGES ! i)
     \<and> cs_status r = STATUS_PROCESSING \<and> t \<le> i \<and> i \<le> 8"
proof -
  assume "resolveStale c t db = Inr (StaleResume i)"
  then obtain r where r: "getCallState c db = Some r" "cs_status r = STATUS_PROCESSING"
      "dbStageIndex (cs_current_stage r) = int i" "t \<le> i"
    by (auto simp: resolveStale_def Let_def split: option.splits if_splits)
  moreover have "i \<le> 8" using r(3) dbStageIndex_less [of "cs_current_stage r"] by simp
  ultimately show ?thesis using dbStageIndex_value [OF r(3)] by auto
qed

lemma run_advance_cases:
  obtains (advanced) row db1 where "advanceStage pg (advance_input c i d) db = (Inr row, db1)"
      "run_advance pg c i d db = (Inr (if i = 8 then None else Some (i + 1)), db1)"
  | (failed) e where "advanceStage pg (advance_input c i d) db = (Inl e, db)" "\<not> isStaleStageError e"
      "run_advance pg c i d db = (Inl (RunDb e), db)"
  | (stale) "\<forall>r \<in> set (call_state db). \<not> advance_guard (advance_input c i d) r"
      "run_advance pg c i d db =
         (map_sum id (\<lambda>x. case x of StaleComplete \<Rightarrow> None | StaleResume j \<Rightarrow> Some j)
           (resolveStale c (if i = 8 then 8 else i + 1) db), db)"
proof -
  obtain x db1 where adv: "advanceStage pg (advance_input c i d) db = (x, db1)" by force
  show thesis
  proof (cases x)
    case (Inr row)
    with adv show thesis by (intro advanced) (simp_all add: run_advance_def Let_def)
  next
    case (Inl e)
    note l = advanceStage_Inl [OF adv [unfolded Inl]]
    show thesis
    proof (cases "isStaleStageError e")
      case True
      with l have g: "\<forall>r \<in> set (call_state db). \<not> advance_guard (advance_input c i d) r"
        by (auto simp: isStaleStageError_def)
      show thesis
        by (rule stale [OF g])
           (use adv Inl True l in \<open>simp add: run_advance_def Let_def split: sum.split stale_resolution.split\<close>)
    next
      case False
      with adv Inl l show thesis by (intro failed [of e]) (simp_all add: run_advance_def Let_def)
    qed
  qed
qed

lemma run_advance_next:
  assumes "run_advance pg c index d db = (Inr (Some i), db')" "index \<le> LAST_INDEX"
  shows "index < i \<and> i \<le> LAST_INDEX"
proof (cases rule: run_advance_cases [of pg c index d db])
  case (stale)
  let ?t = "if index = 8 then 8 else index + 1"
  have "resolveStale c ?t db = Inr (StaleResume i)"
    using stale(2) assms(1) by (cases "resolveStale c ?t db") (auto split: stale_resolution.splits)
  then obtain r where r: "getCallState c db = Some r" "?t \<le> i" "i \<le> 8"
      "cs_current_stage r = pipeline_stage_name (PIPELINE_STAGES ! i)"
    using resolveStale_resume by blast
  have "i \<noteq> index" using stale(1) getCallState_Some [OF r(1)] r(4) by (auto simp: advance_guard_input)
  with r(2,3) assms(2) show ?thesis by (auto split: if_splits)
qed (use assms in \<open>auto split: if_splits\<close>)

lemma raced_write_db [simp]: "snd (raced_write t c db) = db"
  by (simp add: raced_write_def split: option.splits)

lemma raced_write_None: "raced_write t c db \<noteq> (Inr (Some i), db')"
  by (simp add: raced_write_def split: option.splits)

lemma run_drop_None: "run_drop pg c st r d db \<noteq> (Inr (Some i), db')"
  by (simp add: run_drop_def raced_write_None split: prod.splits sum.splits)

lemma run_hold_None: "run_hold pg sla c st r e d s db \<noteq> (Inr (Some i), db')"
  by (simp add: run_hold_def raced_write_None split: prod.splits sum.splits)

lemma run_stage_next:
  "run_stage pg sla h callId index db = (Inr (Some i), db') \<Longrightarrow> index \<le> LAST_INDEX \<Longrightarrow> index < i \<and> i \<le> LAST_INDEX"
  by (auto simp: run_stage_def Let_def run_drop_None run_hold_None
        split: prod.splits sum.splits option.splits stage_result.splits dest!: run_advance_next)

function run_loop ::
    "pg \<Rightarrow> (held_reason \<Rightarrow> int) \<Rightarrow> stage_handlers \<Rightarrow> string \<Rightarrow> nat \<Rightarrow> db \<Rightarrow> (run_error + unit) \<times> db" where
  "run_loop pg slaMinutesFor handlers callId index db =
     (if LAST_INDEX < index then (Inr (), db)
      else case run_stage pg slaMinutesFor handlers callId index db of
             (Inl e, db') \<Rightarrow> (Inl e, db')
           | (Inr None, db') \<Rightarrow> (Inr (), db')
           | (Inr (Some next), db') \<Rightarrow> run_loop pg slaMinutesFor handlers callId next db')"
  by pat_completeness auto
termination
proof (relation "measure (\<lambda>(pg, sla, h, c, index, db). 9 - index)")
  fix pg sla h c index db x db' y i
  assume "\<not> LAST_INDEX < index" "(x, db') = run_stage pg sla h c index db" "x = Inr y" "y = Some i"
  then have "index < i \<and> i \<le> LAST_INDEX" using run_stage_next [of pg sla h c index db i db'] by simp
  then show "((pg, sla, h, c, i, db'), pg, sla, h, c, index, db)
      \<in> measure (\<lambda>(pg, sla, h, c, index, db). 9 - index)" by auto
qed simp

declare run_loop.simps [simp del]

definition runPipeline ::
    "pg \<Rightarrow> (held_reason \<Rightarrow> int) \<Rightarrow> stage_handlers \<Rightarrow> string \<Rightarrow> db \<Rightarrow> (run_error + unit) \<times> db" where
  "runPipeline pg slaMinutesFor handlers callId db =
     (case getCallState callId db of
        None \<Rightarrow> (Inl NotSeeded, db)
      | Some state \<Rightarrow>
          let stage = cs_current_stage state; status = cs_status state;
              inconsistent = (Inl (Inconsistent status stage), db)
          in if status = STATUS_COMPLETED then
               (if stage = pipeline_stage_name FINAL_STAGE then (Inr (), db) else inconsistent)
             else if status = STATUS_SKIPPED then
               (if stage \<in> set (map pipeline_stage_name SKIP_STAGES) \<and> cs_drop_reason state \<noteq> None
                then (Inr (), db) else inconsistent)
             else if status = STATUS_HELD then
               (if isPipelineStage stage \<and> hasActiveReviewForCall callId db then (Inr (), db) else inconsistent)
             else if status = STATUS_REVIEW_CLOSED then
               (if isPipelineStage stage \<and> hasTerminalReviewForCall callId db then (Inr (), db) else inconsistent)
             else if dbStageIndex stage = -1 then (Inl (UnknownStage stage), db)
             else run_loop pg slaMinutesFor handlers callId (nat (dbStageIndex stage)) db)"

end
