(* ===== verification/Samples.thy ===== *)
theory Samples
  imports Review_Actions Runner
begin

text \<open>
  Concrete states on which the properties are instantiated: a Postgres whose clock reads 1000, a call
  that is being processed, a call held for review, and the dependencies of a review action.
\<close>

definition sample_pg :: pg where
  "sample_pg = \<lparr>pg_now = 1000, pg_text = (\<lambda>_. [])\<rparr>"

definition sample_call :: "string \<Rightarrow> pipeline_stage \<Rightarrow> string \<Rightarrow> call_state_row" where
  "sample_call c stage status =
     \<lparr>cs_call_id = c, cs_source = ''dialpad'', cs_source_metadata = JObj [],
      cs_current_stage = pipeline_stage_name stage, cs_status = status, cs_drop_reason = None,
      cs_transcript_wait_started_at = None, cs_created_at = 0, cs_updated_at = 0\<rparr>"

definition processing_db :: "pipeline_stage \<Rightarrow> db" where
  "processing_db stage = empty_db\<lparr>call_state := [sample_call ''c1'' stage STATUS_PROCESSING]\<rparr>"

definition sample_review :: "held_reason \<Rightarrow> review_queue_row" where
  "sample_review reason = new_review sample_pg 0 ''c1'' reason 90000 None"

definition held_db :: "pipeline_stage \<Rightarrow> held_reason \<Rightarrow> db" where
  "held_db stage reason =
     empty_db\<lparr>next_uuid := 1, call_state := [sample_call ''c1'' stage STATUS_HELD],
              review_queue := [sample_review reason]\<rparr>"

definition sample_deps :: review_deps where
  "sample_deps = \<lparr>rd_pg = sample_pg, rd_now = 2000, rd_cap_hours = 72, rd_digest = (\<lambda>s. s), rd_queue_accepts = True\<rparr>"

end
