(* ===== verification/Storage_Properties.thy ===== *)
theory Storage_Properties
  imports Model_Cost Samples
begin

text \<open>
  Properties of the repositories and of the two services right above them, the daily cost guardrail and
  the job queue: what re-ingestion keeps, how a hold and its review belong together, the one-way PII
  verdict, the finality of a raw purge, the cost cap and the job ids.
\<close>

section \<open>The call spine\<close>

text \<open>re-ingesting a call never reopens it.  A call that is completed, skipped, held or closed by review keeps
  its stage, status, drop reason and metadata when its webhook arrives again.\<close>

lemma reingestion_keeps_protected:
  assumes "db_ok db" "getCallState (ci_callId v) db = Some r"
    and "cs_status r \<in> set UPSERT_PROTECTED_CALL_STATE_STATUSES"
    and "upsertCallState pg v db = (Inr row, db')"
  shows "getCallState (ci_callId v) db' = Some (r\<lparr>cs_updated_at := pg_now pg\<rparr>) \<and> length (call_state db') = length (call_state db)"
proof -
  have r: "r \<in> set (call_state db)" "cs_call_id r = ci_callId v" using getCallState_Some [OF assms(2)] by auto
  from assms(4) show ?thesis
  proof (cases rule: upsertCallState_cases)
    case insert
    with r show ?thesis by (metis imageI)
  next
    case (conflict r')
    have "getCallState (ci_callId v) db' = Some (reseed_call_state pg v r)"
      using conflict(4) assms(2) r getCallState_update [where f = "reseed_call_state pg v" and callId = "ci_callId v" and db = db]
      by simp
    with assms(3) conflict(4) show ?thesis by (simp add: reseed_call_state_def sql_update_def)
  qed
qed

definition sample_insert :: call_state_insert where
  "sample_insert = \<lparr>ci_callId = ''c1'', ci_source = ''dialpad'', ci_sourceMetadata = None,
     ci_currentStage = ''metadata-prefilter'', ci_status = STATUS_PROCESSING\<rparr>"

text \<open>a hold and its review belong together.  Holding a call sets it to held, leaves exactly one active
  review for it, under the requested reason, and logs one held row; a refused hold changes nothing.\<close>

lemma hold_with_review:
  assumes "db_ok db" "holdCall pg v db = (res, db')"
  shows "case res of
      Inl e \<Rightarrow> db' = db
    | Inr row \<Rightarrow> getCallState (hc_callId v) db' = Some row \<and> cs_status row = STATUS_HELD \<and> cs_current_stage row = hc_atStage v
        \<and> (\<exists>review. filter (\<lambda>r. rq_call_id r = hc_callId v \<and> active_review r) (review_queue db') = [review]
             \<and> rq_held_reason review = hc_heldReason v)
        \<and> (\<exists>log. processing_log db' = processing_log db @ [log] \<and> pl_outcome log = ''held'' \<and> pl_call_id log = Some (hc_callId v))"
proof (cases res)
  case (Inl e)
  with holdCall_Inl assms(2) show ?thesis by force
next
  case (Inr row)
  with assms(2) have run: "holdCall pg v db = (Inr row, db')" by simp
  obtain r0 log where h: "r0 \<in> set (call_state db)" "processing_at (hc_callId v) (hc_atStage v) r0" "row = hold_row pg r0"
    "call_state db' = sql_update (processing_at (hc_callId v) (hc_atStage v)) (hold_row pg) (call_state db)"
    "hold_review pg v db db'" "processing_log db' = processing_log db @ [log]"
    "pl_call_id log = Some (hc_callId v)" "pl_outcome log = ''held''"
    by (rule holdCall_Inr [OF run])
  have "getCallState (hc_callId v) db = Some r0"
    using h(1,2) assms(1) by (simp add: getCallState_iff db_ok_def processing_at_def)
  then have "getCallState (hc_callId v) (db\<lparr>call_state := call_state db'\<rparr>) = Some row"
    unfolding h(4) using getCallState_update [where f = "hold_row pg" and callId = "hc_callId v" and db = db] h(2,3) by simp
  then have get: "getCallState (hc_callId v) db' = Some row" by (simp add: getCallState_def)
  have "unique_live rq_call_id active_review (review_queue db')"
    using holdCall_db_ok [OF assms(1) run] by (simp add: db_ok_def)
  moreover have "has_active_review (hc_callId v) db'" using hold_review_active [OF h(5)] .
  moreover have "\<forall>r \<in> set (review_queue db'). rq_call_id r = hc_callId v \<and> active_review r \<longrightarrow> rq_held_reason r = hc_heldReason v"
  proof -
    show ?thesis
    proof (cases "has_active_review (hc_callId v) db")
      case True
      with h(5) obtain r where r: "review_queue db' = review_queue db" "r \<in> set (review_queue db)" "rq_call_id r = hc_callId v"
          "active_review r" "rq_held_reason r = hc_heldReason v" by (auto simp: hold_review_def)
      have "\<forall>r' \<in> set (review_queue db). rq_call_id r' = hc_callId v \<and> active_review r' \<longrightarrow> r' = r"
      proof -
        have "set (filter (\<lambda>x. rq_call_id x = hc_callId v \<and> active_review x) (review_queue db)) = {r}"
          using unique_live_select [of rq_call_id active_review "review_queue db" r] assms(1) r
          by (simp add: db_ok_def sql_select_def)
        then show ?thesis by (simp add: set_eq_iff) blast
      qed
      with r(1,5) show ?thesis by metis
    next
      case False
      with h(5) show ?thesis by (auto simp: hold_review_def has_active_review_def sql_exists_iff new_review_def)
    qed
  qed
  ultimately have "\<exists>review. filter (\<lambda>r. rq_call_id r = hc_callId v \<and> active_review r) (review_queue db') = [review]
             \<and> rq_held_reason review = hc_heldReason v"
    using unique_live_select [of rq_call_id active_review "review_queue db'"]
    by (fastforce simp: has_active_review_def sql_exists_iff sql_select_def)
  with get h Inr show ?thesis by (auto simp: hold_row_def STATUS_HELD_def processing_at_def)
qed

definition sample_hold :: hold_call_input where
  "sample_hold = \<lparr>hc_callId = ''c1'', hc_atStage = ''classify'', hc_heldReason = HR_classifier_uncertain, hc_slaMinutes = 60,
     hc_errorCode = None, hc_logDetail = None, hc_failureSnapshot = None\<rparr>"

lemma processing_db_ok: "db_ok (processing_db stage)"
  by (simp add: db_ok_def processing_db_def empty_db_def unique_live_def alerts_deduped_def)

section \<open>Artifacts\<close>

text \<open>The writes of a candidate's verdict and content, in any order.\<close>

inductive candidate_step :: "db \<Rightarrow> db \<Rightarrow> bool" where
  upsert: "upsertExtractionCandidate pg c v db = (r, db') \<Longrightarrow> candidate_step db db'"
| failed: "markPiiScanFailed pg c f db = (r, db') \<Longrightarrow> candidate_step db db'"
| passed: "markPiiScanPassed c db = (r, db') \<Longrightarrow> candidate_step db db'"

text \<open>whatever sequence of candidate writes has run, a candidate whose PII scan failed carries its failure
  kind and no verbatim customer phrase, and a later pass verdict leaves it failed.\<close>

lemma failed_scan_is_latched:
  assumes "candidate_step\<^sup>*\<^sup>* empty_db db" "x \<in> set (extraction_candidates db)" "ec_pii_scan_status x = PS_failed"
  shows "kp_customer_language (ec_payload x) = [] \<and> ec_pii_scan_failure_kind x \<noteq> None
    \<and> x \<in> set (extraction_candidates (snd (markPiiScanPassed c db)))"
proof -
  from assms(1) have "candidates_ok db"
  proof (induction rule: rtranclp_induct)
    case base
    then show ?case by (simp add: candidates_ok_def empty_db_def)
  next
    case (step y z)
    from step(2,3) show ?case
      by cases (auto intro: upsertExtractionCandidate_ok markPiiScanFailed_ok markPiiScanPassed_ok)
  qed
  then have "candidate_ok x" using assms(2) by (auto simp: candidates_ok_def list_all_iff)
  moreover have "x \<in> set (extraction_candidates (snd (markPiiScanPassed c db)))"
    using markPiiScanPassed_keeps_failed [OF _ assms(2,3)] by (metis prod.collapse)
  ultimately show ?thesis using assms(3) by (simp add: candidate_ok_def)
qed

definition failed_db :: db where
  "failed_db = snd (markPiiScanFailed sample_pg ''c1'' (TokenedPhrase 1)
     (snd (upsertExtractionCandidate sample_pg ''c1'' (correction_payload CI_new_booking SC_water_heater UR_routine SE_neutral) empty_db)))"

lemma failed_db_row: "list_ex (\<lambda>x. ec_pii_scan_status x = PS_failed) (extraction_candidates failed_db)"
  by code_simp

text \<open>The writes of the raw store, in any order.\<close>

inductive raw_step :: "db \<Rightarrow> db \<Rightarrow> bool" where
  transcript: "putTranscript pg encrypt c txt db = (r, db') \<Longrightarrow> raw_step db db'"
| token: "putToken encrypt c k v db = (r, db') \<Longrightarrow> raw_step db db'"
| tombstone: "raw_step db (insertRawTombstone c db)"
| transcript_eligible: "raw_step db (markTranscriptRetentionEligible pg c db)"
| tokens_eligible: "raw_step db (markTokensRetentionEligible pg c db)"

definition raw_texts :: "string \<Rightarrow> db \<Rightarrow> string list \<times> (string \<times> string) list" where
  "raw_texts c db =
     (map rt_ciphertext (filter (\<lambda>r. rt_call_id r = c) (raw_transcripts db)),
      map (\<lambda>r. (tv_token r, tv_ciphertext r)) (filter (\<lambda>r. tv_call_id r = c) (token_vault db)))"

lemma filter_map_update:
  assumes "\<And>r. p r \<Longrightarrow> q (f r) = q r \<and> (q r \<longrightarrow> g (f r) = g r)"
  shows "map g (filter q (sql_update p f t)) = map g (filter q t)"
  using assms by (induction t) (auto simp: sql_update_def)

lemma raw_step_purged:
  assumes "raw_step db db'" "isRawPurged c db"
  shows "isRawPurged c db' \<and> raw_texts c db' = raw_texts c db"
  using assms(1)
proof cases
  case (transcript pg encrypt c' t r)
  show ?thesis
  proof (cases "c' = c")
    case True
    with transcript tombstone_final(1) [OF assms(2)] assms(2) show ?thesis by (metis prod.inject)
  next
    case False
    with transcript assms(2) show ?thesis
      by (auto simp: putTranscript_def Let_def isRawPurged_def raw_texts_def intro!: filter_map_update split: prod.splits if_splits)
  qed
next
  case (token encrypt c' k v r)
  show ?thesis
  proof (cases "c' = c")
    case True
    with token tombstone_final(2) [OF assms(2)] assms(2) show ?thesis by (metis prod.inject)
  next
    case False
    with token assms(2) show ?thesis
      by (auto simp: putToken_def Let_def isRawPurged_def raw_texts_def intro!: filter_map_update split: prod.splits if_splits)
  qed
next
  case (transcript_eligible pg c')
  with assms(2) show ?thesis
    by (auto simp: markTranscriptRetentionEligible_def isRawPurged_def raw_texts_def intro!: filter_map_update)
next
  case (tokens_eligible pg c')
  with assms(2) show ?thesis
    by (auto simp: markTokensRetentionEligible_def isRawPurged_def raw_texts_def intro!: filter_map_update)
qed (use assms(2) in \<open>auto simp: insertRawTombstone_def isRawPurged_def raw_texts_def\<close>)

text \<open>C33: a raw purge is final.  Once a call has its tombstone, no sequence of raw-store writes puts a transcript or
  a vault value of that call back, and the tombstone stays.\<close>

theorem raw_purge_is_final:
  assumes "isRawPurged c db" "raw_step\<^sup>*\<^sup>* db db'"
  shows "isRawPurged c db' \<and> raw_texts c db' = raw_texts c db"
  using assms(2,1)
proof (induction rule: rtranclp_induct)
  case (step y z)
  then show ?case using raw_step_purged by metis
qed simp

theorem raw_purge_is_final_witness:
  "isRawPurged ''c1'' (insertRawTombstone ''c1'' empty_db)
   \<and> raw_texts ''c1'' (snd (putTranscript sample_pg (\<lambda>c t. (t, 1)) ''c1'' ''hello'' (insertRawTombstone ''c1'' empty_db))) = ([], [])"
proof -
  let ?db = "insertRawTombstone ''c1'' empty_db"
  have "raw_step\<^sup>*\<^sup>* ?db (snd (putTranscript sample_pg (\<lambda>c t. (t, 1)) ''c1'' ''hello'' ?db))"
    by (rule r_into_rtranclp, rule raw_step.transcript [OF prod.collapse [symmetric]])
  with raw_purge_is_final insertRawTombstone_purged
  have "raw_texts ''c1'' (snd (putTranscript sample_pg (\<lambda>c t. (t, 1)) ''c1'' ''hello'' ?db)) = raw_texts ''c1'' ?db" by blast
  moreover have "raw_texts ''c1'' ?db = ([], [])" by code_simp
  ultimately show ?thesis using insertRawTombstone_purged by simp
qed

section \<open>Cost and queue\<close>

text \<open>C32: the daily cost cap.  Workers interleave reservations, and settlements, releases and losses of reservations they hold, in any order, starting with no
  costs booked.  What a day records is then never above a non-negative cap by more than what settlements of that day overran their own reservations (as booked; the
  code does not cap an actual cost) plus the half millionth of a dollar that rounding a reservation to six decimals can add.\<close>

theorem daily_cost_capped:
  assumes "(cost_step config)\<^sup>*\<^sup>* (budget_start empty_db) s" "0 \<le> DAILY_MODEL_COST_CAP_USD config"
  shows "spent day (bs_db s) \<le> DAILY_MODEL_COST_CAP_USD config + bs_overrun s day + 1 / 2000000"
proof -
  have "within_cap config (budget_start empty_db)"
    using assms(2) by (simp add: within_cap_def budget_start_def spent_def getDay_def sql_select_def first_row_def empty_db_def)
  from cost_steps_within [OF assms(1) this] show ?thesis by (simp add: within_cap_def)
qed

definition sample_cost :: cost_config where
  "sample_cost = \<lparr>DAILY_MODEL_COST_CAP_USD = 25, DAILY_MODEL_COST_WARNING_THRESHOLD_RATIO = 8 / 10\<rparr>"

definition sample_reservation :: budget_reservation where
  "sample_reservation = \<lparr>br_day = ''1970-01-01'', br_reservedUsd = 3, br_warningThresholdReached = False\<rparr>"

definition sample_rates :: model_rates where
  "sample_rates = \<lparr>inputUsdPerMtok = 1000000, outputUsdPerMtok = 5000000\<rparr>"

definition sample_reserved :: db where
  "sample_reserved = snd (reserveModelBudget sample_pg sample_cost 0 3 empty_db)"

definition sample_settled :: db where
  "sample_settled = snd (settleModelUsage sample_pg sample_reservation 4 0 sample_rates sample_reserved)"

lemma sample_budget_runs:
  "reserveModelBudget sample_pg sample_cost 0 3 empty_db = (Inr (Some sample_reservation), sample_reserved)"
  "settleModelUsage sample_pg sample_reservation 4 0 sample_rates sample_reserved = (Inr (), sample_settled)"
  "overran sample_reservation 4 0 sample_rates = 1"
proof -
  have "fst (reserveModelBudget sample_pg sample_cost 0 3 empty_db) = Inr (Some sample_reservation)" by code_simp
  then show "reserveModelBudget sample_pg sample_cost 0 3 empty_db = (Inr (Some sample_reservation), sample_reserved)"
    by (simp add: sample_reserved_def prod_eq_iff)
  have "fst (settleModelUsage sample_pg sample_reservation 4 0 sample_rates sample_reserved) = Inr ()" by code_simp
  then show "settleModelUsage sample_pg sample_reservation 4 0 sample_rates sample_reserved = (Inr (), sample_settled)"
    by (simp add: sample_settled_def prod_eq_iff)
  show "overran sample_reservation 4 0 sample_rates = 1" by code_simp
qed

text \<open>A reservation of three dollars whose call then costs four.\<close>

theorem daily_cost_capped_witness:
  "spent ''1970-01-01'' sample_settled \<le> 25 + 1 + 1 / 2000000"
proof -
  let ?s = "budget_start empty_db"
  let ?s1 = "?s\<lparr>bs_db := sample_reserved, bs_open := [sample_reservation]\<rparr>"
  let ?s2 = "?s1\<lparr>bs_db := sample_settled, bs_open := [], bs_overrun := (\<lambda>_. 0)(''1970-01-01'' := 1)\<rparr>"
  have "cost_step sample_cost ?s ?s1"
    using cost_step.reserve [of sample_pg sample_cost 0 3 ?s sample_reservation sample_reserved] sample_budget_runs(1) by (simp add: budget_start_def)
  moreover have "cost_step sample_cost ?s1 ?s2"
    using cost_step.settle [of sample_reservation ?s1 sample_pg 4 0 sample_rates "()" sample_settled sample_cost] sample_budget_runs(2,3)
    by (simp add: budget_start_def sample_reservation_def)
  ultimately have "(cost_step sample_cost)\<^sup>*\<^sup>* ?s ?s2" by (meson rtranclp.rtrancl_into_rtrancl rtranclp.rtrancl_refl)
  from daily_cost_capped [OF this, of "''1970-01-01''"] show ?thesis by (simp add: sample_cost_def)
qed

text \<open>job ids are collision free.  For calls whose digests do not collide, the ids of ingestion, reprocess,
  re-extract and transcript-wait jobs coincide only for the same kind, call and run, so the queue
  drops exactly the duplicates it is meant to drop.\<close>

lemma job_ids_collision_free:
  assumes "\<forall>x. length (digest x) = 43" "digest a = digest b \<longrightarrow> a = b"
  shows "(jobIdForCall digest a = jobIdForCall digest b \<longleftrightarrow> a = b)
    \<and> (reprocessJobId digest a r = reprocessJobId digest b s \<longleftrightarrow> a = b \<and> r = s)
    \<and> (waitJobId digest a m = waitJobId digest b n \<longleftrightarrow> a = b \<and> m = n)
    \<and> jobIdForCall digest a \<noteq> reprocessJobId digest b r
    \<and> reprocessJobId digest a r \<noteq> waitJobId digest b n
    \<and> reextractJobId digest a r \<noteq> reprocessJobId digest b s"
proof -
  have len: "\<And>x. length (digest x) = 43" and inj: "digest a = digest b \<Longrightarrow> a = b" using assms by auto
  show ?thesis by (intro conjI job_ids_distinct [OF len inj])
qed

definition sample_digest :: "string \<Rightarrow> string" where
  "sample_digest s = take 43 (s @ replicate 43 CHR ''_'')"

end
