(* ===== verification/Runner_Correct.thy ===== *)
theory Runner_Correct
  imports Runner
begin

text \<open>
  What the runner guarantees.  The part of a call the state machine owns is its \<open>call_view\<close>: stage,
  status and drop reason.  \<open>edge\<close> is the transition relation of the state machine and \<open>spine_ok\<close> the
  invariant its terminal guards rely on.  The locale \<open>quiet_handlers\<close> is the interface between the
  runner and the stage handlers: a handler may write its own tables but moves no call and writes no
  review, and asks for a drop only at a stage that may drop.
\<close>

section \<open>The state machine\<close>

type_synonym call_view = "string \<times> string \<times> string option"

definition call_view :: "call_state_row \<Rightarrow> call_view" where
  "call_view r = (cs_current_stage r, cs_status r, cs_drop_reason r)"

definition view :: "string \<Rightarrow> db \<Rightarrow> call_view option" where
  "view c db = map_option call_view (getCallState c db)"

abbreviation stage_at :: "nat \<Rightarrow> string" where
  "stage_at i \<equiv> pipeline_stage_name (PIPELINE_STAGES ! i)"

inductive edge :: "call_view \<Rightarrow> call_view \<Rightarrow> bool" where
  advance: "i < 8 \<Longrightarrow> edge (stage_at i, STATUS_PROCESSING, d) (stage_at (i + 1), STATUS_PROCESSING, d)"
| complete: "edge (stage_at 8, STATUS_PROCESSING, d) (stage_at 8, STATUS_COMPLETED, d)"
| skip: "i \<le> 8 \<Longrightarrow> edge (stage_at i, STATUS_PROCESSING, d) (stage_at i, STATUS_SKIPPED, Some r)"
| hold: "i \<le> 8 \<Longrightarrow> edge (stage_at i, STATUS_PROCESSING, d) (stage_at i, STATUS_HELD, d)"

inductive_cases edge_from: "edge (s, st, d) v"

text \<open>What the runner's terminal guards check of a call.\<close>

definition view_ok :: "db \<Rightarrow> string \<Rightarrow> call_view \<Rightarrow> bool" where
  "view_ok db c v \<longleftrightarrow>
     (case v of (stage, status, reason) \<Rightarrow>
        isPipelineStage stage \<and> status \<in> set CALL_STATE_STATUSES
        \<and> (status = STATUS_COMPLETED \<longrightarrow> stage = pipeline_stage_name FINAL_STAGE)
        \<and> (status = STATUS_SKIPPED \<longrightarrow> stage \<in> set (map pipeline_stage_name SKIP_STAGES) \<and> reason \<noteq> None)
        \<and> (status = STATUS_HELD \<longrightarrow> hasActiveReviewForCall c db)
        \<and> (status = STATUS_REVIEW_CLOSED \<longrightarrow> hasTerminalReviewForCall c db))"

definition spine_ok :: "db \<Rightarrow> bool" where
  "spine_ok db \<longleftrightarrow> list_all (\<lambda>r. view_ok db (cs_call_id r) (call_view r)) (call_state db)"

text \<open>The stages a call has a \<^verbatim>\<open>completed\<close> log row for, in order, and how many stages lie behind it.\<close>

definition completed_stages :: "string \<Rightarrow> db \<Rightarrow> string list" where
  "completed_stages c db =
     map pl_stage (filter (\<lambda>r. pl_call_id r = Some c \<and> pl_outcome r = ''completed'') (processing_log db))"

definition progress :: "call_view \<Rightarrow> nat" where
  "progress v = (case v of (stage, status, reason) \<Rightarrow> if status = STATUS_COMPLETED then 9 else nat (dbStageIndex stage))"

section \<open>Lemmas on views\<close>

lemma view_Some: "view c db = Some (s, st, d) \<longleftrightarrow>
    (\<exists>r. getCallState c db = Some r \<and> cs_current_stage r = s \<and> cs_status r = st \<and> cs_drop_reason r = d)"
  by (auto simp: view_def call_view_def)

lemma db_ok_distinct: "db_ok db \<Longrightarrow> distinct (map cs_call_id (call_state db))"
  by (simp add: db_ok_def)

lemma spine_okD: "spine_ok db \<Longrightarrow> view c db = Some v \<Longrightarrow> view_ok db c v"
  using getCallState_Some [of c db] by (auto simp: spine_ok_def list_all_iff view_def)

lemma spine_okI:
  assumes "db_ok db" "\<And>c v. view c db = Some v \<Longrightarrow> view_ok db c v"
  shows "spine_ok db"
proof -
  have "view_ok db (cs_call_id r) (call_view r)" if "r \<in> set (call_state db)" for r
  proof -
    have "getCallState (cs_call_id r) db = Some r"
      using that assms(1) getCallState_iff [of db "cs_call_id r" r] by (simp add: db_ok_distinct)
    then show ?thesis using assms(2) by (simp add: view_def)
  qed
  then show ?thesis by (simp add: spine_ok_def list_all_iff)
qed

lemma view_update:
  assumes "call_state db' = sql_update p f (call_state db)" "\<And>r. cs_call_id (f r) = cs_call_id r"
  shows "view c db' = map_option (\<lambda>r. call_view (if p r then f r else r)) (getCallState c db)"
  using assms getCallState_cong [of db' "db\<lparr>call_state := sql_update p f (call_state db)\<rparr>" c]
  by (simp add: view_def getCallState_update option.map_comp comp_def)

lemma view_update_other:
  assumes "call_state db' = sql_update p f (call_state db)" "\<And>r. cs_call_id (f r) = cs_call_id r"
    and "\<And>r. p r \<Longrightarrow> cs_call_id r = c" "c' \<noteq> c"
  shows "view c' db' = view c' db"
proof (cases "getCallState c' db")
  case None
  then show ?thesis using view_update [OF assms(1,2), of c'] by (simp add: view_def)
next
  case (Some r)
  then have "\<not> p r" using assms(3,4) getCallState_Some [of c' db r] by auto
  with Some show ?thesis using view_update [OF assms(1,2), of c'] by (simp add: view_def)
qed

lemma view_ok_cong:
  assumes "hasActiveReviewForCall c db \<Longrightarrow> hasActiveReviewForCall c db'"
    and "hasTerminalReviewForCall c db \<Longrightarrow> hasTerminalReviewForCall c db'"
  shows "view_ok db c v \<Longrightarrow> view_ok db' c v"
  using assms by (auto simp: view_ok_def)

lemmas has_review_defs = hasActiveReviewForCall_def hasTerminalReviewForCall_def

lemma hold_review_monotone:
  assumes "hold_review pg v db db'"
  shows "hasActiveReviewForCall c db \<Longrightarrow> hasActiveReviewForCall c db'"
    and "hasTerminalReviewForCall c db \<Longrightarrow> hasTerminalReviewForCall c db'"
  using assms
  by (auto simp: hold_review_def hasActiveReviewForCall_def hasTerminalReviewForCall_def sql_exists_iff split: if_splits)

lemma completed_stages_log:
  "processing_log db' = processing_log db @ [row] \<Longrightarrow> completed_stages c db' = completed_stages c db
     @ (if pl_call_id row = Some c \<and> pl_outcome row = ''completed'' then [pl_stage row] else [])"
  by (simp add: completed_stages_def)

lemma status_distinct [simp]:
  "STATUS_PROCESSING \<noteq> STATUS_COMPLETED" "STATUS_COMPLETED \<noteq> STATUS_PROCESSING"
  "STATUS_PROCESSING \<noteq> STATUS_SKIPPED" "STATUS_SKIPPED \<noteq> STATUS_PROCESSING"
  "STATUS_PROCESSING \<noteq> STATUS_HELD" "STATUS_HELD \<noteq> STATUS_PROCESSING"
  "STATUS_PROCESSING \<noteq> STATUS_REVIEW_CLOSED" "STATUS_REVIEW_CLOSED \<noteq> STATUS_PROCESSING"
  "STATUS_COMPLETED \<noteq> STATUS_SKIPPED" "STATUS_SKIPPED \<noteq> STATUS_COMPLETED"
  "STATUS_COMPLETED \<noteq> STATUS_HELD" "STATUS_HELD \<noteq> STATUS_COMPLETED"
  "STATUS_COMPLETED \<noteq> STATUS_REVIEW_CLOSED" "STATUS_REVIEW_CLOSED \<noteq> STATUS_COMPLETED"
  "STATUS_SKIPPED \<noteq> STATUS_HELD" "STATUS_HELD \<noteq> STATUS_SKIPPED"
  "STATUS_SKIPPED \<noteq> STATUS_REVIEW_CLOSED" "STATUS_REVIEW_CLOSED \<noteq> STATUS_SKIPPED"
  "STATUS_HELD \<noteq> STATUS_REVIEW_CLOSED" "STATUS_REVIEW_CLOSED \<noteq> STATUS_HELD"
  by (simp_all add: status_defs)

lemma status_known [simp]:
  "STATUS_PROCESSING \<in> set CALL_STATE_STATUSES" "STATUS_COMPLETED \<in> set CALL_STATE_STATUSES"
  "STATUS_SKIPPED \<in> set CALL_STATE_STATUSES" "STATUS_HELD \<in> set CALL_STATE_STATUSES"
  "STATUS_REVIEW_CLOSED \<in> set CALL_STATE_STATUSES"
  by (simp_all add: CALL_STATE_STATUSES_def status_defs)

lemma status_cases:
  "st \<in> set CALL_STATE_STATUSES \<Longrightarrow> st = STATUS_PROCESSING \<or> st = STATUS_COMPLETED \<or> st = STATUS_SKIPPED
     \<or> st = STATUS_HELD \<or> st = STATUS_REVIEW_CLOSED"
proof -
  have "CALL_STATE_STATUSES = [STATUS_PROCESSING, STATUS_COMPLETED, STATUS_SKIPPED, STATUS_HELD, STATUS_REVIEW_CLOSED]"
    by (simp add: CALL_STATE_STATUSES_def status_defs)
  moreover assume "st \<in> set CALL_STATE_STATUSES"
  ultimately have "st \<in> set [STATUS_PROCESSING, STATUS_COMPLETED, STATUS_SKIPPED, STATUS_HELD, STATUS_REVIEW_CLOSED]"
    by metis
  then show ?thesis by simp
qed

lemma stage_at_known [simp]: "isPipelineStage (pipeline_stage_name s)"
  by (auto simp: isPipelineStage_iff)

section \<open>Runs\<close>

text \<open>What a run may do to a call it is not about: nothing, or seed it at the first stage when the call is
  new (the canonical leg a duplicate leg reports).\<close>

definition undisturbed :: "string \<Rightarrow> db \<Rightarrow> db \<Rightarrow> bool" where
  "undisturbed c db db' \<longleftrightarrow>
     completed_stages c db' = completed_stages c db
     \<and> (view c db' = view c db \<or> view c db = None \<and> view c db' = Some (stage_at 0, STATUS_PROCESSING, None))"

lemma undisturbed_refl [simp]: "undisturbed c db db"
  by (simp add: undisturbed_def)

lemma undisturbed_trans: "undisturbed c a b \<Longrightarrow> undisturbed c b d \<Longrightarrow> undisturbed c a d"
  by (auto simp: undisturbed_def)

lemma undisturbed_view: "undisturbed c db db' \<Longrightarrow> view c db = Some v \<Longrightarrow> view c db' = Some v"
  by (auto simp: undisturbed_def)

text \<open>How one call moves between two databases while every other call stays where it is.\<close>

definition moves :: "string \<Rightarrow> db \<Rightarrow> db \<Rightarrow> bool" where
  "moves c db db' \<longleftrightarrow>
     db_ok db' \<and> (spine_ok db \<longrightarrow> spine_ok db')
     \<and> (\<forall>c'. c' \<noteq> c \<longrightarrow> undisturbed c' db db')
     \<and> (\<exists>v v'. view c db = Some v \<and> view c db' = Some v' \<and> edge\<^sup>*\<^sup>* v v' \<and> progress v \<le> progress v'
          \<and> completed_stages c db' = completed_stages c db
              @ map pipeline_stage_name (take (progress v' - progress v) (drop (progress v) PIPELINE_STAGES)))"

lemma take_drop_join: "a \<le> b \<Longrightarrow> b \<le> k \<Longrightarrow> take (b - a) (drop a xs) @ take (k - b) (drop b xs) = take (k - a) (drop a xs)"
proof -
  assume le: "a \<le> b" "b \<le> k"
  then have "take (k - a) (drop a xs) = take ((b - a) + (k - b)) (drop a xs)" by simp
  also have "\<dots> = take (b - a) (drop a xs) @ take (k - b) (drop (b - a) (drop a xs))" by (rule take_add)
  finally show ?thesis using le by simp
qed

lemma moves_trans: "moves c db db1 \<Longrightarrow> moves c db1 db2 \<Longrightarrow> moves c db db2"
proof -
  assume a: "moves c db db1" and b: "moves c db1 db2"
  from a obtain v v1 where v: "view c db = Some v" "view c db1 = Some v1" "edge\<^sup>*\<^sup>* v v1" "progress v \<le> progress v1"
    "completed_stages c db1 = completed_stages c db
       @ map pipeline_stage_name (take (progress v1 - progress v) (drop (progress v) PIPELINE_STAGES))"
    by (auto simp: moves_def)
  from b v(2) obtain v2 where v2: "view c db2 = Some v2" "edge\<^sup>*\<^sup>* v1 v2" "progress v1 \<le> progress v2"
    "completed_stages c db2 = completed_stages c db1
       @ map pipeline_stage_name (take (progress v2 - progress v1) (drop (progress v1) PIPELINE_STAGES))"
    by (auto simp: moves_def)
  have "completed_stages c db2 = completed_stages c db
       @ map pipeline_stage_name (take (progress v2 - progress v) (drop (progress v) PIPELINE_STAGES))"
    using v(5) v2(4) take_drop_join [OF v(4) v2(3), of PIPELINE_STAGES] by (metis append.assoc map_append)
  moreover have "edge\<^sup>*\<^sup>* v v2" using v(3) v2(2) by simp
  moreover have "progress v \<le> progress v2" using v(4) v2(3) by simp
  ultimately have "\<exists>v v'. view c db = Some v \<and> view c db2 = Some v' \<and> edge\<^sup>*\<^sup>* v v' \<and> progress v \<le> progress v'
       \<and> completed_stages c db2 = completed_stages c db
              @ map pipeline_stage_name (take (progress v' - progress v) (drop (progress v) PIPELINE_STAGES))"
    using v(1) v2(1) by blast
  with a b undisturbed_trans [of _ db db1 db2] show ?thesis unfolding moves_def by blast
qed

text \<open>A database that differs only in what the state machine does not own.\<close>

definition keeps_calls :: "db \<Rightarrow> db \<Rightarrow> bool" where
  "keeps_calls db db' \<longleftrightarrow>
     (\<forall>c. undisturbed c db db') \<and> review_queue db' = review_queue db \<and> (db_ok db \<longrightarrow> db_ok db')"

lemma keeps_calls_refl [simp]: "keeps_calls db db"
  by (simp add: keeps_calls_def)

lemma keeps_calls_trans: "keeps_calls a b \<Longrightarrow> keeps_calls b c \<Longrightarrow> keeps_calls a c"
  unfolding keeps_calls_def using undisturbed_trans by metis

lemma view_ok_start [simp]: "view_ok db c (stage_at i, STATUS_PROCESSING, d)"
  by (simp add: view_ok_def)

lemma keeps_calls_spine: "keeps_calls db db' \<Longrightarrow> db_ok db \<Longrightarrow> spine_ok db \<Longrightarrow> spine_ok db'"
proof (rule spine_okI)
  fix c v
  assume k: "keeps_calls db db'" and ok: "spine_ok db" and v: "view c db' = Some v"
  from k have "undisturbed c db db'" by (simp add: keeps_calls_def)
  with v consider "view c db = Some v" | "v = (stage_at 0, STATUS_PROCESSING, None)"
    by (auto simp: undisturbed_def)
  then show "view_ok db' c v"
  proof cases
    case 1
    with ok have "view_ok db c v" by (rule spine_okD)
    then show ?thesis using k by (intro view_ok_cong [of c db db' v]) (simp_all add: keeps_calls_def has_review_defs)
  qed simp
qed (simp add: keeps_calls_def)

lemma keeps_calls_moves: "keeps_calls db db' \<Longrightarrow> db_ok db \<Longrightarrow> view c db = Some v \<Longrightarrow> moves c db db'"
proof -
  assume k: "keeps_calls db db'" and ok: "db_ok db" and v: "view c db = Some v"
  have u: "\<forall>x. undisturbed x db db'" "db_ok db'" using k ok by (simp_all add: keeps_calls_def)
  have "spine_ok db \<longrightarrow> spine_ok db'" using keeps_calls_spine [OF k ok] by blast
  moreover have "view c db' = Some v" using u(1) v undisturbed_view by blast
  moreover have "completed_stages c db' = completed_stages c db" using u(1) by (simp add: undisturbed_def)
  ultimately show ?thesis using u v unfolding moves_def by force
qed

text \<open>The three writes of the runner.\<close>

lemma progress_at [simp]: "i \<le> 8 \<Longrightarrow> st \<noteq> STATUS_COMPLETED \<Longrightarrow> progress (stage_at i, st, d) = i"
  by (simp add: progress_def dbStageIndex_nth)

lemma progress_completed [simp]: "progress (s, STATUS_COMPLETED, d) = 9"
  by (simp add: progress_def)

lemma movesI:
  assumes "db_ok db" "db_ok db'" "view c db = Some v" "view c db' = Some v'"
    and "\<And>c'. c' \<noteq> c \<Longrightarrow> view c' db' = view c' db" "\<And>c'. c' \<noteq> c \<Longrightarrow> completed_stages c' db' = completed_stages c' db"
    and "edge v v'" "progress v \<le> progress v'"
    and "completed_stages c db' = completed_stages c db
           @ map pipeline_stage_name (take (progress v' - progress v) (drop (progress v) PIPELINE_STAGES))"
    and "view_ok db' c v'"
    and "\<And>x. hasActiveReviewForCall x db \<Longrightarrow> hasActiveReviewForCall x db'"
    and "\<And>x. hasTerminalReviewForCall x db \<Longrightarrow> hasTerminalReviewForCall x db'"
  shows "moves c db db'"
proof -
  have "spine_ok db'" if "spine_ok db"
  proof -
    have "view_ok db' x w" if "view x db' = Some w" for x w
    proof (cases "x = c")
      case True
      with that assms(4,10) show ?thesis by simp
    next
      case False
      with that assms(5) have "view x db = Some w" by simp
      with \<open>spine_ok db\<close> have "view_ok db x w" by (rule spine_okD)
      then show ?thesis using view_ok_cong [of x db db' w] assms(11,12) by blast
    qed
    then show ?thesis using assms(2) by (intro spine_okI) auto
  qed
  with assms(1-9) show ?thesis unfolding moves_def undisturbed_def by (meson r_into_rtranclp)
qed


lemma advance_moves:
  assumes ok: "db_ok db" and v: "view c db = Some (stage_at i, STATUS_PROCESSING, d)" and i: "i \<le> 8"
    and adv: "advanceStage pg (advance_input c i detail) db = (Inr row, db')"
  shows "moves c db db'"
    and "i < 8 \<Longrightarrow> view c db' = Some (stage_at (i + 1), STATUS_PROCESSING, d)"
    and "i = 8 \<Longrightarrow> view c db' = Some (stage_at 8, STATUS_COMPLETED, d)"
proof -
  obtain r where r: "getCallState c db = Some r" "cs_current_stage r = stage_at i" "cs_status r = STATUS_PROCESSING"
    "cs_drop_reason r = d" using v by (auto simp: view_Some)
  let ?in = "advance_input c i detail"
  from adv obtain log where eff:
    "call_state db' = sql_update (advance_guard ?in) (advance_row pg ?in) (call_state db)"
    "review_queue db' = review_queue db" "processing_log db' = processing_log db @ [log]"
    "pl_call_id log = Some c" "pl_stage log = stage_at i" "pl_outcome log = ''completed''"
    by (rule advanceStage_Inr) simp
  note vu = view_update [OF eff(1) cs_call_id_updates(1)]
  have vc: "view c db' = Some (if i = 8 then (stage_at 8, STATUS_COMPLETED, d) else (stage_at (i + 1), STATUS_PROCESSING, d))"
    using r getCallState_Some [OF r(1)]
    by (simp add: vu advance_guard_input advance_row_def call_view_def last_stage)
  then show "i < 8 \<Longrightarrow> view c db' = Some (stage_at (i + 1), STATUS_PROCESSING, d)"
    and "i = 8 \<Longrightarrow> view c db' = Some (stage_at 8, STATUS_COMPLETED, d)" by simp_all
  have others: "view c' db' = view c' db" if "c' \<noteq> c" for c'
    using that by (intro view_update_other [OF eff(1) cs_call_id_updates(1)]) (auto simp: advance_guard_input)
  have one: "take 1 (drop i PIPELINE_STAGES) = [PIPELINE_STAGES ! i]"
    using i by (simp add: take_Suc_conv_app_nth hd_drop_conv_nth take_Suc)
  show "moves c db db'"
  proof (rule movesI [OF ok advanceStage_db_ok [OF ok adv] v vc])
    show "edge (stage_at i, STATUS_PROCESSING, d)
        (if i = 8 then (stage_at 8, STATUS_COMPLETED, d) else (stage_at (i + 1), STATUS_PROCESSING, d))"
      using i edge.intros(1) [of i d] edge.intros(2) [of d] by (auto split: if_splits)
    show "completed_stages c db' = completed_stages c db @ map pipeline_stage_name
        (take (progress (if i = 8 then (stage_at 8, STATUS_COMPLETED, d) else (stage_at (i + 1), STATUS_PROCESSING, d))
               - progress (stage_at i, STATUS_PROCESSING, d))
          (drop (progress (stage_at i, STATUS_PROCESSING, d)) PIPELINE_STAGES))"
      using i one completed_stages_log [OF eff(3)] eff(4-6) by (auto simp: last_stage)
    show "view_ok db' c (if i = 8 then (stage_at 8, STATUS_COMPLETED, d) else (stage_at (i + 1), STATUS_PROCESSING, d))"
      by (simp add: view_ok_def last_stage)
  qed (use others i eff completed_stages_log [OF eff(3)] in \<open>auto simp: has_review_defs\<close>)
qed

lemma skip_moves:
  assumes ok: "db_ok db" and v: "view c db = Some (stage_at i, STATUS_PROCESSING, d)" and i: "i \<le> 8"
    and may: "PIPELINE_STAGES ! i \<in> set SKIP_STAGES"
    and skip: "skipCall pg \<lparr>sk_callId = c, sk_atStage = stage_at i, sk_dropReason = reason, sk_logDetail = l\<rparr> db = (Inr row, db')"
  shows "moves c db db'" and "view c db' = Some (stage_at i, STATUS_SKIPPED, Some (drop_reason_name reason))"
proof -
  obtain r where r: "getCallState c db = Some r" "cs_current_stage r = stage_at i" "cs_status r = STATUS_PROCESSING"
    "cs_drop_reason r = d" using v by (auto simp: view_Some)
  from skip obtain log where eff:
    "call_state db' = sql_update (processing_at c (stage_at i)) (skip_row pg reason) (call_state db)"
    "review_queue db' = review_queue db" "processing_log db' = processing_log db @ [log]"
    "pl_call_id log = Some c" "pl_outcome log = ''skipped''"
    by (rule skipCall_Inr) simp
  note vu = view_update [OF eff(1) cs_call_id_updates(2)]
  show vc: "view c db' = Some (stage_at i, STATUS_SKIPPED, Some (drop_reason_name reason))"
    using r getCallState_Some [OF r(1)]
    by (simp add: vu processing_at_def skip_row_def call_view_def status_defs)
  have others: "view c' db' = view c' db" if "c' \<noteq> c" for c'
    using that by (intro view_update_other [OF eff(1) cs_call_id_updates(2)]) (auto simp: processing_at_def)
  show "moves c db db'"
    by (rule movesI [OF ok skipCall_db_ok [OF ok skip] v vc])
       (use others i may eff completed_stages_log [OF eff(3)] edge.intros(3) [OF i] in
         \<open>auto simp: has_review_defs view_ok_def\<close>)
qed

lemma hold_moves:
  assumes ok: "db_ok db" and v: "view c db = Some (stage_at i, STATUS_PROCESSING, d)" and i: "i \<le> 8"
    and hold: "holdCall pg \<lparr>hc_callId = c, hc_atStage = stage_at i, hc_heldReason = reason, hc_slaMinutes = m,
       hc_errorCode = e, hc_logDetail = l, hc_failureSnapshot = s\<rparr> db = (Inr row, db')"
  shows "moves c db db'" and "view c db' = Some (stage_at i, STATUS_HELD, d)"
proof -
  let ?in = "\<lparr>hc_callId = c, hc_atStage = stage_at i, hc_heldReason = reason, hc_slaMinutes = m,
       hc_errorCode = e, hc_logDetail = l, hc_failureSnapshot = s\<rparr>"
  obtain r where r: "getCallState c db = Some r" "cs_current_stage r = stage_at i" "cs_status r = STATUS_PROCESSING"
    "cs_drop_reason r = d" using v by (auto simp: view_Some)
  from hold obtain log where eff:
    "call_state db' = sql_update (processing_at c (stage_at i)) (hold_row pg) (call_state db)"
    "hold_review pg ?in db db'" "processing_log db' = processing_log db @ [log]"
    "pl_call_id log = Some c" "pl_outcome log = ''held''"
    by (rule holdCall_Inr) simp
  note vu = view_update [OF eff(1) cs_call_id_updates(3)]
  show vc: "view c db' = Some (stage_at i, STATUS_HELD, d)"
    using r getCallState_Some [OF r(1)]
    by (simp add: vu processing_at_def hold_row_def call_view_def status_defs)
  have others: "view c' db' = view c' db" if "c' \<noteq> c" for c'
    using that by (intro view_update_other [OF eff(1) cs_call_id_updates(3)]) (auto simp: processing_at_def)
  have "hasActiveReviewForCall c db'"
    using hold_review_active [OF eff(2)] by (simp add: hasActiveReviewForCall_eq)
  then have "view_ok db' c (stage_at i, STATUS_HELD, d)" by (simp add: view_ok_def)
  then show "moves c db db'"
    by (intro movesI [OF ok holdCall_db_ok [OF ok hold] v vc])
       (use others i eff completed_stages_log [OF eff(3)] edge.intros(4) [OF i] hold_review_monotone [OF eff(2)] in
         \<open>auto\<close>)
qed

section \<open>The contract of stage handlers\<close>

text \<open>The errors a run on a consistent spine can end with: a failed handler, or a write refused by
  validation or by a review under another reason.\<close>

definition ordinary_error :: "run_error \<Rightarrow> bool" where
  "ordinary_error e =
     (case e of StageFailed _ \<Rightarrow> True
      | RunDb (DalError code) \<Rightarrow> code \<in> {DAL_VALIDATION_FAILED, DAL_REVIEW_INVARIANT}
      | _ \<Rightarrow> False)"

locale quiet_handlers =
  fixes h :: stage_handlers
  assumes quiet: "h c st db = (r, db') \<Longrightarrow> keeps_calls db db'"
    and drops: "h c st db = (Inr (Some (SDrop reason d)), db') \<Longrightarrow> st \<in> set SKIP_STAGES"
begin

lemma run_advance_moves:
  assumes "db_ok db" "view c db = Some (stage_at i, STATUS_PROCESSING, d)" "i \<le> 8"
    and "run_advance pg c i detail db = (res, db')"
  shows "moves c db db' \<and>
    (case res of Inl e \<Rightarrow> db' = db \<and> ordinary_error e
     | Inr None \<Rightarrow> i = 8 | Inr (Some j) \<Rightarrow> j = i + 1 \<and> j \<le> 8 \<and> view c db' = Some (stage_at j, STATUS_PROCESSING, d))"
proof -
  obtain r where r: "getCallState c db = Some r" "cs_current_stage r = stage_at i" using assms(2) by (auto simp: view_Some)
  then have guard: "\<exists>r \<in> set (call_state db). advance_guard (advance_input c i detail) r"
    using getCallState_Some [OF r(1)] by (auto simp: advance_guard_input)
  show ?thesis
  proof (cases rule: run_advance_cases [of pg c i detail db])
    case (advanced row db1)
    then have "res = Inr (if i = 8 then None else Some (i + 1))" "db' = db1" using assms(4) by simp_all
    with advance_moves [OF assms(1-3) advanced(1)] assms(3) show ?thesis by auto
  next
    case (failed e)
    then have "e = DalError DAL_VALIDATION_FAILED" using advanceStage_Inl [OF failed(1)] by (auto simp: isStaleStageError_def)
    with failed assms show ?thesis by (auto simp: ordinary_error_def intro: keeps_calls_moves)
  next
    case stale
    with guard show ?thesis by blast
  qed
qed

lemma run_drop_moves:
  assumes "db_ok db" "view c db = Some (stage_at i, STATUS_PROCESSING, d)" "i \<le> 8"
    and "PIPELINE_STAGES ! i \<in> set SKIP_STAGES"
    and "run_drop pg c (PIPELINE_STAGES ! i) reason detail db = (res, db')"
  shows "moves c db db' \<and> (case res of Inl e \<Rightarrow> db' = db \<and> ordinary_error e | Inr n \<Rightarrow> n = None)"
proof -
  let ?in = "\<lparr>sk_callId = c, sk_atStage = stage_at i, sk_dropReason = reason, sk_logDetail = detail\<rparr>"
  obtain r where r: "getCallState c db = Some r" "cs_current_stage r = stage_at i" "cs_status r = STATUS_PROCESSING"
    using assms(2) by (auto simp: view_Some)
  have at: "r \<in> set (call_state db) \<and> processing_at c (stage_at i) r"
    using r getCallState_Some [OF r(1)] by (simp add: processing_at_def STATUS_PROCESSING_def)
  obtain x db1 where x: "skipCall pg ?in db = (x, db1)" by force
  show ?thesis
  proof (cases x)
    case (Inl e)
    have "db1 = db \<and> e = DalError DAL_VALIDATION_FAILED" using skipCall_Inl [OF x [unfolded Inl]] at by auto
    with x Inl assms show ?thesis
      by (auto simp: run_drop_def isStaleStageError_def ordinary_error_def intro: keeps_calls_moves)
  next
    case (Inr row)
    with x assms(5) skip_moves(1) [OF assms(1-4) x [unfolded Inr]] show ?thesis by (auto simp: run_drop_def)
  qed
qed

lemma run_hold_moves:
  assumes "db_ok db" "view c db = Some (stage_at i, STATUS_PROCESSING, d)" "i \<le> 8"
    and "run_hold pg sla c (PIPELINE_STAGES ! i) reason code detail snap db = (res, db')"
  shows "moves c db db' \<and> (case res of Inl e \<Rightarrow> db' = db \<and> ordinary_error e | Inr n \<Rightarrow> n = None)"
proof -
  let ?in = "\<lparr>hc_callId = c, hc_atStage = stage_at i, hc_heldReason = reason, hc_slaMinutes = sla reason,
      hc_errorCode = map_option error_code_name code, hc_logDetail = detail,
      hc_failureSnapshot = holdSnapshot c (PIPELINE_STAGES ! i) code snap\<rparr>"
  obtain r where r: "getCallState c db = Some r" "cs_current_stage r = stage_at i" "cs_status r = STATUS_PROCESSING"
    using assms(2) by (auto simp: view_Some)
  have at: "r \<in> set (call_state db) \<and> processing_at c (stage_at i) r"
    using r getCallState_Some [OF r(1)] by (simp add: processing_at_def STATUS_PROCESSING_def)
  obtain x db1 where x: "holdCall pg ?in db = (x, db1)" by force
  show ?thesis
  proof (cases x)
    case (Inl e)
    have "db1 = db \<and> e \<in> DalError ` {DAL_VALIDATION_FAILED, DAL_REVIEW_INVARIANT}"
      using holdCall_Inl [OF x [unfolded Inl]] at by auto
    with x Inl assms show ?thesis
      by (auto simp: run_hold_def isStaleStageError_def ordinary_error_def intro: keeps_calls_moves)
  next
    case (Inr row)
    with x assms(4) hold_moves(1) [OF assms(1-3) x [unfolded Inr]] show ?thesis by (auto simp: run_hold_def)
  qed
qed

lemma run_stage_moves:
  assumes "db_ok db" "view c db = Some (stage_at i, STATUS_PROCESSING, d)" "i \<le> 8"
    and "run_stage pg sla h c i db = (res, db')"
  shows "moves c db db' \<and>
    (case res of Inl e \<Rightarrow> view c db' = view c db \<and> ordinary_error e
     | Inr None \<Rightarrow> True | Inr (Some j) \<Rightarrow> j = i + 1 \<and> j \<le> 8 \<and> view c db' = Some (stage_at j, STATUS_PROCESSING, d))"
proof -
  obtain out db1 where h: "h c (PIPELINE_STAGES ! i) db = (out, db1)" by force
  have k: "keeps_calls db db1" using quiet [OF h] .
  then have m: "moves c db db1" and ok: "db_ok db1" and v: "view c db1 = Some (stage_at i, STATUS_PROCESSING, d)"
    using keeps_calls_moves [OF k assms(1,2)] assms(1) undisturbed_view [OF _ assms(2), of db1]
    by (simp_all add: keeps_calls_def)
  have adv: ?thesis if "run_advance pg c i detail db1 = (res, db')" for detail
    using run_advance_moves [OF ok v assms(3) that] moves_trans [OF m] v assms(2)
    by (auto split: sum.splits option.splits)
  show ?thesis
  proof (cases out)
    case (Inl cause)
    with h assms(2,4) m v show ?thesis by (auto simp: run_stage_def ordinary_error_def)
  next
    case (Inr result)
    show ?thesis
    proof (cases result)
      case None
      with h Inr assms(4) adv show ?thesis by (auto simp: run_stage_def)
    next
      case (Some s)
      show ?thesis
      proof (cases s)
        case (SContinue detail)
        with h Inr Some assms(4) adv show ?thesis by (auto simp: run_stage_def)
      next
        case SDefer
        with h Inr Some assms(4) m show ?thesis by (auto simp: run_stage_def)
      next
        case (SDrop reason detail)
        then have may: "PIPELINE_STAGES ! i \<in> set SKIP_STAGES" using drops h Inr Some by blast
        have "run_drop pg c (PIPELINE_STAGES ! i) reason detail db1 = (res, db')"
          using h Inr Some SDrop assms(4) by (simp add: run_stage_def)
        from run_drop_moves [OF ok v assms(3) may this] moves_trans [OF m] v assms(2) show ?thesis
          by (auto split: sum.splits)
      next
        case (SHold reason code detail snap)
        have "run_hold pg sla c (PIPELINE_STAGES ! i) reason code detail snap db1 = (res, db')"
          using h Inr Some SHold assms(4) by (simp add: run_stage_def)
        from run_hold_moves [OF ok v assms(3) this] moves_trans [OF m] v assms(2) show ?thesis
          by (auto split: sum.splits)
      qed
    qed
  qed
qed

lemma run_loop_moves:
  assumes "db_ok db" "view c db = Some (stage_at i, STATUS_PROCESSING, d)" "i \<le> 8"
    and "run_loop pg sla h c i db = (res, db')"
  shows "moves c db db' \<and> (\<forall>e. res = Inl e \<longrightarrow>
     ordinary_error e \<and> (\<exists>j \<le> 8. view c db' = Some (stage_at j, STATUS_PROCESSING, d)))"
  using assms
proof (induction "9 - i" arbitrary: i db rule: less_induct)
  case less
  obtain x db1 where st: "run_stage pg sla h c i db = (x, db1)" by force
  note m = run_stage_moves [OF less.prems(1-3) st]
  have unfold: "run_loop pg sla h c i db = (case (x, db1) of (Inl e, db') \<Rightarrow> (Inl e, db')
      | (Inr None, db') \<Rightarrow> (Inr (), db') | (Inr (Some j), db') \<Rightarrow> run_loop pg sla h c j db')"
    using less.prems(3) st by (subst run_loop.simps) simp
  consider (err) e where "x = Inl e" | (stop) "x = Inr None" | (go) j where "x = Inr (Some j)"
    by (cases x) auto
  then show ?case
  proof cases
    case err
    with m unfold less.prems show ?thesis by auto
  next
    case stop
    with m unfold less.prems show ?thesis by auto
  next
    case go
    then have j: "j = i + 1" "j \<le> 8" "view c db1 = Some (stage_at j, STATUS_PROCESSING, d)" "moves c db db1"
      using m by auto
    have "db_ok db1" using j(4) by (simp add: moves_def)
    moreover have "run_loop pg sla h c j db1 = (res, db')" using unfold go less.prems(4) by simp
    ultimately show ?thesis using less.hyps [of j db1] j moves_trans [OF j(4)] by auto
  qed
qed

text \<open>On a consistent spine every guard of the runner agrees with the database.\<close>

lemma runPipeline_terminal:
  assumes "spine_ok db" "view c db = Some (s, st, d)" "st \<noteq> STATUS_PROCESSING"
  shows "runPipeline pg sla h c db = (Inr (), db)"
proof -
  obtain r where r: "getCallState c db = Some r" "cs_current_stage r = s" "cs_status r = st" "cs_drop_reason r = d"
    using assms(2) by (auto simp: view_Some)
  have ok: "view_ok db c (s, st, d)" using spine_okD [OF assms(1,2)] .
  then consider "st = STATUS_COMPLETED" | "st = STATUS_SKIPPED" | "st = STATUS_HELD" | "st = STATUS_REVIEW_CLOSED"
    using assms(3) status_cases [of st] by (auto simp: view_ok_def)
  then show ?thesis
    by cases (use ok r in \<open>auto simp: runPipeline_def view_ok_def Let_def\<close>)
qed

lemma processing_view:
  assumes "spine_ok db" "view c db = Some (s, STATUS_PROCESSING, d)"
  obtains i where "i \<le> 8" "s = stage_at i" "\<And>g. runPipeline pg sla g c db = run_loop pg sla g c i db"
proof -
  obtain r where r: "getCallState c db = Some r" "cs_current_stage r = s" "cs_status r = STATUS_PROCESSING"
    using assms(2) by (auto simp: view_Some)
  have "isPipelineStage s" using spine_okD [OF assms] by (simp add: view_ok_def)
  then obtain k where k: "k < 9" "s = stage_at k"
    unfolding isPipelineStage_def by (auto simp: in_set_conv_nth)
  then have "dbStageIndex s = int k" by (simp add: dbStageIndex_nth)
  with r k show thesis by (intro that [of k]) (auto simp: runPipeline_def Let_def)
qed

lemma runPipeline_moves:
  assumes "db_ok db" "spine_ok db" "view c db \<noteq> None" "runPipeline pg sla h c db = (res, db')"
  shows "moves c db db'"
    and "\<And>e. res = Inl e \<Longrightarrow> ordinary_error e \<and> (\<exists>j d. j \<le> 8 \<and> view c db' = Some (stage_at j, STATUS_PROCESSING, d))"
proof -
  obtain s st d where v: "view c db = Some (s, st, d)" using assms(3) by (metis not_None_eq prod_cases3)
  have "moves c db db' \<and> (\<forall>e. res = Inl e \<longrightarrow>
     ordinary_error e \<and> (\<exists>j d. j \<le> 8 \<and> view c db' = Some (stage_at j, STATUS_PROCESSING, d)))"
  proof (cases "st = STATUS_PROCESSING")
    case True
    obtain i where i: "i \<le> 8" "s = stage_at i" "runPipeline pg sla h c db = run_loop pg sla h c i db"
      using processing_view [OF assms(2) v [unfolded True]] by metis
    then have "run_loop pg sla h c i db = (res, db')" using assms(4) by simp
    from run_loop_moves [OF assms(1) v [unfolded True i(2)] i(1) this] show ?thesis by blast
  next
    case False
    then have "res = Inr ()" "db' = db" using runPipeline_terminal [OF assms(2) v, of pg sla] assms(4) by auto
    then show ?thesis using keeps_calls_moves [OF keeps_calls_refl assms(1) v] by simp
  qed
  then show "moves c db db'"
    and "\<And>e. res = Inl e \<Longrightarrow> ordinary_error e \<and> (\<exists>j d. j \<le> 8 \<and> view c db' = Some (stage_at j, STATUS_PROCESSING, d))"
    by blast+
qed

text \<open>A second run of a call that came to rest changes nothing.\<close>

lemma runPipeline_again:
  assumes "db_ok db" "spine_ok db" "view c db \<noteq> None" "runPipeline pg sla h c db = (res, db')"
    and "view c db' = Some (s, st, d)" "st \<noteq> STATUS_PROCESSING"
  shows "runPipeline pg' sla' h c db' = (Inr (), db')"
proof -
  have "spine_ok db'" using runPipeline_moves(1) [OF assms(1-4)] assms(2) by (simp add: moves_def)
  then show ?thesis using runPipeline_terminal assms(5,6) by blast
qed

end

interpretation stubs: quiet_handlers defaultStageHandlers
  by unfold_locales (auto simp: defaultStageHandlers_def)

end
