(* ===== verification/Review_Correct.thy ===== *)
theory Review_Correct
  imports Review_Actions Runner_Correct Samples
begin

text \<open>
  What a review action guarantees: all or nothing, one audit row, an outbox row exactly for the
  reprocess-class actions, idempotence on a closed review, and the invariants of the pipeline spine.
  \<open>action_view\<close> is the abstract specification of an action: the stage, status and drop reason it leaves
  the held call with.
\<close>

section \<open>The abstract effect of an action\<close>

definition reprocess_target :: "review_action \<Rightarrow> held_reason \<Rightarrow> review_body \<Rightarrow> pipeline_stage option" where
  "reprocess_target action reason body =
     (case action of
        RA_reprocess \<Rightarrow> (case body of BodyReprocess s \<Rightarrow> Some s | _ \<Rightarrow> None)
      | RA_approve \<Rightarrow> APPROVE_FORWARD_STAGE reason
      | RA_correct_extraction \<Rightarrow> Some ST_verbatim_pii_scan
      | _ \<Rightarrow> None)"

definition action_view :: "review_action \<Rightarrow> held_reason \<Rightarrow> review_body \<Rightarrow> string \<Rightarrow> call_view" where
  "action_view action reason body stage =
     (case reprocess_target action reason body of
        Some s \<Rightarrow> (pipeline_stage_name s, STATUS_PROCESSING, None)
      | None \<Rightarrow>
          if action = RA_mark_non_customer
          then (pipeline_stage_name ST_classify, STATUS_SKIPPED, Some (drop_reason_name DR_classified_non_customer))
          else (stage, STATUS_REVIEW_CLOSED, None))"

section \<open>The steps of the transaction\<close>

lemma lift_db_Inr [simp]: "lift_db m db = (Inr a, db') \<longleftrightarrow> m db = (Inr a, db')"
  by (auto simp: lift_db_def split: prod.splits sum.splits)

lemma moveCallState_Inr:
  "moveCallState pg c st stg dr db = (Inr u, db') \<longleftrightarrow>
     length (filter (held_call c) (call_state db)) = 1
     \<and> db' = db\<lparr>call_state := sql_update (held_call c) (move_row pg st stg dr) (call_state db)\<rparr>"
  by (auto simp: moveCallState_def Let_def sql_updated_def)

lemma resolveReview_Inr:
  "resolveReview pg i actor db = (Inr u, db') \<longleftrightarrow>
     db' = db\<lparr>review_queue := sql_update (\<lambda>r. rq_id r = i) (close_row pg RS_resolved actor) (review_queue db)\<rparr>"
  by (auto simp: resolveReview_def)

lemma move_row_view [simp]:
  "call_view (move_row pg st stg dr r) =
     ((case stg of None \<Rightarrow> cs_current_stage r | Some s \<Rightarrow> pipeline_stage_name s), st, map_option drop_reason_name dr)"
  "cs_call_id (move_row pg st stg dr r) = cs_call_id r"
  by (simp_all add: move_row_def call_view_def)

text \<open>What a transition did: the held call moved to \<open>action_view\<close>, the review is closed, and the audit
  trail, the outbox and the alerts are as before.\<close>

definition transitioned ::
    "pg \<Rightarrow> review_queue_row \<Rightarrow> review_action \<Rightarrow> review_body \<Rightarrow> string \<Rightarrow> db \<Rightarrow> db \<Rightarrow> bool" where
  "transitioned pg review action body actor db db' \<longleftrightarrow>
     (\<exists>g status. status \<in> {RS_resolved, RS_unresolvable}
        \<and> (\<forall>r. cs_call_id (g r) = cs_call_id r)
        \<and> (\<forall>r. cs_drop_reason r = None \<longrightarrow>
              call_view (g r) = action_view action (rq_held_reason review) body (cs_current_stage r))
        \<and> call_state db' = sql_update (held_call (rq_call_id review)) g (call_state db)
        \<and> review_queue db' = sql_update (\<lambda>r. rq_id r = rq_id review) (close_row pg status actor) (review_queue db))
     \<and> operator_actions db' = operator_actions db \<and> reprocess_requests db' = reprocess_requests db
     \<and> alert_events db' = alert_events db \<and> job_queue db' = job_queue db \<and> next_uuid db \<le> next_uuid db'"

lemma transitionedI:
  assumes "status \<in> {RS_resolved, RS_unresolvable}" "\<And>r. cs_call_id (g r) = cs_call_id r"
    and "\<And>r. cs_drop_reason r = None \<Longrightarrow> call_view (g r) = action_view action (rq_held_reason review) body (cs_current_stage r)"
    and "call_state db' = sql_update (held_call (rq_call_id review)) g (call_state db)"
    and "review_queue db' = sql_update (\<lambda>r. rq_id r = rq_id review) (close_row pg status actor) (review_queue db)"
    and "operator_actions db' = operator_actions db" "reprocess_requests db' = reprocess_requests db"
    and "alert_events db' = alert_events db" "job_queue db' = job_queue db" "next_uuid db \<le> next_uuid db'"
  shows "transitioned pg review action body actor db db'"
  unfolding transitioned_def using assms by blast

lemma recordReviewerClassification_Inr:
  "recordReviewerClassification pg c db = (Inr u, db') \<Longrightarrow>
   \<exists>row. db' = db\<lparr>next_uuid := Suc (next_uuid db), processing_log := processing_log db @ [row]\<rparr>"
  by (auto simp: recordReviewerClassification_def op_bind_eq_Inr op_return_def dest!: appendLog_InrD)

lemma writeCorrectionCandidate_Inr:
  "writeCorrectionCandidate pg c body db = (Inr u, db') \<Longrightarrow> \<exists>t. db' = db\<lparr>extraction_candidates := t\<rparr>"
  by (auto simp: writeCorrectionCandidate_def op_bind_eq_Inr op_return_def op_throw_def upsertExtractionCandidate_def Let_def
        split: review_body.splits if_splits option.splits)

lemma reprocess_transition_Inr:
  assumes "reprocess_transition deps action body actor review s db = (Inr (after, outbox), db')"
    and "reprocess_target action (rq_held_reason review) body = Some s"
  shows "transitioned (rd_pg deps) review action body actor db db' \<and> outbox = Some s
    \<and> after = after_json ''resolved'' ''processing'' (fingerprintFor action (rq_held_reason review) body)"
proof -
  let ?pg = "rd_pg deps" and ?c = "rq_call_id review"
  obtain u1 u2 u3 u4 db1 db2 db3 where steps:
    "(if action = RA_approve \<and> rq_held_reason review = HR_classifier_uncertain
      then recordReviewerClassification ?pg ?c else op_return ()) db = (Inr u1, db1)"
    "(if action = RA_correct_extraction then writeCorrectionCandidate ?pg ?c body else op_return ()) db1 = (Inr u2, db2)"
    "moveCallState ?pg ?c ''processing'' (Some s) None db2 = (Inr u3, db3)"
    "resolveReview ?pg (rq_id review) actor db3 = (Inr u4, db')"
    and out: "outbox = Some s"
      "after = after_json ''resolved'' ''processing'' (fingerprintFor action (rq_held_reason review) body)"
    using assms(1) by (auto simp: reprocess_transition_def Let_def op_bind_eq_Inr op_return_def split: if_splits)
  have e1: "\<exists>l. db1 = db \<or> db1 = db\<lparr>next_uuid := Suc (next_uuid db), processing_log := l\<rparr>"
    using steps(1) recordReviewerClassification_Inr by (fastforce simp: op_return_def split: if_splits)
  have e2: "\<exists>t. db2 = db1 \<or> db2 = db1\<lparr>extraction_candidates := t\<rparr>"
    using steps(2) writeCorrectionCandidate_Inr by (fastforce simp: op_return_def split: if_splits)
  have same: "call_state db2 = call_state db" "review_queue db2 = review_queue db"
    "operator_actions db2 = operator_actions db" "reprocess_requests db2 = reprocess_requests db"
    "alert_events db2 = alert_events db" "job_queue db2 = job_queue db" "next_uuid db \<le> next_uuid db2"
    using e1 e2 by auto
  have "transitioned ?pg review action body actor db db'"
    by (rule transitionedI [of RS_resolved "move_row ?pg ''processing'' (Some s) None"])
       (use steps(3,4) same assms(2) in
          \<open>auto simp: moveCallState_Inr resolveReview_Inr action_view_def STATUS_PROCESSING_def\<close>)
  with out show ?thesis by simp
qed

lemma action_transition_Inr:
  assumes "action_transition deps action body actor review db = (Inr (after, outbox), db')"
    and "getReview (rq_id review) db = Some review"
  shows "transitioned (rd_pg deps) review action body actor db db'
    \<and> outbox = reprocess_target action (rq_held_reason review) body
    \<and> (\<exists>rs cst. after = after_json rs cst (fingerprintFor action (rq_held_reason review) body))"
proof -
  let ?pg = "rd_pg deps" and ?c = "rq_call_id review"
  have close: "transitioned ?pg review action body actor db db'"
    if "op_bind (moveCallState ?pg ?c st stg dr)
          (\<lambda>_. op_bind (resolveReview ?pg (rq_id review) actor) (\<lambda>_. op_return (a, None))) db = (Inr (after, outbox), db')"
      and "\<And>stage. action_view action (rq_held_reason review) body stage =
           ((case stg of None \<Rightarrow> stage | Some s \<Rightarrow> pipeline_stage_name s), st, map_option drop_reason_name dr)"
    for st stg dr a
    using that
    by (intro transitionedI [of RS_resolved "move_row ?pg st stg dr"])
       (auto simp: op_bind_eq_Inr op_return_def moveCallState_Inr resolveReview_Inr)
  note defs = action_transition_def Let_def op_bind_eq_Inr op_return_def fingerprintFor_def reprocess_target_def
    action_view_def STATUS_REVIEW_CLOSED_def STATUS_SKIPPED_def
  show ?thesis
  proof (cases action)
    case RA_reject
    with assms(1) close [of "''review_closed''" None None] show ?thesis by (auto simp: defs)
  next
    case RA_mark_spam
    with assms(1) close [of "''review_closed''" None None] show ?thesis by (auto simp: defs)
  next
    case RA_mark_non_customer
    with assms(1) close [of "''skipped''" "Some ST_classify" "Some DR_classified_non_customer"] show ?thesis
      by (auto simp: defs)
  next
    case RA_mark_unresolvable
    then obtain t where t: "markUnresolvableByReviewId ?pg (rq_id review) actor db = (Inr t, db')"
      "after = JObj (rt_after t @ [(''action_params'', JObj [])])" "outbox = None"
      using assms(1) by (auto simp: action_transition_def Let_def op_bind_eq_Inr op_return_def)
    have eff: "db' = db\<lparr>review_queue := sql_update (\<lambda>r. rq_id r = rq_id review) (close_row ?pg RS_unresolvable actor) (review_queue db),
        call_state := sql_update (held_call ?c) (close_call_row ?pg) (call_state db)\<rparr>"
      "rt_after t = review_audit ''unresolvable'' ''review_closed''"
      using t(1) assms(2)
      by (auto simp: markUnresolvableByReviewId_def getReview_def Let_def split: if_splits)
    have "transitioned ?pg review action body actor db db'"
      by (rule transitionedI [of RS_unresolvable "close_call_row ?pg"])
         (auto simp: eff RA_mark_unresolvable close_call_row_def call_view_def defs)
    then show ?thesis
      using t eff RA_mark_unresolvable by (auto simp: reprocess_target_def fingerprintFor_def after_json_def)
  next
    case RA_reprocess
    with assms(1) obtain s where s: "assertReprocessStage (rq_held_reason review) body = Inr s"
      "reprocess_transition deps action body actor review s db = (Inr (after, outbox), db')"
      by (auto simp: action_transition_def op_throw_def split: sum.splits)
    then have "reprocess_target action (rq_held_reason review) body = Some s"
      using RA_reprocess by (auto simp: reprocess_target_def assertReprocessStage_def split: review_body.splits if_splits)
    with reprocess_transition_Inr [OF s(2)] show ?thesis by auto
  next
    case RA_approve
    with assms(1) obtain s where s: "requireApproveStage (rq_held_reason review) = Inr s"
      "reprocess_transition deps action body actor review s db = (Inr (after, outbox), db')"
      by (auto simp: action_transition_def op_throw_def split: sum.splits)
    then have "reprocess_target action (rq_held_reason review) body = Some s"
      using RA_approve by (auto simp: reprocess_target_def requireApproveStage_def split: option.splits)
    with reprocess_transition_Inr [OF s(2)] show ?thesis by auto
  next
    case RA_correct_extraction
    then have "reprocess_transition deps action body actor review ST_verbatim_pii_scan db = (Inr (after, outbox), db')"
      "reprocess_target action (rq_held_reason review) body = Some ST_verbatim_pii_scan"
      using assms(1) by (auto simp: action_transition_def reprocess_target_def)
    with reprocess_transition_Inr show ?thesis by fastforce
  qed
qed

section \<open>The whole transaction\<close>

lemma getReview_Some: "getReview i db = Some r \<Longrightarrow> r \<in> set (review_queue db) \<and> rq_id r = i"
  by (auto simp: getReview_def sql_select_def dest!: first_row_Some)

lemma guard_call_state_Some:
  "guard_call_state review db = Some cs \<Longrightarrow>
   getCallState (rq_call_id review) db = Some cs \<and> cs_status cs = STATUS_HELD \<and> cs_drop_reason cs = None"
  by (auto simp: guard_call_state_def Let_def STATUS_HELD_def split: option.splits if_splits)

lemma review_tx_Ok:
  assumes "review_tx deps i action body actor db = (Inr (OutcomeOk, rq), db')"
  obtains review cs db1 audit out where
    "getReview i db = Some review" "active_review review" "isActionAllowed (rq_held_reason review) action"
    "guard_call_state review db = Some cs"
    "transitioned (rd_pg deps) review action body actor db db1"
    "call_state db' = call_state db1" "review_queue db' = review_queue db1" "next_uuid db1 \<le> next_uuid db'"
    "alert_events db' = sql_update (\<lambda>r. ae_dedup_key r = reviewStalledDedupKey i \<and> unacknowledged r)
       (ack_alert (rd_pg deps)) (alert_events db)"
    "operator_actions db' = operator_actions db @ [audit]" "oa_action audit = action_op action"
    "oa_actor audit = actor" "oa_review_queue_id audit = i"
    "\<exists>rs cst. oa_after audit = Some (after_json rs cst (fingerprintFor action (rq_held_reason review) body))"
    "reprocess_requests db' = reprocess_requests db @ out"
    "map (\<lambda>r. (rr_call_id r, rr_review_queue_id r, rr_operator_action_id r, rr_target_stage r, rr_status r)) out =
       (case reprocess_target action (rq_held_reason review) body of None \<Rightarrow> []
        | Some s \<Rightarrow> [(rq_call_id review, i, oa_id audit, pipeline_stage_name s, RR_pending)])"
    "rq = (case reprocess_target action (rq_held_reason review) body of None \<Rightarrow> None
        | Some s \<Rightarrow> Some \<lparr>eq_callId = rq_call_id review, eq_reviewId = i, eq_outboxActionId = oa_id audit\<rparr>)"
    "job_queue db' = job_queue db" "next_uuid db \<le> oa_id audit"
proof -
  obtain review where rev: "getReview i db = Some review"
    using assms by (auto simp: review_tx_def split: option.splits)
  have rid: "rq_id review = i" using getReview_Some [OF rev] by simp
  have st: "\<not> (rq_status review = RS_resolved \<or> rq_status review = RS_unresolvable)"
    using assms rev by (auto simp: review_tx_def Let_def split: if_splits)
  then have act: "active_review review"
    by (cases "rq_status review") (auto simp: active_review_def)
  have allowed: "isActionAllowed (rq_held_reason review) action"
    using assms rev st by (auto simp: review_tx_def Let_def split: if_splits)
  obtain cs where cs: "guard_call_state review db = Some cs"
    using assms rev st allowed by (auto simp: review_tx_def Let_def split: if_splits option.splits)
  have notbad: "\<not> (rq_status review \<noteq> RS_open \<and> rq_status review \<noteq> RS_in_review)"
    using act by (auto simp: active_review_def)
  let ?before = "Some (JObj (review_audit (review_status_name (rq_status review)) ''held''))"
  obtain after outbox db1 n db2 audit db3 where steps:
    "action_transition deps action body actor review db = (Inr (after, outbox), db1)"
    "acknowledgeAlert (rd_pg deps) (reviewStalledDedupKey i) db1 = (Inr n, db2)"
    "recordOperatorAction (rd_pg deps) i actor (action_op action) ?before (Some after) db2 = (Inr audit, db3)"
    and tail: "(case outbox of None \<Rightarrow> op_return (OutcomeOk, None)
       | Some targetStage \<Rightarrow> op_bind (lift_db (insertReprocessRequest (rd_pg deps)
            \<lparr>ri_operatorActionId = oa_id audit, ri_callId = rq_call_id review, ri_reviewQueueId = i,
             ri_targetStage = pipeline_stage_name targetStage, ri_requestedBy = actor,
             ri_priorStage = Some (cs_current_stage cs), ri_priorStatus = Some (cs_status cs),
             ri_priorDropReason = cs_drop_reason cs\<rparr>))
          (\<lambda>_. op_return (OutcomeOk, Some \<lparr>eq_callId = rq_call_id review, eq_reviewId = i,
                 eq_outboxActionId = oa_id audit\<rparr>))) db3 = (Inr (OutcomeOk, rq), db')"
    using assms rev st allowed cs notbad
    by (auto simp: review_tx_def Let_def op_bind_eq_Inr split: if_splits prod.splits)
  from action_transition_Inr [OF steps(1)] rev rid have t: "transitioned (rd_pg deps) review action body actor db db1"
    and ob: "outbox = reprocess_target action (rq_held_reason review) body"
    and af: "\<exists>rs cst. after = after_json rs cst (fingerprintFor action (rq_held_reason review) body)"
    by auto
  have ack: "db2 = db1\<lparr>alert_events := sql_update (\<lambda>r. ae_dedup_key r = reviewStalledDedupKey i \<and> unacknowledged r)
       (ack_alert (rd_pg deps)) (alert_events db1)\<rparr>"
    using steps(2) by (auto simp: acknowledgeAlert_def acknowledge_where_def)
  have aud: "db3 = db2\<lparr>next_uuid := Suc (next_uuid db2), operator_actions := operator_actions db2 @ [audit]\<rparr>"
    "oa_action audit = action_op action" "oa_actor audit = actor" "oa_review_queue_id audit = i"
    "oa_after audit = toJsonParam (Some after)" "oa_id audit = next_uuid db2"
    using steps(3) by (auto simp: recordOperatorAction_def Let_def split: if_splits)
  have af': "\<exists>rs cst. oa_after audit = Some (after_json rs cst (fingerprintFor action (rq_held_reason review) body))"
  proof -
    obtain rs cst where "after = after_json rs cst (fingerprintFor action (rq_held_reason review) body)" using af by blast
    with aud(5) have "oa_after audit = Some (after_json rs cst (fingerprintFor action (rq_held_reason review) body))"
      by (simp add: toJsonParam_def after_json_def)
    then show ?thesis by blast
  qed
  have tdb: "operator_actions db1 = operator_actions db" "reprocess_requests db1 = reprocess_requests db"
    "alert_events db1 = alert_events db" "job_queue db1 = job_queue db" "next_uuid db \<le> next_uuid db1"
    using t by (auto simp: transitioned_def)
  show thesis
  proof (cases outbox)
    case None
    with tail have "db' = db3" "rq = None" by (auto simp: op_return_def)
    moreover have "reprocess_target action (rq_held_reason review) body = None" using ob None by simp
    ultimately show thesis
      by (intro that [of review cs db1 audit "[]"]) (use rev act allowed cs t ack aud af' tdb in auto)
  next
    case (Some s)
    with tail obtain row where row: "db' = db3\<lparr>next_uuid := Suc (next_uuid db3), reprocess_requests := reprocess_requests db3 @ [row]\<rparr>"
      "rr_call_id row = rq_call_id review" "rr_review_queue_id row = i" "rr_operator_action_id row = oa_id audit"
      "rr_target_stage row = pipeline_stage_name s" "rr_status row = RR_pending"
      "rq = Some \<lparr>eq_callId = rq_call_id review, eq_reviewId = i, eq_outboxActionId = oa_id audit\<rparr>"
      by (auto simp: op_bind_eq_Inr op_return_def insertReprocessRequest_def Let_def split: if_splits)
    have tgt: "reprocess_target action (rq_held_reason review) body = Some s" using ob Some by simp
    show thesis
      by (intro that [of review cs db1 audit "[row]"]) (use rev act allowed cs t ack aud af' tdb row tgt in auto)
  qed
qed

text \<open>The call ends where \<open>action_view\<close> says and no other call moves.\<close>

lemma transitioned_view:
  assumes "transitioned pg review action body actor db db1" "guard_call_state review db = Some cs"
    and "call_state db' = call_state db1"
  shows "view (rq_call_id review) db' =
       Some (action_view action (rq_held_reason review) body (cs_current_stage cs))"
    and "c \<noteq> rq_call_id review \<Longrightarrow> view c db' = view c db"
proof -
  obtain g where g: "\<And>r. cs_call_id (g r) = cs_call_id r"
    "\<And>r. cs_drop_reason r = None \<Longrightarrow> call_view (g r) = action_view action (rq_held_reason review) body (cs_current_stage r)"
    "call_state db' = sql_update (held_call (rq_call_id review)) g (call_state db)"
    using assms(1,3) by (auto simp: transitioned_def)
  note cs = guard_call_state_Some [OF assms(2)]
  have "held_call (rq_call_id review) cs"
    using cs getCallState_Some [of "rq_call_id review" db cs] by (simp add: held_call_def STATUS_HELD_def)
  then show "view (rq_call_id review) db' =
       Some (action_view action (rq_held_reason review) body (cs_current_stage cs))"
    using view_update [OF g(3,1), of "rq_call_id review"] cs g(2) [of cs] by simp
  show "c \<noteq> rq_call_id review \<Longrightarrow> view c db' = view c db"
    by (rule view_update_other [OF g(3,1)]) (auto simp: held_call_def)
qed

lemma closed_review_reviews:
  assumes "review_queue db' = sql_update (\<lambda>r. rq_id r = rq_id review) (close_row pg status actor) (review_queue db)"
    and "status \<in> {RS_resolved, RS_unresolvable}" "review \<in> set (review_queue db)" "distinct (map rq_id (review_queue db))"
  shows "hasTerminalReviewForCall (rq_call_id review) db'"
    and "c \<noteq> rq_call_id review \<Longrightarrow> hasActiveReviewForCall c db \<Longrightarrow> hasActiveReviewForCall c db'"
    and "c \<noteq> rq_call_id review \<Longrightarrow> hasTerminalReviewForCall c db \<Longrightarrow> hasTerminalReviewForCall c db'"
proof -
  have mem: "close_row pg status actor review \<in> set (review_queue db')"
    using assms(1,3) by (auto simp: set_sql_update)
  then show "hasTerminalReviewForCall (rq_call_id review) db'"
    unfolding hasTerminalReviewForCall_def sql_exists_iff
    by (rule bexI [rotated]) (use assms(2) in \<open>simp add: close_row_def\<close>)
  have same: "r = review" if "r \<in> set (review_queue db)" "rq_id r = rq_id review" for r
    using that assms(3,4) by (auto simp: distinct_map dest: inj_onD)
  then have keep: "r \<in> set (review_queue db')" if "r \<in> set (review_queue db)" "rq_call_id r \<noteq> rq_call_id review" for r
    using that assms(1) by (auto simp: set_sql_update)
  show "c \<noteq> rq_call_id review \<Longrightarrow> hasActiveReviewForCall c db \<Longrightarrow> hasActiveReviewForCall c db'"
    and "c \<noteq> rq_call_id review \<Longrightarrow> hasTerminalReviewForCall c db \<Longrightarrow> hasTerminalReviewForCall c db'"
    using keep by (auto simp: has_review_defs sql_exists_iff)
qed

lemma action_view_ok:
  assumes "isPipelineStage stage" "hasTerminalReviewForCall c db'"
  shows "view_ok db' c (action_view action reason body stage)"
  using assms stage_at_known [of ST_classify]
  by (auto simp: action_view_def view_ok_def SKIP_STAGES_def simp del: stage_at_known split: option.splits)
     (simp_all add: isPipelineStage_iff)

lemma transitioned_ok:
  assumes ok: "db_ok db" and sp: "spine_ok db" and rev: "getReview i db = Some review"
    and t: "transitioned pg review action body actor db db1" and cs: "guard_call_state review db = Some cs"
    and db': "call_state db' = call_state db1" "review_queue db' = review_queue db1" "next_uuid db1 \<le> next_uuid db'"
      "alerts_deduped db'"
  shows "db_ok db' \<and> spine_ok db'"
proof -
  obtain g status where g: "status \<in> {RS_resolved, RS_unresolvable}" "\<And>r. cs_call_id (g r) = cs_call_id r"
    "call_state db' = sql_update (held_call (rq_call_id review)) g (call_state db)"
    "review_queue db' = sql_update (\<lambda>r. rq_id r = rq_id review) (close_row pg status actor) (review_queue db)"
    "next_uuid db \<le> next_uuid db'"
    using t db' by (auto simp: transitioned_def)
  have "unique_live rq_call_id active_review (review_queue db')"
    unfolding g(4) using ok g(1) resolve_narrows.update_unique_live give_up_narrows.update_unique_live
    by (auto simp: db_ok_def)
  then have ok': "db_ok db'"
    using ok g db'(4) by (fastforce simp: db_ok_def map_sql_update set_sql_update)
  note rv = closed_review_reviews [OF g(4,1), of]
  have mem: "review \<in> set (review_queue db)" "distinct (map rq_id (review_queue db))"
    using getReview_Some [OF rev] ok by (auto simp: db_ok_def)
  have "view_ok db' c v" if v: "view c db' = Some v" for c v
  proof (cases "c = rq_call_id review")
    case True
    have "isPipelineStage (cs_current_stage cs)"
    proof -
      have "view (rq_call_id review) db = Some (call_view cs)" using guard_call_state_Some [OF cs] by (simp add: view_def)
      then show ?thesis using spine_okD [OF sp] by (fastforce simp: view_ok_def call_view_def)
    qed
    then show ?thesis
      using v True transitioned_view(1) [OF t cs db'(1)] rv(1) [OF mem] by (auto intro: action_view_ok)
  next
    case False
    then have "view_ok db c v" using v transitioned_view(2) [OF t cs db'(1)] sp by (auto intro: spine_okD)
    then show ?thesis using rv(2,3) [OF mem False] by (auto intro: view_ok_cong)
  qed
  then show ?thesis using ok' by (auto intro: spine_okI)
qed

lemma review_tx_invariants:
  assumes "db_ok db" "spine_ok db" "review_tx deps i action body actor db = (Inr (outcome, rq), db')"
  shows "db_ok db' \<and> spine_ok db'"
proof (cases outcome)
  case OutcomeNoop
  have "db' = db"
    using assms(3) OutcomeNoop
    by (auto simp: review_tx_def Let_def op_bind_eq_Inr op_return_def split: option.splits if_splits prod.splits)
  with assms show ?thesis by simp
next
  case OutcomeOk
  from assms(3) [unfolded OutcomeOk] show ?thesis
  proof (rule review_tx_Ok)
    fix review cs db1
    assume a: "getReview i db = Some review" "guard_call_state review db = Some cs"
      "transitioned (rd_pg deps) review action body actor db db1"
      "call_state db' = call_state db1" "review_queue db' = review_queue db1" "next_uuid db1 \<le> next_uuid db'"
      and al: "alert_events db' = sql_update (\<lambda>r. ae_dedup_key r = reviewStalledDedupKey i \<and> unacknowledged r)
        (ack_alert (rd_pg deps)) (alert_events db)"
    have "alerts_deduped db'"
      unfolding alerts_deduped_def al using assms(1)
      by (intro ack_narrows.update_unique_live) (simp add: db_ok_def alerts_deduped_def)
    then show ?thesis using transitioned_ok [OF assms(1,2) a(1,3,2) a(4-6)] by blast
  qed
qed

section \<open>performReviewAction\<close>

text \<open>After the commit only the outbox row's status and the job queue change.\<close>

lemma performReviewAction_Inr:
  assumes "performReviewAction deps i action body actor db = (Inr outcome, db')"
  obtains rq db1 where "review_tx deps i action body actor db = (Inr (outcome, rq), db1)"
    "db' = (case rq of None \<Rightarrow> db1
            | Some q \<Rightarrow> if rd_queue_accepts deps
                then markReprocessSentByAction (eq_outboxActionId q) (rd_now deps)
                       (enqueueReprocess (rd_digest deps) (eq_callId q) (uuid_text (eq_reviewId q)) db1)
                else db1)"
  using assms
  by (auto simp: performReviewAction_def withTransaction_commit
        split: prod.splits sum.splits option.splits if_splits intro: that)

lemma performReviewAction_tables:
  assumes "performReviewAction deps i action body actor db = (Inr outcome, db')"
    and "review_tx deps i action body actor db = (Inr (outcome, rq), db1)"
  shows "call_state db' = call_state db1" "review_queue db' = review_queue db1"
    "operator_actions db' = operator_actions db1" "alert_events db' = alert_events db1"
    "next_uuid db' = next_uuid db1"
  using assms
  by (auto simp: performReviewAction_def withTransaction_def markReprocessSentByAction_def enqueueReprocess_def
        queue_add_def split: option.splits if_splits)

lemma ok_cong:
  assumes "call_state db' = call_state db" "review_queue db' = review_queue db"
    "alert_events db' = alert_events db" "next_uuid db' = next_uuid db"
  shows "db_ok db \<Longrightarrow> db_ok db'" and "spine_ok db \<Longrightarrow> spine_ok db'"
  using assms by (auto simp: db_ok_def alerts_deduped_def spine_ok_def view_ok_def has_review_defs)

lemma performReviewAction_ok:
  assumes "db_ok db" "spine_ok db" "performReviewAction deps i action body actor db = (Inr outcome, db')"
  shows "db_ok db' \<and> spine_ok db'"
proof (rule performReviewAction_Inr [OF assms(3)])
  fix rq db1
  assume tx: "review_tx deps i action body actor db = (Inr (outcome, rq), db1)"
  note t = performReviewAction_tables [OF assms(3) tx]
  have "db_ok db1 \<and> spine_ok db1" using review_tx_invariants [OF assms(1,2) tx] .
  then show ?thesis using ok_cong [OF t(1,2,4,5)] by blast
qed

lemma closed_getReview:
  assumes "getReview i db = Some review"
    and "review_queue db' = sql_update (\<lambda>r. rq_id r = i) (close_row pg status actor) (review_queue db)"
  shows "getReview i db' = Some (close_row pg status actor review)"
  using assms first_row_update [of rq_id "close_row pg status actor" i "\<lambda>r. rq_id r = i" "review_queue db"]
    getReview_Some [OF assms(1)]
  by (simp add: getReview_def)

lemma review_tx_repeat:
  assumes "review_tx deps i action body actor db = (Inr (OutcomeOk, rq), db1)"
    and "review_queue db' = review_queue db1" "operator_actions db' = operator_actions db1"
  shows "review_tx deps' i action body actor' db' = (Inr (OutcomeNoop, None), db')"
  using assms(1)
proof (rule review_tx_Ok)
  fix review cs db0 audit
  assume rev: "getReview i db = Some review"
    and t: "transitioned (rd_pg deps) review action body actor db db0" and rq: "review_queue db1 = review_queue db0"
    and ops: "operator_actions db1 = operator_actions db @ [audit]" and aud: "oa_action audit = action_op action"
      "oa_review_queue_id audit = i"
    and af: "\<exists>rs cst. oa_after audit = Some (after_json rs cst (fingerprintFor action (rq_held_reason review) body))"
  have rid: "rq_id review = i" using getReview_Some [OF rev] by simp
  obtain status where st: "status \<in> {RS_resolved, RS_unresolvable}"
    "review_queue db' = sql_update (\<lambda>r. rq_id r = i) (close_row (rd_pg deps) status actor) (review_queue db)"
    using t rq assms(2) rid by (auto simp: transitioned_def)
  let ?closed = "close_row (rd_pg deps) status actor review"
  have get: "getReview i db' = Some ?closed" using closed_getReview [OF rev st(2)] .
  have cl: "rq_status ?closed = status" "rq_held_reason ?closed = rq_held_reason review" by (simp_all add: close_row_def)
  have "audit \<in> set (listByReview i db')"
    using ops assms(3) aud(2) by (simp add: listByReview_def sql_select_def)
  moreover have "matches_prior action (fingerprintFor action (rq_held_reason review) body) audit"
    using af aud(1) by (auto simp: matches_prior_def after_json_def review_audit_def)
  ultimately have "list_ex (matches_prior action (fingerprintFor action (rq_held_reason review) body)) (listByReview i db')"
    by (auto simp: list_ex_iff)
  then show ?thesis using get cl st(1) by (simp add: review_tx_def)
qed

lemma performReviewAction_repeat:
  assumes "performReviewAction deps i action body actor db = (Inr OutcomeOk, db')"
  shows "performReviewAction deps' i action body actor' db' = (Inr OutcomeNoop, db')"
proof (rule performReviewAction_Inr [OF assms])
  fix rq db1
  assume tx: "review_tx deps i action body actor db = (Inr (OutcomeOk, rq), db1)"
  note t = performReviewAction_tables [OF assms tx]
  have "review_tx deps' i action body actor' db' = (Inr (OutcomeNoop, None), db')"
    by (rule review_tx_repeat [OF tx t(2,3)])
  then show ?thesis by (simp add: performReviewAction_def withTransaction_def)
qed

text \<open>A review whose call is held outside the origin stages of its reason: no action is accepted.\<close>

lemma review_tx_wrong_origin:
  assumes "getReview i db = Some review" "active_review review"
    and "getCallState (rq_call_id review) db = Some cs"
    and "ORIGIN_STAGES (rq_held_reason review) \<noteq> []"
    and "cs_current_stage cs \<notin> set (map pipeline_stage_name (ORIGIN_STAGES (rq_held_reason review)))"
  shows "performReviewAction deps i action body actor db = (Inl ReviewConflict, db)"
proof -
  have "guard_call_state review db = None" using assms(3-5) by (simp add: guard_call_state_def Let_def)
  with assms(1,2) show ?thesis
    by (auto simp: performReviewAction_def withTransaction_def review_tx_def Let_def active_review_def)
qed

lemma reprocess_stage_values: "s \<in> set (REPROCESS_STAGES reason) \<Longrightarrow> s \<in> set REPROCESS_STAGE_VALUES"
  by (cases reason) (auto simp: REPROCESS_STAGE_VALUES_def)

text \<open>A transition into the pipeline has passed its preflight.\<close>

lemma action_transition_preflight:
  assumes "action_transition deps action body actor review db = (Inr y, db')"
  shows "case reprocess_target action (rq_held_reason review) body of None \<Rightarrow> True
    | Some s \<Rightarrow> preflight deps action s review db \<and> s \<in> set REPROCESS_STAGE_VALUES"
proof -
  have pre: "preflight deps action s review db" if "reprocess_transition deps action body actor review s db = (Inr y, db')" for s
    using that by (auto simp: reprocess_transition_def Let_def op_bind_eq_Inr split: if_splits)
  show ?thesis
  proof (cases action)
    case RA_reprocess
    with assms pre show ?thesis
      by (auto simp: action_transition_def reprocess_target_def assertReprocessStage_def op_throw_def
          intro: reprocess_stage_values split: review_body.splits if_splits)
  next
    case RA_approve
    with assms pre show ?thesis
      by (auto simp: action_transition_def reprocess_target_def requireApproveStage_def op_throw_def
          APPROVE_FORWARD_STAGE_def REPROCESS_STAGE_VALUES_def split: option.splits held_reason.splits)
  next
    case RA_correct_extraction
    with assms pre show ?thesis
      by (auto simp: action_transition_def reprocess_target_def REPROCESS_STAGE_VALUES_def)
  qed (simp_all add: reprocess_target_def)
qed

lemma recordOperatorAction_Inr:
  "recordOperatorAction pg i actor action before after db = (Inr row, db') \<Longrightarrow>
   db' = db\<lparr>next_uuid := Suc (next_uuid db), operator_actions := operator_actions db @ [row]\<rparr>
   \<and> oa_id row = next_uuid db \<and> oa_action row = action \<and> oa_actor row = actor \<and> oa_review_queue_id row = i
   \<and> oa_after row = toJsonParam after"
  by (auto simp: recordOperatorAction_def Let_def split: if_splits)

section \<open>Properties\<close>

lemma sample_ok:
  "db_ok (held_db stage reason)" "spine_ok (held_db stage reason)"
  by (simp_all add: db_ok_def spine_ok_def held_db_def empty_db_def sample_review_def sample_call_def new_review_def
      view_ok_def call_view_def hasActiveReviewForCall_def unique_live_def alerts_deduped_def sql_exists_def)

lemma sample_reject:
  "fst (performReviewAction sample_deps 0 RA_reject BodyEmpty ''ann'' (held_db ST_classify HR_classified_spam)) = Inr OutcomeOk"
  by code_simp

text \<open>C4: a review action that succeeds implements its abstract effect: the held call ends where
  \<open>action_view\<close> says, no other call moves, the review is closed, and exactly one audit row, with the
  action and its actor, is appended.\<close>

theorem review_action_effect:
  assumes "performReviewAction deps i action body actor db = (Inr OutcomeOk, db')"
  shows "\<exists>review cs audit.
    getReview i db = Some review \<and> active_review review \<and> getCallState (rq_call_id review) db = Some cs
    \<and> view (rq_call_id review) db' = Some (action_view action (rq_held_reason review) body (cs_current_stage cs))
    \<and> (\<forall>c. c \<noteq> rq_call_id review \<longrightarrow> view c db' = view c db)
    \<and> (\<exists>closed. getReview i db' = Some closed \<and> \<not> active_review closed)
    \<and> operator_actions db' = operator_actions db @ [audit]
    \<and> oa_action audit = action_op action \<and> oa_actor audit = actor \<and> oa_review_queue_id audit = i"
proof -
  obtain rq db1 where tx: "review_tx deps i action body actor db = (Inr (OutcomeOk, rq), db1)"
    by (rule performReviewAction_Inr [OF assms])
  note tables = performReviewAction_tables [OF assms tx]
  obtain review cs db2 audit where r: "getReview i db = Some review" "active_review review"
      "guard_call_state review db = Some cs" "transitioned (rd_pg deps) review action body actor db db2"
      "call_state db1 = call_state db2" "review_queue db1 = review_queue db2"
      "operator_actions db1 = operator_actions db @ [audit]"
      "oa_action audit = action_op action" "oa_actor audit = actor" "oa_review_queue_id audit = i"
    by (rule review_tx_Ok [OF tx])
  from r(4) obtain status where st: "status \<in> {RS_resolved, RS_unresolvable}"
      "review_queue db2 = sql_update (\<lambda>r. rq_id r = rq_id review) (close_row (rd_pg deps) status actor) (review_queue db)"
    unfolding transitioned_def by blast
  have "getReview i db' = Some (close_row (rd_pg deps) status actor review)"
    by (rule closed_getReview [OF r(1)]) (use st(2) r(6) tables(2) getReview_Some [OF r(1)] in simp)
  moreover have "\<not> active_review (close_row (rd_pg deps) status actor review)"
    using st(1) by (auto simp: active_review_def close_row_def)
  ultimately show ?thesis
    using r tables(3) guard_call_state_Some [OF r(3)]
      transitioned_view [OF r(4,3), of db'] tables(1) r(5) by auto
qed

theorem review_action_effect_witness:
  "\<exists>db' audit. performReviewAction sample_deps 0 RA_reject BodyEmpty ''ann'' (held_db ST_classify HR_classified_spam)
       = (Inr OutcomeOk, db')
     \<and> operator_actions db' = [audit] \<and> oa_actor audit = ''ann''"
proof -
  let ?run = "performReviewAction sample_deps 0 RA_reject BodyEmpty ''ann'' (held_db ST_classify HR_classified_spam)"
  have run: "?run = (Inr OutcomeOk, snd ?run)" using sample_reject by (metis prod.collapse)
  have "operator_actions (held_db ST_classify HR_classified_spam) = []" by (simp add: held_db_def empty_db_def)
  with review_action_effect [OF run] run show ?thesis by auto
qed

text \<open>the transactional outbox.  A successful action appends one pending reprocess request for its target
  stage when it sends the call back into the pipeline and none otherwise; the request is marked sent, and
  a job for the call is added, exactly when the queue accepts.\<close>

lemma review_action_outbox:
  assumes "performReviewAction deps i action body actor db = (Inr OutcomeOk, db')"
    and "\<forall>r \<in> set (reprocess_requests db). rr_operator_action_id r < next_uuid db"
  shows "\<exists>review out. getReview i db = Some review
    \<and> reprocess_requests db' = reprocess_requests db @ out
    \<and> map rr_target_stage out = map pipeline_stage_name (case reprocess_target action (rq_held_reason review) body of
         None \<Rightarrow> [] | Some s \<Rightarrow> [s])
    \<and> (\<forall>r \<in> set out. rr_call_id r = rq_call_id review \<and> rr_review_queue_id r = i
         \<and> rr_status r = (if rd_queue_accepts deps then RR_sent else RR_pending))
    \<and> map jb_callId (job_queue db') = map jb_callId (job_queue db)
         @ (if out \<noteq> [] \<and> rd_queue_accepts deps then [rq_call_id review] else [])"
proof -
  obtain rq db1 where tx: "review_tx deps i action body actor db = (Inr (OutcomeOk, rq), db1)"
    and db': "db' = (case rq of None \<Rightarrow> db1
            | Some q \<Rightarrow> if rd_queue_accepts deps
                then markReprocessSentByAction (eq_outboxActionId q) (rd_now deps)
                       (enqueueReprocess (rd_digest deps) (eq_callId q) (uuid_text (eq_reviewId q)) db1)
                else db1)"
    by (rule performReviewAction_Inr [OF assms(1)])
  obtain review out and audit :: operator_action_row where r: "getReview i db = Some review"
      "reprocess_requests db1 = reprocess_requests db @ out"
      and out: "map (\<lambda>r. (rr_call_id r, rr_review_queue_id r, rr_operator_action_id r, rr_target_stage r, rr_status r)) out =
       (case reprocess_target action (rq_held_reason review) body of None \<Rightarrow> []
        | Some s \<Rightarrow> [(rq_call_id review, i, oa_id audit, pipeline_stage_name s, RR_pending)])"
      and rq: "rq = (case reprocess_target action (rq_held_reason review) body of None \<Rightarrow> None
        | Some s \<Rightarrow> Some \<lparr>eq_callId = rq_call_id review, eq_reviewId = i, eq_outboxActionId = oa_id audit\<rparr>)"
      and r': "job_queue db1 = job_queue db" "next_uuid db \<le> oa_id audit"
    by (rule review_tx_Ok [OF tx])
  have old: "sql_update (\<lambda>r. rr_operator_action_id r = oa_id audit \<and> rr_status r = RR_pending)
      f (reprocess_requests db) = reprocess_requests db" for f
    by (rule sql_update_id) (use assms(2) r'(2) in fastforce)
  show ?thesis
  proof (cases "reprocess_target action (rq_held_reason review) body")
    case None
    with r r' out rq db' show ?thesis by (intro exI [of _ review] exI [of _ "[]"]) simp
  next
    case (Some s)
    with out obtain row where row: "out = [row]" "rr_call_id row = rq_call_id review" "rr_review_queue_id row = i"
        "rr_operator_action_id row = oa_id audit" "rr_target_stage row = pipeline_stage_name s" "rr_status row = RR_pending"
      by (auto simp: map_eq_Cons_conv)
    show ?thesis
    proof (cases "rd_queue_accepts deps")
      case True
      with r r' rq db' Some row old [unfolded sql_update_def, of "\<lambda>r. r\<lparr>rr_status := RR_sent, rr_sent_at := Some (rd_now deps)\<rparr>"] show ?thesis
        by (intro exI [of _ review] exI [of _ "[row\<lparr>rr_status := RR_sent, rr_sent_at := Some (rd_now deps)\<rparr>]"])
           (simp add: markReprocessSentByAction_def enqueueReprocess_def queue_add_def sql_update_def)
    next
      case False
      with r r' rq db' Some row show ?thesis by (intro exI [of _ review] exI [of _ "[row]"]) simp
    qed
  qed
qed

lemma sample_reprocess:
  "fst (performReviewAction sample_deps 0 RA_reprocess (BodyReprocess ST_fetch_transcript) ''ann''
     (held_db ST_fetch_transcript HR_missing_transcript)) = Inr OutcomeOk"
  by code_simp

text \<open>a review action is all or nothing.  When it is refused, whatever the reason and however far the
  transaction had come, the database is the one it started from.\<close>

lemma review_action_atomic:
  "(case performReviewAction deps i action body actor db of (Inr OutcomeOk, _) \<Rightarrow> True | (_, db') \<Rightarrow> db' = db)"
proof -
  obtain x db' where run: "performReviewAction deps i action body actor db = (x, db')" by force
  show ?thesis
  proof (cases x)
    case (Inl e)
    with run show ?thesis
      by (auto simp: performReviewAction_def withTransaction_def split: prod.splits sum.splits option.splits)
  next
    case (Inr outcome)
    obtain rq db1 where tx: "review_tx deps i action body actor db = (Inr (outcome, rq), db1)"
      and db': "db' = (case rq of None \<Rightarrow> db1
            | Some q \<Rightarrow> if rd_queue_accepts deps
                then markReprocessSentByAction (eq_outboxActionId q) (rd_now deps)
                       (enqueueReprocess (rd_digest deps) (eq_callId q) (uuid_text (eq_reviewId q)) db1)
                else db1)"
      using performReviewAction_Inr [OF run [unfolded Inr]] by blast
    have "outcome = OutcomeNoop \<Longrightarrow> db1 = db \<and> rq = None"
      using tx by (auto simp: review_tx_def Let_def op_bind_eq_Inr op_return_def split: option.splits if_splits)
    with db' run Inr show ?thesis by (cases outcome) auto
  qed
qed

text \<open>an action is accepted only where the matrix allows it: the review is active, the action is allowed
  for its held reason, the call is held with no drop reason, at one of the reason's origin stages if
  there are any, and a target stage has its input artifacts.\<close>

lemma review_action_guarded:
  assumes "performReviewAction deps i action body actor db = (Inr OutcomeOk, db')"
  shows "\<exists>review cs. getReview i db = Some review \<and> active_review review
    \<and> action \<in> set (buildAllowedActions (rq_held_reason review))
    \<and> getCallState (rq_call_id review) db = Some cs \<and> cs_status cs = STATUS_HELD \<and> cs_drop_reason cs = None
    \<and> (let origins = map pipeline_stage_name (ORIGIN_STAGES (rq_held_reason review))
       in origins = [] \<or> cs_current_stage cs \<in> set origins)
    \<and> (case reprocess_target action (rq_held_reason review) body of None \<Rightarrow> True
       | Some s \<Rightarrow> preflight deps action s review db \<and> s \<in> set REPROCESS_STAGE_VALUES)"
proof -
  obtain rq db1 where tx: "review_tx deps i action body actor db = (Inr (OutcomeOk, rq), db1)"
    by (rule performReviewAction_Inr [OF assms])
  obtain review cs where r: "getReview i db = Some review" "active_review review"
      "isActionAllowed (rq_held_reason review) action" "guard_call_state review db = Some cs"
    by (rule review_tx_Ok [OF tx])
  then obtain y db2 where "action_transition deps action body actor review db = (Inr y, db2)"
    using tx by (auto simp: review_tx_def Let_def op_bind_eq_Inr active_review_def split: if_splits)
  then have "case reprocess_target action (rq_held_reason review) body of None \<Rightarrow> True
       | Some s \<Rightarrow> preflight deps action s review db \<and> s \<in> set REPROCESS_STAGE_VALUES"
    using action_transition_preflight by blast
  moreover have "let origins = map pipeline_stage_name (ORIGIN_STAGES (rq_held_reason review))
       in origins = [] \<or> cs_current_stage cs \<in> set origins"
    using r(4) by (auto simp: guard_call_state_def Let_def split: option.splits if_splits)
  ultimately show ?thesis
    using r guard_call_state_Some [OF r(4)] by (auto simp: isActionAllowed_def)
qed

text \<open>C5: an action on a consistent database leaves a consistent one: keys stay unique, no call has two
  active reviews, and every terminal guard of the runner still agrees with the call's row.\<close>

theorem review_action_invariants:
  assumes "db_ok db" "spine_ok db" "performReviewAction deps i action body actor db = (Inr outcome, db')"
  shows "db_ok db' \<and> spine_ok db'"
  using assms by (rule performReviewAction_ok)

theorem review_action_invariants_witness:
  "\<exists>db'. performReviewAction sample_deps 0 RA_reject BodyEmpty ''ann'' (held_db ST_classify HR_classified_spam)
      = (Inr OutcomeOk, db') \<and> db_ok db' \<and> spine_ok db'"
proof -
  let ?run = "performReviewAction sample_deps 0 RA_reject BodyEmpty ''ann'' (held_db ST_classify HR_classified_spam)"
  have run: "?run = (Inr OutcomeOk, snd ?run)" using sample_reject by (metis prod.collapse)
  with review_action_invariants [OF sample_ok run] show ?thesis by blast
qed

text \<open>C6: repeating an action that succeeded is a no-op, also by another actor and with another clock or
  queue: the closed review recognises the action by its recorded parameters.\<close>

theorem review_action_idempotent:
  assumes "performReviewAction deps i action body actor db = (Inr OutcomeOk, db')"
  shows "performReviewAction deps' i action body actor' db' = (Inr OutcomeNoop, db')"
  using assms by (rule performReviewAction_repeat)

theorem review_action_idempotent_witness:
  "\<exists>db'. performReviewAction sample_deps 0 RA_reject BodyEmpty ''ann'' (held_db ST_classify HR_classified_spam)
      = (Inr OutcomeOk, db')
    \<and> performReviewAction sample_deps 0 RA_reject BodyEmpty ''bob'' db' = (Inr OutcomeNoop, db')"
proof -
  let ?run = "performReviewAction sample_deps 0 RA_reject BodyEmpty ''ann'' (held_db ST_classify HR_classified_spam)"
  have run: "?run = (Inr OutcomeOk, snd ?run)" using sample_reject by (metis prod.collapse)
  with review_action_idempotent [OF run] show ?thesis by blast
qed

text \<open>C7: no raw transcript leaves without an audit row.  A reveal that returns text happened on an active
  review inside the retention window, returns the stored transcript (and a live vault value of the same
  call), and appends exactly one \<^verbatim>\<open>reveal_raw\<close> row that names the vault token and never the text;
  every other result writes nothing.\<close>

theorem reveal_audited:
  "case performReveal decrypt deps i token actor db of
     (Inr (Revealed transcript vault_value), db') \<Rightarrow>
       \<exists>review audit. getReview i db = Some review \<and> active_review review
         \<and> rq_raw_purged_at review = None \<and> rd_now deps < rq_created_at review + rd_cap_hours deps * 3600000
         \<and> getTranscript decrypt (rq_call_id review) db = Some transcript
         \<and> vault_value = (case token of None \<Rightarrow> None | Some t \<Rightarrow> getToken decrypt (rq_call_id review) t db)
         \<and> (token = None) = (vault_value = None)
         \<and> db' = db\<lparr>next_uuid := Suc (next_uuid db), operator_actions := operator_actions db @ [audit]\<rparr>
         \<and> oa_action audit = OA_reveal_raw \<and> oa_actor audit = actor \<and> oa_review_queue_id audit = i
         \<and> oa_after audit = Some (reveal_after (rq_call_id review) token)
   | (_, db') \<Rightarrow> db' = db"
proof -
  obtain x db' where run: "performReveal decrypt deps i token actor db = (x, db')" by force
  have after: "toJsonParam (Some (reveal_after c tk)) = Some (reveal_after c tk)" for c tk
    by (simp add: toJsonParam_def reveal_after_def split: option.split)
  show ?thesis
  proof (cases "\<exists>t v. x = Inr (Revealed t v)")
    case True
    then obtain t v where x: "x = Inr (Revealed t v)" by blast
    with run show ?thesis
      by (auto simp: performReveal_def withTransaction_def Let_def op_bind_eq_Inr op_return_def
          rawTranscriptRevealAllowed_def rawRetentionWindowOpen_def active_review_def after
          dest!: recordOperatorAction_Inr dest: sym split: option.splits if_splits prod.splits sum.splits)
  next
    case False
    have "db' = db"
      using run False
      by (auto simp: performReveal_def withTransaction_def Let_def op_bind_def op_return_def lift_db_def recordOperatorAction_def
          split: option.splits if_splits prod.splits sum.splits)
    with run False show ?thesis by (auto split: sum.split reveal_result.split)
  qed
qed

end
