(* ===== verification/Js_Regex.thy ===== *)
theory Js_Regex
  imports Prelude "HOL-Library.Sublist"
begin

text \<open>
  Regular expressions of the JavaScript standard library, as far as the patterns of the source use
  them: backtracking matching with greedy repetition and leftmost search.  \<open>ends r s i\<close> lists the end
  positions of the matches of \<open>r\<close> at \<open>i\<close> in the order the engine tries them, so its head is the match
  the engine reports.  Strings are sequences of ASCII code units; the patterns' non-ASCII alternatives
  (curly quotes, full-width at signs) are outside the modelled alphabet.
\<close>

datatype rx =
    Chr "char \<Rightarrow> bool"
  | Seq rx rx
  | Alt rx rx
  | Star rx
  | Eps
  | Bol
  | Eol
  | WordB
  | NotPrev "char \<Rightarrow> bool"
  | NotNext "char \<Rightarrow> bool"

definition char_code :: "char \<Rightarrow> nat" where "char_code c = of_char c"

definition is_upper :: "char \<Rightarrow> bool" where "is_upper c \<longleftrightarrow> 65 \<le> char_code c \<and> char_code c \<le> 90"
definition is_lower :: "char \<Rightarrow> bool" where "is_lower c \<longleftrightarrow> 97 \<le> char_code c \<and> char_code c \<le> 122"
definition is_num :: "char \<Rightarrow> bool" where "is_num c \<longleftrightarrow> 48 \<le> char_code c \<and> char_code c \<le> 57"
definition is_word :: "char \<Rightarrow> bool" where "is_word c \<longleftrightarrow> is_upper c \<or> is_lower c \<or> is_num c \<or> c = CHR ''_''"

definition to_lower :: "char \<Rightarrow> char" where
  "to_lower c = (if is_upper c then char_of (char_code c + 32) else c)"

definition word_at :: "string \<Rightarrow> nat \<Rightarrow> bool" where
  "word_at s i \<longleftrightarrow> i < length s \<and> is_word (s ! i)"

text \<open>Repetition: an iteration that consumes nothing is not tried.\<close>

fun star_ends :: "(nat \<Rightarrow> nat list) \<Rightarrow> nat \<Rightarrow> nat \<Rightarrow> nat list" where
  "star_ends f 0 i = [i]"
| "star_ends f (Suc n) i = concat (map (star_ends f n) (filter (\<lambda>j. i < j) (f i))) @ [i]"

primrec ends :: "rx \<Rightarrow> string \<Rightarrow> nat \<Rightarrow> nat list" where
  "ends (Chr p) s i = (if i < length s \<and> p (s ! i) then [i + 1] else [])"
| "ends (Seq a b) s i = concat (map (ends b s) (ends a s i))"
| "ends (Alt a b) s i = ends a s i @ ends b s i"
| "ends (Star a) s i = star_ends (ends a s) (length s - i) i"
| "ends Eps s i = [i]"
| "ends Bol s i = (if i = 0 then [i] else [])"
| "ends Eol s i = (if i = length s then [i] else [])"
| "ends WordB s i = (if (0 < i \<and> word_at s (i - 1)) \<noteq> word_at s i then [i] else [])"
| "ends (NotPrev p) s i = (if 0 < i \<and> i \<le> length s \<and> p (s ! (i - 1)) then [] else [i])"
| "ends (NotNext p) s i = (if i < length s \<and> p (s ! i) then [] else [i])"

text \<open>The matches of a global search, as start and end positions.\<close>

function matches_from :: "rx \<Rightarrow> string \<Rightarrow> nat \<Rightarrow> (nat \<times> nat) list" where
  "matches_from r s i =
     (if length s < i then []
      else case ends r s i of
             [] \<Rightarrow> matches_from r s (i + 1)
           | e # _ \<Rightarrow> (i, e) # matches_from r s (if i < e then e else i + 1))"
  by pat_completeness auto
termination
  by (relation "measure (\<lambda>(r, s, i). Suc (length s) - i)") auto

declare matches_from.simps [simp del]

definition matchAll :: "rx \<Rightarrow> string \<Rightarrow> (nat \<times> nat) list" where
  "matchAll r s = matches_from r s 0"

definition rx_test :: "rx \<Rightarrow> string \<Rightarrow> bool" where
  "rx_test r s \<longleftrightarrow> matchAll r s \<noteq> []"

definition slice :: "nat \<Rightarrow> nat \<Rightarrow> string \<Rightarrow> string" where
  "slice a b s = take (b - a) (drop a s)"

text \<open>\<^verbatim>\<open>replace\<close> with a global pattern.\<close>

fun splice :: "nat \<Rightarrow> (nat \<times> nat) list \<Rightarrow> string \<Rightarrow> string \<Rightarrow> string" where
  "splice at0 [] rep s = drop at0 s"
| "splice at0 ((a, b) # ms) rep s = slice at0 a s @ rep @ splice b ms rep s"

definition replace_all :: "rx \<Rightarrow> string \<Rightarrow> string \<Rightarrow> string" where
  "replace_all r rep s = splice 0 (matchAll r s) rep s"

section \<open>Derived forms\<close>

definition Plus :: "rx \<Rightarrow> rx" where "Plus r = Seq r (Star r)"
definition Opt :: "rx \<Rightarrow> rx" where "Opt r = Alt r Eps"
definition Space :: rx where "Space = Chr js_space"

fun Lit :: "string \<Rightarrow> rx" where
  "Lit [] = Eps"
| "Lit (c # cs) = Seq (Chr (\<lambda>x. x = c)) (Lit cs)"

text \<open>A literal under the flag \<^verbatim>\<open>i\<close>; the literal itself is lower case.\<close>

fun LitI :: "string \<Rightarrow> rx" where
  "LitI [] = Eps"
| "LitI (c # cs) = Seq (Chr (\<lambda>x. to_lower x = c)) (LitI cs)"

fun Seqs :: "rx list \<Rightarrow> rx" where
  "Seqs [] = Eps"
| "Seqs [r] = r"
| "Seqs (r # rs) = Seq r (Seqs rs)"

fun Alts :: "rx list \<Rightarrow> rx" where
  "Alts [] = Chr (\<lambda>_. False)"
| "Alts [r] = r"
| "Alts (r # rs) = Alt r (Alts rs)"

text \<open>\<^verbatim>\<open>includes\<close>, and \<^verbatim>\<open>split(/[^...]+/).filter(Boolean)\<close>: the maximal runs of the characters kept.\<close>

definition str_includes :: "string \<Rightarrow> string \<Rightarrow> bool" where
  "str_includes hay needle \<longleftrightarrow> sublist needle hay"

function words_by :: "(char \<Rightarrow> bool) \<Rightarrow> string \<Rightarrow> string list" where
  "words_by keep [] = []"
| "words_by keep (c # cs) =
     (if keep c then (c # takeWhile keep cs) # words_by keep (dropWhile keep cs) else words_by keep cs)"
  by pat_completeness auto
termination
  by (relation "measure (\<lambda>(keep, s). length s)") (auto simp: le_imp_less_Suc length_dropWhile_le)

section \<open>Lemmas\<close>

lemma star_ends_ge: "j \<in> set (star_ends f n i) \<Longrightarrow> i \<le> j"
  by (induction n arbitrary: i) (auto, meson le_trans less_imp_le)

lemma star_ends_le:
  "(\<And>i j. j \<in> set (f i) \<Longrightarrow> i \<le> m \<Longrightarrow> j \<le> m) \<Longrightarrow> i \<le> m \<Longrightarrow> j \<in> set (star_ends f n i) \<Longrightarrow> j \<le> m"
  by (induction n arbitrary: i) auto

lemma ends_bounds: "j \<in> set (ends r s i) \<Longrightarrow> i \<le> length s \<Longrightarrow> i \<le> j \<and> j \<le> length s"
proof (induction r arbitrary: i j)
  case (Seq a b)
  then show ?case by fastforce
next
  case (Star a)
  then show ?case using star_ends_ge star_ends_le [of "ends a s" "length s" i j] by auto
qed (auto split: if_splits)

text \<open>Matches come out in order, without overlap and inside the string.\<close>

fun ordered_from :: "nat \<Rightarrow> nat \<Rightarrow> (nat \<times> nat) list \<Rightarrow> bool" where
  "ordered_from lo n [] = True"
| "ordered_from lo n ((a, b) # ms) = (lo \<le> a \<and> a \<le> b \<and> b \<le> n \<and> ordered_from b n ms)"

lemma ordered_from_mono: "ordered_from lo n ms \<Longrightarrow> lo' \<le> lo \<Longrightarrow> ordered_from lo' n ms"
  by (cases ms) auto

lemma matches_from_ordered: "ordered_from i (length s) (matches_from r s i)"
proof (induction r s i rule: matches_from.induct)
  case (1 r s i)
  show ?case
  proof (cases "length s < i")
    case True
    then show ?thesis by (subst matches_from.simps) simp
  next
    case False
    show ?thesis
    proof (cases "ends r s i")
      case Nil
      with False 1 have "ordered_from (i + 1) (length s) (matches_from r s (i + 1))" by simp
      with False Nil show ?thesis
        by (subst matches_from.simps) (auto intro: ordered_from_mono)
    next
      case (Cons e es)
      then have e: "i \<le> e" "e \<le> length s" using ends_bounds [of e r s i] False by auto
      let ?n = "if i < e then e else i + 1"
      have "ordered_from ?n (length s) (matches_from r s ?n)" using 1 False Cons by auto
      then have "ordered_from e (length s) (matches_from r s ?n)" using e by (auto intro: ordered_from_mono)
      with False Cons e show ?thesis by (subst matches_from.simps) simp
    qed
  qed
qed

lemma matchAll_ordered: "ordered_from 0 (length s) (matchAll r s)"
  unfolding matchAll_def by (rule matches_from_ordered)

section \<open>Replacement as a list function\<close>

text \<open>A pattern of one character, and a run of characters: the two patterns the normalisers use.\<close>

function collapse :: "(char \<Rightarrow> bool) \<Rightarrow> string \<Rightarrow> string \<Rightarrow> string" where
  "collapse p rep [] = []"
| "collapse p rep (c # cs) =
     (if p c then rep @ collapse p rep (dropWhile p cs) else c # collapse p rep cs)"
  by pat_completeness auto
termination
  by (relation "measure (\<lambda>(p, rep, s). length s)") (auto simp: le_imp_less_Suc length_dropWhile_le)

lemma hd_star_ends_Chr:
  "length s - i \<le> n \<Longrightarrow> hd (star_ends (ends (Chr p) s) n i) = i + length (takeWhile p (drop i s))"
proof (induction n arbitrary: i)
  case (Suc n)
  show ?case
  proof (cases "i < length s \<and> p (s ! i)")
    case True
    have "hd (star_ends (ends (Chr p) s) n (i + 1)) = i + 1 + length (takeWhile p (drop (i + 1) s))"
      by (rule Suc.IH) (use Suc.prems in simp)
    moreover have "drop i s = s ! i # drop (i + 1) s" using True by (simp add: Cons_nth_drop_Suc)
    moreover have "star_ends f n k \<noteq> []" for f k by (cases n) auto
    moreover have "ends (Chr p) s i = [i + 1]" using True by simp
    ultimately show ?thesis using True by (simp add: hd_append del: ends.simps)
  next
    case False
    then have "takeWhile p (drop i s) = []" by (cases "drop i s") (auto simp: hd_drop_conv_nth [symmetric] drop_eq_Nil)
    with False show ?thesis by auto
  qed
qed simp

lemma ends_Plus_Chr:
  "ends (Plus (Chr p)) s i = [] \<longleftrightarrow> \<not> (i < length s \<and> p (s ! i))"
  "ends (Plus (Chr p)) s i = e # es \<Longrightarrow> e = i + length (takeWhile p (drop i s))"
proof -
  have ne: "star_ends f n k \<noteq> []" for f n k by (cases n) auto
  then show "ends (Plus (Chr p)) s i = [] \<longleftrightarrow> \<not> (i < length s \<and> p (s ! i))" by (simp add: Plus_def)
  assume e: "ends (Plus (Chr p)) s i = e # es"
  then have i: "i < length s" "p (s ! i)" by (auto simp: Plus_def split: if_splits)
  with e have "e = hd (star_ends (ends (Chr p) s) (length s - Suc i) (Suc i))" by (simp add: Plus_def)
  then show "e = i + length (takeWhile p (drop i s))"
    using i hd_star_ends_Chr [of s "Suc i" "length s - Suc i" p]
    by (simp add: Cons_nth_drop_Suc [symmetric])
qed

lemma slice_Suc: "k \<le> i \<Longrightarrow> i < length s \<Longrightarrow> slice k (Suc i) s = slice k i s @ [s ! i]"
  by (simp add: slice_def Suc_diff_le take_Suc_conv_app_nth)

lemma dropWhile_drop: "dropWhile p xs = drop (length (takeWhile p xs)) xs"
  by (simp add: dropWhile_eq_drop)

lemma splice_Plus_Chr:
  "k \<le> i \<Longrightarrow> i \<le> length s \<Longrightarrow>
   splice k (matches_from (Plus (Chr p)) s i) rep s = slice k i s @ collapse p rep (drop i s)"
proof (induction "Plus (Chr p)" s i arbitrary: k rule: matches_from.induct)
  case (1 s i)
  let ?R = "Plus (Chr p)"
  show ?case
  proof (cases "ends ?R s i")
    case Nil
    show ?thesis
    proof (cases "i < length s")
      case True
      then have np: "\<not> p (s ! i)" using Nil ends_Plus_Chr(1) by blast
      have "splice k (matches_from ?R s i) rep s = splice k (matches_from ?R s (i + 1)) rep s"
        using Nil 1 by (subst matches_from.simps) simp
      also have "\<dots> = slice k (i + 1) s @ collapse p rep (drop (i + 1) s)"
        using 1(1) [OF _ Nil, of k] 1 True by simp
      also have "\<dots> = slice k i s @ collapse p rep (drop i s)"
        using True np 1(3) Cons_nth_drop_Suc [OF True, symmetric] by (simp add: slice_Suc)
      finally show ?thesis .
    next
      case False
      then have i: "i = length s" using 1 by simp
      have "matches_from ?R s (length s + 1) = []" by (subst matches_from.simps) simp
      then have "matches_from ?R s i = []" using Nil i by (subst matches_from.simps) simp
      with i 1(3) show ?thesis by (simp add: slice_def)
    qed
  next
    case (Cons e es)
    then have i: "i < length s" "p (s ! i)" using ends_Plus_Chr(1) [of p s i] by auto
    have e: "e = i + length (takeWhile p (drop i s))" using ends_Plus_Chr(2) [OF Cons] .
    have d: "drop i s = s ! i # drop (Suc i) s" using i by (simp add: Cons_nth_drop_Suc)
    have ie: "i < e" using e d i by simp
    have el: "e \<le> length s" using ends_bounds [of e ?R s i] Cons i by auto
    have "splice k (matches_from ?R s i) rep s = slice k i s @ rep @ splice e (matches_from ?R s e) rep s"
      using Cons i ie by (subst matches_from.simps) simp
    also have "\<dots> = slice k i s @ rep @ collapse p rep (drop e s)"
      using 1(2) [OF _ Cons, of e] el ie i by (simp add: slice_def)
    also have "drop e s = dropWhile p (drop (Suc i) s)"
      using e d i by (simp add: dropWhile_drop add.commute drop_drop)
    finally show ?thesis using d i by simp
  qed
qed

lemma replace_all_run: "replace_all (Plus (Chr p)) rep s = collapse p rep s"
  using splice_Plus_Chr [of 0 0 s p rep] by (simp add: replace_all_def matchAll_def slice_def)

lemma splice_Chr:
  "k \<le> i \<Longrightarrow> i \<le> length s \<Longrightarrow>
   splice k (matches_from (Chr p) s i) rep s =
     slice k i s @ concat (map (\<lambda>c. if p c then rep else [c]) (drop i s))"
proof (induction "Chr p" s i arbitrary: k rule: matches_from.induct)
  case (1 s i)
  show ?case
  proof (cases "i < length s")
    case False
    then have i: "i = length s" using 1 by simp
    have "matches_from (Chr p) s (length s + 1) = []" by (subst matches_from.simps) simp
    then have "matches_from (Chr p) s i = []" using i by (subst matches_from.simps) simp
    with i 1(3) show ?thesis by (simp add: slice_def)
  next
    case True
    then have d: "drop i s = s ! i # drop (Suc i) s" by (simp add: Cons_nth_drop_Suc)
    show ?thesis
    proof (cases "p (s ! i)")
      case True
      with \<open>i < length s\<close> have e: "ends (Chr p) s i = [i + 1]" by simp
      have "splice k (matches_from (Chr p) s i) rep s = slice k i s @ rep @ splice (i + 1) (matches_from (Chr p) s (i + 1)) rep s"
        using \<open>i < length s\<close> e by (subst matches_from.simps) simp
      with 1(2) [OF _ e, of "i + 1"] \<open>i < length s\<close> True d show ?thesis by (simp add: slice_def)
    next
      case False
      with \<open>i < length s\<close> have e: "ends (Chr p) s i = []" by simp
      have "splice k (matches_from (Chr p) s i) rep s = splice k (matches_from (Chr p) s (i + 1)) rep s"
        using \<open>i < length s\<close> e by (subst matches_from.simps) simp
      also have "\<dots> = slice k (i + 1) s @ concat (map (\<lambda>c. if p c then rep else [c]) (drop (i + 1) s))"
        using 1(1) [OF _ e, of k] 1 \<open>i < length s\<close> by simp
      finally show ?thesis using \<open>i < length s\<close> False 1(3) d by (simp add: slice_Suc)
    qed
  qed
qed

lemma replace_all_char: "replace_all (Chr p) rep s = concat (map (\<lambda>c. if p c then rep else [c]) s)"
  using splice_Chr [of 0 0 s p rep] by (simp add: replace_all_def matchAll_def slice_def)

lemma remove_all_char: "replace_all (Chr p) [] s = filter (\<lambda>c. \<not> p c) s"
  unfolding replace_all_char by (induction s) auto

end
