(* ===== verification/Residual_Scan.thy ===== *)
theory Residual_Scan
  imports Js_Regex Artifact_Repo
begin

text \<open>
  \<^verbatim>\<open>src/src/redaction/residual-scan.ts\<close> with \<^verbatim>\<open>TOKEN_PATTERN\<close> of \<^verbatim>\<open>redaction/types.ts\<close>: the independent
  scan of redacted output.  The counts are an object in insertion order, as the source builds it.
\<close>

section \<open>Normalisers\<close>

definition is_alnum :: "char \<Rightarrow> bool" where "is_alnum c \<longleftrightarrow> is_lower c \<or> is_num c"

definition lowercase :: "string \<Rightarrow> string" where "lowercase s = map to_lower s"

definition TOKEN_PATTERN :: rx where
  "TOKEN_PATTERN = Seqs [Lit ''['', Plus (Chr (\<lambda>c. is_upper c \<or> c = CHR ''_'')), Lit ''_'', Plus (Chr is_num), Lit '']'']"

definition normalizeAggressive :: "string \<Rightarrow> string" where
  "normalizeAggressive s = replace_all (Chr (\<lambda>c. \<not> is_alnum c)) [] (lowercase s)"

definition wordTokens :: "string \<Rightarrow> string list" where
  "wordTokens s = words_by is_alnum (lowercase s)"

text \<open>\<^verbatim>\<open>containsWordSequence\<close>: the inner loop compares the needle at one position.\<close>

fun matches_here :: "string list \<Rightarrow> string list \<Rightarrow> bool" where
  "matches_here hay [] = True"
| "matches_here [] (n # ns) = False"
| "matches_here (h # hs) (n # ns) = (h = n \<and> matches_here hs ns)"

fun sequence_from :: "string list \<Rightarrow> string list \<Rightarrow> bool" where
  "sequence_from [] needle = (needle = [])"
| "sequence_from (h # hs) needle = (matches_here (h # hs) needle \<or> sequence_from hs needle)"

definition containsWordSequence :: "string list \<Rightarrow> string list \<Rightarrow> bool" where
  "containsWordSequence hay needle = (if needle = [] then False else sequence_from hay needle)"

definition REINTRO_MIN_CHARS :: nat where "REINTRO_MIN_CHARS = 3"
definition REINTRO_CONCAT_MIN_CHARS :: nat where "REINTRO_CONCAT_MIN_CHARS = 8"

definition reintroduced :: "string \<Rightarrow> string \<Rightarrow> string list \<Rightarrow> bool" where
  "reintroduced plaintext concatText hayTokens =
     (let alnum = normalizeAggressive plaintext in
      if length alnum < REINTRO_MIN_CHARS then False
      else if length alnum \<ge> REINTRO_CONCAT_MIN_CHARS then str_includes concatText alnum
      else containsWordSequence hayTokens (wordTokens plaintext))"

section \<open>Spoken digits\<close>

definition DIGIT_WORDS :: "string list" where
  "DIGIT_WORDS = [''zero'', ''oh'', ''one'', ''two'', ''three'', ''four'', ''five'', ''six'', ''seven'', ''eight'', ''nine'',
     ''double'', ''triple'']"

definition DIGIT_WORD_MULTIPLIER :: "string \<Rightarrow> nat option" where
  "DIGIT_WORD_MULTIPLIER w = (if w = ''double'' then Some 2 else if w = ''triple'' then Some 3 else None)"

definition SPELLED_DIGITS_MIN :: nat where "SPELLED_DIGITS_MIN = 7"

definition close_run :: "nat \<Rightarrow> nat \<Rightarrow> nat" where
  "close_run run runs = (if run \<ge> SPELLED_DIGITS_MIN then runs + 1 else runs)"

fun digit_runs :: "string list \<Rightarrow> nat \<Rightarrow> nat \<Rightarrow> nat \<Rightarrow> nat" where
  "digit_runs [] runs run pending = close_run run runs"
| "digit_runs (word # ws) runs run pending =
     (case DIGIT_WORD_MULTIPLIER word of
        Some m \<Rightarrow> digit_runs ws runs run m
      | None \<Rightarrow>
          if word \<in> set DIGIT_WORDS then digit_runs ws runs (run + pending) 1
          else digit_runs ws (close_run run runs) 0 1)"

definition spelledOutDigitRuns :: "string list \<Rightarrow> nat" where
  "spelledOutDigitRuns ws = digit_runs ws 0 0 1"

section \<open>Patterns\<close>

definition is_alpha :: "char \<Rightarrow> bool" where "is_alpha c \<longleftrightarrow> is_upper c \<or> is_lower c"
definition is_alnum_i :: "char \<Rightarrow> bool" where "is_alnum_i c \<longleftrightarrow> is_alpha c \<or> is_num c"

definition DIGIT_RUN :: rx where
  "DIGIT_RUN = Seqs (replicate 7 (Chr is_num) @ [Star (Chr is_num)])"

definition EMAIL_AT_SIGN :: rx where
  "EMAIL_AT_SIGN = Seqs
     [Plus (Chr (\<lambda>c. is_alnum_i c \<or> c \<in> {CHR ''_'', CHR ''%'', CHR ''+'', CHR ''-''})), Star Space, Lit ''@'', Star Space,
      Plus (Chr (\<lambda>c. is_alnum_i c \<or> c \<in> {CHR ''.'', CHR ''-''}))]"

definition EMAIL_SPOKEN :: rx where
  "EMAIL_SPOKEN = Seqs
     [WordB, Plus (Chr is_alnum_i), Plus Space, LitI ''at'', Plus Space, Plus (Chr is_alnum_i),
      Alt (Seqs [Star Space, Alt (Lit ''.'') (Seqs [WordB, LitI ''dot'', WordB]), Star Space]) (Lit ''.''),
      Alts (map LitI [''com'', ''net'', ''org'', ''edu'', ''gov'', ''io'']), WordB]"

definition ADDRESS_KEYWORD :: rx where
  "ADDRESS_KEYWORD = Seqs
     [WordB, Alts (map LitI [''street'', ''avenue'', ''boulevard'', ''address'', ''apartment'', ''apt'', ''suite'']
        @ [Seqs [LitI ''zip'', Star Space, LitI ''code''], LitI ''zip'']), WordB]"

definition ADDRESS_WINDOW_CHARS :: nat where "ADDRESS_WINDOW_CHARS = 40"

definition name_word :: rx where
  "name_word = Seq (Chr is_upper) (Plus (Chr (\<lambda>c. is_lower c \<or> c = CHR 0x27 \<or> c = CHR ''-'')))"

definition GREETING_STRONG :: rx where
  "GREETING_STRONG = Seqs
     [WordB, Alts [Seqs [Lit ''my'', Plus Space, Lit ''name'', Plus Space, Lit ''is''],
                   Seqs [Lit ''ask'', Plus Space, Lit ''for''],
                   Seqs [Lit ''speaking'', Plus Space, Lit ''with'']], Plus Space, name_word]"

definition GREETING_WEAK :: rx where
  "GREETING_WEAK = Seqs
     [WordB, Alts [Seqs [Lit ''this'', Plus Space, Lit ''is''],
                   Seqs [Lit ''it'', Opt (Chr (\<lambda>c. c = CHR 0x27)), Lit ''s'']], Plus Space, name_word, Plus Space, name_word]"

section \<open>The scan\<close>

type_synonym scan_counts = "(string \<times> nat) list"

definition add_count :: "string \<Rightarrow> nat \<Rightarrow> scan_counts \<Rightarrow> scan_counts" where
  "add_count category n counts =
     (if n > 0 then obj_set category ((case map_of counts category of None \<Rightarrow> 0 | Some m \<Rightarrow> m) + n) counts else counts)"

definition address_hits :: "string \<Rightarrow> nat" where
  "address_hits txt = length (filter
     (\<lambda>(a, b). rx_test (Chr is_num) (slice (a - ADDRESS_WINDOW_CHARS) (min (length txt) (b + ADDRESS_WINDOW_CHARS)) txt))
     (matchAll ADDRESS_KEYWORD txt))"

record residual_scan_result =
  rs_hits :: "string list"
  rs_counts :: scan_counts

definition isVaultValueReintroduced :: "string \<Rightarrow> string \<Rightarrow> bool" where
  "isVaultValueReintroduced plaintext redactedText =
     (let txt = replace_all TOKEN_PATTERN '' '' redactedText
      in reintroduced plaintext (normalizeAggressive txt) (wordTokens txt))"

text \<open>The adds of \<^verbatim>\<open>residualScan\<close>, in its order.\<close>

definition residual_adds :: "string \<Rightarrow> string list \<Rightarrow> string list \<Rightarrow> (string \<times> nat) list" where
  "residual_adds redactedText vaultPlaintexts denyTerms =
     (let txt = replace_all TOKEN_PATTERN '' '' redactedText;
          normalized = normalizeAggressive txt;
          wds = words_by is_lower (lowercase txt);
          textTokens = wordTokens txt
      in [(''vault_value_reintroduced'', length (filter (\<lambda>p. reintroduced p normalized textTokens) vaultPlaintexts)),
          (''digit_run'', length (matchAll DIGIT_RUN normalized)),
          (''spelled_out_digits'', spelledOutDigitRuns wds),
          (''email_like'', length (matchAll EMAIL_AT_SIGN txt)),
          (''email_like'', length (matchAll EMAIL_SPOKEN txt)),
          (''address_like'', address_hits txt),
          (''name_like_after_greeting'', length (matchAll GREETING_STRONG txt) + length (matchAll GREETING_WEAK txt)),
          (''deny_list_term'', length (filter (\<lambda>t. let needle = normalizeAggressive t in
              length needle \<ge> 3 \<and> str_includes normalized needle) denyTerms))])"

definition residualScan :: "string \<Rightarrow> string list \<Rightarrow> string list \<Rightarrow> residual_scan_result" where
  "residualScan redactedText vaultPlaintexts denyTerms =
     (let counts = fold (\<lambda>(category, n). add_count category n) (residual_adds redactedText vaultPlaintexts denyTerms) []
      in \<lparr>rs_hits = concat (map (\<lambda>(category, n). replicate n category) counts), rs_counts = counts\<rparr>)"

section \<open>Lemmas\<close>

text \<open>Counts have known categories, each once, and every count is positive.\<close>

definition counts_ok :: "scan_counts \<Rightarrow> bool" where
  "counts_ok counts \<longleftrightarrow> distinct (map fst counts)
     \<and> list_all (\<lambda>(category, n). category \<in> set RESIDUAL_SCAN_CATEGORIES \<and> 0 < n) counts"

lemma obj_set_list_all:
  "list_all P xs \<Longrightarrow> P (k, v) \<Longrightarrow> list_all P (obj_set k v xs)"
  by (induction k v xs rule: obj_set.induct) auto

lemma add_count_ok:
  "counts_ok counts \<Longrightarrow> category \<in> set RESIDUAL_SCAN_CATEGORIES \<Longrightarrow> counts_ok (add_count category n counts)"
  by (auto simp: counts_ok_def add_count_def obj_set_distinct intro!: obj_set_list_all)

lemma fold_add_count_ok:
  "counts_ok counts \<Longrightarrow> list_all (\<lambda>(category, n). category \<in> set RESIDUAL_SCAN_CATEGORIES) adds \<Longrightarrow>
   counts_ok (fold (\<lambda>(category, n). add_count category n) adds counts)"
  by (induction adds arbitrary: counts) (auto intro: add_count_ok)

lemma residual_adds_categories:
  "list_all (\<lambda>(category, n). category \<in> set RESIDUAL_SCAN_CATEGORIES) (residual_adds txt vault deny)"
  by (simp add: residual_adds_def Let_def RESIDUAL_SCAN_CATEGORIES_def)

lemma residualScan_counts_ok: "counts_ok (rs_counts (residualScan txt vault deny))"
  unfolding residualScan_def Let_def residual_scan_result.select_convs
  by (rule fold_add_count_ok [OF _ residual_adds_categories]) (simp add: counts_ok_def)

text \<open>Nothing is lost: the scan is clean exactly when every sub-scan is.\<close>

lemma obj_set_nonempty: "obj_set k v xs \<noteq> []"
  by (induction k v xs rule: obj_set.induct) auto

lemma fold_add_count_Nil:
  "fold (\<lambda>(category, n). add_count category n) adds counts = [] \<longleftrightarrow> counts = [] \<and> list_all (\<lambda>(category, n). n = 0) adds"
proof (induction adds arbitrary: counts)
  case (Cons a adds)
  then show ?case by (cases a) (auto simp: add_count_def obj_set_nonempty)
qed auto

lemma residualScan_clean:
  "rs_counts (residualScan txt vault deny) = [] \<longleftrightarrow> list_all (\<lambda>(category, n). n = 0) (residual_adds txt vault deny)"
  by (simp add: residualScan_def Let_def fold_add_count_Nil)

end
