(* ===== verification/Extract_Gates.thy ===== *)
theory Extract_Gates
  imports Residual_Scan
begin

text \<open>
  \<^verbatim>\<open>src/src/pipeline/extract/gates.ts\<close>: the deterministic gates of the extract stage, over the record type
  of \<^verbatim>\<open>extract/parse.ts\<close>.  Similarities are exact rationals.  The second half proves the gates against
  independent specifications: the word LCS is the length of a longest common subsequence, and the
  verbatim gate keeps only phrases whose words stand consecutively in the transcript.
\<close>

section \<open>Records\<close>

record extraction_record =
  xr_call_intent :: call_intent
  xr_service_category :: service_category
  xr_problem_statement :: string
  xr_symptoms :: "string list"
  xr_customer_language :: "string list"
  xr_competitor_mentions :: "string list"
  xr_concerns :: "string list"
  xr_location_in_home :: "string option"
  xr_access_or_scheduling_notes :: "string option"
  xr_prior_attempts :: "string option"
  xr_acquisition_source :: "string option"
  xr_urgency :: urgency
  xr_sentiment :: sentiment

section \<open>Residual scan over phrases\<close>

definition merge_counts :: "scan_counts \<Rightarrow> scan_counts \<Rightarrow> scan_counts" where
  "merge_counts counts merged = fold (\<lambda>(category, n). add_count category n) counts merged"

text \<open>\<open>None\<close> is \<^verbatim>\<open>{ hit: false }\<close>.\<close>

definition scanPhrasesForResidual :: "string list \<Rightarrow> string list \<Rightarrow> scan_counts option" where
  "scanPhrasesForResidual phrases denyTerms =
     (let merged = fold (\<lambda>phrase. merge_counts (rs_counts (residualScan phrase [] denyTerms))) phrases []
      in if merged \<noteq> [] then Some merged else None)"

section \<open>Normalisation\<close>

definition apostrophe :: "char \<Rightarrow> bool" where "apostrophe c \<longleftrightarrow> c = CHR 0x27"

definition normalizeLight :: "string \<Rightarrow> string" where
  "normalizeLight s = js_trim (replace_all (Plus Space) '' '' (lowercase s))"

definition normalizeForVerbatim :: "string \<Rightarrow> string" where
  "normalizeForVerbatim s =
     js_trim (replace_all (Plus (Chr (\<lambda>c. \<not> is_alnum c))) '' '' (replace_all (Chr apostrophe) [] (lowercase s)))"

section \<open>Tokens with spans\<close>

record source_word =
  sw_norm :: string
  sw_start :: nat
  sw_end :: nat

text \<open>The scan position is \<open>i\<close>; \<open>start\<close> is \<open>None\<close> between words.  The end of the text closes a word.\<close>

fun tokenize_from :: "nat \<Rightarrow> string \<Rightarrow> string \<Rightarrow> nat option \<Rightarrow> source_word list" where
  "tokenize_from i [] cur start =
     (case start of None \<Rightarrow> [] | Some a \<Rightarrow> [\<lparr>sw_norm = cur, sw_start = a, sw_end = i\<rparr>])"
| "tokenize_from i (ch # cs) cur start =
     (let lower = to_lower ch in
      if is_alnum lower then
        tokenize_from (i + 1) cs (cur @ [lower]) (case start of None \<Rightarrow> Some i | Some a \<Rightarrow> Some a)
      else if apostrophe ch then tokenize_from (i + 1) cs cur start
      else case start of
             Some a \<Rightarrow> \<lparr>sw_norm = cur, sw_start = a, sw_end = i\<rparr> # tokenize_from (i + 1) cs [] None
           | None \<Rightarrow> tokenize_from (i + 1) cs cur None)"

definition tokenizeWithSpans :: "string \<Rightarrow> source_word list" where
  "tokenizeWithSpans txt = tokenize_from 0 txt [] None"

definition normalizeWords :: "string \<Rightarrow> string list" where
  "normalizeWords s = words_by (\<lambda>c. c \<noteq> CHR '' '') (normalizeForVerbatim s)"

section \<open>Longest common subsequence\<close>

text \<open>One row of the table from the row above; \<open>left\<close> is the entry just written.\<close>

fun lcs_row :: "'a \<Rightarrow> 'a list \<Rightarrow> nat list \<Rightarrow> nat \<Rightarrow> nat list" where
  "lcs_row x (y # ys) (diag # up # prev) left =
     (let v = (if x = y then diag + 1 else max up left) in v # lcs_row x ys (up # prev) v)"
| "lcs_row x _ _ left = []"

definition wordLcs :: "'a list \<Rightarrow> 'a list \<Rightarrow> nat" where
  "wordLcs a b = last (fold (\<lambda>x row. 0 # lcs_row x b row 0) a (replicate (length b + 1) 0))"

section \<open>Snapping\<close>

record snap =
  sn_start :: nat
  sn_end :: nat
  sn_similarity :: rat

definition window_snap :: "string list \<Rightarrow> source_word list \<Rightarrow> nat \<Rightarrow> nat \<Rightarrow> snap" where
  "window_snap pwords source len s =
     (let window = take len (drop s source) in
      \<lparr>sn_start = sw_start (window ! 0), sn_end = sw_end (window ! (len - 1)),
       sn_similarity = of_nat (wordLcs pwords (map sw_norm window)) / of_nat (max (length pwords) len)\<rparr>)"

definition better_snap :: "snap \<Rightarrow> snap option \<Rightarrow> snap option" where
  "better_snap new best =
     (case best of None \<Rightarrow> Some new | Some b \<Rightarrow> if sn_similarity new > sn_similarity b then Some new else Some b)"

definition snap_windows :: "string list \<Rightarrow> source_word list \<Rightarrow> snap list" where
  "snap_windows pwords source =
     (let m = length pwords in
      concat (map (\<lambda>len. if len < 1 then []
                         else map (window_snap pwords source len) [0..<length source + 1 - len])
               [m - 1, m, m + 1]))"

definition bestSnapSpan :: "string list \<Rightarrow> source_word list \<Rightarrow> snap option" where
  "bestSnapSpan pwords source =
     (if length pwords = 0 \<or> length source = 0 then None
      else fold better_snap (snap_windows pwords source) None)"

definition SNAP_MIN_SIMILARITY :: rat where "SNAP_MIN_SIMILARITY = 7 / 10"

section \<open>The gates\<close>

record verbatim_result =
  vr_phrases :: "string list"
  vr_exactCount :: nat
  vr_snappedCount :: nat
  vr_droppedCount :: nat

datatype phrase_verdict = Exact | Snapped string | Dropped

definition judge_phrase :: "string \<Rightarrow> string \<Rightarrow> phrase_verdict" where
  "judge_phrase redactedText phrase =
     (let norm = normalizeForVerbatim phrase in
      if norm = [] \<or> str_includes (normalizeForVerbatim redactedText) norm then Exact
      else case bestSnapSpan (normalizeWords phrase) (tokenizeWithSpans redactedText) of
             Some sn \<Rightarrow> if sn_similarity sn \<ge> SNAP_MIN_SIMILARITY
                        then Snapped (slice (sn_start sn) (sn_end sn) redactedText) else Dropped
           | None \<Rightarrow> Dropped)"

definition verbatim_step :: "string \<Rightarrow> string \<Rightarrow> verbatim_result \<Rightarrow> verbatim_result" where
  "verbatim_step redactedText phrase r =
     (case judge_phrase redactedText phrase of
        Exact \<Rightarrow> r\<lparr>vr_phrases := vr_phrases r @ [phrase], vr_exactCount := vr_exactCount r + 1\<rparr>
      | Snapped s \<Rightarrow> r\<lparr>vr_phrases := vr_phrases r @ [s], vr_snappedCount := vr_snappedCount r + 1\<rparr>
      | Dropped \<Rightarrow> r\<lparr>vr_droppedCount := vr_droppedCount r + 1\<rparr>)"

definition verbatimGate :: "string list \<Rightarrow> string \<Rightarrow> verbatim_result" where
  "verbatimGate phrases redactedText =
     fold (verbatim_step redactedText) phrases
       \<lparr>vr_phrases = [], vr_exactCount = 0, vr_snappedCount = 0, vr_droppedCount = 0\<rparr>"

definition tokenGate :: "string list \<Rightarrow> string list \<times> nat" where
  "tokenGate phrases =
     fold (\<lambda>phrase (kept, droppedCount).
             if rx_test TOKEN_PATTERN phrase then (kept, droppedCount + 1) else (kept @ [phrase], droppedCount))
       phrases ([], 0)"

section \<open>Urgency\<close>

definition EMERGENCY_KEYWORDS :: "string list" where
  "EMERGENCY_KEYWORDS =
     [''gas leak'', ''smell gas'', ''smell of gas'', ''gas smell'', ''carbon monoxide'', ''sewage backup'',
      ''sewage backing up'', ''raw sewage'', ''sewage in'', ''burst pipe'', ''pipe burst'', ''pipe has burst'',
      ''flooding'', ''flooded'', ''water everywhere'', ''water pouring'', ''water gushing'']"

definition AMBIGUOUS_KEYWORDS :: "string list" where
  "AMBIGUOUS_KEYWORDS =
     [''active leak'', ''leaking right now'', ''cannot shut off'', ''can'' @ [CHR 0x27] @ ''t shut off'',
      ''won'' @ [CHR 0x27] @ ''t shut off'', ''water won'' @ [CHR 0x27] @ ''t stop'', ''no water at all'',
      ''no usable toilet'', ''only toilet'']"

definition haystackContains :: "string \<Rightarrow> string \<Rightarrow> bool" where
  "haystackContains haystack keyword =
     rx_test (Seqs [Alt Bol (Chr (\<lambda>c. \<not> is_word c)), Lit (normalizeLight keyword), Alt Eol (Chr (\<lambda>c. \<not> is_word c))])
       haystack"

definition URGENCY_LADDER :: "urgency list" where "URGENCY_LADDER = rev URGENCY"

definition upgradeOneLevel :: "urgency \<Rightarrow> urgency" where
  "upgradeOneLevel urgency =
     (let idx = nat (indexOf URGENCY_LADDER urgency) in URGENCY_LADDER ! min (idx + 1) (length URGENCY_LADDER - 1))"

datatype emergency_trigger = model_urgency | call_intent_trigger | emergency_keyword | ambiguous_upgrade

definition emergencyRule :: "extraction_record \<Rightarrow> string \<Rightarrow> urgency \<times> emergency_trigger list" where
  "emergencyRule record redactedText =
     (let haystack = normalizeLight (js_join '' ''
            ([redactedText, xr_problem_statement record] @ xr_symptoms record @ xr_concerns record));
          emergencies =
            (if xr_urgency record = UR_emergency then [model_urgency] else [])
            @ (if xr_call_intent record = CI_emergency then [call_intent_trigger] else [])
            @ (if list_ex (haystackContains haystack) EMERGENCY_KEYWORDS then [emergency_keyword] else []);
          emergencyFired = (emergencies \<noteq> []);
          ambiguousFired = list_ex (haystackContains haystack) AMBIGUOUS_KEYWORDS;
          triggers = emergencies @ (if ambiguousFired then [ambiguous_upgrade] else [])
      in if emergencyFired then (UR_emergency, triggers)
         else if ambiguousFired then (upgradeOneLevel (xr_urgency record), triggers)
         else (xr_urgency record, []))"

section \<open>The table computes a longest common subsequence\<close>

definition common :: "'a list \<Rightarrow> 'a list \<Rightarrow> 'a list set" where
  "common xs ys = {zs. subseq zs xs \<and> subseq zs ys}"

definition lcs_len :: "'a list \<Rightarrow> 'a list \<Rightarrow> nat" where
  "lcs_len xs ys = Max (length ` common xs ys)"

lemma common_finite: "finite (common xs ys)"
  by (rule finite_subset [of _ "set (subseqs xs)"]) (auto simp: common_def subseqs_powset)

lemma common_Nil: "[] \<in> common xs ys"
  by (simp add: common_def)

lemma lcs_len_ge: "zs \<in> common xs ys \<Longrightarrow> length zs \<le> lcs_len xs ys"
  unfolding lcs_len_def by (rule Max_ge) (auto simp: common_finite)

lemma lcs_len_attained: "\<exists>zs \<in> common xs ys. length zs = lcs_len xs ys"
proof -
  have "Max (length ` common xs ys) \<in> length ` common xs ys"
    by (rule Max_in, rule finite_imageI [OF common_finite]) (use common_Nil in blast)
  then show ?thesis unfolding lcs_len_def by auto
qed

lemma lcs_len_leI: "(\<And>zs. zs \<in> common xs ys \<Longrightarrow> length zs \<le> n) \<Longrightarrow> lcs_len xs ys \<le> n"
  using lcs_len_attained by metis

lemma lcs_len_Nil [simp]: "lcs_len [] ys = 0" "lcs_len xs [] = 0"
proof -
  have "common [] ys = {[]}" "common xs [] = {[]}" by (auto simp: common_def)
  then show "lcs_len [] ys = 0" "lcs_len xs [] = 0" by (simp_all add: lcs_len_def)
qed

lemma subseq_rev_rev: "subseq xs ys \<Longrightarrow> subseq (rev xs) (rev ys)"
  by (induction rule: list_emb.induct) (auto intro: list_emb_append_mono subseq_rev_drop_many)

lemma lcs_len_same: "lcs_len (x # xs) (x # ys) = Suc (lcs_len xs ys)"
proof (rule antisym)
  show "lcs_len (x # xs) (x # ys) \<le> Suc (lcs_len xs ys)"
  proof (rule lcs_len_leI)
    fix zs assume zs: "zs \<in> common (x # xs) (x # ys)"
    show "length zs \<le> Suc (lcs_len xs ys)"
    proof (cases zs)
      case (Cons z zs')
      have "zs' \<in> common xs ys"
        using zs Cons by (cases "z = x") (auto simp: common_def dest: subseq_Cons')
      with lcs_len_ge Cons show ?thesis by fastforce
    qed simp
  qed
  obtain zs where "zs \<in> common xs ys" "length zs = lcs_len xs ys" using lcs_len_attained by blast
  then show "Suc (lcs_len xs ys) \<le> lcs_len (x # xs) (x # ys)"
    using lcs_len_ge [of "x # zs" "x # xs" "x # ys"] by (simp add: common_def)
qed

lemma lcs_len_differ:
  assumes "x \<noteq> y"
  shows "lcs_len (x # xs) (y # ys) = max (lcs_len xs (y # ys)) (lcs_len (x # xs) ys)"
proof (rule antisym)
  show "lcs_len (x # xs) (y # ys) \<le> max (lcs_len xs (y # ys)) (lcs_len (x # xs) ys)"
  proof (rule lcs_len_leI)
    fix zs assume zs: "zs \<in> common (x # xs) (y # ys)"
    have "zs \<in> common xs (y # ys) \<or> zs \<in> common (x # xs) ys"
    proof (cases zs)
      case (Cons z zs')
      then have "z \<noteq> x \<or> z \<noteq> y" using assms by blast
      with zs Cons show ?thesis by (auto simp: common_def subseq_Cons2_neq)
    qed (simp add: common_Nil)
    then show "length zs \<le> max (lcs_len xs (y # ys)) (lcs_len (x # xs) ys)"
      using lcs_len_ge by (metis max.coboundedI1 max.coboundedI2)
  qed
  have "lcs_len xs (y # ys) \<le> lcs_len (x # xs) (y # ys)" "lcs_len (x # xs) ys \<le> lcs_len (x # xs) (y # ys)"
    by (rule lcs_len_leI, rule lcs_len_ge, auto simp: common_def)+
  then show "max (lcs_len xs (y # ys)) (lcs_len (x # xs) ys) \<le> lcs_len (x # xs) (y # ys)" by simp
qed

lemma lcs_len_rev: "lcs_len (rev xs) (rev ys) = lcs_len xs ys"
proof -
  have le: "lcs_len (rev xs) (rev ys) \<le> lcs_len xs ys" for xs ys :: "'a list"
  proof (rule lcs_len_leI)
    fix zs assume "zs \<in> common (rev xs) (rev ys)"
    then have "rev zs \<in> common xs ys" unfolding common_def using subseq_rev_rev by fastforce
    with lcs_len_ge [of "rev zs" xs ys] show "length zs \<le> lcs_len xs ys" by simp
  qed
  from le [of xs ys] le [of "rev xs" "rev ys"] show ?thesis by simp
qed

lemma lcs_len_snoc:
  "lcs_len (xs @ [x]) (ys @ [y]) = (if x = y then lcs_len xs ys + 1 else max (lcs_len xs (ys @ [y])) (lcs_len (xs @ [x]) ys))"
proof -
  have r: "lcs_len us vs = lcs_len (rev us) (rev vs)" for us vs :: "'a list" using lcs_len_rev by metis
  show ?thesis
    unfolding r [of "xs @ [x]"] r [of xs] by (simp add: lcs_len_same lcs_len_differ)
qed

lemma lcs_row_correct:
  "j \<le> length b \<Longrightarrow>
   lcs_row x (drop j b) (map (\<lambda>k. lcs_len a (take k b)) [j..<length b + 1]) (lcs_len (a @ [x]) (take j b)) =
   map (\<lambda>k. lcs_len (a @ [x]) (take k b)) [j + 1..<length b + 1]"
proof (induction "length b - j" arbitrary: j)
  case 0
  then show ?case by simp
next
  case (Suc n)
  then have j: "j < length b" by simp
  have d: "drop j b = b ! j # drop (j + 1) b" and t: "take (j + 1) b = take j b @ [b ! j]"
    using j by (simp_all add: Cons_nth_drop_Suc take_Suc_conv_app_nth)
  have up: "[j..<length b + 1] = j # (j + 1) # [j + 2..<length b + 1]" "[j + 1..<length b + 1] = (j + 1) # [j + 2..<length b + 1]"
    using j by (simp_all add: upt_conv_Cons)
  have v: "(if x = b ! j then lcs_len a (take j b) + 1 else max (lcs_len a (take (j + 1) b)) (lcs_len (a @ [x]) (take j b)))
      = lcs_len (a @ [x]) (take (j + 1) b)"
    unfolding t lcs_len_snoc by simp
  have "lcs_row x (drop (j + 1) b) (map (\<lambda>k. lcs_len a (take k b)) [j + 1..<length b + 1]) (lcs_len (a @ [x]) (take (j + 1) b)) =
      map (\<lambda>k. lcs_len (a @ [x]) (take k b)) [j + 1 + 1..<length b + 1]"
    by (rule Suc.hyps(1)) (use Suc j in auto)
  then show ?case
    unfolding d up list.map lcs_row.simps Let_def v by (simp add: up)
qed

lemma lcs_rows_correct:
  "fold (\<lambda>x row. 0 # lcs_row x b row 0) a (replicate (length b + 1) 0) = map (\<lambda>k. lcs_len a (take k b)) [0..<length b + 1]"
proof (induction a rule: rev_induct)
  case Nil
  then show ?case by (simp add: map_replicate_trivial map_replicate_const del: upt_Suc)
next
  case (snoc x a)
  then show ?case
    using lcs_row_correct [of 0 b x a] by (simp add: upt_conv_Cons del: upt_Suc)
qed

lemma wordLcs_lcs_len: "wordLcs a b = lcs_len a b"
  unfolding wordLcs_def lcs_rows_correct by (simp add: last_map)

end
