(* ===== verification/Extract_Correct.thy ===== *)
theory Extract_Correct
  imports Extract_Gates
begin

text \<open>
  Correctness of the extract gates.  The reference notion is \<open>vwords\<close>, the normalised words of a text:
  the tokenizer computes them with their spans, the verbatim normaliser joins them with blanks, and a
  snapped phrase is the text between the first and the last word of a window of them.
\<close>

section \<open>Words\<close>

definition fold_chars :: "string \<Rightarrow> string" where
  "fold_chars s = filter (\<lambda>c. \<not> apostrophe c) (lowercase s)"

definition vwords :: "string \<Rightarrow> string list" where
  "vwords s = words_by is_alnum (fold_chars s)"

lemma fold_chars_append [simp]: "fold_chars (s @ t) = fold_chars s @ fold_chars t"
  by (simp add: fold_chars_def lowercase_def)

lemma words_by_none: "\<forall>c \<in> set g. \<not> keep c \<Longrightarrow> words_by keep g = []"
  by (induction g) auto

lemma words_by_skip: "\<forall>c \<in> set g. \<not> keep c \<Longrightarrow> words_by keep (g @ v) = words_by keep v"
  by (induction g) auto

lemma words_by_word: "u \<noteq> [] \<Longrightarrow> \<forall>c \<in> set u. keep c \<Longrightarrow> words_by keep u = [u]"
  by (cases u) (simp_all add: takeWhile_eq_all_conv [THEN iffD2] dropWhile_eq_Nil_conv [THEN iffD2])

lemma words_by_split:
  assumes "u \<noteq> []" "\<forall>c \<in> set u. keep c" "r = [] \<or> \<not> keep (hd r)"
  shows "words_by keep (u @ r) = u # words_by keep r"
proof -
  obtain c cs where u: "u = c # cs" using assms(1) by (cases u) auto
  have "takeWhile keep (cs @ r) = cs" "dropWhile keep (cs @ r) = r"
    using assms u by (cases r; simp add: takeWhile_append2 dropWhile_append2)+
  with u assms(2) show ?thesis by simp
qed

lemma words_by_word_sep:
  assumes "u \<noteq> []" "\<forall>c \<in> set u. keep c" "g \<noteq> []" "\<forall>c \<in> set g. \<not> keep c"
  shows "words_by keep (u @ g @ v) = u # words_by keep v"
  using words_by_split [OF assms(1,2), of "g @ v"] assms(3,4) by (simp add: words_by_skip hd_append)

lemma words_by_chars: "w \<in> set (words_by keep s) \<Longrightarrow> w \<noteq> [] \<and> (\<forall>c \<in> set w. keep c)"
proof (induction keep s rule: words_by.induct)
  case (2 keep c cs)
  have "\<forall>x \<in> set (takeWhile keep cs). keep x" by (meson set_takeWhileD)
  with 2 show ?case by (cases "keep c") auto
qed simp

section \<open>The verbatim normaliser joins the words\<close>

lemma js_join_Cons: "js_join sep (w # ws) = w @ (if ws = [] then [] else sep @ js_join sep ws)"
  by (cases ws) auto

lemma dropWhile_hd: "s \<noteq> [] \<Longrightarrow> \<not> p (hd s) \<Longrightarrow> dropWhile p s = s"
  by (cases s) auto

lemma trim_id: "s \<noteq> [] \<Longrightarrow> \<not> js_space (hd s) \<Longrightarrow> \<not> js_space (last s) \<Longrightarrow> js_trim s = s"
  by (simp add: js_trim_def dropWhile_hd hd_rev)

lemma collapse_word:
  "\<forall>c \<in> set u. \<not> p c \<Longrightarrow> collapse p rep (u @ s) = u @ collapse p rep s"
  by (induction u) auto

lemma words_by_Nil: "words_by keep s = [] \<longleftrightarrow> (\<forall>c \<in> set s. \<not> keep c)"
  by (induction keep s rule: words_by.induct) auto

text \<open>A collapsed text is its words joined by blanks, with a blank in front and behind where the text has
  other characters there.\<close>

lemma collapse_words:
  "collapse (\<lambda>c. \<not> keep c) '' '' s =
     (if s = [] \<or> keep (hd s) then [] else '' '') @ js_join '' '' (words_by keep s)
     @ (if s = [] \<or> keep (last s) \<or> words_by keep s = [] then [] else '' '')"
proof (induction s rule: measure_induct_rule [where f = length])
  case (less s)
  show ?case
  proof (cases s)
    case (Cons c cs)
    show ?thesis
    proof (cases "keep c")
      case False
      let ?r = "dropWhile (\<lambda>c. \<not> keep c) cs"
      have "length ?r < length s" using Cons by (simp add: le_imp_less_Suc length_dropWhile_le)
      note ih = less [OF this]
      have "words_by keep cs = words_by keep (takeWhile (\<lambda>c. \<not> keep c) cs @ ?r)" by simp
      also have "\<dots> = words_by keep ?r" by (rule words_by_skip) (auto dest: set_takeWhileD)
      finally have w: "words_by keep s = words_by keep ?r" using Cons False by simp
      have h: "?r = [] \<or> keep (hd ?r)" using hd_dropWhile [of "\<lambda>c. \<not> keep c" cs] by auto
      have l: "?r \<noteq> [] \<Longrightarrow> last s = last ?r"
        using Cons by (metis last_ConsR last_appendR takeWhile_dropWhile_id append_is_Nil_conv)
      have c: "collapse (\<lambda>c. \<not> keep c) '' '' s = '' '' @ collapse (\<lambda>c. \<not> keep c) '' '' ?r" using Cons False by simp
      show ?thesis
      proof (cases "?r = []")
        case True
        then show ?thesis unfolding c w using Cons False by (simp del: dropWhile_eq_Nil_conv)
      next
        case ne: False
        then show ?thesis unfolding c w ih l [OF ne] using Cons False h by (simp del: dropWhile_eq_Nil_conv)
      qed
    next
      case True
      let ?u = "c # takeWhile keep cs" and ?r = "dropWhile keep cs"
      have s: "s = ?u @ ?r" using Cons by simp
      have u: "\<forall>c \<in> set ?u. keep c" using True by (auto dest: set_takeWhileD)
      have c: "collapse (\<lambda>c. \<not> keep c) '' '' s = ?u @ collapse (\<lambda>c. \<not> keep c) '' '' ?r"
        using collapse_word [of ?u "\<lambda>c. \<not> keep c" "'' ''" ?r] u s by simp
      have hr: "?r = [] \<or> \<not> keep (hd ?r)" using hd_dropWhile [of keep cs] by auto
      have w: "words_by keep s = ?u # words_by keep ?r" using Cons True by simp
      have "length ?r < length s" using Cons by (simp add: le_imp_less_Suc length_dropWhile_le)
      note ih = less [OF this]
      show ?thesis
      proof (cases "?r = []")
        case True
        then have "s = ?u" using s by (metis append_Nil2)
        then have "last s = last ?u" by metis
        then have "keep (last s)" using u last_in_set [of ?u] by simp
        with c w \<open>keep c\<close> Cons show ?thesis unfolding True by (simp del: dropWhile_eq_Nil_conv)
      next
        case False
        then have l: "last s = last ?r" using s by (metis last_appendR)
        have "words_by keep ?r = [] \<Longrightarrow> \<not> keep (last ?r)" using False words_by_Nil last_in_set by metis
        moreover have "s \<noteq> []" "keep (hd s)" "\<not> keep (hd ?r)" using Cons \<open>keep c\<close> hr False by auto
        ultimately show ?thesis
          unfolding c w l ih using False by (simp add: js_join_Cons del: dropWhile_eq_Nil_conv)
      qed
    qed
  qed simp
qed

lemma trim_around:
  assumes "\<forall>c \<in> set l. js_space c" "\<forall>c \<in> set t. js_space c" "j = [] \<or> \<not> js_space (hd j) \<and> \<not> js_space (last j)"
  shows "js_trim (l @ j @ t) = j"
proof (cases "j = []")
  case True
  have "dropWhile js_space (l @ t) = []" unfolding dropWhile_eq_Nil_conv using assms by auto
  with True show ?thesis by (simp add: js_trim_def del: dropWhile_eq_Nil_conv)
next
  case False
  have "dropWhile js_space (l @ j @ t) = j @ t"
    using assms False by (cases j) (simp_all add: dropWhile_append2)
  moreover have "dropWhile js_space (rev t @ rev j) = rev j"
    using assms(2,3) False dropWhile_append2 [of "rev t" js_space "rev j"] by (cases j rule: rev_cases) simp_all
  ultimately show ?thesis by (simp add: js_trim_def)
qed

lemma join_ends:
  assumes "\<And>w. w \<in> set ws \<Longrightarrow> w \<noteq> [] \<and> (\<forall>c \<in> set w. \<not> js_space c)"
  shows "js_join '' '' ws = [] \<or> \<not> js_space (hd (js_join '' '' ws)) \<and> \<not> js_space (last (js_join '' '' ws))"
  using assms
proof (induction ws)
  case (Cons w ws)
  have w: "w \<noteq> []" "\<forall>c \<in> set w. \<not> js_space c" using Cons.prems by auto
  then have hl: "\<not> js_space (hd w)" "\<not> js_space (last w)" by auto
  have ne: "ws \<noteq> [] \<Longrightarrow> js_join '' '' ws \<noteq> []"
    using Cons.prems by (cases ws) (auto simp: js_join_Cons)
  show ?case
    using Cons w hl ne by (auto simp: js_join_Cons last_append hd_append)
qed simp

lemma alnum_not_space: "is_alnum c \<Longrightarrow> \<not> js_space c"
  by (auto simp: is_alnum_def is_lower_def is_num_def char_code_def js_space_def)

lemma normalizeForVerbatim_words: "normalizeForVerbatim s = js_join '' '' (vwords s)"
proof -
  have ws: "w \<noteq> [] \<and> (\<forall>c \<in> set w. \<not> js_space c)" if "w \<in> set (vwords s)" for w
    using words_by_chars [of w is_alnum "fold_chars s"] that alnum_not_space by (auto simp: vwords_def)
  have "normalizeForVerbatim s = js_trim (collapse (\<lambda>c. \<not> is_alnum c) '' '' (fold_chars s))"
    by (simp add: normalizeForVerbatim_def replace_all_run remove_all_char fold_chars_def)
  also have "\<dots> = js_join '' '' (vwords s)"
    unfolding collapse_words vwords_def [symmetric]
    by (rule trim_around) (use join_ends [of "vwords s"] ws in \<open>auto simp: js_space_def\<close>)
  finally show ?thesis .
qed

section \<open>The tokenizer finds the words\<close>

definition separator :: "char \<Rightarrow> bool" where
  "separator c \<longleftrightarrow> \<not> is_alnum (to_lower c) \<and> \<not> apostrophe c"

definition no_word :: "string \<Rightarrow> bool" where
  "no_word s \<longleftrightarrow> (\<forall>c \<in> set (fold_chars s). \<not> is_alnum c)"

text \<open>\<open>spans_ok T i ws\<close>: from position \<open>i\<close> on, the text \<open>T\<close> is a gap without words, a word, and after it
  nothing or a separator and the rest of the words.\<close>

fun spans_ok :: "string \<Rightarrow> nat \<Rightarrow> source_word list \<Rightarrow> bool" where
  "spans_ok T i [] = no_word (drop i T)"
| "spans_ok T i (w # ws) =
     (i \<le> sw_start w \<and> sw_start w < sw_end w \<and> sw_end w \<le> length T
      \<and> no_word (slice i (sw_start w) T)
      \<and> is_alnum (to_lower (T ! sw_start w))
      \<and> fold_chars (slice (sw_start w) (sw_end w) T) = sw_norm w
      \<and> sw_norm w \<noteq> [] \<and> (\<forall>c \<in> set (sw_norm w). is_alnum c)
      \<and> (sw_end w < length T \<longrightarrow> separator (T ! sw_end w))
      \<and> spans_ok T (sw_end w) ws)"

lemma to_lower_apostrophe: "apostrophe (to_lower c) \<longleftrightarrow> apostrophe c"
proof (cases "is_upper c")
  case True
  then have "97 \<le> (of_char (to_lower c) :: nat)" "(of_char c :: nat) \<noteq> 39"
    by (auto simp: to_lower_def is_upper_def char_code_def)
  then have "to_lower c \<noteq> CHR 0x27" "c \<noteq> CHR 0x27" by auto
  then show ?thesis by (simp add: apostrophe_def)
qed (simp add: to_lower_def)

lemma alnum_not_apostrophe: "is_alnum c \<Longrightarrow> \<not> apostrophe c"
  by (auto simp: is_alnum_def is_lower_def is_num_def char_code_def apostrophe_def)

lemma fold_chars_one: "fold_chars [c] = (if apostrophe c then [] else [to_lower c])"
  by (simp add: fold_chars_def lowercase_def to_lower_apostrophe)

lemma fold_chars_Nil [simp]: "fold_chars [] = []"
  by (simp add: fold_chars_def lowercase_def)

lemma slice_same [simp]: "slice i i s = []"
  by (simp add: slice_def)

lemma no_word_Nil [simp]: "no_word []"
  by (simp add: no_word_def)

lemma no_word_append [simp]: "no_word (s @ t) \<longleftrightarrow> no_word s \<and> no_word t"
  by (auto simp: no_word_def)

lemma tokenize_spans:
  assumes "k \<le> i" "i \<le> length T"
  shows "(no_word (slice k i T) \<longrightarrow> spans_ok T k (tokenize_from i (drop i T) [] None))
    \<and> (\<forall>a. k \<le> a \<longrightarrow> a < i \<longrightarrow> no_word (slice k a T) \<longrightarrow> fold_chars (slice a i T) \<noteq> []
         \<longrightarrow> is_alnum (to_lower (T ! a)) \<longrightarrow> (\<forall>c \<in> set (fold_chars (slice a i T)). is_alnum c)
         \<longrightarrow> spans_ok T k (tokenize_from i (drop i T) (fold_chars (slice a i T)) (Some a)))"
  using assms
proof (induction "length T - i" arbitrary: i k)
  case 0
  then have i: "i = length T" by simp
  then have "drop k T = slice k i T" by (simp add: slice_def)
  with i 0 show ?case by simp
next
  case (Suc n)
  then have i: "i < length T" by simp
  let ?c = "T ! i"
  have d: "drop i T = ?c # drop (i + 1) T" using i by (simp add: Cons_nth_drop_Suc)
  have sl: "slice a (i + 1) T = slice a i T @ [?c]" if "a \<le> i" for a using slice_Suc [OF that i] by simp
  have IH: "k' \<le> i + 1 \<Longrightarrow> (no_word (slice k' (i + 1) T) \<longrightarrow> spans_ok T k' (tokenize_from (i + 1) (drop (i + 1) T) [] None))
    \<and> (\<forall>a. k' \<le> a \<longrightarrow> a < i + 1 \<longrightarrow> no_word (slice k' a T) \<longrightarrow> fold_chars (slice a (i + 1) T) \<noteq> []
         \<longrightarrow> is_alnum (to_lower (T ! a)) \<longrightarrow> (\<forall>c \<in> set (fold_chars (slice a (i + 1) T)). is_alnum c)
         \<longrightarrow> spans_ok T k' (tokenize_from (i + 1) (drop (i + 1) T) (fold_chars (slice a (i + 1) T)) (Some a)))" for k'
    by (rule Suc.hyps(1)) (use Suc i in auto)
  consider (word) "is_alnum (to_lower ?c)" | (quote) "\<not> is_alnum (to_lower ?c)" "apostrophe ?c" | (sep) "separator ?c"
    by (auto simp: separator_def)
  then show ?case
  proof cases
    case word
    then have na: "\<not> apostrophe ?c" using alnum_not_apostrophe to_lower_apostrophe by blast
    have one: "fold_chars [?c] = [to_lower ?c]" using na by (simp add: fold_chars_one)
    show ?thesis
      using IH [of k] Suc.prems word sl sl [of i] one d by (auto simp: Let_def)
  next
    case quote
    have one: "fold_chars [?c] = []" "no_word [?c]" using quote by (simp_all add: fold_chars_one no_word_def)
    show ?thesis
      using IH [of k] Suc.prems quote sl one d by (auto simp: Let_def)
  next
    case sep
    then have s: "\<not> is_alnum (to_lower ?c)" "\<not> apostrophe ?c" by (auto simp: separator_def)
    have one: "no_word [?c]" using s by (simp add: fold_chars_one no_word_def)
    have rest: "spans_ok T i (tokenize_from (i + 1) (drop (i + 1) T) [] None)"
      using IH [of i] sl [of i] one by simp
    show ?thesis
      using IH [of k] Suc.prems s sl one rest sep i d by (auto simp: Let_def)
  qed
qed

lemma tokenizeWithSpans_ok: "spans_ok T 0 (tokenizeWithSpans T)"
  using tokenize_spans [of 0 0 T] by (simp add: tokenizeWithSpans_def)

lemma spans_ok_suffix: "spans_ok T i (pre @ ws) \<Longrightarrow> \<exists>j. spans_ok T j ws"
  by (induction pre arbitrary: i) auto

lemma slice_append: "a \<le> b \<Longrightarrow> b \<le> c \<Longrightarrow> slice a c T = slice a b T @ slice b c T"
proof -
  assume "a \<le> b" "b \<le> c"
  then have "take (c - a) (drop a T) = take ((b - a) + (c - b)) (drop a T)" by simp
  then show ?thesis unfolding slice_def take_add using \<open>a \<le> b\<close> by (simp add: drop_drop)
qed

lemma gap_separates:
  assumes "spans_ok T i (w # w' # ws)"
  shows "sw_end w < sw_start w'" "fold_chars (slice (sw_end w) (sw_start w') T) \<noteq> []"
    "no_word (slice (sw_end w) (sw_start w') T)"
proof -
  from assms have le: "sw_end w \<le> sw_start w'" "sw_start w' < length T" and al: "is_alnum (to_lower (T ! sw_start w'))"
    and sep: "separator (T ! sw_end w)" and nw: "no_word (slice (sw_end w) (sw_start w') T)"
    by (auto simp: separator_def)
  show lt: "sw_end w < sw_start w'" using le al sep by (metis separator_def le_neq_implies_less)
  have "slice (sw_end w) (sw_start w') T = T ! sw_end w # slice (Suc (sw_end w)) (sw_start w') T"
    using lt le slice_append [of "sw_end w" "Suc (sw_end w)" "sw_start w'" T] slice_Suc [of "sw_end w" "sw_end w" T] by simp
  then have "fold_chars (slice (sw_end w) (sw_start w') T) = fold_chars [T ! sw_end w] @ fold_chars (slice (Suc (sw_end w)) (sw_start w') T)"
    by (metis append_Cons append_Nil fold_chars_append)
  then show "fold_chars (slice (sw_end w) (sw_start w') T) \<noteq> []" using sep by (simp add: fold_chars_one separator_def)
  show "no_word (slice (sw_end w) (sw_start w') T)" by (rule nw)
qed

text \<open>The text from the first to the last word of a window has exactly the window's words.\<close>

lemma window_words:
  "spans_ok T i (ws @ post) \<Longrightarrow> ws \<noteq> [] \<Longrightarrow>
   vwords (slice (sw_start (hd ws)) (sw_end (last ws)) T) = map sw_norm ws
   \<and> sw_start (hd ws) < sw_end (last ws) \<and> sw_end (last ws) \<le> length T"
proof (induction ws arbitrary: i)
  case (Cons w ws)
  show ?case
  proof (cases ws)
    case Nil
    with Cons.prems show ?thesis by (simp add: vwords_def words_by_word)
  next
    case (Cons w' ws')
    with Cons.prems have ok: "spans_ok T i (w # w' # (ws' @ post))" by simp
    then have "spans_ok T (sw_end w) (ws @ post)" using Cons by simp
    with Cons.IH [of "sw_end w"] Cons have ih: "vwords (slice (sw_start w') (sw_end (last ws)) T) = map sw_norm ws"
      "sw_start w' < sw_end (last ws)" "sw_end (last ws) \<le> length T" by auto
    note gap = gap_separates [OF ok]
    have w: "sw_start w < sw_end w" "fold_chars (slice (sw_start w) (sw_end w) T) = sw_norm w"
      "sw_norm w \<noteq> []" "\<forall>c \<in> set (sw_norm w). is_alnum c" using ok by auto
    have "slice (sw_start w) (sw_end (last ws)) T =
        slice (sw_start w) (sw_end w) T @ slice (sw_end w) (sw_start w') T @ slice (sw_start w') (sw_end (last ws)) T"
      using slice_append [of "sw_start w" "sw_end w" "sw_end (last ws)" T] slice_append [of "sw_end w" "sw_start w'" "sw_end (last ws)" T]
        w gap ih by simp
    then have "vwords (slice (sw_start w) (sw_end (last ws)) T) = sw_norm w # vwords (slice (sw_start w') (sw_end (last ws)) T)"
      using words_by_word_sep [OF w(3,4) gap(2)] gap(3) w(2) by (simp add: vwords_def no_word_def)
    with ih w gap Cons show ?thesis by auto
  qed
qed simp

lemma tokens_words_from: "spans_ok T i ws \<Longrightarrow> i \<le> length T \<Longrightarrow> vwords (drop i T) = map sw_norm ws"
proof (induction ws arbitrary: i)
  case Nil
  then show ?case by (simp add: vwords_def no_word_def words_by_none)
next
  case (Cons w ws)
  let ?r = "fold_chars (drop (sw_end w) T)"
  have ih: "vwords (drop (sw_end w) T) = map sw_norm ws" using Cons by simp
  have "drop i T = slice i (sw_start w) T @ slice (sw_start w) (sw_end w) T @ drop (sw_end w) T"
    using Cons.prems by (simp add: slice_def) (metis append_assoc append_take_drop_id drop_drop le_add_diff_inverse2 less_imp_le)
  then have "fold_chars (drop i T) = fold_chars (slice i (sw_start w) T) @ sw_norm w @ ?r"
    using Cons.prems by simp
  moreover have "?r = [] \<or> \<not> is_alnum (hd ?r)"
  proof (cases "sw_end w < length T")
    case True
    then have "drop (sw_end w) T = T ! sw_end w # drop (Suc (sw_end w)) T" by (simp add: Cons_nth_drop_Suc)
    then have "?r = to_lower (T ! sw_end w) # fold_chars (drop (Suc (sw_end w)) T)"
      using Cons.prems True fold_chars_append [of "[T ! sw_end w]"] by (simp add: fold_chars_one separator_def)
    then show ?thesis using Cons.prems True by (simp add: separator_def)
  qed simp
  ultimately have "vwords (drop i T) = sw_norm w # words_by is_alnum ?r"
    using Cons.prems words_by_split [of "sw_norm w" is_alnum ?r] by (simp add: vwords_def words_by_skip no_word_def)
  with ih show ?case by (simp add: vwords_def)
qed

lemma tokens_words: "map sw_norm (tokenizeWithSpans T) = vwords T"
  using tokens_words_from [OF tokenizeWithSpans_ok, of T] by simp

section \<open>Snapping\<close>

lemma join_append:
  "us \<noteq> [] \<Longrightarrow> vs \<noteq> [] \<Longrightarrow> js_join sep (us @ vs) = js_join sep us @ sep @ js_join sep vs"
  by (induction us) (auto simp: js_join_Cons)

lemma join_sublist: "sublist us ws \<Longrightarrow> str_includes (js_join sep ws) (js_join sep us)"
proof -
  assume "sublist us ws"
  then obtain ps ss where ws: "ws = ps @ us @ ss" by (auto simp: sublist_def)
  show ?thesis
  proof (cases "us = []")
    case False
    have "sublist (js_join sep us) (js_join sep (us @ ss))"
      using False join_append [of us ss sep] by (cases "ss = []") auto
    moreover have "sublist (js_join sep (us @ ss)) (js_join sep (ps @ us @ ss))"
      using False join_append [of ps "us @ ss" sep] sublist_append_leftI [of "js_join sep (us @ ss)" "js_join sep ps @ sep"]
      by (cases "ps = []") auto
    ultimately show ?thesis unfolding str_includes_def ws by (rule sublist_order.order.trans)
  qed (simp add: str_includes_def)
qed

text \<open>The loop keeps the first window of highest similarity.\<close>

lemma fold_better_snap:
  "fold better_snap xs best = Some b \<Longrightarrow>
   (b \<in> set xs \<or> best = Some b) \<and> (\<forall>x \<in> set xs. sn_similarity x \<le> sn_similarity b)
   \<and> (\<forall>c. best = Some c \<longrightarrow> sn_similarity c \<le> sn_similarity b)"
proof (induction xs arbitrary: best)
  case (Cons x xs)
  from Cons.IH [of "better_snap x best"] Cons.prems show ?case
    by (cases best) (force simp: better_snap_def split: if_splits)+
qed auto

lemma fold_better_snap_None: "fold better_snap xs best = None \<longleftrightarrow> xs = [] \<and> best = None"
  by (induction xs arbitrary: best) (auto simp: better_snap_def split: option.splits)

text \<open>The windows the source tries: \<open>len\<close> consecutive words, one word more or fewer than the phrase or as many.\<close>

definition snap_window :: "string list \<Rightarrow> source_word list \<Rightarrow> nat \<Rightarrow> nat \<Rightarrow> bool" where
  "snap_window pwords source len s \<longleftrightarrow>
     len \<in> {length pwords - 1, length pwords, length pwords + 1} \<and> 1 \<le> len \<and> s + len \<le> length source"

lemma snap_windows_iff:
  "sn \<in> set (snap_windows pwords source) \<longleftrightarrow>
   (\<exists>len s. snap_window pwords source len s \<and> sn = window_snap pwords source len s)"
proof -
  have "sn \<in> set (concat (map (\<lambda>len. if len < 1 then [] else map (window_snap pwords source len) [0..<length source + 1 - len]) ls))
      \<longleftrightarrow> (\<exists>len \<in> set ls. 1 \<le> len \<and> (\<exists>s. s < length source + 1 - len \<and> sn = window_snap pwords source len s))" for ls
    by (induction ls) (auto simp: image_iff)
  from this [of "[length pwords - 1, length pwords, length pwords + 1]"]
  have "sn \<in> set (snap_windows pwords source) \<longleftrightarrow>
      (\<exists>len \<in> {length pwords - 1, length pwords, length pwords + 1}. 1 \<le> len \<and>
         (\<exists>s. s < length source + 1 - len \<and> sn = window_snap pwords source len s))"
    unfolding snap_windows_def Let_def by (simp only: list.set)
  moreover have "s < length source + 1 - len \<longleftrightarrow> s + len \<le> length source" for s len by arith
  ultimately show ?thesis unfolding snap_window_def by blast
qed

lemma bestSnapSpan_window:
  assumes "bestSnapSpan pwords source = Some sn"
  obtains len s where "snap_window pwords source len s" "sn = window_snap pwords source len s"
proof -
  have "fold better_snap (snap_windows pwords source) None = Some sn"
    using assms by (auto simp: bestSnapSpan_def split: if_splits)
  from fold_better_snap [OF this] have "sn \<in> set (snap_windows pwords source)" by simp
  with snap_windows_iff that show thesis by metis
qed

lemma bestSnapSpan_best:
  assumes "snap_window pwords source len s" "pwords \<noteq> []"
  shows "\<exists>sn. bestSnapSpan pwords source = Some sn \<and> sn_similarity (window_snap pwords source len s) \<le> sn_similarity sn"
proof -
  have w: "window_snap pwords source len s \<in> set (snap_windows pwords source)" using assms snap_windows_iff by blast
  have "source \<noteq> []" using assms(1) by (auto simp: snap_window_def)
  then have b: "bestSnapSpan pwords source = fold better_snap (snap_windows pwords source) None"
    using assms(2) by (simp add: bestSnapSpan_def)
  obtain sn where sn: "fold better_snap (snap_windows pwords source) None = Some sn"
    using w fold_better_snap_None [of "snap_windows pwords source" None] by (cases "fold better_snap (snap_windows pwords source) None") auto
  from fold_better_snap [OF sn] w b sn show ?thesis by auto
qed

text \<open>A snapped phrase is a piece of the transcript, and its words are consecutive words of it.\<close>

lemma snapped_window:
  assumes "snap_window pwords (tokenizeWithSpans T) len s" "sn = window_snap pwords (tokenizeWithSpans T) len s"
  shows "sublist (slice (sn_start sn) (sn_end sn) T) T"
    and "vwords (slice (sn_start sn) (sn_end sn) T) = take len (drop s (vwords T))"
    and "slice (sn_start sn) (sn_end sn) T \<noteq> []"
proof -
  let ?src = "tokenizeWithSpans T"
  let ?w = "take len (drop s ?src)"
  have len: "1 \<le> len" "s + len \<le> length ?src" using assms(1) by (auto simp: snap_window_def)
  then have lw: "length ?w = len" "?w \<noteq> []" by auto
  have src: "?src = take s ?src @ ?w @ drop len (drop s ?src)" by (metis append_take_drop_id)
  then obtain j where ok: "spans_ok T j (?w @ drop len (drop s ?src))"
    using tokenizeWithSpans_ok [of T] spans_ok_suffix by metis
  have ends: "sn_start sn = sw_start (hd ?w)" "sn_end sn = sw_end (last ?w)"
    using assms(2) lw by (simp_all add: window_snap_def Let_def hd_conv_nth last_conv_nth del: take_drop drop_take)
  note ww = window_words [OF ok lw(2)]
  show "vwords (slice (sn_start sn) (sn_end sn) T) = take len (drop s (vwords T))"
    using ww ends by (simp add: tokens_words [symmetric] take_map drop_map)
  show "sublist (slice (sn_start sn) (sn_end sn) T) T"
    unfolding slice_def by (metis append_take_drop_id sublist_appendI)
  show "slice (sn_start sn) (sn_end sn) T \<noteq> []"
    using ww ends by (simp add: slice_def)
qed

lemma judge_Snapped:
  assumes "judge_phrase T phrase = Snapped s"
  shows "sublist s T" "sublist (vwords s) (vwords T)" "s \<noteq> []"
proof -
  obtain sn where sn: "bestSnapSpan (normalizeWords phrase) (tokenizeWithSpans T) = Some sn"
    "s = slice (sn_start sn) (sn_end sn) T"
    using assms by (auto simp: judge_phrase_def Let_def split: if_splits option.splits)
  obtain len k where w: "snap_window (normalizeWords phrase) (tokenizeWithSpans T) len k"
    "sn = window_snap (normalizeWords phrase) (tokenizeWithSpans T) len k"
    by (rule bestSnapSpan_window [OF sn(1)])
  note sw = snapped_window [OF w, folded sn(2)]
  show "sublist s T" "s \<noteq> []" by (rule sw)+
  show "sublist (vwords s) (vwords T)" unfolding sw(2) by (metis append_take_drop_id sublist_appendI)
qed

text \<open>Every phrase the gate keeps passes the exact check again.\<close>

definition verbatim_in :: "string \<Rightarrow> string \<Rightarrow> bool" where
  "verbatim_in T phrase \<longleftrightarrow>
     normalizeForVerbatim phrase = [] \<or> str_includes (normalizeForVerbatim T) (normalizeForVerbatim phrase)"

lemma judge_Exact: "judge_phrase T phrase = Exact \<longleftrightarrow> verbatim_in T phrase"
  by (auto simp: judge_phrase_def verbatim_in_def Let_def split: option.splits)

lemma judge_Snapped_verbatim: "judge_phrase T phrase = Snapped s \<Longrightarrow> verbatim_in T s"
  using judge_Snapped(2) join_sublist by (auto simp: verbatim_in_def normalizeForVerbatim_words)

section \<open>The gates as wholes\<close>

definition kept_phrase :: "string \<Rightarrow> string \<Rightarrow> string list" where
  "kept_phrase T phrase = (case judge_phrase T phrase of Exact \<Rightarrow> [phrase] | Snapped s \<Rightarrow> [s] | Dropped \<Rightarrow> [])"

definition verdict_count :: "(phrase_verdict \<Rightarrow> bool) \<Rightarrow> string \<Rightarrow> string list \<Rightarrow> nat" where
  "verdict_count P T phrases = length (filter (\<lambda>p. P (judge_phrase T p)) phrases)"

lemma fold_verbatim_step:
  "fold (verbatim_step T) phrases r =
     \<lparr>vr_phrases = vr_phrases r @ concat (map (kept_phrase T) phrases),
      vr_exactCount = vr_exactCount r + verdict_count (\<lambda>v. v = Exact) T phrases,
      vr_snappedCount = vr_snappedCount r + verdict_count (\<lambda>v. \<exists>s. v = Snapped s) T phrases,
      vr_droppedCount = vr_droppedCount r + verdict_count (\<lambda>v. v = Dropped) T phrases\<rparr>"
  by (induction phrases arbitrary: r)
     (auto simp: verbatim_step_def kept_phrase_def verdict_count_def split: phrase_verdict.splits)

lemma verbatimGate_eq:
  "verbatimGate phrases T =
     \<lparr>vr_phrases = concat (map (kept_phrase T) phrases),
      vr_exactCount = verdict_count (\<lambda>v. v = Exact) T phrases,
      vr_snappedCount = verdict_count (\<lambda>v. \<exists>s. v = Snapped s) T phrases,
      vr_droppedCount = verdict_count (\<lambda>v. v = Dropped) T phrases\<rparr>"
  by (simp add: verbatimGate_def fold_verbatim_step)

lemma kept_phrase_verbatim: "list_all (verbatim_in T) (kept_phrase T phrase)"
  using judge_Exact judge_Snapped_verbatim by (auto simp: kept_phrase_def split: phrase_verdict.split)

lemma kept_verbatim: "list_all (verbatim_in T) (concat (map (kept_phrase T) phrases))"
  using kept_phrase_verbatim by (induction phrases) (auto simp: list_all_append)

lemma verbatimGate_exact:
  assumes "list_all (verbatim_in T) phrases"
  shows "verbatimGate phrases T =
    \<lparr>vr_phrases = phrases, vr_exactCount = length phrases, vr_snappedCount = 0, vr_droppedCount = 0\<rparr>"
proof -
  have "list_all (\<lambda>p. judge_phrase T p = Exact) phrases" using assms judge_Exact by (simp add: list_all_iff)
  then have "concat (map (kept_phrase T) phrases) = phrases" "verdict_count (\<lambda>v. v = Exact) T phrases = length phrases"
    "verdict_count (\<lambda>v. \<exists>s. v = Snapped s) T phrases = 0" "verdict_count (\<lambda>v. v = Dropped) T phrases = 0"
    by (induction phrases) (auto simp: kept_phrase_def verdict_count_def)
  then show ?thesis by (simp add: verbatimGate_eq)
qed

lemma verdict_counts:
  "verdict_count (\<lambda>v. v = Exact) T phrases + verdict_count (\<lambda>v. \<exists>s. v = Snapped s) T phrases
     + verdict_count (\<lambda>v. v = Dropped) T phrases = length phrases"
  "length (concat (map (kept_phrase T) phrases)) =
     verdict_count (\<lambda>v. v = Exact) T phrases + verdict_count (\<lambda>v. \<exists>s. v = Snapped s) T phrases"
proof (induction phrases)
  case (Cons p phrases)
  {
    case 1
    with Cons show ?case by (cases "judge_phrase T p") (auto simp: verdict_count_def)
  next
    case 2
    with Cons show ?case by (cases "judge_phrase T p") (auto simp: verdict_count_def kept_phrase_def)
  }
qed (simp_all add: verdict_count_def)

lemma tokenGate_eq:
  "tokenGate phrases = (filter (\<lambda>p. \<not> rx_test TOKEN_PATTERN p) phrases, length (filter (rx_test TOKEN_PATTERN) phrases))"
proof -
  have "fold (\<lambda>phrase (kept, n). if rx_test TOKEN_PATTERN phrase then (kept, n + 1) else (kept @ [phrase], n)) phrases (k, m)
      = (k @ filter (\<lambda>p. \<not> rx_test TOKEN_PATTERN p) phrases, m + length (filter (rx_test TOKEN_PATTERN) phrases))" for k m
    by (induction phrases arbitrary: k m) auto
  then show ?thesis by (simp add: tokenGate_def)
qed

lemma fold_merge_counts:
  "counts_ok merged \<Longrightarrow>
   counts_ok (fold (\<lambda>phrase. merge_counts (rs_counts (residualScan phrase [] deny))) phrases merged)"
proof (induction phrases arbitrary: merged)
  case (Cons p ps)
  have "list_all (\<lambda>(category, n). category \<in> set RESIDUAL_SCAN_CATEGORIES) (rs_counts (residualScan p [] deny))"
    using residualScan_counts_ok [of p "[]" deny] by (auto simp: counts_ok_def list_all_iff)
  then have "counts_ok (merge_counts (rs_counts (residualScan p [] deny)) merged)"
    unfolding merge_counts_def by (rule fold_add_count_ok [OF Cons.prems])
  with Cons.IH show ?case by simp
qed simp

lemma merge_counts_Nil:
  "merge_counts (rs_counts (residualScan p [] deny)) merged = [] \<longleftrightarrow> merged = [] \<and> rs_counts (residualScan p [] deny) = []"
proof -
  have "list_all (\<lambda>(c, n). n = 0) counts \<longleftrightarrow> counts = []" if "counts_ok counts" for counts
    using that by (cases counts) (auto simp: counts_ok_def)
  with residualScan_counts_ok show ?thesis unfolding merge_counts_def fold_add_count_Nil by blast
qed

lemma fold_merge_counts_Nil:
  "fold (\<lambda>phrase. merge_counts (rs_counts (residualScan phrase [] deny))) phrases merged = [] \<longleftrightarrow>
   merged = [] \<and> list_all (\<lambda>p. rs_counts (residualScan p [] deny) = []) phrases"
  by (induction phrases arbitrary: merged) (auto simp: merge_counts_Nil)

section \<open>Properties\<close>

text \<open>the verdict on a phrase.  It is exact when its normalised words occur in the transcript; otherwise it
  is replaced by the text of a window of neighbouring length whose word LCS with the phrase is at least
  seven tenths, or dropped when there is no such window.  The LCS is the length of a longest common
  subsequence.\<close>

lemma verbatim_verdict:
  "case judge_phrase T phrase of
     Exact \<Rightarrow> verbatim_in T phrase
   | Snapped s \<Rightarrow> \<not> verbatim_in T phrase \<and> sublist s T \<and>
       (\<exists>len k. snap_window (normalizeWords phrase) (tokenizeWithSpans T) len k
          \<and> vwords s = take len (drop k (vwords T))
          \<and> 7 * max (length (normalizeWords phrase)) len
              \<le> 10 * lcs_len (normalizeWords phrase) (take len (drop k (vwords T))))
   | Dropped \<Rightarrow> \<not> verbatim_in T phrase \<and>
       \<not> (\<exists>len k. snap_window (normalizeWords phrase) (tokenizeWithSpans T) len k \<and> normalizeWords phrase \<noteq> []
          \<and> 7 * max (length (normalizeWords phrase)) len
              \<le> 10 * lcs_len (normalizeWords phrase) (take len (drop k (vwords T))))"
proof -
  let ?p = "normalizeWords phrase" and ?src = "tokenizeWithSpans T"
  have sim: "sn_similarity (window_snap ?p ?src len k) \<ge> SNAP_MIN_SIMILARITY \<longleftrightarrow>
      7 * max (length ?p) len \<le> 10 * lcs_len ?p (take len (drop k (vwords T)))"
    if "snap_window ?p ?src len k" for len k
  proof -
    have "0 < max (length ?p) len" using that by (auto simp: snap_window_def)
    then have "SNAP_MIN_SIMILARITY \<le> sn_similarity (window_snap ?p ?src len k) \<longleftrightarrow>
        (7 * of_nat (max (length ?p) len) :: rat) \<le> 10 * of_nat (wordLcs ?p (map sw_norm (take len (drop k ?src))))"
      by (simp add: window_snap_def Let_def SNAP_MIN_SIMILARITY_def field_simps)
    also have "\<dots> \<longleftrightarrow> of_nat (7 * max (length ?p) len) \<le> (of_nat (10 * wordLcs ?p (map sw_norm (take len (drop k ?src)))) :: rat)"
      by simp
    finally show ?thesis
      unfolding of_nat_le_iff wordLcs_lcs_len by (simp add: tokens_words [symmetric] take_map drop_map)
  qed
  show ?thesis
  proof (cases "judge_phrase T phrase")
    case Exact
    then have "verbatim_in T phrase" using judge_Exact by blast
    with Exact show ?thesis by simp
  next
    case (Snapped s)
    then have nv: "\<not> verbatim_in T phrase" using judge_Exact by (metis phrase_verdict.distinct(1))
    obtain sn where sn: "bestSnapSpan ?p ?src = Some sn" "SNAP_MIN_SIMILARITY \<le> sn_similarity sn"
        "s = slice (sn_start sn) (sn_end sn) T"
      using Snapped by (auto simp: judge_phrase_def Let_def split: if_splits option.splits)
    obtain len k where w: "snap_window ?p ?src len k" "sn = window_snap ?p ?src len k"
      by (rule bestSnapSpan_window [OF sn(1)])
    note sw = snapped_window [OF w, folded sn(3)]
    have "7 * max (length ?p) len \<le> 10 * lcs_len ?p (take len (drop k (vwords T)))" using sim [OF w(1)] sn(2) w(2) by simp
    then show ?thesis unfolding Snapped phrase_verdict.case using nv sw(1,2) w(1) by blast
  next
    case Dropped
    then have nv: "\<not> verbatim_in T phrase" using judge_Exact by (metis phrase_verdict.distinct(3))
    have False if h: "snap_window ?p ?src len k" "?p \<noteq> []"
        "7 * max (length ?p) len \<le> 10 * lcs_len ?p (take len (drop k (vwords T)))" for len k
    proof -
      obtain sn where "bestSnapSpan ?p ?src = Some sn" "sn_similarity (window_snap ?p ?src len k) \<le> sn_similarity sn"
        using bestSnapSpan_best [OF h(1,2)] by blast
      with Dropped sim [OF h(1)] h(3) show False
        by (auto simp: judge_phrase_def Let_def split: if_splits)
    qed
    with nv show ?thesis unfolding Dropped phrase_verdict.case by blast
  qed
qed

text \<open>A kept phrase is one the model wrote, or the transcript's own text over a run of whole words.\<close>

lemma kept_source:
  "list_all (\<lambda>p. p \<in> set phrases \<or> sublist p T \<and> sublist (vwords p) (vwords T)) (concat (map (kept_phrase T) phrases))"
proof -
  have "p = q \<or> sublist p T \<and> sublist (vwords p) (vwords T)" if "p \<in> set (kept_phrase T q)" for p q
  proof (cases "judge_phrase T q")
    case (Snapped s)
    then obtain len k where "sublist s T" "vwords s = take len (drop k (vwords T))" using verbatim_verdict [of T q] by auto
    moreover have "sublist (take len (drop k (vwords T))) (vwords T)" by (meson sublist_drop sublist_order.order_trans sublist_take)
    ultimately show ?thesis using that Snapped by (simp add: kept_phrase_def)
  qed (use that in \<open>simp_all add: kept_phrase_def\<close>)
  then show ?thesis by (fastforce simp: list_all_iff)
qed

text \<open>C25: the verbatim gate is sound and idempotent.  The normalised form of every phrase it keeps (its words joined by single spaces) is a
  substring of the normalised transcript.  Each is either one of the phrases the model gave, kept as written, whose outer words may then be parts of transcript words;
  or a snapped one, which is a substring of the transcript itself and whose words are consecutive whole words of it.  The counters account for every
  phrase, and the gate run again on what it kept changes nothing.\<close>

theorem verbatim_gate_sound:
  "let r = verbatimGate phrases redactedText; kept = vr_phrases r in
     list_all (\<lambda>p. sublist (js_join '' '' (vwords p)) (js_join '' '' (vwords redactedText))) kept
     \<and> list_all (\<lambda>p. p \<in> set phrases \<or> sublist p redactedText \<and> sublist (vwords p) (vwords redactedText)) kept
     \<and> vr_exactCount r + vr_snappedCount r + vr_droppedCount r = length phrases
     \<and> length kept = vr_exactCount r + vr_snappedCount r
     \<and> verbatimGate kept redactedText =
         \<lparr>vr_phrases = kept, vr_exactCount = length kept, vr_snappedCount = 0, vr_droppedCount = 0\<rparr>"
proof -
  have "verbatim_in T p \<Longrightarrow> sublist (js_join '' '' (vwords p)) (js_join '' '' (vwords T))" for T p
    by (auto simp: verbatim_in_def str_includes_def normalizeForVerbatim_words)
  with kept_verbatim have "list_all (\<lambda>p. sublist (js_join '' '' (vwords p)) (js_join '' '' (vwords redactedText)))
      (concat (map (kept_phrase redactedText) phrases))"
    by (metis (mono_tags, lifting) list.pred_mono_strong)
  with kept_source [of phrases redactedText] verdict_counts [of redactedText phrases] verbatimGate_exact [OF kept_verbatim, of redactedText phrases] show ?thesis
    by (simp add: verbatimGate_eq [of phrases] Let_def)
qed

text \<open>C38: the dynamic programme of the snap (of whose table the model keeps the current row) computes the length of a longest common subsequence of the two word lists, for all
  inputs.\<close>

theorem wordLcs_longest:
  "wordLcs a b = Max (length ` {zs. subseq zs a \<and> subseq zs b})"
  by (simp add: wordLcs_lcs_len lcs_len_def common_def)

text \<open>no phrase with a redaction token survives the token gate, every other phrase does, in order, and the
  count is the number of phrases dropped.\<close>

lemma token_gate_exact:
  "tokenGate phrases = (kept, dropped) \<longleftrightarrow>
     kept = filter (\<lambda>p. matchAll TOKEN_PATTERN p = []) phrases \<and> dropped + length kept = length phrases"
proof -
  have "length (filter (\<lambda>p. \<not> rx_test TOKEN_PATTERN p) phrases) + length (filter (rx_test TOKEN_PATTERN) phrases) = length phrases"
    using sum_length_filter_compl [of "rx_test TOKEN_PATTERN" phrases] by simp
  then show ?thesis unfolding tokenGate_eq by (auto simp: rx_test_def)
qed

text \<open>Shared by the property and the scan stage.\<close>

lemma phrase_scan_correct:
  "case scanPhrasesForResidual phrases denyTerms of
     None \<Rightarrow> list_all (\<lambda>p. rs_hits (residualScan p [] denyTerms) = []) phrases
   | Some counts \<Rightarrow> \<not> list_all (\<lambda>p. rs_hits (residualScan p [] denyTerms) = []) phrases
       \<and> pii_scan_failure_ok (ResidualPii counts) \<and> list_all (\<lambda>(_, n). 0 < n) counts"
proof -
  have hits: "rs_hits (residualScan p [] denyTerms) = [] \<longleftrightarrow> rs_counts (residualScan p [] denyTerms) = []" for p
  proof -
    have "concat (map (\<lambda>(c, n). replicate n c) counts) = [] \<longleftrightarrow> counts = []" if "counts_ok counts" for counts
      using that by (cases counts) (auto simp: counts_ok_def)
    from this [OF residualScan_counts_ok [of p "[]" denyTerms]] show ?thesis by (simp add: residualScan_def Let_def)
  qed
  let ?m = "fold (\<lambda>phrase. merge_counts (rs_counts (residualScan phrase [] denyTerms))) phrases []"
  have ok: "counts_ok ?m" by (rule fold_merge_counts) (simp add: counts_ok_def)
  show ?thesis
  proof (cases "?m = []")
    case True
    with fold_merge_counts_Nil show ?thesis by (auto simp: scanPhrasesForResidual_def hits)
  next
    case False
    then have "\<not> list_all (\<lambda>p. rs_hits (residualScan p [] denyTerms) = []) phrases"
      using fold_merge_counts_Nil [of denyTerms phrases "[]"] by (simp add: hits)
    moreover have "pii_scan_failure_ok (ResidualPii ?m)" "list_all (\<lambda>(_, n). 0 < n) ?m"
      using ok False by (auto simp: counts_ok_def pii_scan_failure_ok_def list_all_iff)
    ultimately show ?thesis using False by (simp add: scanPhrasesForResidual_def Let_def)
  qed
qed

text \<open>the phrase scan reports a hit exactly when a phrase has one, and the counts it reports are always
  accepted as a PII failure verdict: non-empty, with known categories.\<close>

lemma phrase_scan_exact:
  "case scanPhrasesForResidual phrases denyTerms of
     None \<Rightarrow> list_all (\<lambda>p. rs_hits (residualScan p [] denyTerms) = []) phrases
   | Some counts \<Rightarrow> \<not> list_all (\<lambda>p. rs_hits (residualScan p [] denyTerms) = []) phrases
       \<and> pii_scan_failure_ok (ResidualPii counts) \<and> list_all (\<lambda>(_, n). 0 < n) counts"
  by (rule phrase_scan_correct)

text \<open>the urgency rule only ever raises the model's rating, by at most one level for an ambiguous keyword,
  and reports a trigger whenever it changes it.\<close>

lemma urgency_never_lowered:
  "case emergencyRule record redactedText of (urgency, triggers) \<Rightarrow>
     indexOf URGENCY_LADDER (xr_urgency record) \<le> indexOf URGENCY_LADDER urgency
     \<and> (if triggers = [] then urgency = xr_urgency record
        else if triggers = [ambiguous_upgrade]
          then indexOf URGENCY_LADDER urgency \<le> indexOf URGENCY_LADDER (xr_urgency record) + 1
        else urgency = UR_emergency)"
proof -
  have indices: "URGENCY_LADDER = [UR_routine, UR_urgent, UR_emergency]" by (simp add: URGENCY_LADDER_def URGENCY_def)
  have ladder: "indexOf URGENCY_LADDER u \<le> indexOf URGENCY_LADDER UR_emergency"
    "indexOf URGENCY_LADDER u \<le> indexOf URGENCY_LADDER (upgradeOneLevel u)"
    "indexOf URGENCY_LADDER (upgradeOneLevel u) \<le> indexOf URGENCY_LADDER u + 1" for u
    by (cases u; simp add: indices upgradeOneLevel_def URGENCY_LADDER_def URGENCY_def Let_def min_def
          indexOf_def)+
  show ?thesis
    using ladder [of "xr_urgency record"] by (auto simp: emergencyRule_def Let_def)
qed

text \<open>a kept phrase need not be a substring of the transcript.  An exact match is decided after
  normalisation and the phrase is kept as the model wrote it.\<close>

lemma exact_phrase_not_substring:
  "vr_phrases (verbatimGate [''HELLO, there''] ''hello there'') = [''HELLO, there'']
   \<and> \<not> sublist ''HELLO, there'' ''hello there''"
  by code_simp

text \<open>the exact match is on characters, so it may begin and end inside words of the transcript.\<close>

lemma gate_keeps_word_fragments:
  "vr_phrases (verbatimGate [''ater heat''] ''the water heater is broken'') = [''ater heat'']"
  by code_simp

text \<open>snapping can cut a redaction token.  Brackets separate words, so a window may start inside a token;
  what is left of the token no longer has its opening bracket and passes the token gate.\<close>

lemma snapped_token_fragment_survives:
  "verbatimGate [''name 1 now please''] ''call [NAME_1] now'' =
     \<lparr>vr_phrases = [''NAME_1] now''], vr_exactCount = 0, vr_snappedCount = 1, vr_droppedCount = 0\<rparr>
   \<and> tokenGate [''NAME_1] now''] = ([''NAME_1] now''], 0)"
  by code_simp

end
