(* ===== verification/Redaction.thy ===== *)
theory Redaction
  imports Residual_Scan
begin

text \<open>
  The redaction core under \<^verbatim>\<open>src/src/redaction\<close>: detections and tokens (\<^verbatim>\<open>types.ts\<close>), span merging
  (\<^verbatim>\<open>spans.ts\<close>), tokenization (\<^verbatim>\<open>tokenize.ts\<close>), risk scoring (\<^verbatim>\<open>risk.ts\<close>, \<^verbatim>\<open>risk-reasons.ts\<close>), the mirrors of the
  residual scan (\<^verbatim>\<open>mirror-finders.ts\<close>), the repair loop (\<^verbatim>\<open>repair.ts\<close>) and their composition (\<^verbatim>\<open>compose.ts\<close>).
  Offsets are character positions; weights are exact rationals.  A constant that \<^verbatim>\<open>mirror-finders.ts\<close> repeats
  from \<^verbatim>\<open>residual-scan.ts\<close> word for word is the same definition here.
\<close>

section \<open>Detections\<close>

datatype entity_type =
  ET_name | ET_location | ET_organization | ET_phone | ET_email | ET_street_address | ET_cross_street
  | ET_credit_card | ET_government_id | ET_number | ET_deny_list | ET_other

primrec entity_type_name :: "entity_type \<Rightarrow> string" where
  "entity_type_name ET_name = ''name''"
| "entity_type_name ET_location = ''location''"
| "entity_type_name ET_organization = ''organization''"
| "entity_type_name ET_phone = ''phone''"
| "entity_type_name ET_email = ''email''"
| "entity_type_name ET_street_address = ''street_address''"
| "entity_type_name ET_cross_street = ''cross_street''"
| "entity_type_name ET_credit_card = ''credit_card''"
| "entity_type_name ET_government_id = ''government_id''"
| "entity_type_name ET_number = ''number''"
| "entity_type_name ET_deny_list = ''deny_list''"
| "entity_type_name ET_other = ''other''"

datatype detector_id = DET_ner | DET_regex | DET_deny_list

record detection =
  d_start :: nat
  d_end :: nat
  d_entityType :: entity_type
  d_detector :: detector_id
  d_confidence :: "rat option"

datatype risk_reason =
  RR_ner_low_confidence | RR_detector_disagreement | RR_deny_list_hit | RR_high_entity_density
  | RR_ner_offset_alignment_failed | RR_transcript_chunking_truncated | RR_address_like_ambiguous
  | RR_short_transcript | RR_residual_scan_hit

record detector_result =
  dr_detections :: "detection list"
  dr_riskSignals :: "risk_reason list"

definition to_upper :: "char \<Rightarrow> char" where
  "to_upper c = (if is_lower c then char_of (char_code c - 32) else c)"

definition tokenLabel :: "entity_type \<Rightarrow> nat \<Rightarrow> string" where
  "tokenLabel entityType n = ''['' @ map to_upper (entity_type_name entityType) @ ''_'' @ uuid_text n @ '']''"

section \<open>Merging\<close>

primrec DETECTOR_PRIORITY :: "detector_id \<Rightarrow> nat" where
  "DETECTOR_PRIORITY DET_deny_list = 3"
| "DETECTOR_PRIORITY DET_regex = 2"
| "DETECTOR_PRIORITY DET_ner = 1"

definition minConfidence :: "detection \<Rightarrow> detection \<Rightarrow> rat option" where
  "minConfidence a b =
     (case (d_confidence a, d_confidence b) of
        (None, c) \<Rightarrow> c | (c, None) \<Rightarrow> c | (Some x, Some y) \<Rightarrow> Some (min x y))"

definition mergeInto :: "detection \<Rightarrow> detection \<Rightarrow> detection" where
  "mergeInto target source =
     (let takeSource = (DETECTOR_PRIORITY (d_detector source) > DETECTOR_PRIORITY (d_detector target)
            \<or> DETECTOR_PRIORITY (d_detector source) = DETECTOR_PRIORITY (d_detector target)
              \<and> int (d_end source) - int (d_start source) > int (d_end target) - int (d_start target));
          label = (if takeSource then source else target)
      in \<lparr>d_start = min (d_start target) (d_start source), d_end = max (d_end target) (d_end source),
          d_entityType = d_entityType label, d_detector = d_detector label,
          d_confidence = minConfidence target source\<rparr>)"

text \<open>The comparator \<^verbatim>\<open>a.start - b.start || b.end - a.end\<close> as two stable sorts.\<close>

definition sort_detections :: "detection list \<Rightarrow> detection list" where
  "sort_detections ds = sort_key d_start (sort_key (\<lambda>d. - int (d_end d)) ds)"

definition merge_overlaps :: "detection \<Rightarrow> detection \<Rightarrow> bool" where
  "merge_overlaps prev next \<longleftrightarrow>
     d_start next < d_end prev \<or> d_start next = d_end prev \<and> d_entityType next = d_entityType prev"

text \<open>The spans built so far, the last one first, with the disagreement flag.\<close>

fun merge_step :: "detection \<Rightarrow> detection list \<times> bool \<Rightarrow> detection list \<times> bool" where
  "merge_step next ([], disagreement) = ([next], disagreement)"
| "merge_step next (prev # spans, disagreement) =
     (if merge_overlaps prev next
      then (mergeInto prev next # spans, disagreement \<or> d_entityType next \<noteq> d_entityType prev)
      else (next # prev # spans, disagreement))"

definition mergeDetections :: "detection list \<Rightarrow> detection list \<times> bool" where
  "mergeDetections detections =
     (let (spans, disagreement) = fold merge_step (sort_detections detections) ([], False)
      in (rev spans, disagreement))"

section \<open>Tokenization\<close>

definition normalizeForToken :: "string \<Rightarrow> string" where
  "normalizeForToken surface = replace_all (Chr (\<lambda>c. \<not> is_alnum c)) [] (lowercase surface)"

record finding =
  fn_entityType :: entity_type
  fn_tokenRef :: string
  fn_normalizedValue :: string

record tokenized_result =
  tz_redactedText :: string
  tz_vaultEntries :: "(string \<times> string) list"
  tz_findings :: "finding list"

record token_state =
  ts_counters :: "entity_type \<Rightarrow> nat"
  ts_tokenByKey :: "(string \<times> string) list"
  ts_vaultEntries :: "(string \<times> string) list"
  ts_findings :: "finding list"
  ts_tokenFor :: "string list"

definition token_key :: "string \<Rightarrow> detection \<Rightarrow> string" where
  "token_key txt sp =
     entity_type_name (d_entityType sp) @ '':'' @ normalizeForToken (slice (d_start sp) (d_end sp) txt)"

definition token_step :: "string \<Rightarrow> detection \<Rightarrow> token_state \<Rightarrow> token_state" where
  "token_step txt sp st =
     (let surface = slice (d_start sp) (d_end sp) txt; key = token_key txt sp in
      case map_of (ts_tokenByKey st) key of
        Some token \<Rightarrow> st\<lparr>ts_tokenFor := ts_tokenFor st @ [token]\<rparr>
      | None \<Rightarrow>
          let n = ts_counters st (d_entityType sp) + 1; token = tokenLabel (d_entityType sp) n in
          \<lparr>ts_counters = (ts_counters st)(d_entityType sp := n),
           ts_tokenByKey = obj_set key token (ts_tokenByKey st),
           ts_vaultEntries = ts_vaultEntries st @ [(token, surface)],
           ts_findings = ts_findings st @ [\<lparr>fn_entityType = d_entityType sp, fn_tokenRef = token,
             fn_normalizedValue = normalizeForToken surface\<rparr>],
           ts_tokenFor = ts_tokenFor st @ [token]\<rparr>)"

definition token_states :: "string \<Rightarrow> detection list \<Rightarrow> token_state" where
  "token_states txt ordered =
     fold (token_step txt) ordered
       \<lparr>ts_counters = (\<lambda>_. 0), ts_tokenByKey = [], ts_vaultEntries = [], ts_findings = [], ts_tokenFor = []\<rparr>"

text \<open>The replacement runs from the last span to the first.\<close>

definition replace_span :: "detection \<times> string \<Rightarrow> string \<Rightarrow> string" where
  "replace_span st t = (case st of (sp, token) \<Rightarrow> take (d_start sp) t @ token @ drop (d_end sp) t)"

definition tokenize :: "string \<Rightarrow> detection list \<Rightarrow> tokenized_result" where
  "tokenize txt spans =
     (let ordered = sort_key d_start spans; st = token_states txt ordered in
      \<lparr>tz_redactedText = foldr replace_span (zip ordered (ts_tokenFor st)) txt,
       tz_vaultEntries = ts_vaultEntries st, tz_findings = ts_findings st\<rparr>)"

section \<open>Risk\<close>

record risk_entry =
  re_weight :: rat
  re_forcedHold :: bool
  re_safe_after_redaction :: bool

definition RISK_REASONS :: "risk_reason \<Rightarrow> risk_entry" where
  "RISK_REASONS r =
     (case r of
        RR_ner_low_confidence \<Rightarrow> \<lparr>re_weight = 15 / 100, re_forcedHold = False, re_safe_after_redaction = False\<rparr>
      | RR_detector_disagreement \<Rightarrow> \<lparr>re_weight = 1 / 10, re_forcedHold = False, re_safe_after_redaction = True\<rparr>
      | RR_deny_list_hit \<Rightarrow> \<lparr>re_weight = 1 / 10, re_forcedHold = False, re_safe_after_redaction = True\<rparr>
      | RR_high_entity_density \<Rightarrow> \<lparr>re_weight = 1 / 10, re_forcedHold = False, re_safe_after_redaction = True\<rparr>
      | RR_ner_offset_alignment_failed \<Rightarrow> \<lparr>re_weight = 1, re_forcedHold = True, re_safe_after_redaction = False\<rparr>
      | RR_transcript_chunking_truncated \<Rightarrow> \<lparr>re_weight = 3 / 10, re_forcedHold = False, re_safe_after_redaction = False\<rparr>
      | RR_address_like_ambiguous \<Rightarrow> \<lparr>re_weight = 2 / 10, re_forcedHold = False, re_safe_after_redaction = False\<rparr>
      | RR_short_transcript \<Rightarrow> \<lparr>re_weight = 1 / 10, re_forcedHold = False, re_safe_after_redaction = False\<rparr>
      | RR_residual_scan_hit \<Rightarrow> \<lparr>re_weight = 1, re_forcedHold = True, re_safe_after_redaction = False\<rparr>)"

primrec risk_reason_name :: "risk_reason \<Rightarrow> string" where
  "risk_reason_name RR_ner_low_confidence = ''ner_low_confidence''"
| "risk_reason_name RR_detector_disagreement = ''detector_disagreement''"
| "risk_reason_name RR_deny_list_hit = ''deny_list_hit''"
| "risk_reason_name RR_high_entity_density = ''high_entity_density''"
| "risk_reason_name RR_ner_offset_alignment_failed = ''ner_offset_alignment_failed''"
| "risk_reason_name RR_transcript_chunking_truncated = ''transcript_chunking_truncated''"
| "risk_reason_name RR_address_like_ambiguous = ''address_like_ambiguous''"
| "risk_reason_name RR_short_transcript = ''short_transcript''"
| "risk_reason_name RR_residual_scan_hit = ''residual_scan_hit''"

record risk_result =
  rk_score :: rat
  rk_reasons :: "risk_reason list"
  rk_forcedHold :: bool
  rk_outputSafe :: bool

text \<open>\<^verbatim>\<open>[...new Set(xs)]\<close>: the first occurrences, in order.\<close>

definition js_unique :: "'a list \<Rightarrow> 'a list" where
  "js_unique xs = rev (remdups (rev xs))"

definition scoreRisk :: "risk_reason list \<Rightarrow> risk_result" where
  "scoreRisk signals =
     (let reasons = js_unique signals in
      \<lparr>rk_score = min 1 (sum_list (map (\<lambda>r. re_weight (RISK_REASONS r)) reasons)), rk_reasons = reasons,
       rk_forcedHold = list_ex (\<lambda>r. re_forcedHold (RISK_REASONS r)) reasons,
       rk_outputSafe = list_all (\<lambda>r. re_safe_after_redaction (RISK_REASONS r)) reasons\<rparr>)"

definition shouldHoldForRisk :: "risk_result \<Rightarrow> rat \<Rightarrow> bool" where
  "shouldHoldForRisk result threshold \<longleftrightarrow> rk_forcedHold result \<or> rk_score result \<ge> threshold"

definition DENSITY_PER_1000_CHARS :: rat where "DENSITY_PER_1000_CHARS = 15"
definition MIN_SPANS_FOR_DENSITY :: nat where "MIN_SPANS_FOR_DENSITY = 5"
definition SHORT_TRANSCRIPT_CHARS :: nat where "SHORT_TRANSCRIPT_CHARS = 80"

definition deriveSpanSignals :: "string \<Rightarrow> detection list \<Rightarrow> bool \<Rightarrow> risk_reason list" where
  "deriveSpanSignals txt spans disagreement =
     (let density = of_nat (length spans) / of_nat (max 1 (length txt)) * (1000 :: rat) in
      (if length txt < SHORT_TRANSCRIPT_CHARS then [RR_short_transcript] else [])
      @ (if disagreement then [RR_detector_disagreement] else [])
      @ (if list_ex (\<lambda>s. d_entityType s = ET_deny_list) spans then [RR_deny_list_hit] else [])
      @ (if length spans \<ge> MIN_SPANS_FOR_DENSITY \<and> density > DENSITY_PER_1000_CHARS then [RR_high_entity_density] else []))"

section \<open>Mirrors of the residual scan\<close>

type_synonym mirror_span = "nat \<times> nat"

text \<open>The kept characters of a text, lower case, each with the position it came from.\<close>

definition aggressiveShadow :: "string \<Rightarrow> (char \<times> nat) list" where
  "aggressiveShadow txt = filter (\<lambda>(c, i). is_alnum c) (zip (map to_lower txt) [0..<length txt])"

definition shadow_chars :: "(char \<times> nat) list \<Rightarrow> string" where
  "shadow_chars shadow = map fst shadow"

definition shadowSpan :: "(char \<times> nat) list \<Rightarrow> nat \<Rightarrow> nat \<Rightarrow> mirror_span" where
  "shadowSpan shadow start len = (snd (shadow ! start), snd (shadow ! (start + len - 1)) + 1)"

definition wordTokensWithOffsets :: "string \<Rightarrow> (string \<times> nat \<times> nat) list" where
  "wordTokensWithOffsets txt = map (\<lambda>(a, b). (lowercase (slice a b txt), a, b)) (matchAll (Plus (Chr is_alnum_i)) txt)"

definition findLongDigitRuns :: "string \<Rightarrow> mirror_span list" where
  "findLongDigitRuns txt =
     (let shadow = aggressiveShadow txt in
      map (\<lambda>(a, b). shadowSpan shadow a (b - a)) (matchAll DIGIT_RUN (shadow_chars shadow)))"

record spelled_state =
  ss_out :: "mirror_span list"
  ss_run :: nat
  ss_pending :: nat
  ss_start :: "nat option"
  ss_end :: "nat option"

definition close_spelled :: "spelled_state \<Rightarrow> spelled_state" where
  "close_spelled st =
     \<lparr>ss_out = (if ss_run st \<ge> SPELLED_DIGITS_MIN
                then (case (ss_start st, ss_end st) of (Some a, Some b) \<Rightarrow> ss_out st @ [(a, b)] | _ \<Rightarrow> ss_out st)
                else ss_out st),
      ss_run = 0, ss_pending = 1, ss_start = None, ss_end = None\<rparr>"

definition spelled_step :: "string \<Rightarrow> mirror_span \<Rightarrow> spelled_state \<Rightarrow> spelled_state" where
  "spelled_step txt m st =
     (case m of (a, b) \<Rightarrow>
        let word = lowercase (slice a b txt);
            opened = (case ss_start st of None \<Rightarrow> Some a | Some s \<Rightarrow> Some s) in
        case DIGIT_WORD_MULTIPLIER word of
          Some multiplier \<Rightarrow> st\<lparr>ss_pending := multiplier, ss_start := opened\<rparr>
        | None \<Rightarrow>
            if word \<in> set DIGIT_WORDS
            then st\<lparr>ss_run := ss_run st + ss_pending st, ss_pending := 1, ss_start := opened, ss_end := Some b\<rparr>
            else close_spelled st)"

definition findSpelledDigitRuns :: "string \<Rightarrow> mirror_span list" where
  "findSpelledDigitRuns txt =
     ss_out (close_spelled (fold (spelled_step txt) (matchAll (Plus (Chr is_alpha)) txt)
       \<lparr>ss_out = [], ss_run = 0, ss_pending = 1, ss_start = None, ss_end = None\<rparr>))"

definition strong_cue :: rx where
  "strong_cue = Seqs
     [WordB, Alts [Seqs [Lit ''my'', Plus Space, Lit ''name'', Plus Space, Lit ''is''],
                   Seqs [Lit ''ask'', Plus Space, Lit ''for''],
                   Seqs [Lit ''speaking'', Plus Space, Lit ''with'']], Plus Space]"

definition weak_cue :: rx where
  "weak_cue = Seqs
     [WordB, Alts [Seqs [Lit ''this'', Plus Space, Lit ''is''],
                   Seqs [Lit ''it'', Opt (Chr (\<lambda>c. c = CHR 0x27)), Lit ''s'']], Plus Space]"

definition more_names :: rx where "more_names = Seq (Plus Space) name_word"

definition strong_names :: rx where "strong_names = Seq name_word (Star more_names)"
definition weak_names :: rx where "weak_names = Seq name_word (Plus more_names)"

text \<open>The capture group at the end of a pattern: where the first way of matching enters it.\<close>

definition capture_tail :: "rx \<Rightarrow> rx \<Rightarrow> string \<Rightarrow> mirror_span list" where
  "capture_tail pre cap s =
     map (\<lambda>(a, b). (hd (filter (\<lambda>p. ends cap s p \<noteq> []) (ends pre s a)), b)) (matchAll (Seq pre cap) s)"

definition findGreetingNames :: "string \<Rightarrow> mirror_span list" where
  "findGreetingNames txt = capture_tail strong_cue strong_names txt @ capture_tail weak_cue weak_names txt"

definition findEmailLike :: "string \<Rightarrow> mirror_span list" where
  "findEmailLike txt = matchAll EMAIL_AT_SIGN txt @ matchAll EMAIL_SPOKEN txt"

text \<open>\<^verbatim>\<open>indexOf(needle, from)\<close> on a string.\<close>

function str_indexOf :: "string \<Rightarrow> string \<Rightarrow> nat \<Rightarrow> nat option" where
  "str_indexOf hay needle from =
     (if from + length needle > length hay then None
      else if take (length needle) (drop from hay) = needle then Some from
      else str_indexOf hay needle (Suc from))"
  by pat_completeness auto
termination by (relation "measure (\<lambda>(hay, needle, from). Suc (length hay) - from)") auto

declare str_indexOf.simps [simp del]

lemma str_indexOf_ge: "str_indexOf hay needle from = Some i \<Longrightarrow> from \<le> i"
proof (induction hay needle "from" rule: str_indexOf.induct)
  case (1 hay needle "from")
  from "1.prems" show ?case
    by (subst (asm) str_indexOf.simps) (auto split: if_splits dest: "1.IH")
qed

lemma str_indexOf_Some:
  "str_indexOf hay needle from = Some i \<Longrightarrow> i + length needle \<le> length hay \<and> take (length needle) (drop i hay) = needle"
proof (induction hay needle "from" rule: str_indexOf.induct)
  case (1 hay needle "from")
  from "1.prems" show ?case
    by (subst (asm) str_indexOf.simps) (auto split: if_splits dest: "1.IH")
qed

text \<open>All non-overlapping occurrences; the needle is not empty wherever the source calls it.\<close>

function occurrences :: "string \<Rightarrow> string \<Rightarrow> nat \<Rightarrow> nat list" where
  "occurrences hay needle from =
     (if needle = [] then []
      else case str_indexOf hay needle from of
             None \<Rightarrow> []
           | Some idx \<Rightarrow> idx # occurrences hay needle (idx + length needle))"
  by pat_completeness auto
termination
proof (relation "measure (\<lambda>(hay, needle, from). Suc (length hay) - from)")
  fix hay needle :: string and start idx :: nat
  assume "needle \<noteq> []" and idx: "str_indexOf hay needle start = Some idx"
  then have "start < idx + length needle" "idx + length needle \<le> length hay"
    using str_indexOf_ge [OF idx] str_indexOf_Some [OF idx] by (cases needle; simp)+
  then show "((hay, needle, idx + length needle), hay, needle, start) \<in> measure (\<lambda>(hay, needle, from). Suc (length hay) - from)"
    by simp
qed simp

declare occurrences.simps [simp del]

definition collapsedOccurrences :: "(char \<times> nat) list \<Rightarrow> string \<Rightarrow> mirror_span list" where
  "collapsedOccurrences shadow needle =
     map (\<lambda>idx. shadowSpan shadow idx (length needle)) (occurrences (shadow_chars shadow) needle 0)"

definition findDenyTermOccurrences :: "string \<Rightarrow> string list \<Rightarrow> mirror_span list" where
  "findDenyTermOccurrences txt terms =
     (let shadow = aggressiveShadow txt in
      concat (map (\<lambda>term. let needle = normalizeAggressive term in
         if length needle < REINTRO_MIN_CHARS then [] else collapsedOccurrences shadow needle) terms))"

text \<open>The whole-word search: a match skips the words it covers.\<close>

function word_sequences :: "string list \<Rightarrow> (string \<times> nat \<times> nat) list \<Rightarrow> mirror_span list" where
  "word_sequences needle hay =
     (if needle = [] \<or> length hay < length needle then []
      else if map fst (take (length needle) hay) = needle
      then (fst (snd (hay ! 0)), snd (snd (hay ! (length needle - 1)))) # word_sequences needle (drop (length needle) hay)
      else word_sequences needle (tl hay))"
  by pat_completeness auto
termination
  by (relation "measure (\<lambda>(needle, hay). length hay)") (auto simp: neq_Nil_conv)

declare word_sequences.simps [simp del]

definition findVaultOccurrences :: "string \<Rightarrow> string \<Rightarrow> mirror_span list" where
  "findVaultOccurrences txt plaintext =
     (let needle = normalizeAggressive plaintext in
      if length needle < REINTRO_MIN_CHARS then []
      else if length needle \<ge> REINTRO_CONCAT_MIN_CHARS then collapsedOccurrences (aggressiveShadow txt) needle
      else word_sequences (words_by is_alnum (lowercase plaintext)) (wordTokensWithOffsets txt))"

definition findAddressWindowDigits :: "string \<Rightarrow> mirror_span list" where
  "findAddressWindowDigits txt =
     (let windows = map (\<lambda>(a, b). (a - ADDRESS_WINDOW_CHARS, min (length txt) (b + ADDRESS_WINDOW_CHARS)))
            (matchAll ADDRESS_KEYWORD txt) in
      if windows = [] then []
      else filter (\<lambda>(start, end). list_ex (\<lambda>(ws, we). start < we \<and> end > ws) windows) (matchAll (Plus (Chr is_num)) txt))"

section \<open>The repair loop\<close>

text \<open>The text with every covered span blanked to one space; an inserted blank has no position.\<close>

type_synonym effective = "(char \<times> nat option) list"

fun effective_from :: "string \<Rightarrow> nat \<Rightarrow> detection list \<Rightarrow> effective" where
  "effective_from txt pos [] = map (\<lambda>i. (txt ! i, Some i)) [pos..<length txt]"
| "effective_from txt pos (s # ss) =
     (if d_start s < pos then effective_from txt pos ss
      else map (\<lambda>i. (txt ! i, Some i)) [pos..<d_start s] @ [(CHR '' '', None)] @ effective_from txt (d_end s) ss)"

definition effectiveText :: "string \<Rightarrow> detection list \<Rightarrow> effective" where
  "effectiveText txt spans = effective_from txt 0 (sort_key d_start spans)"

definition eff_text :: "effective \<Rightarrow> string" where "eff_text eff = map fst eff"

definition toOriginal :: "effective \<Rightarrow> mirror_span \<Rightarrow> mirror_span option" where
  "toOriginal eff sp =
     (case List.map_filter snd (take (snd sp - fst sp) (drop (fst sp) eff)) of
        [] \<Rightarrow> None
      | i # is \<Rightarrow> let end = last (i # is) + 1 in if end \<le> i then None else Some (i, end))"

definition repair_candidates ::
    "string \<Rightarrow> string list \<Rightarrow> tokenized_result \<Rightarrow> (mirror_span \<times> entity_type \<times> detector_id) list" where
  "repair_candidates txt denyTerms tokenized =
     (let mk = (\<lambda>entityType detector spans. map (\<lambda>sp. (sp, entityType, detector)) spans);
          typeByToken = map_of (rev (map (\<lambda>f. (fn_tokenRef f, fn_entityType f)) (tz_findings tokenized)))
      in mk ET_number DET_regex (findLongDigitRuns txt)
         @ mk ET_phone DET_regex (findSpelledDigitRuns txt)
         @ mk ET_name DET_regex (findGreetingNames txt)
         @ mk ET_email DET_regex (findEmailLike txt)
         @ mk ET_number DET_regex (findAddressWindowDigits txt)
         @ mk ET_deny_list DET_deny_list (findDenyTermOccurrences txt denyTerms)
         @ concat (map (\<lambda>(token, plaintext).
              mk (case typeByToken token of None \<Rightarrow> ET_other | Some e \<Rightarrow> e) DET_regex (findVaultOccurrences txt plaintext))
             (tz_vaultEntries tokenized)))"

definition covers :: "detection list \<Rightarrow> mirror_span \<Rightarrow> bool" where
  "covers spans sp \<longleftrightarrow> list_ex (\<lambda>s. d_start s \<le> fst sp \<and> snd sp \<le> d_end s) spans"

definition repair_additions :: "string \<Rightarrow> string list \<Rightarrow> detection list \<Rightarrow> tokenized_result \<Rightarrow> detection list" where
  "repair_additions txt denyTerms spans tokenized =
     (let eff = effectiveText txt spans in
      List.map_filter (\<lambda>(sp, entityType, detector).
        case toOriginal eff sp of
          None \<Rightarrow> None
        | Some orig \<Rightarrow>
            if covers spans orig then None
            else Some \<lparr>d_start = fst orig, d_end = snd orig, d_entityType = entityType, d_detector = detector,
                       d_confidence = None\<rparr>)
        (repair_candidates (eff_text eff) denyTerms tokenized))"

definition REPAIR_MAX_ITERATIONS :: nat where "REPAIR_MAX_ITERATIONS = 10"

record repair_result =
  rp_spans :: "detection list"
  rp_tokenized :: tokenized_result
  rp_disagreement :: bool
  rp_converged :: bool

text \<open>The loop with the number of iterations it has left.\<close>

fun repair_loop :: "nat \<Rightarrow> string \<Rightarrow> string list \<Rightarrow> detection list \<Rightarrow> bool \<Rightarrow> repair_result" where
  "repair_loop 0 txt denyTerms spans disagreement =
     \<lparr>rp_spans = spans, rp_tokenized = tokenize txt spans, rp_disagreement = disagreement, rp_converged = False\<rparr>"
| "repair_loop (Suc n) txt denyTerms spans disagreement =
     (let tokenized = tokenize txt spans; additions = repair_additions txt denyTerms spans tokenized in
      if additions = [] then
        \<lparr>rp_spans = spans, rp_tokenized = tokenized, rp_disagreement = disagreement,
         rp_converged = list_all (\<lambda>(token, plaintext). \<not> isVaultValueReintroduced plaintext (tz_redactedText tokenized))
           (tz_vaultEntries tokenized)\<rparr>
      else
        let (spans', disagreement') = mergeDetections (spans @ additions)
        in repair_loop n txt denyTerms spans' (disagreement \<or> disagreement'))"

definition repairToResidualClean :: "string \<Rightarrow> detection list \<Rightarrow> string list \<Rightarrow> nat option \<Rightarrow> repair_result" where
  "repairToResidualClean txt spans denyTerms maxIterations =
     repair_loop (case maxIterations of None \<Rightarrow> REPAIR_MAX_ITERATIONS | Some n \<Rightarrow> n) txt denyTerms spans False"

section \<open>Composition\<close>

record composed_redaction =
  cr_spans :: "detection list"
  cr_disagreement :: bool
  cr_tokenized :: tokenized_result
  cr_residual :: residual_scan_result

definition composeRedaction :: "string \<Rightarrow> detector_result list \<Rightarrow> string list \<Rightarrow> composed_redaction" where
  "composeRedaction txt detectorResults denyTerms =
     (let (mergedSpans, mergedDisagreement) = mergeDetections (concat (map dr_detections detectorResults));
          repaired = repairToResidualClean txt mergedSpans denyTerms None;
          residual = residualScan (tz_redactedText (rp_tokenized repaired))
            (map snd (tz_vaultEntries (rp_tokenized repaired))) denyTerms
      in \<lparr>cr_spans = rp_spans repaired, cr_disagreement = (mergedDisagreement \<or> rp_disagreement repaired),
          cr_tokenized = rp_tokenized repaired, cr_residual = residual\<rparr>)"

end
