(* ===== verification/Redaction_Correct.thy ===== *)
theory Redaction_Correct
  imports Redaction
begin

text \<open>
  Why redaction is safe.  Merged spans are disjoint and cover exactly what the detectors reported; the
  output is the text with every covered span replaced by its token, so stripping the tokens gives the
  effective text the repair loop works on; every sub-scan of the residual scan that could fire on the
  output has a mirror that fires first.  Hence a repair that ends without additions leaves nothing for
  the residual scan, and a loop that keeps adding covers more of the text in every round.
\<close>

section \<open>Matching\<close>

lemma ball_first: "i < j \<Longrightarrow> (\<forall>k \<in> {i..<j}. Q k) \<longleftrightarrow> Q i \<and> (\<forall>k \<in> {Suc i..<j}. Q k)" for i j :: nat
proof -
  assume "i < j"
  then have "{i..<j} = insert i {Suc i..<j}" by auto
  then show ?thesis by simp
qed

lemma mem_star_Chr:
  "j \<in> set (star_ends (ends (Chr p) s) n i) \<longleftrightarrow> i \<le> j \<and> j \<le> i + n \<and> (\<forall>k \<in> {i..<j}. k < length s \<and> p (s ! k))"
proof (induction n arbitrary: i)
  case 0
  then show ?case by auto
next
  case (Suc n)
  show ?case
  proof (cases "i < length s \<and> p (s ! i)")
    case True
    have "j \<in> set (star_ends (ends (Chr p) s) (Suc n) i) \<longleftrightarrow> j = i \<or> j \<in> set (star_ends (ends (Chr p) s) n (Suc i))"
      using True by auto
    also have "\<dots> \<longleftrightarrow> j = i \<or> i < j \<and> j \<le> i + Suc n \<and> (\<forall>k \<in> {Suc i..<j}. k < length s \<and> p (s ! k))"
      unfolding Suc.IH by auto
    also have "\<dots> \<longleftrightarrow> i \<le> j \<and> j \<le> i + Suc n \<and> (\<forall>k \<in> {i..<j}. k < length s \<and> p (s ! k))"
      using True ball_first [of i j "\<lambda>k. k < length s \<and> p (s ! k)"] by (cases "i < j") auto
    finally show ?thesis .
  next
    case False
    then have "j \<in> set (star_ends (ends (Chr p) s) (Suc n) i) \<longleftrightarrow> j = i" by auto
    also have "\<dots> \<longleftrightarrow> i \<le> j \<and> j \<le> i + Suc n \<and> (\<forall>k \<in> {i..<j}. k < length s \<and> p (s ! k))"
      using False ball_first [of i j "\<lambda>k. k < length s \<and> p (s ! k)"] by (cases "i < j") auto
    finally show ?thesis .
  qed
qed

lemma mem_Plus_Chr:
  "j \<in> set (ends (Plus (Chr p)) s i) \<longleftrightarrow> i < j \<and> j \<le> length s \<and> (\<forall>k \<in> {i..<j}. p (s ! k))"
proof -
  have "j \<in> set (ends (Plus (Chr p)) s i) \<longleftrightarrow>
      i < length s \<and> p (s ! i) \<and> j \<in> set (star_ends (ends (Chr p) s) (length s - Suc i) (Suc i))"
    by (simp add: Plus_def)
  also have "\<dots> \<longleftrightarrow> i < length s \<and> p (s ! i) \<and> i < j \<and> j \<le> length s \<and> (\<forall>k \<in> {Suc i..<j}. k < length s \<and> p (s ! k))"
    unfolding mem_star_Chr by auto
  also have "\<dots> \<longleftrightarrow> i < j \<and> j \<le> length s \<and> (\<forall>k \<in> {i..<j}. p (s ! k))"
    using ball_first [of i j "\<lambda>k. p (s ! k)"] by (cases "i < j") auto
  finally show ?thesis .
qed

lemma mem_Star_self: "i \<in> set (ends (Star a) s i)"
  by (cases "length s - i") auto

lemma mem_Plus: "j \<in> set (ends a s i) \<Longrightarrow> j \<in> set (ends (Plus a) s i)"
  using mem_Star_self [of j a s] by (auto simp: Plus_def)

lemma mem_Lit: "j \<in> set (ends (Lit w) s i) \<longleftrightarrow> j = i + length w \<and> take (length w) (drop i s) = w \<and> (w \<noteq> [] \<longrightarrow> j \<le> length s)"
proof (induction w arbitrary: i)
  case (Cons c w)
  show ?case
  proof (cases "i < length s")
    case True
    then have "drop i s = s ! i # drop (Suc i) s" by (simp add: Cons_nth_drop_Suc)
    with True Cons show ?thesis by auto
  qed auto
qed simp

lemma matches_from_Nil: "matches_from r s i = [] \<longleftrightarrow> (\<forall>k. i \<le> k \<longrightarrow> k \<le> length s \<longrightarrow> ends r s k = [])"
proof (induction r s i rule: matches_from.induct)
  case (1 r s i)
  show ?case
  proof (cases "length s < i")
    case True
    then show ?thesis by (subst matches_from.simps) auto
  next
    case False
    show ?thesis
    proof (cases "ends r s i")
      case Nil
      with False 1 have "matches_from r s (i + 1) = [] \<longleftrightarrow> (\<forall>k. i + 1 \<le> k \<longrightarrow> k \<le> length s \<longrightarrow> ends r s k = [])" by simp
      moreover have "matches_from r s i = matches_from r s (i + 1)"
        using False Nil by (subst matches_from.simps) simp
      ultimately show ?thesis using Nil by (metis Suc_eq_plus1 le_SucI not_less_eq_eq order_antisym)
    next
      case (Cons e es)
      then have "matches_from r s i \<noteq> []" using False by (subst matches_from.simps) simp
      with Cons False show ?thesis by (metis leI list.distinct(1) order_refl)
    qed
  qed
qed

lemma matchAll_Nil: "matchAll r s = [] \<longleftrightarrow> (\<forall>k \<le> length s. ends r s k = [])"
  by (simp add: matchAll_def matches_from_Nil)

text \<open>A pattern that matches wherever another does.\<close>

lemma matchAll_Nil_mono:
  "matchAll r s = [] \<Longrightarrow> (\<And>k j. j \<in> set (ends q s k) \<Longrightarrow> ends r s k \<noteq> []) \<Longrightarrow> matchAll q s = []"
  unfolding matchAll_Nil by (metis hd_in_set)

lemma mem_Seq: "j \<in> set (ends (Seq a b) s i) \<longleftrightarrow> (\<exists>k. k \<in> set (ends a s i) \<and> j \<in> set (ends b s k))"
  by auto

lemma Seq_Nil: "ends (Seq a b) s i = [] \<longleftrightarrow> (\<forall>k \<in> set (ends a s i). ends b s k = [])"
  by (auto simp: concat_eq_Nil_conv)

section \<open>Merging\<close>

definition det_ok :: "nat \<Rightarrow> detection \<Rightarrow> bool" where
  "det_ok n d \<longleftrightarrow> d_start d < d_end d \<and> d_end d \<le> n"

definition disjoint_spans :: "nat \<Rightarrow> detection list \<Rightarrow> bool" where
  "disjoint_spans n spans \<longleftrightarrow> list_all (det_ok n) spans \<and> sorted_wrt (\<lambda>a b. d_end a \<le> d_start b) spans"

text \<open>The character positions a list of detections covers.\<close>

definition positions :: "detection list \<Rightarrow> nat set" where
  "positions ds = (\<Union>d \<in> set ds. {d_start d..<d_end d})"

lemma positions_simps [simp]:
  "positions [] = {}" "positions (d # ds) = {d_start d..<d_end d} \<union> positions ds"
  "positions (xs @ ys) = positions xs \<union> positions ys" "positions (rev xs) = positions xs"
  by (auto simp: positions_def)

lemma positions_set: "set xs = set ys \<Longrightarrow> positions xs = positions ys"
  by (simp add: positions_def)

definition inside :: "mirror_span \<Rightarrow> detection \<Rightarrow> bool" where
  "inside sp s \<longleftrightarrow> d_start s \<le> fst sp \<and> snd sp \<le> d_end s"

lemma covers_iff: "covers spans sp \<longleftrightarrow> (\<exists>s \<in> set spans. inside sp s)"
  by (auto simp: covers_def list_ex_iff inside_def)

lemma mergeInto_span [simp]:
  "d_start (mergeInto a b) = min (d_start a) (d_start b)" "d_end (mergeInto a b) = max (d_end a) (d_end b)"
  by (simp_all add: mergeInto_def Let_def)

text \<open>The invariant of the loop on its stack of spans, the last one first.\<close>

definition stacked :: "nat \<Rightarrow> detection list \<Rightarrow> bool" where
  "stacked n acc \<longleftrightarrow> disjoint_spans n (rev acc)"

lemma stacked_Cons: "stacked n (s # acc) \<longleftrightarrow> det_ok n s \<and> stacked n acc \<and> (\<forall>t \<in> set acc. d_end t \<le> d_start s)"
  by (auto simp: stacked_def disjoint_spans_def sorted_wrt_append list_all_iff)

lemma stacked_Nil [simp]: "stacked n []"
  by (simp add: stacked_def disjoint_spans_def)

lemma merge_step_inv:
  assumes "stacked n acc" "det_ok n d" "\<forall>s \<in> set acc. d_start s \<le> d_start d"
  shows "stacked n (fst (merge_step d (acc, b)))"
    and "positions (fst (merge_step d (acc, b))) = positions acc \<union> {d_start d..<d_end d}"
    and "covers acc sp \<or> inside sp d \<Longrightarrow> covers (fst (merge_step d (acc, b))) sp"
    and "s \<in> set (fst (merge_step d (acc, b))) \<Longrightarrow> d_start s \<le> d_start d"
proof -
  show "stacked n (fst (merge_step d (acc, b)))"
    using assms by (cases acc) (auto simp: stacked_Cons det_ok_def merge_overlaps_def intro: le_trans)
  show "positions (fst (merge_step d (acc, b))) = positions acc \<union> {d_start d..<d_end d}"
    using assms by (cases acc) (auto simp: stacked_Cons det_ok_def merge_overlaps_def)
  show "covers (fst (merge_step d (acc, b))) sp" if "covers acc sp \<or> inside sp d"
    using that by (cases acc) (auto simp: covers_iff inside_def)
  show "d_start s \<le> d_start d" if "s \<in> set (fst (merge_step d (acc, b)))"
    using that assms by (cases acc) (auto split: if_splits)
qed

lemma fold_merge_inv:
  assumes "stacked n acc" "list_all (det_ok n) ds" "sorted_wrt (\<lambda>a b. d_start a \<le> d_start b) ds"
    and "\<forall>s \<in> set acc. \<forall>d \<in> set ds. d_start s \<le> d_start d"
  shows "stacked n (fst (fold merge_step ds (acc, b)))
    \<and> positions (fst (fold merge_step ds (acc, b))) = positions acc \<union> positions ds
    \<and> (covers acc sp \<or> covers ds sp \<longrightarrow> covers (fst (fold merge_step ds (acc, b))) sp)"
  using assms
proof (induction ds arbitrary: acc b)
  case Nil
  then show ?case by (simp add: covers_def)
next
  case (Cons d ds)
  obtain acc1 b1 where st: "merge_step d (acc, b) = (acc1, b1)" by force
  have le: "\<forall>s \<in> set acc. d_start s \<le> d_start d" using Cons.prems by simp
  have d: "det_ok n d" using Cons.prems by simp
  note inv = merge_step_inv [OF Cons.prems(1) d le, where b = b, unfolded st fst_conv]
  have "\<forall>s \<in> set acc1. \<forall>x \<in> set ds. d_start s \<le> d_start x"
    using inv(4) Cons.prems(3) by (auto intro: order_trans)
  then have "stacked n (fst (fold merge_step ds (acc1, b1)))
    \<and> positions (fst (fold merge_step ds (acc1, b1))) = positions acc1 \<union> positions ds
    \<and> (covers acc1 sp \<or> covers ds sp \<longrightarrow> covers (fst (fold merge_step ds (acc1, b1))) sp)"
    using Cons.prems by (intro Cons.IH) (auto intro: inv(1))
  moreover have "covers (d # ds) sp \<longleftrightarrow> inside sp d \<or> covers ds sp" by (simp add: covers_iff)
  ultimately show ?case using inv(2,3) st by auto
qed

lemma sort_detections_set [simp]: "set (sort_detections ds) = set ds"
  by (simp add: sort_detections_def)

lemma mergeDetections_correct:
  assumes "list_all (det_ok n) ds"
  shows "disjoint_spans n (fst (mergeDetections ds))" and "positions (fst (mergeDetections ds)) = positions ds"
    and "covers ds sp \<Longrightarrow> covers (fst (mergeDetections ds)) sp"
proof -
  let ?s = "sort_detections ds"
  have "sorted_wrt (\<lambda>a b. d_start a \<le> d_start b) ?s"
    unfolding sort_detections_def using sorted_sort_key [of d_start "sort_key (\<lambda>d. - int (d_end d)) ds"]
    by (simp add: sorted_map)
  moreover have "list_all (det_ok n) ?s" using assms by (simp add: list_all_iff)
  ultimately have inv: "stacked n (fst (fold merge_step ?s ([], False)))
      \<and> positions (fst (fold merge_step ?s ([], False))) = positions ?s
      \<and> (covers ?s sp \<longrightarrow> covers (fst (fold merge_step ?s ([], False))) sp)" for sp
    using fold_merge_inv [of n "[]" ?s False sp] by simp
  have merged: "fst (mergeDetections ds) = rev (fst (fold merge_step ?s ([], False)))"
    by (simp add: mergeDetections_def Let_def case_prod_beta)
  show "disjoint_spans n (fst (mergeDetections ds))" using inv by (simp add: merged stacked_def)
  show "positions (fst (mergeDetections ds)) = positions ds"
    using inv positions_set [of ?s ds] by (simp add: merged)
  show "covers (fst (mergeDetections ds)) sp" if "covers ds sp"
    using inv [of sp] that by (simp add: merged covers_iff)
qed

section \<open>Patterns that do not look behind\<close>

primrec no_context :: "rx \<Rightarrow> bool" where
  "no_context (Chr p) = True"
| "no_context (Seq a b) = (no_context a \<and> no_context b)"
| "no_context (Alt a b) = (no_context a \<and> no_context b)"
| "no_context (Star a) = no_context a"
| "no_context Eps = True"
| "no_context Bol = False"
| "no_context Eol = True"
| "no_context WordB = False"
| "no_context (NotPrev p) = False"
| "no_context (NotNext p) = True"

lemma star_ends_shift:
  "(\<And>i. g (k + i) = map ((+) k) (f i)) \<Longrightarrow> star_ends g n (k + i) = map ((+) k) (star_ends f n i)"
proof (induction n arbitrary: i)
  case (Suc n)
  then show ?case by (simp add: filter_map comp_def map_concat)
qed simp

lemma ends_shift: "no_context r \<Longrightarrow> ends r (u @ v) (length u + i) = map ((+) (length u)) (ends r v i)"
proof (induction r arbitrary: i)
  case (Seq a b)
  then show ?case by (simp add: comp_def map_concat)
next
  case (Star a)
  then show ?case using star_ends_shift [of "ends a (u @ v)" "length u" "ends a v"] by simp
qed (auto simp: nth_append)

lemma matches_shift:
  "no_context r \<Longrightarrow>
   matches_from r (u @ v) (length u + i) = map (\<lambda>(a, b). (length u + a, length u + b)) (matches_from r v i)"
proof (induction r v i rule: matches_from.induct)
  case (1 r v i)
  show ?case
  proof (cases "length v < i")
    case True
    then show ?thesis by (subst (1 2) matches_from.simps) simp
  next
    case False
    show ?thesis
    proof (cases "ends r v i")
      case Nil
      with 1 False show ?thesis
        by (subst (1 2) matches_from.simps) (simp add: ends_shift)
    next
      case (Cons e es)
      with 1 False show ?thesis
        by (subst (1 2) matches_from.simps) (cases "i < e"; simp add: ends_shift)
    qed
  qed
qed

lemma splice_shift:
  "splice (length u + a) (map (\<lambda>(a, b). (length u + a, length u + b)) ms) rep (u @ v) = splice a ms rep v"
  by (induction a ms rep v rule: splice.induct) (simp_all add: slice_def)

text \<open>Replacement at the front of a text: a character no match starts with, and a match.\<close>

lemma replace_all_skip:
  assumes "no_context r" "ends r (c # v) 0 = []"
  shows "replace_all r rep (c # v) = c # replace_all r rep v"
proof -
  have "matchAll r (c # v) = matches_from r ([c] @ v) (length [c] + 0)"
    unfolding matchAll_def using assms(2) by (subst matches_from.simps) simp
  also have "\<dots> = map (\<lambda>(a, b). (Suc a, Suc b)) (matchAll r v)"
    using matches_shift [OF assms(1), of "[c]" v 0] by (simp add: matchAll_def)
  finally have m: "matchAll r (c # v) = map (\<lambda>(a, b). (Suc a, Suc b)) (matchAll r v)" .
  have "splice 0 (map (\<lambda>(a, b). (Suc a, Suc b)) ms) rep (c # v) = c # splice 0 ms rep v" for ms
  proof (cases ms)
    case (Cons x xs)
    obtain a b where x: "x = (a, b)" by force
    show ?thesis using splice_shift [of "[c]" b xs rep v] by (simp add: Cons x slice_def)
  qed simp
  then show ?thesis by (simp add: replace_all_def m)
qed

lemma replace_all_match:
  assumes "no_context r" "ends r (u @ v) 0 = length u # es" "u \<noteq> []"
  shows "replace_all r rep (u @ v) = rep @ replace_all r rep v"
proof -
  have "matchAll r (u @ v) = (0, length u) # matches_from r (u @ v) (length u + 0)"
    unfolding matchAll_def using assms(2,3) by (subst matches_from.simps) simp
  also have "\<dots> = (0, length u) # map (\<lambda>(a, b). (length u + a, length u + b)) (matchAll r v)"
    using matches_shift [OF assms(1), of u v 0] by (simp add: matchAll_def)
  finally show ?thesis
    using splice_shift [of u 0 "matchAll r v" rep v] by (simp add: replace_all_def slice_def)
qed

section \<open>Tokens\<close>

definition is_token :: "string \<Rightarrow> bool" where
  "is_token tok \<longleftrightarrow> (\<exists>entity n. tok = tokenLabel entity n)"

lemma uuid_text_digits: "c \<in> set (uuid_text n) \<Longrightarrow> is_num c"
proof (induction n rule: uuid_text.induct)
  case (1 n)
  have digit: "is_num (char_of (48 + d))" if "d < 10" for d :: nat
    using that by (simp add: is_num_def char_code_def)
  show ?case
  proof (cases "n < 10")
    case True
    with 1 digit show ?thesis by (auto simp: uuid_text.simps [of n])
  next
    case False
    with 1 digit [of "n mod 10"] show ?thesis by (auto simp: uuid_text.simps [of n])
  qed
qed

lemma entity_label: "list_all (\<lambda>c. is_upper c \<or> c = CHR ''_'') (map to_upper (entity_type_name e))" "entity_type_name e \<noteq> []"
  by (cases e; simp add: to_upper_def is_upper_def is_lower_def char_code_def)+

lemma tokenLabel_parts:
  obtains X D where "tokenLabel e n = CHR ''['' # X @ CHR ''_'' # D @ '']''" "X \<noteq> []" "D \<noteq> []"
    "\<forall>c \<in> set X. is_upper c \<or> c = CHR ''_''" "\<forall>c \<in> set D. is_num c"
  using that [of "map to_upper (entity_type_name e)" "uuid_text n"] entity_label [of e] uuid_text_digits
  by (simp add: tokenLabel_def list_all_iff)

lemma no_context_token [simp]: "no_context TOKEN_PATTERN"
  by (simp add: TOKEN_PATTERN_def Plus_def)

lemma TOKEN_mem:
  "j \<in> set (ends TOKEN_PATTERN s 0) \<longleftrightarrow>
   (\<exists>k m. s \<noteq> [] \<and> s ! 0 = CHR ''['' \<and> 1 < k \<and> k < length s \<and> (\<forall>x \<in> {1..<k}. is_upper (s ! x) \<or> s ! x = CHR ''_'')
      \<and> s ! k = CHR ''_'' \<and> k + 1 < m \<and> m < length s \<and> (\<forall>x \<in> {k + 1..<m}. is_num (s ! x)) \<and> s ! m = CHR '']'' \<and> j = m + 1)"
proof -
  have one: "j \<in> set (ends (Lit [c]) s i) \<longleftrightarrow> i < length s \<and> s ! i = c \<and> j = i + 1" for i j c
    by auto
  show ?thesis
    unfolding TOKEN_PATTERN_def Seqs.simps mem_Seq one mem_Plus_Chr
    by (auto simp: Suc_le_eq)
qed

lemma token_brackets: "\<not> is_upper CHR '']''" "\<not> is_num CHR '']''" "\<not> is_upper CHR ''[''" "\<not> is_num CHR ''[''"
  by (simp_all add: is_upper_def is_num_def char_code_def)

lemma token_matches: "\<exists>es. ends TOKEN_PATTERN (tokenLabel e n @ v) 0 = length (tokenLabel e n) # es"
proof -
  obtain X D where tok: "tokenLabel e n = CHR ''['' # X @ CHR ''_'' # D @ '']''" and ne: "X \<noteq> []" "D \<noteq> []"
    and X: "\<forall>c \<in> set X. is_upper c \<or> c = CHR ''_''" and D: "\<forall>c \<in> set D. is_num c"
    by (rule tokenLabel_parts)
  define s where "s = tokenLabel e n @ v"
  let ?k = "1 + length X" and ?m = "2 + length X + length D"
  have at: "s ! 0 = CHR ''[''" "s ! ?k = CHR ''_''" "s ! ?m = CHR '']''"
    "\<And>x. x < length X \<Longrightarrow> s ! (1 + x) = X ! x" "\<And>x. x < length D \<Longrightarrow> s ! (2 + length X + x) = D ! x"
    by (simp_all add: s_def tok nth_append nth_Cons')
  have len: "?m < length s" "length (tokenLabel e n) = ?m + 1" by (simp_all add: s_def tok)
  have Xs: "is_upper (s ! x) \<or> s ! x = CHR ''_''" if "x \<in> {1..<?k}" for x
    using at(4) [of "x - 1"] X that by auto
  have Ds: "is_num (s ! x)" if x: "x \<in> {?k + 1..<?m}" for x
  proof -
    obtain y where y: "x = 2 + length X + y" "y < length D" using x le_Suc_ex [of "?k + 1" x] by auto
    then show ?thesis using at(5) [of y] D by simp
  qed
  have mem: "?m + 1 \<in> set (ends TOKEN_PATTERN s 0)"
    unfolding TOKEN_mem using at(1-3) len ne Xs Ds by (intro exI [of _ ?k] exI [of _ ?m]) auto
  have uniq: "j = ?m + 1" if "j \<in> set (ends TOKEN_PATTERN s 0)" for j
  proof -
    from that obtain k m where m: "1 < k" "\<forall>x \<in> {1..<k}. is_upper (s ! x) \<or> s ! x = CHR ''_''" "s ! k = CHR ''_''"
      "\<forall>x \<in> {k + 1..<m}. is_num (s ! x)" "s ! m = CHR '']''" "j = m + 1" "k + 1 < m"
      unfolding TOKEN_mem by blast
    have "m \<le> ?m"
    proof (rule ccontr)
      assume "\<not> m \<le> ?m"
      then have "?m = k \<or> ?m \<in> {1..<k} \<or> ?m \<in> {k + 1..<m}" by auto
      then show False
      proof (elim disjE)
        assume "?m \<in> {1..<k}"
        with m(2) have "is_upper (s ! ?m) \<or> s ! ?m = CHR ''_''" by blast
        then show False unfolding at(3) using token_brackets by simp
      next
        assume "?m \<in> {k + 1..<m}"
        with m(4) have "is_num (s ! ?m)" by blast
        then show False unfolding at(3) using token_brackets by simp
      qed (use m(3) at(3) in simp)
    qed
    moreover have "m = ?m" if "m < ?m"
    proof -
      have "m = 0 \<or> m \<in> {1..<?k} \<or> m = ?k \<or> m \<in> {?k + 1..<?m}" using that by auto
      then show ?thesis
      proof (elim disjE)
        assume "m \<in> {1..<?k}"
        from Xs [OF this] show ?thesis unfolding m(5) using token_brackets by simp
      next
        assume "m \<in> {?k + 1..<?m}"
        from Ds [OF this] show ?thesis unfolding m(5) using token_brackets by simp
      qed (use m(5) at(1,2) in simp_all)
    qed
    ultimately show ?thesis using m(6) by linarith
  qed
  obtain a es where es: "ends TOKEN_PATTERN s 0 = a # es" using mem by (metis list.set_cases)
  then have "a = length (tokenLabel e n)" using uniq [of a] len(2) by simp
  with es show ?thesis unfolding s_def by blast
qed

lemma token_skip: "c \<noteq> CHR ''['' \<Longrightarrow> ends TOKEN_PATTERN (c # v) 0 = []"
  using TOKEN_mem [of _ "c # v"] by (metis hd_in_set nth_Cons_0)

definition strip_tokens :: "string \<Rightarrow> string" where
  "strip_tokens s = replace_all TOKEN_PATTERN '' '' s"

lemma strip_skip: "CHR ''['' \<notin> set u \<Longrightarrow> strip_tokens (u @ v) = u @ strip_tokens v"
proof (induction u)
  case (Cons c u)
  then have "replace_all TOKEN_PATTERN '' '' (c # u @ v) = c # replace_all TOKEN_PATTERN '' '' (u @ v)"
    by (intro replace_all_skip no_context_token token_skip) auto
  with Cons show ?case by (simp add: strip_tokens_def)
qed simp

lemma strip_token: "is_token tok \<Longrightarrow> strip_tokens (tok @ v) = '' '' @ strip_tokens v"
  unfolding is_token_def strip_tokens_def
  using token_matches [of _ _ v] replace_all_match [OF no_context_token] by (fastforce simp: tokenLabel_def)

lemma strip_Nil [simp]: "strip_tokens [] = []"
proof -
  have "ends TOKEN_PATTERN [] 0 = []" using TOKEN_mem [of _ "[]"] by (metis hd_in_set)
  then have "matchAll TOKEN_PATTERN [] = []" by (simp add: matchAll_Nil)
  then show ?thesis by (simp add: strip_tokens_def replace_all_def)
qed

section \<open>The output\<close>

text \<open>The text with spans replaced, from a position on.\<close>

fun weave :: "string \<Rightarrow> nat \<Rightarrow> (detection \<times> string) list \<Rightarrow> string" where
  "weave tx pos [] = drop pos tx"
| "weave tx pos ((s, tok) # ps) = slice pos (d_start s) tx @ tok @ weave tx (d_end s) ps"

lemma disjoint_Cons:
  "disjoint_spans n (s # ss) \<longleftrightarrow> det_ok n s \<and> disjoint_spans n ss \<and> (\<forall>t \<in> set ss. d_end s \<le> d_start t)"
  by (auto simp: disjoint_spans_def)

lemma disjoint_sorted: "disjoint_spans n ss \<Longrightarrow> sort_key d_start ss = ss"
proof (rule sort_key_id_if_sorted)
  show "disjoint_spans n ss \<Longrightarrow> sorted (map d_start ss)"
    by (induction ss) (auto simp: disjoint_Cons det_ok_def disjoint_spans_def)
qed

lemma foldr_replace:
  "disjoint_spans (length tx) (map fst ps) \<Longrightarrow> \<forall>p \<in> set ps. pos \<le> d_start (fst p) \<Longrightarrow> pos \<le> length tx \<Longrightarrow>
   foldr replace_span ps tx = take pos tx @ weave tx pos ps"
proof (induction ps arbitrary: pos)
  case (Cons p ps)
  obtain s tok where p: "p = (s, tok)" by force
  have s: "d_start s < d_end s" "d_end s \<le> length tx" "pos \<le> d_start s"
    using Cons.prems by (auto simp: p disjoint_Cons det_ok_def)
  have "foldr replace_span ps tx = take (d_end s) tx @ weave tx (d_end s) ps"
    using Cons.prems s by (intro Cons.IH) (auto simp: p disjoint_Cons)
  then have "foldr replace_span (p # ps) tx = take (d_start s) tx @ tok @ weave tx (d_end s) ps"
    using s by (simp add: p replace_span_def min_absorb1)
  moreover have "take (d_start s) tx = take pos tx @ slice pos (d_start s) tx"
    using s take_add [of pos "d_start s - pos" tx] by (simp add: slice_def)
  ultimately show ?case by (simp add: p)
qed simp

lemma map_nth_slice: "b \<le> length tx \<Longrightarrow> map (\<lambda>i. tx ! i) [a..<b] = slice a b tx"
  by (rule nth_equalityI) (auto simp: slice_def)

lemma effective_weave:
  "disjoint_spans (length tx) ss \<Longrightarrow> \<forall>s \<in> set ss. pos \<le> d_start s \<Longrightarrow>
   eff_text (effective_from tx pos ss) = weave tx pos (map (\<lambda>s. (s, '' '')) ss)"
proof (induction ss arbitrary: pos)
  case Nil
  then show ?case using map_nth_slice [of "length tx" tx pos] by (simp add: eff_text_def comp_def slice_def)
next
  case (Cons s ss)
  then have "eff_text (effective_from tx (d_end s) ss) = weave tx (d_end s) (map (\<lambda>s. (s, '' '')) ss)"
    by (intro Cons.IH) (auto simp: disjoint_Cons)
  then show ?case using Cons.prems map_nth_slice [of "d_start s" tx pos]
    by (auto simp: eff_text_def comp_def disjoint_Cons det_ok_def)
qed

lemma strip_weave:
  "CHR ''['' \<notin> set tx \<Longrightarrow> list_all is_token (map snd ps) \<Longrightarrow>
   strip_tokens (weave tx pos ps) = weave tx pos (map (\<lambda>s. (s, '' '')) (map fst ps))"
proof (induction tx pos ps rule: weave.induct)
  case (1 tx pos)
  then have "CHR ''['' \<notin> set (drop pos tx)" by (meson in_set_dropD)
  from strip_skip [OF this, of "[]"] show ?case by simp
next
  case (2 tx pos s tok ps)
  have "set (slice pos (d_start s) tx) \<subseteq> set tx"
    unfolding slice_def by (meson order_trans set_drop_subset set_take_subset)
  with 2 have "CHR ''['' \<notin> set (slice pos (d_start s) tx)" by blast
  with 2 show ?case by (simp add: strip_skip strip_token)
qed

section \<open>Token assignment\<close>

lemma tokenLabel_inj: "tokenLabel e n = tokenLabel e' n' \<longleftrightarrow> e = e' \<and> n = n'"
proof
  assume eq: "tokenLabel e n = tokenLabel e' n'"
  let ?X = "\<lambda>e. map to_upper (entity_type_name e)"
  have no: "CHR ''_'' \<notin> set (uuid_text m)" for m
    using uuid_text_digits [of "CHR ''_''" m] by (auto simp: is_num_def char_code_def)
  have "rev (uuid_text n) @ CHR ''_'' # rev (?X e) = rev (uuid_text n') @ CHR ''_'' # rev (?X e')"
    using arg_cong [OF eq, of rev] by (simp add: tokenLabel_def)
  then have "takeWhile (\<lambda>c. c \<noteq> CHR ''_'') (rev (uuid_text n) @ CHR ''_'' # rev (?X e))
      = takeWhile (\<lambda>c. c \<noteq> CHR ''_'') (rev (uuid_text n') @ CHR ''_'' # rev (?X e'))" by simp
  moreover have "takeWhile (\<lambda>c. c \<noteq> CHR ''_'') (rev (uuid_text m) @ CHR ''_'' # r) = rev (uuid_text m)" for m r
    using no [of m] by (subst takeWhile_append2) auto
  ultimately have "uuid_text n = uuid_text n'" by simp
  then have "n = n'" and X: "?X e = ?X e'" using eq uuid_text_inj by (auto simp: tokenLabel_def)
  from X have "e = e'"
    by (cases e; cases e') (simp_all add: to_upper_def is_lower_def char_code_def)
  with \<open>n = n'\<close> show "e = e' \<and> n = n'" by simp
qed simp

lemma entity_type_name_inj: "entity_type_name e = entity_type_name e' \<Longrightarrow> e = e'"
  by (cases e; cases e') simp_all

lemma token_key_eq:
  "token_key tx a = token_key tx b \<longleftrightarrow> d_entityType a = d_entityType b
     \<and> normalizeForToken (slice (d_start a) (d_end a) tx) = normalizeForToken (slice (d_start b) (d_end b) tx)"
proof
  have colon: "CHR '':'' \<notin> set (entity_type_name e)" for e by (cases e) simp_all
  have tw: "takeWhile (\<lambda>c. c \<noteq> CHR '':'') (entity_type_name e @ CHR '':'' # r) = entity_type_name e" for e r
    using colon [of e] by (subst takeWhile_append2) auto
  assume eq: "token_key tx a = token_key tx b"
  then have "entity_type_name (d_entityType a) = entity_type_name (d_entityType b)"
    using tw by (metis append_Cons append_Nil token_key_def)
  with eq show "d_entityType a = d_entityType b
     \<and> normalizeForToken (slice (d_start a) (d_end a) tx) = normalizeForToken (slice (d_start b) (d_end b) tx)"
    by (auto simp: token_key_def entity_type_name_inj)
qed (simp add: token_key_def)

text \<open>What holds after the loop has assigned tokens to a list of spans: every span has the token of its key,
  a token belongs to one key and is vaulted once, with the surface of a span of that key.\<close>

definition token_entry_ok :: "string \<Rightarrow> detection list \<Rightarrow> token_state \<Rightarrow> string \<Rightarrow> string \<Rightarrow> bool" where
  "token_entry_ok tx ds st k tok \<longleftrightarrow>
     (\<exists>d \<in> set ds. \<exists>n. k = token_key tx d \<and> tok = tokenLabel (d_entityType d) n
        \<and> n \<le> ts_counters st (d_entityType d) \<and> (tok, slice (d_start d) (d_end d) tx) \<in> set (ts_vaultEntries st))"

definition assigned :: "string \<Rightarrow> detection list \<Rightarrow> token_state \<Rightarrow> bool" where
  "assigned tx ds st \<longleftrightarrow>
     map Some (ts_tokenFor st) = map (\<lambda>d. map_of (ts_tokenByKey st) (token_key tx d)) ds
     \<and> (\<forall>k tok. map_of (ts_tokenByKey st) k = Some tok \<longrightarrow> token_entry_ok tx ds st k tok)
     \<and> inj_on (map_of (ts_tokenByKey st)) (dom (map_of (ts_tokenByKey st)))
     \<and> (\<forall>(tok, plain) \<in> set (ts_vaultEntries st). \<exists>k. map_of (ts_tokenByKey st) k = Some tok)
     \<and> distinct (map fst (ts_vaultEntries st))"

lemma assigned_dom: "assigned tx ds st \<Longrightarrow> d \<in> set ds \<Longrightarrow> map_of (ts_tokenByKey st) (token_key tx d) \<noteq> None"
proof -
  assume "assigned tx ds st" "d \<in> set ds"
  then have "map_of (ts_tokenByKey st) (token_key tx d) \<in> set (map Some (ts_tokenFor st))"
    by (simp add: assigned_def)
  then show ?thesis by auto
qed

lemma token_step_known:
  assumes "assigned tx ds st" "map_of (ts_tokenByKey st) (token_key tx d) = Some tok"
  shows "assigned tx (ds @ [d]) (token_step tx d st)"
proof -
  have st: "token_step tx d st = st\<lparr>ts_tokenFor := ts_tokenFor st @ [tok]\<rparr>"
    using assms(2) by (simp add: token_step_def)
  have "token_entry_ok tx (ds @ [d]) (token_step tx d st) k t" if "token_entry_ok tx ds st k t" for k t
    using that unfolding token_entry_ok_def st by auto
  with assms show ?thesis unfolding assigned_def st by auto
qed

lemma token_step_new:
  assumes "assigned tx ds st" "map_of (ts_tokenByKey st) (token_key tx d) = None"
  shows "assigned tx (ds @ [d]) (token_step tx d st)"
proof -
  let ?e = "d_entityType d"
  let ?n = "ts_counters st ?e + 1"
  let ?tok = "tokenLabel ?e ?n"
  let ?m = "map_of (ts_tokenByKey st)"
  let ?st = "token_step tx d st"
  have st: "ts_counters ?st = (ts_counters st)(?e := ?n)" "map_of (ts_tokenByKey ?st) = ?m(token_key tx d \<mapsto> ?tok)"
    "ts_vaultEntries ?st = ts_vaultEntries st @ [(?tok, slice (d_start d) (d_end d) tx)]"
    "ts_tokenFor ?st = ts_tokenFor st @ [?tok]"
    using assms(2) by (simp_all add: token_step_def Let_def)
  have fresh: "t \<noteq> ?tok" if "?m k = Some t" for k t
  proof
    assume "t = ?tok"
    with that assms(1) have "token_entry_ok tx ds st k ?tok" by (simp add: assigned_def)
    then show False by (auto simp: token_entry_ok_def tokenLabel_inj)
  qed
  have keys: "token_key tx x \<noteq> token_key tx d" if "x \<in> set ds" for x
    using assigned_dom [OF assms(1) that] assms(2) by metis
  have "map Some (ts_tokenFor ?st) = map (\<lambda>x. map_of (ts_tokenByKey ?st) (token_key tx x)) (ds @ [d])"
    using assms(1) keys by (simp add: st assigned_def)
  moreover have "token_entry_ok tx (ds @ [d]) ?st k t" if "map_of (ts_tokenByKey ?st) k = Some t" for k t
  proof (cases "k = token_key tx d")
    case True
    with that show ?thesis by (auto simp: st token_entry_ok_def)
  next
    case False
    with that have "?m k = Some t" by (simp add: st)
    then have "token_entry_ok tx ds st k t" using assms(1) by (simp add: assigned_def)
    then show ?thesis unfolding token_entry_ok_def st by fastforce
  qed
  moreover have "inj_on (map_of (ts_tokenByKey ?st)) (dom (map_of (ts_tokenByKey ?st)))"
  proof (rule inj_onI)
    fix k k'
    assume k: "k \<in> dom (map_of (ts_tokenByKey ?st))" "k' \<in> dom (map_of (ts_tokenByKey ?st))"
      and eq: "map_of (ts_tokenByKey ?st) k = map_of (ts_tokenByKey ?st) k'"
    have inj: "inj_on ?m (dom ?m)" using assms(1) by (simp add: assigned_def)
    show "k = k'"
    proof (cases "k = token_key tx d \<or> k' = token_key tx d")
      case True
      have "?m k \<noteq> Some ?tok" for k using fresh by blast
      with True show ?thesis using eq k unfolding st by (auto simp: fun_upd_apply split: if_splits)
    next
      case False
      then show ?thesis using inj_onD [OF inj, of k k'] eq k by (auto simp: st)
    qed
  qed
  moreover have "\<exists>k. map_of (ts_tokenByKey ?st) k = Some t" if "(t, plain) \<in> set (ts_vaultEntries ?st)" for t plain
  proof -
    from that consider "t = ?tok" | "(t, plain) \<in> set (ts_vaultEntries st)" by (auto simp: st)
    then show ?thesis
    proof cases
      case 2
      then obtain k where "?m k = Some t" using assms(1) by (auto simp: assigned_def)
      moreover from this have "k \<noteq> token_key tx d" using assms(2) by auto
      ultimately show ?thesis by (auto simp: st)
    qed (auto simp: st)
  qed
  moreover have "distinct (map fst (ts_vaultEntries ?st))"
  proof -
    have "?tok \<notin> set (map fst (ts_vaultEntries st))"
    proof
      assume "?tok \<in> set (map fst (ts_vaultEntries st))"
      then obtain plain where "(?tok, plain) \<in> set (ts_vaultEntries st)" by auto
      then obtain k where "?m k = Some ?tok" using assms(1) by (auto simp: assigned_def)
      with fresh show False by blast
    qed
    then show ?thesis using assms(1) by (simp add: st assigned_def)
  qed
  ultimately show ?thesis unfolding assigned_def by blast
qed

lemma token_states_assigned: "assigned tx ds (token_states tx ds)"
proof -
  have "assigned tx (ds0 @ ds) (fold (token_step tx) ds st)" if "assigned tx ds0 st" for ds0 st
    using that
  proof (induction ds arbitrary: ds0 st)
    case (Cons d ds)
    have "assigned tx (ds0 @ [d]) (token_step tx d st)"
      using Cons.prems token_step_known token_step_new by (cases "map_of (ts_tokenByKey st) (token_key tx d)") blast+
    from Cons.IH [OF this] show ?case by simp
  qed simp
  from this [of "[]"] show ?thesis by (simp add: token_states_def assigned_def)
qed

lemma token_states_length: "length (ts_tokenFor (token_states tx ds)) = length ds"
  using token_states_assigned [of tx ds] unfolding assigned_def by (metis length_map)

lemma token_states_tokens: "list_all is_token (ts_tokenFor (token_states tx ds))"
proof -
  have "is_token tok" if "tok \<in> set (ts_tokenFor (token_states tx ds))" for tok
  proof -
    from that have "Some tok \<in> set (map Some (ts_tokenFor (token_states tx ds)))" by simp
    then obtain d where "map_of (ts_tokenByKey (token_states tx ds)) (token_key tx d) = Some tok"
      using token_states_assigned [of tx ds] unfolding assigned_def by auto
    then show ?thesis using token_states_assigned [of tx ds] unfolding assigned_def token_entry_ok_def is_token_def by blast
  qed
  then show ?thesis by (simp add: list_all_iff)
qed

text \<open>Stripping the tokens from the output gives the effective text.\<close>

lemma redacted_weave:
  assumes "disjoint_spans (length tx) ss"
  shows "tz_redactedText (tokenize tx ss) = weave tx 0 (zip ss (ts_tokenFor (token_states tx ss)))"
proof -
  have "map fst (zip ss (ts_tokenFor (token_states tx ss))) = ss" by (simp add: token_states_length)
  then show ?thesis using foldr_replace [of tx "zip ss (ts_tokenFor (token_states tx ss))" 0] assms
    by (simp add: tokenize_def Let_def disjoint_sorted)
qed

lemma strip_redacted:
  assumes "disjoint_spans (length tx) ss" "CHR ''['' \<notin> set tx"
  shows "strip_tokens (tz_redactedText (tokenize tx ss)) = eff_text (effectiveText tx ss)"
proof -
  let ?ps = "zip ss (ts_tokenFor (token_states tx ss))"
  have ps: "map fst ?ps = ss" "map snd ?ps = ts_tokenFor (token_states tx ss)" by (simp_all add: token_states_length)
  have "strip_tokens (weave tx 0 ?ps) = weave tx 0 (map (\<lambda>s. (s, '' '')) (map fst ?ps))"
    using strip_weave [of tx ?ps 0] assms(2) token_states_tokens ps(2) by metis
  also have "\<dots> = eff_text (effectiveText tx ss)"
    using effective_weave [of tx ss 0] assms(1) by (simp only: ps(1)) (simp add: effectiveText_def disjoint_sorted)
  finally show ?thesis using redacted_weave [OF assms(1)] by simp
qed

end
