(* ===== verification/Redaction_Repair.thy ===== *)
theory Redaction_Repair
  imports Redaction_Correct
begin

text \<open>
  The repair loop against the residual scan: every sub-scan that could fire on the output has a mirror that
  fires first on the effective text, every mirror span has an uncovered character, and so a repair round
  without additions leaves nothing for the scan, while a round with additions covers more of the text.
\<close>

section \<open>A silent mirror means a silent scan\<close>

lemma zip_filter_map: "map fst (filter (\<lambda>(c, i). P c) (zip xs [a..<a + length xs])) = filter P xs"
proof (induction xs arbitrary: a)
  case (Cons x xs)
  then show ?case using Cons.IH [of "Suc a"] by (simp add: upt_conv_Cons del: upt_Suc)
qed simp

lemma shadow_normal: "shadow_chars (aggressiveShadow T) = normalizeAggressive T"
proof -
  have "shadow_chars (aggressiveShadow T) = filter is_alnum (map to_lower T)"
    using zip_filter_map [of is_alnum "map to_lower T" 0] by (simp add: shadow_chars_def aggressiveShadow_def)
  then show ?thesis by (simp add: normalizeAggressive_def remove_all_char lowercase_def)
qed

lemma digits_silent: "findLongDigitRuns T = [] \<Longrightarrow> matchAll DIGIT_RUN (normalizeAggressive T) = []"
  by (simp add: findLongDigitRuns_def Let_def shadow_normal)

lemma capture_silent: "capture_tail pre cap s = [] \<longleftrightarrow> matchAll (Seq pre cap) s = []"
  by (simp add: capture_tail_def)

lemma greeting_silent:
  assumes "findGreetingNames T = []"
  shows "matchAll GREETING_STRONG T = []" "matchAll GREETING_WEAK T = []"
proof -
  have s: "matchAll (Seq strong_cue strong_names) T = []" and w: "matchAll (Seq weak_cue weak_names) T = []"
    using assms by (simp_all add: findGreetingNames_def capture_silent)
  show "matchAll GREETING_STRONG T = []"
  proof (rule matchAll_Nil_mono [OF s])
    fix k j assume "j \<in> set (ends GREETING_STRONG T k)"
    then obtain i where "i \<in> set (ends strong_cue T k)" "j \<in> set (ends name_word T i)"
      unfolding GREETING_STRONG_def strong_cue_def Seqs.simps mem_Seq by blast
    then have "j \<in> set (ends (Seq strong_cue strong_names) T k)"
      unfolding strong_names_def mem_Seq using mem_Star_self by blast
    then show "ends (Seq strong_cue strong_names) T k \<noteq> []" by fastforce
  qed
  show "matchAll GREETING_WEAK T = []"
  proof (rule matchAll_Nil_mono [OF w])
    fix k j assume "j \<in> set (ends GREETING_WEAK T k)"
    then obtain i m where "i \<in> set (ends weak_cue T k)" "m \<in> set (ends name_word T i)" "j \<in> set (ends more_names T m)"
      unfolding GREETING_WEAK_def weak_cue_def more_names_def Seqs.simps mem_Seq by blast
    then have "j \<in> set (ends (Seq weak_cue weak_names) T k)"
      unfolding weak_names_def mem_Seq using mem_Plus by blast
    then show "ends (Seq weak_cue weak_names) T k \<noteq> []" by fastforce
  qed
qed

text \<open>Every character of a run lies in one of the matches of the run pattern.\<close>

lemma run_found:
  "i \<le> k \<Longrightarrow> k < length s \<Longrightarrow> p (s ! k) \<Longrightarrow> \<exists>(a, b) \<in> set (matches_from (Plus (Chr p)) s i). a \<le> k \<and> k < b"
proof (induction "Plus (Chr p)" s i rule: matches_from.induct)
  case (1 s i)
  let ?R = "Plus (Chr p)"
  show ?case
  proof (cases "ends ?R s i")
    case Nil
    then have "i \<noteq> k" using ends_Plus_Chr(1) [of p s i] 1 by auto
    with 1 Nil have "\<exists>(a, b) \<in> set (matches_from ?R s (i + 1)). a \<le> k \<and> k < b" by (intro 1(1)) auto
    then show ?thesis using Nil 1 by (subst matches_from.simps) simp
  next
    case (Cons e es)
    then have e: "i < e" using mem_Plus_Chr [of e p s i] by simp
    show ?thesis
    proof (cases "k < e")
      case True
      then show ?thesis using Cons 1 by (subst matches_from.simps) auto
    next
      case False
      with 1 Cons e have "\<exists>(a, b) \<in> set (matches_from ?R s e). a \<le> k \<and> k < b" using 1(2) [OF _ Cons] by auto
      then show ?thesis using Cons 1 e by (subst matches_from.simps) auto
    qed
  qed
qed

lemma digit_test: "rx_test (Chr p) s \<longleftrightarrow> (\<exists>k < length s. p (s ! k))"
  by (auto simp: rx_test_def matchAll_Nil intro: less_imp_le)

lemma address_silent: "findAddressWindowDigits T = [] \<Longrightarrow> address_hits T = 0"
proof -
  assume silent: "findAddressWindowDigits T = []"
  have False if m: "(a, b) \<in> set (matchAll ADDRESS_KEYWORD T)"
    and hit: "rx_test (Chr is_num) (slice (a - ADDRESS_WINDOW_CHARS) (min (length T) (b + ADDRESS_WINDOW_CHARS)) T)" for a b
  proof -
    let ?from = "a - ADDRESS_WINDOW_CHARS" and ?to = "min (length T) (b + ADDRESS_WINDOW_CHARS)"
    obtain k where k: "?from \<le> k" "k < ?to" "k < length T" "is_num (T ! k)"
    proof -
      from hit obtain x where x: "x < length (slice ?from ?to T)" "is_num (slice ?from ?to T ! x)"
        by (auto simp: digit_test)
      then have "?from + x < ?to" "is_num (T ! (?from + x))" by (auto simp: slice_def)
      then show thesis by (intro that [of "?from + x"]) auto
    qed
    obtain s e where run: "(s, e) \<in> set (matchAll (Plus (Chr is_num)) T)" "s \<le> k" "k < e"
      using run_found [of 0 k T is_num] k by (auto simp: matchAll_def)
    have "(s, e) \<in> set (findAddressWindowDigits T)"
      unfolding findAddressWindowDigits_def Let_def using m run k by (force simp: list_ex_iff)
    with silent show False by simp
  qed
  then show ?thesis by (force simp: address_hits_def filter_empty_conv)
qed


text \<open>The runs of a character class, as positions and as words.\<close>

lemma slice_run:
  assumes "i < length s" "p (s ! i)"
  shows "slice i (i + length (takeWhile p (drop i s))) s = s ! i # takeWhile p (drop (Suc i) s)"
proof -
  have d: "drop i s = s ! i # drop (Suc i) s" using assms(1) by (simp add: Cons_nth_drop_Suc)
  then have "takeWhile p (drop i s) = s ! i # takeWhile p (drop (Suc i) s)" using assms(2) by simp
  then show ?thesis by (metis add_diff_cancel_left' slice_def takeWhile_eq_take)
qed

lemma runs_words: "i \<le> length s \<Longrightarrow> map (\<lambda>(a, b). slice a b s) (matches_from (Plus (Chr p)) s i) = words_by p (drop i s)"
proof (induction "Plus (Chr p)" s i rule: matches_from.induct)
  case (1 s i)
  let ?R = "Plus (Chr p)"
  show ?case
  proof (cases "i < length s")
    case False
    then have i: "i = length s" using 1 by simp
    have "matches_from ?R s (length s + 1) = []" by (subst matches_from.simps) simp
    moreover have "ends ?R s i = []" using ends_Plus_Chr(1) [of p s i] i by simp
    ultimately have "matches_from ?R s i = []" using i by (subst matches_from.simps) simp
    with i show ?thesis by simp
  next
    case True
    then have d: "drop i s = s ! i # drop (Suc i) s" by (simp add: Cons_nth_drop_Suc)
    show ?thesis
    proof (cases "ends ?R s i")
      case Nil
      then have "\<not> p (s ! i)" using ends_Plus_Chr(1) [of p s i] True by blast
      moreover have "matches_from ?R s i = matches_from ?R s (i + 1)" using Nil True by (subst matches_from.simps) simp
      moreover have "map (\<lambda>(a, b). slice a b s) (matches_from ?R s (i + 1)) = words_by p (drop (i + 1) s)"
        using 1(1) [OF _ Nil] True by simp
      ultimately show ?thesis using d by simp
    next
      case (Cons e es)
      then have pi: "p (s ! i)" using ends_Plus_Chr(1) [of p s i] by auto
      have e: "e = i + length (takeWhile p (drop i s))" using ends_Plus_Chr(2) [OF Cons] .
      have ie: "i < e" using e d pi by simp
      have el: "e \<le> length s" using ends_bounds [of e ?R s i] Cons True by auto
      have "matches_from ?R s i = (i, e) # matches_from ?R s e" using Cons True ie by (subst matches_from.simps) simp
      moreover have "map (\<lambda>(a, b). slice a b s) (matches_from ?R s e) = words_by p (drop e s)"
        using 1(2) [OF _ Cons] True ie el by simp
      moreover have "drop e s = dropWhile p (drop (Suc i) s)"
        using e d pi by (simp add: dropWhile_drop add.commute)
      moreover have "slice i e s = s ! i # takeWhile p (drop (Suc i) s)" using slice_run [of i s p, OF True pi] e by simp
      ultimately show ?thesis using d pi by simp
    qed
  qed
qed

lemma matchAll_words: "map (\<lambda>(a, b). slice a b s) (matchAll (Plus (Chr p)) s) = words_by p s"
  using runs_words [of 0 s p] by (simp add: matchAll_def)

lemma words_by_map: "words_by p (map f s) = map (map f) (words_by (\<lambda>c. p (f c)) s)"
  by (induction "\<lambda>c. p (f c)" s rule: words_by.induct) (simp_all add: takeWhile_map dropWhile_map comp_def)

lemma to_lower_classes: "is_lower (to_lower c) \<longleftrightarrow> is_alpha c" "is_num (to_lower c) \<longleftrightarrow> is_num c"
proof -
  have code: "char_code (to_lower c) = char_code c + 32" if "is_upper c"
    using that by (simp add: to_lower_def char_code_def is_upper_def)
  moreover have same: "to_lower c = c" if "\<not> is_upper c" using that by (simp add: to_lower_def)
  ultimately show "is_lower (to_lower c) \<longleftrightarrow> is_alpha c" "is_num (to_lower c) \<longleftrightarrow> is_num c"
    by (cases "is_upper c"; auto simp: is_lower_def is_alpha_def is_num_def is_upper_def)+
qed

lemma is_alnum_to_lower: "is_alnum (to_lower c) \<longleftrightarrow> is_alnum_i c"
  by (simp add: is_alnum_def is_alnum_i_def to_lower_classes)

lemma runs_lower:
  assumes "\<And>c. q (to_lower c) = p c"
  shows "map (\<lambda>(a, b). lowercase (slice a b s)) (matchAll (Plus (Chr p)) s) = words_by q (lowercase s)"
proof -
  have "map (\<lambda>(a, b). lowercase (slice a b s)) (matchAll (Plus (Chr p)) s)
      = map (map to_lower) (map (\<lambda>(a, b). slice a b s) (matchAll (Plus (Chr p)) s))"
    by (simp add: lowercase_def split_def comp_def)
  also have "\<dots> = words_by q (lowercase s)" by (simp only: matchAll_words) (simp add: lowercase_def words_by_map assms)
  finally show ?thesis .
qed


lemma spelled_words: "map (\<lambda>(a, b). lowercase (slice a b s)) (matchAll (Plus (Chr is_alpha)) s) = words_by is_lower (lowercase s)"
  by (rule runs_lower) (rule to_lower_classes)

lemma offset_words: "map fst (wordTokensWithOffsets s) = wordTokens s"
  using runs_lower [of is_alnum is_alnum_i s] is_alnum_to_lower
  by (simp add: wordTokensWithOffsets_def wordTokens_def split_def comp_def)

lemma spelled_count:
  "(ss_run st \<noteq> 0 \<longrightarrow> ss_start st \<noteq> None \<and> ss_end st \<noteq> None) \<Longrightarrow>
   length (ss_out (close_spelled (fold (spelled_step s) ms st)))
     = digit_runs (map (\<lambda>(a, b). lowercase (slice a b s)) ms) (length (ss_out st)) (ss_run st) (ss_pending st)"
proof (induction ms arbitrary: st)
  case Nil
  then show ?case by (auto simp: close_spelled_def close_run_def SPELLED_DIGITS_MIN_def)
next
  case (Cons m ms)
  let ?st = "spelled_step s m st"
  have inv: "ss_run ?st \<noteq> 0 \<longrightarrow> ss_start ?st \<noteq> None \<and> ss_end ?st \<noteq> None"
    using Cons.prems by (auto simp: spelled_step_def close_spelled_def Let_def split: prod.split option.split)
  have closed: "length (ss_out (close_spelled st)) = close_run (ss_run st) (length (ss_out st))"
    using Cons.prems by (auto simp: close_spelled_def close_run_def SPELLED_DIGITS_MIN_def)
  have other: "ss_run (close_spelled st) = 0" "ss_pending (close_spelled st) = 1" by (simp_all add: close_spelled_def)
  show ?case using Cons.IH [OF inv] closed other
    by (cases m) (auto simp: spelled_step_def Let_def split: option.splits)
qed

lemma spelled_length: "length (findSpelledDigitRuns T) = spelledOutDigitRuns (words_by is_lower (lowercase T))"
  using spelled_count [of "\<lparr>ss_out = [], ss_run = 0, ss_pending = 1, ss_start = None, ss_end = None\<rparr>" T
      "matchAll (Plus (Chr is_alpha)) T"]
  by (simp add: findSpelledDigitRuns_def spelledOutDigitRuns_def spelled_words)

lemma str_indexOf_None:
  "str_indexOf hay needle from = None \<Longrightarrow> from \<le> i \<Longrightarrow> i + length needle \<le> length hay \<Longrightarrow> take (length needle) (drop i hay) \<noteq> needle"
proof (induction hay needle "from" rule: str_indexOf.induct)
  case (1 hay needle "from")
  show ?case
  proof (cases "from = i")
    case True
    then show ?thesis using "1.prems" by (subst (asm) str_indexOf.simps) (auto split: if_splits)
  next
    case False
    moreover have "str_indexOf hay needle (Suc from) = None" "take (length needle) (drop from hay) \<noteq> needle"
      "\<not> from + length needle > length hay"
      using "1.prems" False by (subst (asm) str_indexOf.simps, auto split: if_splits)+
    ultimately show ?thesis using 1 by simp
  qed
qed

lemma occurrences_silent:
  assumes "occurrences hay needle 0 = []" "needle \<noteq> []"
  shows "\<not> str_includes hay needle"
proof
  assume "str_includes hay needle"
  then obtain u v where h: "hay = u @ needle @ v" by (auto simp: str_includes_def sublist_def)
  have "str_indexOf hay needle 0 = None" using assms by (subst (asm) occurrences.simps) (auto split: option.splits)
  from str_indexOf_None [OF this, of "length u"] h show False by simp
qed

lemma collapsed_silent: "collapsedOccurrences (aggressiveShadow T) needle = [] \<Longrightarrow> needle \<noteq> [] \<Longrightarrow> \<not> str_includes (normalizeAggressive T) needle"
  using occurrences_silent by (auto simp: collapsedOccurrences_def shadow_normal)

lemma deny_silent:
  assumes "findDenyTermOccurrences T terms = []" "t \<in> set terms" "length (normalizeAggressive t) \<ge> 3"
  shows "\<not> str_includes (normalizeAggressive T) (normalizeAggressive t)"
  using assms by (intro collapsed_silent) (auto simp: findDenyTermOccurrences_def REINTRO_MIN_CHARS_def Let_def)

lemma matches_here_take: "matches_here hay needle \<longleftrightarrow> take (length needle) hay = needle"
  by (induction hay needle rule: matches_here.induct) auto

lemma word_sequences_silent: "word_sequences needle hay = [] \<Longrightarrow> needle \<noteq> [] \<Longrightarrow> \<not> sequence_from (map fst hay) needle"
proof (induction needle hay rule: word_sequences.induct)
  case (1 needle hay)
  have short: "\<not> sequence_from hs needle" if "length hs < length needle" for hs
    using that \<open>needle \<noteq> []\<close> by (induction hs) (auto simp: matches_here_take dest: arg_cong [of _ _ length])
  show ?case
  proof (cases "length hay < length needle")
    case True
    then show ?thesis using short by simp
  next
    case False
    then have no: "map fst (take (length needle) hay) \<noteq> needle" "word_sequences needle (tl hay) = []"
      using "1.prems" by (subst (asm) word_sequences.simps, auto split: if_splits)+
    obtain h hs where h: "hay = h # hs" using False "1.prems" by (cases hay) auto
    have "\<not> sequence_from (map fst (tl hay)) needle" using 1(2) no False "1.prems" by blast
    then show ?thesis using no(1) h by (simp add: matches_here_take) (metis list.simps(9) take_map)
  qed
qed

lemma vault_silent:
  assumes "findVaultOccurrences T plain = []"
  shows "\<not> reintroduced plain (normalizeAggressive T) (wordTokens T)"
proof -
  let ?n = "normalizeAggressive plain"
  consider "length ?n < 3" | "8 \<le> length ?n" | "3 \<le> length ?n" "length ?n < 8" by linarith
  then show ?thesis
  proof cases
    case 2
    then have "collapsedOccurrences (aggressiveShadow T) ?n = []"
      using assms by (simp add: findVaultOccurrences_def REINTRO_MIN_CHARS_def REINTRO_CONCAT_MIN_CHARS_def Let_def)
    then have "\<not> str_includes (normalizeAggressive T) ?n" using 2 by (intro collapsed_silent) auto
    then show ?thesis using 2 by (simp add: reintroduced_def REINTRO_MIN_CHARS_def REINTRO_CONCAT_MIN_CHARS_def Let_def)
  next
    case 3
    then have "word_sequences (wordTokens plain) (wordTokensWithOffsets T) = []"
      using assms by (simp add: findVaultOccurrences_def REINTRO_MIN_CHARS_def REINTRO_CONCAT_MIN_CHARS_def Let_def wordTokens_def)
    then show ?thesis using 3 word_sequences_silent [of "wordTokens plain" "wordTokensWithOffsets T"]
      by (auto simp: reintroduced_def containsWordSequence_def offset_words REINTRO_MIN_CHARS_def REINTRO_CONCAT_MIN_CHARS_def Let_def)
  qed (simp add: reintroduced_def REINTRO_MIN_CHARS_def Let_def)
qed

text \<open>All mirrors together.\<close>

lemma repair_candidates_silent:
  assumes "repair_candidates T deny tk = []" "strip_tokens out = T"
  shows "list_all (\<lambda>(category, n). n = 0) (residual_adds out (map snd (tz_vaultEntries tk)) deny)"
proof -
  have silent: "findLongDigitRuns T = []" "findSpelledDigitRuns T = []" "findGreetingNames T = []" "findEmailLike T = []"
    "findAddressWindowDigits T = []" "findDenyTermOccurrences T deny = []"
    "\<And>token plain. (token, plain) \<in> set (tz_vaultEntries tk) \<Longrightarrow> findVaultOccurrences T plain = []"
    using assms(1) by (auto simp: repair_candidates_def Let_def)
  have T: "replace_all TOKEN_PATTERN '' '' out = T" using assms(2) by (simp add: strip_tokens_def)
  have v: "filter (\<lambda>p. reintroduced p (normalizeAggressive T) (wordTokens T)) (map snd (tz_vaultEntries tk)) = []"
    using silent(7) vault_silent by (auto simp: filter_empty_conv)
  have d: "filter (\<lambda>t. let needle = normalizeAggressive t in 3 \<le> length needle \<and> str_includes (normalizeAggressive T) needle) deny = []"
    using deny_silent [OF silent(6)] by (auto simp: filter_empty_conv Let_def)
  have e: "matchAll EMAIL_AT_SIGN T = []" "matchAll EMAIL_SPOKEN T = []" using silent(4) by (simp_all add: findEmailLike_def)
  show ?thesis unfolding residual_adds_def Let_def T
    using v d e digits_silent [OF silent(1)] spelled_length [of T] silent(2) greeting_silent [OF silent(3)] address_silent [OF silent(5)]
    by (simp add: Let_def)
qed


lemma matches_from_mem: "(a, b) \<in> set (matches_from r s i) \<Longrightarrow> i \<le> a \<and> a \<le> length s \<and> (\<exists>es. ends r s a = b # es)"
proof (induction r s i rule: matches_from.induct)
  case (1 r s i)
  then show ?case by (subst (asm) matches_from.simps) (fastforce split: if_splits list.splits)
qed

lemma matchAll_mem: "(a, b) \<in> set (matchAll r s) \<Longrightarrow> a \<le> length s \<and> (\<exists>es. ends r s a = b # es)"
  unfolding matchAll_def using matches_from_mem by blast

text \<open>Conversely a mirror fires only where the scan would.\<close>

lemma greeting_fires:
  assumes "matchAll GREETING_STRONG T = []" "matchAll GREETING_WEAK T = []"
  shows "findGreetingNames T = []"
proof -
  have "matchAll (Seq strong_cue strong_names) T = []"
  proof (rule matchAll_Nil_mono [OF assms(1)])
    fix k j assume "j \<in> set (ends (Seq strong_cue strong_names) T k)"
    then obtain i m where "i \<in> set (ends strong_cue T k)" "m \<in> set (ends name_word T i)"
      unfolding strong_names_def mem_Seq by blast
    then have "m \<in> set (ends GREETING_STRONG T k)"
      unfolding GREETING_STRONG_def strong_cue_def Seqs.simps mem_Seq by blast
    then show "ends GREETING_STRONG T k \<noteq> []" by fastforce
  qed
  moreover have "matchAll (Seq weak_cue weak_names) T = []"
  proof (rule matchAll_Nil_mono [OF assms(2)])
    fix k j assume "j \<in> set (ends (Seq weak_cue weak_names) T k)"
    then obtain i m l where "i \<in> set (ends weak_cue T k)" "m \<in> set (ends name_word T i)" "l \<in> set (ends more_names T m)"
      unfolding weak_names_def Plus_def mem_Seq by blast
    then have "l \<in> set (ends GREETING_WEAK T k)"
      unfolding GREETING_WEAK_def weak_cue_def more_names_def Seqs.simps mem_Seq by blast
    then show "ends GREETING_WEAK T k \<noteq> []" by fastforce
  qed
  ultimately show ?thesis by (simp add: findGreetingNames_def capture_silent)
qed

lemma address_fires:
  assumes "address_hits T = 0"
  shows "findAddressWindowDigits T = []"
proof (rule ccontr)
  assume "findAddressWindowDigits T \<noteq> []"
  then obtain s e where "(s, e) \<in> set (findAddressWindowDigits T)" by (cases "findAddressWindowDigits T") auto
  then obtain a b where run: "(s, e) \<in> set (matchAll (Plus (Chr is_num)) T)" and m: "(a, b) \<in> set (matchAll ADDRESS_KEYWORD T)"
    and w: "s < min (length T) (b + ADDRESS_WINDOW_CHARS)" "a - ADDRESS_WINDOW_CHARS < e"
    by (fastforce simp: findAddressWindowDigits_def Let_def list_ex_iff split: if_splits)
  let ?from = "a - ADDRESS_WINDOW_CHARS" and ?to = "min (length T) (b + ADDRESS_WINDOW_CHARS)"
  have ab: "a \<le> b"
  proof -
    obtain es where "ends ADDRESS_KEYWORD T a = b # es" "a \<le> length T" using matchAll_mem [OF m] by blast
    then show ?thesis using ends_bounds [of b ADDRESS_KEYWORD T a] by simp
  qed
  have se: "s < e" "e \<le> length T" "\<forall>k \<in> {s..<e}. is_num (T ! k)"
    using matchAll_mem [OF run] mem_Plus_Chr [of e is_num T s] by auto
  let ?k = "max s ?from"
  have k: "?from \<le> ?k" "?k < ?to" "is_num (T ! ?k)" using se w ab by (auto simp: ADDRESS_WINDOW_CHARS_def)
  then have "?k - ?from < length (slice ?from ?to T)" "slice ?from ?to T ! (?k - ?from) = T ! ?k"
    by (auto simp: slice_def)
  then have "rx_test (Chr is_num) (slice ?from ?to T)" unfolding digit_test using k by metis
  with assms m show False by (auto simp: address_hits_def filter_empty_conv)
qed

lemma occurrences_fires: "\<not> str_includes hay needle \<Longrightarrow> occurrences hay needle 0 = []"
proof (rule ccontr)
  assume no: "\<not> str_includes hay needle" and "occurrences hay needle 0 \<noteq> []"
  then obtain i where "str_indexOf hay needle 0 = Some i" by (subst (asm) occurrences.simps) (auto split: if_splits option.splits)
  from str_indexOf_Some [OF this] have "hay = take i hay @ needle @ drop (length needle) (drop i hay)"
    by (metis append_take_drop_id)
  with no show False by (auto simp: str_includes_def sublist_def)
qed

lemma word_sequences_fires: "needle \<noteq> [] \<Longrightarrow> \<not> sequence_from (map fst hay) needle \<Longrightarrow> word_sequences needle hay = []"
proof (induction needle hay rule: word_sequences.induct)
  case (1 needle hay)
  show ?case
  proof (cases "length hay < length needle")
    case True
    then show ?thesis by (subst word_sequences.simps) simp
  next
    case False
    then obtain h hs where h: "hay = h # hs" using "1.prems" by (cases hay) auto
    then have no: "take (length needle) (map fst hay) \<noteq> needle" "\<not> sequence_from (map fst (tl hay)) needle"
      using "1.prems"(2) by (auto simp: matches_here_take)
    then have "word_sequences needle (tl hay) = []" using 1(2) False "1.prems"(1) by (simp add: take_map)
    then show ?thesis using no(1) False by (subst word_sequences.simps) (simp add: take_map)
  qed
qed

lemma wordTokens_nonempty: "normalizeAggressive p \<noteq> [] \<Longrightarrow> wordTokens p \<noteq> []"
proof -
  have "words_by q s = [] \<Longrightarrow> filter q s = []" for q s by (induction q s rule: words_by.induct) (auto split: if_splits)
  then show "normalizeAggressive p \<noteq> [] \<Longrightarrow> wordTokens p \<noteq> []"
    by (auto simp: normalizeAggressive_def remove_all_char wordTokens_def)
qed

lemma vault_fires:
  assumes "\<not> reintroduced plain (normalizeAggressive T) (wordTokens T)"
  shows "findVaultOccurrences T plain = []"
proof -
  let ?n = "normalizeAggressive plain"
  consider "length ?n < 3" | "8 \<le> length ?n" | "3 \<le> length ?n" "length ?n < 8" by linarith
  then show ?thesis
  proof cases
    case 2
    then show ?thesis using assms occurrences_fires [of "normalizeAggressive T" ?n]
      by (simp add: reintroduced_def findVaultOccurrences_def collapsedOccurrences_def shadow_normal
          REINTRO_MIN_CHARS_def REINTRO_CONCAT_MIN_CHARS_def Let_def)
  next
    case 3
    then have "wordTokens plain \<noteq> []" using wordTokens_nonempty [of plain] by force
    then show ?thesis using 3 assms word_sequences_fires [of "wordTokens plain" "wordTokensWithOffsets T"]
      by (simp add: reintroduced_def containsWordSequence_def offset_words findVaultOccurrences_def
          REINTRO_MIN_CHARS_def REINTRO_CONCAT_MIN_CHARS_def Let_def wordTokens_def)
  qed (simp add: findVaultOccurrences_def REINTRO_MIN_CHARS_def Let_def)
qed

lemma deny_fires:
  assumes "\<And>t. t \<in> set terms \<Longrightarrow> length (normalizeAggressive t) \<ge> 3 \<Longrightarrow> \<not> str_includes (normalizeAggressive T) (normalizeAggressive t)"
  shows "findDenyTermOccurrences T terms = []"
  using assms occurrences_fires
  by (auto simp: findDenyTermOccurrences_def Let_def REINTRO_MIN_CHARS_def collapsedOccurrences_def shadow_normal)

lemma repair_candidates_fire:
  assumes "strip_tokens out = T" "list_all (\<lambda>(category, n). n = 0) (residual_adds out (map snd (tz_vaultEntries tk)) deny)"
  shows "repair_candidates T deny tk = []"
proof -
  have T: "replace_all TOKEN_PATTERN '' '' out = T" using assms(1) by (simp add: strip_tokens_def)
  have clean: "filter (\<lambda>p. reintroduced p (normalizeAggressive T) (wordTokens T)) (map snd (tz_vaultEntries tk)) = []"
    "matchAll DIGIT_RUN (normalizeAggressive T) = []" "spelledOutDigitRuns (words_by is_lower (lowercase T)) = 0"
    "matchAll EMAIL_AT_SIGN T = []" "matchAll EMAIL_SPOKEN T = []" "address_hits T = 0"
    "matchAll GREETING_STRONG T = []" "matchAll GREETING_WEAK T = []"
    "filter (\<lambda>t. let needle = normalizeAggressive t in 3 \<le> length needle \<and> str_includes (normalizeAggressive T) needle) deny = []"
    using assms(2) unfolding residual_adds_def Let_def T by (simp_all del: filter_empty_conv add: filter_map)
  have "findLongDigitRuns T = []" using clean(2) by (simp add: findLongDigitRuns_def Let_def shadow_normal)
  moreover have "findSpelledDigitRuns T = []" using clean(3) spelled_length [of T] by simp
  moreover have "findEmailLike T = []" using clean(4,5) by (simp add: findEmailLike_def)
  moreover have "findDenyTermOccurrences T deny = []"
    using clean(9) by (intro deny_fires) (auto simp: filter_empty_conv Let_def)
  moreover have "findVaultOccurrences T plain = []" if "(token, plain) \<in> set (tz_vaultEntries tk)" for token plain
    using clean(1) that by (intro vault_fires) (auto simp: filter_empty_conv)
  ultimately show ?thesis using greeting_fires [OF clean(7,8)] address_fires [OF clean(6)]
    by (auto simp: repair_candidates_def Let_def)
qed

section \<open>Mirror spans are visible\<close>

text \<open>A span with a character other than the blank the loop inserts.\<close>

definition visible :: "string \<Rightarrow> mirror_span \<Rightarrow> bool" where
  "visible T sp \<longleftrightarrow> (\<exists>k < length T. fst sp \<le> k \<and> k < snd sp \<and> T ! k \<noteq> CHR '' '')"

lemma visibleI: "a < b \<Longrightarrow> a < length T \<Longrightarrow> T ! a \<noteq> CHR '' '' \<Longrightarrow> visible T (a, b)"
  by (auto simp: visible_def)

lemma class_not_blank: "is_alpha c \<Longrightarrow> c \<noteq> CHR '' ''" "is_alnum_i c \<Longrightarrow> c \<noteq> CHR '' ''" "is_num c \<Longrightarrow> c \<noteq> CHR '' ''"
  "is_upper c \<Longrightarrow> c \<noteq> CHR '' ''"
  by (auto simp: is_alpha_def is_alnum_i_def is_num_def is_upper_def is_lower_def char_code_def)

lemma run_mem:
  assumes "(a, b) \<in> set (matchAll (Plus (Chr p)) s)"
  shows "a < b" "b \<le> length s" "p (s ! a)"
  using matchAll_mem [OF assms] mem_Plus_Chr [of b p s a] by auto

text \<open>The shadow keeps positions in order.\<close>

lemma shadow_mem: "x \<in> set (aggressiveShadow T) \<Longrightarrow> snd x < length T \<and> is_alnum_i (T ! snd x)"
  by (auto simp: aggressiveShadow_def set_zip is_alnum_to_lower)

lemma shadow_sorted: "sorted_wrt (<) (map snd (aggressiveShadow T))"
proof -
  have "sorted_wrt (\<lambda>x y. snd x < snd y) (zip (map to_lower T) [0..<length T])"
    by (simp add: sorted_wrt_iff_nth_less)
  then show ?thesis unfolding aggressiveShadow_def sorted_wrt_map by (rule sorted_wrt_filter)
qed

lemma shadowSpan_visible:
  assumes "start + len \<le> length (aggressiveShadow T)" "0 < len"
  shows "visible T (shadowSpan (aggressiveShadow T) start len)"
proof -
  let ?S = "aggressiveShadow T"
  have "snd (?S ! start) \<le> snd (?S ! (start + len - 1))"
  proof (cases "len = 1")
    case False
    then have "start < start + len - 1" "start + len - 1 < length ?S" using assms by linarith+
    then show ?thesis using sorted_wrt_nth_less [OF shadow_sorted [of T], of start "start + len - 1"] by simp
  qed simp
  moreover have "?S ! start \<in> set ?S" using assms by simp
  ultimately show ?thesis using shadow_mem [of "?S ! start" T] class_not_blank(2)
    by (auto simp: shadowSpan_def intro!: visibleI)
qed

lemma shadow_length: "length (shadow_chars shadow) = length shadow"
  by (simp add: shadow_chars_def)

lemma digit_run_nonempty: "b \<in> set (ends DIGIT_RUN s a) \<Longrightarrow> a < b"
proof -
  assume "b \<in> set (ends DIGIT_RUN s a)"
  moreover have "DIGIT_RUN = Seq (Chr is_num) (Seqs (replicate 6 (Chr is_num) @ [Star (Chr is_num)]))"
    by (simp add: DIGIT_RUN_def numeral_eq_Suc)
  ultimately obtain k where k: "k \<in> set (ends (Chr is_num) s a)"
    "b \<in> set (ends (Seqs (replicate 6 (Chr is_num) @ [Star (Chr is_num)])) s k)" unfolding mem_Seq by (metis mem_Seq)
  then have "k = a + 1" "k \<le> length s" by (auto split: if_splits)
  with ends_bounds [OF k(2)] show "a < b" by simp
qed

lemma digits_visible: "list_all (visible T) (findLongDigitRuns T)"
proof -
  have "visible T (shadowSpan (aggressiveShadow T) a (b - a))" if "(a, b) \<in> set (matchAll DIGIT_RUN (shadow_chars (aggressiveShadow T)))" for a b
  proof (rule shadowSpan_visible)
    have a: "a \<le> length (aggressiveShadow T)" "b \<in> set (ends DIGIT_RUN (shadow_chars (aggressiveShadow T)) a)"
      using matchAll_mem [OF that] by (auto simp: shadow_length)
    then show "0 < b - a" using digit_run_nonempty by auto
    show "a + (b - a) \<le> length (aggressiveShadow T)"
      using ends_bounds [OF a(2)] a(1) by (simp add: shadow_length)
  qed
  then show ?thesis by (auto simp: findLongDigitRuns_def Let_def list_all_iff)
qed

lemma occurrences_mem: "i \<in> set (occurrences hay needle from) \<Longrightarrow> i + length needle \<le> length hay \<and> needle \<noteq> []"
proof (induction hay needle "from" rule: occurrences.induct)
  case (1 hay needle "from")
  show ?case
  proof (cases "str_indexOf hay needle from")
    case None
    with "1.prems" show ?thesis by (subst (asm) occurrences.simps) (simp split: if_splits)
  next
    case (Some k)
    with "1.prems" have ne: "needle \<noteq> []" and i: "i = k \<or> i \<in> set (occurrences hay needle (k + length needle))"
      by (subst (asm) occurrences.simps, simp split: if_splits)+
    from i show ?thesis using str_indexOf_Some [OF Some] "1.IH" [OF ne Some] ne by blast
  qed
qed

lemma collapsed_visible: "list_all (visible T) (collapsedOccurrences (aggressiveShadow T) needle)"
  using occurrences_mem [of _ "shadow_chars (aggressiveShadow T)" needle 0]
  by (auto simp: collapsedOccurrences_def list_all_iff shadow_length intro!: shadowSpan_visible)

lemma deny_visible: "list_all (visible T) (findDenyTermOccurrences T terms)"
  using collapsed_visible by (auto simp: findDenyTermOccurrences_def Let_def list_all_iff split: if_splits)

lemma word_sequences_visible:
  "sorted_wrt (\<lambda>x y. snd (snd x) \<le> fst (snd y)) hay \<Longrightarrow>
   \<forall>x \<in> set hay. fst (snd x) < snd (snd x) \<and> fst (snd x) < length T \<and> T ! fst (snd x) \<noteq> CHR '' '' \<Longrightarrow>
   list_all (visible T) (word_sequences needle hay)"
proof (induction needle hay rule: word_sequences.induct)
  case (1 needle hay)
  show ?case
  proof (cases "needle = [] \<or> length hay < length needle")
    case True
    then show ?thesis by (subst word_sequences.simps) simp
  next
    case False
    let ?x = "hay ! 0" and ?y = "hay ! (length needle - 1)"
    have ne: "hay \<noteq> []" "length needle - 1 < length hay" using False by (cases needle; auto)+
    then have m: "?x \<in> set hay" "?y \<in> set hay" by auto
    have "fst (snd ?x) < snd (snd ?y)"
    proof (cases "length needle = 1")
      case False2: False
      then have "snd (snd ?x) \<le> fst (snd ?y)"
        using sorted_wrt_nth_less [OF "1.prems"(1), of 0 "length needle - 1"] ne False by (cases needle) auto
      moreover have "fst (snd ?x) < snd (snd ?x)" "fst (snd ?y) < snd (snd ?y)" using "1.prems"(2) m by blast+
      ultimately show ?thesis by linarith
    qed (use "1.prems"(2) m in simp)
    then have "visible T (fst (snd ?x), snd (snd ?y))" using "1.prems"(2) m by (intro visibleI) auto
    moreover have "list_all (visible T) (word_sequences needle (drop (length needle) hay))"
      if "map fst (take (length needle) hay) = needle"
      using 1(1) [OF False that] "1.prems" by (metis in_set_dropD sorted_wrt_drop)
    moreover have "list_all (visible T) (word_sequences needle (tl hay))"
      if "map fst (take (length needle) hay) \<noteq> needle"
      using 1(2) [OF False that] "1.prems" by (cases hay) simp_all
    ultimately show ?thesis using False by (subst word_sequences.simps) auto
  qed
qed

lemma ordered_sorted: "ordered_from lo n ms \<Longrightarrow> sorted_wrt (\<lambda>x y. snd x \<le> fst y) ms \<and> (\<forall>m \<in> set ms. lo \<le> fst m)"
  by (induction lo n ms rule: ordered_from.induct) force+

lemma vault_visible: "list_all (visible T) (findVaultOccurrences T plain)"
proof -
  have "sorted_wrt (\<lambda>x y. snd (snd x) \<le> fst (snd y)) (wordTokensWithOffsets T)"
    using ordered_sorted [OF matchAll_ordered] by (simp add: wordTokensWithOffsets_def sorted_wrt_map split_def)
  moreover have "\<forall>x \<in> set (wordTokensWithOffsets T). fst (snd x) < snd (snd x) \<and> fst (snd x) < length T \<and> T ! fst (snd x) \<noteq> CHR '' ''"
    using run_mem [where p = is_alnum_i] class_not_blank(2) by (fastforce simp: wordTokensWithOffsets_def)
  ultimately show ?thesis using word_sequences_visible collapsed_visible
    by (auto simp: findVaultOccurrences_def Let_def)
qed

lemma address_visible: "list_all (visible T) (findAddressWindowDigits T)"
  using run_mem [where p = is_num] class_not_blank(3)
  by (fastforce simp: findAddressWindowDigits_def Let_def list_all_iff intro!: visibleI)


text \<open>Spelled digits: the open run starts at a letter and ends after its start.\<close>

definition spelled_inv :: "string \<Rightarrow> nat \<Rightarrow> spelled_state \<Rightarrow> bool" where
  "spelled_inv T lo st \<longleftrightarrow> list_all (visible T) (ss_out st)
     \<and> (case ss_start st of None \<Rightarrow> ss_end st = None
        | Some a \<Rightarrow> a < lo \<and> a < length T \<and> is_alpha (T ! a) \<and> (case ss_end st of None \<Rightarrow> True | Some b \<Rightarrow> a < b))"

lemma close_spelled_inv: "spelled_inv T lo st \<Longrightarrow> spelled_inv T lo' (close_spelled st)"
  using class_not_blank(1) by (auto simp: spelled_inv_def close_spelled_def intro!: visibleI split: option.splits)

lemma spelled_step_inv:
  assumes "spelled_inv T lo st" "lo \<le> a" "a < b" "b \<le> length T" "is_alpha (T ! a)"
  shows "spelled_inv T b (spelled_step T (a, b) st)"
  using assms close_spelled_inv [OF assms(1), of b]
  by (auto simp: spelled_step_def Let_def spelled_inv_def split: option.splits)

lemma spelled_fold_inv:
  "spelled_inv T lo st \<Longrightarrow> ordered_from lo (length T) ms \<Longrightarrow> \<forall>(a, b) \<in> set ms. a < b \<and> is_alpha (T ! a) \<Longrightarrow>
   \<exists>hi. spelled_inv T hi (fold (spelled_step T) ms st)"
proof (induction lo "length T" ms arbitrary: st rule: ordered_from.induct)
  case (2 lo a b ms)
  then have "spelled_inv T b (spelled_step T (a, b) st)" by (intro spelled_step_inv) auto
  then show ?case using 2 by simp
qed auto

lemma spelled_visible: "list_all (visible T) (findSpelledDigitRuns T)"
proof -
  let ?st = "\<lparr>ss_out = [], ss_run = 0, ss_pending = 1, ss_start = None, ss_end = None\<rparr>"
  have "\<exists>hi. spelled_inv T hi (fold (spelled_step T) (matchAll (Plus (Chr is_alpha)) T) ?st)"
    using run_mem [where p = is_alpha] by (intro spelled_fold_inv [where lo = 0] matchAll_ordered) (auto simp: spelled_inv_def)
  then show ?thesis using close_spelled_inv by (fastforce simp: findSpelledDigitRuns_def spelled_inv_def)
qed

text \<open>Names and e-mail addresses: a match of a pattern that starts with a character class.\<close>

lemma ends_Seq_Chr: "j \<in> set (ends (Seq (Chr p) r) s i) \<Longrightarrow> i < length s \<and> p (s ! i) \<and> i < j"
  using ends_bounds [of j r s "i + 1"] by (auto split: if_splits)

lemma ends_Seq_Plus: "j \<in> set (ends (Seq (Plus (Chr p)) r) s i) \<Longrightarrow> i < length s \<and> p (s ! i) \<and> i < j"
proof -
  assume "j \<in> set (ends (Seq (Plus (Chr p)) r) s i)"
  then obtain k where k: "k \<in> set (ends (Plus (Chr p)) s i)" "j \<in> set (ends r s k)" unfolding mem_Seq by blast
  then show ?thesis using ends_bounds [OF k(2)] by (auto simp: mem_Plus_Chr)
qed

lemma name_start: "j \<in> set (ends (Seq name_word r) s i) \<Longrightarrow> i < length s \<and> is_upper (s ! i) \<and> i < j"
proof -
  assume "j \<in> set (ends (Seq name_word r) s i)"
  then obtain k where k: "k \<in> set (ends name_word s i)" "j \<in> set (ends r s k)" unfolding mem_Seq by blast
  from ends_Seq_Chr [OF k(1) [unfolded name_word_def]] have i: "i < length s" "is_upper (s ! i)" "i < k" by auto
  then show ?thesis using ends_bounds [OF k(2)] ends_bounds [OF k(1)] by simp
qed

lemma hd_concat_map: "concat (map f xs) = e # es \<Longrightarrow> \<exists>es'. f (hd (filter (\<lambda>p. f p \<noteq> []) xs)) = e # es'"
proof (induction xs)
  case (Cons x xs)
  then show ?case by (cases "f x") auto
qed simp

lemma capture_visible:
  assumes "\<And>i j. j \<in> set (ends cap s i) \<Longrightarrow> i < length s \<and> is_upper (s ! i) \<and> i < j"
  shows "list_all (visible s) (capture_tail pre cap s)"
proof -
  have "visible s (hd (filter (\<lambda>p. ends cap s p \<noteq> []) (ends pre s a)), b)" if "(a, b) \<in> set (matchAll (Seq pre cap) s)" for a b
  proof -
    have "\<exists>es. concat (map (ends cap s) (ends pre s a)) = b # es" using matchAll_mem [OF that] by simp
    then obtain es' where "ends cap s (hd (filter (\<lambda>p. ends cap s p \<noteq> []) (ends pre s a))) = b # es'"
      using hd_concat_map [of "ends cap s" "ends pre s a" b] by auto
    then show ?thesis using assms [of b "hd (filter (\<lambda>p. ends cap s p \<noteq> []) (ends pre s a))"] class_not_blank(4)
      by (auto intro!: visibleI)
  qed
  then show ?thesis by (auto simp: capture_tail_def list_all_iff)
qed

lemma greeting_visible: "list_all (visible T) (findGreetingNames T)"
proof -
  have "list_all (visible T) (capture_tail strong_cue strong_names T)"
    by (rule capture_visible) (use name_start in \<open>auto simp: strong_names_def simp del: ends.simps\<close>)
  moreover have "list_all (visible T) (capture_tail weak_cue weak_names T)"
    by (rule capture_visible) (use name_start in \<open>auto simp: weak_names_def simp del: ends.simps\<close>)
  ultimately show ?thesis by (simp add: findGreetingNames_def)
qed

lemma email_visible: "list_all (visible T) (findEmailLike T)"
proof -
  have at: "visible T (a, b)" if m: "(a, b) \<in> set (matchAll EMAIL_AT_SIGN T)" for a b
  proof -
    have "b \<in> set (ends EMAIL_AT_SIGN T a)" using matchAll_mem [OF m] by auto
    from ends_Seq_Plus [OF this [unfolded EMAIL_AT_SIGN_def Seqs.simps]] show ?thesis
      using class_not_blank(2) by (auto intro!: visibleI)
  qed
  have sp: "visible T (a, b)" if m: "(a, b) \<in> set (matchAll EMAIL_SPOKEN T)" for a b
  proof -
    have "b \<in> set (ends EMAIL_SPOKEN T a)" using matchAll_mem [OF m] by auto
    then obtain k r where "k \<in> set (ends WordB T a)" "b \<in> set (ends (Seq (Plus (Chr is_alnum_i)) r) T k)"
      unfolding EMAIL_SPOKEN_def Seqs.simps mem_Seq [of _ WordB] by blast
    then have "k = a" "b \<in> set (ends (Seq (Plus (Chr is_alnum_i)) r) T k)" by (auto split: if_splits)
    then show ?thesis using ends_Seq_Plus [of b is_alnum_i r T a] class_not_blank(2) by (auto intro!: visibleI)
  qed
  show ?thesis using at sp by (auto simp: findEmailLike_def list_all_iff)
qed

lemma candidates_visible: "(sp, e, d) \<in> set (repair_candidates T deny tk) \<Longrightarrow> visible T sp"
  using digits_visible [of T] spelled_visible [of T] greeting_visible [of T] email_visible [of T] address_visible [of T]
    deny_visible [of T deny] vault_visible [of T]
  by (auto simp: repair_candidates_def Let_def list_all_iff)


section \<open>Rounds of the repair\<close>

text \<open>The mapped positions of the effective text increase and are uncovered.\<close>

definition eff_positions :: "effective \<Rightarrow> nat list" where
  "eff_positions eff = List.map_filter snd eff"

lemma map_filter_append [simp]: "List.map_filter f (xs @ ys) = List.map_filter f xs @ List.map_filter f ys"
  by (simp add: List.map_filter_def)

lemma map_filter_Some: "List.map_filter snd (map (\<lambda>i. (g i, Some i)) xs) = xs"
  by (simp add: List.map_filter_def comp_def)

lemma effective_from_positions:
  "disjoint_spans (length tx) ss \<Longrightarrow> \<forall>s \<in> set ss. pos \<le> d_start s \<Longrightarrow>
   sorted_wrt (<) (eff_positions (effective_from tx pos ss))
     \<and> set (eff_positions (effective_from tx pos ss)) = {pos..<length tx} - positions ss"
proof (induction ss arbitrary: pos)
  case Nil
  then show ?case by (simp add: eff_positions_def map_filter_Some)
next
  case (Cons s ss)
  let ?rest = "eff_positions (effective_from tx (d_end s) ss)"
  have ds: "det_ok (length tx) s" "disjoint_spans (length tx) ss" "\<forall>t \<in> set ss. d_end s \<le> d_start t"
    using Cons.prems disjoint_Cons by auto
  then have IH: "sorted_wrt (<) ?rest" "set ?rest = {d_end s..<length tx} - positions ss" using Cons.IH by auto
  have e: "eff_positions (effective_from tx pos (s # ss)) = [pos..<d_start s] @ ?rest"
    using Cons.prems by (simp add: eff_positions_def map_filter_Some)
  have s: "d_start s < d_end s" "d_end s \<le> length tx" "pos \<le> d_start s" using ds(1) Cons.prems by (auto simp: det_ok_def)
  have later: "positions ss \<subseteq> {d_end s..}" using ds(3) by (fastforce simp: positions_def)
  have "set (eff_positions (effective_from tx pos (s # ss))) = {pos..<length tx} - positions (s # ss)"
    unfolding e using IH(2) s later by auto
  moreover have "sorted_wrt (<) (eff_positions (effective_from tx pos (s # ss)))"
    unfolding e using IH s by (auto simp: sorted_wrt_append)
  ultimately show ?case by simp
qed

lemma effective_positions:
  assumes "disjoint_spans (length tx) ss"
  shows "sorted_wrt (<) (eff_positions (effectiveText tx ss))"
    and "set (eff_positions (effectiveText tx ss)) = {..<length tx} - positions ss"
  using effective_from_positions [OF assms, of 0] assms by (auto simp: effectiveText_def disjoint_sorted)

text \<open>Only an inserted blank has no position.\<close>

lemma effective_from_blank: "(c, None) \<in> set (effective_from tx pos ss) \<Longrightarrow> c = CHR '' ''"
  by (induction ss arbitrary: pos) (auto split: if_splits)

lemma effective_blank: "k < length (effectiveText tx ss) \<Longrightarrow> eff_text (effectiveText tx ss) ! k \<noteq> CHR '' '' \<Longrightarrow>
    \<exists>i. snd (effectiveText tx ss ! k) = Some i"
  using effective_from_blank [of "fst (effectiveText tx ss ! k)" tx 0 "sort_key d_start ss"]
  by (cases "effectiveText tx ss ! k"; cases "snd (effectiveText tx ss ! k)")
     (auto simp: eff_text_def effectiveText_def in_set_conv_nth)

lemma toOriginal_visible:
  assumes "disjoint_spans (length tx) ss" "visible (eff_text (effectiveText tx ss)) sp"
  obtains i j where "toOriginal (effectiveText tx ss) sp = Some (i, j)" "i < j" "j \<le> length tx" "i \<notin> positions ss"
proof -
  let ?eff = "effectiveText tx ss"
  let ?part = "take (snd sp - fst sp) (drop (fst sp) ?eff)"
  let ?is = "List.map_filter snd ?part"
  obtain k where k: "k < length ?eff" "fst sp \<le> k" "k < snd sp" "eff_text ?eff ! k \<noteq> CHR '' ''"
    using assms(2) by (auto simp: visible_def eff_text_def)
  then obtain i where "snd (?eff ! k) = Some i" using effective_blank by blast
  moreover have "?eff ! k \<in> set ?part"
    using k by (auto simp: in_set_conv_nth intro!: exI [of _ "k - fst sp"])
  ultimately have "i \<in> set ?is" by (force simp: List.map_filter_def)
  then obtain a as where as: "?is = a # as" by (cases ?is) auto
  have eff: "eff_positions ?eff = List.map_filter snd (take (fst sp) ?eff) @ ?is @ List.map_filter snd (drop (snd sp - fst sp) (drop (fst sp) ?eff))"
    unfolding eff_positions_def by (metis append_take_drop_id map_filter_append)
  have sub: "set ?is \<subseteq> set (eff_positions ?eff)" unfolding eff by auto
  have sorted: "sorted_wrt (<) ?is" using effective_positions(1) [OF assms(1)] unfolding eff by (simp add: sorted_wrt_append)
  have le: "a \<le> last (a # as)" using sorted as by (cases "as = []") (auto simp: less_imp_le)
  moreover have "a \<notin> positions ss" "last (a # as) < length tx"
    using sub effective_positions(2) [OF assms(1)] as last_in_set [of "a # as"] by auto
  ultimately show thesis using as by (intro that [of a "last (a # as) + 1"]) (auto simp: toOriginal_def)
qed

lemma addition_ok:
  assumes "disjoint_spans (length tx) ss" "a \<in> set (repair_additions tx deny ss tk)"
  shows "det_ok (length tx) a" "d_start a \<notin> positions ss"
proof -
  obtain sp e d where c: "(sp, e, d) \<in> set (repair_candidates (eff_text (effectiveText tx ss)) deny tk)"
    and a: "(case toOriginal (effectiveText tx ss) sp of None \<Rightarrow> None
        | Some orig \<Rightarrow> if covers ss orig then None else Some \<lparr>d_start = fst orig, d_end = snd orig, d_entityType = e,
            d_detector = d, d_confidence = None\<rparr>) = Some a"
    using assms(2) by (auto simp: repair_additions_def Let_def List.map_filter_def split: prod.splits)
  obtain i j where "toOriginal (effectiveText tx ss) sp = Some (i, j)" "i < j" "j \<le> length tx" "i \<notin> positions ss"
    using toOriginal_visible [OF assms(1) candidates_visible [OF c]] by blast
  then show "det_ok (length tx) a" "d_start a \<notin> positions ss" using a by (auto simp: det_ok_def split: if_splits)
qed

lemma no_additions:
  assumes "disjoint_spans (length tx) ss" "repair_additions tx deny ss tk = []"
  shows "repair_candidates (eff_text (effectiveText tx ss)) deny tk = []"
proof (rule ccontr)
  let ?C = "repair_candidates (eff_text (effectiveText tx ss)) deny tk"
  assume "?C \<noteq> []"
  then obtain sp e d where c: "(sp, e, d) \<in> set ?C" by (cases ?C) auto
  obtain i j where o: "toOriginal (effectiveText tx ss) sp = Some (i, j)" "i < j" "i \<notin> positions ss"
    using toOriginal_visible [OF assms(1) candidates_visible [OF c]] by blast
  have "covers ss (i, j)"
  proof (rule ccontr)
    assume "\<not> covers ss (i, j)"
    with c o assms(2) show False by (force simp: repair_additions_def Let_def List.map_filter_def filter_empty_conv)
  qed
  then show False using o by (fastforce simp: covers_iff inside_def positions_def)
qed

text \<open>The repair adds nothing exactly when the scan of the output is clean.\<close>

lemma silent_iff:
  assumes "disjoint_spans (length tx) ss" "CHR ''['' \<notin> set tx"
  shows "repair_additions tx deny ss (tokenize tx ss) = [] \<longleftrightarrow>
    rs_counts (residualScan (tz_redactedText (tokenize tx ss)) (map snd (tz_vaultEntries (tokenize tx ss))) deny) = []"
proof -
  have "repair_additions tx deny ss (tokenize tx ss) = []"
    if "repair_candidates (eff_text (effectiveText tx ss)) deny (tokenize tx ss) = []"
    using that by (simp add: repair_additions_def Let_def List.map_filter_def)
  then show ?thesis unfolding residualScan_clean
    using repair_candidates_silent [OF no_additions strip_redacted] repair_candidates_fire [OF strip_redacted] assms by blast
qed

lemma silent_round:
  assumes "disjoint_spans (length tx) ss" "CHR ''['' \<notin> set tx" "repair_additions tx deny ss (tokenize tx ss) = []"
  shows "rs_counts (residualScan (tz_redactedText (tokenize tx ss)) (map snd (tz_vaultEntries (tokenize tx ss))) deny) = []"
  using silent_iff [OF assms(1,2)] assms(3) by blast

text \<open>A round with additions keeps the spans disjoint, covers what was covered and more.\<close>

definition uncovered :: "string \<Rightarrow> detection list \<Rightarrow> nat" where
  "uncovered tx ss = card ({..<length tx} - positions ss)"

lemma repair_round:
  fixes tx deny ss
  defines "adds \<equiv> repair_additions tx deny ss (tokenize tx ss)"
  assumes "disjoint_spans (length tx) ss" "adds \<noteq> []"
  shows "disjoint_spans (length tx) (fst (mergeDetections (ss @ adds)))"
    and "covers ss sp \<Longrightarrow> covers (fst (mergeDetections (ss @ adds))) sp"
    and "positions ss \<subseteq> positions (fst (mergeDetections (ss @ adds)))"
    and "uncovered tx (fst (mergeDetections (ss @ adds))) < uncovered tx ss"
proof -
  have ok: "list_all (det_ok (length tx)) (ss @ adds)"
    using assms(2) addition_ok(1) [OF assms(2)] by (auto simp: disjoint_spans_def list_all_iff adds_def)
  note m = mergeDetections_correct [OF ok]
  show "disjoint_spans (length tx) (fst (mergeDetections (ss @ adds)))" by (rule m)
  show "covers ss sp \<Longrightarrow> covers (fst (mergeDetections (ss @ adds))) sp" by (rule m) (auto simp: covers_iff)
  show "positions ss \<subseteq> positions (fst (mergeDetections (ss @ adds)))" using m(2) by simp
  obtain a where a: "a \<in> set adds" using assms(3) by (cases adds) auto
  then have "d_start a \<in> {..<length tx} - positions ss" "d_start a \<in> positions adds"
    using addition_ok [OF assms(2), of a deny "tokenize tx ss"]
    by (auto simp: adds_def det_ok_def positions_def)
  then have "{..<length tx} - (positions ss \<union> positions adds) \<subset> {..<length tx} - positions ss" by blast
  then show "uncovered tx (fst (mergeDetections (ss @ adds))) < uncovered tx ss"
    unfolding uncovered_def m(2) by (intro psubset_card_mono) auto
qed

lemma repair_loop_silent:
  "repair_additions tx deny ss (tokenize tx ss) = [] \<Longrightarrow>
   rp_spans (repair_loop (Suc n) tx deny ss dis) = ss \<and> rp_tokenized (repair_loop (Suc n) tx deny ss dis) = tokenize tx ss"
  by (simp add: Let_def)

lemma repair_loop_round:
  "repair_additions tx deny ss (tokenize tx ss) \<noteq> [] \<Longrightarrow>
   repair_loop (Suc n) tx deny ss dis =
     (let m = mergeDetections (ss @ repair_additions tx deny ss (tokenize tx ss)) in repair_loop n tx deny (fst m) (dis \<or> snd m))"
  by (simp add: Let_def split_def)

lemma repair_loop_correct:
  "disjoint_spans (length tx) ss \<Longrightarrow>
   disjoint_spans (length tx) (rp_spans (repair_loop n tx deny ss dis))
     \<and> rp_tokenized (repair_loop n tx deny ss dis) = tokenize tx (rp_spans (repair_loop n tx deny ss dis))
     \<and> (covers ss sp \<longrightarrow> covers (rp_spans (repair_loop n tx deny ss dis)) sp)
     \<and> positions ss \<subseteq> positions (rp_spans (repair_loop n tx deny ss dis))"
proof (induction n arbitrary: ss dis)
  case (Suc n)
  let ?adds = "repair_additions tx deny ss (tokenize tx ss)"
  show ?case
  proof (cases "?adds = []")
    case True
    then show ?thesis using Suc.prems repair_loop_silent [OF True] by simp
  next
    case False
    let ?m = "mergeDetections (ss @ ?adds)"
    have r: "repair_loop (Suc n) tx deny ss dis = repair_loop n tx deny (fst ?m) (dis \<or> snd ?m)"
      using repair_loop_round [OF False] by (simp only: Let_def)
    note round = repair_round [OF Suc.prems False]
    from Suc.IH [OF round(1), of "dis \<or> snd ?m"] round(2) [of sp] round(3) show ?thesis unfolding r by blast
  qed
qed simp

lemma repair_loop_converged:
  "disjoint_spans (length tx) ss \<Longrightarrow> CHR ''['' \<notin> set tx \<Longrightarrow> rp_converged (repair_loop n tx deny ss dis) \<Longrightarrow>
   rs_counts (residualScan (tz_redactedText (rp_tokenized (repair_loop n tx deny ss dis)))
     (map snd (tz_vaultEntries (rp_tokenized (repair_loop n tx deny ss dis)))) deny) = []"
proof (induction n arbitrary: ss dis)
  case (Suc n)
  let ?adds = "repair_additions tx deny ss (tokenize tx ss)"
  show ?case
  proof (cases "?adds = []")
    case True
    then show ?thesis using silent_round [OF Suc.prems(1,2) True] by (simp add: Let_def)
  next
    case False
    let ?m = "mergeDetections (ss @ ?adds)"
    have "repair_loop (Suc n) tx deny ss dis = repair_loop n tx deny (fst ?m) (dis \<or> snd ?m)"
      using repair_loop_round [OF False] by (simp only: Let_def)
    then show ?thesis using Suc.IH [of "fst ?m" "dis \<or> snd ?m"] repair_round(1) [OF Suc.prems(1) False] Suc.prems by simp
  qed
qed simp

lemma vault_not_reintroduced:
  assumes "rs_counts (residualScan out vault deny) = []" "p \<in> set vault"
  shows "\<not> isVaultValueReintroduced p out"
  using assms by (auto simp: residualScan_clean residual_adds_def isVaultValueReintroduced_def Let_def filter_empty_conv)

lemma repair_loop_converges:
  "disjoint_spans (length tx) ss \<Longrightarrow> CHR ''['' \<notin> set tx \<Longrightarrow> uncovered tx ss < n \<Longrightarrow> rp_converged (repair_loop n tx deny ss dis)"
proof (induction n arbitrary: ss dis)
  case (Suc n)
  let ?adds = "repair_additions tx deny ss (tokenize tx ss)"
  show ?case
  proof (cases "?adds = []")
    case True
    have "\<not> isVaultValueReintroduced p (tz_redactedText (tokenize tx ss))" if "(t, p) \<in> set (tz_vaultEntries (tokenize tx ss))" for t p
      using that vault_not_reintroduced [OF silent_round [OF Suc.prems(1,2) True], of p] by force
    then show ?thesis using True by (auto simp: Let_def list_all_iff)
  next
    case False
    let ?m = "mergeDetections (ss @ ?adds)"
    have "repair_loop (Suc n) tx deny ss dis = repair_loop n tx deny (fst ?m) (dis \<or> snd ?m)"
      using repair_loop_round [OF False] by (simp only: Let_def)
    then show ?thesis using Suc.IH [of "fst ?m" "dis \<or> snd ?m"] repair_round(1,4) [OF Suc.prems(1) False] Suc.prems by simp
  qed
qed simp


section \<open>Properties\<close>

definition detections_ok :: "string \<Rightarrow> detector_result list \<Rightarrow> bool" where
  "detections_ok tx results \<longleftrightarrow> list_all (\<lambda>r. list_all (det_ok (length tx)) (dr_detections r)) results"

lemma compose_merged:
  assumes "detections_ok tx results"
  shows "disjoint_spans (length tx) (fst (mergeDetections (concat (map dr_detections results))))"
    and "\<And>r d. r \<in> set results \<Longrightarrow> d \<in> set (dr_detections r) \<Longrightarrow>
      covers (fst (mergeDetections (concat (map dr_detections results)))) (d_start d, d_end d)"
proof -
  have ok: "list_all (det_ok (length tx)) (concat (map dr_detections results))"
    using assms by (auto simp: detections_ok_def list_all_iff)
  show "disjoint_spans (length tx) (fst (mergeDetections (concat (map dr_detections results))))"
    by (rule mergeDetections_correct [OF ok])
  show "covers (fst (mergeDetections (concat (map dr_detections results)))) (d_start d, d_end d)"
    if "r \<in> set results" "d \<in> set (dr_detections r)" for r d
    using that by (intro mergeDetections_correct [OF ok]) (auto simp: covers_iff inside_def)
qed

lemma compose_fields:
  fixes tx results deny
  defines "m \<equiv> mergeDetections (concat (map dr_detections results))"
  defines "r \<equiv> repairToResidualClean tx (fst m) deny None"
  shows "cr_spans (composeRedaction tx results deny) = rp_spans r"
    "cr_tokenized (composeRedaction tx results deny) = rp_tokenized r"
    "cr_residual (composeRedaction tx results deny) =
       residualScan (tz_redactedText (rp_tokenized r)) (map snd (tz_vaultEntries (rp_tokenized r))) deny"
  by (simp_all add: composeRedaction_def m_def r_def Let_def split_def)

text \<open>C27: Redaction hides everything the detectors report.  Whatever the detectors return, as long as each detection is non-empty and inside the text, the
  spans of \<open>composeRedaction\<close> are disjoint and ordered and every detection lies inside one span.  If moreover the text has no opening bracket of its own, the output
  with its tokens stripped is the text with exactly those spans blanked.\<close>

theorem redaction_covers_detections:
  assumes "detections_ok tx results"
  shows "disjoint_spans (length tx) (cr_spans (composeRedaction tx results deny))
    \<and> list_all (\<lambda>r. list_all (\<lambda>d. covers (cr_spans (composeRedaction tx results deny)) (d_start d, d_end d)) (dr_detections r)) results
    \<and> (CHR ''['' \<notin> set tx \<longrightarrow> strip_tokens (tz_redactedText (cr_tokenized (composeRedaction tx results deny)))
        = eff_text (effectiveText tx (cr_spans (composeRedaction tx results deny))))"
proof -
  note d = compose_merged [OF assms(1)]
  note l = repair_loop_correct [OF d(1), where n = REPAIR_MAX_ITERATIONS and deny = deny and dis = False]
  have "disjoint_spans (length tx) (cr_spans (composeRedaction tx results deny))"
    using l by (simp add: compose_fields repairToResidualClean_def)
  moreover have "cr_tokenized (composeRedaction tx results deny) = tokenize tx (cr_spans (composeRedaction tx results deny))"
    using l by (simp add: compose_fields repairToResidualClean_def)
  moreover have "covers (cr_spans (composeRedaction tx results deny)) (d_start x, d_end x)"
    if "r \<in> set results" "x \<in> set (dr_detections r)" for r x
    using l [of "(d_start x, d_end x)"] d(2) [OF that] by (simp add: compose_fields repairToResidualClean_def)
  ultimately show ?thesis using strip_redacted by (simp add: list_all_iff)
qed

theorem redaction_covers_detections_witness:
  "strip_tokens (tz_redactedText (cr_tokenized (composeRedaction ''ask Al''
       [\<lparr>dr_detections = [\<lparr>d_start = 4, d_end = 6, d_entityType = ET_name, d_detector = DET_ner, d_confidence = Some 1\<rparr>],
         dr_riskSignals = []\<rparr>] [''al''])))
   = eff_text (effectiveText ''ask Al'' (cr_spans (composeRedaction ''ask Al''
       [\<lparr>dr_detections = [\<lparr>d_start = 4, d_end = 6, d_entityType = ET_name, d_detector = DET_ner, d_confidence = Some 1\<rparr>],
         dr_riskSignals = []\<rparr>] [''al''])))"
  using redaction_covers_detections [of "''ask Al''"
      "[\<lparr>dr_detections = [\<lparr>d_start = 4, d_end = 6, d_entityType = ET_name, d_detector = DET_ner, d_confidence = Some 1\<rparr>],
         dr_riskSignals = []\<rparr>]" "[''al'']"]
  by (simp add: detections_ok_def det_ok_def)

text \<open>C28: The repair reaches a residual-clean output.  Take a text without an opening bracket of its own and detections that are non-empty and inside it.  Every repair round
  that adds spans covers more characters, so with more rounds than the text has characters the loop of \<open>repairToResidualClean\<close> converges; its spans keep
  covering what they covered, and the independent residual scan of the output finds nothing: no vault value, digit
  run, spelled digits, e-mail, address, greeted name or deny-listed term.  (A token-shaped bracket in the text itself can hide digits from the repair that the
  scan then sees, so the bracket matters.)\<close>

theorem repair_reaches_clean:
  assumes "list_all (det_ok (length tx)) ds" "CHR ''['' \<notin> set tx" "length tx < n"
  shows "rp_converged (repairToResidualClean tx (fst (mergeDetections ds)) deny (Some n))
    \<and> positions ds \<subseteq> positions (rp_spans (repairToResidualClean tx (fst (mergeDetections ds)) deny (Some n)))
    \<and> rs_hits (residualScan (tz_redactedText (rp_tokenized (repairToResidualClean tx (fst (mergeDetections ds)) deny (Some n))))
         (map snd (tz_vaultEntries (rp_tokenized (repairToResidualClean tx (fst (mergeDetections ds)) deny (Some n))))) deny) = []"
proof -
  note m = mergeDetections_correct [OF assms(1)]
  have "uncovered tx (fst (mergeDetections ds)) \<le> card {..<length tx}" unfolding uncovered_def by (intro card_mono) auto
  then have c: "rp_converged (repair_loop n tx deny (fst (mergeDetections ds)) False)"
    using repair_loop_converges [OF m(1) assms(2), of n] assms(3) by simp
  then show ?thesis
    using repair_loop_correct [OF m(1)] repair_loop_converged [OF m(1) assms(2) c] m(2)
    by (simp add: repairToResidualClean_def residualScan_def Let_def)
qed

theorem repair_reaches_clean_witness:
  "rp_converged (repairToResidualClean ''call 555 1212 now'' (fst (mergeDetections [])) [''acme''] (Some 20))"
  using repair_reaches_clean [of "''call 555 1212 now''" "[]" 20 "[''acme'']"] by simp

text \<open>The repair is neutral.  On the output of any disjoint spans, the mirrors ask for a further span exactly
  when the residual scan would have hit: what the repair redacts would have held the call, and an output the scan
  accepts is left alone.\<close>

lemma repair_precision_neutral:
  assumes "disjoint_spans (length tx) ss" "CHR ''['' \<notin> set tx"
  shows "repair_additions tx deny ss (tokenize tx ss) = [] \<longleftrightarrow>
    rs_counts (residualScan (tz_redactedText (tokenize tx ss)) (map snd (tz_vaultEntries (tokenize tx ss))) deny) = []"
  by (rule silent_iff [OF assms])

text \<open>C29: Tokens are stable within a call.  Spans get the same token exactly when they have the same entity type and the
  same normalised surface; every token is vaulted once, with the surface of a span it stands for.\<close>

theorem tokens_stable:
  assumes "i < length ss" "j < length ss"
  shows "(ts_tokenFor (token_states tx ss) ! i = ts_tokenFor (token_states tx ss) ! j \<longleftrightarrow>
      d_entityType (ss ! i) = d_entityType (ss ! j)
      \<and> normalizeForToken (slice (d_start (ss ! i)) (d_end (ss ! i)) tx) = normalizeForToken (slice (d_start (ss ! j)) (d_end (ss ! j)) tx))
    \<and> distinct (map fst (ts_vaultEntries (token_states tx ss)))
    \<and> (\<exists>k < length ss. token_key tx (ss ! k) = token_key tx (ss ! i)
        \<and> map_of (ts_vaultEntries (token_states tx ss)) (ts_tokenFor (token_states tx ss) ! i)
            = Some (slice (d_start (ss ! k)) (d_end (ss ! k)) tx))"
proof -
  let ?st = "token_states tx ss"
  let ?m = "map_of (ts_tokenByKey ?st)"
  have A: "assigned tx ss ?st" by (rule token_states_assigned)
  have key: "?m (token_key tx (ss ! k)) = Some (ts_tokenFor ?st ! k)" if "k < length ss" for k
    using A that nth_map [of k ss "\<lambda>d. ?m (token_key tx d)"] nth_map [of k "ts_tokenFor ?st" Some]
    by (simp add: assigned_def token_states_length)
  have inj: "inj_on ?m (dom ?m)" using A by (simp add: assigned_def)
  have "ts_tokenFor ?st ! i = ts_tokenFor ?st ! j \<longleftrightarrow> token_key tx (ss ! i) = token_key tx (ss ! j)"
    using key [OF assms(1)] key [OF assms(2)] inj_onD [OF inj, of "token_key tx (ss ! i)" "token_key tx (ss ! j)"] by force
  moreover have v: "distinct (map fst (ts_vaultEntries ?st))" using A by (simp add: assigned_def)
  moreover have "token_entry_ok tx ss ?st (token_key tx (ss ! i)) (ts_tokenFor ?st ! i)"
    using A key [OF assms(1)] by (simp add: assigned_def)
  then obtain d where d: "d \<in> set ss" "token_key tx (ss ! i) = token_key tx d"
      "(ts_tokenFor ?st ! i, slice (d_start d) (d_end d) tx) \<in> set (ts_vaultEntries ?st)"
    unfolding token_entry_ok_def by blast
  moreover obtain k where "k < length ss" "ss ! k = d" using d(1) by (auto simp: in_set_conv_nth)
  ultimately show ?thesis using map_of_is_SomeI [OF v d(3)] by (auto simp: token_key_eq)
qed

theorem tokens_stable_witness:
  "map_of (ts_vaultEntries (token_states ''Al, al'' [\<lparr>d_start = 0, d_end = 2, d_entityType = ET_name, d_detector = DET_ner, d_confidence = None\<rparr>,
        \<lparr>d_start = 4, d_end = 6, d_entityType = ET_name, d_detector = DET_ner, d_confidence = None\<rparr>]))
      (ts_tokenFor (token_states ''Al, al'' [\<lparr>d_start = 0, d_end = 2, d_entityType = ET_name, d_detector = DET_ner, d_confidence = None\<rparr>,
        \<lparr>d_start = 4, d_end = 6, d_entityType = ET_name, d_detector = DET_ner, d_confidence = None\<rparr>]) ! 1) \<noteq> None"
  using tokens_stable [of 1 "[\<lparr>d_start = 0, d_end = 2, d_entityType = ET_name, d_detector = DET_ner, d_confidence = None\<rparr>,
        \<lparr>d_start = 4, d_end = 6, d_entityType = ET_name, d_detector = DET_ner, d_confidence = None\<rparr>]" 0 "''Al, al''"]
  by auto

end
