(* ===== verification/Detectors.thy ===== *)
theory Detectors
  imports Redaction_Repair
begin

text \<open>
  The three detector layers of \<^verbatim>\<open>src/src/redaction\<close>: \<^verbatim>\<open>regex-detectors.ts\<close>, \<^verbatim>\<open>deny-list.ts\<close> and
  \<^verbatim>\<open>ner-detector.ts\<close>.  The NER model itself is the parameter \<open>pipe\<close>, a function from a text to its labelled
  word pieces, which can fail; the alignment of its pieces, the two passes, the chunks, the scope policy
  and the confidence gate are the source's.  Scores are exact rationals.  The middle dot of the phone
  separators and the curly apostrophe are outside the modelled alphabet.
\<close>

section \<open>Bounded repetition\<close>

fun UpTo :: "nat \<Rightarrow> rx \<Rightarrow> rx" where
  "UpTo 0 r = Eps"
| "UpTo (Suc n) r = Opt (Seq r (UpTo n r))"

definition Rep :: "nat \<Rightarrow> nat \<Rightarrow> rx \<Rightarrow> rx" where
  "Rep m n r = Seqs (replicate m r @ [UpTo (n - m) r])"

definition RepMin :: "nat \<Rightarrow> rx \<Rightarrow> rx" where
  "RepMin m r = Seqs (replicate m r @ [Star r])"

definition Digit :: rx where "Digit = Chr is_num"
definition OneOf :: "string \<Rightarrow> rx" where "OneOf cs = Chr (\<lambda>c. c \<in> set cs)"

section \<open>Patterns\<close>

definition SUFFIX_WORDS :: "string list" where
  "SUFFIX_WORDS = [''street'', ''st'', ''avenue'', ''ave'', ''boulevard'', ''blvd'', ''road'', ''rd'', ''drive'', ''dr'',
     ''lane'', ''ln'', ''court'', ''ct'', ''way'', ''place'', ''pl'', ''circle'', ''cir'', ''terrace'', ''ter'', ''highway'',
     ''hwy'', ''parkway'', ''pkwy'']"

text \<open>Under the flag \<^verbatim>\<open>i\<close>.\<close>

definition SUFFIX :: rx where "SUFFIX = Alts (map LitI SUFFIX_WORDS)"

definition name_tail :: "char \<Rightarrow> bool" where
  "name_tail c \<longleftrightarrow> is_alpha c \<or> c \<in> {CHR 0x27, CHR ''.'', CHR ''-''}"

definition NAME_WORD :: rx where
  "NAME_WORD = Alt (Seq (Chr is_alpha) (Star (Chr name_tail)))
     (Seq (Rep 1 3 Digit) (Alts (map LitI [''st'', ''nd'', ''rd'', ''th''])))"

definition phone_sep :: rx where
  "phone_sep = Opt (Chr (\<lambda>c. js_space c \<or> c \<in> {CHR ''.'', CHR ''/'', CHR ''-''}))"

definition PHONE_PATTERNS :: "rx list" where
  "PHONE_PATTERNS =
     [Seqs [NotPrev is_num,
        Opt (Seqs [Opt (Lit ''+''), Lit ''1'', Chr (\<lambda>c. js_space c \<or> c \<in> {CHR ''.'', CHR ''-''})]),
        Opt (Lit ''(''), Rep 3 3 Digit, Opt (Lit '')''), phone_sep, Rep 3 3 Digit, phone_sep, Rep 4 4 Digit, NotNext is_num],
      Seqs [NotPrev is_num, Digit,
        RepMin 6 (Seq (Rep 1 2 (Chr (\<lambda>c. js_space c \<or> c \<in> {CHR '','', CHR ''.'', CHR ''-''}))) Digit), NotNext is_num]]"

definition mail_char :: "char \<Rightarrow> bool" where
  "mail_char c \<longleftrightarrow> is_alnum_i c \<or> c \<in> {CHR ''_'', CHR ''%'', CHR ''+'', CHR ''-''}"

definition host_char :: "char \<Rightarrow> bool" where
  "host_char c \<longleftrightarrow> is_alnum_i c \<or> c = CHR ''-''"

definition EMAIL_STANDARD :: rx where
  "EMAIL_STANDARD = Seqs
     [Plus (Chr (\<lambda>c. mail_char c \<or> c = CHR ''.'')), Lit ''@'', Plus (Chr (\<lambda>c. host_char c \<or> c = CHR ''.'')), Lit ''.'',
      RepMin 2 (Chr is_alpha)]"

definition OB :: "string \<Rightarrow> rx" where
  "OB w = Alts [Seqs [Star Space, Lit ''('', Star Space, LitI w, Star Space, Lit '')'', Star Space],
                Seqs [Star Space, Lit ''['', Star Space, LitI w, Star Space, Lit '']'', Star Space],
                Seqs [Plus Space, LitI w, Plus Space]]"

definition OB_TLD :: rx where
  "OB_TLD = Alts (map LitI [''com'', ''net'', ''org'', ''edu'', ''gov'', ''io'', ''co'', ''us'', ''biz'', ''info''])"

definition EMAIL_OBFUSCATED :: rx where
  "EMAIL_OBFUSCATED = Seqs
     [WordB, Plus (Chr mail_char), Star (Seq (OB ''dot'') (Plus (Chr mail_char))), OB ''at'', Plus (Chr host_char),
      Star (Seq (OB ''dot'') (Plus (Chr host_char))), OB ''dot'', OB_TLD, WordB]"

definition STREET_ADDRESS :: rx where
  "STREET_ADDRESS = Seqs
     [WordB, Rep 1 6 Digit, Plus Space, UpTo 3 (Seq NAME_WORD (Plus Space)), SUFFIX, WordB, Opt (Lit ''.''),
      Opt (Seqs [Opt (Lit '',''), Plus Space, Alts (map LitI [''apt'', ''suite'', ''ste'', ''unit'', ''#'']), Opt (Lit ''.''),
        Star Space, Plus (Chr host_char)])]"

definition CAP_WORD :: rx where
  "CAP_WORD = Alt (Seq (Chr is_upper) (Star (Chr name_tail)))
     (Seq (Rep 1 3 Digit) (Alts (map Lit [''st'', ''nd'', ''rd'', ''th''])))"

text \<open>\<^verbatim>\<open>[Ss]treet\<close>: only the first letter is free.\<close>

definition suffix_ci :: "string \<Rightarrow> rx" where
  "suffix_ci w = Seq (Chr (\<lambda>c. to_lower c = hd w)) (Lit (tl w))"

definition SUFFIX_CI :: rx where "SUFFIX_CI = Alts (map suffix_ci SUFFIX_WORDS)"

definition CROSS_CONNECTOR :: rx where
  "CROSS_CONNECTOR = Alts [Lit ''and'', Lit ''&'', Lit ''at'', Lit ''near'', Lit ''between'',
     Seqs [Lit ''cross'', Opt (Lit ''ing''), Plus Space, Lit ''of'']]"

definition CROSS_STREET_PATTERNS :: "rx list" where
  "CROSS_STREET_PATTERNS =
     [Seqs [NotPrev is_alpha, Rep 1 3 (Seq CAP_WORD (Plus Space)), Opt (Seq SUFFIX_CI (Plus Space)), CROSS_CONNECTOR,
        Plus Space, UpTo 3 (Seq CAP_WORD (Plus Space)), SUFFIX_CI, WordB],
      Seqs [NotPrev is_alpha, Rep 1 3 (Seq CAP_WORD (Plus Space)), SUFFIX_CI, Plus Space, CROSS_CONNECTOR, Plus Space,
        CAP_WORD, UpTo 2 (Seq (Plus Space) CAP_WORD), Opt (Seqs [Plus Space, SUFFIX_CI, WordB])]]"

definition CREDIT_CARD_CANDIDATE :: rx where
  "CREDIT_CARD_CANDIDATE = Seqs [NotPrev is_num, Digit, Rep 12 18 (Seq (Opt (OneOf '' -'')) Digit), NotNext is_num]"

definition GOVERNMENT_ID_PATTERNS :: "rx list" where
  "GOVERNMENT_ID_PATTERNS =
     [Seqs [NotPrev is_num, Rep 3 3 Digit, Opt (OneOf ''-. ''), Rep 2 2 Digit, Opt (OneOf ''-. ''), Rep 4 4 Digit, NotNext is_num],
      Seqs [NotPrev is_num, Rep 2 2 Digit, Lit ''-'', Rep 7 7 Digit, NotNext is_num]]"

definition non_alnum :: rx where "non_alnum = Plus (Chr (\<lambda>c. \<not> is_alnum_i c))"

text \<open>The contextual id pattern up to its capture group, and the group.\<close>

definition CONTEXTUAL_CUE :: rx where
  "CONTEXTUAL_CUE = Seqs
     [Alts [LitI ''ssn'', Seqs [LitI ''social'', Plus Space, LitI ''security'', Opt (Seq (Plus Space) (LitI ''number''))],
        Seqs [LitI ''driver'', Opt (Chr (\<lambda>c. c = CHR 0x27)), Opt (LitI ''s''), Plus Space, LitI ''licen'',
          Chr (\<lambda>c. to_lower c \<in> {CHR ''c'', CHR ''s''}), LitI ''e'', Opt (Seq (Plus Space) (LitI ''number''))],
        Seqs [LitI ''license'', Plus Space, LitI ''number''],
        Seqs [LitI ''passport'', Opt (Seq (Plus Space) (LitI ''number''))]],
      Opt (Seqs [non_alnum, Alts (map LitI [''is'', ''was'', ''number'', ''no'', ''num'']), WordB]), non_alnum]"

definition CONTEXTUAL_ID :: rx where
  "CONTEXTUAL_ID = Seqs [UpTo 2 (Chr is_alpha), Digit, RepMin 4 (Chr host_char)]"

definition ADDRESS_LIKE :: rx where
  "ADDRESS_LIKE =
     (let name = Seq (Chr is_upper) (Plus (Chr (\<lambda>c. is_lower c \<or> c \<in> {CHR 0x27, CHR ''.'', CHR ''-''})))
      in Seqs [WordB, Rep 2 6 Digit, Plus Space, name, UpTo 2 (Seq (Plus Space) name), WordB])"

section \<open>The regex layer\<close>

text \<open>The checksum from the last digit on; \<open>dbl\<close> is the flag \<^verbatim>\<open>double\<close>.\<close>

fun luhn_sum :: "bool \<Rightarrow> nat list \<Rightarrow> nat" where
  "luhn_sum dbl [] = 0"
| "luhn_sum dbl (d # ds) =
     (let d' = (if dbl then (if 2 * d > 9 then 2 * d - 9 else 2 * d) else d) in d' + luhn_sum (\<not> dbl) ds)"

definition luhnValid :: "string \<Rightarrow> bool" where
  "luhnValid digits \<longleftrightarrow> digits \<noteq> [] \<and> list_all is_num digits
     \<and> luhn_sum False (rev (map (\<lambda>c. char_code c - 48) digits)) mod 10 = 0"

definition detection_of :: "nat \<Rightarrow> nat \<Rightarrow> entity_type \<Rightarrow> detection" where
  "detection_of start fin entityType =
     \<lparr>d_start = start, d_end = fin, d_entityType = entityType, d_detector = DET_regex, d_confidence = None\<rparr>"

definition scan :: "string \<Rightarrow> rx \<Rightarrow> entity_type \<Rightarrow> detection list" where
  "scan txt pattern entityType = map (\<lambda>(a, b). detection_of a b entityType) (matchAll pattern txt)"

definition dedupe_step :: "detection \<Rightarrow> detection list \<Rightarrow> detection list" where
  "dedupe_step d out =
     (case out of
        [] \<Rightarrow> [d]
      | prev # _ \<Rightarrow> if d_start d \<ge> d_start prev \<and> d_end d \<le> d_end prev then out else d # out)"

definition dedupe :: "detection list \<Rightarrow> detection list" where
  "dedupe detections = rev (fold dedupe_step (sort_detections detections) [])"

definition detectPhones :: "string \<Rightarrow> detection list" where
  "detectPhones txt = dedupe (concat (map (\<lambda>p. scan txt p ET_phone) PHONE_PATTERNS))"

definition of_mirrors :: "entity_type \<Rightarrow> mirror_span list \<Rightarrow> detection list" where
  "of_mirrors entityType spans = map (\<lambda>(a, b). detection_of a b entityType) spans"

definition detectEmails :: "string \<Rightarrow> detection list" where
  "detectEmails txt = dedupe (scan txt EMAIL_STANDARD ET_email @ scan txt EMAIL_OBFUSCATED ET_email
     @ of_mirrors ET_email (findEmailLike txt))"

definition detectStreetAddresses :: "string \<Rightarrow> detection list" where
  "detectStreetAddresses txt = dedupe (scan txt STREET_ADDRESS ET_street_address)"

text \<open>Trailing white space of a match is given back.\<close>

definition trim_end :: "string \<Rightarrow> detection \<Rightarrow> detection" where
  "trim_end txt d = d\<lparr>d_end := d_end d - length (takeWhile js_space (rev (slice (d_start d) (d_end d) txt)))\<rparr>"

definition detectCrossStreets :: "string \<Rightarrow> detection list" where
  "detectCrossStreets txt =
     dedupe (map (trim_end txt) (concat (map (\<lambda>p. scan txt p ET_cross_street) CROSS_STREET_PATTERNS)))"

definition detectCreditCards :: "string \<Rightarrow> detection list" where
  "detectCreditCards txt =
     dedupe (map (\<lambda>(a, b). detection_of a b ET_credit_card)
       (filter (\<lambda>(a, b). let digits = replace_all (OneOf '' -'') [] (slice a b txt) in
           length digits \<ge> 13 \<and> length digits \<le> 19 \<and> luhnValid digits)
         (matchAll CREDIT_CARD_CANDIDATE txt)))"

definition detectGovernmentIds :: "string \<Rightarrow> detection list" where
  "detectGovernmentIds txt =
     dedupe (concat (map (\<lambda>p. scan txt p ET_government_id) GOVERNMENT_ID_PATTERNS)
       @ of_mirrors ET_government_id (capture_tail CONTEXTUAL_CUE CONTEXTUAL_ID txt))"

definition detectLongNumbers :: "string \<Rightarrow> detection list" where
  "detectLongNumbers txt = of_mirrors ET_number (findLongDigitRuns txt)"

definition detectSpelledDigits :: "string \<Rightarrow> detection list" where
  "detectSpelledDigits txt = of_mirrors ET_phone (findSpelledDigitRuns txt)"

definition detectGreetingNames :: "string \<Rightarrow> detection list" where
  "detectGreetingNames txt = of_mirrors ET_name (findGreetingNames txt)"

definition addressLikeSignals :: "string \<Rightarrow> detection list \<Rightarrow> risk_reason list" where
  "addressLikeSignals txt addresses =
     (if list_ex (\<lambda>m. \<not> covers addresses m) (matchAll ADDRESS_LIKE txt) then [RR_address_like_ambiguous] else [])"

definition createRegexDetector :: "string \<Rightarrow> detector_result" where
  "createRegexDetector txt =
     (let addresses = detectStreetAddresses txt; phones = detectPhones txt; cards = detectCreditCards txt;
          govIds = detectGovernmentIds txt;
          specificNumeric = phones @ cards @ govIds;
          numbers = filter (\<lambda>n. \<not> covers specificNumeric (d_start n, d_end n)) (detectLongNumbers txt)
      in \<lparr>dr_detections = dedupe (phones @ detectSpelledDigits txt @ detectGreetingNames txt @ detectEmails txt @ addresses
            @ detectCrossStreets txt @ cards @ govIds @ numbers),
          dr_riskSignals = addressLikeSignals txt addresses\<rparr>)"

section \<open>The deny list\<close>

text \<open>A character of the shadow with the position it came from; a separator has the position of the first
  character it stands for.\<close>

record norm_state =
  ns_out :: "(char \<times> nat) list"
  ns_pending :: "nat option"

definition norm_step :: "nat \<times> char \<Rightarrow> norm_state \<Rightarrow> norm_state" where
  "norm_step ic st =
     (case ic of (i, ch) \<Rightarrow>
        if is_alnum_i ch then
          \<lparr>ns_out = ns_out st
              @ (case ns_pending st of Some p \<Rightarrow> if ns_out st \<noteq> [] then [(CHR '' '', p)] else [] | None \<Rightarrow> [])
              @ [(to_lower ch, i)],
           ns_pending = None\<rparr>
        else (case ns_pending st of None \<Rightarrow> st\<lparr>ns_pending := Some i\<rparr> | Some _ \<Rightarrow> st))"

definition normalizeForMatch :: "string \<Rightarrow> (char \<times> nat) list" where
  "normalizeForMatch txt = ns_out (fold norm_step (enumerate 0 txt) \<lparr>ns_out = [], ns_pending = None\<rparr>)"

definition deny_hit :: "(char \<times> nat) list \<Rightarrow> nat \<Rightarrow> nat \<Rightarrow> detection list" where
  "deny_hit shadow len idx =
     (if (idx = 0 \<or> fst (shadow ! (idx - 1)) = CHR '' '')
         \<and> (idx + len = length shadow \<or> fst (shadow ! (idx + len)) = CHR '' '')
      then [\<lparr>d_start = snd (shadow ! idx), d_end = snd (shadow ! (idx + len - 1)) + 1, d_entityType = ET_deny_list,
             d_detector = DET_deny_list, d_confidence = None\<rparr>]
      else [])"

definition createDenyListDetector :: "string list \<Rightarrow> string \<Rightarrow> detector_result" where
  "createDenyListDetector terms txt =
     (let normalizedTerms = filter (\<lambda>t. t \<noteq> []) (map (\<lambda>t. map fst (normalizeForMatch t)) terms);
          shadow = normalizeForMatch txt
      in \<lparr>dr_detections = sort_key d_start (concat (map (\<lambda>term.
            concat (map (deny_hit shadow (length term)) (occurrences (map fst shadow) term 0))) normalizedTerms)),
          dr_riskSignals = []\<rparr>)"

section \<open>The NER layer\<close>

datatype ner_scope = NS_person | NS_numbered_location | NS_location | NS_organization | NS_misc

record ner_config =
  nc_minScore :: rat
  nc_chunkChars :: nat
  nc_chunkOverlapChars :: nat
  nc_entityScope :: "ner_scope list"

record token_hit =
  th_entity :: string
  th_score :: rat
  th_word :: string

definition LABEL_MAP :: "string \<Rightarrow> entity_type" where
  "LABEL_MAP label =
     (if label = ''PER'' then ET_name else if label = ''LOC'' then ET_location
      else if label = ''ORG'' then ET_organization else ET_other)"

definition TRUNCATION_TOKEN_COUNT :: nat where "TRUNCATION_TOKEN_COUNT = 510"

definition titleCase :: "string \<Rightarrow> string" where
  "titleCase txt =
     map (\<lambda>(prev, c). if is_lower c \<and> (case prev of None \<Rightarrow> True | Some p \<Rightarrow> \<not> (is_alpha p \<or> p = CHR 0x27)) then to_upper c else c)
       (zip (None # map Some txt) txt)"

definition HOUSE_NUMBER_BEFORE :: rx where
  "HOUSE_NUMBER_BEFORE = Seqs [NotPrev is_num, Rep 1 6 Digit, Plus (Chr (\<lambda>c. c = CHR '' '' \<or> c = CHR 0x09)), Eol]"

definition HOUSE_NUMBER_WINDOW :: nat where "HOUSE_NUMBER_WINDOW = 12"

definition numberedLocationPrefix :: "string \<Rightarrow> nat \<Rightarrow> nat option" where
  "numberedLocationPrefix txt spanStart =
     (let windowStart = spanStart - HOUSE_NUMBER_WINDOW in
      case matchAll HOUSE_NUMBER_BEFORE (slice windowStart spanStart txt) of
        [] \<Rightarrow> None
      | (index, _) # _ \<Rightarrow> Some (windowStart + index))"

definition word_char :: "char \<Rightarrow> bool" where
  "word_char c \<longleftrightarrow> is_alnum_i c \<or> c = CHR 0x27 \<or> c = CHR ''-''"

record open_span =
  os_start :: nat
  os_end :: nat
  os_entityType :: entity_type
  os_scoreSum :: rat
  os_pieceCount :: nat

record align_state =
  al_spans :: "detection list"
  al_failed :: bool
  al_cursor :: nat
  al_current :: "open_span option"

definition flush :: "string \<Rightarrow> nat \<Rightarrow> align_state \<Rightarrow> align_state" where
  "flush txt offset st =
     (case al_current st of
        None \<Rightarrow> st
      | Some cur \<Rightarrow>
          let start = os_start cur - length (takeWhile word_char (rev (take (os_start cur) txt)));
              fin = os_end cur + length (takeWhile word_char (drop (os_end cur) txt))
          in st\<lparr>al_spans := al_spans st @
                  [\<lparr>d_start = start + offset, d_end = fin + offset, d_entityType = os_entityType cur, d_detector = DET_ner,
                    d_confidence = Some (os_scoreSum cur / of_nat (os_pieceCount cur))\<rparr>],
                al_current := None\<rparr>)"

text \<open>\<^verbatim>\<open>entity.split('-')[1]\<close>, the empty string when there is no hyphen.\<close>

definition label_of :: "string \<Rightarrow> string" where
  "label_of entity = takeWhile (\<lambda>c. c \<noteq> CHR ''-'') (tl (dropWhile (\<lambda>c. c \<noteq> CHR ''-'') entity))"

definition align_step :: "string \<Rightarrow> nat \<Rightarrow> token_hit \<Rightarrow> align_state \<Rightarrow> align_state" where
  "align_step txt offset t st =
     (let isEntity = (th_entity t \<noteq> ''O'');
          isContinuation = (take 2 (th_word t) = ''##'');
          piece = (if isContinuation then drop 2 (th_word t) else th_word t);
          failed = flush txt offset (st\<lparr>al_failed := al_failed st \<or> isEntity\<rparr>)
      in if piece = ''[UNK]'' \<or> piece = [] then failed
         else case str_indexOf (lowercase txt) (lowercase piece) (al_cursor st) of
                None \<Rightarrow> failed
              | Some start \<Rightarrow>
                  let fin = start + length piece; st1 = st\<lparr>al_cursor := fin\<rparr> in
                  if \<not> isEntity then flush txt offset st1
                  else
                    let entityType = LABEL_MAP (label_of (th_entity t));
                        fresh = \<lparr>os_start = start, os_end = fin, os_entityType = entityType, os_scoreSum = th_score t,
                                 os_pieceCount = 1\<rparr>
                    in case al_current st of
                         Some cur \<Rightarrow>
                           if os_entityType cur = entityType \<and> (isContinuation \<or> int start - int (os_end cur) \<le> 1)
                           then st1\<lparr>al_current := Some (cur\<lparr>os_end := fin, os_scoreSum := os_scoreSum cur + th_score t,
                                      os_pieceCount := os_pieceCount cur + 1\<rparr>)\<rparr>
                           else (flush txt offset st1)\<lparr>al_current := Some fresh\<rparr>
                       | None \<Rightarrow> (flush txt offset st1)\<lparr>al_current := Some fresh\<rparr>)"

record align_result =
  ar_spans :: "detection list"
  ar_alignmentFailed :: bool
  ar_truncated :: bool

definition alignTokens :: "string \<Rightarrow> token_hit list \<Rightarrow> nat \<Rightarrow> align_result" where
  "alignTokens txt tokens offset =
     (let st = flush txt offset (fold (align_step txt offset) tokens
            \<lparr>al_spans = [], al_failed = False, al_cursor = 0, al_current = None\<rparr>)
      in \<lparr>ar_spans = al_spans st, ar_alignmentFailed = al_failed st, ar_truncated = (length tokens \<ge> TRUNCATION_TOKEN_COUNT)\<rparr>)"

text \<open>The chunk starts from \<open>s\<close> on; the loop condition holds when it is entered, and the step is positive.\<close>

function chunk_from :: "nat \<Rightarrow> nat \<Rightarrow> nat \<Rightarrow> nat \<Rightarrow> nat list" where
  "chunk_from len chunkChars step s =
     s # (if s + chunkChars \<ge> len then []
          else if step = 0 then []
          else if s + step < len then chunk_from len chunkChars step (s + step) else [])"
  by pat_completeness auto
termination by (relation "measure (\<lambda>(len, chunkChars, step, s). len - s)") auto

declare chunk_from.simps [simp del]

definition chunkStarts :: "nat \<Rightarrow> nat \<Rightarrow> nat \<Rightarrow> nat list" where
  "chunkStarts len chunkChars overlap = chunk_from len chunkChars (max 1 (chunkChars - overlap)) 0"

text \<open>The passes in the order the model is called; the first failure ends the detection.\<close>

fun ner_passes :: "(string \<Rightarrow> 'e + token_hit list) \<Rightarrow> (bool \<times> string \<times> nat) list \<Rightarrow> 'e + (bool \<times> align_result) list" where
  "ner_passes pipe [] = Inr []"
| "ner_passes pipe ((original, variant, start) # rest) =
     (case pipe variant of
        Inl e \<Rightarrow> Inl e
      | Inr tokens \<Rightarrow>
          (case ner_passes pipe rest of
             Inl e \<Rightarrow> Inl e
           | Inr results \<Rightarrow> Inr ((original, alignTokens variant tokens start) # results)))"

definition ner_key :: "detection \<Rightarrow> string" where
  "ner_key d = uuid_text (d_start d) @ '':'' @ uuid_text (d_end d) @ '':'' @ entity_type_name (d_entityType d)"

definition conf0 :: "detection \<Rightarrow> rat" where
  "conf0 d = (case d_confidence d of None \<Rightarrow> 0 | Some c \<Rightarrow> c)"

definition keep_best :: "detection \<Rightarrow> (string \<times> detection) list \<Rightarrow> (string \<times> detection) list" where
  "keep_best d byKey =
     (case map_of byKey (ner_key d) of
        None \<Rightarrow> obj_set (ner_key d) d byKey
      | Some existing \<Rightarrow> if conf0 d > conf0 existing then obj_set (ner_key d) d byKey else byKey)"

definition scope_filter :: "ner_scope list \<Rightarrow> string \<Rightarrow> detection \<Rightarrow> detection list" where
  "scope_filter scope txt d =
     (case d_entityType d of
        ET_name \<Rightarrow> if NS_person \<in> set scope then [d] else []
      | ET_location \<Rightarrow>
          if NS_location \<in> set scope then [d]
          else if NS_numbered_location \<in> set scope then
            (case numberedLocationPrefix txt (d_start d) of None \<Rightarrow> [] | Some w \<Rightarrow> [d\<lparr>d_start := w\<rparr>])
          else []
      | ET_organization \<Rightarrow> if NS_organization \<in> set scope then [d] else []
      | _ \<Rightarrow> if NS_misc \<in> set scope then [d] else [])"

definition ner_candidates :: "(bool \<times> align_result) list \<Rightarrow> detection list" where
  "ner_candidates results =
     concat (map (\<lambda>(original, aligned). if original then ar_spans aligned
        else filter (\<lambda>d. d_entityType d = ET_name) (ar_spans aligned)) results)"

definition ner_reasons :: "(bool \<times> align_result) list \<Rightarrow> risk_reason list" where
  "ner_reasons results =
     js_unique (concat (map (\<lambda>(_, aligned).
        (if ar_alignmentFailed aligned then [RR_ner_offset_alignment_failed] else [])
        @ (if ar_truncated aligned then [RR_transcript_chunking_truncated] else [])) results))"

definition createNerDetector :: "ner_config \<Rightarrow> (string \<Rightarrow> 'e + token_hit list) \<Rightarrow> string \<Rightarrow> 'e + detector_result" where
  "createNerDetector cfg pipe txt =
     (case ner_passes pipe (concat (map (\<lambda>start.
          let chunk = slice start (start + nc_chunkChars cfg) txt in [(True, chunk, start), (False, titleCase chunk, start)])
          (chunkStarts (length txt) (nc_chunkChars cfg) (nc_chunkOverlapChars cfg)))) of
        Inl e \<Rightarrow> Inl e
      | Inr results \<Rightarrow>
          let byKey = fold keep_best (ner_candidates results) [];
              scoped = concat (map (\<lambda>(_, d). scope_filter (nc_entityScope cfg) txt d) byKey);
              kept = filter (\<lambda>d. (case d_confidence d of None \<Rightarrow> 1 | Some c \<Rightarrow> c) \<ge> nc_minScore cfg) scoped
          in Inr \<lparr>dr_detections = sort_key d_start (sort_key d_end kept),
                  dr_riskSignals = ner_reasons results @ (if length kept < length scoped then [RR_ner_low_confidence] else [])\<rparr>)"


section \<open>Patterns that consume\<close>

primrec consumes :: "rx \<Rightarrow> bool" where
  "consumes (Chr p) = True"
| "consumes (Seq a b) = (consumes a \<or> consumes b)"
| "consumes (Alt a b) = (consumes a \<and> consumes b)"
| "consumes (Star a) = False"
| "consumes Eps = False"
| "consumes Bol = False"
| "consumes Eol = False"
| "consumes WordB = False"
| "consumes (NotPrev p) = False"
| "consumes (NotNext p) = False"

lemma ends_consumes: "consumes r \<Longrightarrow> j \<in> set (ends r s i) \<Longrightarrow> i \<le> length s \<Longrightarrow> i < j"
proof (induction r arbitrary: i j)
  case (Seq a b)
  then obtain k where k: "k \<in> set (ends a s i)" "j \<in> set (ends b s k)" by auto
  have b: "i \<le> k" "k \<le> length s" "k \<le> j" using ends_bounds [OF k(1)] ends_bounds [OF k(2)] Seq.prems by auto
  show ?case using Seq.IH(1) [OF _ k(1)] Seq.IH(2) [OF _ k(2)] Seq.prems b by fastforce
qed (auto split: if_splits)

lemma consumes_Seqs [simp]: "consumes (Seqs rs) \<longleftrightarrow> list_ex consumes rs"
  by (induction rs rule: Seqs.induct) auto

lemma consumes_Alts [simp]: "consumes (Alts rs) \<longleftrightarrow> list_all consumes rs"
  by (induction rs rule: Alts.induct) auto

lemma consumes_Lit [simp]: "consumes (Lit w) \<longleftrightarrow> w \<noteq> []" "consumes (LitI w) \<longleftrightarrow> w \<noteq> []"
  by (cases w; simp)+

lemma consumes_derived [simp]:
  "consumes (Plus r) \<longleftrightarrow> consumes r" "\<not> consumes (Opt r)" "consumes Digit" "0 < m \<Longrightarrow> consumes r \<Longrightarrow> consumes (Rep m n r)"
  "0 < m \<Longrightarrow> consumes r \<Longrightarrow> consumes (RepMin m r)"
  by (auto simp: Plus_def Opt_def Digit_def Rep_def RepMin_def list_ex_iff)

lemma match_ok:
  assumes "consumes r" "(a, b) \<in> set (matchAll r s)"
  shows "a < b" "b \<le> length s"
proof -
  have "a \<le> length s" "b \<in> set (ends r s a)" using matchAll_mem [OF assms(2)] by auto
  then show "a < b" "b \<le> length s" using ends_consumes [OF assms(1)] ends_bounds by blast+
qed

lemma scan_ok: "consumes r \<Longrightarrow> list_all (det_ok (length s)) (scan s r e)"
  using match_ok [of r _ _ s] by (auto simp: scan_def detection_of_def det_ok_def list_all_iff)

lemma dedupe_set: "set (dedupe ds) \<subseteq> set ds"
proof -
  have "set (fold dedupe_step xs acc) \<subseteq> set xs \<union> set acc" for xs acc
  proof (induction xs arbitrary: acc)
    case (Cons x xs)
    have "set (dedupe_step x acc) \<subseteq> insert x (set acc)" by (auto simp: dedupe_step_def split: list.splits)
    then show ?case using Cons [of "dedupe_step x acc"] by auto
  qed simp
  from this [of "sort_detections ds" "[]"] show ?thesis by (simp add: dedupe_def)
qed

lemma dedupe_ok: "list_all (det_ok n) ds \<Longrightarrow> list_all (det_ok n) (dedupe ds)"
  using dedupe_set by (fastforce simp: list_all_iff)

lemma capture_ok:
  assumes "consumes cap"
  shows "list_all (\<lambda>(a, b). a < b \<and> b \<le> length s) (capture_tail pre cap s)"
proof -
  have "hd (filter (\<lambda>p. ends cap s p \<noteq> []) (ends pre s a)) < b \<and> b \<le> length s" if m: "(a, b) \<in> set (matchAll (Seq pre cap) s)" for a b
  proof -
    let ?ps = "filter (\<lambda>p. ends cap s p \<noteq> []) (ends pre s a)"
    obtain es where es: "a \<le> length s" "concat (map (ends cap s) (ends pre s a)) = b # es" using matchAll_mem [OF m] by auto
    have "?ps \<noteq> []"
    proof
      assume "?ps = []"
      then have "\<forall>p \<in> set (ends pre s a). ends cap s p = []" by (simp add: filter_empty_conv)
      then have "concat (map (ends cap s) (ends pre s a)) = []" by simp
      with es(2) show False by simp
    qed
    then have p: "hd ?ps \<in> set (ends pre s a)" using hd_in_set by fastforce
    obtain es' where "ends cap s (hd ?ps) = b # es'" using hd_concat_map [OF es(2)] by auto
    then have b: "b \<in> set (ends cap s (hd ?ps))" by simp
    have "hd ?ps \<le> length s" using ends_bounds [OF p] es(1) by simp
    then show ?thesis using ends_consumes [OF assms b] ends_bounds [OF b] by simp
  qed
  then show ?thesis by (auto simp: capture_tail_def list_all_iff)
qed

lemma of_mirrors_ok: "list_all (\<lambda>(a, b). a < b \<and> b \<le> n) ms \<Longrightarrow> list_all (det_ok n) (of_mirrors e ms)"
  by (auto simp: of_mirrors_def detection_of_def det_ok_def list_all_iff)


section \<open>Every detection is a nonempty span of the text\<close>

lemma digits_bounded: "list_all (\<lambda>(a, b). a < b \<and> b \<le> length T) (findLongDigitRuns T)"
proof -
  let ?S = "aggressiveShadow T"
  have "snd (shadowSpan ?S a (b - a)) \<le> length T" if "(a, b) \<in> set (matchAll DIGIT_RUN (shadow_chars ?S))" for a b
  proof -
    have "b \<in> set (ends DIGIT_RUN (shadow_chars ?S) a)" "a \<le> length ?S" using matchAll_mem [OF that] by (auto simp: shadow_length)
    then have "a < b" "b \<le> length ?S" using digit_run_nonempty ends_bounds [of b DIGIT_RUN "shadow_chars ?S" a] by (auto simp: shadow_length)
    then have "?S ! (b - 1) \<in> set ?S" by simp
    then show ?thesis using shadow_mem [of "?S ! (b - 1)" T] \<open>a < b\<close> by (simp add: shadowSpan_def)
  qed
  then have "list_all (\<lambda>(a, b). b \<le> length T) (findLongDigitRuns T)"
    by (auto simp: findLongDigitRuns_def Let_def list_all_iff split_def)
  then show ?thesis using digits_visible [of T] by (fastforce simp: list_all_iff visible_def)
qed

definition spelled_ends :: "nat \<Rightarrow> spelled_state \<Rightarrow> bool" where
  "spelled_ends n st \<longleftrightarrow> (\<forall>m \<in> set (ss_out st). snd m \<le> n) \<and> (\<forall>b. ss_end st = Some b \<longrightarrow> b \<le> n)"

lemma spelled_ends_close: "spelled_ends n st \<Longrightarrow> spelled_ends n (close_spelled st)"
  by (auto simp: spelled_ends_def close_spelled_def split: option.split)

lemma spelled_ends_step: "spelled_ends n st \<Longrightarrow> b \<le> n \<Longrightarrow> spelled_ends n (spelled_step T (a, b) st)"
  using spelled_ends_close [of n st] by (auto simp: spelled_ends_def spelled_step_def Let_def split: option.split)

lemma spelled_ends_fold: "spelled_ends n st \<Longrightarrow> \<forall>m \<in> set ms. snd m \<le> n \<Longrightarrow> spelled_ends n (fold (spelled_step T) ms st)"
proof (induction ms arbitrary: st)
  case (Cons m ms)
  obtain a b where m: "m = (a, b)" by (cases m)
  then have "spelled_ends n (spelled_step T m st)" using Cons.prems spelled_ends_step [of n st b T a] by simp
  then show ?case using Cons by simp
qed simp

lemma spelled_bounded: "list_all (\<lambda>(a, b). a < b \<and> b \<le> length T) (findSpelledDigitRuns T)"
proof -
  have "\<forall>m \<in> set (matchAll (Plus (Chr is_alpha)) T). snd m \<le> length T" using run_mem(2) [of _ _ is_alpha T] by fastforce
  then have "spelled_ends (length T) (close_spelled (fold (spelled_step T) (matchAll (Plus (Chr is_alpha)) T)
      \<lparr>ss_out = [], ss_run = 0, ss_pending = 1, ss_start = None, ss_end = None\<rparr>))"
    by (intro spelled_ends_close spelled_ends_fold) (auto simp: spelled_ends_def)
  then have "\<forall>m \<in> set (findSpelledDigitRuns T). snd m \<le> length T" by (simp add: findSpelledDigitRuns_def spelled_ends_def)
  then show ?thesis using spelled_visible [of T] by (fastforce simp: list_all_iff visible_def)
qed

lemma greeting_bounded: "list_all (\<lambda>(a, b). a < b \<and> b \<le> length T) (findGreetingNames T)"
  using capture_ok [of strong_names T strong_cue] capture_ok [of weak_names T weak_cue]
  by (simp add: findGreetingNames_def strong_names_def weak_names_def name_word_def)

lemma email_bounded: "list_all (\<lambda>(a, b). a < b \<and> b \<le> length T) (findEmailLike T)"
proof -
  have "consumes EMAIL_AT_SIGN" "consumes EMAIL_SPOKEN" by (simp_all add: EMAIL_AT_SIGN_def EMAIL_SPOKEN_def)
  then show ?thesis using match_ok [of EMAIL_AT_SIGN _ _ T] match_ok [of EMAIL_SPOKEN _ _ T]
    by (auto simp: findEmailLike_def list_all_iff)
qed

text \<open>The first character of a cross street is not white space, so trimming leaves a span.\<close>

primrec zero_width :: "rx \<Rightarrow> bool" where
  "zero_width (Chr p) = False"
| "zero_width (Seq a b) = False"
| "zero_width (Alt a b) = False"
| "zero_width (Star a) = False"
| "zero_width Eps = True"
| "zero_width Bol = True"
| "zero_width Eol = True"
| "zero_width WordB = True"
| "zero_width (NotPrev p) = True"
| "zero_width (NotNext p) = True"

primrec firsts :: "(char \<Rightarrow> bool) \<Rightarrow> rx \<Rightarrow> bool" where
  "firsts p (Chr q) = (\<forall>c. q c \<longrightarrow> p c)"
| "firsts p (Seq a b) = (firsts p a \<or> zero_width a \<and> firsts p b)"
| "firsts p (Alt a b) = (firsts p a \<and> firsts p b)"
| "firsts p (Star a) = False"
| "firsts p Eps = False"
| "firsts p Bol = False"
| "firsts p Eol = False"
| "firsts p WordB = False"
| "firsts p (NotPrev q) = False"
| "firsts p (NotNext q) = False"

lemma ends_zero_width: "zero_width r \<Longrightarrow> j \<in> set (ends r s i) \<Longrightarrow> j = i"
  by (cases r) (auto split: if_splits)

lemma ends_firsts: "firsts p r \<Longrightarrow> j \<in> set (ends r s i) \<Longrightarrow> i < length s \<and> p (s ! i)"
proof (induction r arbitrary: i j)
  case (Seq a b)
  then obtain k where k: "k \<in> set (ends a s i)" "j \<in> set (ends b s k)" by auto
  then show ?case using Seq ends_zero_width [of a k s i] by auto
qed (auto split: if_splits)

lemma cross_firsts: "r \<in> set CROSS_STREET_PATTERNS \<Longrightarrow> firsts (\<lambda>c. \<not> js_space c) r \<and> consumes r"
proof -
  have "firsts (\<lambda>c. \<not> js_space c) CAP_WORD"
    by (auto simp: CAP_WORD_def Rep_def Digit_def is_upper_def is_num_def js_space_def char_code_def)
  moreover have "consumes CAP_WORD" by (simp add: CAP_WORD_def)
  ultimately have "firsts (\<lambda>c. \<not> js_space c) (Rep 1 3 (Seq CAP_WORD (Plus Space)))" "consumes (Rep 1 3 (Seq CAP_WORD (Plus Space)))"
    by (simp_all add: Rep_def)
  then show "r \<in> set CROSS_STREET_PATTERNS \<Longrightarrow> firsts (\<lambda>c. \<not> js_space c) r \<and> consumes r"
    by (auto simp: CROSS_STREET_PATTERNS_def)
qed

lemma trim_end_ok:
  assumes "det_ok (length s) d" "\<not> js_space (s ! d_start d)"
  shows "det_ok (length s) (trim_end s d)"
proof -
  let ?w = "slice (d_start d) (d_end d) s"
  have w: "length ?w = d_end d - d_start d" "?w \<noteq> []" "hd ?w = s ! d_start d"
    using assms(1) by (auto simp: slice_def det_ok_def hd_drop_conv_nth hd_take)
  have "length (takeWhile js_space (rev ?w)) < length ?w"
  proof (rule ccontr)
    assume "\<not> ?thesis"
    then have "takeWhile js_space (rev ?w) = rev ?w" by (metis length_rev length_takeWhile_le nle_le not_less takeWhile_eq_take take_all_iff)
    then have "\<forall>c \<in> set ?w. js_space c" by (metis set_rev set_takeWhileD)
    then show False using w assms(2) hd_in_set [of ?w] by auto
  qed
  then show ?thesis using assms(1) w by (auto simp: trim_end_def det_ok_def)
qed

lemma cross_ok: "list_all (det_ok (length s)) (detectCrossStreets s)"
proof -
  have "det_ok (length s) (trim_end s d)" if r: "r \<in> set CROSS_STREET_PATTERNS" and d: "d \<in> set (scan s r e)" for r d e
  proof (rule trim_end_ok)
    show "det_ok (length s) d" using scan_ok [of r s e] cross_firsts [OF r] d by (auto simp: list_all_iff)
    obtain a b where ab: "(a, b) \<in> set (matchAll r s)" "d = detection_of a b e" using d by (auto simp: scan_def)
    then have "b \<in> set (ends r s a)" using matchAll_mem [OF ab(1)] by auto
    then show "\<not> js_space (s ! d_start d)" using ends_firsts [of _ r b s a] cross_firsts [OF r] ab(2)
      by (auto simp: detection_of_def)
  qed
  then show ?thesis unfolding detectCrossStreets_def by (intro dedupe_ok) (auto simp: list_all_iff)
qed


lemma regex_ok: "list_all (det_ok (length s)) (dr_detections (createRegexDetector s))"
proof -
  have phones: "list_all (det_ok (length s)) (detectPhones s)"
    unfolding detectPhones_def by (intro dedupe_ok) (simp add: PHONE_PATTERNS_def scan_ok)
  have emails: "list_all (det_ok (length s)) (detectEmails s)"
    unfolding detectEmails_def
    by (intro dedupe_ok) (simp add: scan_ok EMAIL_STANDARD_def EMAIL_OBFUSCATED_def of_mirrors_ok [OF email_bounded])
  have addresses: "list_all (det_ok (length s)) (detectStreetAddresses s)"
    unfolding detectStreetAddresses_def by (intro dedupe_ok scan_ok) (simp add: STREET_ADDRESS_def)
  have cards: "list_all (det_ok (length s)) (detectCreditCards s)"
    unfolding detectCreditCards_def using match_ok [of CREDIT_CARD_CANDIDATE _ _ s]
    by (intro dedupe_ok) (auto simp: list_all_iff CREDIT_CARD_CANDIDATE_def detection_of_def det_ok_def)
  have "consumes CONTEXTUAL_ID" by (simp add: CONTEXTUAL_ID_def)
  then have govIds: "list_all (det_ok (length s)) (detectGovernmentIds s)"
    unfolding detectGovernmentIds_def
    by (intro dedupe_ok) (simp add: GOVERNMENT_ID_PATTERNS_def scan_ok of_mirrors_ok [OF capture_ok])
  have numbers: "list_all (det_ok (length s)) (filter q (detectLongNumbers s))" for q
    using of_mirrors_ok [OF digits_bounded] by (auto simp: detectLongNumbers_def list_all_iff)
  show ?thesis unfolding createRegexDetector_def Let_def detector_result.select_convs
    using phones emails addresses cards govIds numbers cross_ok
      of_mirrors_ok [OF spelled_bounded] of_mirrors_ok [OF greeting_bounded]
    by (intro dedupe_ok) (simp add: detectSpelledDigits_def detectGreetingNames_def)
qed

text \<open>The deny-list shadow keeps positions in order.\<close>

definition norm_inv :: "nat \<Rightarrow> norm_state \<Rightarrow> bool" where
  "norm_inv i st \<longleftrightarrow> sorted_wrt (<) (map snd (ns_out st)) \<and> (\<forall>x \<in> set (ns_out st). snd x < i)
     \<and> (\<forall>p. ns_pending st = Some p \<longrightarrow> p < i \<and> (\<forall>x \<in> set (ns_out st). snd x < p))"

lemma norm_step_inv: "norm_inv i st \<Longrightarrow> norm_inv (Suc i) (norm_step (i, c) st)"
  by (auto simp: norm_inv_def norm_step_def sorted_wrt_append split: option.split)

lemma norm_fold_inv: "norm_inv i st \<Longrightarrow> norm_inv (i + length s) (fold norm_step (enumerate i s) st)"
proof (induction s arbitrary: i st)
  case (Cons c s)
  then show ?case using Cons.IH [OF norm_step_inv [OF Cons.prems, of c]] by simp
qed simp

lemma normalizeForMatch_sorted:
  "sorted_wrt (<) (map snd (normalizeForMatch s))" "x \<in> set (normalizeForMatch s) \<Longrightarrow> snd x < length s"
proof -
  have "norm_inv 0 \<lparr>ns_out = [], ns_pending = None\<rparr>" by (simp add: norm_inv_def)
  from norm_fold_inv [OF this, of s] show "sorted_wrt (<) (map snd (normalizeForMatch s))"
    "x \<in> set (normalizeForMatch s) \<Longrightarrow> snd x < length s"
    by (auto simp: norm_inv_def normalizeForMatch_def)
qed

lemma deny_ok: "list_all (det_ok (length s)) (dr_detections (createDenyListDetector terms s))"
proof -
  let ?N = "normalizeForMatch s"
  have ok: "det_ok (length s) d" if t: "t \<noteq> []" and i: "i \<in> set (occurrences (map fst ?N) t 0)" and d: "d \<in> set (deny_hit ?N (length t) i)" for t i d
  proof -
    have "i + length t \<le> length ?N" using occurrences_mem [OF i] by simp
    moreover have "0 < length t" using t by simp
    ultimately have j: "i \<le> i + length t - 1" "i + length t - 1 < length ?N" by linarith+
    then have "snd (?N ! i) \<le> snd (?N ! (i + length t - 1))"
      using sorted_wrt_nth_less [OF normalizeForMatch_sorted(1) [of s], of i "i + length t - 1"] by (cases "i = i + length t - 1") auto
    moreover have "snd (?N ! (i + length t - 1)) < length s" using j normalizeForMatch_sorted(2) nth_mem by blast
    ultimately show ?thesis using d by (auto simp: deny_hit_def det_ok_def split: if_splits)
  qed
  have "det_ok (length s) d" if "normalizeForMatch t \<noteq> []" "i \<in> set (occurrences (map fst ?N) (map fst (normalizeForMatch t)) 0)"
    "d \<in> set (deny_hit ?N (length (normalizeForMatch t)) i)" for t i d
    using ok [of "map fst (normalizeForMatch t)" i d] that by simp
  then show ?thesis by (auto simp: createDenyListDetector_def Let_def list_all_iff; blast)
qed

text \<open>The open span of the aligner lies before the cursor.\<close>

definition align_inv :: "string \<Rightarrow> nat \<Rightarrow> align_state \<Rightarrow> bool" where
  "align_inv tx off st \<longleftrightarrow> al_cursor st \<le> length tx
     \<and> (\<forall>d \<in> set (al_spans st). off \<le> d_start d \<and> d_start d < d_end d \<and> d_end d \<le> off + length tx)
     \<and> (\<forall>cur. al_current st = Some cur \<longrightarrow> os_start cur < os_end cur \<and> os_end cur \<le> al_cursor st)"

lemma flush_inv: "align_inv tx off st \<Longrightarrow> align_inv tx off (flush tx off st) \<and> al_current (flush tx off st) = None
    \<and> al_cursor (flush tx off st) = al_cursor st"
proof (cases "al_current st")
  case (Some cur)
  assume inv: "align_inv tx off st"
  let ?a = "os_start cur - length (takeWhile word_char (rev (take (os_start cur) tx)))"
  let ?b = "os_end cur + length (takeWhile word_char (drop (os_end cur) tx))"
  have cur: "os_start cur < os_end cur" "os_end cur \<le> length tx" using inv Some by (auto simp: align_inv_def)
  have "?a < ?b" "?b \<le> length tx" using cur length_takeWhile_le [of word_char "drop (os_end cur) tx"] by simp_all
  moreover define a b where "a = ?a" and "b = ?b"
  ultimately have ab: "a < b" "b \<le> length tx" by simp_all
  have fl: "flush tx off st = st\<lparr>al_spans := al_spans st @
      [\<lparr>d_start = a + off, d_end = b + off, d_entityType = os_entityType cur, d_detector = DET_ner,
        d_confidence = Some (os_scoreSum cur / of_nat (os_pieceCount cur))\<rparr>], al_current := None\<rparr>"
    using Some by (simp add: flush_def Let_def a_def b_def)
  show ?thesis unfolding fl using inv ab by (auto simp: align_inv_def)
qed (simp add: flush_def)

lemma align_step_inv:
  assumes inv: "align_inv tx off st"
  shows "align_inv tx off (align_step tx off t st)"
proof -
  define piece where "piece = (if take 2 (th_word t) = ''##'' then drop 2 (th_word t) else th_word t)"
  have failed: "align_inv tx off (flush tx off (st\<lparr>al_failed := b\<rparr>))" for b
  proof -
    have "align_inv tx off (st\<lparr>al_failed := b\<rparr>)" using inv by (simp add: align_inv_def)
    then show ?thesis using flush_inv by blast
  qed
  show ?thesis
  proof (cases "piece = ''[UNK]'' \<or> piece = [] \<or> str_indexOf (lowercase tx) (lowercase piece) (al_cursor st) = None")
    case True
    then show ?thesis using failed by (auto simp: align_step_def Let_def piece_def [symmetric])
  next
    case False
    then obtain start where start: "str_indexOf (lowercase tx) (lowercase piece) (al_cursor st) = Some start" and ne: "piece \<noteq> []" by auto
    have b: "al_cursor st \<le> start" "start + length piece \<le> length tx" "0 < length piece"
      using str_indexOf_ge [OF start] str_indexOf_Some [OF start] ne by (simp_all add: lowercase_def)
    let ?st1 = "st\<lparr>al_cursor := start + length piece\<rparr>"
    have st1: "align_inv tx off ?st1" using inv b by (fastforce simp: align_inv_def)
    have fl: "align_inv tx off (flush tx off ?st1)" "al_cursor (flush tx off ?st1) = start + length piece"
      using flush_inv [OF st1] by simp_all
    have fresh: "align_inv tx off ((flush tx off ?st1)\<lparr>al_current := Some \<lparr>os_start = start, os_end = start + length piece,
        os_entityType = e, os_scoreSum = w, os_pieceCount = 1\<rparr>\<rparr>)" for e w
      using fl b by (simp add: align_inv_def)
    have ext: "align_inv tx off (?st1\<lparr>al_current := Some (cur\<lparr>os_end := start + length piece, os_scoreSum := w, os_pieceCount := k\<rparr>)\<rparr>)"
      if "al_current st = Some cur" for cur w k using st1 inv b that by (auto simp: align_inv_def)
    show ?thesis using False start fl(1) fresh ext
      by (auto simp: align_step_def Let_def piece_def [symmetric] split: option.split)
  qed
qed

lemma alignTokens_bounds:
  "d \<in> set (ar_spans (alignTokens tx tokens off)) \<Longrightarrow> off \<le> d_start d \<and> d_start d < d_end d \<and> d_end d \<le> off + length tx"
proof -
  have "align_inv tx off (fold (align_step tx off) ts st)" if "align_inv tx off st" for ts st
    using that by (induction ts arbitrary: st) (auto intro: align_step_inv)
  from flush_inv [OF this, of "\<lparr>al_spans = [], al_failed = False, al_cursor = 0, al_current = None\<rparr>" tokens]
  show "d \<in> set (ar_spans (alignTokens tx tokens off)) \<Longrightarrow> ?thesis"
    by (simp add: alignTokens_def Let_def align_inv_def)
qed


lemma titleCase_length [simp]: "length (titleCase s) = length s"
  by (simp add: titleCase_def)

lemma ner_passes_mem:
  "ner_passes pipe ps = Inr results \<Longrightarrow> (b, al) \<in> set results \<Longrightarrow>
   \<exists>variant start tokens. (b, variant, start) \<in> set ps \<and> al = alignTokens variant tokens start"
proof (induction pipe ps arbitrary: results rule: ner_passes.induct)
  case (2 pipe original variant start rest)
  then obtain tokens rs where "pipe variant = Inr tokens" "ner_passes pipe rest = Inr rs"
    "results = (original, alignTokens variant tokens start) # rs"
    by (auto split: sum.splits)
  then show ?case using 2 by (cases "(b, al) \<in> set rs") fastforce+
qed simp

lemma keep_best_set: "snd ` set (fold keep_best ds acc) \<subseteq> set ds \<union> snd ` set acc"
proof (induction ds arbitrary: acc)
  case (Cons d ds)
  have "set (obj_set k d xs) \<subseteq> insert (k, d) (set xs)" for k and xs :: "(string \<times> detection) list"
    by (induction k d xs rule: obj_set.induct) auto
  then have "set (keep_best d acc) \<subseteq> insert (ner_key d, d) (set acc)"
    unfolding keep_best_def by (auto split: option.splits if_splits)
  then have "snd ` set (keep_best d acc) \<subseteq> insert d (snd ` set acc)" by force
  then show ?case using Cons [of "keep_best d acc"] by (simp del: image_subset_iff) blast
qed simp

lemma chunk_from_bounds: "c \<in> set (chunk_from len chunk step s) \<Longrightarrow> c = s \<or> c < len"
proof (induction len chunk step s rule: chunk_from.induct)
  case (1 len chunk step s)
  then show ?case by (subst (asm) (2) chunk_from.simps) (auto split: if_splits)
qed

lemma numberedLocationPrefix_le: "numberedLocationPrefix tx n = Some w \<Longrightarrow> n \<le> length tx \<Longrightarrow> w \<le> n"
proof -
  assume w: "numberedLocationPrefix tx n = Some w" and n: "n \<le> length tx"
  let ?s = "slice (n - HOUSE_NUMBER_WINDOW) n tx"
  obtain i b ms where m: "matchAll HOUSE_NUMBER_BEFORE ?s = (i, b) # ms" "w = n - HOUSE_NUMBER_WINDOW + i"
    using w by (auto simp: numberedLocationPrefix_def Let_def split: list.splits)
  then have "(i, b) \<in> set (matchAll HOUSE_NUMBER_BEFORE ?s)" by simp
  from matchAll_mem [OF this] have "i \<le> length ?s" by simp
  then show "w \<le> n" using m(2) n by (auto simp: slice_def)
qed

lemma scope_filter_ok: "det_ok (length tx) d \<Longrightarrow> x \<in> set (scope_filter scope tx d) \<Longrightarrow> det_ok (length tx) x"
proof -
  assume d: "det_ok (length tx) d" and x: "x \<in> set (scope_filter scope tx d)"
  have "d_end x = d_end d \<and> (d_start x = d_start d \<or> numberedLocationPrefix tx (d_start d) = Some (d_start x))"
    using x unfolding scope_filter_def
    by (cases "d_entityType d"; cases "numberedLocationPrefix tx (d_start d)"; cases "NS_person \<in> set scope";
        cases "NS_location \<in> set scope"; cases "NS_numbered_location \<in> set scope"; cases "NS_organization \<in> set scope";
        cases "NS_misc \<in> set scope") simp_all
  then show ?thesis using d numberedLocationPrefix_le [of tx "d_start d" "d_start x"] by (auto simp: det_ok_def)
qed

lemma ner_ok:
  assumes "createNerDetector cfg pipe tx = Inr r"
  shows "list_all (det_ok (length tx)) (dr_detections r)"
proof -
  let ?starts = "chunkStarts (length tx) (nc_chunkChars cfg) (nc_chunkOverlapChars cfg)"
  let ?passes = "concat (map (\<lambda>start. let chunk = slice start (start + nc_chunkChars cfg) tx in
    [(True, chunk, start), (False, titleCase chunk, start)]) ?starts)"
  obtain results where results: "ner_passes pipe ?passes = Inr results"
    using assms by (auto simp: createNerDetector_def split: sum.splits)
  have al: "det_ok (length tx) d" if m: "(b, al) \<in> set results" and d: "d \<in> set (ar_spans al)" for b al d
  proof -
    obtain variant start tokens where v: "(b, variant, start) \<in> set ?passes" "al = alignTokens variant tokens start"
      using ner_passes_mem [OF results m] by blast
    have "start \<in> set ?starts" "length variant = length (slice start (start + nc_chunkChars cfg) tx)"
      using v(1) by (auto simp: Let_def)
    then have "start \<le> length tx" "start + length variant \<le> length tx"
      using chunk_from_bounds [of start "length tx" "nc_chunkChars cfg" _ 0] by (fastforce simp: chunkStarts_def slice_def)+
    then show ?thesis using alignTokens_bounds [of d variant tokens start] d v(2) by (auto simp: det_ok_def)
  qed
  then have cand: "det_ok (length tx) d" if "d \<in> set (ner_candidates results)" for d
    using that by (auto simp: ner_candidates_def split: if_splits)
  have best: "det_ok (length tx) d" if "(k, d) \<in> set (fold keep_best (ner_candidates results) [])" for k d
    using keep_best_set [of "ner_candidates results" "[]"] that cand by force
  show ?thesis using assms results best scope_filter_ok
    by (fastforce simp: createNerDetector_def Let_def list_all_iff)
qed

text \<open>Consecutive chunks overlap, so a short piece of text is whole in one of them.\<close>

lemma chunk_from_cover:
  "0 < step \<Longrightarrow> step \<le> chunk \<Longrightarrow> s \<le> a \<Longrightarrow> a < b \<Longrightarrow> b \<le> len \<Longrightarrow> b + step \<le> a + chunk + 1 \<Longrightarrow>
    \<exists>c \<in> set (chunk_from len chunk step s). c \<le> a \<and> b \<le> c + chunk"
proof (induction len chunk step s rule: chunk_from.induct)
  case (1 len chunk step s)
  show ?case
  proof (cases "a < s + step \<or> len \<le> s + chunk")
    case True
    then have "b \<le> s + chunk" using "1.prems" by linarith
    then show ?thesis using "1.prems" by (subst chunk_from.simps) auto
  next
    case False
    then have "\<exists>c \<in> set (chunk_from len chunk step (s + step)). c \<le> a \<and> b \<le> c + chunk"
      using "1.prems" by (intro "1.IH") auto
    then show ?thesis using False "1.prems" by (subst chunk_from.simps) auto
  qed
qed


section \<open>Properties\<close>

lemma chunks_cover:
  assumes "overlap < chunk" "a < b" "b \<le> len" "b - a \<le> overlap + 1"
  shows "\<exists>c \<in> set (chunkStarts len chunk overlap). c \<le> a \<and> b \<le> c + chunk"
  unfolding chunkStarts_def using assms by (intro chunk_from_cover) auto

text \<open>C30: The detectors only report real spans.  Whatever the NER model answers, every detection of the NER, the regex and
  the deny-list layer is a non-empty range of character positions of the text.\<close>

theorem detections_in_bounds:
  "(case createNerDetector cfg pipe tx of
      Inl e \<Rightarrow> True
    | Inr ner \<Rightarrow> detections_ok tx [ner, createRegexDetector tx, createDenyListDetector terms tx])"
  using ner_ok [of cfg pipe tx] regex_ok [of tx] deny_ok [of tx terms]
  by (auto simp: detections_ok_def split: sum.split)


end
