(* ===== verification/Model_Stage.thy ===== *)
theory Model_Stage
  imports Runner Model_Cost Model_Output
begin

text \<open>
  What the model-backed stages share: \<^verbatim>\<open>src/src/pipeline/model-stage-shared.ts\<close> and the client wrapper of
  \<^verbatim>\<open>src/src/anthropic/client.ts\<close>.  A handler is an operation whose errors are thrown values; a database
  error surfaces as the \<^verbatim>\<open>DalError\<close> it is.  The SDK is a parameter: one request maps the prompt to an
  SDK error or a response body.
\<close>

section \<open>Handler operations\<close>

type_synonym 'a hop = "(db, js_error, 'a) op"

primrec dal_code_name :: "dal_code \<Rightarrow> string" where
  "dal_code_name DAL_VALIDATION_FAILED = ''DAL_VALIDATION_FAILED''"
| "dal_code_name DAL_STALE_STAGE = ''DAL_STALE_STAGE''"
| "dal_code_name DAL_QUERY_FAILED = ''DAL_QUERY_FAILED''"
| "dal_code_name DAL_RESTRICTED_ACCESS_DENIED = ''DAL_RESTRICTED_ACCESS_DENIED''"
| "dal_code_name DAL_COST_ADJUST_REJECTED = ''DAL_COST_ADJUST_REJECTED''"
| "dal_code_name DAL_REVIEW_INVARIANT = ''DAL_REVIEW_INVARIANT''"

primrec js_of_db :: "db_error \<Rightarrow> js_error" where
  "js_of_db (DalError code) =
     \<lparr>je_is_error = True, je_name = ''DalError'', je_code = Some (dal_code_name code), je_message = dal_code_name code\<rparr>"

definition plain_error :: "string \<Rightarrow> js_error" where
  "plain_error message = \<lparr>je_is_error = True, je_name = ''Error'', je_code = None, je_message = message\<rparr>"

definition run_db :: "'a dbop \<Rightarrow> 'a hop" where
  "run_db m db = (case m db of (Inl e, db') \<Rightarrow> (Inl (js_of_db e), db') | (Inr a, db') \<Rightarrow> (Inr a, db'))"

definition run_read :: "(db \<Rightarrow> 'a) \<Rightarrow> 'a hop" where
  "run_read f db = (Inr (f db), db)"

definition run_write :: "(db \<Rightarrow> db) \<Rightarrow> unit hop" where
  "run_write f db = (Inr (), f db)"


text \<open>Object spread: the entries of the second object are assigned on top of the first.\<close>

definition obj_spread :: "(string \<times> 'v) list \<Rightarrow> (string \<times> 'v) list \<Rightarrow> (string \<times> 'v) list" where
  "obj_spread base over = fold (\<lambda>(k, v). obj_set k v) over base"

definition jnat :: "nat \<Rightarrow> json" where
  "jnat n = JNum (of_nat n)"

definition json_counts :: "(string \<times> nat) list \<Rightarrow> json_object" where
  "json_counts counts = map (\<lambda>(k, n). (k, jnat n)) counts"

section \<open>Configuration and the model boundary\<close>

record model_config =
  ENABLED :: bool
  MODEL_ID :: string
  MAX_TOKENS :: nat
  INPUT_TOKENS_CEILING :: nat
  RESERVATION_OVERHEAD_TOKENS :: nat
  COST_RATES :: model_rates

record stage_config =
  NODE_ENV :: string
  PREFILTER_MIN_DURATION_MS :: rat
  DIALPAD_TRANSCRIPT_WAIT_MAX_MS :: int
  DIALPAD_TRANSCRIPT_POLL_MS :: int
  DAILY_COST :: cost_config
  CLASSIFY :: model_config
  EXTRACT :: model_config

datatype model_error_kind = MK_auth | MK_rate_limited | MK_transient | MK_unexpected

datatype billing_disposition = BD_not_sent | BD_not_billed | BD_maybe_billed

text \<open>What a model call can throw: a \<^verbatim>\<open>ModelApiError\<close>, or anything else with the first entry of its
  \<^verbatim>\<open>invalid\<close> array, when it has one.\<close>

datatype model_error =
    ModelApiError model_error_kind billing_disposition "int option"
  | OtherError js_error "string option"

definition KIND_MESSAGES :: "model_error_kind \<Rightarrow> string" where
  "KIND_MESSAGES kind =
     (case kind of
        MK_auth \<Rightarrow> ''Anthropic API rejected the credentials (auth failure)''
      | MK_rate_limited \<Rightarrow> ''Anthropic API rate limit exceeded''
      | MK_transient \<Rightarrow> ''Anthropic API transient failure (server error or connection failure)''
      | MK_unexpected \<Rightarrow> ''Anthropic API call failed in an unexpected way'')"

definition js_of_model_error :: "model_error \<Rightarrow> js_error" where
  "js_of_model_error err =
     (case err of
        ModelApiError kind _ _ \<Rightarrow>
          \<lparr>je_is_error = True, je_name = ''ModelApiError'', je_code = None, je_message = KIND_MESSAGES kind\<rparr>
      | OtherError e _ \<Rightarrow> e)"

record model_result =
  mr_text :: "string option"
  mr_stopReason :: "string option"
  mr_inputTokens :: nat
  mr_outputTokens :: nat
  mr_usagePresent :: bool

text \<open>The errors of the SDK that \<^verbatim>\<open>toModelApiError\<close> tells apart, most specific first.\<close>

datatype sdk_error =
    AuthenticationError int
  | PermissionDeniedError int
  | RateLimitError int
  | APIConnectionError
  | InternalServerError int
  | APIError "int option"
  | OtherSdkError

definition toModelApiError :: "sdk_error \<Rightarrow> model_error" where
  "toModelApiError error =
     (case error of
        AuthenticationError status \<Rightarrow> ModelApiError MK_auth BD_not_billed (Some status)
      | PermissionDeniedError status \<Rightarrow> ModelApiError MK_auth BD_not_billed (Some status)
      | RateLimitError status \<Rightarrow> ModelApiError MK_rate_limited BD_not_billed (Some status)
      | APIConnectionError \<Rightarrow> ModelApiError MK_transient BD_maybe_billed None
      | InternalServerError status \<Rightarrow> ModelApiError MK_transient BD_maybe_billed (Some status)
      | APIError status \<Rightarrow> ModelApiError MK_unexpected BD_maybe_billed status
      | OtherSdkError \<Rightarrow> ModelApiError MK_unexpected BD_maybe_billed None)"

definition text_block :: "json \<Rightarrow> string option" where
  "text_block block =
     (case (json_get block ''type'', json_get block ''text'') of
        (Some (JStr t), Some (JStr s)) \<Rightarrow> if t = ''text'' then Some s else None
      | _ \<Rightarrow> None)"

text \<open>\<^verbatim>\<open>Number.isSafeInteger\<close> and not negative.\<close>

definition safe_count :: "json \<Rightarrow> nat option" where
  "safe_count v =
     (case v of JNum n \<Rightarrow> if of_int \<lfloor>n\<rfloor> = n \<and> 0 \<le> n \<and> n \<le> 9007199254740991 then Some (nat \<lfloor>n\<rfloor>) else None | _ \<Rightarrow> None)"

definition normalize :: "json \<Rightarrow> model_result" where
  "normalize response =
     (let content = (case json_get response ''content'' of Some (JArr blocks) \<Rightarrow> blocks | _ \<Rightarrow> []);
          texts = List.map_filter text_block content;
          usage = json_get response ''usage'';
          tokenOf = (\<lambda>field. Option.bind (Option.bind usage (\<lambda>u. json_get u field)) safe_count);
          stopReason = (case json_get response ''stop_reason'' of Some (JStr s) \<Rightarrow> Some s | _ \<Rightarrow> None)
      in case (tokenOf ''input_tokens'', tokenOf ''output_tokens'') of
           (Some inputTokens, Some outputTokens) \<Rightarrow>
             \<lparr>mr_text = (if texts \<noteq> [] then Some (concat texts) else None), mr_stopReason = stopReason,
              mr_inputTokens = inputTokens, mr_outputTokens = outputTokens, mr_usagePresent = True\<rparr>
         | _ \<Rightarrow>
             \<lparr>mr_text = (if texts \<noteq> [] then Some (concat texts) else None), mr_stopReason = stopReason,
              mr_inputTokens = 0, mr_outputTokens = 0, mr_usagePresent = False\<rparr>)"

text \<open>A client: construction fails without an API key, a call is one HTTP request of the SDK (the parameter
  \<open>create\<close>, from the system prompt and the user text).\<close>

definition CONFIG_ERROR_CODE :: string where "CONFIG_ERROR_CODE = ''CONFIG_MISSING_OR_INVALID''"

definition createAnthropicClient ::
    "string option \<Rightarrow> (string \<Rightarrow> string \<Rightarrow> sdk_error + json) \<Rightarrow> string \<Rightarrow> string \<Rightarrow> model_error + model_result" where
  "createAnthropicClient apiKey create system userText =
     (if apiKey = None \<or> apiKey = Some [] then
        Inl (OtherError \<lparr>je_is_error = True, je_name = ''ConfigError'', je_code = Some CONFIG_ERROR_CODE,
               je_message = CONFIG_ERROR_CODE @ '': ANTHROPIC_API_KEY is required to call the Anthropic API''\<rparr>
               (Some ''ANTHROPIC_API_KEY''))
      else case create system userText of
             Inl error \<Rightarrow> Inl (toModelApiError error)
           | Inr response \<Rightarrow> Inr (normalize response))"

section \<open>Stage alerts\<close>

text \<open>\<^verbatim>\<open>createFailure\<close> throws what its schema rejects.\<close>

definition createFailure_op :: "error_code \<Rightarrow> processing_state \<Rightarrow> fail_context \<Rightarrow> failure_fields hop" where
  "createFailure_op code processingState ctx =
     (case createFailure code processingState (Some ctx) None of
        None \<Rightarrow> op_throw \<lparr>je_is_error = True, je_name = ''ZodError'', je_code = None, je_message = []\<rparr>
      | Some failure \<Rightarrow> op_return failure)"

definition failure_alert :: "failure_fields \<Rightarrow> json_object \<Rightarrow> alert_insert" where
  "failure_alert failure extra =
     \<lparr>ai_errorCode = error_code_name (ff_error_code failure),
      ai_rootCauseCategory = error_code_name (ff_root_cause_category failure),
      ai_severity = ff_severity failure, ai_dedupKey = dedupKey failure,
      ai_failureSnapshot = Some (JObj (obj_spread (asObject (failureSnapshot failure)) extra))\<rparr>"

definition stage_context :: "string \<Rightarrow> string \<Rightarrow> stage_config \<Rightarrow> string option \<Rightarrow> fail_context" where
  "stage_context callId stage config component =
     [(''call_id'', callId), (''stage'', stage), (''environment'', NODE_ENV config)]
     @ (case component of None \<Rightarrow> [] | Some c \<Rightarrow> [(''component'', c)])"

definition recordStageAlert ::
    "pg \<Rightarrow> string \<Rightarrow> string \<Rightarrow> stage_config \<Rightarrow> error_code \<Rightarrow> processing_state \<Rightarrow> json_object \<Rightarrow> string option \<Rightarrow> unit hop" where
  "recordStageAlert pg callId stage config code processingState extraSnapshot component =
     op_bind (createFailure_op code processingState (stage_context callId stage config component)) (\<lambda>failure.
     op_bind (run_db (recordAlert pg (failure_alert failure
        ([(''call_id'', JStr callId), (''stage'', JStr stage)] @ extraSnapshot)))) (\<lambda>_.
     op_return ()))"

text \<open>A side effect whose failure is logged and swallowed; what it wrote before failing stays.\<close>

definition resilientSideEffect :: "unit hop \<Rightarrow> unit hop" where
  "resilientSideEffect fn db = (Inr (), snd (fn db))"

definition recordVerbatimPiiDetectedAlertResilient ::
    "pg \<Rightarrow> string \<Rightarrow> string \<Rightarrow> stage_config \<Rightarrow> (string \<times> nat) list \<Rightarrow> unit hop" where
  "recordVerbatimPiiDetectedAlertResilient pg callId stage config counts =
     resilientSideEffect
       (recordStageAlert pg callId stage config VERBATIM_PII_DETECTED PST_degraded (json_counts counts) None)"

definition cost_warning_key :: "string \<Rightarrow> string" where
  "cost_warning_key day = ''MODEL_COST_WARNING_THRESHOLD_EXCEEDED:day:'' @ day"

text \<open>Lock, check and insert in one transaction, so concurrent emitters of one day are a sequence.\<close>

definition emitCostWarningIfReached ::
    "pg \<Rightarrow> string \<Rightarrow> stage_config \<Rightarrow> budget_reservation \<Rightarrow> string option \<Rightarrow> unit hop" where
  "emitCostWarningIfReached pg stage config reservation component =
     (if \<not> br_warningThresholdReached reservation then op_return ()
      else
        op_bind (createFailure_op MODEL_COST_WARNING_THRESHOLD_EXCEEDED PST_continuing
                   ([(''stage'', stage), (''environment'', NODE_ENV config)]
                    @ (case component of None \<Rightarrow> [] | Some c \<Rightarrow> [(''component'', c)]))) (\<lambda>failure.
        let dedupKeyForDay = cost_warning_key (br_day reservation) in
        resilientSideEffect (withTransaction (\<lambda>db.
          if sql_exists (\<lambda>r. ae_dedup_key r = dedupKeyForDay) (alert_events db) then (Inr (), db)
          else op_bind (run_db (recordAlertWithInsertStatus pg
                 \<lparr>ai_errorCode = error_code_name (ff_error_code failure),
                  ai_rootCauseCategory = error_code_name (ff_root_cause_category failure),
                  ai_severity = ff_severity failure, ai_dedupKey = dedupKeyForDay,
                  ai_failureSnapshot = Some (failureSnapshot failure)\<rparr>)) (\<lambda>_. op_return ()) db))))"

text \<open>The newest log row of a kind: \<^verbatim>\<open>ORDER BY created_at DESC, id DESC LIMIT 1\<close>.\<close>

definition latest_log :: "(processing_log_row \<Rightarrow> bool) \<Rightarrow> db \<Rightarrow> processing_log_row option" where
  "latest_log p db = first_row (rev (sort_key pl_created_at (sql_select p (processing_log db))))"

definition log_detail_text :: "pg \<Rightarrow> string \<Rightarrow> processing_log_row \<Rightarrow> string option" where
  "log_detail_text pg k r = Option.bind (pl_detail r) (\<lambda>d. json_get_text pg d k)"

definition parkStageDisabled :: "pg \<Rightarrow> string \<Rightarrow> string \<Rightarrow> string \<Rightarrow> unit hop" where
  "parkStageDisabled pg callId stage marker =
     withTransaction (\<lambda>db.
       if Option.bind (latest_log (\<lambda>r. pl_call_id r = Some callId \<and> pl_stage r = stage) db)
            (log_detail_text pg ''reason'') = Some marker
       then (Inr (), db)
       else op_bind (run_db (appendLog pg \<lparr>le_callId = Some callId, le_stage = stage, le_outcome = ''deferred'',
              le_errorCode = None, le_detail = Some (JObj [(''reason'', JStr marker)]),
              le_failureSnapshot = None\<rparr>)) (\<lambda>_. op_return ()) db)"

section \<open>Model errors\<close>

definition hasConfigMissingCode :: "js_error \<Rightarrow> bool" where
  "hasConfigMissingCode err \<longleftrightarrow> je_code err = Some ''CONFIG_MISSING_OR_INVALID''"

definition json_status :: "int option \<Rightarrow> json" where
  "json_status status = (case status of None \<Rightarrow> JNull | Some n \<Rightarrow> JNum (of_int n))"

definition handleModelError ::
    "pg \<Rightarrow> string \<Rightarrow> string \<Rightarrow> stage_config \<Rightarrow> budget_reservation \<Rightarrow> model_error \<Rightarrow> string option \<Rightarrow> unit hop" where
  "handleModelError pg callId stage config reservation err component =
     (case err of
        ModelApiError kind billingDisposition status \<Rightarrow>
          op_bind (if billingDisposition \<noteq> BD_maybe_billed
                   then resilientSideEffect (run_db (releaseModelReservation pg reservation)) else op_return ()) (\<lambda>_.
          if kind = MK_auth then
            resilientSideEffect (recordStageAlert pg callId stage config MODEL_AUTH_FAILED PST_paused
              [(''status'', json_status status)] component)
          else if kind = MK_rate_limited then
            resilientSideEffect (recordStageAlert pg callId stage config MODEL_RATE_LIMITED PST_degraded
              [(''status'', json_status status)] component)
          else op_return ())
      | OtherError e variable \<Rightarrow>
          op_bind (resilientSideEffect (run_db (releaseModelReservation pg reservation))) (\<lambda>_.
          if hasConfigMissingCode e then
            op_bind (createFailure_op CONFIG_MISSING_OR_INVALID PST_paused
                       (stage_context callId stage config component)) (\<lambda>failure.
            resilientSideEffect (op_bind (run_db (recordAlert pg (failure_alert failure
              ([(''call_id'', JStr callId), (''stage'', JStr stage)]
               @ (case variable of None \<Rightarrow> [] | Some v \<Rightarrow> [(''variable'', JStr v)]))))) (\<lambda>_. op_return ())))
          else op_return ()))"

end
