(* ===== verification/Stage_Handlers.thy ===== *)
theory Stage_Handlers
  imports Model_Stage Pipeline_Queue
begin

text \<open>
  The stage handlers of \<^verbatim>\<open>src/src/pipeline\<close>: \<^verbatim>\<open>metadata-prefilter.ts\<close>, \<^verbatim>\<open>fetch-transcript.ts\<close>,
  \<^verbatim>\<open>classify/handler.ts\<close> with \<^verbatim>\<open>classification-marker.ts\<close>, \<^verbatim>\<open>extract/handler.ts\<close>, \<^verbatim>\<open>verbatim-pii-scan.ts\<close>,
  \<^verbatim>\<open>store.ts\<close>, \<^verbatim>\<open>mark-retention-eligible.ts\<close>, and the handler set of \<^verbatim>\<open>handlers.ts\<close>.  What lies outside the
  repository is the record \<open>stage_deps\<close>: the Dialpad client, the model clients, encryption, the job
  queue, the clock.  Log lines carry no state and are left out.  The redact handler is an argument of
  the handler set.
\<close>

section \<open>Dependencies\<close>

datatype dialpad_failure_kind = DK_auth | DK_rate_limited | DK_api_changed | DK_unavailable

primrec dialpad_failure_kind_name :: "dialpad_failure_kind \<Rightarrow> string" where
  "dialpad_failure_kind_name DK_auth = ''auth''"
| "dialpad_failure_kind_name DK_rate_limited = ''rate_limited''"
| "dialpad_failure_kind_name DK_api_changed = ''api_changed''"
| "dialpad_failure_kind_name DK_unavailable = ''unavailable''"

record dialpad_error =
  de_kind :: dialpad_failure_kind
  de_endpoint :: string
  de_status :: "int option"
  de_attempts :: nat

datatype fetch_error = DialpadError dialpad_error | OtherFetchError js_error

definition js_of_fetch_error :: "fetch_error \<Rightarrow> js_error" where
  "js_of_fetch_error err =
     (case err of
        DialpadError e \<Rightarrow>
          \<lparr>je_is_error = True, je_name = ''DialpadError'', je_code = None,
           je_message = ''dialpad '' @ de_endpoint e @ '' request failed: '' @ dialpad_failure_kind_name (de_kind e) @ '' (''
             @ (case de_status e of None \<Rightarrow> [] | Some n \<Rightarrow> '' status '' @ int_text n @ '','')
             @ '' attempts '' @ uuid_text (de_attempts e) @ '')''\<rparr>
      | OtherFetchError e \<Rightarrow> e)"

text \<open>\<^verbatim>\<open>TranscriptResult\<close>: a transcript with the canonical call id it reports, if any.\<close>

datatype transcript_result = TR_ready string "string option" | TR_not_ready

record stage_deps =
  sd_pg :: pg
  sd_config :: stage_config
  sd_now :: int
  sd_fetchTranscript :: "string \<Rightarrow> fetch_error + transcript_result"
  sd_encrypt :: "string \<Rightarrow> string \<Rightarrow> string \<times> nat"
  sd_digest :: "string \<Rightarrow> string"
  sd_queue_refuses :: "string \<Rightarrow> js_error option"
  sd_classify :: "string \<Rightarrow> string \<Rightarrow> model_error + model_result"
  sd_extract :: "string \<Rightarrow> string \<Rightarrow> model_error + model_result"
  sd_json_parse :: "string \<Rightarrow> json option"
  sd_zod_issues :: "json \<Rightarrow> string list"
  sd_denyTerms :: "string list"

definition queue_op :: "stage_deps \<Rightarrow> string \<Rightarrow> (db \<Rightarrow> db) \<Rightarrow> unit hop" where
  "queue_op deps jobId add =
     (case sd_queue_refuses deps jobId of Some e \<Rightarrow> op_throw e | None \<Rightarrow> run_write add)"

section \<open>metadata-pre-filter\<close>

record call_metadata =
  cm_duration :: "rat option"
  cm_state :: "string option"
  cm_direction :: "string option"
  cm_operator_call_id :: "string option"
  cm_is_internal :: "bool option"

text \<open>An optional field: absent, or present with a value of the right type; \<open>None\<close> rejects the object.\<close>

definition z_optional :: "(json \<Rightarrow> 'a option) \<Rightarrow> json option \<Rightarrow> 'a option option" where
  "z_optional p v = (case v of None \<Rightarrow> Some None | Some j \<Rightarrow> map_option Some (p j))"

definition json_number :: "json \<Rightarrow> rat option" where
  "json_number j = (case j of JNum n \<Rightarrow> Some n | _ \<Rightarrow> None)"

definition json_string :: "json \<Rightarrow> string option" where
  "json_string j = (case j of JStr s \<Rightarrow> Some s | _ \<Rightarrow> None)"

definition json_bool :: "json \<Rightarrow> bool option" where
  "json_bool j = (case j of JBool b \<Rightarrow> Some b | _ \<Rightarrow> None)"

definition callMetadataSchema :: "json \<Rightarrow> call_metadata option" where
  "callMetadataSchema j =
     (case j of
        JObj ob \<Rightarrow>
          Option.bind (z_optional json_number (map_of ob ''duration'')) (\<lambda>duration.
          Option.bind (z_optional json_string (map_of ob ''state'')) (\<lambda>state.
          Option.bind (z_optional json_string (map_of ob ''direction'')) (\<lambda>direction.
          Option.bind (z_optional json_string (map_of ob ''operator_call_id'')) (\<lambda>operator.
          Option.bind (z_optional json_string (map_of ob ''master_call_id'')) (\<lambda>_.
          Option.bind (z_optional json_bool (map_of ob ''is_internal'')) (\<lambda>internal.
          Some \<lparr>cm_duration = duration, cm_state = state, cm_direction = direction,
                cm_operator_call_id = operator, cm_is_internal = internal\<rparr>))))))
      | _ \<Rightarrow> None)"

definition NON_CONVERSATION_STATES :: "string list" where
  "NON_CONVERSATION_STATES =
     [''missed'', ''no_answer'', ''failed'', ''busy'', ''canceled'', ''abandoned'', ''rejected'']"

text \<open>\<open>None\<close> is a pass.\<close>

definition evaluateMetadata :: "string \<Rightarrow> json \<Rightarrow> rat option \<Rightarrow> drop_reason option" where
  "evaluateMetadata callId metadata policy_minDurationMs =
     (case callMetadataSchema metadata of
        None \<Rightarrow> None
      | Some m \<Rightarrow>
          let minDurationMs = (case policy_minDurationMs of None \<Rightarrow> 0 | Some d \<Rightarrow> d) in
          if (case cm_duration m of Some d \<Rightarrow> d \<le> 0 | None \<Rightarrow> False) then Some DR_zero_duration
          else if (case cm_state m of Some s \<Rightarrow> toLowerCase s \<in> set NON_CONVERSATION_STATES | None \<Rightarrow> False)
          then Some DR_non_conversation_call_state
          else if minDurationMs > 0 \<and> (case cm_duration m of Some d \<Rightarrow> d \<le> minDurationMs | None \<Rightarrow> False)
          then Some DR_below_minimum_duration
          else if cm_is_internal m = Some True then
            (if (case cm_operator_call_id m of Some operator \<Rightarrow> operator \<noteq> callId | None \<Rightarrow> False)
             then Some DR_internal_transfer_non_operator_leg
             else if (case cm_direction m of Some d \<Rightarrow> toLowerCase d = ''outbound'' | None \<Rightarrow> False)
             then Some DR_outbound_no_customer_conversation
             else None)
          else None)"

definition createMetadataPreFilterHandler :: "rat option \<Rightarrow> string \<Rightarrow> stage_result hop" where
  "createMetadataPreFilterHandler policy callId =
     op_bind (run_read (getCallState callId)) (\<lambda>state.
     case state of
       None \<Rightarrow> op_throw (plain_error (''call_state row for '' @ callId @ '' vanished before metadata pre-filter''))
     | Some r \<Rightarrow>
         (case evaluateMetadata callId (cs_source_metadata r) policy of
            Some reason \<Rightarrow> op_return (SDrop reason None)
          | None \<Rightarrow> op_return (SContinue None)))"

section \<open>fetch-transcript and transcript-availability\<close>

definition CANONICAL_LEG_SOURCE :: string where "CANONICAL_LEG_SOURCE = ''dialpad-canonical-leg''"

definition KIND_TO_FAILURE :: "dialpad_failure_kind \<Rightarrow> (error_code \<times> processing_state) option" where
  "KIND_TO_FAILURE kind =
     (case kind of
        DK_auth \<Rightarrow> Some (DIALPAD_AUTH_FAILED, PST_paused)
      | DK_rate_limited \<Rightarrow> Some (DIALPAD_RATE_LIMITED, PST_degraded)
      | DK_api_changed \<Rightarrow> Some (DIALPAD_API_CHANGED, PST_paused)
      | DK_unavailable \<Rightarrow> None)"

definition persistDialpadAlert :: "stage_deps \<Rightarrow> string \<Rightarrow> string \<Rightarrow> dialpad_error \<Rightarrow> unit hop" where
  "persistDialpadAlert deps callId stage err =
     (case KIND_TO_FAILURE (de_kind err) of
        None \<Rightarrow> op_return ()
      | Some (code, processingState) \<Rightarrow>
          recordStageAlert (sd_pg deps) callId stage (sd_config deps) code processingState
            [(''status'', json_status (de_status err)), (''attempts'', jnat (de_attempts err))] None)"

definition recordTranscriptMissingAlert :: "stage_deps \<Rightarrow> string \<Rightarrow> string \<Rightarrow> int option \<Rightarrow> unit hop" where
  "recordTranscriptMissingAlert deps callId stage waitedMs =
     recordStageAlert (sd_pg deps) callId stage (sd_config deps) DIALPAD_TRANSCRIPT_MISSING PST_degraded
       (case waitedMs of None \<Rightarrow> [] | Some w \<Rightarrow> [(''waited_ms'', JNum (of_int w))]) None"

definition seed_canonical :: "stage_deps \<Rightarrow> string \<Rightarrow> bool hop" where
  "seed_canonical deps canonical =
     run_db (seedCallStateIfAbsent (sd_pg deps)
       \<lparr>ci_callId = canonical, ci_source = CANONICAL_LEG_SOURCE, ci_sourceMetadata = None,
        ci_currentStage = pipeline_stage_name (PIPELINE_STAGES ! 0), ci_status = STATUS_PROCESSING\<rparr>)"

definition await_transcript :: "stage_deps \<Rightarrow> string \<Rightarrow> pipeline_stage \<Rightarrow> stage_result hop" where
  "await_transcript deps callId stage =
     op_bind (\<lambda>db. let (t, db') = markTranscriptWaitStarted (sd_pg deps) callId db in (Inr t, db')) (\<lambda>waitStarted.
     case waitStarted of
       None \<Rightarrow> op_throw (plain_error (''call_state row for '' @ callId @ '' vanished during transcript wait''))
     | Some t \<Rightarrow>
         let waitedMs = sd_now deps - t; config = sd_config deps in
         if waitedMs \<ge> DIALPAD_TRANSCRIPT_WAIT_MAX_MS config then
           op_bind (recordTranscriptMissingAlert deps callId (pipeline_stage_name stage) (Some waitedMs)) (\<lambda>_.
           op_return (SHold HR_missing_transcript (Some DIALPAD_TRANSCRIPT_MISSING)
             (Some [(''waited_ms'', JNum (of_int waitedMs))]) None))
         else
           let slot = waitedMs div DIALPAD_TRANSCRIPT_POLL_MS config in
           op_bind (queue_op deps (waitJobId (sd_digest deps) callId slot)
              (enqueueTranscriptRetry (sd_digest deps) callId (DIALPAD_TRANSCRIPT_POLL_MS config) slot)) (\<lambda>_.
           op_return SDefer))"

definition createFetchTranscriptHandler :: "stage_deps \<Rightarrow> string \<Rightarrow> pipeline_stage \<Rightarrow> stage_result hop" where
  "createFetchTranscriptHandler deps callId stage =
     (case sd_fetchTranscript deps callId of
        Inl err \<Rightarrow>
          op_bind (case err of
                     DialpadError e \<Rightarrow> persistDialpadAlert deps callId (pipeline_stage_name stage) e
                   | OtherFetchError _ \<Rightarrow> op_return ()) (\<lambda>_.
          op_throw (js_of_fetch_error err))
      | Inr TR_not_ready \<Rightarrow> await_transcript deps callId stage
      | Inr (TR_ready transcript canonical) \<Rightarrow>
          (case canonical of
             Some other \<Rightarrow>
               if other \<noteq> callId then
                 op_bind (seed_canonical deps other) (\<lambda>_.
                 op_bind (queue_op deps (jobIdForCall (sd_digest deps) other) (enqueueCall (sd_digest deps) other)) (\<lambda>_.
                 op_return (SDrop DR_duplicate_call_leg (Some [(''canonical_call_id'', JStr other)]))))
               else op_bind (run_db (putTranscript (sd_pg deps) (sd_encrypt deps) callId transcript)) (\<lambda>_.
                    op_return (SContinue None))
           | None \<Rightarrow> op_bind (run_db (putTranscript (sd_pg deps) (sd_encrypt deps) callId transcript)) (\<lambda>_.
                    op_return (SContinue None))))"

definition createTranscriptAvailabilityHandler :: "stage_deps \<Rightarrow> string \<Rightarrow> pipeline_stage \<Rightarrow> stage_result hop" where
  "createTranscriptAvailabilityHandler deps callId stage =
     op_bind (run_read (transcriptExists callId)) (\<lambda>present.
     if \<not> present then
       op_bind (recordTranscriptMissingAlert deps callId (pipeline_stage_name stage) None) (\<lambda>_.
       op_return (SHold HR_missing_transcript (Some DIALPAD_TRANSCRIPT_MISSING) None None))
     else op_return (SContinue None))"

section \<open>classify\<close>

definition CLASSIFY_DISABLED_REASON :: string where "CLASSIFY_DISABLED_REASON = ''classify_disabled''"

definition reservation_cost :: "model_config \<Rightarrow> string \<Rightarrow> string \<Rightarrow> string \<Rightarrow> rat" where
  "reservation_cost mc system userText outputFormatJson =
     estimateCostUsd
       (max (INPUT_TOKENS_CEILING mc)
          (estimatePayloadTokens system userText outputFormatJson (RESERVATION_OVERHEAD_TOKENS mc)))
       (MAX_TOKENS mc) (COST_RATES mc)"

definition reserve :: "stage_deps \<Rightarrow> rat \<Rightarrow> budget_reservation option hop" where
  "reserve deps cost = run_db (reserveModelBudget (sd_pg deps) (DAILY_COST (sd_config deps)) (sd_now deps) cost)"

text \<open>Record the invocation, then settle when the response carried usage: what both stages do with a
  response before they route it.\<close>

definition record_and_settle ::
    "stage_deps \<Rightarrow> string \<Rightarrow> string \<Rightarrow> model_config \<Rightarrow> string \<Rightarrow> budget_reservation \<Rightarrow> model_result \<Rightarrow> bool \<Rightarrow> unit hop" where
  "record_and_settle deps callId stage mc promptVersion reservation result ok =
     op_bind (run_db (recordModelInvocation (sd_pg deps)
        \<lparr>mv_callId = callId, mv_stage = stage, mv_modelId = MODEL_ID mc, mv_promptVersion = promptVersion,
         mv_inputTokens = mr_inputTokens result, mv_outputTokens = mr_outputTokens result,
         mv_outcome = (if ok \<and> mr_usagePresent result then ''success'' else ''malformed_response'')\<rparr>)) (\<lambda>_.
     if mr_usagePresent result
     then run_db (settleModelUsage (sd_pg deps) reservation (mr_inputTokens result) (mr_outputTokens result) (COST_RATES mc))
     else op_return ())"

text \<open>The diagnostic entries of a malformed response: no usage block, or what made the parse fail.\<close>

definition malformed_entries :: "model_result \<Rightarrow> parse_failure_kind option \<Rightarrow> json_object" where
  "malformed_entries result failure =
     (if mr_usagePresent result then [] else [(''usage_missing'', JBool True)])
     @ (case failure of None \<Rightarrow> [] | Some kind \<Rightarrow> [(''parse_failure'', JStr (parse_failure_kind_name kind))])"

definition route_bucket :: "classify_bucket \<Rightarrow> stage_result" where
  "route_bucket bucket =
     (let detail = Some [(''bucket'', JStr (classify_bucket_name bucket))] in
      case bucket of
        CB_customer \<Rightarrow> SContinue detail
      | CB_non_customer \<Rightarrow> SDrop DR_classified_non_customer detail
      | CB_spam \<Rightarrow> SHold HR_classified_spam None detail None
      | CB_held \<Rightarrow> SHold HR_classifier_uncertain None detail None)"

definition classify_route ::
    "stage_deps \<Rightarrow> string \<Rightarrow> pipeline_stage \<Rightarrow> model_result \<Rightarrow> parse_failure_kind + classify_bucket \<Rightarrow> stage_result hop" where
  "classify_route deps callId stage result parsed =
     (let entries = malformed_entries result (case parsed of Inl kind \<Rightarrow> Some kind | Inr _ \<Rightarrow> None);
          malformed =
            op_bind (recordStageAlert (sd_pg deps) callId (pipeline_stage_name stage) (sd_config deps)
                       MODEL_MALFORMED_RESPONSE PST_continuing entries None) (\<lambda>_.
            op_return (SHold HR_malformed_model_output (Some MODEL_MALFORMED_RESPONSE) (Some entries) None))
      in case parsed of
           Inl _ \<Rightarrow> malformed
         | Inr bucket \<Rightarrow> if \<not> mr_usagePresent result then malformed else op_return (route_bucket bucket))"

definition createClassifyHandler :: "stage_deps \<Rightarrow> string \<Rightarrow> pipeline_stage \<Rightarrow> stage_result hop" where
  "createClassifyHandler deps callId stage =
     (let config = sd_config deps; mc = CLASSIFY config; pg = sd_pg deps; st = pipeline_stage_name stage in
      if \<not> ENABLED mc then
        op_bind (parkStageDisabled pg callId ''classify'' CLASSIFY_DISABLED_REASON) (\<lambda>_. op_return SDefer)
      else
        op_bind (run_read (getCleanTranscript callId)) (\<lambda>row.
        case row of
          None \<Rightarrow> op_throw (plain_error (''clean_transcripts row for '' @ callId @ '' is missing at classify''))
        | Some clean \<Rightarrow>
            let system = CLASSIFY_SYSTEM_PROMPT; userText = buildClassifyUserMessage (ct_redacted_text clean) in
            op_bind (reserve deps (reservation_cost mc system userText (format_text CLASSIFY_OUTPUT_FORMAT))) (\<lambda>reservation.
            case reservation of
              None \<Rightarrow>
                op_bind (recordStageAlert pg callId st config MODEL_COST_CAP_EXCEEDED PST_paused [] None) (\<lambda>_.
                op_return (SHold HR_cost_cap_held (Some MODEL_COST_CAP_EXCEEDED) None None))
            | Some res \<Rightarrow>
                op_bind (emitCostWarningIfReached pg st config res None) (\<lambda>_.
                case sd_classify deps system userText of
                  Inl err \<Rightarrow>
                    op_bind (handleModelError pg callId st config res err None) (\<lambda>_.
                    op_throw (js_of_model_error err))
                | Inr result \<Rightarrow>
                    let parsed = parseClassification (sd_json_parse deps) (mr_text result) (mr_stopReason result) in
                    op_bind (record_and_settle deps callId ''classify'' mc CLASSIFY_PROMPT_VERSION res result
                               (\<not> isl parsed)) (\<lambda>_.
                    classify_route deps callId stage result parsed)))))"

definition getLatestClassificationBucket :: "pg \<Rightarrow> string \<Rightarrow> db \<Rightarrow> classify_bucket option" where
  "getLatestClassificationBucket pg callId db =
     Option.bind (Option.bind
        (latest_log (\<lambda>r. pl_call_id r = Some callId \<and> pl_stage r = ''classify'' \<and> pl_outcome r = ''completed'') db)
        (log_detail_text pg ''bucket'')) (parse_enum classify_bucket_name CLASSIFY_BUCKETS)"

section \<open>extract\<close>

definition EXTRACT_DISABLED_REASON :: string where "EXTRACT_DISABLED_REASON = ''extract_disabled''"

definition RETRYABLE_PARSE_FAILURES :: "parse_failure_kind list" where
  "RETRYABLE_PARSE_FAILURES = [PF_empty, PF_non_json, PF_schema_invalid, PF_unexpected_stop_reason]"

text \<open>The one bounded retry: still available, spent, or refused by the daily cap.\<close>

datatype retry_state = RetryAvailable | RetryAttempted | RetrySkipped

type_synonym extract_parse = "(parse_failure_kind \<times> string list option) + extraction_record"

definition retry_entries :: "retry_state \<Rightarrow> json_object" where
  "retry_entries retry =
     (if retry = RetryAttempted then [(''retry_attempted'', JBool True)] else [])
     @ (if retry = RetrySkipped then [(''retry_skipped'', JStr ''cost_cap'')] else [])"

definition extract_attempt ::
    "stage_deps \<Rightarrow> string \<Rightarrow> pipeline_stage \<Rightarrow> string \<Rightarrow> budget_reservation \<Rightarrow> (model_result \<times> extract_parse) hop" where
  "extract_attempt deps callId stage userText reservation =
     (case sd_extract deps EXTRACT_SYSTEM_PROMPT userText of
        Inl err \<Rightarrow>
          op_bind (handleModelError (sd_pg deps) callId (pipeline_stage_name stage) (sd_config deps) reservation err None) (\<lambda>_.
          op_throw (js_of_model_error err))
      | Inr result \<Rightarrow>
          let parsed = parseExtraction (sd_json_parse deps) (sd_zod_issues deps) (mr_text result) (mr_stopReason result) in
          op_bind (record_and_settle deps callId ''extract'' (EXTRACT (sd_config deps)) EXTRACT_PROMPT_VERSION
                     reservation result (\<not> isl parsed)) (\<lambda>_.
          op_return (result, parsed)))"

definition extract_cost :: "stage_deps \<Rightarrow> string \<Rightarrow> rat" where
  "extract_cost deps userText =
     reservation_cost (EXTRACT (sd_config deps)) EXTRACT_SYSTEM_PROMPT userText (format_text EXTRACT_OUTPUT_FORMAT)"

text \<open>\<open>None\<close>: the cap refuses the second reservation and the retry is skipped.\<close>

definition tryRetry ::
    "stage_deps \<Rightarrow> string \<Rightarrow> pipeline_stage \<Rightarrow> string \<Rightarrow> (model_result \<times> extract_parse) option hop" where
  "tryRetry deps callId stage retryUserText =
     op_bind (reserve deps (extract_cost deps retryUserText)) (\<lambda>retryReservation.
     case retryReservation of
       None \<Rightarrow> op_return None
     | Some res \<Rightarrow>
         op_bind (extract_attempt deps callId stage retryUserText res) (\<lambda>r. op_return (Some r)))"

definition malformed_hold ::
    "stage_deps \<Rightarrow> string \<Rightarrow> pipeline_stage \<Rightarrow> json_object \<Rightarrow> stage_result hop" where
  "malformed_hold deps callId stage entries =
     op_bind (recordStageAlert (sd_pg deps) callId (pipeline_stage_name stage) (sd_config deps)
                MODEL_MALFORMED_RESPONSE PST_continuing entries None) (\<lambda>_.
     op_return (SHold HR_schema_invalid (Some MODEL_MALFORMED_RESPONSE) (Some entries) None))"

definition residual_detail :: "(string \<times> nat) list \<Rightarrow> json_object" where
  "residual_detail counts =
     [(''residual_categories'', JArr (map (\<lambda>(k, _). JStr k) counts)), (''counts'', JObj (json_counts counts))]"

definition residual_hold :: "stage_deps \<Rightarrow> string \<Rightarrow> pipeline_stage \<Rightarrow> (string \<times> nat) list \<Rightarrow> stage_result hop" where
  "residual_hold deps callId stage counts =
     op_bind (recordVerbatimPiiDetectedAlertResilient (sd_pg deps) callId (pipeline_stage_name stage) (sd_config deps) counts) (\<lambda>_.
     op_return (SHold HR_residual_pii_detected (Some VERBATIM_PII_DETECTED) (Some (residual_detail counts)) None))"

definition verbatim_feedback :: "verbatim_result \<Rightarrow> nat \<Rightarrow> string" where
  "verbatim_feedback vb n =
     uuid_text (vr_snappedCount vb + vr_droppedCount vb) @ '' of '' @ uuid_text n
     @ '' customer_language phrases are not exact quotes''"

text \<open>An accepted record with its recovered phrases and the two counts of the verbatim gate, or a hold.\<close>

datatype gate_outcome = Accepted extraction_record "string list" nat nat | GateHold stage_result

text \<open>The gate loop.  A round may spend the retry and go round again; without the retry it ends.\<close>

function gate_loop ::
    "stage_deps \<Rightarrow> string \<Rightarrow> pipeline_stage \<Rightarrow> string \<Rightarrow> retry_state \<Rightarrow> model_result \<Rightarrow> extract_parse \<Rightarrow> gate_outcome hop" where
  "gate_loop deps callId stage redactedText retry result parsed =
     (let malformed = (\<lambda>failure. op_bind (malformed_hold deps callId stage
            (malformed_entries result failure @ retry_entries retry)) (\<lambda>h. op_return (GateHold h)))
      in case parsed of
        Inl (kind, _) \<Rightarrow> malformed (Some kind)
      | Inr record \<Rightarrow>
          if \<not> mr_usagePresent result then malformed None
          else
            (case scanPhrasesForResidual (xr_customer_language record) (sd_denyTerms deps) of
               Some counts \<Rightarrow> op_bind (residual_hold deps callId stage counts) (\<lambda>h. op_return (GateHold h))
             | None \<Rightarrow>
                 let vb = verbatimGate (xr_customer_language record) redactedText;
                     n = length (xr_customer_language record);
                     settle_gate = (\<lambda>retry'.
                       if vr_phrases vb = [] then
                         op_bind (malformed_hold deps callId stage
                           ([(''gate'', JStr ''verbatim_mismatch''), (''dropped_count'', jnat (vr_droppedCount vb)),
                             (''phrase_count'', jnat n)] @ retry_entries retry')) (\<lambda>h. op_return (GateHold h))
                       else op_return (Accepted record (vr_phrases vb) (vr_snappedCount vb) (vr_droppedCount vb)))
                 in if vr_snappedCount vb = 0 \<and> vr_droppedCount vb = 0
                    then op_return (Accepted record (vr_phrases vb) 0 0)
                    else if retry = RetryAvailable then
                      op_bind (tryRetry deps callId stage
                         (buildExtractRetryUserMessage redactedText ''verbatim_mismatch'' [verbatim_feedback vb n])) (\<lambda>again.
                      case again of
                        Some (result', parsed') \<Rightarrow>
                          gate_loop deps callId stage redactedText RetryAttempted result' parsed'
                      | None \<Rightarrow> settle_gate RetrySkipped)
                    else settle_gate retry))"
  by pat_completeness auto
termination
  by (relation "measure (\<lambda>(deps, callId, stage, redactedText, retry, result, parsed). if retry = RetryAvailable then 1 else 0)") auto

declare gate_loop.simps [simp del]

definition candidate_payload :: "stage_deps \<Rightarrow> extraction_record \<Rightarrow> string list \<Rightarrow> urgency \<Rightarrow> knowledge_payload" where
  "candidate_payload deps record phrases urgency =
     \<lparr>kp_call_intent = xr_call_intent record, kp_service_category = xr_service_category record,
      kp_problem_statement = Some (xr_problem_statement record), kp_symptoms = xr_symptoms record,
      kp_customer_language = phrases, kp_location_in_home = xr_location_in_home record,
      kp_access_or_scheduling_notes = xr_access_or_scheduling_notes record,
      kp_prior_attempts = xr_prior_attempts record, kp_urgency = urgency, kp_concerns = xr_concerns record,
      kp_sentiment = xr_sentiment record, kp_acquisition_source = xr_acquisition_source record,
      kp_competitor_mentions = xr_competitor_mentions record, kp_schema_version = EXTRACT_SCHEMA_VERSION,
      kp_prompt_version = EXTRACT_PROMPT_VERSION, kp_model_id = MODEL_ID (EXTRACT (sd_config deps))\<rparr>"

primrec emergency_trigger_name :: "emergency_trigger \<Rightarrow> string" where
  "emergency_trigger_name model_urgency = ''model_urgency''"
| "emergency_trigger_name call_intent_trigger = ''call_intent''"
| "emergency_trigger_name emergency_keyword = ''emergency_keyword''"
| "emergency_trigger_name ambiguous_upgrade = ''ambiguous_upgrade''"

text \<open>Token gate, urgency rule, persist, advance.\<close>

definition persist_record ::
    "stage_deps \<Rightarrow> string \<Rightarrow> string \<Rightarrow> extraction_record \<Rightarrow> string list \<Rightarrow> nat \<Rightarrow> nat \<Rightarrow> stage_result hop" where
  "persist_record deps callId redactedText record customerLanguage snapped dropped =
     (let (phrases, droppedCount) = tokenGate customerLanguage;
          (urgency, triggers) = emergencyRule record redactedText
      in op_bind (run_db (upsertExtractionCandidate (sd_pg deps) callId (candidate_payload deps record phrases urgency))) (\<lambda>_.
         op_return (SContinue (Some
           ([(''phrase_count'', jnat (length phrases)), (''tokened_phrases_dropped'', jnat droppedCount)]
            @ (if snapped \<noteq> 0 then [(''customer_language_snapped'', jnat snapped)] else [])
            @ (if dropped \<noteq> 0 then [(''customer_language_dropped'', jnat dropped)] else [])
            @ [(''urgency'', JStr (urgency_name urgency))]
            @ (if triggers \<noteq> [] then [(''urgency_triggers'', JArr (map (\<lambda>x. JStr (emergency_trigger_name x)) triggers))]
               else []))))))"

text \<open>The first attempt, with its retry when the parse failed in a way worth one.\<close>

definition first_attempts ::
    "stage_deps \<Rightarrow> string \<Rightarrow> pipeline_stage \<Rightarrow> string \<Rightarrow> budget_reservation \<Rightarrow> (retry_state \<times> model_result \<times> extract_parse) hop" where
  "first_attempts deps callId stage redactedText reservation =
     op_bind (extract_attempt deps callId stage (buildExtractUserMessage redactedText) reservation) (\<lambda>(result, parsed).
     case parsed of
       Inr _ \<Rightarrow> op_return (RetryAvailable, result, parsed)
     | Inl (kind, issueSummary) \<Rightarrow>
         if mr_usagePresent result \<and> kind \<in> set RETRYABLE_PARSE_FAILURES then
           op_bind (tryRetry deps callId stage (buildExtractRetryUserMessage redactedText (parse_failure_kind_name kind)
              (case issueSummary of None \<Rightarrow> [] | Some s \<Rightarrow> s))) (\<lambda>again.
           op_return (case again of
              Some (result', parsed') \<Rightarrow> (RetryAttempted, result', parsed')
            | None \<Rightarrow> (RetrySkipped, result, parsed)))
         else op_return (RetryAvailable, result, parsed))"

definition createExtractHandler :: "stage_deps \<Rightarrow> string \<Rightarrow> pipeline_stage \<Rightarrow> stage_result hop" where
  "createExtractHandler deps callId stage =
     (let config = sd_config deps; mc = EXTRACT config; pg = sd_pg deps; st = pipeline_stage_name stage in
      if \<not> ENABLED mc then
        op_bind (parkStageDisabled pg callId ''extract'' EXTRACT_DISABLED_REASON) (\<lambda>_. op_return SDefer)
      else
        op_bind (run_read (hasHardDeletedExtractionCandidate callId)) (\<lambda>gone.
        if gone then op_throw (plain_error (''extraction_candidates row for '' @ callId @ '' is hard-deleted''))
        else
        op_bind (run_read (getLatestClassificationBucket pg callId)) (\<lambda>bucket.
        if bucket \<noteq> Some CB_customer then
          op_throw (plain_error (''extract invariant: expected classify bucket customer, got ''
            @ (case bucket of None \<Rightarrow> ''missing'' | Some b \<Rightarrow> classify_bucket_name b)))
        else
        op_bind (run_read (getCleanTranscript callId)) (\<lambda>row.
        case row of
          None \<Rightarrow> op_throw (plain_error (''clean_transcripts row for '' @ callId @ '' is missing at extract''))
        | Some clean \<Rightarrow>
            let redactedText = ct_redacted_text clean in
            op_bind (reserve deps (extract_cost deps (buildExtractUserMessage redactedText))) (\<lambda>reservation.
            case reservation of
              None \<Rightarrow>
                op_bind (recordStageAlert pg callId st config MODEL_COST_CAP_EXCEEDED PST_paused [] None) (\<lambda>_.
                op_return (SHold HR_cost_cap_held (Some MODEL_COST_CAP_EXCEEDED) None None))
            | Some res \<Rightarrow>
                op_bind (emitCostWarningIfReached pg st config res None) (\<lambda>_.
                op_bind (first_attempts deps callId stage redactedText res) (\<lambda>(retry, result, parsed).
                op_bind (gate_loop deps callId stage redactedText retry result parsed) (\<lambda>outcome.
                case outcome of
                  GateHold h \<Rightarrow> op_return h
                | Accepted record phrases snapped dropped \<Rightarrow>
                    persist_record deps callId redactedText record phrases snapped dropped))))))))"

section \<open>verbatim-pii-scan\<close>

definition malformedHold ::
    "stage_deps \<Rightarrow> string \<Rightarrow> pipeline_stage \<Rightarrow> pii_scan_failure_kind \<Rightarrow> (string \<times> nat) list \<Rightarrow> stage_result hop" where
  "malformedHold deps callId stage gate metadata =
     op_bind (resilientSideEffect (recordStageAlert (sd_pg deps) callId (pipeline_stage_name stage) (sd_config deps)
                MODEL_MALFORMED_RESPONSE PST_continuing (json_counts metadata) None)) (\<lambda>_.
     op_return (SHold HR_schema_invalid (Some MODEL_MALFORMED_RESPONSE)
       (Some (obj_spread [(''gate'', JStr (pii_scan_failure_kind_name gate))] (json_counts metadata))) None))"

definition failedMarkerHold ::
    "stage_deps \<Rightarrow> string \<Rightarrow> pipeline_stage \<Rightarrow> pii_scan_failure_kind option \<Rightarrow> (string \<times> nat) list option \<Rightarrow> stage_result hop" where
  "failedMarkerHold deps callId stage kind counts =
     (let c = (case counts of None \<Rightarrow> [] | Some x \<Rightarrow> x) in
      case kind of
        Some PK_residual_pii \<Rightarrow> residual_hold deps callId stage c
      | Some gate \<Rightarrow> malformedHold deps callId stage gate c
      | None \<Rightarrow> op_throw (plain_error (''verbatim-pii-scan: candidate for '' @ callId
                   @ '' is 'failed' but pii_scan_failure_kind is null'')))"

definition mark_failed :: "stage_deps \<Rightarrow> string \<Rightarrow> pii_scan_failure \<Rightarrow> unit hop" where
  "mark_failed deps callId failure =
     op_bind (run_db (markPiiScanFailed (sd_pg deps) callId failure)) (\<lambda>_. op_return ())"

definition scan_continue :: "string list \<Rightarrow> stage_result" where
  "scan_continue phrases = SContinue (Some [(''phrases_scanned'', jnat (length phrases))])"

text \<open>Latch the pass; when no pending row was updated, the row re-read decides.\<close>

definition latch_passed :: "stage_deps \<Rightarrow> string \<Rightarrow> pipeline_stage \<Rightarrow> string list \<Rightarrow> stage_result hop" where
  "latch_passed deps callId stage phrases =
     op_bind (\<lambda>db. let (row, db') = markPiiScanPassed callId db in (Inr row, db')) (\<lambda>passed.
     case passed of
       Some _ \<Rightarrow> op_return (scan_continue phrases)
     | None \<Rightarrow>
         op_bind (run_read (getExtractionCandidate callId)) (\<lambda>reread.
         case reread of
           None \<Rightarrow> op_throw (plain_error (''extraction_candidates row for '' @ callId
                      @ '' vanished during verbatim-pii-scan pass''))
         | Some r \<Rightarrow>
             (case ec_pii_scan_status r of
                PS_failed \<Rightarrow> failedMarkerHold deps callId stage (ec_pii_scan_failure_kind r) (ec_pii_scan_counts r)
              | PS_passed \<Rightarrow> op_return (scan_continue phrases)
              | PS_pending \<Rightarrow> op_throw (plain_error (''verbatim-pii-scan: pass for '' @ callId
                      @ '' matched zero rows but status is '' @ pii_scan_status_name (ec_pii_scan_status r))))))"

definition createVerbatimPiiScanHandler :: "stage_deps \<Rightarrow> string \<Rightarrow> pipeline_stage \<Rightarrow> stage_result hop" where
  "createVerbatimPiiScanHandler deps callId stage =
     op_bind (run_read (getExtractionCandidate callId)) (\<lambda>found.
     case found of
       None \<Rightarrow> op_throw (plain_error (''extraction_candidates row for '' @ callId @ '' is missing at verbatim-pii-scan''))
     | Some candidate \<Rightarrow>
         if ec_pii_scan_status candidate = PS_failed then
           failedMarkerHold deps callId stage (ec_pii_scan_failure_kind candidate) (ec_pii_scan_counts candidate)
         else
           op_bind (run_read (getCleanTranscript callId)) (\<lambda>row.
           case row of
             None \<Rightarrow> op_throw (plain_error (''clean_transcripts row for '' @ callId @ '' is missing at verbatim-pii-scan''))
           | Some clean \<Rightarrow>
               let phrases = kp_customer_language (ec_payload candidate) in
               (case scanPhrasesForResidual phrases (sd_denyTerms deps) of
                  Some counts \<Rightarrow>
                    op_bind (mark_failed deps callId (ResidualPii counts)) (\<lambda>_. residual_hold deps callId stage counts)
                | None \<Rightarrow>
                    let droppedCount = snd (tokenGate phrases); vb = verbatimGate phrases (ct_redacted_text clean);
                        nonVerbatimCount = vr_snappedCount vb + vr_droppedCount vb
                    in if droppedCount > 0 then
                         op_bind (mark_failed deps callId (TokenedPhrase droppedCount)) (\<lambda>_.
                         malformedHold deps callId stage PK_tokened_phrase [(''dropped_count'', droppedCount)])
                       else if nonVerbatimCount > 0 then
                         op_bind (mark_failed deps callId (VerbatimMismatch nonVerbatimCount (length phrases))) (\<lambda>_.
                         malformedHold deps callId stage PK_verbatim_mismatch
                           [(''mismatch_count'', nonVerbatimCount), (''phrase_count'', length phrases)])
                       else latch_passed deps callId stage phrases)))"

section \<open>store and mark-retention-eligible\<close>

definition storeHandler :: "stage_deps \<Rightarrow> string \<Rightarrow> stage_result hop" where
  "storeHandler deps callId =
     op_bind (run_read (getExtractionCandidate callId)) (\<lambda>found.
     case found of
       None \<Rightarrow> op_throw (plain_error (''extraction_candidates row for '' @ callId @ '' is missing at store''))
     | Some candidate \<Rightarrow>
         if ec_pii_scan_status candidate \<noteq> PS_passed then
           op_throw (plain_error (''extraction_candidates row for '' @ callId @ '' reached store with pii_scan_status ''
             @ pii_scan_status_name (ec_pii_scan_status candidate)))
         else
           op_bind (run_db (upsertStructuredKnowledge (sd_pg deps) (ec_call_id candidate) (ec_payload candidate))) (\<lambda>_.
           op_bind (run_write (markExtractionCandidateRetentionEligible (sd_pg deps) callId)) (\<lambda>_.
           op_return (SContinue (Some
             [(''schema_version'', JNum (of_int (kp_schema_version (ec_payload candidate)))),
              (''prompt_version'', JStr (kp_prompt_version (ec_payload candidate)))])))))"

definition createMarkRetentionEligibleHandler :: "stage_deps \<Rightarrow> string \<Rightarrow> stage_result hop" where
  "createMarkRetentionEligibleHandler deps callId =
     op_bind (run_write (markTranscriptRetentionEligible (sd_pg deps) callId)) (\<lambda>_.
     op_bind (run_write (markTokensRetentionEligible (sd_pg deps) callId)) (\<lambda>_.
     op_return (SContinue None)))"

section \<open>The handler sets\<close>

definition handler_result :: "stage_result hop \<Rightarrow> stage_result option hop" where
  "handler_result m = op_bind m (\<lambda>r. op_return (Some r))"

definition productionStageHandlers :: stage_handlers where
  "productionStageHandlers callId stage =
     (if stage = ST_metadata_pre_filter then handler_result (createMetadataPreFilterHandler None callId)
      else defaultStageHandlers callId stage)"

definition buildProductionStageHandlers :: "stage_deps \<Rightarrow> (string \<Rightarrow> stage_result hop) \<Rightarrow> stage_handlers" where
  "buildProductionStageHandlers deps redact callId stage =
     handler_result
       (case stage of
          ST_metadata_pre_filter \<Rightarrow>
            createMetadataPreFilterHandler (Some (PREFILTER_MIN_DURATION_MS (sd_config deps))) callId
        | ST_fetch_transcript \<Rightarrow> createFetchTranscriptHandler deps callId stage
        | ST_transcript_availability \<Rightarrow> createTranscriptAvailabilityHandler deps callId stage
        | ST_redact \<Rightarrow> redact callId
        | ST_classify \<Rightarrow> createClassifyHandler deps callId stage
        | ST_extract \<Rightarrow> createExtractHandler deps callId stage
        | ST_verbatim_pii_scan \<Rightarrow> createVerbatimPiiScanHandler deps callId stage
        | ST_store \<Rightarrow> storeHandler deps callId
        | ST_mark_retention_eligible \<Rightarrow> createMarkRetentionEligibleHandler deps callId)"

end
