(* ===== verification/Redact_Stage.thy ===== *)
theory Redact_Stage
  imports Detectors Stage_Handlers
begin

text \<open>
  The redact stage: \<^verbatim>\<open>src/src/pipeline/redact.ts\<close> with the text extraction of
  \<^verbatim>\<open>src/src/redaction/transcript-text.ts\<close> and the response schema of \<^verbatim>\<open>src/src/dialpad/client/schemas.ts\<close>.
  The value hash, decryption and the NER model are parameters; the two databases are one state, since the
  stage touches each table through one of them only.
\<close>

section \<open>The transcript text\<close>

definition z_nullish :: "(json \<Rightarrow> 'a option) \<Rightarrow> json option \<Rightarrow> 'a option option" where
  "z_nullish p v = (case v of None \<Rightarrow> Some None | Some JNull \<Rightarrow> Some None | Some j \<Rightarrow> map_option Some (p j))"

record transcript_line =
  tl_content :: "string option"
  tl_type :: "string option"
  tl_name :: "string option"

definition transcriptLineSchema :: "json \<Rightarrow> transcript_line option" where
  "transcriptLineSchema j =
     (case j of
        JObj ob \<Rightarrow>
          Option.bind (z_optional json_string (map_of ob ''content'')) (\<lambda>content.
          Option.bind (z_optional json_string (map_of ob ''type'')) (\<lambda>type.
          Option.bind (z_optional json_string (map_of ob ''name'')) (\<lambda>name.
          Some \<lparr>tl_content = content, tl_type = type, tl_name = name\<rparr>)))
      | _ \<Rightarrow> None)"

fun parse_all :: "('a \<Rightarrow> 'b option) \<Rightarrow> 'a list \<Rightarrow> 'b list option" where
  "parse_all p [] = Some []"
| "parse_all p (x # xs) = Option.bind (p x) (\<lambda>y. map_option ((#) y) (parse_all p xs))"

definition json_array :: "(json \<Rightarrow> 'b option) \<Rightarrow> json \<Rightarrow> 'b list option" where
  "json_array p j = (case j of JArr xs \<Rightarrow> parse_all p xs | _ \<Rightarrow> None)"

definition json_string_or_number :: "json \<Rightarrow> unit option" where
  "json_string_or_number j = (case j of JStr _ \<Rightarrow> Some () | JNum _ \<Rightarrow> Some () | _ \<Rightarrow> None)"

text \<open>The two fields the text extraction reads: \<^verbatim>\<open>lines\<close> and \<^verbatim>\<open>transcript\<close>.\<close>

definition transcriptResponseSchema :: "json \<Rightarrow> (transcript_line list option \<times> string option) option" where
  "transcriptResponseSchema j =
     (case j of
        JObj ob \<Rightarrow>
          Option.bind (z_nullish json_string_or_number (map_of ob ''call_id'')) (\<lambda>_.
          Option.bind (z_nullish json_string (map_of ob ''status'')) (\<lambda>_.
          Option.bind (z_nullish json_string (map_of ob ''state'')) (\<lambda>_.
          Option.bind (z_nullish (json_array transcriptLineSchema) (map_of ob ''lines'')) (\<lambda>lines.
          Option.bind (z_nullish json_string (map_of ob ''transcript'')) (\<lambda>transcript.
          Some (lines, transcript))))))
      | _ \<Rightarrow> None)"

definition line_part :: "transcript_line \<Rightarrow> string option" where
  "line_part line =
     (if (case tl_type line of Some t \<Rightarrow> toLowerCase (js_trim t) = ''moment'' | None \<Rightarrow> False) then None
      else
        let content = (case tl_content line of Some s \<Rightarrow> js_trim s | None \<Rightarrow> []);
            name = (case tl_name line of Some s \<Rightarrow> js_trim s | None \<Rightarrow> [])
        in if content = [] then None else Some (if name \<noteq> [] then name @ '': '' @ content else content))"

definition transcriptToRedactableText :: "(string \<Rightarrow> json option) \<Rightarrow> string \<Rightarrow> string" where
  "transcriptToRedactableText json_parse raw =
     (case Option.bind (json_parse raw) transcriptResponseSchema of
        None \<Rightarrow> raw
      | Some (lines, transcript) \<Rightarrow>
          let spoken = (case lines of Some ls \<Rightarrow> js_join [CHR 0x0A] (List.map_filter line_part ls) | None \<Rightarrow> []) in
          if spoken \<noteq> [] then spoken
          else case transcript of
                 Some t \<Rightarrow> if js_trim t \<noteq> [] then t else raw
               | None \<Rightarrow> raw)"

section \<open>The handler\<close>

record redaction_deps =
  red_stage :: stage_deps
  red_decrypt :: "string \<Rightarrow> string \<Rightarrow> nat \<Rightarrow> string"
  red_valueHash :: "string \<Rightarrow> string \<Rightarrow> string"
  red_ner :: ner_config
  red_pipe :: "string \<Rightarrow> js_error + token_hit list"
  REDACTION_RISK_THRESHOLD :: rat

definition detect_all :: "redaction_deps \<Rightarrow> string \<Rightarrow> js_error + detector_result list" where
  "detect_all deps transcript =
     (case createNerDetector (red_ner deps) (red_pipe deps) transcript of
        Inl e \<Rightarrow> Inl e
      | Inr ner \<Rightarrow> Inr [ner, createRegexDetector transcript, createDenyListDetector (sd_denyTerms (red_stage deps)) transcript])"

definition recordRedactionHoldAlert :: "redaction_deps \<Rightarrow> string \<Rightarrow> string \<Rightarrow> held_reason \<Rightarrow> json_object \<Rightarrow> unit hop" where
  "recordRedactionHoldAlert deps callId stage reason safeDetail =
     recordStageAlert (sd_pg (red_stage deps)) callId stage (sd_config (red_stage deps)) REDACTION_LOW_CONFIDENCE PST_degraded
       ([(''held_reason'', JStr (held_reason_name reason))] @ safeDetail) None"

fun put_tokens :: "redaction_deps \<Rightarrow> string \<Rightarrow> (string \<times> string) list \<Rightarrow> unit hop" where
  "put_tokens deps callId [] = op_return ()"
| "put_tokens deps callId ((token, plaintext) # entries) =
     op_bind (run_db (putToken (sd_encrypt (red_stage deps)) callId token plaintext)) (\<lambda>_. put_tokens deps callId entries)"

definition residual_result :: "residual_scan_result \<Rightarrow> json" where
  "residual_result residual =
     JObj [(''categories'', JArr (map (\<lambda>(k, _). JStr k) (rs_counts residual))), (''counts'', JObj (json_counts (rs_counts residual)))]"

definition finding_rows :: "redaction_deps \<Rightarrow> string \<Rightarrow> composed_redaction \<Rightarrow> redaction_finding_insert list" where
  "finding_rows deps callId c =
     map (\<lambda>f. \<lparr>fi_entityType = entity_type_name (fn_entityType f), fi_tokenRef = Some (fn_tokenRef f),
                fi_valueHash = Some (red_valueHash deps callId (fn_normalizedValue f)), fi_residualScanResult = None\<rparr>)
       (tz_findings (cr_tokenized c))
     @ [\<lparr>fi_entityType = ''residual_scan'', fi_tokenRef = None, fi_valueHash = None,
         fi_residualScanResult = Some (residual_result (cr_residual c))\<rparr>]"

definition redaction_risk :: "string \<Rightarrow> detector_result list \<Rightarrow> composed_redaction \<Rightarrow> risk_result" where
  "redaction_risk transcript results c =
     scoreRisk (concat (map dr_riskSignals results) @ deriveSpanSignals transcript (cr_spans c) (cr_disagreement c)
       @ (if rs_hits (cr_residual c) \<noteq> [] then [RR_residual_scan_hit] else []))"

definition risk_detail :: "risk_result \<Rightarrow> json_object" where
  "risk_detail risk =
     [(''risk_score'', JNum (rk_score risk)), (''reasons'', JArr (map (\<lambda>r. JStr (risk_reason_name r)) (rk_reasons risk)))]"

definition persist_clean :: "redaction_deps \<Rightarrow> string \<Rightarrow> composed_redaction \<Rightarrow> risk_result \<Rightarrow> unit hop" where
  "persist_clean deps callId c risk =
     (let residualHit = (rs_hits (cr_residual c) \<noteq> []);
          holdForRisk = shouldHoldForRisk risk (REDACTION_RISK_THRESHOLD deps);
          pg = sd_pg (red_stage deps)
      in if \<not> residualHit \<and> (\<not> holdForRisk \<or> rk_outputSafe risk)
         then op_bind (run_db (upsertCleanTranscript pg callId (tz_redactedText (cr_tokenized c)) (rk_score risk)
                (map risk_reason_name (rk_reasons risk)))) (\<lambda>_. op_return ())
         else run_write (softDeleteCleanTranscript pg callId))"

definition decide :: "redaction_deps \<Rightarrow> string \<Rightarrow> string \<Rightarrow> composed_redaction \<Rightarrow> risk_result \<Rightarrow> stage_result hop" where
  "decide deps callId stage c risk =
     (let categories = JArr (map (\<lambda>(k, _). JStr k) (rs_counts (cr_residual c)));
          finding_count = jnat (length (tz_findings (cr_tokenized c)))
      in if rs_hits (cr_residual c) \<noteq> [] then
           op_bind (recordRedactionHoldAlert deps callId stage HR_residual_pii_detected
              (risk_detail risk @ [(''residual_categories'', categories)])) (\<lambda>_.
           op_return (SHold HR_residual_pii_detected (Some REDACTION_LOW_CONFIDENCE)
             (Some (risk_detail risk @ [(''residual_categories'', categories), (''finding_count'', finding_count)])) None))
         else if shouldHoldForRisk risk (REDACTION_RISK_THRESHOLD deps) then
           op_bind (recordRedactionHoldAlert deps callId stage HR_redaction_failed (risk_detail risk)) (\<lambda>_.
           op_return (SHold HR_redaction_failed (Some REDACTION_LOW_CONFIDENCE)
             (Some (risk_detail risk @ [(''finding_count'', finding_count), (''output_safe'', JBool (rk_outputSafe risk))])) None))
         else op_return (SContinue None))"

definition redact_transcript :: "redaction_deps \<Rightarrow> string \<Rightarrow> string \<Rightarrow> string \<Rightarrow> stage_result hop" where
  "redact_transcript deps callId stage transcript =
     (case detect_all deps transcript of
        Inl e \<Rightarrow> op_throw e
      | Inr results \<Rightarrow>
          let c = composeRedaction transcript results (sd_denyTerms (red_stage deps));
              risk = redaction_risk transcript results c
          in op_bind (put_tokens deps callId (tz_vaultEntries (cr_tokenized c))) (\<lambda>_.
             op_bind (run_db (replaceFindings (sd_pg (red_stage deps)) callId (finding_rows deps callId c))) (\<lambda>_.
             op_bind (persist_clean deps callId c risk) (\<lambda>_.
             decide deps callId stage c risk))))"

definition createRedactionHandler :: "redaction_deps \<Rightarrow> string \<Rightarrow> stage_result hop" where
  "createRedactionHandler deps callId =
     op_bind (run_read (\<lambda>db. hasHardDeletedCleanTranscript callId db \<or> hasRawPurgedReview callId db)) (\<lambda>final.
     if final then op_throw (js_of_db (DalError DAL_QUERY_FAILED))
     else
       op_bind (run_read (getTranscript (red_decrypt deps) callId)) (\<lambda>raw.
       case raw of
         None \<Rightarrow> op_return (SHold HR_missing_transcript (Some DIALPAD_TRANSCRIPT_MISSING) None None)
       | Some rawTranscript \<Rightarrow>
           redact_transcript deps callId (pipeline_stage_name ST_redact)
             (transcriptToRedactableText (sd_json_parse (red_stage deps)) rawTranscript)))"

text \<open>The production handler set with its own redact stage.\<close>

definition productionHandlers :: "redaction_deps \<Rightarrow> stage_handlers" where
  "productionHandlers deps = buildProductionStageHandlers (red_stage deps) (createRedactionHandler deps)"

end
