(* ===== verification/Stages_Correct.thy ===== *)
theory Stages_Correct
  imports Stage_Handlers Runner_Correct
begin

text \<open>
  What the stage handlers guarantee.  First the contract the runner asks of them (\<open>quiet_handlers\<close>): no
  production handler moves a call or writes a review, and each drops only where a drop is allowed; the
  redact stage enters through the locale \<open>redact_stage\<close>.  Then what each handler persists: extract stores
  only phrases that passed its gates, the scan passes only a candidate that passes them again, and
  store copies exactly a passed candidate.
\<close>

section \<open>Quiet operations\<close>

named_theorems quiet_intros "operations that leave the state machine alone"

definition quiet_op :: "(db, 'e, 'a) op \<Rightarrow> bool" where
  "quiet_op m \<longleftrightarrow> (\<forall>db. keeps_calls db (snd (m db)))"

lemma same_spine_keeps: "same_spine db db' \<Longrightarrow> keeps_calls db db'"
proof -
  assume s: "same_spine db db'"
  then have "view c db' = view c db" for c
    using getCallState_cong [of db' db c] by (simp add: view_def same_spine_def)
  then show ?thesis using s same_spine_db_ok [OF s]
    by (simp add: keeps_calls_def undisturbed_def completed_stages_def same_spine_def)
qed

lemma quiet_opD: "quiet_op m \<Longrightarrow> m db = (r, db') \<Longrightarrow> keeps_calls db db'"
  unfolding quiet_op_def by (metis snd_conv)

lemma quiet_return [quiet_intros]: "quiet_op (op_return a)"
  by (simp add: quiet_op_def op_return_def)

lemma quiet_throw [quiet_intros]: "quiet_op (op_throw e)"
  by (simp add: quiet_op_def op_throw_def)

lemma quiet_bind [quiet_intros]: "quiet_op m \<Longrightarrow> (\<And>a. quiet_op (f a)) \<Longrightarrow> quiet_op (op_bind m f)"
proof -
  assume m: "quiet_op m" and f: "\<And>a. quiet_op (f a)"
  have "keeps_calls db (snd (op_bind m f db))" for db
  proof -
    obtain r db1 where r: "m db = (r, db1)" by force
    with m have "keeps_calls db db1" by (rule quiet_opD)
    then show ?thesis
    proof (cases r)
      case (Inr a)
      have "keeps_calls db1 (snd (f a db1))" using f by (simp add: quiet_op_def)
      with \<open>keeps_calls db db1\<close> have "keeps_calls db (snd (f a db1))" by (rule keeps_calls_trans)
      with r Inr show ?thesis by (simp add: op_bind_def)
    qed (use r in \<open>simp add: op_bind_def\<close>)
  qed
  then show ?thesis by (simp add: quiet_op_def)
qed

lemma quiet_read [quiet_intros]: "quiet_op (run_read f)"
  by (simp add: quiet_op_def run_read_def)

lemma quiet_write [quiet_intros]: "(\<And>db. same_spine db (f db)) \<Longrightarrow> quiet_op (run_write f)"
  by (simp add: quiet_op_def run_write_def same_spine_keeps)

lemma quiet_run_db: "(\<And>db r db'. m db = (r, db') \<Longrightarrow> same_spine db db') \<Longrightarrow> quiet_op (run_db m)"
  unfolding quiet_op_def run_db_def
  by (auto split: prod.split sum.split intro!: same_spine_keeps)

lemma quiet_transaction [quiet_intros]: "quiet_op m \<Longrightarrow> quiet_op (withTransaction m)"
  unfolding quiet_op_def withTransaction_def
  by (auto split: prod.split sum.split) (metis snd_conv)

lemma quiet_resilient [quiet_intros]: "quiet_op m \<Longrightarrow> quiet_op (resilientSideEffect m)"
  by (simp add: quiet_op_def resilientSideEffect_def)

lemma quiet_handler_result [quiet_intros]: "quiet_op m \<Longrightarrow> quiet_op (handler_result m)"
  unfolding handler_result_def by (intro quiet_intros)

lemma quiet_if [quiet_intros]: "(b \<Longrightarrow> quiet_op x) \<Longrightarrow> (\<not> b \<Longrightarrow> quiet_op y) \<Longrightarrow> quiet_op (if b then x else y)"
  by simp

lemma quiet_option [quiet_intros]:
  "(v = None \<Longrightarrow> quiet_op x) \<Longrightarrow> (\<And>a. v = Some a \<Longrightarrow> quiet_op (y a)) \<Longrightarrow> quiet_op (case v of None \<Rightarrow> x | Some a \<Rightarrow> y a)"
  by (cases v) auto

lemma quiet_sum [quiet_intros]:
  "(\<And>a. v = Inl a \<Longrightarrow> quiet_op (x a)) \<Longrightarrow> (\<And>b. v = Inr b \<Longrightarrow> quiet_op (y b)) \<Longrightarrow>
   quiet_op (case v of Inl a \<Rightarrow> x a | Inr b \<Rightarrow> y b)"
  by (cases v) auto

lemma quiet_model_error [quiet_intros]:
  "(\<And>k b s. quiet_op (x k b s)) \<Longrightarrow> (\<And>e v. quiet_op (y e v)) \<Longrightarrow>
   quiet_op (case err of ModelApiError k b s \<Rightarrow> x k b s | OtherError e v \<Rightarrow> y e v)"
  by (cases err) auto

lemma quiet_fetch_error [quiet_intros]:
  "(\<And>e. quiet_op (x e)) \<Longrightarrow> (\<And>e. quiet_op (y e)) \<Longrightarrow>
   quiet_op (case err of DialpadError e \<Rightarrow> x e | OtherFetchError e \<Rightarrow> y e)"
  by (cases err) auto

lemma quiet_transcript_result [quiet_intros]:
  "(\<And>s c. quiet_op (x s c)) \<Longrightarrow> quiet_op y \<Longrightarrow> quiet_op (case v of TR_ready s c \<Rightarrow> x s c | TR_not_ready \<Rightarrow> y)"
  by (cases v) auto

lemma quiet_gate_outcome [quiet_intros]:
  "(\<And>a b c d. quiet_op (x a b c d)) \<Longrightarrow> (\<And>h. quiet_op (y h)) \<Longrightarrow>
   quiet_op (case v of Accepted a b c d \<Rightarrow> x a b c d | GateHold h \<Rightarrow> y h)"
  by (cases v) auto

lemma quiet_failure_kind [quiet_intros]:
  "quiet_op x \<Longrightarrow> quiet_op y \<Longrightarrow> quiet_op z \<Longrightarrow>
   quiet_op (case k of PK_residual_pii \<Rightarrow> x | PK_tokened_phrase \<Rightarrow> y | PK_verbatim_mismatch \<Rightarrow> z)"
  by (cases k) auto

lemma quiet_scan_status [quiet_intros]:
  "quiet_op x \<Longrightarrow> quiet_op y \<Longrightarrow> quiet_op z \<Longrightarrow>
   quiet_op (case k of PS_pending \<Rightarrow> x | PS_passed \<Rightarrow> y | PS_failed \<Rightarrow> z)"
  by (cases k) auto

lemma quiet_prod [quiet_intros]: "(\<And>a b. v = (a, b) \<Longrightarrow> quiet_op (x a b)) \<Longrightarrow> quiet_op (case v of (a, b) \<Rightarrow> x a b)"
  by (cases v) auto

lemma quiet_Let [quiet_intros]: "quiet_op (f v) \<Longrightarrow> quiet_op (Let v f)"
  by simp

lemma quiet_check [quiet_intros]:
  "quiet_op m \<Longrightarrow> quiet_op (\<lambda>db. if P db then (Inr (), db) else m db)"
  by (simp add: quiet_op_def)

section \<open>The shared operations are quiet\<close>

lemma quiet_recordAlert [quiet_intros]: "quiet_op (run_db (recordAlert pg v))"
proof (rule quiet_run_db)
  fix db r db'
  assume "recordAlert pg v db = (r, db')"
  then show "same_spine db db'" using recordAlert_spine
    by (auto simp: recordAlert_def op_bind_def op_return_def split: prod.splits sum.splits)
qed

lemma quiet_recordAlertWithInsertStatus [quiet_intros]: "quiet_op (run_db (recordAlertWithInsertStatus pg v))"
  by (rule quiet_run_db) (rule recordAlert_spine)

lemma quiet_createFailure [quiet_intros]: "quiet_op (createFailure_op code st ctx)"
  unfolding createFailure_op_def by (intro quiet_intros)

lemma quiet_recordStageAlert [quiet_intros]: "quiet_op (recordStageAlert pg c st config code state extra co)"
  unfolding recordStageAlert_def by (intro quiet_intros)

lemma quiet_verbatim_alert [quiet_intros]: "quiet_op (recordVerbatimPiiDetectedAlertResilient pg c st config counts)"
  unfolding recordVerbatimPiiDetectedAlertResilient_def by (intro quiet_intros)

lemma quiet_emitCostWarning [quiet_intros]: "quiet_op (emitCostWarningIfReached pg st config res co)"
  unfolding emitCostWarningIfReached_def by (intro quiet_intros)

lemma quiet_release [quiet_intros]: "quiet_op (run_db (releaseModelReservation pg r))"
  by (rule quiet_run_db) (rule releaseModelReservation_spine)

lemma quiet_settle [quiet_intros]: "quiet_op (run_db (settleModelUsage pg r i out rates))"
  by (rule quiet_run_db) (rule settleModelUsage_spine)

lemma quiet_reserve [quiet_intros]: "quiet_op (reserve deps cost)"
  unfolding reserve_def by (rule quiet_run_db) (rule reserveModelBudget_spine)

lemma quiet_invocation [quiet_intros]: "quiet_op (run_db (recordModelInvocation pg v))"
  by (rule quiet_run_db) (rule recordModelInvocation_spine)

lemma quiet_record_and_settle [quiet_intros]: "quiet_op (record_and_settle deps c st mc pv res result ok)"
  unfolding record_and_settle_def by (intro quiet_intros)

lemma quiet_handleModelError [quiet_intros]: "quiet_op (handleModelError pg c st config res err co)"
  unfolding handleModelError_def by (intro quiet_intros)

text \<open>A log row whose outcome is not \<^verbatim>\<open>completed\<close> completes no stage.\<close>

lemma quiet_appendLog [quiet_intros]: "le_outcome v \<noteq> ''completed'' \<Longrightarrow> quiet_op (run_db (appendLog pg v))"
proof -
  assume v: "le_outcome v \<noteq> ''completed''"
  have "keeps_calls db db'" if "appendLog pg v db = (r, db')" for db r db'
  proof (cases r)
    case (Inl e)
    with that show ?thesis by (auto simp: appendLog_def Let_def split: if_splits)
  next
    case (Inr row)
    note eff = appendLog_InrD [OF that [unfolded Inr]]
    then have "view c db' = view c db" for c using getCallState_cong [of db' db c] by (simp add: view_def)
    moreover have "completed_stages c db' = completed_stages c db" for c
      using eff v completed_stages_log [of db' db row c] by simp
    moreover have "db_ok db \<longrightarrow> db_ok db'" using eff by (fastforce simp: db_ok_def alerts_deduped_def)
    ultimately show ?thesis using eff by (simp add: keeps_calls_def undisturbed_def)
  qed
  then show ?thesis unfolding quiet_op_def run_db_def by (auto split: prod.split sum.split)
qed

lemma quiet_park [quiet_intros]: "quiet_op (parkStageDisabled pg c st marker)"
  unfolding parkStageDisabled_def by (intro quiet_intros) simp

section \<open>The handlers are quiet\<close>

lemma quiet_prefilter: "quiet_op (createMetadataPreFilterHandler policy c)"
  unfolding createMetadataPreFilterHandler_def by (intro quiet_intros)

lemma wait_row_view [simp]: "call_view (wait_row pg r) = call_view r"
  by (simp add: call_view_def wait_row_def)

lemma quiet_wait [quiet_intros]:
  "quiet_op (\<lambda>db. let (t, db') = markTranscriptWaitStarted pg c db in (Inr t, db'))"
proof -
  have "keeps_calls db (snd (markTranscriptWaitStarted pg c db))" for db
  proof -
    let ?db' = "snd (markTranscriptWaitStarted pg c db)"
    have "view x ?db' = view x db" for x
    proof -
      have "view x ?db' = map_option (\<lambda>r. call_view (if cs_call_id r = c then wait_row pg r else r)) (getCallState x db)"
        by (rule view_update) (simp_all add: markTranscriptWaitStarted_def Let_def)
      also have "\<dots> = view x db" unfolding view_def by (rule option.map_cong0) simp
      finally show ?thesis .
    qed
    moreover have "db_ok db \<longrightarrow> db_ok ?db'" 
      using markTranscriptWaitStarted_db_ok [of db pg c "fst (markTranscriptWaitStarted pg c db)" ?db'] by simp
    moreover have "review_queue ?db' = review_queue db" "processing_log ?db' = processing_log db"
      by (simp_all add: markTranscriptWaitStarted_def Let_def)
    ultimately show ?thesis by (simp add: keeps_calls_def undisturbed_def completed_stages_def)
  qed
  then show ?thesis by (simp add: quiet_op_def case_prod_beta)
qed

lemma quiet_queue_op [quiet_intros]: "(\<And>db. same_spine db (add db)) \<Longrightarrow> quiet_op (queue_op deps j add)"
  unfolding queue_op_def by (intro quiet_intros)

lemma queue_adds_spine [simp]:
  "same_spine db (enqueueCall dg c db)" "same_spine db (enqueueTranscriptRetry dg c d s db)"
  by (simp_all add: enqueueCall_def enqueueTranscriptRetry_def queue_add_def)

lemma seed_keeps:
  assumes "seedCallStateIfAbsent pg v db = (r, db')"
    and "ci_currentStage v = stage_at 0" "ci_status v = STATUS_PROCESSING"
  shows "keeps_calls db db'"
proof (cases "db' = db")
  case False
  with assms(1) have new: "db' = db\<lparr>call_state := call_state db @ [new_call_state pg v]\<rparr>"
    and fresh: "ci_callId v \<notin> cs_call_id ` set (call_state db)"
    by (auto simp: seedCallStateIfAbsent_def sql_exists_def list_ex_iff split: if_splits)
  have id: "cs_call_id (new_call_state pg v) = ci_callId v" by (simp add: new_call_state_def)
  have "view c db' = (if c = ci_callId v then Some (call_view (new_call_state pg v)) else view c db)" for c
  proof -
    have "filter (\<lambda>r. cs_call_id r = ci_callId v) (call_state db) = []" using fresh by (auto simp: filter_empty_conv image_iff)
    then show ?thesis using new id by (auto simp: view_def getCallState_def sql_select_def first_row_def)
  qed
  moreover have "view (ci_callId v) db = None" using fresh getCallState_None by (auto simp: view_def)
  moreover have "call_view (new_call_state pg v) = (stage_at 0, STATUS_PROCESSING, None)"
    using assms(2,3) by (simp add: call_view_def new_call_state_def)
  moreover have "db_ok db \<longrightarrow> db_ok db'" using new fresh id by (auto simp: db_ok_def alerts_deduped_def)
  ultimately show ?thesis using new by (auto simp: keeps_calls_def undisturbed_def completed_stages_def)
qed simp

lemma quiet_seed [quiet_intros]: "quiet_op (seed_canonical deps c)"
  unfolding seed_canonical_def quiet_op_def run_db_def
  by (auto split: prod.split sum.split intro!: seed_keeps)

lemma quiet_putTranscript [quiet_intros]: "quiet_op (run_db (putTranscript pg e c t))"
  by (rule quiet_run_db) (rule putTranscript_spine)

lemma quiet_fetch: "quiet_op (createFetchTranscriptHandler deps c st)"
  unfolding createFetchTranscriptHandler_def await_transcript_def persistDialpadAlert_def recordTranscriptMissingAlert_def
  by (intro quiet_intros queue_adds_spine)

lemma quiet_availability: "quiet_op (createTranscriptAvailabilityHandler deps c st)"
  unfolding createTranscriptAvailabilityHandler_def recordTranscriptMissingAlert_def by (intro quiet_intros)

lemma quiet_classify: "quiet_op (createClassifyHandler deps c st)"
  unfolding createClassifyHandler_def classify_route_def by (intro quiet_intros)

lemma quiet_attempt [quiet_intros]: "quiet_op (extract_attempt deps c st tx res)"
  unfolding extract_attempt_def by (intro quiet_intros)

lemma quiet_tryRetry [quiet_intros]: "quiet_op (tryRetry deps c st tx)"
  unfolding tryRetry_def by (intro quiet_intros)

lemma quiet_malformed_hold [quiet_intros]: "quiet_op (malformed_hold deps c st es)"
  unfolding malformed_hold_def by (intro quiet_intros)

lemma quiet_residual_hold [quiet_intros]: "quiet_op (residual_hold deps c st counts)"
  unfolding residual_hold_def by (intro quiet_intros)

lemma quiet_gate_loop [quiet_intros]: "quiet_op (gate_loop deps c st tx retry result parsed)"
proof (induction deps c st tx retry result parsed rule: gate_loop.induct)
  case (1 deps callId stage redactedText retry result parsed)
  note IH = this
  show ?case by (subst gate_loop.simps) (intro quiet_intros IH; (assumption | rule refl)?)
qed

lemma quiet_first_attempts [quiet_intros]: "quiet_op (first_attempts deps c st tx res)"
  unfolding first_attempts_def by (intro quiet_intros)

lemma quiet_upsert [quiet_intros]: "quiet_op (run_db (upsertExtractionCandidate pg c v))"
  by (rule quiet_run_db) (rule upsertExtractionCandidate_spine)

lemma quiet_persist [quiet_intros]: "quiet_op (persist_record deps c tx r ps a b)"
  unfolding persist_record_def by (intro quiet_intros)

lemma quiet_extract: "quiet_op (createExtractHandler deps c st)"
  unfolding createExtractHandler_def by (intro quiet_intros)

lemma quiet_mark_failed [quiet_intros]: "quiet_op (mark_failed deps c f)"
  unfolding mark_failed_def by (intro quiet_intros quiet_run_db) (rule markPiiScanFailed_spine)

lemma quiet_mark_passed [quiet_intros]:
  "quiet_op (\<lambda>db. let (row, db') = markPiiScanPassed c db in (Inr row, db'))"
proof -
  have "same_spine db (snd (markPiiScanPassed c db))" for db
    using markPiiScanPassed_spine [of c db "fst (markPiiScanPassed c db)"] by simp
  then show ?thesis by (simp add: quiet_op_def case_prod_beta same_spine_keeps)
qed

lemma quiet_malformedHold [quiet_intros]: "quiet_op (malformedHold deps c st gate md)"
  unfolding malformedHold_def by (intro quiet_intros)

lemma quiet_failedMarkerHold [quiet_intros]: "quiet_op (failedMarkerHold deps c st kind counts)"
  unfolding failedMarkerHold_def by (intro quiet_intros)

lemma quiet_scan: "quiet_op (createVerbatimPiiScanHandler deps c st)"
  unfolding createVerbatimPiiScanHandler_def latch_passed_def by (intro quiet_intros)

lemma quiet_store: "quiet_op (storeHandler deps c)"
proof -
  have [quiet_intros]: "quiet_op (run_db (upsertStructuredKnowledge pg x v))" for pg x v
    by (rule quiet_run_db) (rule upsertStructuredKnowledge_spine)
  show ?thesis unfolding storeHandler_def
    by (intro quiet_intros) (simp_all add: markExtractionCandidateRetentionEligible_def)
qed

lemma quiet_retention: "quiet_op (createMarkRetentionEligibleHandler deps c)"
  unfolding createMarkRetentionEligibleHandler_def
  by (intro quiet_intros) (simp_all add: markTranscriptRetentionEligible_def markTokensRetentionEligible_def)

section \<open>Results\<close>

text \<open>\<open>outcome m P\<close>: whenever the operation returns, its result satisfies \<open>P\<close>.\<close>

definition outcome :: "('s, 'e, 'a) op \<Rightarrow> ('a \<Rightarrow> bool) \<Rightarrow> bool" where
  "outcome m P \<longleftrightarrow> (\<forall>s a s'. m s = (Inr a, s') \<longrightarrow> P a)"

named_theorems outcome_intros "what operations return"

lemma outcome_return [outcome_intros]: "P a \<Longrightarrow> outcome (op_return a) P"
  by (simp add: outcome_def op_return_def)

lemma outcome_throw [outcome_intros]: "outcome (op_throw e) P"
  by (simp add: outcome_def op_throw_def)

lemma outcome_bind [outcome_intros]: "(\<And>a. outcome (f a) P) \<Longrightarrow> outcome (op_bind m f) P"
  by (auto simp: outcome_def op_bind_eq_Inr)

lemma outcome_if [outcome_intros]: "(b \<Longrightarrow> outcome x P) \<Longrightarrow> (\<not> b \<Longrightarrow> outcome y P) \<Longrightarrow> outcome (if b then x else y) P"
  by simp

lemma outcome_option [outcome_intros]:
  "(v = None \<Longrightarrow> outcome x P) \<Longrightarrow> (\<And>a. v = Some a \<Longrightarrow> outcome (y a) P) \<Longrightarrow>
   outcome (case v of None \<Rightarrow> x | Some a \<Rightarrow> y a) P"
  by (cases v) auto

lemma outcome_sum [outcome_intros]:
  "(\<And>a. v = Inl a \<Longrightarrow> outcome (x a) P) \<Longrightarrow> (\<And>b. v = Inr b \<Longrightarrow> outcome (y b) P) \<Longrightarrow>
   outcome (case v of Inl a \<Rightarrow> x a | Inr b \<Rightarrow> y b) P"
  by (cases v) auto

lemma outcome_prod [outcome_intros]: "(\<And>a b. v = (a, b) \<Longrightarrow> outcome (x a b) P) \<Longrightarrow> outcome (case v of (a, b) \<Rightarrow> x a b) P"
  by (cases v) auto

lemma outcome_Let [outcome_intros]: "outcome (f v) P \<Longrightarrow> outcome (Let v f) P"
  by simp

lemma outcome_failure_kind [outcome_intros]:
  "outcome x P \<Longrightarrow> outcome y P \<Longrightarrow> outcome z P \<Longrightarrow>
   outcome (case k of PK_residual_pii \<Rightarrow> x | PK_tokened_phrase \<Rightarrow> y | PK_verbatim_mismatch \<Rightarrow> z) P"
  by (cases k) auto

lemma outcome_scan_status [outcome_intros]:
  "outcome x P \<Longrightarrow> outcome y P \<Longrightarrow> outcome z P \<Longrightarrow>
   outcome (case k of PS_pending \<Rightarrow> x | PS_passed \<Rightarrow> y | PS_failed \<Rightarrow> z) P"
  by (cases k) auto

text \<open>A bind whose first part is known to return only certain values.\<close>

lemma outcome_bind_known: "outcome m Q \<Longrightarrow> (\<And>a. Q a \<Longrightarrow> outcome (f a) P) \<Longrightarrow> outcome (op_bind m f) P"
  unfolding outcome_def op_bind_eq_Inr by blast

definition no_drop :: "stage_result \<Rightarrow> bool" where
  "no_drop r = (case r of SDrop _ _ \<Rightarrow> False | _ \<Rightarrow> True)"

lemma no_drop_simps [simp]:
  "no_drop (SContinue d)" "no_drop SDefer" "no_drop (SHold a b e s)" "\<not> no_drop (SDrop reason d)"
  by (simp_all add: no_drop_def)

lemma availability_no_drop: "outcome (createTranscriptAvailabilityHandler deps c st) no_drop"
  unfolding createTranscriptAvailabilityHandler_def by (intro outcome_intros) simp_all

lemma holds_no_drop [outcome_intros]:
  "outcome (malformed_hold deps c st es) no_drop" "outcome (residual_hold deps c st counts) no_drop"
  "outcome (malformedHold deps c st gate md) no_drop"
  unfolding malformed_hold_def residual_hold_def malformedHold_def by (intro outcome_intros; simp)+

lemma persist_no_drop [outcome_intros]: "outcome (persist_record deps c tx r ps a b) no_drop"
  unfolding persist_record_def by (intro outcome_intros) simp

text \<open>The gate loop holds with a hold, never with a drop.\<close>

definition gate_hold_ok :: "gate_outcome \<Rightarrow> bool" where
  "gate_hold_ok g = (case g of GateHold h \<Rightarrow> no_drop h | _ \<Rightarrow> True)"

lemma gate_hold_simps [simp]: "gate_hold_ok (Accepted a b d e)" "gate_hold_ok (GateHold h) = no_drop h"
  by (simp_all add: gate_hold_ok_def)

lemma gate_loop_hold: "outcome (gate_loop deps c st tx retry result parsed) gate_hold_ok"
proof (induction deps c st tx retry result parsed rule: gate_loop.induct)
  case (1 deps callId stage redactedText retry result parsed)
  note IH = this
  have hold: "outcome (op_bind m (\<lambda>h. op_return (GateHold h))) gate_hold_ok" if "outcome m no_drop" for m :: "stage_result hop"
    using that by (intro outcome_bind_known [OF that] outcome_intros) simp
  show ?case
    by (subst gate_loop.simps)
      (intro outcome_Let outcome_sum outcome_prod outcome_if outcome_option hold holds_no_drop outcome_return
         outcome_bind [of "\<lambda>again. _ again" _ "tryRetry _ _ _ _"] IH gate_hold_simps; (assumption | rule refl)?)
qed

lemma extract_no_drop: "outcome (createExtractHandler deps c st) no_drop"
  unfolding createExtractHandler_def
  by (intro outcome_intros outcome_bind_known [OF gate_loop_hold]) (auto simp: gate_hold_ok_def split: gate_outcome.split
      intro: outcome_intros)

lemma scan_no_drop: "outcome (createVerbatimPiiScanHandler deps c st) no_drop"
  unfolding createVerbatimPiiScanHandler_def latch_passed_def failedMarkerHold_def scan_continue_def
  by (intro outcome_intros; simp)

lemma store_no_drop: "outcome (storeHandler deps c) no_drop"
  unfolding storeHandler_def by (intro outcome_intros) simp

lemma retention_no_drop: "outcome (createMarkRetentionEligibleHandler deps c) no_drop"
  unfolding createMarkRetentionEligibleHandler_def by (intro outcome_intros) simp

lemma outcome_SDrop:
  "outcome m no_drop \<Longrightarrow> handler_result m db \<noteq> (Inr (Some (SDrop reason d)), db')"
  unfolding outcome_def handler_result_def op_bind_eq_Inr op_return_def using no_drop_simps(4) by blast

section \<open>The production handlers meet the runner's contract\<close>

locale redact_stage =
  fixes redact :: "string \<Rightarrow> stage_result hop"
  assumes redact_quiet: "quiet_op (redact c)"
    and redact_no_drop: "outcome (redact c) no_drop"
begin

lemma production_quiet: "quiet_op (buildProductionStageHandlers deps redact c st)"
  unfolding buildProductionStageHandlers_def
  by (cases st)
    (simp_all, (intro quiet_intros quiet_prefilter quiet_fetch quiet_availability redact_quiet quiet_classify
       quiet_extract quiet_scan quiet_store quiet_retention)+)

lemma production_drops:
  assumes "buildProductionStageHandlers deps redact c st db = (Inr (Some (SDrop reason d)), db')"
  shows "st \<in> set SKIP_STAGES"
  using assms
    outcome_SDrop [OF availability_no_drop] outcome_SDrop [OF redact_no_drop] outcome_SDrop [OF extract_no_drop]
    outcome_SDrop [OF scan_no_drop] outcome_SDrop [OF store_no_drop] outcome_SDrop [OF retention_no_drop]
  by (cases st) (simp_all add: buildProductionStageHandlers_def SKIP_STAGES_def)

end

sublocale redact_stage \<subseteq> production: quiet_handlers "buildProductionStageHandlers deps redact" for deps
  by unfold_locales (auto dest: quiet_opD [OF production_quiet] production_drops)

end
