(* ===== verification/Redact_Correct.thy ===== *)
theory Redact_Correct
  imports Redact_Stage Stages_Correct
begin

text \<open>
  The redact stage as a stage and as the privacy boundary.  It meets the contract \<open>redact_stage\<close>, so the
  production handler set is a set of quiet handlers and the theorems of the runner hold for it; and a clean
  transcript it leaves readable is the tokenized text of a composition whose residual scan found nothing.
\<close>

section \<open>The stage contract\<close>

lemma quiet_putToken [quiet_intros]: "quiet_op (run_db (putToken e c k t))"
  by (rule quiet_run_db) (rule putToken_spine)

lemma quiet_upsertClean [quiet_intros]: "quiet_op (run_db (upsertCleanTranscript pg c t s rs))"
  by (rule quiet_run_db) (rule upsertCleanTranscript_spine)

lemma quiet_replaceFindings [quiet_intros]: "quiet_op (run_db (replaceFindings pg c fs))"
  by (rule quiet_run_db) (rule replaceFindings_spine)

lemma quiet_put_tokens [quiet_intros]: "quiet_op (put_tokens deps c es)"
  by (induction deps c es rule: put_tokens.induct) (auto intro!: quiet_intros)

lemma quiet_persist_clean [quiet_intros]: "quiet_op (persist_clean deps c cr risk)"
  unfolding persist_clean_def softDeleteCleanTranscript_def by (auto intro!: quiet_intros)

lemma quiet_decide [quiet_intros]: "quiet_op (decide deps c st cr risk)"
  unfolding decide_def recordRedactionHoldAlert_def by (auto intro!: quiet_intros)

lemma quiet_redact: "quiet_op (createRedactionHandler deps c)"
  unfolding createRedactionHandler_def redact_transcript_def by (auto intro!: quiet_intros)

lemma decide_no_drop [outcome_intros]: "outcome (decide deps c st cr risk) no_drop"
  unfolding decide_def by (auto intro!: outcome_intros)

lemma redact_no_drop: "outcome (createRedactionHandler deps c) no_drop"
  unfolding createRedactionHandler_def redact_transcript_def by (auto intro!: outcome_intros)

interpretation redaction: redact_stage "createRedactionHandler deps" for deps
  by unfold_locales (rule quiet_redact, rule redact_no_drop)

section \<open>The clean row\<close>

lemma put_tokens_clean: "put_tokens deps c es db = (r, db') \<Longrightarrow> clean_transcripts db' = clean_transcripts db"
proof (induction deps c es arbitrary: db rule: put_tokens.induct)
  case (2 deps c token plain es)
  obtain r1 db1 where p: "putToken (sd_encrypt (red_stage deps)) c token plain db = (r1, db1)" by fastforce
  have "clean_transcripts db1 = clean_transcripts db" using p
    by (auto simp: putToken_def Let_def split: if_splits prod.splits)
  then show ?case using 2 p by (cases r1) (auto simp: op_bind_def run_db_def)
qed (simp add: op_return_def)

lemma run_db_Inr: "run_db m db = (Inr a, db') \<longleftrightarrow> m db = (Inr a, db')"
  by (auto simp: run_db_def split: prod.splits sum.splits)

lemma replaceFindings_clean: "replaceFindings pg c fs db = (r, db') \<Longrightarrow> clean_transcripts db' = clean_transcripts db"
  by (auto simp: replaceFindings_def split: if_splits)

lemma recordStageAlert_clean: "recordStageAlert pg c st config code state extra co db = (r, db') \<Longrightarrow> clean_transcripts db' = clean_transcripts db"
  by (auto simp: recordStageAlert_def createFailure_op_def op_bind_def op_return_def op_throw_def run_db_def recordAlert_def
      recordAlertWithInsertStatus_def Let_def split: option.splits sum.splits prod.splits if_splits)

lemma upsertClean_live:
  assumes "distinct (map ct_call_id (clean_transcripts db))" "upsertCleanTranscript pg c t s rs db = (Inr row, db')"
  shows "\<exists>r. getCleanTranscript c db' = Some r \<and> ct_redacted_text r = t"
proof (cases "sql_exists (\<lambda>r. ct_call_id r = c) (clean_transcripts db)")
  case False
  then have "sql_select (live_clean c) (clean_transcripts db) = []"
    by (auto simp: sql_exists_def list_ex_iff sql_select_def live_clean_def filter_empty_conv)
  then show ?thesis using assms(2) False
    by (auto simp: upsertCleanTranscript_def Let_def getCleanTranscript_def sql_select_def live_clean_def split: if_splits)
next
  case True
  let ?p = "\<lambda>r. ct_call_id r = c \<and> ct_hard_deleted_at r = None" and ?f = "replace_clean pg t s rs"
  have db': "clean_transcripts db' = sql_update ?p ?f (clean_transcripts db)" and ne: "sql_updated ?p ?f (clean_transcripts db) \<noteq> []"
    using assms(2) True by (auto simp: upsertCleanTranscript_def Let_def split: if_splits option.splits)
  then obtain x where x: "x \<in> set (clean_transcripts db)" "?p x" by (auto simp: sql_updated_Nil)
  have "?f x \<in> set (clean_transcripts db')" using x by (auto simp: db' set_sql_update)
  moreover have "live_clean c (?f x)" using x by (simp add: live_clean_def replace_clean_def)
  ultimately have "sql_select (live_clean c) (clean_transcripts db') \<noteq> []" by (auto simp: sql_select_def filter_empty_conv)
  then obtain y where y: "getCleanTranscript c db' = Some y" by (auto simp: getCleanTranscript_def neq_Nil_conv)
  then have "y \<in> set (clean_transcripts db')" "live_clean c y"
    using first_row_Some [of "sql_select (live_clean c) (clean_transcripts db')" y] by (auto simp: getCleanTranscript_def sql_select_def)
  then have "y \<in> ?f ` {r \<in> set (clean_transcripts db). ?p r}" unfolding db' set_sql_update live_clean_def by blast
  then have "ct_redacted_text y = t" by (auto simp: replace_clean_def)
  then show ?thesis using y by simp
qed

lemma softDelete_gone: "getCleanTranscript c (softDeleteCleanTranscript pg c db) = None"
proof -
  let ?t = "clean_transcripts (softDeleteCleanTranscript pg c db)"
  have "\<not> live_clean c r" if r: "r \<in> set ?t" for r
  proof -
    have "r \<in> (\<lambda>x. if live_clean c x then x\<lparr>ct_soft_deleted_at := Some (pg_now pg)\<rparr> else x) ` set (clean_transcripts db)"
      using r by (simp add: softDeleteCleanTranscript_def sql_update_def)
    then obtain x where x: "r = (if live_clean c x then x\<lparr>ct_soft_deleted_at := Some (pg_now pg)\<rparr> else x)"
      by (rule imageE)
    show ?thesis
    proof (cases "live_clean c x")
      case True
      then have "ct_soft_deleted_at r \<noteq> None" using x by simp
      then show ?thesis by (simp add: live_clean_def)
    qed (use x in simp)
  qed
  then show ?thesis by (simp add: getCleanTranscript_def sql_select_def filter_empty_conv)
qed

lemma getClean_cong: "clean_transcripts db' = clean_transcripts db \<Longrightarrow> getCleanTranscript c db' = getCleanTranscript c db"
  by (simp add: getCleanTranscript_def)

text \<open>What a clean row may be: the tokenized text of a composition with a clean residual scan.\<close>

definition composed_for :: "redaction_deps \<Rightarrow> string \<Rightarrow> db \<Rightarrow> composed_redaction \<Rightarrow> bool" where
  "composed_for deps c db cr \<longleftrightarrow>
     (case getTranscript (red_decrypt deps) c db of
        None \<Rightarrow> False
      | Some raw \<Rightarrow>
          (case detect_all deps (transcriptToRedactableText (sd_json_parse (red_stage deps)) raw) of
             Inl e \<Rightarrow> False
           | Inr results \<Rightarrow>
               cr = composeRedaction (transcriptToRedactableText (sd_json_parse (red_stage deps)) raw) results
                 (sd_denyTerms (red_stage deps))))"

lemma persist_clean_row:
  assumes "distinct (map ct_call_id (clean_transcripts db))" "persist_clean deps c cr risk db = (Inr (), db')"
  shows "if rs_hits (cr_residual cr) = [] \<and> (\<not> shouldHoldForRisk risk (REDACTION_RISK_THRESHOLD deps) \<or> rk_outputSafe risk)
     then \<exists>r. getCleanTranscript c db' = Some r \<and> ct_redacted_text r = tz_redactedText (cr_tokenized cr)
     else getCleanTranscript c db' = None"
  using assms(2) upsertClean_live [OF assms(1), of "sd_pg (red_stage deps)" c "tz_redactedText (cr_tokenized cr)" "rk_score risk"
      "map risk_reason_name (rk_reasons risk)"] softDelete_gone
  by (auto simp: persist_clean_def Let_def op_bind_def op_return_def run_db_def run_write_def split: if_splits prod.splits sum.splits)

lemma decide_clean:
  assumes "decide deps c st cr risk db = (r, db')"
  shows "clean_transcripts db' = clean_transcripts db"
  using assms
  by (auto simp: decide_def Let_def recordRedactionHoldAlert_def op_bind_def op_return_def split: if_splits prod.splits sum.splits
      dest: recordStageAlert_clean)

lemma redact_transcript_run:
  assumes "redact_transcript deps c st tx db = (Inr result, db')"
  obtains results db1 db2 where "detect_all deps tx = Inr results"
    "clean_transcripts db1 = clean_transcripts db"
    "persist_clean deps c (composeRedaction tx results (sd_denyTerms (red_stage deps)))
       (redaction_risk tx results (composeRedaction tx results (sd_denyTerms (red_stage deps)))) db1 = (Inr (), db2)"
    "decide deps c st (composeRedaction tx results (sd_denyTerms (red_stage deps)))
       (redaction_risk tx results (composeRedaction tx results (sd_denyTerms (red_stage deps)))) db2 = (Inr result, db')"
proof -
  obtain results where r: "detect_all deps tx = Inr results"
    using assms by (auto simp: redact_transcript_def op_throw_def split: sum.splits)
  let ?c = "composeRedaction tx results (sd_denyTerms (red_stage deps))"
  let ?risk = "redaction_risk tx results ?c"
  obtain u0 u1 u2 :: unit and db0 db1 db2 where "put_tokens deps c (tz_vaultEntries (cr_tokenized ?c)) db = (Inr u0, db0)"
    "replaceFindings (sd_pg (red_stage deps)) c (finding_rows deps c ?c) db0 = (Inr u1, db1)"
    "persist_clean deps c ?c ?risk db1 = (Inr u2, db2)" "decide deps c st ?c ?risk db2 = (Inr result, db')"
    using assms unfolding redact_transcript_def r sum.case Let_def op_bind_eq_Inr run_db_Inr by blast
  then show thesis using r put_tokens_clean replaceFindings_clean by (intro that [of results db1 db2]) auto
qed


section \<open>Properties\<close>

lemma redact_run:
  assumes "createRedactionHandler deps c db = (Inr result, db')"
  obtains (missing) "getTranscript (red_decrypt deps) c db = None" "db' = db"
      "result = SHold HR_missing_transcript (Some DIALPAD_TRANSCRIPT_MISSING) None None"
  | (redacted) raw where "getTranscript (red_decrypt deps) c db = Some raw"
      "redact_transcript deps c (pipeline_stage_name ST_redact) (transcriptToRedactableText (sd_json_parse (red_stage deps)) raw) db
         = (Inr result, db')"
  using assms
  by (auto simp: createRedactionHandler_def op_bind_def run_read_def op_throw_def op_return_def split: if_splits option.splits)

lemma decide_continue:
  assumes "decide deps c st cr risk db = (Inr (SContinue d), db')"
  shows "rs_hits (cr_residual cr) = []" "\<not> shouldHoldForRisk risk (REDACTION_RISK_THRESHOLD deps)"
  using assms by (auto simp: decide_def Let_def op_bind_def op_return_def split: if_splits prod.splits sum.splits)

text \<open>A readable row that is safe to send on: the tokenized text of the composition of the call's transcript, with a
  residual scan that found nothing.\<close>

definition clean_row_safe :: "redaction_deps \<Rightarrow> string \<Rightarrow> db \<Rightarrow> clean_transcript_row \<Rightarrow> bool" where
  "clean_row_safe deps c db row \<longleftrightarrow>
     (\<exists>cr. composed_for deps c db cr \<and> ct_redacted_text row = tz_redactedText (cr_tokenized cr)
        \<and> rs_hits (residualScan (ct_redacted_text row) (map snd (tz_vaultEntries (cr_tokenized cr))) (sd_denyTerms (red_stage deps))) = [])"

lemma persist_clean_error: "persist_clean deps c cr risk db = (Inl e, db') \<Longrightarrow> clean_transcripts db' = clean_transcripts db"
  by (auto simp: persist_clean_def upsertCleanTranscript_def Let_def op_bind_def op_return_def run_db_def run_write_def
      split: if_splits option.splits)

lemma redact_transcript_error:
  assumes "redact_transcript deps c st tx db = (Inl e, db')"
  shows "clean_transcripts db' = clean_transcripts db
    \<or> (\<exists>results db1 db2. detect_all deps tx = Inr results \<and> clean_transcripts db1 = clean_transcripts db
         \<and> persist_clean deps c (composeRedaction tx results (sd_denyTerms (red_stage deps)))
             (redaction_risk tx results (composeRedaction tx results (sd_denyTerms (red_stage deps)))) db1 = (Inr (), db2)
         \<and> clean_transcripts db' = clean_transcripts db2)"
proof (cases "detect_all deps tx")
  case (Inl x)
  then show ?thesis using assms by (simp add: redact_transcript_def op_throw_def)
next
  case (Inr results)
  let ?c = "composeRedaction tx results (sd_denyTerms (red_stage deps))"
  let ?risk = "redaction_risk tx results ?c"
  obtain r0 db0 where p: "put_tokens deps c (tz_vaultEntries (cr_tokenized ?c)) db = (r0, db0)" by fastforce
  obtain r1 db1 where f: "replaceFindings (sd_pg (red_stage deps)) c (finding_rows deps c ?c) db0 = (r1, db1)" by fastforce
  obtain r2 db2 where q: "persist_clean deps c ?c ?risk db1 = (r2, db2)" by fastforce
  have same: "clean_transcripts db0 = clean_transcripts db" "clean_transcripts db1 = clean_transcripts db0"
    using put_tokens_clean [OF p] replaceFindings_clean [OF f] by simp_all
  show ?thesis
  proof (cases "\<exists>u0 u1 u2. r0 = Inr u0 \<and> r1 = Inr u1 \<and> r2 = Inr u2")
    case True
    then have "decide deps c st ?c ?risk db2 = (Inl e, db')"
      using assms p f q by (auto simp: redact_transcript_def Inr Let_def op_bind_def run_db_def)
    then show ?thesis using decide_clean same q True Inr by fastforce
  next
    case False
    then have "clean_transcripts db' = clean_transcripts db"
      using assms p f q same persist_clean_error [of deps c ?c ?risk db1 _ db2]
      by (cases r0; cases r1; cases r2) (auto simp: redact_transcript_def Inr Let_def op_bind_def run_db_def)
    then show ?thesis by simp
  qed
qed

lemma persisted_safe:
  assumes "distinct (map ct_call_id (clean_transcripts db))" "getTranscript (red_decrypt deps) c db = Some raw"
    and "detect_all deps (transcriptToRedactableText (sd_json_parse (red_stage deps)) raw) = Inr results"
    and "clean_transcripts db1 = clean_transcripts db"
    and "persist_clean deps c (composeRedaction (transcriptToRedactableText (sd_json_parse (red_stage deps)) raw) results (sd_denyTerms (red_stage deps)))
       risk db1 = (Inr (), db2)"
    and "getCleanTranscript c db2 = Some row"
  shows "clean_row_safe deps c db row"
proof -
  let ?cr = "composeRedaction (transcriptToRedactableText (sd_json_parse (red_stage deps)) raw) results (sd_denyTerms (red_stage deps))"
  have "composed_for deps c db ?cr" using assms(2,3) by (simp add: composed_for_def)
  moreover have "cr_residual ?cr = residualScan (tz_redactedText (cr_tokenized ?cr)) (map snd (tz_vaultEntries (cr_tokenized ?cr)))
      (sd_denyTerms (red_stage deps))"
    by (simp add: compose_fields)
  moreover have "distinct (map ct_call_id (clean_transcripts db1))" using assms(1,4) by simp
  note persist_clean_row [OF this assms(5)]
  ultimately show ?thesis using assms(6) unfolding clean_row_safe_def by (auto split: if_splits)
qed

lemma redact_boundary_lemma:
  assumes "distinct (map ct_call_id (clean_transcripts db))" "getTranscript (red_decrypt deps) c db \<noteq> None"
  shows "(case createRedactionHandler deps c db of
       (Inl e, db') \<Rightarrow>
         (case getCleanTranscript c db' of None \<Rightarrow> True | Some row \<Rightarrow> getCleanTranscript c db = Some row \<or> clean_row_safe deps c db row)
     | (Inr result, db') \<Rightarrow>
         (case getCleanTranscript c db' of
            None \<Rightarrow> (case result of SHold reason code d k \<Rightarrow> reason = HR_residual_pii_detected \<or> reason = HR_redaction_failed | _ \<Rightarrow> False)
          | Some row \<Rightarrow> clean_row_safe deps c db row))"
proof -
  obtain raw where raw: "getTranscript (red_decrypt deps) c db = Some raw" using assms(2) by blast
  let ?tx = "transcriptToRedactableText (sd_json_parse (red_stage deps)) raw"
  obtain res db' where run: "createRedactionHandler deps c db = (res, db')" by fastforce
  show ?thesis
  proof (cases res)
    case (Inl e)
    have "db' = db \<or> redact_transcript deps c (pipeline_stage_name ST_redact) ?tx db = (Inl e, db')"
      using run raw Inl
      by (auto simp: createRedactionHandler_def op_bind_def run_read_def op_throw_def op_return_def split: if_splits)
    then consider (same) "clean_transcripts db' = clean_transcripts db"
      | (new) results db1 db2 where "detect_all deps ?tx = Inr results" "clean_transcripts db1 = clean_transcripts db"
          "persist_clean deps c (composeRedaction ?tx results (sd_denyTerms (red_stage deps)))
             (redaction_risk ?tx results (composeRedaction ?tx results (sd_denyTerms (red_stage deps)))) db1 = (Inr (), db2)"
          "clean_transcripts db' = clean_transcripts db2"
      using redact_transcript_error [of deps c "pipeline_stage_name ST_redact" ?tx db e db'] by blast
    then have "getCleanTranscript c db' = getCleanTranscript c db
        \<or> (\<forall>row. getCleanTranscript c db' = Some row \<longrightarrow> clean_row_safe deps c db row)"
    proof cases
      case new
      then show ?thesis using persisted_safe [OF assms(1) raw new(1,2,3)] getClean_cong [OF new(4), of c] by simp
    next
      case same
      then show ?thesis using getClean_cong [OF same, of c] by simp
    qed
    then show ?thesis using run Inl by (auto split: option.split)
  next
    case (Inr result)
    from run [unfolded Inr] show ?thesis
    proof (cases rule: redact_run)
      case (redacted raw')
      then have "redact_transcript deps c (pipeline_stage_name ST_redact) ?tx db = (Inr result, db')" using raw by simp
      from redact_transcript_run [OF this] obtain results db1 db2 where r: "detect_all deps ?tx = Inr results" "clean_transcripts db1 = clean_transcripts db"
        "persist_clean deps c (composeRedaction ?tx results (sd_denyTerms (red_stage deps)))
           (redaction_risk ?tx results (composeRedaction ?tx results (sd_denyTerms (red_stage deps)))) db1 = (Inr (), db2)"
        "decide deps c (pipeline_stage_name ST_redact) (composeRedaction ?tx results (sd_denyTerms (red_stage deps)))
           (redaction_risk ?tx results (composeRedaction ?tx results (sd_denyTerms (red_stage deps)))) db2 = (Inr result, db')"
        by blast
      have row: "getCleanTranscript c db' = getCleanTranscript c db2" using decide_clean [OF r(4)] by (rule getClean_cong)
      have d1: "distinct (map ct_call_id (clean_transcripts db1))" using assms(1) r(2) by simp
      have "clean_row_safe deps c db y" if "getCleanTranscript c db' = Some y" for y
        using persisted_safe [OF assms(1) raw r(1-3)] row that by simp
      moreover have "(case result of SHold reason code d k \<Rightarrow> reason = HR_residual_pii_detected \<or> reason = HR_redaction_failed | _ \<Rightarrow> False)"
        if "getCleanTranscript c db' = None"
        using r(4) persist_clean_row [OF d1 r(3)] that row
        by (auto simp: decide_def Let_def op_bind_def op_return_def split: if_splits prod.splits sum.splits)
      ultimately show ?thesis using run Inr by (auto split: option.split)
    qed (use raw in simp)
  qed
qed

end
