(* ===== verification/Pipeline_Correct.thy ===== *)
theory Pipeline_Correct
  imports Redact_Correct Extract_Correct Samples
begin

text \<open>
  The pipeline end to end.  The production handler set meets the runner's contract, so a run of a call follows the
  edges of the state machine; extract stores only what its gates accepted, with at most two model
  calls; the second scan passes only a candidate that passes all gates again; store copies exactly a passed candidate.
\<close>

section \<open>What an operation spends\<close>

named_theorems spends_intros "operations that leave candidates and clean transcripts alone"

definition cost_of :: "nat \<Rightarrow> db \<Rightarrow> db \<Rightarrow> bool" where
  "cost_of n db db' \<longleftrightarrow> extraction_candidates db' = extraction_candidates db \<and> clean_transcripts db' = clean_transcripts db
     \<and> length (model_invocations db') \<le> length (model_invocations db) + n"

definition spends :: "nat \<Rightarrow> (db, 'e, 'a) op \<Rightarrow> bool" where
  "spends n m \<longleftrightarrow> (\<forall>db. cost_of n db (snd (m db)))"

lemma cost_of_refl [simp]: "cost_of n db db"
  by (simp add: cost_of_def)

lemma cost_of_trans: "cost_of a x y \<Longrightarrow> cost_of b y z \<Longrightarrow> cost_of (a + b) x z"
  by (auto simp: cost_of_def)

lemma cost_of_mono: "cost_of a x y \<Longrightarrow> a \<le> b \<Longrightarrow> cost_of b x y"
  by (auto simp: cost_of_def)

lemma spendsD: "spends n m \<Longrightarrow> m db = (r, db') \<Longrightarrow> cost_of n db db'"
  unfolding spends_def by (metis snd_conv)

lemma spends_mono: "spends a m \<Longrightarrow> a \<le> b \<Longrightarrow> spends b m"
  unfolding spends_def using cost_of_mono by blast

lemma spends_return [spends_intros]: "spends n (op_return a)" "spends n (op_throw e)" "spends n (run_read f)"
  by (simp_all add: spends_def op_return_def op_throw_def run_read_def)

lemma spends_bind:
  assumes "spends a m" "\<And>x. spends b (f x)"
  shows "spends (a + b) (op_bind m f)"
  unfolding spends_def
proof
  fix db
  obtain r db1 where m: "m db = (r, db1)" by fastforce
  show "cost_of (a + b) db (snd (op_bind m f db))"
  proof (cases r)
    case (Inl e)
    then show ?thesis using m spendsD [OF assms(1) m] cost_of_mono [of a db db1 "a + b"] by (simp add: op_bind_def)
  next
    case (Inr x)
    obtain r2 db2 where f: "f x db1 = (r2, db2)" by fastforce
    then show ?thesis using m Inr cost_of_trans [OF spendsD [OF assms(1) m] spendsD [OF assms(2) f]] by (simp add: op_bind_def)
  qed
qed

lemma spends_bind0 [spends_intros]: "spends 0 m \<Longrightarrow> (\<And>x. spends n (f x)) \<Longrightarrow> spends n (op_bind m f)"
  using spends_bind [of 0 m n f] by simp

lemma spends_bind1: "spends n m \<Longrightarrow> (\<And>x. spends 0 (f x)) \<Longrightarrow> spends n (op_bind m f)"
  using spends_bind [of n m 0 f] by simp

lemma spends_resilient [spends_intros]: "spends n m \<Longrightarrow> spends n (resilientSideEffect m)"
  by (simp add: spends_def resilientSideEffect_def)

lemma spends_transaction [spends_intros]: "spends n m \<Longrightarrow> spends n (withTransaction m)"
  unfolding spends_def withTransaction_def by (auto split: prod.split sum.split) (metis snd_conv)

lemma spends_cases [spends_intros]:
  "(b \<Longrightarrow> spends n x) \<Longrightarrow> (\<not> b \<Longrightarrow> spends n y) \<Longrightarrow> spends n (if b then x else y)"
  "(v = None \<Longrightarrow> spends n x) \<Longrightarrow> (\<And>a. v = Some a \<Longrightarrow> spends n (g a)) \<Longrightarrow> spends n (case v of None \<Rightarrow> x | Some a \<Rightarrow> g a)"
  "(\<And>k b s. spends n (p k b s)) \<Longrightarrow> (\<And>e v. spends n (q e v)) \<Longrightarrow>
    spends n (case err of ModelApiError k b s \<Rightarrow> p k b s | OtherError e v \<Rightarrow> q e v)"
  "spends n (h w) \<Longrightarrow> spends n (Let w h)"
  by (auto split: option.split model_error.split)

lemma spends_split [spends_intros]:
  "(\<And>a b. v = (a, b) \<Longrightarrow> spends n (x a b)) \<Longrightarrow> spends n (case v of (a, b) \<Rightarrow> x a b)"
  "(\<And>a. w = Inl a \<Longrightarrow> spends n (y a)) \<Longrightarrow> (\<And>b. w = Inr b \<Longrightarrow> spends n (z b)) \<Longrightarrow>
   spends n (case w of Inl a \<Rightarrow> y a | Inr b \<Rightarrow> z b)"
  by (auto split: prod.split sum.split)

lemma spends_run_db: "(\<And>db r db'. m db = (r, db') \<Longrightarrow> cost_of n db db') \<Longrightarrow> spends n (run_db m)"
  unfolding spends_def run_db_def by (auto split: prod.split sum.split)

lemma spends_check [spends_intros]: "spends n m \<Longrightarrow> spends n (\<lambda>db. if P db then (Inr (), db) else m db)"
  by (simp add: spends_def)

section \<open>The operations of the extract stage\<close>

lemma cost_of_alert: "recordAlertWithInsertStatus pg v db = (r, db') \<Longrightarrow> cost_of 0 db db'"
  by (auto simp: recordAlertWithInsertStatus_def cost_of_def Let_def split: if_splits option.splits)

lemma spends_recordAlert [spends_intros]: "spends n (run_db (recordAlert pg v))" "spends n (run_db (recordAlertWithInsertStatus pg v))"
proof -
  have "cost_of n db db'" if "recordAlert pg v db = (r, db')" for db r db'
    using that cost_of_alert [of pg v db] cost_of_mono [of 0 db db' n]
    by (auto simp: recordAlert_def op_bind_def op_return_def split: prod.splits sum.splits)
  then show "spends n (run_db (recordAlert pg v))" by (rule spends_run_db)
  show "spends n (run_db (recordAlertWithInsertStatus pg v))"
    by (rule spends_run_db) (use cost_of_alert cost_of_mono in blast)
qed

lemma spends_createFailure [spends_intros]: "spends n (createFailure_op code st ctx)"
  unfolding createFailure_op_def by (intro spends_intros)

lemma spends_stage_alert [spends_intros]: "spends n (recordStageAlert pg c st config code state extra co)"
  unfolding recordStageAlert_def by (intro spends_intros)

lemma spends_verbatim_alert [spends_intros]: "spends n (recordVerbatimPiiDetectedAlertResilient pg c st config counts)"
  unfolding recordVerbatimPiiDetectedAlertResilient_def by (intro spends_intros)

lemma spends_warning [spends_intros]: "spends n (emitCostWarningIfReached pg st config res co)"
  unfolding emitCostWarningIfReached_def by (intro spends_intros)


lemma daily_frame:
  "upsertDailyCost pg day i out x db = (r, db') \<Longrightarrow> cost_of 0 db db'"
  "adjustDailyCost pg day i out x db = (r, db') \<Longrightarrow> cost_of 0 db db'"
  by (auto simp: upsertDailyCost_def adjustDailyCost_def cost_of_def Let_def split: if_splits option.splits)

lemma spends_release [spends_intros]: "spends n (run_db (releaseModelReservation pg r))"
  unfolding releaseModelReservation_def by (intro spends_run_db) (auto simp: op_bind_def op_return_def
      dest: daily_frame intro: cost_of_mono [of 0] split: prod.splits sum.splits if_splits)

lemma spends_settle [spends_intros]: "spends n (run_db (settleModelUsage pg r i out rates))"
  unfolding settleModelUsage_def by (intro spends_run_db) (auto simp: op_bind_def op_return_def Let_def
      dest: daily_frame intro: cost_of_mono [of 0] split: prod.splits sum.splits if_splits)

lemma spends_reserve [spends_intros]: "spends n (reserve deps cost)"
  unfolding reserve_def reserveModelBudget_def by (intro spends_run_db) (auto simp: op_bind_def op_return_def Let_def withTransaction_def
      dest: daily_frame intro: cost_of_mono [of 0] split: prod.splits sum.splits if_splits option.splits)

lemma spends_invocation: "spends 1 (run_db (recordModelInvocation pg v))"
  by (rule spends_run_db) (auto simp: recordModelInvocation_def cost_of_def Let_def split: if_splits)


lemma spends_handleModelError [spends_intros]: "spends n (handleModelError pg c st config res err co)"
  unfolding handleModelError_def by (intro spends_intros)

lemma spends_record: "spends 1 (record_and_settle deps c st mc pv res result ok)"
  unfolding record_and_settle_def by (intro spends_bind1 spends_invocation spends_intros)

lemma spends_attempt: "spends 1 (extract_attempt deps c st tx res)"
  unfolding extract_attempt_def by (intro spends_intros spends_bind1 [OF spends_record])

lemma spends_tryRetry: "spends 1 (tryRetry deps c st tx)"
  unfolding tryRetry_def by (intro spends_intros spends_bind1 [OF spends_attempt])

lemma spends_malformed [spends_intros]: "spends n (malformed_hold deps c st es)"
  unfolding malformed_hold_def by (intro spends_intros)

lemma spends_residual [spends_intros]: "spends n (residual_hold deps c st counts)"
  unfolding residual_hold_def by (intro spends_intros)

definition retries_left :: "retry_state \<Rightarrow> nat" where
  "retries_left retry = (if retry = RetryAvailable then 1 else 0)"

lemma spends_gate_loop_spent: "retry \<noteq> RetryAvailable \<Longrightarrow> spends n (gate_loop deps c st tx retry result parsed)"
  by (subst gate_loop.simps) (simp only: if_False; intro spends_intros)

lemma spends_gate_loop: "spends (retries_left retry) (gate_loop deps c st tx retry result parsed)"
proof (cases "retry = RetryAvailable")
  case True
  have n: "retries_left RetryAvailable = 1" by (simp add: retries_left_def)
  show ?thesis unfolding True n
    by (subst gate_loop.simps) (intro spends_intros spends_bind1 [OF spends_tryRetry] spends_gate_loop_spent; simp)
qed (rule spends_gate_loop_spent)


lemma spends_park [spends_intros]: "spends n (parkStageDisabled pg c st marker)"
proof -
  have "spends k (run_db (appendLog pg v))" for k v
    by (rule spends_run_db) (auto simp: appendLog_def cost_of_def Let_def split: if_splits)
  then show ?thesis unfolding parkStageDisabled_def by (intro spends_intros)
qed

text \<open>The first attempts and the gate loop share two model calls.\<close>

lemma first_attempts_cost:
  assumes "first_attempts deps c st tx res db = (r, db')"
  shows "cost_of (case r of Inl e \<Rightarrow> 2 | Inr (retry, _) \<Rightarrow> 2 - retries_left retry) db db'"
proof -
  obtain r1 db1 where a: "extract_attempt deps c st (buildExtractUserMessage tx) res db = (r1, db1)" by fastforce
  note c1 = spendsD [OF spends_attempt a]
  show ?thesis
  proof (cases r1)
    case (Inl e)
    then show ?thesis using assms a cost_of_mono [OF c1, of 2] by (auto simp: first_attempts_def op_bind_def)
  next
    case (Inr rp)
    obtain result parsed where rp: "rp = (result, parsed)" by fastforce
    show ?thesis
    proof (cases "\<exists>kind issues. parsed = Inl (kind, issues) \<and> mr_usagePresent result \<and> kind \<in> set RETRYABLE_PARSE_FAILURES")
      case True
      then obtain kind issues where p: "parsed = Inl (kind, issues)" "mr_usagePresent result" "kind \<in> set RETRYABLE_PARSE_FAILURES" by blast
      obtain r2 db2 where t: "tryRetry deps c st (buildExtractRetryUserMessage tx (parse_failure_kind_name kind)
          (case issues of None \<Rightarrow> [] | Some s \<Rightarrow> s)) db1 = (r2, db2)" by fastforce
      have "cost_of (1 + 1) db db2" by (rule cost_of_trans [OF c1 spendsD [OF spends_tryRetry t]])
      then show ?thesis using assms a Inr rp p t
        by (cases r2) (auto simp: first_attempts_def op_bind_def op_return_def retries_left_def numeral_2_eq_2 split: option.splits)
    next
      case False
      then have "r = Inr (RetryAvailable, result, parsed)" "db' = db1"
        using assms a Inr rp by (auto simp: first_attempts_def op_bind_def op_return_def split: sum.splits if_splits)
      then show ?thesis using c1 by (simp add: retries_left_def)
    qed
  qed
qed

definition gate_accepts :: "stage_deps \<Rightarrow> string \<Rightarrow> gate_outcome \<Rightarrow> bool" where
  "gate_accepts deps tx g =
     (case g of
        Accepted record phrases snapped dropped \<Rightarrow>
          scanPhrasesForResidual (xr_customer_language record) (sd_denyTerms deps) = None
          \<and> phrases = vr_phrases (verbatimGate (xr_customer_language record) tx)
      | GateHold h \<Rightarrow> (case h of SHold _ _ _ _ \<Rightarrow> True | _ \<Rightarrow> False))"

lemma hold_outcomes [outcome_intros]:
  "outcome (malformed_hold deps c st es) (\<lambda>h. case h of SHold _ _ _ _ \<Rightarrow> True | _ \<Rightarrow> False)"
  "outcome (residual_hold deps c st counts) (\<lambda>h. case h of SHold _ _ _ _ \<Rightarrow> True | _ \<Rightarrow> False)"
  unfolding malformed_hold_def residual_hold_def by (auto intro!: outcome_intros)

lemma outcome_hold: "outcome m (\<lambda>h. case h of SHold _ _ _ _ \<Rightarrow> True | _ \<Rightarrow> False) \<Longrightarrow>
    outcome (op_bind m (\<lambda>h. op_return (GateHold h))) (gate_accepts deps tx)"
  by (erule outcome_bind_known) (auto intro!: outcome_intros simp: gate_accepts_def)

lemma gate_loop_accepts: "outcome (gate_loop deps c st tx retry result parsed) (gate_accepts deps tx)"
proof (induction deps c st tx retry result parsed rule: gate_loop.induct)
  case (1 deps callId stage redactedText retry result parsed)
  have accept: "outcome (op_return (Accepted xr (vr_phrases (verbatimGate (xr_customer_language xr) redactedText)) a b))
      (gate_accepts deps redactedText)"
    if "scanPhrasesForResidual (xr_customer_language xr) (sd_denyTerms deps) = None" for xr a b
    using that by (intro outcome_intros) (simp add: gate_accepts_def)
  show ?case
    by (subst gate_loop.simps)
       (intro outcome_Let outcome_sum outcome_prod outcome_if outcome_option outcome_hold hold_outcomes accept outcome_bind 1;
        (assumption | rule refl)?)
qed


lemma upsertCandidate_live:
  assumes "distinct (map ec_call_id (extraction_candidates db))" "upsertExtractionCandidate pg c v db = (Inr row, db')"
  shows "\<exists>r. getExtractionCandidate c db' = Some r \<and> ec_payload r = v \<and> ec_pii_scan_status r = PS_pending"
proof (cases "sql_exists (\<lambda>r. ec_call_id r = c) (extraction_candidates db)")
  case False
  then have "filter (live_candidate c) (extraction_candidates db) = []"
    by (auto simp: sql_exists_def list_ex_iff live_candidate_def filter_empty_conv)
  then show ?thesis using assms(2) False
    by (auto simp: upsertExtractionCandidate_def getExtractionCandidate_def sql_select_def live_candidate_def new_candidate_def split: if_splits)
next
  case True
  let ?p = "\<lambda>r. ec_call_id r = c \<and> ec_hard_deleted_at r = None" and ?f = "replace_candidate v"
  have db': "extraction_candidates db' = sql_update ?p ?f (extraction_candidates db)" and ne: "sql_updated ?p ?f (extraction_candidates db) \<noteq> []"
    using assms(2) True by (auto simp: upsertExtractionCandidate_def Let_def split: if_splits option.splits)
  then obtain x where x: "x \<in> set (extraction_candidates db)" "?p x" by (auto simp: sql_updated_Nil)
  have "?f x \<in> set (extraction_candidates db')" using x by (auto simp: db' set_sql_update)
  moreover have "live_candidate c (?f x)" using x by (simp add: live_candidate_def replace_candidate_def)
  ultimately have "sql_select (live_candidate c) (extraction_candidates db') \<noteq> []" by (auto simp: sql_select_def filter_empty_conv)
  then obtain y where y: "getExtractionCandidate c db' = Some y" by (auto simp: getExtractionCandidate_def neq_Nil_conv)
  then have "y \<in> set (extraction_candidates db')" "live_candidate c y"
    using first_row_Some [of "sql_select (live_candidate c) (extraction_candidates db')" y] by (auto simp: getExtractionCandidate_def sql_select_def)
  then have "y \<in> ?f ` {r \<in> set (extraction_candidates db). ?p r}" unfolding db' set_sql_update live_candidate_def by blast
  then have "ec_payload y = v \<and> ec_pii_scan_status y = PS_pending" by (auto simp: replace_candidate_def)
  then show ?thesis using y by simp
qed

text \<open>A candidate that went through the gates of the extract stage on a clean transcript.\<close>

definition gated_candidate :: "stage_deps \<Rightarrow> string \<Rightarrow> extraction_candidate_row \<Rightarrow> bool" where
  "gated_candidate deps tx cand \<longleftrightarrow> ec_pii_scan_status cand = PS_pending
     \<and> (\<exists>xr. scanPhrasesForResidual (xr_customer_language xr) (sd_denyTerms deps) = None
          \<and> kp_customer_language (ec_payload cand) = fst (tokenGate (vr_phrases (verbatimGate (xr_customer_language xr) tx)))
          \<and> kp_urgency (ec_payload cand) = fst (emergencyRule xr tx))"

lemma persist_record_run:
  assumes "distinct (map ec_call_id (extraction_candidates db))"
    and "persist_record deps c tx xr phrases a b db = (res, db')"
    and "scanPhrasesForResidual (xr_customer_language xr) (sd_denyTerms deps) = None"
      "phrases = vr_phrases (verbatimGate (xr_customer_language xr) tx)"
  shows "length (model_invocations db') = length (model_invocations db)
    \<and> (case res of Inl e \<Rightarrow> extraction_candidates db' = extraction_candidates db
       | Inr result \<Rightarrow> \<exists>cand. getExtractionCandidate c db' = Some cand \<and> gated_candidate deps tx cand)"
proof -
  obtain ps n where t: "tokenGate phrases = (ps, n)" by fastforce
  obtain u ts where e: "emergencyRule xr tx = (u, ts)" by fastforce
  obtain r db1 where p: "upsertExtractionCandidate (sd_pg deps) c (candidate_payload deps xr ps u) db = (r, db1)" by fastforce
  have inv: "length (model_invocations db1) = length (model_invocations db)"
    using p by (auto simp: upsertExtractionCandidate_def Let_def split: if_splits option.splits)
  show ?thesis
  proof (cases r)
    case (Inl x)
    then have "extraction_candidates db1 = extraction_candidates db" "res = Inl (js_of_db x)" "db' = db1"
      using p assms(2) t e by (auto simp: upsertExtractionCandidate_def persist_record_def op_bind_def run_db_def Let_def split: if_splits option.splits)
    then show ?thesis using inv by simp
  next
    case (Inr row)
    then have "db' = db1" "\<not> isl res" using p assms(2) t e by (auto simp: persist_record_def op_bind_def op_return_def run_db_def Let_def)
    moreover have "\<exists>cand. getExtractionCandidate c db1 = Some cand \<and> ec_payload cand = candidate_payload deps xr ps u \<and> ec_pii_scan_status cand = PS_pending"
      using upsertCandidate_live [OF assms(1)] p Inr by blast
    ultimately show ?thesis using inv t e assms(3,4)
      by (cases res) (auto simp: gated_candidate_def candidate_payload_def intro!: exI [of _ xr])
  qed
qed


text \<open>What a run of the extract stage may have done, given the clean transcript it worked on.\<close>

definition extract_effect :: "stage_deps \<Rightarrow> string \<Rightarrow> db \<Rightarrow> js_error + stage_result \<Rightarrow> db \<Rightarrow> bool" where
  "extract_effect deps c db res db' \<longleftrightarrow>
     length (model_invocations db') \<le> length (model_invocations db) + 2
     \<and> (case res of
          Inr (SContinue d) \<Rightarrow>
            (\<exists>clean cand. getCleanTranscript c db = Some clean \<and> getExtractionCandidate c db' = Some cand
               \<and> gated_candidate deps (ct_redacted_text clean) cand)
        | _ \<Rightarrow> extraction_candidates db' = extraction_candidates db)"

lemma extract_effect_spent:
  "cost_of n db db' \<Longrightarrow> n \<le> 2 \<Longrightarrow> (case res of Inr (SContinue d) \<Rightarrow> False | _ \<Rightarrow> True) \<Longrightarrow> extract_effect deps c db res db'"
  by (auto simp: extract_effect_def cost_of_def split: sum.splits stage_result.splits)

lemma extract_gated:
  assumes "distinct (map ec_call_id (extraction_candidates db))" "getCleanTranscript c db0 = Some clean"
    and "extraction_candidates db = extraction_candidates db0" "length (model_invocations db) \<le> length (model_invocations db0)"
    and "op_bind (first_attempts deps c st (ct_redacted_text clean) res) (\<lambda>(retry, result, parsed).
       op_bind (gate_loop deps c st (ct_redacted_text clean) retry result parsed) (\<lambda>outcome.
       case outcome of
         GateHold h \<Rightarrow> op_return h
       | Accepted xr phrases snapped dropped \<Rightarrow> persist_record deps c (ct_redacted_text clean) xr phrases snapped dropped)) db = (out, db')"
  shows "extract_effect deps c db0 out db'"
proof -
  let ?tx = "ct_redacted_text clean"
  obtain r1 db1 where f: "first_attempts deps c st ?tx res db = (r1, db1)" by fastforce
  note c1 = first_attempts_cost [OF f]
  show ?thesis
  proof (cases r1)
    case (Inl e)
    then have "out = Inl e" "db' = db1" using f assms(5) by (simp_all add: op_bind_def)
    then show ?thesis using c1 Inl assms(3,4) by (auto simp: extract_effect_def cost_of_def)
  next
    case (Inr x)
    obtain retry result parsed where x: "x = (retry, result, parsed)" by (cases x) auto
    obtain r2 db2 where g: "gate_loop deps c st ?tx retry result parsed db1 = (r2, db2)" by fastforce
    have "retries_left retry \<le> 2" by (simp add: retries_left_def)
    then have c2: "cost_of 2 db db2" using cost_of_trans [OF c1 spendsD [OF spends_gate_loop g]] Inr x by simp
    have acc: "gate_accepts deps ?tx go" if "r2 = Inr go" for go
      using gate_loop_accepts [of deps c st ?tx retry result parsed] g that unfolding outcome_def by blast
    show ?thesis
    proof (cases "\<exists>xr phrases a b. r2 = Inr (Accepted xr phrases a b)")
      case True
      then obtain xr phrases a b where o: "r2 = Inr (Accepted xr phrases a b)" by blast
      then have p: "persist_record deps c ?tx xr phrases a b db2 = (out, db')" using f g Inr x assms(5) by (simp add: op_bind_def)
      have "distinct (map ec_call_id (extraction_candidates db2))" using assms(1) c2 by (simp add: cost_of_def)
      from persist_record_run [OF this p] acc [OF o]
      have "length (model_invocations db') = length (model_invocations db2)"
        "case out of Inl e \<Rightarrow> extraction_candidates db' = extraction_candidates db2
         | Inr _ \<Rightarrow> \<exists>cand. getExtractionCandidate c db' = Some cand \<and> gated_candidate deps ?tx cand"
        by (simp_all add: gate_accepts_def)
      moreover have "(case out of Inr r \<Rightarrow> (case r of SContinue d \<Rightarrow> True | _ \<Rightarrow> False) | _ \<Rightarrow> True)"
        using p by (auto simp: persist_record_def op_bind_def op_return_def run_db_def split: prod.splits sum.splits)
      ultimately show ?thesis using c2 assms(2,3,4)
        by (auto simp: extract_effect_def cost_of_def split: sum.splits stage_result.splits)
    next
      case False
      then have "db' = db2" "(case out of Inr r \<Rightarrow> (case r of SHold _ _ _ _ \<Rightarrow> True | _ \<Rightarrow> False) | _ \<Rightarrow> True)"
        using f g Inr x assms(5) acc
        by (auto simp: op_bind_def op_return_def gate_accepts_def split: sum.splits gate_outcome.splits)
      then show ?thesis using c2 assms(3,4)
        by (auto simp: extract_effect_def cost_of_def split: sum.splits stage_result.splits)
    qed
  qed
qed


lemma extract_effects:
  assumes "distinct (map ec_call_id (extraction_candidates db))" "createExtractHandler deps c st db = (out, db')"
  shows "extract_effect deps c db out db'"
proof -
  let ?pg = "sd_pg deps" and ?config = "sd_config deps" and ?st = "pipeline_stage_name st"
  note run = assms(2) [unfolded createExtractHandler_def Let_def]
  show ?thesis
  proof (cases "ENABLED (EXTRACT ?config)")
    case False
    have "spends 0 (op_bind (parkStageDisabled ?pg c ''extract'' EXTRACT_DISABLED_REASON) (\<lambda>_. op_return SDefer))"
      by (intro spends_intros)
    moreover have b: "op_bind (parkStageDisabled ?pg c ''extract'' EXTRACT_DISABLED_REASON) (\<lambda>_. op_return SDefer) db = (out, db')"
      using run False by simp
    ultimately have "cost_of 0 db db'" by (rule spendsD)
    moreover have "(case out of Inr (SContinue d) \<Rightarrow> False | _ \<Rightarrow> True)"
      using b by (auto simp: op_bind_def op_return_def split: prod.splits sum.splits)
    ultimately show ?thesis by (intro extract_effect_spent) auto
  next
    case True
    show ?thesis
    proof (cases "hasHardDeletedExtractionCandidate c db \<or> getLatestClassificationBucket ?pg c db \<noteq> Some CB_customer
        \<or> getCleanTranscript c db = None")
      case early: True
      then have "db' = db" "isl out" using run True by (auto simp: op_bind_def run_read_def op_throw_def split: if_splits option.splits)
      then show ?thesis by (cases out) (auto simp: extract_effect_def)
    next
      case False
      then obtain clean where clean: "getCleanTranscript c db = Some clean" by blast
      let ?tx = "ct_redacted_text clean"
      obtain r1 db1 where r: "reserve deps (extract_cost deps (buildExtractUserMessage ?tx)) db = (r1, db1)" by fastforce
      note c1 = spendsD [OF spends_reserve [where n = 0] r]
      consider (error) e where "r1 = Inl e" | (cap) "r1 = Inr None" | (ok) res where "r1 = Inr (Some res)"
        by (metis sum.exhaust option.exhaust)
      then show ?thesis
      proof cases
        case error
        then have "out = Inl e" "db' = db1" using run True False clean r by (auto simp: op_bind_def run_read_def)
        then show ?thesis using c1 by (intro extract_effect_spent) auto
      next
        case cap
        let ?hold = "op_bind (recordStageAlert ?pg c ?st ?config MODEL_COST_CAP_EXCEEDED PST_paused [] None)
          (\<lambda>_. op_return (SHold HR_cost_cap_held (Some MODEL_COST_CAP_EXCEEDED) None None))"
        have h: "?hold db1 = (out, db')" using cap run True False clean r by (simp add: op_bind_def run_read_def)
        have "spends 0 ?hold" by (intro spends_intros)
        from spendsD [OF this h] have "cost_of (0 + 0) db db'" by (rule cost_of_trans [OF c1])
        moreover have "(case out of Inr (SContinue d) \<Rightarrow> False | _ \<Rightarrow> True)"
          using h by (auto simp: op_bind_def op_return_def split: prod.splits sum.splits)
        ultimately show ?thesis by (intro extract_effect_spent) auto
      next
        case ok
        obtain r2 db2 where w: "emitCostWarningIfReached ?pg ?st ?config res None db1 = (r2, db2)" by fastforce
        have c2: "cost_of (0 + 0) db db2" using cost_of_trans [OF c1 spendsD [OF spends_warning [where n = 0] w]] .
        show ?thesis
        proof (cases r2)
          case (Inl e)
          then have "out = Inl e" "db' = db2" using ok w run True False clean r by (auto simp: op_bind_def run_read_def)
          then show ?thesis using c2 by (intro extract_effect_spent) auto
        next
          case (Inr u)
          have same: "extraction_candidates db2 = extraction_candidates db" "length (model_invocations db2) \<le> length (model_invocations db)"
            using c2 by (simp_all add: cost_of_def)
          have d2: "distinct (map ec_call_id (extraction_candidates db2))" using assms(1) same by simp
          show ?thesis
            by (rule extract_gated [OF d2 clean same, where st = st and res = res])
               (use ok w Inr run True False clean r in \<open>simp add: op_bind_def run_read_def\<close>)
        qed
      qed
    qed
  qed
qed


section \<open>The second scan and the store\<close>

definition passes_gates :: "stage_deps \<Rightarrow> string \<Rightarrow> string list \<Rightarrow> bool" where
  "passes_gates deps tx phrases \<longleftrightarrow>
     scanPhrasesForResidual phrases (sd_denyTerms deps) = None \<and> snd (tokenGate phrases) = 0
     \<and> vr_snappedCount (verbatimGate phrases tx) + vr_droppedCount (verbatimGate phrases tx) = 0"

lemma first_live_update:
  assumes "\<And>r. live_candidate c (f r) = live_candidate c r"
  shows "first_row (sql_select (live_candidate c) (sql_update p f t)) =
    map_option (\<lambda>r. if p r then f r else r) (first_row (sql_select (live_candidate c) t))"
proof -
  have "filter (live_candidate c) (map (\<lambda>r. if p r then f r else r) t)
      = map (\<lambda>r. if p r then f r else r) (filter (live_candidate c) t)"
    using assms by (induction t) auto
  then show ?thesis by (cases "filter (live_candidate c) t") (simp_all add: sql_select_def sql_update_def)
qed

lemma candidate_mem: "getExtractionCandidate c db = Some cand \<Longrightarrow> cand \<in> set (extraction_candidates db) \<and> live_candidate c cand"
  using first_row_Some [of "sql_select (live_candidate c) (extraction_candidates db)" cand]
  by (auto simp: getExtractionCandidate_def sql_select_def)

lemma fail_keeps_live [simp]: "live_candidate c (fail_candidate pg f r) = live_candidate c r"
  by (simp add: live_candidate_def fail_candidate_def)

lemma mark_failed_run:
  assumes "getExtractionCandidate c db = Some cand" "pii_scan_failure_ok f"
  obtains db' where "mark_failed deps c f db = (Inr (), db')"
    "getExtractionCandidate c db' = Some (fail_candidate (sd_pg deps) f cand)"
    "structured_knowledge db' = structured_knowledge db"
proof -
  have "sql_updated (live_candidate c) (fail_candidate (sd_pg deps) f) (extraction_candidates db) \<noteq> []"
    using candidate_mem [OF assms(1)] by (auto simp: sql_updated_Nil)
  then obtain x xs where u: "sql_updated (live_candidate c) (fail_candidate (sd_pg deps) f) (extraction_candidates db) = x # xs"
    by (auto simp: neq_Nil_conv)
  let ?db = "db\<lparr>extraction_candidates := sql_update (live_candidate c) (fail_candidate (sd_pg deps) f) (extraction_candidates db)\<rparr>"
  have "mark_failed deps c f db = (Inr (), ?db)"
    using assms(2) u by (simp add: mark_failed_def markPiiScanFailed_def op_bind_def op_return_def run_db_def)
  moreover have "getExtractionCandidate c ?db = Some (fail_candidate (sd_pg deps) f cand)"
    using assms(1) candidate_mem [OF assms(1)] by (simp add: getExtractionCandidate_def first_live_update)
  ultimately show thesis by (intro that [of ?db]) auto
qed

lemma alert_frame:
  "recordStageAlert pg c st config code state extra co db = (r, db') \<Longrightarrow>
   extraction_candidates db' = extraction_candidates db \<and> structured_knowledge db' = structured_knowledge db"
  by (auto simp: recordStageAlert_def createFailure_op_def op_bind_def op_return_def op_throw_def run_db_def recordAlert_def
      recordAlertWithInsertStatus_def Let_def split: option.splits sum.splits prod.splits if_splits)

text \<open>Both holds of the scan return a hold and write alerts only.\<close>

lemma scan_holds:
  "\<exists>reason code d db'. residual_hold deps c st counts db = (Inr (SHold reason code d None), db')
     \<and> extraction_candidates db' = extraction_candidates db \<and> structured_knowledge db' = structured_knowledge db"
  "\<exists>reason code d db'. malformedHold deps c st gate md db = (Inr (SHold reason code d None), db')
     \<and> extraction_candidates db' = extraction_candidates db \<and> structured_knowledge db' = structured_knowledge db"
proof -
  have r: "extraction_candidates (snd (recordStageAlert pg c s config code state extra co db)) = extraction_candidates db"
    "structured_knowledge (snd (recordStageAlert pg c s config code state extra co db)) = structured_knowledge db"
    for pg s config code state extra co
    using alert_frame [of pg c s config code state extra co db] by (metis prod.collapse)+
  show "\<exists>reason code d db'. residual_hold deps c st counts db = (Inr (SHold reason code d None), db')
     \<and> extraction_candidates db' = extraction_candidates db \<and> structured_knowledge db' = structured_knowledge db"
    by (simp add: residual_hold_def recordVerbatimPiiDetectedAlertResilient_def resilientSideEffect_def op_bind_def op_return_def r)
  show "\<exists>reason code d db'. malformedHold deps c st gate md db = (Inr (SHold reason code d None), db')
     \<and> extraction_candidates db' = extraction_candidates db \<and> structured_knowledge db' = structured_knowledge db"
    by (simp add: malformedHold_def resilientSideEffect_def op_bind_def op_return_def r)
qed


text \<open>A pending candidate that fails a gate is marked and held.\<close>

lemma mark_and_hold:
  assumes "getExtractionCandidate c db = Some cand" "pii_scan_failure_ok f"
    and "\<And>db. \<exists>reason code d db'. hold db = (Inr (SHold reason code d None), db')
     \<and> extraction_candidates db' = extraction_candidates db \<and> structured_knowledge db' = structured_knowledge db"
  shows "\<exists>reason code d db'. op_bind (mark_failed deps c f) (\<lambda>_. hold) db = (Inr (SHold reason code d None), db')
    \<and> getExtractionCandidate c db' = Some (fail_candidate (sd_pg deps) f cand) \<and> structured_knowledge db' = structured_knowledge db"
proof -
  obtain db1 where m: "mark_failed deps c f db = (Inr (), db1)"
    "getExtractionCandidate c db1 = Some (fail_candidate (sd_pg deps) f cand)" "structured_knowledge db1 = structured_knowledge db"
    using mark_failed_run [OF assms(1,2)] by blast
  obtain reason code d db2 where h: "hold db1 = (Inr (SHold reason code d None), db2)"
    "extraction_candidates db2 = extraction_candidates db1" "structured_knowledge db2 = structured_knowledge db1"
    using assms(3) by blast
  then have "getExtractionCandidate c db2 = Some (fail_candidate (sd_pg deps) f cand)"
    using m(2) by (simp add: getExtractionCandidate_def)
  then show ?thesis using m h by (auto simp: op_bind_def)
qed

lemma scan_start:
  assumes "getExtractionCandidate c db = Some cand" "ec_pii_scan_status cand \<noteq> PS_failed" "getCleanTranscript c db = Some clean"
  shows "createVerbatimPiiScanHandler deps c st db =
    (let phrases = kp_customer_language (ec_payload cand) in
     (case scanPhrasesForResidual phrases (sd_denyTerms deps) of
        Some counts \<Rightarrow> op_bind (mark_failed deps c (ResidualPii counts)) (\<lambda>_. residual_hold deps c st counts)
      | None \<Rightarrow>
          let droppedCount = snd (tokenGate phrases); vb = verbatimGate phrases (ct_redacted_text clean);
              nonVerbatimCount = vr_snappedCount vb + vr_droppedCount vb
          in if droppedCount > 0 then
               op_bind (mark_failed deps c (TokenedPhrase droppedCount)) (\<lambda>_.
               malformedHold deps c st PK_tokened_phrase [(''dropped_count'', droppedCount)])
             else if nonVerbatimCount > 0 then
               op_bind (mark_failed deps c (VerbatimMismatch nonVerbatimCount (length phrases))) (\<lambda>_.
               malformedHold deps c st PK_verbatim_mismatch
                 [(''mismatch_count'', nonVerbatimCount), (''phrase_count'', length phrases)])
             else latch_passed deps c st phrases)) db"
  using assms by (simp add: createVerbatimPiiScanHandler_def op_bind_def run_read_def Let_def)

lemma scan_fails:
  assumes "getExtractionCandidate c db = Some cand" "ec_pii_scan_status cand \<noteq> PS_failed" "getCleanTranscript c db = Some clean"
    and "\<not> passes_gates deps (ct_redacted_text clean) (kp_customer_language (ec_payload cand))"
  shows "\<exists>reason code d db' f. createVerbatimPiiScanHandler deps c st db = (Inr (SHold reason code d None), db')
    \<and> getExtractionCandidate c db' = Some (fail_candidate (sd_pg deps) f cand) \<and> structured_knowledge db' = structured_knowledge db"
proof -
  let ?ps = "kp_customer_language (ec_payload cand)"
  note start = scan_start [OF assms(1-3), of deps st, unfolded Let_def]
  show ?thesis
  proof (cases "scanPhrasesForResidual ?ps (sd_denyTerms deps)")
    case (Some counts)
    have "pii_scan_failure_ok (ResidualPii counts)" using phrase_scan_correct [where phrases = ?ps and denyTerms = "sd_denyTerms deps"] Some by simp
    from mark_and_hold [where hold = "residual_hold deps c st counts", OF assms(1) this scan_holds(1)]
    show ?thesis unfolding start Some by (simp only: option.case) blast
  next
    case None
    have ok: "pii_scan_failure_ok (TokenedPhrase a)" "pii_scan_failure_ok (VerbatimMismatch a b)" for a b
      by (simp_all add: pii_scan_failure_ok_def)
    show ?thesis
    proof (cases "snd (tokenGate ?ps) > 0")
      case True
      then show ?thesis unfolding start None
        using mark_and_hold [where hold = "malformedHold deps c st gate md" for gate md, OF assms(1) ok(1) scan_holds(2)]
        by (simp only: option.case if_True) blast
    next
      case False
      then have "vr_snappedCount (verbatimGate ?ps (ct_redacted_text clean)) + vr_droppedCount (verbatimGate ?ps (ct_redacted_text clean)) > 0"
        using assms(4) None by (auto simp: passes_gates_def)
      then show ?thesis unfolding start None
        using False mark_and_hold [where hold = "malformedHold deps c st gate md" for gate md, OF assms(1) ok(2) scan_holds(2)]
        by (simp only: option.case if_False if_True) blast
    qed
  qed
qed

lemma scan_passes:
  assumes "getExtractionCandidate c db = Some cand" "ec_pii_scan_status cand \<noteq> PS_failed" "getCleanTranscript c db = Some clean"
    and "passes_gates deps (ct_redacted_text clean) (kp_customer_language (ec_payload cand))"
  shows "\<exists>db'. createVerbatimPiiScanHandler deps c st db = (Inr (scan_continue (kp_customer_language (ec_payload cand))), db')
    \<and> getExtractionCandidate c db' = Some (cand\<lparr>ec_pii_scan_status := PS_passed\<rparr>) \<and> structured_knowledge db' = structured_knowledge db
    \<and> clean_transcripts db' = clean_transcripts db"
proof -
  let ?ps = "kp_customer_language (ec_payload cand)"
  let ?p = "\<lambda>r. live_candidate c r \<and> ec_pii_scan_status r = PS_pending" and ?f = "\<lambda>r. r\<lparr>ec_pii_scan_status := PS_passed\<rparr>"
  let ?db = "db\<lparr>extraction_candidates := sql_update ?p ?f (extraction_candidates db)\<rparr>"
  have run: "createVerbatimPiiScanHandler deps c st db = latch_passed deps c st ?ps db"
    using assms(4) scan_start [OF assms(1-3), of deps st] by (simp add: passes_gates_def Let_def)
  have status: "ec_pii_scan_status cand = PS_pending \<or> ec_pii_scan_status cand = PS_passed" using assms(2) by (cases "ec_pii_scan_status cand") auto
  have "getExtractionCandidate c ?db = Some (if ?p cand then ?f cand else cand)"
    using assms(1) by (simp add: getExtractionCandidate_def first_live_update live_candidate_def)
  moreover have "(if ?p cand then ?f cand else cand) = cand\<lparr>ec_pii_scan_status := PS_passed\<rparr>"
    using status candidate_mem [OF assms(1)] by auto
  ultimately have after: "getExtractionCandidate c ?db = Some (cand\<lparr>ec_pii_scan_status := PS_passed\<rparr>)" by simp
  have "latch_passed deps c st ?ps db = (Inr (scan_continue ?ps), ?db)"
    using after by (cases "first_row (sql_updated ?p ?f (extraction_candidates db))")
      (simp_all add: latch_passed_def markPiiScanPassed_def op_bind_def op_return_def run_read_def Let_def)
  then show ?thesis using run after by simp
qed

lemma scan_continues:
  assumes "createVerbatimPiiScanHandler deps c st db = (Inr (SContinue d), db')"
  obtains cand clean where "getExtractionCandidate c db = Some cand" "ec_pii_scan_status cand \<noteq> PS_failed"
    "getCleanTranscript c db = Some clean"
proof (cases "getExtractionCandidate c db")
  case None
  then show thesis using assms by (simp add: createVerbatimPiiScanHandler_def op_bind_def run_read_def op_throw_def)
next
  case (Some cand)
  have "malformedHold deps c st gate md db \<noteq> (Inr (SContinue d), db')" for gate md
    using scan_holds(2) [of deps c st gate md db] by auto
  moreover have "residual_hold deps c st counts db \<noteq> (Inr (SContinue d), db')" for counts
    using scan_holds(1) [of deps c st counts db] by auto
  ultimately have "failedMarkerHold deps c st kind counts db \<noteq> (Inr (SContinue d), db')" for kind counts
    by (auto simp: failedMarkerHold_def Let_def op_throw_def split: option.split pii_scan_failure_kind.split)
  then have "ec_pii_scan_status cand \<noteq> PS_failed"
    using assms Some by (auto simp: createVerbatimPiiScanHandler_def op_bind_def run_read_def)
  moreover have "getCleanTranscript c db \<noteq> None"
  proof
    assume "getCleanTranscript c db = None"
    then show False using assms Some calculation by (simp add: createVerbatimPiiScanHandler_def op_bind_def run_read_def op_throw_def)
  qed
  ultimately show thesis using that Some by blast
qed

lemma upsert_knowledge:
  assumes "upsertStructuredKnowledge pg c v db = (Inr row, db')"
  shows "\<exists>k. getStructuredKnowledge c db' = Some k \<and> sk_payload k = v"
proof (cases "filter (\<lambda>r. sk_call_id r = c) (structured_knowledge db)")
  case Nil
  then show ?thesis using assms
    by (auto simp: upsertStructuredKnowledge_def Let_def sql_updated_def getStructuredKnowledge_def sql_select_def split: if_splits)
next
  case (Cons x xs)
  then have "x \<in> set (filter (\<lambda>r. sk_call_id r = c) (structured_knowledge db))" by simp
  then have x: "sk_call_id x = c" by simp
  have upd: "first_row (sql_select (\<lambda>r. sk_call_id r = c) (sql_update (\<lambda>r. sk_call_id r = c) (\<lambda>r. r\<lparr>sk_payload := v\<rparr>) (structured_knowledge db)))
      = Some (x\<lparr>sk_payload := v\<rparr>)"
    using Cons x by (subst first_row_update) (simp_all add: sql_select_def)
  then show ?thesis using assms Cons
    by (auto simp: upsertStructuredKnowledge_def Let_def sql_updated_def getStructuredKnowledge_def split: if_splits)
qed

lemma store_run:
  "case storeHandler deps c db of
     (Inl e, db') \<Rightarrow> structured_knowledge db' = structured_knowledge db
   | (Inr r, db') \<Rightarrow> \<exists>cand k. getExtractionCandidate c db = Some cand \<and> ec_pii_scan_status cand = PS_passed
       \<and> getStructuredKnowledge c db' = Some k \<and> sk_payload k = ec_payload cand"
proof (cases "getExtractionCandidate c db")
  case None
  then show ?thesis by (simp add: storeHandler_def op_bind_def run_read_def op_throw_def)
next
  case (Some cand)
  have id: "ec_call_id cand = c" using candidate_mem [OF Some] by (simp add: live_candidate_def)
  show ?thesis
  proof (cases "ec_pii_scan_status cand = PS_passed")
    case False
    then show ?thesis using Some by (simp add: storeHandler_def op_bind_def run_read_def op_throw_def)
  next
    case True
    obtain r db1 where u: "upsertStructuredKnowledge (sd_pg deps) c (ec_payload cand) db = (r, db1)" by fastforce
    show ?thesis
    proof (cases r)
      case (Inl e)
      then have "structured_knowledge db1 = structured_knowledge db"
        using u by (auto simp: upsertStructuredKnowledge_def Let_def split: if_splits option.splits)
      then show ?thesis using Inl u True Some id by (simp add: storeHandler_def op_bind_def run_read_def run_db_def)
    next
      case (Inr row)
      have "\<exists>k. getStructuredKnowledge c db1 = Some k \<and> sk_payload k = ec_payload cand"
        using upsert_knowledge u Inr by blast
      then show ?thesis using Inr u True Some id
        by (simp add: storeHandler_def op_bind_def run_read_def run_db_def run_write_def op_return_def
            markExtractionCandidateRetentionEligible_def getStructuredKnowledge_def)
    qed
  qed
qed

end
