(* ===== verification/Pipeline_Properties.thy ===== *)
theory Pipeline_Properties
  imports Pipeline_Correct Storage_Properties Review_Correct
begin

text \<open>
  The properties of the whole pipeline, with the concrete dependencies and databases they are instantiated on.
\<close>

section \<open>Samples\<close>

definition sample_model :: model_config where
  "sample_model = \<lparr>ENABLED = True, MODEL_ID = ''model'', MAX_TOKENS = 1024, INPUT_TOKENS_CEILING = 8000,
     RESERVATION_OVERHEAD_TOKENS = 64, COST_RATES = \<lparr>inputUsdPerMtok = 1, outputUsdPerMtok = 5\<rparr>\<rparr>"

definition sample_config :: stage_config where
  "sample_config = \<lparr>NODE_ENV = ''test'', PREFILTER_MIN_DURATION_MS = 0, DIALPAD_TRANSCRIPT_WAIT_MAX_MS = 3600000,
     DIALPAD_TRANSCRIPT_POLL_MS = 60000,
     DAILY_COST = \<lparr>DAILY_MODEL_COST_CAP_USD = 10, DAILY_MODEL_COST_WARNING_THRESHOLD_RATIO = 4 / 5\<rparr>,
     CLASSIFY = sample_model, EXTRACT = sample_model\<rparr>"

definition sample_stage_deps :: stage_deps where
  "sample_stage_deps = \<lparr>sd_pg = sample_pg, sd_config = sample_config, sd_now = 2000,
     sd_fetchTranscript = (\<lambda>_. Inr (TR_ready ''water heater leaks'' None)), sd_encrypt = (\<lambda>_ t. (t, 1)), sd_digest = (\<lambda>s. s),
     sd_queue_refuses = (\<lambda>_. None),
     sd_classify = (\<lambda>_ _. Inl (ModelApiError MK_transient BD_maybe_billed None)),
     sd_extract = (\<lambda>_ _. Inl (ModelApiError MK_transient BD_maybe_billed None)),
     sd_json_parse = (\<lambda>_. None), sd_zod_issues = (\<lambda>_. []), sd_denyTerms = [''acme'']\<rparr>"

definition sample_redaction :: redaction_deps where
  "sample_redaction = \<lparr>red_stage = sample_stage_deps, red_decrypt = (\<lambda>_ t _. t), red_valueHash = (\<lambda>_ v. v),
     red_ner = \<lparr>nc_minScore = 1 / 2, nc_chunkChars = 1000, nc_chunkOverlapChars = 100, nc_entityScope = [NS_person]\<rparr>,
     red_pipe = (\<lambda>_. Inr []), REDACTION_RISK_THRESHOLD = 1 / 2\<rparr>"

definition sample_payload :: knowledge_payload where
  "sample_payload = \<lparr>kp_call_intent = CI_new_booking, kp_service_category = SC_water_heater,
     kp_problem_statement = Some ''leak'', kp_symptoms = [], kp_customer_language = [''water heater leaks''],
     kp_location_in_home = None, kp_access_or_scheduling_notes = None, kp_prior_attempts = None, kp_urgency = UR_routine,
     kp_concerns = [], kp_sentiment = SE_neutral, kp_acquisition_source = None, kp_competitor_mentions = [],
     kp_schema_version = 1, kp_prompt_version = ''v1'', kp_model_id = ''model''\<rparr>"

definition sample_clean :: clean_transcript_row where
  "sample_clean = \<lparr>ct_call_id = ''c1'', ct_redacted_text = ''the water heater leaks'', ct_redaction_risk_score = 0,
     ct_redaction_reasons = [], ct_created_at = 0, ct_retention_eligible_at = Some 0, ct_soft_deleted_at = None,
     ct_hard_deleted_at = None\<rparr>"

definition scan_db :: db where
  "scan_db = empty_db\<lparr>clean_transcripts := [sample_clean],
     extraction_candidates := [new_candidate sample_pg ''c1'' sample_payload]\<rparr>"

definition raw_db :: db where
  "raw_db = empty_db\<lparr>raw_transcripts := [\<lparr>rt_call_id = ''c1'', rt_ciphertext = ''water heater leaks'', rt_key_version = 1,
     rt_fetched_at = 0, rt_retention_eligible_at = None, rt_soft_deleted_at = None, rt_hard_deleted_at = None\<rparr>]\<rparr>"

lemma processing_spine_ok: "spine_ok (processing_db stage)"
proof -
  have "stage \<in> set PIPELINE_STAGES" by (cases stage) (simp_all add: PIPELINE_STAGES_def)
  then show ?thesis
    by (auto simp: spine_ok_def processing_db_def empty_db_def sample_call_def call_view_def view_ok_def isPipelineStage_def
      CALL_STATE_STATUSES_def STATUS_PROCESSING_def STATUS_COMPLETED_def STATUS_SKIPPED_def STATUS_HELD_def STATUS_REVIEW_CLOSED_def)
qed

lemma processing_view_some: "view ''c1'' (processing_db stage) = Some (pipeline_stage_name stage, STATUS_PROCESSING, None)"
  by (simp add: view_def getCallState_def processing_db_def empty_db_def sample_call_def call_view_def sql_select_def)

section \<open>The run of a call\<close>

text \<open>C2: The production pipeline follows its state machine.  A run of a seeded call on a consistent database, with the
  production handlers and whatever the model, Dialpad, the NER model and the queue answer, moves the call
  only along the edges advance, complete, skip and hold, writes exactly one completed log row per stage it passes, in order,
  leaves every other call undisturbed and the database consistent; a run that ends in an error left the call processing
  at a stage, and the error is a failed handler or a refused write.\<close>

theorem production_run:
  assumes "db_ok db" "spine_ok db" "view c db \<noteq> None"
  shows "case runPipeline pg sla (productionHandlers deps) c db of
     (res, db') \<Rightarrow> moves c db db'
       \<and> (case res of Inr u \<Rightarrow> True
          | Inl e \<Rightarrow> ordinary_error e \<and> (\<exists>j d. j \<le> 8 \<and> view c db' = Some (stage_at j, STATUS_PROCESSING, d)))"
proof -
  obtain res db' where run: "runPipeline pg sla (productionHandlers deps) c db = (res, db')" by fastforce
  note r = redaction.production.runPipeline_moves [OF assms run [unfolded productionHandlers_def]]
  show ?thesis using r run by (cases res) auto
qed

theorem production_run_witness:
  "case runPipeline sample_pg (\<lambda>_. 60) (productionHandlers sample_redaction) ''c1'' (processing_db ST_redact) of
     (res, db') \<Rightarrow> moves ''c1'' (processing_db ST_redact) db'"
  using production_run [OF processing_db_ok processing_spine_ok, of "''c1''" ST_redact sample_pg "\<lambda>_. 60" sample_redaction]
  by (auto simp: processing_view_some split: prod.splits)

text \<open>A call at rest stays at rest.  When a production run leaves a call completed, skipped, held or closed, running it
  again, at any later time, returns at once and changes nothing.\<close>

lemma production_rerun:
  assumes "db_ok db" "spine_ok db" "view c db \<noteq> None"
  shows "case runPipeline pg sla (productionHandlers deps) c db of
     (res, db') \<Rightarrow> (case view c db' of
        None \<Rightarrow> False
      | Some (s, st, d) \<Rightarrow> if st = STATUS_PROCESSING then True
          else runPipeline pg' sla' (productionHandlers deps) c db' = (Inr (), db'))"
proof -
  obtain res db' where run: "runPipeline pg sla (productionHandlers deps) c db = (res, db')" by fastforce
  note m = redaction.production.runPipeline_moves(1) [OF assms run [unfolded productionHandlers_def]]
  then obtain s st d where v: "view c db' = Some (s, st, d)" unfolding moves_def by (metis prod_cases3)
  show ?thesis
  proof (cases "st = STATUS_PROCESSING")
    case False
    from redaction.production.runPipeline_again [OF assms run [unfolded productionHandlers_def] v False] show ?thesis
      using run v by (simp add: productionHandlers_def)
  qed (use run v in simp)
qed

section \<open>What the stages store\<close>

text \<open>The prefilter fails open.  Metadata that does not have the expected shape is passed on, and a call is dropped only for a
  stated reason: no duration, a state that is no conversation, a duration up to a configured minimum, or, for an internal call,
  another operator's leg or an outbound direction.\<close>

lemma prefilter_fails_open:
  "case evaluateMetadata c md minimum of
     None \<Rightarrow> True
   | Some reason \<Rightarrow> (case callMetadataSchema md of
        None \<Rightarrow> False
      | Some m \<Rightarrow>
          (case reason of
             DR_zero_duration \<Rightarrow> (\<exists>d. cm_duration m = Some d \<and> d \<le> 0)
           | DR_non_conversation_call_state \<Rightarrow> (\<exists>s. cm_state m = Some s \<and> toLowerCase s \<in> set NON_CONVERSATION_STATES)
           | DR_below_minimum_duration \<Rightarrow> (\<exists>d k. cm_duration m = Some d \<and> minimum = Some k \<and> 0 < d \<and> d \<le> k)
           | DR_internal_transfer_non_operator_leg \<Rightarrow> cm_is_internal m = Some True \<and> (\<exists>x. cm_operator_call_id m = Some x \<and> x \<noteq> c)
           | DR_outbound_no_customer_conversation \<Rightarrow>
               cm_is_internal m = Some True \<and> (\<exists>d. cm_direction m = Some d \<and> toLowerCase d = ''outbound'')
           | _ \<Rightarrow> False))"
  by (auto simp: evaluateMetadata_def Let_def split: option.splits if_splits)

text \<open>C26: Extract stores only what its gates accepted.  Whatever the model answers, a run of the extract stage records at most two model
  invocations; it continues only with a pending candidate whose phrases are the token-free phrases the verbatim gate recovered from
  the clean transcript for a record whose phrases had no residual hit, and whose urgency is the one of the emergency rule; and
  a hold, a deferral or an error leaves every candidate as it was.\<close>

theorem extract_stores_gated:
  assumes "distinct (map ec_call_id (extraction_candidates db))"
  shows "case createExtractHandler deps c ST_extract db of
     (res, db') \<Rightarrow>
       length (model_invocations db') \<le> length (model_invocations db) + 2
       \<and> (case res of
            Inr (SContinue d) \<Rightarrow>
              (\<exists>clean cand. getCleanTranscript c db = Some clean \<and> getExtractionCandidate c db' = Some cand
                 \<and> gated_candidate deps (ct_redacted_text clean) cand)
          | _ \<Rightarrow> extraction_candidates db' = extraction_candidates db)"
  using extract_effects [OF assms, of deps c ST_extract] by (cases "createExtractHandler deps c ST_extract db") (simp add: extract_effect_def)

theorem extract_stores_gated_witness:
  "case createExtractHandler sample_stage_deps ''c1'' ST_extract scan_db of
     (res, db') \<Rightarrow> length (model_invocations db') \<le> 2"
  using extract_stores_gated [where db = scan_db and deps = sample_stage_deps and c = "''c1''"] by (auto simp: scan_db_def empty_db_def split: prod.splits)

text \<open>The second scan decides every candidate.  For a candidate that has not failed and a clean transcript, the stage
  continues and latches the candidate as passed exactly when its phrases have no residual hit, no token and are all verbatim in the
  transcript; otherwise it marks the candidate failed, which empties its phrases, and holds the call.\<close>

lemma scan_decides:
  assumes "getExtractionCandidate c db = Some cand" "ec_pii_scan_status cand \<noteq> PS_failed" "getCleanTranscript c db = Some clean"
  shows "if passes_gates deps (ct_redacted_text clean) (kp_customer_language (ec_payload cand))
    then \<exists>db'. createVerbatimPiiScanHandler deps c st db = (Inr (scan_continue (kp_customer_language (ec_payload cand))), db')
        \<and> getExtractionCandidate c db' = Some (cand\<lparr>ec_pii_scan_status := PS_passed\<rparr>)
    else \<exists>reason code d db' f. createVerbatimPiiScanHandler deps c st db = (Inr (SHold reason code d None), db')
        \<and> getExtractionCandidate c db' = Some (fail_candidate (sd_pg deps) f cand)"
proof (cases "passes_gates deps (ct_redacted_text clean) (kp_customer_language (ec_payload cand))")
  case True
  then show ?thesis using scan_passes [OF assms, of deps st] by auto
next
  case False
  then show ?thesis using scan_fails [OF assms, of deps st] by (simp only: if_False) blast
qed

lemma scan_db_rows:
  "getExtractionCandidate ''c1'' scan_db = Some (new_candidate sample_pg ''c1'' sample_payload)"
  "getCleanTranscript ''c1'' scan_db = Some sample_clean"
  by (simp_all add: scan_db_def empty_db_def getExtractionCandidate_def getCleanTranscript_def sql_select_def live_candidate_def
      live_clean_def new_candidate_def sample_clean_def)

text \<open>C3: Only scanned phrases reach the knowledge base.  When the scan stage continues and the store stage runs next, the stored
  knowledge is the payload of the scanned candidate, and its phrases have no residual hit, no token and are verbatim in the clean
  transcript; when store fails, the knowledge base is unchanged.\<close>

theorem stored_knowledge_scanned:
  "case createVerbatimPiiScanHandler deps c ST_verbatim_pii_scan db of
     (Inr (SContinue d), db1) \<Rightarrow>
       (case storeHandler deps c db1 of
          (Inl e, db2) \<Rightarrow> structured_knowledge db2 = structured_knowledge db
        | (Inr r, db2) \<Rightarrow>
            (\<exists>clean cand k. getCleanTranscript c db = Some clean \<and> getExtractionCandidate c db = Some cand
               \<and> getStructuredKnowledge c db2 = Some k \<and> sk_payload k = ec_payload cand
               \<and> passes_gates deps (ct_redacted_text clean) (kp_customer_language (sk_payload k))))
   | _ \<Rightarrow> True"
proof -
  obtain res db1 where run: "createVerbatimPiiScanHandler deps c ST_verbatim_pii_scan db = (res, db1)" by fastforce
  show ?thesis
  proof (cases "\<exists>d. res = Inr (SContinue d)")
    case True
    then obtain d where d: "res = Inr (SContinue d)" by blast
    obtain cand clean where cc: "getExtractionCandidate c db = Some cand" "ec_pii_scan_status cand \<noteq> PS_failed"
        "getCleanTranscript c db = Some clean"
      using scan_continues [OF run [unfolded d]] by blast
    have p: "passes_gates deps (ct_redacted_text clean) (kp_customer_language (ec_payload cand))"
      using scan_fails [OF cc, of deps ST_verbatim_pii_scan] run d by auto
    from scan_passes [OF cc p, of ST_verbatim_pii_scan]
    have "getExtractionCandidate c db1 = Some (cand\<lparr>ec_pii_scan_status := PS_passed\<rparr>)" "structured_knowledge db1 = structured_knowledge db"
      using run by auto
    then show ?thesis using run d cc p store_run [where deps = deps and c = c and db = db1] by (auto split: prod.splits sum.splits)
  next
    case False
    then show ?thesis using run by (auto split: sum.splits stage_result.splits)
  qed
qed


section \<open>The privacy boundary\<close>

text \<open>C1: The privacy boundary of redaction, end to end.  After the redact stage ran on a call whose raw transcript is present, a
  clean transcript that is readable is the tokenized text of the composition of that transcript, and the residual scan of
  it with the vaulted values and the deny list finds nothing.  The stage continues only with such a row, every other result is
  one of its two holds, and an error leaves such a row or the one that was there before.\<close>

theorem redact_boundary:
  assumes "distinct (map ct_call_id (clean_transcripts db))" "getTranscript (red_decrypt deps) c db \<noteq> None"
  shows "(case createRedactionHandler deps c db of
       (Inl e, db') \<Rightarrow>
         (case getCleanTranscript c db' of None \<Rightarrow> True | Some row \<Rightarrow> getCleanTranscript c db = Some row \<or> clean_row_safe deps c db row)
     | (Inr result, db') \<Rightarrow>
         (case getCleanTranscript c db' of
            None \<Rightarrow> (case result of SHold reason code d k \<Rightarrow> reason = HR_residual_pii_detected \<or> reason = HR_redaction_failed | _ \<Rightarrow> False)
          | Some row \<Rightarrow> clean_row_safe deps c db row))"
  by (rule redact_boundary_lemma [OF assms])

theorem redact_boundary_witness:
  "case createRedactionHandler sample_redaction ''c1'' raw_db of
     (Inr (SContinue d), db') \<Rightarrow> getCleanTranscript ''c1'' db' \<noteq> None | _ \<Rightarrow> True"
proof -
  have "distinct (map ct_call_id (clean_transcripts raw_db))" "getTranscript (red_decrypt sample_redaction) ''c1'' raw_db \<noteq> None"
    by (simp_all add: raw_db_def empty_db_def getTranscript_def sql_select_def live_raw_def sample_redaction_def)
  from redact_boundary [OF this] show ?thesis by (auto split: prod.splits sum.splits option.splits stage_result.splits)
qed


section \<open>Two calls no reviewer can resolve\<close>

text \<open>C39: A candidate the second scan rejects as not verbatim or tokened is held as \<^verbatim>\<open>schema_invalid\<close>, and on a call held there for
  that reason every review action is refused: the action matrix lists \<^verbatim>\<open>extract\<close> as the only stage of that reason.\<close>

theorem scan_schema_hold_unreviewable:
  assumes "getReview i db = Some review" "active_review review" "rq_held_reason review = HR_schema_invalid"
    and "getCallState (rq_call_id review) db = Some cs" "cs_current_stage cs = pipeline_stage_name ST_verbatim_pii_scan"
  shows "(\<exists>code d db'. malformedHold deps c ST_verbatim_pii_scan gate md db0 = (Inr (SHold HR_schema_invalid code d None), db'))
    \<and> performReviewAction rdeps i action body actor db = (Inl ReviewConflict, db)"
proof
  show "\<exists>code d db'. malformedHold deps c ST_verbatim_pii_scan gate md db0 = (Inr (SHold HR_schema_invalid code d None), db')"
    by (simp add: malformedHold_def resilientSideEffect_def op_bind_def op_return_def)
  show "performReviewAction rdeps i action body actor db = (Inl ReviewConflict, db)"
    by (rule review_tx_wrong_origin [OF assms(1,2,4)]) (simp_all add: assms(3,5))
qed

theorem scan_schema_hold_unreviewable_witness:
  "performReviewAction sample_deps 0 RA_reject BodyEmpty ''ann'' (held_db ST_verbatim_pii_scan HR_schema_invalid)
     = (Inl ReviewConflict, held_db ST_verbatim_pii_scan HR_schema_invalid)"
proof -
  let ?db = "held_db ST_verbatim_pii_scan HR_schema_invalid"
  have r: "getReview 0 ?db = Some (sample_review HR_schema_invalid)" "getCallState ''c1'' ?db = Some (sample_call ''c1'' ST_verbatim_pii_scan STATUS_HELD)"
    by (simp_all add: held_db_def empty_db_def getReview_def getCallState_def sql_select_def sample_review_def new_review_def sample_call_def)
  have "rq_call_id (sample_review HR_schema_invalid) = ''c1''" "active_review (sample_review HR_schema_invalid)"
      "rq_held_reason (sample_review HR_schema_invalid) = HR_schema_invalid"
    by (simp_all add: sample_review_def new_review_def active_review_def)
  from scan_schema_hold_unreviewable [OF r(1) this(2,3)] r(2) this(1) show ?thesis by (simp add: sample_call_def)
qed

lemma stage_name_nonempty: "pipeline_stage_name s \<noteq> []"
  by (cases s) (simp_all add: pipeline_stage_name_def)

lemma stage_name_inj: "pipeline_stage_name s = pipeline_stage_name t \<longleftrightarrow> s = t"
  by (cases s; cases t) (simp_all add: pipeline_stage_name_def)

text \<open>An advance checks the stage and not the status: it moves a held call on.\<close>

lemma advance_held:
  assumes "view c db = Some (stage_at i, STATUS_HELD, d)" "i < 8" "c \<noteq> []"
  obtains db' where "run_advance pg c i detail db = (Inr (Some (Suc i)), db')" "view c db' = Some (stage_at (Suc i), STATUS_HELD, d)"
    "review_queue db' = review_queue db"
proof -
  let ?in = "advance_input c i detail"
  obtain r where r: "getCallState c db = Some r" "cs_current_stage r = stage_at i" "cs_status r = STATUS_HELD" "cs_drop_reason r = d"
    using assms(1) by (auto simp: view_Some)
  have "advance_guard ?in r" "r \<in> set (call_state db)" using r getCallState_Some [OF r(1)] by (auto simp: advance_guard_input)
  moreover have "advance_input_ok ?in" using assms(2,3) stage_name_nonempty by (simp add: advance_input_ok_def advance_input_def Let_def)
  ultimately obtain row db' where adv: "advanceStage pg ?in db = (Inr row, db')"
    using advanceStage_Inl [of pg ?in db] by (metis old.prod.exhaust sum.exhaust)
  then obtain eff: "call_state db' = sql_update (advance_guard ?in) (advance_row pg ?in) (call_state db)" "review_queue db' = review_queue db"
    by (rule advanceStage_Inr)
  have "view c db' = Some (stage_at (Suc i), STATUS_HELD, d)"
    using r getCallState_Some [OF r(1)] assms(2)
    by (simp add: view_update [OF eff(1) cs_call_id_updates(1)] advance_guard_input advance_row_def call_view_def)
  moreover have "run_advance pg c i detail db = (Inr (Some (Suc i)), db')" using adv assms(2) by (simp add: run_advance_def Let_def)
  ultimately show thesis using that eff(2) by blast
qed

lemma hold_opens:
  assumes "db_ok db" "view c db = Some (stage_at i, STATUS_PROCESSING, d)" "i \<le> 8"
    and "run_hold pg sla c (PIPELINE_STAGES ! i) reason code detail snap db = (Inr None, db1)"
  obtains review where "view c db1 = Some (stage_at i, STATUS_HELD, d)" "getReview (rq_id review) db1 = Some review" "rq_call_id review = c"
    "active_review review" "rq_held_reason review = reason" "c \<noteq> []"
proof -
  let ?in = "\<lparr>hc_callId = c, hc_atStage = stage_at i, hc_heldReason = reason, hc_slaMinutes = sla reason,
      hc_errorCode = map_option error_code_name code, hc_logDetail = detail,
      hc_failureSnapshot = holdSnapshot c (PIPELINE_STAGES ! i) code snap\<rparr>"
  obtain x db' where x: "holdCall pg ?in db = (x, db')" by force
  obtain r where r: "getCallState c db = Some r" "cs_current_stage r = stage_at i" "cs_status r = STATUS_PROCESSING"
    using assms(2) by (auto simp: view_Some)
  then have "r \<in> set (call_state db) \<and> processing_at c (stage_at i) r"
    using getCallState_Some [OF r(1)] by (simp add: processing_at_def STATUS_PROCESSING_def)
  then obtain row where row: "holdCall pg ?in db = (Inr row, db1)"
    using assms(4) x holdCall_Inl [of pg ?in db] by (cases x) (auto simp: run_hold_def isStaleStageError_def)
  have "\<exists>review. filter (\<lambda>r. rq_call_id r = c \<and> active_review r) (review_queue db1) = [review] \<and> rq_held_reason review = reason"
    using hold_with_review [OF assms(1) row] by simp
  then obtain review where rv: "filter (\<lambda>r. rq_call_id r = c \<and> active_review r) (review_queue db1) = [review]" "rq_held_reason review = reason" by blast
  then have mem: "review \<in> set (review_queue db1)" "rq_call_id review = c" "active_review review" by (auto simp: filter_eq_Cons_iff)
  have "distinct (map rq_id (review_queue db1))" using holdCall_db_ok [OF assms(1) row] by (simp add: db_ok_def)
  then have "getReview (rq_id review) db1 = Some review"
    using mem(1) filter_key_unique [of rq_id "review_queue db1" review] by (simp add: getReview_def sql_select_def)
  moreover have "c \<noteq> []" using row by (auto simp: holdCall_def op_throw_def split: if_splits)
  ultimately show thesis using that hold_moves(2) [OF assms(1-3) row] mem rv(2) by blast
qed

text \<open>C40: A held call can be moved on.  One runner holds a call that is being processed at any stage but the last; a second runner that was working on the same stage then
  completes it.  Its advance is accepted, for it checks the stage only: the call, still held, moves to the next stage and its runner goes on, while the review of the
  hold stays open.  When the next stage is not one the action matrix lists for the reason of the hold, every action on that review is refused from then on.
  (A \<^verbatim>\<open>cost_cap_held\<close> call moved from classify to extract stays inside its stages, so not every such hold is stuck.)\<close>

theorem held_call_advanced:
  assumes "db_ok db" "view c db = Some (stage_at i, STATUS_PROCESSING, d)" "i < 8"
    and "run_hold pg sla c (PIPELINE_STAGES ! i) reason code detail snap db = (Inr None, db1)"
  shows "view c db1 = Some (stage_at i, STATUS_HELD, d)
    \<and> (\<exists>db2 k review. run_advance pg' c i md db1 = (Inr (Some (Suc i)), db2) \<and> view c db2 = Some (stage_at (Suc i), STATUS_HELD, d)
        \<and> getReview k db2 = Some review \<and> rq_call_id review = c \<and> active_review review \<and> rq_held_reason review = reason
        \<and> (ORIGIN_STAGES reason \<noteq> [] \<and> PIPELINE_STAGES ! Suc i \<notin> set (ORIGIN_STAGES reason)
            \<longrightarrow> performReviewAction rdeps k action body actor db2 = (Inl ReviewConflict, db2)))"
proof -
  obtain review where held: "view c db1 = Some (stage_at i, STATUS_HELD, d)" "getReview (rq_id review) db1 = Some review" "rq_call_id review = c"
    "active_review review" "rq_held_reason review = reason" "c \<noteq> []"
    using hold_opens [OF assms(1,2) _ assms(4)] assms(3) by (metis less_imp_le)
  obtain db2 where adv: "run_advance pg' c i md db1 = (Inr (Some (Suc i)), db2)" "view c db2 = Some (stage_at (Suc i), STATUS_HELD, d)"
    "review_queue db2 = review_queue db1" by (rule advance_held [OF held(1) assms(3) held(6)])
  have review: "getReview (rq_id review) db2 = Some review" using held(2) adv(3) by (simp add: getReview_def)
  obtain cs where cs: "getCallState c db2 = Some cs" "cs_current_stage cs = stage_at (Suc i)" using adv(2) by (auto simp: view_Some)
  have "performReviewAction rdeps (rq_id review) action body actor db2 = (Inl ReviewConflict, db2)"
    if "ORIGIN_STAGES reason \<noteq> []" "PIPELINE_STAGES ! Suc i \<notin> set (ORIGIN_STAGES reason)"
    by (rule review_tx_wrong_origin [OF review held(4)]) (use that cs held(3,5) in \<open>auto simp: stage_name_inj\<close>)
  then show ?thesis using held adv review by blast
qed

lemma raced_hold:
  "fst (run_hold sample_pg (\<lambda>_. 60) ''c1'' (PIPELINE_STAGES ! 4) HR_classifier_uncertain None None None (processing_db ST_classify)) = Inr None"
  "view ''c1'' (processing_db ST_classify) = Some (stage_at 4, STATUS_PROCESSING, None)"
  by code_simp+

theorem held_call_advanced_witness:
  "\<exists>db1 db2 k. run_hold sample_pg (\<lambda>_. 60) ''c1'' (PIPELINE_STAGES ! 4) HR_classifier_uncertain None None None (processing_db ST_classify) = (Inr None, db1)
     \<and> run_advance sample_pg ''c1'' 4 None db1 = (Inr (Some 5), db2)
     \<and> performReviewAction sample_deps k RA_reject BodyEmpty ''ann'' db2 = (Inl ReviewConflict, db2)"
proof -
  obtain db1 where hold: "run_hold sample_pg (\<lambda>_. 60) ''c1'' (PIPELINE_STAGES ! 4) HR_classifier_uncertain None None None (processing_db ST_classify) = (Inr None, db1)"
    using raced_hold(1) by (metis prod.collapse)
  have "ORIGIN_STAGES HR_classifier_uncertain \<noteq> [] \<and> PIPELINE_STAGES ! Suc 4 \<notin> set (ORIGIN_STAGES HR_classifier_uncertain)" by code_simp
  with held_call_advanced [OF processing_db_ok raced_hold(2) _ hold, of sample_pg None sample_deps RA_reject BodyEmpty "''ann''"] hold show ?thesis by auto
qed

end
