(* ===== verification/Drain.thy ===== *)
theory Drain
  imports Prelude
begin

text \<open>
  The shape the periodic duties share: read a bounded batch of due ids, process each in its own transaction, and read again until
  nothing is due.  The loop is \<^verbatim>\<open>for (;;)\<close> in \<^verbatim>\<open>review-queue/scan.ts\<close>, \<^verbatim>\<open>review-queue/abandon.ts\<close> and
  \<^verbatim>\<open>reconciliation/reprocess-drain.ts\<close>; a duty supplies its batch query and its item transaction.  \<open>None\<close> is a loop that never ends: the
  locale \<open>drain_duty\<close> states what a duty must guarantee, and proves that it ends and processes each due id exactly once.
\<close>

partial_function (option) drain_loop :: "('s \<Rightarrow> 'i list) \<Rightarrow> ('i \<Rightarrow> 's \<Rightarrow> 's) \<Rightarrow> 's \<Rightarrow> 's option" where
  "drain_loop batch item s =
     (case batch s of [] \<Rightarrow> Some s | i # is \<Rightarrow> drain_loop batch item (fold item (i # is) s))"

text \<open>
  A batch lists due ids, none twice, and is empty only when nothing is due.  Processing an id takes it, and no other id, out of the due
  set: it is done, or excluded from later batches.
\<close>

locale drain_duty =
  fixes batch :: "'s \<Rightarrow> 'i list" and item :: "'i \<Rightarrow> 's \<Rightarrow> 's" and due :: "'s \<Rightarrow> 'i set" and ok :: "'s \<Rightarrow> bool"
  assumes batch_due: "ok s \<Longrightarrow> set (batch s) \<subseteq> due s"
    and batch_distinct: "ok s \<Longrightarrow> distinct (batch s)"
    and batch_empty: "ok s \<Longrightarrow> batch s = [] \<Longrightarrow> due s = {}"
    and finite_due: "finite (due s)"
    and item_due: "ok s \<Longrightarrow> i \<in> due s \<Longrightarrow> due (item i s) = due s - {i}"
    and item_ok: "ok s \<Longrightarrow> i \<in> due s \<Longrightarrow> ok (item i s)"
begin

lemma items_due:
  "ok s \<Longrightarrow> distinct ids \<Longrightarrow> set ids \<subseteq> due s \<Longrightarrow> due (fold item ids s) = due s - set ids \<and> ok (fold item ids s)"
proof (induction ids arbitrary: s)
  case (Cons i ids)
  have "set ids \<subseteq> due (item i s)" using Cons.prems by (auto simp: item_due)
  with Cons.IH [of "item i s"] Cons.prems show ?case by (auto simp: item_due item_ok)
qed simp

lemma drains:
  assumes "ok s"
  shows "\<exists>ids. distinct ids \<and> set ids = due s \<and> drain_loop batch item s = Some (fold item ids s)"
  using assms
proof (induction "card (due s)" arbitrary: s rule: less_induct)
  case less
  show ?case
  proof (cases "batch s")
    case Nil
    then have "due s = {} \<and> drain_loop batch item s = Some (fold item [] s)"
      using batch_empty [OF less.prems] by (simp add: drain_loop.simps)
    then show ?thesis by (intro exI [of _ "[]"]) simp
  next
    case (Cons i more)
    let ?s = "fold item (batch s) s"
    have due: "due ?s = due s - set (batch s)" "ok ?s" using items_due [OF less.prems batch_distinct [OF less.prems] batch_due [OF less.prems]] by blast+
    have "i \<in> due s \<inter> set (batch s)" using batch_due [OF less.prems] Cons by auto
    then have "due s - set (batch s) \<subset> due s" by blast
    then have "card (due ?s) < card (due s)" unfolding due(1) by (rule psubset_card_mono [OF finite_due])
    from less.hyps [OF this due(2)] obtain ids where
      ids: "distinct ids" "set ids = due ?s" "drain_loop batch item ?s = Some (fold item ids ?s)" by blast
    have "drain_loop batch item s = Some (fold item (batch s @ ids) s)"
      using ids(3) Cons by (subst drain_loop.simps) simp
    moreover have "distinct (batch s @ ids)" "set (batch s @ ids) = due s"
      using ids(1,2) due(1) batch_distinct [OF less.prems] batch_due [OF less.prems] by auto
    ultimately show ?thesis by blast
  qed
qed

lemma items_invariant:
  assumes "\<And>s i. ok s \<Longrightarrow> i \<in> due s \<Longrightarrow> P s \<Longrightarrow> P (item i s)"
  shows "ok s \<Longrightarrow> distinct ids \<Longrightarrow> set ids \<subseteq> due s \<Longrightarrow> P s \<Longrightarrow> P (fold item ids s)"
proof (induction ids arbitrary: s)
  case (Cons i ids)
  have "set ids \<subseteq> due (item i s)" using Cons.prems by (auto simp: item_due)
  with Cons.IH [of "item i s"] Cons.prems assms show ?case by (simp add: item_ok)
qed simp

lemma drains_invariant:
  assumes "ok s" "P s" "\<And>s i. ok s \<Longrightarrow> i \<in> due s \<Longrightarrow> P s \<Longrightarrow> P (item i s)"
  shows "\<exists>s'. drain_loop batch item s = Some s' \<and> P s'"
proof -
  obtain ids where "distinct ids" "set ids = due s" "drain_loop batch item s = Some (fold item ids s)" using drains [OF assms(1)] by blast
  with items_invariant [where P = P, OF assms(3) assms(1)] assms(2) show ?thesis by auto
qed

end

end
