(* ===== verification/Review_Queue_Jobs.thy ===== *)
theory Review_Queue_Jobs
  imports Drain Model_Stage Review_Actions
begin

text \<open>
  The two duties over the review queue: \<^verbatim>\<open>src/src/review-queue/scan.ts\<close>, which escalates a review past its SLA with one
  alert, and \<^verbatim>\<open>src/src/review-queue/abandon.ts\<close>, which closes a transcript hold nobody can resolve.  Rows another transaction
  has locked are the parameter \<open>locked\<close> (\<^verbatim>\<open>FOR UPDATE SKIP LOCKED\<close> does not see them).  The injected \<^verbatim>\<open>recordAlert\<close> is the
  repository's, which fails when \<open>alert_fails\<close> gives the error of the insert; the Dialpad probe is the parameter \<open>isTranscriptReady\<close>.
  A JavaScript \<^verbatim>\<open>Set\<close> of ids is a list without repetitions: the code reads its members and its size.
\<close>

definition DEFAULT_BATCH_SIZE :: nat where "DEFAULT_BATCH_SIZE = 500"

definition batch_size :: "nat option \<Rightarrow> nat" where
  "batch_size n = (case n of None \<Rightarrow> DEFAULT_BATCH_SIZE | Some k \<Rightarrow> k)"

section \<open>Escalating stalled reviews\<close>

record scan_state =
  ss_db :: db
  ss_failed :: "uuid list"
  ss_lockedSkipped :: "uuid list"
  ss_escalated :: nat

definition stalled :: "int \<Rightarrow> review_queue_row \<Rightarrow> bool" where
  "stalled now r \<longleftrightarrow>
     rq_status r \<in> {RS_open, RS_in_review} \<and> (case rq_sla_due_at r of None \<Rightarrow> False | Some due \<Rightarrow> due < now)
     \<and> rq_escalated_at r = None"

definition scan_batch :: "int \<Rightarrow> nat \<Rightarrow> scan_state \<Rightarrow> uuid list" where
  "scan_batch now batchSize s =
     map rq_id (take batchSize (sort_key (\<lambda>r. case rq_sla_due_at r of None \<Rightarrow> 0 | Some due \<Rightarrow> due)
       (sql_select (\<lambda>r. stalled now r \<and> rq_id r \<notin> set (ss_failed s @ ss_lockedSkipped s)) (review_queue (ss_db s)))))"

definition buildSnapshot :: "failure_fields \<Rightarrow> review_queue_row \<Rightarrow> json" where
  "buildSnapshot failure row =
     JObj (asObject (failureSnapshot failure)
       @ [(''held_reason'', JStr (held_reason_name (rq_held_reason row))), (''review_queue_id'', JStr (uuid_text (rq_id row)))])"

definition stalled_alert :: "failure_fields \<Rightarrow> review_queue_row \<Rightarrow> alert_insert" where
  "stalled_alert failure row =
     \<lparr>ai_errorCode = error_code_name (ff_error_code failure),
      ai_rootCauseCategory = error_code_name (ff_root_cause_category failure),
      ai_severity = ff_severity failure, ai_dedupKey = reviewStalledDedupKey (rq_id row),
      ai_failureSnapshot = Some (buildSnapshot failure row)\<rparr>"

definition record_or_fail :: "(alert_insert \<Rightarrow> js_error option) \<Rightarrow> pg \<Rightarrow> alert_insert \<Rightarrow> (alert_event_row \<times> bool) hop" where
  "record_or_fail alert_fails pg v =
     (case alert_fails v of Some e \<Rightarrow> op_throw e | None \<Rightarrow> run_db (recordAlertWithInsertStatus pg v))"

definition escalate_row :: "pg \<Rightarrow> review_queue_row \<Rightarrow> review_queue_row" where
  "escalate_row pg r = r\<lparr>rq_escalated_at := Some (pg_now pg)\<rparr>"

definition unescalated :: "uuid \<Rightarrow> review_queue_row \<Rightarrow> bool" where
  "unescalated i r \<longleftrightarrow> rq_id r = i \<and> rq_escalated_at r = None"

definition escalate_tx ::
    "pg \<Rightarrow> string \<Rightarrow> (alert_insert \<Rightarrow> js_error option) \<Rightarrow> (uuid \<Rightarrow> bool) \<Rightarrow> uuid \<Rightarrow> bool hop" where
  "escalate_tx pg env alert_fails locked i = withTransaction (\<lambda>db.
     case first_row (sql_select (\<lambda>r. unescalated i r \<and> \<not> locked i) (review_queue db)) of
       None \<Rightarrow> (Inr False, db)
     | Some row \<Rightarrow>
         op_bind (createFailure_op REVIEW_QUEUE_STALLED PST_degraded
             [(''call_id'', rq_call_id row), (''environment'', env)]) (\<lambda>failure.
         op_bind (record_or_fail alert_fails pg (stalled_alert failure row)) (\<lambda>_.
         op_bind (run_write (\<lambda>db. db\<lparr>review_queue := sql_update (unescalated i) (escalate_row pg) (review_queue db)\<rparr>)) (\<lambda>_.
         op_return True))) db)"

definition scan_item ::
    "pg \<Rightarrow> string \<Rightarrow> (alert_insert \<Rightarrow> js_error option) \<Rightarrow> (uuid \<Rightarrow> bool) \<Rightarrow> uuid \<Rightarrow> scan_state \<Rightarrow> scan_state" where
  "scan_item pg env alert_fails locked i s =
     (case escalate_tx pg env alert_fails locked i (ss_db s) of
        (Inr True, db) \<Rightarrow> s\<lparr>ss_db := db, ss_escalated := ss_escalated s + 1\<rparr>
      | (Inr False, db) \<Rightarrow> s\<lparr>ss_db := db, ss_lockedSkipped := List.insert i (ss_lockedSkipped s)\<rparr>
      | (Inl e, db) \<Rightarrow> s\<lparr>ss_db := db, ss_failed := List.insert i (ss_failed s)\<rparr>)"

record scan_result =
  sr_escalated :: nat
  sr_failed :: nat
  sr_lockedSkipped :: nat

definition scanStalledReviews ::
    "pg \<Rightarrow> string \<Rightarrow> (alert_insert \<Rightarrow> js_error option) \<Rightarrow> (uuid \<Rightarrow> bool) \<Rightarrow> nat option \<Rightarrow> int \<Rightarrow> db \<Rightarrow> (scan_result \<times> db) option" where
  "scanStalledReviews pg env alert_fails locked batchSize now db =
     map_option (\<lambda>s. (\<lparr>sr_escalated = ss_escalated s, sr_failed = length (ss_failed s),
         sr_lockedSkipped = length (ss_lockedSkipped s)\<rparr>, ss_db s))
       (drain_loop (scan_batch now (batch_size batchSize)) (scan_item pg env alert_fails locked)
         \<lparr>ss_db = db, ss_failed = [], ss_lockedSkipped = [], ss_escalated = 0\<rparr>)"

section \<open>Closing transcript holds nobody can resolve\<close>

definition ABANDON_ACTOR :: string where "ABANDON_ACTOR = ''system:transcript-abandon''"

record abandon_state =
  ab_db :: db
  ab_attempted :: "uuid list"
  ab_closed :: nat
  ab_recovered :: nat
  ab_skipped :: nat
  ab_failed :: nat

definition abandonable :: "int \<Rightarrow> review_queue_row \<Rightarrow> bool" where
  "abandonable cutoff r \<longleftrightarrow>
     rq_held_reason r = HR_missing_transcript \<and> rq_status r = RS_open \<and> rq_assignee r = None \<and> rq_created_at r < cutoff"

definition abandon_batch :: "int \<Rightarrow> nat \<Rightarrow> abandon_state \<Rightarrow> (uuid \<times> string) list" where
  "abandon_batch cutoff batchSize s =
     map (\<lambda>r. (rq_id r, rq_call_id r)) (take batchSize (sort_key rq_created_at
       (sql_select (\<lambda>r. abandonable cutoff r \<and> rq_id r \<notin> set (ab_attempted s)) (review_queue (ab_db s)))))"

definition abandon_tx :: "pg \<Rightarrow> (uuid \<Rightarrow> bool) \<Rightarrow> uuid \<Rightarrow> string \<Rightarrow> bool dbop" where
  "abandon_tx pg locked i callId = withTransaction (\<lambda>db.
     if \<not> sql_exists (\<lambda>r. rq_id r = i \<and> rq_status r = RS_open \<and> rq_assignee r = None \<and> \<not> locked i) (review_queue db)
     then (Inr False, db)
     else
       op_bind (markUnresolvableByReviewId pg i ABANDON_ACTOR) (\<lambda>transition.
       op_bind (recordOperatorAction pg i ABANDON_ACTOR OA_mark_unresolvable
           (Some (JObj (rt_before transition))) (Some (JObj (rt_after transition)))) (\<lambda>_.
       op_bind (acknowledgeAlert pg (reviewStalledDedupKey i)) (\<lambda>_.
       op_bind (acknowledgeAlertsForCall pg callId) (\<lambda>_.
       op_return True)))) db)"

definition abandon_item ::
    "pg \<Rightarrow> (uuid \<Rightarrow> bool) \<Rightarrow> (string \<Rightarrow> js_error + bool) \<Rightarrow> uuid \<times> string \<Rightarrow> abandon_state \<Rightarrow> abandon_state" where
  "abandon_item pg locked isTranscriptReady = (\<lambda>(i, callId) s0.
     let s = s0\<lparr>ab_attempted := List.insert i (ab_attempted s0)\<rparr> in
     case isTranscriptReady callId of
       Inl e \<Rightarrow> s\<lparr>ab_failed := ab_failed s + 1\<rparr>
     | Inr True \<Rightarrow> s\<lparr>ab_recovered := ab_recovered s + 1\<rparr>
     | Inr False \<Rightarrow>
         (case abandon_tx pg locked i callId (ab_db s) of
            (Inr True, db) \<Rightarrow> s\<lparr>ab_db := db, ab_closed := ab_closed s + 1\<rparr>
          | (Inr False, db) \<Rightarrow> s\<lparr>ab_db := db, ab_skipped := ab_skipped s + 1\<rparr>
          | (Inl e, db) \<Rightarrow> s\<lparr>ab_db := db, ab_failed := ab_failed s + 1\<rparr>))"

record abandon_config =
  TRANSCRIPT_ABANDON_ENABLED :: bool
  TRANSCRIPT_ABANDON_AFTER_MS :: int

definition abandonUnfixableTranscriptHolds ::
    "pg \<Rightarrow> abandon_config \<Rightarrow> (uuid \<Rightarrow> bool) \<Rightarrow> (string \<Rightarrow> js_error + bool) \<Rightarrow> nat option \<Rightarrow> int \<Rightarrow> db \<Rightarrow> abandon_state option" where
  "abandonUnfixableTranscriptHolds pg config locked isTranscriptReady batchSize now db =
     (let start = \<lparr>ab_db = db, ab_attempted = [], ab_closed = 0, ab_recovered = 0, ab_skipped = 0, ab_failed = 0\<rparr> in
      if \<not> TRANSCRIPT_ABANDON_ENABLED config then Some start
      else drain_loop (abandon_batch (now - TRANSCRIPT_ABANDON_AFTER_MS config) (batch_size batchSize))
             (abandon_item pg locked isTranscriptReady) start)"

end
