(* ===== verification/Reconciliation.thy ===== *)
theory Reconciliation
  imports Review_Queue_Jobs Stage_Handlers Alerting
begin

text \<open>
  The reconciliation cron: \<^verbatim>\<open>src/src/reconciliation/reprocess-drain.ts\<close>, which re-sends reprocess requests a crash left in the
  outbox, \<^verbatim>\<open>src/src/reconciliation/run.ts\<close>, whose sweep ingests calls the webhook missed and whose orchestration decides
  whether the external check is pinged, and the wiring of \<^verbatim>\<open>src/src/services/reconciliation-cron.ts\<close>.  The Dialpad listing is a
  parameter: its answer to a request depends on how many requests came before, the start of the window and the cursor.  The in-database
  liveness mirror of a sweep writes a table nothing here reads, and is left out.
\<close>

section \<open>Draining the reprocess outbox\<close>

text \<open>A thrown enqueue error: its properties \<^verbatim>\<open>code\<close> and \<^verbatim>\<open>error_code\<close>, null when absent or when it is no object.\<close>

record enqueue_error =
  ee_code :: json
  ee_error_code :: json

definition DEFAULT_ENQUEUE_ERROR_CODE :: string where "DEFAULT_ENQUEUE_ERROR_CODE = ''REDIS_UNAVAILABLE''"

definition is_code :: "string \<Rightarrow> bool" where
  "is_code s = (case s of [] \<Rightarrow> False
     | c # cs \<Rightarrow> is_upper c \<and> list_all (\<lambda>x. is_upper x \<or> is_digit x \<or> x = CHR ''_'') cs)"

definition sanitizedEnqueueErrorCode :: "enqueue_error \<Rightarrow> string" where
  "sanitizedEnqueueErrorCode err =
     (let code = (if ee_code err = JNull then ee_error_code err else ee_code err) in
      case code of JStr s \<Rightarrow> if is_code s then s else DEFAULT_ENQUEUE_ERROR_CODE | _ \<Rightarrow> DEFAULT_ENQUEUE_ERROR_CODE)"

datatype drain_outcome = DO_sent | DO_superseded | DO_failed | DO_skip

definition at_target :: "reprocess_request_row \<Rightarrow> db \<Rightarrow> bool" where
  "at_target row db =
     (case first_row (sql_select (\<lambda>r. cs_call_id r = rr_call_id row) (call_state db)) of
        None \<Rightarrow> False
      | Some st \<Rightarrow> cs_status st = ''processing'' \<and> cs_current_stage st = rr_target_stage row)"

definition reprocess_tx ::
    "(string \<Rightarrow> string) \<Rightarrow> (reprocess_request_row \<Rightarrow> enqueue_error option) \<Rightarrow> (uuid \<Rightarrow> bool) \<Rightarrow> int \<Rightarrow> uuid \<Rightarrow> drain_outcome hop" where
  "reprocess_tx digest refuses locked now i = withTransaction (\<lambda>db.
     case (if locked i then None else lockPendingReprocessRequest i db) of
       None \<Rightarrow> (Inr DO_skip, db)
     | Some row \<Rightarrow>
         if \<not> at_target row db then (Inr DO_superseded, markReprocessSuperseded i db)
         else case refuses row of
             Some err \<Rightarrow> (Inr DO_failed, recordReprocessAttemptFailure i (sanitizedEnqueueErrorCode err) now db)
           | None \<Rightarrow>
               (Inr DO_sent, markReprocessSent i now
                  (enqueueReprocess digest (rr_call_id row) (uuid_text (rr_review_queue_id row)) db)))"

record drain_state =
  dn_db :: db
  dn_failed :: "uuid list"
  dn_lockedSkipped :: "uuid list"
  dn_enqueued :: nat
  dn_superseded :: nat

definition reprocess_item ::
    "(string \<Rightarrow> string) \<Rightarrow> (reprocess_request_row \<Rightarrow> enqueue_error option) \<Rightarrow> (uuid \<Rightarrow> bool) \<Rightarrow> int \<Rightarrow> uuid \<Rightarrow> drain_state \<Rightarrow> drain_state" where
  "reprocess_item digest refuses locked now i s =
     (case reprocess_tx digest refuses locked now i (dn_db s) of
        (Inr DO_sent, db) \<Rightarrow> s\<lparr>dn_db := db, dn_enqueued := dn_enqueued s + 1\<rparr>
      | (Inr DO_superseded, db) \<Rightarrow> s\<lparr>dn_db := db, dn_superseded := dn_superseded s + 1\<rparr>
      | (Inr DO_failed, db) \<Rightarrow> s\<lparr>dn_db := db, dn_failed := List.insert i (dn_failed s)\<rparr>
      | (Inr DO_skip, db) \<Rightarrow> s\<lparr>dn_db := db, dn_lockedSkipped := List.insert i (dn_lockedSkipped s)\<rparr>
      | (Inl e, db) \<Rightarrow> s\<lparr>dn_db := db, dn_failed := List.insert i (dn_failed s)\<rparr>)"

definition reprocess_batch :: "nat \<Rightarrow> drain_state \<Rightarrow> uuid list" where
  "reprocess_batch batchSize s = listPendingReprocessRequestIds (dn_failed s @ dn_lockedSkipped s) batchSize (dn_db s)"

record drain_result =
  dres_enqueued :: nat
  dres_superseded :: nat
  dres_failed :: nat

definition drainPendingReprocessRequests ::
    "(string \<Rightarrow> string) \<Rightarrow> (reprocess_request_row \<Rightarrow> enqueue_error option) \<Rightarrow> (uuid \<Rightarrow> bool) \<Rightarrow> nat option \<Rightarrow> int \<Rightarrow> db
      \<Rightarrow> (drain_result \<times> db) option" where
  "drainPendingReprocessRequests digest refuses locked batchSize now db =
     map_option (\<lambda>s. (\<lparr>dres_enqueued = dn_enqueued s, dres_superseded = dn_superseded s, dres_failed = length (dn_failed s)\<rparr>, dn_db s))
       (drain_loop (reprocess_batch (batch_size batchSize)) (reprocess_item digest refuses locked now)
         \<lparr>dn_db = db, dn_failed = [], dn_lockedSkipped = [], dn_enqueued = 0, dn_superseded = 0\<rparr>)"

section \<open>The sweep\<close>

definition RECONCILIATION_SOURCE :: string where "RECONCILIATION_SOURCE = ''dialpad-reconciliation''"

definition NON_TERMINAL_CALL_STATES :: "string list" where
  "NON_TERMINAL_CALL_STATES = [''active'', ''in_progress'', ''ringing'', ''queued'']"

record recent_call =
  rc_callId :: string
  rc_state :: "string option"
  rc_direction :: "string option"
  rc_duration :: "rat option"
  rc_startedAt :: "rat option"
  rc_endedAt :: "rat option"

record recent_page =
  rp_calls :: "recent_call list"
  rp_cursor :: "string option"

record reconciliation_deps =
  rec_pg :: pg
  rec_now :: int
  RECONCILIATION_WINDOW_MINUTES :: int
  RECONCILIATION_MAX_CALL_MINUTES :: int
  rec_list :: "nat \<Rightarrow> int \<Rightarrow> string option \<Rightarrow> fetch_error + recent_page"
  rec_digest :: "string \<Rightarrow> string"
  rec_queue_refuses :: "string \<Rightarrow> js_error option"

definition shouldSweepListedCall :: "recent_call \<Rightarrow> int \<Rightarrow> bool" where
  "shouldSweepListedCall call concludedSince =
     (case rc_endedAt call of
        Some t \<Rightarrow> t \<ge> of_int concludedSince
      | None \<Rightarrow> (case rc_state call of Some s \<Rightarrow> toLowerCase s \<notin> set NON_TERMINAL_CALL_STATES | None \<Rightarrow> True))"

definition pristine_seed :: "call_state_row \<Rightarrow> bool" where
  "pristine_seed row \<longleftrightarrow> cs_current_stage row = pipeline_stage_name (PIPELINE_STAGES ! 0) \<and> cs_status row = STATUS_PROCESSING"

definition alreadyInPipeline :: "string \<Rightarrow> db \<Rightarrow> bool" where
  "alreadyInPipeline callId db =
     (case getCallState callId db of
        None \<Rightarrow> False
      | Some row \<Rightarrow> if \<not> pristine_seed row then True else hasDeadLetter callId db)"

definition listed_metadata :: "recent_call \<Rightarrow> json" where
  "listed_metadata call = JObj
     ((case rc_state call of None \<Rightarrow> [] | Some s \<Rightarrow> [(''state'', JStr s)])
      @ (case rc_direction call of None \<Rightarrow> [] | Some d \<Rightarrow> [(''direction'', JStr d)])
      @ (case rc_duration call of None \<Rightarrow> [] | Some d \<Rightarrow> [(''duration'', JNum d)]))"

definition ingestGap :: "reconciliation_deps \<Rightarrow> recent_call \<Rightarrow> unit hop" where
  "ingestGap deps call =
     op_bind (run_db (seedCallStateIfAbsent (rec_pg deps)
         \<lparr>ci_callId = rc_callId call, ci_source = RECONCILIATION_SOURCE, ci_sourceMetadata = Some (listed_metadata call),
          ci_currentStage = pipeline_stage_name (PIPELINE_STAGES ! 0), ci_status = STATUS_PROCESSING\<rparr>)) (\<lambda>_.
     (case rec_queue_refuses deps (jobIdForCall (rec_digest deps) (rc_callId call)) of
        Some e \<Rightarrow> op_throw e
      | None \<Rightarrow> run_write (enqueueCall (rec_digest deps) (rc_callId call))))"

fun sweep_calls :: "reconciliation_deps \<Rightarrow> int \<Rightarrow> recent_call list \<Rightarrow> string list \<Rightarrow> nat \<Rightarrow> (string list \<times> nat) hop" where
  "sweep_calls deps concludedSince [] seen gaps = op_return (seen, gaps)"
| "sweep_calls deps concludedSince (call # calls) seen gaps =
     (if rc_callId call \<in> set seen then sweep_calls deps concludedSince calls seen gaps
      else if \<not> shouldSweepListedCall call concludedSince
      then sweep_calls deps concludedSince calls (seen @ [rc_callId call]) gaps
      else op_bind (run_read (alreadyInPipeline (rc_callId call))) (\<lambda>inPipeline.
        if inPipeline then sweep_calls deps concludedSince calls (seen @ [rc_callId call]) gaps
        else op_bind (ingestGap deps call) (\<lambda>_.
          sweep_calls deps concludedSince calls (seen @ [rc_callId call]) (gaps + 1))))"

definition cursor_stuck :: fetch_error where
  "cursor_stuck = DialpadError \<lparr>de_kind = DK_api_changed, de_endpoint = ''calls'', de_status = None, de_attempts = 1\<rparr>"

text \<open>The loop over pages.  A listing whose cursors never end is a sweep that never ends: \<open>None\<close>.\<close>

partial_function (option) sweep_pages ::
    "reconciliation_deps \<Rightarrow> int \<Rightarrow> int \<Rightarrow> nat \<Rightarrow> string option \<Rightarrow> string list \<Rightarrow> nat \<Rightarrow> db \<Rightarrow> ((fetch_error + string list \<times> nat) \<times> db) option" where
  "sweep_pages deps since concludedSince n cursor seen gaps db =
     (case rec_list deps n since cursor of
        Inl e \<Rightarrow> Some (Inl e, db)
      | Inr page \<Rightarrow>
          (case sweep_calls deps concludedSince (rp_calls page) seen gaps db of
             (Inl e, db1) \<Rightarrow> Some (Inl (OtherFetchError e), db1)
           | (Inr (seen1, gaps1), db1) \<Rightarrow>
               if rp_cursor page \<noteq> None \<and> rp_cursor page = cursor then Some (Inl cursor_stuck, db1)
               else if rp_cursor page = None then Some (Inr (seen1, gaps1), db1)
               else sweep_pages deps since concludedSince (Suc n) (rp_cursor page) seen1 gaps1 db1))"

definition sweep_since :: "reconciliation_deps \<Rightarrow> int" where
  "sweep_since deps = rec_now deps - (RECONCILIATION_WINDOW_MINUTES deps + RECONCILIATION_MAX_CALL_MINUTES deps) * 60000"

definition concluded_since :: "reconciliation_deps \<Rightarrow> int" where
  "concluded_since deps = rec_now deps - RECONCILIATION_WINDOW_MINUTES deps * 60000"

definition runReconciliation :: "reconciliation_deps \<Rightarrow> db \<Rightarrow> ((fetch_error + nat \<times> nat) \<times> db) option" where
  "runReconciliation deps db =
     map_option (\<lambda>(r, db'). (map_sum id (\<lambda>(seen, gaps). (length seen, gaps)) r, db'))
       (sweep_pages deps (sweep_since deps) (concluded_since deps) 0 None [] 0 db)"

section \<open>The cron\<close>

text \<open>A duty may not end, throw, or return its tally.\<close>

type_synonym 'a duty = "db \<Rightarrow> ((js_error + 'a) \<times> db) option"

record cron_deps =
  cron_check_url :: "string option"
  runSweep :: "db \<Rightarrow> ((fetch_error + unit) \<times> db) option"
  onSweepError :: "fetch_error \<Rightarrow> unit hop"
  runScan :: "scan_result duty"
  runDrain :: "nat duty option"
  runLabelSync :: "nat duty option"
  runAbandon :: "nat duty option"

text \<open>An optional duty, by its count of failures: whether it was incomplete, and the state it leaves.\<close>

definition run_duty :: "nat duty option \<Rightarrow> db \<Rightarrow> (bool \<times> db) option" where
  "run_duty d db =
     (case d of
        None \<Rightarrow> Some (False, db)
      | Some m \<Rightarrow> map_option (\<lambda>(r, db'). (case r of Inr failed \<Rightarrow> failed > 0 | Inl e \<Rightarrow> True, db')) (m db))"

definition pingSuccess :: "string option \<Rightarrow> string list" where
  "pingSuccess url = (case url of None \<Rightarrow> [] | Some u \<Rightarrow> [u])"

definition runReconciliationCron :: "cron_deps \<Rightarrow> db \<Rightarrow> ((js_error + unit) \<times> string list \<times> db) option" where
  "runReconciliationCron deps db =
     Option.bind (runSweep deps db) (\<lambda>(swept, db1).
     let (sweepOk, db2) = (case swept of Inr u \<Rightarrow> (True, db1) | Inl err \<Rightarrow> (False, snd (onSweepError deps err db1))) in
     Option.bind (runScan deps db2) (\<lambda>(scanned, db3).
     let scanIncomplete = (case scanned of Inr r \<Rightarrow> sr_failed r > 0 \<or> sr_lockedSkipped r > 0 | Inl e \<Rightarrow> True) in
     Option.bind (run_duty (runDrain deps) db3) (\<lambda>(drainIncomplete, db4).
     Option.bind (run_duty (runLabelSync deps) db4) (\<lambda>(labelSyncIncomplete, db5).
     Option.bind (run_duty (runAbandon deps) db5) (\<lambda>(abandonIncomplete, db6).
     Some (if sweepOk \<and> \<not> scanIncomplete \<and> \<not> drainIncomplete \<and> \<not> labelSyncIncomplete \<and> \<not> abandonIncomplete
           then (Inr (), pingSuccess (cron_check_url deps), db6)
           else (Inl (plain_error ''reconciliation-cron: a duty failed''), [], db6)))))))"

text \<open>The duties the service wires up.\<close>

record service_deps =
  sv_rec :: reconciliation_deps
  sv_env :: string
  sv_url :: "string option"
  sv_alert_fails :: "alert_insert \<Rightarrow> js_error option"
  sv_review_locked :: "uuid \<Rightarrow> bool"
  sv_request_locked :: "uuid \<Rightarrow> bool"
  sv_enqueue_refuses :: "reprocess_request_row \<Rightarrow> enqueue_error option"
  sv_abandon :: abandon_config
  sv_fetchTranscript :: "string \<Rightarrow> fetch_error + transcript_result"
  sv_labelSync :: "nat duty"
  sv_alerts :: alert_config
  sv_deliver :: deliver_deps

definition isTranscriptReady :: "(string \<Rightarrow> fetch_error + transcript_result) \<Rightarrow> string \<Rightarrow> js_error + bool" where
  "isTranscriptReady fetchTranscript callId =
     (case fetchTranscript callId of
        Inl e \<Rightarrow> Inl (js_of_fetch_error e)
      | Inr r \<Rightarrow> Inr (case r of TR_ready t c \<Rightarrow> True | TR_not_ready \<Rightarrow> False))"

text \<open>A typed Dialpad failure is alerted and delivered at once; the posts go to the operators' channel and leave no trace in the tables.\<close>

definition on_sweep_error :: "alert_config \<Rightarrow> deliver_deps \<Rightarrow> string \<Rightarrow> fetch_error \<Rightarrow> unit hop" where
  "on_sweep_error config deps env err db =
     (case err of
        OtherFetchError e \<Rightarrow> (Inr (), db)
      | DialpadError e \<Rightarrow>
          (case KIND_TO_FAILURE (de_kind e) of
             None \<Rightarrow> (Inr (), db)
           | Some (code, processingState) \<Rightarrow>
               (Inr (), aw_db (snd (emitAlert config deps
                  \<lparr>em_code = code, em_processingState = processingState,
                   em_context = Some [(''component'', ''reconciliation-cron''), (''environment'', env)], em_severity = None\<rparr>
                  \<lparr>aw_db = db, aw_posts = []\<rparr>)))))"

definition cron_duties :: "service_deps \<Rightarrow> cron_deps" where
  "cron_duties d =
     \<lparr>cron_check_url = sv_url d,
      runSweep = (\<lambda>db. map_option (\<lambda>(r, db'). (map_sum id (\<lambda>_. ()) r, db')) (runReconciliation (sv_rec d) db)),
      onSweepError = on_sweep_error (sv_alerts d) (sv_deliver d) (sv_env d),
      runScan = (\<lambda>db. map_option (\<lambda>(r, db'). (Inr r, db'))
        (scanStalledReviews (rec_pg (sv_rec d)) (sv_env d) (sv_alert_fails d) (sv_review_locked d) None (rec_now (sv_rec d)) db)),
      runDrain = Some (\<lambda>db. map_option (\<lambda>(r, db'). (Inr (dres_failed r), db'))
        (drainPendingReprocessRequests (rec_digest (sv_rec d)) (sv_enqueue_refuses d) (sv_request_locked d) None (rec_now (sv_rec d)) db)),
      runLabelSync = Some (sv_labelSync d),
      runAbandon = Some (\<lambda>db. map_option (\<lambda>s. (Inr (ab_failed s), ab_db s))
        (abandonUnfixableTranscriptHolds (rec_pg (sv_rec d)) (sv_abandon d) (sv_review_locked d)
          (isTranscriptReady (sv_fetchTranscript d)) None (rec_now (sv_rec d)) db))\<rparr>"

text \<open>The entry point: alert maintenance first, whatever it does, then the duties.\<close>

definition runAlertMaintenance :: "alert_config \<Rightarrow> deliver_deps \<Rightarrow> int \<Rightarrow> db \<Rightarrow> db" where
  "runAlertMaintenance config deps windowMinutes db =
     (let w1 = snd (escalateAndDeliver config deps (windowMinutes * 60000) \<lparr>aw_db = db, aw_posts = []\<rparr>)
      in aw_db (snd (retryPendingDeliveries config deps w1)))"

definition reconciliation_cron_main :: "int \<Rightarrow> service_deps \<Rightarrow> db \<Rightarrow> ((js_error + unit) \<times> string list \<times> db) option" where
  "reconciliation_cron_main escalationWindowMinutes d db =
     runReconciliationCron (cron_duties d) (runAlertMaintenance (sv_alerts d) (sv_deliver d) escalationWindowMinutes db)"

end
