(* ===== verification/Review_Jobs_Correct.thy ===== *)
theory Review_Jobs_Correct
  imports Review_Queue_Jobs Alerting Samples
begin

text \<open>
  The duties over the review queue end and do what they promise.  Each is an instance of \<open>drain_duty\<close>: the interpretation shows
  that its batch query and its item transaction fit together, so a run processes every due row exactly once, and what one item does
  to the tables, lifted over the run, gives the tables after it.
\<close>

section \<open>Batches of a table with a unique key\<close>

lemma sorted_batch:
  assumes "distinct (map k t)"
  shows "distinct (map k (take n (sort_key f (sql_select p t))))"
    and "set (map k (take n (sort_key f (sql_select p t)))) \<subseteq> k ` {r \<in> set t. p r}"
    and "0 < n \<Longrightarrow> map k (take n (sort_key f (sql_select p t))) = [] \<Longrightarrow> k ` {r \<in> set t. p r} = {}"
proof -
  have "distinct (map k (filter p t))" using assms by (rule distinct_map_filter)
  then have "distinct (map k (sort_key f (sql_select p t)))" by (simp add: sql_select_def distinct_map)
  then show "distinct (map k (take n (sort_key f (sql_select p t))))" by (simp add: take_map [symmetric])
  show "set (map k (take n (sort_key f (sql_select p t)))) \<subseteq> k ` {r \<in> set t. p r}"
    by (auto simp: sql_select_def dest!: in_set_takeD)
  assume "0 < n" and "map k (take n (sort_key f (sql_select p t))) = []"
  then have "set (sort_key f (sql_select p t)) = {}" by simp
  then have "filter p t = []" by (simp add: sql_select_def)
  then show "k ` {r \<in> set t. p r} = {}" by (auto simp: filter_empty_conv)
qed

lemma sql_select_key:
  assumes "distinct (map k t)" "r \<in> set t" "k r = i"
  shows "sql_select (\<lambda>x. k x = i \<and> q x) t = (if q r then [r] else [])"
proof (cases "q r")
  case True
  then show ?thesis using assms by (auto simp: sql_select_def intro!: filter_key_unique [of k])
next
  case False
  have "\<not> (k x = i \<and> q x)" if "x \<in> set t" for x
    using that False assms by (metis distinct_map inj_onD)
  then show ?thesis using False by (auto simp: sql_select_def filter_empty_conv)
qed

lemma rows_of_keys:
  assumes "inj_on k A" "distinct ids" "set ids = k ` A"
  shows "\<exists>rs. ids = map k rs \<and> set rs = A \<and> distinct rs"
proof -
  let ?rs = "map (the_inv_into A k) ids"
  have "map k ?rs = ids" unfolding map_map o_def
    by (rule map_idI) (use assms(1,3) f_the_inv_into_f [of k A] in auto)
  moreover have "set ?rs = A" using assms(1,3) by (simp add: image_image the_inv_into_f_f cong: image_cong)
  ultimately show ?thesis using assms(2) by (metis distinct_map)
qed

lemma count_rows: "distinct (map k t) \<Longrightarrow> length (filter p t) = card {r \<in> set t. p r}"
  using distinct_card [OF distinct_filter, of t p] by (simp add: distinct_map)

lemma batch_size_pos: "n \<noteq> Some 0 \<Longrightarrow> \<exists>k. batch_size n = Suc k"
  by (cases "batch_size n") (auto simp: batch_size_def DEFAULT_BATCH_SIZE_def split: option.splits)

section \<open>The stalled-review scan\<close>

text \<open>What the transaction of one item does: nothing, or the alert and the stamp together.\<close>

definition stalled_failure :: "string \<Rightarrow> review_queue_row \<Rightarrow> failure_fields" where
  "stalled_failure env r =
     the (createFailure REVIEW_QUEUE_STALLED PST_degraded (Some [(''call_id'', rq_call_id r), (''environment'', env)]) None)"

lemma stalled_failure_op:
  "createFailure_op REVIEW_QUEUE_STALLED PST_degraded [(''call_id'', rq_call_id r), (''environment'', env)]
     = op_return (stalled_failure env r)"
  using createFailure_total [of REVIEW_QUEUE_STALLED PST_degraded "Some [(''call_id'', rq_call_id r), (''environment'', env)]" None]
  by (auto simp: createFailure_op_def stalled_failure_def)

lemma stalled_alert_simps [simp]:
  "ai_dedupKey (stalled_alert f r) = reviewStalledDedupKey (rq_id r)"
  "ai_errorCode (stalled_alert f r) \<noteq> []" "ai_rootCauseCategory (stalled_alert f r) \<noteq> []"
  "reviewStalledDedupKey i \<noteq> []"
  by (simp_all add: stalled_alert_def reviewStalledDedupKey_def error_code_name_nonempty)

definition escalates :: "string \<Rightarrow> (alert_insert \<Rightarrow> js_error option) \<Rightarrow> (uuid \<Rightarrow> bool) \<Rightarrow> review_queue_row \<Rightarrow> bool" where
  "escalates env alert_fails locked r \<longleftrightarrow>
     \<not> locked (rq_id r) \<and> alert_fails (stalled_alert (stalled_failure env r) r) = None"

lemma recordAlert_Inr:
  assumes "ai_errorCode v \<noteq> []" "ai_rootCauseCategory v \<noteq> []" "ai_dedupKey v \<noteq> []"
  shows "\<exists>row b new n. recordAlertWithInsertStatus pg v db = (Inr (row, b), db\<lparr>alert_events := alert_events db @ new, next_uuid := n\<rparr>)
    \<and> next_uuid db \<le> n \<and> (\<forall>a \<in> set new. ae_dedup_key a = ai_dedupKey v) \<and> length new \<le> 1
    \<and> (\<exists>a \<in> set (alert_events db @ new). ae_dedup_key a = ai_dedupKey v \<and> unacknowledged a)"
proof (cases "sql_exists (\<lambda>r. ae_dedup_key r = ai_dedupKey v \<and> unacknowledged r) (alert_events db)")
  case True
  then obtain row where "first_row (sql_select (\<lambda>r. ae_dedup_key r = ai_dedupKey v \<and> unacknowledged r) (alert_events db)) = Some row"
    by (cases "first_row (sql_select (\<lambda>r. ae_dedup_key r = ai_dedupKey v \<and> unacknowledged r) (alert_events db))")
       (auto simp: sql_exists_iff sql_select_def filter_empty_conv)
  with True assms show ?thesis
    by (intro exI [of _ row] exI [of _ False] exI [of _ "[]"] exI [of _ "next_uuid db"])
       (auto simp: recordAlertWithInsertStatus_def sql_exists_iff)
next
  case False
  with assms show ?thesis
    by (intro exI [of _ "new_alert pg (next_uuid db) v"] exI [of _ True] exI [of _ "[new_alert pg (next_uuid db) v]"]
          exI [of _ "Suc (next_uuid db)"])
       (auto simp: recordAlertWithInsertStatus_def Let_def new_alert_def unacknowledged_def)
qed

lemma escalate_tx_cases:
  assumes "distinct (map rq_id (review_queue db))" "r \<in> set (review_queue db)" "rq_escalated_at r = None"
  obtains (skip) "\<not> escalates env alert_fails locked r" "\<exists>res. escalate_tx pg env alert_fails locked (rq_id r) db = (res, db) \<and> res \<noteq> Inr True"
  | (stamped) new n where "escalates env alert_fails locked r"
      "escalate_tx pg env alert_fails locked (rq_id r) db = (Inr True, db\<lparr>alert_events := alert_events db @ new, next_uuid := n,
         review_queue := sql_update (unescalated (rq_id r)) (escalate_row pg) (review_queue db)\<rparr>)"
      "next_uuid db \<le> n" "\<forall>a \<in> set new. ae_dedup_key a = reviewStalledDedupKey (rq_id r)" "length new \<le> 1"
      "\<exists>a \<in> set (alert_events db @ new). ae_dedup_key a = reviewStalledDedupKey (rq_id r) \<and> unacknowledged a"
proof -
  let ?v = "stalled_alert (stalled_failure env r) r"
  have "sql_select (unescalated (rq_id r)) (review_queue db) = [r]"
    using sql_select_key [OF assms(1,2) refl, of "\<lambda>x. rq_escalated_at x = None"] assms(3) by (simp add: unescalated_def [abs_def])
  note row = this
  have "ai_dedupKey ?v \<noteq> []" by simp
  then obtain a b new n where rec: "recordAlertWithInsertStatus pg ?v db = (Inr (a, b), db\<lparr>alert_events := alert_events db @ new, next_uuid := n\<rparr>)"
    "next_uuid db \<le> n" "\<forall>x \<in> set new. ae_dedup_key x = ai_dedupKey ?v" "length new \<le> 1"
    "\<exists>x \<in> set (alert_events db @ new). ae_dedup_key x = ai_dedupKey ?v \<and> unacknowledged x"
    using recordAlert_Inr [of ?v pg db] stalled_alert_simps by blast
  note defs = stalled_failure_op op_bind_return record_or_fail_def op_bind_def op_return_def op_throw_def run_db_def run_write_def rec(1)
  have tx: "escalate_tx pg env alert_fails locked (rq_id r) db =
      (if locked (rq_id r) then (Inr False, db)
       else case alert_fails ?v of
           Some e \<Rightarrow> (Inl e, db)
         | None \<Rightarrow> (Inr True, db\<lparr>alert_events := alert_events db @ new, next_uuid := n,
             review_queue := sql_update (unescalated (rq_id r)) (escalate_row pg) (review_queue db)\<rparr>))"
  proof (cases "locked (rq_id r)")
    case True
    then show ?thesis by (simp add: escalate_tx_def withTransaction_def sql_select_def)
  next
    case False
    then show ?thesis
      by (cases "alert_fails ?v") (simp_all add: escalate_tx_def withTransaction_def row defs)
  qed
  show thesis
  proof (cases "escalates env alert_fails locked r")
    case True
    then show ?thesis using rec(2-) by (intro stamped [where new = new and n = n]) (simp_all add: escalates_def tx)
  next
    case False
    then show ?thesis by (intro skip) (auto simp: escalates_def tx split: option.split)
  qed
qed

definition scan_ok :: "scan_state \<Rightarrow> bool" where
  "scan_ok s \<longleftrightarrow> distinct (map rq_id (review_queue (ss_db s)))"

definition scan_due :: "int \<Rightarrow> scan_state \<Rightarrow> uuid set" where
  "scan_due now s = rq_id ` {r \<in> set (review_queue (ss_db s)). stalled now r \<and> rq_id r \<notin> set (ss_failed s @ ss_lockedSkipped s)}"

lemma scan_item_cases:
  assumes "scan_ok s"
  obtains (skip) "\<And>r. r \<in> set (review_queue (ss_db s)) \<Longrightarrow> unescalated i r \<Longrightarrow> \<not> escalates env alert_fails locked r"
      "scan_item pg env alert_fails locked i s \<in> {s\<lparr>ss_failed := List.insert i (ss_failed s)\<rparr>, s\<lparr>ss_lockedSkipped := List.insert i (ss_lockedSkipped s)\<rparr>}"
  | (stamped) r new n where "r \<in> set (review_queue (ss_db s))" "unescalated i r" "escalates env alert_fails locked r"
      "scan_item pg env alert_fails locked i s = s\<lparr>ss_db := (ss_db s)\<lparr>alert_events := alert_events (ss_db s) @ new, next_uuid := n,
         review_queue := sql_update (unescalated i) (escalate_row pg) (review_queue (ss_db s))\<rparr>, ss_escalated := ss_escalated s + 1\<rparr>"
      "next_uuid (ss_db s) \<le> n" "\<forall>a \<in> set new. ae_dedup_key a = reviewStalledDedupKey i" "length new \<le> 1"
      "\<exists>a \<in> set (alert_events (ss_db s) @ new). ae_dedup_key a = reviewStalledDedupKey i \<and> unacknowledged a"
proof (cases "\<exists>r \<in> set (review_queue (ss_db s)). unescalated i r")
  case False
  then have "sql_select (\<lambda>r. unescalated i r \<and> \<not> locked i) (review_queue (ss_db s)) = []"
    by (auto simp: sql_select_def filter_empty_conv)
  then have "escalate_tx pg env alert_fails locked i (ss_db s) = (Inr False, ss_db s)"
    by (simp add: escalate_tx_def withTransaction_def)
  with False show ?thesis by (intro skip) (auto simp: scan_item_def)
next
  case True
  then obtain r where r: "r \<in> set (review_queue (ss_db s))" "rq_id r = i" "rq_escalated_at r = None"
    by (auto simp: unescalated_def)
  have d: "distinct (map rq_id (review_queue (ss_db s)))" using assms by (simp add: scan_ok_def)
  have only: "x = r" if "x \<in> set (review_queue (ss_db s))" "unescalated i x" for x
    using that r d by (metis distinct_map inj_onD unescalated_def)
  show ?thesis
  proof (cases rule: escalate_tx_cases [OF d r(1,3), where env = env and alert_fails = alert_fails and locked = locked and pg = pg])
    case 1
    then obtain res where "escalate_tx pg env alert_fails locked i (ss_db s) = (res, ss_db s)" "res \<noteq> Inr True"
      using r(2) by blast
    with 1(1) only show ?thesis
      by (intro that(1)) (auto simp: scan_item_def split: sum.splits bool.splits)
  next
    case (2 new n)
    with r show ?thesis
      by (intro that(2) [where r = r and new = new and n = n]) (auto simp: scan_item_def unescalated_def)
  qed
qed

interpretation scan: drain_duty "scan_batch now (Suc n)" "scan_item pg env alert_fails locked" "scan_due now" scan_ok
  for now n pg env alert_fails locked
proof
  fix s i
  show "finite (scan_due now s)" by (simp add: scan_due_def)
  assume ok: "scan_ok s"
  then have d: "distinct (map rq_id (review_queue (ss_db s)))" by (simp add: scan_ok_def)
  show "set (scan_batch now (Suc n) s) \<subseteq> scan_due now s" "distinct (scan_batch now (Suc n) s)"
    "scan_batch now (Suc n) s = [] \<Longrightarrow> scan_due now s = {}"
    using sorted_batch [OF d] unfolding scan_batch_def scan_due_def by blast+
  show "scan_due now (scan_item pg env alert_fails locked i s) = scan_due now s - {i}"
    and "scan_ok (scan_item pg env alert_fails locked i s)"
  proof -
    have "scan_due now (scan_item pg env alert_fails locked i s) = scan_due now s - {i}
        \<and> scan_ok (scan_item pg env alert_fails locked i s)"
    proof (cases rule: scan_item_cases [OF ok, where i = i and env = env and alert_fails = alert_fails and locked = locked and pg = pg])
      case 1
      then show ?thesis using ok by (auto simp: scan_due_def scan_ok_def)
    next
      case (2 r new n)
      have "distinct (map rq_id (sql_update (unescalated i) (escalate_row pg) (review_queue (ss_db s))))"
        using d by (simp add: map_sql_update escalate_row_def)
      moreover have "{x \<in> set (sql_update (unescalated i) (escalate_row pg) (review_queue (ss_db s))). stalled now x
            \<and> rq_id x \<notin> set (ss_failed s @ ss_lockedSkipped s)}
          = {x \<in> set (review_queue (ss_db s)). stalled now x \<and> rq_id x \<notin> set (ss_failed s @ ss_lockedSkipped s) \<and> rq_id x \<noteq> i}"
        unfolding set_sql_update by (auto simp: escalate_row_def stalled_def unescalated_def)
      then have "rq_id ` {x \<in> set (sql_update (unescalated i) (escalate_row pg) (review_queue (ss_db s))). stalled now x
            \<and> rq_id x \<notin> set (ss_failed s @ ss_lockedSkipped s)} = scan_due now s - {i}"
        unfolding scan_due_def by (simp only:) blast
      ultimately show ?thesis unfolding 2(4) by (simp add: scan_due_def scan_ok_def)
    qed
    then show "scan_due now (scan_item pg env alert_fails locked i s) = scan_due now s - {i}"
      and "scan_ok (scan_item pg env alert_fails locked i s)" by blast+
  qed
qed

lemma reviewStalledDedupKey_inj: "reviewStalledDedupKey i = reviewStalledDedupKey j \<longleftrightarrow> i = j"
  by (auto simp: reviewStalledDedupKey_def dest: uuid_text_inj)

lemma unique_row:
  "distinct (map k t) \<Longrightarrow> x \<in> set t \<Longrightarrow> y \<in> set t \<Longrightarrow> k x = k y \<Longrightarrow> x = y"
  by (metis distinct_map inj_onD)

text \<open>The effect of a run over the items \<open>ids\<close>: on the tables, and on the tally.\<close>

definition scan_tables ::
    "pg \<Rightarrow> (review_queue_row \<Rightarrow> bool) \<Rightarrow> db \<Rightarrow> uuid set \<Rightarrow> alert_event_row list \<Rightarrow> db \<Rightarrow> bool" where
  "scan_tables pg esc db ids new db' \<longleftrightarrow>
     (\<exists>n. db' = db\<lparr>alert_events := alert_events db @ new, next_uuid := n,
          review_queue := map (\<lambda>r. if rq_id r \<in> ids \<and> esc r then escalate_row pg r else r) (review_queue db)\<rparr> \<and> next_uuid db \<le> n)
     \<and> distinct (map ae_dedup_key new) \<and> ae_dedup_key ` set new \<subseteq> reviewStalledDedupKey ` ids
     \<and> (\<forall>r \<in> set (review_queue db). rq_id r \<in> ids \<and> esc r \<longrightarrow>
          (\<exists>a \<in> set (alert_events db @ new). ae_dedup_key a = reviewStalledDedupKey (rq_id r) \<and> unacknowledged a))"

definition scan_tally :: "(review_queue_row \<Rightarrow> bool) \<Rightarrow> db \<Rightarrow> uuid list \<Rightarrow> scan_state \<Rightarrow> bool" where
  "scan_tally esc db ids s \<longleftrightarrow>
     ss_escalated s = card {r \<in> set (review_queue db). rq_id r \<in> set ids \<and> esc r}
     \<and> ss_escalated s + length (ss_failed s) + length (ss_lockedSkipped s) = length ids
     \<and> set (ss_failed s) \<union> set (ss_lockedSkipped s) \<subseteq> set ids"

lemma scan_tables_skip:
  assumes "scan_tables pg esc db ids new db'" "\<And>x. x \<in> set (review_queue db) \<Longrightarrow> rq_id x = i \<Longrightarrow> \<not> esc x"
  shows "scan_tables pg esc db (insert i ids) new db'"
proof -
  have "map (\<lambda>r. if rq_id r \<in> insert i ids \<and> esc r then escalate_row pg r else r) (review_queue db)
      = map (\<lambda>r. if rq_id r \<in> ids \<and> esc r then escalate_row pg r else r) (review_queue db)"
    using assms(2) by auto
  then show ?thesis using assms unfolding scan_tables_def by (simp only:) blast
qed

lemma scan_tables_stamp:
  assumes "scan_tables pg esc db ids new db'" "i \<notin> ids"
    and r: "r \<in> set (review_queue db)" "rq_id r = i" "rq_escalated_at r = None" "esc r"
    and only: "\<And>x. x \<in> set (review_queue db) \<Longrightarrow> rq_id x = i \<Longrightarrow> x = r"
    and nw: "next_uuid db' \<le> m" "\<forall>a \<in> set nw. ae_dedup_key a = reviewStalledDedupKey i" "length nw \<le> 1"
      "\<exists>a \<in> set (alert_events db' @ nw). ae_dedup_key a = reviewStalledDedupKey i \<and> unacknowledged a"
  shows "scan_tables pg esc db (insert i ids) (new @ nw) (db'\<lparr>alert_events := alert_events db' @ nw, next_uuid := m,
      review_queue := sql_update (unescalated i) (escalate_row pg) (review_queue db')\<rparr>)"
proof -
  let ?t = "\<lambda>ids. map (\<lambda>r. if rq_id r \<in> ids \<and> esc r then escalate_row pg r else r) (review_queue db)"
  from assms(1) obtain n where db': "db' = db\<lparr>alert_events := alert_events db @ new, next_uuid := n, review_queue := ?t ids\<rparr>" "next_uuid db \<le> n"
    and old: "distinct (map ae_dedup_key new)" "ae_dedup_key ` set new \<subseteq> reviewStalledDedupKey ` ids"
      "\<forall>r \<in> set (review_queue db). rq_id r \<in> ids \<and> esc r \<longrightarrow>
        (\<exists>a \<in> set (alert_events db @ new). ae_dedup_key a = reviewStalledDedupKey (rq_id r) \<and> unacknowledged a)"
    unfolding scan_tables_def by blast
  have "(if unescalated i y then escalate_row pg y else y) = (if rq_id x \<in> insert i ids \<and> esc x then escalate_row pg x else x)"
    if "x \<in> set (review_queue db)" "y = (if rq_id x \<in> ids \<and> esc x then escalate_row pg x else x)" for x y
  proof (cases "rq_id x = i")
    case True
    with only that have "x = r" by blast
    with r assms(2) that(2) show ?thesis by (simp add: unescalated_def)
  next
    case False
    with that(2) show ?thesis by (auto simp: unescalated_def escalate_row_def)
  qed
  then have "sql_update (unescalated i) (escalate_row pg) (?t ids) = ?t (insert i ids)"
    unfolding sql_update_def map_map o_def by (intro map_cong refl) blast
  then have "\<exists>k. db'\<lparr>alert_events := alert_events db' @ nw, next_uuid := m, review_queue := sql_update (unescalated i) (escalate_row pg) (review_queue db')\<rparr>
      = db\<lparr>alert_events := alert_events db @ new @ nw, next_uuid := k, review_queue := ?t (insert i ids)\<rparr> \<and> next_uuid db \<le> k"
    using db' nw(1) by (intro exI [of _ m]) simp
  moreover have "distinct (map ae_dedup_key (new @ nw))"
  proof -
    have "reviewStalledDedupKey i \<notin> ae_dedup_key ` set new" using old(2) assms(2) by (auto simp: reviewStalledDedupKey_inj)
    moreover have "nw = [] \<or> (\<exists>a. nw = [a] \<and> ae_dedup_key a = reviewStalledDedupKey i)" using nw(2,3) by (cases nw) auto
    ultimately show ?thesis using old(1) by (auto simp: image_iff)
  qed
  moreover have "ae_dedup_key ` set (new @ nw) \<subseteq> reviewStalledDedupKey ` insert i ids" using old(2) nw(2) by auto
  moreover have "\<exists>a \<in> set (alert_events db @ new @ nw). ae_dedup_key a = reviewStalledDedupKey (rq_id x) \<and> unacknowledged a"
    if "x \<in> set (review_queue db)" "rq_id x \<in> insert i ids" "esc x" for x
  proof (cases "rq_id x = i")
    case True
    then show ?thesis using nw(4) db'(1) by auto
  next
    case False
    with that old(3) have "\<exists>a \<in> set (alert_events db @ new). ae_dedup_key a = reviewStalledDedupKey (rq_id x) \<and> unacknowledged a" by blast
    then show ?thesis by auto
  qed
  ultimately show ?thesis unfolding scan_tables_def by blast
qed

lemma scan_tally_skip:
  assumes "scan_tally esc db ids s" "i \<notin> set ids" "\<And>x. x \<in> set (review_queue db) \<Longrightarrow> rq_id x = i \<Longrightarrow> \<not> esc x"
    and "s' \<in> {s\<lparr>ss_failed := List.insert i (ss_failed s)\<rparr>, s\<lparr>ss_lockedSkipped := List.insert i (ss_lockedSkipped s)\<rparr>}"
  shows "scan_tally esc db (ids @ [i]) s'"
proof -
  have "{x \<in> set (review_queue db). rq_id x \<in> set (ids @ [i]) \<and> esc x} = {x \<in> set (review_queue db). rq_id x \<in> set ids \<and> esc x}"
    using assms(3) by auto
  moreover have "List.insert i (ss_failed s) = i # ss_failed s" "List.insert i (ss_lockedSkipped s) = i # ss_lockedSkipped s"
    using assms(1,2) by (auto simp: scan_tally_def intro!: not_in_set_insert)
  ultimately show ?thesis using assms(1,4) unfolding scan_tally_def by auto
qed

lemma scan_items:
  assumes d: "distinct (map rq_id (review_queue db))" and "distinct ids"
    and "set ids \<subseteq> rq_id ` {r \<in> set (review_queue db). rq_escalated_at r = None}"
  shows "\<exists>new. scan_tables pg (escalates env alert_fails locked) db (set ids) new
        (ss_db (fold (scan_item pg env alert_fails locked) ids \<lparr>ss_db = db, ss_failed = [], ss_lockedSkipped = [], ss_escalated = 0\<rparr>))
     \<and> scan_tally (escalates env alert_fails locked) db ids
        (fold (scan_item pg env alert_fails locked) ids \<lparr>ss_db = db, ss_failed = [], ss_lockedSkipped = [], ss_escalated = 0\<rparr>)"
  using assms(2,3)
proof (induction ids rule: rev_induct)
  case Nil
  have "scan_tables pg (escalates env alert_fails locked) db {} [] db"
    unfolding scan_tables_def by (intro conjI exI [of _ "next_uuid db"]) simp_all
  then show ?case by (intro exI [of _ "[]"]) (simp add: scan_tally_def)
next
  case (snoc i ids)
  let ?esc = "escalates env alert_fails locked"
  let ?s = "fold (scan_item pg env alert_fails locked) ids \<lparr>ss_db = db, ss_failed = [], ss_lockedSkipped = [], ss_escalated = 0\<rparr>"
  obtain new where tab: "scan_tables pg ?esc db (set ids) new (ss_db ?s)" and tal: "scan_tally ?esc db ids ?s" using snoc by auto
  then obtain n where s: "ss_db ?s = db\<lparr>alert_events := alert_events db @ new, next_uuid := n,
      review_queue := map (\<lambda>r. if rq_id r \<in> set ids \<and> ?esc r then escalate_row pg r else r) (review_queue db)\<rparr>"
    unfolding scan_tables_def by blast
  have i: "i \<notin> set ids" using snoc.prems by simp
  obtain r where r: "r \<in> set (review_queue db)" "rq_id r = i" "rq_escalated_at r = None" using snoc.prems by auto
  have only: "x = r" if "x \<in> set (review_queue db)" "rq_id x = i" for x using that r d unique_row [of rq_id] by metis
  have ok: "scan_ok ?s" using d by (simp add: scan_ok_def s(1) o_def escalate_row_def if_distrib cong: if_cong)
  have here: "r \<in> set (review_queue (ss_db ?s)) \<and> unescalated i r" using r i by (auto simp: s(1) unescalated_def image_iff)
  show ?case
  proof (cases rule: scan_item_cases [OF ok, where i = i and env = env and alert_fails = alert_fails and locked = locked and pg = pg])
    case 1
    then have no: "\<not> ?esc r" using here by blast
    have "scan_tables pg ?esc db (insert i (set ids)) new (ss_db ?s)" using tab only no by (intro scan_tables_skip) auto
    moreover have "ss_db (scan_item pg env alert_fails locked i ?s) = ss_db ?s" using 1(2) by auto
    moreover have "scan_tally ?esc db (ids @ [i]) (scan_item pg env alert_fails locked i ?s)"
      using only no by (intro scan_tally_skip [OF tal i _ 1(2)]) auto
    ultimately show ?thesis by (intro exI [of _ new]) simp
  next
    case (2 r' nw m)
    have "r' = r" using 2(1,2) i by (auto simp: s unescalated_def escalate_row_def dest: only split: if_splits)
    with 2(3) have yes: "?esc r" by simp
    have "scan_tables pg ?esc db (insert i (set ids)) (new @ nw) (ss_db (scan_item pg env alert_fails locked i ?s))"
      unfolding 2(4) using scan_tables_stamp [OF tab i r yes only 2(5-8)] by simp
    moreover have "scan_tally ?esc db (ids @ [i]) (scan_item pg env alert_fails locked i ?s)"
    proof -
      have "{x \<in> set (review_queue db). rq_id x \<in> set (ids @ [i]) \<and> ?esc x} = insert r {x \<in> set (review_queue db). rq_id x \<in> set ids \<and> ?esc x}"
        using yes r(1,2) by (auto dest: only)
      then show ?thesis using tal i r unfolding scan_tally_def 2(4) by auto
    qed
    ultimately show ?thesis by (intro exI [of _ "new @ nw"]) simp
  qed
qed

lemma scan_run:
  assumes d: "distinct (map rq_id (review_queue db))" and "batchSize \<noteq> Some 0"
  shows "\<exists>(s :: scan_state) new. scanStalledReviews pg env alert_fails locked batchSize now db =
        Some (\<lparr>sr_escalated = ss_escalated s, sr_failed = length (ss_failed s), sr_lockedSkipped = length (ss_lockedSkipped s)\<rparr>, ss_db s)
     \<and> scan_tables pg (escalates env alert_fails locked) db (rq_id ` {r \<in> set (review_queue db). stalled now r}) new (ss_db s)
     \<and> ss_escalated s = card {r \<in> set (review_queue db). stalled now r \<and> escalates env alert_fails locked r}
     \<and> ss_escalated s + length (ss_failed s) + length (ss_lockedSkipped s) = card {r \<in> set (review_queue db). stalled now r}"
proof -
  let ?s = "\<lparr>ss_db = db, ss_failed = [], ss_lockedSkipped = [], ss_escalated = 0\<rparr>"
  let ?due = "{r \<in> set (review_queue db). stalled now r}"
  obtain n where n: "batch_size batchSize = Suc n" using batch_size_pos [OF assms(2)] by blast
  have "scan_ok ?s" using d by (simp add: scan_ok_def)
  from scan.drains [OF this, of now n pg env alert_fails locked] obtain ids where ids: "distinct ids" "set ids = scan_due now ?s"
    "drain_loop (scan_batch now (Suc n)) (scan_item pg env alert_fails locked) ?s = Some (fold (scan_item pg env alert_fails locked) ids ?s)"
    by blast
  have due: "set ids = rq_id ` ?due" using ids(2) by (simp add: scan_due_def)
  have "set ids \<subseteq> rq_id ` {r \<in> set (review_queue db). rq_escalated_at r = None}" unfolding due by (auto simp: stalled_def)
  from scan_items [OF d ids(1) this, of pg env alert_fails locked] obtain new where
    new: "scan_tables pg (escalates env alert_fails locked) db (set ids) new (ss_db (fold (scan_item pg env alert_fails locked) ids ?s))"
      "scan_tally (escalates env alert_fails locked) db ids (fold (scan_item pg env alert_fails locked) ids ?s)" by blast
  have inj: "inj_on rq_id (set (review_queue db))" using d by (simp add: distinct_map)
  have "card ?due = card (set ids)" unfolding due using inj by (intro card_image [symmetric] inj_on_subset [OF inj]) auto
  then have len: "length ids = card ?due" using ids(1) by (simp add: distinct_card)
  have esc: "{r \<in> set (review_queue db). rq_id r \<in> set ids \<and> escalates env alert_fails locked r} = {r \<in> set (review_queue db). stalled now r \<and> escalates env alert_fails locked r}"
    unfolding due using inj by (auto dest: inj_onD)
  let ?f = "fold (scan_item pg env alert_fails locked) ids ?s"
  have "scanStalledReviews pg env alert_fails locked batchSize now db =
      Some (\<lparr>sr_escalated = ss_escalated ?f, sr_failed = length (ss_failed ?f), sr_lockedSkipped = length (ss_lockedSkipped ?f)\<rparr>, ss_db ?f)"
    by (simp add: scanStalledReviews_def n ids(3))
  moreover have "ss_escalated ?f = card {r \<in> set (review_queue db). stalled now r \<and> escalates env alert_fails locked r}"
    using new(2) unfolding scan_tally_def esc by blast
  moreover have "ss_escalated ?f + length (ss_failed ?f) + length (ss_lockedSkipped ?f) = card ?due"
    using new(2) unfolding scan_tally_def len by blast
  ultimately show ?thesis using new(1) unfolding due by blast
qed

text \<open>The stalled-review scan ends and misses nothing.  Every active review past its SLA that is not yet escalated is attempted
  once.  It is stamped together with an open alert of its own, or, when its row is locked or its alert cannot be recorded, left exactly as
  it was and counted; the tally adds up, no other row changes, and no item gets two alerts.\<close>

lemma stalled_scan_complete:
  assumes "distinct (map rq_id (review_queue db))" "batchSize \<noteq> Some 0"
  shows "\<exists>result db' new. scanStalledReviews pg env alert_fails locked batchSize now db = Some (result, db')
    \<and> review_queue db' = map (\<lambda>r. if stalled now r \<and> escalates env alert_fails locked r then escalate_row pg r else r) (review_queue db)
    \<and> sr_escalated result = length (filter (\<lambda>r. stalled now r \<and> escalates env alert_fails locked r) (review_queue db))
    \<and> sr_escalated result + sr_failed result + sr_lockedSkipped result = length (filter (stalled now) (review_queue db))
    \<and> alert_events db' = alert_events db @ new \<and> distinct (map ae_dedup_key new)
    \<and> list_all (\<lambda>r. if stalled now r \<and> escalates env alert_fails locked r
          then sql_exists (\<lambda>a. ae_dedup_key a = reviewStalledDedupKey (rq_id r) \<and> unacknowledged a) (alert_events db') else True) (review_queue db)
    \<and> call_state db' = call_state db"
proof -
  let ?e = "escalates env alert_fails locked"
  obtain s :: scan_state and new where s: "scanStalledReviews pg env alert_fails locked batchSize now db =
        Some (\<lparr>sr_escalated = ss_escalated s, sr_failed = length (ss_failed s), sr_lockedSkipped = length (ss_lockedSkipped s)\<rparr>, ss_db s)"
    and tab: "scan_tables pg ?e db (rq_id ` {r \<in> set (review_queue db). stalled now r}) new (ss_db s)"
    and tally: "ss_escalated s = card {r \<in> set (review_queue db). stalled now r \<and> ?e r}"
      "ss_escalated s + length (ss_failed s) + length (ss_lockedSkipped s) = card {r \<in> set (review_queue db). stalled now r}"
    using scan_run [OF assms] by blast
  note len = count_rows [OF assms(1)]
  have mem: "rq_id r \<in> rq_id ` {r \<in> set (review_queue db). stalled now r} \<longleftrightarrow> stalled now r" if "r \<in> set (review_queue db)" for r
    using that assms(1) unique_row [of rq_id] by blast
  have rows: "review_queue (ss_db s) = map (\<lambda>r. if stalled now r \<and> ?e r then escalate_row pg r else r) (review_queue db)"
    using tab mem by (auto simp: scan_tables_def)
  have alerts: "list_all (\<lambda>r. if stalled now r \<and> ?e r
      then sql_exists (\<lambda>a. ae_dedup_key a = reviewStalledDedupKey (rq_id r) \<and> unacknowledged a) (alert_events (ss_db s)) else True) (review_queue db)"
    using tab mem unfolding list_all_iff sql_exists_iff scan_tables_def by auto
  show ?thesis
    using s tab tally rows alerts
    by (intro exI [of _ new] exI [of _ "ss_db s"] exI conjI) (auto simp: len scan_tables_def)
qed

section \<open>Closing unresolvable transcript holds\<close>

definition closed_db :: "pg \<Rightarrow> review_queue_row \<Rightarrow> db \<Rightarrow> db" where
  "closed_db pg r db = db\<lparr>
     review_queue := sql_update (\<lambda>x. rq_id x = rq_id r) (close_row pg RS_unresolvable ABANDON_ACTOR) (review_queue db),
     call_state := sql_update (held_call (rq_call_id r)) (close_call_row pg) (call_state db),
     next_uuid := Suc (next_uuid db),
     operator_actions := operator_actions db @ [\<lparr>oa_id = next_uuid db, oa_review_queue_id = rq_id r, oa_actor = ABANDON_ACTOR,
        oa_action = OA_mark_unresolvable, oa_before = Some (JObj (review_audit ''open'' ''held'')),
        oa_after = Some (JObj (review_audit ''unresolvable'' ''review_closed'')), oa_created_at = pg_now pg\<rparr>],
     alert_events := sql_update (\<lambda>a. unacknowledged a \<and> (ae_dedup_key a = reviewStalledDedupKey (rq_id r) \<or> alert_call_id pg a = Some (rq_call_id r)))
        (ack_alert pg) (alert_events db)\<rparr>"

lemma ack_twice:
  "sql_update (\<lambda>a. unacknowledged a \<and> q a) (ack_alert pg) (sql_update (\<lambda>a. p a \<and> unacknowledged a) (ack_alert pg) t)
     = sql_update (\<lambda>a. unacknowledged a \<and> (p a \<or> q a)) (ack_alert pg) t"
  by (induction t) (auto simp: sql_update_def ack_alert_def unacknowledged_def)

lemma abandon_tx_eq:
  assumes "distinct (map rq_id (review_queue db))" "r \<in> set (review_queue db)" "rq_status r = RS_open" "rq_assignee r = None"
  shows "abandon_tx pg locked (rq_id r) (rq_call_id r) db =
    (if locked (rq_id r) then (Inr False, db)
     else if length (filter (held_call (rq_call_id r)) (call_state db)) \<noteq> 1 then (Inl (DalError DAL_REVIEW_INVARIANT), db)
     else (Inr True, closed_db pg r db))"
proof -
  have row: "sql_select (\<lambda>x. rq_id x = rq_id r) (review_queue db) = [r]"
    using sql_select_key [OF assms(1,2) refl, of "\<lambda>_. True"] by simp
  have ex: "sql_exists (\<lambda>x. rq_id x = rq_id r \<and> rq_status x = RS_open \<and> rq_assignee x = None \<and> \<not> locked (rq_id r)) (review_queue db)
      \<longleftrightarrow> \<not> locked (rq_id r)" using assms(2-4) by (auto simp: sql_exists_iff)
  show ?thesis
    using assms(3)
    by (auto simp: abandon_tx_def ex withTransaction_def markUnresolvableByReviewId_def row Let_def op_bind_def sql_updated_def
        recordOperatorAction_def ABANDON_ACTOR_def acknowledgeAlert_def acknowledgeAlertsForCall_def acknowledge_where_def op_return_def
        ack_twice closed_db_def toJsonParam_def)
qed

text \<open>The tables after closing the holds \<open>C\<close>, in any order.\<close>

definition abandon_tables :: "pg \<Rightarrow> db \<Rightarrow> review_queue_row set \<Rightarrow> db \<Rightarrow> bool" where
  "abandon_tables pg db C db' \<longleftrightarrow>
     review_queue db' = map (\<lambda>r. if r \<in> C then close_row pg RS_unresolvable ABANDON_ACTOR r else r) (review_queue db)
     \<and> call_state db' = map (\<lambda>cs. if \<exists>r \<in> C. held_call (rq_call_id r) cs then close_call_row pg cs else cs) (call_state db)
     \<and> alert_events db' = map (\<lambda>a. if unacknowledged a \<and> (\<exists>r \<in> C. ae_dedup_key a = reviewStalledDedupKey (rq_id r) \<or> alert_call_id pg a = Some (rq_call_id r))
          then ack_alert pg a else a) (alert_events db)
     \<and> (\<exists>new. operator_actions db' = operator_actions db @ new \<and> distinct (map oa_review_queue_id new)
          \<and> set (map oa_review_queue_id new) = rq_id ` C
          \<and> (\<forall>a \<in> set new. oa_actor a = ABANDON_ACTOR \<and> oa_action a = OA_mark_unresolvable))"

lemma sql_update_map:
  assumes "\<And>x. x \<in> set t \<Longrightarrow> (if p (g x) then f (g x) else g x) = h x"
  shows "sql_update p f (map g t) = map h t"
  using assms by (simp add: sql_update_def)

lemma abandon_tables_close:
  assumes "abandon_tables pg db C db'" and C: "C \<subseteq> set (review_queue db)"
    and r: "r \<in> set (review_queue db)" "r \<notin> C" and d: "distinct (map rq_id (review_queue db))"
  shows "abandon_tables pg db (insert r C) (closed_db pg r db')"
proof -
  have id: "rq_id x = rq_id r \<longleftrightarrow> x = r" if "x \<in> set (review_queue db)" for x using unique_row [OF d that r(1)] by blast
  obtain new where new: "operator_actions db' = operator_actions db @ new" "distinct (map oa_review_queue_id new)"
    "set (map oa_review_queue_id new) = rq_id ` C" "\<forall>a \<in> set new. oa_actor a = ABANDON_ACTOR \<and> oa_action a = OA_mark_unresolvable"
    using assms(1) unfolding abandon_tables_def by blast
  have fresh: "rq_id r \<notin> rq_id ` C" using id C r(2) by (metis imageE subsetD)
  note old = assms(1) [unfolded abandon_tables_def]
  have "review_queue (closed_db pg r db') = map (\<lambda>x. if x \<in> insert r C then close_row pg RS_unresolvable ABANDON_ACTOR x else x) (review_queue db)"
    using old r(2) id by (auto simp: closed_db_def close_row_def intro!: sql_update_map)
  moreover have "call_state (closed_db pg r db') = map (\<lambda>cs. if \<exists>x \<in> insert r C. held_call (rq_call_id x) cs then close_call_row pg cs else cs) (call_state db)"
    using old by (auto simp: closed_db_def held_call_def close_call_row_def intro!: sql_update_map)
  moreover have "alert_events (closed_db pg r db') = map (\<lambda>a. if unacknowledged a \<and> (\<exists>x \<in> insert r C. ae_dedup_key a = reviewStalledDedupKey (rq_id x) \<or> alert_call_id pg a = Some (rq_call_id x))
          then ack_alert pg a else a) (alert_events db)"
    using old by (auto simp: closed_db_def ack_alert_def unacknowledged_def intro!: sql_update_map)
  moreover have "\<exists>k. operator_actions (closed_db pg r db') = operator_actions db @ k \<and> distinct (map oa_review_queue_id k)
      \<and> set (map oa_review_queue_id k) = rq_id ` insert r C \<and> (\<forall>a \<in> set k. oa_actor a = ABANDON_ACTOR \<and> oa_action a = OA_mark_unresolvable)"
  proof -
    obtain audit where "operator_actions (closed_db pg r db') = operator_actions db' @ [audit]"
      "oa_review_queue_id audit = rq_id r" "oa_actor audit = ABANDON_ACTOR" "oa_action audit = OA_mark_unresolvable"
      by (simp add: closed_db_def)
    then show ?thesis using new fresh by (intro exI [of _ "new @ [audit]"]) auto
  qed
  ultimately show ?thesis unfolding abandon_tables_def by blast
qed

definition closes :: "(uuid \<Rightarrow> bool) \<Rightarrow> (string \<Rightarrow> js_error + bool) \<Rightarrow> db \<Rightarrow> review_queue_row \<Rightarrow> bool" where
  "closes locked isTranscriptReady db r \<longleftrightarrow> isTranscriptReady (rq_call_id r) = Inr False \<and> \<not> locked (rq_id r)
     \<and> length (filter (held_call (rq_call_id r)) (call_state db)) = 1"

lemma abandon_item_eq:
  assumes "distinct (map rq_id (review_queue (ab_db s)))" "r \<in> set (review_queue (ab_db s))" "rq_status r = RS_open" "rq_assignee r = None"
  shows "let s' = abandon_item pg locked ready (rq_id r, rq_call_id r) s in
    ab_db s' = (if closes locked ready (ab_db s) r then closed_db pg r (ab_db s) else ab_db s)
    \<and> ab_closed s' = (if closes locked ready (ab_db s) r then Suc (ab_closed s) else ab_closed s)
    \<and> ab_attempted s' = List.insert (rq_id r) (ab_attempted s)
    \<and> ab_closed s' + ab_recovered s' + ab_skipped s' + ab_failed s' = Suc (ab_closed s + ab_recovered s + ab_skipped s + ab_failed s)"
  using abandon_tx_eq [OF assms, of pg locked]
  by (auto simp: abandon_item_def Let_def closes_def split: sum.splits bool.splits)

definition abandon_ok :: "abandon_state \<Rightarrow> bool" where
  "abandon_ok s \<longleftrightarrow> distinct (map rq_id (review_queue (ab_db s)))"

definition abandon_due :: "int \<Rightarrow> abandon_state \<Rightarrow> (uuid \<times> string) set" where
  "abandon_due cutoff s = (\<lambda>r. (rq_id r, rq_call_id r)) ` {r \<in> set (review_queue (ab_db s)). abandonable cutoff r \<and> rq_id r \<notin> set (ab_attempted s)}"

interpretation abandon: drain_duty "abandon_batch cutoff (Suc n)" "abandon_item pg locked ready" "abandon_due cutoff" abandon_ok
  for cutoff n pg locked ready
proof
  fix s p
  show "finite (abandon_due cutoff s)" by (simp add: abandon_due_def)
  assume ok: "abandon_ok s"
  then have d: "distinct (map rq_id (review_queue (ab_db s)))" by (simp add: abandon_ok_def)
  have "distinct (map (fst \<circ> (\<lambda>r. (rq_id r, rq_call_id r))) (review_queue (ab_db s)))" using d by (simp add: o_def)
  then have d2: "distinct (map (\<lambda>r. (rq_id r, rq_call_id r)) (review_queue (ab_db s)))" by (metis distinct_map map_map)
  show "set (abandon_batch cutoff (Suc n) s) \<subseteq> abandon_due cutoff s" "distinct (abandon_batch cutoff (Suc n) s)"
    "abandon_batch cutoff (Suc n) s = [] \<Longrightarrow> abandon_due cutoff s = {}"
    using sorted_batch [OF d2] unfolding abandon_batch_def abandon_due_def by blast+
  assume "p \<in> abandon_due cutoff s"
  then obtain r where r: "r \<in> set (review_queue (ab_db s))" "abandonable cutoff r" "p = (rq_id r, rq_call_id r)"
    by (auto simp: abandon_due_def)
  let ?s = "abandon_item pg locked ready p s"
  have eff: "ab_db ?s = ab_db s \<or> ab_db ?s = closed_db pg r (ab_db s)" "ab_attempted ?s = List.insert (rq_id r) (ab_attempted s)"
    using abandon_item_eq [OF d r(1), of pg locked ready] r(2,3) by (auto simp: abandonable_def Let_def)
  have rows: "{x \<in> set (review_queue (ab_db ?s)). abandonable cutoff x \<and> rq_id x \<notin> set (ab_attempted ?s)}
      = {x \<in> set (review_queue (ab_db s)). abandonable cutoff x \<and> rq_id x \<notin> set (ab_attempted s) \<and> rq_id x \<noteq> rq_id r}"
    using eff by (auto simp: closed_db_def set_sql_update close_row_def)
  show "abandon_due cutoff ?s = abandon_due cutoff s - {p}"
    unfolding abandon_due_def rows unfolding r(3) using unique_row [OF d _ r(1)] by auto
  show "abandon_ok ?s" using eff(1) d by (auto simp: abandon_ok_def closed_db_def map_sql_update close_row_def)
qed

lemma filter_map_same: "(\<And>x. p (g x) = p x \<and> (p x \<longrightarrow> g x = x)) \<Longrightarrow> filter p (map g t) = filter p t"
  by (induction t) auto

lemma abandon_items:
  assumes ok: "db_ok db" and "set rs \<subseteq> {r \<in> set (review_queue db). rq_status r = RS_open \<and> rq_assignee r = None}" "distinct rs"
  shows "let s = fold (abandon_item pg locked ready) (map (\<lambda>r. (rq_id r, rq_call_id r)) rs)
      \<lparr>ab_db = db, ab_attempted = [], ab_closed = 0, ab_recovered = 0, ab_skipped = 0, ab_failed = 0\<rparr> in
    abandon_tables pg db {r \<in> set rs. closes locked ready db r} (ab_db s)
    \<and> ab_closed s = card {r \<in> set rs. closes locked ready db r}
    \<and> ab_closed s + ab_recovered s + ab_skipped s + ab_failed s = length rs"
  using assms(2,3)
proof (induction rs rule: rev_induct)
  case Nil
  then show ?case by (auto simp: abandon_tables_def)
next
  case (snoc r rs)
  let ?s = "fold (abandon_item pg locked ready) (map (\<lambda>r. (rq_id r, rq_call_id r)) rs)
      \<lparr>ab_db = db, ab_attempted = [], ab_closed = 0, ab_recovered = 0, ab_skipped = 0, ab_failed = 0\<rparr>"
  let ?C = "{r \<in> set rs. closes locked ready db r}"
  have IH: "abandon_tables pg db ?C (ab_db ?s)" "ab_closed ?s = card ?C"
    "ab_closed ?s + ab_recovered ?s + ab_skipped ?s + ab_failed ?s = length rs"
    using snoc by (auto simp: Let_def)
  have d: "distinct (map rq_id (review_queue db))" using ok by (simp add: db_ok_def)
  have r: "r \<in> set (review_queue db)" "rq_status r = RS_open" "rq_assignee r = None" "r \<notin> set rs" using snoc.prems by auto
  have other: "rq_call_id x \<noteq> rq_call_id r" if "x \<in> set rs" for x
  proof
    assume eq: "rq_call_id x = rq_call_id r"
    have "x \<in> set (review_queue db)" "active_review x" "active_review r" using snoc.prems that r by (auto simp: active_review_def)
    then have "x = r" using ok r(1) eq by (auto simp: db_ok_def unique_live_def intro: unique_row [of rq_call_id "filter active_review (review_queue db)"])
    with that r(4) show False by simp
  qed
  have C: "?C \<subseteq> set (review_queue db)" "r \<notin> ?C" using snoc.prems by auto
  have tab: "review_queue (ab_db ?s) = map (\<lambda>x. if x \<in> ?C then close_row pg RS_unresolvable ABANDON_ACTOR x else x) (review_queue db)"
    "call_state (ab_db ?s) = map (\<lambda>cs. if \<exists>x \<in> ?C. held_call (rq_call_id x) cs then close_call_row pg cs else cs) (call_state db)"
    using IH(1) by (simp_all add: abandon_tables_def)
  have "r \<in> set (review_queue (ab_db ?s))" using r(1) C(2) unfolding tab(1) by (auto simp: image_iff)
  moreover have "distinct (map rq_id (review_queue (ab_db ?s)))"
    using d unfolding tab(1) by (simp add: o_def if_distrib close_row_def cong: if_cong)
  moreover have "filter (held_call (rq_call_id r)) (call_state (ab_db ?s)) = filter (held_call (rq_call_id r)) (call_state db)"
  proof -
    have "held_call (rq_call_id r) (if \<exists>x \<in> ?C. held_call (rq_call_id x) cs then close_call_row pg cs else cs) = held_call (rq_call_id r) cs
      \<and> (held_call (rq_call_id r) cs \<longrightarrow> (if \<exists>x \<in> ?C. held_call (rq_call_id x) cs then close_call_row pg cs else cs) = cs)" for cs
      using other by (auto simp: held_call_def close_call_row_def)
    then show ?thesis unfolding tab(2) by (rule filter_map_same)
  qed
  then have "closes locked ready (ab_db ?s) r = closes locked ready db r" by (simp add: closes_def)
  ultimately have step: "ab_db (abandon_item pg locked ready (rq_id r, rq_call_id r) ?s) = (if closes locked ready db r then closed_db pg r (ab_db ?s) else ab_db ?s)"
    "ab_closed (abandon_item pg locked ready (rq_id r, rq_call_id r) ?s) = (if closes locked ready db r then Suc (ab_closed ?s) else ab_closed ?s)"
    "ab_closed (abandon_item pg locked ready (rq_id r, rq_call_id r) ?s) + ab_recovered (abandon_item pg locked ready (rq_id r, rq_call_id r) ?s)
      + ab_skipped (abandon_item pg locked ready (rq_id r, rq_call_id r) ?s) + ab_failed (abandon_item pg locked ready (rq_id r, rq_call_id r) ?s) = Suc (length rs)"
    using abandon_item_eq [of ?s r pg locked ready] r(2,3) IH(3) by (simp_all add: Let_def)
  show ?case
  proof (cases "closes locked ready db r")
    case True
    then have "{x \<in> set (rs @ [r]). closes locked ready db x} = insert r ?C" by auto
    with step True abandon_tables_close [OF IH(1) C(1) r(1) C(2) d] IH(2) C(2) show ?thesis by (simp add: Let_def)
  next
    case False
    then have "{x \<in> set (rs @ [r]). closes locked ready db x} = ?C" by auto
    with step False IH show ?thesis by (simp add: Let_def)
  qed
qed

lemma abandon_run:
  assumes ok: "db_ok db" and "batchSize \<noteq> Some 0" and on: "TRANSCRIPT_ABANDON_ENABLED config"
  shows "\<exists>s. abandonUnfixableTranscriptHolds pg config locked ready batchSize now db = Some s
    \<and> abandon_tables pg db
        {r \<in> set (review_queue db). abandonable (now - TRANSCRIPT_ABANDON_AFTER_MS config) r \<and> closes locked ready db r} (ab_db s)
    \<and> ab_closed s = card {r \<in> set (review_queue db). abandonable (now - TRANSCRIPT_ABANDON_AFTER_MS config) r \<and> closes locked ready db r}
    \<and> ab_closed s + ab_recovered s + ab_skipped s + ab_failed s = card {r \<in> set (review_queue db). abandonable (now - TRANSCRIPT_ABANDON_AFTER_MS config) r}"
proof -
  let ?cut = "now - TRANSCRIPT_ABANDON_AFTER_MS config"
  let ?s = "\<lparr>ab_db = db, ab_attempted = [], ab_closed = 0, ab_recovered = 0, ab_skipped = 0, ab_failed = 0\<rparr>"
  let ?k = "\<lambda>r. (rq_id r, rq_call_id r)" and ?due = "{r \<in> set (review_queue db). abandonable ?cut r}"
  obtain n where n: "batch_size batchSize = Suc n" using batch_size_pos [OF assms(2)] by blast
  have d: "distinct (map rq_id (review_queue db))" using ok by (simp add: db_ok_def)
  then have "abandon_ok ?s" by (simp add: abandon_ok_def)
  from abandon.drains [OF this, of ?cut n pg locked ready] obtain ids where ids: "distinct ids" "set ids = abandon_due ?cut ?s"
    "drain_loop (abandon_batch ?cut (Suc n)) (abandon_item pg locked ready) ?s = Some (fold (abandon_item pg locked ready) ids ?s)" by blast
  have "inj_on ?k ?due" using unique_row [OF d] by (auto intro: inj_onI)
  moreover have "set ids = ?k ` ?due" using ids(2) by (simp add: abandon_due_def)
  ultimately obtain rs where rs: "ids = map ?k rs" "set rs = ?due" "distinct rs" using rows_of_keys [OF _ ids(1)] by blast
  let ?f = "fold (abandon_item pg locked ready) ids ?s"
  have sub: "set rs \<subseteq> {r \<in> set (review_queue db). rq_status r = RS_open \<and> rq_assignee r = None}"
    unfolding rs(2) by (auto simp: abandonable_def)
  have C: "{r \<in> set rs. closes locked ready db r} = {r \<in> set (review_queue db). abandonable ?cut r \<and> closes locked ready db r}"
    unfolding rs(2) by auto
  have "length rs = card ?due" using rs(2,3) distinct_card by metis
  then have "abandon_tables pg db {r \<in> set (review_queue db). abandonable ?cut r \<and> closes locked ready db r} (ab_db ?f)"
    "ab_closed ?f = card {r \<in> set (review_queue db). abandonable ?cut r \<and> closes locked ready db r}"
    "ab_closed ?f + ab_recovered ?f + ab_skipped ?f + ab_failed ?f = card ?due"
    using abandon_items [OF ok sub rs(3), of pg locked ready] unfolding Let_def rs(1) [symmetric] C by simp_all
  moreover have "abandonUnfixableTranscriptHolds pg config locked ready batchSize now db = Some ?f"
    using on by (simp add: abandonUnfixableTranscriptHolds_def n ids(3))
  ultimately show ?thesis by blast
qed

text \<open>C11: Only holds nobody can resolve are closed.  A run of the auto-close duty ends, with each due hold attempted once.  It closes exactly the open,
  unclaimed transcript holds past the cutoff whose transcript the probe reports absent, whose row is free and whose call is held; with each
  closure come the closed call, one audit row of the system actor and the acknowledged alerts of that hold and call.  Every other review, call
  and alert is untouched, and a disabled duty does nothing.\<close>

theorem abandon_only_unfixable:
  assumes "db_ok db" "batchSize \<noteq> Some 0"
  shows "\<exists>s. abandonUnfixableTranscriptHolds pg config locked ready batchSize now db = Some s
    \<and> (if TRANSCRIPT_ABANDON_ENABLED config
       then abandon_tables pg db
            {r \<in> set (review_queue db). abandonable (now - TRANSCRIPT_ABANDON_AFTER_MS config) r \<and> closes locked ready db r} (ab_db s)
         \<and> ab_closed s = length (filter (\<lambda>r. abandonable (now - TRANSCRIPT_ABANDON_AFTER_MS config) r \<and> closes locked ready db r) (review_queue db))
         \<and> ab_closed s + ab_recovered s + ab_skipped s + ab_failed s
            = length (filter (abandonable (now - TRANSCRIPT_ABANDON_AFTER_MS config)) (review_queue db))
       else ab_db s = db \<and> ab_closed s = 0)"
proof (cases "TRANSCRIPT_ABANDON_ENABLED config")
  case False
  then show ?thesis by (simp add: abandonUnfixableTranscriptHolds_def)
next
  case True
  have "distinct (map rq_id (review_queue db))" using assms(1) by (simp add: db_ok_def)
  note len = count_rows [OF this]
  show ?thesis using abandon_run [OF assms True, of pg locked ready now] True unfolding len by simp
qed

theorem abandon_only_unfixable_witness:
  "\<exists>s. abandonUnfixableTranscriptHolds sample_pg \<lparr>TRANSCRIPT_ABANDON_ENABLED = True, TRANSCRIPT_ABANDON_AFTER_MS = 100\<rparr> (\<lambda>_. False) (\<lambda>_. Inr False)
      None 5000 (held_db ST_fetch_transcript HR_missing_transcript) = Some s \<and> ab_closed s = 1"
proof -
  have "db_ok (held_db ST_fetch_transcript HR_missing_transcript)"
    by (simp add: held_db_def db_ok_def empty_db_def unique_live_def alerts_deduped_def sample_review_def new_review_def)
  from abandon_only_unfixable [OF this, of None sample_pg "\<lparr>TRANSCRIPT_ABANDON_ENABLED = True, TRANSCRIPT_ABANDON_AFTER_MS = 100\<rparr>"
      "\<lambda>_. False" "\<lambda>_. Inr False" 5000]
  show ?thesis
    by (auto simp: held_db_def sample_review_def new_review_def abandonable_def closes_def held_call_def sample_call_def STATUS_HELD_def sample_pg_def)
qed

end
