(* ===== verification/Reconciliation_Correct.thy ===== *)
theory Reconciliation_Correct
  imports Reconciliation Review_Jobs_Correct
begin

text \<open>
  The outbox drain as a third instance of \<open>drain_duty\<close>, the sweep, which only ever adds rows and jobs, and the cron as their composition.
\<close>

section \<open>The outbox drain\<close>

definition drain_row ::
    "(reprocess_request_row \<Rightarrow> enqueue_error option) \<Rightarrow> (uuid \<Rightarrow> bool) \<Rightarrow> int \<Rightarrow> db \<Rightarrow> reprocess_request_row \<Rightarrow> reprocess_request_row" where
  "drain_row refuses locked now db r =
     (if rr_status r \<noteq> RR_pending \<or> locked (rr_id r) then r
      else if \<not> at_target r db then r\<lparr>rr_status := RR_superseded\<rparr>
      else case refuses r of
          Some err \<Rightarrow> r\<lparr>rr_attempt_count := rr_attempt_count r + 1, rr_last_error_code := Some (sanitizedEnqueueErrorCode err),
                        rr_last_attempted_at := Some now\<rparr>
        | None \<Rightarrow> r\<lparr>rr_status := RR_sent, rr_sent_at := Some now\<rparr>)"

definition sends :: "(reprocess_request_row \<Rightarrow> enqueue_error option) \<Rightarrow> (uuid \<Rightarrow> bool) \<Rightarrow> db \<Rightarrow> reprocess_request_row \<Rightarrow> bool" where
  "sends refuses locked db r \<longleftrightarrow> rr_status r = RR_pending \<and> \<not> locked (rr_id r) \<and> at_target r db \<and> refuses r = None"

definition reprocess_job :: "(string \<Rightarrow> string) \<Rightarrow> reprocess_request_row \<Rightarrow> pipeline_job" where
  "reprocess_job digest r =
     \<lparr>jb_id = reprocessJobId digest (rr_call_id r) (uuid_text (rr_review_queue_id r)), jb_callId = rr_call_id r, jb_delay = 0\<rparr>"

lemma at_target_cong: "call_state db = call_state db' \<Longrightarrow> at_target r db = at_target r db'"
  by (simp add: at_target_def)

lemma drain_row_id [simp]: "rr_id (drain_row refuses locked now db r) = rr_id r"
  by (simp add: drain_row_def split: option.split)

lemma due_step:
  assumes "R' = {x \<in> R. k x \<noteq> i} \<union> {y}" "k y = i" "p y \<Longrightarrow> i \<in> E'" "\<And>j. j \<noteq> i \<Longrightarrow> j \<in> E' \<longleftrightarrow> j \<in> E"
  shows "k ` {x \<in> R'. p x \<and> k x \<notin> E'} = k ` {x \<in> R. p x \<and> k x \<notin> E} - {i}"
  using assms by auto

text \<open>One item rewrites its own row, and adds a job exactly when it sends.\<close>

lemma reprocess_item_eq:
  assumes d: "distinct (map rr_id (reprocess_requests (dn_db s)))" and r: "r \<in> set (reprocess_requests (dn_db s))" "rr_status r = RR_pending"
  shows "let s' = reprocess_item digest refuses locked now (rr_id r) s in
    dn_db s' = (dn_db s)\<lparr>reprocess_requests := sql_update (\<lambda>x. rr_id x = rr_id r) (drain_row refuses locked now (dn_db s)) (reprocess_requests (dn_db s)),
        job_queue := job_queue (dn_db s) @ (if sends refuses locked (dn_db s) r then [reprocess_job digest r] else [])\<rparr>
    \<and> dn_enqueued s' = (if sends refuses locked (dn_db s) r then Suc (dn_enqueued s) else dn_enqueued s)
    \<and> dn_superseded s' = (if \<not> locked (rr_id r) \<and> \<not> at_target r (dn_db s) then Suc (dn_superseded s) else dn_superseded s)
    \<and> dn_failed s' = (if \<not> locked (rr_id r) \<and> at_target r (dn_db s) \<and> refuses r \<noteq> None then List.insert (rr_id r) (dn_failed s) else dn_failed s)
    \<and> dn_lockedSkipped s' = (if locked (rr_id r) then List.insert (rr_id r) (dn_lockedSkipped s) else dn_lockedSkipped s)"
proof -
  let ?db = "dn_db s"
  have lock: "lockPendingReprocessRequest (rr_id r) ?db = Some r"
    using sql_select_key [OF d r(1) refl, of "\<lambda>x. rr_status x = RR_pending"] r(2) by (simp add: lockPendingReprocessRequest_def)
  have upd: "sql_update (\<lambda>x. rr_id x = rr_id r \<and> rr_status x = RR_pending) f (reprocess_requests ?db)
      = sql_update (\<lambda>x. rr_id x = rr_id r) (drain_row refuses locked now ?db) (reprocess_requests ?db)"
    if "f r = drain_row refuses locked now ?db r" for f
    unfolding sql_update_def using that r(2) unique_row [OF d _ r(1)] by (auto intro!: map_cong)
  have keep: "sql_update (\<lambda>x. rr_id x = rr_id r) (drain_row refuses locked now ?db) (reprocess_requests ?db) = reprocess_requests ?db"
    if "drain_row refuses locked now ?db r = r"
    unfolding sql_update_def using that unique_row [OF d _ r(1)] by (intro map_idI) metis
  consider (locked) "locked (rr_id r)" | (gone) "\<not> locked (rr_id r)" "\<not> at_target r ?db"
    | (refused) err where "\<not> locked (rr_id r)" "at_target r ?db" "refuses r = Some err"
    | (sent) "\<not> locked (rr_id r)" "at_target r ?db" "refuses r = None" by (cases "refuses r") auto
  then show ?thesis
  proof cases
    case locked
    then show ?thesis by (simp add: reprocess_item_def reprocess_tx_def withTransaction_def sends_def keep drain_row_def)
  next
    case gone
    then show ?thesis
      by (simp add: reprocess_item_def reprocess_tx_def withTransaction_def sends_def lock markReprocessSuperseded_def r(2) upd drain_row_def)
  next
    case (refused err)
    then show ?thesis
      by (simp add: reprocess_item_def reprocess_tx_def withTransaction_def sends_def lock recordReprocessAttemptFailure_def r(2) upd drain_row_def)
  next
    case sent
    then show ?thesis
      by (simp add: reprocess_item_def reprocess_tx_def withTransaction_def sends_def lock markReprocessSent_def enqueueReprocess_def
          queue_add_def reprocess_job_def r(2) upd drain_row_def)
  qed
qed

definition drain_ok :: "drain_state \<Rightarrow> bool" where
  "drain_ok s \<longleftrightarrow> distinct (map rr_id (reprocess_requests (dn_db s)))"

definition drain_due :: "drain_state \<Rightarrow> uuid set" where
  "drain_due s = rr_id ` {r \<in> set (reprocess_requests (dn_db s)). rr_status r = RR_pending \<and> rr_id r \<notin> set (dn_failed s @ dn_lockedSkipped s)}"

interpretation outbox: drain_duty "reprocess_batch (Suc n)" "reprocess_item digest refuses locked now" drain_due drain_ok
  for n digest refuses locked now
proof
  fix s i
  show "finite (drain_due s)" by (simp add: drain_due_def)
  assume ok: "drain_ok s"
  then have d: "distinct (map rr_id (reprocess_requests (dn_db s)))" by (simp add: drain_ok_def)
  show "set (reprocess_batch (Suc n) s) \<subseteq> drain_due s" "distinct (reprocess_batch (Suc n) s)"
    "reprocess_batch (Suc n) s = [] \<Longrightarrow> drain_due s = {}"
    using sorted_batch [OF d] unfolding reprocess_batch_def listPendingReprocessRequestIds_def drain_due_def by blast+
  assume "i \<in> drain_due s"
  then obtain r where r: "r \<in> set (reprocess_requests (dn_db s))" "rr_status r = RR_pending" "i = rr_id r" by (auto simp: drain_due_def)
  let ?s = "reprocess_item digest refuses locked now i s"
  note eff = reprocess_item_eq [OF d r(1,2), of digest refuses locked now, unfolded Let_def, folded r(3)]
  have rows: "set (reprocess_requests (dn_db ?s)) = {x \<in> set (reprocess_requests (dn_db s)). rr_id x \<noteq> i} \<union> {drain_row refuses locked now (dn_db s) r}"
    using eff r unique_row [OF d _ r(1)] by (auto simp: set_sql_update)
  have out: "rr_status (drain_row refuses locked now (dn_db s) r) = RR_pending \<Longrightarrow> i \<in> set (dn_failed ?s @ dn_lockedSkipped ?s)"
    using eff r(2,3) by (auto simp: drain_row_def split: if_splits option.splits)
  have ex: "j \<in> set (dn_failed ?s @ dn_lockedSkipped ?s) \<longleftrightarrow> j \<in> set (dn_failed s @ dn_lockedSkipped s)" if "j \<noteq> i" for j
    using eff that by (simp only: set_append set_insert if_distrib [of set]) auto
  show "drain_due ?s = drain_due s - {i}" unfolding drain_due_def by (rule due_step [OF rows _ out ex]) (simp_all add: r(3))
  show "drain_ok ?s" using eff d by (simp add: drain_ok_def map_sql_update)
qed

lemma outbox_items:
  assumes d: "distinct (map rr_id (reprocess_requests db))" and "set rs \<subseteq> {r \<in> set (reprocess_requests db). rr_status r = RR_pending}" "distinct rs"
  shows "let s = fold (reprocess_item digest refuses locked now) (map rr_id rs)
      \<lparr>dn_db = db, dn_failed = [], dn_lockedSkipped = [], dn_enqueued = 0, dn_superseded = 0\<rparr> in
    dn_db s = db\<lparr>reprocess_requests := map (\<lambda>r. if r \<in> set rs then drain_row refuses locked now db r else r) (reprocess_requests db),
        job_queue := job_queue db @ map (reprocess_job digest) (filter (sends refuses locked db) rs)\<rparr>
    \<and> dn_enqueued s = length (filter (sends refuses locked db) rs)
    \<and> dn_superseded s = length (filter (\<lambda>r. \<not> locked (rr_id r) \<and> \<not> at_target r db) rs)
    \<and> length (dn_failed s) = length (filter (\<lambda>r. \<not> locked (rr_id r) \<and> at_target r db \<and> refuses r \<noteq> None) rs)
    \<and> set (dn_failed s) \<subseteq> rr_id ` set rs"
  using assms(2,3)
proof (induction rs rule: rev_induct)
  case Nil
  then show ?case by simp
next
  case (snoc r rs)
  let ?s = "fold (reprocess_item digest refuses locked now) (map rr_id rs)
      \<lparr>dn_db = db, dn_failed = [], dn_lockedSkipped = [], dn_enqueued = 0, dn_superseded = 0\<rparr>"
  let ?t = "map (\<lambda>x. if x \<in> set rs then drain_row refuses locked now db x else x) (reprocess_requests db)"
  have IH: "dn_db ?s = db\<lparr>reprocess_requests := ?t, job_queue := job_queue db @ map (reprocess_job digest) (filter (sends refuses locked db) rs)\<rparr>"
    "dn_enqueued ?s = length (filter (sends refuses locked db) rs)"
    "dn_superseded ?s = length (filter (\<lambda>r. \<not> locked (rr_id r) \<and> \<not> at_target r db) rs)"
    "length (dn_failed ?s) = length (filter (\<lambda>r. \<not> locked (rr_id r) \<and> at_target r db \<and> refuses r \<noteq> None) rs)"
    "set (dn_failed ?s) \<subseteq> rr_id ` set rs"
    using snoc by (auto simp: Let_def)
  have r: "r \<in> set (reprocess_requests db)" "rr_status r = RR_pending" "r \<notin> set rs" using snoc.prems by auto
  have target: "at_target x (dn_db ?s) = at_target x db" for x by (rule at_target_cong) (simp add: IH(1))
  have same: "drain_row refuses locked now (dn_db ?s) = drain_row refuses locked now db" "sends refuses locked (dn_db ?s) = sends refuses locked db"
    by (simp_all add: fun_eq_iff drain_row_def sends_def target)
  have "distinct (map rr_id (reprocess_requests (dn_db ?s)))" using d by (simp add: IH(1) o_def if_distrib cong: if_cong)
  moreover have "r \<in> set (reprocess_requests (dn_db ?s))" using r by (auto simp: IH(1) image_iff)
  ultimately have step: "let s' = reprocess_item digest refuses locked now (rr_id r) ?s in
      dn_db s' = (dn_db ?s)\<lparr>reprocess_requests := sql_update (\<lambda>x. rr_id x = rr_id r) (drain_row refuses locked now db) (reprocess_requests (dn_db ?s)),
        job_queue := job_queue (dn_db ?s) @ (if sends refuses locked db r then [reprocess_job digest r] else [])\<rparr>
      \<and> dn_enqueued s' = (if sends refuses locked db r then Suc (dn_enqueued ?s) else dn_enqueued ?s)
      \<and> dn_superseded s' = (if \<not> locked (rr_id r) \<and> \<not> at_target r db then Suc (dn_superseded ?s) else dn_superseded ?s)
      \<and> dn_failed s' = (if \<not> locked (rr_id r) \<and> at_target r db \<and> refuses r \<noteq> None then List.insert (rr_id r) (dn_failed ?s) else dn_failed ?s)"
    using reprocess_item_eq [of ?s r digest refuses locked now] r(2) unfolding same target Let_def by blast
  have rows: "sql_update (\<lambda>x. rr_id x = rr_id r) (drain_row refuses locked now db) ?t
      = map (\<lambda>x. if x \<in> set (rs @ [r]) then drain_row refuses locked now db x else x) (reprocess_requests db)"
  proof (rule sql_update_map)
    fix x assume "x \<in> set (reprocess_requests db)"
    then have "rr_id x = rr_id r \<longleftrightarrow> x = r" using unique_row [OF d _ r(1)] by blast
    with r(3) show "(if rr_id (if x \<in> set rs then drain_row refuses locked now db x else x) = rr_id r
        then drain_row refuses locked now db (if x \<in> set rs then drain_row refuses locked now db x else x)
        else if x \<in> set rs then drain_row refuses locked now db x else x)
      = (if x \<in> set (rs @ [r]) then drain_row refuses locked now db x else x)" by auto
  qed
  have fresh: "rr_id r \<notin> set (dn_failed ?s)"
  proof
    assume "rr_id r \<in> set (dn_failed ?s)"
    then obtain x where "x \<in> set rs" "rr_id x = rr_id r" using IH(5) by auto
    with snoc.prems(1) r(3) unique_row [OF d _ r(1), of x] show False by auto
  qed
  show ?case using step IH fresh r(1) unfolding Let_def map_append fold_append o_apply filter_append IH(1) db.simps rows by (auto simp: rows)
qed

lemma outbox_run:
  assumes d: "distinct (map rr_id (reprocess_requests db))" and "batchSize \<noteq> Some 0"
  shows "\<exists>result rs. drainPendingReprocessRequests digest refuses locked batchSize now db = Some (result,
        db\<lparr>reprocess_requests := map (drain_row refuses locked now db) (reprocess_requests db),
           job_queue := job_queue db @ map (reprocess_job digest) (filter (sends refuses locked db) rs)\<rparr>)
    \<and> distinct rs \<and> set rs = {r \<in> set (reprocess_requests db). rr_status r = RR_pending}
    \<and> dres_enqueued result = length (filter (sends refuses locked db) rs)
    \<and> dres_superseded result = length (filter (\<lambda>r. \<not> locked (rr_id r) \<and> \<not> at_target r db) rs)
    \<and> dres_failed result = length (filter (\<lambda>r. \<not> locked (rr_id r) \<and> at_target r db \<and> refuses r \<noteq> None) rs)"
proof -
  let ?s = "\<lparr>dn_db = db, dn_failed = [], dn_lockedSkipped = [], dn_enqueued = 0, dn_superseded = 0\<rparr>"
  let ?due = "{r \<in> set (reprocess_requests db). rr_status r = RR_pending}"
  obtain n where n: "batch_size batchSize = Suc n" using batch_size_pos [OF assms(2)] by blast
  have "drain_ok ?s" using d by (simp add: drain_ok_def)
  from outbox.drains [OF this, of n digest refuses locked now] obtain ids where ids: "distinct ids" "set ids = drain_due ?s"
    "drain_loop (reprocess_batch (Suc n)) (reprocess_item digest refuses locked now) ?s = Some (fold (reprocess_item digest refuses locked now) ids ?s)"
    by blast
  have "inj_on rr_id ?due" using unique_row [OF d] by (auto intro: inj_onI)
  moreover have "set ids = rr_id ` ?due" using ids(2) by (simp add: drain_due_def)
  ultimately obtain rs where rs: "ids = map rr_id rs" "set rs = ?due" "distinct rs" using rows_of_keys [OF _ ids(1)] by blast
  have rows: "map (\<lambda>r. if r \<in> set rs then drain_row refuses locked now db r else r) (reprocess_requests db)
      = map (drain_row refuses locked now db) (reprocess_requests db)"
    unfolding rs(2) by (auto simp: drain_row_def)
  show ?thesis
    using outbox_items [OF d _ rs(3), of digest refuses locked now] rs(2,3)
    unfolding drainPendingReprocessRequests_def n ids(3) rs(1) [symmetric] Let_def rows
    by (intro exI [of _ rs] exI) auto
qed

text \<open>The outbox is drained.  A run ends, with every pending request attempted once: a request locked elsewhere is left alone, one whose call has moved on
  is superseded, one the queue refuses stays pending with its attempt counted under a sanitized code, and every other is marked sent together with
  exactly one job for it.  Requests that were not pending and the calls are untouched, and the result counts what happened.\<close>

lemma outbox_drained:
  assumes "distinct (map rr_id (reprocess_requests db))" "batchSize \<noteq> Some 0"
  shows "\<exists>result db' sent. drainPendingReprocessRequests digest refuses locked batchSize now db = Some (result, db')
    \<and> reprocess_requests db' = map (drain_row refuses locked now db) (reprocess_requests db)
    \<and> job_queue db' = job_queue db @ map (reprocess_job digest) sent
    \<and> distinct sent \<and> set sent = set (filter (sends refuses locked db) (reprocess_requests db))
    \<and> dres_enqueued result = length sent
    \<and> dres_superseded result = length (filter (\<lambda>r. rr_status r = RR_pending \<and> \<not> locked (rr_id r) \<and> \<not> at_target r db) (reprocess_requests db))
    \<and> dres_failed result = length (filter (\<lambda>r. rr_status r = RR_pending \<and> \<not> locked (rr_id r) \<and> at_target r db \<and> refuses r \<noteq> None) (reprocess_requests db))
    \<and> call_state db' = call_state db"
proof -
  obtain result rs where run: "drainPendingReprocessRequests digest refuses locked batchSize now db = Some (result,
        db\<lparr>reprocess_requests := map (drain_row refuses locked now db) (reprocess_requests db),
           job_queue := job_queue db @ map (reprocess_job digest) (filter (sends refuses locked db) rs)\<rparr>)"
    and rs: "distinct rs" "set rs = {r \<in> set (reprocess_requests db). rr_status r = RR_pending}"
    and tally: "dres_enqueued result = length (filter (sends refuses locked db) rs)"
      "dres_superseded result = length (filter (\<lambda>r. \<not> locked (rr_id r) \<and> \<not> at_target r db) rs)"
      "dres_failed result = length (filter (\<lambda>r. \<not> locked (rr_id r) \<and> at_target r db \<and> refuses r \<noteq> None) rs)"
    using outbox_run [OF assms] by blast
  have count: "length (filter p rs) = length (filter (\<lambda>r. rr_status r = RR_pending \<and> p r) (reprocess_requests db))" for p
  proof -
    have "length (filter p rs) = card {r \<in> set rs. p r}" using distinct_card [OF distinct_filter [OF rs(1), of p]] by simp
    also have "{r \<in> set rs. p r} = {r \<in> set (reprocess_requests db). rr_status r = RR_pending \<and> p r}" unfolding rs(2) by auto
    finally show ?thesis by (simp only: count_rows [OF assms(1)])
  qed
  have sent: "set (filter (sends refuses locked db) rs) = set (filter (sends refuses locked db) (reprocess_requests db))"
    using rs(2) by (auto simp: sends_def)
  show ?thesis
    by (rule exI [of _ result], rule exI [of _ "db\<lparr>reprocess_requests := map (drain_row refuses locked now db) (reprocess_requests db),
           job_queue := job_queue db @ map (reprocess_job digest) (filter (sends refuses locked db) rs)\<rparr>"],
          rule exI [of _ "filter (sends refuses locked db) rs"])
       (use run tally rs(1) sent in \<open>simp add: count\<close>)
qed

definition outbox_db :: db where
  "outbox_db = (processing_db ST_extract)\<lparr>next_uuid := 1, reprocess_requests :=
     [\<lparr>rr_id = 0, rr_operator_action_id = 0, rr_call_id = ''c1'', rr_review_queue_id = 0, rr_target_stage = ''extract'', rr_requested_by = ''ann'',
       rr_status = RR_pending, rr_prior_stage = None, rr_prior_status = None, rr_prior_drop_reason = None, rr_attempt_count = 0,
       rr_last_error_code = None, rr_last_attempted_at = None, rr_created_at = 0, rr_sent_at = None\<rparr>]\<rparr>"

section \<open>The sweep\<close>

text \<open>A sweep adds call rows and jobs and changes nothing that is there.\<close>

definition extends :: "db \<Rightarrow> db \<Rightarrow> bool" where
  "extends db db' \<longleftrightarrow> (\<exists>cs js. db' = db\<lparr>call_state := call_state db @ cs, job_queue := job_queue db @ js\<rparr>)"

text \<open>A call the pipeline will handle: it has a row, and it has advanced, is dead-lettered, or has a job.\<close>

definition in_hand :: "(string \<Rightarrow> string) \<Rightarrow> string \<Rightarrow> db \<Rightarrow> bool" where
  "in_hand digest callId db \<longleftrightarrow>
     (case getCallState callId db of
        None \<Rightarrow> False
      | Some row \<Rightarrow> \<not> pristine_seed row \<or> hasDeadLetter callId db \<or> jobIdForCall digest callId \<in> jb_id ` set (job_queue db))"

lemma extends_refl [simp]: "extends db db"
  unfolding extends_def by (intro exI [of _ "[]"]) simp

lemma extends_trans: "extends a b \<Longrightarrow> extends b c \<Longrightarrow> extends a c"
  unfolding extends_def by fastforce

lemma extends_getCallState: "extends db db' \<Longrightarrow> getCallState c db = Some row \<Longrightarrow> getCallState c db' = Some row"
  by (cases "filter (\<lambda>r. cs_call_id r = c) (call_state db)") (auto simp: extends_def getCallState_def sql_select_def first_row_def)

lemma in_hand_mono: "extends db db' \<Longrightarrow> in_hand digest c db \<Longrightarrow> in_hand digest c db'"
proof -
  assume ext: "extends db db'" and "in_hand digest c db"
  then obtain row where row: "getCallState c db = Some row"
    "\<not> pristine_seed row \<or> hasDeadLetter c db \<or> jobIdForCall digest c \<in> jb_id ` set (job_queue db)"
    by (auto simp: in_hand_def split: option.splits)
  have "hasDeadLetter c db' = hasDeadLetter c db" "set (job_queue db) \<subseteq> set (job_queue db')"
    using ext by (auto simp: extends_def hasDeadLetter_def)
  with row extends_getCallState [OF ext row(1)] show ?thesis by (auto simp: in_hand_def)
qed

lemma alreadyInPipeline_in_hand: "alreadyInPipeline c db \<Longrightarrow> in_hand digest c db"
  by (auto simp: alreadyInPipeline_def in_hand_def split: option.splits if_splits)

lemma seed_extends:
  assumes "seedCallStateIfAbsent pg v db = (r, db')"
  shows "extends db db' \<and> job_queue db' = job_queue db \<and> (isl r \<or> getCallState (ci_callId v) db' \<noteq> None)"
proof -
  consider "db' = db" "isl r" | "db' = db" "ci_callId v \<in> cs_call_id ` set (call_state db)"
    | "db' = db\<lparr>call_state := call_state db @ [new_call_state pg v]\<rparr>"
    using assms by (auto simp: seedCallStateIfAbsent_def sql_exists_iff split: if_splits) (metis imageI)
  then show ?thesis
  proof cases
    case 3
    then have "extends db db'" unfolding extends_def by (intro exI [of _ "[new_call_state pg v]"] exI [of _ "[]"]) simp
    with 3 show ?thesis by (simp add: getCallState_None new_call_state_def)
  qed (simp_all add: getCallState_None)
qed

lemma ingestGap_cases:
  assumes "ingestGap deps call db = (res, db')"
  shows "extends db db' \<and> (case res of Inl e \<Rightarrow> True
     | Inr u \<Rightarrow> in_hand (rec_digest deps) (rc_callId call) db' \<and> length (job_queue db') = Suc (length (job_queue db)))"
proof -
  let ?v = "\<lparr>ci_callId = rc_callId call, ci_source = RECONCILIATION_SOURCE, ci_sourceMetadata = Some (listed_metadata call),
    ci_currentStage = pipeline_stage_name (PIPELINE_STAGES ! 0), ci_status = STATUS_PROCESSING\<rparr>"
  obtain r db1 where seed: "seedCallStateIfAbsent (rec_pg deps) ?v db = (r, db1)" by fastforce
  have ext: "extends db db1 \<and> job_queue db1 = job_queue db \<and> (isl r \<or> getCallState (rc_callId call) db1 \<noteq> None)"
    using seed_extends [OF seed] by simp
  show ?thesis
  proof (cases r)
    case (Inl e)
    with assms seed ext show ?thesis by (auto simp: ingestGap_def op_bind_def run_db_def)
  next
    case (Inr b)
    then obtain row where row: "getCallState (rc_callId call) db1 = Some row" using ext by auto
    show ?thesis
    proof (cases "rec_queue_refuses deps (jobIdForCall (rec_digest deps) (rc_callId call))")
      case (Some e)
      with assms seed Inr ext show ?thesis by (auto simp: ingestGap_def op_bind_def run_db_def op_throw_def)
    next
      case None
      have db': "db' = enqueueCall (rec_digest deps) (rc_callId call) db1" "res = Inr ()"
        using assms seed Inr None by (auto simp: ingestGap_def op_bind_def run_db_def run_write_def)
      have "extends db1 db'" unfolding db' extends_def enqueueCall_def queue_add_def by (intro exI [of _ "[]"] exI) simp
      moreover from this have "getCallState (rc_callId call) db' = Some row" using row by (rule extends_getCallState)
      ultimately show ?thesis using ext db' extends_trans
        by (auto simp: in_hand_def enqueueCall_def queue_add_def)
    qed
  qed
qed

fun first_listings :: "string list \<Rightarrow> recent_call list \<Rightarrow> recent_call list" where
  "first_listings seen [] = []"
| "first_listings seen (c # cs) =
     (if rc_callId c \<in> set seen then first_listings seen cs else c # first_listings (seen @ [rc_callId c]) cs)"

lemma first_listings_append:
  "first_listings seen (xs @ ys) = first_listings seen xs @ first_listings (seen @ map rc_callId (first_listings seen xs)) ys"
  by (induction seen xs rule: first_listings.induct) auto

lemma sweep_calls_cases:
  assumes "sweep_calls deps since calls seen gaps db = (res, db')"
  shows "extends db db' \<and> (case res of Inl e \<Rightarrow> True
     | Inr (seen', gaps') \<Rightarrow> seen' = seen @ map rc_callId (first_listings seen calls)
         \<and> gaps' + length (job_queue db) = gaps + length (job_queue db')
         \<and> (\<forall>c \<in> set (first_listings seen calls). shouldSweepListedCall c since \<longrightarrow> in_hand (rec_digest deps) (rc_callId c) db'))"
  using assms
proof (induction calls arbitrary: seen gaps db)
  case Nil
  then show ?case by (auto simp: op_return_def)
next
  case (Cons call calls)
  let ?seen = "seen @ [rc_callId call]"
  consider (dup) "rc_callId call \<in> set seen" | (out) "rc_callId call \<notin> set seen" "\<not> shouldSweepListedCall call since"
    | (in_pipeline) "rc_callId call \<notin> set seen" "shouldSweepListedCall call since" "alreadyInPipeline (rc_callId call) db"
    | (gap) "rc_callId call \<notin> set seen" "shouldSweepListedCall call since" "\<not> alreadyInPipeline (rc_callId call) db" by blast
  then show ?case
  proof cases
    case dup
    with Cons.prems have "sweep_calls deps since calls seen gaps db = (res, db')" by simp
    from Cons.IH [OF this] dup show ?thesis by (auto split: sum.splits)
  next
    case out
    with Cons.prems have "sweep_calls deps since calls ?seen gaps db = (res, db')" by simp
    from Cons.IH [OF this] out show ?thesis by (auto split: sum.splits)
  next
    case in_pipeline
    with Cons.prems have "sweep_calls deps since calls ?seen gaps db = (res, db')" by (simp add: op_bind_def run_read_def)
    note IH = Cons.IH [OF this]
    with in_pipeline show ?thesis
      by (auto split: sum.splits intro: in_hand_mono [OF conjunct1 [OF IH] alreadyInPipeline_in_hand])
  next
    case gap
    obtain r1 db1 where ingest: "ingestGap deps call db = (r1, db1)" by fastforce
    note step = ingestGap_cases [OF ingest]
    show ?thesis
    proof (cases r1)
      case (Inl e)
      with gap Cons.prems ingest step show ?thesis by (auto simp: op_bind_def run_read_def)
    next
      case (Inr u)
      with gap Cons.prems ingest have "sweep_calls deps since calls ?seen (gaps + 1) db1 = (res, db')" by (simp add: op_bind_def run_read_def)
      note IH = Cons.IH [OF this]
      have "in_hand (rec_digest deps) (rc_callId call) db'" using IH step Inr in_hand_mono by auto
      with IH gap step Inr show ?thesis by (auto split: sum.splits intro: extends_trans)
    qed
  qed
qed

text \<open>
  The calls a listing yields before it ends, fails or repeats a cursor.  A listing without such a chain keeps handing out new cursors for ever.
\<close>

inductive listing :: "reconciliation_deps \<Rightarrow> int \<Rightarrow> nat \<Rightarrow> string option \<Rightarrow> recent_call list \<Rightarrow> bool" for deps since where
  failed: "rec_list deps n since cursor = Inl e \<Longrightarrow> listing deps since n cursor []"
| ended: "rec_list deps n since cursor = Inr page \<Longrightarrow> rp_cursor page = None \<Longrightarrow> listing deps since n cursor (rp_calls page)"
| stuck: "rec_list deps n since cursor = Inr page \<Longrightarrow> rp_cursor page = Some c \<Longrightarrow> cursor = Some c \<Longrightarrow> listing deps since n cursor (rp_calls page)"
| more: "rec_list deps n since cursor = Inr page \<Longrightarrow> rp_cursor page = Some c \<Longrightarrow> cursor \<noteq> Some c \<Longrightarrow>
    listing deps since (Suc n) (Some c) calls \<Longrightarrow> listing deps since n cursor (rp_calls page @ calls)"

lemma sweep_pages_cases:
  assumes "listing deps since n cursor calls"
  shows "\<exists>res db'. sweep_pages deps since concluded n cursor seen gaps db = Some (res, db') \<and> extends db db'
    \<and> (case res of Inl e \<Rightarrow> True
       | Inr (seen', gaps') \<Rightarrow> seen' = seen @ map rc_callId (first_listings seen calls)
           \<and> gaps' + length (job_queue db) = gaps + length (job_queue db')
           \<and> (\<forall>c \<in> set (first_listings seen calls). shouldSweepListedCall c concluded \<longrightarrow> in_hand (rec_digest deps) (rc_callId c) db'))"
  using assms
proof (induction arbitrary: seen gaps db)
  case (failed n cursor e)
  then show ?case by (simp add: sweep_pages.simps)
next
  case (ended n cursor page)
  obtain res db' where run: "sweep_calls deps concluded (rp_calls page) seen gaps db = (res, db')" by fastforce
  from sweep_calls_cases [OF run] ended run show ?case by (cases res) (auto simp: sweep_pages.simps)
next
  case (stuck n cursor page c)
  obtain res db' where run: "sweep_calls deps concluded (rp_calls page) seen gaps db = (res, db')" by fastforce
  from sweep_calls_cases [OF run] stuck run show ?case by (cases res) (auto simp: sweep_pages.simps)
next
  case (more n cursor page c calls)
  obtain res db1 where run: "sweep_calls deps concluded (rp_calls page) seen gaps db = (res, db1)" by fastforce
  note first = sweep_calls_cases [OF run]
  show ?case
  proof (cases res)
    case (Inl e)
    with first more run show ?thesis by (simp add: sweep_pages.simps)
  next
    case (Inr x)
    then obtain seen1 gaps1 where x: "res = Inr (seen1, gaps1)" by (cases x) auto
    have rest: "sweep_pages deps since concluded n cursor seen gaps db = sweep_pages deps since concluded (Suc n) (Some c) seen1 gaps1 db1"
      using more run x by (subst sweep_pages.simps) simp
    obtain res' db' where IH: "sweep_pages deps since concluded (Suc n) (Some c) seen1 gaps1 db1 = Some (res', db')" "extends db1 db'"
      "case res' of Inl e \<Rightarrow> True
       | Inr (seen', gaps') \<Rightarrow> seen' = seen1 @ map rc_callId (first_listings seen1 calls)
           \<and> gaps' + length (job_queue db1) = gaps1 + length (job_queue db')
           \<and> (\<forall>c \<in> set (first_listings seen1 calls). shouldSweepListedCall c concluded \<longrightarrow> in_hand (rec_digest deps) (rc_callId c) db')"
      using more.IH by blast
    have "extends db db'" using first IH(2) extends_trans by blast
    moreover have "in_hand (rec_digest deps) (rc_callId c) db'"
      if "c \<in> set (first_listings seen (rp_calls page))" "shouldSweepListedCall c concluded" for c
      using first x that in_hand_mono [OF IH(2)] by auto
    ultimately show ?thesis using IH first x unfolding rest
      by (cases res') (auto simp: first_listings_append)
  qed
qed

lemma sweep_run:
  assumes "listing deps (sweep_since deps) 0 None calls"
  obtains res db' where "runReconciliation deps db = Some (res, db')" "extends db db'"
    "case res of Inl e \<Rightarrow> True
       | Inr (checked, gaps) \<Rightarrow> checked = length (first_listings [] calls) \<and> length (job_queue db') = length (job_queue db) + gaps
           \<and> list_all (\<lambda>c. if shouldSweepListedCall c (concluded_since deps) then in_hand (rec_digest deps) (rc_callId c) db' else True)
               (first_listings [] calls)"
proof -
  obtain res db' where run: "sweep_pages deps (sweep_since deps) (concluded_since deps) 0 None [] 0 db = Some (res, db')" "extends db db'"
    "case res of Inl e \<Rightarrow> True
       | Inr (seen', gaps') \<Rightarrow> seen' = [] @ map rc_callId (first_listings [] calls)
           \<and> gaps' + length (job_queue db) = 0 + length (job_queue db')
           \<and> (\<forall>c \<in> set (first_listings [] calls). shouldSweepListedCall c (concluded_since deps) \<longrightarrow> in_hand (rec_digest deps) (rc_callId c) db')"
    using sweep_pages_cases [OF assms] by blast
  then show ?thesis
    by (intro that [of "map_sum id (\<lambda>(seen, gaps). (length seen, gaps)) res" db']; cases res) (auto simp: runReconciliation_def list_all_iff)
qed

text \<open>C9: The sweep ends and leaves no gap.  For a listing that ends, fails or repeats a cursor, the sweep returns.  It only adds call rows and jobs; and when it
  succeeds, every call whose first listing concluded inside the window, or may have, is in the pipeline's hands: it has a row that has advanced, a dead letter,
  or a job in the queue.  The summary counts the distinct calls listed and the jobs added.\<close>

theorem sweep_leaves_no_gap:
  assumes "listing deps (sweep_since deps) 0 None calls"
  shows "case runReconciliation deps db of
      None \<Rightarrow> False
    | Some (Inl e, db') \<Rightarrow> extends db db'
    | Some (Inr (checked, gaps), db') \<Rightarrow> extends db db'
        \<and> checked = length (first_listings [] calls) \<and> length (job_queue db') = length (job_queue db) + gaps
        \<and> list_all (\<lambda>c. if shouldSweepListedCall c (concluded_since deps) then in_hand (rec_digest deps) (rc_callId c) db' else True)
             (first_listings [] calls)"
  by (rule sweep_run [OF assms, of db]) (auto simp only: option.case prod.case sum.case split: sum.splits prod.splits)

definition sample_reconciliation :: reconciliation_deps where
  "sample_reconciliation = \<lparr>rec_pg = sample_pg, rec_now = 7200000, RECONCILIATION_WINDOW_MINUTES = 30, RECONCILIATION_MAX_CALL_MINUTES = 60,
     rec_list = (\<lambda>_ _ _. Inr \<lparr>rp_calls = [\<lparr>rc_callId = ''c9'', rc_state = Some ''hangup'', rc_direction = None, rc_duration = Some 60, rc_startedAt = None, rc_endedAt = Some 7000000\<rparr>],
       rp_cursor = None\<rparr>), rec_digest = (\<lambda>s. s), rec_queue_refuses = (\<lambda>_. None)\<rparr>"

lemma sample_listing: "listing sample_reconciliation since n cursor
    [\<lparr>rc_callId = ''c9'', rc_state = Some ''hangup'', rc_direction = None, rc_duration = Some 60, rc_startedAt = None, rc_endedAt = Some 7000000\<rparr>]"
  using listing.ended [of sample_reconciliation n since cursor "\<lparr>rp_calls =
      [\<lparr>rc_callId = ''c9'', rc_state = Some ''hangup'', rc_direction = None, rc_duration = Some 60, rc_startedAt = None, rc_endedAt = Some 7000000\<rparr>], rp_cursor = None\<rparr>"]
  by (simp add: sample_reconciliation_def)

theorem sweep_leaves_no_gap_witness:
  "\<exists>res db'. runReconciliation sample_reconciliation (processing_db ST_redact) = Some (res, db') \<and> extends (processing_db ST_redact) db'"
  using sweep_leaves_no_gap [OF sample_listing, of "processing_db ST_redact"] by (auto split: option.splits prod.splits sum.splits)

section \<open>The cron\<close>

definition queues :: "db \<Rightarrow> review_queue_row list \<times> reprocess_request_row list" where
  "queues db = (review_queue db, reprocess_requests db)"

definition keeps_queues :: "db \<Rightarrow> db \<Rightarrow> bool" where
  "keeps_queues db db' \<longleftrightarrow> queues db' = queues db"

lemma recordAlert_queues [simp]: "recordAlertWithInsertStatus pg v db = (x, db') \<Longrightarrow> queues db' = queues db"
  by (auto simp: recordAlertWithInsertStatus_def queues_def Let_def split: option.splits if_splits)

lemma deliver_queues [simp]: "queues (aw_db (snd (deliverAlertRow config deps row w))) = queues (aw_db w)"
  by (auto simp: deliverAlertRow_def queues_def Let_def split: option.splits sum.splits prod.splits)

lemma deliver_all_queues: "queues (aw_db (snd (deliver_all config deps rows (r, w)))) = queues (aw_db w)"
proof (induction rows arbitrary: r w)
  case (Cons row rows)
  then show ?case using deliver_queues [of config deps row w] by (cases "deliverAlertRow config deps row w") simp
qed simp

lemma deliver_inserted_queues: "queues (aw_db (deliver_inserted config deps rs w)) = queues (aw_db w)"
proof (induction rs arbitrary: w)
  case (Cons x rs)
  then show ?case by (cases x) simp
qed simp

lemma record_escalations_queues [simp]: "record_escalations pg rows db = (x, db') \<Longrightarrow> queues db' = queues db"
proof (induction rows arbitrary: db x db')
  case (Cons row rows)
  obtain y db1 where first: "recordAlertWithInsertStatus pg (escalation_insert row) db = (y, db1)" by force
  then have "queues db1 = queues db" by (rule recordAlert_queues)
  with Cons first show ?case by (auto simp: op_bind_def op_return_def split: prod.splits sum.splits)
qed (simp add: op_return_def)

lemma emitAlert_queues [simp]: "queues (aw_db (snd (emitAlert config deps input w))) = queues (aw_db w)"
proof -
  have "queues (aw_db w') = queues db'" if "deliverAlertRow config deps row (w\<lparr>aw_db := db'\<rparr>) = (d, w')" for row db' d w'
    using deliver_queues [of config deps row "w\<lparr>aw_db := db'\<rparr>"] that by simp
  then show ?thesis by (auto simp: emitAlert_def Let_def split: option.splits prod.splits sum.splits dest: recordAlert_queues)
qed

lemma maintenance_queues: "keeps_queues db (runAlertMaintenance config deps m db)"
proof -
  have "queues (aw_db (snd (escalateAndDeliver config deps windowMs \<lparr>aw_db = db, aw_posts = []\<rparr>))) = queues db" for windowMs
    by (auto simp: escalateAndDeliver_def escalateStaleAlertsWithInsertStatus_def deliver_inserted_queues Let_def op_return_def
        split: prod.splits sum.splits if_splits dest: record_escalations_queues)
  then show ?thesis by (simp add: keeps_queues_def runAlertMaintenance_def retryPendingDeliveries_def deliver_all_queues Let_def)
qed

lemma sweep_error_queues: "keeps_queues db (snd (on_sweep_error config deps env err db))"
  by (auto simp: on_sweep_error_def keeps_queues_def split: fetch_error.split option.split)

text \<open>No review waits past its SLA without an alert, and no request waits in the outbox unless another drain holds it.\<close>

definition none_stalled :: "int \<Rightarrow> db \<Rightarrow> bool" where
  "none_stalled now db \<longleftrightarrow> filter (stalled now) (review_queue db) = []"

definition outbox_clear :: "(uuid \<Rightarrow> bool) \<Rightarrow> db \<Rightarrow> bool" where
  "outbox_clear locked db \<longleftrightarrow> filter (\<lambda>r. rr_status r = RR_pending \<and> \<not> locked (rr_id r)) (reprocess_requests db) = []"

lemma scan_clears:
  assumes "distinct (map rq_id (review_queue db))"
  shows "\<exists>result db'. scanStalledReviews pg env alert_fails locked None now db = Some (result, db')
    \<and> map rq_id (review_queue db') = map rq_id (review_queue db) \<and> reprocess_requests db' = reprocess_requests db
    \<and> (sr_failed result = 0 \<and> sr_lockedSkipped result = 0 \<longrightarrow> none_stalled now db')"
proof -
  let ?e = "escalates env alert_fails locked"
  obtain s :: scan_state and new where run: "scanStalledReviews pg env alert_fails locked None now db =
        Some (\<lparr>sr_escalated = ss_escalated s, sr_failed = length (ss_failed s), sr_lockedSkipped = length (ss_lockedSkipped s)\<rparr>, ss_db s)"
    and tab: "scan_tables pg ?e db (rq_id ` {r \<in> set (review_queue db). stalled now r}) new (ss_db s)"
    and tally: "ss_escalated s = card {r \<in> set (review_queue db). stalled now r \<and> ?e r}"
      "ss_escalated s + length (ss_failed s) + length (ss_lockedSkipped s) = card {r \<in> set (review_queue db). stalled now r}"
    using scan_run [OF assms, of None] by blast
  have "none_stalled now (ss_db s)" if "ss_failed s = []" "ss_lockedSkipped s = []"
  proof -
    have "{r \<in> set (review_queue db). stalled now r \<and> ?e r} = {r \<in> set (review_queue db). stalled now r}"
      using tally that by (intro card_subset_eq) auto
    then have "?e r" if "r \<in> set (review_queue db)" "stalled now r" for r using that by blast
    then show ?thesis using tab by (auto simp: none_stalled_def scan_tables_def filter_empty_conv escalate_row_def stalled_def)
  qed
  then show ?thesis using run tab by (auto simp: scan_tables_def escalate_row_def)
qed

lemma drain_clears:
  assumes "distinct (map rr_id (reprocess_requests db))"
  shows "\<exists>result db'. drainPendingReprocessRequests digest refuses locked None now db = Some (result, db') \<and> review_queue db' = review_queue db
    \<and> (dres_failed result = 0 \<longrightarrow> outbox_clear locked db')"
proof -
  obtain result rs where run: "drainPendingReprocessRequests digest refuses locked None now db = Some (result,
        db\<lparr>reprocess_requests := map (drain_row refuses locked now db) (reprocess_requests db),
           job_queue := job_queue db @ map (reprocess_job digest) (filter (sends refuses locked db) rs)\<rparr>)"
    and rs: "set rs = {r \<in> set (reprocess_requests db). rr_status r = RR_pending}"
    and tally: "dres_failed result = length (filter (\<lambda>r. \<not> locked (rr_id r) \<and> at_target r db \<and> refuses r \<noteq> None) rs)"
    using outbox_run [OF assms, of None] by blast
  have "rr_status (drain_row refuses locked now db r) \<noteq> RR_pending \<or> locked (rr_id r)"
    if "dres_failed result = 0" "r \<in> set (reprocess_requests db)" for r
  proof -
    have "rr_status r = RR_pending \<Longrightarrow> locked (rr_id r) \<or> \<not> at_target r db \<or> refuses r = None"
      using that tally rs by (auto simp: filter_empty_conv)
    then show ?thesis by (auto simp: drain_row_def split: option.split)
  qed
  then show ?thesis using run by (auto simp: outbox_clear_def filter_empty_conv)
qed

lemma closed_none_stalled: "none_stalled now db \<Longrightarrow> none_stalled now (closed_db pg r db)"
proof -
  have "\<not> stalled now (close_row pg RS_unresolvable a x)" for a x by (simp add: stalled_def close_row_def)
  then show "none_stalled now db \<Longrightarrow> none_stalled now (closed_db pg r db)"
    by (auto simp: none_stalled_def closed_db_def filter_empty_conv set_sql_update)
qed

lemma closed_requests [simp]: "reprocess_requests (closed_db pg r db) = reprocess_requests db"
  by (simp add: closed_db_def)

lemma abandon_keeps:
  assumes "distinct (map rq_id (review_queue db))"
  shows "\<exists>s. abandonUnfixableTranscriptHolds pg config locked ready None now db = Some s
    \<and> reprocess_requests (ab_db s) = reprocess_requests db \<and> (none_stalled now' db \<longrightarrow> none_stalled now' (ab_db s))"
proof (cases "TRANSCRIPT_ABANDON_ENABLED config")
  case False
  then show ?thesis by (simp add: abandonUnfixableTranscriptHolds_def)
next
  case True
  let ?s = "\<lparr>ab_db = db, ab_attempted = [], ab_closed = 0, ab_recovered = 0, ab_skipped = 0, ab_failed = 0\<rparr>"
  let ?P = "\<lambda>s. reprocess_requests (ab_db s) = reprocess_requests db \<and> (none_stalled now' db \<longrightarrow> none_stalled now' (ab_db s))"
  obtain n where n: "batch_size None = Suc n" using batch_size_pos by blast
  have step: "?P (abandon_item pg locked ready p s)"
    if ok: "abandon_ok s" and due: "p \<in> abandon_due (now - TRANSCRIPT_ABANDON_AFTER_MS config) s" and P: "?P s" for s p
  proof -
    obtain r where r: "r \<in> set (review_queue (ab_db s))" "rq_status r = RS_open" "rq_assignee r = None" "p = (rq_id r, rq_call_id r)"
      using due by (auto simp: abandon_due_def abandonable_def)
    have "ab_db (abandon_item pg locked ready p s) = ab_db s \<or> ab_db (abandon_item pg locked ready p s) = closed_db pg r (ab_db s)"
      using abandon_item_eq [OF _ r(1-3), of pg locked ready] ok r(4) by (auto simp: abandon_ok_def Let_def)
    then show ?thesis using P closed_none_stalled by auto
  qed
  have "abandon_ok ?s" using assms(1) by (simp add: abandon_ok_def)
  moreover have "?P ?s" by simp
  ultimately obtain s where
    "drain_loop (abandon_batch (now - TRANSCRIPT_ABANDON_AFTER_MS config) (Suc n)) (abandon_item pg locked ready) ?s = Some s" "?P s"
    using abandon.drains_invariant [where P = ?P, OF _ _ step] by blast
  with True n show ?thesis by (simp add: abandonUnfixableTranscriptHolds_def)
qed

text \<open>C10: A ping means the duties are done.  Suppose the Dialpad listing ends and the label-sync duty (a parameter) always returns and leaves the review queue and the
  outbox alone.  Then the cron returns, whatever the queue, the webhook, the alert inserts, the probes and the locks do.  When it fails nothing is pinged.  When it
  succeeds it pings its own check, and then every review past its SLA has been escalated and every outbox request that no concurrent drain holds has been sent
  or superseded.\<close>

theorem cron_ping_means_done:
  assumes "listing (sv_rec d) (sweep_since (sv_rec d)) 0 None calls"
    and "distinct (map rq_id (review_queue db0))" "distinct (map rr_id (reprocess_requests db0))"
    and "\<And>db. \<exists>r db'. sv_labelSync d db = Some (r, db') \<and> keeps_queues db db'"
  shows "\<exists>res pings db'. reconciliation_cron_main windowMinutes d db0 = Some (res, pings, db')
    \<and> (case res of
         Inl e \<Rightarrow> pings = []
       | Inr u \<Rightarrow> pings = pingSuccess (sv_url d) \<and> none_stalled (rec_now (sv_rec d)) db' \<and> outbox_clear (sv_request_locked d) db')"
proof -
  define db where "db = runAlertMaintenance (sv_alerts d) (sv_deliver d) windowMinutes db0"
  have q0: "review_queue db = review_queue db0" "reprocess_requests db = reprocess_requests db0"
    using maintenance_queues [of db0] by (simp_all add: db_def keeps_queues_def queues_def)
  note uniq = assms(2,3) [folded q0]
  let ?now = "rec_now (sv_rec d)"
  obtain sw db1 where sw: "runReconciliation (sv_rec d) db = Some (sw, db1)" "extends db db1"
    by (rule sweep_run [OF assms(1), of db])
  define db2 where "db2 = (case sw of Inr u \<Rightarrow> db1 | Inl err \<Rightarrow> snd (on_sweep_error (sv_alerts d) (sv_deliver d) (sv_env d) err db1))"
  have q2: "review_queue db2 = review_queue db" "reprocess_requests db2 = reprocess_requests db"
    using sw(2) sweep_error_queues [of db1] by (auto simp: db2_def extends_def keeps_queues_def queues_def split: sum.splits)
  obtain result db3 where scan: "scanStalledReviews (rec_pg (sv_rec d)) (sv_env d) (sv_alert_fails d) (sv_review_locked d) None ?now db2 = Some (result, db3)"
    "map rq_id (review_queue db3) = map rq_id (review_queue db)" "reprocess_requests db3 = reprocess_requests db"
    "sr_failed result = 0 \<and> sr_lockedSkipped result = 0 \<longrightarrow> none_stalled ?now db3"
    using scan_clears [of db2, where pg = "rec_pg (sv_rec d)" and env = "sv_env d" and alert_fails = "sv_alert_fails d" and locked = "sv_review_locked d"
        and now = ?now] uniq(1) by (auto simp: q2)
  obtain dres db4 where drain: "drainPendingReprocessRequests (rec_digest (sv_rec d)) (sv_enqueue_refuses d) (sv_request_locked d) None ?now db3 = Some (dres, db4)"
    "review_queue db4 = review_queue db3" "dres_failed dres = 0 \<longrightarrow> outbox_clear (sv_request_locked d) db4"
    using drain_clears [of db3, where digest = "rec_digest (sv_rec d)" and refuses = "sv_enqueue_refuses d" and locked = "sv_request_locked d"
        and now = ?now] uniq(2) scan(3) by auto
  obtain lres db5 where label: "sv_labelSync d db4 = Some (lres, db5)" "keeps_queues db4 db5" using assms(4) by blast
  have q5: "review_queue db5 = review_queue db3" "none_stalled ?now db5 = none_stalled ?now db3"
    "outbox_clear (sv_request_locked d) db5 = outbox_clear (sv_request_locked d) db4"
    using label(2) drain(2) by (simp_all add: keeps_queues_def queues_def none_stalled_def outbox_clear_def)
  obtain s where ab: "abandonUnfixableTranscriptHolds (rec_pg (sv_rec d)) (sv_abandon d) (sv_review_locked d) (isTranscriptReady (sv_fetchTranscript d)) None ?now db5 = Some s"
    "reprocess_requests (ab_db s) = reprocess_requests db5" "none_stalled ?now db5 \<longrightarrow> none_stalled ?now (ab_db s)"
    using abandon_keeps [of db5, where pg = "rec_pg (sv_rec d)" and config = "sv_abandon d" and locked = "sv_review_locked d"
        and ready = "isTranscriptReady (sv_fetchTranscript d)" and now = ?now and now' = ?now] scan(2) uniq(1) q5(1) by auto
  have clear: "outbox_clear (sv_request_locked d) (ab_db s) = outbox_clear (sv_request_locked d) db5" using ab(2) by (simp add: outbox_clear_def)
  show ?thesis
    using sw(1) scan drain(1,3) label(1) ab q5 clear
    by (cases sw; cases lres) (auto simp: reconciliation_cron_main_def db_def [symmetric] runReconciliationCron_def cron_duties_def run_duty_def Let_def db2_def)
qed

definition sample_service :: service_deps where
  "sample_service = \<lparr>sv_rec = sample_reconciliation, sv_env = ''test'', sv_url = Some ''https://ping'', sv_alert_fails = (\<lambda>_. None),
     sv_review_locked = (\<lambda>_. False), sv_request_locked = (\<lambda>_. False), sv_enqueue_refuses = (\<lambda>_. None),
     sv_abandon = \<lparr>TRANSCRIPT_ABANDON_ENABLED = True, TRANSCRIPT_ABANDON_AFTER_MS = 100\<rparr>,
     sv_fetchTranscript = (\<lambda>_. Inr TR_not_ready), sv_labelSync = (\<lambda>db. Some (Inr 0, db)), 
     sv_alerts = \<lparr>ALERT_WEBHOOK_URL = None, ALERT_WEBHOOK_TIMEOUT_MS = 1000, ALERT_DELIVERY_BACKOFF_MS = 1000, ALERT_DELIVERY_MAX_ATTEMPTS = 5, NODE_ENV = ''test''\<rparr>,
     sv_deliver = \<lparr>dd_zod_datetime = (\<lambda>_. True), dd_pg = sample_pg, dd_now = 7200000, dd_post = (\<lambda>_ _ _ _. Inr ())\<rparr>\<rparr>"

lemma held_queues:
  "distinct (map rq_id (review_queue (held_db st reason)))" "distinct (map rr_id (reprocess_requests (held_db st reason)))"
  by (simp_all add: held_db_def empty_db_def)

theorem cron_ping_means_done_witness:
  "\<exists>res pings db'. reconciliation_cron_main 30 sample_service (held_db ST_fetch_transcript HR_missing_transcript) = Some (res, pings, db')
    \<and> (case res of
         Inl e \<Rightarrow> pings = []
       | Inr u \<Rightarrow> pings = [''https://ping''] \<and> none_stalled 7200000 db' \<and> outbox_clear (\<lambda>_. False) db')"
proof -
  let ?c = "\<lparr>rc_callId = ''c9'', rc_state = Some ''hangup'', rc_direction = None, rc_duration = Some 60, rc_startedAt = None, rc_endedAt = Some 7000000\<rparr>"
  have "listing (sv_rec sample_service) (sweep_since (sv_rec sample_service)) 0 None [?c]"
    using sample_listing by (simp add: sample_service_def)
  moreover have "\<exists>r db'. sv_labelSync sample_service db = Some (r, db') \<and> keeps_queues db db'" for db
    by (simp add: sample_service_def keeps_queues_def)
  moreover have "pingSuccess (sv_url sample_service) = [''https://ping'']" "rec_now (sv_rec sample_service) = 7200000"
    "sv_request_locked sample_service = (\<lambda>_. False)"
    by (simp_all add: sample_service_def sample_reconciliation_def pingSuccess_def)
  ultimately show ?thesis using cron_ping_means_done [OF _ held_queues] by metis
qed

end
