(* ===== verification/Worker.thy ===== *)
theory Worker
  imports Reconciliation_Correct Runner_Correct
begin

text \<open>
  The pipeline worker: \<^verbatim>\<open>src/src/worker/worker.ts\<close>, \<^verbatim>\<open>src/src/worker/dead-letter.ts\<close> and \<^verbatim>\<open>src/src/worker/errors.ts\<close>.
  The processor and the \<^verbatim>\<open>failed\<close> listener are \<open>processJob\<close> and \<open>onJobFailed\<close>.  The queue that calls them, BullMQ, is not code of the
  repository: \<open>run_job\<close> states what the worker relies on it for.  It fetches a job, counts an attempt when the processor throws, hands the failed job
  to the listener, retries it until the attempts the job was added with are used up, and fetches a delayed job again without counting.  What the
  worker finds at each fetch (clock, handlers, maintenance flag) is the parameter \<open>env\<close>.
\<close>

section \<open>Failure metadata\<close>

record failed_job =
  fj_id :: "string option"
  fj_attemptsMade :: nat
  fj_callId :: "string option"
  fj_attempts :: "nat option"

text \<open>A thrown value: the runner's stage error, or anything else.\<close>

datatype job_error = StageError pipeline_stage_error | OtherError js_error

definition job_error_of :: "run_error \<Rightarrow> job_error" where
  "job_error_of e =
     (case e of
        StageFailed err \<Rightarrow> StageError err
      | RunDb err \<Rightarrow> OtherError (js_of_db err)
      | _ \<Rightarrow> OtherError (plain_error []))"

record sanitized_failure =
  sf_failedStage :: string
  sf_shortMessage :: string
  sf_snapshot :: json

definition sanitizeFailure :: "failed_job \<Rightarrow> job_error \<Rightarrow> sanitized_failure" where
  "sanitizeFailure job err =
     (let failedStage = (case err of StageError e \<Rightarrow> pipeline_stage_name (pse_stage e) | OtherError e \<Rightarrow> ''unknown'');
          errorName = (case err of StageError e \<Rightarrow> pse_causeName e | OtherError e \<Rightarrow> safeErrorName e);
          errorCode = (case err of StageError e \<Rightarrow> pse_causeCode e | OtherError e \<Rightarrow> safeErrorCode e)
      in \<lparr>sf_failedStage = failedStage,
          sf_shortMessage = ''Stage '' @ failedStage @ '' failed: '' @ errorName
            @ (case errorCode of None \<Rightarrow> [] | Some c \<Rightarrow> '' ('' @ c @ '')''),
          sf_snapshot = JObj
            ([(''call_id'', case fj_callId job of None \<Rightarrow> JNull | Some c \<Rightarrow> JStr c),
              (''job_id'', case fj_id job of None \<Rightarrow> JNull | Some i \<Rightarrow> JStr i),
              (''attempts_made'', jnat (fj_attemptsMade job)), (''failed_stage'', JStr failedStage),
              (''error_name'', JStr errorName)]
             @ (case errorCode of None \<Rightarrow> [] | Some c \<Rightarrow> [(''error_code'', JStr c)]))\<rparr>)"

definition failureContext :: "string option \<Rightarrow> string option \<Rightarrow> string \<Rightarrow> fail_context" where
  "failureContext callId jobId failedStage =
     (case callId of None \<Rightarrow> [] | Some c \<Rightarrow> if c = [] then [] else [(''call_id'', c)])
     @ (case jobId of None \<Rightarrow> [] | Some j \<Rightarrow> if j = [] then [] else [(''job_id'', j)])
     @ (if failedStage = [] then [] else [(''stage'', failedStage)])"

section \<open>The failed listener\<close>

definition handleExhaustedJob :: "pg \<Rightarrow> failed_job \<Rightarrow> job_error \<Rightarrow> unit hop" where
  "handleExhaustedJob pg job err =
     (let s = sanitizeFailure job err; callId = fj_callId job; ctx = failureContext callId (fj_id job) (sf_failedStage s) in
      op_bind (createFailure_op QUEUE_RETRY_EXHAUSTED PST_continuing ctx) (\<lambda>deadLetterFailure.
      op_bind (run_db (recordDeadLetter pg
         \<lparr>di_callId = callId, di_jobPayload = Some (JObj [(''callId'', case callId of None \<Rightarrow> JNull | Some c \<Rightarrow> JStr c)]),
          di_errorCode = ''QUEUE_RETRY_EXHAUSTED'', di_rootCauseCategory = ''QUEUE_RETRY_EXHAUSTED'',
          di_lastError = Some (sf_shortMessage s), di_failureSnapshot = Some (failureSnapshot deadLetterFailure)\<rparr>)) (\<lambda>_.
      op_bind (createFailure_op DEAD_LETTER_CREATED PST_continuing ctx) (\<lambda>alertFailure.
      op_bind (run_db (recordAlert pg
         \<lparr>ai_errorCode = error_code_name (ff_error_code alertFailure),
          ai_rootCauseCategory = error_code_name (ff_root_cause_category alertFailure), ai_severity = ff_severity alertFailure,
          ai_dedupKey = dedupKey alertFailure, ai_failureSnapshot = Some (failureSnapshot alertFailure)\<rparr>)) (\<lambda>_.
      op_return ())))))"

definition onJobFailed :: "pg \<Rightarrow> nat \<Rightarrow> failed_job \<Rightarrow> job_error \<Rightarrow> unit hop" where
  "onJobFailed pg WORKER_MAX_ATTEMPTS job err =
     (let s = sanitizeFailure job err;
          maxAttempts = (case fj_attempts job of None \<Rightarrow> WORKER_MAX_ATTEMPTS | Some n \<Rightarrow> n)
      in if fj_attemptsMade job \<ge> maxAttempts then
           op_bind (createFailure_op QUEUE_RETRY_EXHAUSTED PST_continuing
               (failureContext (fj_callId job) (fj_id job) (sf_failedStage s))) (\<lambda>failure.
           op_bind (run_db (appendLog pg
              \<lparr>le_callId = fj_callId job, le_stage = sf_failedStage s, le_outcome = ''failed'',
               le_errorCode = Some ''QUEUE_RETRY_EXHAUSTED'', le_detail = Some (sf_snapshot s),
               le_failureSnapshot = Some (failureSnapshot failure)\<rparr>)) (\<lambda>_.
           handleExhaustedJob pg job err))
         else op_bind (run_db (appendLog pg
              \<lparr>le_callId = fj_callId job, le_stage = sf_failedStage s, le_outcome = ''failed'', le_errorCode = None,
               le_detail = Some (sf_snapshot s), le_failureSnapshot = None\<rparr>)) (\<lambda>_. op_return ()))"

section \<open>Processing a job\<close>

definition BACKFILL_SYNTHETIC_SOURCE :: string where "BACKFILL_SYNTHETIC_SOURCE = ''dialpad-backfill-synthetic''"

record worker_env =
  we_pg :: pg
  we_handlers :: stage_handlers
  we_slaMinutesFor :: "held_reason \<Rightarrow> int"
  we_maintenance :: bool

datatype job_outcome = JobDelayed | JobDone | JobFailed job_error

definition processJob :: "worker_env \<Rightarrow> string \<Rightarrow> db \<Rightarrow> job_outcome \<times> db" where
  "processJob env callId db =
     (if we_maintenance env then (JobDelayed, db)
      else case getCallState callId db of
          Some state \<Rightarrow>
            if cs_source state = BACKFILL_SYNTHETIC_SOURCE then (JobDone, db)
            else (case runPipeline (we_pg env) (we_slaMinutesFor env) (we_handlers env) callId db of
                (Inr u, db') \<Rightarrow> (JobDone, db') | (Inl e, db') \<Rightarrow> (JobFailed (job_error_of e), db'))
        | None \<Rightarrow>
            (case runPipeline (we_pg env) (we_slaMinutesFor env) (we_handlers env) callId db of
                (Inr u, db') \<Rightarrow> (JobDone, db') | (Inl e, db') \<Rightarrow> (JobFailed (job_error_of e), db')))"

text \<open>What BullMQ does with a job from its \<open>k\<close>-th fetch, with \<open>made\<close> attempts used: whether the attempts ran out, and the database then.  An error of the
  listener is logged and dropped, with what it wrote before.\<close>

partial_function (option) run_job ::
    "(nat \<Rightarrow> worker_env) \<Rightarrow> nat \<Rightarrow> string \<Rightarrow> string \<Rightarrow> nat \<Rightarrow> nat \<Rightarrow> db \<Rightarrow> (bool \<times> db) option" where
  "run_job env attempts jobId callId k made db =
     (case processJob (env k) callId db of
        (JobDelayed, db1) \<Rightarrow> run_job env attempts jobId callId (Suc k) made db1
      | (JobDone, db1) \<Rightarrow> Some (False, db1)
      | (JobFailed err, db1) \<Rightarrow>
          let db2 = snd (onJobFailed (we_pg (env k)) attempts
                \<lparr>fj_id = Some jobId, fj_attemptsMade = Suc made, fj_callId = Some callId, fj_attempts = Some attempts\<rparr> err db1)
          in if Suc made \<ge> attempts then Some (True, db2) else run_job env attempts jobId callId (Suc k) (Suc made) db2)"

section \<open>Correctness\<close>

lemma failedStage_nonempty: "sf_failedStage (sanitizeFailure job err) \<noteq> []"
  by (cases err; cases "pse_stage (case err of StageError e \<Rightarrow> e | _ \<Rightarrow> undefined)")
     (auto simp: sanitizeFailure_def Let_def pipeline_stage_name_def split: pipeline_stage.splits)

definition dead_failure :: "failed_job \<Rightarrow> job_error \<Rightarrow> error_code \<Rightarrow> failure_fields" where
  "dead_failure job err code = the (createFailure code PST_continuing
     (Some (failureContext (fj_callId job) (fj_id job) (sf_failedStage (sanitizeFailure job err)))) None)"

lemma createFailure_op_dead:
  "createFailure_op code PST_continuing (failureContext (fj_callId job) (fj_id job) (sf_failedStage (sanitizeFailure job err)))
    = op_return (dead_failure job err code)"
  "ff_error_code (dead_failure job err code) = code"
  using createFailure_total [of code PST_continuing "Some (failureContext (fj_callId job) (fj_id job) (sf_failedStage (sanitizeFailure job err)))" None]
  by (auto simp: createFailure_op_def dead_failure_def)

lemma failed_log_row:
  assumes "le_stage v \<noteq> []" "le_outcome v \<noteq> []"
  obtains row where "appendLog pg v db = (Inr row, db\<lparr>next_uuid := Suc (next_uuid db), processing_log := processing_log db @ [row]\<rparr>)"
    "pl_call_id row = le_callId v" "pl_stage row = le_stage v" "pl_outcome row = le_outcome v" "pl_error_code row = le_errorCode v"
  using assms by (simp add: appendLog_def Let_def)

lemma recordDeadLetter_Inr:
  assumes "di_errorCode v \<noteq> []" "di_rootCauseCategory v \<noteq> []"
  obtains row where "recordDeadLetter pg v db = (Inr row, db\<lparr>next_uuid := Suc (next_uuid db), dead_letter := dead_letter db @ [row]\<rparr>)"
    "dl_call_id row = di_callId v" "dl_last_error row = di_lastError v"
  using assms by (simp add: recordDeadLetter_def Let_def)

text \<open>The listener never fails: an attempt that is not the last leaves one log row, the last one also a dead letter and an open alert.\<close>

definition dead_lettered :: "failed_job \<Rightarrow> job_error \<Rightarrow> db \<Rightarrow> db \<Rightarrow> bool" where
  "dead_lettered job err db db' \<longleftrightarrow>
     (\<exists>row letter new m. db' = db\<lparr>next_uuid := m, processing_log := processing_log db @ [row], dead_letter := dead_letter db @ [letter],
          alert_events := alert_events db @ new\<rparr>
        \<and> pl_call_id row = fj_callId job \<and> pl_error_code row = Some ''QUEUE_RETRY_EXHAUSTED'' \<and> dl_call_id letter = fj_callId job
        \<and> dl_last_error letter = Some (sf_shortMessage (sanitizeFailure job err))
        \<and> (\<exists>a \<in> set (alert_events db @ new). ae_dedup_key a = dedupKey (dead_failure job err DEAD_LETTER_CREATED) \<and> unacknowledged a))"

lemma onJobFailed_retry:
  assumes "fj_attempts job = Some n" "fj_attemptsMade job < n"
  obtains row where "onJobFailed pg w job err db = (Inr (), db\<lparr>next_uuid := Suc (next_uuid db), processing_log := processing_log db @ [row]\<rparr>)"
    "pl_call_id row = fj_callId job" "pl_stage row = sf_failedStage (sanitizeFailure job err)" "pl_outcome row = ''failed''" "pl_error_code row = None"
proof -
  let ?v = "\<lparr>le_callId = fj_callId job, le_stage = sf_failedStage (sanitizeFailure job err), le_outcome = ''failed'', le_errorCode = None,
     le_detail = Some (sf_snapshot (sanitizeFailure job err)), le_failureSnapshot = None\<rparr>"
  have "le_stage ?v \<noteq> []" "le_outcome ?v \<noteq> []" by (simp_all add: failedStage_nonempty)
  then show ?thesis by (rule failed_log_row [of ?v pg db]) (use assms that in \<open>simp add: onJobFailed_def Let_def op_bind_def run_db_def op_return_def\<close>)
qed

lemma onJobFailed_exhausted:
  assumes "fj_attempts job = Some n" "n \<le> fj_attemptsMade job"
  obtains db' where "onJobFailed pg w job err db = (Inr (), db')" "dead_lettered job err db db'"
proof -
  let ?s = "sanitizeFailure job err"
  let ?q = "dead_failure job err QUEUE_RETRY_EXHAUSTED" and ?f = "dead_failure job err DEAD_LETTER_CREATED"
  let ?l = "\<lparr>le_callId = fj_callId job, le_stage = sf_failedStage ?s, le_outcome = ''failed'', le_errorCode = Some ''QUEUE_RETRY_EXHAUSTED'',
     le_detail = Some (sf_snapshot ?s), le_failureSnapshot = Some (failureSnapshot ?q)\<rparr>"
  let ?d = "\<lparr>di_callId = fj_callId job, di_jobPayload = Some (JObj [(''callId'', case fj_callId job of None \<Rightarrow> JNull | Some c \<Rightarrow> JStr c)]),
     di_errorCode = ''QUEUE_RETRY_EXHAUSTED'', di_rootCauseCategory = ''QUEUE_RETRY_EXHAUSTED'', di_lastError = Some (sf_shortMessage ?s),
     di_failureSnapshot = Some (failureSnapshot ?q)\<rparr>"
  let ?v = "\<lparr>ai_errorCode = error_code_name (ff_error_code ?f), ai_rootCauseCategory = error_code_name (ff_root_cause_category ?f),
     ai_severity = ff_severity ?f, ai_dedupKey = dedupKey ?f, ai_failureSnapshot = Some (failureSnapshot ?f)\<rparr>"
  have "le_stage ?l \<noteq> []" "le_outcome ?l \<noteq> []" by (simp_all add: failedStage_nonempty)
  then obtain row where row: "appendLog pg ?l db = (Inr row, db\<lparr>next_uuid := Suc (next_uuid db), processing_log := processing_log db @ [row]\<rparr>)"
    "pl_call_id row = fj_callId job" "pl_error_code row = Some ''QUEUE_RETRY_EXHAUSTED''"
    by (rule failed_log_row [of ?l pg db]) simp
  let ?db1 = "db\<lparr>next_uuid := Suc (next_uuid db), processing_log := processing_log db @ [row]\<rparr>"
  have "di_errorCode ?d \<noteq> []" "di_rootCauseCategory ?d \<noteq> []" by simp_all
  then obtain letter where letter: "recordDeadLetter pg ?d ?db1 = (Inr letter, ?db1\<lparr>next_uuid := Suc (next_uuid ?db1), dead_letter := dead_letter ?db1 @ [letter]\<rparr>)"
    "dl_call_id letter = fj_callId job" "dl_last_error letter = Some (sf_shortMessage ?s)"
    by (rule recordDeadLetter_Inr [of ?d pg ?db1]) simp
  let ?db2 = "?db1\<lparr>next_uuid := Suc (next_uuid ?db1), dead_letter := dead_letter ?db1 @ [letter]\<rparr>"
  have "ai_errorCode ?v \<noteq> []" "ai_rootCauseCategory ?v \<noteq> []" "ai_dedupKey ?v \<noteq> []"
    using emit_insert_nonempty [of ?f] by (simp_all add: error_code_name_nonempty emit_insert_def)
  from recordAlert_Inr [OF this, of pg ?db2] obtain a b new m
    where alert: "recordAlertWithInsertStatus pg ?v ?db2 = (Inr (a, b), ?db2\<lparr>alert_events := alert_events ?db2 @ new, next_uuid := m\<rparr>)"
    and "\<exists>a \<in> set (alert_events ?db2 @ new). ae_dedup_key a = ai_dedupKey ?v \<and> unacknowledged a" by blast
  then have opened: "\<exists>a \<in> set (alert_events db @ new). ae_dedup_key a = dedupKey ?f \<and> unacknowledged a" by simp
  show ?thesis
  proof
    show "onJobFailed pg w job err db = (Inr (), ?db2\<lparr>alert_events := alert_events ?db2 @ new, next_uuid := m\<rparr>)"
      using assms row(1) letter(1) alert
      by (simp add: onJobFailed_def handleExhaustedJob_def Let_def createFailure_op_dead op_bind_def run_db_def recordAlert_def op_return_def)
    show "dead_lettered job err db (?db2\<lparr>alert_events := alert_events ?db2 @ new, next_uuid := m\<rparr>)"
      unfolding dead_lettered_def using row(2,3) letter(2,3) opened by (intro exI [of _ row] exI [of _ letter] exI [of _ new] exI [of _ m]) simp
  qed
qed

text \<open>The fetches before the last one, chained from one database to the next: \<open>n\<close> of them failed, each leaving one plain failure row of the call in
  the log and no dead letter; the others met the maintenance flag and changed nothing.\<close>

inductive retried :: "(nat \<Rightarrow> worker_env) \<Rightarrow> string \<Rightarrow> nat \<Rightarrow> db \<Rightarrow> nat \<Rightarrow> nat \<Rightarrow> db \<Rightarrow> bool" for env callId where
  fetched: "retried env callId k db 0 k db"
| delayed: "processJob (env k) callId db = (JobDelayed, db) \<Longrightarrow> retried env callId (Suc k) db n k' db' \<Longrightarrow> retried env callId k db n k' db'"
| failed: "processJob (env k) callId db = (JobFailed err, db1)
    \<Longrightarrow> pl_call_id row = Some callId \<Longrightarrow> pl_outcome row = ''failed'' \<Longrightarrow> pl_error_code row = None
    \<Longrightarrow> pl_stage row = (case err of StageError e \<Rightarrow> pipeline_stage_name (pse_stage e) | OtherError e \<Rightarrow> ''unknown'')
    \<Longrightarrow> retried env callId (Suc k) (db1\<lparr>next_uuid := Suc (next_uuid db1), processing_log := processing_log db1 @ [row]\<rparr>) n k' db'
    \<Longrightarrow> retried env callId k db (Suc n) k' db'"

lemma processJob_delayed: "processJob env c db = (JobDelayed, db1) \<Longrightarrow> we_maintenance env \<and> db1 = db"
  by (auto simp: processJob_def split: if_splits option.splits prod.splits sum.splits)

lemma run_job_ends:
  assumes "made < attempts" "\<forall>k \<ge> K. \<not> we_maintenance (env k)"
  shows "\<exists>dead db' n k' db1. run_job env attempts jobId callId k made db = Some (dead, db') \<and> retried env callId k db n k' db1
    \<and> (if dead
       then made + Suc n = attempts \<and> (\<exists>err db2. processJob (env k') callId db1 = (JobFailed err, db2)
         \<and> dead_lettered \<lparr>fj_id = Some jobId, fj_attemptsMade = attempts, fj_callId = Some callId, fj_attempts = Some attempts\<rparr> err db2 db')
       else made + n < attempts \<and> processJob (env k') callId db1 = (JobDone, db'))"
  using assms(1)
proof (induction "(K - k) + (attempts - made)" arbitrary: k made db rule: less_induct)
  case less
  obtain out db1 where p: "processJob (env k) callId db = (out, db1)" by fastforce
  show ?case
  proof (cases out)
    case JobDelayed
    then have d: "we_maintenance (env k)" "db1 = db" using processJob_delayed p by blast+
    then have "k < K" using assms(2) by (meson not_le)
    with less.prems have "(K - Suc k) + (attempts - made) < (K - k) + (attempts - made)" by simp
    from less.hyps [OF this less.prems, of db] show ?thesis
      unfolding run_job.simps [of env attempts jobId callId k made db] p JobDelayed prod.case job_outcome.case d(2)
      using delayed [of env k callId db] p JobDelayed d(2) by blast
  next
    case JobDone
    then show ?thesis using p less.prems fetched [of env callId k db] by - (rule exI [of _ False], rule exI [of _ db1], rule exI [of _ 0], rule exI [of _ k], rule exI [of _ db], auto simp: run_job.simps)
  next
    case (JobFailed err)
    let ?job = "\<lparr>fj_id = Some jobId, fj_attemptsMade = Suc made, fj_callId = Some callId, fj_attempts = Some attempts\<rparr>"
    show ?thesis
    proof (cases "Suc made \<ge> attempts")
      case True
      then have eq: "Suc made = attempts" using less.prems by simp
      obtain db2 where failed: "onJobFailed (we_pg (env k)) attempts ?job err db1 = (Inr (), db2)" "dead_lettered ?job err db1 db2"
        by (rule onJobFailed_exhausted [of ?job attempts "we_pg (env k)" attempts err db1]) (use eq in simp_all)
      have "run_job env attempts jobId callId k made db = Some (True, db2)"
        unfolding run_job.simps [of env attempts jobId callId k made db] p JobFailed prod.case job_outcome.case Let_def failed(1) using True by simp
      moreover have "dead_lettered \<lparr>fj_id = Some jobId, fj_attemptsMade = attempts, fj_callId = Some callId, fj_attempts = Some attempts\<rparr> err db1 db2"
        using failed(2) unfolding eq .
      ultimately show ?thesis using fetched [of env callId k db] p eq JobFailed
        by - (rule exI [of _ True], rule exI [of _ db2], rule exI [of _ 0], rule exI [of _ k], rule exI [of _ db], auto)
    next
      case False
      obtain row where row: "onJobFailed (we_pg (env k)) attempts ?job err db1
            = (Inr (), db1\<lparr>next_uuid := Suc (next_uuid db1), processing_log := processing_log db1 @ [row]\<rparr>)"
          "pl_call_id row = fj_callId ?job" "pl_stage row = sf_failedStage (sanitizeFailure ?job err)" "pl_outcome row = ''failed''" "pl_error_code row = None"
        by (rule onJobFailed_retry [of ?job attempts "we_pg (env k)" attempts err db1]) (use False in simp_all)
      let ?db2 = "db1\<lparr>next_uuid := Suc (next_uuid db1), processing_log := processing_log db1 @ [row]\<rparr>"
      have chain: "retried env callId (Suc k) ?db2 n k' db3 \<Longrightarrow> retried env callId k db (Suc n) k' db3" for n k' db3
        using failed [of env k callId db err db1 row n k' db3] p JobFailed row(2-5) by (simp add: sanitizeFailure_def Let_def)
      have "(K - Suc k) + (attempts - Suc made) < (K - k) + (attempts - made)" using False by simp
      from less.hyps [OF this, of ?db2] False obtain dead db' n k' db3 where
        "run_job env attempts jobId callId (Suc k) (Suc made) ?db2 = Some (dead, db')" "retried env callId (Suc k) ?db2 n k' db3"
        "if dead
         then Suc made + Suc n = attempts \<and> (\<exists>err db2. processJob (env k') callId db3 = (JobFailed err, db2)
           \<and> dead_lettered \<lparr>fj_id = Some jobId, fj_attemptsMade = attempts, fj_callId = Some callId, fj_attempts = Some attempts\<rparr> err db2 db')
         else Suc made + n < attempts \<and> processJob (env k') callId db3 = (JobDone, db')" by auto
      moreover have "run_job env attempts jobId callId k made db = run_job env attempts jobId callId (Suc k) (Suc made) ?db2"
        unfolding run_job.simps [of env attempts jobId callId k made db] p JobFailed prod.case job_outcome.case Let_def row(1) using False by simp
      ultimately show ?thesis using chain by - (rule exI [of _ dead], rule exI [of _ db'], rule exI [of _ "Suc n"], rule exI [of _ k'], rule exI [of _ db3], cases dead, simp_all)
    qed
  qed
qed

text \<open>Handlers that leave the calls to the runner never lose the call's row, whatever fails.\<close>

definition in_order :: "string \<Rightarrow> db \<Rightarrow> bool" where
  "in_order callId db \<longleftrightarrow> db_ok db \<and> spine_ok db \<and> getCallState callId db \<noteq> None"

lemma view_row: "view c db = None \<longleftrightarrow> getCallState c db = None"
  by (simp add: view_def)

lemma processJob_in_order:
  assumes "quiet_handlers (we_handlers env)" "in_order c db" "processJob env c db = (out, db')"
  shows "in_order c db'"
proof -
  have run: "in_order c db1" if "runPipeline (we_pg env) (we_slaMinutesFor env) (we_handlers env) c db = (r, db1)" for r db1
  proof -
    have "moves c db db1" using quiet_handlers.runPipeline_moves(1) [OF assms(1) _ _ _ that] assms(2) by (simp add: in_order_def view_row)
    then show ?thesis using assms(2) by (auto simp: moves_def in_order_def simp flip: view_row)
  qed
  show ?thesis using assms(2,3) run
    by (auto simp: processJob_def split: if_splits option.splits prod.splits sum.splits)
qed

lemma in_order_log:
  assumes "in_order c db"
  shows "in_order c (db\<lparr>next_uuid := Suc (next_uuid db), processing_log := l\<rparr>)"
  using assms by (auto simp: in_order_def db_ok_def spine_ok_def getCallState_def view_ok_def has_review_defs alerts_deduped_def view_def less_Suc_eq
      cong: if_cong)

lemma retried_in_order:
  assumes "retried env c k db n k' db'" "\<forall>k. quiet_handlers (we_handlers (env k))" "in_order c db"
  shows "in_order c db'"
  using assms by (induction) (blast intro: processJob_in_order in_order_log)+

lemma dead_lettered_blocks:
  assumes "dead_lettered job err db db'" "fj_callId job = Some c"
  shows "hasDeadLetter c db'" and "getCallState c db \<noteq> None \<Longrightarrow> alreadyInPipeline c db'"
proof -
  show dead: "hasDeadLetter c db'" using assms by (auto simp: dead_lettered_def hasDeadLetter_def sql_exists_iff)
  have "getCallState c db' = getCallState c db" using assms(1) by (auto simp: dead_lettered_def getCallState_def)
  then show "getCallState c db \<noteq> None \<Longrightarrow> alreadyInPipeline c db'" using dead by (auto simp: alreadyInPipeline_def)
qed

text \<open>C8: A job is never lost.  Suppose BullMQ retries as described and maintenance ends.  A job with at least one attempt comes to an end after some \<open>n\<close> failed
  fetches, each made on the database the one before left, each leaving one plain \<^verbatim>\<open>failed\<close> log row and no dead letter.  Either \<open>n\<close> is less than
  the number of attempts and the next fetch completes the job; or the next fetch is the last attempt and fails too, and exactly then the listener adds one
  dead letter of the call, one exhausted log row and, unless one is open, a dead-letter alert.  If the handlers leave the calls to the runner and the call had a
  row in an orderly database at the start, reconciliation counts it as in the pipeline afterwards and does not restart it.\<close>

theorem job_never_lost:
  assumes "0 < attempts" "\<forall>k \<ge> K. \<not> we_maintenance (env k)"
  shows "\<exists>dead db' n k db1. run_job env attempts jobId callId 0 0 db = Some (dead, db') \<and> retried env callId 0 db n k db1
    \<and> (if dead
       then Suc n = attempts
         \<and> (\<exists>err db2. processJob (env k) callId db1 = (JobFailed err, db2)
             \<and> dead_lettered \<lparr>fj_id = Some jobId, fj_attemptsMade = attempts, fj_callId = Some callId, fj_attempts = Some attempts\<rparr> err db2 db')
         \<and> hasDeadLetter callId db'
         \<and> ((\<forall>k. quiet_handlers (we_handlers (env k))) \<and> db_ok db \<and> spine_ok db \<and> getCallState callId db \<noteq> None \<longrightarrow> alreadyInPipeline callId db')
       else n < attempts \<and> processJob (env k) callId db1 = (JobDone, db'))"
proof -
  obtain dead db' n k db1 where run: "run_job env attempts jobId callId 0 0 db = Some (dead, db')" "retried env callId 0 db n k db1"
    and ends: "if dead
       then 0 + Suc n = attempts \<and> (\<exists>err db2. processJob (env k) callId db1 = (JobFailed err, db2)
         \<and> dead_lettered \<lparr>fj_id = Some jobId, fj_attemptsMade = attempts, fj_callId = Some callId, fj_attempts = Some attempts\<rparr> err db2 db')
       else 0 + n < attempts \<and> processJob (env k) callId db1 = (JobDone, db')"
    using run_job_ends [OF assms, of jobId callId 0 db] by blast
  show ?thesis
  proof (cases dead)
    case True
    then obtain err db2 where last: "Suc n = attempts" "processJob (env k) callId db1 = (JobFailed err, db2)"
      "dead_lettered \<lparr>fj_id = Some jobId, fj_attemptsMade = attempts, fj_callId = Some callId, fj_attempts = Some attempts\<rparr> err db2 db'"
      using ends by auto
    have "alreadyInPipeline callId db'"
      if "\<forall>k. quiet_handlers (we_handlers (env k))" "db_ok db" "spine_ok db" "getCallState callId db \<noteq> None"
    proof -
      have "in_order callId db" using that(2-4) by (simp add: in_order_def)
      then have "in_order callId db2" using retried_in_order [OF run(2) that(1)] processJob_in_order that(1) last(2) by blast
      then show ?thesis using dead_lettered_blocks(2) [OF last(3)] by (simp add: in_order_def)
    qed
    moreover have "hasDeadLetter callId db'" using dead_lettered_blocks(1) [OF last(3)] by simp
    ultimately have "Suc n = attempts
         \<and> (\<exists>err db2. processJob (env k) callId db1 = (JobFailed err, db2)
             \<and> dead_lettered \<lparr>fj_id = Some jobId, fj_attemptsMade = attempts, fj_callId = Some callId, fj_attempts = Some attempts\<rparr> err db2 db')
         \<and> hasDeadLetter callId db'
         \<and> ((\<forall>k. quiet_handlers (we_handlers (env k))) \<and> db_ok db \<and> spine_ok db \<and> getCallState callId db \<noteq> None \<longrightarrow> alreadyInPipeline callId db')"
      using last by blast
    with run True show ?thesis
      by - (rule exI [of _ dead], rule exI [of _ db'], rule exI [of _ n], rule exI [of _ k], rule exI [of _ db1], simp only: if_True simp_thms, blast)
  next
    case False
    then show ?thesis using run ends
      by - (rule exI [of _ dead], rule exI [of _ db'], rule exI [of _ n], rule exI [of _ k], rule exI [of _ db1], simp)
  qed
qed

definition sample_worker :: "nat \<Rightarrow> worker_env" where
  "sample_worker k = \<lparr>we_pg = sample_pg, we_handlers = defaultStageHandlers, we_slaMinutesFor = (\<lambda>_. 60), we_maintenance = (k < 2)\<rparr>"

theorem job_never_lost_witness:
  "\<exists>dead db' n k db1. run_job sample_worker 3 ''j1'' ''c1'' 0 0 empty_db = Some (dead, db') \<and> retried sample_worker ''c1'' 0 empty_db n k db1
    \<and> (if dead then Suc n = 3 \<and> hasDeadLetter ''c1'' db' else n < 3 \<and> processJob (sample_worker k) ''c1'' db1 = (JobDone, db'))"
proof -
  have "0 < (3 :: nat)" "\<forall>k \<ge> 2. \<not> we_maintenance (sample_worker k)" by (simp_all add: sample_worker_def)
  from job_never_lost [OF this, of "''j1''" "''c1''" empty_db] show ?thesis by (metis (full_types))
qed

end
