(* ===== verification/Batch_Loop.thy ===== *)
theory Batch_Loop
  imports Prelude
begin

text \<open>
  The other loop of the periodic jobs: a labelled step that reads a bounded batch, updates all of it in one transaction and says whether it found
  nothing (\<^verbatim>\<open>retention/purge.ts\<close>).  The locale \<open>batch_pass\<close> states what such a step does to the set of due keys; then the batches add up to
  one update of everything that was due, whatever the batch size and whichever rows a bounded select returned.
\<close>

text \<open>\<^verbatim>\<open>for (;;) { const done = await step(...); if (done) break; }\<close>, where the step may throw.\<close>

partial_function (option) until_done :: "('s \<Rightarrow> ('e + bool) \<times> 's) \<Rightarrow> 's \<Rightarrow> (('e + unit) \<times> 's) option" where
  "until_done body s =
     (case body s of
        (Inl e, s') \<Rightarrow> Some (Inl e, s')
      | (Inr b, s') \<Rightarrow> if b then Some (Inr (), s') else until_done body s')"

definition batch_body ::
    "('s \<Rightarrow> 'e option) \<Rightarrow> ('s \<Rightarrow> 'i list) \<Rightarrow> ('i list \<Rightarrow> 'i list) \<Rightarrow> ('i list \<Rightarrow> 's \<Rightarrow> 's) \<Rightarrow> 's \<Rightarrow> ('e + bool) \<times> 's" where
  "batch_body fault due pick act s =
     (case fault s of
        Some e \<Rightarrow> (Inl e, s)
      | None \<Rightarrow> if pick (due s) = [] then (Inr True, s) else (Inr False, act (pick (due s)) s))"

text \<open>A bounded select: some of the rows, none twice, and none only when there are none.\<close>

definition bounded_select :: "('i list \<Rightarrow> 'i list) \<Rightarrow> bool" where
  "bounded_select pick \<longleftrightarrow> (\<forall>xs. set (pick xs) \<subseteq> set xs \<and> (distinct xs \<longrightarrow> distinct (pick xs)) \<and> (pick xs = [] \<longrightarrow> xs = []))"

lemma take_bounded_select: "bounded_select (take (Suc n))"
  by (auto simp: bounded_select_def dest: in_set_takeD)

text \<open>Acting on some due keys takes exactly them out of the due set, and acting twice is acting once on both.\<close>

locale batch_pass =
  fixes due :: "'s \<Rightarrow> 'i list" and act :: "'i list \<Rightarrow> 's \<Rightarrow> 's" and ok :: "'s \<Rightarrow> bool"
  assumes due_distinct: "ok s \<Longrightarrow> distinct (due s)"
    and act_nil: "act [] s = s"
    and act_ok: "ok s \<Longrightarrow> set ids \<subseteq> set (due s) \<Longrightarrow> ok (act ids s)"
    and act_due: "ok s \<Longrightarrow> set ids \<subseteq> set (due s) \<Longrightarrow> set (due (act ids s)) = set (due s) - set ids"
    and act_join: "ok s \<Longrightarrow> set xs \<subseteq> set (due s) \<Longrightarrow> set ys \<subseteq> set (due s) - set xs \<Longrightarrow> act ys (act xs s) = act (xs @ ys) s"
begin

lemma passes:
  assumes "bounded_select pick" "ok s"
  shows "\<exists>r ids. until_done (batch_body fault due pick act) s = Some (r, act ids s) \<and> distinct ids \<and> set ids \<subseteq> set (due s)
    \<and> (case r of Inr u \<Rightarrow> set ids = set (due s) | Inl e \<Rightarrow> fault (act ids s) = Some e)"
  using assms(2)
proof (induction "card (set (due s))" arbitrary: s rule: less_induct)
  case less
  let ?ids = "pick (due s)"
  have pick: "set ?ids \<subseteq> set (due s)" "distinct ?ids" "?ids = [] \<Longrightarrow> due s = []"
    using assms(1) due_distinct [OF less.prems] unfolding bounded_select_def by blast+
  show ?case
  proof (cases "fault s")
    case (Some e)
    then show ?thesis by (intro exI [of _ "Inl e"] exI [of _ "[]"]) (simp add: until_done.simps [of _ s] batch_body_def act_nil)
  next
    case None
    show ?thesis
    proof (cases "?ids = []")
      case True
      with None pick(3) show ?thesis
        by (intro exI [of _ "Inr ()"] exI [of _ "[]"]) (simp add: until_done.simps [of _ s] batch_body_def act_nil)
    next
      case False
      let ?s = "act ?ids s"
      have due: "set (due ?s) = set (due s) - set ?ids" and ok: "ok ?s" using act_due [OF less.prems pick(1)] act_ok [OF less.prems pick(1)] .
      have "set (due ?s) \<subset> set (due s)" unfolding due using pick(1) False by (cases ?ids) auto
      then have "card (set (due ?s)) < card (set (due s))" by (simp add: psubset_card_mono)
      from less.hyps [OF this ok] obtain r ids where
        run: "until_done (batch_body fault due pick act) ?s = Some (r, act ids ?s)" and ids: "distinct ids" "set ids \<subseteq> set (due ?s)"
        and r: "case r of Inr u \<Rightarrow> set ids = set (due ?s) | Inl e \<Rightarrow> fault (act ids ?s) = Some e" by blast
      have "set ids \<subseteq> set (due s) - set ?ids" using ids(2) unfolding due .
      from act_join [OF less.prems pick(1) this] have join: "act ids ?s = act (?ids @ ids) s" .
      have "until_done (batch_body fault due pick act) s = Some (r, act (?ids @ ids) s)"
        unfolding until_done.simps [of _ s] using None False run by (simp add: batch_body_def join)
      moreover have "distinct (?ids @ ids)" "set (?ids @ ids) \<subseteq> set (due s)" using pick(1,2) ids due by auto
      moreover have "case r of Inr u \<Rightarrow> set (?ids @ ids) = set (due s) | Inl e \<Rightarrow> fault (act (?ids @ ids) s) = Some e"
        using r due pick(1) unfolding join by (auto split: sum.splits)
      ultimately show ?thesis by blast
    qed
  qed
qed

end

end
