(* ===== verification/Retention.thy ===== *)
theory Retention
  imports Batch_Loop Review_Repo Artifact_Repo Pipeline_Queue Reconciliation
begin

text \<open>
  The retention purge: \<^verbatim>\<open>src/src/retention/purge.ts\<close>, \<^verbatim>\<open>run.ts\<close> and \<^verbatim>\<open>src/src/services/retention-cron.ts\<close>.  The SQL is generic
  over its table, so a table is a record of its columns (\<open>cols\<close>): the key, the retention triplet, the soft-delete stamp and the hard-delete stamp
  with the scrub of that table.  A statement of the source may fail: \<open>fault\<close> says which labelled step fails in which state, and a failed step is rolled
  back and rethrown with its sanitised context.  The count queries of the CLEAN and single-table dry runs are outside every labelled step in the source; that they can
  throw too is not modelled.  \<^verbatim>\<open>LIMIT\<close> without \<^verbatim>\<open>ORDER BY\<close> is the parameter \<open>limit\<close>: which rows a bounded select returns.
  A day of \<^verbatim>\<open>make_interval\<close> is 24 hours, as in a session that runs in UTC.  The advisory locks are the two flags \<open>lockedA\<close>, \<open>lockedB\<close>.
\<close>

section \<open>Tables and statements\<close>

record ('r, 'k) cols =
  col_key :: "'r \<Rightarrow> 'k"
  col_eligible :: "'r \<Rightarrow> int option"
  col_soft :: "'r \<Rightarrow> int option"
  col_hard :: "'r \<Rightarrow> int option"
  set_soft :: "int \<Rightarrow> 'r \<Rightarrow> 'r"
  set_hard :: "int \<Rightarrow> 'r \<Rightarrow> 'r"
  get_rows :: "db \<Rightarrow> 'r list"
  put_rows :: "'r list \<Rightarrow> db \<Rightarrow> db"

definition raw_cols :: "(raw_transcript_row, string) cols" where
  "raw_cols = \<lparr>col_key = rt_call_id, col_eligible = rt_retention_eligible_at, col_soft = rt_soft_deleted_at, col_hard = rt_hard_deleted_at,
     set_soft = (\<lambda>t r. r\<lparr>rt_soft_deleted_at := Some t\<rparr>), set_hard = (\<lambda>t r. r\<lparr>rt_hard_deleted_at := Some t, rt_ciphertext := []\<rparr>),
     get_rows = raw_transcripts, put_rows = (\<lambda>rs db. db\<lparr>raw_transcripts := rs\<rparr>)\<rparr>"

definition vault_cols :: "(token_vault_row, string) cols" where
  "vault_cols = \<lparr>col_key = tv_call_id, col_eligible = tv_retention_eligible_at, col_soft = tv_soft_deleted_at, col_hard = tv_hard_deleted_at,
     set_soft = (\<lambda>t r. r\<lparr>tv_soft_deleted_at := Some t\<rparr>), set_hard = (\<lambda>t r. r\<lparr>tv_hard_deleted_at := Some t, tv_ciphertext := []\<rparr>),
     get_rows = token_vault, put_rows = (\<lambda>rs db. db\<lparr>token_vault := rs\<rparr>)\<rparr>"

definition clean_cols :: "(clean_transcript_row, string) cols" where
  "clean_cols = \<lparr>col_key = ct_call_id, col_eligible = ct_retention_eligible_at, col_soft = ct_soft_deleted_at, col_hard = ct_hard_deleted_at,
     set_soft = (\<lambda>t r. r\<lparr>ct_soft_deleted_at := Some t\<rparr>),
     set_hard = (\<lambda>t r. r\<lparr>ct_hard_deleted_at := Some t, ct_redacted_text := [], ct_redaction_reasons := []\<rparr>),
     get_rows = clean_transcripts, put_rows = (\<lambda>rs db. db\<lparr>clean_transcripts := rs\<rparr>)\<rparr>"

definition findings_cols :: "(redaction_finding_row, string) cols" where
  "findings_cols = \<lparr>col_key = rf_call_id, col_eligible = rf_retention_eligible_at, col_soft = rf_soft_deleted_at, col_hard = rf_hard_deleted_at,
     set_soft = (\<lambda>t r. r\<lparr>rf_soft_deleted_at := Some t\<rparr>),
     set_hard = (\<lambda>t r. r\<lparr>rf_hard_deleted_at := Some t, rf_value_hash := None, rf_residual_scan_result := JObj []\<rparr>),
     get_rows = redaction_findings, put_rows = (\<lambda>rs db. db\<lparr>redaction_findings := rs\<rparr>)\<rparr>"

definition webhook_cols :: "(raw_webhook_event_row, uuid) cols" where
  "webhook_cols = \<lparr>col_key = wh_id, col_eligible = wh_retention_eligible_at, col_soft = wh_soft_deleted_at, col_hard = wh_hard_deleted_at,
     set_soft = (\<lambda>t r. r\<lparr>wh_soft_deleted_at := Some t\<rparr>), set_hard = (\<lambda>t r. r\<lparr>wh_hard_deleted_at := Some t, wh_payload := JObj []\<rparr>),
     get_rows = raw_webhook_events, put_rows = (\<lambda>rs db. db\<lparr>raw_webhook_events := rs\<rparr>)\<rparr>"

definition match_cols :: "(match_key_row, uuid) cols" where
  "match_cols = \<lparr>col_key = mk_id, col_eligible = mk_retention_eligible_at, col_soft = mk_soft_deleted_at, col_hard = mk_hard_deleted_at,
     set_soft = (\<lambda>t r. r\<lparr>mk_soft_deleted_at := Some t\<rparr>),
     set_hard = (\<lambda>t r. r\<lparr>mk_hard_deleted_at := Some t, mk_phone_hmac := None, mk_name_hmac := None\<rparr>),
     get_rows = match_keys, put_rows = (\<lambda>rs db. db\<lparr>match_keys := rs\<rparr>)\<rparr>"

definition extract_cols :: "(extraction_candidate_row, string) cols" where
  "extract_cols = \<lparr>col_key = ec_call_id, col_eligible = ec_retention_eligible_at, col_soft = ec_soft_deleted_at, col_hard = ec_hard_deleted_at,
     set_soft = (\<lambda>t r. r\<lparr>ec_soft_deleted_at := Some t\<rparr>),
     set_hard = (\<lambda>t r. r\<lparr>ec_hard_deleted_at := Some t, ec_pii_scan_counts := None,
       ec_payload := (ec_payload r)\<lparr>kp_problem_statement := None, kp_location_in_home := None, kp_access_or_scheduling_notes := None,
         kp_prior_attempts := None, kp_acquisition_source := None, kp_symptoms := [], kp_customer_language := [], kp_concerns := [],
         kp_competitor_mentions := []\<rparr>\<rparr>),
     get_rows = extraction_candidates, put_rows = (\<lambda>rs db. db\<lparr>extraction_candidates := rs\<rparr>)\<rparr>"

record retention_window =
  softDays :: int
  hardDays :: int

definition days_ms :: "int \<Rightarrow> int" where "days_ms d = d * 86400000"

definition soft_due :: "('r, 'k) cols \<Rightarrow> retention_window \<Rightarrow> int \<Rightarrow> 'r \<Rightarrow> bool" where
  "soft_due t w now r \<longleftrightarrow>
     (case col_eligible t r of None \<Rightarrow> False | Some e \<Rightarrow> e \<le> now - days_ms (softDays w)) \<and> col_soft t r = None"

definition past_grace :: "('r, 'k) cols \<Rightarrow> retention_window \<Rightarrow> int \<Rightarrow> 'r \<Rightarrow> bool" where
  "past_grace t w now r \<longleftrightarrow> (case col_soft t r of None \<Rightarrow> False | Some s \<Rightarrow> s \<le> now - days_ms (hardDays w - softDays w))"

definition hard_due :: "('r, 'k) cols \<Rightarrow> retention_window \<Rightarrow> int \<Rightarrow> 'r \<Rightarrow> bool" where
  "hard_due t w now r \<longleftrightarrow>
     (case col_eligible t r of None \<Rightarrow> False | Some e \<Rightarrow> e \<le> now - days_ms (hardDays w)) \<and> past_grace t w now r \<and> col_hard t r = None"

definition update_rows :: "('r, 'k) cols \<Rightarrow> ('r \<Rightarrow> bool) \<Rightarrow> ('r \<Rightarrow> 'r) \<Rightarrow> db \<Rightarrow> nat \<times> db" where
  "update_rows t p f db = (length (filter p (get_rows t db)), put_rows t (sql_update p f (get_rows t db)) db)"

definition soft_delete :: "('r, 'k) cols \<Rightarrow> int \<Rightarrow> 'k list \<Rightarrow> db \<Rightarrow> nat \<times> db" where
  "soft_delete t now ids = update_rows t (\<lambda>r. col_key t r \<in> set ids \<and> col_soft t r = None) (set_soft t now)"

definition hard_delete :: "('r, 'k) cols \<Rightarrow> int \<Rightarrow> 'k list \<Rightarrow> db \<Rightarrow> nat \<times> db" where
  "hard_delete t now ids = update_rows t (\<lambda>r. col_key t r \<in> set ids \<and> col_hard t r = None) (set_hard t now)"

section \<open>Steps, reports and loops\<close>

datatype purge_kind = Soft_delete | Hard_delete | Held_cap_purge

definition purge_kind_name :: "purge_kind \<Rightarrow> string" where
  "purge_kind_name k = (case k of Soft_delete \<Rightarrow> ''soft_delete'' | Hard_delete \<Rightarrow> ''hard_delete'' | Held_cap_purge \<Rightarrow> ''held_cap_purge'')"

record purge_error =
  pe_group :: string
  pe_table :: string
  pe_action :: purge_kind
  pe_dry_run :: bool
  pe_sqlstate :: "string option"

record purge_action =
  pa_table :: string
  pa_group :: string
  pa_action :: purge_kind
  pa_window :: string
  pa_count :: nat

record group_count =
  gc_group :: string
  gc_action :: purge_kind
  gc_calls :: nat

type_synonym purge_counts = "purge_action list \<times> group_count list"

text \<open>A purge operation may not end, fail at a step, or return.\<close>

type_synonym 'a pop = "db \<Rightarrow> ((purge_error + 'a) \<times> db) option"

definition pop_bind :: "'a pop \<Rightarrow> ('a \<Rightarrow> 'b pop) \<Rightarrow> 'b pop" where
  "pop_bind m f db = Option.bind (m db) (\<lambda>(r, db'). case r of Inl e \<Rightarrow> Some (Inl e, db') | Inr a \<Rightarrow> f a db')"

definition pop_return :: "'a \<Rightarrow> 'a pop" where "pop_return a db = Some (Inr a, db)"

type_synonym faults = "purge_error \<Rightarrow> db \<Rightarrow> string option option"

definition step_meta :: "string \<Rightarrow> string \<Rightarrow> purge_kind \<Rightarrow> bool \<Rightarrow> purge_error" where
  "step_meta grp table action dry = \<lparr>pe_group = grp, pe_table = table, pe_action = action, pe_dry_run = dry, pe_sqlstate = None\<rparr>"

text \<open>\<^verbatim>\<open>step\<close>: a fault carries the thrown error's SQLSTATE, when it has one; an empty one is dropped.\<close>

definition purge_step :: "faults \<Rightarrow> purge_error \<Rightarrow> ('s \<Rightarrow> db) \<Rightarrow> ('s \<Rightarrow> 'a \<times> 's) \<Rightarrow> 's \<Rightarrow> (purge_error + 'a) \<times> 's" where
  "purge_step fault meta db_of fn s =
     (case fault meta (db_of s) of
        Some code \<Rightarrow> (Inl (meta\<lparr>pe_sqlstate := (case code of Some c \<Rightarrow> if c = [] then None else Some c | None \<Rightarrow> None)\<rparr>), s)
      | None \<Rightarrow> (case fn s of (a, s') \<Rightarrow> (Inr a, s')))"

definition window_text :: "retention_window \<Rightarrow> string" where
  "window_text w = ''soft='' @ int_text (softDays w) @ ''d hard='' @ int_text (hardDays w) @ ''d''"

record pass_state =
  ps_db :: db
  ps_blocked :: "string set"
  ps_calls :: nat
  ps_parent :: nat
  ps_child :: nat

definition pass_result :: "((purge_error + unit) \<times> pass_state) option \<Rightarrow> ((purge_error + nat \<times> nat \<times> nat) \<times> db) option" where
  "pass_result = map_option (\<lambda>(r, s). (map_sum id (\<lambda>_. (ps_calls s, ps_parent s, ps_child s)) r, ps_db s))"

definition pass_start :: "db \<Rightarrow> pass_state" where
  "pass_start db = \<lparr>ps_db = db, ps_blocked = {}, ps_calls = 0, ps_parent = 0, ps_child = 0\<rparr>"

text \<open>One batch of a pass on the surviving ids: the update's row counts for parent and child.\<close>

definition apply_batch :: "(string list \<Rightarrow> db \<Rightarrow> (nat \<times> nat) \<times> db) \<Rightarrow> string list \<Rightarrow> pass_state \<Rightarrow> pass_state" where
  "apply_batch update ids s =
     (case update ids (ps_db s) of
        ((p, c), db') \<Rightarrow> s\<lparr>ps_db := db', ps_calls := ps_calls s + length ids, ps_parent := ps_parent s + p, ps_child := ps_child s + c\<rparr>)"

section \<open>The RAW group\<close>

definition blocks_raw :: "review_queue_row \<Rightarrow> bool" where
  "blocks_raw rq \<longleftrightarrow> rq_status rq \<in> {RS_open, RS_in_review, RS_unresolvable} \<and> rq_raw_purged_at rq = None"

definition blockedRawCallIds :: "string list \<Rightarrow> db \<Rightarrow> string list" where
  "blockedRawCallIds callIds db = remdups (map rq_call_id (sql_select (\<lambda>rq. rq_call_id rq \<in> set callIds \<and> blocks_raw rq) (review_queue db)))"

definition rawPass_body ::
    "faults \<Rightarrow> (nat \<Rightarrow> string list \<Rightarrow> string list) \<Rightarrow> nat \<Rightarrow> purge_error \<Rightarrow> (db \<Rightarrow> string list)
      \<Rightarrow> (string list \<Rightarrow> db \<Rightarrow> (nat \<times> nat) \<times> db) \<Rightarrow> pass_state \<Rightarrow> (purge_error + bool) \<times> pass_state" where
  "rawPass_body fault limit batch meta select applyUpdate =
     purge_step fault meta ps_db (\<lambda>s.
       let ids = limit batch (filter (\<lambda>c. c \<notin> ps_blocked s) (select (ps_db s))) in
       if ids = [] then (True, s)
       else
         let nowBlocked = blockedRawCallIds ids (ps_db s);
             s1 = s\<lparr>ps_blocked := ps_blocked s \<union> set nowBlocked\<rparr>;
             survivors = filter (\<lambda>c. c \<notin> set nowBlocked) ids
         in (False, if survivors = [] then s1 else apply_batch applyUpdate survivors s1))"

definition rawPass ::
    "faults \<Rightarrow> (nat \<Rightarrow> string list \<Rightarrow> string list) \<Rightarrow> nat \<Rightarrow> purge_error \<Rightarrow> (db \<Rightarrow> string list)
      \<Rightarrow> (string list \<Rightarrow> db \<Rightarrow> (nat \<times> nat) \<times> db) \<Rightarrow> (nat \<times> nat \<times> nat) pop" where
  "rawPass fault limit batch meta select applyUpdate db =
     pass_result (until_done (rawPass_body fault limit batch meta select applyUpdate) (pass_start db))"

text \<open>The four selections of a coupled group, with the calls a predicate blocks left out, and its four updates.\<close>

definition parent_soft_rows :: "('p, string) cols \<Rightarrow> retention_window \<Rightarrow> (string \<Rightarrow> bool) \<Rightarrow> int \<Rightarrow> db \<Rightarrow> 'p list" where
  "parent_soft_rows p w blocked now db = filter (\<lambda>r. soft_due p w now r \<and> \<not> blocked (col_key p r)) (get_rows p db)"

definition parent_hard_rows ::
    "('p, string) cols \<Rightarrow> ('c, string) cols \<Rightarrow> retention_window \<Rightarrow> (string \<Rightarrow> bool) \<Rightarrow> int \<Rightarrow> db \<Rightarrow> 'p list" where
  "parent_hard_rows p c w blocked now db =
     filter (\<lambda>r. hard_due p w now r \<and> \<not> blocked (col_key p r)
       \<and> \<not> sql_exists (\<lambda>x. col_key c x = col_key p r \<and> col_hard c x = None \<and> \<not> past_grace c w now x) (get_rows c db)) (get_rows p db)"

definition orphan_soft_rows ::
    "('p, string) cols \<Rightarrow> ('c, string) cols \<Rightarrow> retention_window \<Rightarrow> (string \<Rightarrow> bool) \<Rightarrow> int \<Rightarrow> db \<Rightarrow> 'c list" where
  "orphan_soft_rows p c w blocked now db =
     filter (\<lambda>x. soft_due c w now x \<and> \<not> sql_exists (\<lambda>r. col_key p r = col_key c x) (get_rows p db) \<and> \<not> blocked (col_key c x)) (get_rows c db)"

definition orphan_hard_rows ::
    "('p, string) cols \<Rightarrow> ('c, string) cols \<Rightarrow> retention_window \<Rightarrow> (string \<Rightarrow> bool) \<Rightarrow> int \<Rightarrow> db \<Rightarrow> 'c list" where
  "orphan_hard_rows p c w blocked now db =
     filter (\<lambda>x. hard_due c w now x \<and> \<not> sql_exists (\<lambda>r. col_key p r = col_key c x) (get_rows p db) \<and> \<not> blocked (col_key c x)) (get_rows c db)"

definition parent_keys :: "('r, string) cols \<Rightarrow> 'r list \<Rightarrow> string list" where
  "parent_keys t rows = map (col_key t) rows"

definition distinct_keys :: "('r, string) cols \<Rightarrow> 'r list \<Rightarrow> string list" where
  "distinct_keys t rows = remdups (map (col_key t) rows)"

definition couple ::
    "(string list \<Rightarrow> db \<Rightarrow> nat \<times> db) \<Rightarrow> (string list \<Rightarrow> db \<Rightarrow> nat \<times> db) \<Rightarrow> string list \<Rightarrow> db \<Rightarrow> (nat \<times> nat) \<times> db" where
  "couple up uc ids db = (case up ids db of (m, db1) \<Rightarrow> case uc ids db1 of (n, db2) \<Rightarrow> ((m, n), db2))"

definition child_only :: "(string list \<Rightarrow> db \<Rightarrow> nat \<times> db) \<Rightarrow> string list \<Rightarrow> db \<Rightarrow> (nat \<times> nat) \<times> db" where
  "child_only uc ids db = (case uc ids db of (n, db') \<Rightarrow> ((0, n), db'))"

record coupled_spec =
  sp_group :: string
  sp_parent :: string
  sp_child :: string
  sp_window :: retention_window

definition purge_act :: "coupled_spec \<Rightarrow> string \<Rightarrow> purge_kind \<Rightarrow> nat \<Rightarrow> purge_action" where
  "purge_act spec table kind n =
     \<lparr>pa_table = table, pa_group = sp_group spec, pa_action = kind, pa_window = window_text (sp_window spec), pa_count = n\<rparr>"

definition group_calls :: "string \<Rightarrow> purge_kind \<Rightarrow> nat \<Rightarrow> group_count" where
  "group_calls grp kind n = \<lparr>gc_group = grp, gc_action = kind, gc_calls = n\<rparr>"

text \<open>The order in which a group reports: the real run, and the dry run.\<close>

definition run_report :: "coupled_spec \<Rightarrow> nat \<times> nat \<Rightarrow> nat \<times> nat \<Rightarrow> nat \<Rightarrow> nat \<Rightarrow> purge_counts" where
  "run_report spec soft hard softCalls hardCalls =
     ([purge_act spec (sp_parent spec) Soft_delete (fst soft), purge_act spec (sp_child spec) Soft_delete (snd soft),
       purge_act spec (sp_parent spec) Hard_delete (fst hard), purge_act spec (sp_child spec) Hard_delete (snd hard)],
      [group_calls (sp_group spec) Soft_delete softCalls, group_calls (sp_group spec) Hard_delete hardCalls])"

definition dry_report :: "coupled_spec \<Rightarrow> nat \<times> nat \<Rightarrow> nat \<times> nat \<Rightarrow> nat \<Rightarrow> nat \<Rightarrow> purge_counts" where
  "dry_report spec soft hard softCalls hardCalls =
     ([purge_act spec (sp_parent spec) Soft_delete (fst soft), purge_act spec (sp_parent spec) Hard_delete (fst hard),
       purge_act spec (sp_child spec) Soft_delete (snd soft), purge_act spec (sp_child spec) Hard_delete (snd hard)],
      [group_calls (sp_group spec) Soft_delete softCalls, group_calls (sp_group spec) Hard_delete hardCalls])"

definition survivors :: "string list \<Rightarrow> db \<Rightarrow> string list" where
  "survivors ids db = (if ids = [] then [] else filter (\<lambda>c. c \<notin> set (blockedRawCallIds ids db)) ids)"

definition countChildForCalls :: "('c, string) cols \<Rightarrow> ('c \<Rightarrow> bool) \<Rightarrow> string list \<Rightarrow> db \<Rightarrow> nat" where
  "countChildForCalls c extra callIds db =
     (if callIds = [] then 0 else length (sql_select (\<lambda>x. extra x \<and> col_key c x \<in> set callIds) (get_rows c db)))"

definition dry_run_raw :: "('p, string) cols \<Rightarrow> ('c, string) cols \<Rightarrow> coupled_spec \<Rightarrow> int \<Rightarrow> db \<Rightarrow> purge_counts" where
  "dry_run_raw p c spec now db =
     (let w = sp_window spec; none = (\<lambda>_. False);
          orphan = (\<lambda>x. \<not> sql_exists (\<lambda>r. col_key p r = col_key c x) (get_rows p db));
          parentSoft = survivors (parent_keys p (parent_soft_rows p w none now db)) db;
          parentHard = survivors (parent_keys p (parent_hard_rows p c w none now db)) db;
          orphanSoft = survivors (distinct_keys c (orphan_soft_rows p c w none now db)) db;
          orphanHard = survivors (distinct_keys c (orphan_hard_rows p c w none now db)) db
      in dry_report spec
           (length parentSoft, countChildForCalls c (\<lambda>x. col_soft c x = None) parentSoft db
              + countChildForCalls c (\<lambda>x. soft_due c w now x \<and> orphan x) orphanSoft db)
           (length parentHard, countChildForCalls c (\<lambda>x. col_hard c x = None) parentHard db
              + countChildForCalls c (\<lambda>x. hard_due c w now x \<and> orphan x) orphanHard db)
           (length parentSoft + length orphanSoft) (length parentHard + length orphanHard))"

text \<open>The four passes of a real run, in their order, and the counts they add up to.\<close>

definition run_passes ::
    "coupled_spec \<Rightarrow> (nat \<times> nat \<times> nat) pop \<Rightarrow> (nat \<times> nat \<times> nat) pop \<Rightarrow> (nat \<times> nat \<times> nat) pop \<Rightarrow> (nat \<times> nat \<times> nat) pop \<Rightarrow> purge_counts pop" where
  "run_passes spec softParents softOrphans hardParents hardOrphans =
     pop_bind softParents (\<lambda>(softCalls, parentSoft, childSoft).
     pop_bind softOrphans (\<lambda>(orphanSoftCalls, _, orphanSoft).
     pop_bind hardParents (\<lambda>(hardCalls, parentHard, childHard).
     pop_bind hardOrphans (\<lambda>(orphanHardCalls, _, orphanHard).
     pop_return (run_report spec (parentSoft, childSoft + orphanSoft) (parentHard, childHard + orphanHard)
         (softCalls + orphanSoftCalls) (hardCalls + orphanHardCalls))))))"

record purge_env =
  en_fault :: faults
  en_limit :: "nat \<Rightarrow> string list \<Rightarrow> string list"
  en_limit_id :: "nat \<Rightarrow> uuid list \<Rightarrow> uuid list"
  en_batch :: nat
  en_dryRun :: bool
  en_now :: int

definition purgeRawGroup :: "purge_env \<Rightarrow> ('p, string) cols \<Rightarrow> ('c, string) cols \<Rightarrow> coupled_spec \<Rightarrow> purge_counts pop" where
  "purgeRawGroup env p c spec =
     (let now = en_now env; w = sp_window spec; none = (\<lambda>_. False);
          pass = (\<lambda>table kind select update.
            rawPass (en_fault env) (en_limit env) (en_batch env) (step_meta (sp_group spec) table kind False) select update)
      in if en_dryRun env
         then (\<lambda>db. Some (purge_step (en_fault env) (step_meta (sp_group spec) (sp_parent spec) Soft_delete True) id
                (\<lambda>db. (dry_run_raw p c spec now db, db)) db))
         else
           run_passes spec
             (pass (sp_parent spec) Soft_delete (\<lambda>db. parent_keys p (parent_soft_rows p w none now db)) (couple (soft_delete p now) (soft_delete c now)))
             (pass (sp_child spec) Soft_delete (\<lambda>db. distinct_keys c (orphan_soft_rows p c w none now db)) (child_only (soft_delete c now)))
             (pass (sp_parent spec) Hard_delete (\<lambda>db. parent_keys p (parent_hard_rows p c w none now db)) (couple (hard_delete p now) (hard_delete c now)))
             (pass (sp_child spec) Hard_delete (\<lambda>db. distinct_keys c (orphan_hard_rows p c w none now db)) (child_only (hard_delete c now))))"

section \<open>The CLEAN group\<close>

definition blocks_clean :: "db \<Rightarrow> string \<Rightarrow> bool" where
  "blocks_clean db callId =
     sql_exists (\<lambda>rq. rq_call_id rq = callId \<and> rq_status rq \<in> {RS_open, RS_in_review, RS_unresolvable}) (review_queue db)"

definition coupledPass ::
    "faults \<Rightarrow> (nat \<Rightarrow> string list \<Rightarrow> string list) \<Rightarrow> nat \<Rightarrow> purge_error \<Rightarrow> (db \<Rightarrow> string list)
      \<Rightarrow> (string list \<Rightarrow> db \<Rightarrow> (nat \<times> nat) \<times> db) \<Rightarrow> (nat \<times> nat \<times> nat) pop" where
  "coupledPass fault limit batch meta select applyUpdate db =
     pass_result (until_done (purge_step fault meta ps_db (\<lambda>s.
       let ids = limit batch (select (ps_db s)) in
       if ids = [] then (True, s) else (False, apply_batch applyUpdate ids s))) (pass_start db))"

definition dry_run_coupled :: "('p, string) cols \<Rightarrow> ('c, string) cols \<Rightarrow> coupled_spec \<Rightarrow> int \<Rightarrow> db \<Rightarrow> purge_counts" where
  "dry_run_coupled p c spec now db =
     (let w = sp_window spec; blocked = blocks_clean db;
          parentSoft = parent_soft_rows p w blocked now db;
          parentHard = parent_hard_rows p c w blocked now db;
          orphanSoft = orphan_soft_rows p c w blocked now db;
          orphanHard = orphan_hard_rows p c w blocked now db
      in dry_report spec
           (length parentSoft, length (sql_select (\<lambda>x. col_soft c x = None \<and> sql_exists (\<lambda>r. col_key p r = col_key c x) parentSoft) (get_rows c db))
              + length orphanSoft)
           (length parentHard, length (sql_select (\<lambda>x. col_hard c x = None \<and> sql_exists (\<lambda>r. col_key p r = col_key c x) parentHard) (get_rows c db))
              + length orphanHard)
           (length parentSoft + length (distinct_keys c orphanSoft)) (length parentHard + length (distinct_keys c orphanHard)))"

definition purgeCoupled :: "purge_env \<Rightarrow> ('p, string) cols \<Rightarrow> ('c, string) cols \<Rightarrow> coupled_spec \<Rightarrow> purge_counts pop" where
  "purgeCoupled env p c spec =
     (let now = en_now env; w = sp_window spec;
          pass = (\<lambda>table kind select update.
            coupledPass (en_fault env) (en_limit env) (en_batch env) (step_meta (sp_group spec) table kind False) select update)
      in if en_dryRun env then (\<lambda>db. Some (Inr (dry_run_coupled p c spec now db), db))
         else
           run_passes spec
             (pass (sp_parent spec) Soft_delete (\<lambda>db. parent_keys p (parent_soft_rows p w (blocks_clean db) now db)) (couple (soft_delete p now) (soft_delete c now)))
             (pass (sp_child spec) Soft_delete (\<lambda>db. distinct_keys c (orphan_soft_rows p c w (blocks_clean db) now db)) (child_only (soft_delete c now)))
             (pass (sp_parent spec) Hard_delete (\<lambda>db. parent_keys p (parent_hard_rows p c w (blocks_clean db) now db)) (couple (hard_delete p now) (hard_delete c now)))
             (pass (sp_child spec) Hard_delete (\<lambda>db. distinct_keys c (orphan_hard_rows p c w (blocks_clean db) now db)) (child_only (hard_delete c now))))"

section \<open>The single-table groups\<close>

record count_state =
  cn_db :: db
  cn_total :: nat

text \<open>\<^verbatim>\<open>UPDATE t SET ... WHERE key IN (SELECT key ... LIMIT batch)\<close>, repeated until it updates nothing.\<close>

definition batchedUpdate ::
    "faults \<Rightarrow> purge_error \<Rightarrow> ('r, 'k) cols \<Rightarrow> ('k list \<Rightarrow> 'k list) \<Rightarrow> ('r \<Rightarrow> bool) \<Rightarrow> ('r \<Rightarrow> 'r) \<Rightarrow> nat pop" where
  "batchedUpdate fault meta t pick due f db =
     map_option (\<lambda>(r, s). (map_sum id (\<lambda>_. cn_total s) r, cn_db s))
       (until_done (purge_step fault meta cn_db (\<lambda>s.
          let ids = pick (map (col_key t) (filter due (get_rows t (cn_db s)))) in
          case update_rows t (\<lambda>r. col_key t r \<in> set ids) f (cn_db s) of
            (n, db') \<Rightarrow> (n = 0, s\<lparr>cn_db := db', cn_total := cn_total s + n\<rparr>)))
        \<lparr>cn_db = db, cn_total = 0\<rparr>)"

record single_spec =
  ss_group :: string
  ss_table :: string
  ss_window :: retention_window

definition single_report :: "single_spec \<Rightarrow> nat \<Rightarrow> nat \<Rightarrow> purge_counts" where
  "single_report spec soft hard =
     ([\<lparr>pa_table = ss_table spec, pa_group = ss_group spec, pa_action = Soft_delete, pa_window = window_text (ss_window spec), pa_count = soft\<rparr>,
       \<lparr>pa_table = ss_table spec, pa_group = ss_group spec, pa_action = Hard_delete, pa_window = window_text (ss_window spec), pa_count = hard\<rparr>],
      [group_calls (ss_group spec) Soft_delete soft, group_calls (ss_group spec) Hard_delete hard])"

definition purgeSingle :: "purge_env \<Rightarrow> ('r, 'k) cols \<Rightarrow> (nat \<Rightarrow> 'k list \<Rightarrow> 'k list) \<Rightarrow> single_spec \<Rightarrow> purge_counts pop" where
  "purgeSingle env t limit spec =
     (let now = en_now env; w = ss_window spec;
          meta = (\<lambda>kind. step_meta (ss_group spec) (ss_table spec) kind False)
      in if en_dryRun env
         then (\<lambda>db. Some (Inr (single_report spec (length (sql_select (soft_due t w now) (get_rows t db)))
                                               (length (sql_select (hard_due t w now) (get_rows t db)))), db))
         else
           pop_bind (batchedUpdate (en_fault env) (meta Soft_delete) t (limit (en_batch env)) (soft_due t w now) (set_soft t now)) (\<lambda>soft.
           pop_bind (batchedUpdate (en_fault env) (meta Hard_delete) t (limit (en_batch env)) (hard_due t w now) (set_hard t now)) (\<lambda>hard.
           pop_return (single_report spec soft hard))))"

section \<open>The held-cap purge\<close>

definition purge_raw_call :: "string \<Rightarrow> db \<Rightarrow> db" where
  "purge_raw_call callId db =
     (let db1 = db\<lparr>token_vault := sql_delete (\<lambda>r. tv_call_id r = callId) (token_vault db)\<rparr>;
          db2 = db1\<lparr>raw_transcripts := sql_delete (\<lambda>r. rt_call_id r = callId) (raw_transcripts db1)\<rparr>
      in insertRawTombstone callId db2)"

fun held_rows :: "faults \<Rightarrow> int \<Rightarrow> review_queue_row list \<Rightarrow> count_state \<Rightarrow> (purge_error + unit) \<times> count_state" where
  "held_rows fault now [] s = (Inr (), s)"
| "held_rows fault now (row # rows) s =
     (case purge_step fault (step_meta ''HELD_CAP'' ''raw_transcripts'' Held_cap_purge False) cn_db
             (\<lambda>s. ((), s\<lparr>cn_db := purge_raw_call (rq_call_id row) (cn_db s)\<rparr>)) s of
        (Inl e, s1) \<Rightarrow> (Inl e, s1)
      | (Inr _, s1) \<Rightarrow>
          (case purge_step fault (step_meta ''HELD_CAP'' ''review_queue'' Held_cap_purge False) cn_db
                  (\<lambda>s. ((), s\<lparr>cn_db := snd (markRawPurged (rq_id row) now (cn_db s))\<rparr>)) s1 of
             (Inl e, s2) \<Rightarrow> (Inl e, s2)
           | (Inr _, s2) \<Rightarrow> held_rows fault now rows (s2\<lparr>cn_total := cn_total s2 + 1\<rparr>)))"

definition held_batch :: "faults \<Rightarrow> int \<Rightarrow> int \<Rightarrow> nat \<Rightarrow> count_state \<Rightarrow> (purge_error + bool) \<times> count_state" where
  "held_batch fault capHours now batch s =
     (case purge_step fault (step_meta ''HELD_CAP'' ''review_queue'' Held_cap_purge False) cn_db
             (\<lambda>s. (listRawPurgeEligible capHours now (Some batch) (cn_db s), s)) s of
        (Inl e, s1) \<Rightarrow> (Inl e, s1)
      | (Inr candidates, s1) \<Rightarrow>
          if candidates = [] then (Inr True, s1)
          else (case held_rows fault now candidates s1 of
                  (Inl e, s2) \<Rightarrow> (Inl e, s2) | (Inr _, s2) \<Rightarrow> (Inr (length candidates < batch), s2)))"

definition held_report :: "int \<Rightarrow> nat \<Rightarrow> purge_counts" where
  "held_report capHours n =
     (let act = (\<lambda>table. \<lparr>pa_table = table, pa_group = ''HELD_CAP'', pa_action = Held_cap_purge,
                          pa_window = ''cap='' @ int_text capHours @ ''h'', pa_count = n\<rparr>)
      in ([act ''raw_transcripts'', act ''token_vault''], [group_calls ''HELD_CAP'' Held_cap_purge n]))"

definition purgeHeldCap :: "purge_env \<Rightarrow> int \<Rightarrow> purge_counts pop" where
  "purgeHeldCap env capHours db =
     (if en_dryRun env
      then Some (purge_step (en_fault env) (step_meta ''HELD_CAP'' ''review_queue'' Held_cap_purge True) id
             (\<lambda>db. (held_report capHours (countRawPurgeEligible capHours (en_now env) db), db)) db)
      else map_option (\<lambda>(r, s). (map_sum id (\<lambda>_. held_report capHours (cn_total s)) r, cn_db s))
             (until_done (held_batch (en_fault env) capHours (en_now env) (en_batch env)) \<lparr>cn_db = db, cn_total = 0\<rparr>))"

section \<open>A run\<close>

record purge_report =
  rp_dryRun :: bool
  rp_skipped :: bool
  rp_actions :: "purge_action list"
  rp_groupCounts :: "group_count list"

text \<open>The windows; \<open>None\<close> is the mode \<^verbatim>\<open>never\<close> of the CLEAN group, which the configuration allows only for both of its variables.\<close>

record purge_config =
  RETENTION_RAW :: retention_window
  RETENTION_CLEAN :: "retention_window option"
  RETENTION_WEBHOOK :: retention_window
  RETENTION_MATCH_KEYS :: retention_window
  RETENTION_EXTRACT :: retention_window
  REVIEW_HELD_RAW_RETENTION_CAP_HOURS :: int

definition raw_spec :: "purge_config \<Rightarrow> coupled_spec" where
  "raw_spec config = \<lparr>sp_group = ''RAW'', sp_parent = ''raw_transcripts'', sp_child = ''token_vault'', sp_window = RETENTION_RAW config\<rparr>"

definition clean_spec :: "retention_window \<Rightarrow> coupled_spec" where
  "clean_spec w = \<lparr>sp_group = ''CLEAN'', sp_parent = ''clean_transcripts'', sp_child = ''redaction_findings'', sp_window = w\<rparr>"

definition join_counts :: "purge_counts list \<Rightarrow> purge_counts" where
  "join_counts cs = (concat (map fst cs), concat (map snd cs))"

fun run_groups :: "purge_counts pop list \<Rightarrow> purge_counts list pop" where
  "run_groups [] = pop_return []"
| "run_groups (m # ms) = pop_bind m (\<lambda>c. pop_bind (run_groups ms) (\<lambda>cs. pop_return (c # cs)))"

definition purge_groups :: "purge_env \<Rightarrow> purge_config \<Rightarrow> purge_counts pop list" where
  "purge_groups env config =
     [purgeRawGroup env raw_cols vault_cols (raw_spec config),
      case RETENTION_CLEAN config of None \<Rightarrow> pop_return ([], []) | Some w \<Rightarrow> purgeCoupled env clean_cols findings_cols (clean_spec w),
      purgeSingle env webhook_cols (en_limit_id env)
         \<lparr>ss_group = ''WEBHOOK'', ss_table = ''raw_webhook_events'', ss_window = RETENTION_WEBHOOK config\<rparr>,
      purgeSingle env match_cols (en_limit_id env)
         \<lparr>ss_group = ''MATCH'', ss_table = ''match_keys'', ss_window = RETENTION_MATCH_KEYS config\<rparr>,
      purgeSingle env extract_cols (en_limit env)
         \<lparr>ss_group = ''EXTRACT'', ss_table = ''extraction_candidates'', ss_window = RETENTION_EXTRACT config\<rparr>,
      purgeHeldCap env (REVIEW_HELD_RAW_RETENTION_CAP_HOURS config)]"

definition runPurge :: "purge_env \<Rightarrow> purge_config \<Rightarrow> bool \<Rightarrow> bool \<Rightarrow> purge_report pop" where
  "runPurge env config lockedA lockedB =
     (if \<not> lockedA \<or> \<not> lockedB
      then pop_return \<lparr>rp_dryRun = en_dryRun env, rp_skipped = True, rp_actions = [], rp_groupCounts = []\<rparr>
      else pop_bind (run_groups (purge_groups env config)) (\<lambda>counts.
        pop_return \<lparr>rp_dryRun = en_dryRun env, rp_skipped = False, rp_actions = fst (join_counts counts), rp_groupCounts = snd (join_counts counts)\<rparr>))"

section \<open>The cron\<close>

definition runRetention :: "string option \<Rightarrow> purge_report pop \<Rightarrow> string list pop" where
  "runRetention url purge = pop_bind purge (\<lambda>report. pop_return (if rp_skipped report then [] else pingSuccess url))"

definition sanitizedPurgeCtx :: "purge_error \<Rightarrow> fail_context" where
  "sanitizedPurgeCtx c =
     [(''group'', pe_group c), (''table'', pe_table c), (''action'', purge_kind_name (pe_action c)),
      (''dry_run'', if pe_dry_run c then ''true'' else ''false'')]
     @ (case pe_sqlstate c of None \<Rightarrow> [] | Some s \<Rightarrow> [(''sqlstate'', s)])"

text \<open>The pings sent, or the rethrown error, after its alert.\<close>

definition runRetentionService :: "string option \<Rightarrow> alert_config \<Rightarrow> deliver_deps \<Rightarrow> purge_report pop \<Rightarrow> string list pop" where
  "runRetentionService url config deps purge db =
     map_option (\<lambda>(r, db').
       case r of
         Inr pings \<Rightarrow> (Inr pings, db')
       | Inl e \<Rightarrow>
           (Inl e, aw_db (snd (emitAlert config deps
              \<lparr>em_code = RETENTION_PURGE_FAILED, em_processingState = PST_degraded,
               em_context = Some ([(''component'', ''retention-cron''), (''environment'', alert_config.NODE_ENV config)] @ sanitizedPurgeCtx e),
               em_severity = None\<rparr>
              \<lparr>aw_db = db', aw_posts = []\<rparr>))))
       (runRetention url purge db)"

end
