(* ===== verification/Retention_Correct.thy ===== *)
theory Retention_Correct
  imports Retention Review_Jobs_Correct
begin

text \<open>
  The purge against a reference without batches.  The tables of the purge are instances of \<open>retained_table\<close>; the two coupled groups of
  \<open>coupled_tables\<close>, whose four passes are instances of \<open>pass_update\<close> and through it of \<open>batch_pass\<close>.
\<close>

section \<open>Updates that consume what they select\<close>

lemma update_join:
  assumes "\<And>r. k (f r) = k r" "\<And>r. \<not> q (f r)"
  shows "sql_update (\<lambda>r. k r \<in> Y \<and> q r) f (sql_update (\<lambda>r. k r \<in> X \<and> q r) f rs) = sql_update (\<lambda>r. k r \<in> X \<union> Y \<and> q r) f rs"
    and "length (filter (\<lambda>r. k r \<in> X \<and> q r) rs) + length (filter (\<lambda>r. k r \<in> Y \<and> q r) (sql_update (\<lambda>r. k r \<in> X \<and> q r) f rs))
      = length (filter (\<lambda>r. k r \<in> X \<union> Y \<and> q r) rs)"
  by (induction rs) (auto simp: sql_update_def assms)

lemma update_none: "(\<And>r. r \<in> set rs \<Longrightarrow> \<not> p r) \<Longrightarrow> sql_update p f rs = rs"
  by (auto simp: sql_update_def intro: map_idI)

lemma filter_update_keys:
  assumes "\<And>r. k (f r) = k r" "\<And>r. \<not> q (f r)" "\<And>r. D r \<Longrightarrow> q r"
  shows "set (map k (filter D (sql_update (\<lambda>r. k r \<in> X \<and> q r) f rs))) = set (map k (filter D rs)) - X"
  using assms by (auto simp: sql_update_def split: if_splits)

locale retained_table =
  fixes t :: "('r, 'k) cols"
  assumes get_put: "get_rows t (put_rows t rs db) = rs"
    and put_put: "put_rows t rs (put_rows t rs' db) = put_rows t rs db"
    and put_get: "put_rows t (get_rows t db) db = db"
    and soft_stamp: "col_key t (set_soft t n r) = col_key t r" "col_eligible t (set_soft t n r) = col_eligible t r"
      "col_hard t (set_soft t n r) = col_hard t r" "col_soft t (set_soft t n r) = Some n"
    and hard_stamp: "col_key t (set_hard t n r) = col_key t r" "col_eligible t (set_hard t n r) = col_eligible t r"
      "col_hard t (set_hard t n r) = Some n" "col_soft t (set_hard t n r) = col_soft t r"
begin

lemmas laws = get_put put_put put_get soft_stamp hard_stamp

lemma soft_delete_nil: "soft_delete t now [] db = (0, db)"
  by (simp add: soft_delete_def update_rows_def update_none put_get)

lemma hard_delete_nil: "hard_delete t now [] db = (0, db)"
  by (simp add: hard_delete_def update_rows_def update_none put_get)

lemma soft_delete_join:
  "snd (soft_delete t now ys (snd (soft_delete t now xs db))) = snd (soft_delete t now (xs @ ys) db)"
  "fst (soft_delete t now xs db) + fst (soft_delete t now ys (snd (soft_delete t now xs db))) = fst (soft_delete t now (xs @ ys) db)"
  using update_join [where k = "col_key t" and f = "set_soft t now" and q = "\<lambda>r. col_soft t r = None" and X = "set xs" and Y = "set ys"
      and rs = "get_rows t db"]
  by (simp_all add: soft_delete_def update_rows_def laws)

lemma hard_delete_join:
  "snd (hard_delete t now ys (snd (hard_delete t now xs db))) = snd (hard_delete t now (xs @ ys) db)"
  "fst (hard_delete t now xs db) + fst (hard_delete t now ys (snd (hard_delete t now xs db))) = fst (hard_delete t now (xs @ ys) db)"
  using update_join [where k = "col_key t" and f = "set_hard t now" and q = "\<lambda>r. col_hard t r = None" and X = "set xs" and Y = "set ys"
      and rs = "get_rows t db"]
  by (simp_all add: hard_delete_def update_rows_def laws)

lemma delete_keys:
  "map (col_key t) (get_rows t (snd (soft_delete t now ids db))) = map (col_key t) (get_rows t db)"
  "map (col_key t) (get_rows t (snd (hard_delete t now ids db))) = map (col_key t) (get_rows t db)"
  by (simp_all add: soft_delete_def hard_delete_def update_rows_def laws map_sql_update)

lemma soft_delete_due:
  assumes "\<And>r. D r \<Longrightarrow> soft_due t w now r"
  shows "set (map (col_key t) (filter D (get_rows t (snd (soft_delete t now ids db))))) = set (map (col_key t) (filter D (get_rows t db))) - set ids"
proof -
  have "D r \<Longrightarrow> col_soft t r = None" for r using assms by (auto simp: soft_due_def)
  then show ?thesis unfolding soft_delete_def update_rows_def snd_conv get_put by (intro filter_update_keys) (simp_all add: laws)
qed

lemma hard_delete_due:
  assumes "\<And>r. D r \<Longrightarrow> hard_due t w now r"
  shows "set (map (col_key t) (filter D (get_rows t (snd (hard_delete t now ids db))))) = set (map (col_key t) (filter D (get_rows t db))) - set ids"
proof -
  have "D r \<Longrightarrow> col_hard t r = None" for r using assms by (auto simp: hard_due_def)
  then show ?thesis unfolding hard_delete_def update_rows_def snd_conv get_put by (intro filter_update_keys) (simp_all add: laws)
qed

end

interpretation raw_table: retained_table raw_cols
  by unfold_locales (simp_all add: raw_cols_def)

interpretation vault_table: retained_table vault_cols
  by unfold_locales (simp_all add: vault_cols_def)

interpretation clean_table: retained_table clean_cols
  by unfold_locales (simp_all add: clean_cols_def)

interpretation findings_table: retained_table findings_cols
  by unfold_locales (simp_all add: findings_cols_def)

interpretation webhook_table: retained_table webhook_cols
  by unfold_locales (simp_all add: webhook_cols_def)

interpretation match_table: retained_table match_cols
  by unfold_locales (simp_all add: match_cols_def)

interpretation extract_table: retained_table extract_cols
  by unfold_locales (simp_all add: extract_cols_def)

section \<open>Passes\<close>

text \<open>What a selection and its update owe each other.  \<open>ok\<close> is what the tables' keys guarantee.\<close>

locale pass_update =
  fixes select :: "db \<Rightarrow> string list" and update :: "string list \<Rightarrow> db \<Rightarrow> (nat \<times> nat) \<times> db" and ok :: "db \<Rightarrow> bool"
  assumes select_distinct: "ok db \<Longrightarrow> distinct (select db)"
    and update_nil: "update [] db = ((0, 0), db)"
    and update_ok: "ok db \<Longrightarrow> ok (snd (update ids db))"
    and update_select: "ok db \<Longrightarrow> set ids \<subseteq> set (select db) \<Longrightarrow> set (select (snd (update ids db))) = set (select db) - set ids"
    and update_join: "snd (update ys (snd (update xs db))) = snd (update (xs @ ys) db)"
      "fst (fst (update xs db)) + fst (fst (update ys (snd (update xs db)))) = fst (fst (update (xs @ ys) db))"
      "snd (fst (update xs db)) + snd (fst (update ys (snd (update xs db)))) = snd (fst (update (xs @ ys) db))"
    and update_cong: "set xs = set ys \<Longrightarrow> update xs db = update ys db"
    and update_reviews: "review_queue (snd (update ids db)) = review_queue db"
begin

lemma apply_batch_nil: "apply_batch update [] s = s"
  by (simp add: apply_batch_def update_nil)

lemma apply_batch_db: "ps_db (apply_batch update ids s) = snd (update ids (ps_db s))" "ps_blocked (apply_batch update ids s) = ps_blocked s"
  by (simp_all add: apply_batch_def split: prod.splits)

lemma apply_batch_join: "apply_batch update ys (apply_batch update xs s) = apply_batch update (xs @ ys) s"
  using update_join [where xs = xs and ys = ys and db = "ps_db s"] by (auto simp: apply_batch_def split: prod.splits)

lemma apply_batch_start:
  "apply_batch update ids (pass_start db)
    = \<lparr>ps_db = snd (update ids db), ps_blocked = {}, ps_calls = length ids, ps_parent = fst (fst (update ids db)), ps_child = snd (fst (update ids db))\<rparr>"
  by (simp add: apply_batch_def pass_start_def split: prod.splits)

end

sublocale pass_update \<subseteq> coupled: batch_pass "\<lambda>s. select (ps_db s)" "apply_batch update" "\<lambda>s. ok (ps_db s)"
  by unfold_locales (simp_all add: select_distinct apply_batch_nil apply_batch_db update_ok update_select apply_batch_join)

text \<open>The RAW passes also set aside the calls that a review blocks.\<close>

definition raw_blocked :: "db \<Rightarrow> string \<Rightarrow> bool" where
  "raw_blocked db callId \<longleftrightarrow> (\<exists>rq \<in> set (review_queue db). rq_call_id rq = callId \<and> blocks_raw rq)"

definition raw_act :: "(string list \<Rightarrow> db \<Rightarrow> (nat \<times> nat) \<times> db) \<Rightarrow> string list \<Rightarrow> pass_state \<Rightarrow> pass_state" where
  "raw_act update ids s = apply_batch update (filter (\<lambda>c. \<not> raw_blocked (ps_db s) c) ids)
     (s\<lparr>ps_blocked := ps_blocked s \<union> {c \<in> set ids. raw_blocked (ps_db s) c}\<rparr>)"

lemma set_blockedRawCallIds: "set (blockedRawCallIds ids db) = {c \<in> set ids. raw_blocked db c}"
  by (auto simp: blockedRawCallIds_def raw_blocked_def sql_select_def)

lemma raw_blocked_cong: "review_queue db' = review_queue db \<Longrightarrow> raw_blocked db' = raw_blocked db"
  by (simp add: raw_blocked_def fun_eq_iff)

context pass_update
begin

lemma raw_act_db: "ps_db (raw_act update ids s) = snd (update (filter (\<lambda>c. \<not> raw_blocked (ps_db s) c) ids) (ps_db s))"
  "ps_blocked (raw_act update ids s) = ps_blocked s \<union> {c \<in> set ids. raw_blocked (ps_db s) c}"
  by (simp_all add: raw_act_def apply_batch_db)

lemma raw_act_blocked: "raw_blocked (ps_db (raw_act update ids s)) = raw_blocked (ps_db s)"
  by (intro raw_blocked_cong) (simp add: raw_act_db update_reviews)

lemma update_blocked: "raw_blocked (snd (update ids db)) = raw_blocked db"
  by (intro raw_blocked_cong) (simp add: update_reviews)

lemma apply_batch_block: "apply_batch update ids (s\<lparr>ps_blocked := b\<rparr>) = (apply_batch update ids s)\<lparr>ps_blocked := b\<rparr>"
  by (simp add: apply_batch_def split: prod.splits)

lemma raw_act_join: "raw_act update ys (raw_act update xs s) = raw_act update (xs @ ys) s"
proof -
  let ?B = "raw_blocked (ps_db s)"
  have "ps_blocked s \<union> {c \<in> set xs. ?B c} \<union> {c \<in> set ys. ?B c} = ps_blocked s \<union> {c \<in> set (xs @ ys). ?B c}" by auto
  then show ?thesis
    unfolding raw_act_def [of _ ys] raw_act_blocked raw_act_db by (simp add: raw_act_def apply_batch_block apply_batch_join apply_batch_db update_blocked)
qed

end

sublocale pass_update \<subseteq> raw: batch_pass "\<lambda>s. filter (\<lambda>c. c \<notin> ps_blocked s) (select (ps_db s))" "raw_act update" "\<lambda>s. ok (ps_db s)"
proof unfold_locales
  fix s ids
  show "raw_act update [] s = s" by (simp add: raw_act_def apply_batch_nil)
  assume ok: "ok (ps_db s)"
  then show "distinct (filter (\<lambda>c. c \<notin> ps_blocked s) (select (ps_db s)))" by (simp add: select_distinct)
  show "ok (ps_db (raw_act update ids s))" using ok by (simp add: raw_act_db update_ok)
  assume "set ids \<subseteq> set (filter (\<lambda>c. c \<notin> ps_blocked s) (select (ps_db s)))"
  then have "set (filter (\<lambda>c. \<not> raw_blocked (ps_db s) c) ids) \<subseteq> set (select (ps_db s))" by auto
  from update_select [OF ok this]
  show "set (filter (\<lambda>c. c \<notin> ps_blocked (raw_act update ids s)) (select (ps_db (raw_act update ids s))))
      = set (filter (\<lambda>c. c \<notin> ps_blocked s) (select (ps_db s))) - set ids"
    by (auto simp: raw_act_db)
qed (rule raw_act_join)

definition step_fault :: "faults \<Rightarrow> purge_error \<Rightarrow> db \<Rightarrow> purge_error option" where
  "step_fault fault meta db = map_option
     (\<lambda>code. meta\<lparr>pe_sqlstate := (case code of Some c \<Rightarrow> if c = [] then None else Some c | None \<Rightarrow> None)\<rparr>) (fault meta db)"

lemma purge_step_eq: "purge_step fault meta db_of fn s = (case step_fault fault meta (db_of s) of Some e \<Rightarrow> (Inl e, s) | None \<Rightarrow> (case fn s of (a, s') \<Rightarrow> (Inr a, s')))"
  by (simp add: purge_step_def step_fault_def split: option.split)

text \<open>The result of a pass: what it did when it ended, or the first failing step.\<close>

definition pass_outcome ::
    "faults \<Rightarrow> purge_error \<Rightarrow> string list \<Rightarrow> (string list \<Rightarrow> db \<Rightarrow> (nat \<times> nat) \<times> db) \<Rightarrow> db \<Rightarrow> ((purge_error + nat \<times> nat \<times> nat) \<times> db) option \<Rightarrow> bool" where
  "pass_outcome fault meta keys update db out \<longleftrightarrow>
     out = Some (Inr (length keys, fst (update keys db)), snd (update keys db))
     \<or> (\<exists>ids e. out = Some (Inl e, snd (update ids db)) \<and> set ids \<subseteq> set keys \<and> step_fault fault meta (snd (update ids db)) = Some e)"

lemma filter_outside_empty: "filter (\<lambda>c. c \<notin> {}) xs = xs"
  by simp

lemma pass_start_simps: "ps_db (pass_start db) = db" "ps_blocked (pass_start db) = {}"
  by (simp_all add: pass_start_def)

context pass_update
begin

lemma update_all: "ok db \<Longrightarrow> distinct ids \<Longrightarrow> set ids = set keys \<Longrightarrow> distinct keys \<Longrightarrow> length ids = length keys \<and> update ids db = update keys db"
  using update_cong [of ids keys] by (simp flip: distinct_card)

lemma coupledPass_run:
  assumes "bounded_select (limit batch)" "ok db"
  shows "pass_outcome fault meta (select db) update db (coupledPass fault limit batch meta select update db)"
proof -
  have body: "purge_step fault meta ps_db (\<lambda>s. let ids = limit batch (select (ps_db s)) in if ids = [] then (True, s) else (False, apply_batch update ids s))
      = batch_body (\<lambda>s. step_fault fault meta (ps_db s)) (\<lambda>s. select (ps_db s)) (limit batch) (apply_batch update)"
    by (auto simp: fun_eq_iff purge_step_eq batch_body_def Let_def split: option.split)
  have "ok (ps_db (pass_start db))" using assms(2) by (simp add: pass_start_def)
  from coupled.passes [OF assms(1) this, of "\<lambda>s. step_fault fault meta (ps_db s)"] obtain r ids where
    run: "until_done (batch_body (\<lambda>s. step_fault fault meta (ps_db s)) (\<lambda>s. select (ps_db s)) (limit batch) (apply_batch update)) (pass_start db)
        = Some (r, apply_batch update ids (pass_start db))"
    and ids: "distinct ids" "set ids \<subseteq> set (select db)"
    and r: "case r of Inr u \<Rightarrow> set ids = set (select db) | Inl e \<Rightarrow> step_fault fault meta (ps_db (apply_batch update ids (pass_start db))) = Some e"
    unfolding pass_start_simps by blast
  have out: "coupledPass fault limit batch meta select update db
      = Some (map_sum id (\<lambda>_. (length ids, fst (update ids db))) r, snd (update ids db))"
    unfolding coupledPass_def body run by (simp add: pass_result_def apply_batch_start)
  show ?thesis
  proof (cases r)
    case (Inl e)
    with r ids(2) show ?thesis unfolding pass_outcome_def out by (intro disjI2 exI [of _ ids] exI [of _ e]) (simp add: apply_batch_start)
  next
    case (Inr u)
    with r update_all [OF assms(2) ids(1) _ select_distinct [OF assms(2)]] show ?thesis unfolding pass_outcome_def out by simp
  qed
qed

lemma rawPass_run:
  assumes "bounded_select (limit batch)" "ok db"
  shows "pass_outcome fault meta (filter (\<lambda>c. \<not> raw_blocked db c) (select db)) update db (rawPass fault limit batch meta select update db)"
proof -
  let ?due = "\<lambda>s. filter (\<lambda>c. c \<notin> ps_blocked s) (select (ps_db s))"
  have body: "rawPass_body fault limit batch meta select update = batch_body (\<lambda>s. step_fault fault meta (ps_db s)) ?due (limit batch) (raw_act update)"
  proof
    fix s :: pass_state
    have "filter (\<lambda>c. c \<notin> set (blockedRawCallIds ids (ps_db s))) ids = filter (\<lambda>c. \<not> raw_blocked (ps_db s) c) ids" for ids
      by (auto simp: set_blockedRawCallIds intro: filter_cong)
    then show "rawPass_body fault limit batch meta select update s = batch_body (\<lambda>s. step_fault fault meta (ps_db s)) ?due (limit batch) (raw_act update) s"
      by (auto simp: rawPass_body_def purge_step_eq batch_body_def raw_act_def Let_def apply_batch_nil set_blockedRawCallIds split: option.split)
  qed
  have "ok (ps_db (pass_start db))" using assms(2) by (simp add: pass_start_def)
  from raw.passes [OF assms(1) this, of "\<lambda>s. step_fault fault meta (ps_db s)"] obtain r ids where
    run: "until_done (batch_body (\<lambda>s. step_fault fault meta (ps_db s)) ?due (limit batch) (raw_act update)) (pass_start db)
        = Some (r, raw_act update ids (pass_start db))"
    and ids: "distinct ids" "set ids \<subseteq> set (select db)"
    and r: "case r of Inr u \<Rightarrow> set ids = set (select db) | Inl e \<Rightarrow> step_fault fault meta (ps_db (raw_act update ids (pass_start db))) = Some e"
    unfolding pass_start_simps filter_outside_empty by blast
  let ?ids = "filter (\<lambda>c. \<not> raw_blocked db c) ids"
  have act: "ps_db (raw_act update ids (pass_start db)) = snd (update ?ids db)"
    "(ps_calls (raw_act update ids (pass_start db)), ps_parent (raw_act update ids (pass_start db)), ps_child (raw_act update ids (pass_start db)))
      = (length ?ids, fst (update ?ids db))"
    by (simp_all add: raw_act_def apply_batch_def pass_start_def split: prod.splits)
  have out: "rawPass fault limit batch meta select update db = Some (map_sum id (\<lambda>_. (length ?ids, fst (update ?ids db))) r, snd (update ?ids db))"
    unfolding rawPass_def body run by (simp add: pass_result_def act)
  show ?thesis
  proof (cases r)
    case (Inl e)
    with r ids(2) show ?thesis unfolding pass_outcome_def out by (intro disjI2 exI [of _ ?ids] exI [of _ e]) (auto simp: act)
  next
    case (Inr u)
    then have "set ?ids = set (filter (\<lambda>c. \<not> raw_blocked db c) (select db))" using r by auto
    from update_all [OF assms(2) _ this] Inr ids(1) select_distinct [OF assms(2)] show ?thesis unfolding pass_outcome_def out by simp
  qed
qed

end

section \<open>Coupled groups\<close>

locale coupled_tables = parent: retained_table p + child: retained_table c
  for p :: "('p, string) cols" and c :: "('c, string) cols" +
  fixes blocked :: "db \<Rightarrow> string \<Rightarrow> bool" and w :: retention_window and now :: int
  assumes other_rows: "get_rows c (put_rows p ps db) = get_rows c db" "get_rows p (put_rows c cs db) = get_rows p db"
    and put_commute: "put_rows c cs (put_rows p ps db) = put_rows p ps (put_rows c cs db)"
    and put_reviews: "review_queue (put_rows p ps db) = review_queue db" "review_queue (put_rows c cs db) = review_queue db"
    and put_blocked: "blocked (put_rows p ps db) = blocked db" "blocked (put_rows c cs db) = blocked db"
begin

definition soft_parents where "soft_parents db = parent_keys p (parent_soft_rows p w (blocked db) now db)"

definition soft_orphans where "soft_orphans db = distinct_keys c (orphan_soft_rows p c w (blocked db) now db)"

definition hard_parents where "hard_parents db = parent_keys p (parent_hard_rows p c w (blocked db) now db)"

definition hard_orphans where "hard_orphans db = distinct_keys c (orphan_hard_rows p c w (blocked db) now db)"

definition keys_ok where "keys_ok db \<longleftrightarrow> distinct (map (col_key p) (get_rows p db))"

lemma stamp_frame:
  "get_rows c (snd (soft_delete p n ids db)) = get_rows c db" "get_rows p (snd (soft_delete c n ids db)) = get_rows p db"
  "get_rows c (snd (hard_delete p n ids db)) = get_rows c db" "get_rows p (snd (hard_delete c n ids db)) = get_rows p db"
  "blocked (snd (soft_delete p n ids db)) = blocked db" "blocked (snd (soft_delete c n ids db)) = blocked db"
  "blocked (snd (hard_delete p n ids db)) = blocked db" "blocked (snd (hard_delete c n ids db)) = blocked db"
  "review_queue (snd (soft_delete p n ids db)) = review_queue db" "review_queue (snd (soft_delete c n ids db)) = review_queue db"
  "review_queue (snd (hard_delete p n ids db)) = review_queue db" "review_queue (snd (hard_delete c n ids db)) = review_queue db"
  by (simp_all add: soft_delete_def hard_delete_def update_rows_def other_rows put_blocked put_reviews)

lemma stamp_swap:
  "soft_delete c n ys (snd (soft_delete p n xs db)) = (fst (soft_delete c n ys db), snd (soft_delete p n xs (snd (soft_delete c n ys db))))"
  "hard_delete c n ys (snd (hard_delete p n xs db)) = (fst (hard_delete c n ys db), snd (hard_delete p n xs (snd (hard_delete c n ys db))))"
  by (simp_all add: soft_delete_def hard_delete_def update_rows_def other_rows put_commute)

lemma couple_simps:
  "snd (couple u v ids db) = snd (v ids (snd (u ids db)))" "fst (couple u v ids db) = (fst (u ids db), fst (v ids (snd (u ids db))))"
  "snd (child_only v ids db) = snd (v ids db)" "fst (child_only v ids db) = (0, fst (v ids db))"
  by (simp_all add: couple_def child_only_def split: prod.splits)

lemma child_frame_swap:
  "fst (soft_delete p n xs (snd (soft_delete c n ys db))) = fst (soft_delete p n xs db)"
  "fst (hard_delete p n xs (snd (hard_delete c n ys db))) = fst (hard_delete p n xs db)"
  "fst (soft_delete c n xs (snd (soft_delete p n ys db))) = fst (soft_delete c n xs db)"
  "fst (hard_delete c n xs (snd (hard_delete p n ys db))) = fst (hard_delete c n xs db)"
  by (simp_all add: soft_delete_def hard_delete_def update_rows_def other_rows)

lemma count_skip:
  "fst (soft_delete p n ys (snd (soft_delete p n xs (snd (soft_delete c n zs db))))) = fst (soft_delete p n ys (snd (soft_delete p n xs db)))"
  "fst (hard_delete p n ys (snd (hard_delete p n xs (snd (hard_delete c n zs db))))) = fst (hard_delete p n ys (snd (hard_delete p n xs db)))"
  by (simp_all add: soft_delete_def hard_delete_def update_rows_def other_rows parent.get_put)

lemma keys_ok_stamp:
  "keys_ok (snd (soft_delete p n ids db)) = keys_ok db" "keys_ok (snd (soft_delete c n ids db)) = keys_ok db"
  "keys_ok (snd (hard_delete p n ids db)) = keys_ok db" "keys_ok (snd (hard_delete c n ids db)) = keys_ok db"
  by (simp_all add: keys_ok_def parent.delete_keys stamp_frame)

lemma soft_cong: "set xs = set ys \<Longrightarrow> soft_delete t n xs = soft_delete t n ys"
  by (simp add: soft_delete_def)

lemma hard_cong: "set xs = set ys \<Longrightarrow> hard_delete t n xs = hard_delete t n ys"
  by (simp add: hard_delete_def)

lemma hard_stamped: "r \<in> set (get_rows p (snd (hard_delete p n ids db))) \<Longrightarrow> col_key p r \<in> set ids \<Longrightarrow> \<not> hard_due p w now r"
  by (auto simp: hard_delete_def update_rows_def parent.laws set_sql_update hard_due_def)

lemma children_of_others:
  assumes "k \<notin> set ids"
  shows "sql_exists (\<lambda>x. col_key c x = k \<and> col_hard c x = None \<and> \<not> past_grace c w now x) (get_rows c (snd (hard_delete c n ids db)))
    = sql_exists (\<lambda>x. col_key c x = k \<and> col_hard c x = None \<and> \<not> past_grace c w now x) (get_rows c db)"
  using assms by (auto simp: hard_delete_def update_rows_def child.laws sql_exists_iff set_sql_update)

lemma hard_parents_update:
  "set (hard_parents (snd (couple (hard_delete p now) (hard_delete c now) ids db))) = set (hard_parents db) - set ids"
proof -
  let ?db = "snd (couple (hard_delete p now) (hard_delete c now) ids db)"
  let ?D = "\<lambda>db r. hard_due p w now r \<and> \<not> blocked db (col_key p r)
     \<and> \<not> sql_exists (\<lambda>x. col_key c x = col_key p r \<and> col_hard c x = None \<and> \<not> past_grace c w now x) (get_rows c db)"
  have rows: "get_rows p ?db = get_rows p (snd (hard_delete p now ids db))" by (simp add: couple_simps stamp_frame)
  have "?D ?db r \<longleftrightarrow> ?D db r" if "r \<in> set (get_rows p ?db)" for r
  proof (cases "col_key p r \<in> set ids")
    case True
    then show ?thesis using hard_stamped [of r now ids db] that unfolding rows by blast
  next
    case False
    then show ?thesis using children_of_others [OF False, of now "snd (hard_delete p now ids db)"] by (simp add: couple_simps stamp_frame)
  qed
  then have "filter (?D ?db) (get_rows p ?db) = filter (?D db) (get_rows p ?db)" by (rule filter_cong [OF refl])
  then show ?thesis
    unfolding hard_parents_def parent_keys_def parent_hard_rows_def rows using parent.hard_delete_due [of "?D db" w now ids db] by simp
qed

lemmas coupled_laws = couple_simps stamp_frame stamp_swap child_frame_swap count_skip keys_ok_stamp parent.soft_delete_nil parent.hard_delete_nil
  child.soft_delete_nil child.hard_delete_nil parent.soft_delete_join parent.hard_delete_join child.soft_delete_join child.hard_delete_join

end

sublocale coupled_tables \<subseteq> soft_parent: pass_update soft_parents "couple (soft_delete p now) (soft_delete c now)" keys_ok
proof unfold_locales
  fix db ids xs ys
  show "keys_ok db \<Longrightarrow> distinct (soft_parents db)"
    by (simp add: soft_parents_def parent_keys_def parent_soft_rows_def keys_ok_def distinct_map_filter)
  show "set (soft_parents (snd (couple (soft_delete p now) (soft_delete c now) ids db))) = set (soft_parents db) - set ids"
    using parent.soft_delete_due [of "\<lambda>r. soft_due p w now r \<and> \<not> blocked db (col_key p r)" w now ids db]
    by (simp add: soft_parents_def parent_keys_def parent_soft_rows_def couple_simps stamp_frame)
  show "set xs = set ys \<Longrightarrow> couple (soft_delete p now) (soft_delete c now) xs db = couple (soft_delete p now) (soft_delete c now) ys db"
    using soft_cong [of xs ys p] soft_cong [of xs ys c] by (simp add: couple_def)
qed (simp_all add: prod_eq_iff coupled_laws)

sublocale coupled_tables \<subseteq> soft_orphan: pass_update soft_orphans "child_only (soft_delete c now)" keys_ok
proof unfold_locales
  fix db ids xs ys
  show "distinct (soft_orphans db)" by (simp add: soft_orphans_def distinct_keys_def)
  show "set (soft_orphans (snd (child_only (soft_delete c now) ids db))) = set (soft_orphans db) - set ids"
    using child.soft_delete_due [of "\<lambda>x. soft_due c w now x \<and> \<not> sql_exists (\<lambda>r. col_key p r = col_key c x) (get_rows p db) \<and> \<not> blocked db (col_key c x)" w now ids db]
    by (simp add: soft_orphans_def distinct_keys_def orphan_soft_rows_def coupled_laws)
  show "set xs = set ys \<Longrightarrow> child_only (soft_delete c now) xs db = child_only (soft_delete c now) ys db"
    using soft_cong [of xs ys c] by (simp add: child_only_def)
qed (simp_all add: prod_eq_iff coupled_laws)

sublocale coupled_tables \<subseteq> hard_parent: pass_update hard_parents "couple (hard_delete p now) (hard_delete c now)" keys_ok
proof unfold_locales
  fix db ids xs ys
  show "keys_ok db \<Longrightarrow> distinct (hard_parents db)"
    by (simp add: hard_parents_def parent_keys_def parent_hard_rows_def keys_ok_def distinct_map_filter)
  show "set (hard_parents (snd (couple (hard_delete p now) (hard_delete c now) ids db))) = set (hard_parents db) - set ids"
    by (rule hard_parents_update)
  show "set xs = set ys \<Longrightarrow> couple (hard_delete p now) (hard_delete c now) xs db = couple (hard_delete p now) (hard_delete c now) ys db"
    using hard_cong [of xs ys p] hard_cong [of xs ys c] by (simp add: couple_def)
qed (simp_all add: prod_eq_iff coupled_laws)

sublocale coupled_tables \<subseteq> hard_orphan: pass_update hard_orphans "child_only (hard_delete c now)" keys_ok
proof unfold_locales
  fix db ids xs ys
  show "distinct (hard_orphans db)" by (simp add: hard_orphans_def distinct_keys_def)
  show "set (hard_orphans (snd (child_only (hard_delete c now) ids db))) = set (hard_orphans db) - set ids"
    using child.hard_delete_due [of "\<lambda>x. hard_due c w now x \<and> \<not> sql_exists (\<lambda>r. col_key p r = col_key c x) (get_rows p db) \<and> \<not> blocked db (col_key c x)" w now ids db]
    by (simp add: hard_orphans_def distinct_keys_def orphan_hard_rows_def coupled_laws)
  show "set xs = set ys \<Longrightarrow> child_only (hard_delete c now) xs db = child_only (hard_delete c now) ys db"
    using hard_cong [of xs ys c] by (simp add: child_only_def)
qed (simp_all add: prod_eq_iff coupled_laws)

text \<open>A row that a run may leave: as it was, or stamped because its own window has elapsed and no review blocks its call.\<close>

definition due_change :: "('r, 'k) cols \<Rightarrow> retention_window \<Rightarrow> int \<Rightarrow> ('k \<Rightarrow> bool) \<Rightarrow> 'r \<Rightarrow> 'r \<Rightarrow> bool" where
  "due_change t w now blocked r r' \<longleftrightarrow>
     r' = r \<or> \<not> blocked (col_key t r) \<and> (soft_due t w now r \<and> r' = set_soft t now r \<or> hard_due t w now r \<and> r' = set_hard t now r)"

text \<open>When a child row's turn comes.  It follows the parent of its call: stamped when the parent is due, scrubbed when the parent is due for that and the
  child is past its own grace.  The children of a call with no parent share one turn: that of the first of them to be due.\<close>

definition soft_turn :: "('p, string) cols \<Rightarrow> ('c, string) cols \<Rightarrow> retention_window \<Rightarrow> int \<Rightarrow> 'p list \<Rightarrow> 'c list \<Rightarrow> 'c \<Rightarrow> bool" where
  "soft_turn p c w now ps cs x \<longleftrightarrow> col_soft c x = None
     \<and> ((\<exists>r \<in> set ps. col_key p r = col_key c x \<and> soft_due p w now r)
        \<or> (\<forall>r \<in> set ps. col_key p r \<noteq> col_key c x) \<and> (\<exists>z \<in> set cs. col_key c z = col_key c x \<and> soft_due c w now z))"

definition hard_turn :: "('p, string) cols \<Rightarrow> ('c, string) cols \<Rightarrow> retention_window \<Rightarrow> int \<Rightarrow> 'p list \<Rightarrow> 'c list \<Rightarrow> 'c \<Rightarrow> bool" where
  "hard_turn p c w now ps cs x \<longleftrightarrow> col_hard c x = None
     \<and> ((\<exists>r \<in> set ps. col_key p r = col_key c x \<and> hard_due p w now r) \<and> past_grace c w now x
        \<or> (\<forall>r \<in> set ps. col_key p r \<noteq> col_key c x) \<and> (\<exists>z \<in> set cs. col_key c z = col_key c x \<and> hard_due c w now z))"

definition child_change ::
    "('p, string) cols \<Rightarrow> ('c, string) cols \<Rightarrow> retention_window \<Rightarrow> int \<Rightarrow> (string \<Rightarrow> bool) \<Rightarrow> 'p list \<Rightarrow> 'c list \<Rightarrow> 'c \<Rightarrow> 'c \<Rightarrow> bool" where
  "child_change p c w now blocked ps cs x y \<longleftrightarrow>
     y = x \<or> \<not> blocked (col_key c x)
       \<and> (soft_turn p c w now ps cs x \<and> y = set_soft c now x
          \<or> hard_turn p c w now ps cs x \<and> y = set_hard c now x
          \<or> soft_turn p c w now ps cs x \<and> hard_turn p c w now ps cs x \<and> y = set_hard c now (set_soft c now x))"

text \<open>What a group may have done when a step failed: each pass handled some of the calls it selected, in order.\<close>

definition partial_group ::
    "('p, string) cols \<Rightarrow> ('c, string) cols \<Rightarrow> (db \<Rightarrow> string \<Rightarrow> bool) \<Rightarrow> retention_window \<Rightarrow> int \<Rightarrow> db \<Rightarrow> db \<Rightarrow> bool" where
  "partial_group p c blocked w now db db' \<longleftrightarrow>
     (\<exists>i1 i2 i3 i4 db1 db2 db3.
        set i1 \<subseteq> set (parent_keys p (parent_soft_rows p w (blocked db) now db)) \<and> db1 = snd (couple (soft_delete p now) (soft_delete c now) i1 db)
        \<and> set i2 \<subseteq> set (distinct_keys c (orphan_soft_rows p c w (blocked db1) now db1)) \<and> db2 = snd (soft_delete c now i2 db1)
        \<and> set i3 \<subseteq> set (parent_keys p (parent_hard_rows p c w (blocked db2) now db2)) \<and> db3 = snd (couple (hard_delete p now) (hard_delete c now) i3 db2)
        \<and> set i4 \<subseteq> set (distinct_keys c (orphan_hard_rows p c w (blocked db3) now db3)) \<and> db' = snd (hard_delete c now i4 db3))"

definition group_change ::
    "('p, string) cols \<Rightarrow> ('c, string) cols \<Rightarrow> (db \<Rightarrow> string \<Rightarrow> bool) \<Rightarrow> retention_window \<Rightarrow> int \<Rightarrow> db \<Rightarrow> db \<Rightarrow> bool" where
  "group_change p c blocked w now db db' \<longleftrightarrow>
     (\<exists>ps cs. db' = put_rows p ps (put_rows c cs db) \<and> list_all2 (due_change p w now (blocked db)) (get_rows p db) ps
        \<and> list_all2 (child_change p c w now (blocked db) (get_rows p db) (get_rows c db)) (get_rows c db) cs)"

definition soft_if :: "('r, 'k) cols \<Rightarrow> int \<Rightarrow> 'k list \<Rightarrow> 'r \<Rightarrow> 'r" where
  "soft_if t now ids r = (if col_key t r \<in> set ids \<and> col_soft t r = None then set_soft t now r else r)"

definition hard_if :: "('r, 'k) cols \<Rightarrow> int \<Rightarrow> 'k list \<Rightarrow> 'r \<Rightarrow> 'r" where
  "hard_if t now ids r = (if col_key t r \<in> set ids \<and> col_hard t r = None then set_hard t now r else r)"

context coupled_tables
begin

lemma put_twice:
  "put_rows p ps (put_rows c cs (put_rows p ps' db)) = put_rows p ps (put_rows c cs db)"
  "put_rows p ps (put_rows c cs (put_rows p ps' (put_rows c cs' db))) = put_rows p ps (put_rows c cs db)"
  by (simp_all add: put_commute parent.put_put child.put_put flip: put_commute)

lemma group_change_put:
  "get_rows p (put_rows p ps (put_rows c cs db)) = ps" "get_rows c (put_rows p ps (put_rows c cs db)) = cs"
  "blocked (put_rows p ps (put_rows c cs db)) = blocked db"
  by (simp_all add: parent.get_put child.get_put other_rows put_blocked)

lemma stamps:
  "snd (couple (soft_delete p n) (soft_delete c n) ids (put_rows p ps (put_rows c cs db))) = put_rows p (map (soft_if p n ids) ps) (put_rows c (map (soft_if c n ids) cs) db)"
  "snd (couple (hard_delete p n) (hard_delete c n) ids (put_rows p ps (put_rows c cs db))) = put_rows p (map (hard_if p n ids) ps) (put_rows c (map (hard_if c n ids) cs) db)"
  "snd (soft_delete c n ids (put_rows p ps (put_rows c cs db))) = put_rows p ps (put_rows c (map (soft_if c n ids) cs) db)"
  "snd (hard_delete c n ids (put_rows p ps (put_rows c cs db))) = put_rows p ps (put_rows c (map (hard_if c n ids) cs) db)"
  by (simp_all add: couple_simps soft_delete_def hard_delete_def update_rows_def sql_update_def soft_if_def [abs_def] hard_if_def [abs_def]
      parent.laws child.laws other_rows put_commute [symmetric])

lemma put_self: "put_rows p (get_rows p db) (put_rows c (get_rows c db) db) = db"
  by (simp add: parent.laws child.laws)

lemma key_if [simp]: "col_key p (soft_if p n ids r) = col_key p r" "col_key p (hard_if p n ids r) = col_key p r"
  "col_key c (soft_if c n ids x) = col_key c x" "col_key c (hard_if c n ids x) = col_key c x"
  by (simp_all add: soft_if_def hard_if_def parent.laws child.laws)

lemma due_before_stamp:
  assumes "softDays w < hardDays w"
  shows "past_grace c w now (soft_if c now ids x) \<Longrightarrow> past_grace c w now x"
    and "hard_due c w now (soft_if c now ids x) \<Longrightarrow> hard_due c w now x"
    and "soft_due c w now (soft_if c now ids x) \<Longrightarrow> soft_due c w now x"
    and "hard_due c w now (hard_if c now ids x) \<Longrightarrow> hard_due c w now x"
  using assms by (auto simp: soft_if_def hard_if_def past_grace_def hard_due_def soft_due_def child.laws days_ms_def split: if_splits)

text \<open>Four passes over one child row.\<close>

lemma child_passes:
  assumes i1: "col_key c x \<in> set i1 \<Longrightarrow> (\<exists>r \<in> set ps. col_key p r = col_key c x \<and> soft_due p w now r)"
    and i2: "col_key c x \<in> set i2 \<Longrightarrow> (\<forall>r \<in> set ps. col_key p r \<noteq> col_key c x) \<and> (\<exists>z \<in> set cs. col_key c z = col_key c x \<and> soft_due c w now z)"
    and i3: "col_key c x \<in> set i3 \<Longrightarrow> (\<exists>r \<in> set ps. col_key p r = col_key c x \<and> hard_due p w now r)
       \<and> (col_hard c x = None \<longrightarrow> past_grace c w now x)"
    and i4: "col_key c x \<in> set i4 \<Longrightarrow> (\<forall>r \<in> set ps. col_key p r \<noteq> col_key c x) \<and> (\<exists>z \<in> set cs. col_key c z = col_key c x \<and> hard_due c w now z)"
    and un: "col_key c x \<in> set i1 \<union> set i2 \<union> set i3 \<union> set i4 \<Longrightarrow> \<not> blk (col_key c x)"
  shows "child_change p c w now blk ps cs x (hard_if c now i4 (hard_if c now i3 (soft_if c now i2 (soft_if c now i1 x))))"
proof -
  let ?k = "col_key c x"
  let ?x1 = "if (?k \<in> set i1 \<or> ?k \<in> set i2) \<and> col_soft c x = None then set_soft c now x else x"
  have s: "soft_if c now i2 (soft_if c now i1 x) = ?x1" by (auto simp: soft_if_def child.laws)
  have h: "hard_if c now i4 (hard_if c now i3 y) = (if (?k \<in> set i3 \<or> ?k \<in> set i4) \<and> col_hard c y = None then set_hard c now y else y)"
    if "col_key c y = ?k" for y using that by (auto simp: hard_if_def child.laws)
  have soft: "soft_turn p c w now ps cs x" if "?k \<in> set i1 \<or> ?k \<in> set i2" "col_soft c x = None" using that i1 i2 by (auto simp: soft_turn_def)
  have hard: "hard_turn p c w now ps cs x" if "?k \<in> set i3 \<or> ?k \<in> set i4" "col_hard c x = None" using that i3 i4 by (auto simp: hard_turn_def)
  have "col_key c ?x1 = ?k" "col_hard c ?x1 = col_hard c x" by (simp_all add: child.laws)
  then show ?thesis unfolding s using h soft hard un by (auto simp: child_change_def)
qed

lemma partial_change:
  assumes "keys_ok db" "softDays w < hardDays w" "partial_group p c blocked w now db db'"
  shows "group_change p c blocked w now db db'"
proof -
  let ?P = "get_rows p db" and ?C = "get_rows c db"
  from assms(3) obtain i1 i2 i3 i4 db1 db2 db3 where
    i1: "set i1 \<subseteq> set (parent_keys p (parent_soft_rows p w (blocked db) now db))" and db1: "db1 = snd (couple (soft_delete p now) (soft_delete c now) i1 db)"
    and i2: "set i2 \<subseteq> set (distinct_keys c (orphan_soft_rows p c w (blocked db1) now db1))" and db2: "db2 = snd (soft_delete c now i2 db1)"
    and i3: "set i3 \<subseteq> set (parent_keys p (parent_hard_rows p c w (blocked db2) now db2))" and db3: "db3 = snd (couple (hard_delete p now) (hard_delete c now) i3 db2)"
    and i4: "set i4 \<subseteq> set (distinct_keys c (orphan_hard_rows p c w (blocked db3) now db3))" and db': "db' = snd (hard_delete c now i4 db3)"
    unfolding partial_group_def by blast
  let ?s = "soft_if p now i1" and ?h = "hard_if p now i3"
  have e1: "db1 = put_rows p (map ?s ?P) (put_rows c (map (soft_if c now i1) ?C) db)" unfolding db1 by (subst put_self [symmetric]) (rule stamps)
  have e2: "db2 = put_rows p (map ?s ?P) (put_rows c (map (soft_if c now i2) (map (soft_if c now i1) ?C)) db)" unfolding db2 e1 by (rule stamps)
  have e3: "db3 = put_rows p (map ?h (map ?s ?P)) (put_rows c (map (hard_if c now i3) (map (soft_if c now i2) (map (soft_if c now i1) ?C))) db)"
    unfolding db3 e2 by (rule stamps)
  have e4: "db' = put_rows p (map ?h (map ?s ?P)) (put_rows c (map (hard_if c now i4) (map (hard_if c now i3) (map (soft_if c now i2) (map (soft_if c now i1) ?C)))) db)"
    unfolding db' e3 by (rule stamps)
  have bl: "blocked db1 = blocked db" "blocked db2 = blocked db" "blocked db3 = blocked db" by (simp_all add: e1 e2 e3 group_change_put)
  have un: "\<not> blocked db k" if "k \<in> set i1 \<union> set i2 \<union> set i3 \<union> set i4" for k
    using that i1 i2 i3 i4 by (auto simp: bl parent_keys_def distinct_keys_def parent_soft_rows_def parent_hard_rows_def orphan_soft_rows_def orphan_hard_rows_def)
  have one: "r = r'" if "r \<in> set ?P" "r' \<in> set ?P" "col_key p r = col_key p r'" for r r'
    using assms(1) that unfolding keys_ok_def distinct_map by (auto dest: inj_onD)
  have soft: "soft_due p w now r" if r: "r \<in> set ?P" and k: "col_key p r \<in> set i1" for r
  proof -
    obtain r' where "r' \<in> set ?P" "soft_due p w now r'" "col_key p r' = col_key p r"
      using i1 k by (fastforce simp: parent_keys_def parent_soft_rows_def)
    then show ?thesis using one [OF _ r] by blast
  qed
  have hard: "hard_due p w now (?s r)" if r: "r \<in> set ?P" and k: "col_key p r \<in> set i3" for r
  proof -
    obtain r' where "r' \<in> set ?P" "hard_due p w now (?s r')" "col_key p r' = col_key p r"
      using i3 k by (fastforce simp: e2 group_change_put parent_keys_def parent_hard_rows_def)
    then show ?thesis using one [OF _ r] by blast
  qed
  have change: "due_change p w now (blocked db) r (?h (?s r))" if r: "r \<in> set ?P" for r
  proof (cases "col_key p r \<in> set i1")
    case True
    then have s: "?s r = set_soft p now r" using soft [OF r] by (simp add: soft_if_def soft_due_def)
    then have "\<not> hard_due p w now (?s r)" using assms(2) by (simp add: hard_due_def past_grace_def parent.laws days_ms_def)
    then have "col_key p r \<notin> set i3" using hard [OF r] by blast
    then show ?thesis using s soft [OF r True] un True by (simp add: due_change_def hard_if_def parent.laws)
  next
    case False
    then have "?s r = r" by (simp add: soft_if_def)
    then show ?thesis using hard [OF r] un by (auto simp: due_change_def hard_if_def)
  qed
  have kid: "child_change p c w now (blocked db) ?P ?C x (hard_if c now i4 (hard_if c now i3 (soft_if c now i2 (soft_if c now i1 x))))" if x: "x \<in> set ?C" for x
  proof (rule child_passes)
    let ?k = "col_key c x"
    show "\<exists>r \<in> set ?P. col_key p r = ?k \<and> soft_due p w now r" if "?k \<in> set i1"
      using subsetD [OF i1 that] unfolding parent_keys_def parent_soft_rows_def by auto
    show "(\<forall>r \<in> set ?P. col_key p r \<noteq> ?k) \<and> (\<exists>z \<in> set ?C. col_key c z = ?k \<and> soft_due c w now z)" if k: "?k \<in> set i2"
    proof -
      obtain z where "z \<in> set ?C" "col_key c z = ?k" "soft_due c w now (soft_if c now i1 z)" "\<not> sql_exists (\<lambda>r. col_key p r = ?k) (map ?s ?P)"
        using subsetD [OF i2 k] unfolding e1 group_change_put distinct_keys_def orphan_soft_rows_def by auto
      then show ?thesis using due_before_stamp(3) [OF assms(2)] by (auto simp: sql_exists_iff)
    qed
    show "(\<exists>r \<in> set ?P. col_key p r = ?k \<and> hard_due p w now r) \<and> (col_hard c x = None \<longrightarrow> past_grace c w now x)" if k: "?k \<in> set i3"
    proof -
      let ?x2 = "soft_if c now i2 (soft_if c now i1 x)"
      obtain r where r: "r \<in> set ?P" "col_key p r = ?k" "hard_due p w now (?s r)"
        and "\<not> sql_exists (\<lambda>x. col_key c x = col_key p (?s r) \<and> col_hard c x = None \<and> \<not> past_grace c w now x)
           (map (soft_if c now i2) (map (soft_if c now i1) ?C))"
        using subsetD [OF i3 k] unfolding e2 group_change_put parent_keys_def parent_hard_rows_def by auto
      then have "col_hard c ?x2 = None \<longrightarrow> past_grace c w now ?x2" using x by (auto simp: sql_exists_iff)
      moreover have "col_hard c ?x2 = col_hard c x" by (simp add: soft_if_def child.laws)
      moreover have "?s r = r" using r(3) assms(2) by (auto simp: soft_if_def hard_due_def past_grace_def parent.laws days_ms_def split: if_splits)
      ultimately show ?thesis using r due_before_stamp(1) [OF assms(2)] by metis
    qed
    show "(\<forall>r \<in> set ?P. col_key p r \<noteq> ?k) \<and> (\<exists>z \<in> set ?C. col_key c z = ?k \<and> hard_due c w now z)" if k: "?k \<in> set i4"
    proof -
      obtain z where z: "z \<in> set ?C" "col_key c z = ?k" "hard_due c w now (hard_if c now i3 (soft_if c now i2 (soft_if c now i1 z)))"
        and no: "\<not> sql_exists (\<lambda>r. col_key p r = ?k) (map ?h (map ?s ?P))"
        using subsetD [OF i4 k] unfolding e3 group_change_put distinct_keys_def orphan_hard_rows_def set_remdups set_map set_filter
        by (elim imageE CollectE conjE) (simp only: key_if, blast)
      from z(3) have "hard_due c w now z" by (blast dest: due_before_stamp(2,4) [OF assms(2)])
      moreover have "\<forall>r \<in> set ?P. col_key p r \<noteq> ?k" using no by (simp add: sql_exists_iff)
      ultimately show ?thesis using z(1,2) by blast
    qed
  qed (rule un)
  have "list_all2 (due_change p w now (blocked db)) ?P (map ?h (map ?s ?P))" using change by (auto simp: list_all2_map2 list_all2_same)
  moreover have "list_all2 (child_change p c w now (blocked db) ?P ?C) ?C
      (map (hard_if c now i4) (map (hard_if c now i3) (map (soft_if c now i2) (map (soft_if c now i1) ?C))))"
    using kid by (auto simp: list_all2_map2 list_all2_same)
  ultimately show ?thesis unfolding group_change_def e4 by blast
qed

end

interpretation raw_group: coupled_tables raw_cols vault_cols "\<lambda>_ _. False" w now for w now
  by unfold_locales (simp_all add: raw_cols_def vault_cols_def)

text \<open>The RAW passes as they select (no call left out), and as their updates see them (the blocked calls left out).\<close>

interpretation raw_held: coupled_tables raw_cols vault_cols raw_blocked w now for w now
  by unfold_locales (simp_all add: raw_cols_def vault_cols_def raw_blocked_def fun_eq_iff)

interpretation clean_group: coupled_tables clean_cols findings_cols blocks_clean w now for w now
  by unfold_locales (simp_all add: clean_cols_def findings_cols_def blocks_clean_def fun_eq_iff)

section \<open>The reference: one statement per pass\<close>

definition one_shot_group ::
    "('p, string) cols \<Rightarrow> ('c, string) cols \<Rightarrow> (db \<Rightarrow> string \<Rightarrow> bool) \<Rightarrow> coupled_spec \<Rightarrow> int \<Rightarrow> db \<Rightarrow> purge_counts \<times> db" where
  "one_shot_group p c blocked spec now db =
     (let w = sp_window spec;
          softCalls = parent_keys p (parent_soft_rows p w (blocked db) now db);
          s1 = couple (soft_delete p now) (soft_delete c now) softCalls db; db1 = snd s1;
          softOrphans = distinct_keys c (orphan_soft_rows p c w (blocked db1) now db1);
          s2 = soft_delete c now softOrphans db1; db2 = snd s2;
          hardCalls = parent_keys p (parent_hard_rows p c w (blocked db2) now db2);
          s3 = couple (hard_delete p now) (hard_delete c now) hardCalls db2; db3 = snd s3;
          hardOrphans = distinct_keys c (orphan_hard_rows p c w (blocked db3) now db3);
          s4 = hard_delete c now hardOrphans db3
      in (run_report spec (fst (fst s1), snd (fst s1) + fst s2) (fst (fst s3), snd (fst s3) + fst s4)
            (length softCalls + length softOrphans) (length hardCalls + length hardOrphans), snd s4))"

lemma filter_parent_keys:
  "filter (\<lambda>k. \<not> b k) (parent_keys p (parent_soft_rows p w (\<lambda>_. False) now db)) = parent_keys p (parent_soft_rows p w b now db)"
  "filter (\<lambda>k. \<not> b k) (parent_keys p (parent_hard_rows p c w (\<lambda>_. False) now db)) = parent_keys p (parent_hard_rows p c w b now db)"
  "filter (\<lambda>k. \<not> b k) (distinct_keys c (orphan_soft_rows p c w (\<lambda>_. False) now db)) = distinct_keys c (orphan_soft_rows p c w b now db)"
  "filter (\<lambda>k. \<not> b k) (distinct_keys c (orphan_hard_rows p c w (\<lambda>_. False) now db)) = distinct_keys c (orphan_hard_rows p c w b now db)"
  by (simp_all add: parent_keys_def parent_soft_rows_def parent_hard_rows_def distinct_keys_def orphan_soft_rows_def orphan_hard_rows_def
      filter_map o_def conj_ac flip: remdups_filter)

lemma child_only_simps: "snd (child_only v ids db) = snd (v ids db)" "fst (child_only v ids db) = (0, fst (v ids db))"
  by (simp_all add: child_only_def split: prod.splits)

text \<open>Every fault of a step is reported with the step's own context.\<close>

definition fault_of :: "faults \<Rightarrow> purge_error \<Rightarrow> bool" where
  "fault_of fault e \<longleftrightarrow> (\<exists>meta db. step_fault fault meta db = Some e)"

lemma pass_cases:
  assumes "pass_outcome fault meta keys update db (pass db)"
  obtains (returned) "\<And>f :: nat \<times> nat \<times> nat \<Rightarrow> purge_counts pop. pop_bind pass f db = f (length keys, fst (update keys db)) (snd (update keys db))"
  | (failed) ids e where "\<And>f :: nat \<times> nat \<times> nat \<Rightarrow> purge_counts pop. pop_bind pass f db = Some (Inl e, snd (update ids db))" "set ids \<subseteq> set keys" "fault_of fault e"
  using assms unfolding pass_outcome_def fault_of_def by (fastforce simp: pop_bind_def)

definition group_outcome ::
    "faults \<Rightarrow> ('p, string) cols \<Rightarrow> ('c, string) cols \<Rightarrow> (db \<Rightarrow> string \<Rightarrow> bool) \<Rightarrow> coupled_spec \<Rightarrow> int \<Rightarrow> db \<Rightarrow> ((purge_error + purge_counts) \<times> db) option \<Rightarrow> bool" where
  "group_outcome fault p c blocked spec now db out \<longleftrightarrow>
     (\<exists>r db'. out = Some (r, db') \<and> partial_group p c blocked (sp_window spec) now db db'
        \<and> (case r of Inr rep \<Rightarrow> (rep, db') = one_shot_group p c blocked spec now db | Inl e \<Rightarrow> fault_of fault e))"

lemma partialI:
  assumes "set i1 \<subseteq> set (parent_keys p (parent_soft_rows p w (blocked db) now db))"
    "db1 = snd (couple (soft_delete p now) (soft_delete c now) i1 db)"
    "set i2 \<subseteq> set (distinct_keys c (orphan_soft_rows p c w (blocked db1) now db1))" "db2 = snd (soft_delete c now i2 db1)"
    "set i3 \<subseteq> set (parent_keys p (parent_hard_rows p c w (blocked db2) now db2))"
    "db3 = snd (couple (hard_delete p now) (hard_delete c now) i3 db2)"
    "set i4 \<subseteq> set (distinct_keys c (orphan_hard_rows p c w (blocked db3) now db3))" "db' = snd (hard_delete c now i4 db3)"
  shows "partial_group p c blocked w now db db'"
  unfolding partial_group_def using assms by blast

lemma run_passes_run:
  fixes p :: "('p, string) cols" and c :: "('c, string) cols"
  assumes "ok db"
    and pass1: "\<And>db. ok db \<Longrightarrow> pass_outcome fault m1 (parent_keys p (parent_soft_rows p (sp_window spec) (blocked db) now db))
      (couple (soft_delete p now) (soft_delete c now)) db (pass1 db)"
    and pass2: "\<And>db. ok db \<Longrightarrow> pass_outcome fault m2 (distinct_keys c (orphan_soft_rows p c (sp_window spec) (blocked db) now db))
      (child_only (soft_delete c now)) db (pass2 db)"
    and pass3: "\<And>db. ok db \<Longrightarrow> pass_outcome fault m3 (parent_keys p (parent_hard_rows p c (sp_window spec) (blocked db) now db))
      (couple (hard_delete p now) (hard_delete c now)) db (pass3 db)"
    and pass4: "\<And>db. ok db \<Longrightarrow> pass_outcome fault m4 (distinct_keys c (orphan_hard_rows p c (sp_window spec) (blocked db) now db))
      (child_only (hard_delete c now)) db (pass4 db)"
    and tables: "retained_table p" "retained_table c"
    and keeps: "\<And>db ids. ok db \<Longrightarrow> ok (snd (couple (soft_delete p now) (soft_delete c now) ids db))" "\<And>db ids. ok db \<Longrightarrow> ok (snd (soft_delete c now ids db))"
      "\<And>db ids. ok db \<Longrightarrow> ok (snd (couple (hard_delete p now) (hard_delete c now) ids db))"
  shows "group_outcome fault p c blocked spec now db (run_passes spec pass1 pass2 pass3 pass4 db)"
proof -
  note nil = retained_table.soft_delete_nil [OF tables(1)] retained_table.soft_delete_nil [OF tables(2)]
    retained_table.hard_delete_nil [OF tables(1)] retained_table.hard_delete_nil [OF tables(2)]
  have couple_nil: "couple (soft_delete p now) (soft_delete c now) [] db = ((0, 0), db)" "couple (hard_delete p now) (hard_delete c now) [] db = ((0, 0), db)" for db
    by (simp_all add: couple_def nil)
  define w where "w = sp_window spec"
  define k1 where "k1 = parent_keys p (parent_soft_rows p w (blocked db) now db)"
  define db1 where "db1 = snd (couple (soft_delete p now) (soft_delete c now) k1 db)"
  define k2 where "k2 = distinct_keys c (orphan_soft_rows p c w (blocked db1) now db1)"
  define db2 where "db2 = snd (soft_delete c now k2 db1)"
  define k3 where "k3 = parent_keys p (parent_hard_rows p c w (blocked db2) now db2)"
  define db3 where "db3 = snd (couple (hard_delete p now) (hard_delete c now) k3 db2)"
  define k4 where "k4 = distinct_keys c (orphan_hard_rows p c w (blocked db3) now db3)"
  note defs = w_def k1_def db1_def k2_def db2_def k3_def db3_def k4_def
  have ok1: "ok db1" unfolding db1_def by (rule keeps(1) [OF assms(1)])
  have ok2: "ok db2" unfolding db2_def by (rule keeps(2) [OF ok1])
  have ok3: "ok db3" unfolding db3_def by (rule keeps(3) [OF ok2])
  note outs = pass1 [OF assms(1), folded w_def, folded k1_def] pass2 [OF ok1, folded w_def, folded k2_def]
    pass3 [OF ok2, folded w_def, folded k3_def] pass4 [OF ok3, folded w_def, folded k4_def]
  note part = partialI [where p = p and c = c and w = w and now = now and blocked = blocked and db = db, folded k1_def] and run = run_passes_def case_prod_beta
  let ?run = "run_passes spec pass1 pass2 pass3 pass4 db"
  have stop: ?thesis if "?run = Some (Inl e, db')" "partial_group p c blocked w now db db'" "fault_of fault e" for e db'
    using that unfolding w_def group_outcome_def by fastforce
  from outs(1) show ?thesis
  proof (cases rule: pass_cases)
    case (failed ids e)
    then show ?thesis by (intro stop part [OF failed(2) refl, of "[]" _ "[]" _ "[]"]) (simp_all add: run nil couple_nil)
  next
    case r1: returned
    note r1 = r1 [folded db1_def]
    from outs(2) show ?thesis
    proof (cases rule: pass_cases)
      case (failed ids e)
      then show ?thesis
        by (intro stop part [OF subset_refl db1_def, folded k2_def, OF failed(2) refl, of "[]" _ "[]"]) (simp_all add: run r1 nil couple_nil child_only_simps)
    next
      case r2: returned
      note r2 = r2 [unfolded child_only_simps, folded db2_def]
      note part2 = part [OF subset_refl db1_def, folded k2_def, OF subset_refl db2_def, folded k3_def]
      from outs(3) show ?thesis
      proof (cases rule: pass_cases)
        case (failed ids e)
        then show ?thesis by (intro stop part2 [OF failed(2) refl, of "[]"]) (simp_all add: run r1 r2 nil couple_nil)
      next
        case r3: returned
        note r3 = r3 [folded db3_def]
        note part3 = part2 [OF subset_refl db3_def, folded k4_def]
        from outs(4) show ?thesis
        proof (cases rule: pass_cases)
          case (failed ids e)
          then show ?thesis by (intro stop [OF _ part3 [OF failed(2) refl]]) (simp_all add: run r1 r2 r3 child_only_simps)
        next
          case r4: returned
          note r4 = r4 [unfolded child_only_simps]
          let ?o = "one_shot_group p c blocked spec now db"
          have "?o = (run_report spec (fst (fst (couple (soft_delete p now) (soft_delete c now) k1 db)),
              snd (fst (couple (soft_delete p now) (soft_delete c now) k1 db)) + fst (soft_delete c now k2 db1))
            (fst (fst (couple (hard_delete p now) (hard_delete c now) k3 db2)),
              snd (fst (couple (hard_delete p now) (hard_delete c now) k3 db2)) + fst (hard_delete c now k4 db3))
            (length k1 + length k2) (length k3 + length k4), snd (hard_delete c now k4 db3))"
            unfolding one_shot_group_def Let_def defs by (rule refl)
          then have "?run = Some (Inr (fst ?o), snd ?o)" "snd ?o = snd (hard_delete c now k4 db3)"
            by (simp_all add: run r1 r2 r3 r4 pop_return_def)
          moreover have "partial_group p c blocked w now db (snd (hard_delete c now k4 db3))" by (rule part3 [OF subset_refl refl])
          ultimately show ?thesis unfolding w_def group_outcome_def by (intro exI [of _ "Inr (fst ?o)"] exI [of _ "snd ?o"]) (simp add: prod_eq_iff)
        qed
      qed
    qed
  qed
qed

text \<open>What the environment supplies: a positive batch size, bounded selects and windows with a grace period.\<close>

definition env_ok :: "purge_env \<Rightarrow> bool" where
  "env_ok env \<longleftrightarrow> 0 < en_batch env \<and> bounded_select (en_limit env (en_batch env)) \<and> bounded_select (en_limit_id env (en_batch env))"

lemma raw_group_run:
  assumes "env_ok env" "\<not> en_dryRun env" "distinct (map rt_call_id (raw_transcripts db))"
  shows "group_outcome (en_fault env) raw_cols vault_cols raw_blocked spec (en_now env) db (purgeRawGroup env raw_cols vault_cols spec db)"
proof -
  have ok: "raw_group.keys_ok = (\<lambda>db. distinct (map rt_call_id (raw_transcripts db)))" unfolding fun_eq_iff raw_group.keys_ok_def by (simp add: raw_cols_def)
  have pick: "bounded_select (en_limit env (en_batch env))" using assms(1) by (simp add: env_ok_def)
  note passes = raw_group.soft_parent.rawPass_run [where limit = "en_limit env" and batch = "en_batch env", OF pick, unfolded raw_group.soft_parents_def [abs_def] filter_parent_keys]
    raw_group.soft_orphan.rawPass_run [where limit = "en_limit env" and batch = "en_batch env", OF pick, unfolded raw_group.soft_orphans_def [abs_def] filter_parent_keys]
    raw_group.hard_parent.rawPass_run [where limit = "en_limit env" and batch = "en_batch env", OF pick, unfolded raw_group.hard_parents_def [abs_def] filter_parent_keys]
    raw_group.hard_orphan.rawPass_run [where limit = "en_limit env" and batch = "en_batch env", OF pick, unfolded raw_group.hard_orphans_def [abs_def] filter_parent_keys]
  note keeps = raw_group.soft_parent.update_ok raw_group.soft_orphan.update_ok [unfolded child_only_simps] raw_group.hard_parent.update_ok
  show ?thesis
    unfolding purgeRawGroup_def Let_def if_not_P [OF assms(2)]
    by (rule run_passes_run [where ok = raw_group.keys_ok, OF _ passes raw_table.retained_table_axioms vault_table.retained_table_axioms keeps])
      (simp_all add: ok assms(3))
qed

lemma clean_group_run:
  assumes "env_ok env" "\<not> en_dryRun env" "distinct (map ct_call_id (clean_transcripts db))"
  shows "group_outcome (en_fault env) clean_cols findings_cols blocks_clean spec (en_now env) db (purgeCoupled env clean_cols findings_cols spec db)"
proof -
  have ok: "clean_group.keys_ok = (\<lambda>db. distinct (map ct_call_id (clean_transcripts db)))" unfolding fun_eq_iff clean_group.keys_ok_def by (simp add: clean_cols_def)
  have pick: "bounded_select (en_limit env (en_batch env))" using assms(1) by (simp add: env_ok_def)
  note passes = clean_group.soft_parent.coupledPass_run [where limit = "en_limit env" and batch = "en_batch env", OF pick, unfolded clean_group.soft_parents_def [abs_def]]
    clean_group.soft_orphan.coupledPass_run [where limit = "en_limit env" and batch = "en_batch env", OF pick, unfolded clean_group.soft_orphans_def [abs_def]]
    clean_group.hard_parent.coupledPass_run [where limit = "en_limit env" and batch = "en_batch env", OF pick, unfolded clean_group.hard_parents_def [abs_def]]
    clean_group.hard_orphan.coupledPass_run [where limit = "en_limit env" and batch = "en_batch env", OF pick, unfolded clean_group.hard_orphans_def [abs_def]]
  note keeps = clean_group.soft_parent.update_ok clean_group.soft_orphan.update_ok [unfolded child_only_simps] clean_group.hard_parent.update_ok
  show ?thesis
    unfolding purgeCoupled_def Let_def if_not_P [OF assms(2)]
    by (rule run_passes_run [where ok = clean_group.keys_ok, OF _ passes clean_table.retained_table_axioms findings_table.retained_table_axioms keeps])
      (simp_all add: ok assms(3))
qed

section \<open>Single tables\<close>

lemma bounded_select_sub: "bounded_select pick \<Longrightarrow> set (pick xs) \<subseteq> set xs"
  by (simp add: bounded_select_def)

locale single_pass = retained_table t for t :: "('r, 'k) cols" +
  fixes due :: "'r \<Rightarrow> bool" and f :: "'r \<Rightarrow> 'r"
  assumes key_kept: "col_key t (f r) = col_key t r" and consumed: "due r \<Longrightarrow> \<not> due (f r)"
begin

definition due_keys where "due_keys s = map (col_key t) (filter due (get_rows t (cn_db s)))"

definition stamp where
  "stamp ids s = s\<lparr>cn_db := put_rows t (sql_update (\<lambda>r. col_key t r \<in> set ids) f (get_rows t (cn_db s))) (cn_db s),
     cn_total := cn_total s + length (filter (\<lambda>r. col_key t r \<in> set ids) (get_rows t (cn_db s)))\<rparr>"

definition unique_keys where "unique_keys s \<longleftrightarrow> distinct (map (col_key t) (get_rows t (cn_db s)))"

lemma stamp_db: "get_rows t (cn_db (stamp ids s)) = sql_update (\<lambda>r. col_key t r \<in> set ids) f (get_rows t (cn_db s))"
  by (simp add: stamp_def get_put)

lemma stamp_join:
  assumes "set xs \<inter> set ys = {}"
  shows "stamp ys (stamp xs s) = stamp (xs @ ys) s"
proof -
  let ?rs = "get_rows t (cn_db s)" and ?in = "\<lambda>X r. col_key t r \<in> X"
  have "sql_update (?in (set ys)) f (sql_update (?in (set xs)) f rs) = sql_update (?in (set xs \<union> set ys)) f rs" for rs
    using assms by (induction rs) (auto simp: sql_update_def key_kept)
  moreover have "length (filter (?in (set xs)) rs) + length (filter (?in (set ys)) (sql_update (?in (set xs)) f rs)) = length (filter (?in (set xs \<union> set ys)) rs)" for rs
    using assms by (induction rs) (auto simp: sql_update_def key_kept)
  ultimately show ?thesis by (simp add: stamp_def get_put put_put add.assoc)
qed

lemma stamped_rows:
  assumes "distinct (map (col_key t) (get_rows t db))" "set ids \<subseteq> set (map (col_key t) (filter due (get_rows t db)))"
  shows "\<forall>r \<in> set (get_rows t db). col_key t r \<in> set ids \<longrightarrow> due r"
proof (intro ballI impI)
  fix r assume r: "r \<in> set (get_rows t db)" "col_key t r \<in> set ids"
  then obtain r' where "r' \<in> set (get_rows t db)" "due r'" "col_key t r' = col_key t r" using assms(2) by auto
  then show "due r" using assms(1) r(1) unfolding distinct_map by (auto dest: inj_onD)
qed

lemma stamp_due:
  assumes u: "unique_keys s" and ids: "set ids \<subseteq> set (due_keys s)"
  shows "set (due_keys (stamp ids s)) = set (due_keys s) - set ids"
proof -
  have due: "\<forall>r \<in> set (get_rows t (cn_db s)). col_key t r \<in> set ids \<longrightarrow> due r"
    by (rule stamped_rows [OF u [unfolded unique_keys_def] ids [unfolded due_keys_def]])
  let ?g = "\<lambda>r. if col_key t r \<in> set ids then f r else r"
  have "due (?g r) \<longleftrightarrow> due r \<and> col_key t r \<notin> set ids" if "r \<in> set (get_rows t (cn_db s))" for r using due that consumed by auto
  then have "filter due (sql_update (\<lambda>r. col_key t r \<in> set ids) f (get_rows t (cn_db s))) = filter (\<lambda>r. due r \<and> col_key t r \<notin> set ids) (get_rows t (cn_db s))"
    unfolding sql_update_def filter_map by (auto simp: o_def intro!: map_idI cong: filter_cong)
  then show ?thesis unfolding due_keys_def stamp_db by auto
qed

end

sublocale single_pass \<subseteq> loop: batch_pass due_keys stamp unique_keys
proof unfold_locales
  show "unique_keys s \<Longrightarrow> distinct (due_keys s)" for s by (simp add: unique_keys_def due_keys_def distinct_map_filter)
  show "stamp [] s = s" for s by (simp add: stamp_def update_none put_get)
  show "unique_keys s \<Longrightarrow> unique_keys (stamp ids s)" for s ids unfolding unique_keys_def stamp_db by (simp add: map_sql_update key_kept)
  show "unique_keys s \<Longrightarrow> set ids \<subseteq> set (due_keys s) \<Longrightarrow> set (due_keys (stamp ids s)) = set (due_keys s) - set ids" for s ids by (rule stamp_due)
  show "set ys \<subseteq> set (due_keys s) - set xs \<Longrightarrow> stamp ys (stamp xs s) = stamp (xs @ ys) s" for s xs ys by (rule stamp_join) auto
qed

text \<open>One update of everything that was due, or, after a failed step, of some of it.\<close>

definition single_outcome ::
    "faults \<Rightarrow> ('r, 'k) cols \<Rightarrow> ('r \<Rightarrow> bool) \<Rightarrow> ('r \<Rightarrow> 'r) \<Rightarrow> db \<Rightarrow> ((purge_error + nat) \<times> db) option \<Rightarrow> bool" where
  "single_outcome fault t due f db out \<longleftrightarrow>
     out = Some (Inr (length (filter due (get_rows t db))), put_rows t (sql_update due f (get_rows t db)) db)
     \<or> (\<exists>e p. out = Some (Inl e, put_rows t (sql_update p f (get_rows t db)) db) \<and> fault_of fault e \<and> (\<forall>r \<in> set (get_rows t db). p r \<longrightarrow> due r))"

context single_pass
begin

lemma batchedUpdate_run:
  assumes pick: "bounded_select pick" and u: "distinct (map (col_key t) (get_rows t db))"
  shows "single_outcome fault t due f db (batchedUpdate fault meta t pick due f db)"
proof -
  let ?s = "\<lparr>cn_db = db, cn_total = 0\<rparr>"
  have body: "purge_step fault meta cn_db (\<lambda>s :: count_state. let ids = pick (map (col_key t) (filter due (get_rows t (cn_db s)))) in
        case update_rows t (\<lambda>r. col_key t r \<in> set ids) f (cn_db s) of (n, db') \<Rightarrow> (n = 0, s\<lparr>cn_db := db', cn_total := cn_total s + n\<rparr>))
      = batch_body (\<lambda>s. step_fault fault meta (cn_db s)) due_keys pick stamp"
  proof
    fix s :: count_state
    let ?ids = "pick (due_keys s)"
    have sub: "set ?ids \<subseteq> col_key t ` set (get_rows t (cn_db s))" using bounded_select_sub [OF pick, of "due_keys s"] by (auto simp: due_keys_def)
    have "filter (\<lambda>r. col_key t r \<in> set ?ids) (get_rows t (cn_db s)) = [] \<longleftrightarrow> ?ids = []"
    proof
      assume "filter (\<lambda>r. col_key t r \<in> set ?ids) (get_rows t (cn_db s)) = []"
      then show "?ids = []" using sub by (cases ?ids) (auto simp: filter_empty_conv)
    qed simp
    then show "purge_step fault meta cn_db (\<lambda>s :: count_state. let ids = pick (map (col_key t) (filter due (get_rows t (cn_db s)))) in
        case update_rows t (\<lambda>r. col_key t r \<in> set ids) f (cn_db s) of (n, db') \<Rightarrow> (n = 0, s\<lparr>cn_db := db', cn_total := cn_total s + n\<rparr>)) s
      = batch_body (\<lambda>s. step_fault fault meta (cn_db s)) due_keys pick stamp s"
      by (auto simp: purge_step_eq batch_body_def update_rows_def stamp_def due_keys_def [symmetric] update_none put_get Let_def split: option.split)
  qed
  have "unique_keys ?s" using u by (simp add: unique_keys_def)
  from loop.passes [OF pick this, of "\<lambda>s. step_fault fault meta (cn_db s)"] obtain r ids where
    run: "until_done (batch_body (\<lambda>s. step_fault fault meta (cn_db s)) due_keys pick stamp) ?s = Some (r, stamp ids ?s)"
    and ids: "set ids \<subseteq> set (due_keys ?s)"
    and r: "case r of Inr u \<Rightarrow> set ids = set (due_keys ?s) | Inl e \<Rightarrow> step_fault fault meta (cn_db (stamp ids ?s)) = Some e" by blast
  have out: "batchedUpdate fault meta t pick due f db
      = Some (map_sum id (\<lambda>_. length (filter (\<lambda>r. col_key t r \<in> set ids) (get_rows t db))) r, put_rows t (sql_update (\<lambda>r. col_key t r \<in> set ids) f (get_rows t db)) db)"
    unfolding batchedUpdate_def body run by (simp add: stamp_def)
  have sub: "\<forall>r \<in> set (get_rows t db). col_key t r \<in> set ids \<longrightarrow> due r" by (rule stamped_rows [OF u ids [unfolded due_keys_def count_state.simps]])
  show ?thesis
  proof (cases r)
    case (Inl e)
    then show ?thesis using r sub unfolding single_outcome_def out fault_of_def
      by (intro disjI2 exI [of _ e] exI [of _ "\<lambda>r. col_key t r \<in> set ids"]) auto
  next
    case (Inr v)
    have same: "col_key t r \<in> set ids \<longleftrightarrow> due r" if "r \<in> set (get_rows t db)" for r using sub r Inr that by (auto simp: due_keys_def)
    then have "filter (\<lambda>r. col_key t r \<in> set ids) (get_rows t db) = filter due (get_rows t db)"
      "sql_update (\<lambda>r. col_key t r \<in> set ids) f (get_rows t db) = sql_update due f (get_rows t db)"
      by (auto simp: sql_update_def intro: filter_cong)
    then show ?thesis unfolding single_outcome_def out by (simp add: Inr)
  qed
qed

end

sublocale retained_table \<subseteq> soft: single_pass t "soft_due t w now" "set_soft t now" for w now
  by unfold_locales (simp_all add: laws soft_due_def)

sublocale retained_table \<subseteq> hard: single_pass t "hard_due t w now" "set_hard t now" for w now
  by unfold_locales (simp_all add: laws hard_due_def)

section \<open>The held cap\<close>

definition held_one :: "int \<Rightarrow> review_queue_row \<Rightarrow> db \<Rightarrow> db" where
  "held_one now row db = snd (markRawPurged (rq_id row) now (purge_raw_call (rq_call_id row) db))"

definition capped :: "int \<Rightarrow> int \<Rightarrow> db \<Rightarrow> review_queue_row list" where
  "capped capHours now db = listRawPurgeEligible capHours now None db"

lemma purge_raw_reviews: "review_queue (purge_raw_call c db) = review_queue db"
  by (simp add: purge_raw_call_def insertRawTombstone_def Let_def)

lemma purge_raw_again: "purge_raw_call c (purge_raw_call c db) = purge_raw_call c db"
  by (simp add: purge_raw_call_def insertRawTombstone_def isRawPurged_def Let_def sql_delete_def)

lemma held_one_again: "held_one now row (purge_raw_call (rq_call_id row) db) = held_one now row db"
  by (simp add: held_one_def purge_raw_again)

lemma held_one_reviews:
  "review_queue (held_one now row db) = sql_update (\<lambda>r. rq_id r = rq_id row \<and> rq_raw_purged_at r = None) (purged_row now) (review_queue db)"
  by (simp add: held_one_def markRawPurged_def Let_def purge_raw_reviews)

lemma capped_ids:
  assumes "distinct (map rq_id (review_queue db))"
  shows "distinct (map rq_id (capped capHours now db))"
proof -
  have "distinct (filter (raw_purge_eligible capHours now) (review_queue db))" "inj_on rq_id (set (review_queue db))"
    using assms by (auto simp: distinct_map)
  then show ?thesis by (auto simp: capped_def listRawPurgeEligible_def sql_select_def distinct_map intro: inj_on_subset)
qed

lemma capped_step:
  assumes d: "distinct (map rq_id (review_queue db))" and L: "capped capHours now db = row # rows"
  shows "capped capHours now (held_one now row db) = rows \<and> distinct (map rq_id (review_queue (held_one now row db)))"
proof -
  let ?e = "raw_purge_eligible capHours now"
  have row: "row \<in> set (review_queue db)" "?e row"
  proof -
    have "row \<in> set (capped capHours now db)" using L by simp
    then show "row \<in> set (review_queue db)" "?e row" by (auto simp: capped_def listRawPurgeEligible_def sql_select_def)
  qed
  have upd: "filter ?e (sql_update (\<lambda>r. rq_id r = rq_id row \<and> rq_raw_purged_at r = None) (purged_row now) rs) = filter (\<lambda>r. ?e r \<and> rq_id r \<noteq> rq_id row) rs" for rs
    by (induction rs) (auto simp: sql_update_def raw_purge_eligible_def purged_row_def)
  have "capped capHours now (held_one now row db) = filter (\<lambda>r. rq_id r \<noteq> rq_id row) (capped capHours now db)"
    by (simp add: capped_def listRawPurgeEligible_def sql_select_def held_one_reviews upd filter_sort)
  moreover have "filter (\<lambda>r. rq_id r \<noteq> rq_id row) rows = rows" using capped_ids [OF d, of capHours now] L by (intro filter_True) (auto, metis imageI)
  ultimately show ?thesis using L d by (simp add: held_one_reviews map_sql_update)
qed

lemma capped_prefix:
  assumes "distinct (map rq_id (review_queue db))" "capped capHours now db = xs @ ys"
  shows "capped capHours now (fold (held_one now) xs db) = ys \<and> distinct (map rq_id (review_queue (fold (held_one now) xs db)))"
  using assms
proof (induction xs arbitrary: db)
  case (Cons x xs)
  then show ?case using capped_step [OF Cons.prems(1), of capHours now x "xs @ ys"] by simp
qed simp

text \<open>The rows done, the row the run stopped in, and the rows left.\<close>

definition held_stopped :: "int \<Rightarrow> review_queue_row list \<Rightarrow> db \<Rightarrow> db \<Rightarrow> bool" where
  "held_stopped now L db db' \<longleftrightarrow>
     (\<exists>ys zs. L = ys @ zs \<and> (db' = fold (held_one now) ys db
        \<or> (\<exists>z zs'. zs = z # zs' \<and> db' = purge_raw_call (rq_call_id z) (fold (held_one now) ys db))))"

lemma held_stopped_Cons: "held_stopped now L (held_one now x db) db' \<Longrightarrow> held_stopped now (x # L) db db'"
  unfolding held_stopped_def by (metis append_Cons fold_simps(2))

lemma held_rows_run:
  "case held_rows fault now rows s of
     (Inr u, s') \<Rightarrow> s' = s\<lparr>cn_db := fold (held_one now) rows (cn_db s), cn_total := cn_total s + length rows\<rparr>
   | (Inl e, s') \<Rightarrow> fault_of fault e \<and> held_stopped now rows (cn_db s) (cn_db s')"
proof (induction rows arbitrary: s)
  case (Cons row rows)
  let ?m1 = "step_meta ''HELD_CAP'' ''raw_transcripts'' Held_cap_purge False" and ?m2 = "step_meta ''HELD_CAP'' ''review_queue'' Held_cap_purge False"
  let ?db1 = "purge_raw_call (rq_call_id row) (cn_db s)"
  show ?case
  proof (cases "step_fault fault ?m1 (cn_db s)")
    case (Some e)
    moreover have "held_stopped now (row # rows) (cn_db s) (cn_db s)" unfolding held_stopped_def by (rule exI [of _ "[]"], simp)
    ultimately show ?thesis by (auto simp: purge_step_eq fault_of_def)
  next
    case None
    note m1 = this
    show ?thesis
    proof (cases "step_fault fault ?m2 ?db1")
      case (Some e)
      moreover have "held_stopped now (row # rows) (cn_db s) ?db1" unfolding held_stopped_def by (rule exI [of _ "[]"], simp)
      ultimately show ?thesis using m1 by (auto simp: purge_step_eq fault_of_def)
    next
      case None
      with m1 Cons.IH [of "s\<lparr>cn_db := held_one now row (cn_db s), cn_total := cn_total s + 1\<rparr>"] show ?thesis
        by (auto simp: purge_step_eq held_one_def split: sum.splits dest: held_stopped_Cons [unfolded held_one_def])
    qed
  qed
qed simp

definition held_outcome :: "faults \<Rightarrow> int \<Rightarrow> review_queue_row list \<Rightarrow> nat \<Rightarrow> db \<Rightarrow> ((purge_error + unit) \<times> count_state) option \<Rightarrow> bool" where
  "held_outcome fault now L n0 db out \<longleftrightarrow>
     out = Some (Inr (), \<lparr>cn_db = fold (held_one now) L db, cn_total = n0 + length L\<rparr>)
     \<or> (\<exists>e s'. out = Some (Inl e, s') \<and> fault_of fault e \<and> held_stopped now L db (cn_db s'))"

lemma held_stopped_append:
  "held_stopped now zs (fold (held_one now) xs db) db' \<Longrightarrow> held_stopped now (xs @ zs) db db'"
  by (induction xs arbitrary: db) (simp_all add: held_stopped_Cons)

lemma held_stopped_prefix: "held_stopped now xs db db' \<Longrightarrow> held_stopped now (xs @ zs) db db'"
  unfolding held_stopped_def by (metis append_Cons append_assoc)

lemma held_loop:
  assumes "0 < batch" "distinct (map rq_id (review_queue db))"
  shows "held_outcome fault now (capped capHours now db) n0 db
    (until_done (held_batch fault capHours now batch) \<lparr>cn_db = db, cn_total = n0\<rparr>)"
  using assms(2)
proof (induction "length (capped capHours now db)" arbitrary: db n0 rule: less_induct)
  case less
  let ?L = "capped capHours now db" and ?s = "\<lparr>cn_db = db, cn_total = n0\<rparr>"
  let ?xs = "take batch ?L" and ?zs = "drop batch ?L"
  let ?m = "step_meta ''HELD_CAP'' ''review_queue'' Held_cap_purge False"
  have list: "listRawPurgeEligible capHours now (Some batch) db = ?xs" by (simp add: capped_def listRawPurgeEligible_def Let_def)
  have here: "held_stopped now ?L db db" unfolding held_stopped_def by (rule exI [of _ "[]"], simp)
  consider (fault) e where "step_fault fault ?m db = Some e" | (empty) "step_fault fault ?m db = None" "?L = []"
    | (rows) "step_fault fault ?m db = None" "?L \<noteq> []" by fastforce
  then show ?case
  proof cases
    case fault
    with here show ?thesis by (auto simp: held_outcome_def until_done.simps held_batch_def purge_step_eq fault_of_def)
  next
    case empty
    then show ?thesis by (simp add: held_outcome_def until_done.simps held_batch_def purge_step_eq list)
  next
    case rows
    have xs: "?xs \<noteq> []" using rows(2) assms(1) by simp
    show ?thesis
    proof (cases "held_rows fault now ?xs ?s")
      case (Pair r s')
      note run = held_rows_run [of fault now ?xs ?s, unfolded Pair prod.case]
      show ?thesis
      proof (cases r)
        case (Inl e)
        then have "held_stopped now ?L db (cn_db s')" "fault_of fault e"
          using run held_stopped_prefix [of now ?xs db "cn_db s'" ?zs] by simp_all
        then show ?thesis using rows(1) Pair Inl xs by (simp add: held_outcome_def until_done.simps held_batch_def purge_step_eq list)
      next
        case (Inr u)
        then have s': "s' = \<lparr>cn_db = fold (held_one now) ?xs db, cn_total = n0 + length ?xs\<rparr>" using run by simp
        have body: "held_batch fault capHours now batch ?s = (Inr (length ?xs < batch), s')"
          using rows(1) Pair Inr xs by (simp add: held_batch_def purge_step_eq list)
        show ?thesis
        proof (cases "length ?xs < batch")
          case True
          then have "?xs = ?L" by simp
          then show ?thesis unfolding held_outcome_def until_done.simps [of _ ?s] body using True s' by simp
        next
          case False
          let ?db = "fold (held_one now) ?xs db"
          have rest: "capped capHours now ?db = ?zs" "distinct (map rq_id (review_queue ?db))"
            using capped_prefix [OF less.prems, of capHours now ?xs ?zs] by simp_all
          have "length (capped capHours now ?db) < length ?L" using rest(1) rows(2) assms(1) by simp
          from less.hyps [OF this rest(2), of "n0 + length ?xs"] have
            out: "held_outcome fault now ?zs (n0 + length ?xs) ?db (until_done (held_batch fault capHours now batch) s')" unfolding rest(1) s' .
          have all: "fold (held_one now) ?L db = fold (held_one now) ?zs ?db" "length ?L = length ?xs + length ?zs"
            by (metis append_take_drop_id fold_append o_apply) (metis append_take_drop_id length_append)
          have "held_stopped now ?L db db'" if "held_stopped now ?zs ?db db'" for db' using held_stopped_append [OF that] by simp
          then show ?thesis unfolding until_done.simps [of _ ?s] body using False out unfolding held_outcome_def all by auto
        qed
      qed
    qed
  qed
qed

end
