(* ===== verification/Retention_Properties.thy ===== *)
theory Retention_Properties
  imports Retention_Correct Reconciliation_Correct Samples
begin

text \<open>
  What the retention purge as a whole guarantees: it equals a reference with one statement per pass and no batches, it never touches a row before its
  window or under a blocking review, whatever step fails, its dry run predicts it, and an interrupted held-cap purge converges.
\<close>

section \<open>Groups in sequence\<close>

text \<open>A group of the run against its reference \<open>ref\<close>: it returns, leaves the tables related by \<open>R\<close>, and equals the reference unless a step failed.\<close>

definition stage_outcome :: "faults \<Rightarrow> (db \<Rightarrow> db \<Rightarrow> bool) \<Rightarrow> (db \<Rightarrow> 'a \<times> db) \<Rightarrow> db \<Rightarrow> ((purge_error + 'a) \<times> db) option \<Rightarrow> bool" where
  "stage_outcome fault R ref db out \<longleftrightarrow>
     (\<exists>r db'. out = Some (r, db') \<and> R db db' \<and> (case r of Inr a \<Rightarrow> (a, db') = ref db | Inl e \<Rightarrow> fault_of fault e))"

fun one_shot_groups :: "(db \<Rightarrow> purge_counts \<times> db) list \<Rightarrow> db \<Rightarrow> purge_counts list \<times> db" where
  "one_shot_groups [] db = ([], db)"
| "one_shot_groups (ref # refs) db =
     (case ref db of (c, db1) \<Rightarrow> case one_shot_groups refs db1 of (cs, db2) \<Rightarrow> (c # cs, db2))"

fun chain :: "(db \<Rightarrow> db \<Rightarrow> bool) list \<Rightarrow> db \<Rightarrow> db \<Rightarrow> bool" where
  "chain [] db db' \<longleftrightarrow> db' = db"
| "chain (R # Rs) db db' \<longleftrightarrow> (\<exists>db1. R db db1 \<and> chain Rs db1 db')"

lemma stage_mono:
  assumes "stage_outcome fault R ref db out" "\<And>db'. R db db' \<Longrightarrow> R' db db'"
  shows "stage_outcome fault R' ref db out"
  using assms unfolding stage_outcome_def by blast

lemma stage_bind:
  assumes m: "stage_outcome fault R ref db (m db)" and rest: "\<And>a db'. R db db' \<Longrightarrow> stage_outcome fault S (ref' a) db' (f a db')"
    and seq: "\<And>db1 db2. R db db1 \<Longrightarrow> S db1 db2 \<Longrightarrow> T db db2" "\<And>db1. R db db1 \<Longrightarrow> T db db1"
  shows "stage_outcome fault T (\<lambda>db. case ref db of (a, db1) \<Rightarrow> ref' a db1) db (pop_bind m f db)"
proof -
  from m obtain r db1 where r: "m db = Some (r, db1)" "R db db1" "case r of Inr a \<Rightarrow> (a, db1) = ref db | Inl e \<Rightarrow> fault_of fault e"
    unfolding stage_outcome_def by blast
  show ?thesis
  proof (cases r)
    case (Inl e)
    with r seq(2) show ?thesis by (auto simp: stage_outcome_def pop_bind_def)
  next
    case (Inr a)
    from rest [OF r(2), of a] obtain r2 db2 where
      "f a db1 = Some (r2, db2)" "S db1 db2" "case r2 of Inr b \<Rightarrow> (b, db2) = ref' a db1 | Inl e \<Rightarrow> fault_of fault e"
      unfolding stage_outcome_def by blast
    moreover have "ref db = (a, db1)" using r(3) Inr by simp
    ultimately show ?thesis using r(1) Inr seq(1) [OF r(2)] unfolding stage_outcome_def by (auto simp: pop_bind_def split: sum.splits)
  qed
qed

lemma stage_return: "stage_outcome fault (\<lambda>db db'. db' = db) (\<lambda>db. (a, db)) db (pop_return a db)"
  by (simp add: stage_outcome_def pop_return_def)

text \<open>\<open>keep\<close> is what every stage needs of the tables and keeps.\<close>

definition stage :: "faults \<Rightarrow> (db \<Rightarrow> bool) \<Rightarrow> (db \<Rightarrow> db \<Rightarrow> bool) \<Rightarrow> (db \<Rightarrow> 'a \<times> db) \<Rightarrow> 'a pop \<Rightarrow> bool" where
  "stage fault keep R ref m \<longleftrightarrow> (\<forall>db. keep db \<longrightarrow> stage_outcome fault R ref db (m db)) \<and> (\<forall>db db'. keep db \<longrightarrow> R db db' \<longrightarrow> keep db') \<and> (\<forall>db. R db db)"

lemma chain_refl: "\<forall>R \<in> set Rs. \<forall>db. R db db \<Longrightarrow> chain Rs db db"
  by (induction Rs) auto

lemma run_groups_run:
  assumes "list_all2 (\<lambda>(R, ref) m. stage fault keep R ref m) (zip Rs refs) ms" "length Rs = length refs" "keep db"
  shows "stage_outcome fault (chain Rs) (one_shot_groups refs) db (run_groups ms db)"
  using assms
proof (induction ms arbitrary: Rs refs db rule: list.induct)
  case Nil
  have "zip Rs refs = []" using Nil.prems(1) by (simp only: list_all2_Nil2)
  then have "Rs = [] \<and> refs = []" using Nil.prems(2) by (cases Rs; cases refs; simp)
  then show ?case by (auto simp: stage_outcome_def pop_return_def)
next
  case (Cons m ms)
  obtain R Rs' where Rs: "Rs = R # Rs'" using Cons.prems(1,2) by (cases Rs) auto
  obtain ref refs' where refs: "refs = ref # refs'" using Cons.prems(1,2) by (cases refs) auto
  have m: "stage fault keep R ref m" and ms: "list_all2 (\<lambda>(R, ref) m. stage fault keep R ref m) (zip Rs' refs') ms" "length Rs' = length refs'"
    using Cons.prems by (simp_all add: Rs refs)
  have "\<forall>S \<in> set Rs'. \<forall>db. S db db"
    using ms by (auto simp: list_all2_conv_all_nth stage_def in_set_conv_nth split: prod.splits)
  note refl = chain_refl [OF this]
  have out: "stage_outcome fault R ref db (m db)" and kept: "\<And>db'. R db db' \<Longrightarrow> keep db'"
    using m Cons.prems(3) unfolding stage_def by blast+
  have rest: "stage_outcome fault (chain Rs') (\<lambda>db. case one_shot_groups refs' db of (cs, db2) \<Rightarrow> (c # cs, db2)) db'
      (pop_bind (run_groups ms) (\<lambda>cs. pop_return (c # cs)) db')" if "R db db'" for c db'
    by (rule stage_bind, rule Cons.IH [OF ms kept [OF that]], rule stage_return) simp_all
  show ?case
    unfolding Rs refs run_groups.simps one_shot_groups.simps [abs_def]
    by (rule stage_bind, rule out, erule rest) (auto intro: refl)
qed


section \<open>The six groups\<close>

text \<open>The keys of the tables: the primary keys of the schema.\<close>

definition purge_keys :: "db \<Rightarrow> bool" where
  "purge_keys db \<longleftrightarrow>
     distinct (map rt_call_id (raw_transcripts db)) \<and> distinct (map ct_call_id (clean_transcripts db)) \<and> distinct (map wh_id (raw_webhook_events db))
     \<and> distinct (map mk_id (match_keys db)) \<and> distinct (map ec_call_id (extraction_candidates db)) \<and> distinct (map rq_id (review_queue db))"

definition grace :: "retention_window \<Rightarrow> bool" where
  "grace w \<longleftrightarrow> softDays w < hardDays w"

definition windows_ok :: "purge_config \<Rightarrow> bool" where
  "windows_ok config \<longleftrightarrow> grace (RETENTION_RAW config) \<and> (case RETENTION_CLEAN config of None \<Rightarrow> True | Some w \<Rightarrow> grace w)
     \<and> grace (RETENTION_WEBHOOK config) \<and> grace (RETENTION_MATCH_KEYS config) \<and> grace (RETENTION_EXTRACT config)"

definition part_update :: "('r, 'k) cols \<Rightarrow> ('r \<Rightarrow> bool) \<Rightarrow> ('r \<Rightarrow> 'r) \<Rightarrow> db \<Rightarrow> db \<Rightarrow> bool" where
  "part_update t due f db db' \<longleftrightarrow> (\<exists>p. db' = put_rows t (sql_update p f (get_rows t db)) db \<and> (\<forall>r \<in> set (get_rows t db). p r \<longrightarrow> due r))"

definition table_change :: "('r, 'k) cols \<Rightarrow> retention_window \<Rightarrow> int \<Rightarrow> db \<Rightarrow> db \<Rightarrow> bool" where
  "table_change t w now db db' \<longleftrightarrow> (\<exists>rs. db' = put_rows t rs db \<and> list_all2 (due_change t w now (\<lambda>_. False)) (get_rows t db) rs)"

definition one_shot_single :: "('r, 'k) cols \<Rightarrow> single_spec \<Rightarrow> int \<Rightarrow> db \<Rightarrow> purge_counts \<times> db" where
  "one_shot_single t spec now db =
     (case update_rows t (soft_due t (ss_window spec) now) (set_soft t now) db of (soft, db1) \<Rightarrow>
      case update_rows t (hard_due t (ss_window spec) now) (set_hard t now) db1 of (hard, db2) \<Rightarrow> (single_report spec soft hard, db2))"

lemma single_stage:
  "single_outcome fault t due f db out \<Longrightarrow> stage_outcome fault (part_update t due f) (update_rows t due f) db out"
  unfolding single_outcome_def stage_outcome_def part_update_def update_rows_def by fastforce

context retained_table
begin

lemma due_change_keys: "list_all2 (due_change t w now b) rs rs' \<Longrightarrow> map (col_key t) rs' = map (col_key t) rs"
  by (induction rule: list_all2_induct) (auto simp: due_change_def laws)

lemma table_change_refl: "table_change t w now db db"
  unfolding table_change_def by (rule exI [of _ "get_rows t db"]) (simp add: put_get list_all2_same due_change_def)

lemma fresh_not_hard: "grace w \<Longrightarrow> \<not> hard_due t w now (set_soft t now r)"
  by (simp add: hard_due_def past_grace_def laws days_ms_def grace_def)

lemma single_change:
  assumes "grace w" "part_update t (soft_due t w now) (set_soft t now) db db1" "part_update t (hard_due t w now) (set_hard t now) db1 db2"
  shows "table_change t w now db db2"
proof -
  let ?rs = "get_rows t db"
  obtain p where db1: "db1 = put_rows t (sql_update p (set_soft t now) ?rs) db" and p: "\<And>r. r \<in> set ?rs \<Longrightarrow> p r \<Longrightarrow> soft_due t w now r"
    using assms(2) unfolding part_update_def by blast
  obtain q where db2: "db2 = put_rows t (sql_update q (set_hard t now) (get_rows t db1)) db1"
    and q: "\<And>r. r \<in> set (get_rows t db1) \<Longrightarrow> q r \<Longrightarrow> hard_due t w now r"
    using assms(3) unfolding part_update_def by blast
  let ?s = "\<lambda>r. if p r then set_soft t now r else r"
  have rows: "get_rows t db1 = map ?s ?rs" by (simp add: db1 get_put sql_update_def)
  have "due_change t w now (\<lambda>_. False) r (if q (?s r) then set_hard t now (?s r) else ?s r)" if r: "r \<in> set ?rs" for r
  proof -
    have "q (?s r) \<Longrightarrow> hard_due t w now (?s r)" using q r unfolding rows by auto
    then show ?thesis using p [OF r] fresh_not_hard [OF assms(1), of now r] by (auto simp: due_change_def split: if_splits)
  qed
  then have "list_all2 (due_change t w now (\<lambda>_. False)) ?rs (sql_update q (set_hard t now) (get_rows t db1))"
    unfolding rows sql_update_def by (simp add: list_all2_map2 list_all2_same)
  then show ?thesis unfolding table_change_def using db2 by (auto simp: db1 put_put)
qed

lemma purgeSingle_run:
  assumes "bounded_select (limit (en_batch env))" "\<not> en_dryRun env" "distinct (map (col_key t) (get_rows t db))" "grace (ss_window spec)"
  shows "stage_outcome (en_fault env) (table_change t (ss_window spec) (en_now env)) (one_shot_single t spec (en_now env)) db (purgeSingle env t limit spec db)"
proof -
  let ?w = "ss_window spec" and ?now = "en_now env"
  have keys: "distinct (map (col_key t) (get_rows t db1))" if "part_update t (soft_due t ?w ?now) (set_soft t ?now) db db1" for db1
    using that assms(3) by (auto simp: part_update_def get_put map_sql_update laws)
  have hard: "stage_outcome (en_fault env) (part_update t (hard_due t ?w ?now) (set_hard t ?now))
      (\<lambda>db. case update_rows t (hard_due t ?w ?now) (set_hard t ?now) db of (hard, db2) \<Rightarrow> (single_report spec soft hard, db2)) db1
      (pop_bind (batchedUpdate (en_fault env) (step_meta (ss_group spec) (ss_table spec) Hard_delete False) t (limit (en_batch env)) (hard_due t ?w ?now) (set_hard t ?now))
        (\<lambda>hard. pop_return (single_report spec soft hard)) db1)" if "part_update t (soft_due t ?w ?now) (set_soft t ?now) db db1" for soft db1
    by (rule stage_bind, rule single_stage, rule hard.batchedUpdate_run [OF assms(1) keys [OF that]], rule stage_return) simp_all
  have stop: "part_update t (hard_due t ?w ?now) (set_hard t ?now) db1 db1" for db1
    unfolding part_update_def by (rule exI [of _ "\<lambda>_. False"]) (simp add: sql_update_def put_get)
  show ?thesis
    unfolding purgeSingle_def Let_def if_not_P [OF assms(2)] one_shot_single_def [abs_def]
    by (rule stage_bind, rule single_stage, rule soft.batchedUpdate_run [OF assms(1,3)], erule hard) (auto intro: single_change [OF assms(4)] stop)
qed

end


definition one_shot_held :: "int \<Rightarrow> int \<Rightarrow> db \<Rightarrow> purge_counts \<times> db" where
  "one_shot_held capHours now db =
     (held_report capHours (length (capped capHours now db)), fold (held_one now) (capped capHours now db) db)"

definition held_change :: "int \<Rightarrow> int \<Rightarrow> db \<Rightarrow> db \<Rightarrow> bool" where
  "held_change capHours now db db' \<longleftrightarrow> held_stopped now (capped capHours now db) db db'"

lemma held_change_refl: "held_change capHours now db db"
  unfolding held_change_def held_stopped_def by (rule exI [of _ "[]"], simp)

lemma purgeHeldCap_run:
  assumes "env_ok env" "\<not> en_dryRun env" "distinct (map rq_id (review_queue db))"
  shows "stage_outcome (en_fault env) (held_change capHours (en_now env)) (one_shot_held capHours (en_now env)) db (purgeHeldCap env capHours db)"
proof -
  have batch: "0 < en_batch env" using assms(1) by (simp add: env_ok_def)
  from held_loop [OF batch assms(3), of "en_fault env" "en_now env" capHours 0] have
    out: "held_outcome (en_fault env) (en_now env) (capped capHours (en_now env) db) 0 db
      (until_done (held_batch (en_fault env) capHours (en_now env) (en_batch env)) \<lparr>cn_db = db, cn_total = 0\<rparr>)" .
  have all: "held_stopped now L db (fold (held_one now) L db)" for now L unfolding held_stopped_def by (rule exI [of _ L], rule exI [of _ "[]"], simp)
  from out show ?thesis
    unfolding held_outcome_def stage_outcome_def purgeHeldCap_def if_not_P [OF assms(2)] one_shot_held_def held_change_def by (auto simp: all)
qed

text \<open>What the held cap touches: the raw tables of the capped calls, their tombstones and the reviews' purge stamps.\<close>

definition held_frame :: "review_queue_row list \<Rightarrow> db \<Rightarrow> db \<Rightarrow> bool" where
  "held_frame L db db' \<longleftrightarrow>
     (\<exists>S ts rqs. S \<subseteq> rq_call_id ` set L \<and> map rq_id rqs = map rq_id (review_queue db)
        \<and> db' = db\<lparr>raw_transcripts := filter (\<lambda>r. rt_call_id r \<notin> S) (raw_transcripts db),
                  token_vault := filter (\<lambda>x. tv_call_id x \<notin> S) (token_vault db), raw_purge_tombstone := ts, review_queue := rqs\<rparr>)"

lemma held_frame_refl: "held_frame L db db"
  unfolding held_frame_def
  by (rule exI [of _ "{}"], rule exI [of _ "raw_purge_tombstone db"], rule exI [of _ "review_queue db"], simp)

lemma purge_raw_call_eq:
  "purge_raw_call c db = db\<lparr>raw_transcripts := filter (\<lambda>r. rt_call_id r \<noteq> c) (raw_transcripts db),
     token_vault := filter (\<lambda>x. tv_call_id x \<noteq> c) (token_vault db),
     raw_purge_tombstone := (if c \<in> set (raw_purge_tombstone db) then raw_purge_tombstone db else raw_purge_tombstone db @ [c])\<rparr>"
  by (simp add: purge_raw_call_def insertRawTombstone_def isRawPurged_def sql_delete_def Let_def)

lemma held_frame_raw: "held_frame L db db' \<Longrightarrow> held_frame (z # L) db (purge_raw_call (rq_call_id z) db')"
  unfolding held_frame_def
proof (elim exE conjE)
  fix S ts rqs
  assume S: "S \<subseteq> rq_call_id ` set L" and rqs: "map rq_id rqs = map rq_id (review_queue db)"
    and db': "db' = db\<lparr>raw_transcripts := filter (\<lambda>r. rt_call_id r \<notin> S) (raw_transcripts db),
      token_vault := filter (\<lambda>x. tv_call_id x \<notin> S) (token_vault db), raw_purge_tombstone := ts, review_queue := rqs\<rparr>"
  let ?S = "insert (rq_call_id z) S"
  have "insert (rq_call_id z) S \<subseteq> rq_call_id ` set (z # L)" using S by auto
  then show "\<exists>S ts rqs. S \<subseteq> rq_call_id ` set (z # L) \<and> map rq_id rqs = map rq_id (review_queue db)
      \<and> purge_raw_call (rq_call_id z) db' = db\<lparr>raw_transcripts := filter (\<lambda>r. rt_call_id r \<notin> S) (raw_transcripts db),
                  token_vault := filter (\<lambda>x. tv_call_id x \<notin> S) (token_vault db), raw_purge_tombstone := ts, review_queue := rqs\<rparr>"
    using rqs unfolding db' purge_raw_call_eq
    by (intro exI [of _ ?S] exI [of _ "if rq_call_id z \<in> set ts then ts else ts @ [rq_call_id z]"] exI [of _ rqs]) (simp add: conj_ac)
qed

lemma mark_eq:
  "snd (markRawPurged i now db) = db\<lparr>review_queue := sql_update (\<lambda>r. rq_id r = i \<and> rq_raw_purged_at r = None) (purged_row now) (review_queue db)\<rparr>"
  by (simp add: markRawPurged_def Let_def)

lemma held_frame_mark: "held_frame L db db' \<Longrightarrow> held_frame L db (snd (markRawPurged i now db'))"
  unfolding held_frame_def
proof (elim exE conjE)
  fix S ts rqs
  let ?db = "\<lambda>rqs. db\<lparr>raw_transcripts := filter (\<lambda>r. rt_call_id r \<notin> S) (raw_transcripts db),
    token_vault := filter (\<lambda>x. tv_call_id x \<notin> S) (token_vault db), raw_purge_tombstone := ts, review_queue := rqs\<rparr>"
  let ?rqs = "sql_update (\<lambda>r. rq_id r = i \<and> rq_raw_purged_at r = None) (purged_row now) rqs"
  assume S: "S \<subseteq> rq_call_id ` set L" and rqs: "map rq_id rqs = map rq_id (review_queue db)" and db': "db' = ?db rqs"
  have "snd (markRawPurged i now db') = ?db ?rqs" unfolding db' mark_eq by simp
  moreover have "map rq_id ?rqs = map rq_id (review_queue db)" using rqs by (simp add: map_sql_update)
  ultimately show "\<exists>S ts rqs. S \<subseteq> rq_call_id ` set L \<and> map rq_id rqs = map rq_id (review_queue db)
      \<and> snd (markRawPurged i now db') = db\<lparr>raw_transcripts := filter (\<lambda>r. rt_call_id r \<notin> S) (raw_transcripts db),
                  token_vault := filter (\<lambda>x. tv_call_id x \<notin> S) (token_vault db), raw_purge_tombstone := ts, review_queue := rqs\<rparr>"
    using S by blast
qed

lemma held_frame_one: "held_frame L db db' \<Longrightarrow> held_frame (z # L) db (held_one now z db')"
  unfolding held_one_def by (intro held_frame_mark held_frame_raw)

lemma held_frame_mono: "held_frame L db db' \<Longrightarrow> set L \<subseteq> set L' \<Longrightarrow> held_frame L' db db'"
  unfolding held_frame_def by (elim exE conjE, intro exI conjI) (erule subset_trans, rule image_mono)

lemma held_frame_fold: "held_frame ys db (fold (held_one now) ys db)"
proof (induction ys rule: rev_induct)
  case (snoc y ys)
  from held_frame_mono [OF held_frame_one [OF this, of y now], of "ys @ [y]"] show ?case by simp
qed (simp add: held_frame_refl)

lemma held_change_frame:
  assumes "held_change capHours now db db'"
  shows "held_frame (capped capHours now db) db db'"
proof -
  from assms obtain ys zs where L: "capped capHours now db = ys @ zs"
    and db': "db' = fold (held_one now) ys db \<or> (\<exists>z zs'. zs = z # zs' \<and> db' = purge_raw_call (rq_call_id z) (fold (held_one now) ys db))"
    unfolding held_change_def held_stopped_def by blast
  from db' show ?thesis
  proof (elim disjE exE conjE)
    assume "db' = fold (held_one now) ys db"
    then show ?thesis using held_frame_mono [OF held_frame_fold [of ys db now], of "ys @ zs"] unfolding L by simp
  next
    fix z zs' assume "zs = z # zs'" "db' = purge_raw_call (rq_call_id z) (fold (held_one now) ys db)"
    then show ?thesis using held_frame_mono [OF held_frame_raw [OF held_frame_fold [of ys db now], of z], of "ys @ zs"] unfolding L by auto
  qed
qed


section \<open>The run\<close>

definition raw_change :: "purge_config \<Rightarrow> int \<Rightarrow> db \<Rightarrow> db \<Rightarrow> bool" where
  "raw_change config = group_change raw_cols vault_cols raw_blocked (RETENTION_RAW config)"

definition clean_change :: "purge_config \<Rightarrow> int \<Rightarrow> db \<Rightarrow> db \<Rightarrow> bool" where
  "clean_change config now db db' \<longleftrightarrow>
     (case RETENTION_CLEAN config of None \<Rightarrow> db' = db | Some w \<Rightarrow> group_change clean_cols findings_cols blocks_clean w now db db')"

definition group_changes :: "purge_config \<Rightarrow> int \<Rightarrow> (db \<Rightarrow> db \<Rightarrow> bool) list" where
  "group_changes config now =
     [raw_change config now, clean_change config now, table_change webhook_cols (RETENTION_WEBHOOK config) now,
      table_change match_cols (RETENTION_MATCH_KEYS config) now, table_change extract_cols (RETENTION_EXTRACT config) now,
      held_change (REVIEW_HELD_RAW_RETENTION_CAP_HOURS config) now]"

text \<open>The reference of the whole run: no batches, no limits, every pass one statement.\<close>

definition one_shot_refs :: "purge_config \<Rightarrow> int \<Rightarrow> (db \<Rightarrow> purge_counts \<times> db) list" where
  "one_shot_refs config now =
     [one_shot_group raw_cols vault_cols raw_blocked (raw_spec config) now,
      case RETENTION_CLEAN config of None \<Rightarrow> (\<lambda>db. (([], []), db)) | Some w \<Rightarrow> one_shot_group clean_cols findings_cols blocks_clean (clean_spec w) now,
      one_shot_single webhook_cols \<lparr>ss_group = ''WEBHOOK'', ss_table = ''raw_webhook_events'', ss_window = RETENTION_WEBHOOK config\<rparr> now,
      one_shot_single match_cols \<lparr>ss_group = ''MATCH'', ss_table = ''match_keys'', ss_window = RETENTION_MATCH_KEYS config\<rparr> now,
      one_shot_single extract_cols \<lparr>ss_group = ''EXTRACT'', ss_table = ''extraction_candidates'', ss_window = RETENTION_EXTRACT config\<rparr> now,
      one_shot_held (REVIEW_HELD_RAW_RETENTION_CAP_HOURS config) now]"

definition one_shot_purge :: "purge_config \<Rightarrow> int \<Rightarrow> db \<Rightarrow> purge_report \<times> db" where
  "one_shot_purge config now db =
     (case one_shot_groups (one_shot_refs config now) db of
        (counts, db') \<Rightarrow> (\<lparr>rp_dryRun = False, rp_skipped = False, rp_actions = fst (join_counts counts), rp_groupCounts = snd (join_counts counts)\<rparr>, db'))"

lemma group_change_refl:
  assumes "retained_table p" "retained_table c"
  shows "group_change p c blocked w now db db"
  unfolding group_change_def
  by (rule exI [of _ "get_rows p db"], rule exI [of _ "get_rows c db"])
    (simp add: retained_table.put_get [OF assms(1)] retained_table.put_get [OF assms(2)] list_all2_same due_change_def child_change_def)

lemma group_stage:
  assumes "group_outcome fault p c blocked spec now db out" "\<And>db'. partial_group p c blocked (sp_window spec) now db db' \<Longrightarrow> R db db'"
  shows "stage_outcome fault R (one_shot_group p c blocked spec now) db out"
  using assms unfolding group_outcome_def stage_outcome_def by blast

lemma raw_stage:
  assumes "env_ok env" "\<not> en_dryRun env" "grace (RETENTION_RAW config)"
  shows "stage (en_fault env) purge_keys (raw_change config (en_now env)) (one_shot_group raw_cols vault_cols raw_blocked (raw_spec config) (en_now env))
    (purgeRawGroup env raw_cols vault_cols (raw_spec config))"
  unfolding stage_def
proof (intro conjI allI impI)
  fix db db' assume keys: "purge_keys db"
  have ok: "raw_held.keys_ok db" using keys unfolding raw_held.keys_ok_def by (simp add: raw_cols_def purge_keys_def)
  show "stage_outcome (en_fault env) (raw_change config (en_now env)) (one_shot_group raw_cols vault_cols raw_blocked (raw_spec config) (en_now env)) db
      (purgeRawGroup env raw_cols vault_cols (raw_spec config) db)"
    using keys assms(3) unfolding raw_change_def
    by (intro group_stage [OF raw_group_run [OF assms(1,2)]] raw_held.partial_change [OF ok]) (simp_all add: purge_keys_def raw_spec_def grace_def)
  assume "raw_change config (en_now env) db db'"
  then obtain ps cs where ch: "list_all2 (due_change raw_cols (RETENTION_RAW config) (en_now env) (raw_blocked db)) (get_rows raw_cols db) ps"
    and db': "db' = put_rows raw_cols ps (put_rows vault_cols cs db)" unfolding raw_change_def group_change_def by blast
  show "purge_keys db'" using keys raw_table.due_change_keys [OF ch] unfolding db' by (simp add: purge_keys_def raw_cols_def vault_cols_def)
next
  show "raw_change config (en_now env) db db" for db
    unfolding raw_change_def by (rule group_change_refl [OF raw_table.retained_table_axioms vault_table.retained_table_axioms])
qed

lemma clean_stage:
  assumes "env_ok env" "\<not> en_dryRun env" "case RETENTION_CLEAN config of None \<Rightarrow> True | Some w \<Rightarrow> grace w"
  shows "stage (en_fault env) purge_keys (clean_change config (en_now env))
    (case RETENTION_CLEAN config of None \<Rightarrow> (\<lambda>db. (([], []), db)) | Some w \<Rightarrow> one_shot_group clean_cols findings_cols blocks_clean (clean_spec w) (en_now env))
    (case RETENTION_CLEAN config of None \<Rightarrow> pop_return ([], []) | Some w \<Rightarrow> purgeCoupled env clean_cols findings_cols (clean_spec w))"
proof (cases "RETENTION_CLEAN config")
  case None
  then show ?thesis by (simp add: stage_def clean_change_def stage_outcome_def pop_return_def)
next
  case (Some w)
  show ?thesis
    unfolding stage_def clean_change_def Some option.case
  proof (intro conjI allI impI)
    fix db db' assume keys: "purge_keys db"
    have ok: "clean_group.keys_ok db" using keys unfolding clean_group.keys_ok_def by (simp add: clean_cols_def purge_keys_def)
    show "stage_outcome (en_fault env) (group_change clean_cols findings_cols blocks_clean w (en_now env))
        (one_shot_group clean_cols findings_cols blocks_clean (clean_spec w) (en_now env)) db (purgeCoupled env clean_cols findings_cols (clean_spec w) db)"
      using keys assms(3) Some
      by (intro group_stage [OF clean_group_run [OF assms(1,2)]] clean_group.partial_change [OF ok]) (simp_all add: purge_keys_def clean_spec_def grace_def)
    assume "group_change clean_cols findings_cols blocks_clean w (en_now env) db db'"
    then obtain ps cs where ch: "list_all2 (due_change clean_cols w (en_now env) (blocks_clean db)) (get_rows clean_cols db) ps"
      and db': "db' = put_rows clean_cols ps (put_rows findings_cols cs db)" unfolding group_change_def by blast
    show "purge_keys db'" using keys clean_table.due_change_keys [OF ch] unfolding db' by (simp add: purge_keys_def clean_cols_def findings_cols_def)
  next
    show "group_change clean_cols findings_cols blocks_clean w (en_now env) db db" for db
      by (rule group_change_refl [OF clean_table.retained_table_axioms findings_table.retained_table_axioms])
  qed
qed

lemma table_stage:
  assumes "retained_table t" "bounded_select (limit (en_batch env))" "\<not> en_dryRun env" "grace (ss_window spec)"
    and "\<And>db. purge_keys db \<Longrightarrow> distinct (map (col_key t) (get_rows t db))"
    and "\<And>db rs. purge_keys db \<Longrightarrow> map (col_key t) rs = map (col_key t) (get_rows t db) \<Longrightarrow> purge_keys (put_rows t rs db)"
  shows "stage (en_fault env) purge_keys (table_change t (ss_window spec) (en_now env)) (one_shot_single t spec (en_now env)) (purgeSingle env t limit spec)"
  unfolding stage_def
proof (intro conjI allI impI)
  fix db db' assume keys: "purge_keys db"
  show "stage_outcome (en_fault env) (table_change t (ss_window spec) (en_now env)) (one_shot_single t spec (en_now env)) db (purgeSingle env t limit spec db)"
    by (rule retained_table.purgeSingle_run [where t = t and limit = limit, OF assms(1-3) assms(5) [OF keys] assms(4)])
  assume "table_change t (ss_window spec) (en_now env) db db'"
  then obtain rs where "db' = put_rows t rs db" "list_all2 (due_change t (ss_window spec) (en_now env) (\<lambda>_. False)) (get_rows t db) rs"
    unfolding table_change_def by blast
  then show "purge_keys db'" using assms(6) [OF keys] retained_table.due_change_keys [OF assms(1)] by blast
qed (rule retained_table.table_change_refl [OF assms(1)])

lemma held_stage:
  assumes "env_ok env" "\<not> en_dryRun env"
  shows "stage (en_fault env) purge_keys (held_change capHours (en_now env)) (one_shot_held capHours (en_now env)) (purgeHeldCap env capHours)"
  unfolding stage_def
proof (intro conjI allI impI)
  fix db db' assume keys: "purge_keys db"
  then show "stage_outcome (en_fault env) (held_change capHours (en_now env)) (one_shot_held capHours (en_now env)) db (purgeHeldCap env capHours db)"
    by (intro purgeHeldCap_run assms) (simp add: purge_keys_def)
  assume "held_change capHours (en_now env) db db'"
  from held_change_frame [OF this] show "purge_keys db'"
    using keys unfolding held_frame_def purge_keys_def by (auto simp: distinct_map_filter)
qed (rule held_change_refl)

lemma purge_groups_run:
  assumes "env_ok env" "\<not> en_dryRun env" "windows_ok config" "purge_keys db"
  shows "stage_outcome (en_fault env) (chain (group_changes config (en_now env))) (one_shot_groups (one_shot_refs config (en_now env))) db
    (run_groups (purge_groups env config) db)"
proof (rule run_groups_run [where keep = purge_keys])
  have pick: "bounded_select (en_limit env (en_batch env))" "bounded_select (en_limit_id env (en_batch env))" using assms(1) by (simp_all add: env_ok_def)
  let ?spec = "\<lambda>g t w. \<lparr>ss_group = g, ss_table = t, ss_window = w\<rparr>"
  have webhook: "stage (en_fault env) purge_keys (table_change webhook_cols w (en_now env)) (one_shot_single webhook_cols (?spec g t w) (en_now env))
      (purgeSingle env webhook_cols (en_limit_id env) (?spec g t w))" if "grace w" for g t w
    using that table_stage [where limit = "en_limit_id env" and spec = "?spec g t w", OF webhook_table.retained_table_axioms pick(2) assms(2)] by (simp add: webhook_cols_def purge_keys_def)
  have keys: "stage (en_fault env) purge_keys (table_change match_cols w (en_now env)) (one_shot_single match_cols (?spec g t w) (en_now env))
      (purgeSingle env match_cols (en_limit_id env) (?spec g t w))" if "grace w" for g t w
    using that table_stage [where limit = "en_limit_id env" and spec = "?spec g t w", OF match_table.retained_table_axioms pick(2) assms(2)] by (simp add: match_cols_def purge_keys_def)
  have candidates: "stage (en_fault env) purge_keys (table_change extract_cols w (en_now env)) (one_shot_single extract_cols (?spec g t w) (en_now env))
      (purgeSingle env extract_cols (en_limit env) (?spec g t w))" if "grace w" for g t w
    using that table_stage [where limit = "en_limit env" and spec = "?spec g t w", OF extract_table.retained_table_axioms pick(1) assms(2)] by (simp add: extract_cols_def purge_keys_def)
  show "list_all2 (\<lambda>(R, ref) m. stage (en_fault env) purge_keys R ref m) (zip (group_changes config (en_now env)) (one_shot_refs config (en_now env))) (purge_groups env config)"
    using assms(3) unfolding group_changes_def one_shot_refs_def purge_groups_def windows_ok_def
    by (simp add: raw_stage [OF assms(1,2)] clean_stage [OF assms(1,2)] webhook keys candidates held_stage [OF assms(1,2)])
qed (simp_all add: group_changes_def one_shot_refs_def assms(4))


section \<open>The properties\<close>

lemmas cols_defs = raw_cols_def vault_cols_def clean_cols_def findings_cols_def webhook_cols_def match_cols_def extract_cols_def

definition no_fault :: faults where
  "no_fault meta db = None"

lemma no_fault_of: "\<not> fault_of no_fault e"
  by (simp add: fault_of_def step_fault_def no_fault_def)

lemma purge_run_eq:
  assumes "env_ok env" "\<not> en_dryRun env" "en_fault env = no_fault" "windows_ok config" "purge_keys db"
  shows "runPurge env config True True db = (case one_shot_purge config (en_now env) db of (report, db') \<Rightarrow> Some (Inr report, db'))"
proof -
  from purge_groups_run [OF assms(1,2,4,5)] obtain r db' where run: "run_groups (purge_groups env config) db = Some (r, db')"
    and r: "case r of Inr a \<Rightarrow> (a, db') = one_shot_groups (one_shot_refs config (en_now env)) db | Inl e \<Rightarrow> fault_of no_fault e"
    unfolding stage_outcome_def assms(3) by blast
  then obtain counts where "r = Inr counts" "one_shot_groups (one_shot_refs config (en_now env)) db = (counts, db')"
    by (cases r) (auto simp: no_fault_of)
  then show ?thesis using run assms(2) by (simp add: runPurge_def pop_bind_def pop_return_def one_shot_purge_def)
qed

text \<open>The dry run reads and counts.\<close>

definition dry_refs :: "purge_config \<Rightarrow> int \<Rightarrow> (db \<Rightarrow> purge_counts) list" where
  "dry_refs config now =
     [dry_run_raw raw_cols vault_cols (raw_spec config) now,
      \<lambda>db. case RETENTION_CLEAN config of None \<Rightarrow> ([], []) | Some w \<Rightarrow> dry_run_coupled clean_cols findings_cols (clean_spec w) now db,
      \<lambda>db. single_report \<lparr>ss_group = ''WEBHOOK'', ss_table = ''raw_webhook_events'', ss_window = RETENTION_WEBHOOK config\<rparr>
         (length (filter (soft_due webhook_cols (RETENTION_WEBHOOK config) now) (raw_webhook_events db)))
         (length (filter (hard_due webhook_cols (RETENTION_WEBHOOK config) now) (raw_webhook_events db))),
      \<lambda>db. single_report \<lparr>ss_group = ''MATCH'', ss_table = ''match_keys'', ss_window = RETENTION_MATCH_KEYS config\<rparr>
         (length (filter (soft_due match_cols (RETENTION_MATCH_KEYS config) now) (match_keys db)))
         (length (filter (hard_due match_cols (RETENTION_MATCH_KEYS config) now) (match_keys db))),
      \<lambda>db. single_report \<lparr>ss_group = ''EXTRACT'', ss_table = ''extraction_candidates'', ss_window = RETENTION_EXTRACT config\<rparr>
         (length (filter (soft_due extract_cols (RETENTION_EXTRACT config) now) (extraction_candidates db)))
         (length (filter (hard_due extract_cols (RETENTION_EXTRACT config) now) (extraction_candidates db))),
      \<lambda>db. held_report (REVIEW_HELD_RAW_RETENTION_CAP_HOURS config) (length (capped (REVIEW_HELD_RAW_RETENTION_CAP_HOURS config) now db))]"

definition reads :: "(db \<Rightarrow> 'a) \<Rightarrow> db \<Rightarrow> 'a \<times> db" where
  "reads f db = (f db, db)"

lemma one_shot_reads: "one_shot_groups (map reads fs) = reads (\<lambda>db. map (\<lambda>f. f db) fs)"
proof
  show "one_shot_groups (map reads fs) db = reads (\<lambda>db. map (\<lambda>f. f db) fs) db" for db by (induction fs) (simp_all add: reads_def)
qed

lemma chain_same: "chain (replicate n (\<lambda>db db'. db' = db)) = (\<lambda>db db'. db' = db)"
  by (induction n) (auto simp: fun_eq_iff)

lemma step_stage: "stage fault (\<lambda>_. True) (\<lambda>db db'. db' = db) (reads f) (\<lambda>db. Some (purge_step fault meta id (\<lambda>db. (f db, db)) db))"
  by (auto simp: stage_def stage_outcome_def reads_def purge_step_eq fault_of_def split: option.split)

lemma read_stage: "stage fault (\<lambda>_. True) (\<lambda>db db'. db' = db) (reads f) (\<lambda>db. Some (Inr (f db), db))"
  by (auto simp: stage_def stage_outcome_def reads_def)

lemma get_rows_eq:
  "get_rows webhook_cols = raw_webhook_events" "get_rows match_cols = match_keys" "get_rows extract_cols = extraction_candidates"
  by (simp_all add: cols_defs)

lemma capped_count: "countRawPurgeEligible capHours now db = length (capped capHours now db)"
  by (simp add: countRawPurgeEligible_def capped_def listRawPurgeEligible_def)

lemma single_dry_stage:
  assumes "en_dryRun env"
  shows "stage (en_fault env) (\<lambda>_. True) (\<lambda>db db'. db' = db)
    (reads (\<lambda>db. single_report spec (length (filter (soft_due t (ss_window spec) (en_now env)) (get_rows t db)))
      (length (filter (hard_due t (ss_window spec) (en_now env)) (get_rows t db))))) (purgeSingle env t limit spec)"
  unfolding purgeSingle_def Let_def if_P [OF assms] sql_select_def by (rule read_stage)

lemma dry_groups_run:
  assumes "en_dryRun env"
  shows "stage_outcome (en_fault env) (\<lambda>db db'. db' = db) (reads (\<lambda>db. map (\<lambda>f. f db) (dry_refs config (en_now env)))) db
    (run_groups (purge_groups env config) db)"
proof -
  let ?stage = "\<lambda>f m. stage (en_fault env) (\<lambda>_. True) (\<lambda>db db'. db' = db) (reads f) m"
  have raw: "?stage (dry_run_raw raw_cols vault_cols spec (en_now env)) (purgeRawGroup env raw_cols vault_cols spec)" for spec
    unfolding purgeRawGroup_def Let_def if_P [OF assms] by (rule step_stage)
  have clean: "?stage (\<lambda>db. case RETENTION_CLEAN config of None \<Rightarrow> ([], []) | Some w \<Rightarrow> dry_run_coupled clean_cols findings_cols (clean_spec w) (en_now env) db)
      (case RETENTION_CLEAN config of None \<Rightarrow> pop_return ([], []) | Some w \<Rightarrow> purgeCoupled env clean_cols findings_cols (clean_spec w))"
    using read_stage unfolding purgeCoupled_def Let_def if_P [OF assms] by (auto simp: pop_return_def [abs_def] split: option.split)
  have held: "?stage (\<lambda>db. held_report capHours (length (capped capHours (en_now env) db))) (purgeHeldCap env capHours)" for capHours
    unfolding purgeHeldCap_def [abs_def] if_P [OF assms] capped_count by (rule step_stage)
  have all: "list_all2 (\<lambda>(R, ref) m. stage (en_fault env) (\<lambda>_. True) R ref m)
      (zip (replicate 6 (\<lambda>db db'. db' = db)) (map reads (dry_refs config (en_now env)))) (purge_groups env config)"
    using raw clean held
      single_dry_stage [OF assms, where spec = "\<lparr>ss_group = ''WEBHOOK'', ss_table = ''raw_webhook_events'', ss_window = RETENTION_WEBHOOK config\<rparr>" and t = webhook_cols]
      single_dry_stage [OF assms, where spec = "\<lparr>ss_group = ''MATCH'', ss_table = ''match_keys'', ss_window = RETENTION_MATCH_KEYS config\<rparr>" and t = match_cols]
      single_dry_stage [OF assms, where spec = "\<lparr>ss_group = ''EXTRACT'', ss_table = ''extraction_candidates'', ss_window = RETENTION_EXTRACT config\<rparr>" and t = extract_cols]
    unfolding purge_groups_def dry_refs_def by (simp add: numeral_eq_Suc get_rows_eq)
  have "length (replicate 6 (\<lambda>db db' :: db. db' = db)) = length (map reads (dry_refs config (en_now env)))" by (simp add: dry_refs_def)
  from run_groups_run [where keep = "\<lambda>_. True", OF all this TrueI] show ?thesis unfolding one_shot_reads chain_same .
qed

lemma chain6: "chain [R1, R2, R3, R4, R5, R6] db db' \<longleftrightarrow>
    (\<exists>a b c d e. R1 db a \<and> R2 a b \<and> R3 b c \<and> R4 c d \<and> R5 d e \<and> R6 e db')"
  by auto

text \<open>The tables of a run against those it started from.\<close>

definition purge_change :: "purge_config \<Rightarrow> int \<Rightarrow> string set \<Rightarrow> db \<Rightarrow> db \<Rightarrow> bool" where
  "purge_change config now capped_calls db db' \<longleftrightarrow>
     (\<exists>raws. list_all2 (due_change raw_cols (RETENTION_RAW config) now (raw_blocked db)) (raw_transcripts db) raws
        \<and> raw_transcripts db' = filter (\<lambda>r. rt_call_id r \<notin> capped_calls) raws)
     \<and> (\<exists>tokens. list_all2 (child_change raw_cols vault_cols (RETENTION_RAW config) now (raw_blocked db) (raw_transcripts db) (token_vault db)) (token_vault db) tokens
        \<and> token_vault db' = filter (\<lambda>x. tv_call_id x \<notin> capped_calls) tokens)
     \<and> (case RETENTION_CLEAN config of
          None \<Rightarrow> clean_transcripts db' = clean_transcripts db \<and> redaction_findings db' = redaction_findings db
        | Some w \<Rightarrow> list_all2 (due_change clean_cols w now (blocks_clean db)) (clean_transcripts db) (clean_transcripts db')
            \<and> list_all2 (child_change clean_cols findings_cols w now (blocks_clean db) (clean_transcripts db) (redaction_findings db))
                (redaction_findings db) (redaction_findings db'))
     \<and> list_all2 (due_change webhook_cols (RETENTION_WEBHOOK config) now (\<lambda>_. False)) (raw_webhook_events db) (raw_webhook_events db')
     \<and> list_all2 (due_change match_cols (RETENTION_MATCH_KEYS config) now (\<lambda>_. False)) (match_keys db) (match_keys db')
     \<and> list_all2 (due_change extract_cols (RETENTION_EXTRACT config) now (\<lambda>_. False)) (extraction_candidates db) (extraction_candidates db')
     \<and> db' = db\<lparr>raw_transcripts := raw_transcripts db', token_vault := token_vault db', clean_transcripts := clean_transcripts db',
          redaction_findings := redaction_findings db', raw_webhook_events := raw_webhook_events db', match_keys := match_keys db',
          extraction_candidates := extraction_candidates db', raw_purge_tombstone := raw_purge_tombstone db', review_queue := review_queue db'\<rparr>"

lemma due_change_same: "list_all2 (due_change t w now b) rs rs"
  by (simp add: list_all2_same due_change_def)

lemma child_change_same: "list_all2 (child_change p c w now b ps cs) rs rs"
  by (simp add: list_all2_same child_change_def)

lemma purge_change_refl: "purge_change config now {} db db"
  unfolding purge_change_def
  by (auto simp: due_change_same child_change_same split: option.split intro!: exI [of _ "raw_transcripts db"] exI [of _ "token_vault db"])

lemma raw_change_eq:
  "raw_change config now db db' \<longleftrightarrow> (\<exists>ps cs. db' = db\<lparr>raw_transcripts := ps, token_vault := cs\<rparr>
     \<and> list_all2 (due_change raw_cols (RETENTION_RAW config) now (raw_blocked db)) (raw_transcripts db) ps
     \<and> list_all2 (child_change raw_cols vault_cols (RETENTION_RAW config) now (raw_blocked db) (raw_transcripts db) (token_vault db)) (token_vault db) cs)"
proof -
  have "put_rows raw_cols ps (put_rows vault_cols cs db) = db\<lparr>raw_transcripts := ps, token_vault := cs\<rparr>" for ps cs by (simp add: cols_defs)
  moreover have "get_rows raw_cols db = raw_transcripts db" "get_rows vault_cols db = token_vault db" "col_key vault_cols = tv_call_id" by (simp_all add: cols_defs)
  ultimately show ?thesis unfolding raw_change_def group_change_def by simp
qed

lemma clean_change_eq:
  "clean_change config now db db' \<longleftrightarrow> (case RETENTION_CLEAN config of None \<Rightarrow> db' = db | Some w \<Rightarrow>
     (\<exists>ps cs. db' = db\<lparr>clean_transcripts := ps, redaction_findings := cs\<rparr>
       \<and> list_all2 (due_change clean_cols w now (blocks_clean db)) (clean_transcripts db) ps
       \<and> list_all2 (child_change clean_cols findings_cols w now (blocks_clean db) (clean_transcripts db) (redaction_findings db)) (redaction_findings db) cs))"
proof -
  have "put_rows clean_cols ps (put_rows findings_cols cs db) = db\<lparr>clean_transcripts := ps, redaction_findings := cs\<rparr>" for ps cs by (simp add: cols_defs)
  moreover have "get_rows clean_cols db = clean_transcripts db" "get_rows findings_cols db = redaction_findings db" "col_key findings_cols = rf_call_id"
    by (simp_all add: cols_defs)
  ultimately show ?thesis unfolding clean_change_def group_change_def by (simp split: option.split)
qed

lemma table_change_eq:
  "table_change webhook_cols w now db db' \<longleftrightarrow> (\<exists>rs. db' = db\<lparr>raw_webhook_events := rs\<rparr> \<and> list_all2 (due_change webhook_cols w now (\<lambda>_. False)) (raw_webhook_events db) rs)"
  "table_change match_cols w now db db' \<longleftrightarrow> (\<exists>rs. db' = db\<lparr>match_keys := rs\<rparr> \<and> list_all2 (due_change match_cols w now (\<lambda>_. False)) (match_keys db) rs)"
  "table_change extract_cols w now db db' \<longleftrightarrow> (\<exists>rs. db' = db\<lparr>extraction_candidates := rs\<rparr> \<and> list_all2 (due_change extract_cols w now (\<lambda>_. False)) (extraction_candidates db) rs)"
proof -
  have "get_rows webhook_cols db = raw_webhook_events db" "get_rows match_cols db = match_keys db" "get_rows extract_cols db = extraction_candidates db"
    "\<And>rs. put_rows webhook_cols rs db = db\<lparr>raw_webhook_events := rs\<rparr>" "\<And>rs. put_rows match_cols rs db = db\<lparr>match_keys := rs\<rparr>"
    "\<And>rs. put_rows extract_cols rs db = db\<lparr>extraction_candidates := rs\<rparr>" by (simp_all add: cols_defs)
  then show "table_change webhook_cols w now db db' \<longleftrightarrow> (\<exists>rs. db' = db\<lparr>raw_webhook_events := rs\<rparr> \<and> list_all2 (due_change webhook_cols w now (\<lambda>_. False)) (raw_webhook_events db) rs)"
    "table_change match_cols w now db db' \<longleftrightarrow> (\<exists>rs. db' = db\<lparr>match_keys := rs\<rparr> \<and> list_all2 (due_change match_cols w now (\<lambda>_. False)) (match_keys db) rs)"
    "table_change extract_cols w now db db' \<longleftrightarrow> (\<exists>rs. db' = db\<lparr>extraction_candidates := rs\<rparr> \<and> list_all2 (due_change extract_cols w now (\<lambda>_. False)) (extraction_candidates db) rs)"
    by (simp_all add: table_change_def)
qed

lemma run_change:
  assumes "chain (group_changes config now) db db'"
  shows "\<exists>calls \<subseteq> rq_call_id ` set (capped (REVIEW_HELD_RAW_RETENTION_CAP_HOURS config) now db). purge_change config now calls db db'"
proof -
  let ?cap = "REVIEW_HELD_RAW_RETENTION_CAP_HOURS config"
  from assms obtain db1 db2 db3 db4 db5 where R: "raw_change config now db db1" "clean_change config now db1 db2"
    "table_change webhook_cols (RETENTION_WEBHOOK config) now db2 db3" "table_change match_cols (RETENTION_MATCH_KEYS config) now db3 db4"
    "table_change extract_cols (RETENTION_EXTRACT config) now db4 db5" "held_change ?cap now db5 db'"
    unfolding group_changes_def chain6 by blast
  obtain ps cs where db1: "db1 = db\<lparr>raw_transcripts := ps, token_vault := cs\<rparr>"
    and ps: "list_all2 (due_change raw_cols (RETENTION_RAW config) now (raw_blocked db)) (raw_transcripts db) ps"
    and cs: "list_all2 (child_change raw_cols vault_cols (RETENTION_RAW config) now (raw_blocked db) (raw_transcripts db) (token_vault db)) (token_vault db) cs"
    using R(1) unfolding raw_change_eq by blast
  obtain cts rfs where db2: "db2 = db1\<lparr>clean_transcripts := cts, redaction_findings := rfs\<rparr>"
    and clean: "case RETENTION_CLEAN config of None \<Rightarrow> cts = clean_transcripts db \<and> rfs = redaction_findings db
       | Some w \<Rightarrow> list_all2 (due_change clean_cols w now (blocks_clean db)) (clean_transcripts db) cts
          \<and> list_all2 (child_change clean_cols findings_cols w now (blocks_clean db) (clean_transcripts db) (redaction_findings db)) (redaction_findings db) rfs"
  proof (cases "RETENTION_CLEAN config")
    case None
    then show ?thesis using R(2) that [where cts = "clean_transcripts db" and rfs = "redaction_findings db"] by (simp add: clean_change_eq db1)
  next
    case (Some w)
    have "blocks_clean db1 = blocks_clean db" by (simp add: blocks_clean_def fun_eq_iff db1)
    then show ?thesis using R(2) that Some by (auto simp: clean_change_eq db1)
  qed
  obtain ws where db3: "db3 = db2\<lparr>raw_webhook_events := ws\<rparr>"
    and ws: "list_all2 (due_change webhook_cols (RETENTION_WEBHOOK config) now (\<lambda>_. False)) (raw_webhook_events db) ws"
    using R(3) unfolding table_change_eq by (auto simp: db2 db1)
  obtain ms where db4: "db4 = db3\<lparr>match_keys := ms\<rparr>"
    and ms: "list_all2 (due_change match_cols (RETENTION_MATCH_KEYS config) now (\<lambda>_. False)) (match_keys db) ms"
    using R(4) unfolding table_change_eq by (auto simp: db3 db2 db1)
  obtain es where db5: "db5 = db4\<lparr>extraction_candidates := es\<rparr>"
    and es: "list_all2 (due_change extract_cols (RETENTION_EXTRACT config) now (\<lambda>_. False)) (extraction_candidates db) es"
    using R(5) unfolding table_change_eq by (auto simp: db4 db3 db2 db1)
  have cap: "capped ?cap now db5 = capped ?cap now db" by (simp add: capped_def listRawPurgeEligible_def db5 db4 db3 db2 db1)
  obtain S ts rqs where S: "S \<subseteq> rq_call_id ` set (capped ?cap now db)"
    and db': "db' = db5\<lparr>raw_transcripts := filter (\<lambda>r. rt_call_id r \<notin> S) (raw_transcripts db5),
                  token_vault := filter (\<lambda>x. tv_call_id x \<notin> S) (token_vault db5), raw_purge_tombstone := ts, review_queue := rqs\<rparr>"
    using held_change_frame [OF R(6)] unfolding held_frame_def cap by blast
  note dbs = db' db5 db4 db3 db2 db1
  have "\<exists>raws. list_all2 (due_change raw_cols (RETENTION_RAW config) now (raw_blocked db)) (raw_transcripts db) raws
      \<and> raw_transcripts db' = filter (\<lambda>r. rt_call_id r \<notin> S) raws"
    using ps by (intro exI [of _ ps]) (simp add: dbs)
  moreover have "\<exists>tokens. list_all2 (child_change raw_cols vault_cols (RETENTION_RAW config) now (raw_blocked db) (raw_transcripts db) (token_vault db)) (token_vault db) tokens
      \<and> token_vault db' = filter (\<lambda>x. tv_call_id x \<notin> S) tokens"
    using cs by (intro exI [of _ cs]) (simp add: dbs)
  moreover have "case RETENTION_CLEAN config of
          None \<Rightarrow> clean_transcripts db' = clean_transcripts db \<and> redaction_findings db' = redaction_findings db
        | Some w \<Rightarrow> list_all2 (due_change clean_cols w now (blocks_clean db)) (clean_transcripts db) (clean_transcripts db')
            \<and> list_all2 (child_change clean_cols findings_cols w now (blocks_clean db) (clean_transcripts db) (redaction_findings db))
                (redaction_findings db) (redaction_findings db')"
    using clean by (simp add: dbs split: option.splits)
  ultimately show ?thesis using S ws ms es unfolding purge_change_def by (intro exI [of _ S]) (simp add: dbs)
qed


text \<open>Concrete runs: three transcripts, one held past the cap, one past the soft window and one past the hard window; a batch size of one.\<close>

definition sample_raw :: "string \<Rightarrow> int option \<Rightarrow> raw_transcript_row" where
  "sample_raw c soft = \<lparr>rt_call_id = c, rt_ciphertext = ''x'', rt_key_version = 1, rt_fetched_at = 0, rt_retention_eligible_at = Some 0,
     rt_soft_deleted_at = soft, rt_hard_deleted_at = None\<rparr>"

definition sample_token :: "string \<Rightarrow> string \<Rightarrow> int option \<Rightarrow> int option \<Rightarrow> token_vault_row" where
  "sample_token c token eligible soft = \<lparr>tv_call_id = c, tv_token = token, tv_ciphertext = ''x'', tv_key_version = 1, tv_retention_eligible_at = eligible,
     tv_soft_deleted_at = soft, tv_hard_deleted_at = None\<rparr>"

definition purge_db :: db where
  "purge_db = (held_db ST_redact HR_redaction_failed)\<lparr>raw_transcripts := [sample_raw ''c1'' None, sample_raw ''c2'' None, sample_raw ''c3'' (Some 0)]\<rparr>"

definition sample_purge_config :: purge_config where
  "sample_purge_config =
     (let w = \<lparr>softDays = 30, hardDays = 60\<rparr> in
      \<lparr>RETENTION_RAW = w, RETENTION_CLEAN = Some w, RETENTION_WEBHOOK = w, RETENTION_MATCH_KEYS = w, RETENTION_EXTRACT = w,
       REVIEW_HELD_RAW_RETENTION_CAP_HOURS = 72\<rparr>)"

definition sample_purge_env :: "faults \<Rightarrow> bool \<Rightarrow> purge_env" where
  "sample_purge_env fault dry =
     \<lparr>en_fault = fault, en_limit = take, en_limit_id = take, en_batch = 1, en_dryRun = dry, en_now = 100 * 86400000\<rparr>"

definition clean_fails :: faults where
  "clean_fails meta db = (if pe_group meta = ''CLEAN'' then Some (Some ''57014'') else None)"

lemma sample_purge_ok: "env_ok (sample_purge_env fault dry)" "windows_ok sample_purge_config" "purge_keys purge_db" "purge_keys empty_db"
proof -
  show "env_ok (sample_purge_env fault dry)" using take_bounded_select [of 0] take_bounded_select [of 0] by (simp add: env_ok_def sample_purge_env_def)
  show "windows_ok sample_purge_config" by (simp add: windows_ok_def grace_def sample_purge_config_def Let_def)
qed (simp_all add: purge_keys_def purge_db_def held_db_def empty_db_def sample_raw_def)

text \<open>C13: A purge whose statements all succeed is the reference run, in its tables and in its report: every pass is one statement over everything that is
  due.  The batch size and which rows the bounded selects return make no difference, and the batch loops end.\<close>

theorem purge_one_shot:
  assumes "env_ok env" "\<not> en_dryRun env" "en_fault env = no_fault" "windows_ok config" "purge_keys db"
  shows "runPurge env config True True db = (case one_shot_purge config (en_now env) db of (report, db') \<Rightarrow> Some (Inr report, db'))"
  by (rule purge_run_eq [OF assms])

theorem purge_one_shot_witness:
  "let env = sample_purge_env no_fault False in
   env_ok env \<and> \<not> en_dryRun env \<and> en_fault env = no_fault \<and> windows_ok sample_purge_config \<and> purge_keys purge_db
   \<and> runPurge env sample_purge_config True True purge_db
     = (case one_shot_purge sample_purge_config (en_now env) purge_db of (report, db') \<Rightarrow> Some (Inr report, db'))"
proof -
  let ?env = "sample_purge_env no_fault False"
  have "\<not> en_dryRun ?env" "en_fault ?env = no_fault" by (simp_all add: sample_purge_env_def)
  with purge_one_shot [OF sample_purge_ok(1) this sample_purge_ok(2,3)] sample_purge_ok show ?thesis by (simp add: Let_def)
qed




lemma held_resume:
  assumes d: "distinct (map rq_id (review_queue db))" and stop: "held_change capHours now db db1"
  shows "fold (held_one now) (capped capHours now db1) db1 = fold (held_one now) (capped capHours now db) db \<and> distinct (map rq_id (review_queue db1))
    \<and> length (capped capHours now db1) \<le> length (capped capHours now db)"
proof -
  from stop obtain ys zs where L: "capped capHours now db = ys @ zs"
    and db1: "db1 = fold (held_one now) ys db \<or> (\<exists>z zs'. zs = z # zs' \<and> db1 = purge_raw_call (rq_call_id z) (fold (held_one now) ys db))"
    unfolding held_change_def held_stopped_def by blast
  let ?db = "fold (held_one now) ys db"
  have rest: "capped capHours now ?db = zs" "distinct (map rq_id (review_queue ?db))" using capped_prefix [OF d L] by simp_all
  have all: "fold (held_one now) (capped capHours now db) db = fold (held_one now) zs ?db" by (simp add: L)
  from db1 show ?thesis
  proof (elim disjE exE conjE)
    fix z zs' assume z: "zs = z # zs'" and db1: "db1 = purge_raw_call (rq_call_id z) ?db"
    have "capped capHours now db1 = zs" using rest(1) by (simp add: db1 capped_def listRawPurgeEligible_def purge_raw_reviews)
    then show ?thesis unfolding all z using rest(2) by (simp add: db1 held_one_again purge_raw_reviews L z)
  qed (simp add: all rest L)
qed

lemma purgeHeldCap_quiet:
  assumes "env_ok env" "\<not> en_dryRun env" "en_fault env = no_fault" "distinct (map rq_id (review_queue db))"
  shows "purgeHeldCap env capHours db = (case one_shot_held capHours (en_now env) db of (report, db') \<Rightarrow> Some (Inr report, db'))"
  using purgeHeldCap_run [OF assms(1,2,4), of capHours] unfolding stage_outcome_def assms(3)
  by (elim exE conjE, rename_tac r db', case_tac r) (auto simp: no_fault_of split: prod.splits)

text \<open>C15: A held-cap purge that stopped at any failing step, even between the raw delete and the review stamp, is completed by the next run: a rerun at
  that instant, with whatever batch size, leaves exactly the tables of a run that never failed.\<close>

theorem held_cap_converges:
  assumes "env_ok env" "\<not> en_dryRun env" "env_ok rerun" "\<not> en_dryRun rerun" "en_fault rerun = no_fault" "en_now rerun = en_now env"
    and "distinct (map rq_id (review_queue db))" "purgeHeldCap env capHours db = Some (Inl e, db1)"
  shows "\<exists>n m db'. purgeHeldCap rerun capHours db1 = Some (Inr (held_report capHours n), db')
    \<and> purgeHeldCap rerun capHours db = Some (Inr (held_report capHours m), db') \<and> n \<le> m"
proof -
  let ?now = "en_now env"
  have stop: "held_change capHours ?now db db1"
    using purgeHeldCap_run [OF assms(1,2,7), of capHours] unfolding stage_outcome_def assms(8) by auto
  note resume = held_resume [OF assms(7) stop]
  show ?thesis
    using resume purgeHeldCap_quiet [OF assms(3-5), of db1 capHours] purgeHeldCap_quiet [OF assms(3-5,7), of capHours]
    by (auto simp: one_shot_held_def assms(6))
qed


definition mark_fails :: faults where
  "mark_fails meta db = (if pe_table meta = ''review_queue'' \<and> raw_purge_tombstone db \<noteq> [] then Some None else None)"

lemma held_interrupted:
  "purgeHeldCap (sample_purge_env mark_fails False) 72 purge_db
    = Some (Inl (step_meta ''HELD_CAP'' ''review_queue'' Held_cap_purge False), purge_raw_call ''c1'' purge_db)"
proof -
  have list: "listRawPurgeEligible 72 8640000000 (Some 1) purge_db = [sample_review HR_redaction_failed]" "rq_call_id (sample_review HR_redaction_failed) = ''c1''"
    by (simp_all add: listRawPurgeEligible_def sql_select_def purge_db_def held_db_def sample_review_def new_review_def raw_purge_eligible_def sample_pg_def)
  have fault: "mark_fails meta purge_db = None" "mark_fails (step_meta g ''review_queue'' k d) (purge_raw_call ''c1'' purge_db) = Some None" for meta g k d
    by (simp_all add: mark_fails_def purge_db_def held_db_def empty_db_def step_meta_def purge_raw_call_eq)
  show ?thesis
    by (simp add: purgeHeldCap_def sample_purge_env_def until_done.simps held_batch_def purge_step_def fault list [unfolded One_nat_def]) (simp add: step_meta_def)
qed

theorem held_cap_converges_witness:
  "let env = sample_purge_env mark_fails False; rerun = sample_purge_env no_fault False; db1 = purge_raw_call ''c1'' purge_db;
       e = step_meta ''HELD_CAP'' ''review_queue'' Held_cap_purge False in
   env_ok env \<and> \<not> en_dryRun env \<and> env_ok rerun \<and> \<not> en_dryRun rerun \<and> en_fault rerun = no_fault \<and> en_now rerun = en_now env
   \<and> distinct (map rq_id (review_queue purge_db)) \<and> purgeHeldCap env 72 purge_db = Some (Inl e, db1)
   \<and> (\<exists>n m db'. purgeHeldCap rerun 72 db1 = Some (Inr (held_report 72 n), db') \<and> purgeHeldCap rerun 72 purge_db = Some (Inr (held_report 72 m), db') \<and> n \<le> m)"
proof -
  let ?env = "sample_purge_env mark_fails False" and ?rerun = "sample_purge_env no_fault False"
  have env: "\<not> en_dryRun ?env" "\<not> en_dryRun ?rerun" "en_fault ?rerun = no_fault" "en_now ?rerun = en_now ?env" by (simp_all add: sample_purge_env_def)
  have ids: "distinct (map rq_id (review_queue purge_db))" using sample_purge_ok(3) by (simp add: purge_keys_def)
  from held_cap_converges [OF sample_purge_ok(1) env(1) sample_purge_ok(1) env(2,3,4) ids held_interrupted] env ids held_interrupted sample_purge_ok(1)
  show ?thesis unfolding Let_def by blast
qed


lemma purge_alert_key:
  assumes "createFailure RETENTION_PURGE_FAILED PST_degraded
      (Some ([(''component'', ''retention-cron''), (''environment'', env)] @ sanitizedPurgeCtx e)) None = Some f"
  shows "ai_dedupKey (emit_insert f) = ''RETENTION_PURGE_FAILED:component:retention-cron''"
proof -
  let ?ctx = "[(''component'', ''retention-cron''), (''environment'', env)] @ sanitizedPurgeCtx e"
  have "ff_error_code f = RETENTION_PURGE_FAILED" "ff_context f = sanitizeContext ?ctx"
    using createFailure_total [of RETENTION_PURGE_FAILED PST_degraded "Some ?ctx" None] assms by auto
  moreover have "first_scope (sanitizeContext (sanitizeContext ?ctx)) DEDUP_SCOPE_PRIORITY = Some (''component'', ''retention-cron'')"
  proof -
    have keys: "\<not> isContentField ''component''" "\<not> isContentField ''environment''" "isValidComponent ''retention-cron''"
      using context_keys_not_content by (simp_all add: CONTEXT_KEYS_def isValidComponent_def COMPONENT_def)
    have drop: "sanitize_entry (''group'', v) out = out" "sanitize_entry (''table'', v) out = out" "sanitize_entry (''action'', v) out = out"
      "sanitize_entry (''dry_run'', v) out = out" "sanitize_entry (''sqlstate'', v) out = out" for v out by (simp_all add: sanitize_entry_def CONTEXT_KEYS_def)
    have keep: "sanitize_entry (''component'', ''retention-cron'') [] = [(''component'', ''retention-cron'')]"
      "sanitize_entry (''environment'', env) [(''component'', ''retention-cron'')]
        = (''component'', ''retention-cron'') # (if env \<in> set NODE_ENVS then [(''environment'', env)] else [])"
      using keys by (simp_all add: sanitize_entry_def CONTEXT_KEYS_def)
    have ctx: "sanitizeContext ?ctx = (''component'', ''retention-cron'') # (if env \<in> set NODE_ENVS then [(''environment'', env)] else [])"
      by (cases "pe_sqlstate e") (simp_all add: sanitizeContext_def sanitizedPurgeCtx_def keep drop)
    have again: "sanitizeContext ((''component'', ''retention-cron'') # (if env \<in> set NODE_ENVS then [(''environment'', env)] else []))
        = (''component'', ''retention-cron'') # (if env \<in> set NODE_ENVS then [(''environment'', env)] else [])"
      using keep by (auto simp: sanitizeContext_def)
    show ?thesis unfolding ctx again by (simp add: DEDUP_SCOPE_PRIORITY_def)
  qed
  ultimately show ?thesis by (simp add: emit_insert_def dedupKey_def Let_def)
qed


text \<open>C16: The retention cron never hides a failure: it pings its check exactly when a run got both locks and completed; when a step failed it rethrows
  that step's error, and an unacknowledged \<^verbatim>\<open>RETENTION_PURGE_FAILED\<close> alert of the cron is on record.\<close>

theorem retention_service_signals:
  assumes "env_ok env" "windows_ok config" "purge_keys db"
  shows "\<exists>r db'. runRetentionService url alert_config deps (runPurge env config lockedA lockedB) db = Some (r, db')
    \<and> (case r of Inr pings \<Rightarrow> pings = (if lockedA \<and> lockedB then pingSuccess url else [])
       | Inl e \<Rightarrow> fault_of (en_fault env) e \<and> open_key ''RETENTION_PURGE_FAILED:component:retention-cron'' db')"
proof -
  obtain r db1 where run: "run_groups (purge_groups env config) db = Some (r, db1)" and r: "\<And>e. r = Inl e \<Longrightarrow> fault_of (en_fault env) e"
    using dry_groups_run [of env config db] purge_groups_run [OF assms(1) _ assms(2,3)] unfolding stage_outcome_def by (cases "en_dryRun env") fastforce+
  let ?input = "\<lambda>e. \<lparr>em_code = RETENTION_PURGE_FAILED, em_processingState = PST_degraded,
    em_context = Some ([(''component'', ''retention-cron''), (''environment'', alert_config.NODE_ENV alert_config)] @ sanitizedPurgeCtx e), em_severity = None\<rparr>"
  have alert: "open_key ''RETENTION_PURGE_FAILED:component:retention-cron'' (aw_db (snd (emitAlert alert_config deps (?input e) w)))" for e w
  proof -
    obtain f where f: "createFailure RETENTION_PURGE_FAILED PST_degraded (em_context (?input e)) None = Some f" using createFailure_total by blast
    then show ?thesis using emit_open [of "?input e" f alert_config deps w] purge_alert_key [of _ e f] by simp
  qed
  show ?thesis
  proof (cases "lockedA \<and> lockedB")
    case False
    then show ?thesis by (auto simp: runRetentionService_def runRetention_def runPurge_def pop_bind_def pop_return_def)
  next
    case True
    show ?thesis
    proof (cases r)
      case (Inl e)
      then show ?thesis using True run r alert by (auto simp: runRetentionService_def runRetention_def runPurge_def pop_bind_def)
    next
      case (Inr counts)
      then show ?thesis using True run by (auto simp: runRetentionService_def runRetention_def runPurge_def pop_bind_def pop_return_def)
    qed
  qed
qed


theorem retention_service_signals_witness:
  "env_ok (sample_purge_env clean_fails False) \<and> windows_ok sample_purge_config \<and> purge_keys purge_db
   \<and> (\<exists>r db'. runRetentionService (Some ''https://check'') (sv_alerts sample_service) (sv_deliver sample_service)
         (runPurge (sample_purge_env clean_fails False) sample_purge_config True True) purge_db = Some (r, db')
      \<and> (case r of Inr pings \<Rightarrow> pings = pingSuccess (Some ''https://check'')
         | Inl e \<Rightarrow> fault_of (en_fault (sample_purge_env clean_fails False)) e \<and> open_key ''RETENTION_PURGE_FAILED:component:retention-cron'' db'))"
  using retention_service_signals [OF sample_purge_ok(1-3), of "Some ''https://check''" "sv_alerts sample_service" "sv_deliver sample_service" clean_fails False True True]
    sample_purge_ok unfolding simp_thms if_True by blast

end
