(* ===== verification/Retention_Forecast.thy ===== *)
theory Retention_Forecast
  imports Retention_Properties
begin

text \<open>
  The dry run of the purge as a forecast of the run: the selections of the later passes do not depend on what the earlier passes stamped, so counting
  them all on the tables as they are gives the counts of the run, for everything but the child tables, whose orphans the run handles call by call.
\<close>

lemma keys_filter_map:
  assumes "\<And>x. x \<in> set xs \<Longrightarrow> D (g x) = D' x" "\<And>x. k (g x) = k x"
  shows "map k (filter D (map g xs)) = map k (filter D' xs)"
  using assms by (induction xs) simp_all

context retained_table
begin

lemma soft_if_hard:
  assumes "grace w"
  shows "hard_due t w now (soft_if t now ids r) = hard_due t w now r" "past_grace t w now (soft_if t now ids r) = past_grace t w now r"
    "col_hard t (soft_if t now ids r) = col_hard t r"
  using assms by (auto simp: soft_if_def hard_due_def past_grace_def laws days_ms_def grace_def)

end

context coupled_tables
begin

lemma soft_db:
  "snd (couple (soft_delete p now) (soft_delete c now) ids db) = put_rows p (map (soft_if p now ids) (get_rows p db)) (put_rows c (map (soft_if c now ids) (get_rows c db)) db)"
  by (subst put_self [symmetric]) (rule stamps)

lemma parent_key_kept:
  "sql_exists (\<lambda>r. col_key p r = k) (map (soft_if p n ids) rs) = sql_exists (\<lambda>r. col_key p r = k) rs"
  "sql_exists (\<lambda>r. col_key p r = k) (map (hard_if p n ids) rs) = sql_exists (\<lambda>r. col_key p r = k) rs"
  by (simp_all add: sql_exists_iff)

lemma passes_forecast:
  assumes "grace w" and db1: "db1 = snd (couple (soft_delete p now) (soft_delete c now) (soft_parents db) db)"
    and db2: "db2 = snd (soft_delete c now (soft_orphans db1) db1)" and db3: "db3 = snd (couple (hard_delete p now) (hard_delete c now) (hard_parents db2) db2)"
  shows "soft_orphans db1 = soft_orphans db" "hard_parents db2 = hard_parents db" "hard_orphans db3 = hard_orphans db"
proof -
  let ?P = "get_rows p db" and ?C = "get_rows c db" and ?s = "soft_if p now (soft_parents db)" and ?u = "soft_if c now (soft_parents db)"
  have e1: "db1 = put_rows p (map ?s ?P) (put_rows c (map ?u ?C) db)" unfolding db1 by (rule soft_db)
  have soft_exists: "sql_exists (\<lambda>r. col_key p r = k) ?P" if "k \<in> set (soft_parents db)" for k
    using that by (auto simp: soft_parents_def parent_keys_def parent_soft_rows_def sql_exists_iff)
  have "map (col_key c) (orphan_soft_rows p c w (blocked db1) now db1) = map (col_key c) (orphan_soft_rows p c w (blocked db) now db)"
    unfolding orphan_soft_rows_def e1 group_change_put parent_key_kept
    by (rule keys_filter_map) (use soft_exists in \<open>auto simp: soft_if_def child.laws\<close>)
  then show k2: "soft_orphans db1 = soft_orphans db" by (simp add: soft_orphans_def distinct_keys_def)
  let ?v = "soft_if c now (soft_orphans db)"
  have e2: "db2 = put_rows p (map ?s ?P) (put_rows c (map ?v (map ?u ?C)) db)" unfolding db2 k2 unfolding e1 by (rule stamps)
  have grace: "sql_exists (\<lambda>x. col_key c x = k \<and> col_hard c x = None \<and> \<not> past_grace c w now x) (map ?v (map ?u ?C))
      = sql_exists (\<lambda>x. col_key c x = k \<and> col_hard c x = None \<and> \<not> past_grace c w now x) ?C" for k
    by (simp add: sql_exists_iff child.soft_if_hard [OF assms(1)])
  show k3: "hard_parents db2 = hard_parents db"
    unfolding hard_parents_def parent_keys_def parent_hard_rows_def e2 group_change_put grace
    by (rule keys_filter_map) (simp_all add: parent.soft_if_hard [OF assms(1)])
  let ?h = "hard_if p now (hard_parents db)" and ?g = "hard_if c now (hard_parents db)"
  have e3: "db3 = put_rows p (map ?h (map ?s ?P)) (put_rows c (map ?g (map ?v (map ?u ?C))) db)" unfolding db3 k3 unfolding e2 by (rule stamps)
  have hard_exists: "sql_exists (\<lambda>r. col_key p r = k) ?P" if "k \<in> set (hard_parents db)" for k
    using that by (auto simp: hard_parents_def parent_keys_def parent_hard_rows_def sql_exists_iff)
  have "map (col_key c) (orphan_hard_rows p c w (blocked db3) now db3) = map (col_key c) (orphan_hard_rows p c w (blocked db) now db)"
    unfolding orphan_hard_rows_def e3 group_change_put parent_key_kept unfolding map_map
    by (rule keys_filter_map) (use hard_exists in \<open>auto simp: hard_if_def child.laws child.soft_if_hard [OF assms(1)]\<close>)
  then show "hard_orphans db3 = hard_orphans db" by (simp add: hard_orphans_def distinct_keys_def)
qed

lemma parent_counts:
  assumes "keys_ok db"
  shows "fst (soft_delete p now (soft_parents db) db) = length (soft_parents db)" "fst (hard_delete p now (hard_parents db) db) = length (hard_parents db)"
proof -
  have one: "r = r'" if "r \<in> set (get_rows p db)" "r' \<in> set (get_rows p db)" "col_key p r = col_key p r'" for r r'
    using assms that unfolding keys_ok_def distinct_map by (auto dest: inj_onD)
  have "filter (\<lambda>r. col_key p r \<in> set (soft_parents db) \<and> col_soft p r = None) (get_rows p db) = parent_soft_rows p w (blocked db) now db"
    unfolding parent_soft_rows_def soft_parents_def parent_keys_def by (rule filter_cong [OF refl]) (auto simp: soft_due_def dest: one)
  then show "fst (soft_delete p now (soft_parents db) db) = length (soft_parents db)"
    by (simp add: soft_delete_def update_rows_def) (simp add: soft_parents_def parent_keys_def)
  have "filter (\<lambda>r. col_key p r \<in> set (hard_parents db) \<and> col_hard p r = None) (get_rows p db) = parent_hard_rows p c w (blocked db) now db"
    unfolding parent_hard_rows_def hard_parents_def parent_keys_def by (rule filter_cong [OF refl]) (auto simp: hard_due_def dest: one)
  then show "fst (hard_delete p now (hard_parents db) db) = length (hard_parents db)"
    by (simp add: hard_delete_def update_rows_def) (simp add: hard_parents_def parent_keys_def)
qed

lemma one_shot_forecast:
  assumes "keys_ok db" "grace w" "sp_window spec = w"
  shows "\<exists>m n. fst (one_shot_group p c blocked spec now db)
    = run_report spec (length (soft_parents db), m) (length (hard_parents db), n)
        (length (soft_parents db) + length (soft_orphans db)) (length (hard_parents db) + length (hard_orphans db))"
proof -
  define db1 where "db1 = snd (couple (soft_delete p now) (soft_delete c now) (soft_parents db) db)"
  define db2 where "db2 = snd (soft_delete c now (soft_orphans db1) db1)"
  define db3 where "db3 = snd (couple (hard_delete p now) (hard_delete c now) (hard_parents db2) db2)"
  have ok2: "keys_ok db2" using assms(1) by (simp add: db2_def db1_def coupled_laws)
  note same = passes_forecast [OF assms(2) db1_def db2_def db3_def]
  have "fst (one_shot_group p c blocked spec now db) = run_report spec
      (fst (soft_delete p now (soft_parents db) db), snd (fst (couple (soft_delete p now) (soft_delete c now) (soft_parents db) db)) + fst (soft_delete c now (soft_orphans db1) db1))
      (fst (hard_delete p now (hard_parents db2) db2), snd (fst (couple (hard_delete p now) (hard_delete c now) (hard_parents db2) db2)) + fst (hard_delete c now (hard_orphans db3) db3))
      (length (soft_parents db) + length (soft_orphans db1)) (length (hard_parents db2) + length (hard_orphans db3))"
    unfolding one_shot_group_def Let_def assms(3)
    unfolding soft_parents_def [symmetric] db1_def [symmetric] unfolding soft_orphans_def [symmetric] db2_def [symmetric]
    unfolding hard_parents_def [symmetric] db3_def [symmetric] unfolding hard_orphans_def [symmetric] by (simp add: couple_simps)
  then show ?thesis unfolding same unfolding parent_counts(1) [OF assms(1)] parent_counts(2) [OF ok2, unfolded same] by blast
qed

end


section \<open>Group by group\<close>

text \<open>The lines of a report that do not count a child table.\<close>

definition main_action :: "purge_action \<Rightarrow> bool" where
  "main_action a \<longleftrightarrow> pa_table a \<notin> {''token_vault'', ''redaction_findings''} \<or> pa_action a = Held_cap_purge"

definition same_forecast :: "purge_counts \<Rightarrow> purge_counts \<Rightarrow> bool" where
  "same_forecast dry run \<longleftrightarrow> snd dry = snd run \<and> filter main_action (fst dry) = filter main_action (fst run)"

lemma same_forecast_refl: "same_forecast x x"
  by (simp add: same_forecast_def)

lemma same_forecast_join: "list_all2 same_forecast ds cs \<Longrightarrow> same_forecast (join_counts ds) (join_counts cs)"
  by (induction rule: list_all2_induct) (auto simp: same_forecast_def join_counts_def)

lemma same_forecast_group:
  assumes "sp_child spec \<in> {''token_vault'', ''redaction_findings''}"
  shows "same_forecast (dry_report spec (a, m) (b, n) x y) (run_report spec (a, m') (b, n') x y)"
  using assms by (auto simp: same_forecast_def dry_report_def run_report_def main_action_def purge_act_def)

lemma survivors_eq: "survivors ids db = filter (\<lambda>c. \<not> raw_blocked db c) ids"
  by (auto simp: survivors_def set_blockedRawCallIds intro: filter_cong)

lemma raw_forecast:
  assumes "purge_keys db" "grace (RETENTION_RAW config)"
  shows "same_forecast (dry_run_raw raw_cols vault_cols (raw_spec config) now db) (fst (one_shot_group raw_cols vault_cols raw_blocked (raw_spec config) now db))"
proof -
  have "raw_held.keys_ok db" using assms(1) unfolding raw_held.keys_ok_def by (simp add: raw_cols_def purge_keys_def)
  from raw_held.one_shot_forecast [OF this, of "sp_window (raw_spec config)" "raw_spec config" now] assms(2) obtain m n where
    "fst (one_shot_group raw_cols vault_cols raw_blocked (raw_spec config) now db) = run_report (raw_spec config)
       (length (raw_held.soft_parents (sp_window (raw_spec config)) now db), m) (length (raw_held.hard_parents (sp_window (raw_spec config)) now db), n)
       (length (raw_held.soft_parents (sp_window (raw_spec config)) now db) + length (raw_held.soft_orphans (sp_window (raw_spec config)) now db))
       (length (raw_held.hard_parents (sp_window (raw_spec config)) now db) + length (raw_held.hard_orphans (sp_window (raw_spec config)) now db))"
    by (auto simp: raw_spec_def)
  then show ?thesis
    unfolding dry_run_raw_def Let_def survivors_eq filter_parent_keys raw_held.soft_parents_def raw_held.hard_parents_def raw_held.soft_orphans_def raw_held.hard_orphans_def
    by (auto intro: same_forecast_group simp: raw_spec_def)
qed

lemma clean_forecast:
  assumes "purge_keys db" "grace w"
  shows "same_forecast (dry_run_coupled clean_cols findings_cols (clean_spec w) now db) (fst (one_shot_group clean_cols findings_cols blocks_clean (clean_spec w) now db))"
proof -
  have "clean_group.keys_ok db" using assms(1) unfolding clean_group.keys_ok_def by (simp add: clean_cols_def purge_keys_def)
  from clean_group.one_shot_forecast [OF this, of w "clean_spec w" now] assms(2) obtain m n where
    "fst (one_shot_group clean_cols findings_cols blocks_clean (clean_spec w) now db) = run_report (clean_spec w)
       (length (clean_group.soft_parents w now db), m) (length (clean_group.hard_parents w now db), n)
       (length (clean_group.soft_parents w now db) + length (clean_group.soft_orphans w now db))
       (length (clean_group.hard_parents w now db) + length (clean_group.hard_orphans w now db))"
    by (auto simp: clean_spec_def)
  moreover have "sp_window (clean_spec w) = w" "sp_child (clean_spec w) \<in> {''token_vault'', ''redaction_findings''}" by (simp_all add: clean_spec_def)
  ultimately show ?thesis
    unfolding dry_run_coupled_def Let_def clean_group.soft_parents_def clean_group.hard_parents_def clean_group.soft_orphans_def clean_group.hard_orphans_def
      parent_keys_def length_map by (auto intro: same_forecast_group)
qed

context retained_table
begin

lemma single_forecast:
  assumes "grace (ss_window spec)"
  shows "fst (one_shot_single t spec now db) = single_report spec (length (filter (soft_due t (ss_window spec) now) (get_rows t db)))
    (length (filter (hard_due t (ss_window spec) now) (get_rows t db)))"
proof -
  let ?w = "ss_window spec"
  have "hard_due t ?w now (if soft_due t ?w now r then set_soft t now r else r) = hard_due t ?w now r" for r
    using fresh_not_hard [OF assms, of now r] by (auto simp: soft_due_def hard_due_def past_grace_def)
  then have "length (filter (hard_due t ?w now) (sql_update (soft_due t ?w now) (set_soft t now) rs)) = length (filter (hard_due t ?w now) rs)" for rs
    by (simp add: sql_update_def filter_map o_def)
  then show ?thesis by (simp add: one_shot_single_def update_rows_def laws)
qed

end

section \<open>The run\<close>

lemma stage_ref:
  assumes "stage no_fault keep R ref m" "keep db"
  shows "R db (snd (ref db)) \<and> keep (snd (ref db))"
proof -
  have "stage_outcome no_fault R ref db (m db)" using assms unfolding stage_def by blast
  then obtain r db' where "R db db'" "case r of Inr a \<Rightarrow> (a, db') = ref db | Inl e \<Rightarrow> fault_of no_fault e" unfolding stage_outcome_def by blast
  then have "R db (snd (ref db))" by (cases r) (auto simp: no_fault_of dest: sym)
  then show ?thesis using assms unfolding stage_def by blast
qed

lemma one_shot_six:
  "one_shot_groups [a, b, c, d, e, f] db = ([fst (a db), fst (b (snd (a db))), fst (c (snd (b (snd (a db))))),
     fst (d (snd (c (snd (b (snd (a db))))))), fst (e (snd (d (snd (c (snd (b (snd (a db))))))))),
     fst (f (snd (e (snd (d (snd (c (snd (b (snd (a db)))))))))))], snd (f (snd (e (snd (d (snd (c (snd (b (snd (a db))))))))))))"
  by (simp split: prod.split)

lemma clean_dry_frame:
  assumes "clean_transcripts db' = clean_transcripts db" "redaction_findings db' = redaction_findings db" "review_queue db' = review_queue db"
  shows "dry_run_coupled clean_cols findings_cols spec now db' = dry_run_coupled clean_cols findings_cols spec now db"
proof -
  have "get_rows clean_cols db' = get_rows clean_cols db" "get_rows findings_cols db' = get_rows findings_cols db" "blocks_clean db' = blocks_clean db"
    using assms by (simp_all add: cols_defs blocks_clean_def fun_eq_iff)
  then show ?thesis by (simp add: dry_run_coupled_def parent_soft_rows_def parent_hard_rows_def orphan_soft_rows_def orphan_hard_rows_def)
qed

lemma refs_forecast:
  assumes "windows_ok config" "purge_keys db"
  shows "list_all2 same_forecast (map (\<lambda>f. f db) (dry_refs config now)) (fst (one_shot_groups (one_shot_refs config now) db))"
proof -
  let ?env = "\<lparr>en_fault = no_fault, en_limit = take, en_limit_id = take, en_batch = 1, en_dryRun = False, en_now = now\<rparr>"
  have env: "env_ok ?env" "\<not> en_dryRun ?env" "en_now ?env = now" "en_fault ?env = no_fault" using take_bounded_select [of 0] take_bounded_select [of 0] by (simp_all add: env_ok_def)
  have w: "grace (RETENTION_RAW config)" "case RETENTION_CLEAN config of None \<Rightarrow> True | Some w \<Rightarrow> grace w" "grace (RETENTION_WEBHOOK config)"
    "grace (RETENTION_MATCH_KEYS config)" "grace (RETENTION_EXTRACT config)" using assms(1) by (simp_all add: windows_ok_def)
  let ?spec = "\<lambda>g t w. \<lparr>ss_group = g, ss_table = t, ss_window = w\<rparr>"
  define db1 where "db1 = snd (one_shot_group raw_cols vault_cols raw_blocked (raw_spec config) now db)"
  define db2 where "db2 = snd ((case RETENTION_CLEAN config of None \<Rightarrow> (\<lambda>db. (([], []), db))
    | Some w \<Rightarrow> one_shot_group clean_cols findings_cols blocks_clean (clean_spec w) now) db1)"
  define db3 where "db3 = snd (one_shot_single webhook_cols (?spec ''WEBHOOK'' ''raw_webhook_events'' (RETENTION_WEBHOOK config)) now db2)"
  define db4 where "db4 = snd (one_shot_single match_cols (?spec ''MATCH'' ''match_keys'' (RETENTION_MATCH_KEYS config)) now db3)"
  define db5 where "db5 = snd (one_shot_single extract_cols (?spec ''EXTRACT'' ''extraction_candidates'' (RETENTION_EXTRACT config)) now db4)"
  have s1: "raw_change config now db db1" and keys1: "purge_keys db1"
    using stage_ref [OF raw_stage [OF env(1,2) w(1), unfolded env(3,4)] assms(2)] by (simp_all add: db1_def)
  have s2: "clean_change config now db1 db2"
    using stage_ref [OF clean_stage [OF env(1,2) w(2), unfolded env(3,4)] keys1] by (simp add: db2_def)
  have f1: "clean_transcripts db1 = clean_transcripts db" "redaction_findings db1 = redaction_findings db" "review_queue db1 = review_queue db"
    "raw_webhook_events db1 = raw_webhook_events db" "match_keys db1 = match_keys db" "extraction_candidates db1 = extraction_candidates db"
    using s1 by (auto simp: raw_change_eq)
  have f2: "review_queue db2 = review_queue db" "raw_webhook_events db2 = raw_webhook_events db" "match_keys db2 = match_keys db"
    "extraction_candidates db2 = extraction_candidates db"
    using s2 f1 by (auto simp: clean_change_eq split: option.splits)
  have f3: "review_queue db3 = review_queue db" "match_keys db3 = match_keys db" "extraction_candidates db3 = extraction_candidates db"
    using f2 by (simp_all add: db3_def one_shot_single_def update_rows_def webhook_cols_def)
  have f4: "review_queue db4 = review_queue db" "extraction_candidates db4 = extraction_candidates db"
    using f3 by (simp_all add: db4_def one_shot_single_def update_rows_def match_cols_def)
  have f5: "review_queue db5 = review_queue db"
    using f4 by (simp add: db5_def one_shot_single_def update_rows_def extract_cols_def)
  let ?dry = "dry_refs config now" and ?cap = "REVIEW_HELD_RAW_RETENTION_CAP_HOURS config"
  have clean: "same_forecast (case RETENTION_CLEAN config of None \<Rightarrow> ([], []) | Some w \<Rightarrow> dry_run_coupled clean_cols findings_cols (clean_spec w) now db)
      (fst ((case RETENTION_CLEAN config of None \<Rightarrow> (\<lambda>db. (([], []), db)) | Some w \<Rightarrow> one_shot_group clean_cols findings_cols blocks_clean (clean_spec w) now) db1))"
    using w(2) clean_forecast [OF keys1] clean_dry_frame [OF f1(1-3)] by (auto simp: same_forecast_refl split: option.split)
  have held: "held_report ?cap (length (capped ?cap now db)) = fst (one_shot_held ?cap now db5)"
    by (simp add: one_shot_held_def capped_def listRawPurgeEligible_def f5)
  have singles: "fst (one_shot_single webhook_cols (?spec ''WEBHOOK'' ''raw_webhook_events'' (RETENTION_WEBHOOK config)) now db2) = (?dry ! 2) db"
    "fst (one_shot_single match_cols (?spec ''MATCH'' ''match_keys'' (RETENTION_MATCH_KEYS config)) now db3) = (?dry ! 3) db"
    "fst (one_shot_single extract_cols (?spec ''EXTRACT'' ''extraction_candidates'' (RETENTION_EXTRACT config)) now db4) = (?dry ! 4) db"
    using w(3-5) webhook_table.single_forecast match_table.single_forecast extract_table.single_forecast
    by (simp_all add: dry_refs_def get_rows_eq f2 f3 f4)
  have "fst (one_shot_groups (one_shot_refs config now) db) = [fst (one_shot_group raw_cols vault_cols raw_blocked (raw_spec config) now db),
      fst ((case RETENTION_CLEAN config of None \<Rightarrow> (\<lambda>db. (([], []), db)) | Some w \<Rightarrow> one_shot_group clean_cols findings_cols blocks_clean (clean_spec w) now) db1),
      (?dry ! 2) db, (?dry ! 3) db, (?dry ! 4) db, fst (one_shot_held ?cap now db5)]"
    unfolding one_shot_refs_def one_shot_six fst_conv singles [symmetric] by (simp only: db1_def db2_def db3_def db4_def db5_def)
  then show ?thesis
    using raw_forecast [OF assms(2) w(1), of now] clean by (simp add: dry_refs_def same_forecast_refl held [symmetric])
qed

text \<open>C14: The dry run of a purge changes nothing and announces what the run at that instant does: the counts of calls per group, and the rows per table
  for every table but the two child tables, are those of the run.\<close>

theorem purge_dry_run:
  assumes "env_ok env" "\<not> en_dryRun env" "en_fault env = no_fault" "windows_ok config" "purge_keys db"
  shows "\<exists>dry run db'. runPurge (env\<lparr>en_dryRun := True\<rparr>) config True True db = Some (Inr dry, db) \<and> runPurge env config True True db = Some (Inr run, db')
    \<and> rp_groupCounts dry = rp_groupCounts run \<and> filter main_action (rp_actions dry) = filter main_action (rp_actions run)"
proof -
  let ?now = "en_now env" and ?dry = "env\<lparr>en_dryRun := True\<rparr>"
  let ?ds = "map (\<lambda>f. f db) (dry_refs config ?now)" and ?cs = "fst (one_shot_groups (one_shot_refs config ?now) db)"
  have "stage_outcome no_fault (\<lambda>db db'. db' = db) (reads (\<lambda>db. map (\<lambda>f. f db) (dry_refs config ?now))) db (run_groups (purge_groups ?dry config) db)"
    using dry_groups_run [of ?dry config db] by (simp add: assms(3))
  then have dry: "run_groups (purge_groups ?dry config) db = Some (Inr ?ds, db)"
    unfolding stage_outcome_def reads_def by (elim exE conjE, rename_tac r db', case_tac r) (simp_all add: no_fault_of)
  have "same_forecast (join_counts ?ds) (join_counts ?cs)" by (rule same_forecast_join [OF refs_forecast [OF assms(4,5)]])
  then show ?thesis
    using purge_run_eq [OF assms] dry
    by (auto simp: runPurge_def [of ?dry] pop_bind_def pop_return_def one_shot_purge_def same_forecast_def split: prod.splits)
qed

theorem purge_dry_run_witness:
  "let env = sample_purge_env no_fault False in
   env_ok env \<and> \<not> en_dryRun env \<and> en_fault env = no_fault \<and> windows_ok sample_purge_config \<and> purge_keys purge_db
   \<and> (\<exists>dry run db'. runPurge (env\<lparr>en_dryRun := True\<rparr>) sample_purge_config True True purge_db = Some (Inr dry, purge_db)
        \<and> runPurge env sample_purge_config True True purge_db = Some (Inr run, db')
        \<and> rp_groupCounts dry = rp_groupCounts run \<and> filter main_action (rp_actions dry) = filter main_action (rp_actions run))"
proof -
  let ?env = "sample_purge_env no_fault False"
  have env: "\<not> en_dryRun ?env" "en_fault ?env = no_fault" by (simp_all add: sample_purge_env_def)
  from purge_dry_run [OF sample_purge_ok(1) env sample_purge_ok(2,3)] env sample_purge_ok show ?thesis unfolding Let_def by blast
qed

section \<open>Orphans\<close>

context coupled_tables
begin

text \<open>What the run does to the children, with all selections read off the tables it starts from.\<close>

lemma one_shot_children:
  assumes "grace w" "sp_window spec = w"
  shows "get_rows c (snd (one_shot_group p c blocked spec now db))
    = map (\<lambda>x. hard_if c now (hard_orphans db) (hard_if c now (hard_parents db) (soft_if c now (soft_orphans db) (soft_if c now (soft_parents db) x)))) (get_rows c db)"
    (is "_ = map ?f _")
    and "\<exists>soft calls soft_calls. fst (one_shot_group p c blocked spec now db) = run_report spec soft
      (fst (hard_delete p now (hard_parents db) (snd (soft_delete c now (soft_orphans db) (snd (couple (soft_delete p now) (soft_delete c now) (soft_parents db) db))))),
        length (filter (\<lambda>x. col_key c x \<in> set (hard_parents db) \<and> col_hard c x = None) (get_rows c db))
        + length (filter (\<lambda>x. col_key c x \<in> set (hard_orphans db) \<and> col_hard c x = None) (get_rows c db))) soft_calls calls"
proof -
  let ?P = "get_rows p db" and ?C = "get_rows c db" and ?s = "soft_if p now (soft_parents db)" and ?u = "soft_if c now (soft_parents db)"
  define db1 where "db1 = snd (couple (soft_delete p now) (soft_delete c now) (soft_parents db) db)"
  define db2 where "db2 = snd (soft_delete c now (soft_orphans db1) db1)"
  define db3 where "db3 = snd (couple (hard_delete p now) (hard_delete c now) (hard_parents db2) db2)"
  note same = passes_forecast [OF assms(1) db1_def db2_def db3_def]
  let ?v = "soft_if c now (soft_orphans db)" and ?h = "hard_if p now (hard_parents db)" and ?g = "hard_if c now (hard_parents db)"
  have e1: "db1 = put_rows p (map ?s ?P) (put_rows c (map ?u ?C) db)" unfolding db1_def by (rule soft_db)
  have e2: "db2 = put_rows p (map ?s ?P) (put_rows c (map ?v (map ?u ?C)) db)" unfolding db2_def same unfolding e1 by (rule stamps)
  have e3: "db3 = put_rows p (map ?h (map ?s ?P)) (put_rows c (map ?g (map ?v (map ?u ?C))) db)" unfolding db3_def same unfolding e2 by (rule stamps)
  have run: "one_shot_group p c blocked spec now db = (run_report spec
      (fst (soft_delete p now (soft_parents db) db), snd (fst (couple (soft_delete p now) (soft_delete c now) (soft_parents db) db)) + fst (soft_delete c now (soft_orphans db1) db1))
      (fst (hard_delete p now (hard_parents db2) db2), snd (fst (couple (hard_delete p now) (hard_delete c now) (hard_parents db2) db2)) + fst (hard_delete c now (hard_orphans db3) db3))
      (length (soft_parents db) + length (soft_orphans db1)) (length (hard_parents db2) + length (hard_orphans db3)), snd (hard_delete c now (hard_orphans db3) db3))"
    unfolding one_shot_group_def Let_def assms(2)
    unfolding soft_parents_def [symmetric] db1_def [symmetric] unfolding soft_orphans_def [symmetric] db2_def [symmetric]
    unfolding hard_parents_def [symmetric] db3_def [symmetric] unfolding hard_orphans_def [symmetric] by (simp add: couple_simps)
  show "get_rows c (snd (one_shot_group p c blocked spec now db)) = map ?f ?C"
    unfolding run snd_conv same unfolding e3 unfolding stamps group_change_put by simp
  have apart: "k \<notin> set (hard_parents db)" if "k \<in> set (hard_orphans db)" for k
    using that by (auto simp: hard_orphans_def hard_parents_def distinct_keys_def parent_keys_def orphan_hard_rows_def parent_hard_rows_def sql_exists_iff)
  have n1: "snd (fst (couple (hard_delete p now) (hard_delete c now) (hard_parents db) db2))
      = length (filter (\<lambda>x. col_key c x \<in> set (hard_parents db) \<and> col_hard c x = None) ?C)"
    by (simp add: couple_simps hard_delete_def update_rows_def stamp_frame other_rows e2 child.get_put filter_map o_def child.soft_if_hard [OF assms(1)])
  have n2: "fst (hard_delete c now (hard_orphans db) db3) = length (filter (\<lambda>x. col_key c x \<in> set (hard_orphans db) \<and> col_hard c x = None) ?C)"
    using apart by (auto simp: hard_delete_def update_rows_def e3 group_change_put filter_map o_def hard_if_def child.laws child.soft_if_hard [OF assms(1)]
        intro!: arg_cong [where f = length] filter_cong)
  show "\<exists>soft calls soft_calls. fst (one_shot_group p c blocked spec now db) = run_report spec soft
      (fst (hard_delete p now (hard_parents db) (snd (soft_delete c now (soft_orphans db) (snd (couple (soft_delete p now) (soft_delete c now) (soft_parents db) db))))),
        length (filter (\<lambda>x. col_key c x \<in> set (hard_parents db) \<and> col_hard c x = None) ?C)
        + length (filter (\<lambda>x. col_key c x \<in> set (hard_orphans db) \<and> col_hard c x = None) ?C)) soft_calls calls"
    unfolding run fst_conv same n1 n2 unfolding db2_def same unfolding db1_def by blast
qed

end

text \<open>The rows of a table that a report says were scrubbed, or would be.\<close>

definition scrub_count :: "string \<Rightarrow> purge_counts \<Rightarrow> nat" where
  "scrub_count table counts = sum_list (map pa_count (filter (\<lambda>a. pa_table a = table \<and> pa_action a = Hard_delete) (fst counts)))"

lemma filter_fewer:
  assumes "x \<in> set xs" "Q x" "\<not> R x" "\<And>y. y \<in> set xs \<Longrightarrow> R y \<Longrightarrow> Q y"
  shows "length (filter R xs) < length (filter Q xs)"
proof -
  have "filter R (filter Q xs) = filter R xs" using assms(4) by (simp add: filter_filter) (metis (mono_tags, lifting) filter_cong)
  moreover have "length (filter R (filter Q xs)) < length (filter Q xs)" using assms(1-3) by (intro length_filter_less [where x = x]) auto
  ultimately show ?thesis by simp
qed

lemma orphan_due:
  assumes "z \<in> set (token_vault db)" "hard_due vault_cols w now z" "tv_call_id z \<notin> rt_call_id ` set (raw_transcripts db)" "\<not> raw_blocked db (tv_call_id z)"
  shows "tv_call_id z \<in> set (raw_held.hard_orphans w now db)"
proof -
  have "get_rows vault_cols db = token_vault db" "col_key vault_cols = tv_call_id" "get_rows raw_cols db = raw_transcripts db" "col_key raw_cols = rt_call_id"
    by (simp_all add: cols_defs)
  then have "z \<in> set (orphan_hard_rows raw_cols vault_cols w (raw_blocked db) now db)" using assms by (auto simp: orphan_hard_rows_def sql_exists_iff image_iff)
  then show ?thesis unfolding raw_held.hard_orphans_def distinct_keys_def \<open>col_key vault_cols = tv_call_id\<close> by simp
qed

lemma scrubbed_token:
  assumes "tv_call_id x \<in> set i4" "tv_hard_deleted_at x = None"
  shows "let y = hard_if vault_cols now i4 (hard_if vault_cols now i3 (soft_if vault_cols now i2 (soft_if vault_cols now i1 x))) in
    tv_call_id y = tv_call_id x \<and> tv_token y = tv_token x \<and> tv_ciphertext y = [] \<and> tv_hard_deleted_at y = Some now"
  using assms by (simp add: hard_if_def soft_if_def vault_cols_def)

lemma orphan_counts:
  assumes "grace (RETENTION_RAW config)" "z \<in> set (token_vault db)" "hard_due vault_cols (RETENTION_RAW config) now z"
    and "tv_call_id z \<notin> rt_call_id ` set (raw_transcripts db)" "\<not> raw_blocked db (tv_call_id z)"
    and "x \<in> set (token_vault db)" "tv_call_id x = tv_call_id z" "tv_hard_deleted_at x = None" "\<not> hard_due vault_cols (RETENTION_RAW config) now x"
  shows "scrub_count ''token_vault'' (dry_run_raw raw_cols vault_cols (raw_spec config) now db)
    < scrub_count ''token_vault'' (fst (one_shot_group raw_cols vault_cols raw_blocked (raw_spec config) now db))"
proof -
  let ?w = "RETENTION_RAW config"
  have w: "sp_window (raw_spec config) = ?w" by (simp add: raw_spec_def)
  have tables: "sp_parent (raw_spec config) = ''raw_transcripts''" "sp_child (raw_spec config) = ''token_vault''" by (simp_all add: raw_spec_def)
  have cols: "get_rows vault_cols db = token_vault db" "col_key vault_cols = tv_call_id" "col_hard vault_cols = tv_hard_deleted_at"
    "get_rows raw_cols db = raw_transcripts db" "col_key raw_cols = rt_call_id" by (simp_all add: cols_defs)
  let ?orphan = "\<lambda>x. \<not> sql_exists (\<lambda>r. col_key raw_cols r = col_key vault_cols x) (get_rows raw_cols db)"
  have here: "tv_call_id z \<in> set (raw_held.hard_orphans ?w now db)"
    using assms(2-5) by (rule orphan_due)
  have "length (filter (\<lambda>x. (hard_due vault_cols ?w now x \<and> ?orphan x) \<and> col_key vault_cols x \<in> set (raw_held.hard_orphans ?w now db)) (token_vault db))
      < length (filter (\<lambda>x. col_key vault_cols x \<in> set (raw_held.hard_orphans ?w now db) \<and> col_hard vault_cols x = None) (token_vault db))"
    by (rule filter_fewer [OF assms(6)]) (use here assms(7-9) in \<open>auto simp: cols hard_due_def\<close>)
  then show ?thesis using raw_held.one_shot_children(2) [OF assms(1) w, of now db]
    unfolding dry_run_raw_def Let_def survivors_eq filter_parent_keys w
    unfolding raw_held.soft_parents_def [symmetric] raw_held.hard_parents_def [symmetric] raw_held.soft_orphans_def [symmetric] raw_held.hard_orphans_def [symmetric]
    by (auto simp: scrub_count_def run_report_def dry_report_def purge_act_def tables countChildForCalls_def sql_select_def cols conj_commute)
qed

text \<open>C34: The grace of a token without a transcript is bypassed.  When one token of a call that has no raw transcript and no blocking review is due for its scrub, a
  RAW purge without faults scrubs every token of that call that is not yet scrubbed, also one that is not due itself: still in its grace, or never eligible
  or soft-deleted.  The dry run on the same tables reports fewer scrubbed tokens than the run.\<close>

theorem orphan_grace_bypassed:
  assumes "env_ok env" "\<not> en_dryRun env" "en_fault env = no_fault" "windows_ok config" "purge_keys db"
    and "z \<in> set (token_vault db)" "hard_due vault_cols (RETENTION_RAW config) (en_now env) z"
    and "tv_call_id z \<notin> rt_call_id ` set (raw_transcripts db)" "\<not> raw_blocked db (tv_call_id z)"
    and "x \<in> set (token_vault db)" "tv_call_id x = tv_call_id z" "tv_hard_deleted_at x = None" "\<not> hard_due vault_cols (RETENTION_RAW config) (en_now env) x"
  shows "\<exists>report db' dry. purgeRawGroup env raw_cols vault_cols (raw_spec config) db = Some (Inr report, db')
    \<and> purgeRawGroup (env\<lparr>en_dryRun := True\<rparr>) raw_cols vault_cols (raw_spec config) db = Some (Inr dry, db)
    \<and> (\<exists>y \<in> set (token_vault db'). tv_call_id y = tv_call_id x \<and> tv_token y = tv_token x \<and> tv_ciphertext y = [] \<and> tv_hard_deleted_at y = Some (en_now env))
    \<and> scrub_count ''token_vault'' dry < scrub_count ''token_vault'' report"
proof -
  let ?spec = "raw_spec config" and ?w = "RETENTION_RAW config" and ?now = "en_now env"
  have g: "grace ?w" using assms(4) by (simp add: windows_ok_def)
  have w: "sp_window ?spec = ?w" by (simp add: raw_spec_def)
  obtain report db' where one: "one_shot_group raw_cols vault_cols raw_blocked ?spec ?now db = (report, db')" by fastforce
  have "group_outcome no_fault raw_cols vault_cols raw_blocked ?spec ?now db (purgeRawGroup env raw_cols vault_cols ?spec db)"
    using raw_group_run [OF assms(1,2), of db ?spec] assms(3,5) by (simp add: purge_keys_def)
  then have run: "purgeRawGroup env raw_cols vault_cols ?spec db = Some (Inr report, db')"
    unfolding group_outcome_def one by (elim exE conjE, rename_tac r db', case_tac r) (simp_all add: no_fault_of)
  have dry: "purgeRawGroup (env\<lparr>en_dryRun := True\<rparr>) raw_cols vault_cols ?spec db = Some (Inr (dry_run_raw raw_cols vault_cols ?spec ?now db), db)"
    using assms(3) by (simp add: purgeRawGroup_def purge_step_def no_fault_def Let_def)
  let ?f = "\<lambda>x. hard_if vault_cols ?now (raw_held.hard_orphans ?w ?now db) (hard_if vault_cols ?now (raw_held.hard_parents ?w ?now db)
      (soft_if vault_cols ?now (raw_held.soft_orphans ?w ?now db) (soft_if vault_cols ?now (raw_held.soft_parents ?w ?now db) x)))"
  have rows: "get_rows vault_cols = token_vault" by (simp add: cols_defs)
  have "token_vault db' = map ?f (token_vault db)" using raw_held.one_shot_children(1) [OF g w, of ?now db] unfolding one rows snd_conv .
  then have "?f x \<in> set (token_vault db')" using assms(10) by simp
  moreover have "tv_call_id x \<in> set (raw_held.hard_orphans ?w ?now db)"
    unfolding assms(11) using assms(6-9) by (rule orphan_due)
  then have "tv_call_id (?f x) = tv_call_id x \<and> tv_token (?f x) = tv_token x \<and> tv_ciphertext (?f x) = [] \<and> tv_hard_deleted_at (?f x) = Some ?now"
    using scrubbed_token [OF _ assms(12)] unfolding Let_def by blast
  ultimately show ?thesis using run dry orphan_counts [OF g assms(6-13)] unfolding one fst_conv by blast
qed

definition orphan_db :: db where
  "orphan_db = empty_db\<lparr>token_vault := [sample_token ''c1'' ''t1'' (Some 0) (Some 0), sample_token ''c1'' ''t2'' None None]\<rparr>"

theorem orphan_grace_bypassed_witness:
  "let env = sample_purge_env no_fault False; config = sample_purge_config in
   \<exists>report db' dry. purgeRawGroup env raw_cols vault_cols (raw_spec config) orphan_db = Some (Inr report, db')
    \<and> purgeRawGroup (env\<lparr>en_dryRun := True\<rparr>) raw_cols vault_cols (raw_spec config) orphan_db = Some (Inr dry, orphan_db)
    \<and> (\<exists>y \<in> set (token_vault db'). tv_call_id y = ''c1'' \<and> tv_token y = ''t2'' \<and> tv_ciphertext y = [] \<and> tv_hard_deleted_at y = Some 8640000000)
    \<and> scrub_count ''token_vault'' dry < scrub_count ''token_vault'' report"
proof -
  let ?env = "sample_purge_env no_fault False" and ?z = "sample_token ''c1'' ''t1'' (Some 0) (Some 0)" and ?x = "sample_token ''c1'' ''t2'' None None"
  have env: "\<not> en_dryRun ?env" "en_fault ?env = no_fault" "en_now ?env = 8640000000" by (simp_all add: sample_purge_env_def)
  have keys: "purge_keys orphan_db" by (simp add: purge_keys_def orphan_db_def empty_db_def)
  have z: "?z \<in> set (token_vault orphan_db)" "hard_due vault_cols (RETENTION_RAW sample_purge_config) (en_now ?env) ?z"
    "tv_call_id ?z \<notin> rt_call_id ` set (raw_transcripts orphan_db)" "\<not> raw_blocked orphan_db (tv_call_id ?z)"
    by (simp_all add: orphan_db_def empty_db_def env sample_token_def hard_due_def past_grace_def cols_defs days_ms_def sample_purge_config_def Let_def raw_blocked_def
        sql_exists_def)
  have x: "?x \<in> set (token_vault orphan_db)" "tv_call_id ?x = tv_call_id ?z" "tv_hard_deleted_at ?x = None"
    "\<not> hard_due vault_cols (RETENTION_RAW sample_purge_config) (en_now ?env) ?x" "tv_call_id ?x = ''c1''" "tv_token ?x = ''t2''"
    by (simp_all add: orphan_db_def sample_token_def hard_due_def cols_defs)
  from orphan_grace_bypassed [OF sample_purge_ok(1) env(1,2) sample_purge_ok(2) keys z x(1-4)] show ?thesis unfolding Let_def x(5,6) env(3) .
qed

end
