(* ===== verification/Webhook_Payload.thy ===== *)
theory Webhook_Payload
  imports Failure_Model "HOL-Library.List_Lexorder" "HOL-Library.Char_ord"
begin

text \<open>
  What the webhook receiver reads from a delivery and what it keeps of it: \<^verbatim>\<open>src/src/dialpad/webhook/jwt.ts\<close>, \<^verbatim>\<open>hash.ts\<close> and \<^verbatim>\<open>payload.ts\<close>.
  Node's \<^verbatim>\<open>crypto\<close>, \<^verbatim>\<open>Buffer\<close>, \<^verbatim>\<open>JSON.parse\<close> and number printing are the parameters of \<open>node_lib\<close>; nothing is assumed of them.
  A JavaScript \<^verbatim>\<open>Set\<close> is the list of its elements in insertion order.
\<close>

section \<open>The platform\<close>

record node_lib =
  number_text :: "rat \<Rightarrow> string"
  base64url :: "string \<Rightarrow> string"
  json_parse :: "string \<Rightarrow> json option"
  hmac_sha256 :: "string \<Rightarrow> string \<Rightarrow> string"
  hex_digest :: "string \<Rightarrow> string"
  sha256_hex :: "string \<Rightarrow> string"

definition set_add :: "'a \<Rightarrow> 'a list \<Rightarrow> 'a list" where
  "set_add x out = (if x \<in> set out then out else out @ [x])"

fun js_split :: "char \<Rightarrow> string \<Rightarrow> string list" where
  "js_split c [] = [[]]"
| "js_split c (x # xs) = (if x = c then [] # js_split c xs else (case js_split c xs of [] \<Rightarrow> [[x]] | p # ps \<Rightarrow> (x # p) # ps))"

section \<open>The signed token\<close>

record dialpad_secrets =
  se_primary :: string
  se_previous :: "string option"

datatype secret_slot = Primary | Previous

record jwt_result =
  jr_claims :: json_object
  jr_secretSlot :: secret_slot
  jr_payloadSegment :: string

definition decodeJsonSegment :: "node_lib \<Rightarrow> string \<Rightarrow> json_object option" where
  "decodeJsonSegment lib segment = (case json_parse lib (base64url lib segment) of Some (JObj kvs) \<Rightarrow> Some kvs | _ \<Rightarrow> None)"

definition digestsEqual :: "string \<Rightarrow> string \<Rightarrow> bool" where
  "digestsEqual a b \<longleftrightarrow> length a = length b \<and> a = b"

definition jwt_candidates :: "dialpad_secrets \<Rightarrow> (secret_slot \<times> string) list" where
  "jwt_candidates secrets =
     (Primary, se_primary secrets) # (case se_previous secrets of None \<Rightarrow> [] | Some s \<Rightarrow> if s = [] then [] else [(Previous, s)])"

fun match_secret :: "node_lib \<Rightarrow> string \<Rightarrow> string \<Rightarrow> string \<Rightarrow> (secret_slot \<times> string) list \<Rightarrow> jwt_result option" where
  "match_secret lib signingInput payloadSeg providedSig [] = None"
| "match_secret lib signingInput payloadSeg providedSig ((slot, secret) # rest) =
     (if digestsEqual (hmac_sha256 lib secret signingInput) providedSig
      then (case decodeJsonSegment lib payloadSeg of
              None \<Rightarrow> None
            | Some claims \<Rightarrow> Some \<lparr>jr_claims = claims, jr_secretSlot = slot, jr_payloadSegment = payloadSeg\<rparr>)
      else match_secret lib signingInput payloadSeg providedSig rest)"

definition verifyAndDecodeDialpadJwt :: "node_lib \<Rightarrow> dialpad_secrets \<Rightarrow> string \<Rightarrow> jwt_result option" where
  "verifyAndDecodeDialpadJwt lib secrets rawBody =
     (case js_split CHR ''.'' (js_trim rawBody) of
        [headerSeg, payloadSeg, signatureSeg] \<Rightarrow>
          if headerSeg = [] \<or> payloadSeg = [] \<or> signatureSeg = [] then None
          else (case decodeJsonSegment lib headerSeg of
                  None \<Rightarrow> None
                | Some header \<Rightarrow>
                    if map_of header ''alg'' \<noteq> Some (JStr ''HS256'') then None
                    else
                      let providedSig = base64url lib signatureSeg in
                      if length providedSig = 0 then None
                      else match_secret lib (headerSeg @ ''.'' @ payloadSeg) payloadSeg providedSig (jwt_candidates secrets))
      | _ \<Rightarrow> None)"

definition hashPii :: "node_lib \<Rightarrow> string \<Rightarrow> string \<Rightarrow> string" where
  "hashPii lib secret value = hex_digest lib (hmac_sha256 lib secret (js_trim value))"

section \<open>Claims and canonical fields\<close>

text \<open>The claims the schema knows, each dropped when it has the wrong type; the other fields pass through.\<close>

record dialpad_claims =
  cl_call_id :: "json option"
  cl_event_id :: "json option"
  cl_id :: "json option"
  cl_jti :: "string option"
  cl_direction :: "string option"
  cl_state :: "string option"
  cl_duration :: "rat option"
  cl_is_internal :: "bool option"
  cl_operator_call_id :: "json option"
  cl_master_call_id :: "json option"
  cl_iat :: "rat option"
  cl_date_started :: "rat option"
  cl_date_ended :: "rat option"

definition idField :: "json \<Rightarrow> json option" where
  "idField j = (case j of JStr s \<Rightarrow> Some (JStr s) | JNum n \<Rightarrow> Some (JNum n) | _ \<Rightarrow> None)"

definition text_claim :: "json \<Rightarrow> string option" where
  "text_claim j = (case j of JStr s \<Rightarrow> Some s | _ \<Rightarrow> None)"

definition number_claim :: "json \<Rightarrow> rat option" where
  "number_claim j = (case j of JNum n \<Rightarrow> Some n | _ \<Rightarrow> None)"

definition boolean_claim :: "json \<Rightarrow> bool option" where
  "boolean_claim j = (case j of JBool b \<Rightarrow> Some b | _ \<Rightarrow> None)"

definition parseClaims :: "json_object \<Rightarrow> dialpad_claims" where
  "parseClaims claims =
     \<lparr>cl_call_id = Option.bind (map_of claims ''call_id'') idField, cl_event_id = Option.bind (map_of claims ''event_id'') idField,
          cl_id = Option.bind (map_of claims ''id'') idField, cl_jti = Option.bind (map_of claims ''jti'') text_claim,
          cl_direction = Option.bind (map_of claims ''direction'') text_claim, cl_state = Option.bind (map_of claims ''state'') text_claim,
          cl_duration = Option.bind (map_of claims ''duration'') number_claim, cl_is_internal = Option.bind (map_of claims ''is_internal'') boolean_claim,
          cl_operator_call_id = Option.bind (map_of claims ''operator_call_id'') idField,
          cl_master_call_id = Option.bind (map_of claims ''master_call_id'') idField, cl_iat = Option.bind (map_of claims ''iat'') number_claim,
          cl_date_started = Option.bind (map_of claims ''date_started'') number_claim,
          cl_date_ended = Option.bind (map_of claims ''date_ended'') number_claim\<rparr>"

text \<open>\<^verbatim>\<open>String(x)\<close> of a string or number claim.\<close>

definition scalar_text :: "node_lib \<Rightarrow> json \<Rightarrow> string" where
  "scalar_text lib j = (case j of JStr s \<Rightarrow> s | JNum n \<Rightarrow> number_text lib n | JBool b \<Rightarrow> if b then ''true'' else ''false'' | _ \<Rightarrow> [])"

definition trimmed_id :: "node_lib \<Rightarrow> json option \<Rightarrow> string option" where
  "trimmed_id lib v = (case v of None \<Rightarrow> None | Some j \<Rightarrow> (let s = js_trim (scalar_text lib j) in if s = [] then None else Some s))"

definition extractCallId :: "node_lib \<Rightarrow> dialpad_claims \<Rightarrow> string option" where
  "extractCallId lib claims = trimmed_id lib (cl_call_id claims)"

fun at_keys :: "json \<Rightarrow> string list \<Rightarrow> json option" where
  "at_keys node [] = Some node"
| "at_keys node (key # keys) = (case node of JObj kvs \<Rightarrow> Option.bind (map_of kvs key) (\<lambda>v. at_keys v keys) | _ \<Rightarrow> None)"

definition atPath :: "json \<Rightarrow> string \<Rightarrow> json option" where
  "atPath obj path = at_keys obj (js_split CHR ''.'' path)"

datatype scalar_kind = K_string | K_number | K_boolean | K_id

definition is_kind :: "scalar_kind \<Rightarrow> json \<Rightarrow> bool" where
  "is_kind kind j =
     (case j of JStr _ \<Rightarrow> kind \<in> {K_string, K_id} | JNum _ \<Rightarrow> kind \<in> {K_number, K_id} | JBool _ \<Rightarrow> kind = K_boolean | _ \<Rightarrow> False)"

fun resolveScalar :: "json \<Rightarrow> string list \<Rightarrow> scalar_kind \<Rightarrow> json option" where
  "resolveScalar obj [] kind = None"
| "resolveScalar obj (path # paths) kind =
     (case atPath obj path of Some v \<Rightarrow> if is_kind kind v then Some v else resolveScalar obj paths kind | None \<Rightarrow> resolveScalar obj paths kind)"

definition CALL_ID_PATHS :: "string list" where
  "CALL_ID_PATHS = [''call_id'', ''callId'', ''call.call_id'', ''call.callId'', ''call.id'', ''data.call_id'', ''data.callId'', ''data.id'']"

definition resolveCallId :: "node_lib \<Rightarrow> json_object \<Rightarrow> string option" where
  "resolveCallId lib claims = trimmed_id lib (resolveScalar (JObj claims) CALL_ID_PATHS K_id)"

definition DIRECTION_PATHS :: "string list" where "DIRECTION_PATHS = [''direction'', ''call.direction'', ''data.direction'']"

definition STATE_PATHS :: "string list" where "STATE_PATHS = [''state'', ''call.state'', ''data.state'']"

definition DURATION_PATHS :: "string list" where "DURATION_PATHS = [''duration'', ''call.duration'', ''data.duration'']"

definition IS_INTERNAL_PATHS :: "string list" where
  "IS_INTERNAL_PATHS = [''is_internal'', ''internal'', ''call.is_internal'', ''call.internal'', ''data.is_internal'', ''data.internal'']"

definition OPERATOR_ID_PATHS :: "string list" where
  "OPERATOR_ID_PATHS = [''operator_call_id'', ''call.operator_call_id'', ''data.operator_call_id'']"

definition MASTER_ID_PATHS :: "string list" where "MASTER_ID_PATHS = [''master_call_id'', ''call.master_call_id'', ''data.master_call_id'']"

definition DATE_STARTED_PATHS :: "string list" where "DATE_STARTED_PATHS = [''date_started'', ''call.date_started'', ''data.date_started'']"

definition DATE_ENDED_PATHS :: "string list" where "DATE_ENDED_PATHS = [''date_ended'', ''call.date_ended'', ''data.date_ended'']"

fun first_id :: "node_lib \<Rightarrow> json option list \<Rightarrow> string option" where
  "first_id lib [] = None"
| "first_id lib (c # cs) = (case trimmed_id lib c of Some s \<Rightarrow> Some s | None \<Rightarrow> first_id lib cs)"

definition replayKeyFor :: "node_lib \<Rightarrow> jwt_result \<Rightarrow> string" where
  "replayKeyFor lib result =
     (let claims = parseClaims (jr_claims result) in
      case first_id lib [map_option JStr (cl_jti claims), cl_event_id claims, cl_id claims] of
        Some s \<Rightarrow> ''id:'' @ s
      | None \<Rightarrow>
          let digest = sha256_hex lib (jr_payloadSegment result) in
          (case cl_iat claims of Some iat \<Rightarrow> ''sig:'' @ digest @ '':'' @ number_text lib iat | None \<Rightarrow> ''sig:'' @ digest))"

section \<open>The shape of a payload\<close>

definition shape_label :: "string \<Rightarrow> string \<Rightarrow> string" where
  "shape_label prefix kind = (if prefix = [] then kind else prefix @ '':'' @ kind)"

fun describePayloadShape :: "string \<Rightarrow> json \<Rightarrow> string list"
  and shape_items :: "string \<Rightarrow> json list \<Rightarrow> string list"
  and shape_entries :: "string \<Rightarrow> (string \<times> json) list \<Rightarrow> string list" where
  "describePayloadShape prefix JNull = [shape_label prefix ''null'']"
| "describePayloadShape prefix (JArr xs) = (if xs = [] then [shape_label prefix ''array(empty)''] else sort (remdups (shape_items (prefix @ ''[]'') xs)))"
| "describePayloadShape prefix (JObj kvs) = sort (remdups (shape_entries prefix kvs))"
| "describePayloadShape prefix (JStr s) = [shape_label prefix ''string'']"
| "describePayloadShape prefix (JNum n) = [shape_label prefix ''number'']"
| "describePayloadShape prefix (JBool b) = [shape_label prefix ''boolean'']"
| "shape_items prefix [] = []"
| "shape_items prefix (x # xs) = describePayloadShape prefix x @ shape_items prefix xs"
| "shape_entries prefix [] = []"
| "shape_entries prefix ((k, v) # kvs) =
     describePayloadShape (if prefix = [] then k else prefix @ ''.'' @ k) v @ shape_entries prefix kvs"

section \<open>Identity data\<close>

definition PHONE_FIELDS :: "string list" where
  "PHONE_FIELDS = [''phone'', ''phone_number'', ''external_number'', ''internal_number'', ''from_number'', ''to_number'', ''caller_number'',
     ''callee_number'', ''contact_phone'', ''number'']"

definition NAME_FIELDS :: "string list" where
  "NAME_FIELDS = [''name'', ''contact_name'', ''display_name'', ''first_name'', ''last_name'', ''customer_name'']"

definition EMAIL_FIELDS :: "string list" where
  "EMAIL_FIELDS = [''email'', ''email_address'', ''contact_email'', ''customer_email'']"

definition MIN_PHONE_DIGITS :: nat where "MIN_PHONE_DIGITS = 7"

definition js_digit :: "char \<Rightarrow> bool" where
  "js_digit c \<longleftrightarrow> c \<in> set ''0123456789''"

definition normalizePhone :: "string \<Rightarrow> string option" where
  "normalizePhone value =
     (let trimmed = js_trim value; digits = filter js_digit trimmed in
      if length digits < MIN_PHONE_DIGITS then None
      else Some (if take 1 trimmed = ''+'' then ''+'' @ digits else digits))"

text \<open>\<^verbatim>\<open>replace(/\s+/g, ' ')\<close>.\<close>

fun collapse_spaces :: "bool \<Rightarrow> string \<Rightarrow> string" where
  "collapse_spaces inside [] = []"
| "collapse_spaces inside (c # cs) =
     (if js_space c then (if inside then collapse_spaces True cs else CHR '' '' # collapse_spaces True cs) else c # collapse_spaces False cs)"

definition normalizeName :: "string \<Rightarrow> string option" where
  "normalizeName value = (let name = toLowerCase (collapse_spaces False (js_trim value)) in if name = [] then None else Some name)"

definition normalizeEmail :: "string \<Rightarrow> string option" where
  "normalizeEmail value =
     (let email = toLowerCase (js_trim value) in if length email \<ge> 3 \<and> CHR ''@'' \<in> set email then Some email else None)"

fun canonical_values :: "(string \<Rightarrow> string option) \<Rightarrow> string list \<Rightarrow> string list \<Rightarrow> string list" where
  "canonical_values canon [] out = out"
| "canonical_values canon (v # vs) out =
     canonical_values canon vs (case canon v of Some n \<Rightarrow> set_add n out | None \<Rightarrow> out)"

definition normalizedHmacs :: "string list \<Rightarrow> (string \<Rightarrow> string option) \<Rightarrow> (string \<Rightarrow> string) \<Rightarrow> string list" where
  "normalizedHmacs values canon hashOne = map hashOne (canonical_values canon values [])"

fun collectLeaves :: "node_lib \<Rightarrow> json \<Rightarrow> string list \<Rightarrow> string list"
  and collect_items :: "node_lib \<Rightarrow> json list \<Rightarrow> string list \<Rightarrow> string list"
  and collect_values :: "node_lib \<Rightarrow> (string \<times> json) list \<Rightarrow> string list \<Rightarrow> string list" where
  "collectLeaves lib (JStr s) out = (let t = js_trim s in if t = [] then out else set_add t out)"
| "collectLeaves lib (JNum n) out = (let t = js_trim (number_text lib n) in if t = [] then out else set_add t out)"
| "collectLeaves lib (JArr xs) out = collect_items lib xs out"
| "collectLeaves lib (JObj kvs) out = collect_values lib kvs out"
| "collectLeaves lib JNull out = out"
| "collectLeaves lib (JBool b) out = out"
| "collect_items lib [] out = out"
| "collect_items lib (x # xs) out = collect_items lib xs (collectLeaves lib x out)"
| "collect_values lib [] out = out"
| "collect_values lib ((k, v) # kvs) out = collect_values lib kvs (collectLeaves lib v out)"

record pii_sets =
  pii_phones :: "string list"
  pii_names :: "string list"
  pii_emails :: "string list"

fun pii_walk :: "node_lib \<Rightarrow> json \<Rightarrow> pii_sets \<Rightarrow> pii_sets"
  and pii_walk_items :: "node_lib \<Rightarrow> json list \<Rightarrow> pii_sets \<Rightarrow> pii_sets"
  and pii_walk_entries :: "node_lib \<Rightarrow> (string \<times> json) list \<Rightarrow> pii_sets \<Rightarrow> pii_sets" where
  "pii_walk lib (JArr xs) p = pii_walk_items lib xs p"
| "pii_walk lib (JObj kvs) p = pii_walk_entries lib kvs p"
| "pii_walk lib JNull p = p"
| "pii_walk lib (JStr s) p = p"
| "pii_walk lib (JNum n) p = p"
| "pii_walk lib (JBool b) p = p"
| "pii_walk_items lib [] p = p"
| "pii_walk_items lib (x # xs) p = pii_walk_items lib xs (pii_walk lib x p)"
| "pii_walk_entries lib [] p = p"
| "pii_walk_entries lib ((k, v) # kvs) p =
     pii_walk_entries lib kvs
       (let lower = toLowerCase k in
        if lower \<in> set PHONE_FIELDS then p\<lparr>pii_phones := collectLeaves lib v (pii_phones p)\<rparr>
        else if lower \<in> set NAME_FIELDS then p\<lparr>pii_names := collectLeaves lib v (pii_names p)\<rparr>
        else if lower \<in> set EMAIL_FIELDS then p\<lparr>pii_emails := collectLeaves lib v (pii_emails p)\<rparr>
        else pii_walk lib v p)"

definition collectPii :: "node_lib \<Rightarrow> json \<Rightarrow> pii_sets" where
  "collectPii lib v = pii_walk lib v \<lparr>pii_phones = [], pii_names = [], pii_emails = []\<rparr>"

section \<open>What is kept\<close>

definition opt_entry :: "string \<Rightarrow> json option \<Rightarrow> json_object" where
  "opt_entry key v = (case v of Some j \<Rightarrow> [(key, j)] | None \<Rightarrow> [])"

definition nonPiiMetadata :: "node_lib \<Rightarrow> json_object \<Rightarrow> json_object" where
  "nonPiiMetadata lib claims =
     (let obj = JObj claims; text = (\<lambda>v. map_option (\<lambda>j. JStr (scalar_text lib j)) v)
      in opt_entry ''direction'' (resolveScalar obj DIRECTION_PATHS K_string)
         @ opt_entry ''state'' (resolveScalar obj STATE_PATHS K_string)
         @ opt_entry ''duration'' (resolveScalar obj DURATION_PATHS K_number)
         @ opt_entry ''is_internal'' (resolveScalar obj IS_INTERNAL_PATHS K_boolean)
         @ opt_entry ''operator_call_id'' (text (resolveScalar obj OPERATOR_ID_PATHS K_id))
         @ opt_entry ''master_call_id'' (text (resolveScalar obj MASTER_ID_PATHS K_id))
         @ opt_entry ''date_started'' (resolveScalar obj DATE_STARTED_PATHS K_number)
         @ opt_entry ''date_ended'' (resolveScalar obj DATE_ENDED_PATHS K_number))"

definition toCallStateMetadata :: "node_lib \<Rightarrow> json_object \<Rightarrow> json_object" where
  "toCallStateMetadata lib claims = nonPiiMetadata lib claims"

definition hmac_entry :: "string \<Rightarrow> string list \<Rightarrow> json_object" where
  "hmac_entry key hmacs = (if length hmacs > 0 then [(key, JArr (map JStr hmacs))] else [])"

definition toAuditPayload :: "node_lib \<Rightarrow> jwt_result \<Rightarrow> (string \<Rightarrow> string) \<Rightarrow> json_object" where
  "toAuditPayload lib result hashOne =
     (let claims = parseClaims (jr_claims result); pii = collectPii lib (JObj (jr_claims result))
      in [(''event_id'', JStr (replayKeyFor lib result))]
         @ nonPiiMetadata lib (jr_claims result)
         @ opt_entry ''call_id'' (map_option JStr (resolveCallId lib (jr_claims result)))
         @ opt_entry ''iat'' (map_option JNum (cl_iat claims))
         @ hmac_entry ''phone_hmac'' (normalizedHmacs (pii_phones pii) normalizePhone hashOne)
         @ hmac_entry ''name_hmac'' (normalizedHmacs (pii_names pii) normalizeName hashOne)
         @ hmac_entry ''email_hmac'' (normalizedHmacs (pii_emails pii) normalizeEmail hashOne))"

end
