(* ===== verification/Webhook_Receiver.thy ===== *)
theory Webhook_Receiver
  imports Webhook_Payload Call_State_Repo Pipeline_Queue Runner
begin

text \<open>
  The webhook receiver: the stores of \<^verbatim>\<open>src/src/http/stores/\<close>, the chain of \<^verbatim>\<open>src/src/http/webhook/register.ts\<close>, the Dialpad route and sink of
  \<^verbatim>\<open>src/src/dialpad/webhook/\<close>, \<^verbatim>\<open>raw-webhook-events-repo.ts\<close>, and the mapping of failures to responses of \<^verbatim>\<open>src/src/http/errors.ts\<close>.
  A request reads the clock five times (\<open>rq_clock\<close>); Postgres, Redis and the queue may refuse at each of their calls (\<open>rq_faults\<close>).
\<close>

section \<open>Stores\<close>

text \<open>An entry with the instant it expires.  Redis drops an expired key by itself; the in-memory store keeps it and looks at the clock.\<close>

record replay_entry =
  re_committed :: bool
  re_expiresAt :: int

record rate_entry =
  ra_count :: nat
  ra_expiresAt :: int

type_synonym 'e keyspace = "string \<rightharpoonup> 'e"

definition redis_get :: "('e \<Rightarrow> int) \<Rightarrow> int \<Rightarrow> string \<Rightarrow> 'e keyspace \<Rightarrow> 'e option" where
  "redis_get expiresAt now key r = (case r key of Some e \<Rightarrow> if now < expiresAt e then Some e else None | None \<Rightarrow> None)"

record 's replay_store =
  st_reserve :: "int \<Rightarrow> string \<Rightarrow> int \<Rightarrow> 's \<Rightarrow> bool \<times> 's"
  st_commit :: "int \<Rightarrow> string \<Rightarrow> int \<Rightarrow> 's \<Rightarrow> 's"
  st_release :: "int \<Rightarrow> string \<Rightarrow> 's \<Rightarrow> 's"

definition RedisReplayStore :: "replay_entry keyspace replay_store" where
  "RedisReplayStore =
     \<lparr>st_reserve = (\<lambda>now key windowMs r.
        case redis_get re_expiresAt now (''replay:'' @ key) r of
          Some _ \<Rightarrow> (False, r)
        | None \<Rightarrow> (True, r(''replay:'' @ key \<mapsto> \<lparr>re_committed = False, re_expiresAt = now + windowMs\<rparr>))),
      st_commit = (\<lambda>now key windowMs r. r(''replay:'' @ key \<mapsto> \<lparr>re_committed = True, re_expiresAt = now + windowMs\<rparr>)),
      st_release = (\<lambda>now key r.
        case redis_get re_expiresAt now (''replay:'' @ key) r of
          Some e \<Rightarrow> if re_committed e then r else r(''replay:'' @ key := None)
        | None \<Rightarrow> r)\<rparr>"

definition MemoryReplayStore :: "replay_entry keyspace replay_store" where
  "MemoryReplayStore =
     \<lparr>st_reserve = (\<lambda>now key windowMs m.
        case m key of
          Some e \<Rightarrow> if re_expiresAt e > now then (False, m) else (True, m(key \<mapsto> \<lparr>re_committed = False, re_expiresAt = now + windowMs\<rparr>))
        | None \<Rightarrow> (True, m(key \<mapsto> \<lparr>re_committed = False, re_expiresAt = now + windowMs\<rparr>))),
      st_commit = (\<lambda>now key windowMs m. m(key \<mapsto> \<lparr>re_committed = True, re_expiresAt = now + windowMs\<rparr>)),
      st_release = (\<lambda>now key m. case m key of Some e \<Rightarrow> if re_committed e then m else m(key := None) | None \<Rightarrow> m)\<rparr>"

type_synonym 'q rate_store = "int \<Rightarrow> string \<Rightarrow> int \<Rightarrow> 'q \<Rightarrow> nat \<times> 'q"

definition RedisRateStore :: "rate_entry keyspace rate_store" where
  "RedisRateStore now key windowMs r =
     (case redis_get ra_expiresAt now (''rl:'' @ key) r of
        Some e \<Rightarrow> (ra_count e + 1, r(''rl:'' @ key \<mapsto> e\<lparr>ra_count := ra_count e + 1\<rparr>))
      | None \<Rightarrow> (1, r(''rl:'' @ key \<mapsto> \<lparr>ra_count = 1, ra_expiresAt = now + windowMs\<rparr>)))"

definition MemoryRateStore :: "rate_entry keyspace rate_store" where
  "MemoryRateStore now key windowMs m =
     (case m key of
        Some e \<Rightarrow>
          if ra_expiresAt e \<le> now then (1, m(key \<mapsto> \<lparr>ra_count = 1, ra_expiresAt = now + windowMs\<rparr>))
          else (ra_count e + 1, m(key \<mapsto> e\<lparr>ra_count := ra_count e + 1\<rparr>))
      | None \<Rightarrow> (1, m(key \<mapsto> \<lparr>ra_count = 1, ra_expiresAt = now + windowMs\<rparr>)))"

section \<open>The chain\<close>

datatype request_fault = F_rate | F_reserve | F_seed | F_audit | F_enqueue | F_commit | F_release

record webhook_request =
  rq_ip :: string
  rq_rawBody :: string
  rq_clock :: "nat \<Rightarrow> int"
  rq_faults :: "request_fault set"

record ('s, 'q) webhook_world =
  ww_db :: db
  ww_replay :: 's
  ww_rate :: 'q

text \<open>A thrown value: a \<^verbatim>\<open>FailureError\<close> with its code, or any other error.\<close>

datatype thrown = Failure_thrown error_code | Other_thrown

record ('s, 'q) webhook_deps =
  wd_replayStore :: "'s replay_store"
  wd_rateStore :: "'q rate_store"
  wd_replayWindowMs :: int
  wd_timestampSkewMs :: int
  wd_rateMax :: nat
  wd_rateWindowMs :: int

record route_options =
  ro_provider :: string
  ro_verifySignature :: "string \<Rightarrow> bool"
  ro_extractEventId :: "string \<Rightarrow> string option"
  ro_extractTimestamp :: "(string \<Rightarrow> rat option) option"
  ro_handler :: "webhook_request \<Rightarrow> db \<Rightarrow> (thrown + unit) \<times> db"

text \<open>A timestamp that is not a finite number is \<open>None\<close>.\<close>

definition isTimestampFresh :: "rat option \<Rightarrow> int \<Rightarrow> int \<Rightarrow> bool" where
  "isTimestampFresh timestampMs nowMs skewMs = (case timestampMs of None \<Rightarrow> False | Some t \<Rightarrow> \<bar>of_int nowMs - t\<bar> \<le> of_int skewMs)"

definition webhookRateLimiter ::
    "('s, 'q) webhook_deps \<Rightarrow> string \<Rightarrow> webhook_request \<Rightarrow> ('s, 'q) webhook_world \<Rightarrow> (thrown + unit) \<times> ('s, 'q) webhook_world" where
  "webhookRateLimiter deps provider req w =
     (if F_rate \<in> rq_faults req then (Inl Other_thrown, w)
      else case wd_rateStore deps (rq_clock req 0) (''webhook:'' @ provider @ '':'' @ rq_ip req) (wd_rateWindowMs deps) (ww_rate w) of
             (count, q) \<Rightarrow> (if count > wd_rateMax deps then Inl (Failure_thrown RATE_LIMIT_EXCEEDED) else Inr (), w\<lparr>ww_rate := q\<rparr>))"

definition freshness_gate :: "('s, 'q) webhook_deps \<Rightarrow> route_options \<Rightarrow> webhook_request \<Rightarrow> bool" where
  "freshness_gate deps opts req =
     (case ro_extractTimestamp opts of
        None \<Rightarrow> True | Some f \<Rightarrow> isTimestampFresh (f (rq_rawBody req)) (rq_clock req 1) (wd_timestampSkewMs deps))"

definition reserved_handler ::
    "('s, 'q) webhook_deps \<Rightarrow> route_options \<Rightarrow> string \<Rightarrow> webhook_request \<Rightarrow> ('s, 'q) webhook_world \<Rightarrow> (thrown + unit) \<times> ('s, 'q) webhook_world" where
  "reserved_handler deps opts key req w =
     (case ro_handler opts req (ww_db w) of
        (Inr _, db') \<Rightarrow>
          if F_commit \<in> rq_faults req then (Inl Other_thrown, w\<lparr>ww_db := db'\<rparr>)
          else (Inr (), w\<lparr>ww_db := db', ww_replay := st_commit (wd_replayStore deps) (rq_clock req 4) key (wd_replayWindowMs deps) (ww_replay w)\<rparr>)
      | (Inl e, db') \<Rightarrow>
          if F_release \<in> rq_faults req then (Inl Other_thrown, w\<lparr>ww_db := db'\<rparr>)
          else (Inl e, w\<lparr>ww_db := db', ww_replay := st_release (wd_replayStore deps) (rq_clock req 4) key (ww_replay w)\<rparr>))"

definition registerWebhook ::
    "('s, 'q) webhook_deps \<Rightarrow> route_options \<Rightarrow> webhook_request \<Rightarrow> ('s, 'q) webhook_world \<Rightarrow> (thrown + unit) \<times> ('s, 'q) webhook_world" where
  "registerWebhook deps opts req w =
     (case webhookRateLimiter deps (ro_provider opts) req w of
        (Inl e, w1) \<Rightarrow> (Inl e, w1)
      | (Inr _, w1) \<Rightarrow>
          if \<not> ro_verifySignature opts (rq_rawBody req) then (Inl (Failure_thrown WEBHOOK_SIGNATURE_INVALID), w1)
          else if \<not> freshness_gate deps opts req then (Inl (Failure_thrown WEBHOOK_TIMESTAMP_INVALID), w1)
          else (case ro_extractEventId opts (rq_rawBody req) of
                  None \<Rightarrow> (Inl (Failure_thrown REQUEST_MALFORMED), w1)
                | Some eventId \<Rightarrow>
                    if eventId = [] then (Inl (Failure_thrown REQUEST_MALFORMED), w1)
                    else if F_reserve \<in> rq_faults req then (Inl Other_thrown, w1)
                    else
                      let key = ro_provider opts @ '':'' @ eventId in
                      (case st_reserve (wd_replayStore deps) (rq_clock req 2) key (wd_replayWindowMs deps) (ww_replay w1) of
                         (False, s) \<Rightarrow> (Inl (Failure_thrown WEBHOOK_REPLAY_DETECTED), w1\<lparr>ww_replay := s\<rparr>)
                       | (True, s) \<Rightarrow> reserved_handler deps opts key req (w1\<lparr>ww_replay := s\<rparr>))))"

section \<open>The Dialpad route and its sink\<close>

definition DIALPAD_WEBHOOK_SOURCE :: string where "DIALPAD_WEBHOOK_SOURCE = ''dialpad-webhook''"

definition PROVIDER :: string where "PROVIDER = ''dialpad''"

record ingest_event =
  ie_callId :: string
  ie_sourceMetadata :: json_object
  ie_auditPayload :: json_object
  ie_receivedAt :: int
  ie_retentionEligibleAt :: int

record webhook_insert =
  wi_source :: string
  wi_payload :: "json option"
  wi_signatureStatus :: signature_status
  wi_receivedAt :: "int option"
  wi_retentionEligibleAt :: "int option"

definition insertWebhookEvent :: "pg \<Rightarrow> webhook_insert \<Rightarrow> raw_webhook_event_row dbop" where
  "insertWebhookEvent pg v db =
     (if wi_source v = [] then (Inl (DalError DAL_VALIDATION_FAILED), db)
      else
        let row = \<lparr>wh_id = next_uuid db, wh_received_at = (case wi_receivedAt v of Some t \<Rightarrow> t | None \<Rightarrow> pg_now pg), wh_source = wi_source v,
                   wh_payload = (case toJsonParam (wi_payload v) of Some j \<Rightarrow> j | None \<Rightarrow> JObj []),
                   wh_signature_status = wi_signatureStatus v,
                   wh_retention_eligible_at = Some (case wi_retentionEligibleAt v of Some t \<Rightarrow> t | None \<Rightarrow> pg_now pg),
                   wh_soft_deleted_at = None, wh_hard_deleted_at = None\<rparr>
        in (Inr row, db\<lparr>next_uuid := Suc (next_uuid db), raw_webhook_events := raw_webhook_events db @ [row]\<rparr>))"

definition getWebhookEvent :: "uuid \<Rightarrow> db \<Rightarrow> raw_webhook_event_row option" where
  "getWebhookEvent i db =
     first_row (sql_select (\<lambda>r. wh_id r = i \<and> wh_soft_deleted_at r = None \<and> wh_hard_deleted_at r = None) (raw_webhook_events db))"

definition webhook_seed :: "ingest_event \<Rightarrow> call_state_insert" where
  "webhook_seed event =
     \<lparr>ci_callId = ie_callId event, ci_source = DIALPAD_WEBHOOK_SOURCE, ci_sourceMetadata = Some (JObj (ie_sourceMetadata event)),
      ci_currentStage = pipeline_stage_name (PIPELINE_STAGES ! 0), ci_status = STATUS_PROCESSING\<rparr>"

definition webhook_audit :: "ingest_event \<Rightarrow> webhook_insert" where
  "webhook_audit event =
     \<lparr>wi_source = DIALPAD_WEBHOOK_SOURCE, wi_payload = Some (JObj (ie_auditPayload event)), wi_signatureStatus = SG_valid,
      wi_receivedAt = Some (ie_receivedAt event), wi_retentionEligibleAt = Some (ie_retentionEligibleAt event)\<rparr>"

definition sink_ingest :: "pg \<Rightarrow> (string \<Rightarrow> string) \<Rightarrow> request_fault set \<Rightarrow> ingest_event \<Rightarrow> db \<Rightarrow> (thrown + unit) \<times> db" where
  "sink_ingest pg digest faults event db =
     (if F_seed \<in> faults then (Inl Other_thrown, db)
      else case seedCallStateIfAbsent pg (webhook_seed event) db of
             (Inl _, db1) \<Rightarrow> (Inl Other_thrown, db1)
           | (Inr _, db1) \<Rightarrow>
               if F_audit \<in> faults then (Inl Other_thrown, db1)
               else case insertWebhookEvent pg (webhook_audit event) db1 of
                      (Inl _, db2) \<Rightarrow> (Inl Other_thrown, db2)
                    | (Inr _, db2) \<Rightarrow>
                        if F_enqueue \<in> faults then (Inl Other_thrown, db2) else (Inr (), enqueueCall digest (ie_callId event) db2))"

record webhook_config =
  DIALPAD_WEBHOOK_SECRET :: "string option"
  DIALPAD_WEBHOOK_SECRET_PREVIOUS :: "string option"
  DIALPAD_PII_HASH_SECRET :: "string option"
  DIALPAD_WEBHOOK_TIMESTAMP_REQUIRED :: bool

definition requireWebhookSecret :: "string option \<Rightarrow> string option" where
  "requireWebhookSecret value = (case value of Some s \<Rightarrow> if s = [] then None else Some s | None \<Rightarrow> None)"

definition extract_timestamp :: "node_lib \<Rightarrow> dialpad_secrets \<Rightarrow> string \<Rightarrow> rat option" where
  "extract_timestamp lib secrets rawBody =
     Option.bind (verifyAndDecodeDialpadJwt lib secrets rawBody) (\<lambda>result. map_option (\<lambda>iat. iat * 1000) (cl_iat (parseClaims (jr_claims result))))"

definition dialpad_event :: "node_lib \<Rightarrow> string \<Rightarrow> jwt_result \<Rightarrow> string \<Rightarrow> int \<Rightarrow> ingest_event" where
  "dialpad_event lib hashSecret result callId now =
     \<lparr>ie_callId = callId, ie_sourceMetadata = toCallStateMetadata lib (jr_claims result), ie_auditPayload = toAuditPayload lib result (hashPii lib hashSecret),
      ie_receivedAt = now, ie_retentionEligibleAt = now\<rparr>"

definition dialpad_handler ::
    "node_lib \<Rightarrow> pg \<Rightarrow> (string \<Rightarrow> string) \<Rightarrow> dialpad_secrets \<Rightarrow> string \<Rightarrow> webhook_request \<Rightarrow> db \<Rightarrow> (thrown + unit) \<times> db" where
  "dialpad_handler lib pg digest secrets hashSecret req db =
     (case verifyAndDecodeDialpadJwt lib secrets (rq_rawBody req) of
        None \<Rightarrow> (Inl (Failure_thrown REQUEST_MALFORMED), db)
      | Some result \<Rightarrow>
          (case resolveCallId lib (jr_claims result) of
             None \<Rightarrow> (Inl (Failure_thrown REQUEST_MALFORMED), db)
           | Some callId \<Rightarrow> sink_ingest pg digest (rq_faults req) (dialpad_event lib hashSecret result callId (rq_clock req 3)) db))"

text \<open>Registration: \<open>None\<close> when a required secret is absent (\<^verbatim>\<open>CONFIG_MISSING_OR_INVALID\<close>).\<close>

definition registerDialpadWebhook :: "node_lib \<Rightarrow> pg \<Rightarrow> (string \<Rightarrow> string) \<Rightarrow> webhook_config \<Rightarrow> route_options option" where
  "registerDialpadWebhook lib pg digest config =
     Option.bind (requireWebhookSecret (DIALPAD_WEBHOOK_SECRET config)) (\<lambda>primary.
     Option.bind (requireWebhookSecret (DIALPAD_PII_HASH_SECRET config)) (\<lambda>hashSecret.
       let secrets = \<lparr>se_primary = primary, se_previous = requireWebhookSecret (DIALPAD_WEBHOOK_SECRET_PREVIOUS config)\<rparr>
       in Some \<lparr>ro_provider = PROVIDER,
            ro_verifySignature = (\<lambda>rawBody. verifyAndDecodeDialpadJwt lib secrets rawBody \<noteq> None),
            ro_extractEventId = (\<lambda>rawBody. map_option (replayKeyFor lib) (verifyAndDecodeDialpadJwt lib secrets rawBody)),
            ro_extractTimestamp = (if DIALPAD_WEBHOOK_TIMESTAMP_REQUIRED config then Some (extract_timestamp lib secrets) else None),
            ro_handler = dialpad_handler lib pg digest secrets hashSecret\<rparr>))"

section \<open>Responses\<close>

fun HTTP_STATUS_BY_CODE :: "error_code \<Rightarrow> nat option" where
  "HTTP_STATUS_BY_CODE REQUEST_BODY_TOO_LARGE = Some 413"
| "HTTP_STATUS_BY_CODE REQUEST_MALFORMED = Some 400"
| "HTTP_STATUS_BY_CODE UNSUPPORTED_MEDIA_TYPE = Some 415"
| "HTTP_STATUS_BY_CODE RATE_LIMIT_EXCEEDED = Some 429"
| "HTTP_STATUS_BY_CODE AUTH_REQUIRED = Some 401"
| "HTTP_STATUS_BY_CODE AUTH_FORBIDDEN = Some 403"
| "HTTP_STATUS_BY_CODE CSRF_TOKEN_INVALID = Some 403"
| "HTTP_STATUS_BY_CODE WEBHOOK_SIGNATURE_INVALID = Some 401"
| "HTTP_STATUS_BY_CODE WEBHOOK_TIMESTAMP_INVALID = Some 400"
| "HTTP_STATUS_BY_CODE WEBHOOK_REPLAY_DETECTED = Some 409"
| "HTTP_STATUS_BY_CODE INTERNAL_ERROR = Some 500"
| "HTTP_STATUS_BY_CODE _ = None"

fun PUBLIC_MESSAGE_BY_CODE :: "error_code \<Rightarrow> string option" where
  "PUBLIC_MESSAGE_BY_CODE REQUEST_BODY_TOO_LARGE = Some ''Request body too large.''"
| "PUBLIC_MESSAGE_BY_CODE REQUEST_MALFORMED = Some ''Malformed request body.''"
| "PUBLIC_MESSAGE_BY_CODE UNSUPPORTED_MEDIA_TYPE = Some ''Unsupported content type.''"
| "PUBLIC_MESSAGE_BY_CODE RATE_LIMIT_EXCEEDED = Some ''Too many requests.''"
| "PUBLIC_MESSAGE_BY_CODE AUTH_REQUIRED = Some ''Authentication required.''"
| "PUBLIC_MESSAGE_BY_CODE AUTH_FORBIDDEN = Some ''Forbidden.''"
| "PUBLIC_MESSAGE_BY_CODE CSRF_TOKEN_INVALID = Some ''Invalid or missing CSRF token.''"
| "PUBLIC_MESSAGE_BY_CODE WEBHOOK_SIGNATURE_INVALID = Some ''Invalid signature.''"
| "PUBLIC_MESSAGE_BY_CODE WEBHOOK_TIMESTAMP_INVALID = Some ''Invalid or stale timestamp.''"
| "PUBLIC_MESSAGE_BY_CODE WEBHOOK_REPLAY_DETECTED = Some ''Duplicate event.''"
| "PUBLIC_MESSAGE_BY_CODE INTERNAL_ERROR = Some ''Internal server error.''"
| "PUBLIC_MESSAGE_BY_CODE _ = None"

definition httpStatusFor :: "error_code \<Rightarrow> nat" where
  "httpStatusFor code = (case HTTP_STATUS_BY_CODE code of Some s \<Rightarrow> s | None \<Rightarrow> 500)"

definition toHttpError :: "error_code \<Rightarrow> nat \<times> string \<times> string" where
  "toHttpError code =
     (httpStatusFor code, error_code_name code, case PUBLIC_MESSAGE_BY_CODE code of Some m \<Rightarrow> m | None \<Rightarrow> ''Request failed.'')"

text \<open>The errors that the chain throws by itself; a framework error does not reach it.\<close>

definition classify :: "thrown \<Rightarrow> error_code" where
  "classify e = (case e of Failure_thrown code \<Rightarrow> code | Other_thrown \<Rightarrow> INTERNAL_ERROR)"

definition respond :: "(thrown + unit) \<Rightarrow> nat \<times> string \<times> string" where
  "respond r = (case r of Inr _ \<Rightarrow> (200, [], []) | Inl e \<Rightarrow> toHttpError (classify e))"

end
