(* ===== verification/Webhook_Correct.thy ===== *)
theory Webhook_Correct
  imports Webhook_Receiver Samples
begin

text \<open>
  What the webhook receiver guarantees.  The replay stores are interpretations of the locale \<open>replay_laws\<close>, in which the chain is analysed once:
  a delivery whose handler ran keeps its key until the window is over.  The payload functions are characterised by what is under which label.
\<close>

section \<open>Minimisation\<close>

lemma set_set_add [simp]: "set (set_add x out) = insert x (set out)"
  by (auto simp: set_add_def)

lemma set_canonical_values: "set (canonical_values canon vs out) = set out \<union> {n. \<exists>v \<in> set vs. canon v = Some n}"
  by (induction canon vs out rule: canonical_values.induct) (auto split: option.splits)

lemma set_normalizedHmacs: "set (normalizedHmacs vs canon hashOne) = {hashOne n |n. \<exists>v \<in> set vs. canon v = Some n}"
  by (auto simp: normalizedHmacs_def set_canonical_values)

text \<open>The trimmed texts of the strings and numbers in a value, and the values under a key of a family, wherever they are in the payload.\<close>

fun leaf_texts :: "node_lib \<Rightarrow> json \<Rightarrow> string set" where
  "leaf_texts lib (JStr s) = {js_trim s} - {[]}"
| "leaf_texts lib (JNum n) = {js_trim (number_text lib n)} - {[]}"
| "leaf_texts lib (JArr xs) = (\<Union>x \<in> set xs. leaf_texts lib x)"
| "leaf_texts lib (JObj kvs) = (\<Union>kv \<in> set kvs. leaf_texts lib (snd kv))"
| "leaf_texts lib JNull = {}"
| "leaf_texts lib (JBool b) = {}"

definition PII_FIELDS :: "string list" where
  "PII_FIELDS = PHONE_FIELDS @ NAME_FIELDS @ EMAIL_FIELDS"

fun labelled :: "string list \<Rightarrow> json \<Rightarrow> json set" where
  "labelled F (JArr xs) = (\<Union>x \<in> set xs. labelled F x)"
| "labelled F (JObj kvs) =
     (\<Union>kv \<in> set kvs. if toLowerCase (fst kv) \<in> set F then {snd kv} else if toLowerCase (fst kv) \<in> set PII_FIELDS then {} else labelled F (snd kv))"
| "labelled F (JStr s) = {}"
| "labelled F (JNum n) = {}"
| "labelled F JNull = {}"
| "labelled F (JBool b) = {}"

definition labelled_texts :: "node_lib \<Rightarrow> string list \<Rightarrow> json \<Rightarrow> string set" where
  "labelled_texts lib F j = (\<Union>v \<in> labelled F j. leaf_texts lib v)"

lemma set_collectLeaves:
  "set (collectLeaves lib j out) = set out \<union> leaf_texts lib j"
  "set (collect_items lib xs out) = set out \<union> (\<Union>x \<in> set xs. leaf_texts lib x)"
  "set (collect_values lib kvs out) = set out \<union> (\<Union>kv \<in> set kvs. leaf_texts lib (snd kv))"
  by (induction lib j out and lib xs out and lib kvs out rule: collectLeaves_collect_items_collect_values.induct) (auto simp: Let_def)

lemma fields_disjoint:
  "set PHONE_FIELDS \<inter> set NAME_FIELDS = {}" "set PHONE_FIELDS \<inter> set EMAIL_FIELDS = {}" "set NAME_FIELDS \<inter> set EMAIL_FIELDS = {}"
  by (simp_all add: PHONE_FIELDS_def NAME_FIELDS_def EMAIL_FIELDS_def)

definition pii_of :: "pii_sets \<Rightarrow> string set \<times> string set \<times> string set" where
  "pii_of p = (set (pii_phones p), set (pii_names p), set (pii_emails p))"

definition pii_join :: "string set \<times> string set \<times> string set \<Rightarrow> string set \<times> string set \<times> string set \<Rightarrow> string set \<times> string set \<times> string set" where
  "pii_join p q = (case p of (a, b, c) \<Rightarrow> case q of (a', b', c') \<Rightarrow> (a \<union> a', b \<union> b', c \<union> c'))"

definition pii_labels :: "node_lib \<Rightarrow> json \<Rightarrow> string set \<times> string set \<times> string set" where
  "pii_labels lib j = (labelled_texts lib PHONE_FIELDS j, labelled_texts lib NAME_FIELDS j, labelled_texts lib EMAIL_FIELDS j)"

lemma pii_labels_simps:
  "pii_labels lib JNull = ({}, {}, {})" "pii_labels lib (JStr s) = ({}, {}, {})" "pii_labels lib (JNum n) = ({}, {}, {})" "pii_labels lib (JBool b) = ({}, {}, {})"
  "pii_labels lib (JArr []) = ({}, {}, {})" "pii_labels lib (JArr (x # xs)) = pii_join (pii_labels lib x) (pii_labels lib (JArr xs))"
  "pii_labels lib (JObj []) = ({}, {}, {})"
  by (auto simp: pii_labels_def labelled_texts_def pii_join_def)

lemma pii_labels_entry:
  "pii_labels lib (JObj ((k, v) # kvs)) = pii_join
     (if toLowerCase k \<in> set PHONE_FIELDS then (leaf_texts lib v, {}, {}) else if toLowerCase k \<in> set NAME_FIELDS then ({}, leaf_texts lib v, {})
      else if toLowerCase k \<in> set EMAIL_FIELDS then ({}, {}, leaf_texts lib v) else pii_labels lib v) (pii_labels lib (JObj kvs))"
  using fields_disjoint by (auto simp: pii_labels_def labelled_texts_def pii_join_def PII_FIELDS_def)

lemma pii_join_simps: "pii_join (pii_join p q) r = pii_join p (pii_join q r)" "pii_join p ({}, {}, {}) = p"
  by (auto simp: pii_join_def split: prod.splits)

lemma pii_walk_labels:
  "pii_of (pii_walk lib j p) = pii_join (pii_of p) (pii_labels lib j)"
  "pii_of (pii_walk_items lib xs p) = pii_join (pii_of p) (pii_labels lib (JArr xs))"
  "pii_of (pii_walk_entries lib kvs p) = pii_join (pii_of p) (pii_labels lib (JObj kvs))"
proof (induction lib j p and lib xs p and lib kvs p rule: pii_walk_pii_walk_items_pii_walk_entries.induct)
  case (10 lib k v kvs p)
  let ?p = "let lower = toLowerCase k in
        if lower \<in> set PHONE_FIELDS then p\<lparr>pii_phones := collectLeaves lib v (pii_phones p)\<rparr>
        else if lower \<in> set NAME_FIELDS then p\<lparr>pii_names := collectLeaves lib v (pii_names p)\<rparr>
        else if lower \<in> set EMAIL_FIELDS then p\<lparr>pii_emails := collectLeaves lib v (pii_emails p)\<rparr>
        else pii_walk lib v p"
  have "pii_of ?p = pii_join (pii_of p) (if toLowerCase k \<in> set PHONE_FIELDS then (leaf_texts lib v, {}, {}) else if toLowerCase k \<in> set NAME_FIELDS then ({}, leaf_texts lib v, {})
      else if toLowerCase k \<in> set EMAIL_FIELDS then ({}, {}, leaf_texts lib v) else pii_labels lib v)"
    using "10.IH"(1) by (auto simp: Let_def pii_of_def pii_join_def set_collectLeaves split: prod.splits)
  then show ?case using "10.IH"(2) by (simp add: pii_labels_entry pii_join_simps)
qed (simp_all add: pii_labels_simps pii_join_simps)

lemma collectPii_labels:
  "set (pii_phones (collectPii lib j)) = labelled_texts lib PHONE_FIELDS j"
  "set (pii_names (collectPii lib j)) = labelled_texts lib NAME_FIELDS j"
  "set (pii_emails (collectPii lib j)) = labelled_texts lib EMAIL_FIELDS j"
  using pii_walk_labels(1) [of lib j "\<lparr>pii_phones = [], pii_names = [], pii_emails = []\<rparr>"]
  by (simp_all add: collectPii_def pii_of_def pii_join_def pii_labels_def)

definition METADATA_KEYS :: "string list" where
  "METADATA_KEYS = [''direction'', ''state'', ''duration'', ''is_internal'', ''operator_call_id'', ''master_call_id'', ''date_started'', ''date_ended'']"

definition AUDIT_KEYS :: "string list" where
  "AUDIT_KEYS = METADATA_KEYS @ [''event_id'', ''call_id'', ''iat'', ''phone_hmac'', ''name_hmac'', ''email_hmac'']"

text \<open>The strings of an array entry of an object, none when it has no such entry.\<close>

definition string_items :: "string \<Rightarrow> json_object \<Rightarrow> string set" where
  "string_items key kvs = (case map_of kvs key of Some (JArr xs) \<Rightarrow> {s. JStr s \<in> set xs} | _ \<Rightarrow> {})"

lemma metadata_keys: "fst ` set (nonPiiMetadata lib claims) \<subseteq> set METADATA_KEYS" "distinct (map fst (nonPiiMetadata lib claims))"
  by (auto simp: nonPiiMetadata_def opt_entry_def METADATA_KEYS_def Let_def split: option.splits)

lemma string_items_skip: "key \<notin> fst ` set xs \<Longrightarrow> string_items key (xs @ ys) = string_items key ys"
  by (simp add: string_items_def map_add_def map_of_eq_None_iff [THEN iffD2] split: option.split)

lemma hmac_entry_items: "key \<notin> fst ` set ys \<Longrightarrow> string_items key (hmac_entry key hs @ ys) = set hs"
  by (auto simp: string_items_def hmac_entry_def map_of_eq_None_iff [THEN iffD2])

lemma keys_of_entries: "fst ` set (opt_entry k v) \<subseteq> {k}" "fst ` set (hmac_entry k hs) \<subseteq> {k}"
  by (auto simp: opt_entry_def hmac_entry_def split: option.splits)


definition is_scalar :: "json \<Rightarrow> bool" where
  "is_scalar j = (case j of JArr _ \<Rightarrow> False | JObj _ \<Rightarrow> False | _ \<Rightarrow> True)"

lemma resolveScalar_kind: "resolveScalar obj paths kind = Some v \<Longrightarrow> is_kind kind v"
  by (induction obj paths kind rule: resolveScalar.induct) (auto split: option.splits if_splits)

lemma kind_scalar: "is_kind kind v \<Longrightarrow> is_scalar v"
  by (auto simp: is_kind_def is_scalar_def split: json.splits)

lemma opt_entry_scalar: "(\<And>v. x = Some v \<Longrightarrow> is_scalar v) \<Longrightarrow> list_all (\<lambda>kv. is_scalar (snd kv)) (opt_entry k x)"
  by (auto simp: opt_entry_def split: option.splits)

lemma metadata_scalar: "list_all (\<lambda>kv. is_scalar (snd kv)) (nonPiiMetadata lib claims)"
  unfolding nonPiiMetadata_def Let_def list_all_append
  by (intro conjI opt_entry_scalar) (auto simp: is_scalar_def dest: kind_scalar [OF resolveScalar_kind])

text \<open>C18: Of a delivery the receiver keeps only an allow-list: eight scalar fields in the call row, and in the audit row those, the ids and three lists of
  keyed hashes.  The lists are exactly the hashes of the canonical phones, names and emails that stand under a phone, name or email key anywhere in the
  payload, so no such value is kept in clear and none is left out.\<close>

theorem webhook_minimizes:
  "let claims = jr_claims result; audit = toAuditPayload lib result (hashPii lib secret); meta = toCallStateMetadata lib claims;
       hashes = (\<lambda>fields canon. {hashPii lib secret n |n. \<exists>s. s \<in> labelled_texts lib fields (JObj claims) \<and> canon s = Some n})
   in fst ` set meta \<subseteq> set METADATA_KEYS \<and> list_all (\<lambda>kv. is_scalar (snd kv)) meta \<and> fst ` set audit \<subseteq> set AUDIT_KEYS
      \<and> string_items ''phone_hmac'' audit = hashes PHONE_FIELDS normalizePhone
      \<and> string_items ''name_hmac'' audit = hashes NAME_FIELDS normalizeName
      \<and> string_items ''email_hmac'' audit = hashes EMAIL_FIELDS normalizeEmail"
proof -
  let ?claims = "jr_claims result" and ?h = "hashPii lib secret"
  let ?pii = "collectPii lib (JObj ?claims)"
  let ?head = "[(''event_id'', JStr (replayKeyFor lib result))] @ nonPiiMetadata lib ?claims
    @ opt_entry ''call_id'' (map_option JStr (resolveCallId lib ?claims)) @ opt_entry ''iat'' (map_option JNum (cl_iat (parseClaims ?claims)))"
  let ?ph = "normalizedHmacs (pii_phones ?pii) normalizePhone ?h" and ?na = "normalizedHmacs (pii_names ?pii) normalizeName ?h"
    and ?em = "normalizedHmacs (pii_emails ?pii) normalizeEmail ?h"
  have audit: "toAuditPayload lib result ?h = ?head @ hmac_entry ''phone_hmac'' ?ph @ hmac_entry ''name_hmac'' ?na @ hmac_entry ''email_hmac'' ?em @ []"
    by (simp add: toAuditPayload_def Let_def)
  have head: "fst ` set ?head \<subseteq> set METADATA_KEYS \<union> {''event_id'', ''call_id'', ''iat''}"
    using metadata_keys(1) [of lib ?claims] by (auto simp: opt_entry_def split: option.splits)
  then have notin: "''phone_hmac'' \<notin> fst ` set ?head" "''name_hmac'' \<notin> fst ` set ?head" "''email_hmac'' \<notin> fst ` set ?head"
    unfolding METADATA_KEYS_def by auto
  have keys: "fst ` set (hmac_entry k hs) \<subseteq> {k}" for k hs by (rule keys_of_entries)
  have "string_items ''phone_hmac'' (toAuditPayload lib result ?h) = set ?ph"
    unfolding audit string_items_skip [OF notin(1)] by (rule hmac_entry_items) (use keys in fastforce)
  moreover have "string_items ''name_hmac'' (toAuditPayload lib result ?h) = set ?na"
    unfolding audit string_items_skip [OF notin(2)] by (subst string_items_skip, use keys in fastforce, rule hmac_entry_items) (use keys in fastforce)
  moreover have "string_items ''email_hmac'' (toAuditPayload lib result ?h) = set ?em"
    unfolding audit string_items_skip [OF notin(3)]
    by (subst string_items_skip, use keys in fastforce, subst string_items_skip, use keys in fastforce, rule hmac_entry_items) simp
  moreover have "fst ` set (toAuditPayload lib result ?h) \<subseteq> set AUDIT_KEYS"
    using head keys [of "''phone_hmac''" ?ph] keys [of "''name_hmac''" ?na] keys [of "''email_hmac''" ?em] unfolding audit AUDIT_KEYS_def by auto
  ultimately show ?thesis
    using metadata_keys(1) [of lib ?claims] metadata_scalar [of lib ?claims]
    by (auto simp: Let_def toCallStateMetadata_def set_normalizedHmacs collectPii_labels)
qed

section \<open>The payload shape\<close>

text \<open>A payload with its values taken away: the keys and the types stay.\<close>

fun erase :: "json \<Rightarrow> json" where
  "erase (JStr s) = JStr []"
| "erase (JNum n) = JNum 0"
| "erase (JBool b) = JBool False"
| "erase JNull = JNull"
| "erase (JArr xs) = JArr (map erase xs)"
| "erase (JObj kvs) = JObj (map (\<lambda>kv. (fst kv, erase (snd kv))) kvs)"

lemma shape_erased:
  "describePayloadShape prefix (erase j) = describePayloadShape prefix j"
  "shape_items prefix (map erase xs) = shape_items prefix xs"
  "shape_entries prefix (map (\<lambda>kv. (fst kv, erase (snd kv))) kvs) = shape_entries prefix kvs"
  by (induction prefix j and prefix xs and prefix kvs rule: describePayloadShape_shape_items_shape_entries.induct) auto


section \<open>Replay stores\<close>

text \<open>What the chain relies on: \<open>entry t k s\<close> is the entry that is live for a key at an instant.\<close>

locale replay_laws =
  fixes st :: "'s replay_store" and entry :: "int \<Rightarrow> string \<Rightarrow> 's \<Rightarrow> replay_entry option"
  assumes reserve_taken: "entry now k s \<noteq> None \<Longrightarrow> st_reserve st now k w s = (False, s)"
    and reserve_free: "entry now k s = None \<Longrightarrow> fst (st_reserve st now k w s)"
    and reserve_entry: "entry now k s = None \<Longrightarrow> entry t k' (snd (st_reserve st now k w s))
      = (if k' = k then if t < now + w then Some \<lparr>re_committed = False, re_expiresAt = now + w\<rparr> else None else entry t k' s)"
    and commit_entry: "entry t k' (st_commit st now k w s)
      = (if k' = k then if t < now + w then Some \<lparr>re_committed = True, re_expiresAt = now + w\<rparr> else None else entry t k' s)"
    and release_entry: "now \<le> t \<Longrightarrow> entry t k' (st_release st now k s)
      = (if k' = k \<and> (case entry now k s of Some e \<Rightarrow> \<not> re_committed e | None \<Rightarrow> False) then None else entry t k' s)"
begin

text \<open>A key that is taken until an instant stays so, and its requests are turned away, whatever other requests do.\<close>

definition taken :: "int \<Rightarrow> int \<Rightarrow> string \<Rightarrow> 's \<Rightarrow> bool" where
  "taken t0 t1 k s \<longleftrightarrow> (\<forall>t. t0 \<le> t \<longrightarrow> t < t1 \<longrightarrow> entry t k s \<noteq> None)"

lemma taken_reserve: "taken t0 t1 k s \<Longrightarrow> t0 \<le> now \<Longrightarrow> now < t1 \<Longrightarrow> taken t0 t1 k (snd (st_reserve st now k' w s))"
proof (cases "entry now k' s = None")
  case True
  assume "taken t0 t1 k s" "t0 \<le> now" "now < t1"
  then show ?thesis using True reserve_entry [OF True, where w = w] by (auto simp: taken_def)
next
  case False
  then show "taken t0 t1 k s \<Longrightarrow> ?thesis" using reserve_taken [of now k' s w] by simp
qed

lemma taken_commit: "taken t0 t1 k s \<Longrightarrow> k' \<noteq> k \<Longrightarrow> taken t0 t1 k (st_commit st now k' w s)"
  by (simp add: taken_def commit_entry)

lemma taken_release: "taken t0 t1 k s \<Longrightarrow> k' \<noteq> k \<Longrightarrow> now \<le> t0 \<Longrightarrow> taken t0 t1 k (st_release st now k' s)"
  by (simp add: taken_def release_entry)

lemma taken_later: "taken t0 t1 k s \<Longrightarrow> t0 \<le> t2 \<Longrightarrow> taken t2 t1 k s"
  by (simp add: taken_def)

end

interpretation redis_replay: replay_laws RedisReplayStore "\<lambda>t k. redis_get re_expiresAt t (''replay:'' @ k)"
  by unfold_locales (auto simp: RedisReplayStore_def redis_get_def split: option.splits)

interpretation memory_replay: replay_laws MemoryReplayStore "redis_get re_expiresAt"
  by unfold_locales (auto simp: MemoryReplayStore_def redis_get_def split: option.splits)


section \<open>The chain\<close>

definition event_key :: "route_options \<Rightarrow> string \<Rightarrow> string option" where
  "event_key opts body = Option.bind (ro_extractEventId opts body) (\<lambda>e. if e = [] then None else Some (ro_provider opts @ '':'' @ e))"

text \<open>The requests that reach the handler: within the rate, authentic, fresh where the route has timestamps, and with a key nobody holds.\<close>

definition admitted :: "('s, 'q) webhook_deps \<Rightarrow> route_options \<Rightarrow> webhook_request \<Rightarrow> ('s, 'q) webhook_world \<Rightarrow> bool" where
  "admitted deps opts req w \<longleftrightarrow>
     fst (webhookRateLimiter deps (ro_provider opts) req w) = Inr () \<and> ro_verifySignature opts (rq_rawBody req) \<and> freshness_gate deps opts req
     \<and> F_reserve \<notin> rq_faults req
     \<and> (case event_key opts (rq_rawBody req) of
          None \<Rightarrow> False | Some key \<Rightarrow> fst (st_reserve (wd_replayStore deps) (rq_clock req 2) key (wd_replayWindowMs deps) (ww_replay w)))"

lemma rate_frame: "ww_db (snd (webhookRateLimiter deps p req w)) = ww_db w" "ww_replay (snd (webhookRateLimiter deps p req w)) = ww_replay w"
  by (auto simp: webhookRateLimiter_def split: prod.splits)

lemma register_admitted:
  assumes "admitted deps opts req w"
  obtains key where "event_key opts (rq_rawBody req) = Some key"
    "registerWebhook deps opts req w = reserved_handler deps opts key req ((snd (webhookRateLimiter deps (ro_provider opts) req w))
       \<lparr>ww_replay := snd (st_reserve (wd_replayStore deps) (rq_clock req 2) key (wd_replayWindowMs deps) (ww_replay w))\<rparr>)"
proof -
  obtain e where e: "ro_extractEventId opts (rq_rawBody req) = Some e" "e \<noteq> []" "event_key opts (rq_rawBody req) = Some (ro_provider opts @ '':'' @ e)"
    using assms by (auto simp: admitted_def event_key_def split: option.splits bind_splits if_splits)
  show thesis
    by (rule that [OF e(3)])
      (use assms e rate_frame(2) [of deps "ro_provider opts" req w] in \<open>auto simp: admitted_def registerWebhook_def Let_def split: prod.splits bool.splits\<close>)
qed

lemma register_refused:
  assumes "\<not> admitted deps opts req w"
  shows "\<exists>e. fst (registerWebhook deps opts req w) = Inl e" and "ww_db (snd (registerWebhook deps opts req w)) = ww_db w"
    and "ww_replay (snd (registerWebhook deps opts req w)) = ww_replay w
      \<or> (\<exists>key. event_key opts (rq_rawBody req) = Some key \<and> \<not> fst (st_reserve (wd_replayStore deps) (rq_clock req 2) key (wd_replayWindowMs deps) (ww_replay w))
          \<and> ww_replay (snd (registerWebhook deps opts req w)) = snd (st_reserve (wd_replayStore deps) (rq_clock req 2) key (wd_replayWindowMs deps) (ww_replay w)))"
proof -
  obtain r w1 where rl: "webhookRateLimiter deps (ro_provider opts) req w = (r, w1)" by force
  have w1: "ww_db w1 = ww_db w" "ww_replay w1 = ww_replay w" using rate_frame [of deps "ro_provider opts" req w] by (simp_all add: rl)
  define acq where "acq key = fst (st_reserve (wd_replayStore deps) (rq_clock req 2) key (wd_replayWindowMs deps) (ww_replay w))" for key
  define s where "s key = snd (st_reserve (wd_replayStore deps) (rq_clock req 2) key (wd_replayWindowMs deps) (ww_replay w))" for key
  have res: "st_reserve (wd_replayStore deps) (rq_clock req 2) key (wd_replayWindowMs deps) (ww_replay w) = (acq key, s key)" for key
    by (simp add: acq_def s_def)
  show "\<exists>e. fst (registerWebhook deps opts req w) = Inl e" "ww_db (snd (registerWebhook deps opts req w)) = ww_db w"
    "ww_replay (snd (registerWebhook deps opts req w)) = ww_replay w
      \<or> (\<exists>key. event_key opts (rq_rawBody req) = Some key \<and> \<not> fst (st_reserve (wd_replayStore deps) (rq_clock req 2) key (wd_replayWindowMs deps) (ww_replay w))
          \<and> ww_replay (snd (registerWebhook deps opts req w)) = snd (st_reserve (wd_replayStore deps) (rq_clock req 2) key (wd_replayWindowMs deps) (ww_replay w)))"
    using assms w1 by (auto simp: admitted_def registerWebhook_def event_key_def rl res Let_def split: sum.splits option.splits bool.splits bind_splits if_splits)
qed


text \<open>A handler that succeeded leaves its key taken; requests in order keep it so.\<close>

definition completes :: "('s, 'q) webhook_deps \<Rightarrow> route_options \<Rightarrow> webhook_request \<Rightarrow> ('s, 'q) webhook_world \<Rightarrow> bool" where
  "completes deps opts req w \<longleftrightarrow> admitted deps opts req w \<and> fst (ro_handler opts req (ww_db w)) = Inr ()"

definition clock_ok :: "webhook_request \<Rightarrow> bool" where
  "clock_ok req \<longleftrightarrow> rq_clock req 0 \<le> rq_clock req 1 \<and> rq_clock req 1 \<le> rq_clock req 2 \<and> rq_clock req 2 \<le> rq_clock req 3 \<and> rq_clock req 3 \<le> rq_clock req 4"

definition in_order :: "webhook_request list \<Rightarrow> bool" where
  "in_order reqs \<longleftrightarrow> list_all clock_ok reqs \<and> sorted_wrt (\<lambda>a b. rq_clock a 4 \<le> rq_clock b 0) reqs"

definition serve :: "('s, 'q) webhook_deps \<Rightarrow> route_options \<Rightarrow> webhook_request list \<Rightarrow> ('s, 'q) webhook_world \<Rightarrow> ('s, 'q) webhook_world" where
  "serve deps opts reqs w = fold (\<lambda>req w. snd (registerWebhook deps opts req w)) reqs w"

context replay_laws
begin

lemma completes_taken:
  assumes "wd_replayStore deps = st" "completes deps opts req w" "clock_ok req" "event_key opts (rq_rawBody req) = Some key"
  shows "taken (rq_clock req 4) (rq_clock req 2 + wd_replayWindowMs deps) key (ww_replay (snd (registerWebhook deps opts req w)))"
proof -
  let ?s = "snd (st_reserve st (rq_clock req 2) key (wd_replayWindowMs deps) (ww_replay w))"
  have adm: "admitted deps opts req w" using assms(2) by (simp add: completes_def)
  then have free: "entry (rq_clock req 2) key (ww_replay w) = None"
    using reserve_taken [of "rq_clock req 2" key "ww_replay w" "wd_replayWindowMs deps"] assms(1,4)
    by (cases "entry (rq_clock req 2) key (ww_replay w) = None") (auto simp: admitted_def)
  obtain db' where h: "ro_handler opts req (ww_db w) = (Inr (), db')" using assms(2) by (cases "ro_handler opts req (ww_db w)") (auto simp: completes_def)
  from register_admitted [OF adm] assms(4) have run: "registerWebhook deps opts req w = reserved_handler deps opts key req
      ((snd (webhookRateLimiter deps (ro_provider opts) req w))\<lparr>ww_replay := ?s\<rparr>)" unfolding assms(1) by (metis option.inject)
  have "ww_replay (snd (registerWebhook deps opts req w)) \<in> {?s, st_commit st (rq_clock req 4) key (wd_replayWindowMs deps) ?s}"
    unfolding run using h by (auto simp: reserved_handler_def rate_frame assms(1))
  then show ?thesis using assms(3) by (auto simp: taken_def clock_ok_def commit_entry reserve_entry [OF free])
qed

lemma taken_refused:
  assumes "wd_replayStore deps = st" "event_key opts (rq_rawBody req) = Some key" "taken t0 t1 key (ww_replay w)" "t0 \<le> rq_clock req 2" "rq_clock req 2 < t1"
  shows "\<not> admitted deps opts req w"
proof -
  have "entry (rq_clock req 2) key (ww_replay w) \<noteq> None" using assms(3-5) by (auto simp: taken_def)
  from reserve_taken [OF this] show ?thesis using assms(1,2) by (simp add: admitted_def)
qed

lemma taken_kept:
  assumes st: "wd_replayStore deps = st" and t: "taken t0 t1 key (ww_replay w)" "t0 \<le> rq_clock req 2" "rq_clock req 2 < t1" and c: "clock_ok req"
  shows "taken (rq_clock req 4) t1 key (ww_replay (snd (registerWebhook deps opts req w)))"
proof (cases "admitted deps opts req w")
  case True
  from register_admitted [OF True] obtain k where k: "event_key opts (rq_rawBody req) = Some k"
    and run: "registerWebhook deps opts req w = reserved_handler deps opts k req ((snd (webhookRateLimiter deps (ro_provider opts) req w))
       \<lparr>ww_replay := snd (st_reserve st (rq_clock req 2) k (wd_replayWindowMs deps) (ww_replay w))\<rparr>)"
    unfolding st by blast
  have "k \<noteq> key" using taken_refused [OF st _ t, of opts] k True by auto
  let ?s = "snd (st_reserve st (rq_clock req 2) k (wd_replayWindowMs deps) (ww_replay w))"
  have s: "taken (rq_clock req 4) t1 key ?s"
    using taken_later [OF taken_reserve [OF t]] t(2) c by (simp add: clock_ok_def)
  have "ww_replay (snd (registerWebhook deps opts req w)) \<in> {?s, st_commit st (rq_clock req 4) k (wd_replayWindowMs deps) ?s, st_release st (rq_clock req 4) k ?s}"
    unfolding run by (auto simp: reserved_handler_def st split: prod.splits sum.splits)
  then show ?thesis using s taken_commit [OF s \<open>k \<noteq> key\<close>] taken_release [OF s \<open>k \<noteq> key\<close>] by auto
next
  case False
  have later: "taken (rq_clock req 4) t1 key (ww_replay w)" using taken_later [OF t(1)] t(2) c by (simp add: clock_ok_def)
  from register_refused(3) [OF False] show ?thesis
  proof (elim disjE exE conjE)
    fix k assume "\<not> fst (st_reserve (wd_replayStore deps) (rq_clock req 2) k (wd_replayWindowMs deps) (ww_replay w))"
      "ww_replay (snd (registerWebhook deps opts req w)) = snd (st_reserve (wd_replayStore deps) (rq_clock req 2) k (wd_replayWindowMs deps) (ww_replay w))"
    then show ?thesis using reserve_taken [of "rq_clock req 2" k "ww_replay w"] reserve_free [of "rq_clock req 2" k "ww_replay w"] later unfolding st
      by (metis snd_conv)
  qed (simp add: later)
qed

lemma taken_serve:
  assumes "wd_replayStore deps = st" "in_order reqs" "taken t0 t1 key (ww_replay w)"
    and "\<And>r. r \<in> set reqs \<Longrightarrow> t0 \<le> rq_clock r 0 \<and> rq_clock r 4 \<le> t2" "t0 \<le> t2" "t2 < t1"
  shows "taken t2 t1 key (ww_replay (serve deps opts reqs w))"
  using assms(2-5)
proof (induction reqs arbitrary: w t0)
  case Nil
  then show ?case by (auto simp: serve_def intro: taken_later)
next
  case (Cons r rs)
  have c: "clock_ok r" using Cons.prems(1) by (simp add: in_order_def)
  have r: "t0 \<le> rq_clock r 2" "rq_clock r 2 < t1" "rq_clock r 4 \<le> t2"
    using Cons.prems(3) [of r] c assms(6) by (auto simp: clock_ok_def)
  have "taken (rq_clock r 4) t1 key (ww_replay (snd (registerWebhook deps opts r w)))" by (rule taken_kept [OF assms(1) Cons.prems(2) r(1,2) c])
  from Cons.IH [OF _ this _ r(3)] show ?case using Cons.prems(1,3) by (auto simp: serve_def in_order_def)
qed

lemma completed_refused:
  assumes st: "wd_replayStore deps = st" and comp: "completes deps opts req w" and order: "in_order (req # mid @ [req'])"
    and key: "event_key opts (rq_rawBody req') = event_key opts (rq_rawBody req)" and soon: "rq_clock req' 2 < rq_clock req 2 + wd_replayWindowMs deps"
  shows "\<not> admitted deps opts req' (serve deps opts (req # mid) w)"
proof -
  obtain k where k: "event_key opts (rq_rawBody req) = Some k" using comp by (auto simp: completes_def admitted_def split: option.splits)
  have c: "clock_ok req" "clock_ok req'" "in_order mid" "rq_clock req 4 \<le> rq_clock req' 0"
    using order by (auto simp: in_order_def sorted_wrt_append)
  have mid: "rq_clock req 4 \<le> rq_clock r 0 \<and> rq_clock r 4 \<le> rq_clock req' 2" if "r \<in> set mid" for r
    using order that c(2) by (force simp: in_order_def sorted_wrt_append clock_ok_def)
  have "taken (rq_clock req' 2) (rq_clock req 2 + wd_replayWindowMs deps) k (ww_replay (serve deps opts mid (snd (registerWebhook deps opts req w))))"
    by (rule taken_serve [OF st c(3) completes_taken [OF st comp c(1) k] mid _ soon]) (use c(2,4) in \<open>auto simp: clock_ok_def\<close>)
  from taken_refused [OF st key [unfolded k] this _ soon] show ?thesis by (simp add: serve_def)
qed

end


section \<open>The Dialpad route\<close>

text \<open>What a delivery may write: the call row if there is none, one audit row, one job; all of it when it is answered with success.\<close>

definition ingest_effect :: "pg \<Rightarrow> (string \<Rightarrow> string) \<Rightarrow> ingest_event \<Rightarrow> bool \<Rightarrow> db \<Rightarrow> db \<Rightarrow> bool" where
  "ingest_effect pg digest event full db db' \<longleftrightarrow>
     (\<exists>rows audit jobs.
        db' = db\<lparr>next_uuid := next_uuid db + length audit, call_state := call_state db @ rows, raw_webhook_events := raw_webhook_events db @ audit,
                job_queue := job_queue db @ jobs\<rparr>
        \<and> rows = (if sql_exists (\<lambda>r. cs_call_id r = ie_callId event) (call_state db) then [] else [new_call_state pg (webhook_seed event)])
        \<and> audit \<in> {[], [\<lparr>wh_id = next_uuid db, wh_received_at = ie_receivedAt event, wh_source = DIALPAD_WEBHOOK_SOURCE, wh_payload = JObj (ie_auditPayload event),
             wh_signature_status = SG_valid, wh_retention_eligible_at = Some (ie_retentionEligibleAt event), wh_soft_deleted_at = None, wh_hard_deleted_at = None\<rparr>]}
        \<and> jobs \<in> {[], [\<lparr>jb_id = jobIdForCall digest (ie_callId event), jb_callId = ie_callId event, jb_delay = 0\<rparr>]}
        \<and> (full \<longrightarrow> audit \<noteq> [] \<and> jobs \<noteq> []))"

lemma seed_ok: "ie_callId event \<noteq> [] \<Longrightarrow> call_state_insert_ok (webhook_seed event)"
  by (simp add: call_state_insert_ok_def webhook_seed_def DIALPAD_WEBHOOK_SOURCE_def STATUS_PROCESSING_def PIPELINE_STAGES_def)

lemma db_same: "db = db\<lparr>next_uuid := next_uuid db + length [], call_state := call_state db @ [], raw_webhook_events := raw_webhook_events db @ [], job_queue := job_queue db @ []\<rparr>"
  by simp

lemma sink_effect:
  assumes "sink_ingest pg digest faults event db = (r, db')" "ie_callId event \<noteq> []"
  shows "db' = db \<and> r \<noteq> Inr () \<or> ingest_effect pg digest event (r = Inr ()) db db'"
proof -
  let ?row = "\<lparr>wh_id = next_uuid db, wh_received_at = ie_receivedAt event, wh_source = DIALPAD_WEBHOOK_SOURCE, wh_payload = JObj (ie_auditPayload event),
    wh_signature_status = SG_valid, wh_retention_eligible_at = Some (ie_retentionEligibleAt event), wh_soft_deleted_at = None, wh_hard_deleted_at = None\<rparr>"
  define rows where "rows = (if sql_exists (\<lambda>r. cs_call_id r = ie_callId event) (call_state db) then [] else [new_call_state pg (webhook_seed event)])"
  have seed: "\<exists>b. seedCallStateIfAbsent pg (webhook_seed event) db = (Inr b, db\<lparr>call_state := call_state db @ rows\<rparr>)"
    using seed_ok [OF assms(2)] by (auto simp: seedCallStateIfAbsent_def webhook_seed_def rows_def)
  have audit: "insertWebhookEvent pg (webhook_audit event) (db\<lparr>call_state := call_state db @ rows\<rparr>)
      = (Inr ?row, db\<lparr>next_uuid := Suc (next_uuid db), call_state := call_state db @ rows, raw_webhook_events := raw_webhook_events db @ [?row]\<rparr>)"
    by (simp add: insertWebhookEvent_def webhook_audit_def DIALPAD_WEBHOOK_SOURCE_def toJsonParam_def Let_def)
  consider (none) "F_seed \<in> faults" | (seeded) "F_seed \<notin> faults" "F_audit \<in> faults" | (audited) "F_seed \<notin> faults" "F_audit \<notin> faults" "F_enqueue \<in> faults"
    | (all) "F_seed \<notin> faults" "F_audit \<notin> faults" "F_enqueue \<notin> faults" by blast
  then show ?thesis
  proof cases
    case none
    then show ?thesis using assms(1) by (auto simp: sink_ingest_def)
  next
    case seeded
    then have "r = Inl Other_thrown" "db' = db\<lparr>call_state := call_state db @ rows\<rparr>" using assms(1) seed by (auto simp: sink_ingest_def)
    then show ?thesis unfolding ingest_effect_def rows_def [symmetric] by (intro disjI2 exI [of _ rows] exI [of _ "[]"]) simp
  next
    case audited
    then have "r = Inl Other_thrown" "db' = db\<lparr>next_uuid := Suc (next_uuid db), call_state := call_state db @ rows, raw_webhook_events := raw_webhook_events db @ [?row]\<rparr>"
      using assms(1) seed by (auto simp: sink_ingest_def audit)
    then show ?thesis unfolding ingest_effect_def rows_def [symmetric] by (intro disjI2 exI [of _ rows] exI [of _ "[?row]"] exI [of _ "[]"]) simp
  next
    case all
    then have "db' = db\<lparr>next_uuid := Suc (next_uuid db), call_state := call_state db @ rows, raw_webhook_events := raw_webhook_events db @ [?row],
        job_queue := job_queue db @ [\<lparr>jb_id = jobIdForCall digest (ie_callId event), jb_callId = ie_callId event, jb_delay = 0\<rparr>]\<rparr>"
      using assms(1) seed by (auto simp: sink_ingest_def audit enqueueCall_def queue_add_def)
    then show ?thesis unfolding ingest_effect_def rows_def [symmetric]
      by (intro disjI2 exI [of _ rows] exI [of _ "[?row]"] exI [of _ "[\<lparr>jb_id = jobIdForCall digest (ie_callId event), jb_callId = ie_callId event, jb_delay = 0\<rparr>]"]) simp
  qed
qed

text \<open>A token signed with one of the configured secrets, with the algorithm pinned.\<close>

definition signed_by :: "node_lib \<Rightarrow> string \<Rightarrow> string \<Rightarrow> json_object \<Rightarrow> bool" where
  "signed_by lib body secret claims \<longleftrightarrow>
     (\<exists>header payload signature kvs. js_split CHR ''.'' (js_trim body) = [header, payload, signature] \<and> decodeJsonSegment lib header = Some kvs
        \<and> map_of kvs ''alg'' = Some (JStr ''HS256'') \<and> base64url lib signature = hmac_sha256 lib secret (header @ ''.'' @ payload)
        \<and> base64url lib signature \<noteq> [] \<and> decodeJsonSegment lib payload = Some claims)"

lemma match_secret_signed:
  "match_secret lib input payload sig cands = Some result \<Longrightarrow>
    \<exists>slot secret. (slot, secret) \<in> set cands \<and> sig = hmac_sha256 lib secret input \<and> decodeJsonSegment lib payload = Some (jr_claims result)
      \<and> jr_payloadSegment result = payload"
proof (induction cands)
  case (Cons c cands)
  obtain slot secret where c: "c = (slot, secret)" by force
  show ?case
  proof (cases "digestsEqual (hmac_sha256 lib secret input) sig")
    case True
    then show ?thesis using Cons.prems c by (intro exI [of _ slot] exI [of _ secret]) (auto simp: digestsEqual_def split: option.splits)
  next
    case False
    then show ?thesis using Cons c by auto
  qed
qed simp

lemma verified_signed:
  assumes "verifyAndDecodeDialpadJwt lib secrets body = Some result"
  shows "\<exists>secret \<in> {se_primary secrets} \<union> set_option (se_previous secrets). signed_by lib body secret (jr_claims result)"
proof -
  obtain h p s kvs where seg: "js_split CHR ''.'' (js_trim body) = [h, p, s]" "decodeJsonSegment lib h = Some kvs" "map_of kvs ''alg'' = Some (JStr ''HS256'')"
    "base64url lib s \<noteq> []" and m: "match_secret lib (h @ ''.'' @ p) p (base64url lib s) (jwt_candidates secrets) = Some result"
    using assms by (auto simp: verifyAndDecodeDialpadJwt_def Let_def split: list.splits option.splits if_splits)
  from match_secret_signed [OF m] obtain slot secret where "(slot, secret) \<in> set (jwt_candidates secrets)" "base64url lib s = hmac_sha256 lib secret (h @ ''.'' @ p)"
    "decodeJsonSegment lib p = Some (jr_claims result)" by blast
  moreover from this(1) have "secret \<in> {se_primary secrets} \<union> set_option (se_previous secrets)"
    by (auto simp: jwt_candidates_def split: option.splits if_splits)
  ultimately show ?thesis using seg unfolding signed_by_def by blast
qed

lemma register_dialpad:
  assumes "registerDialpadWebhook lib pg digest config = Some opts"
  obtains primary hashSecret where "DIALPAD_WEBHOOK_SECRET config = Some primary" "primary \<noteq> []" "DIALPAD_PII_HASH_SECRET config = Some hashSecret" "hashSecret \<noteq> []"
    "opts = (let secrets = \<lparr>se_primary = primary, se_previous = requireWebhookSecret (DIALPAD_WEBHOOK_SECRET_PREVIOUS config)\<rparr>
       in \<lparr>ro_provider = PROVIDER, ro_verifySignature = (\<lambda>rawBody. verifyAndDecodeDialpadJwt lib secrets rawBody \<noteq> None),
           ro_extractEventId = (\<lambda>rawBody. map_option (replayKeyFor lib) (verifyAndDecodeDialpadJwt lib secrets rawBody)),
           ro_extractTimestamp = (if DIALPAD_WEBHOOK_TIMESTAMP_REQUIRED config then Some (extract_timestamp lib secrets) else None),
           ro_handler = dialpad_handler lib pg digest secrets hashSecret\<rparr>)"
  using assms by (auto simp: registerDialpadWebhook_def requireWebhookSecret_def Let_def split: bind_splits option.splits if_splits)


section \<open>Properties\<close>

text \<open>C17: A request to the Dialpad webhook changes the database only when its body is a token signed with HS256 under a configured secret, fresh where
  timestamps are required, with a call id; then it adds at most the call row when there is none, one audit row and one job, all three when it is answered
  with success, and changes no existing row.\<close>

theorem webhook_authentic_effect:
  assumes "registerDialpadWebhook lib pg digest config = Some opts" "registerWebhook deps opts req w = (r, w')"
  shows "ww_db w' = ww_db w \<and> r \<noteq> Inr () \<or>
    (\<exists>secret hashSecret result callId.
       secret \<noteq> [] \<and> Some secret \<in> {DIALPAD_WEBHOOK_SECRET config, DIALPAD_WEBHOOK_SECRET_PREVIOUS config} \<and> signed_by lib (rq_rawBody req) secret (jr_claims result)
       \<and> (DIALPAD_WEBHOOK_TIMESTAMP_REQUIRED config \<longrightarrow> (\<exists>iat. cl_iat (parseClaims (jr_claims result)) = Some iat
            \<and> \<bar>of_int (rq_clock req 1) - iat * 1000\<bar> \<le> of_int (wd_timestampSkewMs deps)))
       \<and> resolveCallId lib (jr_claims result) = Some callId \<and> DIALPAD_PII_HASH_SECRET config = Some hashSecret
       \<and> ingest_effect pg digest (dialpad_event lib hashSecret result callId (rq_clock req 3)) (r = Inr ()) (ww_db w) (ww_db w'))"
proof (cases "admitted deps opts req w")
  case False
  from register_refused(1,2) [OF this] show ?thesis using assms(2) by auto
next
  case True
  from assms(1) obtain primary hashSecret where sec: "DIALPAD_WEBHOOK_SECRET config = Some primary" "primary \<noteq> []" "DIALPAD_PII_HASH_SECRET config = Some hashSecret"
    and opts: "opts = (let secrets = \<lparr>se_primary = primary, se_previous = requireWebhookSecret (DIALPAD_WEBHOOK_SECRET_PREVIOUS config)\<rparr>
       in \<lparr>ro_provider = PROVIDER, ro_verifySignature = (\<lambda>rawBody. verifyAndDecodeDialpadJwt lib secrets rawBody \<noteq> None),
           ro_extractEventId = (\<lambda>rawBody. map_option (replayKeyFor lib) (verifyAndDecodeDialpadJwt lib secrets rawBody)),
           ro_extractTimestamp = (if DIALPAD_WEBHOOK_TIMESTAMP_REQUIRED config then Some (extract_timestamp lib secrets) else None),
           ro_handler = dialpad_handler lib pg digest secrets hashSecret\<rparr>)" by (rule register_dialpad)
  let ?secrets = "\<lparr>se_primary = primary, se_previous = requireWebhookSecret (DIALPAD_WEBHOOK_SECRET_PREVIOUS config)\<rparr>"
  obtain result where v: "verifyAndDecodeDialpadJwt lib ?secrets (rq_rawBody req) = Some result" using True by (auto simp: admitted_def opts Let_def)
  from verified_signed [OF v] obtain secret where secret: "signed_by lib (rq_rawBody req) secret (jr_claims result)"
    "secret \<noteq> []" "Some secret \<in> {DIALPAD_WEBHOOK_SECRET config, DIALPAD_WEBHOOK_SECRET_PREVIOUS config}"
    using sec(1,2) by (auto simp: requireWebhookSecret_def split: option.splits if_splits)
  have fresh: "\<exists>iat. cl_iat (parseClaims (jr_claims result)) = Some iat \<and> \<bar>of_int (rq_clock req 1) - iat * 1000\<bar> \<le> of_int (wd_timestampSkewMs deps)"
    if "DIALPAD_WEBHOOK_TIMESTAMP_REQUIRED config"
    using True that by (auto simp: admitted_def freshness_gate_def opts Let_def extract_timestamp_def v isTimestampFresh_def split: option.splits)
  obtain rh db' where h: "dialpad_handler lib pg digest ?secrets hashSecret req (ww_db w) = (rh, db')" by force
  from register_admitted [OF True] obtain key where run: "registerWebhook deps opts req w = reserved_handler deps opts key req
      ((snd (webhookRateLimiter deps (ro_provider opts) req w))\<lparr>ww_replay := snd (st_reserve (wd_replayStore deps) (rq_clock req 2) key (wd_replayWindowMs deps) (ww_replay w))\<rparr>)"
    by metis
  have out: "ww_db w' = db' \<and> (r = Inr () \<longrightarrow> rh = Inr ())"
    using assms(2) h unfolding run reserved_handler_def by (auto simp: opts Let_def rate_frame split: sum.splits if_splits)
  show ?thesis
  proof (cases "resolveCallId lib (jr_claims result)")
    case None
    then have "db' = ww_db w" "rh \<noteq> Inr ()" using h by (auto simp: dialpad_handler_def v)
    then show ?thesis using out by auto
  next
    case (Some callId)
    let ?ev = "dialpad_event lib hashSecret result callId (rq_clock req 3)"
    have "callId \<noteq> []" using Some by (auto simp: resolveCallId_def trimmed_id_def Let_def split: option.splits if_splits)
    moreover have "sink_ingest pg digest (rq_faults req) ?ev (ww_db w) = (rh, db')" using h by (simp add: dialpad_handler_def v Some)
    ultimately consider "db' = ww_db w" "rh \<noteq> Inr ()" | "ingest_effect pg digest ?ev (rh = Inr ()) (ww_db w) db'"
      using sink_effect [of pg digest "rq_faults req" ?ev "ww_db w" rh db'] by (auto simp: dialpad_event_def)
    then show ?thesis
    proof cases
      case 1
      then show ?thesis using out by auto
    next
      case 2
      then have "ingest_effect pg digest ?ev (r = Inr ()) (ww_db w) (ww_db w')" using out unfolding ingest_effect_def by blast
      then show ?thesis using secret fresh Some sec(3) by blast
    qed
  qed
qed


lemma fresh_apart:
  assumes "\<bar>of_int a - t\<bar> \<le> (of_int skew :: rat)" "\<bar>of_int b - t\<bar> \<le> (of_int skew :: rat)"
  shows "b - a \<le> 2 * skew"
proof -
  have "(of_int (b - a) :: rat) \<le> of_int (2 * skew)" using assms by auto
  then show ?thesis by (simp only: of_int_le_iff)
qed

text \<open>C19: Where timestamps are required and the replay window is longer than twice the allowed skew (and the delay between the freshness check and the
  reservation), a signed body is ingested at most once, ever: once its handler succeeded, also when the commit of its key then failed, every later delivery of
  that body is refused and changes nothing, whatever other requests came in between.\<close>

theorem webhook_once:
  assumes "registerDialpadWebhook lib pg digest config = Some opts" "DIALPAD_WEBHOOK_TIMESTAMP_REQUIRED config" "wd_replayStore deps = RedisReplayStore"
    and "2 * wd_timestampSkewMs deps + lag < wd_replayWindowMs deps" "in_order (req # mid @ [again])" "rq_clock again 2 \<le> rq_clock again 1 + lag"
    and "rq_rawBody again = rq_rawBody req" "completes deps opts req w"
  shows "let w1 = serve deps opts (req # mid) w in
    (\<exists>e. fst (registerWebhook deps opts again w1) = Inl e) \<and> ww_db (snd (registerWebhook deps opts again w1)) = ww_db w1"
proof -
  let ?w = "serve deps opts (req # mid) w"
  from assms(1) obtain f where f: "ro_extractTimestamp opts = Some f" using assms(2) by (elim register_dialpad) (simp add: Let_def)
  have "\<not> admitted deps opts again ?w"
  proof
    assume again: "admitted deps opts again ?w"
    have first: "admitted deps opts req w" using assms(8) by (simp add: completes_def)
    obtain t where t: "f (rq_rawBody req) = Some t" "\<bar>of_int (rq_clock req 1) - t\<bar> \<le> of_int (wd_timestampSkewMs deps)"
      "\<bar>of_int (rq_clock again 1) - t\<bar> \<le> of_int (wd_timestampSkewMs deps)"
      using first again assms(7) by (auto simp: admitted_def freshness_gate_def f isTimestampFresh_def split: option.splits)
    have "rq_clock req 1 \<le> rq_clock req 2" using assms(5) by (simp add: in_order_def clock_ok_def)
    with fresh_apart [OF t(2,3)] assms(4,6) have "rq_clock again 2 < rq_clock req 2 + wd_replayWindowMs deps" by linarith
    from redis_replay.completed_refused [OF assms(3,8,5) _ this] again assms(7) show False by simp
  qed
  from register_refused(1,2) [OF this] show ?thesis by (simp add: Let_def)
qed

text \<open>A concrete platform, in which every token \<^verbatim>\<open>h.p.s\<close> is signed, and deliveries of one body with an \<^verbatim>\<open>iat\<close> 299 seconds ahead.\<close>

definition sample_lib :: node_lib where
  "sample_lib = \<lparr>number_text = (\<lambda>n. int_text \<lfloor>n\<rfloor>), base64url = (\<lambda>s. s),
     json_parse = (\<lambda>s. if s = ''h'' then Some (JObj [(''alg'', JStr ''HS256'')])
       else if s = ''p'' then Some (JObj [(''call_id'', JStr ''c1''), (''jti'', JStr ''e1''), (''iat'', JNum 299)]) else None),
     hmac_sha256 = (\<lambda>_ _. ''s''), hex_digest = (\<lambda>s. s), sha256_hex = (\<lambda>s. s)\<rparr>"

definition sample_webhook_config :: webhook_config where
  "sample_webhook_config = \<lparr>DIALPAD_WEBHOOK_SECRET = Some ''k'', DIALPAD_WEBHOOK_SECRET_PREVIOUS = None, DIALPAD_PII_HASH_SECRET = Some ''q'',
     DIALPAD_WEBHOOK_TIMESTAMP_REQUIRED = True\<rparr>"

definition sample_webhook_deps :: "int \<Rightarrow> (replay_entry keyspace, rate_entry keyspace) webhook_deps" where
  "sample_webhook_deps windowMs = \<lparr>wd_replayStore = RedisReplayStore, wd_rateStore = RedisRateStore, wd_replayWindowMs = windowMs,
     wd_timestampSkewMs = 300000, wd_rateMax = 600, wd_rateWindowMs = 60000\<rparr>"

definition sample_delivery :: "int \<Rightarrow> webhook_request" where
  "sample_delivery now = \<lparr>rq_ip = ''i'', rq_rawBody = ''h.p.s'', rq_clock = (\<lambda>_. now), rq_faults = {}\<rparr>"

definition sample_webhook_world :: "(replay_entry keyspace, rate_entry keyspace) webhook_world" where
  "sample_webhook_world = \<lparr>ww_db = empty_db, ww_replay = Map.empty, ww_rate = Map.empty\<rparr>"

definition sample_secrets :: dialpad_secrets where
  "sample_secrets = \<lparr>se_primary = ''k'', se_previous = None\<rparr>"

definition sample_opts :: route_options where
  "sample_opts = \<lparr>ro_provider = PROVIDER, ro_verifySignature = (\<lambda>rawBody. verifyAndDecodeDialpadJwt sample_lib sample_secrets rawBody \<noteq> None),
     ro_extractEventId = (\<lambda>rawBody. map_option (replayKeyFor sample_lib) (verifyAndDecodeDialpadJwt sample_lib sample_secrets rawBody)),
     ro_extractTimestamp = Some (extract_timestamp sample_lib sample_secrets),
     ro_handler = dialpad_handler sample_lib sample_pg (\<lambda>s. s) sample_secrets ''q''\<rparr>"

lemma sample_registered: "registerDialpadWebhook sample_lib sample_pg (\<lambda>s. s) sample_webhook_config = Some sample_opts"
  by (simp add: registerDialpadWebhook_def sample_webhook_config_def requireWebhookSecret_def sample_opts_def sample_secrets_def Let_def)

definition sample_result :: jwt_result where
  "sample_result = \<lparr>jr_claims = [(''call_id'', JStr ''c1''), (''jti'', JStr ''e1''), (''iat'', JNum 299)], jr_secretSlot = Primary, jr_payloadSegment = ''p''\<rparr>"

lemma sample_verified: "verifyAndDecodeDialpadJwt sample_lib sample_secrets ''h.p.s'' = Some sample_result"
  by (simp add: verifyAndDecodeDialpadJwt_def js_trim_def js_space_def decodeJsonSegment_def sample_lib_def sample_secrets_def jwt_candidates_def
      digestsEqual_def sample_result_def Let_def)

lemma sample_claims: "replayKeyFor sample_lib sample_result = ''id:e1''" "resolveCallId sample_lib (jr_claims sample_result) = Some ''c1''"
  "extract_timestamp sample_lib sample_secrets ''h.p.s'' = Some 299000"
  by (simp_all add: replayKeyFor_def sample_result_def parseClaims_def text_claim_def idField_def number_claim_def trimmed_id_def scalar_text_def js_trim_def js_space_def
      resolveCallId_def CALL_ID_PATHS_def atPath_def is_kind_def extract_timestamp_def sample_verified Let_def)

lemma sink_ok: "ie_callId event \<noteq> [] \<Longrightarrow> fst (sink_ingest pg digest {} event db) = Inr ()"
  using seed_ok [of event] by (auto simp: sink_ingest_def seedCallStateIfAbsent_def insertWebhookEvent_def webhook_audit_def DIALPAD_WEBHOOK_SOURCE_def Let_def)

lemma sample_handler: "fst (ro_handler sample_opts (sample_delivery now) db) = Inr ()"
  using sink_ok by (simp add: sample_opts_def dialpad_handler_def sample_delivery_def sample_verified sample_claims dialpad_event_def)

lemma sample_accepted:
  assumes "\<bar>now - 299000\<bar> \<le> 300000" "redis_get re_expiresAt now ''replay:dialpad:id:e1'' (ww_replay w) = None"
    and "redis_get ra_expiresAt now ''rl:webhook:dialpad:i'' (ww_rate w) = None"
  shows "completes (sample_webhook_deps windowMs) sample_opts (sample_delivery now) w
    \<and> registerWebhook (sample_webhook_deps windowMs) sample_opts (sample_delivery now) w
      = (Inr (), \<lparr>ww_db = snd (ro_handler sample_opts (sample_delivery now) (ww_db w)),
          ww_replay = (ww_replay w)(''replay:dialpad:id:e1'' \<mapsto> \<lparr>re_committed = True, re_expiresAt = now + windowMs\<rparr>),
          ww_rate = (ww_rate w)(''rl:webhook:dialpad:i'' \<mapsto> \<lparr>ra_count = 1, ra_expiresAt = now + 60000\<rparr>)\<rparr>)"
proof -
  let ?deps = "sample_webhook_deps windowMs" and ?req = "sample_delivery now"
  have "(of_int \<bar>now - 299000\<bar> :: rat) \<le> of_int 300000" using assms(1) by (simp only: of_int_le_iff)
  then have fresh: "freshness_gate ?deps sample_opts ?req"
    by (simp add: freshness_gate_def sample_opts_def sample_delivery_def sample_claims isTimestampFresh_def sample_webhook_deps_def)
  have rate: "webhookRateLimiter ?deps (ro_provider sample_opts) ?req w
      = (Inr (), w\<lparr>ww_rate := (ww_rate w)(''rl:webhook:dialpad:i'' \<mapsto> \<lparr>ra_count = 1, ra_expiresAt = now + 60000\<rparr>)\<rparr>)"
    using assms(3) by (simp add: webhookRateLimiter_def sample_webhook_deps_def sample_opts_def sample_delivery_def PROVIDER_def RedisRateStore_def)
  have ids: "ro_verifySignature sample_opts (rq_rawBody ?req)" "ro_extractEventId sample_opts (rq_rawBody ?req) = Some ''id:e1''" "ro_provider sample_opts = ''dialpad''"
    by (simp_all add: sample_opts_def sample_delivery_def sample_verified sample_claims PROVIDER_def)
  have res: "st_reserve (wd_replayStore ?deps) (rq_clock ?req 2) ''dialpad:id:e1'' (wd_replayWindowMs ?deps) (ww_replay w)
      = (True, (ww_replay w)(''replay:dialpad:id:e1'' \<mapsto> \<lparr>re_committed = False, re_expiresAt = now + windowMs\<rparr>))"
    using assms(2) by (simp add: sample_webhook_deps_def RedisReplayStore_def sample_delivery_def)
  obtain db' where h: "ro_handler sample_opts ?req (ww_db w) = (Inr (), db')" using sample_handler [of now "ww_db w"] by (cases "ro_handler sample_opts ?req (ww_db w)") auto
  have faults: "rq_faults ?req = {}" "rq_clock ?req n = now" for n by (simp_all add: sample_delivery_def)
  have commit: "st_commit (wd_replayStore ?deps) now ''dialpad:id:e1'' (wd_replayWindowMs ?deps) s = s(''replay:dialpad:id:e1'' \<mapsto> \<lparr>re_committed = True, re_expiresAt = now + windowMs\<rparr>)" for s
    by (simp add: sample_webhook_deps_def RedisReplayStore_def)
  have "registerWebhook ?deps sample_opts ?req w = (Inr (), \<lparr>ww_db = db',
          ww_replay = (ww_replay w)(''replay:dialpad:id:e1'' \<mapsto> \<lparr>re_committed = True, re_expiresAt = now + windowMs\<rparr>),
          ww_rate = (ww_rate w)(''rl:webhook:dialpad:i'' \<mapsto> \<lparr>ra_count = 1, ra_expiresAt = now + 60000\<rparr>)\<rparr>)"
    unfolding registerWebhook_def rate using fresh ids res h by (simp add: reserved_handler_def faults commit Let_def)
  moreover have "completes ?deps sample_opts ?req w"
    unfolding completes_def admitted_def event_key_def using rate fresh ids res h by (simp add: faults)
  ultimately show ?thesis using h by simp
qed

text \<open>C35: With the default window and skew, both five minutes, the replay protection has a gap: a captured delivery whose timestamp was ahead of the clock is
  still fresh when its key has expired, and is ingested a second time.\<close>

theorem replay_window_gap:
  "let deps = sample_webhook_deps 300000; w1 = snd (registerWebhook deps sample_opts (sample_delivery 0) sample_webhook_world) in
   registerDialpadWebhook sample_lib sample_pg (\<lambda>s. s) sample_webhook_config = Some sample_opts \<and> DIALPAD_WEBHOOK_TIMESTAMP_REQUIRED sample_webhook_config
   \<and> fst (registerWebhook deps sample_opts (sample_delivery 0) sample_webhook_world) = Inr ()
   \<and> fst (registerWebhook deps sample_opts (sample_delivery 400000) w1) = Inr ()
   \<and> completes deps sample_opts (sample_delivery 400000) w1"
proof -
  let ?deps = "sample_webhook_deps 300000"
  have none: "redis_get f now k Map.empty = None" for f :: "'e \<Rightarrow> int" and now k by (simp add: redis_get_def)
  have "redis_get re_expiresAt 0 ''replay:dialpad:id:e1'' (ww_replay sample_webhook_world) = None" "redis_get ra_expiresAt 0 ''rl:webhook:dialpad:i'' (ww_rate sample_webhook_world) = None"
    by (simp_all add: sample_webhook_world_def redis_get_def)
  note first = sample_accepted [of 0, OF _ this, of 300000]
  let ?w = "snd (registerWebhook ?deps sample_opts (sample_delivery 0) sample_webhook_world)"
  have "redis_get re_expiresAt 400000 ''replay:dialpad:id:e1'' (ww_replay ?w) = None" "redis_get ra_expiresAt 400000 ''rl:webhook:dialpad:i'' (ww_rate ?w) = None"
    using first by (simp_all add: redis_get_def)
  note second = sample_accepted [of 400000, OF _ this, of 300000]
  show ?thesis using first second by (simp add: Let_def sample_registered) (simp add: sample_webhook_config_def)
qed

theorem webhook_once_witness:
  "let deps = sample_webhook_deps 700000; opts = sample_opts; req = sample_delivery 0; again = sample_delivery 400000; w = sample_webhook_world; w1 = serve deps opts [req] w in
   registerDialpadWebhook sample_lib sample_pg (\<lambda>s. s) sample_webhook_config = Some opts \<and> DIALPAD_WEBHOOK_TIMESTAMP_REQUIRED sample_webhook_config
   \<and> wd_replayStore deps = RedisReplayStore \<and> 2 * wd_timestampSkewMs deps + 0 < wd_replayWindowMs deps \<and> in_order (req # [] @ [again])
   \<and> rq_clock again 2 \<le> rq_clock again 1 + 0 \<and> rq_rawBody again = rq_rawBody req \<and> completes deps opts req w
   \<and> (\<exists>e. fst (registerWebhook deps opts again w1) = Inl e) \<and> ww_db (snd (registerWebhook deps opts again w1)) = ww_db w1"
proof -
  let ?deps = "sample_webhook_deps 700000" and ?req = "sample_delivery 0" and ?again = "sample_delivery 400000"
  have "redis_get re_expiresAt 0 ''replay:dialpad:id:e1'' (ww_replay sample_webhook_world) = None" "redis_get ra_expiresAt 0 ''rl:webhook:dialpad:i'' (ww_rate sample_webhook_world) = None"
    by (simp_all add: sample_webhook_world_def redis_get_def)
  from sample_accepted [of 0, OF _ this, of 700000] have c: "completes ?deps sample_opts ?req sample_webhook_world" by simp
  have h: "DIALPAD_WEBHOOK_TIMESTAMP_REQUIRED sample_webhook_config" "wd_replayStore ?deps = RedisReplayStore" "2 * wd_timestampSkewMs ?deps + 0 < wd_replayWindowMs ?deps"
    "in_order (?req # [] @ [?again])" "rq_clock ?again 2 \<le> rq_clock ?again 1 + 0" "rq_rawBody ?again = rq_rawBody ?req"
    by (simp_all add: sample_webhook_config_def sample_webhook_deps_def in_order_def clock_ok_def sample_delivery_def)
  from webhook_once [OF sample_registered h c] h c sample_registered show ?thesis unfolding Let_def by blast
qed

theorem webhook_authentic_effect_witness:
  "\<exists>r w'. registerDialpadWebhook sample_lib sample_pg (\<lambda>s. s) sample_webhook_config = Some sample_opts
    \<and> registerWebhook (sample_webhook_deps 300000) sample_opts (sample_delivery 0) sample_webhook_world = (r, w')
    \<and> (ww_db w' = ww_db sample_webhook_world \<and> r \<noteq> Inr () \<or>
       (\<exists>secret hashSecret result callId.
          secret \<noteq> [] \<and> Some secret \<in> {DIALPAD_WEBHOOK_SECRET sample_webhook_config, DIALPAD_WEBHOOK_SECRET_PREVIOUS sample_webhook_config}
          \<and> signed_by sample_lib (rq_rawBody (sample_delivery 0)) secret (jr_claims result)
          \<and> resolveCallId sample_lib (jr_claims result) = Some callId \<and> DIALPAD_PII_HASH_SECRET sample_webhook_config = Some hashSecret
          \<and> ingest_effect sample_pg (\<lambda>s. s) (dialpad_event sample_lib hashSecret result callId (rq_clock (sample_delivery 0) 3)) (r = Inr ())
              (ww_db sample_webhook_world) (ww_db w')))"
proof -
  obtain r w' where run: "registerWebhook (sample_webhook_deps 300000) sample_opts (sample_delivery 0) sample_webhook_world = (r, w')" by force
  from webhook_authentic_effect [OF sample_registered run] run sample_registered show ?thesis by blast
qed

end
