(* ===== verification/Job_Monitor.thy ===== *)
theory Job_Monitor
  imports Model_Stage Alerting
begin

text \<open>
  The external dead-man's switches of \<^verbatim>\<open>src/src/heartbeat\<close>: which check URL a component owns (\<^verbatim>\<open>checks.ts\<close>), the transport
  (\<^verbatim>\<open>ping.ts\<close>), the worker's beat and its liveness probe (\<^verbatim>\<open>emit.ts\<close>, \<^verbatim>\<open>worker-liveness.ts\<close>) and the monitor of a bounded job
  (\<^verbatim>\<open>backfill-monitor.ts\<close>).  A monitor is a record with the URLs it has pinged so far; the interval's callback is a step that any
  moment between two calls may take while the interval is armed.  The theorem describes every sequence of signals a monitor can send.
\<close>

section \<open>Check URLs\<close>

datatype heartbeat_component = HB_worker | HB_reconciliation_cron | HB_retention_cron | HB_evaluation_cron | HB_backfill | HB_technician_notes

primrec checkUrlVar :: "heartbeat_component \<Rightarrow> string" where
  "checkUrlVar HB_worker = ''WORKER_CHECK_URL''"
| "checkUrlVar HB_reconciliation_cron = ''RECONCILIATION_CHECK_URL''"
| "checkUrlVar HB_retention_cron = ''RETENTION_CHECK_URL''"
| "checkUrlVar HB_evaluation_cron = ''EVALUATION_CHECK_URL''"
| "checkUrlVar HB_backfill = ''BACKFILL_CHECK_URL''"
| "checkUrlVar HB_technician_notes = ''TECHNICIAN_NOTES_CHECK_URL''"

text \<open>The configuration, read by variable name.\<close>

definition checkUrlFor :: "(string \<Rightarrow> string option) \<Rightarrow> heartbeat_component \<Rightarrow> string option" where
  "checkUrlFor config component = config (checkUrlVar component)"

text \<open>The name of the missing variable a \<^verbatim>\<open>ConfigError\<close> carries; an empty text counts as absent.\<close>

definition requireCheckUrl :: "string \<Rightarrow> (string \<Rightarrow> string option) \<Rightarrow> heartbeat_component \<Rightarrow> string option" where
  "requireCheckUrl env config component =
     (if env \<in> set MONITORED_ENVS \<and> (case checkUrlFor config component of None \<Rightarrow> True | Some u \<Rightarrow> u = [])
      then Some (checkUrlVar component) else None)"

section \<open>The transport\<close>

datatype ping_error = HeartbeatPingError string | OtherPingError string

primrec sanitizePingError :: "ping_error \<Rightarrow> string" where
  "sanitizePingError (HeartbeatPingError message) = message"
| "sanitizePingError (OtherPingError name) = ''ping error ('' @ name @ '')''"

definition httpPing :: "(string \<Rightarrow> fetch_outcome) \<Rightarrow> string \<Rightarrow> ping_error + unit" where
  "httpPing fetch url =
     (case fetch url of
        FetchStatus s \<Rightarrow>
          if 200 \<le> s \<and> s < 300 then Inr () else Inl (HeartbeatPingError (''external check returned status '' @ uuid_text s))
      | FetchThrew aborted name \<Rightarrow>
          Inl (HeartbeatPingError (''external check unreachable ('' @ (if aborted then ''timeout'' else name) @ '')'')))"

section \<open>The worker's beat\<close>

text \<open>The probe: the run loop must be live when the worker is meant to consume, and its own connection must answer.\<close>

definition createWorkerLivenessProbe :: "bool \<Rightarrow> bool \<Rightarrow> js_error option \<Rightarrow> js_error + bool" where
  "createWorkerLivenessProbe shouldConsume isRunning redisPing =
     (if shouldConsume \<and> \<not> isRunning then Inr False
      else case redisPing of Some e \<Rightarrow> Inl e | None \<Rightarrow> Inr True)"

text \<open>One beat: the URLs pinged and the warnings logged, and whether the mirror ran.  A failing ping or mirror is swallowed.\<close>

record beat_trace =
  bt_pings :: "string list"
  bt_warnings :: "string list"
  bt_mirrored :: bool

definition beat ::
    "string \<Rightarrow> (js_error + bool) option \<Rightarrow> (string \<Rightarrow> ping_error + unit) \<Rightarrow> (ping_error + unit) option \<Rightarrow> beat_trace" where
  "beat url isHealthy ping mirror =
     (let healthy = (case isHealthy of None \<Rightarrow> True | Some (Inl e) \<Rightarrow> False | Some (Inr b) \<Rightarrow> b) in
      if \<not> healthy then \<lparr>bt_pings = [], bt_warnings = [''heartbeat skipped: dependencies unhealthy''], bt_mirrored = False\<rparr>
      else \<lparr>bt_pings = [url],
            bt_warnings =
              (case ping url of Inl e \<Rightarrow> [''heartbeat ping failed: '' @ sanitizePingError e] | Inr _ \<Rightarrow> [])
              @ (case mirror of Some (Inl e) \<Rightarrow> [''heartbeat DB mirror failed: '' @ sanitizePingError e] | _ \<Rightarrow> []),
            bt_mirrored = (mirror \<noteq> None)\<rparr>)"

section \<open>The job monitor\<close>

record signal_urls =
  su_start :: string
  su_progress :: string
  su_success :: string
  su_fail :: string

definition deriveJobSignalUrls :: "string \<Rightarrow> signal_urls" where
  "deriveJobSignalUrls base =
     (let b = rev (dropWhile (\<lambda>c. c = CHR ''/'') (rev base)) in
      \<lparr>su_start = b @ ''/start'', su_progress = b @ ''/log'', su_success = b, su_fail = b @ ''/fail''\<rparr>)"

record job_monitor =
  jm_signals :: signal_urls
  jm_stallThresholdMs :: int
  jm_armed :: bool
  jm_lastProgressAt :: int
  jm_terminated :: bool
  jm_started :: bool
  jm_lastCounts :: "(string \<times> nat) list"
  jm_pings :: "string list"

definition assertDistinctSignals :: "signal_urls \<Rightarrow> bool" where
  "assertDistinctSignals s \<longleftrightarrow> distinct [su_start s, su_progress s, su_success s, su_fail s]"

text \<open>\<open>None\<close> is the error a collision throws.\<close>

definition createBackfillMonitor :: "signal_urls \<Rightarrow> int \<Rightarrow> job_monitor option" where
  "createBackfillMonitor signals stallThresholdMs =
     (if assertDistinctSignals signals
      then Some \<lparr>jm_signals = signals, jm_stallThresholdMs = stallThresholdMs, jm_armed = False, jm_lastProgressAt = 0,
                 jm_terminated = False, jm_started = False, jm_lastCounts = [], jm_pings = []\<rparr>
      else None)"

text \<open>A ping that fails is logged and swallowed, so only that it was sent is kept.\<close>

definition runPing :: "string \<Rightarrow> job_monitor \<Rightarrow> job_monitor" where
  "runPing url m = m\<lparr>jm_pings := jm_pings m @ [url]\<rparr>"

definition tick :: "int \<Rightarrow> job_monitor \<Rightarrow> job_monitor" where
  "tick now m =
     (if jm_terminated m then m
      else if now - jm_lastProgressAt m \<le> jm_stallThresholdMs m then runPing (su_progress (jm_signals m)) m
      else m)"

definition monitor_start :: "int \<Rightarrow> job_monitor \<Rightarrow> job_monitor" where
  "monitor_start now m =
     (if jm_started m \<or> jm_terminated m then m
      else runPing (su_start (jm_signals m)) (m\<lparr>jm_started := True, jm_lastProgressAt := now, jm_armed := True\<rparr>))"

definition recordProgress :: "int \<Rightarrow> (string \<times> nat) list \<Rightarrow> job_monitor \<Rightarrow> job_monitor" where
  "recordProgress now counts m = m\<lparr>jm_lastProgressAt := now, jm_lastCounts := counts\<rparr>"

definition monitor_success :: "job_monitor \<Rightarrow> job_monitor" where
  "monitor_success m =
     (if jm_terminated m then m else runPing (su_success (jm_signals m)) (m\<lparr>jm_terminated := True, jm_armed := False\<rparr>))"

definition monitor_fail :: "job_monitor \<Rightarrow> job_monitor" where
  "monitor_fail m =
     (if jm_terminated m then m else runPing (su_fail (jm_signals m)) (m\<lparr>jm_terminated := True, jm_armed := False\<rparr>))"

definition monitor_stop :: "job_monitor \<Rightarrow> job_monitor" where
  "monitor_stop m = m\<lparr>jm_terminated := True, jm_armed := False\<rparr>"

section \<open>Every run of a monitor\<close>

text \<open>The job calls the operations in any order; the interval fires only while it is armed.\<close>

inductive monitor_step :: "job_monitor \<Rightarrow> job_monitor \<Rightarrow> bool" where
  start: "monitor_step m (monitor_start now m)"
| progress: "monitor_step m (recordProgress now counts m)"
| success: "monitor_step m (monitor_success m)"
| fail: "monitor_step m (monitor_fail m)"
| stop: "monitor_step m (monitor_stop m)"
| tick: "jm_armed m \<Longrightarrow> monitor_step m (tick now m)"

inductive monitor_reaches :: "job_monitor \<Rightarrow> job_monitor \<Rightarrow> bool" for m0 where
  here: "monitor_reaches m0 m0"
| further: "monitor_reaches m0 m \<Longrightarrow> monitor_step m m' \<Longrightarrow> monitor_reaches m0 m'"

text \<open>The sequence of signals: a start when the job started, progress signals only then, and at most one terminal signal, at the end.\<close>

definition signal_trace :: "job_monitor \<Rightarrow> nat \<Rightarrow> string list \<Rightarrow> bool" where
  "signal_trace m n t \<longleftrightarrow>
     jm_pings m = (if jm_started m then su_start (jm_signals m) # replicate n (su_progress (jm_signals m)) else []) @ t
     \<and> (t = [] \<or> jm_terminated m \<and> (t = [su_success (jm_signals m)] \<or> t = [su_fail (jm_signals m)]))
     \<and> jm_armed m = (jm_started m \<and> \<not> jm_terminated m)"

lemma signal_trace_step:
  assumes "monitor_step m m'" "signal_trace m n t"
  shows "jm_signals m' = jm_signals m \<and> (\<exists>n' t'. signal_trace m' n' t')"
  using assms
proof cases
  case (tick now)
  show ?thesis
  proof (cases "now - jm_lastProgressAt m \<le> jm_stallThresholdMs m")
    case True
    with tick assms(2) have "signal_trace m' (Suc n) []"
      by (auto simp: signal_trace_def Job_Monitor.tick_def runPing_def replicate_append_same)
    moreover have "jm_signals m' = jm_signals m" using tick by (simp add: Job_Monitor.tick_def runPing_def)
    ultimately show ?thesis by blast
  qed (use tick assms(2) in \<open>auto simp: Job_Monitor.tick_def\<close>)
next
  case (start now)
  show ?thesis
  proof (cases "jm_started m \<or> jm_terminated m")
    case False
    with start assms(2) have "signal_trace m' 0 []" by (auto simp: monitor_start_def signal_trace_def runPing_def)
    moreover have "jm_signals m' = jm_signals m" using start by (simp add: monitor_start_def runPing_def)
    ultimately show ?thesis by blast
  qed (use start assms(2) in \<open>auto simp: monitor_start_def\<close>)
qed (auto simp: signal_trace_def recordProgress_def monitor_success_def monitor_fail_def monitor_stop_def runPing_def split: if_splits)

lemma derived_distinct: "assertDistinctSignals (deriveJobSignalUrls base)"
  by (simp add: assertDistinctSignals_def deriveJobSignalUrls_def Let_def)

lemma reached_trace:
  assumes "monitor_reaches m0 m" "signal_trace m0 n0 t0"
  shows "jm_signals m = jm_signals m0 \<and> (\<exists>n t. signal_trace m n t)"
  using assms(1)
proof induction
  case here
  then show ?case using assms(2) by blast
next
  case (further m m')
  from further.IH obtain n t where "signal_trace m n t" by blast
  from signal_trace_step [OF further.hyps(2) this] further.IH show ?case by simp
qed

text \<open>C24: A job monitor built on a derived check URL is always accepted, and whatever order its operations and interval ticks come in, the URLs it pings are a
  start signal once the job started, then progress signals, then at most one terminal signal, success or fail, after which nothing more is sent.  The four
  URLs differ, so the check is turned green at most once, by the last ping, and only when no failure was signalled.\<close>

theorem job_signals:
  assumes "u = deriveJobSignalUrls base" "createBackfillMonitor u stall = Some m0" "monitor_reaches m0 m"
  shows "distinct [su_start u, su_progress u, su_success u, su_fail u]
    \<and> (\<exists>n t. jm_pings m = (if jm_started m then su_start u # replicate n (su_progress u) else []) @ t
           \<and> (t = [] \<or> jm_terminated m \<and> (t = [su_success u] \<or> t = [su_fail u])))
    \<and> count_list (jm_pings m) (su_success u) \<le> 1
    \<and> (su_success u \<in> set (jm_pings m) \<longrightarrow> last (jm_pings m) = su_success u \<and> su_fail u \<notin> set (jm_pings m))"
proof -
  have dist: "distinct [su_start u, su_progress u, su_success u, su_fail u]"
    using derived_distinct [of base] assms(1) unfolding assertDistinctSignals_def by blast
  have m0: "jm_signals m0 = u" "signal_trace m0 0 []"
    using assms(2) by (auto simp: createBackfillMonitor_def signal_trace_def split: if_splits)
  obtain n t where trace: "signal_trace m n t" "jm_signals m = u"
    using reached_trace [OF assms(3) m0(2)] m0(1) by auto
  then have "jm_pings m = (if jm_started m then su_start u # replicate n (su_progress u) else []) @ t"
    "t = [] \<or> jm_terminated m \<and> (t = [su_success u] \<or> t = [su_fail u])"
    by (simp_all add: signal_trace_def)
  with dist show ?thesis by auto
qed

lemma sample_run:
  "monitor_reaches m0 (monitor_success (recordProgress 7 [] (tick 6 (monitor_start 5 m0))))"
  if "jm_armed (monitor_start 5 m0)" for m0
  by (rule further [OF further [OF further [OF further [OF here monitor_step.start] monitor_step.tick [OF that]] monitor_step.progress] monitor_step.success])

theorem job_signals_witness:
  "\<exists>m0 (m :: job_monitor). createBackfillMonitor (deriveJobSignalUrls ''https://hc/x/'') 60 = Some m0
     \<and> jm_pings m = [''https://hc/x/start'', ''https://hc/x/log'', ''https://hc/x'']
     \<and> count_list (jm_pings m) (su_success (deriveJobSignalUrls ''https://hc/x/'')) \<le> 1"
proof -
  let ?u = "deriveJobSignalUrls ''https://hc/x/''"
  obtain m0 where m0: "createBackfillMonitor ?u 60 = Some m0" by (simp add: createBackfillMonitor_def derived_distinct)
  let ?m = "monitor_success (recordProgress 7 [] (tick 6 (monitor_start 5 m0)))"
  have "monitor_reaches m0 ?m"
    by (rule sample_run) (use m0 in \<open>auto simp: createBackfillMonitor_def monitor_start_def runPing_def split: if_splits\<close>)
  note green = conjunct1 [OF conjunct2 [OF conjunct2 [OF job_signals [OF refl m0 this]]]]
  have "m0 = \<lparr>jm_signals = ?u, jm_stallThresholdMs = 60, jm_armed = False, jm_lastProgressAt = 0,
      jm_terminated = False, jm_started = False, jm_lastCounts = [], jm_pings = []\<rparr>"
    using m0 by (simp add: createBackfillMonitor_def derived_distinct)
  then have "jm_pings ?m = [''https://hc/x/start'', ''https://hc/x/log'', ''https://hc/x'']"
    by (simp add: monitor_start_def tick_def recordProgress_def monitor_success_def runPing_def deriveJobSignalUrls_def)
  from m0 this green show ?thesis by (intro exI [of _ m0] exI [of _ ?m] conjI)
qed

end
