(* ===== verification/Backfill.thy ===== *)
theory Backfill
  imports Worker Job_Monitor
begin

text \<open>
  The historical backfill of \<^verbatim>\<open>src/src/backfill\<close>: its guards, the window, the checkpoint, the two ingests, the sweep, the drain and the
  orchestrator \<^verbatim>\<open>run.ts\<close>, with the repositories \<^verbatim>\<open>backfill-runs-repo.ts\<close> and \<^verbatim>\<open>backfill-run-calls-repo.ts\<close> and the entry point
  \<^verbatim>\<open>src/src/scripts/run-backfill.ts\<close>.  The state is the shared database with the two backfill tables, the advisory locks held and the job
  monitor.  The Dialpad listing, \<^verbatim>\<open>JSON.stringify\<close> and \<^verbatim>\<open>JSON.parse\<close>, which checkpoint writes fail, and what the worker fleet
  and the monitor's interval do while the drain sleeps are parameters.
\<close>

section \<open>Errors and guards\<close>

datatype backfill_reason =
    R_not_live_environment | R_staging_requires_synthetic | R_production_no_synthetic | R_missing_consent_gates | R_already_running
  | R_resumable_run_exists | R_ambiguous_resumable_run | R_resume_window_mismatch | R_invalid_checkpoint | R_missing_started_at
  | R_invalid_synthetic_fixture | R_match_keys_unsupported | R_checkpoint_failed | R_invalid_window

text \<open>What a run can throw: its own error with the sanitized context, an error of the listing, or any other.\<close>

datatype backfill_thrown = BackfillError backfill_reason json_object | ListingError fetch_error | OtherThrow js_error

datatype backfill_mode = Production_real | Staging_synthetic

definition assertBackfillEnvironment :: "string \<Rightarrow> bool \<Rightarrow> backfill_thrown + backfill_mode" where
  "assertBackfillEnvironment env hasFixture =
     (let ctx = [(''node_env'', JStr env)] in
      if env = ''development'' \<or> env = ''test'' then Inl (BackfillError R_not_live_environment ctx)
      else if env = ''staging'' then
        (if \<not> hasFixture then Inl (BackfillError R_staging_requires_synthetic ctx) else Inr Staging_synthetic)
      else if hasFixture then Inl (BackfillError R_production_no_synthetic ctx)
      else Inr Production_real)"

definition REQUIRED_PROCESSING_GATE_TYPES :: "string list" where
  "REQUIRED_PROCESSING_GATE_TYPES =
     [''dialpad_recording_consent'', ''signed_services_agreement'', ''signed_data_processing_addendum'',
      ''anthropic_no_training_confirmation'', ''anthropic_data_retention_confirmation'']"

definition SERVICETITAN_MATCHING_CONSENT_GATE :: string where "SERVICETITAN_MATCHING_CONSENT_GATE = ''servicetitan_matching_consent''"

definition requiredGateTypesFor :: "bool \<Rightarrow> string list" where
  "requiredGateTypesFor requireServiceTitanMatching =
     (if requireServiceTitanMatching then REQUIRED_PROCESSING_GATE_TYPES @ [SERVICETITAN_MATCHING_CONSENT_GATE]
      else REQUIRED_PROCESSING_GATE_TYPES)"

text \<open>The gates are read from the table of recorded consents, here the list of the recorded types.\<close>

definition checkProcessingGates :: "string list \<Rightarrow> bool \<Rightarrow> string list" where
  "checkProcessingGates recorded requireServiceTitanMatching =
     filter (\<lambda>g. g \<notin> set recorded) (requiredGateTypesFor requireServiceTitanMatching)"

definition deriveServiceTitanMatchingRequirement :: "bool \<Rightarrow> bool" where
  "deriveServiceTitanMatchingRequirement writesMatchKeys = writesMatchKeys"

definition assertBackfillProcessingGates :: "string list \<Rightarrow> bool \<Rightarrow> backfill_thrown + unit" where
  "assertBackfillProcessingGates recorded writesMatchKeys =
     (let missing = checkProcessingGates recorded (deriveServiceTitanMatchingRequirement writesMatchKeys) in
      if missing = [] then Inr () else Inl (BackfillError R_missing_consent_gates [(''missing'', JArr (map JStr missing))]))"

section \<open>The window\<close>

record window_bounds =
  wb_fromMs :: int
  wb_toMs :: int

definition computeSince :: "int \<Rightarrow> int \<Rightarrow> int" where
  "computeSince fromMs maxCallMinutes = fromMs - maxCallMinutes * 60000"

datatype membership = Include | Skip

definition callMembership :: "recent_call \<Rightarrow> window_bounds \<Rightarrow> membership" where
  "callMembership call bounds =
     (case rc_endedAt call of
        Some t \<Rightarrow> if t \<ge> of_int (wb_fromMs bounds) \<and> t \<le> of_int (wb_toMs bounds) then Include else Skip
      | None \<Rightarrow>
          if (case rc_state call of Some s \<Rightarrow> toLowerCase s \<in> set NON_TERMINAL_CALL_STATES | None \<Rightarrow> False) then Skip
          else (case rc_startedAt call of Some t \<Rightarrow> if t \<le> of_int (wb_toMs bounds) then Include else Skip | None \<Rightarrow> Skip))"

section \<open>The checkpoint\<close>

datatype backfill_phase = PH_sweep | PH_drain

primrec phase_name :: "backfill_phase \<Rightarrow> string" where
  "phase_name PH_sweep = ''sweep''"
| "phase_name PH_drain = ''drain''"

record backfill_checkpoint =
  cp_phase :: backfill_phase
  cp_watermarkStartedAtMs :: "rat option"
  cp_callsSeen :: nat
  cp_seededTotal :: nat
  cp_terminalCount :: nat

definition checkpoint_json :: "backfill_checkpoint \<Rightarrow> json" where
  "checkpoint_json cp = JObj
     [(''v'', JNum 1), (''phase'', JStr (phase_name (cp_phase cp))),
      (''watermarkStartedAtMs'', case cp_watermarkStartedAtMs cp of None \<Rightarrow> JNull | Some w \<Rightarrow> JNum w),
      (''callsSeen'', JNum (of_nat (cp_callsSeen cp))), (''seededTotal'', JNum (of_nat (cp_seededTotal cp))),
      (''terminalCount'', JNum (of_nat (cp_terminalCount cp)))]"

definition encodeCheckpoint :: "(json \<Rightarrow> string) \<Rightarrow> backfill_checkpoint \<Rightarrow> string" where
  "encodeCheckpoint stringify cp = stringify (checkpoint_json cp)"

definition json_count :: "json option \<Rightarrow> nat option" where
  "json_count v = (case v of Some (JNum r) \<Rightarrow> if r \<ge> 0 \<and> of_int \<lfloor>r\<rfloor> = r then Some (nat \<lfloor>r\<rfloor>) else None | _ \<Rightarrow> None)"

definition json_watermark :: "json option \<Rightarrow> rat option option" where
  "json_watermark v = (case v of Some JNull \<Rightarrow> Some None | Some (JNum r) \<Rightarrow> Some (Some r) | _ \<Rightarrow> None)"

definition json_phase :: "json option \<Rightarrow> backfill_phase option" where
  "json_phase v = (case v of Some (JStr s) \<Rightarrow> parse_enum phase_name [PH_sweep, PH_drain] s | _ \<Rightarrow> None)"

definition backfillCheckpointSchema :: "json \<Rightarrow> backfill_checkpoint option" where
  "backfillCheckpointSchema j =
     (case j of
        JObj kvs \<Rightarrow>
          (case (json_phase (map_of kvs ''phase''), json_watermark (map_of kvs ''watermarkStartedAtMs''),
                 json_count (map_of kvs ''callsSeen''), json_count (map_of kvs ''seededTotal''), json_count (map_of kvs ''terminalCount'')) of
             (Some p, Some w, Some c, Some s, Some t) \<Rightarrow>
               if map_of kvs ''v'' = Some (JNum 1)
               then Some \<lparr>cp_phase = p, cp_watermarkStartedAtMs = w, cp_callsSeen = c, cp_seededTotal = s, cp_terminalCount = t\<rparr> else None
           | _ \<Rightarrow> None)
      | _ \<Rightarrow> None)"

definition decodeCheckpoint :: "(string \<Rightarrow> json option) \<Rightarrow> string option \<Rightarrow> backfill_thrown + backfill_checkpoint option" where
  "decodeCheckpoint json_parse raw =
     (case raw of
        None \<Rightarrow> Inr None
      | Some text \<Rightarrow>
          (case json_parse text of
             None \<Rightarrow> Inl (BackfillError R_invalid_checkpoint [])
           | Some j \<Rightarrow> (case backfillCheckpointSchema j of None \<Rightarrow> Inl (BackfillError R_invalid_checkpoint []) | Some cp \<Rightarrow> Inr (Some cp))))"

definition shouldSkip :: "rat \<Rightarrow> rat option \<Rightarrow> bool" where
  "shouldSkip startedAtMs watermark = (case watermark of None \<Rightarrow> False | Some w \<Rightarrow> startedAtMs > w)"

definition advanceWatermark :: "rat option \<Rightarrow> rat list \<Rightarrow> rat" where
  "advanceWatermark current pageStartedAtMs =
     (let pageMin = Min (set pageStartedAtMs) in case current of None \<Rightarrow> pageMin | Some w \<Rightarrow> min w pageMin)"

definition pageStartedAtFailure :: "recent_call list \<Rightarrow> string option" where
  "pageStartedAtFailure calls = map_option rc_callId (find (\<lambda>c. rc_startedAt c = None) calls)"

section \<open>The tables\<close>

record backfill_run_row =
  br_id :: uuid
  br_window_start :: int
  br_window_end :: int
  br_last_checkpoint :: "string option"
  br_status :: string
  br_created_at :: int
  br_updated_at :: int

record backfill_run_call_row =
  bc_backfill_run_id :: uuid
  bc_call_id :: string
  bc_created_at :: int

record backfill_world =
  bw_db :: db
  backfill_runs :: "backfill_run_row list"
  backfill_run_calls :: "backfill_run_call_row list"
  advisory_locks :: "int list"
  bw_monitor :: job_monitor
  bw_saves :: nat

type_synonym 'a bop = "(backfill_world, backfill_thrown, 'a) op"

definition RESUMABLE_BACKFILL_RUN_STATUSES :: "string list" where
  "RESUMABLE_BACKFILL_RUN_STATUSES = [''running'', ''interrupted'', ''failed'']"

definition isResumable :: "string \<Rightarrow> bool" where
  "isResumable status \<longleftrightarrow> status \<in> set RESUMABLE_BACKFILL_RUN_STATUSES"

definition resumable_for :: "window_bounds \<Rightarrow> backfill_run_row \<Rightarrow> bool" where
  "resumable_for w r \<longleftrightarrow> br_window_start r = wb_fromMs w \<and> br_window_end r = wb_toMs w \<and> isResumable (br_status r)"

text \<open>The insert fails on the unique index over the resumable runs of a window.\<close>

definition startRun :: "pg \<Rightarrow> window_bounds \<Rightarrow> string \<Rightarrow> backfill_run_row bop" where
  "startRun pg window status w =
     (if isResumable status \<and> sql_exists (resumable_for window) (backfill_runs w)
      then (Inl (OtherThrow (plain_error ''duplicate key value violates unique constraint'')), w)
      else
        let row = \<lparr>br_id = next_uuid (bw_db w), br_window_start = wb_fromMs window, br_window_end = wb_toMs window,
                   br_last_checkpoint = None, br_status = status, br_created_at = pg_now pg, br_updated_at = pg_now pg\<rparr>
        in (Inr row, w\<lparr>bw_db := (bw_db w)\<lparr>next_uuid := Suc (next_uuid (bw_db w))\<rparr>, backfill_runs := backfill_runs w @ [row]\<rparr>))"

definition coalesce :: "'a option \<Rightarrow> 'a option \<Rightarrow> 'a option" where
  "coalesce a b = (case a of Some x \<Rightarrow> Some x | None \<Rightarrow> b)"

definition checkpoint_row :: "pg \<Rightarrow> string option \<Rightarrow> string option \<Rightarrow> backfill_run_row \<Rightarrow> backfill_run_row" where
  "checkpoint_row pg lastCheckpoint status r =
     r\<lparr>br_last_checkpoint := coalesce lastCheckpoint (br_last_checkpoint r),
       br_status := (case status of Some s \<Rightarrow> s | None \<Rightarrow> br_status r), br_updated_at := pg_now pg\<rparr>"

definition updateCheckpoint :: "pg \<Rightarrow> uuid \<Rightarrow> string option \<Rightarrow> string option \<Rightarrow> backfill_world \<Rightarrow> backfill_world" where
  "updateCheckpoint pg i lastCheckpoint status w =
     w\<lparr>backfill_runs := sql_update (\<lambda>r. br_id r = i) (checkpoint_row pg lastCheckpoint status) (backfill_runs w)\<rparr>"

definition getRun :: "uuid \<Rightarrow> backfill_world \<Rightarrow> backfill_run_row option" where
  "getRun i w = first_row (sql_select (\<lambda>r. br_id r = i) (backfill_runs w))"

definition findResumableRun :: "window_bounds \<Rightarrow> backfill_world \<Rightarrow> backfill_thrown + backfill_run_row option" where
  "findResumableRun window w =
     (let rows = sort_key br_created_at (sql_select (resumable_for window) (backfill_runs w)) in
      if length rows > 1 then Inl (BackfillError R_ambiguous_resumable_run [(''count'', JStr (uuid_text (length rows)))])
      else Inr (first_row rows))"

definition deleteRunCalls :: "uuid \<Rightarrow> backfill_world \<Rightarrow> backfill_world" where
  "deleteRunCalls i w = w\<lparr>backfill_run_calls := sql_delete (\<lambda>r. bc_backfill_run_id r = i) (backfill_run_calls w)\<rparr>"

definition reset_row :: "pg \<Rightarrow> backfill_run_row \<Rightarrow> backfill_run_row" where
  "reset_row pg r = r\<lparr>br_status := ''running'', br_last_checkpoint := None, br_updated_at := pg_now pg\<rparr>"

definition resetRun :: "pg \<Rightarrow> uuid \<Rightarrow> backfill_world \<Rightarrow> backfill_run_row option \<times> backfill_world" where
  "resetRun pg i w =
     (let p = (\<lambda>r. br_id r = i) in
      case first_row (sql_updated p (reset_row pg) (backfill_runs w)) of
        None \<Rightarrow> (None, w)
      | Some row \<Rightarrow> (Some row, deleteRunCalls i (w\<lparr>backfill_runs := sql_update p (reset_row pg) (backfill_runs w)\<rparr>)))"

text \<open>A tracking row refers to a run and to a call; the foreign keys refuse one whose target is missing.\<close>

definition insertRunCallIfAbsent :: "pg \<Rightarrow> uuid \<Rightarrow> string \<Rightarrow> bool bop" where
  "insertRunCallIfAbsent pg runId callId w =
     (if sql_exists (\<lambda>r. bc_backfill_run_id r = runId \<and> bc_call_id r = callId) (backfill_run_calls w) then (Inr False, w)
      else if getRun runId w = None \<or> getCallState callId (bw_db w) = None
      then (Inl (OtherThrow (plain_error ''violates foreign key constraint'')), w)
      else (Inr True, w\<lparr>backfill_run_calls := backfill_run_calls w
              @ [\<lparr>bc_backfill_run_id = runId, bc_call_id = callId, bc_created_at = pg_now pg\<rparr>]\<rparr>))"

definition countRunCalls :: "uuid \<Rightarrow> backfill_world \<Rightarrow> nat" where
  "countRunCalls runId w = length (sql_select (\<lambda>r. bc_backfill_run_id r = runId) (backfill_run_calls w))"

section \<open>Terminal calls\<close>

definition isCallTerminal :: "string \<Rightarrow> bool \<Rightarrow> bool" where
  "isCallTerminal status deadLettered \<longleftrightarrow> deadLettered \<or> status \<in> set UPSERT_PROTECTED_CALL_STATE_STATUSES"

text \<open>The join is outer: a tracked call without a row is not terminal unless it is dead-lettered.\<close>

definition tracked_terminal :: "db \<Rightarrow> string \<Rightarrow> bool" where
  "tracked_terminal db callId \<longleftrightarrow>
     (case getCallState callId db of Some row \<Rightarrow> cs_status row \<in> set UPSERT_PROTECTED_CALL_STATE_STATUSES | None \<Rightarrow> False)
     \<or> hasDeadLetter callId db"

definition countNonTerminalTrackedCalls :: "uuid \<Rightarrow> backfill_world \<Rightarrow> nat" where
  "countNonTerminalTrackedCalls runId w =
     length (sql_select (\<lambda>r. bc_backfill_run_id r = runId \<and> \<not> tracked_terminal (bw_db w) (bc_call_id r)) (backfill_run_calls w))"

section \<open>The two ingests\<close>

record backfill_ingest =
  bi_alreadyInPipeline :: "string \<Rightarrow> bool bop"
  bi_ingestGap :: "recent_call \<Rightarrow> unit bop"

definition in_db :: "'a hop \<Rightarrow> 'a bop" where
  "in_db m w = (case m (bw_db w) of (Inl e, db) \<Rightarrow> (Inl (OtherThrow e), w\<lparr>bw_db := db\<rparr>) | (Inr a, db) \<Rightarrow> (Inr a, w\<lparr>bw_db := db\<rparr>))"

definition BACKFILL_SOURCE :: string where "BACKFILL_SOURCE = ''dialpad-backfill''"

definition backfill_seed :: "pg \<Rightarrow> string \<Rightarrow> recent_call \<Rightarrow> bool hop" where
  "backfill_seed pg source call = run_db (seedCallStateIfAbsent pg
     \<lparr>ci_callId = rc_callId call, ci_source = source, ci_sourceMetadata = Some (listed_metadata call),
      ci_currentStage = pipeline_stage_name (PIPELINE_STAGES ! 0), ci_status = STATUS_PROCESSING\<rparr>)"

definition backfillAlreadyInPipeline :: "string \<Rightarrow> db \<Rightarrow> bool" where
  "backfillAlreadyInPipeline callId db =
     (case getCallState callId db of
        None \<Rightarrow> False
      | Some row \<Rightarrow>
          let pristineSeed = (cs_current_stage row = pipeline_stage_name (PIPELINE_STAGES ! 0) \<and> cs_status row = STATUS_PROCESSING)
          in if \<not> pristineSeed then True else hasDeadLetter callId db)"

definition createPgBackfillQueueIngest ::
    "pg \<Rightarrow> (string \<Rightarrow> string) \<Rightarrow> (string \<Rightarrow> js_error option) \<Rightarrow> uuid \<Rightarrow> backfill_ingest" where
  "createPgBackfillQueueIngest pg digest refuses runId =
     \<lparr>bi_alreadyInPipeline = (\<lambda>callId. in_db (run_read (backfillAlreadyInPipeline callId))),
      bi_ingestGap = (\<lambda>call.
        op_bind (in_db (backfill_seed pg BACKFILL_SOURCE call)) (\<lambda>_.
        op_bind (insertRunCallIfAbsent pg runId (rc_callId call)) (\<lambda>_.
        in_db (case refuses (jobIdForCall digest (rc_callId call)) of
                 Some e \<Rightarrow> op_throw e
               | None \<Rightarrow> run_write (enqueueCall digest (rc_callId call))))))\<rparr>"

definition createPgBackfillInlineIngest :: "pg \<Rightarrow> (string \<Rightarrow> unit hop) \<Rightarrow> uuid \<Rightarrow> backfill_ingest" where
  "createPgBackfillInlineIngest pg runCall runId =
     \<lparr>bi_alreadyInPipeline = (\<lambda>callId. in_db (run_read (backfillAlreadyInPipeline callId))),
      bi_ingestGap = (\<lambda>call.
        op_bind (in_db (backfill_seed pg BACKFILL_SYNTHETIC_SOURCE call)) (\<lambda>_.
        op_bind (insertRunCallIfAbsent pg runId (rc_callId call)) (\<lambda>_.
        in_db (runCall (rc_callId call)))))\<rparr>"

section \<open>Choosing the run\<close>

text \<open>
  The dependencies of a run.  \<open>bf_save_fails\<close> and \<open>bf_status_fails\<close> say which writes of the run row throw: the checkpoint write by its number,
  the status write by the status.  \<open>bf_fleet\<close> is what the worker fleet does to the database during a sleep of the drain, and \<open>bf_ticks\<close> are the moments
  the monitor's interval fires meanwhile.
\<close>

record backfill_deps =
  bf_pg :: pg
  bf_env :: string
  BACKFILL_MAX_CALL_MINUTES :: int
  bf_window :: window_bounds
  bf_list :: "nat \<Rightarrow> int \<Rightarrow> string option \<Rightarrow> fetch_error + recent_page"
  bf_ingestFor :: "uuid \<Rightarrow> backfill_ingest"
  bf_resume :: "string option"
  bf_restartFromScratch :: bool
  bf_emitCheckpointAlert :: "fail_context \<Rightarrow> unit hop"
  bf_save_fails :: "nat \<Rightarrow> js_error option"
  bf_status_fails :: "string \<Rightarrow> js_error option"
  bf_stringify :: "json \<Rightarrow> string"
  bf_json_parse :: "string \<Rightarrow> json option"
  bf_uuid_in :: "string \<Rightarrow> uuid option"
  bf_started_at :: int
  bf_clock :: "nat \<Rightarrow> int"
  bf_fleet :: "nat \<Rightarrow> db \<Rightarrow> db"
  bf_ticks :: "nat \<Rightarrow> int list"

definition BACKFILL_ADVISORY_LOCK_KEY :: int where "BACKFILL_ADVISORY_LOCK_KEY = 8100002"

definition assertResumeWindowMatches :: "backfill_run_row \<Rightarrow> window_bounds \<Rightarrow> string \<Rightarrow> backfill_thrown + unit" where
  "assertResumeWindowMatches existing window runId =
     (if br_window_start existing \<noteq> wb_fromMs window \<or> br_window_end existing \<noteq> wb_toMs window
      then Inl (BackfillError R_resume_window_mismatch [(''job_id'', JStr runId)]) else Inr ())"

text \<open>The run \<^verbatim>\<open>--resume\<close> names, when it may be continued in the requested window.  Postgres refuses a text that is no uuid.\<close>

definition resumable_run :: "backfill_deps \<Rightarrow> string \<Rightarrow> backfill_world \<Rightarrow> backfill_thrown + backfill_run_row" where
  "resumable_run deps runId w =
     (case bf_uuid_in deps runId of
        None \<Rightarrow> Inl (OtherThrow (plain_error ''invalid input syntax for type uuid''))
      | Some i \<Rightarrow>
          (case getRun i w of
             None \<Rightarrow> Inl (BackfillError R_resumable_run_exists [(''job_id'', JStr runId)])
           | Some existing \<Rightarrow>
               if \<not> isResumable (br_status existing) then Inl (BackfillError R_resumable_run_exists [(''job_id'', JStr runId)])
               else (case assertResumeWindowMatches existing (bf_window deps) runId of Inl e \<Rightarrow> Inl e | Inr _ \<Rightarrow> Inr existing)))"

definition resolveRun :: "backfill_deps \<Rightarrow> (backfill_run_row \<times> backfill_checkpoint option) bop" where
  "resolveRun deps w =
     (if bf_restartFromScratch deps then
        (case bf_resume deps of
           None \<Rightarrow> (Inl (BackfillError R_invalid_window []), w)
         | Some runId \<Rightarrow>
             (case resumable_run deps runId w of
                Inl e \<Rightarrow> (Inl e, w)
              | Inr existing \<Rightarrow>
                  (case resetRun (bf_pg deps) (br_id existing) w of
                     (None, w1) \<Rightarrow> (Inl (BackfillError R_resumable_run_exists [(''job_id'', JStr runId)]), w1)
                   | (Some row, w1) \<Rightarrow> (Inr (row, None), w1))))
      else
        (case bf_resume deps of
           Some runId \<Rightarrow>
             (case resumable_run deps runId w of
                Inl e \<Rightarrow> (Inl e, w)
              | Inr existing \<Rightarrow>
                  (case decodeCheckpoint (bf_json_parse deps) (br_last_checkpoint existing) of
                     Inl e \<Rightarrow> (Inl e, w)
                   | Inr checkpoint \<Rightarrow>
                       (Inr (existing, checkpoint),
                        if br_status existing \<noteq> ''running'' then updateCheckpoint (bf_pg deps) (br_id existing) None (Some ''running'') w else w)))
         | None \<Rightarrow>
             (case findResumableRun (bf_window deps) w of
                Inl e \<Rightarrow> (Inl e, w)
              | Inr (Some r) \<Rightarrow> (Inl (BackfillError R_resumable_run_exists [(''job_id'', JStr (uuid_text (br_id r)))]), w)
              | Inr None \<Rightarrow> op_bind (startRun (bf_pg deps) (bf_window deps) ''running'') (\<lambda>run. op_return (run, None)) w)))"

section \<open>Writing the run row\<close>

definition saveCheckpoint :: "backfill_deps \<Rightarrow> uuid \<Rightarrow> string \<Rightarrow> backfill_world \<Rightarrow> (js_error + unit) \<times> backfill_world" where
  "saveCheckpoint deps i text w =
     (let w1 = w\<lparr>bw_saves := Suc (bw_saves w)\<rparr> in
      case bf_save_fails deps (bw_saves w) of
        Some e \<Rightarrow> (Inl e, w1)
      | None \<Rightarrow> (Inr (), updateCheckpoint (bf_pg deps) i (Some text) None w1))"

definition setRunStatus :: "backfill_deps \<Rightarrow> uuid \<Rightarrow> string \<Rightarrow> unit bop" where
  "setRunStatus deps i status w =
     (case bf_status_fails deps status of
        Some e \<Rightarrow> (Inl (OtherThrow e), w)
      | None \<Rightarrow> (Inr (), updateCheckpoint (bf_pg deps) i None (Some status) w))"

definition signal :: "(job_monitor \<Rightarrow> job_monitor) \<Rightarrow> backfill_world \<Rightarrow> backfill_world" where
  "signal f w = w\<lparr>bw_monitor := f (bw_monitor w)\<rparr>"

definition fail_run :: "backfill_deps \<Rightarrow> uuid \<Rightarrow> backfill_world \<Rightarrow> backfill_world" where
  "fail_run deps i w = signal monitor_fail (snd (setRunStatus deps i ''failed'' w))"

definition checkpoint_context :: "backfill_deps \<Rightarrow> uuid \<Rightarrow> backfill_checkpoint \<Rightarrow> fail_context" where
  "checkpoint_context deps i cp =
     [(''component'', ''backfill''), (''environment'', bf_env deps), (''job_id'', uuid_text i), (''phase'', phase_name (cp_phase cp))]"

definition writeCheckpoint :: "backfill_deps \<Rightarrow> uuid \<Rightarrow> backfill_checkpoint \<Rightarrow> unit bop" where
  "writeCheckpoint deps i cp w =
     (case saveCheckpoint deps i (encodeCheckpoint (bf_stringify deps) cp) w of
        (Inr _, w1) \<Rightarrow> (Inr (), w1)
      | (Inl _, w1) \<Rightarrow>
          op_bind (in_db (bf_emitCheckpointAlert deps (checkpoint_context deps i cp)))
            (\<lambda>_ w2. (Inl (BackfillError R_checkpoint_failed [(''job_id'', JStr (uuid_text i))]), fail_run deps i w2)) w1)"

section \<open>The sweep\<close>

fun backfill_calls ::
    "backfill_ingest \<Rightarrow> window_bounds \<Rightarrow> rat option \<Rightarrow> recent_call list \<Rightarrow> string list \<Rightarrow> nat \<Rightarrow> (string list \<times> nat) bop" where
  "backfill_calls ingest window watermark [] seen seeded = op_return (seen, seeded)"
| "backfill_calls ingest window watermark (call # calls) seen seeded =
     (if rc_callId call \<in> set seen then backfill_calls ingest window watermark calls seen seeded
      else if shouldSkip (the (rc_startedAt call)) watermark
      then backfill_calls ingest window watermark calls (seen @ [rc_callId call]) seeded
      else if callMembership call window = Skip
      then backfill_calls ingest window watermark calls (seen @ [rc_callId call]) seeded
      else op_bind (bi_alreadyInPipeline ingest (rc_callId call)) (\<lambda>inPipeline.
        if inPipeline then backfill_calls ingest window watermark calls (seen @ [rc_callId call]) seeded
        else op_bind (bi_ingestGap ingest call) (\<lambda>_.
          backfill_calls ingest window watermark calls (seen @ [rc_callId call]) (seeded + 1))))"

record swept_state =
  ss_watermark :: "rat option"
  ss_callsSeen :: nat
  ss_seededTotal :: nat

definition page_watermark :: "rat option \<Rightarrow> recent_call list \<Rightarrow> rat option" where
  "page_watermark watermark calls =
     (if calls = [] then watermark else Some (advanceWatermark watermark (map (\<lambda>c. the (rc_startedAt c)) calls)))"

text \<open>One page: refuse an unorderable page, ingest its calls, advance the watermark, write the checkpoint.\<close>

definition backfill_page ::
    "backfill_deps \<Rightarrow> uuid \<Rightarrow> backfill_ingest \<Rightarrow> recent_call list \<Rightarrow> rat option \<Rightarrow> string list \<Rightarrow> nat \<Rightarrow> (rat option \<times> string list \<times> nat) bop" where
  "backfill_page deps i ingest calls watermark seen seeded =
     (case pageStartedAtFailure calls of
        Some badId \<Rightarrow> op_throw (BackfillError R_missing_started_at [(''call_id'', JStr badId)])
      | None \<Rightarrow>
          op_bind (backfill_calls ingest (bf_window deps) watermark calls seen seeded) (\<lambda>(seen1, seeded1).
          let watermark1 = page_watermark watermark calls in
          op_bind (writeCheckpoint deps i \<lparr>cp_phase = PH_sweep, cp_watermarkStartedAtMs = watermark1, cp_callsSeen = length seen1,
                     cp_seededTotal = seeded1, cp_terminalCount = 0\<rparr>) (\<lambda>_.
          op_return (watermark1, seen1, seeded1))))"

text \<open>The loop over pages; a listing whose cursors never end is a sweep that never ends.\<close>

partial_function (option) backfill_pages ::
    "backfill_deps \<Rightarrow> uuid \<Rightarrow> backfill_ingest \<Rightarrow> int \<Rightarrow> nat \<Rightarrow> string option \<Rightarrow> rat option \<Rightarrow> string list \<Rightarrow> nat \<Rightarrow> backfill_world
      \<Rightarrow> ((backfill_thrown + swept_state) \<times> backfill_world) option" where
  "backfill_pages deps i ingest since n cursor watermark seen seeded w =
     (case bf_list deps n since cursor of
        Inl e \<Rightarrow> Some (Inl (ListingError e), w)
      | Inr page \<Rightarrow>
          (case backfill_page deps i ingest (rp_calls page) watermark seen seeded w of
             (Inl e, w1) \<Rightarrow> Some (Inl e, w1)
           | (Inr (watermark1, seen1, seeded1), w1) \<Rightarrow>
               if rp_cursor page \<noteq> None \<and> rp_cursor page = cursor then Some (Inl (ListingError cursor_stuck), w1)
               else if rp_cursor page = None
               then Some (Inr \<lparr>ss_watermark = watermark1, ss_callsSeen = length seen1, ss_seededTotal = seeded1\<rparr>, w1)
               else backfill_pages deps i ingest since (Suc n) (rp_cursor page) watermark1 seen1 seeded1 w1))"

definition backfill_sweep ::
    "backfill_deps \<Rightarrow> uuid \<Rightarrow> backfill_ingest \<Rightarrow> backfill_checkpoint option \<Rightarrow> backfill_world \<Rightarrow> ((backfill_thrown + swept_state) \<times> backfill_world) option" where
  "backfill_sweep deps i ingest checkpoint =
     backfill_pages deps i ingest (computeSince (wb_fromMs (bf_window deps)) (BACKFILL_MAX_CALL_MINUTES deps)) 0 None
       (Option.bind checkpoint cp_watermarkStartedAtMs) [] (case checkpoint of Some cp \<Rightarrow> cp_seededTotal cp | None \<Rightarrow> 0)"

section \<open>The drain\<close>

definition sleep :: "backfill_deps \<Rightarrow> nat \<Rightarrow> backfill_world \<Rightarrow> backfill_world" where
  "sleep deps n w = signal (fold tick (bf_ticks deps n)) (w\<lparr>bw_db := bf_fleet deps n (bw_db w)\<rparr>)"

definition drain_counts :: "nat \<Rightarrow> nat \<Rightarrow> nat \<Rightarrow> (string \<times> nat) list" where
  "drain_counts terminalCount nonTerminal seededTotal =
     [(''terminalCount'', terminalCount), (''nonTerminal'', nonTerminal), (''seededTotal'', seededTotal)]"

text \<open>One poll: progress is recorded when the number of terminal calls grew, the checkpoint is written; the counts are returned.  The last count starts at -1.\<close>

definition drain_poll :: "backfill_deps \<Rightarrow> uuid \<Rightarrow> swept_state \<Rightarrow> nat \<Rightarrow> int \<Rightarrow> (nat \<times> nat) bop" where
  "drain_poll deps i swept n lastTerminal w =
     (let total_calls = countRunCalls i w; nonTerminal = countNonTerminalTrackedCalls i w; terminalCount = total_calls - nonTerminal;
          w1 = (if int terminalCount > lastTerminal
                then signal (recordProgress (bf_clock deps n) (drain_counts terminalCount nonTerminal (ss_seededTotal swept))) w else w)
      in op_bind (writeCheckpoint deps i \<lparr>cp_phase = PH_drain, cp_watermarkStartedAtMs = ss_watermark swept, cp_callsSeen = ss_callsSeen swept,
           cp_seededTotal = ss_seededTotal swept, cp_terminalCount = terminalCount\<rparr>) (\<lambda>_. op_return (terminalCount, nonTerminal)) w1)"

partial_function (option) backfill_drain ::
    "backfill_deps \<Rightarrow> uuid \<Rightarrow> swept_state \<Rightarrow> nat \<Rightarrow> int \<Rightarrow> backfill_world \<Rightarrow> ((backfill_thrown + nat) \<times> backfill_world) option" where
  "backfill_drain deps i swept n lastTerminal w =
     (case drain_poll deps i swept n lastTerminal w of
        (Inl e, w1) \<Rightarrow> Some (Inl e, w1)
      | (Inr (terminalCount, nonTerminal), w1) \<Rightarrow>
          if nonTerminal = 0 then Some (Inr terminalCount, w1)
          else backfill_drain deps i swept (Suc n) (max lastTerminal (int terminalCount)) (sleep deps n w1))"

section \<open>The orchestrator\<close>

record backfill_result =
  res_runId :: uuid
  res_seededTotal :: nat
  res_callsSeen :: nat
  res_terminalCount :: nat

text \<open>Sweep, drain and the closing write and signal: the body of the inner \<^verbatim>\<open>try\<close>.\<close>

definition backfill_body ::
    "backfill_deps \<Rightarrow> uuid \<Rightarrow> backfill_checkpoint option \<Rightarrow> backfill_world \<Rightarrow> ((backfill_thrown + backfill_result) \<times> backfill_world) option" where
  "backfill_body deps i checkpoint w =
     Option.bind (backfill_sweep deps i (bf_ingestFor deps i) checkpoint w) (\<lambda>(r, w1).
     case r of
       Inl e \<Rightarrow> Some (Inl e, w1)
     | Inr swept0 \<Rightarrow>
         let swept = swept0\<lparr>ss_seededTotal := max (ss_seededTotal swept0) (countRunCalls i w1)\<rparr> in
         Option.bind (backfill_drain deps i swept 0 (- 1) w1) (\<lambda>(r, w2).
         case r of
           Inl e \<Rightarrow> Some (Inl e, w2)
         | Inr terminalCount \<Rightarrow>
             (case setRunStatus deps i ''completed'' w2 of
                (Inl e, w3) \<Rightarrow> Some (Inl e, w3)
              | (Inr _, w3) \<Rightarrow>
                  Some (Inr \<lparr>res_runId = i, res_seededTotal = ss_seededTotal swept, res_callsSeen = ss_callsSeen swept,
                             res_terminalCount = terminalCount\<rparr>, signal monitor_success w3))))"

definition is_checkpoint_failed :: "backfill_thrown \<Rightarrow> bool" where
  "is_checkpoint_failed e = (case e of BackfillError r ctx \<Rightarrow> r = R_checkpoint_failed | _ \<Rightarrow> False)"

definition unlock :: "backfill_world \<Rightarrow> backfill_world" where
  "unlock w = w\<lparr>advisory_locks := remove1 BACKFILL_ADVISORY_LOCK_KEY (advisory_locks w)\<rparr>"

definition runBackfill :: "backfill_deps \<Rightarrow> backfill_world \<Rightarrow> ((backfill_thrown + backfill_result) \<times> backfill_world) option" where
  "runBackfill deps w =
     (if BACKFILL_ADVISORY_LOCK_KEY \<in> set (advisory_locks w) then Some (Inl (BackfillError R_already_running []), w)
      else
        map_option (\<lambda>(r, w'). (r, unlock w'))
          (case resolveRun deps (w\<lparr>advisory_locks := BACKFILL_ADVISORY_LOCK_KEY # advisory_locks w\<rparr>) of
             (Inl e, w1) \<Rightarrow> Some (Inl e, w1)
           | (Inr (run, checkpoint), w1) \<Rightarrow>
               map_option (\<lambda>(r, w3). (r, case r of Inl e \<Rightarrow> if is_checkpoint_failed e then w3 else fail_run deps (br_id run) w3 | Inr _ \<Rightarrow> w3))
                 (backfill_body deps (br_id run) checkpoint (signal (monitor_start (bf_started_at deps)) w1))))"

end
