(* ===== verification/Backfill_Properties.thy ===== *)
theory Backfill_Properties
  imports Backfill_Correct
begin

text \<open>
  The properties of a whole backfill run: the external check turns green only when every tracked call is terminal, and the drain ends exactly when the fleet
  gets there; and the concrete runs the witnesses use.
\<close>

section \<open>The drain\<close>

lemma poll_cases:
  assumes "drain_poll deps i swept n lastTerminal w = (r, w')"
  shows "ended r w w' \<and> backfill_run_calls w' = backfill_run_calls w
    \<and> (case r of Inl e \<Rightarrow> (\<exists>e. bf_save_fails deps (bw_saves w) = Some e)
       | Inr (t, nt) \<Rightarrow> bw_db w' = bw_db w \<and> nt = countNonTerminalTrackedCalls i w \<and> t = countRunCalls i w - nt)"
proof -
  let ?t = "countRunCalls i w - countNonTerminalTrackedCalls i w"
  define w1 where "w1 = (if int ?t > lastTerminal
      then signal (recordProgress (bf_clock deps n) (drain_counts ?t (countNonTerminalTrackedCalls i w) (ss_seededTotal swept))) w else w)"
  have w1: "ended (Inr ()) w w1" "bw_db w1 = bw_db w" "backfill_run_calls w1 = backfill_run_calls w" "bw_saves w1 = bw_saves w"
    by (auto simp: w1_def signal_def ended_def)
  obtain r1 where wr: "writeCheckpoint deps i \<lparr>cp_phase = PH_drain, cp_watermarkStartedAtMs = ss_watermark swept, cp_callsSeen = ss_callsSeen swept,
      cp_seededTotal = ss_seededTotal swept, cp_terminalCount = ?t\<rparr> w1 = (r1, w')"
    "r = (case r1 of Inl e \<Rightarrow> Inl e | Inr _ \<Rightarrow> Inr (?t, countNonTerminalTrackedCalls i w))"
    using assms by (auto simp: drain_poll_def Let_def op_bind_def op_return_def w1_def [symmetric] split: prod.splits sum.splits)
  have "ended r w1 w'" by (rule ended_map [OF write_ended [OF wr(1)]]) (simp add: wr(2) split: sum.splits)
  then have "ended r w w'" by (rule ended_trans [OF w1(1)])
  moreover have "backfill_run_calls w' = backfill_run_calls w1"
    using wr(1) by (auto simp: writeCheckpoint_def saveCheckpoint_def op_bind_def in_db_def fail_run_def signal_def Let_def split: option.splits prod.splits sum.splits)
  moreover have "isl r1 \<Longrightarrow> bf_save_fails deps (bw_saves w1) \<noteq> None" "\<not> isl r1 \<Longrightarrow> bw_db w' = bw_db w1"
    using wr(1) by (auto simp: writeCheckpoint_def saveCheckpoint_def op_bind_def in_db_def Let_def split: option.splits prod.splits sum.splits)
  ultimately show ?thesis using w1 wr(2) by (cases r1) auto
qed

lemma sleep_ended: "ended (Inr a) w (sleep deps n w)"
  by (auto simp: sleep_def signal_def ended_def intro: busy_ticks)

lemma sleep_simps [simp]: "backfill_run_calls (sleep deps n w) = backfill_run_calls w" "bw_db (sleep deps n w) = bf_fleet deps n (bw_db w)"
  by (simp_all add: sleep_def signal_def)

lemma countNonTerminal_0:
  "countNonTerminalTrackedCalls i w = 0 \<longleftrightarrow> (\<forall>r \<in> set (backfill_run_calls w). bc_backfill_run_id r = i \<longrightarrow> tracked_terminal (bw_db w) (bc_call_id r))"
  by (auto simp: countNonTerminalTrackedCalls_def sql_select_def filter_empty_conv)

text \<open>What a drain that returns leaves: nothing to wait for when it succeeds.\<close>

definition drained :: "backfill_deps \<Rightarrow> uuid \<Rightarrow> backfill_world \<Rightarrow> backfill_thrown + nat \<Rightarrow> backfill_world \<Rightarrow> bool" where
  "drained deps i w r w' \<longleftrightarrow> ended r w w' \<and> backfill_run_calls w' = backfill_run_calls w
     \<and> (case r of Inl e \<Rightarrow> \<exists>n. bf_save_fails deps n \<noteq> None | Inr t \<Rightarrow> countNonTerminalTrackedCalls i w' = 0 \<and> t = countRunCalls i w')"

lemma drain_result:
  assumes "backfill_drain deps i swept n lastTerminal w = Some y"
  shows "drained deps i w (fst y) (snd y)"
proof (rule backfill_drain.raw_induct [where P = "\<lambda>deps i swept n lastTerminal w y. drained deps i w (fst y) (snd y)", OF _ assms])
  fix f deps i swept n lastTerminal w y
  assume IH: "\<And>deps i swept n lastTerminal w y. f deps i swept n lastTerminal w = Some y \<Longrightarrow> drained deps i w (fst y) (snd y)"
    and step: "(case drain_poll deps i swept n lastTerminal w of
        (Inl e, w1) \<Rightarrow> Some (Inl e, w1)
      | (Inr (terminalCount, nonTerminal), w1) \<Rightarrow>
          if nonTerminal = 0 then Some (Inr terminalCount, w1)
          else f deps i swept (Suc n) (max lastTerminal (int terminalCount)) (sleep deps n w1)) = Some y"
  obtain r w1 where poll: "drain_poll deps i swept n lastTerminal w = (r, w1)" by fastforce
  note po = poll_cases [OF poll]
  consider e where "r = Inl e" | t where "r = Inr (t, 0)" | t nt where "r = Inr (t, nt)" "nt \<noteq> 0"
    by (metis surj_pair sum.exhaust)
  then show "drained deps i w (fst y) (snd y)"
  proof cases
    case 1
    with po have "\<exists>n. bf_save_fails deps n \<noteq> None" by auto
    moreover have "ended (Inl e :: backfill_thrown + nat) w w1" using po 1 by (auto intro: ended_Inl)
    moreover have "y = (Inl e, w1)" using step poll 1 by simp
    ultimately show ?thesis using po by (simp add: drained_def)
  next
    case 2
    with po have "countNonTerminalTrackedCalls i w1 = 0" "t = countRunCalls i w1"
      by (auto simp: countNonTerminalTrackedCalls_def countRunCalls_def)
    with 2 step poll po show ?thesis by (auto simp: drained_def intro: ended_Inr)
  next
    case 3
    with step poll have "drained deps i (sleep deps n w1) (fst y) (snd y)" by (intro IH) simp
    moreover have "ended (Inr ()) w (sleep deps n w1)"
      using po 3 by (auto intro: ended_trans [OF ended_Inr] sleep_ended)
    ultimately show ?thesis using po by (auto simp: drained_def intro: ended_trans)
  qed
qed

section \<open>When the drain ends\<close>

primrec polled :: "backfill_deps \<Rightarrow> nat \<Rightarrow> nat \<Rightarrow> db \<Rightarrow> db" where
  "polled deps n 0 db = db"
| "polled deps n (Suc k) db = polled deps (Suc n) k (bf_fleet deps n db)"

definition settled :: "uuid \<Rightarrow> backfill_world \<Rightarrow> db \<Rightarrow> bool" where
  "settled i w db \<longleftrightarrow> (\<forall>r \<in> set (backfill_run_calls w). if bc_backfill_run_id r = i then tracked_terminal db (bc_call_id r) else True)"

lemma settled_count: "settled i w (bw_db w) \<longleftrightarrow> countNonTerminalTrackedCalls i w = 0"
  by (auto simp: settled_def countNonTerminal_0)

lemma drain_returns:
  assumes "\<And>n. bf_save_fails deps n = None" "settled i w (polled deps n k (bw_db w))"
  shows "backfill_drain deps i swept n lastTerminal w \<noteq> None"
  using assms(2)
proof (induction k arbitrary: n lastTerminal w)
  case (0 n lastTerminal w)
  obtain r w1 where poll: "drain_poll deps i swept n lastTerminal w = (r, w1)" by fastforce
  with poll_cases [OF poll] assms(1) 0 settled_count show ?case by (subst backfill_drain.simps) (auto split: sum.splits)
next
  case (Suc k n lastTerminal w)
  obtain r w1 where poll: "drain_poll deps i swept n lastTerminal w = (r, w1)" by fastforce
  obtain t nt where r: "r = Inr (t, nt)" "bw_db w1 = bw_db w" "backfill_run_calls w1 = backfill_run_calls w"
    using poll_cases [OF poll] assms(1) by (auto split: sum.splits)
  have "settled i (sleep deps n w1) (polled deps (Suc n) k (bw_db (sleep deps n w1)))" using Suc.prems r by (simp add: settled_def)
  from Suc.IH [OF this] poll r show ?case by (subst backfill_drain.simps) auto
qed

lemma drain_settles:
  assumes "backfill_drain deps i swept n lastTerminal w = Some y" "\<And>n. bf_save_fails deps n = None"
  shows "\<exists>k. settled i w (polled deps n k (bw_db w))"
proof -
  have "(\<forall>n. bf_save_fails deps n = None) \<longrightarrow> (\<exists>k. settled i w (polled deps n k (bw_db w)))"
  proof (rule backfill_drain.raw_induct [where P = "\<lambda>deps i swept n lastTerminal w y.
      (\<forall>n. bf_save_fails deps n = None) \<longrightarrow> (\<exists>k. settled i w (polled deps n k (bw_db w)))", OF _ assms(1)], intro impI)
    fix f deps i swept n lastTerminal w y
    assume IH: "\<And>deps i swept n lastTerminal w y. f deps i swept n lastTerminal w = Some y \<Longrightarrow>
        (\<forall>n. bf_save_fails deps n = None) \<longrightarrow> (\<exists>k. settled i w (polled deps n k (bw_db w)))"
      and step: "(case drain_poll deps i swept n lastTerminal w of
          (Inl e, w1) \<Rightarrow> Some (Inl e, w1)
        | (Inr (terminalCount, nonTerminal), w1) \<Rightarrow>
            if nonTerminal = 0 then Some (Inr terminalCount, w1)
            else f deps i swept (Suc n) (max lastTerminal (int terminalCount)) (sleep deps n w1)) = Some y"
      and saves: "\<forall>n. bf_save_fails deps n = None"
    obtain r w1 where poll: "drain_poll deps i swept n lastTerminal w = (r, w1)" by fastforce
    obtain t nt where r: "r = Inr (t, nt)" "bw_db w1 = bw_db w" "backfill_run_calls w1 = backfill_run_calls w"
      "nt = countNonTerminalTrackedCalls i w"
      using poll_cases [OF poll] saves by (auto split: sum.splits)
    show "\<exists>k. settled i w (polled deps n k (bw_db w))"
    proof (cases "nt = 0")
      case True
      then show ?thesis using r(4) settled_count by (intro exI [of _ 0]) simp
    next
      case False
      with step poll r have "f deps i swept (Suc n) (max lastTerminal (int t)) (sleep deps n w1) = Some y" by simp
      from IH [OF this] saves obtain k where "settled i (sleep deps n w1) (polled deps (Suc n) k (bw_db (sleep deps n w1)))" by blast
      then show ?thesis using r by (intro exI [of _ "Suc k"]) (simp add: settled_def)
    qed
  qed
  with assms(2) show ?thesis by simp
qed

text \<open>C23: The drain ends exactly when it may.  When no checkpoint write fails, the drain of a run returns if and only if after some number of polls every call tracked
  under the run is terminal or dead-lettered; it then reports all tracked calls.\<close>

theorem drain_ends_iff_settled:
  assumes "\<And>n. bf_save_fails deps n = None"
  shows "case backfill_drain deps i swept n lastTerminal w of
      None \<Rightarrow> \<not> (\<exists>k. settled i w (polled deps n k (bw_db w)))
    | Some (r, w') \<Rightarrow> (\<exists>k. settled i w (polled deps n k (bw_db w))) \<and> settled i w' (bw_db w') \<and> r = Inr (countRunCalls i w)"
proof (cases "backfill_drain deps i swept n lastTerminal w")
  case None
  then have "\<not> settled i w (polled deps n k (bw_db w))" for k using drain_returns [OF assms] by blast
  with None show ?thesis by simp
next
  case (Some y)
  then obtain r w' where y: "backfill_drain deps i swept n lastTerminal w = Some (r, w')" by (cases y) auto
  note res = drain_result [OF y]
  then obtain t where "r = Inr t" using assms by (cases r) (auto simp: drained_def)
  with res have "settled i w' (bw_db w')" "r = Inr (countRunCalls i w)"
    by (auto simp: drained_def settled_count countRunCalls_def)
  with y drain_settles [OF y assms] show ?thesis by simp
qed

section \<open>The whole run\<close>

context run_ingest
begin

lemma pages_ended:
  assumes "backfill_pages deps i ingest since n cursor wm seen seeded w = Some y"
  shows "ended (fst y) w (snd y)"
proof -
  have "ingest = ingest \<longrightarrow> ended (fst y) w (snd y)"
  proof (rule backfill_pages.raw_induct [where P = "\<lambda>deps i ing since n cursor wm seen seeded w y. ing = ingest \<longrightarrow> ended (fst y) w (snd y)", OF _ assms],
      intro impI)
    fix f deps i ing since n cursor wm seen seeded w y
    assume IH: "\<And>deps i ing since n cursor wm seen seeded w y. f deps i ing since n cursor wm seen seeded w = Some y \<Longrightarrow>
        ing = ingest \<longrightarrow> ended (fst y) w (snd y)"
      and ing: "ing = ingest"
      and step: "(case bf_list deps n since cursor of
          Inl e \<Rightarrow> Some (Inl (ListingError e), w)
        | Inr page \<Rightarrow>
            (case backfill_page deps i ing (rp_calls page) wm seen seeded w of
               (Inl e, w1) \<Rightarrow> Some (Inl e, w1)
             | (Inr (watermark1, seen1, seeded1), w1) \<Rightarrow>
                 if rp_cursor page \<noteq> None \<and> rp_cursor page = cursor then Some (Inl (ListingError cursor_stuck), w1)
                 else if rp_cursor page = None
                 then Some (Inr \<lparr>ss_watermark = watermark1, ss_callsSeen = length seen1, ss_seededTotal = seeded1\<rparr>, w1)
                 else f deps i ing since (Suc n) (rp_cursor page) watermark1 seen1 seeded1 w1)) = Some y"
    show "ended (fst y) w (snd y)"
    proof (cases "bf_list deps n since cursor")
      case (Inl e)
      with step show ?thesis by (auto simp: ended_def is_checkpoint_failed_def)
    next
      case (Inr page)
      obtain r1 w1 where run: "backfill_page deps i ingest (rp_calls page) wm seen seeded w = (r1, w1)" by fastforce
      note after = page_ended [OF run]
      show ?thesis
      proof (cases r1)
        case l: (Inl e)
        with step Inr ing run after show ?thesis by (auto intro: ended_Inl)
      next
        case r: (Inr x)
        obtain wm1 seen1 seeded1 where x: "x = (wm1, seen1, seeded1)" by (cases x)
        have stuck: "ended (Inl (ListingError cursor_stuck)) w w1" using after r by (auto simp: ended_def is_checkpoint_failed_def)
        show ?thesis
        proof (cases "rp_cursor page")
          case None
          then have "y = (Inr \<lparr>ss_watermark = wm1, ss_callsSeen = length seen1, ss_seededTotal = seeded1\<rparr>, w1)" using step Inr ing run r x by simp
          with after r show ?thesis by (auto intro: ended_Inr)
        next
          case (Some c)
          show ?thesis
          proof (cases "cursor = Some c")
            case True
            then have "y = (Inl (ListingError cursor_stuck), w1)" using step Inr ing run r x Some by simp
            with stuck show ?thesis by (auto intro: ended_Inl)
          next
            case False
            then have "f deps i ingest since (Suc n) (Some c) wm1 seen1 seeded1 w1 = Some y" using step Inr ing run r x Some by simp
            from IH [OF this] have "ended (fst y) w1 (snd y)" by simp
            with after show ?thesis unfolding r by (rule ended_trans)
          qed
        qed
      qed
    qed
  qed
  then show ?thesis by simp
qed

end

lemma resolve_frame:
  assumes "resolveRun deps w = (r, w')"
  shows "advisory_locks w' = advisory_locks w \<and> bw_monitor w' = bw_monitor w \<and> (case r of Inl e \<Rightarrow> w' = w | Inr x \<Rightarrow> True)"
  using assms
  by (auto simp: resolveRun_def resetRun_def deleteRunCalls_def startRun_def op_bind_def op_return_def Let_def
      split: if_splits option.splits sum.splits prod.splits)

text \<open>A run that is completed was completed before: nothing but the closing write of a run completes it.\<close>

definition none_completed :: "backfill_world \<Rightarrow> backfill_world \<Rightarrow> bool" where
  "none_completed w w' \<longleftrightarrow>
     (\<forall>row' \<in> set (backfill_runs w'). br_status row' = ''completed'' \<longrightarrow> (\<exists>row \<in> set (backfill_runs w). br_id row = br_id row' \<and> br_status row = ''completed''))"

lemma none_completed_refl [simp]: "none_completed w w"
  by (auto simp: none_completed_def)

lemma none_completed_trans: "none_completed a b \<Longrightarrow> none_completed b c \<Longrightarrow> none_completed a c"
  unfolding none_completed_def by metis

lemma rows_completed: "list_all2 row_step (backfill_runs w) (backfill_runs w') \<Longrightarrow> none_completed w w'"
  by (fastforce simp: none_completed_def list_all2_conv_all_nth in_set_conv_nth row_step_def)

lemma resolve_completed:
  assumes "resolveRun deps w = (r, w')"
  shows "none_completed w w'"
  using assms
  by (auto simp: resolveRun_def resetRun_def deleteRunCalls_def startRun_def updateCheckpoint_def op_bind_def op_return_def Let_def none_completed_def
      sql_update_def checkpoint_row_def reset_row_def split: if_splits option.splits sum.splits prod.splits)

lemma body_ended:
  assumes ingest: "run_ingest (bf_ingestFor deps i) taken"
    and "backfill_body deps i cp w = Some (r, w')"
  shows "case r of
      Inl e \<Rightarrow> ended r w w'
    | Inr res \<Rightarrow> \<exists>w2. ended r w w2 \<and> w' = signal monitor_success (updateCheckpoint (bf_pg deps) i None (Some ''completed'') w2)
        \<and> res_runId res = i \<and> settled i w' (bw_db w') \<and> res_terminalCount res = countRunCalls i w' \<and> res_terminalCount res \<le> res_seededTotal res"
proof -
  obtain r1 w1 where sweep: "backfill_sweep deps i (bf_ingestFor deps i) cp w = Some (r1, w1)"
    using assms(2) by (auto simp: backfill_body_def bind_eq_Some_conv)
  have e1: "ended r1 w w1"
    using run_ingest.pages_ended [OF ingest] sweep unfolding backfill_sweep_def by fastforce
  show ?thesis
  proof (cases r1)
    case (Inl e)
    with sweep assms(2) have "r = Inl e" "w' = w1" by (auto simp: backfill_body_def)
    with e1 Inl show ?thesis by (auto intro: ended_Inl)
  next
    case (Inr swept0)
    define swept where "swept = swept0\<lparr>ss_seededTotal := max (ss_seededTotal swept0) (countRunCalls i w1)\<rparr>"
    obtain r2 w2 where drain: "backfill_drain deps i swept 0 (- 1) w1 = Some (r2, w2)"
      using sweep Inr assms(2) by (auto simp: backfill_body_def swept_def Let_def bind_eq_Some_conv)
    have d: "drained deps i w1 r2 w2" using drain_result [OF drain] by simp
    have e2: "ended r2 w w2" using e1 d unfolding Inr drained_def by (auto intro: ended_trans)
    show ?thesis
    proof (cases r2)
      case l: (Inl e)
      with sweep Inr drain assms(2) have "r = Inl e" "w' = w2" by (auto simp: backfill_body_def swept_def Let_def)
      with e2 l show ?thesis by (auto intro: ended_Inl)
    next
      case t: (Inr t)
      show ?thesis
      proof (cases "bf_status_fails deps ''completed''")
        case (Some e)
        with sweep Inr drain t assms(2) have "r = Inl (OtherThrow e)" "w' = w2"
          by (auto simp: backfill_body_def swept_def Let_def setRunStatus_def)
        with e2 t show ?thesis by (auto simp: ended_def is_checkpoint_failed_def)
      next
        case None
        let ?w3 = "updateCheckpoint (bf_pg deps) i None (Some ''completed'') w2"
        have r: "r = Inr \<lparr>res_runId = i, res_seededTotal = ss_seededTotal swept, res_callsSeen = ss_callsSeen swept, res_terminalCount = t\<rparr>"
          "w' = signal monitor_success ?w3"
          using None sweep Inr drain t assms(2) by (auto simp: backfill_body_def swept_def Let_def setRunStatus_def)
        have "settled i w2 (bw_db w2)" "t = countRunCalls i w2" "countRunCalls i w2 = countRunCalls i w1"
          using d t by (auto simp: drained_def settled_count countRunCalls_def)
        then show ?thesis using r e2 t
          by (auto simp: settled_def signal_def countRunCalls_def swept_def intro!: exI [of _ w2] intro: ended_Inr)
      qed
    qed
  qed
qed

lemma fresh_monitor:
  "createBackfillMonitor u stall = Some m \<Longrightarrow> jm_signals m = u \<and> \<not> jm_terminated m \<and> \<not> jm_started m \<and> jm_pings m = []"
  by (auto simp: createBackfillMonitor_def split: if_splits)

text \<open>A fresh monitor that was started and kept busy: its signals, and those after a terminal one.\<close>

lemma busy_signals:
  assumes "jm_signals m = u \<and> \<not> jm_terminated m \<and> \<not> jm_started m \<and> jm_pings m = []" "busy (monitor_start now m) m'"
  shows "\<exists>k. jm_pings (monitor_fail m') = su_start u # replicate k (su_progress u) @ [su_fail u]"
    "\<exists>k. jm_pings (monitor_success m') = su_start u # replicate k (su_progress u) @ [su_success u]"
  using assms by (auto simp: busy_def monitor_start_def monitor_fail_def monitor_success_def runPing_def)

lemma unlock_simps [simp]:
  "bw_monitor (unlock w) = bw_monitor w" "backfill_runs (unlock w) = backfill_runs w" "backfill_run_calls (unlock w) = backfill_run_calls w"
  "bw_db (unlock w) = bw_db w" "advisory_locks (unlock w) = remove1 BACKFILL_ADVISORY_LOCK_KEY (advisory_locks w)"
  by (simp_all add: unlock_def)

lemma fail_run_simps [simp]:
  "advisory_locks (fail_run deps i w) = advisory_locks w" "bw_monitor (fail_run deps i w) = monitor_fail (bw_monitor w)"
  "backfill_runs (fail_run deps i w) = backfill_runs (snd (setRunStatus deps i ''failed'' w))" "bw_db (fail_run deps i w) = bw_db w"
  "backfill_run_calls (fail_run deps i w) = backfill_run_calls w"
  by (simp_all add: fail_run_def signal_def)

lemma getRun_completed:
  assumes "getRun i w' = Some row" "backfill_runs w' = backfill_runs (updateCheckpoint pg i t (Some st) w)"
  shows "br_status row = st"
proof -
  have "getRun i (updateCheckpoint pg i t (Some st) w) = Some row" using assms getRun_cong by metis
  then obtain z where z: "getRun i w = Some z" "row = (if br_id z = i then checkpoint_row pg t (Some st) z else z)"
    by (auto simp only: getRun_update map_option_eq_Some)
  from getRun_id [OF z(1)] z(2) show ?thesis by (simp add: checkpoint_row_def)
qed

lemma getRun_exists: "getRun i w \<noteq> None \<longleftrightarrow> i \<in> br_id ` set (backfill_runs w)"
proof -
  have "getRun i w = None \<longleftrightarrow> filter (\<lambda>r. br_id r = i) (backfill_runs w) = []" by (simp add: getRun_def sql_select_def first_row_def split: list.split)
  then show ?thesis by (auto simp: filter_empty_conv)
qed

lemma reset_exists: "resetRun pg i w = (Some run, w') \<Longrightarrow> br_id run \<in> br_id ` set (backfill_runs w')"
proof -
  assume reset: "resetRun pg i w = (Some run, w')"
  let ?p = "\<lambda>r. br_id r = i"
  have up: "first_row (sql_updated ?p (reset_row pg) (backfill_runs w)) = Some run" "backfill_runs w' = sql_update ?p (reset_row pg) (backfill_runs w)"
    using reset by (auto simp: resetRun_def deleteRunCalls_def Let_def split: option.splits)
  have "run \<in> set (sql_updated ?p (reset_row pg) (backfill_runs w))" using first_row_Some up(1) by fastforce
  then show ?thesis unfolding up(2) by (auto simp: sql_updated_def sql_update_def image_iff)
qed

lemma resumable_getRun: "resumable_run deps runId w = Inr existing \<Longrightarrow> getRun (br_id existing) w = Some existing"
  by (auto simp: resumable_run_def split: option.splits if_splits sum.splits dest: getRun_id)

lemma resolve_exists:
  assumes "resolveRun deps w = (Inr (run, cp), w')"
  shows "br_id run \<in> br_id ` set (backfill_runs w')"
proof -
  consider (restart) pg i where "resetRun pg i w = (Some run, w')"
    | (resume) runId where "resumable_run deps runId w = Inr run" "w' = w \<or> w' = updateCheckpoint (bf_pg deps) (br_id run) None (Some ''running'') w"
    | (start) "startRun (bf_pg deps) (bf_window deps) ''running'' w = (Inr run, w')"
    using assms by (auto simp: resolveRun_def op_bind_def op_return_def split: if_splits option.splits sum.splits prod.splits)
  then show ?thesis
  proof cases
    case restart
    then show ?thesis by (rule reset_exists)
  next
    case resume
    have "getRun (br_id run) w' \<noteq> None" using resumable_getRun [OF resume(1)] resume(2) by (auto simp: getRun_update)
    then show ?thesis unfolding getRun_exists .
  next
    case start
    then show ?thesis by (auto simp: startRun_def Let_def split: if_splits)
  qed
qed

lemma ended_ids: "ended r w w' \<Longrightarrow> br_id ` set (backfill_runs w') = br_id ` set (backfill_runs w)"
proof -
  assume "ended r w w'"
  then have "list_all2 row_step (backfill_runs w) (backfill_runs w')" by (simp add: ended_def)
  then have "map br_id (backfill_runs w') = map br_id (backfill_runs w)" by (induction rule: list_all2_induct) (auto simp: row_step_def)
  then show ?thesis by (metis set_map)
qed

lemma body_failed:
  assumes mon: "jm_signals m0 = u \<and> \<not> jm_terminated m0 \<and> \<not> jm_started m0 \<and> jm_pings m0 = []"
    and "bw_monitor w = monitor_start now m0" and ended: "ended (Inl e) w w1"
    and w': "w' = (if is_checkpoint_failed e then w1 else fail_run deps i w1)"
  shows "(\<exists>k. jm_pings (bw_monitor w') = su_start u # replicate k (su_progress u) @ [su_fail u])
    \<and> none_completed w w' \<and> advisory_locks w' = advisory_locks w"
proof -
  obtain m where m: "busy (monitor_start now m0) m" "bw_monitor w' = monitor_fail m"
    using ended w' assms(2) by (auto simp: ended_def)
  have "none_completed w w'"
    using ended rows_fail [of w1 deps i] by (intro rows_completed) (auto simp: w' ended_def intro: rows_trans)
  with busy_signals(1) [OF mon m(1)] m(2) ended w' show ?thesis by (simp add: ended_def)
qed

lemma body_completed:
  assumes mon: "jm_signals m0 = u \<and> \<not> jm_terminated m0 \<and> \<not> jm_started m0 \<and> jm_pings m0 = []"
    and "bw_monitor w = monitor_start now m0" and ended: "ended (Inr a) w w1"
    and w': "w' = signal monitor_success (updateCheckpoint pg i None (Some ''completed'') w1)" and row: "i \<in> br_id ` set (backfill_runs w)"
  shows "(\<exists>k. jm_pings (bw_monitor w') = su_start u # replicate k (su_progress u) @ [su_success u])
    \<and> advisory_locks w' = advisory_locks w \<and> (\<exists>row. getRun i w' = Some row \<and> br_status row = ''completed'')"
proof -
  have "busy (monitor_start now m0) (bw_monitor w1)" using ended assms(2) by (auto simp: ended_def)
  moreover have "br_status row = ''completed''" if "getRun i w' = Some row" for row
    using that by (rule getRun_completed [where w = w1]) (simp add: w' signal_def)
  moreover have "getRun i w' \<noteq> None"
  proof -
    have "getRun i w1 \<noteq> None" using row ended_ids [OF ended] unfolding getRun_exists by simp
    then have "getRun i (updateCheckpoint pg i None (Some ''completed'') w1) \<noteq> None" by (simp add: getRun_update)
    then show ?thesis using getRun_cong [of w' "updateCheckpoint pg i None (Some ''completed'') w1" i] by (simp add: w' signal_def)
  qed
  ultimately show ?thesis using busy_signals(2) [OF mon] ended by (auto simp: w' signal_def ended_def)
qed

text \<open>C21: A green check means that the backfill is done.  Whatever a production run returns, it leaves the advisory locks as they were.  When it throws, the monitor has
  sent nothing (it refused to start) or a start, progress signals and a final fail, never success, and no run became completed.  When it succeeds, the last signal
  is the success, every call tracked under the run is terminal or dead-lettered in the state it leaves, and the run is stored as completed with consistent counts.\<close>

theorem backfill_green_means_terminal:
  assumes "createBackfillMonitor (deriveJobSignalUrls base) stall = Some (bw_monitor w)" "u = deriveJobSignalUrls base"
    and "bf_ingestFor deps = createPgBackfillQueueIngest pg digest refuses"
  shows "case runBackfill deps w of
      None \<Rightarrow> True
    | Some (r, w') \<Rightarrow> advisory_locks w' = advisory_locks w
        \<and> (case r of
             Inl e \<Rightarrow> (jm_pings (bw_monitor w') = [] \<or> (\<exists>k. jm_pings (bw_monitor w') = su_start u # replicate k (su_progress u) @ [su_fail u]))
               \<and> none_completed w w'
           | Inr res \<Rightarrow> (\<exists>k. jm_pings (bw_monitor w') = su_start u # replicate k (su_progress u) @ [su_success u])
               \<and> settled (res_runId res) w' (bw_db w')
               \<and> res_terminalCount res = countRunCalls (res_runId res) w' \<and> res_terminalCount res \<le> res_seededTotal res
               \<and> (\<exists>row. getRun (res_runId res) w' = Some row \<and> br_status row = ''completed''))"
proof (cases "BACKFILL_ADVISORY_LOCK_KEY \<in> set (advisory_locks w)")
  case True
  with fresh_monitor [OF assms(1)] show ?thesis by (simp add: runBackfill_def)
next
  case False
  let ?w0 = "w\<lparr>advisory_locks := BACKFILL_ADVISORY_LOCK_KEY # advisory_locks w\<rparr>"
  obtain r1 w1 where res: "resolveRun deps ?w0 = (r1, w1)" by fastforce
  note fr = resolve_frame [OF res] and mon = fresh_monitor [OF assms(1), folded assms(2)]
  have nc1: "none_completed w w1" using resolve_completed [OF res] by (simp add: none_completed_def)
  show ?thesis
  proof (cases r1)
    case (Inl e)
    with False res fr nc1 mon show ?thesis by (simp add: runBackfill_def none_completed_def)
  next
    case (Inr x)
    then obtain run cp where x: "r1 = Inr (run, cp)" by (cases x) auto
    let ?i = "br_id run" and ?ws = "signal (monitor_start (bf_started_at deps)) w1"
    have ws: "bw_monitor ?ws = monitor_start (bf_started_at deps) (bw_monitor w)" "advisory_locks ?ws = BACKFILL_ADVISORY_LOCK_KEY # advisory_locks w"
      and nc: "none_completed w ?ws" using fr nc1 by (simp_all add: signal_def none_completed_def)
    have law: "run_ingest (bf_ingestFor deps ?i) (taken_on digest ?i)" unfolding assms(3) by (rule queue_ingest.run_ingest_axioms)
    consider "backfill_body deps ?i cp ?ws = None" | e w3 where "backfill_body deps ?i cp ?ws = Some (Inl e, w3)"
      | result w3 where "backfill_body deps ?i cp ?ws = Some (Inr result, w3)"
      by (metis option.exhaust surj_pair sum.exhaust)
    then show ?thesis
    proof cases
      case 1
      with False res x show ?thesis by (simp add: runBackfill_def)
    next
      case 2
      define w' where "w' = (if is_checkpoint_failed e then w3 else fail_run deps ?i w3)"
      have run: "runBackfill deps w = Some (Inl e, unlock w')" using False res x 2 by (simp add: runBackfill_def w'_def)
      have "ended (Inl e :: backfill_thrown + backfill_result) ?ws w3" using body_ended [OF law 2] by simp
      note failed = body_failed [OF mon ws(1) this w'_def]
      then have "none_completed w w'" using none_completed_trans [OF nc] by blast
      then have "none_completed w (unlock w')" by (simp add: none_completed_def)
      with run failed ws(2) show ?thesis by simp
    next
      case 3
      then have "runBackfill deps w = Some (Inr result, unlock w3)" using False res x by (simp add: runBackfill_def)
      moreover have "?i \<in> br_id ` set (backfill_runs ?ws)" using resolve_exists [OF res [unfolded x]] by (simp add: signal_def)
      ultimately show ?thesis using body_completed [OF mon ws(1)] body_ended [OF law 3] ws(2)
        by (fastforce simp: settled_def countRunCalls_def getRun_def)
    qed
  qed
qed

section \<open>Concrete runs\<close>

definition listed :: "string \<Rightarrow> rat \<Rightarrow> recent_call" where
  "listed c t = \<lparr>rc_callId = c, rc_state = Some ''hangup'', rc_direction = None, rc_duration = Some 60, rc_startedAt = Some t, rc_endedAt = Some (t + 500)\<rparr>"

definition one_page :: "recent_call list \<Rightarrow> nat \<Rightarrow> int \<Rightarrow> string option \<Rightarrow> fetch_error + recent_page" where
  "one_page calls n since cursor = Inr \<lparr>rp_calls = calls, rp_cursor = None\<rparr>"

text \<open>A listing in two pages.\<close>

definition two_pages :: "recent_call list \<Rightarrow> recent_call list \<Rightarrow> nat \<Rightarrow> int \<Rightarrow> string option \<Rightarrow> fetch_error + recent_page" where
  "two_pages first_page second_page n since cursor =
     (if n = 0 then Inr \<lparr>rp_calls = first_page, rp_cursor = Some ''p2''\<rparr> else Inr \<lparr>rp_calls = second_page, rp_cursor = None\<rparr>)"

text \<open>A run over the window from 0 to 10000 with a fleet that completes every call during the first sleep.\<close>

definition sample_backfill :: "(nat \<Rightarrow> int \<Rightarrow> string option \<Rightarrow> fetch_error + recent_page) \<Rightarrow> backfill_deps" where
  "sample_backfill list_calls =
     \<lparr>bf_pg = sample_pg, bf_env = ''production'', BACKFILL_MAX_CALL_MINUTES = 1, bf_window = \<lparr>wb_fromMs = 0, wb_toMs = 10000\<rparr>,
      bf_list = list_calls, bf_ingestFor = createPgBackfillQueueIngest sample_pg (\<lambda>s. s) (\<lambda>_. None), bf_resume = None, bf_restartFromScratch = False,
      bf_emitCheckpointAlert = (\<lambda>_. op_return ()), bf_save_fails = (\<lambda>_. None), bf_status_fails = (\<lambda>_. None),
      bf_stringify = (\<lambda>_. []), bf_json_parse = (\<lambda>_. None), bf_uuid_in = (\<lambda>s. if s = ''0'' then Some 0 else None), bf_started_at = 0, bf_clock = (\<lambda>n. int n),
      bf_fleet = (\<lambda>_ db. db\<lparr>call_state := map (\<lambda>r. r\<lparr>cs_status := STATUS_COMPLETED\<rparr>) (call_state db)\<rparr>), bf_ticks = (\<lambda>_. [1])\<rparr>"

definition sample_monitor :: job_monitor where
  "sample_monitor = the (createBackfillMonitor (deriveJobSignalUrls ''https://hc/x'') 60)"

definition sample_backfill_world :: backfill_world where
  "sample_backfill_world = \<lparr>bw_db = empty_db, backfill_runs = [], backfill_run_calls = [], advisory_locks = [], bw_monitor = sample_monitor, bw_saves = 0\<rparr>"

declare backfill_pages.simps [code] backfill_drain.simps [code]

lemma sample_run_ends:
  "map_option fst (runBackfill (sample_backfill (one_page [listed ''c9'' 2000])) sample_backfill_world)
     = Some (Inr \<lparr>res_runId = 0, res_seededTotal = 1, res_callsSeen = 1, res_terminalCount = 1\<rparr>)"
  by code_simp

theorem backfill_green_means_terminal_witness:
  "\<exists>w' k. runBackfill (sample_backfill (one_page [listed ''c9'' 2000])) sample_backfill_world
       = Some (Inr \<lparr>res_runId = 0, res_seededTotal = 1, res_callsSeen = 1, res_terminalCount = 1\<rparr>, w')
     \<and> jm_pings (bw_monitor w') = ''https://hc/x/start'' # replicate k ''https://hc/x/log'' @ [''https://hc/x'']
     \<and> settled 0 w' (bw_db w') \<and> countRunCalls 0 w' = 1"
proof -
  let ?d = "sample_backfill (one_page [listed ''c9'' 2000])"
  obtain w' where run: "runBackfill ?d sample_backfill_world
      = Some (Inr \<lparr>res_runId = 0, res_seededTotal = 1, res_callsSeen = 1, res_terminalCount = 1\<rparr>, w')"
    using sample_run_ends by auto
  have m: "createBackfillMonitor (deriveJobSignalUrls ''https://hc/x'') 60 = Some (bw_monitor sample_backfill_world)"
    by (simp add: sample_backfill_world_def sample_monitor_def createBackfillMonitor_def derived_distinct)
  have i: "bf_ingestFor ?d = createPgBackfillQueueIngest sample_pg (\<lambda>s. s) (\<lambda>_. None)" by (simp add: sample_backfill_def)
  from backfill_green_means_terminal [OF m refl i] run show ?thesis by (auto simp: deriveJobSignalUrls_def)
qed

definition in_flight_world :: backfill_world where
  "in_flight_world = sample_backfill_world
     \<lparr>bw_db := empty_db\<lparr>next_uuid := 1, call_state := [sample_call ''c1'' (PIPELINE_STAGES ! 2) STATUS_PROCESSING]\<rparr>,
      backfill_runs := [\<lparr>br_id = 0, br_window_start = 0, br_window_end = 10000, br_last_checkpoint = None, br_status = ''failed'', br_created_at = 0, br_updated_at = 0\<rparr>],
      backfill_run_calls := [\<lparr>bc_backfill_run_id = 0, bc_call_id = ''c1'', bc_created_at = 0\<rparr>]\<rparr>"

theorem drain_ends_iff_settled_witness:
  "settled 0 in_flight_world (polled (sample_backfill (one_page [])) 0 1 (bw_db in_flight_world))
   \<and> (\<exists>w'. backfill_drain (sample_backfill (one_page [])) 0 \<lparr>ss_watermark = None, ss_callsSeen = 0, ss_seededTotal = 0\<rparr> 0 (- 1) in_flight_world
        = Some (Inr 1, w') \<and> settled 0 w' (bw_db w'))"
proof -
  have s: "settled 0 in_flight_world (polled (sample_backfill (one_page [])) 0 1 (bw_db in_flight_world))" by code_simp
  have c: "countRunCalls 0 in_flight_world = 1" by code_simp
  have saves: "bf_save_fails (sample_backfill (one_page [])) n = None" for n by (simp add: sample_backfill_def)
  from drain_ends_iff_settled [OF saves, where i = 0 and n = 0 and lastTerminal = "- 1" and w = in_flight_world
      and swept = "\<lparr>ss_watermark = None, ss_callsSeen = 0, ss_seededTotal = 0\<rparr>"] s c
  show ?thesis by (simp only: split: option.splits) (auto simp del: polled.simps)
qed

end
