(* ===== verification/Backfill_Resume.thy ===== *)
theory Backfill_Resume
  imports Backfill_Properties
begin

text \<open>
  Resuming a backfill run leaves no gap: whichever way a run ends, the checkpoint it leaves is covered, and a run that succeeds has taken on every in-window call
  of the listing, whether it was created, resumed from such a checkpoint or restarted.
\<close>

section \<open>What the drain keeps\<close>

context run_ingest
begin

lemma stored_covered_frame:
  "stored_covered taken deps calls i w \<Longrightarrow> bw_db w' = bw_db w \<Longrightarrow> backfill_run_calls w' = backfill_run_calls w \<Longrightarrow> backfill_runs w' = backfill_runs w
     \<Longrightarrow> stored_covered taken deps calls i w'"
  by (erule stored_covered_step) (auto simp: getRun_def intro: frame_keeps)

lemma poll_kept:
  assumes law: "lawful taken deps" and stored: "stored_covered taken deps calls i w"
    and cov: "covered taken (bf_window deps) calls (ss_watermark swept) w"
    and poll: "drain_poll deps i swept n lastTerminal w = (r, w')"
  shows "keeps taken w w' \<and> stored_covered taken deps calls i w'"
proof -
  let ?t = "countRunCalls i w - countNonTerminalTrackedCalls i w"
  define w1 where "w1 = (if int ?t > lastTerminal
      then signal (recordProgress (bf_clock deps n) (drain_counts ?t (countNonTerminalTrackedCalls i w) (ss_seededTotal swept))) w else w)"
  have w1: "bw_db w1 = bw_db w" "backfill_run_calls w1 = backfill_run_calls w" "backfill_runs w1 = backfill_runs w"
    by (simp_all add: w1_def signal_def)
  have k1: "keeps taken w w1" by (rule frame_keeps [OF w1(1,2)])
  have s1: "stored_covered taken deps calls i w1" by (rule stored_covered_frame [OF stored w1])
  obtain r1 where wr: "writeCheckpoint deps i \<lparr>cp_phase = PH_drain, cp_watermarkStartedAtMs = ss_watermark swept, cp_callsSeen = ss_callsSeen swept,
      cp_seededTotal = ss_seededTotal swept, cp_terminalCount = ?t\<rparr> w1 = (r1, w')"
    using poll by (auto simp: drain_poll_def Let_def op_bind_def op_return_def w1_def [symmetric] split: prod.splits sum.splits)
  have "keeps taken w1 w' \<and> stored_covered taken deps calls i w'"
    by (rule write_cases [OF law s1 _ wr]) (use covered_keeps [OF cov k1] in simp)
  with k1 show ?thesis using keeps_trans by blast
qed

lemma sleep_kept:
  assumes "lawful taken deps" "stored_covered taken deps calls i w"
  shows "keeps taken w (sleep deps n w) \<and> stored_covered taken deps calls i (sleep deps n w)"
proof -
  let ?w = "w\<lparr>bw_db := bf_fleet deps n (bw_db w)\<rparr>"
  have "keeps taken w ?w" using assms(1) by (simp add: lawful_def)
  moreover from this have "stored_covered taken deps calls i ?w" by (rule stored_covered_step [OF assms(2)]) (auto simp: getRun_def)
  moreover have "keeps taken ?w (sleep deps n w)" by (rule frame_keeps) (simp_all add: sleep_def signal_def)
  ultimately show ?thesis using keeps_trans stored_covered_frame [of deps calls i ?w "sleep deps n w"]
    by (auto simp: sleep_def signal_def)
qed

lemma drain_kept:
  assumes "backfill_drain deps i swept n lastTerminal w = Some y"
    and "lawful taken deps" "stored_covered taken deps calls i w" "covered taken (bf_window deps) calls (ss_watermark swept) w"
  shows "keeps taken w (snd y) \<and> stored_covered taken deps calls i (snd y)"
proof -
  let ?P = "\<lambda>deps i swept n lastTerminal w y. lawful taken deps \<and> stored_covered taken deps calls i w
      \<and> covered taken (bf_window deps) calls (ss_watermark swept) w \<longrightarrow> keeps taken w (snd y) \<and> stored_covered taken deps calls i (snd y)"
  have "?P deps i swept n lastTerminal w y"
  proof (rule backfill_drain.raw_induct [where P = ?P, OF _ assms(1)], intro impI)
    fix f deps i swept n lastTerminal w y
    assume IH: "\<And>deps i swept n lastTerminal w y. f deps i swept n lastTerminal w = Some y \<Longrightarrow> ?P deps i swept n lastTerminal w y"
      and step: "(case drain_poll deps i swept n lastTerminal w of
          (Inl e, w1) \<Rightarrow> Some (Inl e, w1)
        | (Inr (terminalCount, nonTerminal), w1) \<Rightarrow>
            if nonTerminal = 0 then Some (Inr terminalCount, w1)
            else f deps i swept (Suc n) (max lastTerminal (int terminalCount)) (sleep deps n w1)) = Some y"
      and ok: "lawful taken deps \<and> stored_covered taken deps calls i w \<and> covered taken (bf_window deps) calls (ss_watermark swept) w"
    obtain r w1 where poll: "drain_poll deps i swept n lastTerminal w = (r, w1)" by fastforce
    have p: "keeps taken w w1 \<and> stored_covered taken deps calls i w1" using poll_kept [OF _ _ _ poll] ok by blast
    show "keeps taken w (snd y) \<and> stored_covered taken deps calls i (snd y)"
    proof (cases "snd y = w1")
      case False
      then obtain t nt where "f deps i swept (Suc n) (max lastTerminal (int t)) (sleep deps n w1) = Some y"
        using step poll by (auto split: sum.splits prod.splits if_splits)
      note IH = IH [OF this] and s = sleep_kept [of deps calls i w1 n]
      have "keeps taken w (sleep deps n w1)" using p s ok keeps_trans by blast
      with IH s p ok covered_keeps keeps_trans show ?thesis by metis
    qed (use p in simp)
  qed
  with assms show ?thesis by simp
qed

end

section \<open>Choosing the run\<close>

lemma covered_None [simp]: "covered taken window calls None w"
  by (simp add: covered_def shouldSkip_def)

lemma stored_covered_None:
  "(\<And>row. getRun i w = Some row \<Longrightarrow> br_last_checkpoint row = None) \<Longrightarrow> stored_covered taken deps calls i w"
  by (auto simp: stored_covered_def decodeCheckpoint_def)

lemma reset_covered:
  assumes "resetRun pg i w = (Some row, w')"
  shows "stored_covered taken deps calls i w' \<and> br_id row = i"
proof
  have "backfill_runs w' = sql_update (\<lambda>r. br_id r = i) (reset_row pg) (backfill_runs w)"
    using assms by (auto simp: resetRun_def Let_def deleteRunCalls_def split: option.splits)
  then have "getRun i w' = map_option (\<lambda>r. if br_id r = i then reset_row pg r else r) (getRun i w)"
    by (simp add: getRun_def first_row_update reset_row_def)
  then have "br_last_checkpoint row' = None" if "getRun i w' = Some row'" for row'
    using that getRun_id [of i w] by (cases "getRun i w") (auto simp: reset_row_def)
  then show "stored_covered taken deps calls i w'" by (rule stored_covered_None)
  show "br_id row = i"
    using assms by (auto simp: resetRun_def Let_def sql_updated_def reset_row_def first_row_def filter_eq_Cons_iff split: option.splits list.splits)
qed

lemma resumed_covered:
  assumes "resumable_run deps runId w = Inr existing" "decodeCheckpoint (bf_json_parse deps) (br_last_checkpoint existing) = Inr cp"
    and stored: "stored_covered (taken_on digest (br_id existing)) deps calls (br_id existing) w"
    and w': "w' = (if br_status existing \<noteq> ''running'' then updateCheckpoint (bf_pg deps) (br_id existing) None (Some ''running'') w else w)"
  shows "covered (taken_on digest (br_id existing)) (bf_window deps) calls (Option.bind cp cp_watermarkStartedAtMs) w'
    \<and> stored_covered (taken_on digest (br_id existing)) deps calls (br_id existing) w'"
proof -
  obtain i where "getRun i w = Some existing" using assms(1) by (auto simp: resumable_run_def split: option.splits if_splits sum.splits)
  then have row: "getRun (br_id existing) w = Some existing" using getRun_id by blast
  have k: "keeps (taken_on digest (br_id existing)) w w'" by (rule queue_ingest.frame_keeps) (simp_all add: w')
  have "covered (taken_on digest (br_id existing)) (bf_window deps) calls (Option.bind cp cp_watermarkStartedAtMs) w"
    using stored row assms(2) by (auto simp: stored_covered_def)
  moreover have "stored_covered (taken_on digest (br_id existing)) deps calls (br_id existing) w'"
    by (rule queue_ingest.stored_covered_step [OF stored k])
      (auto simp: w' getRun_update row checkpoint_row_def coalesce_def split: if_splits)
  ultimately show ?thesis using covered_keeps k by blast
qed

lemma started_covered:
  assumes "startRun pg window st w = (Inr row, w')"
    and stored: "stored_covered (taken_on digest (br_id row)) deps calls (br_id row) w"
  shows "stored_covered (taken_on digest (br_id row)) deps calls (br_id row) w'"
proof -
  have w': "w' = w\<lparr>bw_db := (bw_db w)\<lparr>next_uuid := Suc (next_uuid (bw_db w))\<rparr>, backfill_runs := backfill_runs w @ [row]\<rparr>" "br_last_checkpoint row = None"
    using assms(1) by (auto simp: startRun_def Let_def split: if_splits)
  have same: "getCallState c (db\<lparr>next_uuid := n\<rparr>) = getCallState c db" "hasDeadLetter c (db\<lparr>next_uuid := n\<rparr>) = hasDeadLetter c db" for c db n
    by (simp_all add: getCallState_def hasDeadLetter_def)
  have "backfillAlreadyInPipeline c (db\<lparr>next_uuid := n\<rparr>) = backfillAlreadyInPipeline c db" for c db n
    by (cases "getCallState c db") (simp_all add: backfillAlreadyInPipeline_def same)
  then have k: "keeps (taken_on digest (br_id row)) w w'"
    by (auto simp: keeps_def taken_on_def tracked_def w' same)
  show ?thesis
  proof (cases "getRun (br_id row) w")
    case None
    then have "getRun (br_id row) w' = Some row" by (auto simp: getRun_def w' sql_select_def first_row_def split: list.splits)
    then show ?thesis using w'(2) by (intro stored_covered_None) simp
  next
    case (Some old)
    then have "getRun (br_id row) w' = Some old" by (auto simp: getRun_def w' sql_select_def first_row_def split: list.splits)
    with Some show ?thesis by (intro queue_ingest.stored_covered_step [OF stored k]) auto
  qed
qed

lemma resolve_covered:
  assumes "resolveRun deps w = (Inr (run, cp), w')" "stored_covered (taken_on digest (br_id run)) deps calls (br_id run) w"
  shows "covered (taken_on digest (br_id run)) (bf_window deps) calls (Option.bind cp cp_watermarkStartedAtMs) w'
    \<and> stored_covered (taken_on digest (br_id run)) deps calls (br_id run) w'"
proof (cases "bf_restartFromScratch deps")
  case True
  then obtain i where "resetRun (bf_pg deps) i w = (Some run, w')" "cp = None"
    using assms(1) by (auto simp: resolveRun_def split: option.splits sum.splits prod.splits)
  with reset_covered show ?thesis by auto
next
  case False
  show ?thesis
  proof (cases "bf_resume deps")
    case None
    then have "startRun (bf_pg deps) (bf_window deps) ''running'' w = (Inr run, w')" "cp = None"
      using False assms(1) by (auto simp: resolveRun_def op_bind_def op_return_def split: option.splits sum.splits prod.splits)
    with started_covered assms(2) show ?thesis by auto
  next
    case (Some runId)
    then obtain "resumable_run deps runId w = Inr run" "decodeCheckpoint (bf_json_parse deps) (br_last_checkpoint run) = Inr cp"
      "w' = (if br_status run \<noteq> ''running'' then updateCheckpoint (bf_pg deps) (br_id run) None (Some ''running'') w else w)"
      using False assms(1) by (auto simp: resolveRun_def split: sum.splits)
    with resumed_covered assms(2) show ?thesis by blast
  qed
qed

section \<open>The run\<close>

lemma all_taken_covered: "all_taken taken window (first_listings [] calls) w \<Longrightarrow> covered taken window calls wm w"
  by (auto simp: all_taken_def covered_def)

text \<open>The state a successful body leaves after its drain.\<close>

lemma closing_kept:
  assumes "stored_covered (taken_on digest i) deps calls i w" "setRunStatus deps i st w = (x, w1)" "w' = w1 \<or> w' = signal f w1"
  shows "keeps (taken_on digest i) w w' \<and> stored_covered (taken_on digest i) deps calls i w'"
proof -
  have w1: "bw_db w1 = bw_db w" "backfill_run_calls w1 = backfill_run_calls w"
    using setRunStatus_simps(3,4) [of deps i st w] assms(2) by simp_all
  have s1: "stored_covered (taken_on digest i) deps calls i w1"
    using queue_ingest.stored_covered_status [OF assms(1), of i st] assms(2) by simp
  have w': "bw_db w' = bw_db w1" "backfill_run_calls w' = backfill_run_calls w1" "backfill_runs w' = backfill_runs w1"
    using assms(3) by (auto simp: signal_def)
  have "keeps (taken_on digest i) w w'" by (rule queue_ingest.frame_keeps) (simp_all add: w1 w')
  with queue_ingest.stored_covered_frame [OF s1 w'] show ?thesis by blast
qed

lemma body_covered:
  assumes ingest: "bf_ingestFor deps = createPgBackfillQueueIngest pg digest refuses"
    and chain: "page_chain (bf_list deps) (computeSince (wb_fromMs (bf_window deps)) (BACKFILL_MAX_CALL_MINUTES deps)) 0 None pages"
    and order: "newest_first (concat pages)" and law: "lawful (taken_on digest i) deps"
    and cov: "covered (taken_on digest i) (bf_window deps) (concat pages) (Option.bind cp cp_watermarkStartedAtMs) w"
    and stored: "stored_covered (taken_on digest i) deps (concat pages) i w"
    and body: "backfill_body deps i cp w = Some (r, w')"
  shows "stored_covered (taken_on digest i) deps (concat pages) i w'
    \<and> (isl r \<or> all_taken (taken_on digest i) (bf_window deps) (first_listings [] (concat pages)) w')"
proof -
  let ?taken = "taken_on digest i" and ?seeded = "case cp of Some cp \<Rightarrow> cp_seededTotal cp | None \<Rightarrow> 0"
  obtain r1 w1 where sweep: "backfill_sweep deps i (bf_ingestFor deps i) cp w = Some (r1, w1)"
    and s1: "stored_covered ?taken deps (concat pages) i w1"
    and a1: "isl r1 \<or> all_taken ?taken (bf_window deps) (first_listings [] (concat pages)) w1"
    using queue_ingest.pages_cases [OF chain law, where done_calls = "[]" and i = i and w = w and wm = "Option.bind cp cp_watermarkStartedAtMs"
        and ?wm0.0 = "Option.bind cp cp_watermarkStartedAtMs" and seeded = ?seeded and pg = pg and refuses = refuses] stored cov order
    by (auto simp: backfill_sweep_def ingest all_taken_def)
  show ?thesis
  proof (cases r1)
    case (Inl e)
    with sweep body have "r = Inl e" "w' = w1" by (auto simp: backfill_body_def)
    with s1 show ?thesis by simp
  next
    case (Inr swept0)
    define swept where "swept = swept0\<lparr>ss_seededTotal := max (ss_seededTotal swept0) (countRunCalls i w1)\<rparr>"
    obtain r2 w2 where drain: "backfill_drain deps i swept 0 (- 1) w1 = Some (r2, w2)"
      using sweep Inr body by (auto simp: backfill_body_def swept_def Let_def bind_eq_Some_conv)
    have all: "all_taken ?taken (bf_window deps) (first_listings [] (concat pages)) w1" using a1 Inr by simp
    have d: "keeps ?taken w1 w2" "stored_covered ?taken deps (concat pages) i w2"
      using queue_ingest.drain_kept [OF drain law s1 all_taken_covered [OF all]] by simp_all
    show ?thesis
    proof (cases r2)
      case l: (Inl e)
      with sweep Inr drain body have "r = Inl e" "w' = w2" by (auto simp: backfill_body_def swept_def Let_def)
      with d show ?thesis by simp
    next
      case t: (Inr t)
      obtain x w3 where st: "setRunStatus deps i ''completed'' w2 = (x, w3)" by fastforce
      have "w' = w3 \<or> w' = signal monitor_success w3"
        using sweep Inr drain t st body by (cases x) (auto simp: backfill_body_def swept_def Let_def)
      from closing_kept [OF d(2) st this] d(1) all show ?thesis using keeps_trans all_taken_keeps by blast
    qed
  qed
qed

lemma unlock_covered:
  assumes "stored_covered (taken_on digest i) deps calls i w"
  shows "stored_covered (taken_on digest i) deps calls i (unlock w)" "stored_covered (taken_on digest i) deps calls i (unlock (fail_run deps i w))"
proof -
  have "stored_covered (taken_on digest i) deps calls i (fail_run deps i w)"
    using closing_kept [OF assms surjective_pairing] unfolding fail_run_def by blast
  with assms show "stored_covered (taken_on digest i) deps calls i (unlock w)" "stored_covered (taken_on digest i) deps calls i (unlock (fail_run deps i w))"
    by (auto intro: queue_ingest.stored_covered_frame)
qed

lemma settled_taken:
  "taken_on digest i c w \<Longrightarrow> settled i w (bw_db w) \<Longrightarrow> backfillAlreadyInPipeline c (bw_db w) \<or> tracked_terminal (bw_db w) c"
  by (auto simp: taken_on_def settled_def tracked_def sql_exists_iff)

text \<open>C20: A resumed backfill leaves no gap.  For a listing that is newest-first and ends, fails or repeats a cursor, let a production run (new, resumed or restarted) start
  from a run row whose stored checkpoint is covered: every in-window call listed as started after its watermark was taken on, that is, has advanced, is dead-lettered,
  or is tracked under the run with its job added.  Then whichever way the run ends, on a failed checkpoint write or listing, an unorderable page or a refused job,
  the checkpoint it leaves is covered again, so the next resume skips only calls that were taken on.  And when it succeeds, every in-window call of the listing has
  left the first stage, is dead-lettered or is terminal.\<close>

theorem backfill_leaves_no_gap:
  assumes "BACKFILL_ADVISORY_LOCK_KEY \<notin> set (advisory_locks w)"
    and resolved: "resolveRun deps (w\<lparr>advisory_locks := BACKFILL_ADVISORY_LOCK_KEY # advisory_locks w\<rparr>) = (Inr (run, cp), w1)"
    and "stored_covered (taken_on digest (br_id run)) deps (concat pages) (br_id run) w"
    and "bf_ingestFor deps = createPgBackfillQueueIngest pg digest refuses"
    and "page_chain (bf_list deps) (computeSince (wb_fromMs (bf_window deps)) (BACKFILL_MAX_CALL_MINUTES deps)) 0 None pages"
    and "newest_first (concat pages)" "lawful (taken_on digest (br_id run)) deps"
  shows "case runBackfill deps w of
      None \<Rightarrow> True
    | Some (r, w') \<Rightarrow> stored_covered (taken_on digest (br_id run)) deps (concat pages) (br_id run) w'
        \<and> (case r of
             Inl e \<Rightarrow> True
           | Inr res \<Rightarrow> list_all (\<lambda>c. if callMembership c (bf_window deps) = Include
               then backfillAlreadyInPipeline (rc_callId c) (bw_db w') \<or> tracked_terminal (bw_db w') (rc_callId c) else True) (first_listings [] (concat pages)))"
proof -
  let ?i = "br_id run" and ?w0 = "w\<lparr>advisory_locks := BACKFILL_ADVISORY_LOCK_KEY # advisory_locks w\<rparr>"
  let ?ws = "signal (monitor_start (bf_started_at deps)) w1" and ?taken = "taken_on digest (br_id run)"
  have "stored_covered ?taken deps (concat pages) ?i ?w0"
    by (rule queue_ingest.stored_covered_frame [OF assms(3)]) simp_all
  note res = resolve_covered [OF resolved this]
  have "keeps ?taken w1 ?ws" by (rule queue_ingest.frame_keeps) (simp_all add: signal_def)
  then have cov: "covered ?taken (bf_window deps) (concat pages) (Option.bind cp cp_watermarkStartedAtMs) ?ws"
    using res covered_keeps by blast
  have stored: "stored_covered ?taken deps (concat pages) ?i ?ws"
    by (rule queue_ingest.stored_covered_frame [OF conjunct2 [OF res]]) (simp_all add: signal_def)
  show ?thesis
  proof (cases "backfill_body deps ?i cp ?ws")
    case None
    with assms(1) resolved show ?thesis by (simp add: runBackfill_def)
  next
    case (Some y)
    then obtain r w3 where body: "backfill_body deps ?i cp ?ws = Some (r, w3)" by (cases y) auto
    note kept = body_covered [OF assms(4,5,6,7) cov stored body]
    define w' where "w' = unlock (case r of Inl e \<Rightarrow> if is_checkpoint_failed e then w3 else fail_run deps ?i w3 | Inr _ \<Rightarrow> w3)"
    have run: "runBackfill deps w = Some (r, w')" using assms(1) resolved body by (simp add: runBackfill_def w'_def)
    have stored': "stored_covered ?taken deps (concat pages) ?i w'"
      using unlock_covered [OF conjunct1 [OF kept]] by (simp add: w'_def split: sum.splits)
    show ?thesis
    proof (cases r)
      case (Inl e)
      with run stored' show ?thesis by simp
    next
      case (Inr result)
      have "run_ingest (bf_ingestFor deps ?i) ?taken" unfolding assms(4) by (rule queue_ingest.run_ingest_axioms)
      from body_ended [OF this body] Inr have "settled ?i w3 (bw_db w3)" by auto
      with kept Inr have "list_all (\<lambda>c. if callMembership c (bf_window deps) = Include
          then backfillAlreadyInPipeline (rc_callId c) (bw_db w') \<or> tracked_terminal (bw_db w') (rc_callId c) else True) (first_listings [] (concat pages))"
        using settled_taken by (fastforce simp: list_all_iff all_taken_def w'_def)
      with run stored' Inr show ?thesis by simp
    qed
  qed
qed

section \<open>A resumed run\<close>

text \<open>A printer and a reader of checkpoints, as an instance of \<^verbatim>\<open>JSON.stringify\<close> and \<^verbatim>\<open>JSON.parse\<close> on them.\<close>

definition unary :: "nat \<Rightarrow> string" where "unary n = replicate n CHR ''1'' @ '';''"

definition read_unary :: "string \<Rightarrow> nat \<times> string" where
  "read_unary s = (length (takeWhile (\<lambda>c. c = CHR ''1'') s), tl (dropWhile (\<lambda>c. c = CHR ''1'') s))"

definition print_watermark :: "rat option \<Rightarrow> string" where
  "print_watermark wm = (case wm of None \<Rightarrow> ''n'' | Some r \<Rightarrow>
     (case quotient_of r of (p, q) \<Rightarrow> (if p < 0 then ''-'' else ''+'') @ unary (nat \<bar>p\<bar>) @ unary (nat q)))"

definition read_watermark :: "string \<Rightarrow> rat option \<times> string" where
  "read_watermark s =
     (if hd s = CHR ''n'' then (None, tl s)
      else case read_unary (tl s) of (a, r1) \<Rightarrow> (case read_unary r1 of (b, r2) \<Rightarrow>
        (Some ((if hd s = CHR ''-'' then - of_nat a else of_nat a) / of_nat b), r2)))"

definition print_checkpoint :: "backfill_checkpoint \<Rightarrow> string" where
  "print_checkpoint cp =
     (case cp_phase cp of PH_sweep \<Rightarrow> ''s'' | PH_drain \<Rightarrow> ''d'') @ print_watermark (cp_watermarkStartedAtMs cp)
     @ unary (cp_callsSeen cp) @ unary (cp_seededTotal cp) @ unary (cp_terminalCount cp)"

definition read_checkpoint :: "string \<Rightarrow> backfill_checkpoint" where
  "read_checkpoint s =
     (case read_watermark (tl s) of (wm, r1) \<Rightarrow> (case read_unary r1 of (c, r2) \<Rightarrow> (case read_unary r2 of (sd, r3) \<Rightarrow>
        \<lparr>cp_phase = (if hd s = CHR ''s'' then PH_sweep else PH_drain), cp_watermarkStartedAtMs = wm, cp_callsSeen = c, cp_seededTotal = sd,
         cp_terminalCount = fst (read_unary r3)\<rparr>)))"

lemma read_unary: "read_unary (unary n @ rest) = (n, rest)"
  by (induction n) (simp_all add: read_unary_def unary_def)

lemma read_print_watermark: "read_watermark (print_watermark wm @ rest) = (wm, rest)"
proof (cases wm)
  case (Some r)
  obtain p q where pq: "quotient_of r = (p, q)" by fastforce
  then have "r = of_int p / of_int q" "q > 0" by (simp_all add: quotient_of_div quotient_of_denom_pos)
  with Some pq show ?thesis by (auto simp: read_watermark_def print_watermark_def read_unary of_nat_nat)
qed (simp add: read_watermark_def print_watermark_def)

lemma read_print_checkpoint: "read_checkpoint (print_checkpoint cp) = cp"
  using read_unary [of "cp_terminalCount cp" "[]"]
  by (cases "cp_phase cp") (simp_all add: read_checkpoint_def print_checkpoint_def read_print_watermark read_unary)

definition resumed_backfill :: backfill_deps where
  "resumed_backfill = (sample_backfill (one_page [listed ''c1'' 3, listed ''c9'' 2]))\<lparr>bf_resume := Some ''0'',
     bf_stringify := (\<lambda>j. case backfillCheckpointSchema j of Some cp \<Rightarrow> print_checkpoint cp | None \<Rightarrow> []),
     bf_json_parse := (\<lambda>s. if s = [] then None else Some (checkpoint_json (read_checkpoint s)))\<rparr>"

definition resumed_row :: backfill_run_row where
  "resumed_row = \<lparr>br_id = 0, br_window_start = 0, br_window_end = 10000, br_last_checkpoint = Some (print_checkpoint
     \<lparr>cp_phase = PH_sweep, cp_watermarkStartedAtMs = Some 2, cp_callsSeen = 1, cp_seededTotal = 1, cp_terminalCount = 0\<rparr>),
     br_status = ''failed'', br_created_at = 0, br_updated_at = 0\<rparr>"

definition interrupted_world :: backfill_world where
  "interrupted_world = in_flight_world\<lparr>backfill_runs := [resumed_row]\<rparr>"

lemma resumed_lawful: "lawful (taken_on (\<lambda>s. s) i) resumed_backfill"
proof -
  let ?done = "\<lambda>db. db\<lparr>call_state := map (\<lambda>r. r\<lparr>cs_status := STATUS_COMPLETED\<rparr>) (call_state db)\<rparr>"
  have "getCallState c (?done db) = map_option (\<lambda>r. r\<lparr>cs_status := STATUS_COMPLETED\<rparr>) (getCallState c db)" for c db
    by (auto simp: getCallState_def sql_select_def first_row_def filter_map comp_def split: list.splits)
  then have advanced: "getCallState c db \<noteq> None \<Longrightarrow> backfillAlreadyInPipeline c (?done db)" for c db
    by (auto simp: backfillAlreadyInPipeline_def STATUS_COMPLETED_def STATUS_PROCESSING_def)
  have row: "taken_on (\<lambda>s. s) i c w \<Longrightarrow> getCallState c (bw_db w) \<noteq> None" for c w
    by (auto simp: taken_on_def backfillAlreadyInPipeline_def split: option.splits)
  have fleet: "keeps (taken_on (\<lambda>s. s) i) w (w\<lparr>bw_db := ?done (bw_db w)\<rparr>)" for w
    unfolding keeps_def
  proof (intro allI impI)
    fix c
    assume "taken_on (\<lambda>s. s) i c w"
    from advanced [OF row [OF this]] show "taken_on (\<lambda>s. s) i c (w\<lparr>bw_db := ?done (bw_db w)\<rparr>)" by (simp add: taken_on_def)
  qed
  have "print_checkpoint cp \<noteq> []" for cp by (cases "cp_phase cp") (simp_all add: print_checkpoint_def)
  with fleet show ?thesis
    by (simp add: lawful_def resumed_backfill_def sample_backfill_def schema_checkpoint read_print_checkpoint in_db_def op_return_def)
qed

lemma resumed_start:
  "fst (resolveRun resumed_backfill (interrupted_world\<lparr>advisory_locks := BACKFILL_ADVISORY_LOCK_KEY # advisory_locks interrupted_world\<rparr>))
     = Inr (resumed_row, Some \<lparr>cp_phase = PH_sweep, cp_watermarkStartedAtMs = Some 2, cp_callsSeen = 1, cp_seededTotal = 1, cp_terminalCount = 0\<rparr>)"
  by code_simp

lemma resumed_covers: "stored_covered (taken_on (\<lambda>s. s) 0) resumed_backfill (concat [[listed ''c1'' 3, listed ''c9'' 2]]) 0 interrupted_world"
proof -
  have "getRun 0 interrupted_world = Some resumed_row" by code_simp
  moreover have "decodeCheckpoint (bf_json_parse resumed_backfill) (br_last_checkpoint resumed_row)
      = Inr (Some \<lparr>cp_phase = PH_sweep, cp_watermarkStartedAtMs = Some 2, cp_callsSeen = 1, cp_seededTotal = 1, cp_terminalCount = 0\<rparr>)" by code_simp
  moreover have "taken_on (\<lambda>s. s) 0 ''c1'' interrupted_world" unfolding taken_on_def by (rule disjI1) code_simp
  ultimately show ?thesis by (auto simp: stored_covered_def covered_def shouldSkip_def listed_def)
qed

lemma resumed_pages: "page_chain (bf_list resumed_backfill) since n cursor [[listed ''c1'' 3, listed ''c9'' 2]]"
  using page_chain.ended [of "bf_list resumed_backfill" n since cursor "\<lparr>rp_calls = [listed ''c1'' 3, listed ''c9'' 2], rp_cursor = None\<rparr>"]
  by (simp add: resumed_backfill_def sample_backfill_def one_page_def)

lemma resumed_ends:
  "map_option fst (runBackfill resumed_backfill interrupted_world) = Some (Inr \<lparr>res_runId = 0, res_seededTotal = 2, res_callsSeen = 2, res_terminalCount = 2\<rparr>)"
  by code_simp

theorem backfill_leaves_no_gap_witness:
  "\<exists>w'. runBackfill resumed_backfill interrupted_world = Some (Inr \<lparr>res_runId = 0, res_seededTotal = 2, res_callsSeen = 2, res_terminalCount = 2\<rparr>, w')
     \<and> stored_covered (taken_on (\<lambda>s. s) 0) resumed_backfill [listed ''c1'' 3, listed ''c9'' 2] 0 w'
     \<and> (backfillAlreadyInPipeline ''c9'' (bw_db w') \<or> tracked_terminal (bw_db w') ''c9'')"
proof -
  let ?pages = "[[listed ''c1'' 3, listed ''c9'' 2]]"
  obtain w1 where start: "resolveRun resumed_backfill (interrupted_world\<lparr>advisory_locks := BACKFILL_ADVISORY_LOCK_KEY # advisory_locks interrupted_world\<rparr>)
      = (Inr (resumed_row, Some \<lparr>cp_phase = PH_sweep, cp_watermarkStartedAtMs = Some 2, cp_callsSeen = 1, cp_seededTotal = 1, cp_terminalCount = 0\<rparr>), w1)"
    using resumed_start by (metis prod.collapse)
  have row: "br_id resumed_row = 0" by (simp add: resumed_row_def)
  have lock: "BACKFILL_ADVISORY_LOCK_KEY \<notin> set (advisory_locks interrupted_world)"
    by (simp add: interrupted_world_def in_flight_world_def sample_backfill_world_def)
  have ingest: "bf_ingestFor resumed_backfill = createPgBackfillQueueIngest sample_pg (\<lambda>s. s) (\<lambda>_. None)"
    by (simp add: resumed_backfill_def sample_backfill_def)
  have order: "newest_first (concat ?pages)" by (simp add: newest_first_def listed_def)
  note gap = backfill_leaves_no_gap [OF lock start resumed_covers [folded row] ingest resumed_pages order resumed_lawful]
  have member: "callMembership (listed ''c9'' 2) (bf_window resumed_backfill) = Include" by code_simp
  have fl: "first_listings [] (concat ?pages) = [listed ''c1'' 3, listed ''c9'' 2]" "rc_callId (listed ''c9'' 2) = ''c9''" by (simp_all add: listed_def)
  obtain w' where run: "runBackfill resumed_backfill interrupted_world
      = Some (Inr \<lparr>res_runId = 0, res_seededTotal = 2, res_callsSeen = 2, res_terminalCount = 2\<rparr>, w')"
    using resumed_ends by auto
  from gap run member fl row show ?thesis by auto
qed

end
