(* ===== verification/Backfill_Main.thy ===== *)
theory Backfill_Main
  imports Backfill_Resume
begin

text \<open>
  The entry point \<^verbatim>\<open>src/src/scripts/run-backfill.ts\<close> with the fixture client of \<^verbatim>\<open>src/src/backfill/synthetic-dialpad.ts\<close>: the arguments, the order of
  the guards, the two modes and the monitor.  \<^verbatim>\<open>Date.parse\<close>, the file system, the checks of the redaction configuration and of the
  dependencies, and the stage handlers a client gives are parameters; connections and keys are left out.  The
  theorem shows that no guard can be passed by: real data is processed in production only, and nothing at all without the recorded consents.
\<close>

section \<open>The fixture client\<close>

record synthetic_fixture =
  fx_calls :: "recent_call list"
  fx_transcripts :: "(string \<times> string) list"

text \<open>An optional member: absent, or of the expected type; \<open>None\<close> is a failed parse.\<close>

definition optional_member :: "(json \<Rightarrow> 'a option) \<Rightarrow> json option \<Rightarrow> 'a option option" where
  "optional_member parse v = (case v of None \<Rightarrow> Some None | Some j \<Rightarrow> map_option Some (parse j))"

definition json_text :: "json \<Rightarrow> string option" where
  "json_text j = (case j of JStr s \<Rightarrow> Some s | _ \<Rightarrow> None)"

definition json_number :: "json \<Rightarrow> rat option" where
  "json_number j = (case j of JNum n \<Rightarrow> Some n | _ \<Rightarrow> None)"

definition fixtureCallSchema :: "json \<Rightarrow> recent_call option" where
  "fixtureCallSchema j =
     (case j of
        JObj kvs \<Rightarrow>
          (case (Option.bind (map_of kvs ''callId'') json_text, Option.bind (map_of kvs ''startedAt'') json_number,
                 optional_member json_number (map_of kvs ''endedAt''), optional_member json_text (map_of kvs ''state''),
                 optional_member json_text (map_of kvs ''direction''), optional_member json_number (map_of kvs ''duration'')) of
             (Some callId, Some startedAt, Some endedAt, Some state, Some direction, Some duration) \<Rightarrow>
               if callId = [] then None
               else Some \<lparr>rc_callId = callId, rc_state = state, rc_direction = direction, rc_duration = duration,
                          rc_startedAt = Some startedAt, rc_endedAt = endedAt\<rparr>
           | _ \<Rightarrow> None)
      | _ \<Rightarrow> None)"

definition fixtureSchema :: "json \<Rightarrow> synthetic_fixture option" where
  "fixtureSchema j =
     (case j of
        JObj kvs \<Rightarrow>
          (case (map_of kvs ''calls'', map_of kvs ''transcripts'') of
             (Some (JArr cs), Some (JObj ts)) \<Rightarrow>
               (case (those (map fixtureCallSchema cs), those (map (\<lambda>(k, v). map_option (Pair k) (json_text v)) ts)) of
                  (Some calls, Some transcripts) \<Rightarrow> Some \<lparr>fx_calls = calls, fx_transcripts = transcripts\<rparr>
                | _ \<Rightarrow> None)
           | _ \<Rightarrow> None)
      | _ \<Rightarrow> None)"

record synthetic_client =
  sc_fetchTranscript :: "string \<Rightarrow> fetch_error + transcript_result"
  sc_listRecentlyConcludedCalls :: "nat \<Rightarrow> int \<Rightarrow> string option \<Rightarrow> fetch_error + recent_page"

definition createSyntheticDialpadClient :: "synthetic_fixture \<Rightarrow> synthetic_client" where
  "createSyntheticDialpadClient fixture =
     \<lparr>sc_fetchTranscript = (\<lambda>callId.
        Inr (case map_of (fx_transcripts fixture) callId of
               None \<Rightarrow> TR_not_ready | Some body \<Rightarrow> if body = [] then TR_not_ready else TR_ready body None)),
      sc_listRecentlyConcludedCalls = (\<lambda>n since cursor.
        Inr \<lparr>rp_calls = filter (\<lambda>c. case rc_startedAt c of None \<Rightarrow> False | Some t \<Rightarrow> t \<ge> of_int since) (fx_calls fixture), rp_cursor = None\<rparr>)\<rparr>"

definition unready_call :: "synthetic_fixture \<Rightarrow> recent_call option" where
  "unready_call fixture = find (\<lambda>c. case map_of (fx_transcripts fixture) (rc_callId c) of None \<Rightarrow> True | Some body \<Rightarrow> body = []) (fx_calls fixture)"

definition loadSyntheticDialpadFixture :: "(string \<Rightarrow> string option) \<Rightarrow> (string \<Rightarrow> json option) \<Rightarrow> string \<Rightarrow> backfill_thrown + synthetic_client" where
  "loadSyntheticDialpadFixture readFile json_parse path =
     (case Option.bind (Option.bind (readFile path) json_parse) fixtureSchema of
        None \<Rightarrow> Inl (BackfillError R_invalid_synthetic_fixture [])
      | Some fixture \<Rightarrow>
          (case unready_call fixture of
             Some c \<Rightarrow> Inl (BackfillError R_invalid_synthetic_fixture [(''call_id'', JStr (rc_callId c))])
           | None \<Rightarrow> Inr (createSyntheticDialpadClient fixture)))"

section \<open>The arguments\<close>

record backfill_args =
  ba_fromMs :: int
  ba_toMs :: int
  ba_resume :: "string option"
  ba_restartFromScratch :: bool
  ba_matchKeys :: bool
  ba_syntheticDialpadFixture :: "string option"

text \<open>The argument after the first occurrence of a flag, \<^verbatim>\<open>undefined\<close> behind the end.\<close>

definition flag_value :: "string list \<Rightarrow> string \<Rightarrow> string option" where
  "flag_value argv flag =
     (let i = indexOf argv flag in if i \<ge> 0 \<and> nat (i + 1) < length argv then Some (argv ! nat (i + 1)) else None)"

definition parseArgs :: "(string \<Rightarrow> int option) \<Rightarrow> string list \<Rightarrow> backfill_thrown + backfill_args" where
  "parseArgs date_parse argv =
     (case (flag_value argv ''--from'', flag_value argv ''--to'') of
        (Some fromRaw, Some toRaw) \<Rightarrow>
          (case (date_parse fromRaw, date_parse toRaw) of
             (Some fromMs, Some toMs) \<Rightarrow>
               if fromMs \<ge> toMs then Inl (BackfillError R_invalid_window [])
               else Inr \<lparr>ba_fromMs = fromMs, ba_toMs = toMs, ba_resume = flag_value argv ''--resume'',
                         ba_restartFromScratch = (''--restart-from-scratch'' \<in> set argv), ba_matchKeys = (''--match-keys'' \<in> set argv),
                         ba_syntheticDialpadFixture = flag_value argv ''--synthetic-dialpad-fixture''\<rparr>
           | _ \<Rightarrow> Inl (BackfillError R_invalid_window []))
      | _ \<Rightarrow> Inl (BackfillError R_invalid_window []))"

section \<open>The entry point\<close>

record main_deps =
  mn_config :: "string \<Rightarrow> string option"
  mn_alerts :: alert_config
  mn_deliver :: deliver_deps
  mn_redaction_error :: "js_error option"
  mn_not_ready :: "js_error option"
  mn_stallThresholdMs :: int
  mn_recorded_gates :: "string list"
  mn_date_parse :: "string \<Rightarrow> int option"
  mn_readFile :: "string \<Rightarrow> string option"
  mn_digest :: "string \<Rightarrow> string"
  mn_queue_refuses :: "string \<Rightarrow> js_error option"
  mn_list :: "nat \<Rightarrow> int \<Rightarrow> string option \<Rightarrow> fetch_error + recent_page"
  mn_handlers :: "(string \<Rightarrow> fetch_error + transcript_result) \<Rightarrow> stage_handlers"
  mn_slaMinutesFor :: "held_reason \<Rightarrow> int"
  mn_run :: backfill_deps

text \<open>The alert of a failed checkpoint write; its delivery leaves no trace in the tables but the bookkeeping of the row.\<close>

definition emitCheckpointAlert :: "alert_config \<Rightarrow> deliver_deps \<Rightarrow> fail_context \<Rightarrow> unit hop" where
  "emitCheckpointAlert config deps context db =
     (Inr (), aw_db (snd (emitAlert config deps
        \<lparr>em_code = BACKFILL_CHECKPOINT_FAILED, em_processingState = PST_degraded, em_context = Some context, em_severity = None\<rparr>
        \<lparr>aw_db = db, aw_posts = []\<rparr>)))"

definition run_inline :: "main_deps \<Rightarrow> (string \<Rightarrow> fetch_error + transcript_result) \<Rightarrow> string \<Rightarrow> unit hop" where
  "run_inline d fetchTranscript callId db =
     (case runPipeline (bf_pg (mn_run d)) (mn_slaMinutesFor d) (mn_handlers d fetchTranscript) callId db of
        (Inl e, db') \<Rightarrow> (Inl (case e of RunDb err \<Rightarrow> js_of_db err | _ \<Rightarrow> plain_error []), db')
      | (Inr _, db') \<Rightarrow> (Inr (), db'))"

definition run_deps :: "main_deps \<Rightarrow> backfill_args \<Rightarrow> backfill_deps" where
  "run_deps d args = (mn_run d)
     \<lparr>bf_env := NODE_ENV (mn_alerts d), bf_window := \<lparr>wb_fromMs = ba_fromMs args, wb_toMs = ba_toMs args\<rparr>, bf_resume := ba_resume args,
      bf_restartFromScratch := ba_restartFromScratch args, bf_emitCheckpointAlert := emitCheckpointAlert (mn_alerts d) (mn_deliver d)\<rparr>"

text \<open>The run of a mode: the worker fleet's queue, or the pipeline inline on the fixture, which has no queue.\<close>

definition run_mode :: "main_deps \<Rightarrow> backfill_args \<Rightarrow> backfill_mode \<Rightarrow> backfill_world \<Rightarrow> ((backfill_thrown + backfill_result) \<times> backfill_world) option" where
  "run_mode d args mode w =
     (case mode of
        Production_real \<Rightarrow>
          (case mn_not_ready d of
             Some e \<Rightarrow> Some (Inl (OtherThrow e), w)
           | None \<Rightarrow> runBackfill ((run_deps d args)\<lparr>bf_list := mn_list d,
               bf_ingestFor := createPgBackfillQueueIngest (bf_pg (mn_run d)) (mn_digest d) (mn_queue_refuses d)\<rparr>) w)
      | Staging_synthetic \<Rightarrow>
          (case loadSyntheticDialpadFixture (mn_readFile d) (bf_json_parse (mn_run d)) (the (ba_syntheticDialpadFixture args)) of
             Inl e \<Rightarrow> Some (Inl e, w)
           | Inr client \<Rightarrow>
               if (case mn_config d ''RAW_DATABASE_URL'' of None \<Rightarrow> True | Some u \<Rightarrow> u = []) then Some (Inl (OtherThrow (plain_error ''RAW_DATABASE_URL is not set'')), w)
               else runBackfill ((run_deps d args)\<lparr>bf_list := sc_listRecentlyConcludedCalls client,
                 bf_ingestFor := createPgBackfillInlineIngest (bf_pg (mn_run d)) (run_inline d (sc_fetchTranscript client))\<rparr>) w))"

text \<open>The guards before any connection, in their order: the mode and the check URL, or the error.\<close>

definition preflight :: "main_deps \<Rightarrow> string list \<Rightarrow> backfill_thrown + (backfill_args \<times> backfill_mode \<times> string)" where
  "preflight d argv =
     (let env = NODE_ENV (mn_alerts d) in
      case mn_redaction_error d of
        Some e \<Rightarrow> Inl (OtherThrow e)
      | None \<Rightarrow>
          (case parseArgs (mn_date_parse d) argv of
             Inl e \<Rightarrow> Inl e
           | Inr args \<Rightarrow>
               if ba_matchKeys args then Inl (BackfillError R_match_keys_unsupported [])
               else (case assertBackfillEnvironment env (ba_syntheticDialpadFixture args \<noteq> None) of
                       Inl e \<Rightarrow> Inl e
                     | Inr mode \<Rightarrow>
                         if requireCheckUrl env (mn_config d) HB_backfill \<noteq> None then Inl (OtherThrow (plain_error ''CONFIG_MISSING_OR_INVALID''))
                         else if \<not> requireAlertWebhookUrl (mn_alerts d) then Inl (OtherThrow (plain_error ''CONFIG_MISSING_OR_INVALID''))
                         else if (case mn_config d ''DATABASE_URL'' of None \<Rightarrow> True | Some u \<Rightarrow> u = []) then Inl (OtherThrow (plain_error ''DATABASE_URL is not set''))
                         else (case checkUrlFor (mn_config d) HB_backfill of
                                 None \<Rightarrow> Inl (OtherThrow (plain_error ''BACKFILL_CHECK_URL is not set''))
                               | Some base \<Rightarrow> Inr (args, mode, base)))))"

definition backfill_main :: "main_deps \<Rightarrow> string list \<Rightarrow> backfill_world \<Rightarrow> ((backfill_thrown + unit) \<times> backfill_world) option" where
  "backfill_main d argv w =
     (case preflight d argv of
        Inl e \<Rightarrow> Some (Inl e, w)
      | Inr (args, mode, base) \<Rightarrow>
          (case createBackfillMonitor (deriveJobSignalUrls base) (mn_stallThresholdMs d) of
             None \<Rightarrow> Some (Inl (OtherThrow (plain_error ''the four signal URLs must be pairwise distinct'')), w)
           | Some m \<Rightarrow>
               let w0 = w\<lparr>bw_monitor := m\<rparr> in
               map_option (\<lambda>(r, w'). (r, signal monitor_stop w'))
                 (case assertBackfillProcessingGates (mn_recorded_gates d) (ba_matchKeys args) of
                    Inl e \<Rightarrow> Some (Inl e, w0)
                  | Inr _ \<Rightarrow> map_option (\<lambda>(r, w'). (map_sum id (\<lambda>_. ()) r, w')) (run_mode d args mode w0))))"

section \<open>No run without its guards\<close>

lemma preflight_mode:
  assumes "preflight d argv = Inr (args, mode, base)"
  shows "''--match-keys'' \<notin> set argv \<and> \<not> ba_matchKeys args
    \<and> (if flag_value argv ''--synthetic-dialpad-fixture'' = None then NODE_ENV (mn_alerts d) \<notin> {''development'', ''test'', ''staging''}
        else NODE_ENV (mn_alerts d) = ''staging'')"
proof -
  obtain args' where args: "parseArgs (mn_date_parse d) argv = Inr args'" "args' = args" "\<not> ba_matchKeys args"
    and env: "assertBackfillEnvironment (NODE_ENV (mn_alerts d)) (ba_syntheticDialpadFixture args \<noteq> None) = Inr mode"
    using assms by (auto simp: preflight_def Let_def split: option.splits sum.splits if_splits)
  have "ba_matchKeys args = (''--match-keys'' \<in> set argv)" "ba_syntheticDialpadFixture args = flag_value argv ''--synthetic-dialpad-fixture''"
    using args(1,2) by (auto simp: parseArgs_def split: option.splits if_splits)
  with args(3) env show ?thesis by (auto simp: assertBackfillEnvironment_def Let_def split: if_splits)
qed

lemma gates_recorded: "assertBackfillProcessingGates recorded False = Inr u \<Longrightarrow> set REQUIRED_PROCESSING_GATE_TYPES \<subseteq> set recorded"
  by (auto simp: assertBackfillProcessingGates_def checkProcessingGates_def deriveServiceTitanMatchingRequirement_def requiredGateTypesFor_def
      filter_empty_conv Let_def split: if_splits)

text \<open>A loaded fixture serves a ready transcript for every call it lists, so the inline run never waits for one.\<close>

lemma fixture_ready:
  assumes "loadSyntheticDialpadFixture readFile json_parse path = Inr client" "sc_listRecentlyConcludedCalls client n since cursor = Inr page"
    and "c \<in> set (rp_calls page)"
  shows "\<exists>body. sc_fetchTranscript client (rc_callId c) = Inr (TR_ready body None) \<and> body \<noteq> []"
proof -
  obtain fixture where f: "client = createSyntheticDialpadClient fixture" "unready_call fixture = None"
    using assms(1) by (auto simp: loadSyntheticDialpadFixture_def split: option.splits)
  have "c \<in> set (fx_calls fixture)" using assms(2,3) by (auto simp: f(1) createSyntheticDialpadClient_def)
  with f(2) obtain body where "map_of (fx_transcripts fixture) (rc_callId c) = Some body" "body \<noteq> []"
    by (auto simp: unready_call_def find_None_iff split: option.splits)
  then show ?thesis by (simp add: f(1) createSyntheticDialpadClient_def)
qed

text \<open>C22: The backfill entry point is guarded.  Unless every required consent is recorded, match-key write-back is not asked for, and the environment and the fixture agree
  (a fixture in staging, none in production, never in development or test), the entry point ends with an error, leaves the database, the run tables and
  the locks as they were, and sends no signal.\<close>

theorem backfill_main_guarded:
  assumes "\<not> (set REQUIRED_PROCESSING_GATE_TYPES \<subseteq> set (mn_recorded_gates d) \<and> ''--match-keys'' \<notin> set argv
    \<and> (if flag_value argv ''--synthetic-dialpad-fixture'' = None then NODE_ENV (mn_alerts d) \<notin> {''development'', ''test'', ''staging''}
       else NODE_ENV (mn_alerts d) = ''staging''))"
  shows "case backfill_main d argv w of
      Some (Inl e, w') \<Rightarrow> w' = w \<or> (\<exists>m. w' = w\<lparr>bw_monitor := m\<rparr> \<and> jm_pings m = [])
    | _ \<Rightarrow> False"
proof (cases "preflight d argv")
  case (Inl e)
  then show ?thesis by (simp add: backfill_main_def)
next
  case (Inr x)
  then obtain args mode base where x: "preflight d argv = Inr (args, mode, base)" by (cases x) auto
  note pre = preflight_mode [OF this]
  obtain m where m: "createBackfillMonitor (deriveJobSignalUrls base) (mn_stallThresholdMs d) = Some m" "jm_pings m = []"
    by (simp add: createBackfillMonitor_def derived_distinct)
  show ?thesis
  proof (cases "assertBackfillProcessingGates (mn_recorded_gates d) (ba_matchKeys args)")
    case (Inl e)
    have "backfill_main d argv w = Some (Inl e, signal monitor_stop (w\<lparr>bw_monitor := m\<rparr>))"
      by (simp add: backfill_main_def x m Inl)
    then show ?thesis using m(2) by (auto simp: signal_def monitor_stop_def)
  next
    case (Inr u)
    with pre have "set REQUIRED_PROCESSING_GATE_TYPES \<subseteq> set (mn_recorded_gates d)" using gates_recorded by metis
    with pre assms show ?thesis by blast
  qed
qed

definition staging_main :: main_deps where
  "staging_main = \<lparr>mn_config = (\<lambda>v. Some ''x''),
     mn_alerts = \<lparr>ALERT_WEBHOOK_URL = Some ''x'', ALERT_WEBHOOK_TIMEOUT_MS = 1, ALERT_DELIVERY_BACKOFF_MS = 1, ALERT_DELIVERY_MAX_ATTEMPTS = 1, NODE_ENV = ''staging''\<rparr>,
     mn_deliver = \<lparr>dd_zod_datetime = (\<lambda>_. True), dd_pg = sample_pg, dd_now = 0, dd_post = (\<lambda>_ _ _ _. Inr ())\<rparr>,
     mn_redaction_error = None, mn_not_ready = None, mn_stallThresholdMs = 1, mn_recorded_gates = REQUIRED_PROCESSING_GATE_TYPES,
     mn_date_parse = (\<lambda>s. if s = ''a'' then Some 0 else Some 10000), mn_readFile = (\<lambda>_. None), mn_digest = (\<lambda>s. s), mn_queue_refuses = (\<lambda>_. None),
     mn_list = one_page [], mn_handlers = (\<lambda>_. defaultStageHandlers), mn_slaMinutesFor = (\<lambda>_. 60), mn_run = sample_backfill (one_page [])\<rparr>"

theorem backfill_main_guarded_witness:
  "\<exists>e. backfill_main staging_main [''--from'', ''a'', ''--to'', ''b''] sample_backfill_world = Some (Inl e, sample_backfill_world)
     \<and> e = BackfillError R_staging_requires_synthetic [(''node_env'', JStr ''staging'')]"
proof -
  let ?argv = "[''--from'', ''a'', ''--to'', ''b'']"
  have "\<not> (set REQUIRED_PROCESSING_GATE_TYPES \<subseteq> set (mn_recorded_gates staging_main) \<and> ''--match-keys'' \<notin> set ?argv
    \<and> (if flag_value ?argv ''--synthetic-dialpad-fixture'' = None then NODE_ENV (mn_alerts staging_main) \<notin> {''development'', ''test'', ''staging''}
       else NODE_ENV (mn_alerts staging_main) = ''staging''))"
    by (simp add: staging_main_def flag_value_def indexOf_def)
  note guarded = backfill_main_guarded [OF this, of sample_backfill_world]
  have "backfill_main staging_main ?argv sample_backfill_world
      = Some (Inl (BackfillError R_staging_requires_synthetic [(''node_env'', JStr ''staging'')]), sample_backfill_world)"
    by (simp add: backfill_main_def preflight_def parseArgs_def flag_value_def indexOf_def staging_main_def assertBackfillEnvironment_def)
  with guarded show ?thesis by auto
qed

end
