(* ===== verification/Backfill_Limits.thy ===== *)
theory Backfill_Limits
  imports Backfill_Properties
begin

text \<open>
  What a backfill leaves open: a listing that is not newest-first loses calls, and a restart stops awaiting the calls already in flight.  Both rest on one
  fact about the sweep: a call that the watermark skips, or that is already in the pipeline, is left alone.
\<close>

section \<open>A call left alone\<close>

definition left_alone :: "string \<Rightarrow> backfill_world \<Rightarrow> backfill_world \<Rightarrow> bool" where
  "left_alone c w w' \<longleftrightarrow> getCallState c (bw_db w') = getCallState c (bw_db w) \<and> hasDeadLetter c (bw_db w') = hasDeadLetter c (bw_db w)
     \<and> (\<forall>i. tracked i c w' = tracked i c w)"

lemma left_alone_refl [simp]: "left_alone c w w"
  by (simp add: left_alone_def)

lemma left_alone_trans: "left_alone c a b \<Longrightarrow> left_alone c b d \<Longrightarrow> left_alone c a d"
  by (simp add: left_alone_def)

lemma left_alone_frame: "bw_db w' = bw_db w \<Longrightarrow> backfill_run_calls w' = backfill_run_calls w \<Longrightarrow> left_alone c w w'"
  by (simp add: left_alone_def tracked_def)

lemma left_alone_pipeline: "left_alone c w w' \<Longrightarrow> backfillAlreadyInPipeline c (bw_db w') = backfillAlreadyInPipeline c (bw_db w)"
  by (auto simp: left_alone_def backfillAlreadyInPipeline_def Let_def split: option.splits)

lemma left_alone_terminal: "left_alone c w w' \<Longrightarrow> tracked_terminal (bw_db w') c = tracked_terminal (bw_db w) c"
  by (simp add: left_alone_def tracked_terminal_def)

lemma seed_other:
  assumes "backfill_seed pg source call db = (r, db')" "rc_callId call \<noteq> c"
  shows "getCallState c db' = getCallState c db \<and> hasDeadLetter c db' = hasDeadLetter c db"
  using assms
  by (auto simp: backfill_seed_def run_db_def seedCallStateIfAbsent_def getCallState_def hasDeadLetter_def sql_select_def new_call_state_def first_row_def
      split: if_splits)

lemma gap_other:
  assumes "bi_ingestGap (createPgBackfillQueueIngest pg digest refuses i) call w = (r, w')" "rc_callId call \<noteq> c"
  shows "left_alone c w w'"
proof -
  obtain r1 db1 where seed: "backfill_seed pg BACKFILL_SOURCE call (bw_db w) = (r1, db1)" by fastforce
  let ?w1 = "w\<lparr>bw_db := db1\<rparr>"
  obtain r2 w2 where track: "insertRunCallIfAbsent pg i (rc_callId call) ?w1 = (r2, w2)" by fastforce
  have s1: "left_alone c w ?w1" using seed_other [OF seed assms(2)] by (simp add: left_alone_def tracked_def)
  have "bw_db w2 = db1" "\<And>j. tracked j c w2 = tracked j c ?w1"
    using track assms(2) by (auto simp: insertRunCallIfAbsent_def tracked_def sql_exists_iff split: if_splits)
  then have s2: "left_alone c w w2" using s1 by (simp add: left_alone_def)
  let ?add = "in_db (case refuses (jobIdForCall digest (rc_callId call)) of Some e \<Rightarrow> op_throw e | None \<Rightarrow> run_write (enqueueCall digest (rc_callId call)))"
  have s3: "left_alone c w2 (snd (?add w2))"
    by (auto simp: in_db_def op_throw_def run_write_def enqueueCall_def queue_add_def left_alone_def tracked_def getCallState_def hasDeadLetter_def split: option.splits)
  have "w' = ?w1 \<or> w' = w2 \<or> w' = snd (?add w2)"
    using assms(1) seed track
    by (cases r1; cases r2) (auto simp: createPgBackfillQueueIngest_def op_bind_def in_db_def split: sum.splits prod.splits)
  then show ?thesis using s1 s2 s3 left_alone_trans by blast
qed

text \<open>Why the sweep may pass a call by: the watermark skips each of its listings, or it is in the pipeline.\<close>

definition passed_by :: "string \<Rightarrow> rat option \<Rightarrow> recent_call list \<Rightarrow> backfill_world \<Rightarrow> bool" where
  "passed_by c wm calls w \<longleftrightarrow>
     list_all (\<lambda>x. rc_callId x = c \<longrightarrow> shouldSkip (the (rc_startedAt x)) wm) calls \<or> backfillAlreadyInPipeline c (bw_db w)"

lemma calls_left_alone:
  assumes "backfill_calls (createPgBackfillQueueIngest pg digest refuses i) window wm calls seen seeded w = (r, w')" "passed_by c wm calls w"
  shows "left_alone c w w'"
  using assms
proof (induction calls arbitrary: seen seeded w)
  case Nil
  then show ?case by (simp add: op_return_def)
next
  case (Cons call calls)
  let ?ingest = "createPgBackfillQueueIngest pg digest refuses i"
  let ?in = "backfillAlreadyInPipeline (rc_callId call) (bw_db w)"
  have rest: "passed_by c wm calls w" using Cons.prems(2) by (auto simp: passed_by_def)
  have check: "bi_alreadyInPipeline ?ingest (rc_callId call) w = (Inr ?in, w)"
    by (simp add: createPgBackfillQueueIngest_def in_db_def run_read_def)
  show ?case
  proof (cases "rc_callId call \<in> set seen \<or> shouldSkip (the (rc_startedAt call)) wm \<or> callMembership call window = Skip \<or> ?in")
    case True
    then obtain seen' where "backfill_calls ?ingest window wm calls seen' seeded w = (r, w')"
      using Cons.prems(1) check by (auto simp: op_bind_def split: if_splits)
    then show ?thesis using rest by (rule Cons.IH)
  next
    case False
    then have "rc_callId call \<noteq> c" using Cons.prems(2) by (auto simp: passed_by_def)
    obtain r2 w2 where gap: "bi_ingestGap ?ingest call w = (r2, w2)" by fastforce
    note step = gap_other [OF gap \<open>rc_callId call \<noteq> c\<close>]
    show ?thesis
    proof (cases r2)
      case (Inl e)
      then have "w' = w2" using Cons.prems(1) False check gap by (simp add: op_bind_def)
      then show ?thesis using step by simp
    next
      case (Inr u)
      then have "backfill_calls ?ingest window wm calls (seen @ [rc_callId call]) (seeded + 1) w2 = (r, w')"
        using Cons.prems(1) False check gap by (simp add: op_bind_def)
      moreover have "passed_by c wm calls w2" using rest left_alone_pipeline [OF step] by (simp add: passed_by_def)
      ultimately show ?thesis using Cons.IH step left_alone_trans by blast
    qed
  qed
qed

lemma write_left_alone: "writeCheckpoint deps i cp w = (Inr u, w') \<Longrightarrow> left_alone c w w'"
  by (rule left_alone_frame)
     (auto simp: writeCheckpoint_def saveCheckpoint_def op_bind_def in_db_def updateCheckpoint_def Let_def split: option.splits prod.splits sum.splits)

lemma page_left_alone:
  assumes "backfill_page deps i (createPgBackfillQueueIngest pg digest refuses i) calls wm seen seeded w = (Inr (wm', seen', seeded'), w')" "passed_by c wm calls w"
  shows "left_alone c w w' \<and> wm' = page_watermark wm calls"
proof -
  let ?ingest = "createPgBackfillQueueIngest pg digest refuses i"
  have "pageStartedAtFailure calls = None" using assms(1) by (auto simp: backfill_page_def op_throw_def split: option.splits)
  then obtain s1 n1 w1 cpt where calls: "backfill_calls ?ingest (bf_window deps) wm calls seen seeded w = (Inr (s1, n1), w1)"
    and written: "writeCheckpoint deps i cpt w1 = (Inr (), w')" and "wm' = page_watermark wm calls"
    using assms(1) by (auto simp: backfill_page_def Let_def op_bind_def op_return_def split: prod.splits sum.splits)
  then show ?thesis using calls_left_alone [OF calls assms(2)] write_left_alone [OF written] left_alone_trans by blast
qed

text \<open>A call that is late: whenever it is listed, a page before that one has a call that started earlier.\<close>

primrec late :: "string \<Rightarrow> recent_call list \<Rightarrow> recent_call list list \<Rightarrow> bool" where
  "late c earlier [] = True"
| "late c earlier (page # pages) =
     (list_all (\<lambda>x. rc_callId x = c \<longrightarrow> list_ex (\<lambda>y. the (rc_startedAt y) < the (rc_startedAt x)) earlier) page \<and> late c (earlier @ page) pages)"

lemma pages_left_alone:
  assumes "page_chain (bf_list deps) since n cursor pages"
    and "backfill_pages deps i (createPgBackfillQueueIngest pg digest refuses i) since n cursor wm seen seeded w = Some (Inr swept, w')"
    and "late c earlier pages \<or> backfillAlreadyInPipeline c (bw_db w)" "\<forall>x. list_ex (\<lambda>y. the (rc_startedAt y) < x) earlier \<longrightarrow> shouldSkip x wm"
  shows "left_alone c w w'"
  using assms
proof (induction arbitrary: wm seen seeded w earlier)
  case (failed n cursor e)
  then show ?case by (simp add: backfill_pages.simps)
next
  case (ended n cursor page)
  have skipped: "passed_by c wm (rp_calls page) w" using ended.prems(2,3) by (auto simp: passed_by_def list_all_iff)
  obtain wm' seen' seeded' where "backfill_page deps i (createPgBackfillQueueIngest pg digest refuses i) (rp_calls page) wm seen seeded w = (Inr (wm', seen', seeded'), w')"
    using ended.prems(1) ended.hyps by (subst (asm) backfill_pages.simps) (auto split: sum.splits prod.splits)
  from page_left_alone [OF this skipped] show ?case by blast
next
  case (stuck n cursor page k)
  have "\<nexists>sw. backfill_pages deps i (createPgBackfillQueueIngest pg digest refuses i) since n cursor wm seen seeded w = Some (Inr sw, w')"
    using stuck.hyps by (subst backfill_pages.simps) (auto split: sum.splits prod.splits)
  then show ?case using stuck.prems(1) by blast
next
  case (more n cursor page k pages)
  let ?ingest = "createPgBackfillQueueIngest pg digest refuses i"
  have skipped: "passed_by c wm (rp_calls page) w" using more.prems(2,3) by (auto simp: passed_by_def list_all_iff)
  obtain wm' seen' seeded' w1 where run: "backfill_page deps i ?ingest (rp_calls page) wm seen seeded w = (Inr (wm', seen', seeded'), w1)"
    and rest: "backfill_pages deps i ?ingest since (Suc n) (Some k) wm' seen' seeded' w1 = Some (Inr swept, w')"
    using more.prems(1) more.hyps by (subst (asm) backfill_pages.simps) (auto split: sum.splits prod.splits)
  note step = page_left_alone [OF run skipped]
  have "late c (earlier @ rp_calls page) pages \<or> backfillAlreadyInPipeline c (bw_db w1)"
    using more.prems(2) left_alone_pipeline step by auto
  moreover have "\<forall>x. list_ex (\<lambda>y. the (rc_startedAt y) < x) (earlier @ rp_calls page) \<longrightarrow> shouldSkip x wm'"
    using more.prems(3) step by (auto simp: shouldSkip_page list_ex_iff)
  ultimately have "left_alone c w1 w'" by (rule more.IH [OF rest])
  then show ?case using step left_alone_trans by blast
qed

text \<open>A sweep that succeeds has read its listing to the end.\<close>

lemma pages_end:
  assumes "backfill_pages deps i ingest since n cursor wm seen seeded w = Some y" "\<not> isl (fst y)"
  shows "\<exists>pages. page_chain (bf_list deps) since n cursor pages"
proof -
  have "\<not> isl (fst y) \<longrightarrow> (\<exists>pages. page_chain (bf_list deps) since n cursor pages)"
  proof (rule backfill_pages.raw_induct [where P = "\<lambda>deps i ing since n cursor wm seen seeded w y.
      \<not> isl (fst y) \<longrightarrow> (\<exists>pages. page_chain (bf_list deps) since n cursor pages)", OF _ assms(1)], intro impI)
    fix f deps i ing since n cursor wm seen seeded w y
    assume IH: "\<And>deps i ing since n cursor wm seen seeded w y. f deps i ing since n cursor wm seen seeded w = Some y \<Longrightarrow>
        \<not> isl (fst y) \<longrightarrow> (\<exists>pages. page_chain (bf_list deps) since n cursor pages)"
      and y: "\<not> isl (fst y)"
      and step: "(case bf_list deps n since cursor of
          Inl e \<Rightarrow> Some (Inl (ListingError e), w)
        | Inr page \<Rightarrow>
            (case backfill_page deps i ing (rp_calls page) wm seen seeded w of
               (Inl e, w1) \<Rightarrow> Some (Inl e, w1)
             | (Inr (watermark1, seen1, seeded1), w1) \<Rightarrow>
                 if rp_cursor page \<noteq> None \<and> rp_cursor page = cursor then Some (Inl (ListingError cursor_stuck), w1)
                 else if rp_cursor page = None
                 then Some (Inr \<lparr>ss_watermark = watermark1, ss_callsSeen = length seen1, ss_seededTotal = seeded1\<rparr>, w1)
                 else f deps i ing since (Suc n) (rp_cursor page) watermark1 seen1 seeded1 w1)) = Some y"
    obtain page where page: "bf_list deps n since cursor = Inr page" using step y by (auto split: sum.splits)
    obtain wm1 seen1 seeded1 w1 where run: "backfill_page deps i ing (rp_calls page) wm seen seeded w = (Inr (wm1, seen1, seeded1), w1)"
      using step y page by (auto split: sum.splits prod.splits)
    show "\<exists>pages. page_chain (bf_list deps) since n cursor pages"
    proof (cases "rp_cursor page")
      case None
      then show ?thesis using page page_chain.ended by blast
    next
      case (Some k)
      show ?thesis
      proof (cases "cursor = Some k")
        case True
        then show ?thesis using page Some page_chain.stuck by blast
      next
        case False
        then have "f deps i ing since (Suc n) (Some k) wm1 seen1 seeded1 w1 = Some y" using step page run Some by simp
        from IH [OF this] y obtain pages where "page_chain (bf_list deps) since (Suc n) (Some k) pages" by blast
        then show ?thesis using page Some False page_chain.more by blast
      qed
    qed
  qed
  then show ?thesis using assms(2) by blast
qed

section \<open>A whole run\<close>

text \<open>What the fleet keeps, the drain keeps.\<close>

lemma drain_keeps:
  assumes "backfill_drain deps i swept n lastTerminal w = Some y" "\<not> isl (fst y)" "\<And>n db. Q db \<Longrightarrow> Q (bf_fleet deps n db)" "Q (bw_db w)"
  shows "Q (bw_db (snd y))"
proof -
  have "\<not> isl (fst y) \<longrightarrow> (\<forall>n db. Q db \<longrightarrow> Q (bf_fleet deps n db)) \<longrightarrow> Q (bw_db w) \<longrightarrow> Q (bw_db (snd y))"
  proof (rule backfill_drain.raw_induct [where P = "\<lambda>deps i swept n lastTerminal w y.
      \<not> isl (fst y) \<longrightarrow> (\<forall>n db. Q db \<longrightarrow> Q (bf_fleet deps n db)) \<longrightarrow> Q (bw_db w) \<longrightarrow> Q (bw_db (snd y))", OF _ assms(1)], intro impI)
    fix f deps i swept n lastTerminal w y
    assume IH: "\<And>deps i swept n lastTerminal w y. f deps i swept n lastTerminal w = Some y \<Longrightarrow>
        \<not> isl (fst y) \<longrightarrow> (\<forall>n db. Q db \<longrightarrow> Q (bf_fleet deps n db)) \<longrightarrow> Q (bw_db w) \<longrightarrow> Q (bw_db (snd y))"
      and y: "\<not> isl (fst y)" and fleet: "\<forall>n db. Q db \<longrightarrow> Q (bf_fleet deps n db)" and start: "Q (bw_db w)"
      and step: "(case drain_poll deps i swept n lastTerminal w of
          (Inl e, w1) \<Rightarrow> Some (Inl e, w1)
        | (Inr (terminalCount, nonTerminal), w1) \<Rightarrow>
            if nonTerminal = 0 then Some (Inr terminalCount, w1)
            else f deps i swept (Suc n) (max lastTerminal (int terminalCount)) (sleep deps n w1)) = Some y"
    obtain t nt w1 where poll: "drain_poll deps i swept n lastTerminal w = (Inr (t, nt), w1)"
      using step y by (auto split: sum.splits prod.splits)
    have db: "bw_db w1 = bw_db w" using poll_cases [OF poll] by simp
    show "Q (bw_db (snd y))"
    proof (cases "nt = 0")
      case True
      then show ?thesis using step poll db start by auto
    next
      case False
      then have "f deps i swept (Suc n) (max lastTerminal (int t)) (sleep deps n w1) = Some y" using step poll by simp
      from IH [OF this] show ?thesis using y fleet start db by simp
    qed
  qed
  then show ?thesis using assms(2-4) by blast
qed

text \<open>A run that succeeds, in its parts: it chose a run, swept, and drained.\<close>

lemma run_succeeded:
  assumes "runBackfill deps w = Some (Inr res, w')"
  obtains run cp w1 swept w2 swept' t w3 where
    "resolveRun deps (w\<lparr>advisory_locks := BACKFILL_ADVISORY_LOCK_KEY # advisory_locks w\<rparr>) = (Inr (run, cp), w1)" "res_runId res = br_id run"
    "backfill_sweep deps (br_id run) (bf_ingestFor deps (br_id run)) cp (signal (monitor_start (bf_started_at deps)) w1) = Some (Inr swept, w2)"
    "backfill_drain deps (br_id run) swept' 0 (- 1) w2 = Some (Inr t, w3)"
    "bw_db w' = bw_db w3" "backfill_run_calls w' = backfill_run_calls w3"
proof -
  let ?w0 = "w\<lparr>advisory_locks := BACKFILL_ADVISORY_LOCK_KEY # advisory_locks w\<rparr>"
  have lock: "BACKFILL_ADVISORY_LOCK_KEY \<notin> set (advisory_locks w)" using assms by (auto simp: runBackfill_def split: if_splits)
  obtain run cp w1 where res: "resolveRun deps ?w0 = (Inr (run, cp), w1)"
    using assms lock by (auto simp: runBackfill_def split: prod.splits sum.splits)
  let ?ws = "signal (monitor_start (bf_started_at deps)) w1"
  obtain w4 where body: "backfill_body deps (br_id run) cp ?ws = Some (Inr res, w4)" "w' = unlock w4"
    using assms lock res by (auto simp: runBackfill_def split: sum.splits)
  obtain r1 w2 where sweep1: "backfill_sweep deps (br_id run) (bf_ingestFor deps (br_id run)) cp ?ws = Some (r1, w2)"
    using body(1) by (auto simp: backfill_body_def bind_eq_Some_conv)
  then obtain swept where sweep: "backfill_sweep deps (br_id run) (bf_ingestFor deps (br_id run)) cp ?ws = Some (Inr swept, w2)"
    using body(1) by (cases r1) (auto simp: backfill_body_def)
  define swept' where "swept' = swept\<lparr>ss_seededTotal := max (ss_seededTotal swept) (countRunCalls (br_id run) w2)\<rparr>"
  obtain r2 w3 where drain2: "backfill_drain deps (br_id run) swept' 0 (- 1) w2 = Some (r2, w3)"
    using body(1) sweep by (auto simp: backfill_body_def Let_def swept'_def bind_eq_Some_conv)
  then obtain t where drain: "backfill_drain deps (br_id run) swept' 0 (- 1) w2 = Some (Inr t, w3)"
    using body(1) sweep by (cases r2) (auto simp: backfill_body_def Let_def swept'_def [symmetric])
  have "res_runId res = br_id run" "bw_db w4 = bw_db w3" "backfill_run_calls w4 = backfill_run_calls w3"
    using body(1) sweep drain by (auto simp: backfill_body_def Let_def swept'_def [symmetric] signal_def setRunStatus_def split: option.splits)
  then show thesis using that [OF res _ sweep drain] body(2) by simp
qed

lemma resolve_calls:
  assumes "resolveRun deps w = (Inr (run, cp), w')"
  shows "call_state (bw_db w') = call_state (bw_db w)" "dead_letter (bw_db w') = dead_letter (bw_db w)"
    "set (backfill_run_calls w') \<subseteq> set (backfill_run_calls w)"
  using assms
  by (auto simp: resolveRun_def resetRun_def deleteRunCalls_def startRun_def updateCheckpoint_def op_bind_def op_return_def Let_def sql_delete_def
      split: if_splits option.splits sum.splits prod.splits)

lemma sweep_left_alone:
  assumes "bf_ingestFor deps = createPgBackfillQueueIngest pg digest refuses"
    and "page_chain (bf_list deps) (computeSince (wb_fromMs (bf_window deps)) (BACKFILL_MAX_CALL_MINUTES deps)) 0 None pages"
    and "late c [] pages \<or> backfillAlreadyInPipeline c (bw_db w)"
    and "backfill_sweep deps i (bf_ingestFor deps i) cp w = Some (Inr swept, w')"
  shows "left_alone c w w'"
  by (rule pages_left_alone [OF assms(2) assms(4) [unfolded backfill_sweep_def assms(1)] assms(3)]) simp

text \<open>C36: The watermark is more than an optimisation.  Take a listing that ends and a call of it that is late: each time it is listed, an earlier page has a call
  that started before it (so the listing is not newest-first).  However that call lies in the window, a production run over this listing that succeeds (new, resumed or
  restarted) has not seeded it: if the call had no row before and the fleet makes none, it has none afterwards, and the run does not track it newly.\<close>

theorem out_of_order_call_lost:
  assumes "bf_ingestFor deps = createPgBackfillQueueIngest pg digest refuses"
    and "page_chain (bf_list deps) (computeSince (wb_fromMs (bf_window deps)) (BACKFILL_MAX_CALL_MINUTES deps)) 0 None pages"
    and "late c [] pages" "x \<in> set (concat pages)" "rc_callId x = c" "callMembership x (bf_window deps) = Include"
    and "getCallState c (bw_db w) = None" "\<And>n db. getCallState c db = None \<Longrightarrow> getCallState c (bf_fleet deps n db) = None"
    and "runBackfill deps w = Some (Inr res, w')"
  shows "getCallState c (bw_db w') = None \<and> (\<forall>i. tracked i c w' \<longrightarrow> tracked i c w)"
proof -
  obtain run cp w1 swept w2 swept' t w3 where parts:
    "resolveRun deps (w\<lparr>advisory_locks := BACKFILL_ADVISORY_LOCK_KEY # advisory_locks w\<rparr>) = (Inr (run, cp), w1)"
    "backfill_sweep deps (br_id run) (bf_ingestFor deps (br_id run)) cp (signal (monitor_start (bf_started_at deps)) w1) = Some (Inr swept, w2)"
    "backfill_drain deps (br_id run) swept' 0 (- 1) w2 = Some (Inr t, w3)" "bw_db w' = bw_db w3" "backfill_run_calls w' = backfill_run_calls w3"
    by (rule run_succeeded [OF assms(9)])
  have alone: "left_alone c (signal (monitor_start (bf_started_at deps)) w1) w2"
    using sweep_left_alone [OF assms(1,2) _ parts(2)] assms(3) by blast
  have "getCallState c (bw_db w1) = None" using resolve_calls(1) [OF parts(1)] assms(7) by (simp add: getCallState_def)
  then have none: "getCallState c (bw_db w2) = None" using alone by (simp add: left_alone_def signal_def)
  have "getCallState c (bw_db (snd (Inr t :: backfill_thrown + nat, w3))) = None"
    by (rule drain_keeps [OF parts(3), where Q = "\<lambda>db. getCallState c db = None"]) (simp_all add: none assms(8))
  moreover have "tracked i c w" if "tracked i c w'" for i
  proof -
    have "backfill_run_calls w3 = backfill_run_calls w2" using drain_result [OF parts(3)] by (simp add: drained_def)
    then have "tracked i c w1" using that parts(5) alone by (simp add: tracked_def left_alone_def signal_def)
    then show ?thesis using resolve_calls(3) [OF parts(1)] by (auto simp: tracked_def sql_exists_iff)
  qed
  ultimately show ?thesis using parts(4) by simp
qed

lemma mapped_Inr:
  assumes "map_sum f g r = Inr b"
  obtains a where "r = Inr a" "g a = b"
  using assms by (cases r) auto

lemma late_run_ends:
  "map_option (map_prod (map_sum (\<lambda>_. ()) res_callsSeen) (\<lambda>w. last (jm_pings (bw_monitor w))))
       (runBackfill (sample_backfill (two_pages [listed ''c1'' 2000] [listed ''c2'' 3000])) sample_backfill_world)
     = Some (Inr 2, ''https://hc/x'')"
  by code_simp

theorem out_of_order_call_lost_witness:
  "let deps = sample_backfill (two_pages [listed ''c1'' 2000] [listed ''c2'' 3000]) in
   callMembership (listed ''c2'' 3000) (bf_window deps) = Include
   \<and> (\<exists>res w'. runBackfill deps sample_backfill_world = Some (Inr res, w') \<and> res_callsSeen res = 2 \<and> last (jm_pings (bw_monitor w')) = ''https://hc/x''
       \<and> getCallState ''c2'' (bw_db w') = None \<and> (\<forall>i. tracked i ''c2'' w' \<longrightarrow> tracked i ''c2'' sample_backfill_world))"
proof -
  let ?pages = "[[listed ''c1'' 2000], [listed ''c2'' 3000]]"
  let ?deps = "sample_backfill (two_pages [listed ''c1'' 2000] [listed ''c2'' 3000])" and ?w = sample_backfill_world
  obtain res w' where run: "runBackfill ?deps ?w = Some (Inr res, w')" "res_callsSeen res = 2" "last (jm_pings (bw_monitor w')) = ''https://hc/x''"
    using late_run_ends by (auto elim!: mapped_Inr)
  have ingest: "bf_ingestFor ?deps = createPgBackfillQueueIngest sample_pg (\<lambda>s. s) (\<lambda>_. None)" by (simp add: sample_backfill_def)
  have "bf_list ?deps = two_pages [listed ''c1'' 2000] [listed ''c2'' 3000]" by (simp add: sample_backfill_def)
  then have chain: "page_chain (bf_list ?deps) since 0 None ?pages" for since
    using page_chain.more [of "two_pages [listed ''c1'' 2000] [listed ''c2'' 3000]" 0 since None "\<lparr>rp_calls = [listed ''c1'' 2000], rp_cursor = Some ''p2''\<rparr>" "''p2''" "[[listed ''c2'' 3000]]"]
      page_chain.ended [of "two_pages [listed ''c1'' 2000] [listed ''c2'' 3000]" "Suc 0" since "Some ''p2''" "\<lparr>rp_calls = [listed ''c2'' 3000], rp_cursor = None\<rparr>"]
    by (simp add: two_pages_def)
  have late: "late ''c2'' [] ?pages" "listed ''c2'' 3000 \<in> set (concat ?pages)" "rc_callId (listed ''c2'' 3000) = ''c2''"
    "callMembership (listed ''c2'' 3000) (bf_window ?deps) = Include"
    by (simp_all add: listed_def callMembership_def sample_backfill_def)
  have none: "getCallState ''c2'' (bw_db ?w) = None" by (simp add: sample_backfill_world_def getCallState_None empty_db_def)
  have fleet: "getCallState ''c2'' db = None \<Longrightarrow> getCallState ''c2'' (bf_fleet ?deps n db) = None" for n db
    by (auto simp: sample_backfill_def getCallState_None)
  from out_of_order_call_lost [OF ingest chain late none fleet run(1)] run late(4) show ?thesis unfolding Let_def by blast
qed

section \<open>Restart\<close>

lemma restart_forgets:
  assumes "resolveRun deps w = (Inr (run, cp), w')" "bf_restartFromScratch deps" "bf_resume deps = Some runId" "bf_uuid_in deps runId = Some i"
  shows "br_id run = i" "\<not> tracked i c w'"
proof -
  obtain existing where e: "getRun i w = Some existing" "resetRun (bf_pg deps) (br_id existing) w = (Some run, w')"
    using assms by (auto simp: resolveRun_def resumable_run_def split: option.splits sum.splits if_splits prod.splits)
  have id: "br_id existing = i" by (rule getRun_id [OF e(1)])
  then show "br_id run = i" "\<not> tracked i c w'"
    using e(2) by (auto simp: resetRun_def Let_def deleteRunCalls_def tracked_def sql_exists_iff sql_delete_def sql_updated_def reset_row_def first_row_def
        filter_eq_Cons_iff split: option.splits list.splits)
qed

text \<open>C37: A restart stops awaiting the calls already in flight.  Take a run that tracks a call which is past the first stage (or dead-lettered).  When it is restarted
  from scratch with the production ingest and succeeds, it no longer tracks that call; so if the call was not terminal and the fleet does not finish it meanwhile, the
  run has succeeded while the call is not terminal.\<close>

theorem restart_forgets_calls_in_flight:
  assumes "bf_ingestFor deps = createPgBackfillQueueIngest pg digest refuses"
    and "bf_restartFromScratch deps" "bf_resume deps = Some runId" "bf_uuid_in deps runId = Some i"
    and "tracked i c w" "backfillAlreadyInPipeline c (bw_db w)"
    and "runBackfill deps w = Some (Inr res, w')"
  shows "res_runId res = i \<and> \<not> tracked i c w'
    \<and> ((\<forall>n db. \<not> tracked_terminal db c \<longrightarrow> \<not> tracked_terminal (bf_fleet deps n db) c) \<and> \<not> tracked_terminal (bw_db w) c
        \<longrightarrow> \<not> tracked_terminal (bw_db w') c)"
proof -
  let ?ws = "\<lambda>w1. signal (monitor_start (bf_started_at deps)) w1"
  obtain run cp w1 swept w2 swept' t w3 where parts:
    "resolveRun deps (w\<lparr>advisory_locks := BACKFILL_ADVISORY_LOCK_KEY # advisory_locks w\<rparr>) = (Inr (run, cp), w1)" "res_runId res = br_id run"
    "backfill_sweep deps (br_id run) (bf_ingestFor deps (br_id run)) cp (?ws w1) = Some (Inr swept, w2)"
    "backfill_drain deps (br_id run) swept' 0 (- 1) w2 = Some (Inr t, w3)" "bw_db w' = bw_db w3" "backfill_run_calls w' = backfill_run_calls w3"
    by (rule run_succeeded [OF assms(7)])
  note forgot = restart_forgets [OF parts(1) assms(2-4)]
  have same: "getCallState c (bw_db w1) = getCallState c (bw_db w)" "hasDeadLetter c (bw_db w1) = hasDeadLetter c (bw_db w)"
    using resolve_calls [OF parts(1)] by (simp_all add: getCallState_def hasDeadLetter_def)
  then have "backfillAlreadyInPipeline c (bw_db (?ws w1))" using assms(6)
    by (auto simp: backfillAlreadyInPipeline_def signal_def Let_def split: option.splits)
  moreover obtain pages where "page_chain (bf_list deps) (computeSince (wb_fromMs (bf_window deps)) (BACKFILL_MAX_CALL_MINUTES deps)) 0 None pages"
    using pages_end [OF parts(3) [unfolded backfill_sweep_def]] by auto
  ultimately have alone: "left_alone c (?ws w1) w2" using sweep_left_alone [OF assms(1) _ _ parts(3)] by blast
  have "backfill_run_calls w3 = backfill_run_calls w2" using drain_result [OF parts(4)] by (simp add: drained_def)
  then have "\<not> tracked i c w'" using forgot(2) [of c] alone parts(6) by (simp add: tracked_def left_alone_def signal_def)
  moreover have "\<not> tracked_terminal (bw_db w') c"
    if "\<forall>n db. \<not> tracked_terminal db c \<longrightarrow> \<not> tracked_terminal (bf_fleet deps n db) c" "\<not> tracked_terminal (bw_db w) c"
  proof -
    have "\<not> tracked_terminal (bw_db w2) c" using left_alone_terminal [OF alone] same that(2) by (simp add: tracked_terminal_def signal_def)
    then have "\<not> tracked_terminal (bw_db (snd (Inr t :: backfill_thrown + nat, w3))) c"
      by (intro drain_keeps [OF parts(4), where Q = "\<lambda>db. \<not> tracked_terminal db c"]) (use that(1) in simp_all)
    then show ?thesis using parts(5) by simp
  qed
  ultimately show ?thesis using parts(2) forgot(1) by blast
qed

definition restarted_backfill :: backfill_deps where
  "restarted_backfill = sample_backfill (one_page [listed ''c1'' 2000])\<lparr>bf_resume := Some ''0'', bf_restartFromScratch := True, bf_fleet := (\<lambda>_ db. db)\<rparr>"

lemma restarted_run_ends:
  "map_option (map_prod (map_sum (\<lambda>_. ()) res_terminalCount) (\<lambda>w. (last (jm_pings (bw_monitor w)), map br_status (backfill_runs w)))) (runBackfill restarted_backfill in_flight_world)
     = Some (Inr 0, (''https://hc/x'', [''completed'']))"
  "tracked 0 ''c1'' in_flight_world" "backfillAlreadyInPipeline ''c1'' (bw_db in_flight_world)" "\<not> tracked_terminal (bw_db in_flight_world) ''c1''"
  by code_simp+

theorem restart_forgets_calls_in_flight_witness:
  "\<exists>res w'. runBackfill restarted_backfill in_flight_world = Some (Inr res, w') \<and> res_runId res = 0 \<and> tracked 0 ''c1'' in_flight_world \<and> \<not> tracked 0 ''c1'' w'
     \<and> \<not> tracked_terminal (bw_db w') ''c1'' \<and> last (jm_pings (bw_monitor w')) = ''https://hc/x'' \<and> map br_status (backfill_runs w') = [''completed'']"
proof -
  obtain res w' where run: "runBackfill restarted_backfill in_flight_world = Some (Inr res, w')" "last (jm_pings (bw_monitor w')) = ''https://hc/x''"
      "map br_status (backfill_runs w') = [''completed'']"
    using restarted_run_ends(1) by (auto elim!: mapped_Inr)
  have deps: "bf_ingestFor restarted_backfill = createPgBackfillQueueIngest sample_pg (\<lambda>s. s) (\<lambda>_. None)" "bf_restartFromScratch restarted_backfill"
    "bf_resume restarted_backfill = Some ''0''" "bf_uuid_in restarted_backfill ''0'' = Some 0" "\<And>n db. bf_fleet restarted_backfill n db = db"
    by (simp_all add: restarted_backfill_def sample_backfill_def)
  from restart_forgets_calls_in_flight [OF deps(1-4) restarted_run_ends(2,3) run(1)] deps(5) restarted_run_ends(2,4) run show ?thesis by auto
qed

end
