(* ===== verification/Spec2Isabelle.thy ===== *)
theory Spec2Isabelle
  imports Alerting Storage_Properties Review_Correct Extract_Correct Pipeline_Properties Worker Retention_Forecast Webhook_Correct Backfill_Main Backfill_Limits
begin

text \<open>
  A verification development for the call-insight pipeline under \<^verbatim>\<open>src/src\<close>: calls of a phone system are
  ingested, their transcripts fetched, redacted, classified and turned into structured knowledge by a model, with a
  review queue for what the pipeline may not decide, and an alerting path for operators.

  \<^bold>\<open>The program and its theories.\<close>  State lives in Postgres tables; every component is a set of functions over them.
  The tables are the fields of the record \<open>db\<close> (theory \<open>Tables\<close>); an operation is a function from \<open>db\<close> to a result or an
  error and the new \<open>db\<close> (theory \<open>Prelude\<close>), so a raised error keeps what was written before it, and \<open>withTransaction\<close> rolls back.

    \<^item> \<open>Prelude\<close>, \<open>Vocabulary\<close>, \<open>Tables\<close>, \<open>Js_Date\<close>, \<open>Js_Regex\<close>: JSON values, operations, SQL over lists of rows; the closed
      vocabularies of \<^verbatim>\<open>db/enums.ts\<close>, \<^verbatim>\<open>pipeline/stages.ts\<close> and \<^verbatim>\<open>failure-model/categories.ts\<close>; the row schemas of
      \<^verbatim>\<open>db/schemas\<close>; ISO dates; regular expressions with JavaScript's leftmost, ordered-choice matching.
    \<^item> \<open>Call_State_Repo\<close>, \<open>Review_Repo\<close>, \<open>Alert_Repo\<close>, \<open>Artifact_Repo\<close>, \<open>Model_Cost\<close>: the repositories of
      \<^verbatim>\<open>db/repositories\<close> and \<^verbatim>\<open>db/restricted\<close> and the cost guardrail of \<^verbatim>\<open>model/cost.ts\<close>.  \<open>Storage_Properties\<close>
      proves that a hold comes with its review, that verdicts latch, that a raw purge is final and that spending is capped up to what settlements overrun their reservations.
    \<^item> \<open>Failure_Catalog\<close>, \<open>Failure_Model\<close>, \<open>Alerting\<close>: \<^verbatim>\<open>failure-model/*\<close> and \<^verbatim>\<open>alerting/*\<close>.  Deliverers are the steps of
      an inductive transition system whose invariant bounds the posts of every interleaving; a sweep is a run of it.
    \<^item> \<open>Runner\<close>, \<open>Runner_Correct\<close>: \<^verbatim>\<open>pipeline/state-machine.ts\<close>.  The handlers are a record of functions; the locale of the
      runner states what a handler must keep, and its lemmas give the moves of a run on the abstract state machine \<open>edge\<close>.
    \<^item> \<open>Pipeline_Queue\<close>, \<open>Model_Output\<close>, \<open>Model_Stage\<close>, \<open>Stage_Handlers\<close>, \<open>Stages_Correct\<close>: \<^verbatim>\<open>queue/pipeline-queue.ts\<close>, prompts and
      parsers, \<^verbatim>\<open>anthropic/client.ts\<close>, \<^verbatim>\<open>pipeline/model-stage-shared.ts\<close> and the stage handlers, with the interpretation of
      the runner's locale on them.
    \<^item> \<open>Residual_Scan\<close>, \<open>Extract_Gates\<close>, \<open>Extract_Correct\<close>: \<^verbatim>\<open>redaction/residual-scan.ts\<close> and
      \<^verbatim>\<open>pipeline/extract/gates.ts\<close>, with the longest-common-subsequence equivalence and the soundness of the verbatim gate.
    \<^item> \<open>Redaction\<close>, \<open>Redaction_Correct\<close>, \<open>Redaction_Repair\<close>, \<open>Detectors\<close>, \<open>Redact_Stage\<close>, \<open>Redact_Correct\<close>: \<^verbatim>\<open>redaction/*\<close> and
      \<^verbatim>\<open>pipeline/redact.ts\<close>.  Merging, tokens, the repair loop and its termination, each mirror against the sub-scan it mirrors,
      and the privacy boundary of the whole stage.
    \<^item> \<open>Review_Actions\<close>, \<open>Review_Correct\<close>: \<^verbatim>\<open>review/*\<close>: the action matrix, the transaction of every action as a refinement of
      the abstract \<open>action_view\<close>, idempotence, the outbox, and the audited reveal.
    \<^item> \<open>Pipeline_Correct\<close>, \<open>Pipeline_Properties\<close>: the composition of the stages and the properties of a production run.
    \<^item> \<open>Drain\<close>, \<open>Review_Queue_Jobs\<close>, \<open>Review_Jobs_Correct\<close>, \<open>Reconciliation\<close>, \<open>Reconciliation_Correct\<close>: \<^verbatim>\<open>review-queue/*\<close>,
      \<^verbatim>\<open>reconciliation/*\<close> and \<^verbatim>\<open>services/reconciliation-cron.ts\<close>.  Three loops that read batches until nothing is due are instances of
      one locale, which gives termination and that each item is attempted once; the sweep, and the cron as the composition of its duties.
    \<^item> \<open>Worker\<close>: \<^verbatim>\<open>worker/*\<close>, the processor of a job and the listener of its failures.  BullMQ, which calls them, is third-party code: the loop \<open>run_job\<close>
      states what the worker relies on it for, and the life of a job from its first fetch to its completion or its dead letter is proved under it.
    \<^item> \<open>Webhook_Payload\<close>, \<open>Webhook_Receiver\<close>, \<open>Webhook_Correct\<close>: \<^verbatim>\<open>dialpad/webhook/*\<close> on \<^verbatim>\<open>http/webhook/*\<close> and \<^verbatim>\<open>http/stores/*\<close>.  Node's cryptography, base64
      and JSON parsing are parameters; the two replay stores are instances of \<open>replay_laws\<close>, in which the chain is analysed once.
    \<^item> \<open>Batch_Loop\<close>, \<open>Retention\<close>, \<open>Retention_Correct\<close>, \<open>Retention_Properties\<close>, \<open>Retention_Forecast\<close>: \<^verbatim>\<open>retention/*\<close> and the retention cron.
      The SQL of the purge is generic over its table, and so is the model: a table is a record of its columns, an instance of
      \<open>retained_table\<close>, and a pass an instance of \<open>batch_pass\<close>.  A statement may fail and a bounded select may return any of the due rows.
    \<^item> \<open>Job_Monitor\<close>, \<open>Backfill\<close>, \<open>Backfill_Correct\<close>, \<open>Backfill_Properties\<close>, \<open>Backfill_Resume\<close>, \<open>Backfill_Limits\<close>, \<open>Backfill_Main\<close>:
      \<^verbatim>\<open>heartbeat/*\<close>, \<^verbatim>\<open>backfill/*\<close>, its two
      repositories and \<^verbatim>\<open>scripts/run-backfill.ts\<close>.  The monitor
      is a transition system whose interval may fire at any moment; the sweep is proved for any ingest that keeps the contract \<open>run_ingest\<close>, which
      the production ingest fulfils, and the drain runs against an arbitrary worker fleet.  A checkpoint is covered when what its watermark skips
      was taken on; every run keeps that, so resuming leaves no gap.  \<open>Backfill_Limits\<close> shows for which listings and restarts that says less than it seems.
    \<^item> \<open>Samples\<close>: concrete databases for the witnesses.

  \<^bold>\<open>Modelling decisions.\<close>
    \<^item> Third-party code is a parameter: the Dialpad client, the model SDK, the NER pipeline, the cipher of the key provider, the
      digest, \<^verbatim>\<open>JSON.parse\<close>, the webhook transport.  No hypothesis is made on them, except that digests of different payloads
      differ where two fingerprints are compared, and that \<^verbatim>\<open>JSON.parse\<close> reads back a printed checkpoint.  The backfill also takes the worker
      fleet and its checkpoint alert as parameters; where a property needs it, they undo nothing that was taken on (\<open>lawful\<close>).
    \<^item> The database clock is \<open>pg_now\<close>, one reading per operation, and the process clock a parameter.  The two databases of
      the deployment (\<^verbatim>\<open>pool\<close>, \<^verbatim>\<open>rawPool\<close>) are fields of one record.  A database outage is not modelled.
    \<^item> Characters are bytes and classification is ASCII; the full-width at sign, the middle dot and the curly apostrophe of
      some patterns are outside the alphabet.  Numbers of the configuration, scores and costs are exact rationals; cost rows are
      rounded to six decimals as the column is.
    \<^item> A queue is the list of the jobs it accepted, with a parameter that says when it refuses; that BullMQ drops a job whose id it still has is not
      modelled.  The count queries of a purge's dry run outside its labelled steps do not fail.
    \<^item> Error messages are kept up to the point where they embed identifiers; logging has no effect on the state.

  \<^bold>\<open>Loops.\<close>  The repair loop counts down the source's iteration limit; \<open>repair_reaches_clean\<close> shows a limit above the text length
  is always enough, and a limit that is not enough is the source's \<^verbatim>\<open>converged: false\<close>.  Pattern matching recurses on the text left and
  the gate loop on the one retry left.  The stage loop recurses on the distance to the final stage.  Loops whose end depends on the outside
  (batches of due rows, pages of a listing, fetches of a job) are \<open>partial_function (option)\<close>, and their properties show that they return.

  \<^bold>\<open>Not modelled.\<close>  The Dialpad
  HTTP client and the ciphers and keys, which the stages take as parameters; the HTTP and status pages, the export, notes and
  evaluation surfaces, configuration parsing and the other scripts, which render or wire what is modelled here.
\<close>

end
